(* ===== verification/Prelude.thy ===== *)
theory Prelude
  imports Main
begin

text \<open>
  Shared vocabulary of the development.

  The C++ code reports a recoverable error by returning an \<open>absl::Status\<close>, and it
  stops for good when a \<open>CHECK\<close> or \<open>DCHECK\<close> fails or when it runs into undefined
  behaviour. Both are values here: \<open>fail\<close> is either a status code (the message is
  not modelled) or a \<open>fault\<close>. A method that mutates an object is an \<open>op\<close>: a
  function of the object's state that returns the failure or the result together with
  the state it leaves behind, so the mutations made before an error stay visible to a
  caller that goes on after it. A \<open>DCHECK\<close> is modelled as checked (debug build):
  where a theorem shows that no fault occurs, the release build behaves the same.
\<close>

section \<open>Failures and effectful operations\<close>

datatype status_code = InvalidArgument | NotFound | Internal | Unimplemented
  | TfLiteError  \<comment> \<open>kTfLiteError of TensorFlow Lite\<close>

datatype fault =
    CheckFailed      \<comment> \<open>a failed CHECK, TF_CHECK_OK or LOG(FATAL)\<close>
  | DCheckFailed     \<comment> \<open>a failed DCHECK (debug build)\<close>
  | NullDeref        \<comment> \<open>a null pointer is dereferenced\<close>
  | OutOfBounds      \<comment> \<open>a vector or array is indexed outside its bounds\<close>
  | SignedOverflow   \<comment> \<open>signed integer arithmetic overflows\<close>
  | ShiftRange       \<comment> \<open>a shift count outside the width of the type\<close>
  | DivByZero
  | Uninitialized    \<comment> \<open>an uninitialised variable is read\<close>
  | LengthError      \<comment> \<open>a container asked for an impossible size\<close>
  | Diverges         \<comment> \<open>a loop that does not end\<close>

datatype fail = Status status_code | Fault fault

type_synonym 'a res = "fail + 'a"

definition bindR :: "'a res \<Rightarrow> ('a \<Rightarrow> 'b res) \<Rightarrow> 'b res" where
  "bindR r f = (case r of Inl e \<Rightarrow> Inl e | Inr x \<Rightarrow> f x)"

lemma bindR_simps [simp]: "bindR (Inl e) f = Inl e" "bindR (Inr x) f = f x"
  by (simp_all add: bindR_def)

lemma bindR_eq_Inr: "bindR r f = Inr y \<longleftrightarrow> (\<exists>x. r = Inr x \<and> f x = Inr y)"
  by (cases r) auto

primrec mapR :: "('x \<Rightarrow> 'a res) \<Rightarrow> 'x list \<Rightarrow> 'a list res" where
  "mapR f [] = Inr []"
| "mapR f (x # xs) = bindR (f x) (\<lambda>y. bindR (mapR f xs) (\<lambda>ys. Inr (y # ys)))"

type_synonym ('s, 'a) op = "'s \<Rightarrow> (fail + 'a) \<times> 's"

definition ret :: "'a \<Rightarrow> ('s, 'a) op" where
  "ret x = (\<lambda>s. (Inr x, s))"

definition andThen :: "('s, 'a) op \<Rightarrow> ('a \<Rightarrow> ('s, 'b) op) \<Rightarrow> ('s, 'b) op" where
  "andThen m f = (\<lambda>s. case m s of (Inl e, s') \<Rightarrow> (Inl e, s') | (Inr x, s') \<Rightarrow> f x s')"

definition failWith :: "status_code \<Rightarrow> ('s, 'a) op" where
  "failWith e = (\<lambda>s. (Inl (Status e), s))"

definition faultWith :: "fault \<Rightarrow> ('s, 'a) op" where
  "faultWith e = (\<lambda>s. (Inl (Fault e), s))"

definition gets :: "('s \<Rightarrow> 'a) \<Rightarrow> ('s, 'a) op" where
  "gets f = (\<lambda>s. (Inr (f s), s))"

definition modify :: "('s \<Rightarrow> 's) \<Rightarrow> ('s, unit) op" where
  "modify f = (\<lambda>s. (Inr (), f s))"

definition liftR :: "'a res \<Rightarrow> ('s, 'a) op" where
  "liftR r = (\<lambda>s. (r, s))"

text \<open>\<open>failUnless b e\<close> is \<open>if (!b) return e\<close>; \<open>checkThat b f\<close> is a CHECK.\<close>

definition failUnless :: "bool \<Rightarrow> status_code \<Rightarrow> ('s, unit) op" where
  "failUnless b e = (if b then ret () else failWith e)"

definition checkThat :: "bool \<Rightarrow> fault \<Rightarrow> ('s, unit) op" where
  "checkThat b e = (if b then ret () else faultWith e)"

text \<open>
  \<open>tryStatus m\<close> hands the status to the caller, as \<open>Status s = m;\<close> does: the state
  keeps what \<open>m\<close> did. A fault is not catchable.
\<close>

definition tryStatus :: "('s, 'a) op \<Rightarrow> ('s, status_code + 'a) op" where
  "tryStatus m = (\<lambda>s. case m s of
     (Inl (Status e), s') \<Rightarrow> (Inr (Inl e), s')
   | (Inl (Fault e), s') \<Rightarrow> (Inl (Fault e), s')
   | (Inr x, s') \<Rightarrow> (Inr (Inr x), s'))"

text \<open>\<open>checkOk m\<close> is \<open>TF_CHECK_OK(m)\<close>: an error is fatal.\<close>

definition checkOk :: "('s, 'a) op \<Rightarrow> ('s, 'a) op" where
  "checkOk m = (\<lambda>s. case m s of
     (Inl (Status e), s') \<Rightarrow> (Inl (Fault CheckFailed), s') | r \<Rightarrow> r)"

text \<open>Loops over the elements of a list, with early exit on failure.\<close>

primrec mapOp :: "('x \<Rightarrow> ('s, 'a) op) \<Rightarrow> 'x list \<Rightarrow> ('s, 'a list) op" where
  "mapOp f [] = ret []"
| "mapOp f (x # xs) = andThen (f x) (\<lambda>y. andThen (mapOp f xs) (\<lambda>ys. ret (y # ys)))"

primrec iterOp :: "('x \<Rightarrow> ('s, unit) op) \<Rightarrow> 'x list \<Rightarrow> ('s, unit) op" where
  "iterOp f [] = ret ()"
| "iterOp f (x # xs) = andThen (f x) (\<lambda>_. iterOp f xs)"

primrec foldOp :: "('x \<Rightarrow> 'b \<Rightarrow> ('s, 'b) op) \<Rightarrow> 'x list \<Rightarrow> 'b \<Rightarrow> ('s, 'b) op" where
  "foldOp f [] b = ret b"
| "foldOp f (x # xs) b = andThen (f x b) (foldOp f xs)"

section \<open>Running operations\<close>

named_theorems op_simps \<open>how the combinators run\<close>

lemma ret_run [op_simps]: "ret x s = (Inr x, s)"
  by (simp add: ret_def)

lemma failWith_run [op_simps]: "failWith e s = (Inl (Status e), s)"
  by (simp add: failWith_def)

lemma faultWith_run [op_simps]: "faultWith e s = (Inl (Fault e), s)"
  by (simp add: faultWith_def)

lemma gets_run [op_simps]: "gets f s = (Inr (f s), s)"
  by (simp add: gets_def)

lemma modify_run [op_simps]: "modify f s = (Inr (), f s)"
  by (simp add: modify_def)

lemma liftR_run [op_simps]: "liftR r s = (r, s)"
  by (simp add: liftR_def)

lemma failUnless_run [op_simps]:
  "failUnless b e s = (if b then (Inr (), s) else (Inl (Status e), s))"
  by (simp add: failUnless_def op_simps)

lemma checkThat_run [op_simps]:
  "checkThat b e s = (if b then (Inr (), s) else (Inl (Fault e), s))"
  by (simp add: checkThat_def op_simps)

lemma andThen_Inl [op_simps]: "m s = (Inl e, s') \<Longrightarrow> andThen m f s = (Inl e, s')"
  by (simp add: andThen_def)

lemma andThen_Inr [op_simps]: "m s = (Inr x, s') \<Longrightarrow> andThen m f s = f x s'"
  by (simp add: andThen_def)

lemma andThen_ret [op_simps]: "andThen (ret x) f s = f x s"
  by (simp add: andThen_def ret_def)

lemma andThen_gets [op_simps]: "andThen (gets g) f s = f (g s) s"
  by (simp add: andThen_def gets_def)

lemma andThen_modify [op_simps]: "andThen (modify g) f s = f () (g s)"
  by (simp add: andThen_def modify_def)

lemma andThen_failUnless [op_simps]:
  "andThen (failUnless b e) f s = (if b then f () s else (Inl (Status e), s))"
  by (simp add: andThen_def failUnless_run)

lemma andThen_checkThat [op_simps]:
  "andThen (checkThat b e) f s = (if b then f () s else (Inl (Fault e), s))"
  by (simp add: andThen_def checkThat_run)

lemma andThen_assoc: "andThen (andThen m f) g = andThen m (\<lambda>x. andThen (f x) g)"
  by (rule ext) (simp add: andThen_def split: prod.splits sum.splits)

lemma andThen_ret_right: "andThen m ret = m"
  by (rule ext) (simp add: andThen_def ret_def split: prod.splits sum.splits)

lemma andThen_eq_Inr:
  "andThen m f s = (Inr y, t) \<longleftrightarrow> (\<exists>x u. m s = (Inr x, u) \<and> f x u = (Inr y, t))"
  by (auto simp: andThen_def split: prod.splits sum.splits)

lemma andThen_InrE [elim]:
  assumes "andThen m f s = (Inr y, t)"
  obtains x u where "m s = (Inr x, u)" and "f x u = (Inr y, t)"
  using assms by (auto simp: andThen_eq_Inr)

lemma tryStatus_Inr [op_simps]: "m s = (Inr x, s') \<Longrightarrow> tryStatus m s = (Inr (Inr x), s')"
  by (simp add: tryStatus_def)

lemma tryStatus_Status [op_simps]:
  "m s = (Inl (Status e), s') \<Longrightarrow> tryStatus m s = (Inr (Inl e), s')"
  by (simp add: tryStatus_def)

lemma tryStatus_Fault [op_simps]:
  "m s = (Inl (Fault e), s') \<Longrightarrow> tryStatus m s = (Inl (Fault e), s')"
  by (simp add: tryStatus_def)

lemma checkOk_Inr [op_simps]: "m s = (Inr x, s') \<Longrightarrow> checkOk m s = (Inr x, s')"
  by (simp add: checkOk_def)

lemma mapOp_append:
  "mapOp f (xs @ ys) = andThen (mapOp f xs) (\<lambda>as. andThen (mapOp f ys) (\<lambda>bs. ret (as @ bs)))"
proof (induction xs)
  case Nil
  then show ?case
    by (rule ext) (simp add: andThen_def ret_def split: prod.splits sum.splits)
next
  case (Cons x xs)
  then show ?case
    by (simp add: andThen_assoc) (rule ext, simp add: andThen_def ret_def split: prod.splits sum.splits)
qed

text \<open>A loop whose body only reads leaves the state alone and computes a \<open>map\<close>.\<close>

lemma mapOp_pure:
  assumes "\<And>x. x \<in> set xs \<Longrightarrow> f x s = (Inr (g x), s)"
  shows "mapOp f xs s = (Inr (map g xs), s)"
  using assms by (induction xs) (simp_all add: op_simps andThen_def)

section \<open>Machine integers\<close>

text \<open>
  Values of \<open>int64_t\<close> and \<open>int32_t\<close> are integers in range. Conversions wrap modulo
  \<open>2^64\<close> and \<open>2^32\<close>; arithmetic on signed operands that leaves the range is
  undefined behaviour, a fault.
\<close>

abbreviation int64_max :: int where "int64_max \<equiv> 9223372036854775807"
abbreviation int32_max :: int where "int32_max \<equiv> 2147483647"

definition in_int64 :: "int \<Rightarrow> bool" where
  "in_int64 x \<longleftrightarrow> - 9223372036854775808 \<le> x \<and> x \<le> 9223372036854775807"

definition in_int32 :: "int \<Rightarrow> bool" where
  "in_int32 x \<longleftrightarrow> - 2147483648 \<le> x \<and> x \<le> 2147483647"

definition to_int64 :: "int \<Rightarrow> int" where
  "to_int64 x = (x + 9223372036854775808) mod 18446744073709551616 - 9223372036854775808"

definition to_int32 :: "int \<Rightarrow> int" where
  "to_int32 x = (x + 2147483648) mod 4294967296 - 2147483648"

definition to_uint64 :: "int \<Rightarrow> int" where
  "to_uint64 x = x mod 18446744073709551616"

definition signed64 :: "int \<Rightarrow> int res" where
  "signed64 x = (if in_int64 x then Inr x else Inl (Fault SignedOverflow))"

definition signed32 :: "int \<Rightarrow> int res" where
  "signed32 x = (if in_int32 x then Inr x else Inl (Fault SignedOverflow))"

text \<open>C++ division and remainder truncate towards zero.\<close>

definition cdiv :: "int \<Rightarrow> int \<Rightarrow> int" where
  "cdiv a b = sgn a * sgn b * (\<bar>a\<bar> div \<bar>b\<bar>)"

definition cmod :: "int \<Rightarrow> int \<Rightarrow> int" where
  "cmod a b = a - cdiv a b * b"

lemma to_int64_id [simp]: "in_int64 x \<Longrightarrow> to_int64 x = x"
  by (simp add: in_int64_def to_int64_def)

lemma to_int32_id [simp]: "in_int32 x \<Longrightarrow> to_int32 x = x"
  by (simp add: in_int32_def to_int32_def)

lemma in_int64_to_int64 [simp]: "in_int64 (to_int64 x)"
  by (simp add: in_int64_def to_int64_def)

lemma in_int32_to_int32 [simp]: "in_int32 (to_int32 x)"
  by (simp add: in_int32_def to_int32_def)

lemma cdiv_nonneg: "0 \<le> a \<Longrightarrow> 0 \<le> b \<Longrightarrow> cdiv a b = a div b"
  by (cases "a = 0"; cases "b = 0") (simp_all add: cdiv_def)

lemma cmod_nonneg: "0 \<le> a \<Longrightarrow> 0 \<le> b \<Longrightarrow> cmod a b = a mod b"
  by (simp add: cmod_def cdiv_nonneg minus_div_mult_eq_mod)

section \<open>Vectors\<close>

text \<open>Indexing of a \<open>std::vector\<close>: out of range is undefined behaviour.\<close>

definition vecAt :: "'a list \<Rightarrow> int \<Rightarrow> 'a res" where
  "vecAt xs i = (if 0 \<le> i \<and> i < int (length xs) then Inr (xs ! nat i) else Inl (Fault OutOfBounds))"

text \<open>Writing to an element of a vector, \<open>v[i] = x\<close>.\<close>

definition writeAt :: "'a list \<Rightarrow> int \<Rightarrow> 'a \<Rightarrow> 'a list res" where
  "writeAt xs i x = (if 0 \<le> i \<and> i < int (length xs) then Inr (xs[nat i := x]) else Inl (Fault OutOfBounds))"

lemma vecAt_nat [simp]: "i < length xs \<Longrightarrow> vecAt xs (int i) = Inr (xs ! i)"
  by (simp add: vecAt_def)

lemma vecAt_Inr_iff: "vecAt xs i = Inr x \<longleftrightarrow> 0 \<le> i \<and> i < int (length xs) \<and> x = xs ! nat i"
  by (auto simp: vecAt_def)

text \<open>\<open>v.resize(n, x)\<close>\<close>

definition resizeWith :: "nat \<Rightarrow> 'a \<Rightarrow> 'a list \<Rightarrow> 'a list" where
  "resizeWith n x xs = take n xs @ replicate (n - length xs) x"

lemma length_resizeWith [simp]: "length (resizeWith n x xs) = n"
  by (simp add: resizeWith_def)

lemma resizeWith_Nil [simp]: "resizeWith n x [] = replicate n x"
  by (simp add: resizeWith_def)

lemma set_resizeWith: "set (resizeWith n x xs) \<subseteq> insert x (set xs)"
  by (auto simp: resizeWith_def dest: in_set_takeD)

section \<open>Loops with an invariant over what has been processed\<close>

lemma iterOp_rule:
  assumes "\<And>ys x zs s. xs = ys @ x # zs \<Longrightarrow> I ys s \<Longrightarrow> \<exists>s'. f x s = (Inr (), s') \<and> I (ys @ [x]) s'"
    and "I [] s"
  shows "\<exists>s'. iterOp f xs s = (Inr (), s') \<and> I xs s'"
proof -
  have "\<exists>s'. iterOp f zs s = (Inr (), s') \<and> I xs s'" if "xs = ys @ zs" "I ys s" for ys zs s
    using that
  proof (induction zs arbitrary: ys s)
    case (Cons z zs)
    obtain s' where s': "f z s = (Inr (), s')" "I (ys @ [z]) s'" using assms(1) Cons.prems by blast
    then show ?case using Cons.IH[of "ys @ [z]" s'] Cons.prems(1) by (simp add: andThen_def s'(1))
  qed (simp add: ret_run)
  from this[of "[]" xs s] show ?thesis using assms(2) by simp
qed

lemma foldOp_rule:
  assumes "\<And>ys x zs b s. xs = ys @ x # zs \<Longrightarrow> I ys b s \<Longrightarrow> \<exists>b' s'. f x b s = (Inr b', s') \<and> I (ys @ [x]) b' s'"
    and "I [] b s"
  shows "\<exists>b' s'. foldOp f xs b s = (Inr b', s') \<and> I xs b' s'"
proof -
  have "\<exists>b' s'. foldOp f zs b s = (Inr b', s') \<and> I xs b' s'" if "xs = ys @ zs" "I ys b s" for ys zs b s
    using that
  proof (induction zs arbitrary: ys b s)
    case (Cons z zs)
    obtain b' s' where s': "f z b s = (Inr b', s')" "I (ys @ [z]) b' s'" using assms(1) Cons.prems by blast
    then show ?case using Cons.IH[of "ys @ [z]" b' s'] Cons.prems(1) by (simp add: andThen_def s'(1))
  qed (simp add: ret_run)
  from this[of "[]" xs b s] show ?thesis using assms(2) by simp
qed

end
