(* ===== verification/Attrs.thy ===== *)
theory Attrs
  imports Prelude
begin

text \<open>
  The values a shape function reads: data types (\<open>framework/types.proto\<close>), constant
  tensors, shape protos and the attributes of a node (\<open>framework/attr_value_util.cc\<close>,
  \<open>framework/node_def_util.cc\<close>). A tensor is its type, its dimensions and, for the
  integer types, its elements in row-major order. A float attribute is the bit
  pattern of the 32-bit IEEE value.
\<close>

section \<open>Data types, tensors and protos\<close>

text \<open>\<open>DT_REF t\<close> stands for the enumerator \<open>t + kDataTypeRefOffset\<close>.\<close>

datatype data_type =
    DT_INVALID | DT_FLOAT | DT_DOUBLE | DT_INT32 | DT_UINT8 | DT_INT16 | DT_INT8 | DT_STRING
  | DT_COMPLEX64 | DT_INT64 | DT_BOOL | DT_QINT8 | DT_QUINT8 | DT_QINT32 | DT_BFLOAT16
  | DT_QINT16 | DT_QUINT16 | DT_UINT16 | DT_COMPLEX128 | DT_HALF | DT_RESOURCE | DT_VARIANT
  | DT_UINT32 | DT_UINT64 | DT_FLOAT8_E5M2 | DT_FLOAT8_E4M3FN | DT_FLOAT8_E4M3FNUZ
  | DT_FLOAT8_E4M3B11FNUZ | DT_FLOAT8_E5M2FNUZ | DT_INT4 | DT_UINT4 | DT_INT2 | DT_UINT2
  | DT_FLOAT4_E2M1FN | DT_REF data_type

fun IsRefType :: "data_type \<Rightarrow> bool" where
  "IsRefType (DT_REF _) = True"
| "IsRefType _ = False"

record tensor =
  t_dtype :: data_type
  t_dims :: "int list"
  t_vals :: "int list"

text \<open>\<open>TensorShapeProto\<close>: the flag and the sizes (dimension names play no role).\<close>

record shape_proto =
  unknown_rank :: bool
  dim_sizes :: "int list"

text \<open>A function attribute (\<open>NameAttrList\<close>) is its name.\<close>

record attr_list =
  l_s :: "string list"
  l_i :: "int list"
  l_f :: "nat list"
  l_b :: "bool list"
  l_type :: "data_type list"
  l_shape :: "shape_proto list"
  l_tensor :: "tensor list"
  l_func :: "string list"

datatype attr_value =
    A_none
  | A_s string
  | A_i int
  | A_f nat
  | A_b bool
  | A_type data_type
  | A_shape shape_proto
  | A_tensor tensor
  | A_func string
  | A_placeholder string
  | A_list attr_list

datatype attr_kind = K_string | K_int | K_float | K_bool | K_type | K_shape | K_tensor | K_func

definition empty_list :: attr_list where
  "empty_list = \<lparr>l_s = [], l_i = [], l_f = [], l_b = [], l_type = [], l_shape = [],
     l_tensor = [], l_func = []\<rparr>"

section \<open>Type checking an attribute\<close>

text \<open>The kind of the \<open>oneof\<close> case that is set, as the macro \<open>VALIDATE_FIELD\<close> tests it.\<close>

fun scalar_kind :: "attr_value \<Rightarrow> attr_kind option" where
  "scalar_kind (A_s _) = Some K_string"
| "scalar_kind (A_i _) = Some K_int"
| "scalar_kind (A_f _) = Some K_float"
| "scalar_kind (A_b _) = Some K_bool"
| "scalar_kind (A_type _) = Some K_type"
| "scalar_kind (A_shape _) = Some K_shape"
| "scalar_kind (A_tensor _) = Some K_tensor"
| "scalar_kind (A_func _) = Some K_func"
| "scalar_kind _ = None"

definition list_kinds :: "attr_list \<Rightarrow> attr_kind list" where
  "list_kinds l =
     (if l_s l \<noteq> [] then [K_string] else []) @ (if l_i l \<noteq> [] then [K_int] else []) @
     (if l_f l \<noteq> [] then [K_float] else []) @ (if l_b l \<noteq> [] then [K_bool] else []) @
     (if l_type l \<noteq> [] then [K_type] else []) @ (if l_shape l \<noteq> [] then [K_shape] else []) @
     (if l_tensor l \<noteq> [] then [K_tensor] else []) @ (if l_func l \<noteq> [] then [K_func] else [])"

fun bad_type :: "data_type \<Rightarrow> bool" where
  "bad_type t \<longleftrightarrow> IsRefType t \<or> t = DT_INVALID"

text \<open>
  \<open>AttrValueHasType v (is_list, k)\<close> checks \<open>v\<close> against the type \<open>k\<close> or \<open>list(k)\<close>. A
  value that is no list passes for a list only when nothing is set in it. A value whose
  \<open>oneof\<close> is not the type asked for still has the default in that field, so
  \<open>attr_value.type()\<close> is \<open>DT_INVALID\<close> there; those cases are errors before.
\<close>

definition AttrValueHasType :: "attr_value \<Rightarrow> bool \<times> attr_kind \<Rightarrow> unit res" where
  "AttrValueHasType v ty =
    (case v of
       A_list l \<Rightarrow>
         if \<exists>k \<in> set (list_kinds l). ty \<noteq> (True, k) then Inl (Status InvalidArgument)
         else if list_kinds l = [] \<and> \<not> fst ty then Inl (Status InvalidArgument)
         else if ty = (True, K_type) \<and> list_ex bad_type (l_type l) then Inl (Status InvalidArgument)
         else Inr ()
     | A_placeholder _ \<Rightarrow> Inl (Status InvalidArgument)
     | A_none \<Rightarrow> if fst ty then Inr () else Inl (Status InvalidArgument)
     | _ \<Rightarrow>
         if scalar_kind v \<noteq> Some (snd ty) \<or> fst ty then Inl (Status InvalidArgument)
         else (case v of A_type t \<Rightarrow> if bad_type t then Inl (Status InvalidArgument) else Inr ()
               | _ \<Rightarrow> Inr ()))"

section \<open>Reading attributes\<close>

type_synonym attrs = "(string \<times> attr_value) list"

definition Find :: "attrs \<Rightarrow> string \<Rightarrow> attr_value res" where
  "Find as name = (case map_of as name of None \<Rightarrow> Inl (Status NotFound) | Some v \<Rightarrow> Inr v)"

text \<open>The two functions \<open>DEFINE_GET_ATTR\<close> generates, over the field \<open>get\<close> and the
  validation and conversion \<open>conv\<close> of one element.\<close>

definition GetNodeAttr ::
    "attr_kind \<Rightarrow> (attr_value \<Rightarrow> 'f) \<Rightarrow> ('f \<Rightarrow> 'a res) \<Rightarrow> attrs \<Rightarrow> string \<Rightarrow> 'a res" where
  "GetNodeAttr k get conv as name =
    (case Find as name of
       Inl e \<Rightarrow> Inl e
     | Inr v \<Rightarrow> (case AttrValueHasType v (False, k) of Inl e \<Rightarrow> Inl e | Inr _ \<Rightarrow> conv (get v)))"

primrec convAll :: "('f \<Rightarrow> 'a res) \<Rightarrow> 'f list \<Rightarrow> 'a list res" where
  "convAll conv [] = Inr []"
| "convAll conv (x # xs) =
     (case conv x of Inl e \<Rightarrow> Inl e
      | Inr y \<Rightarrow> (case convAll conv xs of Inl e \<Rightarrow> Inl e | Inr ys \<Rightarrow> Inr (y # ys)))"

definition attr_list_of :: "attr_value \<Rightarrow> attr_list" where
  "attr_list_of v = (case v of A_list l \<Rightarrow> l | _ \<Rightarrow> empty_list)"

definition GetNodeAttrList ::
    "attr_kind \<Rightarrow> (attr_list \<Rightarrow> 'f list) \<Rightarrow> ('f \<Rightarrow> 'a res) \<Rightarrow> attrs \<Rightarrow> string \<Rightarrow> 'a list res" where
  "GetNodeAttrList k get conv as name =
    (case Find as name of
       Inl e \<Rightarrow> Inl e
     | Inr v \<Rightarrow> (case AttrValueHasType v (True, k) of
                   Inl e \<Rightarrow> Inl e | Inr _ \<Rightarrow> convAll conv (get (attr_list_of v))))"

definition int32_of_attr :: "int \<Rightarrow> int res" where
  "int32_of_attr v = (if to_int32 v \<noteq> v then Inl (Status InvalidArgument) else Inr v)"

definition GetAttrString :: "attrs \<Rightarrow> string \<Rightarrow> string res" where
  "GetAttrString = GetNodeAttr K_string (\<lambda>v. case v of A_s s \<Rightarrow> s | _ \<Rightarrow> []) Inr"

definition GetAttrInt64 :: "attrs \<Rightarrow> string \<Rightarrow> int res" where
  "GetAttrInt64 = GetNodeAttr K_int (\<lambda>v. case v of A_i i \<Rightarrow> i | _ \<Rightarrow> 0) Inr"

definition GetAttrInt32 :: "attrs \<Rightarrow> string \<Rightarrow> int res" where
  "GetAttrInt32 = GetNodeAttr K_int (\<lambda>v. case v of A_i i \<Rightarrow> i | _ \<Rightarrow> 0) int32_of_attr"

definition GetAttrFloat :: "attrs \<Rightarrow> string \<Rightarrow> nat res" where
  "GetAttrFloat = GetNodeAttr K_float (\<lambda>v. case v of A_f f \<Rightarrow> f | _ \<Rightarrow> 0) Inr"

definition GetAttrBool :: "attrs \<Rightarrow> string \<Rightarrow> bool res" where
  "GetAttrBool = GetNodeAttr K_bool (\<lambda>v. case v of A_b b \<Rightarrow> b | _ \<Rightarrow> False) Inr"

definition GetAttrType :: "attrs \<Rightarrow> string \<Rightarrow> data_type res" where
  "GetAttrType = GetNodeAttr K_type (\<lambda>v. case v of A_type t \<Rightarrow> t | _ \<Rightarrow> DT_INVALID) Inr"

definition GetAttrInt64List :: "attrs \<Rightarrow> string \<Rightarrow> int list res" where
  "GetAttrInt64List = GetNodeAttrList K_int l_i Inr"

definition GetAttrInt32List :: "attrs \<Rightarrow> string \<Rightarrow> int list res" where
  "GetAttrInt32List = GetNodeAttrList K_int l_i int32_of_attr"

definition GetAttrStringList :: "attrs \<Rightarrow> string \<Rightarrow> string list res" where
  "GetAttrStringList = GetNodeAttrList K_string l_s Inr"

lemma convAll_Inr [simp]: "convAll Inr xs = Inr xs"
  by (induction xs) auto

lemma convAll_int32:
  "convAll int32_of_attr xs = (if list_all in_int32 xs then Inr xs else Inl (Status InvalidArgument))"
proof (induction xs)
  case Nil
  then show ?case by simp
next
  case (Cons x xs)
  have "to_int32 x = x \<longleftrightarrow> in_int32 x"
    using in_int32_to_int32[of x] by (auto simp del: in_int32_to_int32)
  then show ?case using Cons by (simp add: int32_of_attr_def)
qed

text \<open>What a well-typed attribute reads as.\<close>

lemma GetAttrBool_eq: "map_of as n = Some (A_b b) \<Longrightarrow> GetAttrBool as n = Inr b"
  by (simp add: GetAttrBool_def GetNodeAttr_def Find_def AttrValueHasType_def)

lemma GetAttrString_eq: "map_of as n = Some (A_s s) \<Longrightarrow> GetAttrString as n = Inr s"
  by (simp add: GetAttrString_def GetNodeAttr_def Find_def AttrValueHasType_def)

lemma GetAttrInt64_eq: "map_of as n = Some (A_i i) \<Longrightarrow> GetAttrInt64 as n = Inr i"
  by (simp add: GetAttrInt64_def GetNodeAttr_def Find_def AttrValueHasType_def)

lemma GetAttrInt32_eq: "map_of as n = Some (A_i i) \<Longrightarrow> in_int32 i \<Longrightarrow> GetAttrInt32 as n = Inr i"
  by (simp add: GetAttrInt32_def GetNodeAttr_def Find_def AttrValueHasType_def int32_of_attr_def)

lemma GetAttrInt32List_eq:
  assumes "map_of as n = Some (A_list (empty_list\<lparr>l_i := xs\<rparr>))" "list_all in_int32 xs"
  shows "GetAttrInt32List as n = Inr xs"
  using assms
  by (auto simp: GetAttrInt32List_def GetNodeAttrList_def Find_def AttrValueHasType_def
      list_kinds_def empty_list_def attr_list_of_def convAll_int32)

lemma GetAttrBool_NotFound: "map_of as n = None \<Longrightarrow> GetAttrBool as n = Inl (Status NotFound)"
  by (simp add: GetAttrBool_def GetNodeAttr_def Find_def)

lemma GetAttrString_NotFound: "map_of as n = None \<Longrightarrow> GetAttrString as n = Inl (Status NotFound)"
  by (simp add: GetAttrString_def GetNodeAttr_def Find_def)

end
