(* ===== verification/ShapeCtx.thy ===== *)
theory ShapeCtx
  imports Attrs
begin

text \<open>
  The state of \<open>shape_inference::InferenceContext\<close> (\<open>framework/shape_inference.h\<close>) and
  its accessors and constructors. \<open>ShapeManager\<close> owns the dimensions and shapes and
  only ever appends to them until the context dies, and a \<open>Dimension\<close> or \<open>Shape\<close> is
  immutable: handles are indices into the two arenas. (A handle owned by another
  context of the same graph is an index into the same arena: all contexts of a graph
  stay resident, see the comment at the top of the header.) A dimension handle is
  always set where the code uses one; a shape handle may be \<open>nullptr\<close>, \<open>None\<close>.
  \<open>rank_\<close> is the number of dimensions: vectors of \<open>2^31\<close> or more handles are outside
  the model.
\<close>

type_synonym dim = nat
type_synonym shape = "nat option"

text \<open>\<open>DimensionOrConstant\<close>\<close>

datatype dim_or_const = Handle dim | Const int

record shape_and_type =
  st_shape :: shape
  st_dtype :: data_type

record ctx =
  all_dims :: "int list"
  all_shapes :: "dim list option list"
  inputs :: "shape list"
  input_tensors :: "tensor option list"
  requested_input_tensor :: "bool list"
  outputs :: "shape list"
  input_tensors_as_shapes :: "shape list"
  requested_input_tensor_as_partial_shape :: "bool list"
  input_handle_shapes_and_types :: "shape_and_type list option list"
  output_handle_shapes_and_types :: "shape_and_type list option list"
  graph_def_version :: int
  attrs :: attrs
  input_name_map :: "(string \<times> (int \<times> int)) list"
  output_name_map :: "(string \<times> (int \<times> int)) list"
  construction_status :: "status_code option"
  merged_shapes :: "(shape \<times> shape) list"
  merged_dims :: "(dim \<times> dim) list"

type_synonym 'a cop = "(ctx, 'a) op"

abbreviation kUnknownDim :: int where "kUnknownDim \<equiv> - 1"
abbreviation kUnknownRank :: int where "kUnknownRank \<equiv> - 1"

section \<open>Accessors\<close>

text \<open>\<open>shape_of c s\<close> is \<open>*s\<close>: the dimensions, or \<open>None\<close> for the unknown rank.\<close>

definition shape_of :: "ctx \<Rightarrow> shape \<Rightarrow> dim list option" where
  "shape_of c s = (case s of None \<Rightarrow> None | Some a \<Rightarrow> all_shapes c ! a)"

definition Rank :: "ctx \<Rightarrow> shape \<Rightarrow> int" where
  "Rank c s = (case shape_of c s of None \<Rightarrow> kUnknownRank | Some ds \<Rightarrow> int (length ds))"

definition RankKnown :: "ctx \<Rightarrow> shape \<Rightarrow> bool" where
  "RankKnown c s \<longleftrightarrow> s \<noteq> None \<and> Rank c s \<noteq> kUnknownRank"

definition Value :: "ctx \<Rightarrow> dim_or_const \<Rightarrow> int" where
  "Value c d = (case d of Handle a \<Rightarrow> all_dims c ! a | Const v \<Rightarrow> v)"

definition ValueKnown :: "ctx \<Rightarrow> dim_or_const \<Rightarrow> bool" where
  "ValueKnown c d \<longleftrightarrow> Value c d \<noteq> kUnknownDim"

abbreviation DValue :: "ctx \<Rightarrow> dim \<Rightarrow> int" where "DValue c d \<equiv> Value c (Handle d)"
abbreviation DKnown :: "ctx \<Rightarrow> dim \<Rightarrow> bool" where "DKnown c d \<equiv> ValueKnown c (Handle d)"

definition SameHandle :: "'h \<Rightarrow> 'h \<Rightarrow> bool" where
  "SameHandle a b \<longleftrightarrow> a = b"

section \<open>Making dimensions and shapes\<close>

text \<open>The DCHECK of the two constructors of \<open>DimensionOrConstant\<close>.\<close>

definition dimOrConst :: "dim_or_const \<Rightarrow> unit cop" where
  "dimOrConst d = (case d of Handle _ \<Rightarrow> ret ()
                   | Const v \<Rightarrow> checkThat (0 \<le> v \<or> v = kUnknownDim) DCheckFailed)"

text \<open>\<open>new Dimension(v)\<close>, with the DCHECK of its constructor.\<close>

definition newDimension :: "int \<Rightarrow> dim cop" where
  "newDimension v =
     andThen (checkThat (0 \<le> v \<or> v = kUnknownDim) DCheckFailed) (\<lambda>_.
     andThen (gets (\<lambda>c. length (all_dims c))) (\<lambda>a.
     andThen (modify (\<lambda>c. c\<lparr>all_dims := all_dims c @ [v]\<rparr>)) (\<lambda>_.
     ret a)))"

definition MakeDim :: "dim_or_const \<Rightarrow> dim cop" where
  "MakeDim d = (case d of Handle a \<Rightarrow> ret a | Const v \<Rightarrow> newDimension v)"

definition UnknownDim :: "dim cop" where
  "UnknownDim = MakeDim (Const kUnknownDim)"

text \<open>\<open>ShapeManager::MakeShape\<close> and \<open>ShapeManager::UnknownShape\<close>\<close>

definition newShape :: "dim list option \<Rightarrow> shape cop" where
  "newShape sh =
     andThen (gets (\<lambda>c. length (all_shapes c))) (\<lambda>a.
     andThen (modify (\<lambda>c. c\<lparr>all_shapes := all_shapes c @ [sh]\<rparr>)) (\<lambda>_.
     ret (Some a)))"

definition MakeShape :: "dim list \<Rightarrow> shape cop" where
  "MakeShape ds = newShape (Some ds)"

definition MakeShapeOf :: "dim_or_const list \<Rightarrow> shape cop" where
  "MakeShapeOf ds =
     andThen (iterOp dimOrConst ds) (\<lambda>_.
     andThen (mapOp MakeDim ds) MakeShape)"

definition UnknownShape :: "shape cop" where
  "UnknownShape = newShape None"

text \<open>
  \<open>Dim(s, idx)\<close>; \<open>DimKnownRank\<close> indexes the vector, from its end for a negative index.
\<close>

definition DimKnownRank :: "shape \<Rightarrow> int \<Rightarrow> dim cop" where
  "DimKnownRank s idx = (\<lambda>c.
     case s of None \<Rightarrow> (Inl (Fault NullDeref), c)
     | Some a \<Rightarrow> (case all_shapes c ! a of
          None \<Rightarrow> (Inl (Fault CheckFailed), c)
        | Some ds \<Rightarrow> (vecAt ds (if idx < 0 then int (length ds) + idx else idx), c)))"

definition Dim :: "shape \<Rightarrow> int \<Rightarrow> dim cop" where
  "Dim s idx =
     andThen (gets (\<lambda>c. s = None \<or> Rank c s = kUnknownRank)) (\<lambda>unknown.
     if unknown then UnknownDim else DimKnownRank s idx)"

definition UnknownShapeOfRank :: "int \<Rightarrow> shape cop" where
  "UnknownShapeOfRank rank =
     andThen (checkThat (rank \<le> int32_max) CheckFailed) (\<lambda>_.
     if rank = kUnknownRank then UnknownShape
     else
       andThen (checkThat (0 \<le> rank) CheckFailed) (\<lambda>_.
       andThen (mapOp (\<lambda>_. UnknownDim) [0..<nat rank]) MakeShape))"

definition Scalar :: "shape cop" where
  "Scalar = MakeShapeOf []"

definition Vector :: "dim_or_const \<Rightarrow> shape cop" where
  "Vector d = MakeShapeOf [d]"

definition Matrix :: "dim_or_const \<Rightarrow> dim_or_const \<Rightarrow> shape cop" where
  "Matrix d1 d2 = MakeShapeOf [d1, d2]"

definition FullyDefined :: "ctx \<Rightarrow> shape \<Rightarrow> bool" where
  "FullyDefined c s = (case shape_of c s of None \<Rightarrow> False | Some ds \<Rightarrow> list_all (DKnown c) ds)"

section \<open>Inputs, outputs, merge records\<close>

text \<open>\<open>input(idx)\<close> indexes the vector unchecked; \<open>output\<close> and \<open>set_output\<close> use \<open>at\<close>,
  which throws \<open>std::out_of_range\<close> and, uncaught, stops the program.\<close>

definition input :: "int \<Rightarrow> shape cop" where
  "input idx = (\<lambda>c. (vecAt (inputs c) idx, c))"

definition num_inputs :: "ctx \<Rightarrow> int" where
  "num_inputs c = int (length (inputs c))"

definition num_outputs :: "ctx \<Rightarrow> int" where
  "num_outputs c = int (length (outputs c))"

definition output_at :: "int \<Rightarrow> shape cop" where
  "output_at idx = (\<lambda>c. (if 0 \<le> idx \<and> idx < num_outputs c then Inr (outputs c ! nat idx)
                      else Inl (Fault OutOfBounds), c))"

definition set_output :: "int \<Rightarrow> shape \<Rightarrow> unit cop" where
  "set_output idx s =
     andThen (gets num_outputs) (\<lambda>n.
     andThen (checkThat (0 \<le> idx \<and> idx < n) OutOfBounds) (\<lambda>_.
     modify (\<lambda>c. c\<lparr>outputs := (outputs c)[nat idx := s]\<rparr>)))"

definition SetInput :: "int \<Rightarrow> shape \<Rightarrow> unit cop" where
  "SetInput idx s =
     andThen (gets num_inputs) (\<lambda>n.
     andThen (checkThat (0 \<le> idx \<and> idx < n) OutOfBounds) (\<lambda>_.
     modify (\<lambda>c. c\<lparr>inputs := (inputs c)[nat idx := s]\<rparr>)))"

definition request_input_tensor :: "int \<Rightarrow> unit cop" where
  "request_input_tensor idx =
     andThen (gets (\<lambda>c. int (length (requested_input_tensor c)))) (\<lambda>n.
     andThen (checkThat (0 \<le> idx \<and> idx < n) OutOfBounds) (\<lambda>_.
     modify (\<lambda>c. c\<lparr>requested_input_tensor := (requested_input_tensor c)[nat idx := True]\<rparr>)))"

definition input_tensor :: "int \<Rightarrow> tensor option cop" where
  "input_tensor idx =
     andThen (request_input_tensor idx) (\<lambda>_.
     (\<lambda>c. (vecAt (input_tensors c) idx, c)))"

definition request_input_tensor_as_partial_shape :: "int \<Rightarrow> unit cop" where
  "request_input_tensor_as_partial_shape idx =
     andThen (gets (\<lambda>c. int (length (requested_input_tensor_as_partial_shape c)))) (\<lambda>n.
     andThen (checkThat (0 \<le> idx \<and> idx < n) OutOfBounds) (\<lambda>_.
     modify (\<lambda>c. c\<lparr>requested_input_tensor_as_partial_shape :=
       (requested_input_tensor_as_partial_shape c)[nat idx := True]\<rparr>)))"

definition input_handle_shapes_and_types_at :: "int \<Rightarrow> shape_and_type list option cop" where
  "input_handle_shapes_and_types_at idx = (\<lambda>c.
     (if 0 \<le> idx \<and> idx < int (length (input_handle_shapes_and_types c))
      then Inr (input_handle_shapes_and_types c ! nat idx) else Inl (Fault CheckFailed), c))"

definition output_handle_shapes_and_types_at :: "int \<Rightarrow> shape_and_type list option cop" where
  "output_handle_shapes_and_types_at idx = (\<lambda>c.
     (if 0 \<le> idx \<and> idx < int (length (output_handle_shapes_and_types c))
      then Inr (output_handle_shapes_and_types c ! nat idx) else Inl (Fault CheckFailed), c))"

definition set_input_handle_shapes_and_types :: "int \<Rightarrow> shape_and_type list \<Rightarrow> unit cop" where
  "set_input_handle_shapes_and_types idx sts =
     andThen (gets (\<lambda>c. int (length (input_handle_shapes_and_types c)))) (\<lambda>n.
     andThen (checkThat (0 \<le> idx \<and> idx < n) CheckFailed) (\<lambda>_.
     modify (\<lambda>c. c\<lparr>input_handle_shapes_and_types :=
       (input_handle_shapes_and_types c)[nat idx := Some sts]\<rparr>)))"

definition set_output_handle_shapes_and_types :: "int \<Rightarrow> shape_and_type list \<Rightarrow> unit cop" where
  "set_output_handle_shapes_and_types idx sts =
     andThen (gets (\<lambda>c. int (length (output_handle_shapes_and_types c)))) (\<lambda>n.
     andThen (checkThat (0 \<le> idx \<and> idx < n) CheckFailed) (\<lambda>_.
     modify (\<lambda>c. c\<lparr>output_handle_shapes_and_types :=
       (output_handle_shapes_and_types c)[nat idx := Some sts]\<rparr>)))"

definition ForgetMerges :: "unit cop" where
  "ForgetMerges = modify (\<lambda>c. c\<lparr>merged_shapes := [], merged_dims := []\<rparr>)"

definition addMergedShapes :: "shape \<Rightarrow> shape \<Rightarrow> unit cop" where
  "addMergedShapes s0 s1 = modify (\<lambda>c. c\<lparr>merged_shapes := merged_shapes c @ [(s0, s1)]\<rparr>)"

definition addMergedDims :: "dim \<Rightarrow> dim \<Rightarrow> unit cop" where
  "addMergedDims d0 d1 = modify (\<lambda>c. c\<lparr>merged_dims := merged_dims c @ [(d0, d1)]\<rparr>)"

section \<open>How the primitives run\<close>

lemma dimOrConst_run [op_simps]:
  "dimOrConst d c = (if (\<forall>v. d = Const v \<longrightarrow> - 1 \<le> v) then (Inr (), c) else (Inl (Fault DCheckFailed), c))"
  by (cases d) (auto simp: dimOrConst_def op_simps)

lemma MakeDim_Handle [op_simps]: "MakeDim (Handle a) c = (Inr a, c)"
  by (simp add: MakeDim_def op_simps)

lemma MakeDim_Const [op_simps]:
  "- 1 \<le> v \<Longrightarrow> MakeDim (Const v) c = (Inr (length (all_dims c)), c\<lparr>all_dims := all_dims c @ [v]\<rparr>)"
  by (auto simp: MakeDim_def newDimension_def op_simps)

lemma UnknownDim_run [op_simps]:
  "UnknownDim c = (Inr (length (all_dims c)), c\<lparr>all_dims := all_dims c @ [- 1]\<rparr>)"
  by (simp add: UnknownDim_def op_simps)

lemma newShape_run [op_simps]:
  "newShape sh c = (Inr (Some (length (all_shapes c))), c\<lparr>all_shapes := all_shapes c @ [sh]\<rparr>)"
  by (simp add: newShape_def op_simps)

lemma MakeShape_run [op_simps]:
  "MakeShape ds c = (Inr (Some (length (all_shapes c))), c\<lparr>all_shapes := all_shapes c @ [Some ds]\<rparr>)"
  by (simp add: MakeShape_def op_simps)

lemma UnknownShape_run [op_simps]:
  "UnknownShape c = (Inr (Some (length (all_shapes c))), c\<lparr>all_shapes := all_shapes c @ [None]\<rparr>)"
  by (simp add: UnknownShape_def op_simps)

lemma RankKnown_iff: "RankKnown c s \<longleftrightarrow> shape_of c s \<noteq> None"
  by (auto simp: RankKnown_def Rank_def shape_of_def split: option.splits)

lemma Dim_known:
  assumes "shape_of c s = Some ds"
  shows "Dim s idx c = (vecAt ds (if idx < 0 then int (length ds) + idx else idx), c)"
  using assms
  by (auto simp: Dim_def op_simps Rank_def shape_of_def DimKnownRank_def split: option.splits)

lemma Dim_unknown: "shape_of c s = None \<Longrightarrow> Dim s idx c = UnknownDim c"
  by (simp add: Dim_def op_simps Rank_def)

end
