(* ===== verification/ShapeOps.thy ===== *)
theory ShapeOps
  imports ShapeCtx
begin

text \<open>
  The shape algebra of \<open>InferenceContext\<close> (\<open>framework/shape_inference.cc\<close>): rank and
  value assertions, merging (the meet of two partial descriptions), relaxing (a common
  generalisation), sub-shapes, concatenation and replacement. Overloaded methods get a
  suffix: \<open>MergeDim\<close>/\<open>MergeShape\<close>, \<open>RelaxDim\<close>/\<open>RelaxShape\<close>,
  \<open>SubshapeFrom\<close>/\<open>SubshapeRange\<close>/\<open>SubshapeStride\<close>.
\<close>

text \<open>The dimensions of a shape the code has found to have known rank.\<close>

definition dimsOf :: "shape \<Rightarrow> dim list cop" where
  "dimsOf s = (\<lambda>c. (case shape_of c s of None \<Rightarrow> Inl (Fault NullDeref) | Some ds \<Rightarrow> Inr ds, c))"

section \<open>Merging and relaxing dimensions\<close>

definition MergeDim :: "dim \<Rightarrow> dim \<Rightarrow> dim cop" where
  "MergeDim d0 d1 =
    (if SameHandle d0 d1 then ret d0
     else andThen (gets (\<lambda>c. (DValue c d0, DValue c d1))) (\<lambda>(v0, v1).
       if v1 = kUnknownDim then andThen (addMergedDims d0 d1) (\<lambda>_. ret d0)
       else if v0 = kUnknownDim then andThen (addMergedDims d0 d1) (\<lambda>_. ret d1)
       else if v0 = v1 then ret d0
       else failWith InvalidArgument))"

definition WithValue :: "dim \<Rightarrow> int \<Rightarrow> dim cop" where
  "WithValue d value =
     andThen (gets (\<lambda>c. DValue c d)) (\<lambda>existing.
     if existing = value then ret d
     else if existing = kUnknownDim then andThen (MakeDim (Const value)) (MergeDim d)
     else failWith InvalidArgument)"

definition RelaxDim :: "dim \<Rightarrow> dim \<Rightarrow> dim cop" where
  "RelaxDim d_old d_new =
    (if SameHandle d_old d_new then ret d_old
     else andThen (gets (\<lambda>c. (DValue c d_old, DValue c d_new))) (\<lambda>(v0, v1).
       if v0 = kUnknownDim \<and> v1 = kUnknownDim then andThen ForgetMerges (\<lambda>_. ret d_new)
       else if v1 = kUnknownDim then andThen ForgetMerges (\<lambda>_. ret d_new)
       else if v0 = v1 then ret d_old
       else andThen ForgetMerges (\<lambda>_. UnknownDim)))"

section \<open>Merging and relaxing shapes\<close>

text \<open>The first loop of \<open>Merge\<close>: \<open>None\<close> when two known dimensions differ, else
  whether \<open>s0\<close> and whether \<open>s1\<close> can be returned as it is.\<close>

fun mergeScan :: "ctx \<Rightarrow> (dim \<times> dim) list \<Rightarrow> bool \<Rightarrow> bool \<Rightarrow> (bool \<times> bool) option" where
  "mergeScan c [] r0 r1 = Some (r0, r1)"
| "mergeScan c ((d0, d1) # ds) r0 r1 =
     (if SameHandle d0 d1 then mergeScan c ds r0 r1
      else if DValue c d0 = kUnknownDim then
        mergeScan c ds (if DValue c d1 \<noteq> kUnknownDim then False else r0) r1
      else if DValue c d1 = kUnknownDim then mergeScan c ds r0 False
      else if DValue c d0 \<noteq> DValue c d1 then None
      else mergeScan c ds r0 r1)"

definition mergeKnown :: "shape \<Rightarrow> shape \<Rightarrow> dim list \<Rightarrow> dim list \<Rightarrow> shape cop" where
  "mergeKnown s0 s1 ds0 ds1 =
    (if length ds0 \<noteq> length ds1 then failWith InvalidArgument
     else andThen (gets (\<lambda>c. mergeScan c (zip ds0 ds1) True True)) (\<lambda>scan.
       case scan of
         None \<Rightarrow> failWith InvalidArgument
       | Some (return_s0, return_s1) \<Rightarrow>
           andThen (addMergedShapes s0 s1) (\<lambda>_.
           if return_s0 \<or> return_s1 then ret (if return_s0 then s0 else s1)
           else
             andThen (mapOp (\<lambda>(d0, d1). checkOk (MergeDim d0 d1)) (zip ds0 ds1)) (\<lambda>dims.
             andThen (MakeShape dims) (\<lambda>out.
             andThen (addMergedShapes s0 out) (\<lambda>_.
             ret out))))))"

definition MergeShape :: "shape \<Rightarrow> shape \<Rightarrow> shape cop" where
  "MergeShape s0 s1 =
    (if SameHandle s0 s1 then ret s0
     else andThen (gets (\<lambda>c. (RankKnown c s0, RankKnown c s1))) (\<lambda>(known0, known1).
       if \<not> known1 then andThen (addMergedShapes s0 s1) (\<lambda>_. ret s0)
       else if \<not> known0 then andThen (addMergedShapes s0 s1) (\<lambda>_. ret s1)
       else andThen (dimsOf s0) (\<lambda>ds0. andThen (dimsOf s1) (\<lambda>ds1. mergeKnown s0 s1 ds0 ds1))))"

definition relaxKeeps :: "ctx \<Rightarrow> dim \<times> dim \<Rightarrow> bool" where
  "relaxKeeps c = (\<lambda>(d0, d1). SameHandle d0 d1 \<or>
     \<not> (DValue c d0 = kUnknownDim \<or> DValue c d1 = kUnknownDim \<or> DValue c d0 \<noteq> DValue c d1))"

definition RelaxShape :: "shape \<Rightarrow> shape \<Rightarrow> shape cop" where
  "RelaxShape s_old s_new =
    (if SameHandle s_old s_new then ret s_old
     else andThen (gets (\<lambda>c. \<not> RankKnown c s_new \<or> s_old = None)) (\<lambda>take_new.
       if take_new then andThen ForgetMerges (\<lambda>_. ret s_new)
       else andThen (gets (\<lambda>c. Rank c s_old \<noteq> Rank c s_new)) (\<lambda>differ.
         if differ then andThen ForgetMerges (\<lambda>_. UnknownShape)
         else andThen (dimsOf s_old) (\<lambda>ds0. andThen (dimsOf s_new) (\<lambda>ds1.
           andThen (gets (\<lambda>c. list_all (relaxKeeps c) (zip ds0 ds1))) (\<lambda>return_s_old.
           if return_s_old then ret s_old
           else
             andThen (mapOp (\<lambda>(d0, d1). RelaxDim d0 d1) (zip ds0 ds1)) (\<lambda>dims.
             andThen ForgetMerges (\<lambda>_. MakeShape dims))))))))"

section \<open>Asserting a rank\<close>

text \<open>\<open>dims.reserve(rank)\<close> of a negative \<open>rank\<close> asks for a size beyond \<open>max_size\<close>.\<close>

definition WithRank :: "shape \<Rightarrow> int \<Rightarrow> shape cop" where
  "WithRank s rank =
    (if rank > int32_max then failWith InvalidArgument
     else andThen (gets (\<lambda>c. Rank c s)) (\<lambda>existing.
       if existing = rank then ret s
       else if existing = kUnknownRank then
         andThen (checkThat (0 \<le> rank) LengthError) (\<lambda>_.
         andThen (mapOp (\<lambda>_. UnknownDim) [0..<nat rank]) (\<lambda>dims.
         andThen (MakeShape dims) (MergeShape s)))
       else failWith InvalidArgument))"

definition WithRankAtLeast :: "shape \<Rightarrow> int \<Rightarrow> shape cop" where
  "WithRankAtLeast s rank =
    (if rank > int32_max then failWith InvalidArgument
     else andThen (gets (\<lambda>c. Rank c s)) (\<lambda>existing.
       if existing \<ge> rank \<or> existing = kUnknownRank then ret s
       else failWith InvalidArgument))"

definition WithRankAtMost :: "shape \<Rightarrow> int \<Rightarrow> shape cop" where
  "WithRankAtMost s rank =
    (if rank > int32_max then failWith InvalidArgument
     else andThen (gets (\<lambda>c. Rank c s)) (\<lambda>existing.
       if existing \<le> rank \<or> existing = kUnknownRank then ret s
       else failWith InvalidArgument))"

definition MergePrefix :: "shape \<Rightarrow> shape \<Rightarrow> (shape \<times> shape) cop" where
  "MergePrefix s prefix =
     andThen (gets (\<lambda>c. \<not> RankKnown c prefix \<or> \<not> RankKnown c s)) (\<lambda>unknown.
     if unknown then ret (s, prefix)
     else
       andThen (gets (\<lambda>c. Rank c prefix)) (\<lambda>rank.
       andThen (WithRankAtLeast s rank) (\<lambda>s.
       andThen (dimsOf s) (\<lambda>ds. andThen (dimsOf prefix) (\<lambda>ps.
       andThen (mapOp (\<lambda>(d, p). MergeDim d p) (zip (take (nat rank) ds) ps)) (\<lambda>dims.
       andThen (MakeShape dims) (\<lambda>prefix_out.
       andThen (MakeShape (dims @ drop (nat rank) ds)) (\<lambda>s_out.
       ret (s_out, prefix_out)))))))))"

section \<open>Sub-shapes, concatenation, replacement\<close>

text \<open>
  The loop \<open>for (int i = start; stride > 0 ? i < end : i > end; i += stride)\<close>: the
  indices it visits, or no value when it does not end. \<open>i += stride\<close> adds in \<open>int64_t\<close>
  and narrows to \<open>int\<close>.
\<close>

partial_function (option) subshapeLoop :: "int \<Rightarrow> int \<Rightarrow> int \<Rightarrow> int list option" where
  "subshapeLoop stop stride i =
     (if (if stride > 0 then i < stop else i > stop)
      then Option.bind (subshapeLoop stop stride (to_int32 (i + stride))) (\<lambda>idxs. Some (i # idxs))
      else Some [])"

definition SubshapeStride :: "shape \<Rightarrow> int \<Rightarrow> int \<Rightarrow> int \<Rightarrow> shape cop" where
  "SubshapeStride s start_in end_in stride =
     andThen (gets (\<lambda>c. (Rank c s, RankKnown c s))) (\<lambda>(rank, known).
     if start_in = 0 \<and> stride = 1 \<and> (known \<and> end_in \<ge> rank \<or> end_in = int64_max) then ret s
     else if \<not> known then UnknownShape
     else
       let start0 = (if start_in > rank then rank else start_in);
           end0 = (if end_in > rank then rank else end_in);
           start1 = (if stride < 0 \<and> start0 = rank then start0 - 1 else start0);
           start = (if start1 < 0 then rank + start1 else start1);
           stop = (if end0 < 0 then rank + end0 else end0)
       in if start1 < 0 \<and> start < 0 then failWith InvalidArgument
          else if end0 < 0 \<and> stop < 0 then failWith InvalidArgument
          else if stride > 0 \<and> start > stop then failWith InvalidArgument
          else if stride < 0 \<and> start < stop then failWith InvalidArgument
          else (case subshapeLoop stop stride start of
                  None \<Rightarrow> faultWith Diverges
                | Some idxs \<Rightarrow> andThen (mapOp (Dim s) idxs) MakeShape))"

definition SubshapeRange :: "shape \<Rightarrow> int \<Rightarrow> int \<Rightarrow> shape cop" where
  "SubshapeRange s start stop = SubshapeStride s start stop 1"

definition SubshapeFrom :: "shape \<Rightarrow> int \<Rightarrow> shape cop" where
  "SubshapeFrom s start = SubshapeRange s start int64_max"

definition Concatenate :: "shape \<Rightarrow> shape \<Rightarrow> shape cop" where
  "Concatenate s1 s2 =
     andThen (gets (\<lambda>c. \<not> RankKnown c s1 \<or> \<not> RankKnown c s2)) (\<lambda>unknown.
     if unknown then UnknownShape
     else andThen (dimsOf s1) (\<lambda>ds1. andThen (dimsOf s2) (\<lambda>ds2. MakeShape (ds1 @ ds2))))"

definition FastBoundsCheck :: "int \<Rightarrow> int \<Rightarrow> bool" where
  "FastBoundsCheck index limit \<longleftrightarrow> to_uint64 index < to_uint64 limit"

definition ReplaceDim :: "shape \<Rightarrow> int \<Rightarrow> dim \<Rightarrow> shape cop" where
  "ReplaceDim s dim_index_in new_dim =
     andThen (gets (\<lambda>c. RankKnown c s)) (\<lambda>known.
     if \<not> known then UnknownShape
     else andThen (dimsOf s) (\<lambda>ds.
       let n = int (length ds);
           dim_index = (if dim_index_in < 0 then n + dim_index_in else dim_index_in)
       in if \<not> FastBoundsCheck dim_index n then failWith InvalidArgument
          else MakeShape (ds[nat dim_index := new_dim])))"

end
