(* ===== verification/Overflow.thy ===== *)
theory Overflow
  imports Prelude "HOL-Library.Word"
begin

text \<open>
  \<open>core/util/overflow.h\<close>: multiplication and addition of non-negative \<open>int64_t\<close>
  values that report an overflow by a negative result. The arithmetic is done on
  \<open>64 word\<close>, as the code does it on \<open>uint64_t\<close>. What the callers rely on is the
  interface \<open>checked_mul\<close>: the exact product when it fits, a negative number when it
  does not. Products over a list of dimensions (\<open>mulAll\<close>, the loop every element
  count of the code is) are proved correct inside it.
\<close>

unbundle bit_operations_syntax

definition MultiplyWithoutOverflow :: "int \<Rightarrow> int \<Rightarrow> int" where
  "MultiplyWithoutOverflow x y =
    (if x < 0 then -1
     else if y < 0 then -1
     else if x = 0 then 0
     else
       let ux = word_of_int x :: 64 word;
           uy = word_of_int y :: 64 word;
           uxy = ux * uy
       in if drop_bit 32 (ux OR uy) \<noteq> 0 \<and> uxy div ux \<noteq> uy then -1
          else sint uxy)"

definition AddWithoutOverflow :: "int \<Rightarrow> int \<Rightarrow> int" where
  "AddWithoutOverflow x y =
    (if x < 0 \<or> y < 0 then -1
     else
       let ux = word_of_int x :: 64 word;
           uy = word_of_int y :: 64 word
       in sint (ux + uy))"

section \<open>The contract of the checked product\<close>

text \<open>
  The loop \<open>for (d : dims) { n = MultiplyWithoutOverflow(n, d); if (n < 0) return error; }\<close>
\<close>

primrec mulAll :: "(int \<Rightarrow> int \<Rightarrow> int) \<Rightarrow> int \<Rightarrow> int list \<Rightarrow> int option" where
  "mulAll mul n [] = Some n"
| "mulAll mul n (d # ds) =
     (let n' = mul n d in if n' < 0 then None else mulAll mul n' ds)"

text \<open>No prefix of the product leaves the range of \<open>int64_t\<close>.\<close>

primrec prefixes_fit :: "int \<Rightarrow> int list \<Rightarrow> bool" where
  "prefixes_fit n [] \<longleftrightarrow> True"
| "prefixes_fit n (d # ds) \<longleftrightarrow> n * d \<le> int64_max \<and> prefixes_fit (n * d) ds"

locale checked_mul =
  fixes mul :: "int \<Rightarrow> int \<Rightarrow> int"
  assumes mul_exact:
    "0 \<le> x \<Longrightarrow> 0 \<le> y \<Longrightarrow> x \<le> int64_max \<Longrightarrow> y \<le> int64_max \<Longrightarrow> x * y \<le> int64_max \<Longrightarrow> mul x y = x * y"
  and mul_overflow:
    "0 \<le> x \<Longrightarrow> 0 \<le> y \<Longrightarrow> x \<le> int64_max \<Longrightarrow> y \<le> int64_max \<Longrightarrow> int64_max < x * y \<Longrightarrow> mul x y < 0"
  and mul_negative: "x < 0 \<or> y < 0 \<Longrightarrow> mul x y < 0"
begin

lemma mul_nonneg_iff:
  assumes "0 \<le> x" "0 \<le> y" "x \<le> int64_max" "y \<le> int64_max"
  shows "0 \<le> mul x y \<longleftrightarrow> x * y \<le> int64_max"
proof (cases "x * y \<le> int64_max")
  case True
  then show ?thesis using assms by (simp add: mul_exact)
next
  case False
  then show ?thesis using mul_overflow[OF assms] by simp
qed

lemma mulAll_eq:
  assumes "0 \<le> n" "n \<le> int64_max" "\<forall>d \<in> set ds. 0 \<le> d \<and> d \<le> int64_max"
  shows "mulAll mul n ds = (if prefixes_fit n ds then Some (n * prod_list ds) else None)"
  using assms
proof (induction ds arbitrary: n)
  case Nil
  then show ?case by simp
next
  case (Cons d ds)
  have d: "0 \<le> d" "d \<le> int64_max" and ds: "\<forall>d \<in> set ds. 0 \<le> d \<and> d \<le> int64_max"
    using Cons.prems by auto
  show ?case
  proof (cases "n * d \<le> int64_max")
    case True
    have "mul n d = n * d" using Cons.prems d True by (simp add: mul_exact)
    moreover have "0 \<le> n * d" using Cons.prems d by simp
    ultimately show ?thesis using Cons.IH[OF _ True ds] True by (simp add: Let_def mult.assoc)
  next
    case False
    have "mul n d < 0" using Cons.prems d False by (intro mul_overflow) auto
    then show ?thesis using False by simp
  qed
qed

end

lemma prefixes_fit_zero [simp]: "prefixes_fit 0 ds"
  by (induction ds) auto

lemma prefixes_fit_pos:
  assumes "0 \<le> n" "\<forall>d \<in> set ds. 0 < d" "n \<le> int64_max"
  shows "prefixes_fit n ds \<longleftrightarrow> n * prod_list ds \<le> int64_max"
  using assms
proof (induction ds arbitrary: n)
  case Nil
  then show ?case by simp
next
  case (Cons d ds)
  have "0 < d" and ds: "\<forall>d \<in> set ds. 0 < d" using Cons.prems by auto
  have p: "0 < prod_list ds" using ds by (induction ds) auto
  have nd: "0 \<le> n * d" using Cons.prems \<open>0 < d\<close> by simp
  show ?case
  proof (cases "n * d \<le> int64_max")
    case True
    then show ?thesis using Cons.IH[OF nd ds] by (simp add: mult.assoc)
  next
    case False
    have "n * d \<le> n * d * prod_list ds" using nd p by (simp add: mult_le_cancel_left1)
    then show ?thesis using False by (auto simp: mult.assoc)
  qed
qed

lemma prefixes_fit_append:
  "prefixes_fit n (xs @ ys) \<longleftrightarrow> prefixes_fit n xs \<and> prefixes_fit (n * prod_list xs) ys"
  by (induction xs arbitrary: n) (auto simp: mult.assoc)

section \<open>The word arithmetic meets the contract\<close>

lemma uint_of_nonneg64:
  "0 \<le> x \<Longrightarrow> x \<le> int64_max \<Longrightarrow> uint (word_of_int x :: 64 word) = x"
  by (simp add: uint_word_of_int)

lemma sint_small64:
  fixes w :: "64 word"
  shows "uint w \<le> int64_max \<Longrightarrow> sint w = uint w"
    and "int64_max < uint w \<Longrightarrow> sint w < 0"
proof -
  have s: "sint w = (uint w + 2 ^ 63) mod 2 ^ 64 - 2 ^ 63"
    by (simp add: sint_uint signed_take_bit_eq_take_bit_shift take_bit_eq_mod)
  have b: "0 \<le> uint w" "uint w < 2 ^ 64" using uint_lt2p[of w] by simp_all
  show "uint w \<le> int64_max \<Longrightarrow> sint w = uint w"
    unfolding s using b by simp
  show "int64_max < uint w \<Longrightarrow> sint w < 0"
  proof -
    assume "int64_max < uint w"
    then obtain m where m: "uint w = 2 ^ 63 + m" "0 \<le> m" "m < 2 ^ 63"
      using b by (intro that[of "uint w - 2 ^ 63"]) simp_all
    have "(uint w + 2 ^ 63) mod 2 ^ 64 = (m + 2 ^ 64) mod 2 ^ 64" by (simp add: m(1))
    also have "\<dots> = m" using m(2,3) by simp
    finally have "(uint w + 2 ^ 63) mod 2 ^ 64 = m" .
    then show "sint w < 0" unfolding s using m(3) by simp
  qed
qed

lemma high_half_zero:
  fixes a b :: "64 word"
  assumes "drop_bit 32 (a OR b) = 0"
  shows "uint a < 2 ^ 32" "uint b < 2 ^ 32"
proof -
  have "uint (drop_bit 32 (a OR b)) = 0" using assms by simp
  then have "drop_bit 32 (uint a) OR drop_bit 32 (uint b) = 0"
    by (simp only: unsigned_drop_bit_eq unsigned_or_eq drop_bit_or bintr_uint order_refl)
  then have "drop_bit 32 (uint a) = 0" "drop_bit 32 (uint b) = 0"
    using or_eq_0_iff by blast+
  then show "uint a < 2 ^ 32" "uint b < 2 ^ 32"
    using uint_ge_0[of a] uint_ge_0[of b]
    by (auto simp: drop_bit_eq_div zdiv_eq_0_iff)
qed

lemma division_check:
  fixes x y :: int
  assumes "0 < x" "0 \<le> y" "y \<le> int64_max" "x \<le> int64_max"
  shows "(x * y) mod 2 ^ 64 div x = y \<longleftrightarrow> x * y < 2 ^ 64"
proof
  assume *: "(x * y) mod 2 ^ 64 div x = y"
  have "y * x \<le> (x * y) mod 2 ^ 64"
    using * assms by (metis div_mult_mod_eq le_add_same_cancel1 pos_mod_sign)
  also have "\<dots> < 2 ^ 64" by simp
  finally show "x * y < 2 ^ 64" by (simp add: mult.commute)
next
  assume "x * y < 2 ^ 64"
  then have "(x * y) mod 2 ^ 64 = x * y" using assms by simp
  then show "(x * y) mod 2 ^ 64 div x = y" using assms by simp
qed

lemma MultiplyWithoutOverflow_word:
  assumes "0 < x" "0 \<le> y" "x \<le> int64_max" "y \<le> int64_max"
  shows "MultiplyWithoutOverflow x y =
    (if 2 ^ 64 \<le> x * y then -1 else sint (word_of_int (x * y) :: 64 word))"
proof -
  let ?ux = "word_of_int x :: 64 word" and ?uy = "word_of_int y :: 64 word"
  have u: "uint ?ux = x" "uint ?uy = y" using assms by (simp_all add: uint_of_nonneg64)
  have prod: "uint (?ux * ?uy) = (x * y) mod 2 ^ 64" by (simp add: uint_word_ariths u)
  have "?ux * ?uy div ?ux = ?uy \<longleftrightarrow> uint (?ux * ?uy div ?ux) = uint ?uy"
    by (rule word_uint_eq_iff)
  also have "\<dots> \<longleftrightarrow> (x * y) mod 2 ^ 64 div x = y" by (simp only: uint_div u prod)
  also have "\<dots> \<longleftrightarrow> x * y < 2 ^ 64" using assms by (intro division_check) auto
  finally have chk: "?ux * ?uy div ?ux = ?uy \<longleftrightarrow> x * y < 2 ^ 64" .
  have small: "x * y < 2 ^ 64" if "drop_bit 32 (?ux OR ?uy) = 0"
  proof -
    have "x < 2 ^ 32" "y < 2 ^ 32" using high_half_zero[OF that] u by simp_all
    then have "x * y < 2 ^ 32 * 2 ^ 32" using assms by (intro mult_strict_mono') auto
    then show ?thesis by simp
  qed
  have "?ux * ?uy = word_of_int (x * y)" by simp
  then show ?thesis
    using assms chk small unfolding MultiplyWithoutOverflow_def Let_def by auto
qed

interpretation mwo: checked_mul MultiplyWithoutOverflow
proof
  fix x y :: int
  assume a: "0 \<le> x" "0 \<le> y" "x \<le> int64_max" "y \<le> int64_max"
  show "MultiplyWithoutOverflow x y = x * y" if le: "x * y \<le> int64_max"
  proof (cases "x = 0")
    case True
    then show ?thesis using a by (simp add: MultiplyWithoutOverflow_def)
  next
    case False
    have "sint (word_of_int (x * y) :: 64 word) = x * y"
      using a le by (simp only: sint_small64 uint_of_nonneg64 mult_nonneg_nonneg)
    moreover have "\<not> 2 ^ 64 \<le> x * y" using le by simp
    ultimately show ?thesis using False a by (simp only: MultiplyWithoutOverflow_word if_False)
  qed
  show "MultiplyWithoutOverflow x y < 0" if gt: "int64_max < x * y"
  proof (cases "2 ^ 64 \<le> x * y")
    case True
    then show ?thesis using a gt by (cases "x = 0") (simp_all add: MultiplyWithoutOverflow_word)
  next
    case False
    then have "(x * y) mod 2 ^ 64 = x * y" using a by (intro mod_pos_pos_trivial) auto
    then have "uint (word_of_int (x * y) :: 64 word) = x * y"
      by (simp only: uint_word_of_int) simp
    then have "sint (word_of_int (x * y) :: 64 word) < 0"
      using gt by (intro sint_small64(2)) (simp only:)
    moreover have "x \<noteq> 0" using gt by auto
    ultimately show ?thesis using a False by (simp only: MultiplyWithoutOverflow_word if_False)
  qed
next
  show "MultiplyWithoutOverflow x y < 0" if "x < 0 \<or> y < 0" for x y
    using that by (auto simp: MultiplyWithoutOverflow_def)
qed

lemma AddWithoutOverflow_exact:
  assumes "0 \<le> x" "0 \<le> y" "x \<le> int64_max" "y \<le> int64_max"
  shows "x + y \<le> int64_max \<Longrightarrow> AddWithoutOverflow x y = x + y"
    and "int64_max < x + y \<Longrightarrow> AddWithoutOverflow x y < 0"
proof -
  have u: "uint (word_of_int x + word_of_int y :: 64 word) = x + y"
    using assms by (simp add: uint_word_ariths uint_word_of_int)
  show "x + y \<le> int64_max \<Longrightarrow> AddWithoutOverflow x y = x + y"
    using assms sint_small64(1)[of "word_of_int x + word_of_int y"] u
    by (simp add: AddWithoutOverflow_def)
  show "int64_max < x + y \<Longrightarrow> AddWithoutOverflow x y < 0"
    using assms sint_small64(2)[of "word_of_int x + word_of_int y"] u
    by (simp add: AddWithoutOverflow_def)
qed

end
