(* ===== verification/DimArith.thy ===== *)
theory DimArith
  imports ShapeOps Overflow
begin

text \<open>
  Arithmetic on dimensions (\<open>Divide\<close>, \<open>Add\<close>, \<open>Subtract\<close>, \<open>Multiply\<close>, \<open>Min\<close>, \<open>Max\<close>,
  \<open>NumElements\<close> of \<open>framework/shape_inference.cc\<close>).
\<close>

definition Divide :: "dim \<Rightarrow> dim_or_const \<Rightarrow> bool \<Rightarrow> dim cop" where
  "Divide dividend divisor evenly_divisible =
     andThen (dimOrConst divisor) (\<lambda>_.
     andThen (gets (\<lambda>c. Value c divisor)) (\<lambda>divisor_value.
     andThen (gets (\<lambda>c. DValue c dividend)) (\<lambda>v.
     if divisor_value = 1 then ret dividend
     else if v = kUnknownDim \<or> (case divisor of Handle _ \<Rightarrow> divisor_value = kUnknownDim | Const _ \<Rightarrow> False)
     then UnknownDim
     else if divisor_value \<le> 0 then failWith InvalidArgument
     else if evenly_divisible \<and> cmod v divisor_value \<noteq> 0 then failWith InvalidArgument
     else MakeDim (Const (cdiv v divisor_value)))))"

definition Add :: "dim \<Rightarrow> dim_or_const \<Rightarrow> dim cop" where
  "Add first second =
     andThen (dimOrConst second) (\<lambda>_.
     andThen (gets (\<lambda>c. (DValue c first, Value c second))) (\<lambda>(first_value, second_value).
     if first_value = 0 then MakeDim second
     else if second_value = 0 then ret first
     else if first_value = kUnknownDim \<or> second_value = kUnknownDim then UnknownDim
     else
       let sum = to_int64 (to_uint64 (to_uint64 first_value + to_uint64 second_value))
       in if sum < 0 then failWith InvalidArgument else MakeDim (Const sum)))"

definition Subtract :: "dim \<Rightarrow> dim_or_const \<Rightarrow> dim cop" where
  "Subtract first second =
     andThen (dimOrConst second) (\<lambda>_.
     andThen (gets (\<lambda>c. (DValue c first, Value c second))) (\<lambda>(first_value, second_value).
     if second_value = 0 then ret first
     else if first_value = kUnknownDim \<or> second_value = kUnknownDim then UnknownDim
     else if first_value < second_value then failWith InvalidArgument
     else MakeDim (Const (first_value - second_value))))"

definition Multiply :: "dim \<Rightarrow> dim_or_const \<Rightarrow> dim cop" where
  "Multiply first second =
     andThen (dimOrConst second) (\<lambda>_.
     andThen (gets (\<lambda>c. (DValue c first, Value c second))) (\<lambda>(first_value, second_value).
     if first_value = 0 then ret first
     else if second_value = 0 then MakeDim second
     else if first_value = 1 then MakeDim second
     else if second_value = 1 then ret first
     else if first_value = kUnknownDim \<or> second_value = kUnknownDim then UnknownDim
     else
       let product = MultiplyWithoutOverflow first_value second_value
       in if product < 0 then failWith InvalidArgument else MakeDim (Const product)))"

definition Min :: "dim \<Rightarrow> dim_or_const \<Rightarrow> dim cop" where
  "Min first second =
     andThen (dimOrConst second) (\<lambda>_.
     andThen (gets (\<lambda>c. (DValue c first, Value c second))) (\<lambda>(first_value, second_value).
     if first_value = 0 then ret first
     else if second_value = 0 then MakeDim second
     else if first_value = kUnknownDim \<or> second_value = kUnknownDim then UnknownDim
     else if first_value \<le> second_value then ret first
     else MakeDim second))"

definition Max :: "dim \<Rightarrow> dim_or_const \<Rightarrow> dim cop" where
  "Max first second =
     andThen (dimOrConst second) (\<lambda>_.
     andThen (gets (\<lambda>c. (DValue c first, Value c second))) (\<lambda>(first_value, second_value).
     if first_value = kUnknownDim \<or> second_value = kUnknownDim then UnknownDim
     else if first_value \<ge> second_value then ret first
     else MakeDim second))"

text \<open>
  The loop of \<open>NumElements\<close> over the values of the dimensions. A zero returns at once;
  \<open>size *= dim_val\<close> is a signed multiplication.
\<close>

fun numElementsLoop :: "int list \<Rightarrow> bool \<Rightarrow> int \<Rightarrow> dim cop" where
  "numElementsLoop [] found_unknown sz =
     (if found_unknown then UnknownDim else MakeDim (Const sz))"
| "numElementsLoop (v # vs) found_unknown sz =
     (if v = kUnknownDim then numElementsLoop vs True sz
      else if v = 0 then MakeDim (Const 0)
      else andThen (liftR (signed64 (sz * v))) (numElementsLoop vs found_unknown))"

definition NumElements :: "shape \<Rightarrow> dim cop" where
  "NumElements s =
     andThen (gets (\<lambda>c. Rank c s)) (\<lambda>rank.
     if rank = kUnknownRank then UnknownDim
     else andThen (dimsOf s) (\<lambda>ds.
       andThen (gets (\<lambda>c. map (DValue c) ds)) (\<lambda>vs. numElementsLoop vs False 1)))"

end
