(* ===== verification/ShapeModels.thy ===== *)
theory ShapeModels
  imports DimArith
begin

text \<open>
  What a context says about the program it describes. An environment gives every
  dimension of the arena a size and every shape a list of sizes; it is a model of the
  context when it agrees with the known dimensions and shapes and with the recorded
  merges. \<open>step\<close> relates a context with a model to a later context with a model that
  extends it: the dimensions and shapes that existed keep their sizes. \<open>wp m Q\<close> says that
  \<open>m\<close> succeeds and that the model can be extended to the new handles such that \<open>Q\<close>
  holds; it is the soundness statement of shape inference: a program that runs is not
  rejected, and what is inferred describes its run.
\<close>

section \<open>Well-formed contexts\<close>

definition valid_dim :: "ctx \<Rightarrow> dim \<Rightarrow> bool" where
  "valid_dim c d \<longleftrightarrow> d < length (all_dims c)"

definition valid_shape :: "ctx \<Rightarrow> shape \<Rightarrow> bool" where
  "valid_shape c s \<longleftrightarrow> (case s of None \<Rightarrow> True | Some a \<Rightarrow> a < length (all_shapes c))"

definition valid_handles :: "ctx \<Rightarrow> shape_and_type list option list \<Rightarrow> bool" where
  "valid_handles c hs \<longleftrightarrow>
     list_all (\<lambda>h. case h of None \<Rightarrow> True | Some sts \<Rightarrow> list_all (\<lambda>st. valid_shape c (st_shape st)) sts) hs"

definition wf_ctx :: "ctx \<Rightarrow> bool" where
  "wf_ctx c \<longleftrightarrow>
     list_all (\<lambda>x. - 1 \<le> x \<and> x \<le> int64_max) (all_dims c) \<and>
     list_all (\<lambda>s. case s of None \<Rightarrow> True | Some ds \<Rightarrow> list_all (valid_dim c) ds) (all_shapes c) \<and>
     list_all (\<lambda>(d0, d1). valid_dim c d0 \<and> valid_dim c d1) (merged_dims c) \<and>
     list_all (\<lambda>(s0, s1). valid_shape c s0 \<and> valid_shape c s1) (merged_shapes c) \<and>
     list_all (valid_shape c) (inputs c) \<and>
     list_all (valid_shape c) (outputs c) \<and>
     list_all (valid_shape c) (input_tensors_as_shapes c) \<and>
     valid_handles c (input_handle_shapes_and_types c) \<and>
     valid_handles c (output_handle_shapes_and_types c)"

section \<open>Models\<close>

type_synonym dim_env = "dim \<Rightarrow> int"
type_synonym shape_env = "nat \<Rightarrow> int list"

definition is_size :: "int \<Rightarrow> bool" where
  "is_size n \<longleftrightarrow> 0 \<le> n \<and> n \<le> int64_max"

definition agrees_dim :: "ctx \<Rightarrow> dim_env \<Rightarrow> dim \<Rightarrow> bool" where
  "agrees_dim c v d \<longleftrightarrow> is_size (v d) \<and> (DValue c d \<noteq> kUnknownDim \<longrightarrow> v d = DValue c d)"

definition agrees_shape :: "ctx \<Rightarrow> dim_env \<Rightarrow> shape_env \<Rightarrow> nat \<Rightarrow> bool" where
  "agrees_shape c v w a \<longleftrightarrow>
     list_all is_size (w a) \<and>
     (case all_shapes c ! a of None \<Rightarrow> True | Some ds \<Rightarrow> w a = map v ds)"

definition same_shape :: "shape_env \<Rightarrow> shape \<times> shape \<Rightarrow> bool" where
  "same_shape w = (\<lambda>(s0, s1). case (s0, s1) of (Some a, Some b) \<Rightarrow> w a = w b | _ \<Rightarrow> True)"

definition models :: "ctx \<Rightarrow> dim_env \<Rightarrow> shape_env \<Rightarrow> bool" where
  "models c v w \<longleftrightarrow>
     (\<forall>d < length (all_dims c). agrees_dim c v d) \<and>
     (\<forall>a < length (all_shapes c). agrees_shape c v w a) \<and>
     (\<forall>p \<in> set (merged_dims c). v (fst p) = v (snd p)) \<and>
     (\<forall>p \<in> set (merged_shapes c). same_shape w p)"

datatype world = World (ctx_of: ctx) (dim_env_of: dim_env) (shape_env_of: shape_env)

definition good :: "world \<Rightarrow> bool" where
  "good W \<longleftrightarrow> (case W of World c v w \<Rightarrow> wf_ctx c \<and> models c v w)"

text \<open>The handle \<open>d\<close> has size \<open>n\<close> in the run, the handle \<open>s\<close> has the sizes \<open>xs\<close>.\<close>

definition has_dim :: "world \<Rightarrow> dim \<Rightarrow> int \<Rightarrow> bool" where
  "has_dim W d n \<longleftrightarrow> (case W of World c v w \<Rightarrow> valid_dim c d \<and> v d = n)"

definition has_dims :: "world \<Rightarrow> dim list \<Rightarrow> int list \<Rightarrow> bool" where
  "has_dims W ds xs \<longleftrightarrow> list_all2 (has_dim W) ds xs"

definition has_shape :: "world \<Rightarrow> shape \<Rightarrow> int list \<Rightarrow> bool" where
  "has_shape W s xs \<longleftrightarrow>
     (case W of World c v w \<Rightarrow> (case s of None \<Rightarrow> False | Some a \<Rightarrow> a < length (all_shapes c) \<and> w a = xs))"

definition rank_known :: "world \<Rightarrow> shape \<Rightarrow> bool" where
  "rank_known W s \<longleftrightarrow> RankKnown (ctx_of W) s"

definition has_doc :: "world \<Rightarrow> dim_or_const \<Rightarrow> int \<Rightarrow> bool" where
  "has_doc W d n \<longleftrightarrow> (case d of Handle a \<Rightarrow> has_dim W a n | Const k \<Rightarrow> is_size n \<and> (k = n \<or> k = kUnknownDim))"

text \<open>The fields of a context that no shape function writes.\<close>

definition same_statics :: "ctx \<Rightarrow> ctx \<Rightarrow> bool" where
  "same_statics c c' \<longleftrightarrow>
     inputs c' = inputs c \<and> input_tensors c' = input_tensors c \<and>
     length (requested_input_tensor c') = length (requested_input_tensor c) \<and>
     length (requested_input_tensor_as_partial_shape c') =
       length (requested_input_tensor_as_partial_shape c) \<and>
     input_tensors_as_shapes c' = input_tensors_as_shapes c \<and>
     input_handle_shapes_and_types c' = input_handle_shapes_and_types c \<and>
     graph_def_version c' = graph_def_version c \<and> attrs c' = attrs c \<and>
     input_name_map c' = input_name_map c \<and> output_name_map c' = output_name_map c \<and>
     length (outputs c') = length (outputs c) \<and>
     length (output_handle_shapes_and_types c') = length (output_handle_shapes_and_types c)"

definition extends :: "ctx \<Rightarrow> ctx \<Rightarrow> bool" where
  "extends c c' \<longleftrightarrow>
     take (length (all_dims c)) (all_dims c') = all_dims c \<and>
     take (length (all_shapes c)) (all_shapes c') = all_shapes c \<and>
     same_statics c c'"

definition step :: "world \<Rightarrow> world \<Rightarrow> bool" where
  "step W W' \<longleftrightarrow> (case (W, W') of (World c v w, World c' v' w') \<Rightarrow>
     good W \<and> good W' \<and> extends c c' \<and>
     (\<forall>d < length (all_dims c). v' d = v d) \<and>
     (\<forall>a < length (all_shapes c). w' a = w a))"

text \<open>A step that sets no output.\<close>

definition quiet :: "world \<Rightarrow> world \<Rightarrow> bool" where
  "quiet W W' \<longleftrightarrow> step W W' \<and> outputs (ctx_of W') = outputs (ctx_of W) \<and>
     output_handle_shapes_and_types (ctx_of W') = output_handle_shapes_and_types (ctx_of W)"

definition wp :: "'a cop \<Rightarrow> ('a \<Rightarrow> world \<Rightarrow> bool) \<Rightarrow> world \<Rightarrow> bool" where
  "wp m Q W \<longleftrightarrow> (\<exists>x W'. m (ctx_of W) = (Inr x, ctx_of W') \<and> step W W' \<and> Q x W')"

section \<open>Steps preserve what is known\<close>

named_theorems stable \<open>facts about a world that its steps keep\<close>

lemma extends_refl [simp]: "extends c c"
  by (simp add: extends_def same_statics_def)

lemma take_length_trans:
  assumes "take (length xs) ys = xs" and "take (length ys) zs = ys"
  shows "take (length xs) zs = xs"
proof -
  have "length xs \<le> length ys" using assms(1) by (metis nat_le_linear take_all)
  then show ?thesis using assms by (metis min.absorb1 take_take)
qed

lemma extends_trans: "extends c c' \<Longrightarrow> extends c' c'' \<Longrightarrow> extends c c''"
  unfolding extends_def same_statics_def by (metis take_length_trans)

lemma extends_length:
  assumes "extends c c'"
  shows "length (all_dims c) \<le> length (all_dims c')" "length (all_shapes c) \<le> length (all_shapes c')"
  using assms unfolding extends_def by (metis nat_le_linear take_all)+

lemma extends_valid_dim: "extends c c' \<Longrightarrow> valid_dim c d \<Longrightarrow> valid_dim c' d"
  using extends_length[of c c'] by (simp add: valid_dim_def)

lemma extends_valid_shape: "extends c c' \<Longrightarrow> valid_shape c s \<Longrightarrow> valid_shape c' s"
  using extends_length[of c c'] by (auto simp: valid_shape_def split: option.splits)

lemma extends_nth:
  assumes "extends c c'"
  shows "d < length (all_dims c) \<Longrightarrow> all_dims c' ! d = all_dims c ! d"
    and "a < length (all_shapes c) \<Longrightarrow> all_shapes c' ! a = all_shapes c ! a"
  using assms unfolding extends_def by (metis nth_take)+

lemma extends_shape_of: "extends c c' \<Longrightarrow> valid_shape c s \<Longrightarrow> shape_of c' s = shape_of c s"
  by (auto simp: shape_of_def valid_shape_def extends_nth split: option.splits)

lemma good_step: "step W W' \<Longrightarrow> good W'"
  by (auto simp: step_def split: world.splits)

lemma good_step0: "step W W' \<Longrightarrow> good W"
  by (auto simp: step_def split: world.splits)

lemma step_refl: "good W \<Longrightarrow> step W W"
  by (auto simp: step_def split: world.splits)

lemma step_trans:
  assumes "step W W'" "step W' W''"
  shows "step W W''"
proof -
  obtain c v w where W0: "W = World c v w" by (cases W)
  obtain c' v' w' where W1: "W' = World c' v' w'" by (cases W')
  obtain c'' v'' w'' where W2: "W'' = World c'' v'' w''" by (cases W'')
  note W = W0 W1 W2
  have "extends c c'" "extends c' c''" using assms W by (simp_all add: step_def)
  then have "extends c c''" and l: "length (all_dims c) \<le> length (all_dims c')"
      "length (all_shapes c) \<le> length (all_shapes c')"
    using extends_trans extends_length by blast+
  then show ?thesis using assms W by (simp add: step_def)
qed

lemma quiet_refl: "good W \<Longrightarrow> quiet W W"
  by (simp add: quiet_def step_refl)

lemma quiet_trans: "quiet W W' \<Longrightarrow> quiet W' W'' \<Longrightarrow> quiet W W''"
  unfolding quiet_def using step_trans by metis

lemma quiet_step: "quiet W W' \<Longrightarrow> step W W'"
  by (simp add: quiet_def)

lemma good_quiet: "quiet W W' \<Longrightarrow> good W'"
  using quiet_step good_step by blast

lemma step_has_dim [stable]: "step W W' \<Longrightarrow> has_dim W d n \<Longrightarrow> has_dim W' d n"
  using extends_valid_dim by (fastforce simp: step_def has_dim_def valid_dim_def split: world.splits)

lemma step_has_dims [stable]: "step W W' \<Longrightarrow> has_dims W ds xs \<Longrightarrow> has_dims W' ds xs"
  unfolding has_dims_def by (erule list_all2_mono) (rule step_has_dim)

lemma step_has_shape [stable]: "step W W' \<Longrightarrow> has_shape W s xs \<Longrightarrow> has_shape W' s xs"
  using extends_length by (fastforce simp: step_def has_shape_def split: world.splits option.splits)

lemma step_has_doc [stable]: "step W W' \<Longrightarrow> has_doc W d n \<Longrightarrow> has_doc W' d n"
  using step_has_dim by (auto simp: has_doc_def split: dim_or_const.splits)

lemma has_shape_valid: "has_shape (World c v w) s xs \<Longrightarrow> valid_shape c s"
  by (auto simp: has_shape_def valid_shape_def split: option.splits)

lemma step_rank_known [stable]:
  assumes "step W W'" "has_shape W s xs" "rank_known W s"
  shows "rank_known W' s"
proof -
  obtain c v w c' v' w' where W: "W = World c v w" "W' = World c' v' w'" by (metis world.exhaust)
  have "valid_shape c s" "extends c c'"
    using assms W has_shape_valid by (auto simp: step_def)
  then have "shape_of c' s = shape_of c s" by (simp add: extends_shape_of)
  then show ?thesis using assms(3) W by (simp add: rank_known_def RankKnown_iff)
qed

lemma step_statics: "step W W' \<Longrightarrow> same_statics (ctx_of W) (ctx_of W')"
  by (auto simp: step_def extends_def split: world.splits)

lemma has_dim_size: "good W \<Longrightarrow> has_dim W d n \<Longrightarrow> is_size n"
  by (auto simp: good_def models_def agrees_dim_def has_dim_def valid_dim_def split: world.splits)

lemma has_shape_sizes: "good W \<Longrightarrow> has_shape W s xs \<Longrightarrow> list_all is_size xs"
  by (auto simp: good_def models_def agrees_shape_def has_shape_def split: world.splits option.splits)

lemma has_doc_size: "good W \<Longrightarrow> has_doc W d n \<Longrightarrow> is_size n"
  using has_dim_size by (auto simp: has_doc_def split: dim_or_const.splits)

text \<open>A known value is the size, a known rank the length.\<close>

lemma has_dim_value: "good W \<Longrightarrow> has_dim W d n \<Longrightarrow> DValue (ctx_of W) d = kUnknownDim \<or> DValue (ctx_of W) d = n"
  by (auto simp: good_def models_def agrees_dim_def has_dim_def valid_dim_def split: world.splits)

lemma has_doc_value: "good W \<Longrightarrow> has_doc W d n \<Longrightarrow> Value (ctx_of W) d = kUnknownDim \<or> Value (ctx_of W) d = n"
  using has_dim_value by (auto simp: has_doc_def Value_def split: dim_or_const.splits)

lemma has_shape_known:
  assumes "good W" "has_shape W s xs" "shape_of (ctx_of W) s = Some ds"
  shows "has_dims W ds xs"
proof -
  obtain c v w where W: "W = World c v w" by (metis world.exhaust)
  obtain a where s: "s = Some a" and a: "a < length (all_shapes c)" and xs: "xs = w a"
    using assms(2) W by (auto simp: has_shape_def split: option.splits)
  have ds: "all_shapes c ! a = Some ds" using assms(3) W s by (simp add: shape_of_def)
  then have "xs = map v ds" using assms(1) W a xs by (auto simp: good_def models_def agrees_shape_def)
  moreover have "list_all (valid_dim c) ds"
    using assms(1) W a ds nth_mem[OF a] by (fastforce simp: good_def wf_ctx_def list_all_iff)
  ultimately show ?thesis
    using W by (auto simp: has_dims_def has_dim_def list_all2_conv_all_nth list_all_length)
qed

lemma has_dims_length: "has_dims W ds xs \<Longrightarrow> length ds = length xs"
  by (auto simp: has_dims_def dest: list_all2_lengthD)

lemma has_dims_nth: "has_dims W ds xs \<Longrightarrow> i < length ds \<Longrightarrow> has_dim W (ds ! i) (xs ! i)"
  by (simp add: has_dims_def list_all2_conv_all_nth)

lemma has_dims_append: "has_dims W ds xs \<Longrightarrow> has_dims W es ys \<Longrightarrow> has_dims W (ds @ es) (xs @ ys)"
  by (simp add: has_dims_def list_all2_appendI)

lemma has_dims_Nil [simp]: "has_dims W [] xs \<longleftrightarrow> xs = []" "has_dims W ds [] \<longleftrightarrow> ds = []"
  by (simp_all add: has_dims_def)

lemma has_dims_Cons [simp]:
  "has_dims W (d # ds) xs \<longleftrightarrow> (\<exists>y ys. xs = y # ys \<and> has_dim W d y \<and> has_dims W ds ys)"
  by (auto simp: has_dims_def list_all2_Cons1)

lemma has_shape_rank:
  assumes "good W" "has_shape W s xs"
  shows "Rank (ctx_of W) s = kUnknownRank \<or> Rank (ctx_of W) s = int (length xs)"
  using has_shape_known[OF assms] has_dims_length
  by (cases "shape_of (ctx_of W) s") (auto simp: Rank_def)

lemma rank_known_shape_of: "rank_known W s \<longleftrightarrow> (\<exists>ds. shape_of (ctx_of W) s = Some ds)"
  by (auto simp: rank_known_def RankKnown_iff)

section \<open>The weakest precondition calculus\<close>

lemma wpI:
  "m (ctx_of W) = (Inr x, ctx_of W') \<Longrightarrow> step W W' \<Longrightarrow> Q x W' \<Longrightarrow> wp m Q W"
  unfolding wp_def by blast

lemma wp_good: "wp m Q W \<Longrightarrow> good W"
  by (auto simp: wp_def dest: good_step0)

lemma wp_mono: "wp m Q W \<Longrightarrow> (\<And>x W'. step W W' \<Longrightarrow> Q x W' \<Longrightarrow> R x W') \<Longrightarrow> wp m R W"
  unfolding wp_def by blast

lemma wp_ret: "good W \<Longrightarrow> Q x W \<Longrightarrow> wp (ret x) Q W"
  by (auto simp: wp_def op_simps dest: step_refl)

lemma wp_bind:
  assumes "wp m (\<lambda>x W'. wp (f x) Q W') W"
  shows "wp (andThen m f) Q W"
proof -
  obtain x W' y W'' where
    "m (ctx_of W) = (Inr x, ctx_of W')" "step W W'"
    "f x (ctx_of W') = (Inr y, ctx_of W'')" "step W' W''" "Q y W''"
    using assms unfolding wp_def by auto
  then show ?thesis by (intro wpI[where x = y and W' = W'']) (auto simp: op_simps intro: step_trans)
qed

lemma wp_gets [simp]: "wp (andThen (gets g) f) Q W \<longleftrightarrow> wp (f (g (ctx_of W))) Q W"
  by (simp add: wp_def op_simps)

lemma wp_check [simp]: "wp (andThen (checkThat b e) f) Q W \<longleftrightarrow> b \<and> wp (f ()) Q W"
  by (simp add: wp_def op_simps)

lemma wp_failUnless [simp]: "wp (andThen (failUnless b e) f) Q W \<longleftrightarrow> b \<and> wp (f ()) Q W"
  by (simp add: wp_def op_simps)

lemma wp_ret_bind [simp]: "wp (andThen (ret x) f) Q W \<longleftrightarrow> wp (f x) Q W"
  by (simp add: wp_def op_simps)

lemma wp_fail [simp]: "\<not> wp (failWith e) Q W" "\<not> wp (faultWith f) Q W"
  by (simp_all add: wp_def op_simps)

lemma wp_liftR_bind: "r = Inr x \<Longrightarrow> wp (andThen (liftR r) f) Q W \<longleftrightarrow> wp (f x) Q W"
  by (simp add: wp_def op_simps)

lemma wp_dimOrConst [simp]:
  "wp (andThen (dimOrConst d) f) Q W \<longleftrightarrow> (\<forall>v. d = Const v \<longrightarrow> - 1 \<le> v) \<and> wp (f ()) Q W"
  by (auto simp: wp_def andThen_def dimOrConst_run)

section \<open>Growing the arenas\<close>

lemma good_cases:
  obtains c v w where "W = World c v w"
  by (metis world.exhaust)

lemma push_dim_step:
  assumes g: "good (World c v w)" and n: "is_size n" and k: "k = kUnknownDim \<or> k = n"
  defines "c' \<equiv> c\<lparr>all_dims := all_dims c @ [k]\<rparr>" and "v' \<equiv> v(length (all_dims c) := n)"
  shows "quiet (World c v w) (World c' v' w)" and "has_dim (World c' v' w) (length (all_dims c)) n"
proof -
  have wf: "wf_ctx c" and mo: "models c v w" using g by (auto simp: good_def)
  have f: "all_dims c' = all_dims c @ [k]" "all_shapes c' = all_shapes c" "merged_dims c' = merged_dims c"
      "merged_shapes c' = merged_shapes c" "inputs c' = inputs c" "outputs c' = outputs c"
      "input_tensors_as_shapes c' = input_tensors_as_shapes c"
      "input_handle_shapes_and_types c' = input_handle_shapes_and_types c"
      "output_handle_shapes_and_types c' = output_handle_shapes_and_types c"
    by (simp_all add: c'_def)
  have vd: "valid_dim c' d" if "valid_dim c d" for d using that by (simp add: valid_dim_def c'_def)
  have vs: "valid_shape c' = valid_shape c" by (auto simp: valid_shape_def c'_def fun_eq_iff split: option.splits)
  have "wf_ctx c'"
  proof -
    have "- 1 \<le> k \<and> k \<le> int64_max" using k n by (auto simp: is_size_def)
    moreover have "list_all (\<lambda>s. case s of None \<Rightarrow> True | Some ds \<Rightarrow> list_all (valid_dim c') ds) (all_shapes c)"
      using wf vd unfolding wf_ctx_def by (fastforce simp: list_all_iff split: option.splits)
    moreover have "list_all (\<lambda>(d0, d1). valid_dim c' d0 \<and> valid_dim c' d1) (merged_dims c)"
      using wf vd unfolding wf_ctx_def by (fastforce simp: list_all_iff)
    ultimately show ?thesis
      using wf unfolding wf_ctx_def vs valid_handles_def by (simp add: f)
  qed
  moreover have "models c' v' w"
  proof -
    have "agrees_dim c' v' d" if "d < length (all_dims c')" for d
      using that mo n k
      by (cases "d = length (all_dims c)")
        (auto simp: models_def agrees_dim_def c'_def v'_def Value_def nth_append)
    moreover have "agrees_shape c' v' w a" if a: "a < length (all_shapes c')" for a
    proof -
      have *: "agrees_shape c v w a" using mo a by (simp add: models_def c'_def)
      show ?thesis
      proof (cases "all_shapes c ! a")
        case None
        then show ?thesis using * by (simp add: agrees_shape_def c'_def)
      next
        case (Some ds)
        have "Some ds \<in> set (all_shapes c)" using Some a nth_mem by (fastforce simp: c'_def)
        then have "list_all (valid_dim c) ds" using wf by (fastforce simp: wf_ctx_def list_all_iff)
        then have "map v' ds = map v ds" by (auto simp: v'_def valid_dim_def list_all_iff)
        moreover have "w a = map v ds" "list_all is_size (w a)" using * Some by (auto simp: agrees_shape_def)
        ultimately show ?thesis using Some by (simp add: agrees_shape_def f)
      qed
    qed
    moreover have "v' (fst p) = v' (snd p)" if "p \<in> set (merged_dims c)" for p
      using that mo wf
      by (fastforce simp: models_def wf_ctx_def list_all_iff valid_dim_def v'_def)
    ultimately show ?thesis using mo by (simp add: models_def c'_def)
  qed
  ultimately show "quiet (World c v w) (World c' v' w)"
    using g by (auto simp: quiet_def step_def good_def extends_def same_statics_def c'_def v'_def)
  show "has_dim (World c' v' w) (length (all_dims c)) n"
    by (simp add: has_dim_def valid_dim_def c'_def v'_def)
qed

lemma push_shape_step:
  assumes g: "good (World c v w)" and sz: "list_all is_size xs"
    and sh: "case sh of None \<Rightarrow> True | Some ds \<Rightarrow> has_dims (World c v w) ds xs"
  defines "c' \<equiv> c\<lparr>all_shapes := all_shapes c @ [sh]\<rparr>" and "w' \<equiv> w(length (all_shapes c) := xs)"
  shows "quiet (World c v w) (World c' v w')" and "has_shape (World c' v w') (Some (length (all_shapes c))) xs"
    and "shape_of c' (Some (length (all_shapes c))) = sh"
proof -
  have wf: "wf_ctx c" and mo: "models c v w" using g by (auto simp: good_def)
  have f: "all_shapes c' = all_shapes c @ [sh]" "all_dims c' = all_dims c" "merged_dims c' = merged_dims c"
      "merged_shapes c' = merged_shapes c" "inputs c' = inputs c" "outputs c' = outputs c"
      "input_tensors_as_shapes c' = input_tensors_as_shapes c"
      "input_handle_shapes_and_types c' = input_handle_shapes_and_types c"
      "output_handle_shapes_and_types c' = output_handle_shapes_and_types c"
    by (simp_all add: c'_def)
  have vd: "valid_dim c' = valid_dim c" by (auto simp: valid_dim_def c'_def fun_eq_iff)
  have vs: "valid_shape c' s" if "valid_shape c s" for s
    using that by (auto simp: valid_shape_def c'_def split: option.splits)
  have dsv: "list_all (valid_dim c) ds" "map v ds = xs" if "sh = Some ds" for ds
    using sh that by (auto simp: has_dims_def has_dim_def list_all2_conv_all_nth list_all_length
        intro: nth_equalityI)
  have "wf_ctx c'"
  proof -
    have "list_all (\<lambda>s. case s of None \<Rightarrow> True | Some ds \<Rightarrow> list_all (valid_dim c') ds) (all_shapes c')"
      using wf dsv(1) unfolding wf_ctx_def vd by (auto simp: c'_def split: option.splits)
    moreover have "list_all (\<lambda>(s0, s1). valid_shape c' s0 \<and> valid_shape c' s1) (merged_shapes c)"
      "list_all (valid_shape c') (inputs c)" "list_all (valid_shape c') (outputs c)"
      "list_all (valid_shape c') (input_tensors_as_shapes c)"
      "valid_handles c' (input_handle_shapes_and_types c)"
      "valid_handles c' (output_handle_shapes_and_types c)"
      using wf vs unfolding wf_ctx_def valid_handles_def
      by (fastforce simp: list_all_iff split: option.splits)+
    ultimately show ?thesis
      using wf unfolding wf_ctx_def vd by (simp add: f)
  qed
  moreover have "models c' v w'"
  proof -
    have "agrees_shape c' v w' a" if "a < length (all_shapes c')" for a
      using that mo sz dsv(2)
      by (cases "a = length (all_shapes c)")
        (auto simp: models_def agrees_shape_def c'_def w'_def nth_append split: option.splits)
    moreover have "same_shape w' p" if "p \<in> set (merged_shapes c)" for p
      using that mo wf
      by (fastforce simp: models_def wf_ctx_def list_all_iff valid_shape_def same_shape_def w'_def
          split: option.splits)
    moreover have "agrees_dim c' = agrees_dim c" by (simp add: agrees_dim_def Value_def c'_def fun_eq_iff)
    ultimately show ?thesis using mo by (simp add: models_def c'_def)
  qed
  ultimately show "quiet (World c v w) (World c' v w')"
    using g by (auto simp: quiet_def step_def good_def extends_def same_statics_def c'_def w'_def)
  show "has_shape (World c' v w') (Some (length (all_shapes c))) xs"
    by (simp add: has_shape_def c'_def w'_def)
  show "shape_of c' (Some (length (all_shapes c))) = sh"
    by (simp add: shape_of_def c'_def)
qed

end
