(* ===== verification/ShapeRules.thy ===== *)
theory ShapeRules
  imports ShapeModels
begin

text \<open>
  One \<open>wp\<close> rule per operation of the shape algebra: under what condition on the actual
  sizes the operation succeeds, and what the handle it returns describes. A proof about
  a shape function composes them with \<open>wp_seq\<close>.
\<close>

section \<open>Composition\<close>

lemma wp_seq:
  assumes "wp m P W" and "\<And>x W'. step W W' \<Longrightarrow> P x W' \<Longrightarrow> wp (f x) Q W'"
  shows "wp (andThen m f) Q W"
  by (rule wp_bind, rule wp_mono[OF assms(1)]) (rule assms(2))

lemma wp_conseq:
  "wp m P W \<Longrightarrow> (\<And>x W'. P x W' \<Longrightarrow> Q x W') \<Longrightarrow> wp m Q W"
  unfolding wp_def by blast

lemma wp_step_conj: "wp m P W \<Longrightarrow> wp m (\<lambda>x W'. step W W' \<and> P x W') W"
  unfolding wp_def by blast

lemma wp_mapOp:
  assumes "list_all2 R xs ys"
    and body: "\<And>x y W1. R x y \<Longrightarrow> quiet W W1 \<Longrightarrow> wp (f x) (\<lambda>r W2. quiet W1 W2 \<and> P W2 r y) W1"
    and stable: "\<And>W1 W2 r y. quiet W1 W2 \<Longrightarrow> P W1 r y \<Longrightarrow> P W2 r y"
    and "good W"
  shows "wp (mapOp f xs) (\<lambda>rs W'. quiet W W' \<and> list_all2 (P W') rs ys) W"
proof -
  have "\<forall>W1. quiet W W1 \<longrightarrow> wp (mapOp f xs) (\<lambda>rs W'. quiet W1 W' \<and> list_all2 (P W') rs ys) W1"
    using assms(1)
  proof (induction rule: list_all2_induct)
    case Nil
    then show ?case by (auto intro!: wp_ret quiet_refl dest: good_quiet)
  next
    case (Cons x xs y ys)
    show ?case
    proof (intro allI impI)
      fix W1
      assume q: "quiet W W1"
      show "wp (mapOp f (x # xs)) (\<lambda>rs W'. quiet W1 W' \<and> list_all2 (P W') rs (y # ys)) W1"
        unfolding mapOp.simps
      proof (rule wp_seq[OF body[OF Cons.hyps(1) q]])
        fix r W2
        assume r: "quiet W1 W2 \<and> P W2 r y"
        have "quiet W W2" using q r quiet_trans by blast
        then have "wp (mapOp f xs) (\<lambda>rs W'. quiet W2 W' \<and> list_all2 (P W') rs ys) W2"
          using Cons.IH by blast
        then show "wp (andThen (mapOp f xs) (\<lambda>rs. ret (r # rs)))
            (\<lambda>rs W'. quiet W1 W' \<and> list_all2 (P W') rs (y # ys)) W2"
        proof (rule wp_seq)
          fix rs W3
          assume rs: "quiet W2 W3 \<and> list_all2 (P W3) rs ys"
          have "quiet W1 W3" "P W3 r y" using r rs stable quiet_trans by blast+
          then show "wp (ret (r # rs)) (\<lambda>rs W'. quiet W1 W' \<and> list_all2 (P W') rs (y # ys)) W3"
            using rs by (intro wp_ret good_quiet[of W1 W3]) simp_all
        qed
      qed
    qed
  qed
  then show ?thesis using assms(4) quiet_refl by blast
qed

section \<open>Constructors\<close>

lemma UnknownDim_wp:
  assumes "good W" "is_size n"
  shows "wp UnknownDim (\<lambda>d W'. quiet W W' \<and> has_dim W' d n) W"
proof (cases W rule: good_cases)
  case (1 c v w)
  note * = push_dim_step[of c v w n "- 1"]
  show ?thesis
    using * assms 1 by (intro wpI[where x = "length (all_dims c)"]) (auto simp: op_simps quiet_step)
qed

lemma MakeDim_wp:
  assumes "good W" "has_doc W d n"
  shows "wp (MakeDim d) (\<lambda>d W'. quiet W W' \<and> has_dim W' d n) W"
proof (cases d)
  case (Handle a)
  then show ?thesis using assms
    by (auto simp: MakeDim_def has_doc_def intro!: wp_ret quiet_refl)
next
  case (Const k)
  then have k: "is_size n" "k = kUnknownDim \<or> k = n" using assms(2) by (auto simp: has_doc_def)
  then have "- 1 \<le> k" by (auto simp: is_size_def)
  show ?thesis
  proof (cases W rule: good_cases)
    case (1 c v w)
    note * = push_dim_step[of c v w n k]
    show ?thesis
      using * assms 1 k \<open>- 1 \<le> k\<close> Const
      by (intro wpI[where x = "length (all_dims c)"]) (auto simp: op_simps quiet_step)
  qed
qed

lemma newShape_wp:
  assumes "good W" "list_all is_size xs" "case sh of None \<Rightarrow> True | Some ds \<Rightarrow> has_dims W ds xs"
  shows "wp (newShape sh) (\<lambda>s W'. quiet W W' \<and> has_shape W' s xs \<and> shape_of (ctx_of W') s = sh) W"
proof (cases W rule: good_cases)
  case (1 c v w)
  note * = push_shape_step[of c v w xs sh]
  show ?thesis
    using * assms 1 by (intro wpI[where x = "Some (length (all_shapes c))"]) (auto simp: op_simps quiet_step)
qed

lemma has_dims_sizes: "good W \<Longrightarrow> has_dims W ds xs \<Longrightarrow> list_all is_size xs"
  using has_dim_size[of W] by (auto simp: has_dims_def list_all2_conv_all_nth list_all_length)

lemma MakeShape_wp:
  assumes "good W" "has_dims W ds xs"
  shows "wp (MakeShape ds) (\<lambda>s W'. quiet W W' \<and> has_shape W' s xs \<and> rank_known W' s) W"
  unfolding MakeShape_def
  by (rule wp_conseq[OF newShape_wp[of W xs]])
    (use assms has_dims_sizes in \<open>auto simp: rank_known_shape_of\<close>)

lemma UnknownShape_wp:
  assumes "good W" "list_all is_size xs"
  shows "wp UnknownShape (\<lambda>s W'. quiet W W' \<and> has_shape W' s xs) W"
  unfolding UnknownShape_def
  by (rule wp_conseq[OF newShape_wp[of W xs]]) (use assms in auto)

lemma quiet_has_dim: "quiet W W' \<Longrightarrow> has_dim W d n \<Longrightarrow> has_dim W' d n"
  using quiet_step step_has_dim by blast

lemma quiet_has_doc: "quiet W W' \<Longrightarrow> has_doc W d n \<Longrightarrow> has_doc W' d n"
  using quiet_step step_has_doc by blast

lemma mapOp_MakeDim_wp:
  assumes "good W" "list_all2 (has_doc W) ds xs"
  shows "wp (mapOp MakeDim ds) (\<lambda>rs W'. quiet W W' \<and> has_dims W' rs xs) W"
  unfolding has_dims_def
  by (rule wp_mapOp[OF assms(2)])
    (use assms(1) in \<open>auto intro: MakeDim_wp quiet_has_doc quiet_has_dim dest: good_quiet\<close>)

lemma mapOp_UnknownDim_wp:
  assumes "good W" "list_all is_size xs" "length idxs = length xs"
  shows "wp (mapOp (\<lambda>_. UnknownDim) idxs) (\<lambda>rs W'. quiet W W' \<and> has_dims W' rs xs) W"
  unfolding has_dims_def
  by (rule wp_mapOp[where R = "\<lambda>_ y. is_size y"])
    (use assms in \<open>auto intro: UnknownDim_wp quiet_has_dim dest: good_quiet
       simp: list_all2_conv_all_nth list_all_length\<close>)

lemma iterOp_dimOrConst_wp:
  assumes "list_all2 (has_doc W) ds xs"
  shows "iterOp dimOrConst ds c = (Inr (), c)"
  using assms
proof (induction rule: list_all2_induct)
  case Nil
  then show ?case by (simp add: op_simps)
next
  case (Cons d ds x xs)
  have "\<forall>k. d = Const k \<longrightarrow> - 1 \<le> k" using Cons.hyps(1) by (auto simp: has_doc_def is_size_def)
  then show ?case using Cons by (simp add: andThen_Inr[where x = "()" and s' = c] dimOrConst_run)
qed

lemma MakeShapeOf_wp:
  assumes "good W" "list_all2 (has_doc W) ds xs"
  shows "wp (MakeShapeOf ds) (\<lambda>s W'. quiet W W' \<and> has_shape W' s xs \<and> rank_known W' s) W"
proof -
  have "wp (andThen (mapOp MakeDim ds) MakeShape) (\<lambda>s W'. quiet W W' \<and> has_shape W' s xs \<and> rank_known W' s) W"
    by (rule wp_seq[OF mapOp_MakeDim_wp[OF assms]], rule wp_conseq[OF MakeShape_wp])
      (auto dest: good_quiet intro: quiet_trans)
  then show ?thesis
    using iterOp_dimOrConst_wp[OF assms(2)] by (simp add: wp_def MakeShapeOf_def op_simps)
qed

lemma Matrix_wp:
  assumes "good W" "has_doc W d0 m" "has_doc W d1 n"
  shows "wp (Matrix d0 d1) (\<lambda>s W'. quiet W W' \<and> has_shape W' s [m, n] \<and> rank_known W' s) W"
  unfolding Matrix_def by (rule MakeShapeOf_wp) (use assms in auto)

lemma Vector_wp:
  assumes "good W" "has_doc W d0 m"
  shows "wp (Vector d0) (\<lambda>s W'. quiet W W' \<and> has_shape W' s [m] \<and> rank_known W' s) W"
  unfolding Vector_def by (rule MakeShapeOf_wp) (use assms in auto)

lemma Scalar_wp: "good W \<Longrightarrow> wp Scalar (\<lambda>s W'. quiet W W' \<and> has_shape W' s [] \<and> rank_known W' s) W"
  unfolding Scalar_def by (rule MakeShapeOf_wp) auto

lemma has_doc_Handle [simp]: "has_doc W (Handle d) n \<longleftrightarrow> has_dim W d n"
  by (simp add: has_doc_def)

lemma has_doc_Const [simp]: "has_doc W (Const k) n \<longleftrightarrow> is_size n \<and> (k = n \<or> k = kUnknownDim)"
  by (simp add: has_doc_def)

lemma UnknownShapeOfRank_wp:
  assumes "good W" "list_all is_size xs" "rank = int (length xs)" "rank \<le> int32_max"
  shows "wp (UnknownShapeOfRank rank) (\<lambda>s W'. quiet W W' \<and> has_shape W' s xs \<and> rank_known W' s) W"
proof -
  have r: "rank \<noteq> - 1" "0 \<le> rank" using assms(3) by auto
  show ?thesis
    unfolding UnknownShapeOfRank_def using r assms(4) apply simp
    by (rule wp_seq[OF mapOp_UnknownDim_wp[of W xs]], (use assms in auto)[3],
        rule wp_conseq[OF MakeShape_wp]) (auto dest: good_quiet intro: quiet_trans)
qed

section \<open>Accessors\<close>

text \<open>The index a possibly negative index stands for.\<close>

definition pyIndex :: "int \<Rightarrow> nat \<Rightarrow> nat" where
  "pyIndex i n = nat (if i < 0 then int n + i else i)"

lemma Dim_wp:
  assumes g: "good W" and s: "has_shape W s xs" and i: "- int (length xs) \<le> i" "i < int (length xs)"
  shows "wp (Dim s i) (\<lambda>d W'. quiet W W' \<and> has_dim W' d (xs ! pyIndex i (length xs)) \<and>
    (rank_known W s \<longrightarrow> W' = W)) W"
proof (cases "shape_of (ctx_of W) s")
  case None
  have "list_all is_size xs" using g s by (rule has_shape_sizes)
  then have "is_size (xs ! pyIndex i (length xs))"
    using i by (auto simp: list_all_length pyIndex_def)
  then have "wp UnknownDim (\<lambda>d W'. quiet W W' \<and> has_dim W' d (xs ! pyIndex i (length xs))) W"
    using g UnknownDim_wp by blast
  then show ?thesis using None by (simp add: wp_def Dim_unknown rank_known_shape_of)
next
  case (Some ds)
  have d: "has_dims W ds xs" using has_shape_known[OF g s Some] .
  then have l: "length ds = length xs" by (rule has_dims_length)
  have "has_dim W (ds ! pyIndex i (length xs)) (xs ! pyIndex i (length xs))"
    using d l i by (intro has_dims_nth) (auto simp: pyIndex_def)
  moreover have "Dim s i (ctx_of W) = (Inr (ds ! pyIndex i (length xs)), ctx_of W)"
    using i l by (simp add: Dim_known[OF Some] vecAt_def pyIndex_def)
  ultimately show ?thesis
    using g by (cases W) (auto simp: wp_def quiet_refl step_refl intro!: exI)
qed

lemma dimsOf_wp:
  assumes "good W" "has_shape W s xs" "rank_known W s"
  shows "wp (dimsOf s) (\<lambda>ds W'. W' = W \<and> has_dims W ds xs \<and> shape_of (ctx_of W) s = Some ds) W"
proof -
  obtain ds where ds: "shape_of (ctx_of W) s = Some ds" using assms(3) by (auto simp: rank_known_shape_of)
  then have "has_dims W ds xs" using has_shape_known assms by blast
  then show ?thesis using ds assms(1)
    by (cases W) (auto simp: wp_def dimsOf_def step_refl intro!: exI)
qed

lemma input_wp:
  assumes "good W" "0 \<le> i" "i < int (length (inputs (ctx_of W)))"
  shows "wp (input i) (\<lambda>s W'. W' = W \<and> s = inputs (ctx_of W) ! nat i) W"
  using assms by (cases W) (auto simp: wp_def input_def vecAt_def step_refl intro!: exI)

end
