(* ===== verification/MergeRules.thy ===== *)
theory MergeRules
  imports ShapeRules
begin

text \<open>
  Rules for merging, for the rank assertions built on it, and for the sub-shape
  operations: each describes the sizes of the handle it returns.
\<close>

section \<open>Recording a merge\<close>

lemma addMergedDims_wp:
  assumes "good W" "has_dim W d0 n" "has_dim W d1 n"
  shows "wp (addMergedDims d0 d1) (\<lambda>_ W'. quiet W W') W"
proof (cases W rule: good_cases)
  case (1 c v w)
  let ?c = "c\<lparr>merged_dims := merged_dims c @ [(d0, d1)]\<rparr>"
  have f: "valid_dim ?c = valid_dim c" "valid_shape ?c = valid_shape c"
      "agrees_dim ?c = agrees_dim c" "agrees_shape ?c = agrees_shape c"
    by (auto simp: valid_dim_def valid_shape_def agrees_dim_def agrees_shape_def Value_def fun_eq_iff
        split: option.splits)
  have "good (World ?c v w)"
    using assms 1 by (auto simp: good_def wf_ctx_def valid_handles_def models_def f has_dim_def)
  then show ?thesis
    using assms(1) 1
    by (intro wpI[where x = "()" and W' = "World ?c v w"])
      (auto simp: addMergedDims_def op_simps quiet_def step_def extends_def same_statics_def)
qed

lemma addMergedShapes_wp:
  assumes "good W" "has_shape W s0 xs" "has_shape W s1 xs"
  shows "wp (addMergedShapes s0 s1) (\<lambda>_ W'. quiet W W') W"
proof (cases W rule: good_cases)
  case (1 c v w)
  let ?c = "c\<lparr>merged_shapes := merged_shapes c @ [(s0, s1)]\<rparr>"
  have f: "valid_dim ?c = valid_dim c" "valid_shape ?c = valid_shape c"
      "agrees_dim ?c = agrees_dim c" "agrees_shape ?c = agrees_shape c"
    by (auto simp: valid_dim_def valid_shape_def agrees_dim_def agrees_shape_def Value_def fun_eq_iff
        split: option.splits)
  have "valid_shape c s0" "valid_shape c s1" using assms 1 has_shape_valid by blast+
  moreover have "same_shape w (s0, s1)"
    using assms 1 by (auto simp: same_shape_def has_shape_def split: option.splits)
  ultimately have "good (World ?c v w)"
    using assms 1 by (auto simp: good_def wf_ctx_def valid_handles_def models_def f)
  then show ?thesis
    using assms(1) 1
    by (intro wpI[where x = "()" and W' = "World ?c v w"])
      (auto simp: addMergedShapes_def op_simps quiet_def step_def extends_def same_statics_def)
qed

section \<open>Merging\<close>

lemma MergeDim_wp:
  assumes "good W" "has_dim W d0 n" "has_dim W d1 n"
  shows "wp (MergeDim d0 d1) (\<lambda>d W'. quiet W W' \<and> has_dim W' d n) W"
proof -
  have v: "DValue (ctx_of W) d0 = kUnknownDim \<or> DValue (ctx_of W) d0 = n"
      "DValue (ctx_of W) d1 = kUnknownDim \<or> DValue (ctx_of W) d1 = n"
    using assms has_dim_value by blast+
  have *: "wp (andThen (addMergedDims d0 d1) (\<lambda>_. ret d)) (\<lambda>d W'. quiet W W' \<and> has_dim W' d n) W"
    if "has_dim W d n" for d
    by (rule wp_seq[OF addMergedDims_wp[OF assms]], rule wp_ret)
      (use that in \<open>auto dest: good_quiet quiet_has_dim\<close>)
  show ?thesis
    using v * assms by (auto simp: MergeDim_def intro!: wp_ret quiet_refl)
qed

lemma WithValue_wp:
  assumes "good W" "has_dim W d n"
  shows "wp (WithValue d n) (\<lambda>d W'. quiet W W' \<and> has_dim W' d n) W"
proof -
  have v: "DValue (ctx_of W) d = kUnknownDim \<or> DValue (ctx_of W) d = n" using assms has_dim_value by blast
  have n: "is_size n" using assms by (rule has_dim_size)
  have "wp (andThen (MakeDim (Const n)) (MergeDim d)) (\<lambda>d W'. quiet W W' \<and> has_dim W' d n) W"
    by (rule wp_seq[OF MakeDim_wp[of W _ n]], use assms n in simp, use n in simp,
        rule wp_conseq[OF MergeDim_wp[of _ _ n]])
      (use assms in \<open>auto dest: good_quiet quiet_has_dim intro: quiet_trans\<close>)
  then show ?thesis using v assms by (auto simp: WithValue_def intro!: wp_ret quiet_refl)
qed

lemma mergeScan_some:
  assumes "good W" "has_dims W ds xs" "has_dims W es xs"
  shows "mergeScan (ctx_of W) (zip ds es) r0 r1 \<noteq> None"
  using assms(2,3)
proof (induction ds arbitrary: es xs r0 r1)
  case Nil
  then show ?case by simp
next
  case (Cons d ds)
  from Cons.prems(1) obtain x xs' where x: "xs = x # xs'" "has_dim W d x" "has_dims W ds xs'" by auto
  from Cons.prems(2) x(1) obtain e es' where e: "es = e # es'" "has_dim W e x" "has_dims W es' xs'"
    by (cases es) auto
  note * = Cons.IH[OF x(3) e(3)]
  show ?case
    using * has_dim_value[OF assms(1) x(2)] has_dim_value[OF assms(1) e(2)] e(1)
    by (auto simp del: split_paired_Ex)
qed

lemma mapOp_MergeDim_wp:
  assumes "good W" "has_dims W ds xs" "has_dims W es xs"
  shows "wp (mapOp (\<lambda>(d0, d1). MergeDim d0 d1) (zip ds es))
    (\<lambda>rs W'. quiet W W' \<and> has_dims W' rs xs) W"
  unfolding has_dims_def
proof (rule wp_mapOp[where R = "\<lambda>(d0, d1) x. has_dim W d0 x \<and> has_dim W d1 x"])
  show "list_all2 (\<lambda>(d0, d1) x. has_dim W d0 x \<and> has_dim W d1 x) (zip ds es) xs"
    using assms(2,3) by (simp add: has_dims_def list_all2_conv_all_nth)
next
  fix p x W1
  assume "(\<lambda>(d0, d1) x. has_dim W d0 x \<and> has_dim W d1 x) p x" "quiet W W1"
  then show "wp ((\<lambda>(d0, d1). MergeDim d0 d1) p) (\<lambda>r W2. quiet W1 W2 \<and> has_dim W2 r x) W1"
    using MergeDim_wp good_quiet quiet_has_dim by (cases p) (metis (no_types, lifting) case_prod_conv)
qed (use assms(1) quiet_has_dim in auto)

lemma checkOk_wp: "wp m Q W \<Longrightarrow> wp (checkOk m) Q W"
  unfolding wp_def by (metis checkOk_Inr)

lemma mapOp_checkOk_MergeDim_wp:
  assumes "good W" "has_dims W ds xs" "has_dims W es xs"
  shows "wp (mapOp (\<lambda>(d0, d1). checkOk (MergeDim d0 d1)) (zip ds es))
    (\<lambda>rs W'. quiet W W' \<and> has_dims W' rs xs) W"
  unfolding has_dims_def
proof (rule wp_mapOp[where R = "\<lambda>(d0, d1) x. has_dim W d0 x \<and> has_dim W d1 x"])
  show "list_all2 (\<lambda>(d0, d1) x. has_dim W d0 x \<and> has_dim W d1 x) (zip ds es) xs"
    using assms(2,3) by (simp add: has_dims_def list_all2_conv_all_nth)
next
  fix p x W1
  assume "(\<lambda>(d0, d1) x. has_dim W d0 x \<and> has_dim W d1 x) p x" "quiet W W1"
  then show "wp ((\<lambda>(d0, d1). checkOk (MergeDim d0 d1)) p) (\<lambda>r W2. quiet W1 W2 \<and> has_dim W2 r x) W1"
    using MergeDim_wp good_quiet quiet_has_dim
    by (cases p) (metis (no_types, lifting) case_prod_conv checkOk_wp)
qed (use assms(1) quiet_has_dim in auto)

lemma quiet_has_shape: "quiet W W' \<Longrightarrow> has_shape W s xs \<Longrightarrow> has_shape W' s xs"
  using quiet_step step_has_shape by blast

lemma quiet_has_dims: "quiet W W' \<Longrightarrow> has_dims W ds xs \<Longrightarrow> has_dims W' ds xs"
  using quiet_step step_has_dims by blast

lemma quiet_rank_known: "quiet W W' \<Longrightarrow> has_shape W s xs \<Longrightarrow> rank_known W s \<Longrightarrow> rank_known W' s"
  using quiet_step step_rank_known by blast

lemmas quiet_facts = quiet_has_dim quiet_has_dims quiet_has_doc quiet_has_shape quiet_rank_known

abbreviation shape_post :: "world \<Rightarrow> int list \<Rightarrow> bool \<Rightarrow> shape \<Rightarrow> world \<Rightarrow> bool" where
  "shape_post W xs known \<equiv>
     (\<lambda>s W'. quiet W W' \<and> has_shape W' s xs \<and> (known \<longrightarrow> rank_known W' s))"

lemma mergeKnown_wp:
  assumes g: "good W" and s: "has_shape W s0 xs" "has_shape W s1 xs"
    and k: "rank_known W s0" "rank_known W s1"
    and ds: "has_dims W ds0 xs" "has_dims W ds1 xs"
  shows "wp (mergeKnown s0 s1 ds0 ds1) (shape_post W xs True) W"
proof -
  obtain r0 r1 where scan: "mergeScan (ctx_of W) (zip ds0 ds1) True True = Some (r0, r1)"
    using mergeScan_some[OF g ds] by (metis option.exhaust surj_pair)
  have len: "length ds0 = length ds1" using ds has_dims_length by metis
  let ?k = "\<lambda>_::unit. if r0 \<or> r1 then ret (if r0 then s0 else s1)
           else
             andThen (mapOp (\<lambda>(d0, d1). checkOk (MergeDim d0 d1)) (zip ds0 ds1)) (\<lambda>dims.
             andThen (MakeShape dims) (\<lambda>out.
             andThen (addMergedShapes s0 out) (\<lambda>_.
             ret out)))"
  have "wp (andThen (addMergedShapes s0 s1) ?k) (shape_post W xs True) W"
  proof (rule wp_seq[OF addMergedShapes_wp[OF g s]])
    fix u W1
    assume q: "quiet W W1"
    have g1: "good W1" using q good_quiet by blast
    show "wp (?k u) (shape_post W xs True) W1"
    proof (cases "r0 \<or> r1")
      case True
      then show ?thesis
        using q g1 s k by (auto intro!: wp_ret intro: quiet_facts)
    next
      case False
      have "wp (andThen (mapOp (\<lambda>(d0, d1). checkOk (MergeDim d0 d1)) (zip ds0 ds1)) (\<lambda>dims.
             andThen (MakeShape dims) (\<lambda>out.
             andThen (addMergedShapes s0 out) (\<lambda>_.
             ret out)))) (shape_post W xs True) W1"
      proof (rule wp_seq[OF mapOp_checkOk_MergeDim_wp[OF g1 quiet_has_dims[OF q ds(1)] quiet_has_dims[OF q ds(2)]]])
        fix dims W2
        assume d: "quiet W1 W2 \<and> has_dims W2 dims xs"
        then have g2: "good W2" using good_quiet by blast
        show "wp (andThen (MakeShape dims) (\<lambda>out. andThen (addMergedShapes s0 out) (\<lambda>_. ret out)))
            (shape_post W xs True) W2"
        proof (rule wp_seq[OF MakeShape_wp[OF g2]])
          show "has_dims W2 dims xs" using d by simp
        next
          fix out W3
          assume o: "quiet W2 W3 \<and> has_shape W3 out xs \<and> rank_known W3 out"
          have q3: "quiet W W3" using q d o quiet_trans by blast
          have g3: "good W3" using q3 good_quiet by blast
          have s3: "has_shape W3 s0 xs" using q3 s quiet_has_shape by blast
          show "wp (andThen (addMergedShapes s0 out) (\<lambda>_. ret out)) (shape_post W xs True) W3"
          proof (rule wp_seq[OF addMergedShapes_wp[OF g3 s3]])
            show "has_shape W3 out xs" using o by simp
          next
            fix u W4
            assume q4: "quiet W3 W4"
            have "quiet W W4" "has_shape W4 out xs" "rank_known W4 out"
              using q3 q4 o quiet_trans quiet_has_shape quiet_rank_known by blast+
            then show "wp (ret out) (shape_post W xs True) W4"
              using q4 by (intro wp_ret good_quiet[of W3 W4]) auto
          qed
        qed
      qed
      then show ?thesis using False by simp
    qed
  qed
  then show ?thesis using len scan by (simp add: mergeKnown_def)
qed

lemma MergeShape_wp:
  assumes g: "good W" and s: "has_shape W s0 xs" "has_shape W s1 xs"
  shows "wp (MergeShape s0 s1) (shape_post W xs (rank_known W s0 \<or> rank_known W s1)) W"
proof -
  let ?Q = "shape_post W xs (rank_known W s0 \<or> rank_known W s1)"
  have *: "wp (andThen (addMergedShapes s0 s1) (\<lambda>_. ret s)) ?Q W"
    if "has_shape W s xs" "rank_known W s0 \<or> rank_known W s1 \<longrightarrow> rank_known W s" for s
    by (rule wp_seq[OF addMergedShapes_wp[OF assms]], rule wp_ret)
      (use that in \<open>auto dest: good_quiet intro: quiet_facts\<close>)
  have "wp (andThen (dimsOf s0) (\<lambda>ds0. andThen (dimsOf s1) (\<lambda>ds1. mergeKnown s0 s1 ds0 ds1))) ?Q W"
    if k: "rank_known W s0" "rank_known W s1"
  proof (rule wp_seq[OF dimsOf_wp[OF g s(1) k(1)]])
    fix ds0 W1
    assume 1: "W1 = W \<and> has_dims W ds0 xs \<and> shape_of (ctx_of W) s0 = Some ds0"
    show "wp (andThen (dimsOf s1) (\<lambda>ds1. mergeKnown s0 s1 ds0 ds1)) ?Q W1"
      using 1 by (auto intro!: wp_seq[OF dimsOf_wp[OF g s(2) k(2)]] wp_conseq[OF mergeKnown_wp[OF g s k]]
          simp:)
  qed
  then show ?thesis
    using * s g
    by (auto simp: MergeShape_def SameHandle_def rank_known_def
        intro!: wp_ret quiet_refl)
qed

end
