(* ===== verification/PySlices.thy ===== *)
theory PySlices
  imports Prelude
begin

text \<open>
  Slices of lists and of dimensions as Python has them: the positions that a slice takes, and the loop that steps through
  them from clamped bounds. The library of \<open>Subshape\<close> and of the strided slices.
\<close>

section \<open>Stepping through a range\<close>

definition strideIdx :: "int \<Rightarrow> int \<Rightarrow> nat \<Rightarrow> int list" where
  "strideIdx start stride n = map (\<lambda>k. start + int k * stride) [0..<n]"

lemma strideIdx_Suc: "strideIdx i stride (Suc n) = i # strideIdx (i + stride) stride n"
  unfolding strideIdx_def
  by (simp add: upt_conv_Cons map_Suc_upt[symmetric] o_def algebra_simps del: upt_Suc)

lemma strideIdx_0 [simp]: "strideIdx i stride 0 = []"
  by (simp add: strideIdx_def)

text \<open>The number of indices a terminating loop visits.\<close>

definition strideCount :: "int \<Rightarrow> int \<Rightarrow> int \<Rightarrow> nat" where
  "strideCount start stop stride =
     (if stride > 0 then nat ((stop - start + stride - 1) div stride)
      else nat ((start - stop - stride - 1) div (- stride)))"

lemma strideCount_step_up:
  assumes "0 < stride" "i < stop"
  shows "strideCount i stop stride = Suc (strideCount (i + stride) stop stride)"
proof -
  have "(stop - i + stride - 1) div stride = (stop - (i + stride) + stride - 1) div stride + 1"
    using div_add_self2[of stride "stop - i - 1"] assms by (simp add: algebra_simps)
  moreover have "0 \<le> (stop - (i + stride) + stride - 1) div stride"
    using assms by (intro pos_imp_zdiv_nonneg_iff[THEN iffD2]) auto
  ultimately show ?thesis using assms by (simp add: strideCount_def nat_add_distrib)
qed

lemma strideCount_step_down:
  assumes "stride < 0" "i > stop"
  shows "strideCount i stop stride = Suc (strideCount (i + stride) stop stride)"
proof -
  have "(i - stop - stride - 1) div (- stride) = (i + stride - stop - stride - 1) div (- stride) + 1"
    using div_add_self2[of "- stride" "i - stop - 1"] assms by (simp add: algebra_simps)
  moreover have "0 \<le> (i + stride - stop - stride - 1) div (- stride)"
    using assms by (intro pos_imp_zdiv_nonneg_iff[THEN iffD2]) auto
  ultimately show ?thesis using assms by (simp add: strideCount_def nat_add_distrib)
qed

lemma div_le_zero: "(0::int) < d \<Longrightarrow> x < d \<Longrightarrow> x div d \<le> 0"
  using zdiv_mono1[of x "d - 1" d] by simp

lemma strideCount_done:
  "0 < stride \<Longrightarrow> stop \<le> i \<Longrightarrow> strideCount i stop stride = 0"
  "stride < 0 \<Longrightarrow> i \<le> stop \<Longrightarrow> strideCount i stop stride = 0"
  using div_le_zero[of stride "stop - i + stride - 1"] div_le_zero[of "- stride" "i - stop - stride - 1"]
  by (auto simp: strideCount_def)

lemma mult_le_of_le_div:
  fixes a b c :: int
  assumes "0 < c" "a \<le> b div c"
  shows "a * c \<le> b"
proof -
  have "a * c \<le> b div c * c" using assms by (intro mult_right_mono) auto
  also have "\<dots> \<le> b" using assms(1) by (simp add: minus_mod_eq_div_mult[symmetric])
  finally show ?thesis .
qed

lemma strideIdx_bounds:
  assumes "x \<in> set (strideIdx i stride (strideCount i stop stride))"
  shows "0 < stride \<Longrightarrow> i \<le> x \<and> x < stop" and "stride < 0 \<Longrightarrow> stop < x \<and> x \<le> i"
proof -
  obtain k where k: "k < strideCount i stop stride" and x: "x = i + int k * stride"
    using assms by (auto simp: strideIdx_def)
  show "i \<le> x \<and> x < stop" if s: "0 < stride"
  proof -
    have "int k + 1 \<le> (stop - i + stride - 1) div stride" using k s by (simp add: strideCount_def)
    then have "(int k + 1) * stride \<le> stop - i + stride - 1" using s by (intro mult_le_of_le_div)
    then show ?thesis using x s by (simp add: algebra_simps)
  qed
  show "stop < x \<and> x \<le> i" if s: "stride < 0"
  proof -
    have "int k + 1 \<le> (i - stop - stride - 1) div (- stride)" using k s by (simp add: strideCount_def)
    then have "(int k + 1) * (- stride) \<le> i - stop - stride - 1" using s by (intro mult_le_of_le_div) auto
    moreover have "int k * stride \<le> 0" using s by (simp add: mult_nonneg_nonpos)
    ultimately show ?thesis using x by (simp add: algebra_simps)
  qed
qed

section \<open>The positions of a slice\<close>

text \<open>A bound that is negative counts from the end.\<close>

definition fromBack :: "int \<Rightarrow> int \<Rightarrow> int" where
  "fromBack n k = (if k < 0 then n + k else k)"

text \<open>
  The positions of the slice \<open>[i:j:t]\<close> of \<open>n\<close> elements, in the order of the slice: from \<open>i\<close> or the first element up to \<open>j\<close>, or
  from \<open>i\<close> or the last element down to \<open>j\<close>, without \<open>j\<close>, at multiples of the stride.
\<close>

definition slicePositions :: "int \<Rightarrow> int \<Rightarrow> int \<Rightarrow> int \<Rightarrow> int list" where
  "slicePositions n i j t =
     (if 0 < t then filter (\<lambda>k. i \<le> k \<and> k < j \<and> t dvd (k - max i 0)) [0..n - 1]
      else rev (filter (\<lambda>k. j < k \<and> k \<le> i \<and> t dvd (min i (n - 1) - k)) [0..n - 1]))"

lemma strideIdx_set:
  assumes "t \<noteq> 0"
  shows "x \<in> set (strideIdx i t (strideCount i j t)) \<longleftrightarrow> t dvd (x - i) \<and> (if 0 < t then i \<le> x \<and> x < j else j < x \<and> x \<le> i)"
proof
  assume x: "x \<in> set (strideIdx i t (strideCount i j t))"
  then show "t dvd (x - i) \<and> (if 0 < t then i \<le> x \<and> x < j else j < x \<and> x \<le> i)"
    using strideIdx_bounds[OF x] assms by (auto simp: strideIdx_def)
next
  assume x: "t dvd (x - i) \<and> (if 0 < t then i \<le> x \<and> x < j else j < x \<and> x \<le> i)"
  then obtain m where m: "x = i + t * m" by (metis add.commute diff_add_cancel dvdE)
  show "x \<in> set (strideIdx i t (strideCount i j t))"
  proof (cases "0 < t")
    case True
    then have m0: "0 \<le> m" using x m by (simp add: zero_le_mult_iff)
    have "(m + 1) * t \<le> j - i + t - 1" using x m True by (simp add: algebra_simps)
    then have "m + 1 \<le> (j - i + t - 1) div t" using True zdiv_mono1[of "(m + 1) * t" "j - i + t - 1" t] by simp
    then have "nat m < strideCount i j t" using m0 True by (simp add: strideCount_def)
    then show ?thesis using m m0 by (auto simp: strideIdx_def image_iff mult.commute intro!: bexI[of _ "nat m"])
  next
    case False
    then have tn: "t < 0" using assms by simp
    then have m0: "0 \<le> m" using x m False by (simp add: mult_le_0_iff)
    have "(m + 1) * (- t) \<le> i - j - t - 1" using x m False by (simp add: algebra_simps)
    then have "m + 1 \<le> (i - j - t - 1) div (- t)" using tn zdiv_mono1[of "(m + 1) * (- t)" "i - j - t - 1" "- t"] by simp
    then have "nat m < strideCount i j t" using m0 False by (simp add: strideCount_def)
    then show ?thesis using m m0 by (auto simp: strideIdx_def image_iff mult.commute intro!: bexI[of _ "nat m"])
  qed
qed

lemma sorted_strideIdx: "0 < t \<Longrightarrow> sorted_wrt (<) (strideIdx i t m)" "t < 0 \<Longrightarrow> sorted_wrt (>) (strideIdx i t m)"
  by (auto simp: strideIdx_def sorted_wrt_iff_nth_less mult_strict_right_mono mult_strict_right_mono_neg)

lemma sorted_unique: "sorted_wrt (<) xs \<Longrightarrow> sorted_wrt (<) ys \<Longrightarrow> set xs = set ys \<Longrightarrow> xs = (ys :: int list)"
  by (simp add: sorted_distinct_set_unique strict_sorted_iff)

text \<open>Clamping the bounds does not change the positions.\<close>

definition clamp :: "int \<Rightarrow> int \<Rightarrow> int \<Rightarrow> int" where
  "clamp lo hi x = (if x < lo then lo else if hi < x then hi else x)"

lemma positions_up:
  assumes "0 < t" "0 \<le> n"
  shows "strideIdx (clamp 0 n i) t (strideCount (clamp 0 n i) (clamp 0 n j) t) = slicePositions n i j t"
proof (rule sorted_unique)
  show "sorted_wrt (<) (strideIdx (clamp 0 n i) t (strideCount (clamp 0 n i) (clamp 0 n j) t))"
    by (rule sorted_strideIdx(1)[OF assms(1)])
  show "set (strideIdx (clamp 0 n i) t (strideCount (clamp 0 n i) (clamp 0 n j) t)) = set (slicePositions n i j t)"
    using assms by (auto simp: strideIdx_set slicePositions_def clamp_def max_def)
qed (use assms in \<open>simp add: slicePositions_def sorted_wrt_filter strict_sorted_iff\<close>)

lemma positions_down:
  assumes "t < 0" "0 \<le> n"
  shows "strideIdx (clamp (- 1) (n - 1) i) t (strideCount (clamp (- 1) (n - 1) i) (clamp (- 1) (n - 1) j) t) = slicePositions n i j t"
proof -
  let ?i = "clamp (- 1) (n - 1) i" and ?j = "clamp (- 1) (n - 1) j"
  have "rev (strideIdx ?i t (strideCount ?i ?j t)) = filter (\<lambda>k. j < k \<and> k \<le> i \<and> t dvd (min i (n - 1) - k)) [0..n - 1]"
  proof (rule sorted_unique)
    show "sorted_wrt (<) (rev (strideIdx ?i t (strideCount ?i ?j t)))" using sorted_strideIdx(2)[OF assms(1)] by (simp add: sorted_wrt_rev)
    show "set (rev (strideIdx ?i t (strideCount ?i ?j t))) = set (filter (\<lambda>k. j < k \<and> k \<le> i \<and> t dvd (min i (n - 1) - k)) [0..n - 1])"
      using assms by (auto simp: strideIdx_set dvd_diff_commute clamp_def min_def)
  qed (simp add: sorted_wrt_filter strict_sorted_iff)
  then show ?thesis using assms by (simp add: slicePositions_def rev_swap)
qed

lemma strideCount_less:
  assumes "t \<noteq> 0" "0 \<le> m"
  shows "m < int (strideCount i j t) \<longleftrightarrow> (if 0 < t then i + m * t < j else j < i + m * t)"
proof -
  have "m < int (strideCount i j t) \<longleftrightarrow> i + m * t \<in> set (strideIdx i t (strideCount i j t))"
    using assms by (auto simp: strideIdx_def image_iff intro: bexI[of _ "nat m"])
  then show ?thesis using assms by (auto simp: strideIdx_set zero_le_mult_iff mult_le_0_iff)
qed

end
