(* ===== verification/SubRules.thy ===== *)
theory SubRules
  imports MergeRules PySlices
begin

text \<open>
  Rules for the rank assertions, for \<open>MergePrefix\<close> and for sub-shapes, concatenation and
  replacement, with the closed form of the loop of \<open>Subshape\<close>.
\<close>

section \<open>Rank assertions\<close>

lemma has_shape_RankKnown: "good W \<Longrightarrow> has_shape W s xs \<Longrightarrow>
    Rank (ctx_of W) s = (if rank_known W s then int (length xs) else kUnknownRank)"
  using has_shape_known[of W s xs] has_dims_length[of W _ xs]
  by (cases "shape_of (ctx_of W) s") (auto simp: Rank_def rank_known_shape_of)

lemma WithRank_wp:
  assumes g: "good W" and s: "has_shape W s xs" and r: "rank = int (length xs)" "rank \<le> int32_max"
  shows "wp (WithRank s rank) (shape_post W xs True) W"
proof (cases "rank_known W s")
  case True
  then show ?thesis using assms has_shape_RankKnown[OF g s]
    by (auto simp: WithRank_def intro!: wp_ret quiet_refl)
next
  case False
  have sz: "list_all is_size xs" using g s by (rule has_shape_sizes)
  have "wp (andThen (mapOp (\<lambda>_. UnknownDim) [0..<nat rank]) (\<lambda>dims.
         andThen (MakeShape dims) (MergeShape s))) (shape_post W xs True) W"
  proof (rule wp_seq[OF mapOp_UnknownDim_wp[OF g sz]])
    show "length [0..<nat rank] = length xs" using r by simp
  next
    fix dims W1
    assume 1: "quiet W W1 \<and> has_dims W1 dims xs"
    then have g1: "good W1" using good_quiet by blast
    show "wp (andThen (MakeShape dims) (MergeShape s)) (shape_post W xs True) W1"
    proof (rule wp_seq[OF MakeShape_wp[OF g1]])
      show "has_dims W1 dims xs" using 1 by simp
    next
      fix s1 W2
      assume 2: "quiet W1 W2 \<and> has_shape W2 s1 xs \<and> rank_known W2 s1"
      have "quiet W W2" using 1 2 quiet_trans by blast
      then show "wp (MergeShape s s1) (shape_post W xs True) W2"
        using 2 s by (intro wp_conseq[OF MergeShape_wp[of W2 s xs s1]])
          (auto intro: quiet_trans quiet_has_shape dest: good_quiet)
    qed
  qed
  then show ?thesis
    using False r has_shape_RankKnown[OF g s] by (simp add: WithRank_def)
qed

lemma WithRankAtLeast_wp:
  assumes "good W" "has_shape W s xs" "rank \<le> int (length xs)" "rank \<le> int32_max"
  shows "wp (WithRankAtLeast s rank) (\<lambda>s' W'. W' = W \<and> s' = s) W"
  using assms has_shape_RankKnown[of W s xs] by (auto simp: WithRankAtLeast_def intro!: wp_ret)

lemma WithRankAtMost_wp:
  assumes "good W" "has_shape W s xs" "int (length xs) \<le> rank" "rank \<le> int32_max"
  shows "wp (WithRankAtMost s rank) (\<lambda>s' W'. W' = W \<and> s' = s) W"
  using assms has_shape_RankKnown[of W s xs] by (auto simp: WithRankAtMost_def intro!: wp_ret)

section \<open>The loop of Subshape\<close>

lemma subshapeLoop_up:
  assumes "0 < stride" "0 \<le> i" "stop + stride \<le> int32_max"
  shows "subshapeLoop stop stride i = Some (strideIdx i stride (strideCount i stop stride))"
  using assms(2)
proof (induction "nat (stop - i)" arbitrary: i rule: less_induct)
  case less
  show ?case
  proof (cases "i < stop")
    case True
    have "in_int32 (i + stride)" using True less.prems assms by (simp add: in_int32_def)
    moreover have "subshapeLoop stop stride (i + stride) =
        Some (strideIdx (i + stride) stride (strideCount (i + stride) stop stride))"
      using less.prems True assms(1) by (intro less.hyps) auto
    ultimately show ?thesis
      using True assms(1) by (subst subshapeLoop.simps) (simp add: strideCount_step_up strideIdx_Suc)
  next
    case False
    then show ?thesis using assms by (subst subshapeLoop.simps) (simp add: strideCount_done)
  qed
qed

lemma subshapeLoop_down:
  assumes "stride < 0" "i \<le> int32_max" "- 2147483648 \<le> stop + stride"
  shows "subshapeLoop stop stride i = Some (strideIdx i stride (strideCount i stop stride))"
  using assms(2)
proof (induction "nat (i - stop)" arbitrary: i rule: less_induct)
  case less
  show ?case
  proof (cases "i > stop")
    case True
    have "in_int32 (i + stride)" using True less.prems assms by (simp add: in_int32_def)
    moreover have "subshapeLoop stop stride (i + stride) =
        Some (strideIdx (i + stride) stride (strideCount (i + stride) stop stride))"
      using less.prems True assms(1) by (intro less.hyps) auto
    ultimately show ?thesis
      using True assms(1) by (subst subshapeLoop.simps) (simp add: strideCount_step_down strideIdx_Suc)
  next
    case False
    then show ?thesis using assms by (subst subshapeLoop.simps) (simp add: strideCount_done)
  qed
qed

text \<open>With stride 0 the loop never reaches its bound: no value is defined for it.\<close>

lemma subshapeLoop_result:
  "subshapeLoop stop stride i = Some idxs \<Longrightarrow>
   idxs = [] \<and> \<not> (if stride > 0 then i < stop else i > stop) \<or>
   (\<exists>idxs'. idxs = i # idxs' \<and> (if stride > 0 then i < stop else i > stop) \<and>
      subshapeLoop stop stride (to_int32 (i + stride)) = Some idxs')"
  by (subst (asm) subshapeLoop.simps)
    (auto split: if_splits simp: bind_eq_Some_conv)

lemma subshapeLoop_stuck:
  assumes "to_int32 (i + stride) = i" "if stride > 0 then i < stop else i > stop"
  shows "subshapeLoop stop stride i = None"
proof -
  have "subshapeLoop stop stride i \<noteq> Some idxs" for idxs
  proof (induction idxs)
    case Nil
    then show ?case using assms(2) subshapeLoop_result[of stop stride i "[]"] by auto
  next
    case (Cons j idxs)
    then show ?case using assms(1) subshapeLoop_result[of stop stride i "j # idxs"] by auto
  qed
  then show ?thesis by (cases "subshapeLoop stop stride i") auto
qed

text \<open>Every \<open>stride\<close>-th element of \<open>xs\<close> from \<open>start\<close> up (or down) to \<open>stop\<close>, excluded.\<close>

definition pySlice :: "'a list \<Rightarrow> int \<Rightarrow> int \<Rightarrow> int \<Rightarrow> 'a list" where
  "pySlice xs start stop stride =
     map (\<lambda>i. xs ! nat i) (strideIdx start stride (strideCount start stop stride))"

lemma pySlice_one:
  assumes "0 \<le> i" "i \<le> j" "j \<le> int (length xs)"
  shows "pySlice xs i j 1 = take (nat (j - i)) (drop (nat i) xs)"
proof (rule nth_equalityI)
  show "length (pySlice xs i j 1) = length (take (nat (j - i)) (drop (nat i) xs))"
    using assms by (simp add: pySlice_def strideIdx_def strideCount_def nat_diff_distrib)
next
  fix k
  assume "k < length (pySlice xs i j 1)"
  then have "k < nat (j - i)" using assms by (simp add: pySlice_def strideIdx_def strideCount_def)
  then show "pySlice xs i j 1 ! k = take (nat (j - i)) (drop (nat i) xs) ! k"
    using assms by (simp add: pySlice_def strideIdx_def strideCount_def nat_add_distrib)
qed

text \<open>
  The bounds \<open>Subshape\<close> computes for a shape of rank \<open>n\<close>: clamped to the rank, then
  counted from the end when negative.
\<close>

definition normBound :: "int \<Rightarrow> int \<Rightarrow> int" where
  "normBound n k = (let k' = min k n in if k' < 0 then n + k' else k')"

definition normStart :: "int \<Rightarrow> int \<Rightarrow> int \<Rightarrow> int" where
  "normStart n stride k =
    (let k' = min k n; k'' = (if stride < 0 \<and> k' = n then k' - 1 else k')
     in if k'' < 0 then n + k'' else k'')"

lemma normStart_pos: "0 < stride \<Longrightarrow> normStart n stride k = normBound n k"
  by (simp add: normStart_def normBound_def Let_def)

lemma subshapeLoop_norm:
  assumes "0 \<le> i" "i \<le> n" "0 \<le> j" "j \<le> n" "stride \<noteq> 0" "n \<le> 1073741823" "\<bar>stride\<bar> \<le> 1073741823"
  shows "subshapeLoop j stride i = Some (strideIdx i stride (strideCount i j stride))"
  using assms by (cases "0 < stride") (auto intro: subshapeLoop_up subshapeLoop_down)

section \<open>Sub-shapes\<close>

text \<open>A shape whose rank is small enough for \<open>int\<close> arithmetic on its indices.\<close>

definition small_rank :: "'a list \<Rightarrow> bool" where
  "small_rank xs \<longleftrightarrow> length xs \<le> 1073741823"

lemma nth_strideIdx_has_dim:
  assumes g: "good W" and d: "has_dims W ds xs" and s: "shape_of (ctx_of W) s = Some ds"
    and b: "list_all (\<lambda>i. 0 \<le> i \<and> i < int (length xs)) idxs"
  shows "wp (mapOp (Dim s) idxs) (\<lambda>rs W'. W' = W \<and> has_dims W rs (map (\<lambda>i. xs ! nat i) idxs)) W"
proof -
  have l: "length ds = length xs" using d by (rule has_dims_length)
  have "mapOp (Dim s) idxs (ctx_of W) = (Inr (map (\<lambda>i. ds ! nat i) idxs), ctx_of W)"
    by (rule mapOp_pure) (use b l in \<open>auto simp: Dim_known[OF s] vecAt_def list_all_iff\<close>)
  moreover have "has_dims W (map (\<lambda>i. ds ! nat i) idxs) (map (\<lambda>i. xs ! nat i) idxs)"
    using b d l by (auto simp: has_dims_def list_all2_conv_all_nth list_all_length)
  ultimately show ?thesis using g step_refl by (auto simp: wp_def)
qed

lemma list_all_is_size_nth: "list_all is_size xs \<Longrightarrow> list_all (\<lambda>i. 0 \<le> i \<and> i < int (length xs)) is \<Longrightarrow>
    list_all is_size (map (\<lambda>i. xs ! nat i) is)"
  by (auto simp: list_all_iff)

lemma SubshapeStride_wp:
  fixes xs :: "int list" and start_in end_in stride :: int
  defines "n \<equiv> int (length xs)"
  defines "i \<equiv> normStart n stride start_in" and "j \<equiv> normBound n end_in"
  assumes g: "good W" and s: "has_shape W s xs"
    and b: "0 \<le> i" "0 \<le> j" "if stride > 0 then i \<le> j else j \<le> i"
    and st: "stride \<noteq> 0" "\<bar>stride\<bar> \<le> 1073741823" and r: "small_rank xs"
  shows "wp (SubshapeStride s start_in end_in stride)
    (shape_post W (pySlice xs i j stride) (rank_known W s)) W"
proof -
  have sz: "list_all is_size xs" using g s by (rule has_shape_sizes)
  have ij: "i \<le> n" "j \<le> n" by (auto simp: i_def j_def normStart_def normBound_def Let_def n_def)
  let ?idx = "strideIdx i stride (strideCount i j stride)"
  have idx: "list_all (\<lambda>i. 0 \<le> i \<and> i < int (length xs)) ?idx"
  proof -
    have "0 \<le> x \<and> x < int (length xs)" if x: "x \<in> set ?idx" for x
    proof (cases "0 < stride")
      case True
      then show ?thesis using strideIdx_bounds(1)[OF x] b ij by (auto simp: n_def)
    next
      case False
      then have "i < n" using b(1) st(1)
        by (auto simp: i_def normStart_def Let_def n_def split: if_splits)
      then show ?thesis using strideIdx_bounds(2)[OF x] False b st(1) by (auto simp: n_def)
    qed
    then show ?thesis by (simp add: list_all_iff)
  qed
  have loop: "subshapeLoop j stride i = Some ?idx"
    using b ij st r by (intro subshapeLoop_norm[of i n j]) (auto simp: small_rank_def n_def)
  have all: "pySlice xs i j stride = xs" if "start_in = 0" "stride = 1" "n \<le> end_in"
  proof -
    have "i = 0" "j = n" using that by (auto simp: i_def j_def normStart_def normBound_def Let_def n_def)
    then show ?thesis using that by (simp add: pySlice_one n_def)
  qed
  have R: "Rank (ctx_of W) s = (if rank_known W s then n else - 1)" "RankKnown (ctx_of W) s = rank_known W s"
    using has_shape_RankKnown[OF g s] by (simp_all add: n_def rank_known_def)
  let ?Q = "shape_post W (pySlice xs i j stride) (rank_known W s)"
  have whole: "wp (ret s) ?Q W" if "start_in = 0" "stride = 1" "n \<le> end_in"
    using that g s all by (intro wp_ret) (auto intro: quiet_refl)
  have unk: "wp UnknownShape ?Q W" if "\<not> rank_known W s"
    by (rule wp_conseq[OF UnknownShape_wp[OF g, of "pySlice xs i j stride"]])
      (use that sz idx in \<open>auto simp: pySlice_def list_all_is_size_nth\<close>)
  have known: "wp (andThen (mapOp (Dim s) ?idx) MakeShape) ?Q W" if k: "rank_known W s"
  proof -
    obtain ds where ds: "shape_of (ctx_of W) s = Some ds" using k by (auto simp: rank_known_shape_of)
    show ?thesis
      by (rule wp_seq[OF nth_strideIdx_has_dim[OF g has_shape_known[OF g s ds] ds idx]])
        (auto simp: pySlice_def intro!: wp_conseq[OF MakeShape_wp[OF g]])
  qed
  show ?thesis
  proof (cases "rank_known W s")
    case False
    have "n \<le> int64_max" using r by (simp add: n_def small_rank_def)
    then show ?thesis using False whole unk R by (auto simp: SubshapeStride_def)
  next
    case True
    have eqs: "(let start0 = (if start_in > n then n else start_in);
           start1 = (if stride < 0 \<and> start0 = n then start0 - 1 else start0)
       in if start1 < 0 then n + start1 else start1) = i"
      "(let end0 = (if end_in > n then n else end_in) in if end0 < 0 then n + end0 else end0) = j"
      by (auto simp: i_def j_def normStart_def normBound_def Let_def min_def)
    have nle: "n \<le> int64_max" using r by (simp add: n_def small_rank_def)
    show ?thesis
    proof (cases "start_in = 0 \<and> stride = 1 \<and> (end_in \<ge> n \<or> end_in = int64_max)")
      case c: True
      then have "n \<le> end_in" using nle by auto
      then show ?thesis using c True R whole by (auto simp: SubshapeStride_def)
    next
      case c: False
      show ?thesis
        using True c eqs b known[OF True] loop st(1)
        by (simp add: SubshapeStride_def R Let_def) auto
    qed
  qed
qed

lemma SubshapeRange_wp:
  assumes g: "good W" and s: "has_shape W s xs" and r: "small_rank xs"
    and i: "normBound (int (length xs)) start_in = int i" and j: "normBound (int (length xs)) end_in = int j"
    and ij: "i \<le> j"
  shows "wp (SubshapeRange s start_in end_in) (shape_post W (take (j - i) (drop i xs)) (rank_known W s)) W"
proof -
  have "int j \<le> int (length xs)" using j by (auto simp: normBound_def Let_def split: if_splits)
  then have "pySlice xs (int i) (int j) 1 = take (j - i) (drop i xs)"
    using ij pySlice_one[of "int i" "int j" xs] by (simp add: nat_diff_distrib)
  then show ?thesis
    using SubshapeStride_wp[OF g s, of 1 start_in end_in] ij r
    by (simp add: SubshapeRange_def normStart_pos i j)
qed

lemma SubshapeFrom_wp:
  assumes g: "good W" and s: "has_shape W s xs" and r: "small_rank xs"
    and i: "normBound (int (length xs)) start_in = int i"
  shows "wp (SubshapeFrom s start_in) (shape_post W (drop i xs) (rank_known W s)) W"
proof -
  have "i \<le> length xs" using i by (auto simp: normBound_def Let_def split: if_splits)
  moreover have "normBound (int (length xs)) int64_max = int (length xs)"
    using r by (simp add: normBound_def small_rank_def min_def)
  ultimately show ?thesis
    using SubshapeRange_wp[OF g s r i, of int64_max "length xs"] by (simp add: SubshapeFrom_def)
qed

lemma Concatenate_wp:
  assumes g: "good W" and s: "has_shape W s1 xs" "has_shape W s2 ys"
  shows "wp (Concatenate s1 s2) (shape_post W (xs @ ys) (rank_known W s1 \<and> rank_known W s2)) W"
proof (cases "rank_known W s1 \<and> rank_known W s2")
  case True
  have "wp (andThen (dimsOf s1) (\<lambda>ds1. andThen (dimsOf s2) (\<lambda>ds2. MakeShape (ds1 @ ds2))))
      (shape_post W (xs @ ys) True) W"
  proof (rule wp_seq[OF dimsOf_wp[OF g s(1)]])
    show "rank_known W s1" using True by simp
  next
    fix ds1 W1
    assume 1: "W1 = W \<and> has_dims W ds1 xs \<and> shape_of (ctx_of W) s1 = Some ds1"
    have "wp (andThen (dimsOf s2) (\<lambda>ds2. MakeShape (ds1 @ ds2))) (shape_post W (xs @ ys) True) W"
    proof (rule wp_seq[OF dimsOf_wp[OF g s(2)]])
      show "rank_known W s2" using True by simp
    next
      fix ds2 W2
      assume "W2 = W \<and> has_dims W ds2 ys \<and> shape_of (ctx_of W) s2 = Some ds2"
      then show "wp (MakeShape (ds1 @ ds2)) (shape_post W (xs @ ys) True) W2"
        using 1 g by (auto intro!: wp_conseq[OF MakeShape_wp] has_dims_append)
    qed
    then show "wp (andThen (dimsOf s2) (\<lambda>ds2. MakeShape (ds1 @ ds2))) (shape_post W (xs @ ys) True) W1"
      using 1 by simp
  qed
  then show ?thesis using True by (simp add: Concatenate_def rank_known_def)
next
  case False
  have "list_all is_size (xs @ ys)" using g s has_shape_sizes by auto
  then have "wp UnknownShape (shape_post W (xs @ ys) False) W"
    using g by (intro wp_conseq[OF UnknownShape_wp[of W "xs @ ys"]]) auto
  then show ?thesis using False by (auto simp: Concatenate_def rank_known_def)
qed

lemma FastBoundsCheck_iff:
  assumes "- 9223372036854775808 \<le> i" "i \<le> int64_max" "0 \<le> n" "n \<le> int64_max"
  shows "FastBoundsCheck i n \<longleftrightarrow> 0 \<le> i \<and> i < n"
proof (cases "0 \<le> i")
  case True
  then show ?thesis using assms by (simp add: FastBoundsCheck_def to_uint64_def)
next
  case False
  have "i mod 18446744073709551616 = (i + 18446744073709551616) mod 18446744073709551616" by simp
  also have "\<dots> = i + 18446744073709551616" using False assms by (intro mod_pos_pos_trivial) auto
  finally have "i mod 18446744073709551616 = i + 18446744073709551616" .
  then show ?thesis using assms False by (simp add: FastBoundsCheck_def to_uint64_def)
qed

lemma has_dims_update:
  "has_dims W ds xs \<Longrightarrow> has_dim W d n \<Longrightarrow> has_dims W (ds[i := d]) (xs[i := n])"
  by (simp add: has_dims_def list_all2_update_cong)

lemma ReplaceDim_wp:
  assumes g: "good W" and s: "has_shape W s xs" and d: "has_dim W d n"
    and i: "- int (length xs) \<le> i" "i < int (length xs)" and l: "int (length xs) \<le> int64_max"
  shows "wp (ReplaceDim s i d) (shape_post W (xs[pyIndex i (length xs) := n]) (rank_known W s)) W"
proof (cases "rank_known W s")
  case False
  have "is_size n" using g d by (rule has_dim_size)
  then have "list_all is_size (xs[pyIndex i (length xs) := n])"
    using has_shape_sizes[OF g s] set_update_subset_insert[of xs "pyIndex i (length xs)" n]
    by (auto simp: list_all_iff)
  then show ?thesis using False g
    by (auto simp: ReplaceDim_def rank_known_def intro!: wp_conseq[OF UnknownShape_wp])
next
  case True
  let ?Q = "shape_post W (xs[pyIndex i (length xs) := n]) True"
  have "wp (andThen (dimsOf s) (\<lambda>ds.
       let n = int (length ds);
           dim_index = (if i < 0 then n + i else i)
       in if \<not> FastBoundsCheck dim_index n then failWith InvalidArgument
          else MakeShape (ds[nat dim_index := d]))) ?Q W"
  proof (rule wp_seq[OF dimsOf_wp[OF g s True]])
    fix ds W1
    assume 1: "W1 = W \<and> has_dims W ds xs \<and> shape_of (ctx_of W) s = Some ds"
    have len: "length ds = length xs" using 1 has_dims_length by blast
    let ?i = "if i < 0 then int (length xs) + i else i"
    have "FastBoundsCheck ?i (int (length xs))"
      using i l by (subst FastBoundsCheck_iff) auto
    moreover have "wp (MakeShape (ds[pyIndex i (length xs) := d])) ?Q W"
      using 1 d g by (auto intro!: wp_conseq[OF MakeShape_wp] has_dims_update)
    ultimately show "wp (let n = int (length ds);
           dim_index = (if i < 0 then n + i else i)
       in if \<not> FastBoundsCheck dim_index n then failWith InvalidArgument
          else MakeShape (ds[nat dim_index := d])) ?Q W1"
      using 1 by (simp add: len Let_def pyIndex_def)
  qed
  then show ?thesis using True by (simp add: ReplaceDim_def rank_known_def)
qed

lemma has_dims_take: "has_dims W ds xs \<Longrightarrow> has_dims W (take k ds) (take k xs)"
  by (simp add: has_dims_def list_all2_takeI)

lemma has_dims_drop: "has_dims W ds xs \<Longrightarrow> has_dims W (drop k ds) (drop k xs)"
  by (simp add: has_dims_def list_all2_dropI)

end
