(* ===== verification/ArithRules.thy ===== *)
theory ArithRules
  imports SubRules
begin

text \<open>
  Rules for the arithmetic on dimensions: the result describes the quotient, sum,
  difference, product, minimum or maximum of the actual sizes, unknown operands
  included, and an overflow is the only reason to reject sizes that are fine.
\<close>

abbreviation dim_post :: "world \<Rightarrow> int \<Rightarrow> dim \<Rightarrow> world \<Rightarrow> bool" where
  "dim_post W n \<equiv> (\<lambda>d W'. quiet W W' \<and> has_dim W' d n)"

lemma has_doc_DCHECK: "has_doc W d n \<Longrightarrow> d = Const v \<Longrightarrow> - 1 \<le> v"
  by (auto simp: has_doc_def is_size_def)

lemma ret_dim_wp: "good W \<Longrightarrow> has_dim W d n \<Longrightarrow> wp (ret d) (dim_post W n) W"
  by (rule wp_ret) (auto intro: quiet_refl)

lemma MakeDim_Const_wp: "good W \<Longrightarrow> is_size n \<Longrightarrow> k = n \<Longrightarrow> wp (MakeDim (Const k)) (dim_post W n) W"
  by (rule MakeDim_wp) auto

lemma Divide_wp:
  assumes g: "good W" and d: "has_dim W d n" and e: "has_doc W e k" and k: "0 < k" "e \<noteq> Const (- 1)"
    and ev: "even_div \<Longrightarrow> k dvd n"
  shows "wp (Divide d e even_div) (dim_post W (n div k)) W"
proof -
  have n: "0 \<le> n" "n \<le> int64_max" and ks: "k \<le> int64_max"
    using has_dim_size[OF g d] has_doc_size[OF g e] by (auto simp: is_size_def)
  have sz: "is_size (n div k)"
    using n k(1) zdiv_mono2[of n 1 k] by (simp add: is_size_def pos_imp_zdiv_nonneg_iff)
  have dv: "DValue (ctx_of W) d = - 1 \<or> DValue (ctx_of W) d = n" using has_dim_value[OF g d] .
  have ev': "Value (ctx_of W) e = - 1 \<and> (\<exists>a. e = Handle a) \<or> Value (ctx_of W) e = k"
    using has_doc_value[OF g e] k e by (cases e) (auto simp: Value_def)
  show ?thesis
    using dv ev' k(1) n has_doc_DCHECK[OF e] ev sz g d
    by (auto simp: Divide_def cdiv_nonneg cmod_nonneg intro!: UnknownDim_wp ret_dim_wp MakeDim_Const_wp split: dim_or_const.splits)
qed

lemma to_int64_sum:
  assumes "is_size a" "is_size b"
  shows "to_int64 (to_uint64 (to_uint64 a + to_uint64 b)) = (if a + b \<le> int64_max then a + b else a + b - 18446744073709551616)"
proof -
  have ab: "to_uint64 (to_uint64 a + to_uint64 b) = a + b"
    using assms by (simp add: to_uint64_def is_size_def)
  show ?thesis
  proof (cases "a + b \<le> int64_max")
    case True
    then show ?thesis using assms ab by (simp add: to_int64_def is_size_def)
  next
    case False
    have "(a + b + 9223372036854775808) mod 18446744073709551616 =
        (a + b + 9223372036854775808 - 18446744073709551616) mod 18446744073709551616"
      by (rule minus_mod_self2[symmetric])
    also have "\<dots> = a + b + 9223372036854775808 - 18446744073709551616"
      using False assms by (intro mod_pos_pos_trivial) (auto simp: is_size_def)
    finally show ?thesis using False ab by (simp add: to_int64_def)
  qed
qed

lemma Add_wp:
  assumes g: "good W" and d: "has_dim W d n" and e: "has_doc W e k" and fit: "n + k \<le> int64_max"
  shows "wp (Add d e) (dim_post W (n + k)) W"
proof -
  have n: "is_size n" and k: "is_size k" using has_dim_size[OF g d] has_doc_size[OF g e] by auto
  have sz: "is_size (n + k)" using n k fit by (simp add: is_size_def)
  have dv: "DValue (ctx_of W) d = - 1 \<or> DValue (ctx_of W) d = n" using has_dim_value[OF g d] .
  have ev: "Value (ctx_of W) e = - 1 \<or> Value (ctx_of W) e = k" using has_doc_value[OF g e] .
  have e0: "wp (MakeDim e) (dim_post W (n + k)) W" if "n = 0" using g e MakeDim_wp that by auto
  have d0: "wp (ret d) (dim_post W (n + k)) W" if "k = 0" using g d ret_dim_wp that by auto
  have "0 \<le> n" "0 \<le> k" using n k by (auto simp: is_size_def)
  then show ?thesis
    using dv ev has_doc_DCHECK[OF e] sz g e0 d0 fit to_int64_sum[OF n k]
    by (auto simp: Add_def Let_def intro!: UnknownDim_wp MakeDim_Const_wp)
qed

lemma Subtract_wp:
  assumes g: "good W" and d: "has_dim W d n" and e: "has_doc W e k" and fit: "k \<le> n"
  shows "wp (Subtract d e) (dim_post W (n - k)) W"
proof -
  have n: "is_size n" and k: "is_size k" using has_dim_size[OF g d] has_doc_size[OF g e] by auto
  have sz: "is_size (n - k)" using n k fit by (simp add: is_size_def)
  have dv: "DValue (ctx_of W) d = - 1 \<or> DValue (ctx_of W) d = n" using has_dim_value[OF g d] .
  have ev: "Value (ctx_of W) e = - 1 \<or> Value (ctx_of W) e = k" using has_doc_value[OF g e] .
  have d0: "wp (ret d) (dim_post W (n - k)) W" if "k = 0" using g d ret_dim_wp that by auto
  show ?thesis
    using dv ev has_doc_DCHECK[OF e] sz g d0 fit
    by (auto simp: Subtract_def intro!: UnknownDim_wp MakeDim_Const_wp)
qed

lemma Multiply_wp:
  assumes g: "good W" and d: "has_dim W d n" and e: "has_doc W e k" and fit: "n * k \<le> int64_max"
  shows "wp (Multiply d e) (dim_post W (n * k)) W"
proof -
  have n: "is_size n" and k: "is_size k" using has_dim_size[OF g d] has_doc_size[OF g e] by auto
  have sz: "is_size (n * k)" using n k fit by (simp add: is_size_def)
  have dv: "DValue (ctx_of W) d = - 1 \<or> DValue (ctx_of W) d = n" using has_dim_value[OF g d] .
  have ev: "Value (ctx_of W) e = - 1 \<or> Value (ctx_of W) e = k" using has_doc_value[OF g e] .
  have e0: "wp (MakeDim e) (dim_post W (n * k)) W" if "n = 1 \<or> k = 0" using g e MakeDim_wp that by auto
  have d0: "wp (ret d) (dim_post W (n * k)) W" if "k = 1 \<or> n = 0" using g d ret_dim_wp that by auto
  have m: "MultiplyWithoutOverflow n k = n * k" using n k fit by (simp add: mwo.mul_exact is_size_def)
  have "0 \<le> n * k" using sz by (simp add: is_size_def)
  then show ?thesis
    using dv ev has_doc_DCHECK[OF e] sz g e0 d0 m
    by (auto simp: Multiply_def Let_def intro!: UnknownDim_wp MakeDim_Const_wp)
qed

lemma Min_wp:
  assumes g: "good W" and d: "has_dim W d n" and e: "has_doc W e k"
  shows "wp (Min d e) (dim_post W (min n k)) W"
proof -
  have n: "is_size n" and k: "is_size k" using has_dim_size[OF g d] has_doc_size[OF g e] by auto
  have sz: "is_size (min n k)" using n k by (simp add: min_def)
  have dv: "DValue (ctx_of W) d = - 1 \<or> DValue (ctx_of W) d = n" using has_dim_value[OF g d] .
  have ev: "Value (ctx_of W) e = - 1 \<or> Value (ctx_of W) e = k" using has_doc_value[OF g e] .
  have e0: "wp (MakeDim e) (dim_post W (min n k)) W" if "k \<le> n" using g e MakeDim_wp that by (auto simp: min_def)
  have d0: "wp (ret d) (dim_post W (min n k)) W" if "n \<le> k" using g d ret_dim_wp that by (auto simp: min_def)
  have "0 \<le> n" "0 \<le> k" using n k by (auto simp: is_size_def)
  then show ?thesis
    using dv ev has_doc_DCHECK[OF e] sz g e0 d0
    by (auto simp: Min_def intro!: UnknownDim_wp)
qed

lemma Max_wp:
  assumes g: "good W" and d: "has_dim W d n" and e: "has_doc W e k"
  shows "wp (Max d e) (dim_post W (max n k)) W"
proof -
  have n: "is_size n" and k: "is_size k" using has_dim_size[OF g d] has_doc_size[OF g e] by auto
  have sz: "is_size (max n k)" using n k by (simp add: max_def)
  have dv: "DValue (ctx_of W) d = - 1 \<or> DValue (ctx_of W) d = n" using has_dim_value[OF g d] .
  have ev: "Value (ctx_of W) e = - 1 \<or> Value (ctx_of W) e = k" using has_doc_value[OF g e] .
  have e0: "wp (MakeDim e) (dim_post W (max n k)) W" if "n \<le> k" using g e MakeDim_wp that by (auto simp: max_def)
  have d0: "wp (ret d) (dim_post W (max n k)) W" if "k \<le> n" using g d ret_dim_wp that by (auto simp: max_def)
  show ?thesis
    using dv ev has_doc_DCHECK[OF e] sz g e0 d0
    by (auto simp: Max_def intro!: UnknownDim_wp)
qed

section \<open>Element counts\<close>

lemma prod_list_pos: "list_all (\<lambda>x. (0::int) < x) xs \<Longrightarrow> 0 < prod_list xs"
  by (induction xs) auto

definition known_as :: "int \<Rightarrow> int \<Rightarrow> bool" where
  "known_as v x \<longleftrightarrow> is_size x \<and> (v = kUnknownDim \<or> v = x)"

lemma numElementsLoop_wp:
  assumes g: "good W" and tot: "is_size tot"
    and "list_all2 known_as vs xs" "0 < m" "m * prod_list (filter (\<lambda>x. 0 < x) xs) \<le> int64_max"
    and "\<not> found \<longrightarrow> tot = m * prod_list xs" and "0 \<in> set xs \<longrightarrow> tot = 0"
  shows "wp (numElementsLoop vs found m) (dim_post W tot) W"
  using assms(3-)
proof (induction vs arbitrary: xs m found)
  case Nil
  then show ?case using g tot by (auto intro: UnknownDim_wp MakeDim_Const_wp)
next
  case (Cons v vs)
  from Cons.prems(1) obtain x ys where xs: "xs = x # ys" "known_as v x" "list_all2 known_as vs ys"
    by (auto simp: list_all2_Cons1)
  have x: "0 \<le> x" using xs(2) by (simp add: known_as_def is_size_def)
  let ?P = "prod_list (filter (\<lambda>x. 0 < x) ys)"
  have P: "0 < ?P" by (rule prod_list_pos) (simp add: list_all_iff)
  have mP: "m * ?P \<le> int64_max"
  proof (cases "x = 0")
    case True
    then show ?thesis using Cons.prems(3) xs by simp
  next
    case False
    have "0 < m * ?P" using P Cons.prems(2) by simp
    then have "m * ?P \<le> m * ?P * x" using False x by (simp add: mult_le_cancel_left1)
    then show ?thesis using Cons.prems(3) xs False x by (simp add: algebra_simps)
  qed
  consider (unknown) "v = - 1" | (zero) "v = 0" | (pos) "v = x" "0 < x"
    using xs(2) x by (cases "v = - 1"; cases "x = 0") (auto simp: known_as_def)
  then show ?case
  proof cases
    case unknown
    have "wp (numElementsLoop vs True m) (dim_post W tot) W"
      using Cons.IH[OF xs(3) Cons.prems(2), of True] mP x Cons.prems(5) xs by auto
    then show ?thesis using unknown by simp
  next
    case zero
    then have "tot = 0" using Cons.prems(5) xs by (auto simp: known_as_def)
    then show ?thesis using zero g by (auto intro: MakeDim_Const_wp simp: is_size_def)
  next
    case pos
    have le: "m * x * ?P \<le> int64_max" using Cons.prems(3) xs pos by (simp add: mult.assoc)
    have mx: "0 < m * x" using pos Cons.prems(2) by simp
    have "m * x \<le> m * x * ?P" using P mx by (simp add: mult_le_cancel_left1)
    then have "m * x \<le> int64_max" using le by (rule order_trans)
    then have "in_int64 (m * x)" using mx by (simp add: in_int64_def)
    moreover have "wp (numElementsLoop vs found (m * x)) (dim_post W tot) W"
      using Cons.IH[OF xs(3), of "m * x" found] le pos Cons.prems xs by (auto simp: mult.assoc)
    ultimately show ?thesis using pos by (simp add: wp_liftR_bind signed64_def)
  qed
qed

lemma NumElements_wp:
  assumes g: "good W" and s: "has_shape W s xs"
    and fit: "prod_list (filter (\<lambda>x. 0 < x) xs) \<le> int64_max"
  shows "wp (NumElements s) (dim_post W (prod_list xs)) W"
proof -
  have sz: "list_all is_size xs" using g s by (rule has_shape_sizes)
  have tot: "is_size (prod_list xs)"
  proof (cases "0 \<in> set xs")
    case True
    then have "prod_list xs = 0" by (simp add: prod_list_zero_iff)
    then show ?thesis by (simp add: is_size_def)
  next
    case False
    then have "filter (\<lambda>x. 0 < x) xs = xs"
      using sz by (auto simp: filter_id_conv list_all_iff is_size_def order_le_less)
    moreover have "0 \<le> prod_list (filter (\<lambda>x. 0 < x) xs)"
      using prod_list_pos[of "filter (\<lambda>x. 0 < x) xs"] by (simp add: list_all_iff less_imp_le)
    ultimately show ?thesis using fit by (simp add: is_size_def)
  qed
  show ?thesis
  proof (cases "rank_known W s")
    case False
    then show ?thesis using has_shape_RankKnown[OF g s] g tot
      by (simp add: NumElements_def UnknownDim_wp)
  next
    case True
    have "wp (andThen (dimsOf s) (\<lambda>ds.
       andThen (gets (\<lambda>c. map (DValue c) ds)) (\<lambda>vs. numElementsLoop vs False 1))) (dim_post W (prod_list xs)) W"
    proof (rule wp_seq[OF dimsOf_wp[OF g s True]])
      fix ds W1
      assume 1: "W1 = W \<and> has_dims W ds xs \<and> shape_of (ctx_of W) s = Some ds"
      have "list_all2 known_as (map (DValue (ctx_of W)) ds) xs"
        using 1 sz has_dim_value[OF g]
        by (auto simp: has_dims_def known_as_def list_all2_conv_all_nth list_all_length)
      then have "wp (numElementsLoop (map (DValue (ctx_of W)) ds) False 1) (dim_post W (prod_list xs)) W"
        using fit by (intro numElementsLoop_wp[OF g tot]) (auto simp: prod_list_zero_iff)
      then show "wp (andThen (gets (\<lambda>c. map (DValue c) ds)) (\<lambda>vs. numElementsLoop vs False 1))
          (dim_post W (prod_list xs)) W1"
        using 1 by simp
    qed
    then show ?thesis using True has_shape_RankKnown[OF g s] by (simp add: NumElements_def)
  qed
qed

section \<open>Merging a prefix\<close>

lemma MergePrefix_wp:
  assumes g: "good W" and s: "has_shape W s (xs @ ys)" and p: "has_shape W pre xs"
    and r: "length xs \<le> 2147483647"
  shows "wp (MergePrefix s pre) (\<lambda>(s', p') W'. quiet W W' \<and> has_shape W' s' (xs @ ys) \<and> has_shape W' p' xs) W"
proof (cases "rank_known W pre \<and> rank_known W s")
  case False
  then show ?thesis using g s p by (auto simp: MergePrefix_def rank_known_def intro!: wp_ret quiet_refl)
next
  case True
  then have k: "rank_known W pre" "rank_known W s" by auto
  let ?Q = "\<lambda>(s', p') W'. quiet W W' \<and> has_shape W' s' (xs @ ys) \<and> has_shape W' p' xs"
  have rp: "Rank (ctx_of W) pre = int (length xs)" "Rank (ctx_of W) s = int (length xs + length ys)"
    using has_shape_RankKnown[OF g] s p k by auto
  obtain ds ps where ds: "shape_of (ctx_of W) s = Some ds" and ps: "shape_of (ctx_of W) pre = Some ps"
    using k by (auto simp: rank_known_shape_of)
  have d: "has_dims W ds (xs @ ys)" "has_dims W ps xs"
    using has_shape_known[OF g s ds] has_shape_known[OF g p ps] by auto
  have t: "has_dims W (take (length xs) ds) xs" "has_dims W (drop (length xs) ds) ys"
    using has_dims_take[OF d(1), of "length xs"] has_dims_drop[OF d(1), of "length xs"] by auto
  have body: "wp (andThen (mapOp (\<lambda>(d, p). MergeDim d p) (zip (take (nat (int (length xs))) ds) ps)) (\<lambda>dims.
       andThen (MakeShape dims) (\<lambda>prefix_out.
       andThen (MakeShape (dims @ drop (nat (int (length xs))) ds)) (\<lambda>s_out.
       ret (s_out, prefix_out))))) ?Q W"
    unfolding nat_int
  proof (rule wp_seq[OF mapOp_MergeDim_wp[OF g t(1) d(2)]])
    fix dims W1
    assume 1: "quiet W W1 \<and> has_dims W1 dims xs"
    show "wp (andThen (MakeShape dims) (\<lambda>prefix_out.
       andThen (MakeShape (dims @ drop (length xs) ds)) (\<lambda>s_out.
       ret (s_out, prefix_out)))) ?Q W1"
    proof (rule wp_seq[OF MakeShape_wp[of W1 dims xs]])
      show "good W1" "has_dims W1 dims xs" using 1 good_quiet by blast+
    next
      fix po W2
      assume 2: "quiet W1 W2 \<and> has_shape W2 po xs \<and> rank_known W2 po"
      have q2: "quiet W W2" using 1 2 quiet_trans by blast
      have "has_dims W2 dims xs" using 1 2 quiet_has_dims by blast
      then have d2: "has_dims W2 (dims @ drop (length xs) ds) (xs @ ys)"
        using quiet_has_dims[OF q2 t(2)] has_dims_append by blast
      show "wp (andThen (MakeShape (dims @ drop (length xs) ds)) (\<lambda>s_out. ret (s_out, po))) ?Q W2"
      proof (rule wp_seq[OF MakeShape_wp[OF good_quiet[OF q2] d2]])
        fix so W3
        assume 3: "quiet W2 W3 \<and> has_shape W3 so (xs @ ys) \<and> rank_known W3 so"
        have "quiet W W3" "has_shape W3 po xs" using q2 2 3 quiet_trans quiet_has_shape by blast+
        then show "wp (ret (so, po)) ?Q W3" using 3 by (intro wp_ret) (auto dest: good_quiet)
      qed
    qed
  qed
  have "wp (andThen (dimsOf s) (\<lambda>ds. andThen (dimsOf pre) (\<lambda>ps.
       andThen (mapOp (\<lambda>(d, p). MergeDim d p) (zip (take (nat (int (length xs))) ds) ps)) (\<lambda>dims.
       andThen (MakeShape dims) (\<lambda>prefix_out.
       andThen (MakeShape (dims @ drop (nat (int (length xs))) ds)) (\<lambda>s_out.
       ret (s_out, prefix_out))))))) ?Q W"
    using body ds ps by (simp add: wp_def dimsOf_def op_simps)
  then show ?thesis
    using k rp r by (simp add: MergePrefix_def WithRankAtLeast_def rank_known_def andThen_assoc)
qed

end
