(* ===== verification/Samples.thy ===== *)
theory Samples
  imports ShapeModels
begin

text \<open>
  Small concrete contexts on which the theorems are instantiated: a context with given
  dimensions, shapes, inputs, constant inputs and attributes and with \<open>n\<close> outputs that are
  not set yet, and a world that gives it sizes.
\<close>

definition sample_ctx ::
    "int list \<Rightarrow> dim list option list \<Rightarrow> shape list \<Rightarrow> tensor option list \<Rightarrow> nat \<Rightarrow> attrs \<Rightarrow> ctx" where
  "sample_ctx dims shapes ins ts n as =
     \<lparr>all_dims = dims, all_shapes = shapes, inputs = ins,
      input_tensors = ts @ replicate (length ins - length ts) None,
      requested_input_tensor = replicate (length ins) False,
      outputs = replicate n None, input_tensors_as_shapes = [],
      requested_input_tensor_as_partial_shape = replicate (length ins) False,
      input_handle_shapes_and_types = replicate (length ins) None,
      output_handle_shapes_and_types = replicate n None,
      graph_def_version = 27, attrs = as, input_name_map = [], output_name_map = [],
      construction_status = None, merged_shapes = [], merged_dims = []\<rparr>"

definition sample_world :: "ctx \<Rightarrow> int list \<Rightarrow> int list list \<Rightarrow> world" where
  "sample_world c ds ss =
     World c (\<lambda>d. if d < length ds then ds ! d else 0) (\<lambda>a. if a < length ss then ss ! a else [])"

definition fits :: "ctx \<Rightarrow> int list \<Rightarrow> int list list \<Rightarrow> bool" where
  "fits c ds ss \<longleftrightarrow>
     wf_ctx c \<and> length ds = length (all_dims c) \<and> length ss = length (all_shapes c) \<and>
     list_all (\<lambda>d. is_size (ds ! d) \<and> (all_dims c ! d \<noteq> - 1 \<longrightarrow> ds ! d = all_dims c ! d)) [0..<length ds] \<and>
     list_all (\<lambda>a. list_all is_size (ss ! a) \<and>
       (case all_shapes c ! a of None \<Rightarrow> True | Some xs \<Rightarrow> list_all (\<lambda>d. d < length ds) xs \<and> ss ! a = map ((!) ds) xs))
       [0..<length ss] \<and>
     merged_dims c = [] \<and> merged_shapes c = []"

lemma good_sample: "fits c ds ss \<Longrightarrow> good (sample_world c ds ss)"
  by (auto simp: fits_def sample_world_def good_def models_def agrees_dim_def agrees_shape_def
      Value_def list_all_iff map_eq_conv split: option.splits)

lemma ctx_of_sample [simp]: "ctx_of (sample_world c ds ss) = c"
  by (simp add: sample_world_def)

lemma has_shape_sample:
  "a < length (all_shapes c) \<Longrightarrow> length ss = length (all_shapes c) \<Longrightarrow>
   has_shape (sample_world c ds ss) (Some a) (ss ! a)"
  by (simp add: sample_world_def has_shape_def)

lemma has_dim_sample:
  "d < length (all_dims c) \<Longrightarrow> length ds = length (all_dims c) \<Longrightarrow>
   has_dim (sample_world c ds ss) d (ds ! d)"
  by (simp add: sample_world_def has_dim_def valid_dim_def)

end
