(* ===== verification/Exact.thy ===== *)
theory Exact
  imports ArithRules Samples
begin

text \<open>
  The other direction: what a successful run has established. An operation that only
  appends to the arenas and to the merge records (every one but those that call
  \<open>ForgetMerges\<close>) is \<open>growing\<close>, and a model of the context it leaves is a model of the
  context it started from. The constraints the code asserts then hold in every model
  of the final context.
\<close>

section \<open>Operations that only add information\<close>

definition grows :: "ctx \<Rightarrow> ctx \<Rightarrow> bool" where
  "grows c c' \<longleftrightarrow>
     take (length (all_dims c)) (all_dims c') = all_dims c \<and>
     take (length (all_shapes c)) (all_shapes c') = all_shapes c \<and>
     set (merged_dims c) \<subseteq> set (merged_dims c') \<and> set (merged_shapes c) \<subseteq> set (merged_shapes c') \<and>
     inputs c' = inputs c \<and> attrs c' = attrs c"

definition growing :: "'a cop \<Rightarrow> bool" where
  "growing m \<longleftrightarrow> (\<forall>c. grows c (snd (m c)))"

named_theorems growing_intros \<open>operations that only add information\<close>

lemma grows_refl [simp]: "grows c c"
  by (simp add: grows_def)

lemma grows_trans: "grows c c' \<Longrightarrow> grows c' c'' \<Longrightarrow> grows c c''"
  unfolding grows_def using take_length_trans by (metis (no_types, lifting) subset_trans)

lemma grows_nth:
  assumes "grows c c'"
  shows "d < length (all_dims c) \<Longrightarrow> d < length (all_dims c') \<and> all_dims c' ! d = all_dims c ! d"
    and "a < length (all_shapes c) \<Longrightarrow> a < length (all_shapes c') \<and> all_shapes c' ! a = all_shapes c ! a"
proof -
  have *: "i < length xs \<Longrightarrow> take (length xs) ys = xs \<Longrightarrow> i < length ys \<and> ys ! i = xs ! i" for i xs and ys :: "'z list"
    by (metis length_take min_less_iff_conj nth_take)
  show "d < length (all_dims c) \<Longrightarrow> d < length (all_dims c') \<and> all_dims c' ! d = all_dims c ! d"
    using assms * unfolding grows_def by blast
  show "a < length (all_shapes c) \<Longrightarrow> a < length (all_shapes c') \<and> all_shapes c' ! a = all_shapes c ! a"
    using assms * unfolding grows_def by blast
qed

lemma grows_models:
  assumes "grows c c'" "models c' v w"
  shows "models c v w"
proof -
  have "agrees_dim c v d" if "d < length (all_dims c)" for d
    using assms grows_nth(1)[OF assms(1) that] by (auto simp: models_def agrees_dim_def Value_def)
  moreover have "agrees_shape c v w a" if "a < length (all_shapes c)" for a
    using assms grows_nth(2)[OF assms(1) that] by (auto simp: models_def agrees_shape_def)
  ultimately show ?thesis using assms by (auto simp: models_def grows_def)
qed

lemma growing_run: "growing m \<Longrightarrow> m c = (r, c') \<Longrightarrow> grows c c'"
  unfolding growing_def by (metis snd_conv)

lemma growing_ret [growing_intros]: "growing (ret x)"
  by (simp add: growing_def op_simps)

lemma growing_failWith [growing_intros]: "growing (failWith e)"
  by (simp add: growing_def op_simps)

lemma growing_faultWith [growing_intros]: "growing (faultWith e)"
  by (simp add: growing_def op_simps)

lemma growing_gets [growing_intros]: "growing (gets f)"
  by (simp add: growing_def op_simps)

lemma growing_liftR [growing_intros]: "growing (liftR r)"
  by (simp add: growing_def op_simps)

lemma growing_checkThat [growing_intros]: "growing (checkThat b e)"
  by (simp add: growing_def op_simps)

lemma growing_failUnless [growing_intros]: "growing (failUnless b e)"
  by (simp add: growing_def op_simps)

lemma growing_andThen [growing_intros]:
  assumes "growing m" "\<And>x. growing (f x)"
  shows "growing (andThen m f)"
  unfolding growing_def
proof
  fix c
  obtain r c' where r: "m c = (r, c')" by (cases "m c")
  show "grows c (snd (andThen m f c))"
    using assms growing_run[OF assms(1) r] r grows_trans
    by (cases r) (auto simp: growing_def op_simps)
qed

lemma growing_checkOk [growing_intros]: "growing m \<Longrightarrow> growing (checkOk m)"
  by (auto simp: growing_def checkOk_def split: prod.splits sum.splits fail.splits) (metis snd_conv)+

lemma growing_tryStatus [growing_intros]: "growing m \<Longrightarrow> growing (tryStatus m)"
  by (auto simp: growing_def tryStatus_def split: prod.splits sum.splits fail.splits) (metis snd_conv)+

lemma growing_mapOp [growing_intros]: "(\<And>x. growing (f x)) \<Longrightarrow> growing (mapOp f xs)"
  by (induction xs) (auto intro!: growing_intros)

lemma growing_iterOp [growing_intros]: "(\<And>x. growing (f x)) \<Longrightarrow> growing (iterOp f xs)"
  by (induction xs) (auto intro!: growing_intros)

lemma growing_if [growing_intros]: "growing a \<Longrightarrow> growing b \<Longrightarrow> growing (if P then a else b)"
  by simp

lemma growing_Let [growing_intros]: "growing (f x) \<Longrightarrow> growing (Let x f)"
  by simp

lemma growing_case_prod [growing_intros]:
  "(\<And>a b. growing (f a b)) \<Longrightarrow> growing (case p of (a, b) \<Rightarrow> f a b)"
  by (cases p) simp

lemma growing_case_option [growing_intros]:
  "growing a \<Longrightarrow> (\<And>x. growing (f x)) \<Longrightarrow> growing (case p of None \<Rightarrow> a | Some x \<Rightarrow> f x)"
  by (cases p) simp_all

lemma growing_case_sum [growing_intros]:
  "(\<And>x. growing (f x)) \<Longrightarrow> (\<And>x. growing (g x)) \<Longrightarrow> growing (case p of Inl x \<Rightarrow> f x | Inr x \<Rightarrow> g x)"
  by (cases p) simp_all

lemma growing_case_bool [growing_intros]:
  "growing a \<Longrightarrow> growing b \<Longrightarrow> growing (case p of True \<Rightarrow> a | False \<Rightarrow> b)"
  by (cases p) simp_all

lemma growing_dimOrConst [growing_intros]: "growing (dimOrConst d)"
  by (cases d) (auto simp: dimOrConst_def intro!: growing_intros)

lemma growing_MakeDim [growing_intros]: "growing (MakeDim d)"
  by (cases d) (auto simp: MakeDim_def newDimension_def growing_def op_simps grows_def)

lemma growing_UnknownDim [growing_intros]: "growing UnknownDim"
  by (simp add: UnknownDim_def growing_intros)

lemma growing_newShape [growing_intros]: "growing (newShape s)"
  by (simp add: growing_def op_simps grows_def)

lemma growing_MakeShape [growing_intros]: "growing (MakeShape ds)"
  by (simp add: MakeShape_def growing_intros)

lemma growing_UnknownShape [growing_intros]: "growing UnknownShape"
  by (simp add: UnknownShape_def growing_intros)

lemma growing_MakeShapeOf [growing_intros]: "growing (MakeShapeOf ds)"
  by (simp add: MakeShapeOf_def growing_intros)

lemma growing_addMergedDims [growing_intros]: "growing (addMergedDims a b)"
  by (auto simp: growing_def addMergedDims_def op_simps grows_def)

lemma growing_addMergedShapes [growing_intros]: "growing (addMergedShapes a b)"
  by (auto simp: growing_def addMergedShapes_def op_simps grows_def)

lemma growing_dimsOf [growing_intros]: "growing (dimsOf s)"
  by (simp add: growing_def dimsOf_def)

lemma growing_Dim [growing_intros]: "growing (Dim s i)"
proof -
  have "growing (DimKnownRank s i)"
    by (auto simp: growing_def DimKnownRank_def split: option.splits)
  then show ?thesis unfolding Dim_def by (intro growing_intros)
qed

lemma growing_MergeDim [growing_intros]: "growing (MergeDim a b)"
  unfolding MergeDim_def by (intro growing_intros)

lemma growing_WithValue [growing_intros]: "growing (WithValue d n)"
  unfolding WithValue_def by (intro growing_intros)

lemma growing_mergeKnown [growing_intros]: "growing (mergeKnown s0 s1 ds0 ds1)"
  unfolding mergeKnown_def by (intro growing_intros)

lemma growing_MergeShape [growing_intros]: "growing (MergeShape s0 s1)"
  unfolding MergeShape_def by (intro growing_intros)

lemma growing_WithRank [growing_intros]: "growing (WithRank s r)" "growing (WithRankAtLeast s r)"
    "growing (WithRankAtMost s r)"
  unfolding WithRank_def WithRankAtLeast_def WithRankAtMost_def by (intro growing_intros)+

lemma growing_Concatenate [growing_intros]: "growing (Concatenate s0 s1)"
  unfolding Concatenate_def by (intro growing_intros)

lemma growing_SubshapeStride [growing_intros]: "growing (SubshapeStride s i j k)"
  unfolding SubshapeStride_def by (intro growing_intros)

lemma growing_Subshape [growing_intros]: "growing (SubshapeRange s i j)" "growing (SubshapeFrom s i)"
  unfolding SubshapeRange_def SubshapeFrom_def by (intro growing_intros)+

lemma growing_ReplaceDim [growing_intros]: "growing (ReplaceDim s i d)"
  unfolding ReplaceDim_def by (intro growing_intros)

lemma growing_arith [growing_intros]: "growing (Divide d e b)" "growing (Add d e)"
    "growing (Subtract d e)" "growing (Multiply d e)" "growing (Min d e)" "growing (Max d e)"
  unfolding Divide_def Add_def Subtract_def Multiply_def Min_def Max_def by (intro growing_intros)+

section \<open>What a successful merge says\<close>

definition denotes :: "dim_env \<Rightarrow> shape_env \<Rightarrow> shape \<Rightarrow> int list \<Rightarrow> bool" where
  "denotes v w s xs \<longleftrightarrow> (case s of None \<Rightarrow> False | Some a \<Rightarrow> w a = xs)"

lemma MergeDim_enforces:
  assumes run: "MergeDim d0 d1 c = (Inr d, c')" and m: "models c' v w"
    and val: "valid_dim c d0" "valid_dim c d1"
  shows "v d0 = v d1" and "v d = v d0"
proof -
  have mc: "models c v w" using grows_models growing_run[OF growing_MergeDim run] m by blast
  have agree: "agrees_dim c v d0" "agrees_dim c v d1"
    using mc val by (auto simp: models_def valid_dim_def)
  show "v d0 = v d1" "v d = v d0"
    using run agree m
    by (auto simp: MergeDim_def SameHandle_def op_simps addMergedDims_def agrees_dim_def
        models_def split: if_splits)
qed

lemma MergeDim_run:
  "MergeDim d0 d1 c =
    (if d0 = d1 then (Inr d0, c)
     else if DValue c d1 = kUnknownDim then (Inr d0, c\<lparr>merged_dims := merged_dims c @ [(d0, d1)]\<rparr>)
     else if DValue c d0 = kUnknownDim then (Inr d1, c\<lparr>merged_dims := merged_dims c @ [(d0, d1)]\<rparr>)
     else if DValue c d0 = DValue c d1 then (Inr d0, c)
     else (Inl (Status InvalidArgument), c))"
  by (simp add: MergeDim_def SameHandle_def op_simps addMergedDims_def)

definition compatible :: "int list \<Rightarrow> dim \<times> dim \<Rightarrow> bool" where
  "compatible vs = (\<lambda>(d0, d1). d0 = d1 \<or> vs ! d0 = kUnknownDim \<or> vs ! d1 = kUnknownDim \<or> vs ! d0 = vs ! d1)"

lemma mergeScan_compatible: "mergeScan c ps r0 r1 = None \<longleftrightarrow> \<not> list_all (compatible (all_dims c)) ps"
  by (induction c ps r0 r1 rule: mergeScan.induct)
    (auto simp: compatible_def SameHandle_def Value_def)

lemma mapOp_MergeDim_compatible:
  assumes "list_all (compatible (all_dims c)) ps"
  shows "\<exists>ds c'. mapOp (\<lambda>(d0, d1). checkOk (MergeDim d0 d1)) ps c = (Inr ds, c') \<and> all_shapes c' = all_shapes c"
  using assms
proof (induction ps arbitrary: c)
  case Nil
  then show ?case by (simp add: op_simps)
next
  case (Cons p ps)
  obtain d0 d1 where p: "p = (d0, d1)" by (cases p)
  have "d0 = d1 \<or> DValue c d0 = kUnknownDim \<or> DValue c d1 = kUnknownDim \<or> DValue c d0 = DValue c d1"
    using Cons.prems p by (auto simp: compatible_def Value_def)
  then have "\<exists>d c1. MergeDim d0 d1 c = (Inr d, c1) \<and> all_dims c1 = all_dims c \<and> all_shapes c1 = all_shapes c"
    by (auto simp: MergeDim_run)
  then obtain d c1 where m: "MergeDim d0 d1 c = (Inr d, c1)"
      and c1: "all_dims c1 = all_dims c" "all_shapes c1 = all_shapes c"
    by blast
  obtain ds c2 where "mapOp (\<lambda>(d0, d1). checkOk (MergeDim d0 d1)) ps c1 = (Inr ds, c2)" "all_shapes c2 = all_shapes c1"
    using Cons.IH[of c1] Cons.prems c1 by auto
  then show ?case using checkOk_Inr[of "MergeDim d0 d1", OF m] c1 p by (simp add: andThen_def ret_def)
qed

lemma MergeShape_status:
  assumes "MergeShape s0 s1 c = (Inl e, c')"
  shows "e = Status InvalidArgument \<and> c' = c"
proof -
  have k: "RankKnown c s0" "RankKnown c s1" "s0 \<noteq> s1"
    using assms by (auto simp: MergeShape_def SameHandle_def op_simps addMergedShapes_def split: if_splits)
  then obtain ds0 ds1 where ds: "shape_of c s0 = Some ds0" "shape_of c s1 = Some ds1"
    by (auto simp: RankKnown_iff)
  have run: "mergeKnown s0 s1 ds0 ds1 c = (Inl e, c')"
    using assms k ds by (simp add: MergeShape_def SameHandle_def op_simps dimsOf_def)
  show ?thesis
  proof (cases "length ds0 = length ds1 \<and> mergeScan c (zip ds0 ds1) True True \<noteq> None")
    case False
    then show ?thesis using run by (cases "length ds0 = length ds1"; cases "mergeScan c (zip ds0 ds1) True True")
        (auto simp: mergeKnown_def op_simps)
  next
    case True
    then obtain r0 r1 where scan: "mergeScan c (zip ds0 ds1) True True = Some (r0, r1)"
      by auto
    let ?c = "c\<lparr>merged_shapes := merged_shapes c @ [(s0, s1)]\<rparr>"
    have "list_all (compatible (all_dims ?c)) (zip ds0 ds1)"
      using scan mergeScan_compatible[of c "zip ds0 ds1" True True] by simp
    then obtain ds c2 where
      "mapOp (\<lambda>(d0, d1). checkOk (MergeDim d0 d1)) (zip ds0 ds1) ?c = (Inr ds, c2)"
      using mapOp_MergeDim_compatible by blast
    then have "\<exists>x c3. mergeKnown s0 s1 ds0 ds1 c = (Inr x, c3)"
      using True scan by (auto simp: mergeKnown_def op_simps addMergedShapes_def)
    then show ?thesis using run by auto
  qed
qed

lemma MergeShape_enforces:
  assumes run: "MergeShape (Some a) (Some b) c = (Inr s, c')" and m: "models c' v w"
  shows "models c v w" and "w a = w b" and "denotes v w s (w a)"
proof -
  show "models c v w" using grows_models growing_run[OF growing_MergeShape run] m by blast
  have ms: "same_shape w p" if "p \<in> set (merged_shapes c')" for p
    using m that by (simp add: models_def)
  have "s = Some a \<and> a = b \<or> s \<in> {Some a, Some b} \<and> (Some a, Some b) \<in> set (merged_shapes c') \<or>
      (Some a, Some b) \<in> set (merged_shapes c') \<and> (Some a, s) \<in> set (merged_shapes c') \<and> s \<noteq> None"
  proof (cases "a = b \<or> \<not> RankKnown c (Some a) \<or> \<not> RankKnown c (Some b)")
    case True
    then show ?thesis using run
      by (auto simp: MergeShape_def SameHandle_def op_simps addMergedShapes_def split: if_splits)
  next
    case False
    then obtain ds0 ds1 where ds: "shape_of c (Some a) = Some ds0" "shape_of c (Some b) = Some ds1"
      by (auto simp: RankKnown_iff)
    then have run: "mergeKnown (Some a) (Some b) ds0 ds1 c = (Inr s, c')"
      using run False by (simp add: MergeShape_def SameHandle_def op_simps dimsOf_def)
    then obtain r0 r1 where scan: "mergeScan c (zip ds0 ds1) True True = Some (r0, r1)"
      by (cases "mergeScan c (zip ds0 ds1) True True") (auto simp: mergeKnown_def op_simps split: if_splits)
    let ?c = "c\<lparr>merged_shapes := merged_shapes c @ [(Some a, Some b)]\<rparr>"
    show ?thesis
    proof (cases "r0 \<or> r1")
      case True
      then show ?thesis using run scan by (auto simp: mergeKnown_def op_simps addMergedShapes_def split: if_splits)
    next
      case False
      then have r: "andThen (mapOp (\<lambda>(d0, d1). checkOk (MergeDim d0 d1)) (zip ds0 ds1)) (\<lambda>dims.
             andThen (MakeShape dims) (\<lambda>out.
             andThen (addMergedShapes (Some a) out) (\<lambda>_. ret out))) ?c = (Inr s, c')"
        using run scan by (auto simp: mergeKnown_def op_simps addMergedShapes_def split: if_splits)
      then obtain ds c2 where c2: "mapOp (\<lambda>(d0, d1). checkOk (MergeDim d0 d1)) (zip ds0 ds1) ?c = (Inr ds, c2)"
        by (rule andThen_InrE)
      have "growing (mapOp (\<lambda>(d0, d1). checkOk (MergeDim d0 d1)) (zip ds0 ds1))"
        by (intro growing_intros)
      then have "grows ?c c2" using c2 growing_run by blast
      then show ?thesis using r c2 by (auto simp: op_simps addMergedShapes_def grows_def)
    qed
  qed
  then show "w a = w b" "denotes v w s (w a)"
    using ms[of "(Some a, Some b)"] ms[of "(Some a, s)"]
    by (auto simp: same_shape_def denotes_def split: option.splits)
qed

end
