(* ===== verification/TensorFormat.thy ===== *)
theory TensorFormat
  imports Prelude
begin

text \<open>
  Data formats of images and filters (\<open>util/tensor_format.h\<close>, \<open>util/tensor_format.cc\<close>):
  their names and the position of the batch, feature, spatial and vector dimensions. An
  index function that does not know a format stops the program (\<open>LOG(FATAL)\<close>). That
  the positions are a permutation of the indices is the interface \<open>layout\<close> of
  \<open>FormatShapes\<close>.
\<close>

section \<open>Formats and their names\<close>

datatype tensor_format =
    FORMAT_NHWC | FORMAT_NCHW | FORMAT_NCHW_VECT_C | FORMAT_NHWC_VECT_W | FORMAT_HWNC | FORMAT_HWCN

datatype filter_format = FORMAT_HWIO | FORMAT_OIHW | FORMAT_OHWI | FORMAT_OIHW_VECT_I

instantiation tensor_format :: enum
begin

definition enum_tensor_format :: "tensor_format list" where
  "enum_tensor_format =
     [FORMAT_NHWC, FORMAT_NCHW, FORMAT_NCHW_VECT_C, FORMAT_NHWC_VECT_W, FORMAT_HWNC, FORMAT_HWCN]"

definition enum_all_tensor_format :: "(tensor_format \<Rightarrow> bool) \<Rightarrow> bool" where
  "enum_all_tensor_format P \<longleftrightarrow> list_all P enum_class.enum"

definition enum_ex_tensor_format :: "(tensor_format \<Rightarrow> bool) \<Rightarrow> bool" where
  "enum_ex_tensor_format P \<longleftrightarrow> list_ex P enum_class.enum"

instance
proof
  show univ: "(UNIV :: tensor_format set) = set enum_class.enum"
    by (auto simp: enum_tensor_format_def intro: tensor_format.exhaust)
  show "distinct (enum_class.enum :: tensor_format list)"
    by (simp add: enum_tensor_format_def)
  show "enum_class.enum_all P \<longleftrightarrow> Ball UNIV P" for P :: "tensor_format \<Rightarrow> bool"
    by (simp add: univ enum_all_tensor_format_def list_all_iff)
  show "enum_class.enum_ex P \<longleftrightarrow> Bex UNIV P" for P :: "tensor_format \<Rightarrow> bool"
    by (simp add: univ enum_ex_tensor_format_def list_ex_iff)
qed

end

fun ToString :: "tensor_format \<Rightarrow> string" where
  "ToString FORMAT_NHWC = ''NHWC''"
| "ToString FORMAT_NCHW = ''NCHW''"
| "ToString FORMAT_NCHW_VECT_C = ''NCHW_VECT_C''"
| "ToString FORMAT_NHWC_VECT_W = ''NHWC_VECT_W''"
| "ToString FORMAT_HWNC = ''HWNC''"
| "ToString FORMAT_HWCN = ''HWCN''"

fun FilterToString :: "filter_format \<Rightarrow> string" where
  "FilterToString FORMAT_HWIO = ''HWIO''"
| "FilterToString FORMAT_OIHW = ''OIHW''"
| "FilterToString FORMAT_OHWI = ''OHWI''"
| "FilterToString FORMAT_OIHW_VECT_I = ''OIHW_VECT_I''"

text \<open>\<open>false\<close> (the format is left as it was) is \<open>None\<close>.\<close>

definition FormatFromString :: "string \<Rightarrow> tensor_format option" where
  "FormatFromString s =
    (if s = ''NHWC'' \<or> s = ''NDHWC'' then Some FORMAT_NHWC
     else if s = ''NCHW'' \<or> s = ''NCDHW'' then Some FORMAT_NCHW
     else if s = ''NCHW_VECT_C'' then Some FORMAT_NCHW_VECT_C
     else if s = ''NHWC_VECT_W'' then Some FORMAT_NHWC_VECT_W
     else if s = ''HWNC'' then Some FORMAT_HWNC
     else if s = ''HWCN'' then Some FORMAT_HWCN
     else None)"

definition FilterFormatFromString :: "string \<Rightarrow> filter_format option" where
  "FilterFormatFromString s =
    (if s = ''HWIO'' \<or> s = ''DHWIO'' then Some FORMAT_HWIO
     else if s = ''OIHW'' \<or> s = ''OIDHW'' then Some FORMAT_OIHW
     else if s = ''OIHW_VECT_I'' then Some FORMAT_OIHW_VECT_I
     else None)"

section \<open>Positions of the dimensions\<close>

fun GetTensorSpatialDims :: "int \<Rightarrow> tensor_format \<Rightarrow> int" where
  "GetTensorSpatialDims n FORMAT_NCHW_VECT_C = n - 3"
| "GetTensorSpatialDims n FORMAT_NHWC_VECT_W = n - 3"
| "GetTensorSpatialDims n _ = n - 2"

definition GetFilterTensorSpatialDims :: "int \<Rightarrow> filter_format \<Rightarrow> int" where
  "GetFilterTensorSpatialDims n f = (if f = FORMAT_OIHW_VECT_I then n - 3 else n - 2)"

fun GetTensorDimsFromSpatialDims :: "int \<Rightarrow> tensor_format \<Rightarrow> int" where
  "GetTensorDimsFromSpatialDims n FORMAT_NCHW_VECT_C = n + 3"
| "GetTensorDimsFromSpatialDims n FORMAT_NHWC_VECT_W = n + 3"
| "GetTensorDimsFromSpatialDims n _ = n + 2"

definition GetFilterTensorDimsFromSpatialDims :: "int \<Rightarrow> filter_format \<Rightarrow> int" where
  "GetFilterTensorDimsFromSpatialDims n f = (if f = FORMAT_OIHW_VECT_I then n + 3 else n + 2)"

fun GetTensorBatchDimIndex :: "int \<Rightarrow> tensor_format \<Rightarrow> int" where
  "GetTensorBatchDimIndex n FORMAT_HWNC = n - 2"
| "GetTensorBatchDimIndex n FORMAT_HWCN = n - 1"
| "GetTensorBatchDimIndex n _ = 0"

fun GetTensorFeatureDimIndex :: "int \<Rightarrow> tensor_format \<Rightarrow> int" where
  "GetTensorFeatureDimIndex n FORMAT_NHWC = n - 1"
| "GetTensorFeatureDimIndex n FORMAT_HWNC = n - 1"
| "GetTensorFeatureDimIndex n FORMAT_NHWC_VECT_W = n - 2"
| "GetTensorFeatureDimIndex n FORMAT_HWCN = n - 2"
| "GetTensorFeatureDimIndex n _ = 1"

definition GetTensorInnerFeatureDimIndex :: "int \<Rightarrow> tensor_format \<Rightarrow> int res" where
  "GetTensorInnerFeatureDimIndex n f =
     (if f = FORMAT_NCHW_VECT_C then Inr (n - 1) else Inl (Fault DCheckFailed))"

definition GetTensorInnerWidthDimIndex :: "int \<Rightarrow> tensor_format \<Rightarrow> int res" where
  "GetTensorInnerWidthDimIndex n f =
     (if f = FORMAT_NHWC_VECT_W then Inr (n - 1) else Inl (Fault DCheckFailed))"

definition GetTensorSpatialDimIndex :: "int \<Rightarrow> tensor_format \<Rightarrow> int \<Rightarrow> int res" where
  "GetTensorSpatialDimIndex n f spatial_dim =
    (if \<not> (0 \<le> spatial_dim \<and> spatial_dim < GetTensorSpatialDims n f) then Inl (Fault CheckFailed)
     else case f of
       FORMAT_NHWC \<Rightarrow> Inr (spatial_dim + 1)
     | FORMAT_NHWC_VECT_W \<Rightarrow> Inr (spatial_dim + 1)
     | FORMAT_NCHW \<Rightarrow> Inr (spatial_dim + 2)
     | FORMAT_NCHW_VECT_C \<Rightarrow> Inr (spatial_dim + 2)
     | FORMAT_HWNC \<Rightarrow> Inr spatial_dim
     | FORMAT_HWCN \<Rightarrow> Inr spatial_dim)"

definition GetFilterTensorSpatialDimIndex :: "int \<Rightarrow> filter_format \<Rightarrow> int \<Rightarrow> int res" where
  "GetFilterTensorSpatialDimIndex n f d =
    (if \<not> (0 \<le> d \<and> d < GetFilterTensorSpatialDims n f) then Inl (Fault CheckFailed)
     else case f of
       FORMAT_HWIO \<Rightarrow> Inr d
     | FORMAT_OIHW \<Rightarrow> Inr (d + 2)
     | FORMAT_OIHW_VECT_I \<Rightarrow> Inr (d + 2)
     | FORMAT_OHWI \<Rightarrow> Inl (Fault CheckFailed))"

definition GetFilterTensorInnerInputChannelsDimIndex :: "int \<Rightarrow> filter_format \<Rightarrow> int res" where
  "GetFilterTensorInnerInputChannelsDimIndex n f =
     (if f = FORMAT_OIHW_VECT_I then Inr (n - 1) else Inl (Fault DCheckFailed))"

fun GetFilterTensorInputChannelsDimIndex :: "int \<Rightarrow> filter_format \<Rightarrow> int res" where
  "GetFilterTensorInputChannelsDimIndex n FORMAT_HWIO = Inr (n - 2)"
| "GetFilterTensorInputChannelsDimIndex n FORMAT_OIHW = Inr 1"
| "GetFilterTensorInputChannelsDimIndex n FORMAT_OIHW_VECT_I = Inr 1"
| "GetFilterTensorInputChannelsDimIndex n FORMAT_OHWI = Inl (Fault CheckFailed)"

fun GetFilterTensorOutputChannelsDimIndex :: "int \<Rightarrow> filter_format \<Rightarrow> int res" where
  "GetFilterTensorOutputChannelsDimIndex n FORMAT_HWIO = Inr (n - 1)"
| "GetFilterTensorOutputChannelsDimIndex n FORMAT_OIHW = Inr 0"
| "GetFilterTensorOutputChannelsDimIndex n FORMAT_OIHW_VECT_I = Inr 0"
| "GetFilterTensorOutputChannelsDimIndex n FORMAT_OHWI = Inl (Fault CheckFailed)"

text \<open>
  \<open>GetTensorDimIndex<NUM_SPATIAL_DIMS>(format, dimension)\<close>: dimensions by letter. The
  cases of each \<open>switch\<close> are a table; a letter that is not in it is fatal.
\<close>

definition lookupDim :: "(char \<times> int) list \<Rightarrow> char \<Rightarrow> int res" where
  "lookupDim t d = (case map_of t d of None \<Rightarrow> Inl (Fault CheckFailed) | Some i \<Rightarrow> Inr i)"

fun dimIndexTable :: "int \<Rightarrow> tensor_format \<Rightarrow> (char \<times> int) list" where
  "dimIndexTable k FORMAT_NHWC =
     [(CHR ''N'', 0), (CHR ''0'', 1), (CHR ''1'', 2), (CHR ''2'', 3),
      (CHR ''H'', k - 1), (CHR ''W'', k), (CHR ''C'', k + 1)]"
| "dimIndexTable k FORMAT_NHWC_VECT_W =
     [(CHR ''N'', 0), (CHR ''0'', 1), (CHR ''1'', 2), (CHR ''2'', 3),
      (CHR ''H'', k - 1), (CHR ''W'', k), (CHR ''C'', k + 1)]"
| "dimIndexTable k FORMAT_NCHW =
     [(CHR ''N'', 0), (CHR ''C'', 1), (CHR ''0'', 2), (CHR ''1'', 3), (CHR ''2'', 4),
      (CHR ''H'', k), (CHR ''W'', k + 1)]"
| "dimIndexTable k FORMAT_NCHW_VECT_C =
     [(CHR ''N'', 0), (CHR ''C'', 1), (CHR ''0'', 2), (CHR ''1'', 3), (CHR ''2'', 4),
      (CHR ''H'', k), (CHR ''W'', k + 1)]"
| "dimIndexTable k FORMAT_HWNC =
     [(CHR ''0'', 0), (CHR ''1'', 1), (CHR ''2'', 2),
      (CHR ''H'', k - 2), (CHR ''W'', k - 1), (CHR ''N'', k), (CHR ''C'', k + 1)]"
| "dimIndexTable k FORMAT_HWCN =
     [(CHR ''0'', 0), (CHR ''1'', 1), (CHR ''2'', 2),
      (CHR ''H'', k - 2), (CHR ''W'', k - 1), (CHR ''C'', k), (CHR ''N'', k + 1)]"

definition GetTensorDimIndexN :: "int \<Rightarrow> tensor_format \<Rightarrow> char \<Rightarrow> int res" where
  "GetTensorDimIndexN k f d = lookupDim (dimIndexTable k f) d"

fun filterDimIndexTable :: "int \<Rightarrow> filter_format \<Rightarrow> (char \<times> int) list option" where
  "filterDimIndexTable k FORMAT_HWIO = Some
     [(CHR ''0'', 0), (CHR ''1'', 1), (CHR ''2'', 2),
      (CHR ''H'', k - 2), (CHR ''W'', k - 1), (CHR ''I'', k), (CHR ''O'', k + 1)]"
| "filterDimIndexTable k FORMAT_OHWI = None"
| "filterDimIndexTable k _ = Some
     [(CHR ''O'', 0), (CHR ''I'', 1), (CHR ''0'', 2), (CHR ''1'', 3), (CHR ''2'', 4),
      (CHR ''H'', k), (CHR ''W'', k + 1)]"

definition GetFilterDimIndexN :: "int \<Rightarrow> filter_format \<Rightarrow> char \<Rightarrow> int res" where
  "GetFilterDimIndexN k f d =
     (case filterDimIndexTable k f of None \<Rightarrow> Inl (Fault CheckFailed) | Some t \<Rightarrow> lookupDim t d)"

definition GetTensorDimIndex :: "tensor_format \<Rightarrow> char \<Rightarrow> int \<Rightarrow> int res" where
  "GetTensorDimIndex f d num_total_dims =
     bindR (if GetTensorSpatialDims num_total_dims f = 3 then GetTensorDimIndexN 3 f d
            else GetTensorDimIndexN 2 f d) (\<lambda>index.
     if 0 \<le> index \<and> index < num_total_dims then Inr index else Inl (Fault CheckFailed))"

definition GetTensorDim :: "'a list \<Rightarrow> tensor_format \<Rightarrow> char \<Rightarrow> 'a res" where
  "GetTensorDim attributes f d =
     bindR (GetTensorDimIndex f d (int (length attributes))) (vecAt attributes)"

definition GetFilterDim :: "'a list \<Rightarrow> filter_format \<Rightarrow> char \<Rightarrow> 'a res" where
  "GetFilterDim attributes f d =
     bindR (if GetFilterTensorSpatialDims (int (length attributes)) f = 3
            then GetFilterDimIndexN 3 f d else GetFilterDimIndexN 2 f d) (\<lambda>index.
     if 0 \<le> index \<and> index < int (length attributes) then vecAt attributes index
     else Inl (Fault CheckFailed))"

definition GetExplicitPaddingForDim :: "int list \<Rightarrow> tensor_format \<Rightarrow> char \<Rightarrow> (int \<times> int) res" where
  "GetExplicitPaddingForDim explicit_paddings f d =
     bindR (GetTensorDimIndex f d (int (length explicit_paddings div 2))) (\<lambda>index.
     bindR (vecAt explicit_paddings (2 * index)) (\<lambda>padding_before.
     bindR (vecAt explicit_paddings (2 * index + 1)) (\<lambda>padding_after.
     Inr (padding_before, padding_after))))"

end
