(* ===== verification/Windowed.thy ===== *)
theory Windowed
  imports Exact TensorFormat
begin

text \<open>
  Windowed operations: the padding attribute (\<open>util/padding.cc\<close>), the size a kernel
  computes (\<open>framework/kernel_shape_util.cc\<close>) and the size shape inference computes from
  dimensions (\<open>GetWindowedOutputSizeFromDimsV2\<close> of \<open>framework/common_shape_fns.cc\<close>, whose
  comment calls the two parallel implementations).
\<close>

section \<open>Padding\<close>

datatype padding = VALID | SAME | EXPLICIT

definition GetPaddingFromString :: "string \<Rightarrow> padding res" where
  "GetPaddingFromString s =
    (if s = ''SAME'' then Inr SAME
     else if s = ''VALID'' then Inr VALID
     else if s = ''EXPLICIT'' then Inr EXPLICIT
     else Inl (Status NotFound))"

definition CheckValidPadding :: "padding \<Rightarrow> int list \<Rightarrow> int \<Rightarrow> tensor_format \<Rightarrow> unit res" where
  "CheckValidPadding padding_type explicit_paddings num_dims data_format =
    (if padding_type = EXPLICIT then
       if int (length explicit_paddings) \<noteq> 2 * num_dims then Inl (Status InvalidArgument)
       else if list_ex (\<lambda>p. p < 0) explicit_paddings then Inl (Status InvalidArgument)
       else
         let b = GetTensorBatchDimIndex num_dims data_format;
             d = GetTensorFeatureDimIndex num_dims data_format
         in bindR (vecAt explicit_paddings (2 * b)) (\<lambda>b0. if b0 \<noteq> 0 then Inl (Status InvalidArgument) else
            bindR (vecAt explicit_paddings (2 * b + 1)) (\<lambda>b1. if b1 \<noteq> 0 then Inl (Status InvalidArgument) else
            bindR (vecAt explicit_paddings (2 * d)) (\<lambda>d0. if d0 \<noteq> 0 then Inl (Status InvalidArgument) else
            bindR (vecAt explicit_paddings (2 * d + 1)) (\<lambda>d1. if d1 \<noteq> 0 then Inl (Status InvalidArgument)
              else Inr ()))))
     else if explicit_paddings \<noteq> [] then Inl (Status InvalidArgument)
     else Inr ())"

section \<open>The size a kernel computes\<close>

text \<open>Signed arithmetic of \<open>int64_t\<close>: an overflow is undefined behaviour.\<close>

definition add64 :: "int \<Rightarrow> int \<Rightarrow> int res" where "add64 a b = signed64 (a + b)"
definition sub64 :: "int \<Rightarrow> int \<Rightarrow> int res" where "sub64 a b = signed64 (a - b)"
definition mul64 :: "int \<Rightarrow> int \<Rightarrow> int res" where "mul64 a b = signed64 (a * b)"

definition effectiveFilterSize :: "int \<Rightarrow> int \<Rightarrow> int res" where
  "effectiveFilterSize filter_size dilation_rate =
     bindR (sub64 filter_size 1) (\<lambda>f. bindR (mul64 f dilation_rate) (\<lambda>g. add64 g 1))"

text \<open>The result is \<open>(output_size, padding_before, padding_after)\<close>; the paddings passed in
  are read for \<open>EXPLICIT\<close> only.\<close>

definition GetWindowedOutputSizeVerbose ::
    "int \<Rightarrow> int \<Rightarrow> int \<Rightarrow> int \<Rightarrow> padding \<Rightarrow> int \<Rightarrow> int \<Rightarrow> (int \<times> int \<times> int) res" where
  "GetWindowedOutputSizeVerbose input_size filter_size dilation_rate stride padding_type pb pa =
    (if stride \<le> 0 then Inl (Status InvalidArgument)
     else if dilation_rate < 1 then Inl (Status InvalidArgument)
     else bindR (effectiveFilterSize filter_size dilation_rate) (\<lambda>eff.
       bindR (case padding_type of
           VALID \<Rightarrow>
             bindR (sub64 input_size eff) (\<lambda>a. bindR (add64 a stride) (\<lambda>b.
             Inr (cdiv b stride, 0, 0)))
         | EXPLICIT \<Rightarrow>
             bindR (add64 input_size pb) (\<lambda>a. bindR (add64 a pa) (\<lambda>b. bindR (sub64 b eff) (\<lambda>d.
             bindR (add64 d stride) (\<lambda>e.
             Inr (cdiv e stride, pb, pa)))))
         | SAME \<Rightarrow>
             bindR (add64 input_size stride) (\<lambda>a. bindR (sub64 a 1) (\<lambda>b.
             let output_size = cdiv b stride in
             bindR (sub64 output_size 1) (\<lambda>d. bindR (mul64 d stride) (\<lambda>e. bindR (add64 e eff) (\<lambda>f.
             bindR (sub64 f input_size) (\<lambda>g.
             let padding_needed = max 0 g; before = cdiv padding_needed 2 in
             Inr (output_size, before, padding_needed - before))))))))
       (\<lambda>(output_size, before, after).
       if output_size < 0 then Inl (Status InvalidArgument) else Inr (output_size, before, after))))"

text \<open>\<open>dilation_rate\<close> is an \<open>int\<close> here: the \<open>int64_t\<close> a caller passes is narrowed.\<close>

definition GetWindowedOutputSize ::
    "int \<Rightarrow> int \<Rightarrow> int \<Rightarrow> int \<Rightarrow> padding \<Rightarrow> (int \<times> int) res" where
  "GetWindowedOutputSize input_size filter_size dilation_rate stride padding_type =
    (if padding_type = EXPLICIT then Inl (Status Internal)
     else bindR (GetWindowedOutputSizeVerbose input_size filter_size (to_int32 dilation_rate) stride
                   padding_type 0 0) (\<lambda>(output_size, before, after). Inr (output_size, before)))"

text \<open>The arrays have three elements each; the result pairs sizes and paddings.\<close>

definition Get3dOutputSizeV2 ::
    "int list \<Rightarrow> int list \<Rightarrow> int list \<Rightarrow> int list \<Rightarrow> padding \<Rightarrow> (int \<times> int) list res" where
  "Get3dOutputSizeV2 insizes window dilations strides padding_type =
     mapR (\<lambda>(i, w, d, s). GetWindowedOutputSize i w d s padding_type)
       (zip insizes (zip window (zip dilations strides)))"

section \<open>The size shape inference computes\<close>

definition GetWindowedOutputSizeFromDimsV2 ::
    "dim \<Rightarrow> dim_or_const \<Rightarrow> int \<Rightarrow> int \<Rightarrow> padding \<Rightarrow> int \<Rightarrow> int \<Rightarrow> dim cop" where
  "GetWindowedOutputSizeFromDimsV2 input_size filter_size dilation_rate stride padding_type
      padding_before padding_after =
    (if stride \<le> 0 then failWith InvalidArgument
     else if dilation_rate < 1 then failWith InvalidArgument
     else case padding_type of
       SAME \<Rightarrow>
         andThen (Add input_size (Const (stride - 1))) (\<lambda>output_size.
         Divide output_size (Const stride) False)
     | _ \<Rightarrow>
         let (padding_before, padding_after) =
           (if padding_type = VALID then (0, 0) else (padding_before, padding_after)) in
         andThen (liftR (add64 padding_before padding_after)) (\<lambda>pad.
         andThen (Add input_size (Const pad)) (\<lambda>input_size.
         andThen
           (if dilation_rate > 1 then
              andThen (andThen (dimOrConst filter_size) (\<lambda>_. MakeDim filter_size)) (\<lambda>f.
              andThen (Subtract f (Const 1)) (\<lambda>window_size.
              andThen (Multiply window_size (Const dilation_rate)) (\<lambda>window_size.
              andThen (Add window_size (Const 1)) (\<lambda>window_size.
              Subtract input_size (Handle window_size)))))
            else Subtract input_size filter_size) (\<lambda>output_size.
         andThen (Add output_size (Const stride)) (\<lambda>output_size.
         Divide output_size (Const stride) False)))))"

definition GetWindowedOutputSizeFromDims ::
    "dim \<Rightarrow> dim_or_const \<Rightarrow> int \<Rightarrow> padding \<Rightarrow> dim cop" where
  "GetWindowedOutputSizeFromDims input_size filter_size stride padding_type =
    (if padding_type = EXPLICIT then failWith Internal
     else GetWindowedOutputSizeFromDimsV2 input_size filter_size 1 stride padding_type (- 1) (- 1))"

end
