(* ===== verification/TensorInput.thy ===== *)
theory TensorInput
  imports Exact
begin

text \<open>
  Shapes and dimensions read from constant input tensors
  (\<open>framework/shape_inference.cc\<close>): \<open>MakeShapeFromShapeTensor\<close> and its variants,
  \<open>GetScalarFromTensor\<close> and the dimensions made from scalars, and the conversion between
  handles and shape protos.
\<close>

section \<open>Scalars\<close>

definition tensor_rank :: "tensor \<Rightarrow> int" where
  "tensor_rank t = int (length (t_dims t))"

definition NumElementsOf :: "tensor \<Rightarrow> int" where
  "NumElementsOf t = int (length (t_vals t))"

text \<open>\<open>t->scalar<T>()()\<close>: the one element of a rank-0 tensor.\<close>

definition scalarOf :: "tensor \<Rightarrow> int res" where
  "scalarOf t = (case t_vals t of [x] \<Rightarrow> Inr x | _ \<Rightarrow> Inl (Fault CheckFailed))"

definition GetScalarFromTensor :: "tensor \<Rightarrow> int res" where
  "GetScalarFromTensor t =
    (if tensor_rank t \<noteq> 0 then Inl (Status InvalidArgument)
     else if t_dtype t \<in> {DT_INT16, DT_INT32, DT_INT64} then scalarOf t
     else Inl (Status InvalidArgument))"

definition GetScalarFromTensorAt :: "tensor \<Rightarrow> int \<Rightarrow> int res" where
  "GetScalarFromTensorAt t idx =
    (if tensor_rank t \<noteq> 1 then Inl (Status InvalidArgument)
     else if t_dtype t \<in> {DT_INT32, DT_INT64} then
       (if idx < 0 \<or> idx \<ge> NumElementsOf t then Inl (Status InvalidArgument) else vecAt (t_vals t) idx)
     else Inl (Status InvalidArgument))"

definition MakeDimForScalarInput :: "int \<Rightarrow> dim cop" where
  "MakeDimForScalarInput idx =
     andThen (input_tensor idx) (\<lambda>t.
     case t of
       None \<Rightarrow> UnknownDim
     | Some t \<Rightarrow>
         andThen (liftR (GetScalarFromTensor t)) (\<lambda>val.
         if val < 0 then failWith InvalidArgument else MakeDim (Const val)))"

definition MakeDimForScalarInputWithNegativeIndexing :: "int \<Rightarrow> int \<Rightarrow> dim cop" where
  "MakeDimForScalarInputWithNegativeIndexing idx input_rank =
     andThen (input_tensor idx) (\<lambda>t.
     case t of
       None \<Rightarrow> UnknownDim
     | Some t \<Rightarrow>
         andThen (liftR (GetScalarFromTensor t)) (\<lambda>val.
         if val < 0 then
           (if input_rank < 0 then UnknownDim
            else if val + input_rank < 0 then failWith InvalidArgument
            else MakeDim (Const (val + input_rank)))
         else if input_rank \<ge> 0 \<and> val \<ge> input_rank then failWith InvalidArgument
         else MakeDim (Const val)))"

section \<open>Shapes from tensors\<close>

text \<open>The loop over the elements: an element below -1 is an error, -1 an unknown dimension.\<close>

definition dimOfElement :: "int \<Rightarrow> dim cop" where
  "dimOfElement val = (if val < - 1 then failWith InvalidArgument else MakeDim (Const val))"

definition max_dimensions :: int where "max_dimensions = 33554432"

definition InternalMakeShapeFromTensor :: "bool \<Rightarrow> tensor option \<Rightarrow> shape \<Rightarrow> shape cop" where
  "InternalMakeShapeFromTensor treat_scalar_as_unknown t tensor_shape =
     andThen (if treat_scalar_as_unknown then ret tensor_shape else WithRank tensor_shape 1) (\<lambda>tensor_shape.
     case t of
       None \<Rightarrow>
         andThen (gets (\<lambda>c. Rank c tensor_shape)) (\<lambda>rank.
         if rank = 0 then UnknownShape
         else
           andThen (Dim tensor_shape 0) (\<lambda>shape_dim.
           andThen (gets (\<lambda>c. DValue c shape_dim)) (\<lambda>num_dims.
           if num_dims = kUnknownDim then UnknownShape
           else if num_dims \<ge> max_dimensions then failWith Internal
           else andThen (mapOp (\<lambda>_. UnknownDim) [0..<nat num_dims]) MakeShape)))
     | Some t \<Rightarrow>
         if tensor_rank t = 0 then
           (if t_dtype t \<in> {DT_INT32, DT_INT64} then
              andThen (liftR (scalarOf t)) (\<lambda>v.
              if v \<noteq> - 1 then failWith InvalidArgument else UnknownShape)
            else failWith InvalidArgument)
         else if tensor_rank t \<noteq> 1 then failWith InvalidArgument
         else if t_dtype t \<in> {DT_INT32, DT_INT64} then
           andThen (mapOp dimOfElement (t_vals t)) MakeShape
         else failWith InvalidArgument)"

definition MakeShapeFromTensor :: "tensor option \<Rightarrow> shape \<Rightarrow> shape cop" where
  "MakeShapeFromTensor t tensor_shape = InternalMakeShapeFromTensor False t tensor_shape"

text \<open>\<open>input_tensors_as_shapes_\<close> may be shorter than the inputs.\<close>

definition knownAsShape :: "ctx \<Rightarrow> int \<Rightarrow> shape option" where
  "knownAsShape c idx =
    (if 0 \<le> idx \<and> idx < int (length (input_tensors_as_shapes c)) then
       (let s = input_tensors_as_shapes c ! nat idx in if RankKnown c s then Some s else None)
     else None)"

definition shapeFromInputTensor :: "bool \<Rightarrow> int \<Rightarrow> shape \<Rightarrow> shape cop" where
  "shapeFromInputTensor treat_scalar_as_unknown input_idx input_shape =
     andThen (request_input_tensor_as_partial_shape input_idx) (\<lambda>_.
     andThen (gets (\<lambda>c. knownAsShape c input_idx)) (\<lambda>known.
     case known of
       Some s \<Rightarrow> ret s
     | None \<Rightarrow>
         andThen (input_tensor input_idx) (\<lambda>t.
         InternalMakeShapeFromTensor treat_scalar_as_unknown t input_shape)))"

definition MakeShapeFromShapeTensorTreatScalarAsUnknownShape :: "int \<Rightarrow> shape cop" where
  "MakeShapeFromShapeTensorTreatScalarAsUnknownShape input_idx =
     andThen (input input_idx) (\<lambda>s.
     andThen (WithRankAtMost s 1) (\<lambda>input_shape.
     shapeFromInputTensor True input_idx input_shape))"

definition MakeShapeFromShapeTensor :: "int \<Rightarrow> shape cop" where
  "MakeShapeFromShapeTensor input_idx =
     andThen (input input_idx) (\<lambda>s.
     andThen (WithRank s 1) (\<lambda>input_shape.
     shapeFromInputTensor False input_idx input_shape))"

section \<open>Shapes from partial tensor shapes, and back to protos\<close>

text \<open>What is known of a \<open>PartialTensorShape\<close>: its sizes, -1 for an unknown one, or no rank.\<close>

type_synonym partial_shape = "int list option"

definition MakeShapeFromPartialTensorShape :: "partial_shape \<Rightarrow> shape cop" where
  "MakeShapeFromPartialTensorShape p =
    (case p of
       None \<Rightarrow> UnknownShape
     | Some ds \<Rightarrow> andThen (mapOp (\<lambda>d. MakeDim (Const d)) ds) MakeShape)"

definition MakeShapeFromTensorShape :: "int list \<Rightarrow> shape cop" where
  "MakeShapeFromTensorShape dims = MakeShapeFromPartialTensorShape (Some dims)"

definition ShapeHandleToProto :: "ctx \<Rightarrow> shape \<Rightarrow> shape_proto" where
  "ShapeHandleToProto c s =
    (case shape_of c s of
       None \<Rightarrow> \<lparr>unknown_rank = True, dim_sizes = []\<rparr>
     | Some ds \<Rightarrow> \<lparr>unknown_rank = False,
         dim_sizes = map (\<lambda>d. if DKnown c d then DValue c d else - 1) ds\<rparr>)"

end
