(* ===== verification/BasicFns.thy ===== *)
theory BasicFns
  imports TensorInput
begin

text \<open>
  The first shape functions of \<open>framework/common_shape_fns.cc\<close> and its header: unchanged
  shapes, broadcasting of binary operations, matrix products and bias addition. A shape
  function is an operation on the context that ends by setting the outputs.
\<close>

section \<open>Reading attributes\<close>

definition GetAttr :: "(attrs \<Rightarrow> string \<Rightarrow> 'a res) \<Rightarrow> string \<Rightarrow> 'a cop" where
  "GetAttr get name = andThen (gets attrs) (\<lambda>as. liftR (get as name))"

text \<open>\<open>if (!c->GetAttr(name, &v).ok()) v = dflt;\<close>\<close>

definition GetAttrOr :: "(attrs \<Rightarrow> string \<Rightarrow> 'a res) \<Rightarrow> string \<Rightarrow> 'a \<Rightarrow> 'a cop" where
  "GetAttrOr get name dflt =
     andThen (tryStatus (GetAttr get name)) (\<lambda>r. ret (case r of Inl _ \<Rightarrow> dflt | Inr v \<Rightarrow> v))"

section \<open>Unchanged shapes\<close>

definition UnchangedShape :: "unit cop" where
  "UnchangedShape =
     andThen (input 0) (\<lambda>s.
     andThen (set_output 0 s) (\<lambda>_.
     andThen (input_handle_shapes_and_types_at 0) (\<lambda>handle_data.
     case handle_data of None \<Rightarrow> ret () | Some h \<Rightarrow> set_output_handle_shapes_and_types 0 h)))"

definition UnchangedShapeWithRank :: "int \<Rightarrow> unit cop" where
  "UnchangedShapeWithRank rank =
     andThen (input 0) (\<lambda>s. andThen (WithRank s rank) (set_output 0))"

definition UnchangedShapeWithRankAtLeast :: "int \<Rightarrow> unit cop" where
  "UnchangedShapeWithRankAtLeast rank =
     andThen (input 0) (\<lambda>s. andThen (WithRankAtLeast s rank) (set_output 0))"

definition UnchangedShapeWithRankAtMost :: "int \<Rightarrow> unit cop" where
  "UnchangedShapeWithRankAtMost rank =
     andThen (input 0) (\<lambda>s. andThen (WithRankAtMost s rank) (set_output 0))"

definition NoOutputs :: "unit cop" where
  "NoOutputs = ret ()"

definition ScalarShape :: "unit cop" where
  "ScalarShape = andThen Scalar (set_output 0)"

definition MergeBothInputsShapeFn :: "unit cop" where
  "MergeBothInputsShapeFn =
     andThen (input 0) (\<lambda>s0. andThen (input 1) (\<lambda>s1.
     andThen (MergeShape s0 s1) (set_output 0)))"

text \<open>\<open>shape_inference::UnknownShape(c)\<close> sets every output to a new unknown shape.\<close>

definition UnknownShapeFn :: "unit cop" where
  "UnknownShapeFn =
     andThen (gets num_outputs) (\<lambda>n.
     iterOp (\<lambda>i. andThen UnknownShape (set_output (int i))) [0..<nat n])"

section \<open>Broadcasting\<close>

text \<open>
  One step of the loop of \<open>BroadcastBinaryOpOutputShapeFnHelper\<close> over the padded pairs of
  dimensions. The loop goes on with a dimension (\<open>Inl\<close>) or the function returns a shape
  (\<open>Inr\<close>).
\<close>

definition bcastDim :: "bool \<Rightarrow> dim \<Rightarrow> dim \<Rightarrow> bool \<Rightarrow> (dim + shape) cop" where
  "bcastDim incompatible_shape_error dim_x dim_y dim_y_is_one =
     andThen (gets (\<lambda>c. (DValue c dim_x, DValue c dim_y))) (\<lambda>(vx, vy).
     if vx = kUnknownDim \<or> vy = kUnknownDim then
       (if vx > 1 then
          (if \<not> incompatible_shape_error then andThen UnknownShape (\<lambda>s. ret (Inr s)) else ret (Inl dim_x))
        else if vy > 1 then
          (if \<not> incompatible_shape_error then andThen UnknownShape (\<lambda>s. ret (Inr s)) else ret (Inl dim_y))
        else if vx = 1 then ret (Inl dim_y)
        else if vy = 1 then ret (Inl dim_x)
        else if SameHandle dim_y dim_x then ret (Inl dim_x)
        else if vx = kUnknownDim \<and> vy = kUnknownDim then andThen UnknownDim (\<lambda>d. ret (Inl d))
        else if \<not> incompatible_shape_error then andThen UnknownShape (\<lambda>s. ret (Inr s))
        else andThen UnknownDim (\<lambda>d. ret (Inl d)))
     else if vx = 1 \<or> vy = 1 then
       (if vx = 1 \<and> \<not> dim_y_is_one then ret (Inl dim_y)
        else andThen (checkThat (vy = 1) DCheckFailed) (\<lambda>_. ret (Inl dim_x)))
     else
       andThen (tryStatus (MergeDim dim_x dim_y)) (\<lambda>s.
       case s of
         Inl e \<Rightarrow>
           if \<not> incompatible_shape_error then andThen (MakeShapeOf []) (\<lambda>s. ret (Inr s)) else failWith e
       | Inr d \<Rightarrow> ret (Inl d)))"

primrec bcastLoop :: "bool \<Rightarrow> (dim \<times> dim \<times> bool) list \<Rightarrow> dim list \<Rightarrow> shape cop" where
  "bcastLoop err [] dims = MakeShape dims"
| "bcastLoop err (p # ps) dims =
     andThen (bcastDim err (fst p) (fst (snd p)) (snd (snd p))) (\<lambda>r.
     case r of Inl d \<Rightarrow> bcastLoop err ps (dims @ [d]) | Inr s \<Rightarrow> ret s)"

definition BroadcastBinaryOpOutputShapeFnHelper :: "shape \<Rightarrow> shape \<Rightarrow> bool \<Rightarrow> shape cop" where
  "BroadcastBinaryOpOutputShapeFnHelper shape_x shape_y incompatible_shape_error =
     andThen (gets (\<lambda>c. RankKnown c shape_x \<and> RankKnown c shape_y)) (\<lambda>known.
     if \<not> known then UnknownShape
     else
       andThen (dimsOf shape_x) (\<lambda>xs. andThen (dimsOf shape_y) (\<lambda>ys.
       let nx = length xs; ny = length ys; n = max nx ny in
       andThen (if nx \<noteq> ny then andThen (MakeDim (Const 1)) (\<lambda>d. ret (Some d)) else ret None) (\<lambda>dim_one.
       let pad = (case dim_one of None \<Rightarrow> 0 | Some d \<Rightarrow> d) in
       bcastLoop incompatible_shape_error
         (zip (replicate (n - nx) pad @ xs)
              (zip (replicate (n - ny) pad @ ys) (map (\<lambda>i. i < n - ny) [0..<n]))) []))))"

definition BroadcastBinaryOpOutputShapeFn :: "int \<Rightarrow> unit cop" where
  "BroadcastBinaryOpOutputShapeFn output_index =
     andThen (input 0) (\<lambda>x. andThen (input 1) (\<lambda>y.
     andThen (BroadcastBinaryOpOutputShapeFnHelper x y True) (set_output output_index)))"

definition BroadcastBinaryOpShapeFn :: "unit cop" where
  "BroadcastBinaryOpShapeFn = BroadcastBinaryOpOutputShapeFn 0"

section \<open>Matrix products\<close>

definition MatMulShape :: "unit cop" where
  "MatMulShape =
     andThen (input 0) (\<lambda>i0. andThen (WithRank i0 2) (\<lambda>a.
     andThen (input 1) (\<lambda>i1. andThen (WithRank i1 2) (\<lambda>b.
     andThen (GetAttr GetAttrBool ''transpose_a'') (\<lambda>transpose_a.
     andThen (GetAttr GetAttrBool ''transpose_b'') (\<lambda>transpose_b.
     andThen (if transpose_a then Dim a 1 else Dim a 0) (\<lambda>output_rows.
     andThen (if transpose_b then Dim b 0 else Dim b 1) (\<lambda>output_cols.
     andThen (if transpose_a then Dim a 0 else Dim a 1) (\<lambda>inner_a.
     andThen (if transpose_b then Dim b 1 else Dim b 0) (\<lambda>inner_b.
     andThen (MergeDim inner_a inner_b) (\<lambda>_.
     andThen (Matrix (Handle output_rows) (Handle output_cols)) (set_output 0))))))))))))"

definition BatchMatMulV2Shape :: "unit cop" where
  "BatchMatMulV2Shape =
     andThen (input 0) (\<lambda>i0. andThen (WithRankAtLeast i0 2) (\<lambda>a_shape.
     andThen (input 1) (\<lambda>i1. andThen (WithRankAtLeast i1 2) (\<lambda>b_shape.
     andThen (GetAttr GetAttrBool ''adj_x'') (\<lambda>adj_x.
     andThen (GetAttr GetAttrBool ''adj_y'') (\<lambda>adj_y.
     andThen (Dim a_shape (if adj_x then - 1 else - 2)) (\<lambda>output_rows.
     andThen (Dim b_shape (if adj_y then - 2 else - 1)) (\<lambda>output_cols.
     andThen (Dim a_shape (if adj_x then - 2 else - 1)) (\<lambda>inner_a.
     andThen (Dim b_shape (if adj_y then - 1 else - 2)) (\<lambda>inner_b.
     andThen (MergeDim inner_a inner_b) (\<lambda>_.
     andThen (SubshapeRange a_shape 0 (- 2)) (\<lambda>a_batch_shape.
     andThen (SubshapeRange b_shape 0 (- 2)) (\<lambda>b_batch_shape.
     andThen (BroadcastBinaryOpOutputShapeFnHelper a_batch_shape b_batch_shape True) (\<lambda>output_batch_shape.
     andThen (Matrix (Handle output_rows) (Handle output_cols)) (\<lambda>m.
     andThen (Concatenate output_batch_shape m) (set_output 0))))))))))))))))"

definition BatchMatMulShape :: "unit cop" where
  "BatchMatMulShape =
     andThen (input 0) (\<lambda>i0. andThen (WithRankAtLeast i0 2) (\<lambda>a_shape.
     andThen (input 1) (\<lambda>i1. andThen (WithRankAtLeast i1 2) (\<lambda>b_shape.
     andThen (GetAttr GetAttrBool ''adj_x'') (\<lambda>adj_x.
     andThen (GetAttr GetAttrBool ''adj_y'') (\<lambda>adj_y.
     andThen (Dim a_shape (if adj_x then - 1 else - 2)) (\<lambda>output_rows.
     andThen (Dim b_shape (if adj_y then - 2 else - 1)) (\<lambda>output_cols.
     andThen (SubshapeRange a_shape 0 (- 2)) (\<lambda>a_batch_dims.
     andThen (SubshapeRange b_shape 0 (- 2)) (\<lambda>b_batch_dims.
     andThen (MergeShape a_batch_dims b_batch_dims) (\<lambda>batch_dims.
     andThen (Dim a_shape (if adj_x then - 2 else - 1)) (\<lambda>inner_a.
     andThen (Dim b_shape (if adj_y then - 1 else - 2)) (\<lambda>inner_b.
     andThen (MergeDim inner_a inner_b) (\<lambda>_.
     andThen (Matrix (Handle output_rows) (Handle output_cols)) (\<lambda>m.
     andThen (Concatenate batch_dims m) (set_output 0))))))))))))))))"

section \<open>Bias\<close>

definition BiasAddShape :: "unit cop" where
  "BiasAddShape =
     andThen (tryStatus (GetAttr GetAttrString ''data_format'')) (\<lambda>data_format.
     let nchw = (data_format = Inr ''NCHW'') in
     andThen (input 0) (\<lambda>i0.
     andThen (if nchw then WithRankAtLeast i0 3 else WithRankAtLeast i0 2) (\<lambda>input_shape.
     andThen (input 1) (\<lambda>i1.
     andThen (WithRank i1 1) (\<lambda>bias_shape.
     andThen (Dim bias_shape 0) (\<lambda>bias_dim.
     andThen (gets (\<lambda>c. RankKnown c input_shape)) (\<lambda>known.
     if \<not> known then andThen UnknownShape (set_output 0)
     else if nchw then
       andThen (SubshapeRange input_shape 0 1) (\<lambda>first.
       andThen (SubshapeFrom input_shape 2) (\<lambda>last.
       andThen (Dim input_shape 1) (\<lambda>input_bias_dim.
       andThen (MergeDim input_bias_dim bias_dim) (\<lambda>merged_bias_dim.
       andThen (Vector (Handle merged_bias_dim)) (\<lambda>merged_bias.
       andThen (Concatenate first merged_bias) (\<lambda>temp.
       andThen (Concatenate temp last) (set_output 0)))))))
     else
       andThen (SubshapeRange input_shape 0 (- 1)) (\<lambda>all_but_bias.
       andThen (Dim input_shape (- 1)) (\<lambda>input_bias_dim.
       andThen (MergeDim input_bias_dim bias_dim) (\<lambda>merged_bias_dim.
       andThen (Vector (Handle merged_bias_dim)) (\<lambda>merged_bias.
       andThen (Concatenate all_but_bias merged_bias) (set_output 0))))))))))))"

definition BiasAddGradShape :: "unit cop" where
  "BiasAddGradShape =
     andThen (tryStatus (GetAttr GetAttrString ''data_format'')) (\<lambda>data_format.
     andThen (input 0) (\<lambda>i0.
     if data_format = Inr ''NCHW'' then
       andThen (WithRankAtLeast i0 3) (\<lambda>input_shape.
       andThen (Dim input_shape 1) (\<lambda>d.
       andThen (Vector (Handle d)) (set_output 0)))
     else
       andThen (WithRankAtLeast i0 2) (\<lambda>input_shape.
       andThen (Dim input_shape (- 1)) (\<lambda>d.
       andThen (Vector (Handle d)) (set_output 0)))))"

end
