(* ===== verification/ConvFns.thy ===== *)
theory ConvFns
  imports Windowed BasicFns
begin

text \<open>
  Shapes in a data format and the shape functions of convolutions
  (\<open>framework/common_shape_fns.cc\<close>, \<open>MakeShapeFromFormat\<close> to
  \<open>DepthwiseConv2DNativeShape\<close>).
\<close>

section \<open>Shapes by format\<close>

text \<open>
  A vector of dimension handles that is filled by index: a handle that was never set is
  \<open>None\<close>, and a shape made of it would hold a null pointer.
\<close>

definition vecSet :: "'a list \<Rightarrow> int \<Rightarrow> 'b \<Rightarrow> ('b \<Rightarrow> 'a) \<Rightarrow> 'a list res" where
  "vecSet xs i x f =
     (if 0 \<le> i \<and> i < int (length xs) then Inr (xs[nat i := f x]) else Inl (Fault OutOfBounds))"

definition setDim :: "dim option list \<Rightarrow> int \<Rightarrow> dim \<Rightarrow> dim option list res" where
  "setDim ds i d = vecSet ds i d Some"

primrec allSet :: "dim option list \<Rightarrow> dim list res" where
  "allSet [] = Inr []"
| "allSet (d # ds) = (case d of None \<Rightarrow> Inl (Fault NullDeref)
     | Some x \<Rightarrow> bindR (allSet ds) (\<lambda>xs. Inr (x # xs)))"

definition noDims :: "int \<Rightarrow> dim option list" where
  "noDims n = replicate (nat n) None"

primrec setDimsAt :: "(int \<Rightarrow> int res) \<Rightarrow> dim list \<Rightarrow> nat \<Rightarrow> dim option list \<Rightarrow> dim option list res" where
  "setDimsAt ix [] k ds = Inr ds"
| "setDimsAt ix (x # xs) k ds =
     bindR (ix (int k)) (\<lambda>i. bindR (setDim ds i x) (\<lambda>ds. setDimsAt ix xs (Suc k) ds))"

definition CheckFormatConstraintsOnShape :: "tensor_format \<Rightarrow> shape \<Rightarrow> unit cop" where
  "CheckFormatConstraintsOnShape tensor_format s =
    (if tensor_format = FORMAT_NCHW_VECT_C then
       andThen (gets (\<lambda>c. Rank c s)) (\<lambda>num_dims.
       andThen (liftR (GetTensorInnerFeatureDimIndex num_dims tensor_format)) (\<lambda>i.
       andThen (Dim s i) (\<lambda>vect_dim.
       andThen (gets (\<lambda>c. DValue c vect_dim)) (\<lambda>vect_dim_val.
       failUnless (vect_dim_val = 4 \<or> vect_dim_val = 32) InvalidArgument))))
     else ret ())"

text \<open>The spatial dimensions are made after the batch, feature and inner dimensions.\<close>

definition MakeShapeFromFormat ::
    "tensor_format \<Rightarrow> dim_or_const \<Rightarrow> dim_or_const list \<Rightarrow> dim_or_const \<Rightarrow> shape cop" where
  "MakeShapeFromFormat format N spatial C =
     andThen (iterOp dimOrConst (N # C # spatial)) (\<lambda>_.
     let num_dims = GetTensorDimsFromSpatialDims (int (length spatial)) format in
     andThen (MakeDim N) (\<lambda>n.
     andThen (liftR (setDim (noDims num_dims) (GetTensorBatchDimIndex num_dims format) n)) (\<lambda>ds.
     andThen (MakeDim C) (\<lambda>ch.
     andThen (liftR (setDim ds (GetTensorFeatureDimIndex num_dims format) ch)) (\<lambda>ds.
     andThen
       (if format = FORMAT_NCHW_VECT_C then
          andThen (MakeDim (Const 4)) (\<lambda>d.
          liftR (bindR (GetTensorInnerFeatureDimIndex num_dims format) (\<lambda>i. setDim ds i d)))
        else if format = FORMAT_NHWC_VECT_W then
          andThen (MakeDim (Const 4)) (\<lambda>d.
          liftR (bindR (GetTensorInnerWidthDimIndex num_dims format) (\<lambda>i. setDim ds i d)))
        else ret ds) (\<lambda>ds.
     andThen (mapOp MakeDim spatial) (\<lambda>sp.
     andThen (liftR (setDimsAt (GetTensorSpatialDimIndex num_dims format) sp 0 ds)) (\<lambda>ds.
     andThen (liftR (allSet ds)) MakeShape))))))))"

text \<open>The result is the batch, the spatial and the channel dimensions.\<close>

definition DimensionsFromShape :: "shape \<Rightarrow> tensor_format \<Rightarrow> nat \<Rightarrow> (dim \<times> dim list \<times> dim) cop" where
  "DimensionsFromShape s format num_spatial =
    (let rank = GetTensorDimsFromSpatialDims (int num_spatial) format in
     andThen (Dim s (GetTensorBatchDimIndex rank format)) (\<lambda>batch_dim.
     andThen (mapOp (\<lambda>k. andThen (liftR (GetTensorSpatialDimIndex rank format (int k))) (Dim s))
                [0..<num_spatial]) (\<lambda>spatial_dims.
     andThen (Dim s (GetTensorFeatureDimIndex rank format)) (\<lambda>filter_dim.
     if format = FORMAT_NCHW_VECT_C then
       andThen (liftR (GetTensorInnerFeatureDimIndex rank format)) (\<lambda>i.
       andThen (Dim s i) (\<lambda>inner.
       andThen (Multiply filter_dim (Handle inner)) (\<lambda>filter_dim.
       ret (batch_dim, spatial_dims, filter_dim))))
     else ret (batch_dim, spatial_dims, filter_dim)))))"

definition ShapeFromDimensions ::
    "dim \<Rightarrow> dim list \<Rightarrow> dim \<Rightarrow> tensor_format \<Rightarrow> dim option \<Rightarrow> shape cop" where
  "ShapeFromDimensions batch_dim spatial_dims filter_dim format vect_size =
    (let rank = GetTensorDimsFromSpatialDims (int (length spatial_dims)) format in
     andThen (liftR (setDim (noDims rank) (GetTensorBatchDimIndex rank format) batch_dim)) (\<lambda>ds.
     andThen (liftR (setDimsAt (GetTensorSpatialDimIndex rank format) spatial_dims 0 ds)) (\<lambda>ds.
     andThen
       (if format = FORMAT_NCHW_VECT_C then
          (case vect_size of
             None \<Rightarrow> faultWith CheckFailed
           | Some vs \<Rightarrow>
               andThen (Divide filter_dim (Handle vs) True) (\<lambda>q.
               liftR (bindR (setDim ds (GetTensorFeatureDimIndex rank format) q) (\<lambda>ds.
                      bindR (GetTensorInnerFeatureDimIndex rank format) (\<lambda>i. setDim ds i vs)))))
        else liftR (setDim ds (GetTensorFeatureDimIndex rank format) filter_dim)) (\<lambda>ds.
     andThen (liftR (allSet ds)) MakeShape))))"

section \<open>Attributes of convolutions\<close>

definition GetAttrPadding :: "attrs \<Rightarrow> string \<Rightarrow> padding res" where
  "GetAttrPadding as name = bindR (GetAttrString as name) GetPaddingFromString"

text \<open>A list attribute whose absence means the empty list; another error is returned.\<close>

definition GetAttrListOrEmpty :: "string \<Rightarrow> int list cop" where
  "GetAttrListOrEmpty name =
     andThen (tryStatus (GetAttr GetAttrInt64List name)) (\<lambda>r.
     case r of Inr v \<Rightarrow> ret v | Inl e \<Rightarrow> if e = NotFound then ret [] else failWith e)"

text \<open>\<open>-1\<close> unless the padding is explicit.\<close>

definition explicitPad :: "padding \<Rightarrow> int list \<Rightarrow> tensor_format \<Rightarrow> char \<Rightarrow> (int \<times> int) res" where
  "explicitPad padding explicit_paddings data_format d =
    (if padding = EXPLICIT then GetExplicitPaddingForDim explicit_paddings data_format d
     else Inr (- 1, - 1))"

text \<open>
  The check on channel counts that \<open>Conv2DShapeImpl\<close> and \<open>Conv3DShape\<close> share: the depth of
  the input is a multiple of the filter's, and the output depth one of the groups.
\<close>

definition checkDepths :: "dim \<Rightarrow> dim \<Rightarrow> dim \<Rightarrow> unit cop" where
  "checkDepths input_depth_dim filter_input_depth_dim output_depth_dim =
     andThen (gets (\<lambda>c. (DValue c input_depth_dim, DValue c filter_input_depth_dim, DValue c output_depth_dim)))
       (\<lambda>(i, f, out).
     if i \<noteq> kUnknownDim \<and> f \<noteq> kUnknownDim then
       (if f = 0 then failWith InvalidArgument
        else if cmod i f \<noteq> 0 then failWith InvalidArgument
        else if i \<noteq> f then
          (let num_groups = cdiv i f in
           if out \<noteq> kUnknownDim then
             (if num_groups = 0 then failWith InvalidArgument
              else if cmod out num_groups \<noteq> 0 then failWith InvalidArgument
              else ret ())
           else ret ())
        else ret ())
     else ret ())"

section \<open>Conv2D\<close>

definition conv2DPaddings :: "bool \<Rightarrow> tensor_format \<Rightarrow> (padding \<times> int list) cop" where
  "conv2DPaddings supports_explicit_padding data_format =
     andThen (GetAttr GetAttrPadding ''padding'') (\<lambda>padding.
     if supports_explicit_padding then
       andThen (GetAttrListOrEmpty ''explicit_paddings'') (\<lambda>explicit_paddings.
       andThen (liftR (CheckValidPadding padding explicit_paddings 4 data_format)) (\<lambda>_.
       ret (padding, explicit_paddings)))
     else if padding = EXPLICIT then failWith InvalidArgument
     else
       andThen (tryStatus (GetAttr GetAttrInt64List ''padding_list'')) (\<lambda>r.
       case r of
         Inl e \<Rightarrow> if e = NotFound then ret (padding, []) else failWith e
       | Inr p_list \<Rightarrow>
           if p_list \<noteq> [] then
             andThen (liftR (CheckValidPadding EXPLICIT p_list 4 data_format)) (\<lambda>_.
             ret (EXPLICIT, p_list))
           else ret (padding, [])))"

definition Conv2DShapeImpl :: "bool \<Rightarrow> unit cop" where
  "Conv2DShapeImpl supports_explicit_padding =
     andThen (GetAttrOr GetAttrString ''data_format'' ''NHWC'') (\<lambda>data_format_str.
     andThen (GetAttrOr GetAttrString ''filter_format''
       (if data_format_str = ''NCHW_VECT_C'' then ''OIHW_VECT_I'' else ''HWIO'')) (\<lambda>filter_format_str.
     case FormatFromString data_format_str of None \<Rightarrow> failWith InvalidArgument | Some data_format \<Rightarrow>
     case FilterFormatFromString filter_format_str of None \<Rightarrow> failWith InvalidArgument | Some filter_format \<Rightarrow>
     let rank = GetTensorDimsFromSpatialDims 2 data_format in
     andThen (input 0) (\<lambda>i0. andThen (WithRank i0 rank) (\<lambda>conv_input_shape.
     andThen (CheckFormatConstraintsOnShape data_format conv_input_shape) (\<lambda>_.
     andThen (input 1) (\<lambda>i1. andThen (WithRank i1 rank) (\<lambda>filter_shape.
     andThen (CheckFormatConstraintsOnShape data_format filter_shape) (\<lambda>_.
     andThen (GetAttr GetAttrInt32List ''dilations'') (\<lambda>dilations.
     andThen (failUnless (length dilations = 4) InvalidArgument) (\<lambda>_.
     andThen (GetAttr GetAttrInt32List ''strides'') (\<lambda>strides.
     andThen (failUnless (length strides = 4) InvalidArgument) (\<lambda>_.
     andThen (liftR (GetTensorDim strides data_format CHR ''H'')) (\<lambda>stride_rows.
     andThen (liftR (GetTensorDim strides data_format CHR ''W'')) (\<lambda>stride_cols.
     andThen (liftR (GetTensorDim dilations data_format CHR ''H'')) (\<lambda>dilation_rows.
     andThen (liftR (GetTensorDim dilations data_format CHR ''W'')) (\<lambda>dilation_cols.
     andThen (DimensionsFromShape conv_input_shape data_format 2)
       (\<lambda>(batch_size_dim, input_spatial_dims, input_depth_dim).
     andThen (andThen (liftR (GetFilterDimIndexN 2 filter_format CHR ''O'')) (Dim filter_shape)) (\<lambda>output_depth_dim.
     andThen (andThen (liftR (GetFilterDimIndexN 2 filter_format CHR ''H'')) (Dim filter_shape)) (\<lambda>filter_rows_dim.
     andThen (andThen (liftR (GetFilterDimIndexN 2 filter_format CHR ''W'')) (Dim filter_shape)) (\<lambda>filter_cols_dim.
     andThen (andThen (liftR (GetFilterDimIndexN 2 filter_format CHR ''I'')) (Dim filter_shape)) (\<lambda>filter_i.
     andThen
       (if filter_format = FORMAT_OIHW_VECT_I then
          andThen (andThen (liftR (GetFilterTensorInnerInputChannelsDimIndex rank filter_format)) (Dim filter_shape))
            (\<lambda>inner. Multiply filter_i (Handle inner))
        else ret filter_i) (\<lambda>filter_input_depth_dim.
     andThen (checkDepths input_depth_dim filter_input_depth_dim output_depth_dim) (\<lambda>_.
     andThen (conv2DPaddings supports_explicit_padding data_format) (\<lambda>(padding, explicit_paddings).
     andThen (liftR (explicitPad padding explicit_paddings data_format CHR ''H'')) (\<lambda>(rows_before, rows_after).
     andThen (liftR (explicitPad padding explicit_paddings data_format CHR ''W'')) (\<lambda>(cols_before, cols_after).
     andThen (GetWindowedOutputSizeFromDimsV2 (input_spatial_dims ! 0) (Handle filter_rows_dim)
       dilation_rows stride_rows padding rows_before rows_after) (\<lambda>output_rows.
     andThen (GetWindowedOutputSizeFromDimsV2 (input_spatial_dims ! 1) (Handle filter_cols_dim)
       dilation_cols stride_cols padding cols_before cols_after) (\<lambda>output_cols.
     andThen
       (if data_format = FORMAT_NCHW_VECT_C then
          andThen (andThen (liftR (GetTensorInnerFeatureDimIndex rank data_format)) (Dim conv_input_shape))
            (\<lambda>d. ret (Some d))
        else ret None) (\<lambda>vect_size.
     andThen (ShapeFromDimensions batch_size_dim [output_rows, output_cols] output_depth_dim data_format vect_size)
       (set_output 0))))))))))))))))))))))))))))))"

definition Conv2DShapeWithExplicitPadding :: "unit cop" where
  "Conv2DShapeWithExplicitPadding = Conv2DShapeImpl True"

definition Conv2DShape :: "unit cop" where
  "Conv2DShape = Conv2DShapeImpl False"

end
