(* ===== verification/Facts.thy ===== *)
theory Facts
  imports Exact
begin

text \<open>
  A layer over the \<open>wp\<close> rules for the proofs of whole shape functions. What is known of a
  run at a point of the program is a list of facts: the size of a dimension handle, the
  sizes of a shape handle, and whether the context knows them; a fact stays true until the
  end. Each operation has one rule that adds the fact about its result, so that the
  proof of a shape function follows its text.
\<close>

section \<open>What the context knows\<close>

definition known_dim :: "world \<Rightarrow> dim \<Rightarrow> bool" where
  "known_dim W d \<longleftrightarrow> DKnown (ctx_of W) d"

definition known_shape :: "world \<Rightarrow> shape \<Rightarrow> bool" where
  "known_shape W s \<longleftrightarrow> FullyDefined (ctx_of W) s"

lemma known_shape_iff:
  "known_shape W s \<longleftrightarrow> (\<exists>ds. shape_of (ctx_of W) s = Some ds \<and> list_all (known_dim W) ds)"
  by (auto simp: known_shape_def known_dim_def[abs_def] FullyDefined_def split: option.splits)

lemma known_shape_rank: "known_shape W s \<Longrightarrow> rank_known W s"
  by (auto simp: known_shape_iff rank_known_shape_of)

lemma step_known_dim [stable]:
  assumes "step W W'" "has_dim W d n" "known_dim W d"
  shows "known_dim W' d"
proof -
  obtain c v w c' v' w' where W: "W = World c v w" "W' = World c' v' w'" by (metis world.exhaust)
  have "all_dims c' ! d = all_dims c ! d"
    using assms W extends_nth(1)[of c c' d] by (auto simp: step_def has_dim_def valid_dim_def)
  then show ?thesis using assms(3) W by (simp add: known_dim_def ValueKnown_def Value_def)
qed

lemma step_known_shape [stable]:
  assumes "step W W'" "has_shape W s xs" "known_shape W s"
  shows "known_shape W' s"
proof -
  obtain c v w c' v' w' where W: "W = World c v w" "W' = World c' v' w'" by (metis world.exhaust)
  obtain ds where ds: "shape_of c s = Some ds" "list_all (known_dim W) ds"
    using assms(3) W by (auto simp: known_shape_iff)
  have "shape_of c' s = Some ds"
    using assms W ds has_shape_valid extends_shape_of[of c c' s] by (auto simp: step_def)
  moreover have "has_dims W ds xs"
    using has_shape_known[OF good_step0[OF assms(1)] assms(2)] ds W by simp
  then have "list_all (known_dim W') ds"
    using ds(2) step_known_dim[OF assms(1)] by (auto simp: has_dims_def list_all2_conv_all_nth list_all_length)
  ultimately show ?thesis using W by (auto simp: known_shape_iff)
qed

lemma known_dim_value: "good W \<Longrightarrow> has_dim W d n \<Longrightarrow> known_dim W d \<Longrightarrow> DValue (ctx_of W) d = n"
  using has_dim_value by (auto simp: known_dim_def ValueKnown_def)

lemma known_dim_iff: "known_dim W d \<longleftrightarrow> DValue (ctx_of W) d \<noteq> kUnknownDim"
  by (simp add: known_dim_def ValueKnown_def)

text \<open>A result that \<open>m\<close> computes in one run has every property of that run.\<close>

lemma wp_run:
  assumes "wp m Q W" and "\<And>x c'. m (ctx_of W) = (Inr x, c') \<Longrightarrow> R x c'"
  shows "wp m (\<lambda>x W'. Q x W' \<and> R x (ctx_of W')) W"
  using assms unfolding wp_def by blast

lemma wp_runW:
  assumes "wp m Q W" and "\<And>x W'. m (ctx_of W) = (Inr x, ctx_of W') \<Longrightarrow> Q x W' \<Longrightarrow> R x W'"
  shows "wp m R W"
  using assms unfolding wp_def by blast

lemma wp_dimsOf: "shape_of (ctx_of W) s = Some ds \<Longrightarrow> wp (andThen (dimsOf s) f) Q W \<longleftrightarrow> wp (f ds) Q W"
  by (simp add: wp_def dimsOf_def andThen_def)

section \<open>Facts\<close>

datatype fact = DimIs dim int bool | ShapeIs shape "int list" bool | Ranked shape | From world

primrec holds :: "world \<Rightarrow> fact \<Rightarrow> bool" where
  "holds W (DimIs d n k) = (has_dim W d n \<and> (k \<longrightarrow> known_dim W d))"
| "holds W (ShapeIs s xs k) = (has_shape W s xs \<and> (k \<longrightarrow> known_shape W s))"
| "holds W (Ranked s) = (rank_known W s \<and> (\<exists>xs. has_shape W s xs))"
| "holds W (From W0) = quiet W0 W"

definition know :: "fact list \<Rightarrow> world \<Rightarrow> bool" where
  "know \<Gamma> W \<longleftrightarrow> good W \<and> list_all (holds W) \<Gamma>"

lemma quiet_holds: "quiet W W' \<Longrightarrow> holds W f \<Longrightarrow> holds W' f"
  by (cases f) (auto dest: quiet_step step_has_dim step_known_dim step_has_shape step_known_shape
      step_rank_known quiet_trans)

lemma know_quiet: "quiet W W' \<Longrightarrow> know \<Gamma> W \<Longrightarrow> know \<Gamma> W'"
  by (auto simp: know_def list_all_iff intro: quiet_holds good_quiet)

lemma know_good: "know \<Gamma> W \<Longrightarrow> good W"
  by (simp add: know_def)

lemma know_fact: "know \<Gamma> W \<Longrightarrow> f \<in> set \<Gamma> \<Longrightarrow> holds W f"
  by (auto simp: know_def list_all_iff)

lemma know_dim: "know \<Gamma> W \<Longrightarrow> DimIs d n k \<in> set \<Gamma> \<Longrightarrow> has_dim W d n \<and> (k \<longrightarrow> known_dim W d)"
  using know_fact[of \<Gamma> W "DimIs d n k"] by simp

lemma know_shape: "know \<Gamma> W \<Longrightarrow> ShapeIs s xs k \<in> set \<Gamma> \<Longrightarrow> has_shape W s xs \<and> (k \<longrightarrow> known_shape W s)"
  using know_fact[of \<Gamma> W "ShapeIs s xs k"] by simp

lemma know_rank: "know \<Gamma> W \<Longrightarrow> Ranked s \<in> set \<Gamma> \<Longrightarrow> rank_known W s"
  using know_fact[of \<Gamma> W "Ranked s"] by simp

lemma know_from: "know \<Gamma> W \<Longrightarrow> From W0 \<in> set \<Gamma> \<Longrightarrow> quiet W0 W"
  using know_fact[of \<Gamma> W "From W0"] by simp

lemma know_Cons: "know (f # \<Gamma>) W \<longleftrightarrow> holds W f \<and> know \<Gamma> W"
  by (auto simp: know_def)

lemma know_start: "good W \<Longrightarrow> know [From W] W"
  by (simp add: know_def quiet_refl)

text \<open>Looking a fact up: the newest one about the handle.\<close>

lemma fact_here: "f \<in> set (f # \<Gamma>)"
  by simp

lemma fact_there: "f \<in> set \<Gamma> \<Longrightarrow> f \<in> set (g # \<Gamma>)"
  by simp

lemmas fact_look = fact_here fact_there

text \<open>The one composition rule: run \<open>m\<close>, keep the facts, add those about its result.\<close>

lemma know_bind:
  assumes "know \<Gamma> W"
    and "wp m (\<lambda>x W'. quiet W W' \<and> list_all (holds W') (\<Delta> x)) W"
    and "\<And>x W'. know (\<Delta> x @ \<Gamma>) W' \<Longrightarrow> wp (f x) Q W'"
  shows "wp (andThen m f) Q W"
proof (rule wp_seq[OF assms(2)])
  fix x W'
  assume "quiet W W' \<and> list_all (holds W') (\<Delta> x)"
  then have "know (\<Delta> x @ \<Gamma>) W'" using know_quiet[OF _ assms(1)] by (auto simp: know_def)
  then show "wp (f x) Q W'" by (rule assms(3))
qed

lemma know_last:
  assumes "know \<Gamma> W"
    and "wp m (\<lambda>x W'. quiet W W' \<and> list_all (holds W') (\<Delta> x)) W"
    and "\<And>x W'. know (\<Delta> x @ \<Gamma>) W' \<Longrightarrow> Q x W'"
  shows "wp m Q W"
proof (rule wp_mono[OF assms(2)])
  fix x W'
  assume "quiet W W' \<and> list_all (holds W') (\<Delta> x)"
  then have "know (\<Delta> x @ \<Gamma>) W'" using know_quiet[OF _ assms(1)] by (auto simp: know_def)
  then show "Q x W'" by (rule assms(3))
qed

section \<open>Operations that keep what is known\<close>

text \<open>The flags of the arguments are schematic: a rule applies whatever is known.\<close>

abbreviation gives :: "'a cop \<Rightarrow> ('a \<Rightarrow> fact list) \<Rightarrow> world \<Rightarrow> bool" where
  "gives m \<Delta> W \<equiv> wp m (\<lambda>x W'. quiet W W' \<and> list_all (holds W') (\<Delta> x)) W"

lemma MergeDim_known:
  "MergeDim d0 d1 c = (Inr d, c') \<Longrightarrow> DKnown c d0 \<or> DKnown c d1 \<Longrightarrow> DKnown c' d"
  by (auto simp: MergeDim_run ValueKnown_def Value_def split: if_splits)

lemma MergeDim_gives:
  assumes "know \<Gamma> W" "DimIs d0 n k0 \<in> set \<Gamma>" "DimIs d1 n' k1 \<in> set \<Gamma>" "n' = n"
  shows "gives (MergeDim d0 d1) (\<lambda>d. [DimIs d n (k0 \<or> k1)]) W"
proof -
  have d: "has_dim W d0 n" "has_dim W d1 n" and k: "k0 \<longrightarrow> known_dim W d0" "k1 \<longrightarrow> known_dim W d1"
    using assms know_dim by blast+
  have "wp (MergeDim d0 d1) (\<lambda>d W'. (quiet W W' \<and> has_dim W' d n) \<and> (k0 \<or> k1 \<longrightarrow> DKnown (ctx_of W') d)) W"
    by (rule wp_run[OF MergeDim_wp[OF know_good[OF assms(1)] d]])
      (use k in \<open>auto simp: known_dim_def dest: MergeDim_known\<close>)
  then show ?thesis by (rule wp_mono) (auto simp: known_dim_def)
qed

lemma Dim_gives:
  assumes "know \<Gamma> W" "ShapeIs s xs k \<in> set \<Gamma>" "- int (length xs) \<le> i \<and> i < int (length xs)"
  shows "gives (Dim s i) (\<lambda>d. [DimIs d (xs ! pyIndex i (length xs)) k]) W"
proof -
  have s: "has_shape W s xs" and k: "k \<longrightarrow> known_shape W s" using assms know_shape by blast+
  note g = know_good[OF assms(1)]
  have dk: "DKnown c' d" if k: "k" and run: "Dim s i (ctx_of W) = (Inr d, c')" for d c'
  proof -
    obtain ds where ds: "shape_of (ctx_of W) s = Some ds" "list_all (known_dim W) ds"
      using k \<open>k \<longrightarrow> known_shape W s\<close> by (auto simp: known_shape_iff)
    then have "d \<in> set ds \<and> c' = ctx_of W" using run by (auto simp: Dim_known vecAt_def split: if_splits)
    then show ?thesis using ds(2) by (auto simp: list_all_iff known_dim_def)
  qed
  have "wp (Dim s i) (\<lambda>d W'. (quiet W W' \<and> has_dim W' d (xs ! pyIndex i (length xs)) \<and>
      (rank_known W s \<longrightarrow> W' = W)) \<and> (k \<longrightarrow> DKnown (ctx_of W') d)) W"
    by (rule wp_run[OF Dim_wp[OF g s]]) (use assms(3) dk in auto)
  then show ?thesis by (rule wp_mono) (auto simp: known_dim_def)
qed

lemma MakeShape_gives:
  assumes "know \<Gamma> W" "has_dims W ds xs" "k \<longrightarrow> list_all (known_dim W) ds"
  shows "gives (MakeShape ds) (\<lambda>s. [ShapeIs s xs k, Ranked s]) W"
proof (rule wp_runW[OF MakeShape_wp[OF know_good[OF assms(1)] assms(2)]])
  fix s W'
  assume run: "MakeShape ds (ctx_of W) = (Inr s, ctx_of W')"
    and post: "quiet W W' \<and> has_shape W' s xs \<and> rank_known W' s"
  have "shape_of (ctx_of W') s = Some ds" "all_dims (ctx_of W') = all_dims (ctx_of W)"
    using run by (auto simp: op_simps shape_of_def dest!: sym[of _ "ctx_of W'"])
  then have "known_shape W' s" if k
    using assms(3) that by (auto simp: known_shape_iff known_dim_def ValueKnown_def Value_def list_all_iff)
  then show "quiet W W' \<and> list_all (holds W') [ShapeIs s xs k, Ranked s]" using post by auto
qed

lemma MakeShapeOf_Handles: "MakeShapeOf (map Handle ds) = MakeShape ds"
proof -
  have "iterOp dimOrConst (map Handle ds) c = (Inr (), c)" for c
    by (induction ds) (simp_all add: op_simps andThen_def)
  moreover have "mapOp MakeDim (map Handle ds) c = (Inr ds, c)" for c
    by (induction ds) (simp_all add: op_simps andThen_def)
  ultimately show ?thesis by (rule_tac ext) (simp add: MakeShapeOf_def andThen_def)
qed

lemma Matrix_gives:
  assumes "know \<Gamma> W" "DimIs d0 m k0 \<in> set \<Gamma>" "DimIs d1 n k1 \<in> set \<Gamma>"
  shows "gives (Matrix (Handle d0) (Handle d1)) (\<lambda>s. [ShapeIs s [m, n] (k0 \<and> k1), Ranked s]) W"
  using MakeShape_gives[OF assms(1), of "[d0, d1]" "[m, n]" "k0 \<and> k1"] know_dim[OF assms(1,2)]
    know_dim[OF assms(1,3)] MakeShapeOf_Handles[of "[d0, d1]"]
  by (simp add: Matrix_def)

lemma Vector_gives:
  assumes "know \<Gamma> W" "DimIs d n k \<in> set \<Gamma>"
  shows "gives (Vector (Handle d)) (\<lambda>s. [ShapeIs s [n] k, Ranked s]) W"
  using MakeShape_gives[OF assms(1), of "[d]" "[n]" k] know_dim[OF assms(1,2)] MakeShapeOf_Handles[of "[d]"]
  by (simp add: Vector_def)

lemma Scalar_gives:
  assumes "know \<Gamma> W"
  shows "gives Scalar (\<lambda>s. [ShapeIs s [] True, Ranked s]) W"
  using MakeShape_gives[OF assms(1), of "[]" "[]" True] MakeShapeOf_Handles[of "[]"] by (simp add: Scalar_def)

lemma UnknownDim_gives:
  assumes "know \<Gamma> W" "is_size n"
  shows "gives UnknownDim (\<lambda>d. [DimIs d n False]) W"
  using UnknownDim_wp[OF know_good[OF assms(1)] assms(2)] by (rule wp_mono) auto

lemma UnknownShape_gives:
  assumes "know \<Gamma> W" "list_all is_size xs"
  shows "gives UnknownShape (\<lambda>s. [ShapeIs s xs False]) W"
  using UnknownShape_wp[OF know_good[OF assms(1)] assms(2)] by (rule wp_mono) auto

lemma MakeDim_Const_gives:
  assumes "know \<Gamma> W" "is_size n"
  shows "gives (MakeDim (Const n)) (\<lambda>d. [DimIs d n True]) W"
proof (rule wp_runW[OF MakeDim_wp[OF know_good[OF assms(1)], of "Const n" n]])
  show "has_doc W (Const n) n" using assms(2) by simp
next
  fix d W'
  assume "MakeDim (Const n) (ctx_of W) = (Inr d, ctx_of W')" "quiet W W' \<and> has_dim W' d n"
  moreover have "- 1 \<le> n \<and> n \<noteq> - 1" using assms(2) by (simp add: is_size_def)
  ultimately show "quiet W W' \<and> list_all (holds W') [DimIs d n True]"
    by (auto simp: op_simps known_dim_iff Value_def dest!: sym[of _ "ctx_of W'"])
qed

end
