(* ===== verification/ContextLife.thy ===== *)
theory ContextLife
  imports TensorInput "HOL-Library.AList"
begin

text \<open>
  The life of an \<open>InferenceContext\<close> (\<open>framework/shape_inference.cc\<close>): its construction
  from an op definition and the shapes of its inputs, running a shape function on it, and
  access to inputs and outputs by name. The ranges of the names come from
  \<open>NameRangesForNode\<close> (\<open>framework/node_def_util.cc\<close>). The status of
  \<open>full_type::SpecializeType\<close>, which fills the return type the model leaves out, is an
  argument of the constructors.
\<close>

section \<open>Name ranges\<close>

text \<open>\<open>OpDef::ArgDef\<close> and the fields of \<open>OpDef\<close> that the ranges depend on.\<close>

record arg_def =
  arg_name :: string
  number_attr :: string
  type_list_attr :: string
  type_attr :: string
  arg_type :: data_type

record op_def =
  input_arg :: "arg_def list"
  output_arg :: "arg_def list"

type_synonym name_ranges = "(string \<times> (int \<times> int)) list"

definition ComputeArgRange :: "attrs \<Rightarrow> arg_def \<Rightarrow> int res" where
  "ComputeArgRange as arg =
    (if number_attr arg \<noteq> [] then GetAttrInt32 as (number_attr arg)
     else if type_list_attr arg \<noteq> [] then
       bindR (Find as (type_list_attr arg)) (\<lambda>v. Inr (int (length (l_type (attr_list_of v)))))
     else if type_attr arg \<noteq> [] \<or> arg_type arg \<noteq> DT_INVALID then Inr 1
     else Inl (Status InvalidArgument))"

text \<open>An operation on the map that is filled: what was entered before an error stays.\<close>

primrec NameRangesHelper :: "attrs \<Rightarrow> arg_def list \<Rightarrow> int \<Rightarrow> (name_ranges, unit) op" where
  "NameRangesHelper as [] start = ret ()"
| "NameRangesHelper as (arg # args) start =
     andThen (liftR (ComputeArgRange as arg)) (\<lambda>num.
     andThen (liftR (signed32 (start + num))) (\<lambda>stop.
     andThen (modify (AList.update (arg_name arg) (start, stop))) (\<lambda>_.
     NameRangesHelper as args stop)))"

text \<open>The two maps of the context as the target of \<open>NameRangesHelper\<close>.\<close>

definition onInputMap :: "(name_ranges, 'a) op \<Rightarrow> 'a cop" where
  "onInputMap m = (\<lambda>c. case m (input_name_map c) of (r, mp) \<Rightarrow> (r, c\<lparr>input_name_map := mp\<rparr>))"

definition onOutputMap :: "(name_ranges, 'a) op \<Rightarrow> 'a cop" where
  "onOutputMap m = (\<lambda>c. case m (output_name_map c) of (r, mp) \<Rightarrow> (r, c\<lparr>output_name_map := mp\<rparr>))"

definition NameRangesForNode :: "op_def \<Rightarrow> unit cop" where
  "NameRangesForNode od =
     andThen (gets attrs) (\<lambda>as.
     andThen (onInputMap (NameRangesHelper as (input_arg od) 0)) (\<lambda>_.
     onOutputMap (NameRangesHelper as (output_arg od) 0)))"

definition maxEnd :: "name_ranges \<Rightarrow> int" where
  "maxEnd m = fold (\<lambda>(_, (_, stop)) n. max n stop) m 0"

section \<open>Construction\<close>

definition PreInputInit ::
    "status_code option \<Rightarrow> op_def \<Rightarrow> tensor option list \<Rightarrow> shape list \<Rightarrow> unit cop" where
  "PreInputInit specialize_status od ts ts_as_shapes =
    (case specialize_status of
       Some e \<Rightarrow> modify (\<lambda>c. c\<lparr>construction_status := Some e\<rparr>)
     | None \<Rightarrow>
         andThen (modify (\<lambda>c. c\<lparr>input_tensors := ts, input_tensors_as_shapes := ts_as_shapes\<rparr>)) (\<lambda>_.
         andThen (tryStatus (NameRangesForNode od)) (\<lambda>s.
         case s of
           Inl e \<Rightarrow> modify (\<lambda>c. c\<lparr>construction_status := Some e\<rparr>)
         | Inr _ \<Rightarrow>
             modify (\<lambda>c. let n = nat (maxEnd (output_name_map c)) in
               c\<lparr>construction_status := None, outputs := replicate n None,
                 output_handle_shapes_and_types :=
                   resizeWith n None (output_handle_shapes_and_types c)\<rparr>))))"

text \<open>\<open>CHECK_LE\<close> guards the resizing of the vectors that are indexed like the inputs.\<close>

definition PostInputInit :: "shape_and_type list option list \<Rightarrow> unit cop" where
  "PostInputInit input_handle_data =
     andThen (gets (\<lambda>c. (length (inputs c), maxEnd (input_name_map c), length (input_tensors c))))
       (\<lambda>(n, expected, n_tensors).
     if input_handle_data \<noteq> [] \<and> length input_handle_data \<noteq> n then
       modify (\<lambda>c. c\<lparr>construction_status := Some InvalidArgument\<rparr>)
     else
       andThen (modify (\<lambda>c. c\<lparr>input_handle_shapes_and_types :=
           (if input_handle_data = [] then resizeWith n None (input_handle_shapes_and_types c)
            else input_handle_data)\<rparr>)) (\<lambda>_.
       if int n \<noteq> expected then modify (\<lambda>c. c\<lparr>construction_status := Some InvalidArgument\<rparr>)
       else
         andThen (checkThat (n_tensors \<le> n) CheckFailed) (\<lambda>_.
         modify (\<lambda>c. c\<lparr>input_tensors := resizeWith n None (input_tensors c),
           requested_input_tensor := resizeWith n False (requested_input_tensor c),
           requested_input_tensor_as_partial_shape :=
             resizeWith n False (requested_input_tensor_as_partial_shape c)\<rparr>))))"

text \<open>The members before the body of a constructor runs; the arenas hold the dimensions and
  shapes of the other contexts of the graph.\<close>

definition blankContext :: "int list \<Rightarrow> dim list option list \<Rightarrow> int \<Rightarrow> attrs \<Rightarrow> ctx" where
  "blankContext dims shapes version as =
     \<lparr>all_dims = dims, all_shapes = shapes, inputs = [], input_tensors = [],
      requested_input_tensor = [], outputs = [], input_tensors_as_shapes = [],
      requested_input_tensor_as_partial_shape = [], input_handle_shapes_and_types = [],
      output_handle_shapes_and_types = [], graph_def_version = version, attrs = as,
      input_name_map = [], output_name_map = [], construction_status = None,
      merged_shapes = [], merged_dims = []\<rparr>"

definition ifConstructed :: "unit cop \<Rightarrow> unit cop" where
  "ifConstructed m = andThen (gets construction_status) (\<lambda>s. if s = None then m else ret ())"

definition InferenceContextOfHandles ::
    "status_code option \<Rightarrow> op_def \<Rightarrow> shape list \<Rightarrow> tensor option list \<Rightarrow> shape list \<Rightarrow>
     shape_and_type list option list \<Rightarrow> unit cop" where
  "InferenceContextOfHandles specialize_status od input_shapes ts ts_as_shapes handle_data =
     andThen (PreInputInit specialize_status od ts ts_as_shapes) (\<lambda>_.
     ifConstructed (
       andThen (modify (\<lambda>c. c\<lparr>inputs := input_shapes\<rparr>)) (\<lambda>_. PostInputInit handle_data)))"

definition makeHandleData ::
    "nat \<Rightarrow> (partial_shape \<times> data_type) list option list \<Rightarrow> shape_and_type list option list cop" where
  "makeHandleData n hs =
     andThen (mapOp (\<lambda>h. case h of
         None \<Rightarrow> ret None
       | Some ps \<Rightarrow>
           andThen (mapOp (\<lambda>(p, t). andThen (MakeShapeFromPartialTensorShape p) (\<lambda>s.
             ret \<lparr>st_shape = s, st_dtype = t\<rparr>)) ps) (\<lambda>sts. ret (Some sts))) hs) (\<lambda>made.
     andThen (checkThat (list_all (\<lambda>h. h = None) (drop n made)) OutOfBounds) (\<lambda>_.
     ret (resizeWith n None made)))"

definition InferenceContextOfShapes ::
    "status_code option \<Rightarrow> op_def \<Rightarrow> partial_shape list \<Rightarrow> tensor option list \<Rightarrow> partial_shape list \<Rightarrow>
     (partial_shape \<times> data_type) list option list \<Rightarrow> unit cop" where
  "InferenceContextOfShapes specialize_status od input_shapes ts ts_as_shapes handle_shapes =
     andThen (mapOp MakeShapeFromPartialTensorShape ts_as_shapes) (\<lambda>as_handles.
     andThen (PreInputInit specialize_status od ts as_handles) (\<lambda>_.
     ifConstructed (
       andThen (iterOp (\<lambda>p. andThen (MakeShapeFromPartialTensorShape p) (\<lambda>s.
           modify (\<lambda>c. c\<lparr>inputs := inputs c @ [s]\<rparr>))) input_shapes) (\<lambda>_.
       andThen (makeHandleData (length input_shapes) handle_shapes) PostInputInit))))"

section \<open>Running a shape function\<close>

definition Run :: "unit cop \<Rightarrow> unit cop" where
  "Run fn =
     andThen ForgetMerges (\<lambda>_.
     andThen (tryStatus fn) (\<lambda>s.
     case s of
       Inl e \<Rightarrow> andThen ForgetMerges (\<lambda>_. failWith e)
     | Inr _ \<Rightarrow>
         andThen (gets outputs) (\<lambda>os. checkThat (list_all (\<lambda>s. s \<noteq> None) os) DCheckFailed)))"

section \<open>Inputs and outputs by name, more outputs\<close>

definition rangeOf :: "name_ranges \<Rightarrow> string \<Rightarrow> (int \<times> int) res" where
  "rangeOf m name = (case map_of m name of None \<Rightarrow> Inl (Status InvalidArgument) | Some r \<Rightarrow> Inr r)"

definition set_output_by_name :: "string \<Rightarrow> shape list \<Rightarrow> unit cop" where
  "set_output_by_name name shapes =
     andThen (gets output_name_map) (\<lambda>m.
     andThen (liftR (rangeOf m name)) (\<lambda>(start, stop).
     andThen (failUnless (stop - start = int (length shapes)) InvalidArgument) (\<lambda>_.
     iterOp (\<lambda>(i, s). andThen (gets num_outputs) (\<lambda>n.
       andThen (checkThat (0 \<le> start + int i \<and> start + int i < n) OutOfBounds) (\<lambda>_.
       modify (\<lambda>c. c\<lparr>outputs := (outputs c)[nat (start + int i) := s]\<rparr>))))
       (enumerate 0 shapes))))"

definition input_by_name :: "string \<Rightarrow> shape list cop" where
  "input_by_name name =
     andThen (gets input_name_map) (\<lambda>m.
     andThen (liftR (rangeOf m name)) (\<lambda>(start, stop).
     mapOp input [start..stop - 1]))"

definition output_by_name :: "string \<Rightarrow> shape list cop" where
  "output_by_name name =
     andThen (gets output_name_map) (\<lambda>m.
     andThen (liftR (rangeOf m name)) (\<lambda>(start, stop).
     andThen (gets outputs) (\<lambda>os.
     mapOp (\<lambda>i. liftR (vecAt os i)) [start..stop - 1])))"

definition ExpandOutputs :: "int \<Rightarrow> unit cop" where
  "ExpandOutputs new_output_size =
     andThen (gets num_outputs) (\<lambda>n.
     andThen (failUnless (n \<le> new_output_size) InvalidArgument) (\<lambda>_.
     modify (\<lambda>c. c\<lparr>outputs := resizeWith (nat new_output_size) None (outputs c),
       output_handle_shapes_and_types :=
         resizeWith (nat new_output_size) None (output_handle_shapes_and_types c)\<rparr>)))"

end
