(* ===== verification/FactRules.thy ===== *)
theory FactRules
  imports Facts ContextLife BasicFns
begin

text \<open>
  The rules of the fact layer for the shape algebra, for reading inputs and attributes and
  for setting outputs. In each, a flag says whether the context knows the sizes: what is
  computed from known shapes is known.
\<close>

section \<open>Rank assertions and merging\<close>

lemma WithRank_gives:
  assumes "know \<Gamma> W" "ShapeIs s xs k \<in> set \<Gamma>" "r = int (length xs) \<and> r \<le> int32_max"
  shows "gives (WithRank s r) (\<lambda>s'. [ShapeIs s' xs k, Ranked s']) W"
proof -
  have s: "has_shape W s xs" and k: "k \<longrightarrow> known_shape W s" using assms know_shape by blast+
  note g = know_good[OF assms(1)]
  have eq: "s' = s \<and> ctx_of W = c'" if k: "k" and run: "WithRank s r (ctx_of W) = (Inr s', c')" for s' c'
    using run k \<open>k \<longrightarrow> known_shape W s\<close> has_shape_RankKnown[OF g s] assms(3) known_shape_rank[of W s]
    by (auto simp: WithRank_def op_simps)
  show ?thesis
  proof (rule wp_runW[OF WithRank_wp[OF g s, of r]])
    fix s' W'
    assume run: "WithRank s r (ctx_of W) = (Inr s', ctx_of W')" and p: "shape_post W xs True s' W'"
    have "known_shape W' s'" if k
      using eq[OF that run] \<open>k \<longrightarrow> known_shape W s\<close> that by (simp add: known_shape_def)
    then show "quiet W W' \<and> list_all (holds W') [ShapeIs s' xs k, Ranked s']" using p by auto
  qed (use assms(3) in auto)
qed

lemma WithRankAtLeast_gives:
  assumes "know \<Gamma> W" "ShapeIs s xs k \<in> set \<Gamma>" "r \<le> int (length xs) \<and> r \<le> int32_max"
  shows "gives (WithRankAtLeast s r) (\<lambda>s'. [ShapeIs s' xs k]) W"
  by (rule wp_mono[OF WithRankAtLeast_wp[OF know_good[OF assms(1)], of s xs r]])
    (use assms know_shape[OF assms(1,2)] know_good[OF assms(1)] in \<open>auto intro: quiet_refl\<close>)

lemma WithRankAtMost_gives:
  assumes "know \<Gamma> W" "ShapeIs s xs k \<in> set \<Gamma>" "int (length xs) \<le> r \<and> r \<le> int32_max"
  shows "gives (WithRankAtMost s r) (\<lambda>s'. [ShapeIs s' xs k]) W"
  by (rule wp_mono[OF WithRankAtMost_wp[OF know_good[OF assms(1)], of s xs r]])
    (use assms know_shape[OF assms(1,2)] know_good[OF assms(1)] in \<open>auto intro: quiet_refl\<close>)

text \<open>Which of the two shapes a merge can return as it is.\<close>

definition keeps_left :: "ctx \<Rightarrow> dim \<times> dim \<Rightarrow> bool" where
  "keeps_left c p \<longleftrightarrow> fst p = snd p \<or> (DKnown c (snd p) \<longrightarrow> DKnown c (fst p))"

definition keeps_right :: "ctx \<Rightarrow> dim \<times> dim \<Rightarrow> bool" where
  "keeps_right c p \<longleftrightarrow> fst p = snd p \<or> (DKnown c (fst p) \<longrightarrow> DKnown c (snd p))"

lemma mergeScan_Some:
  "mergeScan c ps r0 r1 = Some (a, b) \<Longrightarrow>
   a = (r0 \<and> list_all (keeps_left c) ps) \<and> b = (r1 \<and> list_all (keeps_right c) ps)"
proof (induction ps arbitrary: r0 r1)
  case Nil
  then show ?case by simp
next
  case (Cons p ps)
  obtain d0 d1 where p: "p = (d0, d1)" by (cases p)
  have k: "DKnown c d = (DValue c d \<noteq> - 1)" for d by (simp add: ValueKnown_def)
  note defs = SameHandle_def keeps_left_def keeps_right_def p k
  show ?case
  proof (cases "d0 = d1")
    case True
    then show ?thesis using Cons.prems Cons.IH by (simp add: defs)
  next
    case False
    show ?thesis
    proof (cases "DValue c d0 = - 1")
      case True
      then have "mergeScan c ps (if DValue c d1 \<noteq> - 1 then False else r0) r1 = Some (a, b)"
        using Cons.prems False by (simp add: defs)
      then show ?thesis using True False Cons.IH[of "if DValue c d1 \<noteq> - 1 then False else r0" r1]
        by (simp add: defs split: if_splits)
    next
      case u: False
      show ?thesis
      proof (cases "DValue c d1 = - 1")
        case True
        then have "mergeScan c ps r0 False = Some (a, b)" using Cons.prems False u by (simp add: defs)
        from Cons.IH[OF this] show ?thesis using True False u by (simp add: defs)
      next
        case v: False
        then have "mergeScan c ps r0 r1 = Some (a, b)"
          using Cons.prems False u by (simp add: defs split: if_splits)
        then show ?thesis using v u Cons.IH by (simp add: defs)
      qed
    qed
  qed
qed

lemma FullyDefined_cong:
  "all_dims c' = all_dims c \<Longrightarrow> all_shapes c' = all_shapes c \<Longrightarrow> FullyDefined c' s = FullyDefined c s"
  by (simp add: FullyDefined_def shape_of_def ValueKnown_def Value_def split: option.splits)

lemma FullyDefined_shape_of: "shape_of c s = Some ds \<Longrightarrow> FullyDefined c s = list_all (DKnown c) ds"
  by (simp add: FullyDefined_def)

lemma MergeShape_known:
  assumes run: "MergeShape s0 s1 c = (Inr s, c')" and k: "FullyDefined c s0 \<or> FullyDefined c s1"
  shows "FullyDefined c' s"
proof -
  have f: "RankKnown c x" if "FullyDefined c x" for x
    using that by (auto simp: FullyDefined_def RankKnown_iff split: option.splits)
  have fd: "FullyDefined (c\<lparr>merged_shapes := m\<rparr>) x = FullyDefined c x" for m x
    by (rule FullyDefined_cong) simp_all
  show ?thesis
  proof (cases "s0 = s1 \<or> \<not> RankKnown c s0 \<or> \<not> RankKnown c s1")
    case True
    then show ?thesis using run k f
      by (auto simp: MergeShape_def SameHandle_def op_simps addMergedShapes_def fd split: if_splits)
  next
    case False
    then obtain ds0 ds1 where ds: "shape_of c s0 = Some ds0" "shape_of c s1 = Some ds1"
      by (auto simp: RankKnown_iff)
    then have mk: "mergeKnown s0 s1 ds0 ds1 c = (Inr s, c')"
      using run False by (simp add: MergeShape_def SameHandle_def op_simps dimsOf_def)
    then obtain r0 r1 where scan: "mergeScan c (zip ds0 ds1) True True = Some (r0, r1)"
        and len: "length ds0 = length ds1"
      by (cases "mergeScan c (zip ds0 ds1) True True") (auto simp: mergeKnown_def op_simps split: if_splits)
    have kk: "list_all (DKnown c) ds0 \<or> list_all (DKnown c) ds1"
      using k ds by (simp add: FullyDefined_def)
    have r: "r0 \<or> r1" "r0 \<longrightarrow> list_all (DKnown c) ds0" "\<not> r0 \<longrightarrow> list_all (DKnown c) ds1"
    proof -
      note sc = mergeScan_Some[OF scan]
      show "r0 \<or> r1" "r0 \<longrightarrow> list_all (DKnown c) ds0" "\<not> r0 \<longrightarrow> list_all (DKnown c) ds1"
        using sc kk len by (auto simp: list_all_length keeps_left_def keeps_right_def)
    qed
    have "s = (if r0 then s0 else s1) \<and> c' = c\<lparr>merged_shapes := merged_shapes c @ [(s0, s1)]\<rparr>"
      using mk scan len r(1) by (auto simp: mergeKnown_def op_simps addMergedShapes_def split: if_splits)
    then show ?thesis using r(2,3) ds by (simp add: fd FullyDefined_shape_of)
  qed
qed

lemma MergeShape_gives:
  assumes "know \<Gamma> W" "ShapeIs s0 xs k0 \<in> set \<Gamma>" "ShapeIs s1 xs' k1 \<in> set \<Gamma>" "xs' = xs"
  shows "gives (MergeShape s0 s1) (\<lambda>s. [ShapeIs s xs (k0 \<or> k1)]) W"
proof (rule wp_runW[OF MergeShape_wp[OF know_good[OF assms(1)], of s0 xs s1]])
  show "has_shape W s0 xs" "has_shape W s1 xs" using assms know_shape by blast+
next
  fix s W'
  assume run: "MergeShape s0 s1 (ctx_of W) = (Inr s, ctx_of W')"
    and p: "shape_post W xs (rank_known W s0 \<or> rank_known W s1) s W'"
  have "known_shape W' s" if "k0 \<or> k1"
    using MergeShape_known[OF run] that know_shape[OF assms(1,2)] know_shape[OF assms(1,3)]
    by (auto simp: known_shape_def)
  then show "quiet W W' \<and> list_all (holds W') [ShapeIs s xs (k0 \<or> k1)]" using p by auto
qed

section \<open>Sub-shapes and concatenation\<close>

lemma mapOp_Dim_subset:
  assumes "shape_of c s = Some ds"
  shows "mapOp (Dim s) idxs c = (Inr rs, c') \<Longrightarrow> c' = c \<and> set rs \<subseteq> set ds"
proof (induction idxs arbitrary: rs)
  case Nil
  then show ?case by (simp add: op_simps)
next
  case (Cons i idxs)
  from Cons.prems obtain r u rs' where r: "Dim s i c = (Inr r, u)" "mapOp (Dim s) idxs u = (Inr rs', c')" "rs = r # rs'"
    by (auto simp: andThen_eq_Inr op_simps)
  have "u = c" "r \<in> set ds" using r(1) assms by (auto simp: Dim_known vecAt_def split: if_splits)
  then show ?case using Cons.IH r by auto
qed

lemma SubshapeStride_known:
  assumes run: "SubshapeStride s i j st c = (Inr s', c')" and k: "FullyDefined c s"
  shows "FullyDefined c' s'"
proof -
  obtain ds where ds: "shape_of c s = Some ds" "list_all (DKnown c) ds"
    using k by (auto simp: FullyDefined_def split: option.splits)
  then have rk: "RankKnown c s" by (simp add: RankKnown_iff)
  have mk: "FullyDefined c' s'" if run: "andThen (mapOp (Dim s) idxs) MakeShape c = (Inr s', c')" for idxs
  proof -
    obtain rs c1 where m: "mapOp (Dim s) idxs c = (Inr rs, c1)" "MakeShape rs c1 = (Inr s', c')"
      using run by (auto simp: andThen_eq_Inr)
    then have "set rs \<subseteq> set ds" "MakeShape rs c = (Inr s', c')" using mapOp_Dim_subset[OF ds(1) m(1)] by auto
    moreover have "list_all (DKnown c) rs" using \<open>set rs \<subseteq> set ds\<close> ds(2) by (auto simp: list_all_iff)
    ultimately show ?thesis
      by (auto simp: op_simps FullyDefined_def shape_of_def list_all_iff ValueKnown_def Value_def)
  qed
  have fault: "faultWith e c \<noteq> (Inr s', c')" "failWith e' c \<noteq> (Inr s', c')" for e e' by (simp_all add: op_simps)
  show ?thesis using run rk k
    by (auto simp: SubshapeStride_def op_simps Let_def split: if_splits option.splits intro: mk)
qed

lemma SubshapeRange_gives:
  assumes "know \<Gamma> W" "ShapeIs s xs k \<in> set \<Gamma>" "small_rank xs"
    and "normBound (int (length xs)) a = int i" "normBound (int (length xs)) b = int j" "i \<le> j"
  shows "gives (SubshapeRange s a b) (\<lambda>s'. [ShapeIs s' (take (j - i) (drop i xs)) k]) W"
proof (rule wp_runW[OF SubshapeRange_wp[OF know_good[OF assms(1)], of s xs a i b j]])
  fix s' W'
  assume run: "SubshapeRange s a b (ctx_of W) = (Inr s', ctx_of W')"
    and p: "shape_post W (take (j - i) (drop i xs)) (rank_known W s) s' W'"
  have "known_shape W' s'" if k
    using SubshapeStride_known[OF run[unfolded SubshapeRange_def]] know_shape[OF assms(1,2)] that
    by (simp add: known_shape_def)
  then show "quiet W W' \<and> list_all (holds W') [ShapeIs s' (take (j - i) (drop i xs)) k]" using p by auto
qed (use assms know_shape[OF assms(1,2)] in auto)

lemma SubshapeFrom_gives:
  assumes "know \<Gamma> W" "ShapeIs s xs k \<in> set \<Gamma>" "small_rank xs" "normBound (int (length xs)) a = int i"
  shows "gives (SubshapeFrom s a) (\<lambda>s'. [ShapeIs s' (drop i xs) k]) W"
proof (rule wp_runW[OF SubshapeFrom_wp[OF know_good[OF assms(1)], of s xs a i]])
  fix s' W'
  assume run: "SubshapeFrom s a (ctx_of W) = (Inr s', ctx_of W')"
    and p: "shape_post W (drop i xs) (rank_known W s) s' W'"
  have "known_shape W' s'" if k
    using SubshapeStride_known[OF run[unfolded SubshapeFrom_def SubshapeRange_def]] know_shape[OF assms(1,2)] that
    by (simp add: known_shape_def)
  then show "quiet W W' \<and> list_all (holds W') [ShapeIs s' (drop i xs) k]" using p by auto
qed (use assms know_shape[OF assms(1,2)] in auto)

lemma Concatenate_known:
  assumes "Concatenate s1 s2 c = (Inr s, c')" "FullyDefined c s1" "FullyDefined c s2"
  shows "FullyDefined c' s"
  using assms
  by (auto simp: Concatenate_def op_simps RankKnown_iff FullyDefined_def dimsOf_def shape_of_def
      ValueKnown_def Value_def list_all_iff split: option.splits)

lemma Concatenate_gives:
  assumes "know \<Gamma> W" "ShapeIs s1 xs k1 \<in> set \<Gamma>" "ShapeIs s2 ys k2 \<in> set \<Gamma>"
  shows "gives (Concatenate s1 s2) (\<lambda>s. [ShapeIs s (xs @ ys) (k1 \<and> k2)]) W"
proof (rule wp_runW[OF Concatenate_wp[OF know_good[OF assms(1)], of s1 xs s2 ys]])
  fix s W'
  assume run: "Concatenate s1 s2 (ctx_of W) = (Inr s, ctx_of W')"
    and p: "shape_post W (xs @ ys) (rank_known W s1 \<and> rank_known W s2) s W'"
  have "known_shape W' s" if "k1 \<and> k2"
    using Concatenate_known[OF run] know_shape[OF assms(1,2)] know_shape[OF assms(1,3)] that
    by (simp add: known_shape_def)
  then show "quiet W W' \<and> list_all (holds W') [ShapeIs s (xs @ ys) (k1 \<and> k2)]" using p by auto
qed (use know_shape[OF assms(1,2)] know_shape[OF assms(1,3)] in auto)

section \<open>Arithmetic\<close>

definition doc_in :: "fact list \<Rightarrow> dim_or_const \<Rightarrow> int \<Rightarrow> bool \<Rightarrow> bool" where
  "doc_in \<Gamma> e n k \<longleftrightarrow> (case e of Handle a \<Rightarrow> DimIs a n k \<in> set \<Gamma> 
     | Const v \<Rightarrow> is_size n \<and> (v = n \<or> v = kUnknownDim \<and> \<not> k))"

lemma doc_handle: "DimIs a n k \<in> set \<Gamma> \<Longrightarrow> doc_in \<Gamma> (Handle a) n k"
  by (simp add: doc_in_def)

lemma doc_const: "is_size n \<Longrightarrow> doc_in \<Gamma> (Const n) n k"
  by (simp add: doc_in_def)

lemma doc_in_has:
  "know \<Gamma> W \<Longrightarrow> doc_in \<Gamma> e n k \<Longrightarrow> has_doc W e n \<and> (k \<longrightarrow> ValueKnown (ctx_of W) e)"
  using know_dim[of \<Gamma> W]
  by (auto simp: doc_in_def known_dim_def ValueKnown_def Value_def is_size_def split: dim_or_const.splits)

lemma known_after_MakeDim:
  "MakeDim e c = (Inr r, c') \<Longrightarrow> ValueKnown c e \<Longrightarrow> DKnown c' r"
  by (cases e) (auto simp: op_simps MakeDim_def newDimension_def ValueKnown_def Value_def split: if_splits)

lemma known_after_Const: "MakeDim (Const v) c = (Inr r, c') \<Longrightarrow> v \<noteq> kUnknownDim \<Longrightarrow> DKnown c' r"
  by (rule known_after_MakeDim[of "Const v"]) (simp_all add: ValueKnown_def Value_def)

lemmas arith_run = andThen_def dimOrConst_run gets_run ret_run failWith_run Let_def

lemma Add_known: "Add d e c = (Inr r, c') \<Longrightarrow> DKnown c d \<Longrightarrow> ValueKnown c e \<Longrightarrow> DKnown c' r"
  by (auto simp: Add_def arith_run ValueKnown_def split: if_splits
      dest: known_after_MakeDim[unfolded ValueKnown_def] known_after_Const[unfolded ValueKnown_def])

lemma Subtract_known: "Subtract d e c = (Inr r, c') \<Longrightarrow> DKnown c d \<Longrightarrow> ValueKnown c e \<Longrightarrow> DKnown c' r"
  by (auto simp: Subtract_def arith_run ValueKnown_def split: if_splits
      dest: known_after_MakeDim[unfolded ValueKnown_def] known_after_Const[unfolded ValueKnown_def])

lemma Multiply_known: "Multiply d e c = (Inr r, c') \<Longrightarrow> DKnown c d \<Longrightarrow> ValueKnown c e \<Longrightarrow> DKnown c' r"
  by (auto simp: Multiply_def arith_run ValueKnown_def split: if_splits
      dest: known_after_MakeDim[unfolded ValueKnown_def] known_after_Const[unfolded ValueKnown_def])

lemma cdiv_known: "0 \<le> v \<Longrightarrow> 0 < d \<Longrightarrow> cdiv v d \<noteq> - 1"
  using pos_imp_zdiv_nonneg_iff[of d v] by (simp add: cdiv_nonneg)

lemma Divide_known:
  "Divide d e even_div c = (Inr r, c') \<Longrightarrow> DKnown c d \<Longrightarrow> ValueKnown c e \<Longrightarrow> - 1 \<le> DValue c d \<Longrightarrow> DKnown c' r"
  using cdiv_known[of "DValue c d" "Value c e"]
  by (auto simp: Divide_def arith_run ValueKnown_def split: if_splits dim_or_const.splits
      dest: known_after_Const[unfolded ValueKnown_def])

lemma Min_known: "Min d e c = (Inr r, c') \<Longrightarrow> DKnown c d \<Longrightarrow> ValueKnown c e \<Longrightarrow> DKnown c' r"
  by (auto simp: Min_def arith_run ValueKnown_def split: if_splits
      dest: known_after_MakeDim[unfolded ValueKnown_def])

lemma Max_known: "Max d e c = (Inr r, c') \<Longrightarrow> DKnown c d \<Longrightarrow> ValueKnown c e \<Longrightarrow> DKnown c' r"
  by (auto simp: Max_def arith_run ValueKnown_def split: if_splits
      dest: known_after_MakeDim[unfolded ValueKnown_def])

lemma dim_gives:
  assumes "wp m (dim_post W n) W" and "\<And>d c'. m (ctx_of W) = (Inr d, c') \<Longrightarrow> k \<Longrightarrow> DKnown c' d"
  shows "gives m (\<lambda>d. [DimIs d n k]) W"
  by (rule wp_runW[OF assms(1)]) (use assms(2) in \<open>auto simp: known_dim_def\<close>)

lemma Add_gives:
  assumes "know \<Gamma> W" "DimIs d n k \<in> set \<Gamma>" "doc_in \<Gamma> e m j" "n + m \<le> int64_max"
  shows "gives (Add d e) (\<lambda>r. [DimIs r (n + m) (k \<and> j)]) W"
  by (rule dim_gives[OF Add_wp[OF know_good[OF assms(1)] _ _ assms(4)]])
    (use know_dim[OF assms(1,2)] doc_in_has[OF assms(1,3)] in \<open>auto simp: known_dim_def dest: Add_known\<close>)

lemma Subtract_gives:
  assumes "know \<Gamma> W" "DimIs d n k \<in> set \<Gamma>" "doc_in \<Gamma> e m j" "m \<le> n"
  shows "gives (Subtract d e) (\<lambda>r. [DimIs r (n - m) (k \<and> j)]) W"
  by (rule dim_gives[OF Subtract_wp[OF know_good[OF assms(1)] _ _ assms(4)]])
    (use know_dim[OF assms(1,2)] doc_in_has[OF assms(1,3)] in \<open>auto simp: known_dim_def dest: Subtract_known\<close>)

lemma Multiply_gives:
  assumes "know \<Gamma> W" "DimIs d n k \<in> set \<Gamma>" "doc_in \<Gamma> e m j" "n * m \<le> int64_max"
  shows "gives (Multiply d e) (\<lambda>r. [DimIs r (n * m) (k \<and> j)]) W"
  by (rule dim_gives[OF Multiply_wp[OF know_good[OF assms(1)] _ _ assms(4)]])
    (use know_dim[OF assms(1,2)] doc_in_has[OF assms(1,3)] in \<open>auto simp: known_dim_def dest: Multiply_known\<close>)

lemma dim_value_ge: "good W \<Longrightarrow> has_dim W d n \<Longrightarrow> - 1 \<le> DValue (ctx_of W) d"
  using has_dim_value[of W d n] has_dim_size[of W d n] by (auto simp: is_size_def)

lemma Divide_gives:
  assumes "know \<Gamma> W" "DimIs d n k \<in> set \<Gamma>" "doc_in \<Gamma> e m j" "e \<noteq> Const (- 1) \<and> 0 < m \<and> (ev \<longrightarrow> m dvd n)"
  shows "gives (Divide d e ev) (\<lambda>r. [DimIs r (n div m) (k \<and> j)]) W"
proof (rule dim_gives[OF Divide_wp[OF know_good[OF assms(1)], of d n e m]])
  show "has_dim W d n" "has_doc W e m" "0 < m" "e \<noteq> Const (- 1)" "ev \<Longrightarrow> m dvd n"
    using know_dim[OF assms(1,2)] doc_in_has[OF assms(1,3)] assms(4) by auto
  show "DKnown c' r" if "Divide d e ev (ctx_of W) = (Inr r, c')" "k \<and> j" for r c'
    using that Divide_known know_dim[OF assms(1,2)] doc_in_has[OF assms(1,3)]
      dim_value_ge[OF know_good[OF assms(1)]] by (auto simp: known_dim_def)
qed

end
