(* ===== verification/Inference.thy ===== *)
theory Inference
  imports FactRules
begin

text \<open>
  What it means that a shape function is right. An operation is given by the sizes its
  kernel accepts and the sizes it then produces, as a relation over the attributes, the
  constant inputs, the input sizes and the output sizes. The interface \<open>inference_fn\<close>
  asks of a shape function that, for every run of the operation the context describes, it
  succeeds and its outputs describe the run, and that nothing unknown is reported when all
  inputs are known. Its client is \<open>Run\<close> of \<open>InferenceContext\<close>.
\<close>

section \<open>Calls and their outcome\<close>

type_synonym op_spec = "attrs \<Rightarrow> tensor option list \<Rightarrow> int list list \<Rightarrow> int list list \<Rightarrow> bool"

definition called :: "world \<Rightarrow> int list list \<Rightarrow> nat \<Rightarrow> bool" where
  "called W xss n \<longleftrightarrow>
     good W \<and> list_all2 (has_shape W) (inputs (ctx_of W)) xss \<and> length (outputs (ctx_of W)) = n \<and>
     length (input_tensors (ctx_of W)) = length xss \<and>
     length (requested_input_tensor (ctx_of W)) = length xss \<and>
     length (requested_input_tensor_as_partial_shape (ctx_of W)) = length xss"

definition all_known :: "world \<Rightarrow> bool" where
  "all_known W \<longleftrightarrow> list_all (known_shape W) (inputs (ctx_of W))"

definition infers :: "world \<Rightarrow> int list list \<Rightarrow> world \<Rightarrow> bool" where
  "infers W yss W' \<longleftrightarrow>
     list_all2 (has_shape W') (outputs (ctx_of W')) yss \<and>
     (all_known W \<longrightarrow> list_all (known_shape W') (outputs (ctx_of W')))"

definition forget :: "world \<Rightarrow> world" where
  "forget W = (case W of World c v w \<Rightarrow> World (c\<lparr>merged_shapes := [], merged_dims := []\<rparr>) v w)"

lemma forget_step:
  assumes "good W"
  shows "step W (forget W)"
proof (cases W rule: good_cases)
  case (1 c v w)
  let ?c = "c\<lparr>merged_shapes := [], merged_dims := []\<rparr>"
  have f: "valid_dim ?c = valid_dim c" "valid_shape ?c = valid_shape c"
      "agrees_dim ?c = agrees_dim c" "agrees_shape ?c = agrees_shape c"
    by (auto simp: valid_dim_def valid_shape_def agrees_dim_def agrees_shape_def Value_def fun_eq_iff
        split: option.splits)
  have "good (World ?c v w)"
    using assms 1 by (auto simp: good_def wf_ctx_def valid_handles_def models_def f)
  then show ?thesis
    using assms 1 by (simp add: forget_def step_def extends_def same_statics_def)
qed

lemma forget_statics [simp]:
  "inputs (ctx_of (forget W)) = inputs (ctx_of W)" "attrs (ctx_of (forget W)) = attrs (ctx_of W)"
  "outputs (ctx_of (forget W)) = outputs (ctx_of W)"
  "input_tensors (ctx_of (forget W)) = input_tensors (ctx_of W)"
  "requested_input_tensor (ctx_of (forget W)) = requested_input_tensor (ctx_of W)"
  "requested_input_tensor_as_partial_shape (ctx_of (forget W)) = requested_input_tensor_as_partial_shape (ctx_of W)"
  by (simp_all add: forget_def split: world.splits)

lemma called_forget: "called W xss n \<Longrightarrow> called (forget W) xss n"
  using forget_step[of W] good_step[of W "forget W"] step_has_shape[of W "forget W"]
  by (auto simp: called_def elim!: list_all2_mono)

lemma all_known_forget: "all_known (forget W) = all_known W"
proof (cases W rule: good_cases)
  case (1 c v w)
  then show ?thesis
    by (auto simp: all_known_def known_shape_def list_all_iff forget_def
        FullyDefined_cong[of "c\<lparr>merged_shapes := [], merged_dims := []\<rparr>" c])
qed

lemma ForgetMerges_run: "ForgetMerges (ctx_of W) = (Inr (), ctx_of (forget W))"
  by (simp add: ForgetMerges_def op_simps forget_def split: world.splits)

lemma has_shape_set: "has_shape W s xs \<Longrightarrow> s \<noteq> None"
  by (cases s) (auto simp: has_shape_def split: world.splits)

lemma Run_sets:
  assumes "good W" "wp fn Q (forget W)" "\<And>x W'. Q x W' \<Longrightarrow> list_all (\<lambda>s. s \<noteq> None) (outputs (ctx_of W'))"
  shows "wp (Run fn) (\<lambda>_ W'. \<exists>x. Q x W') W"
proof -
  obtain x W' where run: "fn (ctx_of (forget W)) = (Inr x, ctx_of W')" and s: "step (forget W) W'" and q: "Q x W'"
    using assms(2) unfolding wp_def by auto
  have "Run fn (ctx_of W) = (Inr (), ctx_of W')"
    using run assms(3)[OF q] by (simp add: Run_def andThen_def ForgetMerges_run tryStatus_def op_simps)
  then show ?thesis using step_trans[OF forget_step[OF assms(1)] s] q by (intro wpI) auto
qed

lemma Run_wp:
  assumes "good W" "wp fn (\<lambda>_ W'. infers W yss W') (forget W)"
  shows "wp (Run fn) (\<lambda>_ W'. infers W yss W') W"
proof -
  have "wp (Run fn) (\<lambda>_ W'. \<exists>x :: unit. infers W yss W') W"
    by (rule Run_sets[OF assms])
      (use has_shape_set in \<open>fastforce simp: infers_def list_all2_conv_all_nth list_all_length\<close>)
  then show ?thesis by simp
qed

lemma known_proto:
  assumes g: "good W" and h: "has_shape W s ys" and k: "known_shape W s"
  shows "ShapeHandleToProto (ctx_of W) s = \<lparr>unknown_rank = False, dim_sizes = ys\<rparr>"
proof -
  obtain ds where ds: "shape_of (ctx_of W) s = Some ds" "list_all (known_dim W) ds"
    using k by (auto simp: known_shape_iff)
  have "has_dims W ds ys" using has_shape_known[OF g h ds(1)] .
  then have "map (DValue (ctx_of W)) ds = ys"
    using ds(2) known_dim_value[OF g]
    by (auto simp: has_dims_def list_all2_conv_all_nth list_all_length intro!: nth_equalityI)
  moreover have "map (\<lambda>d. if DKnown (ctx_of W) d then DValue (ctx_of W) d else - 1) ds =
      map (DValue (ctx_of W)) ds"
    using ds(2) by (auto simp: list_all_iff known_dim_def)
  ultimately show ?thesis using ds(1) by (simp add: ShapeHandleToProto_def)
qed

section \<open>The interface\<close>

text \<open>
  Inference describes a run: \<open>Run\<close> succeeds without a fault, the sizes of the outputs are
  among those the output handles stand for in a world that extends the given one, and when
  all inputs are known the outputs are known and are exactly these sizes.
\<close>

definition describes :: "unit cop \<Rightarrow> int list list \<Rightarrow> world \<Rightarrow> bool" where
  "describes fn yss W \<longleftrightarrow>
     (\<exists>W'. Run fn (ctx_of W) = (Inr (), ctx_of W') \<and> step W W' \<and>
        list_all2 (has_shape W') (outputs (ctx_of W')) yss) \<and>
     (all_known W \<longrightarrow> (\<exists>c'. Run fn (ctx_of W) = (Inr (), c') \<and>
        map (ShapeHandleToProto c') (outputs c') = map (\<lambda>ys. \<lparr>unknown_rank = False, dim_sizes = ys\<rparr>) yss))"

locale inference_fn =
  fixes fn :: "unit cop" and spec :: op_spec
  assumes sound: "called W xss (length yss) \<Longrightarrow> spec (attrs (ctx_of W)) (input_tensors (ctx_of W)) xss yss \<Longrightarrow>
    wp fn (\<lambda>_ W'. infers W yss W') W"
begin

lemma Run_sound:
  assumes "called W xss (length yss)" "spec (attrs (ctx_of W)) (input_tensors (ctx_of W)) xss yss"
  shows "wp (Run fn) (\<lambda>_ W'. infers W yss W') W"
proof -
  have "wp fn (\<lambda>_ W'. infers (forget W) yss W') (forget W)"
    using assms by (intro sound called_forget) auto
  then show ?thesis
    using assms(1) by (intro Run_wp) (auto simp: called_def infers_def all_known_forget)
qed

text \<open>A call whose inputs are all known: the outputs are the sizes, and no fault occurs.\<close>

lemma Run_known:
  assumes "called W xss (length yss)" "spec (attrs (ctx_of W)) (input_tensors (ctx_of W)) xss yss"
    and "all_known W"
  shows "\<exists>c'. Run fn (ctx_of W) = (Inr (), c') \<and>
    map (ShapeHandleToProto c') (outputs c') = map (\<lambda>ys. \<lparr>unknown_rank = False, dim_sizes = ys\<rparr>) yss"
proof -
  obtain u W' where run: "Run fn (ctx_of W) = (Inr u, ctx_of W')"
    and s: "step W W'" and inf: "infers W yss W'"
    using Run_sound[OF assms(1,2)] unfolding wp_def by auto
  have "map (ShapeHandleToProto (ctx_of W')) (outputs (ctx_of W')) =
      map (\<lambda>ys. \<lparr>unknown_rank = False, dim_sizes = ys\<rparr>) yss"
    using inf assms(3) known_proto[OF good_step[OF s]]
    by (auto simp: infers_def list_all2_conv_all_nth list_all_length intro!: nth_equalityI)
  then show ?thesis using run by auto
qed

lemma Run_describes:
  assumes "called W xss (length yss)" "spec (attrs (ctx_of W)) (input_tensors (ctx_of W)) xss yss"
  shows "describes fn yss W"
  using Run_sound[OF assms] Run_known[OF assms] unfolding describes_def wp_def infers_def by auto

end

section \<open>Rules for reading the call\<close>

definition call_facts :: "world \<Rightarrow> int list list \<Rightarrow> fact list" where
  "call_facts W xss = map (\<lambda>(s, xs). ShapeIs s xs (all_known W)) (zip (inputs (ctx_of W)) xss) @ [From W]"

lemma called_know: "called W xss n \<Longrightarrow> know (call_facts W xss) W"
  by (auto simp: called_def call_facts_def know_def all_known_def list_all_iff list_all2_conv_all_nth
      set_zip quiet_refl)

lemma quiet_inputs: "quiet W0 W \<Longrightarrow> inputs (ctx_of W) = inputs (ctx_of W0) \<and>
    attrs (ctx_of W) = attrs (ctx_of W0) \<and> input_tensors (ctx_of W) = input_tensors (ctx_of W0) \<and>
    outputs (ctx_of W) = outputs (ctx_of W0) \<and>
    length (requested_input_tensor (ctx_of W)) = length (requested_input_tensor (ctx_of W0)) \<and>
    length (requested_input_tensor_as_partial_shape (ctx_of W)) =
      length (requested_input_tensor_as_partial_shape (ctx_of W0)) \<and>
    num_inputs (ctx_of W) = num_inputs (ctx_of W0)"
  using quiet_step[of W0 W] step_statics[of W0 W] by (auto simp: same_statics_def quiet_def num_inputs_def)

lemma know_input:
  assumes "know \<Gamma> W" "From W0 \<in> set \<Gamma>" "vecAt (inputs (ctx_of W0)) i = Inr s"
    and "wp (f s) Q W"
  shows "wp (andThen (input i) f) Q W"
  using assms quiet_inputs[OF know_from[OF assms(1,2)]]
  by (simp add: wp_def input_def andThen_def)

lemma know_GetAttr:
  assumes "know \<Gamma> W" "From W0 \<in> set \<Gamma>" "get (attrs (ctx_of W0)) name = Inr v"
    and "wp (f v) Q W"
  shows "wp (andThen (GetAttr get name) f) Q W"
  using assms quiet_inputs[OF know_from[OF assms(1,2)]]
  by (simp add: wp_def GetAttr_def andThen_def gets_def liftR_def)

lemma know_tryGetAttr:
  assumes "know \<Gamma> W" "From W0 \<in> set \<Gamma>"
    and "get (attrs (ctx_of W0)) name = r" "\<And>e. r \<noteq> Inl (Fault e)"
    and "wp (f (case r of Inl (Status e) \<Rightarrow> Inl e | Inl (Fault _) \<Rightarrow> undefined | Inr v \<Rightarrow> Inr v)) Q W"
  shows "wp (andThen (tryStatus (GetAttr get name)) f) Q W"
  using assms quiet_inputs[OF know_from[OF assms(1,2)]]
  by (cases r) (auto simp: wp_def GetAttr_def andThen_def gets_def liftR_def tryStatus_def split: fail.splits)

lemma requested_step:
  assumes "good (World c v w)" "length rq = length (requested_input_tensor c)"
    "length rs = length (requested_input_tensor_as_partial_shape c)"
  shows "quiet (World c v w) (World (c\<lparr>requested_input_tensor := rq,
    requested_input_tensor_as_partial_shape := rs\<rparr>) v w)"
proof -
  let ?c = "c\<lparr>requested_input_tensor := rq, requested_input_tensor_as_partial_shape := rs\<rparr>"
  have f: "valid_dim ?c = valid_dim c" "valid_shape ?c = valid_shape c"
      "agrees_dim ?c = agrees_dim c" "agrees_shape ?c = agrees_shape c"
    by (auto simp: valid_dim_def valid_shape_def agrees_dim_def agrees_shape_def Value_def fun_eq_iff
        split: option.splits)
  have "good (World ?c v w)"
    using assms by (auto simp: good_def wf_ctx_def valid_handles_def models_def f)
  then show ?thesis
    using assms by (simp add: quiet_def step_def extends_def same_statics_def)
qed

lemma know_input_tensor:
  assumes "know \<Gamma> W" "From W0 \<in> set \<Gamma>"
    and i: "0 \<le> i \<and> i < int (length (requested_input_tensor (ctx_of W0))) \<and> i < int (length (input_tensors (ctx_of W0)))"
    and "\<And>W'. know \<Gamma> W' \<Longrightarrow> wp (f (input_tensors (ctx_of W0) ! nat i)) Q W'"
  shows "wp (andThen (input_tensor i) f) Q W"
proof (cases W rule: good_cases)
  case (1 c v w)
  let ?W = "World (c\<lparr>requested_input_tensor := (requested_input_tensor c)[nat i := True],
    requested_input_tensor_as_partial_shape := requested_input_tensor_as_partial_shape c\<rparr>) v w"
  note st = quiet_inputs[OF know_from[OF assms(1,2)]]
  have q: "quiet W ?W"
    using know_good[OF assms(1)]
      requested_step[of c v w "(requested_input_tensor c)[nat i := True]" "requested_input_tensor_as_partial_shape c"]
    unfolding 1 by simp
  have "input_tensor i (ctx_of W) = (Inr (input_tensors (ctx_of W0) ! nat i), ctx_of ?W)"
    using i st 1 by (simp add: input_tensor_def request_input_tensor_def op_simps andThen_def vecAt_def)
  then have "wp (input_tensor i) (\<lambda>x W'. x = input_tensors (ctx_of W0) ! nat i \<and> W' = ?W) W"
    using q by (intro wpI) (auto simp: quiet_step)
  then show ?thesis
    by (rule wp_seq) (use assms(4) know_quiet[OF q assms(1)] in auto)
qed

section \<open>Composition rules by operation\<close>

text \<open>Each is applied to a program that starts with its operation: the facts in force are an
  assumption, the facts about the arguments are looked up, what is left is arithmetic.\<close>

named_theorems infer_do \<open>one rule per operation\<close>

lemma SubshapeRange_bounds:
  assumes "know \<Gamma> W" "ShapeIs s xs k \<in> set \<Gamma>" "small_rank xs"
    and "0 \<le> normBound (int (length xs)) a \<and> normBound (int (length xs)) a \<le> normBound (int (length xs)) b"
  shows "gives (SubshapeRange s a b) (\<lambda>s'. [ShapeIs s'
    (take (nat (normBound (int (length xs)) b) - nat (normBound (int (length xs)) a))
      (drop (nat (normBound (int (length xs)) a)) xs)) k]) W"
  using assms by (intro SubshapeRange_gives) auto

lemma SubshapeFrom_bounds:
  assumes "know \<Gamma> W" "ShapeIs s xs k \<in> set \<Gamma>" "small_rank xs" "0 \<le> normBound (int (length xs)) a"
  shows "gives (SubshapeFrom s a) (\<lambda>s'. [ShapeIs s' (drop (nat (normBound (int (length xs)) a)) xs) k]) W"
  using assms by (intro SubshapeFrom_gives) auto

lemmas infer_side [infer_do] =
  know_bind[OF _ MergeDim_gives, unfolded append.simps]
  know_bind[OF _ Dim_gives, unfolded append.simps]
  know_bind[OF _ WithRank_gives, unfolded append.simps]
  know_bind[OF _ WithRankAtLeast_gives, unfolded append.simps]
  know_bind[OF _ WithRankAtMost_gives, unfolded append.simps]
  know_bind[OF _ MergeShape_gives, unfolded append.simps]
  know_bind[OF _ SubshapeRange_bounds, unfolded append.simps]
  know_bind[OF _ SubshapeFrom_bounds, unfolded append.simps]
  know_bind[OF _ Add_gives, unfolded append.simps]
  know_bind[OF _ Subtract_gives, unfolded append.simps]
  know_bind[OF _ Multiply_gives, unfolded append.simps]
  know_bind[OF _ Divide_gives, unfolded append.simps]
  know_input know_GetAttr

lemmas infer_pure [infer_do] =
  know_bind[OF _ Matrix_gives, unfolded append.simps]
  know_bind[OF _ Vector_gives, unfolded append.simps]
  know_bind[OF _ Scalar_gives, unfolded append.simps]
  know_bind[OF _ Concatenate_gives, unfolded append.simps]

lemmas fact_looks = fact_look doc_handle

text \<open>The indices that occur: the last elements of a shape, and bounds counted from its end.\<close>

named_theorems index_simps \<open>evaluating indices and bounds\<close>

lemma pyIndex_nonneg [index_simps]: "0 \<le> i \<Longrightarrow> pyIndex i n = nat i"
  by (simp add: pyIndex_def)

lemma pyIndex_last [index_simps]:
  "pyIndex (- 1) (Suc n) = n" "pyIndex (- 2) (Suc (Suc n)) = n"
  by (simp_all add: pyIndex_def)

lemma normBound_nonneg [index_simps]: "0 \<le> k \<Longrightarrow> k \<le> n \<Longrightarrow> normBound n k = k"
  by (simp add: normBound_def)

lemma normBound_neg [index_simps]: "k < 0 \<Longrightarrow> 0 \<le> n \<Longrightarrow> normBound n k = n + k"
  by (simp add: normBound_def)

lemmas [index_simps] = vecAt_def nth_append GetAttrBool_eq GetAttrString_eq

text \<open>A condition that is decided.\<close>

lemma wp_if_then: "b \<Longrightarrow> wp (andThen m f) Q W \<Longrightarrow> wp (andThen (if b then m else m') f) Q W"
  by simp

lemma wp_if_else: "\<not> b \<Longrightarrow> wp (andThen m' f) Q W \<Longrightarrow> wp (andThen (if b then m else m') f) Q W"
  by simp

lemmas infer_if = wp_if_then wp_if_else

section \<open>Setting outputs\<close>

lemma set_output_step:
  assumes g: "good W" and s: "has_shape W s ys" and i: "0 \<le> i \<and> i < int (length (outputs (ctx_of W)))"
  shows "wp (set_output i s) (\<lambda>_ W'. outputs (ctx_of W') = (outputs (ctx_of W))[nat i := s] \<and>
    (\<forall>s xs. has_shape W s xs \<longrightarrow> has_shape W' s xs) \<and> (\<forall>s. known_shape W' s = known_shape W s)) W"
proof (cases W rule: good_cases)
  case (1 c v w)
  let ?c = "c\<lparr>outputs := (outputs c)[nat i := s]\<rparr>"
  have f: "valid_dim ?c = valid_dim c" "valid_shape ?c = valid_shape c"
      "agrees_dim ?c = agrees_dim c" "agrees_shape ?c = agrees_shape c"
    by (auto simp: valid_dim_def valid_shape_def agrees_dim_def agrees_shape_def Value_def fun_eq_iff
        split: option.splits)
  have "valid_shape c s" using s 1 has_shape_valid by blast
  then have "list_all (valid_shape c) ((outputs c)[nat i := s])" if "list_all (valid_shape c) (outputs c)"
    using that set_update_subset_insert[of "outputs c" "nat i" s] by (auto simp: list_all_iff)
  then have "good (World ?c v w)"
    using g 1 by (auto simp: good_def wf_ctx_def valid_handles_def models_def f)
  moreover have "known_shape (World ?c v w) x = known_shape W x" for x
    using 1 FullyDefined_cong[of ?c c] by (simp add: known_shape_def)
  moreover have "has_shape (World ?c v w) x xs = has_shape W x xs" for x xs
    using 1 by (simp add: has_shape_def split: option.splits)
  ultimately show ?thesis
    using g i 1
    by (intro wpI[where x = "()" and W' = "World ?c v w"])
      (auto simp: set_output_def op_simps num_outputs_def step_def extends_def same_statics_def)
qed

lemma know_set_output:
  assumes "know \<Gamma> W" "From W0 \<in> set \<Gamma>" "ShapeIs s ys k \<in> set \<Gamma>"
    and "length (outputs (ctx_of W0)) = 1" "all_known W0 \<longrightarrow> k" "yss = [ys]" "i = 0"
  shows "wp (set_output i s) (\<lambda>_ W'. infers W0 yss W') W"
proof -
  have o: "outputs (ctx_of W) = outputs (ctx_of W0)" using quiet_inputs[OF know_from[OF assms(1,2)]] by simp
  have s: "has_shape W s ys" "k \<longrightarrow> known_shape W s" using know_shape[OF assms(1,3)] by auto
  obtain z where z: "outputs (ctx_of W0) = [z]" using assms(4) by (cases "outputs (ctx_of W0)") auto
  show ?thesis
    unfolding assms(7)
    by (rule wp_mono[OF set_output_step[OF know_good[OF assms(1)] s(1)]])
      (use o z s assms(5,6) in \<open>auto simp: infers_def\<close>)
qed

end
