(* ===== verification/CallRules.thy ===== *)
theory CallRules
  imports Inference
begin

text \<open>
  What the proofs of the shape functions share: the facts at the start of a call with one,
  two or three inputs, the branch on a rank that is known or not, an output left unknown,
  and optional attributes.
\<close>

lemma ret_bind: "andThen (ret x) f = f x"
  by (rule ext) (simp add: op_simps)

lemma liftR_Inr: "liftR (Inr x) = ret x"
  by (rule ext) (simp add: op_simps)

lemmas bind_simps = andThen_assoc ret_bind liftR_Inr bindR_simps split_conv sum.case

section \<open>The start of a call\<close>

lemma call1:
  assumes "called W [xs] n"
  obtains s0 where "inputs (ctx_of W) = [s0]" "length (outputs (ctx_of W)) = n"
    "know [ShapeIs s0 xs (all_known W), From W] W"
proof -
  obtain s0 where i: "inputs (ctx_of W) = [s0]"
    using assms by (auto simp: called_def list_all2_Cons2)
  show ?thesis
    by (rule that[OF i]) (use assms called_know[OF assms] in \<open>simp_all add: called_def call_facts_def i\<close>)
qed

lemma call2:
  assumes "called W [xs, ys] n"
  obtains s0 s1 where "inputs (ctx_of W) = [s0, s1]" "length (outputs (ctx_of W)) = n"
    "know [ShapeIs s0 xs (all_known W), ShapeIs s1 ys (all_known W), From W] W"
proof -
  obtain s0 s1 where i: "inputs (ctx_of W) = [s0, s1]"
    using assms by (auto simp: called_def list_all2_Cons2)
  show ?thesis
    by (rule that[OF i]) (use assms called_know[OF assms] in \<open>simp_all add: called_def call_facts_def i\<close>)
qed

lemma call3:
  assumes "called W [xs, ys, zs] n"
  obtains s0 s1 s2 where "inputs (ctx_of W) = [s0, s1, s2]" "length (outputs (ctx_of W)) = n"
    "know [ShapeIs s0 xs (all_known W), ShapeIs s1 ys (all_known W), ShapeIs s2 zs (all_known W), From W] W"
proof -
  obtain s0 s1 s2 where i: "inputs (ctx_of W) = [s0, s1, s2]"
    using assms by (auto simp: called_def list_all2_Cons2)
  show ?thesis
    by (rule that[OF i]) (use assms called_know[OF assms] in \<open>simp_all add: called_def call_facts_def i\<close>)
qed

lemma call4:
  assumes "called W [xs, ys, zs, us] n"
  obtains s0 s1 s2 s3 where "inputs (ctx_of W) = [s0, s1, s2, s3]"
    "know [ShapeIs s0 xs (all_known W), ShapeIs s1 ys (all_known W), ShapeIs s2 zs (all_known W), ShapeIs s3 us (all_known W), From W] W"
proof -
  obtain s0 s1 s2 s3 where i: "inputs (ctx_of W) = [s0, s1, s2, s3]"
    using assms by (auto simp: called_def list_all2_Cons2)
  show ?thesis
    by (rule that[OF i]) (use called_know[OF assms] in \<open>simp add: call_facts_def i\<close>)
qed

lemma called_lengths:
  assumes "called W xss n"
  shows "length (inputs (ctx_of W)) = length xss" "length (input_tensors (ctx_of W)) = length xss"
    "length (requested_input_tensor (ctx_of W)) = length xss"
    "length (requested_input_tensor_as_partial_shape (ctx_of W)) = length xss"
  using assms by (auto simp: called_def dest: list_all2_lengthD)

lemma know_sizes: "know \<Gamma> W \<Longrightarrow> ShapeIs s xs k \<in> set \<Gamma> \<Longrightarrow> list_all is_size xs"
  using has_shape_sizes know_good know_shape by blast

lemma know_pure:
  "m (ctx_of W) = (Inr x, ctx_of W) \<Longrightarrow> wp (f x) Q W \<Longrightarrow> wp (andThen m f) Q W"
  by (simp add: wp_def andThen_def)

section \<open>Branches on the rank\<close>

lemma know_ranked:
  "know \<Gamma> W \<Longrightarrow> ShapeIs s xs k \<in> set \<Gamma> \<Longrightarrow> RankKnown (ctx_of W) s \<Longrightarrow> know (Ranked s # \<Gamma>) W"
  using know_shape[of \<Gamma> W s xs k] by (auto simp: know_Cons rank_known_def)

lemma know_unranked:
  "know \<Gamma> W \<Longrightarrow> ShapeIs s xs k \<in> set \<Gamma> \<Longrightarrow> \<not> RankKnown (ctx_of W) s \<Longrightarrow> \<not> k"
  using know_shape known_shape_rank by (auto simp: rank_known_def)

lemma know_case_rank:
  assumes "know \<Gamma> W" "ShapeIs s xs k \<in> set \<Gamma>"
    and "know (Ranked s # \<Gamma>) W \<Longrightarrow> wp (f True) Q W"
    and "\<not> k \<Longrightarrow> wp (f False) Q W"
  shows "wp (andThen (gets (\<lambda>c. RankKnown c s)) f) Q W"
  using assms know_ranked[OF assms(1,2)] know_unranked[OF assms(1,2)]
  by (cases "RankKnown (ctx_of W) s") auto

lemma know_Rank:
  assumes "know \<Gamma> W" "ShapeIs s xs k \<in> set \<Gamma>"
  shows "Rank (ctx_of W) s = (if RankKnown (ctx_of W) s then int (length xs) else kUnknownRank)"
  using has_shape_RankKnown[OF know_good[OF assms(1)]] know_shape[OF assms] by (auto simp: rank_known_def)

section \<open>Outputs and attributes\<close>

lemma know_unknown_output:
  assumes "know \<Gamma> W" "From W0 \<in> set \<Gamma>" "length (outputs (ctx_of W0)) = 1" "yss = [ys]"
    and "\<not> all_known W0" "list_all is_size ys"
  shows "wp (andThen UnknownShape (set_output 0)) (\<lambda>_ W'. infers W0 yss W') W"
proof (rule know_bind[OF assms(1) UnknownShape_gives[OF assms(1,6)], unfolded append.simps])
  fix s W'
  assume k: "know (ShapeIs s ys False # \<Gamma>) W'"
  show "wp (set_output 0 s) (\<lambda>_ W'. infers W0 yss W') W'"
    by (rule know_set_output[OF k, of _ s ys False]) (use assms in auto)
qed

lemma know_tryGetAttr_ok:
  assumes "know \<Gamma> W" "From W0 \<in> set \<Gamma>" "get (attrs (ctx_of W0)) name = Inr v"
    and "wp (f (Inr v)) Q W"
  shows "wp (andThen (tryStatus (GetAttr get name)) f) Q W"
  by (rule know_tryGetAttr[where \<Gamma> = \<Gamma> and r = "Inr v"]) (use assms in auto)

text \<open>An attribute that may be missing: the code then goes on with its default.\<close>

lemma know_tryGetAttr_missing:
  assumes "know \<Gamma> W" "From W0 \<in> set \<Gamma>" "get (attrs (ctx_of W0)) name = Inl (Status e)"
    and "wp (f (Inl e)) Q W"
  shows "wp (andThen (tryStatus (GetAttr get name)) f) Q W"
  by (rule know_tryGetAttr[where \<Gamma> = \<Gamma> and r = "Inl (Status e)"]) (use assms in auto)

lemmas [infer_do] = know_tryGetAttr_ok

lemmas infer_end = know_set_output know_unknown_output

section \<open>The data of handles\<close>

text \<open>The data of a handle goes from the input to the output.\<close>

definition shaped_as :: "world \<Rightarrow> bool \<Rightarrow> int list \<Rightarrow> world \<Rightarrow> bool" where
  "shaped_as W k ys W' \<longleftrightarrow> list_all2 (has_shape W') (outputs (ctx_of W')) [ys] \<and>
     (k \<longrightarrow> list_all (known_shape W') (outputs (ctx_of W')) \<and>
       (\<forall>h. input_handle_shapes_and_types (ctx_of W) ! 0 = Some h \<longrightarrow> output_handle_shapes_and_types (ctx_of W') ! 0 = Some h))"

definition handle_slots :: "world \<Rightarrow> bool" where
  "handle_slots W \<longleftrightarrow> input_handle_shapes_and_types (ctx_of W) \<noteq> [] \<and> output_handle_shapes_and_types (ctx_of W) \<noteq> []"

lemma set_output_handle_step:
  assumes g: "good W" and h: "Some h \<in> set (input_handle_shapes_and_types (ctx_of W))" "output_handle_shapes_and_types (ctx_of W) \<noteq> []"
  shows "wp (set_output_handle_shapes_and_types 0 h) (\<lambda>_ W'. outputs (ctx_of W') = outputs (ctx_of W) \<and>
    (\<forall>s xs. has_shape W s xs \<longrightarrow> has_shape W' s xs) \<and> (\<forall>s. known_shape W' s = known_shape W s) \<and>
    output_handle_shapes_and_types (ctx_of W') ! 0 = Some h) W"
proof (cases W rule: good_cases)
  case (1 c v w)
  let ?c = "c\<lparr>output_handle_shapes_and_types := (output_handle_shapes_and_types c)[0 := Some h]\<rparr>"
  have f: "valid_dim ?c = valid_dim c" "valid_shape ?c = valid_shape c"
      "agrees_dim ?c = agrees_dim c" "agrees_shape ?c = agrees_shape c"
    by (auto simp: valid_dim_def valid_shape_def agrees_dim_def agrees_shape_def Value_def fun_eq_iff
        split: option.splits)
  have e: "valid_handles ?c = valid_handles c" by (intro ext) (simp only: valid_handles_def f)
  have "valid_handles c ((output_handle_shapes_and_types c)[0 := Some h])"
    if "valid_handles c (output_handle_shapes_and_types c)" "valid_handles c (input_handle_shapes_and_types c)"
    using that h(1) 1 set_update_subset_insert[of "output_handle_shapes_and_types c" 0 "Some h"]
    unfolding valid_handles_def list_all_iff by fastforce
  then have "good (World ?c v w)"
    using g 1 by (auto simp: good_def wf_ctx_def models_def f e)
  moreover have "known_shape (World ?c v w) x = known_shape W x" for x
    using 1 FullyDefined_cong[of ?c c] by (simp add: known_shape_def)
  moreover have "has_shape (World ?c v w) x xs = has_shape W x xs" for x xs
    using 1 by (simp add: has_shape_def split: option.splits)
  ultimately show ?thesis
    using g h 1
    by (intro wpI[where x = "()" and W' = "World ?c v w"])
      (auto simp: set_output_handle_shapes_and_types_def op_simps step_def extends_def same_statics_def)
qed

lemma handles_step: "step W W' \<Longrightarrow> handle_slots W \<Longrightarrow> handle_slots W'"
  using step_statics[of W W'] by (auto simp: handle_slots_def same_statics_def simp flip: length_greater_0_conv)

text \<open>The end of a function that sets its output and passes the data of its handle on.\<close>

lemma know_output_with_handle:
  assumes k: "know \<Gamma> W" "From W0 \<in> set \<Gamma>" "ShapeIs s ys k \<in> set \<Gamma>"
    and o: "length (outputs (ctx_of W0)) = 1" "handle_slots W0"
  shows "wp (andThen (set_output 0 s) (\<lambda>_. andThen (input_handle_shapes_and_types_at 0) (\<lambda>h.
      case h of None \<Rightarrow> ret () | Some h \<Rightarrow> set_output_handle_shapes_and_types 0 h))) (\<lambda>_ W'. shaped_as W0 k ys W') W"
proof -
  have q: "quiet W0 W" using know_from[OF k(1,2)] .
  have hs: "has_shape W s ys" "k \<longrightarrow> known_shape W s" using know_shape[OF k(1,3)] by auto
  obtain z where z: "outputs (ctx_of W) = [z]"
    using o(1) quiet_inputs[OF q] by (cases "outputs (ctx_of W0)") auto
  have i: "input_handle_shapes_and_types (ctx_of W) = input_handle_shapes_and_types (ctx_of W0)"
    using step_statics[OF quiet_step[OF q]] by (simp add: same_statics_def)
  show ?thesis
  proof (rule wp_seq[OF wp_step_conj[OF set_output_step[OF know_good[OF k(1)] hs(1)]]])
    show "0 \<le> (0 :: int) \<and> 0 < int (length (outputs (ctx_of W)))" using z by simp
  next
    fix u W1
    assume "step W W1 \<and> outputs (ctx_of W1) = (outputs (ctx_of W))[nat 0 := s] \<and>
      (\<forall>s xs. has_shape W s xs \<longrightarrow> has_shape W1 s xs) \<and> (\<forall>s. known_shape W1 s = known_shape W s)"
    then have s: "step W W1" and o1: "outputs (ctx_of W1) = [s]" and h1: "has_shape W1 s ys" "k \<longrightarrow> known_shape W1 s"
      using z hs by auto
    have ss: "step W0 W1" using step_trans[OF quiet_step[OF q] s] .
    have i1: "input_handle_shapes_and_types (ctx_of W1) = input_handle_shapes_and_types (ctx_of W0)"
      using step_statics[OF ss] by (simp add: same_statics_def)
    have sl: "handle_slots W1" using handles_step[OF ss o(2)] .
    let ?h = "input_handle_shapes_and_types (ctx_of W1) ! 0"
    have at: "input_handle_shapes_and_types_at 0 (ctx_of W1) = (Inr ?h, ctx_of W1)"
      using sl by (simp add: input_handle_shapes_and_types_at_def handle_slots_def)
    have "wp (case ?h of None \<Rightarrow> ret () | Some h \<Rightarrow> set_output_handle_shapes_and_types 0 h) (\<lambda>_ W'. shaped_as W0 k ys W') W1"
    proof (cases ?h)
      case None
      then show ?thesis using o1 h1 i1 good_step[OF s] by (auto simp: shaped_as_def intro!: wp_ret)
    next
      case (Some h)
      have "Some h \<in> set (input_handle_shapes_and_types (ctx_of W1))"
        using Some sl by (metis handle_slots_def length_greater_0_conv nth_mem)
      from set_output_handle_step[OF good_step[OF s] this] have "wp (set_output_handle_shapes_and_types 0 h) (\<lambda>_ W'. shaped_as W0 k ys W') W1"
        by (rule wp_mono) (use sl o1 h1 i1 Some in \<open>auto simp: handle_slots_def shaped_as_def\<close>)
      then show ?thesis using Some by simp
    qed
    then show "wp (andThen (input_handle_shapes_and_types_at 0) (\<lambda>h. case h of None \<Rightarrow> ret ()
        | Some h \<Rightarrow> set_output_handle_shapes_and_types 0 h)) (\<lambda>_ W'. shaped_as W0 k ys W') W1"
      using at by (simp add: wp_def andThen_def)
  qed
qed

lemma unknown_output_wp:
  assumes "know \<Gamma> W" "From W0 \<in> set \<Gamma>" "length (outputs (ctx_of W0)) = 1" "list_all is_size ys" "\<not> k"
  shows "wp (andThen UnknownShape (set_output 0)) (\<lambda>_ W'. shaped_as W0 k ys W') W"
proof (rule know_bind[OF assms(1) UnknownShape_gives[OF assms(1,4)], unfolded append.simps])
  fix s W'
  assume k: "know (ShapeIs s ys False # \<Gamma>) W'"
  have o: "length (outputs (ctx_of W')) = 1" using quiet_inputs[OF know_from[OF k, of W0]] assms(2,3) by simp
  show "wp (set_output 0 s) (\<lambda>_ W'. shaped_as W0 k ys W') W'"
    by (rule wp_mono[OF set_output_step[OF know_good[OF k], of s ys]])
      (use know_shape[OF k, of s ys False] o assms(5) in \<open>auto simp: shaped_as_def length_Suc_conv\<close>)
qed

lemma UnchangedShape_wp:
  assumes c: "called W (xs # xss) 1" "handle_slots W"
  shows "wp UnchangedShape (\<lambda>_ W'. shaped_as W (all_known W) xs W') W"
proof -
  obtain s ss where i: "inputs (ctx_of W) = s # ss" using c(1) by (auto simp: called_def list_all2_Cons2)
  have k: "know [ShapeIs s xs (all_known W), From W] W"
    using called_know[OF c(1)] by (auto simp: call_facts_def i know_def)
  show ?thesis
    unfolding UnchangedShape_def
    by (rule know_input[OF k], rule fact_there, rule fact_here, simp add: i vecAt_def, rule know_output_with_handle[OF k])
      (use c in \<open>simp_all add: called_def\<close>)
qed

section \<open>Sample calls\<close>

text \<open>
  A call with inputs of known rank, given by what the context knows of each dimension
  (\<open>-1\<close>: nothing) and by the sizes of the run.
\<close>

primrec spans :: "nat \<Rightarrow> int list list \<Rightarrow> dim list option list" where
  "spans k [] = []"
| "spans k (xs # xss) = Some [k..<k + length xs] # spans (k + length xs) xss"

definition sample_call :: "int list list \<Rightarrow> int list list \<Rightarrow> tensor option list \<Rightarrow> nat \<Rightarrow> attrs \<Rightarrow> world" where
  "sample_call seen sizes ts n as =
     sample_world (sample_ctx (concat seen) (spans 0 seen) (map Some [0..<length seen]) ts n as)
       (concat sizes) sizes"

definition seen_as :: "int \<Rightarrow> int \<Rightarrow> bool" where
  "seen_as x y \<longleftrightarrow> is_size y \<and> (x = - 1 \<or> x = y)"

lemma length_spans [simp]: "length (spans k xss) = length xss"
  by (induction xss arbitrary: k) auto

lemma spans_agree:
  assumes "list_all2 (list_all2 seen_as) seen sizes" "i < length seen" "k = length pre"
  shows "\<exists>ds. spans k seen ! i = Some ds \<and> list_all (\<lambda>d. d < k + length (concat seen)) ds \<and>
    sizes ! i = map ((!) (pre @ concat sizes)) ds"
  using assms
proof (induction seen sizes arbitrary: i k pre rule: list_all2_induct)
  case Nil
  then show ?case by simp
next
  case (Cons xs xss ys yss)
  have l: "length xs = length ys" using Cons.hyps(1) by (rule list_all2_lengthD)
  show ?case
  proof (cases i)
    case 0
    have "ys = map ((!) (pre @ ys @ concat yss)) [length pre..<length pre + length ys]"
      by (rule nth_equalityI) (simp_all add: nth_append)
    then show ?thesis using 0 Cons.prems l by (simp add: list_all_iff)
  next
    case (Suc j)
    have "j < length xss" using Cons.prems Suc by simp
    from Cons.IH[OF this, of "k + length xs" "pre @ ys"] obtain ds where
      "spans (k + length xs) xss ! j = Some ds" "list_all (\<lambda>d. d < k + length xs + length (concat xss)) ds"
      "yss ! j = map ((!) ((pre @ ys) @ concat yss)) ds"
      using l Cons.prems(2) by auto
    then show ?thesis using Suc by (simp add: add.assoc)
  qed
qed

lemma concat_list_all2: "list_all2 (list_all2 P) xss yss \<Longrightarrow> list_all2 P (concat xss) (concat yss)"
  by (induction xss yss rule: list_all2_induct) (auto intro: list_all2_appendI)

lemma fits_sample_call:
  assumes "list_all2 (list_all2 seen_as) seen sizes"
  shows "fits (sample_ctx (concat seen) (spans 0 seen) (map Some [0..<length seen]) ts n as) (concat sizes) sizes"
proof -
  have c: "list_all2 seen_as (concat seen) (concat sizes)" using assms by (rule concat_list_all2)
  then have el: "d < length (concat seen) \<Longrightarrow> seen_as (concat seen ! d) (concat sizes ! d)" for d
    by (simp add: list_all2_conv_all_nth)
  have l: "length (concat sizes) = length (concat seen)" "length sizes = length seen"
    using list_all2_lengthD[OF c] list_all2_lengthD[OF assms] by auto
  have sp: "\<exists>ds. spans 0 seen ! i = Some ds \<and> list_all (\<lambda>d. d < length (concat seen)) ds \<and>
      sizes ! i = map ((!) (concat sizes)) ds" if "i < length seen" for i
    using spans_agree[OF assms that, of 0 "[]"] by simp
  have dims: "- 1 \<le> x \<and> x \<le> int64_max" if "x \<in> set (concat seen)" for x
    using el that unfolding in_set_conv_nth seen_as_def is_size_def by fastforce
  have sz: "list_all is_size (sizes ! i)" if "i < length seen" for i
    using assms that by (auto simp: list_all2_conv_all_nth list_all_length seen_as_def)
  have sh: "d < length (concat seen)" if s: "Some ds \<in> set (spans 0 seen)" "d \<in> set ds" for ds d
  proof -
    obtain i where "spans 0 seen ! i = Some ds" "i < length seen" using s(1) by (auto simp: in_set_conv_nth)
    then show ?thesis using sp[of i] s(2) by (auto simp: list_all_iff)
  qed
  have wf: "wf_ctx (sample_ctx (concat seen) (spans 0 seen) (map Some [0..<length seen]) ts n as)"
    using dims
    by (auto simp: wf_ctx_def sample_ctx_def valid_dim_def valid_handles_def list_all_iff
        valid_shape_def split: option.splits intro: sh simp del: length_concat)
  let ?c = "sample_ctx (concat seen) (spans 0 seen) (map Some [0..<length seen]) ts n as"
  have d: "list_all (\<lambda>d. is_size (concat sizes ! d) \<and>
      (all_dims ?c ! d \<noteq> - 1 \<longrightarrow> concat sizes ! d = all_dims ?c ! d)) [0..<length (concat sizes)]"
    using el unfolding l seen_as_def by (fastforce simp: sample_ctx_def list_all_iff simp del: length_concat)
  have s: "list_all (\<lambda>a. list_all is_size (sizes ! a) \<and>
      (case all_shapes ?c ! a of None \<Rightarrow> True
       | Some xs \<Rightarrow> list_all (\<lambda>d. d < length (concat sizes)) xs \<and> sizes ! a = map ((!) (concat sizes)) xs))
      [0..<length sizes]"
    unfolding l using sz sp by (fastforce simp: sample_ctx_def list_all_iff[of _ "[0..<_]"] simp del: length_concat)
  show ?thesis
    unfolding fits_def using wf l d s by (simp add: sample_ctx_def del: length_concat)
qed

lemma called_sample_call:
  assumes "list_all2 (list_all2 seen_as) seen sizes" "length ts \<le> length seen" "m = n"
  shows "called (sample_call seen sizes ts n as) sizes m"
proof -
  have l: "length sizes = length seen" using list_all2_lengthD[OF assms(1)] by simp
  have "good (sample_call seen sizes ts n as)"
    unfolding sample_call_def by (rule good_sample[OF fits_sample_call[OF assms(1)]])
  then show ?thesis
    using assms(2,3) l
    by (auto simp: called_def sample_call_def sample_ctx_def list_all2_conv_all_nth has_shape_def sample_world_def)
qed

lemma sample_call_simps [simp]:
  "attrs (ctx_of (sample_call seen sizes ts n as)) = as"
  "input_tensors (ctx_of (sample_call seen sizes ts n as)) = ts @ replicate (length seen - length ts) None"
  by (simp_all add: sample_call_def sample_ctx_def)

end
