(* ===== verification/WindowSound.thy ===== *)
theory WindowSound
  imports Windowed CallRules
begin

text \<open>
  Shape inference and the kernels compute the same windowed output size
  (\<open>GetWindowedOutputSizeFromDimsV2\<close> and \<open>GetWindowedOutputSizeVerbose\<close>).
\<close>

lemma signed64_Inr [simp]: "signed64 x = Inr y \<longleftrightarrow> in_int64 x \<and> y = x"
  by (auto simp: signed64_def)

lemma effectiveFilterSize_Inr:
  "effectiveFilterSize f d = Inr e \<Longrightarrow> e = (f - 1) * d + 1"
  by (auto simp: effectiveFilterSize_def bindR_eq_Inr add64_def sub64_def mul64_def)

text \<open>The window that fits: the dilated filter is at most the padded input.\<close>

definition windowFits :: "int \<Rightarrow> int \<Rightarrow> int \<Rightarrow> int \<Rightarrow> bool" where
  "windowFits input_size pad filter_size dilation_rate \<longleftrightarrow>
     1 \<le> filter_size \<and> (filter_size - 1) * dilation_rate + 1 \<le> input_size + pad"

text \<open>What the kernel has checked and computed, as conditions on the run.\<close>

definition windowOf :: "int \<Rightarrow> int \<Rightarrow> int \<Rightarrow> int \<Rightarrow> padding \<Rightarrow> int \<Rightarrow> int \<Rightarrow> int \<Rightarrow> bool" where
  "windowOf n k dil stride pt pb pa out \<longleftrightarrow>
     0 < stride \<and> 1 \<le> dil \<and>
     (case pt of
        SAME \<Rightarrow> n + stride - 1 \<le> int64_max \<and> out = (n + stride - 1) div stride
      | _ \<Rightarrow> let pad = (if pt = VALID then 0 else pb + pa) in
          is_size pad \<and> n + pad \<le> int64_max \<and> windowFits n pad k dil \<and>
          n + pad - ((k - 1) * dil + 1) + stride \<le> int64_max \<and>
          out = (n + pad - ((k - 1) * dil + 1) + stride) div stride)"

lemma kernel_windowOf:
  assumes "GetWindowedOutputSizeVerbose n k dil stride pt pb pa = Inr (out, before, after)" "is_size n"
    and "pt = EXPLICIT \<longrightarrow> is_size pb \<and> is_size pa \<and> in_int64 (pb + pa)"
    and "pt \<noteq> SAME \<longrightarrow> windowFits n (if pt = VALID then 0 else pb + pa) k dil"
  shows "windowOf n k dil stride pt pb pa out"
proof -
  have pos: "0 < stride" "1 \<le> dil"
    using assms(1) by (auto simp: GetWindowedOutputSizeVerbose_def split: if_splits)
  obtain e where e: "effectiveFilterSize k dil = Inr e"
    using assms(1) pos by (cases "effectiveFilterSize k dil") (auto simp: GetWindowedOutputSizeVerbose_def)
  have ee: "e = (k - 1) * dil + 1" using e by (rule effectiveFilterSize_Inr)
  note ops = bindR_eq_Inr add64_def sub64_def mul64_def Let_def
  show ?thesis
  proof (cases pt)
    case SAME
    have "in_int64 (n + stride)" "out = cdiv (n + stride - 1) stride"
      using assms(1) pos SAME e by (auto simp: GetWindowedOutputSizeVerbose_def ops split: if_splits)
    then show ?thesis
      using assms(2) pos SAME by (auto simp: windowOf_def cdiv_nonneg is_size_def in_int64_def)
  next
    case VALID
    have fits: "windowFits n 0 k dil" using assms(4) VALID by simp
    have "in_int64 (n - e + stride)" "out = cdiv (n - e + stride) stride"
      using assms(1) pos VALID e by (auto simp: GetWindowedOutputSizeVerbose_def ops split: if_splits)
    then show ?thesis
      using fits pos ee VALID assms(2)
      by (auto simp: windowOf_def cdiv_nonneg windowFits_def in_int64_def is_size_def)
  next
    case EXPLICIT
    have fits: "windowFits n (pb + pa) k dil" using assms(4) EXPLICIT by simp
    have *: "in_int64 (n + pb + pa)" "in_int64 (n + pb + pa - e + stride)" "out = cdiv (n + pb + pa - e + stride) stride"
      using assms(1) pos EXPLICIT e by (auto simp: GetWindowedOutputSizeVerbose_def ops split: if_splits)
    have r: "n + pb + pa - e + stride = n + (pb + pa) - ((k - 1) * dil + 1) + stride" using ee by simp
    have nn: "0 \<le> n + (pb + pa) - ((k - 1) * dil + 1) + stride" using fits pos by (simp add: windowFits_def)
    have "is_size (pb + pa)" using assms(3) EXPLICIT by (auto simp: is_size_def in_int64_def)
    then show ?thesis
      using fits pos * nn EXPLICIT unfolding r
      by (auto simp: windowOf_def cdiv_nonneg in_int64_def algebra_simps)
  qed
qed

lemma know_dimOrConst:
  assumes "know \<Gamma> W" "doc_in \<Gamma> fd k j" "wp (f ()) Q W"
  shows "wp (andThen (dimOrConst fd) f) Q W"
proof -
  have "has_doc W fd k" using doc_in_has[OF assms(1,2)] by auto
  then show ?thesis using assms(3) by (auto simp: is_size_def)
qed

lemma MakeDimDoc_gives:
  assumes "know \<Gamma> W" "doc_in \<Gamma> fd k j"
  shows "gives (MakeDim fd) (\<lambda>d. [DimIs d k j]) W"
  by (rule dim_gives[OF MakeDim_wp[OF know_good[OF assms(1)]]])
    (use doc_in_has[OF assms] known_after_MakeDim in auto)

lemma wp_assoc: "wp (andThen m (\<lambda>x. andThen (f x) g)) Q W \<Longrightarrow> wp (andThen (andThen m f) g) Q W"
  by (simp add: andThen_assoc)

lemmas [infer_do] = know_bind[OF _ MakeDimDoc_gives, unfolded append.simps] know_dimOrConst

text \<open>The end of a computation that gives a dimension.\<close>

lemma gives_dim_end:
  assumes "know \<Gamma> W'" "From W \<in> set \<Gamma>" "gives m (\<lambda>x. [DimIs x n' k']) W'"
    and "n' = n" "k \<longrightarrow> k'"
  shows "wp m (\<lambda>x W2. quiet W W2 \<and> list_all (holds W2) [DimIs x n k]) W'"
  by (rule wp_mono[OF assms(3)]) (use assms know_from[OF assms(1,2)] in \<open>auto intro: quiet_trans\<close>)

lemmas dim_ends = gives_dim_end[OF _ _ Add_gives] gives_dim_end[OF _ _ Subtract_gives]
  gives_dim_end[OF _ _ Multiply_gives] gives_dim_end[OF _ _ Divide_gives]

lemma SAME_gives:
  assumes "know [DimIs d n k, From W] W1" and st: "is_size stride" "0 < stride" "n + stride - 1 \<le> int64_max"
  shows "wp (andThen (Add d (Const (stride - 1))) (\<lambda>s. Divide s (Const stride) False))
    (\<lambda>x W2. quiet W W2 \<and> list_all (holds W2) [DimIs x ((n + stride - 1) div stride) k]) W1"
proof -
  have c: "doc_in \<Gamma> (Const (stride - 1)) (stride - 1) True" "doc_in \<Gamma> (Const stride) stride True" for \<Gamma>
    using st by (auto simp: is_size_def intro!: doc_const)
  show ?thesis
    using assms(1)
    by - ((rule infer_do, assumption+, (rule fact_looks c)+, ((use st in \<open>simp; fail\<close>)+)?) |
      (rule dim_ends, assumption+, (rule fact_looks)+, assumption, (rule fact_looks c)+,
        (use st in \<open>simp add: algebra_simps; fail\<close>)+))+
qed

text \<open>The rest of \<open>VALID\<close> and \<open>EXPLICIT\<close>, after the padding has been added up.\<close>

lemma padded_gives:
  assumes know: "know [DimIs d n k, F, From W] W1" and doc: "fd = Handle a \<and> F = DimIs a kn j \<or> (\<forall>\<Gamma>. doc_in \<Gamma> fd kn j)"
    and st: "is_size stride" "0 < stride" "1 \<le> dil" "is_size dil"
    and pad: "is_size pad" "n + pad \<le> int64_max"
    and fits: "windowFits n pad kn dil" and out: "n + pad - ((kn - 1) * dil + 1) + stride \<le> int64_max"
  shows "wp (andThen (Add d (Const pad)) (\<lambda>input_size.
         andThen
           (if dil > 1 then
              andThen (andThen (dimOrConst fd) (\<lambda>_. MakeDim fd)) (\<lambda>f.
              andThen (Subtract f (Const 1)) (\<lambda>window_size.
              andThen (Multiply window_size (Const dil)) (\<lambda>window_size.
              andThen (Add window_size (Const 1)) (\<lambda>window_size.
              Subtract input_size (Handle window_size)))))
            else Subtract input_size fd) (\<lambda>output_size.
         andThen (Add output_size (Const stride)) (\<lambda>output_size.
         Divide output_size (Const stride) False))))
    (\<lambda>x W2. quiet W W2 \<and> list_all (holds W2)
      [DimIs x ((n + pad - ((kn - 1) * dil + 1) + stride) div stride) (k \<and> j)]) W1"
proof -
  have c: "doc_in \<Gamma> (Const pad) pad True" "doc_in \<Gamma> (Const stride) stride True"
      "doc_in \<Gamma> (Const dil) dil True" "doc_in \<Gamma> (Const 1) 1 True" for \<Gamma>
    using st pad by (auto simp: is_size_def intro!: doc_const)
  have w: "1 \<le> kn" "(kn - 1) * dil + 1 \<le> n + pad" using fits by (auto simp: windowFits_def)
  have dil: "dil > 1 \<or> dil = 1" using st by auto
  from doc show ?thesis
  proof
    assume h: "fd = Handle a \<and> F = DimIs a kn j"
    have k: "know [DimIs d n k, DimIs a kn j, From W] W1" using know h by simp
    show ?thesis
      using dil k unfolding conjunct1[OF h]
      by (elim disjE; simp only:) ((rule infer_do, assumption+, (rule fact_looks c)+, ((use st pad w out in \<open>simp; fail\<close>)+)?) |
       (rule infer_if, (simp; fail)) | (rule wp_assoc) |
      (rule dim_ends, assumption+, (rule fact_looks)+, assumption, (rule fact_looks c)+,
        (use st pad w out in \<open>simp add: algebra_simps; fail\<close>)+))+
  next
    assume h: "\<forall>\<Gamma>. doc_in \<Gamma> fd kn j"
    note c = c h[rule_format]
    show ?thesis
      using dil know
      by (elim disjE; simp only:) ((rule infer_do, assumption+, (rule fact_looks c)+, ((use st pad w out in \<open>simp; fail\<close>)+)?) |
       (rule infer_if, (simp; fail)) | (rule wp_assoc) |
      (rule dim_ends, assumption+, (rule fact_looks)+, assumption, (rule fact_looks c)+,
        (use st pad w out in \<open>simp add: algebra_simps; fail\<close>)+))+
  qed
qed

lemma FromDimsV2_gives:
  assumes "know \<Gamma> W" "DimIs d n k \<in> set \<Gamma>" "doc_in \<Gamma> fd kn j"
    and w: "windowOf n kn dil stride pt pb pa out" and st: "is_size stride" and dl: "is_size dil"
  shows "gives (GetWindowedOutputSizeFromDimsV2 d fd dil stride pt pb pa) (\<lambda>y. [DimIs y out (k \<and> j)]) W"
proof (cases "pt = SAME")
  case True
  have d: "know [DimIs d n k, From W] W"
    using know_dim[OF assms(1,2)] know_good[OF assms(1)] by (simp add: know_def quiet_refl)
  have "wp (andThen (Add d (Const (stride - 1))) (\<lambda>s. Divide s (Const stride) False))
      (\<lambda>x W2. quiet W W2 \<and> list_all (holds W2) [DimIs x out k]) W"
    using SAME_gives[OF d st] w True by (simp add: windowOf_def)
  then have "wp (andThen (Add d (Const (stride - 1))) (\<lambda>s. Divide s (Const stride) False))
      (\<lambda>x W2. quiet W W2 \<and> list_all (holds W2) [DimIs x out (k \<and> j)]) W"
    by (rule wp_conseq) auto
  then show ?thesis using True w by (simp add: GetWindowedOutputSizeFromDimsV2_def windowOf_def)
next
  case False
  define pad where "pad = (if pt = VALID then 0 else pb + pa)"
  have w': "0 < stride" "1 \<le> dil" "is_size pad" "n + pad \<le> int64_max" "windowFits n pad kn dil"
      "n + pad - ((kn - 1) * dil + 1) + stride \<le> int64_max"
      "out = (n + pad - ((kn - 1) * dil + 1) + stride) div stride"
    using w False by (auto simp: windowOf_def pad_def Let_def split: padding.splits)
  have "\<exists>F a. know [DimIs d n k, F, From W] W \<and> (fd = Handle a \<and> F = DimIs a kn j \<or> (\<forall>\<Gamma>. doc_in \<Gamma> fd kn j))"
  proof (cases fd)
    case (Handle a)
    then show ?thesis
      using know_dim[OF assms(1,2)] know_dim[OF assms(1), of a kn j] assms(3) know_good[OF assms(1)]
      by (intro exI[of _ "DimIs a kn j"] exI[of _ a]) (simp add: know_def quiet_refl doc_in_def)
  next
    case (Const v)
    then show ?thesis
      using know_dim[OF assms(1,2)] assms(3) know_good[OF assms(1)]
      by (intro exI[of _ "From W"]) (simp add: know_def quiet_refl doc_in_def)
  qed
  then obtain F a where F: "know [DimIs d n k, F, From W] W"
      "fd = Handle a \<and> F = DimIs a kn j \<or> (\<forall>\<Gamma>. doc_in \<Gamma> fd kn j)" by blast
  have "in_int64 pad" using w'(3) by (simp add: is_size_def in_int64_def)
  then show ?thesis
    using padded_gives[OF F st w'(1,2) dl w'(3-6)] False w'(1,2,7)
    by (cases pt) (simp_all add: GetWindowedOutputSizeFromDimsV2_def pad_def add64_def wp_liftR_bind[where x = pad] Let_def)
qed

section \<open>The two computations agree\<close>

text \<open>
  C2: Shape inference and the kernel compute the same window size. When the kernel
  accepts the sizes of a run and the dilated filter fits into the padded input,
  GetWindowedOutputSizeFromDimsV2 does not reject them, the dimension it returns has the
  size GetWindowedOutputSizeVerbose computed, and it is known when the sizes of the input
  and of the filter are.
\<close>

theorem FromDimsV2_agrees_with_kernel:
  assumes "good W" and "has_dim W d n" and "has_doc W fd k"
    and "GetWindowedOutputSizeVerbose n k dil stride pt pb pa = Inr (out, before, after)"
    and "is_size stride" "is_size dil"
    and "pt = EXPLICIT \<longrightarrow> is_size pb \<and> is_size pa \<and> in_int64 (pb + pa)"
    and "pt \<noteq> SAME \<longrightarrow> windowFits n (if pt = VALID then 0 else pb + pa) k dil"
  shows "wp (GetWindowedOutputSizeFromDimsV2 d fd dil stride pt pb pa)
           (\<lambda>y W'. quiet W W' \<and> has_dim W' y out \<and>
              (known_dim W d \<and> ValueKnown (ctx_of W) fd \<longrightarrow> known_dim W' y)) W"
proof -
  have w: "windowOf n k dil stride pt pb pa out"
    using assms has_dim_size by (intro kernel_windowOf) auto
  let ?F = "case fd of Handle a \<Rightarrow> [DimIs a k (ValueKnown (ctx_of W) fd)] | Const _ \<Rightarrow> []"
  have "know (DimIs d n (known_dim W d) # ?F) W"
    using assms(1-3) by (auto simp: know_def known_dim_def split: dim_or_const.splits)
  moreover have "doc_in (DimIs d n (known_dim W d) # ?F) fd k (ValueKnown (ctx_of W) fd)"
    using assms(3) by (auto simp: doc_in_def ValueKnown_def Value_def is_size_def split: dim_or_const.splits)
  ultimately show ?thesis
    by (intro wp_mono[OF FromDimsV2_gives[OF _ _ _ w assms(5,6)]]) auto
qed

text \<open>An input of 7, a filter of 3, dilation 2, stride 2, \<open>VALID\<close>: two windows.\<close>

lemma FromDimsV2_agrees_with_kernel_witness:
  "wp (GetWindowedOutputSizeFromDimsV2 0 (Const 3) 2 2 VALID 0 0)
     (\<lambda>y W'. has_dim W' y 2)
     (sample_world (sample_ctx [- 1] [] [] [] 0 []) [7] [])"
proof -
  let ?c = "sample_ctx [- 1] [] [] [] 0 []"
  let ?W = "sample_world ?c [7] []"
  have g: "good ?W"
    by (rule good_sample) (simp add: fits_def sample_ctx_def wf_ctx_def valid_handles_def is_size_def)
  have d: "has_dim ?W 0 7" by (simp add: has_dim_def sample_world_def valid_dim_def sample_ctx_def)
  have f: "has_doc ?W (Const 3) 3" by (simp add: is_size_def)
  have k: "GetWindowedOutputSizeVerbose 7 3 2 2 VALID 0 0 = Inr (2, 0, 0)" by code_simp
  show ?thesis
    by (rule wp_mono[OF FromDimsV2_agrees_with_kernel[OF g d f k]]) (simp_all add: is_size_def windowFits_def)
qed

section \<open>Where the windows lie\<close>

text \<open>The size of the filter with the holes that dilation makes.\<close>

definition dilated :: "int \<Rightarrow> int \<Rightarrow> int" where
  "dilated k dil = (k - 1) * dil + 1"

lemma ceil_div_bounds:
  fixes a s :: int
  assumes "0 < s"
  shows "((a + s - 1) div s - 1) * s < a" "a \<le> ((a + s - 1) div s) * s"
proof -
  let ?q = "(a + s - 1) div s"
  have "?q * s + (a + s - 1) mod s = a + s - 1" by (rule div_mult_mod_eq)
  moreover have "0 \<le> (a + s - 1) mod s" "(a + s - 1) mod s < s" using assms by simp_all
  moreover have "(?q - 1) * s = ?q * s - s" by (simp add: left_diff_distrib)
  ultimately show "(?q - 1) * s < a" "a \<le> ?q * s" by linarith+
qed

lemma floor_div_bounds:
  fixes a s :: int
  assumes "0 < s"
  shows "((a + s) div s - 1) * s \<le> a" "a < ((a + s) div s) * s"
proof -
  let ?q = "(a + s) div s"
  have "?q * s + (a + s) mod s = a + s" by (rule div_mult_mod_eq)
  moreover have "0 \<le> (a + s) mod s" "(a + s) mod s < s" using assms pos_mod_sign pos_mod_bound by blast+
  moreover have "(?q - 1) * s = ?q * s - s" by (simp add: left_diff_distrib)
  ultimately show "(?q - 1) * s \<le> a" "a < ?q * s" by linarith+
qed

lemma window_geometry:
  assumes "GetWindowedOutputSizeVerbose n k dil stride pt pb pa = Inr (out, before, after)"
    and "0 \<le> n" "1 \<le> k" and "pt \<noteq> SAME \<longrightarrow> dilated k dil \<le> n + (if pt = VALID then 0 else pb + pa)"
  shows "pt = VALID \<longrightarrow> before = 0 \<and> after = 0"
    and "pt = EXPLICIT \<longrightarrow> before = pb \<and> after = pa"
    and "(out - 1) * stride + dilated k dil \<le> n + before + after"
    and "pt \<noteq> SAME \<longrightarrow> n + before + after < out * stride + dilated k dil"
    and "pt = SAME \<longrightarrow> (out - 1) * stride < n \<and> n \<le> out * stride \<and> 0 \<le> before \<and>
           (after = before \<or> after = before + 1) \<and>
           (before + after = 0 \<or> (out - 1) * stride + dilated k dil = n + before + after)"
proof -
  have pos: "0 < stride" "1 \<le> dil"
    using assms(1) by (auto simp: GetWindowedOutputSizeVerbose_def split: if_splits)
  obtain e where e: "effectiveFilterSize k dil = Inr e"
    using assms(1) pos by (cases "effectiveFilterSize k dil") (auto simp: GetWindowedOutputSizeVerbose_def)
  have ee: "dilated k dil = e" using effectiveFilterSize_Inr[OF e] by (simp add: dilated_def)
  note ops = bindR_eq_Inr add64_def sub64_def mul64_def Let_def
  have VALID: "before = 0 \<and> after = 0 \<and> out = (n - e + stride) div stride" if "pt = VALID"
    using assms pos that e ee
    by (auto simp: GetWindowedOutputSizeVerbose_def ops cdiv_nonneg split: if_splits)
  have EXPLICIT: "before = pb \<and> after = pa \<and> out = (n + pb + pa - e + stride) div stride" if "pt = EXPLICIT"
    using assms pos that e ee
    by (auto simp: GetWindowedOutputSizeVerbose_def ops cdiv_nonneg split: if_splits)
  have SAME: "out = (n + stride - 1) div stride \<and> before = max 0 ((out - 1) * stride + e - n) div 2 \<and>
      after = max 0 ((out - 1) * stride + e - n) - before" if "pt = SAME"
    using assms pos that e ee
    by (auto simp: GetWindowedOutputSizeVerbose_def ops cdiv_nonneg split: if_splits)
  show "pt = VALID \<longrightarrow> before = 0 \<and> after = 0" "pt = EXPLICIT \<longrightarrow> before = pb \<and> after = pa"
    using VALID EXPLICIT by auto
  show "pt \<noteq> SAME \<longrightarrow> n + before + after < out * stride + dilated k dil"
    using VALID EXPLICIT floor_div_bounds(2)[OF pos(1), of "n + before + after - e"] ee
    by (cases pt) (auto simp: algebra_simps)
  show "(out - 1) * stride + dilated k dil \<le> n + before + after"
  proof (cases "pt = SAME")
    case True
    then show ?thesis using SAME ee by auto
  next
    case False
    then show ?thesis
      using VALID EXPLICIT floor_div_bounds(1)[OF pos(1), of "n + before + after - e"] ee
      by (cases pt) (auto simp: algebra_simps)
  qed
  show "pt = SAME \<longrightarrow> (out - 1) * stride < n \<and> n \<le> out * stride \<and> 0 \<le> before \<and>
           (after = before \<or> after = before + 1) \<and>
           (before + after = 0 \<or> (out - 1) * stride + dilated k dil = n + before + after)"
  proof
    assume s: "pt = SAME"
    let ?p = "max 0 ((out - 1) * stride + e - n)"
    have "?p div 2 * 2 + ?p mod 2 = ?p" "?p mod 2 = 0 \<or> ?p mod 2 = 1" by auto
    then have "0 \<le> ?p div 2 \<and> (?p - ?p div 2 = ?p div 2 \<or> ?p - ?p div 2 = ?p div 2 + 1)" by auto
    moreover have "before = ?p div 2" "after = ?p - ?p div 2" using SAME[OF s] by auto
    ultimately show "(out - 1) * stride < n \<and> n \<le> out * stride \<and> 0 \<le> before \<and>
           (after = before \<or> after = before + 1) \<and>
           (before + after = 0 \<or> (out - 1) * stride + dilated k dil = n + before + after)"
      using ceil_div_bounds[OF pos(1), of n] SAME[OF s] unfolding ee by auto
  qed
qed

text \<open>
  C3: The output size and the padding GetWindowedOutputSizeVerbose returns describe the
  windows of the operation. The padding on both sides is that of the padding scheme; the
  last window, at offset (out - 1) * stride, lies in the padded input; with VALID and
  EXPLICIT one more window does not fit; with SAME there is one window for each stride
  begun, the padding is split evenly with the odd element after, and when there is any
  padding at all it is no larger than the last window needs.
\<close>

theorem Verbose_window_geometry:
  assumes "GetWindowedOutputSizeVerbose n k dil stride pt pb pa = Inr (out, before, after)"
    and "0 \<le> n" "1 \<le> k" and "pt \<noteq> SAME \<longrightarrow> dilated k dil \<le> n + (if pt = VALID then 0 else pb + pa)"
  shows "(pt = VALID \<longrightarrow> before = 0 \<and> after = 0) \<and> (pt = EXPLICIT \<longrightarrow> before = pb \<and> after = pa) \<and>
    (out - 1) * stride + dilated k dil \<le> n + before + after \<and>
    (pt \<noteq> SAME \<longrightarrow> n + before + after < out * stride + dilated k dil) \<and>
    (pt = SAME \<longrightarrow> (out - 1) * stride < n \<and> n \<le> out * stride \<and> 0 \<le> before \<and>
       (after = before \<or> after = before + 1) \<and>
       (before + after = 0 \<or> (out - 1) * stride + dilated k dil = n + before + after))"
  using window_geometry[OF assms] by blast

text \<open>An input of 10, a filter of 3 and stride 2, \<open>SAME\<close>: five windows, one element of padding after.\<close>

lemma Verbose_window_geometry_witness:
  "GetWindowedOutputSizeVerbose 10 3 1 2 SAME 0 0 = Inr (5, 0, 1) \<and> (5 - 1) * 2 + dilated 3 1 \<le> 10 + 0 + 1"
proof -
  have k: "GetWindowedOutputSizeVerbose 10 3 1 2 SAME 0 0 = Inr (5, 0, 1)" by code_simp
  show ?thesis using k Verbose_window_geometry[OF k] by simp
qed

text \<open>
  Where the filter does not fit they can disagree: for an input of size 3, a filter of size 5 and stride 4 the kernel
  computes an output of size 0, shape inference refuses the operation.
\<close>

lemma kernel_accepts_more:
  "GetWindowedOutputSizeVerbose 3 5 1 4 VALID 0 0 = Inr (0, 0, 0)"
  "fst (GetWindowedOutputSizeFromDimsV2 0 (Const 5) 1 4 VALID (- 1) (- 1) (sample_ctx [3] [] [] [] 0 [])) = Inl (Status InvalidArgument)"
  by code_simp+

end
