(* ===== verification/ConvSound.thy ===== *)
theory ConvSound
  imports ConvFns WindowSound
begin

text \<open>
  The shape function of convolutions describes their runs: the data format says which
  dimension of the input is which, the two spatial sizes are those the kernel computes.
\<close>

section \<open>Images by format\<close>

text \<open>Four values of a batch, row, column and channel, in the order of a format.\<close>

fun imageOf :: "tensor_format \<Rightarrow> 'a \<Rightarrow> 'a \<Rightarrow> 'a \<Rightarrow> 'a \<Rightarrow> 'a list" where
  "imageOf FORMAT_NHWC b h w c = [b, h, w, c]"
| "imageOf FORMAT_NHWC_VECT_W b h w c = [b, h, w, c]"
| "imageOf FORMAT_NCHW b h w c = [b, c, h, w]"
| "imageOf FORMAT_NCHW_VECT_C b h w c = [b, c, h, w]"
| "imageOf FORMAT_HWNC b h w c = [h, w, b, c]"
| "imageOf FORMAT_HWCN b h w c = [h, w, c, b]"

definition planar :: "tensor_format \<Rightarrow> bool" where
  "planar f \<longleftrightarrow> f \<in> {FORMAT_NHWC, FORMAT_NCHW, FORMAT_HWNC, FORMAT_HWCN}"

lemma planar_cases:
  assumes "planar f"
  obtains "f = FORMAT_NHWC" | "f = FORMAT_NCHW" | "f = FORMAT_HWNC" | "f = FORMAT_HWCN"
  using assms unfolding planar_def by blast

lemma length_imageOf [simp]: "length (imageOf f b h w c) = 4"
  by (cases f) simp_all

lemma list_all_imageOf: "list_all P (imageOf f b h w c) \<longleftrightarrow> P b \<and> P h \<and> P w \<and> P c"
  by (cases f) auto

text \<open>Reading a dimension by its letter reads that place of the image.\<close>

lemma GetTensorDim_image:
  "GetTensorDim (imageOf f b h w c) f CHR ''N'' = Inr b" "GetTensorDim (imageOf f b h w c) f CHR ''H'' = Inr h"
  "GetTensorDim (imageOf f b h w c) f CHR ''W'' = Inr w" "GetTensorDim (imageOf f b h w c) f CHR ''C'' = Inr c"
  by (cases f; simp add: GetTensorDim_def GetTensorDimIndex_def GetTensorDimIndexN_def lookupDim_def vecAt_def)+

lemma GetFilterDimIndexN_HWIO:
  "GetFilterDimIndexN 2 FORMAT_HWIO CHR ''H'' = Inr 0" "GetFilterDimIndexN 2 FORMAT_HWIO CHR ''W'' = Inr 1"
  "GetFilterDimIndexN 2 FORMAT_HWIO CHR ''I'' = Inr 2" "GetFilterDimIndexN 2 FORMAT_HWIO CHR ''O'' = Inr 3"
  by (simp_all add: GetFilterDimIndexN_def lookupDim_def)

section \<open>Rules for the parts of a convolution\<close>

lemma know_DimensionsFromShape:
  assumes k: "know \<Gamma> W" and s: "ShapeIs s (imageOf f b h w c) k \<in> set \<Gamma>" and f: "planar f"
    and g: "\<And>db dh dw dc W'. know (DimIs dc c k # DimIs dw w k # DimIs dh h k # DimIs db b k # \<Gamma>) W' \<Longrightarrow>
      wp (g db [dh, dw] dc) Q W'"
  shows "wp (andThen (DimensionsFromShape s f 2) (\<lambda>(db, sp, dc). g db sp dc)) Q W"
proof -
  have two: "[0..<2] = [0, Suc 0]" by (simp add: upt_conv_Cons numeral_2_eq_2)
  note S = GetTensorSpatialDimIndex_def pyIndex_def
  have dim: "wp (andThen (Dim s i) f') Q' W'"
    if "know (\<Delta> @ \<Gamma>) W'" "0 \<le> i \<and> i < 4"
      "\<And>d W2. know (DimIs d (imageOf f b h w c ! nat i) k # \<Delta> @ \<Gamma>) W2 \<Longrightarrow> wp (f' d) Q' W2"
    for \<Delta> i f' Q' W'
    by (rule know_bind[OF that(1) Dim_gives[OF that(1)], unfolded append.simps])
      (use s that in \<open>auto simp: pyIndex_def\<close>)
  note d0 = dim[of "[]", unfolded append.simps, OF k]
  note d1 = dim[of "[A]" for A, unfolded append.simps]
  note d2 = dim[of "[A, B]" for A B, unfolded append.simps]
  note d3 = dim[of "[A, B, C]" for A B C, unfolded append.simps]
  from f show ?thesis
    by (cases rule: planar_cases; simp add: DimensionsFromShape_def two S bind_simps)
     (rule d0, simp, rule d1, assumption, simp, rule d2, assumption, simp, rule d3, assumption, simp, rule g, simp)+
qed

lemma know_ShapeFromDimensions:
  assumes k: "know \<Gamma> W" and d: "DimIs db b k0 \<in> set \<Gamma>" "DimIs dh h k1 \<in> set \<Gamma>" "DimIs dw w k2 \<in> set \<Gamma>"
      "DimIs dc c k3 \<in> set \<Gamma>" and f: "planar f"
    and g: "\<And>s W'. know (ShapeIs s (imageOf f b h w c) (k0 \<and> k1 \<and> k2 \<and> k3) # Ranked s # \<Gamma>) W' \<Longrightarrow> wp (g s) Q W'"
  shows "wp (andThen (ShapeFromDimensions db [dh, dw] dc f None) g) Q W"
proof -
  have h: "has_dim W db b" "has_dim W dh h" "has_dim W dw w" "has_dim W dc c"
    and kn: "k0 \<longrightarrow> known_dim W db" "k1 \<longrightarrow> known_dim W dh" "k2 \<longrightarrow> known_dim W dw" "k3 \<longrightarrow> known_dim W dc"
    using know_dim[OF k] d by blast+
  let ?ds = "imageOf f db dh dw dc"
  have eq: "ShapeFromDimensions db [dh, dw] dc f None = MakeShape ?ds"
    using f by (cases rule: planar_cases)
      (simp_all add: ShapeFromDimensions_def bind_simps setDim_def vecSet_def noDims_def
        GetTensorSpatialDimIndex_def numeral_eq_Suc)
  have "has_dims W ?ds (imageOf f b h w c)" using f h by (cases rule: planar_cases) simp_all
  moreover have "(k0 \<and> k1 \<and> k2 \<and> k3) \<longrightarrow> list_all (known_dim W) ?ds"
    using f kn by (cases rule: planar_cases) simp_all
  ultimately show ?thesis
    unfolding eq by (intro know_bind[OF k MakeShape_gives[OF k], unfolded append.simps]) (auto intro: g)
qed

lemma know_checkDepths:
  assumes k: "know \<Gamma> W" and d: "DimIs di i k0 \<in> set \<Gamma>" "DimIs df f k1 \<in> set \<Gamma>" "DimIs dout c k2 \<in> set \<Gamma>"
    and groups: "0 < f" "0 < i" "f dvd i" "(i div f) dvd c" and g: "wp (g ()) Q W"
  shows "wp (andThen (checkDepths di df dout) g) Q W"
proof -
  have h: "has_dim W di i" "has_dim W df f" "has_dim W dout c" using know_dim[OF k] d by blast+
  note good = know_good[OF k]
  have v: "DValue (ctx_of W) di = - 1 \<or> DValue (ctx_of W) di = i"
      "DValue (ctx_of W) df = - 1 \<or> DValue (ctx_of W) df = f"
      "DValue (ctx_of W) dout = - 1 \<or> DValue (ctx_of W) dout = c"
    using has_dim_value[OF good] h by blast+
  have c: "0 \<le> c" using has_dim_size[OF good h(3)] by (simp add: is_size_def)
  have "f \<le> i" using groups by (simp add: zdvd_imp_le)
  then have p: "0 < i div f" using groups by (simp add: pos_imp_zdiv_pos_iff)
  have "checkDepths di df dout (ctx_of W) = (Inr (), ctx_of W)"
    using v groups c p
    by (auto simp: checkDepths_def op_simps cmod_nonneg cdiv_nonneg Let_def)
  then show ?thesis using g by (simp add: wp_def andThen_def)
qed

section \<open>Padding attributes\<close>

abbreviation ints :: "int list \<Rightarrow> attr_value" where
  "ints xs \<equiv> A_list (empty_list\<lparr>l_i := xs\<rparr>)"

text \<open>
  The padding a node asks for: a scheme by name with no list, or a list with two numbers for
  each dimension, zero for batch and channels, in the attribute that \<open>Conv2D\<close>
  (\<open>explicit_paddings\<close>, with the scheme \<open>EXPLICIT\<close>) or the older operations
  (\<open>padding_list\<close>) use.
\<close>

definition conv_padding :: "bool \<Rightarrow> attrs \<Rightarrow> tensor_format \<Rightarrow> padding \<Rightarrow> int \<times> int \<Rightarrow> int \<times> int \<Rightarrow> bool" where
  "conv_padding explicit as f pt rows cols \<longleftrightarrow>
     (let lst = map_of as (if explicit then ''explicit_paddings'' else ''padding_list'') in
      (\<exists>name. map_of as ''padding'' = Some (A_s name) \<and>
        (if pt = EXPLICIT
         then (if explicit then name = ''EXPLICIT'' else name \<in> {''VALID'', ''SAME''}) \<and>
           lst = Some (ints (concat (imageOf f [0, 0] [fst rows, snd rows] [fst cols, snd cols] [0, 0]))) \<and>
           0 \<le> fst rows \<and> 0 \<le> snd rows \<and> 0 \<le> fst cols \<and> 0 \<le> snd cols
         else name = (if pt = VALID then ''VALID'' else ''SAME'') \<and> (lst = None \<or> lst = Some (ints [])))))"

lemma GetAttrInt64List_eq: "map_of as n = Some (ints xs) \<Longrightarrow> GetAttrInt64List as n = Inr xs"
  by (auto simp: GetAttrInt64List_def GetNodeAttrList_def Find_def AttrValueHasType_def
      list_kinds_def empty_list_def attr_list_of_def)

lemma GetAttrInt64List_NotFound: "map_of as n = None \<Longrightarrow> GetAttrInt64List as n = Inl (Status NotFound)"
  by (simp add: GetAttrInt64List_def GetNodeAttrList_def Find_def)

lemma CheckValidPadding_image:
  assumes "planar f" "0 \<le> rb" "0 \<le> ra" "0 \<le> cb" "0 \<le> ca"
  shows "CheckValidPadding EXPLICIT (concat (imageOf f [0, 0] [rb, ra] [cb, ca] [0, 0])) 4 f = Inr ()"
  using assms by (cases rule: planar_cases) (simp_all add: CheckValidPadding_def vecAt_def bindR_def)

lemma explicitPad_image:
  assumes "planar f"
  shows "explicitPad EXPLICIT (concat (imageOf f [0, 0] [rb, ra] [cb, ca] [0, 0])) f CHR ''H'' = Inr (rb, ra)"
    and "explicitPad EXPLICIT (concat (imageOf f [0, 0] [rb, ra] [cb, ca] [0, 0])) f CHR ''W'' = Inr (cb, ca)"
  using assms
  by (cases rule: planar_cases; simp add: explicitPad_def GetExplicitPaddingForDim_def GetTensorDimIndex_def
      GetTensorDimIndexN_def lookupDim_def vecAt_def)+

lemma conv2DPaddings_run:
  assumes p: "conv_padding explicit (attrs c) f pt rows cols" and f: "planar f"
  shows "\<exists>ep. conv2DPaddings explicit f c = (Inr (pt, ep), c) \<and>
    (\<exists>pr pc. explicitPad pt ep f CHR ''H'' = Inr pr \<and> explicitPad pt ep f CHR ''W'' = Inr pc \<and>
       (pt = EXPLICIT \<longrightarrow> pr = rows \<and> pc = cols))"
proof -
  let ?ep = "concat (imageOf f [0, 0] [fst rows, snd rows] [fst cols, snd cols] [0, 0])"
  have ne: "?ep \<noteq> []" using f by (cases rule: planar_cases) simp_all
  note S = conv2DPaddings_def GetAttr_def GetAttrListOrEmpty_def GetAttrPadding_def op_simps andThen_def
    tryStatus_def GetPaddingFromString_def
  obtain name where name: "GetAttrString (attrs c) ''padding'' = Inr name"
    and pt: "if pt = EXPLICIT
         then (if explicit then name = ''EXPLICIT'' else name \<in> {''VALID'', ''SAME''}) \<and>
           map_of (attrs c) (if explicit then ''explicit_paddings'' else ''padding_list'') = Some (ints ?ep) \<and>
           0 \<le> fst rows \<and> 0 \<le> snd rows \<and> 0 \<le> fst cols \<and> 0 \<le> snd cols
         else name = (if pt = VALID then ''VALID'' else ''SAME'') \<and>
           (map_of (attrs c) (if explicit then ''explicit_paddings'' else ''padding_list'') = None \<or>
            map_of (attrs c) (if explicit then ''explicit_paddings'' else ''padding_list'') = Some (ints []))"
    using p GetAttrString_eq unfolding conv_padding_def Let_def by blast
  show ?thesis
  proof (cases "pt = EXPLICIT")
    case True
    have l: "GetAttrInt64List (attrs c) (if explicit then ''explicit_paddings'' else ''padding_list'') = Inr ?ep"
      using pt True by (intro GetAttrInt64List_eq) simp
    have ck: "CheckValidPadding EXPLICIT ?ep 4 f = Inr ()"
      using pt True by (intro CheckValidPadding_image f) simp_all
    have "conv2DPaddings explicit f c = (Inr (pt, ?ep), c)"
      using l ck ne pt True name by (cases explicit) (auto simp: S)
    then show ?thesis using explicitPad_image[OF f, of "fst rows" "snd rows" "fst cols" "snd cols"] True
      by (cases rows; cases cols) auto
  next
    case False
    have "GetAttrInt64List (attrs c) (if explicit then ''explicit_paddings'' else ''padding_list'') \<in> {Inr [], Inl (Status NotFound)}"
      using pt False GetAttrInt64List_eq GetAttrInt64List_NotFound by (auto split: if_splits)
    then have "conv2DPaddings explicit f c = (Inr (pt, []), c)"
      using pt False name by (cases pt; cases explicit) (auto simp: S CheckValidPadding_def)
    then show ?thesis using False by (auto simp: explicitPad_def)
  qed
qed

lemma know_conv2DPaddings:
  assumes "know \<Gamma> W" "From W0 \<in> set \<Gamma>" "conv_padding explicit (attrs (ctx_of W0)) f pt rows cols" "planar f"
    and "\<And>ep pr pc. explicitPad pt ep f CHR ''H'' = Inr pr \<Longrightarrow> explicitPad pt ep f CHR ''W'' = Inr pc \<Longrightarrow>
      (pt = EXPLICIT \<longrightarrow> pr = rows \<and> pc = cols) \<Longrightarrow> wp (g pt ep) Q W"
  shows "wp (andThen (conv2DPaddings explicit f) (\<lambda>(p, ep). g p ep)) Q W"
proof -
  have "attrs (ctx_of W) = attrs (ctx_of W0)" using quiet_inputs[OF know_from[OF assms(1,2)]] by simp
  then obtain ep pr pc where "conv2DPaddings explicit f (ctx_of W) = (Inr (pt, ep), ctx_of W)"
      and ep: "explicitPad pt ep f CHR ''H'' = Inr pr" "explicitPad pt ep f CHR ''W'' = Inr pc"
        "pt = EXPLICIT \<longrightarrow> pr = rows \<and> pc = cols"
    using conv2DPaddings_run[of explicit "ctx_of W" f pt rows cols] assms(3,4) by auto
  then show ?thesis using assms(5)[OF ep] by (simp add: wp_def andThen_def)
qed

section \<open>Conv2D\<close>

text \<open>What the kernel computes for one spatial dimension, where the window fits.\<close>

definition window_out :: "int \<Rightarrow> int \<Rightarrow> int \<Rightarrow> int \<Rightarrow> padding \<Rightarrow> int \<times> int \<Rightarrow> int \<Rightarrow> bool" where
  "window_out n k dil stride pt pads out \<longleftrightarrow>
     (\<exists>before after. GetWindowedOutputSizeVerbose n k dil stride pt (fst pads) (snd pads) = Inr (out, before, after)) \<and>
     (pt \<noteq> SAME \<longrightarrow> windowFits n (if pt = VALID then 0 else fst pads + snd pads) k dil)"

text \<open>A string attribute, or its default where it is missing.\<close>

definition attr_or :: "attrs \<Rightarrow> string \<Rightarrow> string \<Rightarrow> string \<Rightarrow> bool" where
  "attr_or as name dflt v \<longleftrightarrow> map_of as name = Some (A_s v) \<or> map_of as name = None \<and> v = dflt"

lemma know_attr_or:
  assumes "know \<Gamma> W" "From W0 \<in> set \<Gamma>" "attr_or (attrs (ctx_of W0)) name dflt v" "wp (f v) Q W"
  shows "wp (andThen (GetAttrOr GetAttrString name dflt) f) Q W"
proof -
  let ?f = "\<lambda>r. f (case r of Inl _ \<Rightarrow> dflt | Inr v \<Rightarrow> v)"
  have "wp (andThen (tryStatus (GetAttr GetAttrString name)) ?f) Q W"
  proof (cases "map_of (attrs (ctx_of W0)) name")
    case None
    have "wp (?f (Inl NotFound)) Q W" using assms(3,4) None by (simp add: attr_or_def)
    then show ?thesis
      by (intro know_tryGetAttr_missing[where f = ?f and e = NotFound and get = GetAttrString, OF assms(1,2)] GetAttrString_NotFound None)
  next
    case (Some a)
    then have "map_of (attrs (ctx_of W0)) name = Some (A_s v)" using assms(3) by (simp add: attr_or_def)
    then show ?thesis
      using assms(4)
      by (intro know_tryGetAttr_ok[where f = ?f and v = v and get = GetAttrString, OF assms(1,2)] GetAttrString_eq) simp_all
  qed
  then show ?thesis by (simp add: GetAttrOr_def andThen_assoc ret_bind)
qed

text \<open>
  A convolution in a planar format with the filter format \<open>HWIO\<close>, the format attributes given or left to
  their defaults: the channels of the input are split into groups of the depth of the filter, each group yields the same
  share of the output channels.
\<close>

definition conv2d_spec :: "bool \<Rightarrow> op_spec" where
  "conv2d_spec explicit as ts xss yss \<longleftrightarrow>
     (\<exists>fmt f b h w ci kh kw kf co sb sh sw sc db dh dw dc pt rows cols ho wo.
        attr_or as ''data_format'' ''NHWC'' fmt \<and> FormatFromString fmt = Some f \<and> planar f \<and>
        attr_or as ''filter_format'' ''HWIO'' ''HWIO'' \<and>
        map_of as ''strides'' = Some (ints (imageOf f sb sh sw sc)) \<and> list_all in_int32 [sb, sh, sw, sc] \<and>
        map_of as ''dilations'' = Some (ints (imageOf f db dh dw dc)) \<and> list_all in_int32 [db, dh, dw, dc] \<and>
        conv_padding explicit as f pt rows cols \<and>
        (pt = EXPLICIT \<longrightarrow> in_int64 (fst rows + snd rows) \<and> in_int64 (fst cols + snd cols)) \<and>
        xss = [imageOf f b h w ci, [kh, kw, kf, co]] \<and>
        0 < kf \<and> 0 < ci \<and> kf dvd ci \<and> (ci div kf) dvd co \<and>
        window_out h kh dh sh pt rows ho \<and> window_out w kw dw sw pt cols wo \<and>
        yss = [imageOf f b ho wo co])"

lemma window_out_windowOf:
  assumes "window_out n k dil stride pt pads out" "is_size n" "in_int32 stride" "in_int32 dil"
    and "pt = EXPLICIT \<longrightarrow> 0 \<le> fst pads \<and> 0 \<le> snd pads \<and> in_int64 (fst pads + snd pads)"
    and "pt = EXPLICIT \<longrightarrow> pads' = pads"
  shows "windowOf n k dil stride pt (fst pads') (snd pads') out" and "is_size stride" and "is_size dil"
proof -
  obtain before after where
    v: "GetWindowedOutputSizeVerbose n k dil stride pt (fst pads) (snd pads) = Inr (out, before, after)"
    using assms(1) by (auto simp: window_out_def)
  have "windowOf n k dil stride pt (fst pads) (snd pads) out"
    by (rule kernel_windowOf[OF v assms(2)]) (use assms(1,5) in \<open>auto simp: window_out_def is_size_def in_int64_def\<close>)
  then show w: "windowOf n k dil stride pt (fst pads') (snd pads') out"
    using assms(6) by (cases pt) (auto simp: windowOf_def)
  show "is_size stride" "is_size dil"
    using w assms(3,4) by (auto simp: windowOf_def is_size_def in_int32_def)
qed

lemma planar_simps:
  assumes "planar f"
  shows "GetTensorDimsFromSpatialDims 2 f = 4" "CheckFormatConstraintsOnShape f s = ret ()" "(f = FORMAT_NCHW_VECT_C) = False"
  using assms by (cases rule: planar_cases; simp add: CheckFormatConstraintsOnShape_def)+

lemma FilterFormatFromString_HWIO: "FilterFormatFromString ''HWIO'' = Some FORMAT_HWIO"
  by (simp add: FilterFormatFromString_def)

lemma Conv2DShapeImpl_infers:
  assumes "called W xss (length yss)" "conv2d_spec explicit (attrs (ctx_of W)) (input_tensors (ctx_of W)) xss yss"
  shows "wp (Conv2DShapeImpl explicit) (\<lambda>_ W'. infers W yss W') W"
proof -
  from assms(2) obtain fmt f b h w ci kh kw kf co sb sh sw sc db dh dw dc pt rows cols ho wo where
    fmt: "attr_or (attrs (ctx_of W)) ''data_format'' ''NHWC'' fmt" "FormatFromString fmt = Some f" "planar f"
      "attr_or (attrs (ctx_of W)) ''filter_format'' ''HWIO'' ''HWIO''"
    and strides: "map_of (attrs (ctx_of W)) ''strides'' = Some (ints (imageOf f sb sh sw sc))" "list_all in_int32 [sb, sh, sw, sc]"
    and dils: "map_of (attrs (ctx_of W)) ''dilations'' = Some (ints (imageOf f db dh dw dc))" "list_all in_int32 [db, dh, dw, dc]"
    and pad: "conv_padding explicit (attrs (ctx_of W)) f pt rows cols"
      "pt = EXPLICIT \<longrightarrow> in_int64 (fst rows + snd rows) \<and> in_int64 (fst cols + snd cols)"
    and xss: "xss = [imageOf f b h w ci, [kh, kw, kf, co]]"
    and groups: "0 < kf" "0 < ci" "kf dvd ci" "(ci div kf) dvd co"
    and win: "window_out h kh dh sh pt rows ho" "window_out w kw dw sw pt cols wo"
    and yss: "yss = [imageOf f b ho wo co]"
    unfolding conv2d_spec_def by (elim exE conjE) (rule that; assumption)
  obtain s0 s1 where ins: "inputs (ctx_of W) = [s0, s1]" and out: "length (outputs (ctx_of W)) = length yss"
    and know: "know [ShapeIs s0 (imageOf f b h w ci) (all_known W), ShapeIs s1 [kh, kw, kf, co] (all_known W), From W] W"
    using call2[OF assms(1)[unfolded xss]] by metis
  have as: "GetAttrInt32List (attrs (ctx_of W)) ''strides'' = Inr (imageOf f sb sh sw sc)"
      "GetAttrInt32List (attrs (ctx_of W)) ''dilations'' = Inr (imageOf f db dh dw dc)"
    using GetAttrInt32List_eq[OF strides(1)] strides(2) GetAttrInt32List_eq[OF dils(1)] dils(2)
    by (simp_all add: list_all_imageOf)
  have fm: "(fmt = ''NCHW_VECT_C'') = False" using fmt(2,3) by (auto simp: FormatFromString_def planar_def)
  have sz: "is_size h" "is_size w" using know_sizes[OF know fact_here] by (simp_all add: list_all_imageOf)
  have pads: "pt = EXPLICIT \<longrightarrow> 0 \<le> fst rows \<and> 0 \<le> snd rows \<and> in_int64 (fst rows + snd rows)"
      "pt = EXPLICIT \<longrightarrow> 0 \<le> fst cols \<and> 0 \<le> snd cols \<and> in_int64 (fst cols + snd cols)"
    using pad by (auto simp: conv_padding_def Let_def)
  have i32: "in_int32 sh" "in_int32 sw" "in_int32 dh" "in_int32 dw" using strides(2) dils(2) by auto
  note win1 = window_out_windowOf[OF win(1) sz(1) i32(1,3) pads(1)]
  note win2 = window_out_windowOf[OF win(2) sz(2) i32(2,4) pads(2)]
  have w1: "windowOf h k dh sh pt (fst pr) (snd pr) ho" if "k = kh" "pt = EXPLICIT \<longrightarrow> pr = rows \<and> pc = cols" for k pr pc
    by (unfold that(1), rule win1(1)) (use that(2) in simp)
  have w2: "windowOf w k dw sw pt (fst pc) (snd pc) wo" if "k = kw" "pt = EXPLICIT \<longrightarrow> pr = rows \<and> pc = cols" for k pr pc
    by (unfold that(1), rule win2(1)) (use that(2) in simp)
  have ws: "is_size sh" "is_size sw" "is_size dh" "is_size dw"
    using win1(2,3)[of rows] win2(2,3)[of cols] by simp_all
  note E = planar_simps[OF fmt(3)] GetTensorDim_image GetFilterDimIndexN_HWIO bind_simps if_False if_True
  note S = ins out yss as groups index_simps
  show ?thesis
    using know
    unfolding Conv2DShapeImpl_def
    apply -
    apply (rule know_attr_or[OF _ _ fmt(1)], assumption, (rule fact_looks)+)
    apply (simp only: E fm)
    apply (rule know_attr_or[OF _ _ fmt(4)], assumption, (rule fact_looks)+)
    apply (simp only: E fm fmt(2,3) option.case FilterFormatFromString_HWIO Let_def filter_format.distinct)
    apply ((rule infer_side, assumption+, (rule fact_looks)+, (simp (no_asm) add: S; fail)) |
       (rule infer_pure, assumption+, (rule fact_looks)+) |
       (rule wp_failUnless[THEN iffD2], rule conjI, rule length_imageOf, simp only: E))+
    apply (rule know_DimensionsFromShape[OF _ _ fmt(3)], assumption, (rule fact_looks)+)
    apply ((rule infer_side, assumption+, (rule fact_looks)+, (simp (no_asm) add: S; fail)) |
       (rule infer_pure, assumption+, (rule fact_looks)+))+
    apply (rule know_checkDepths, assumption, (rule fact_looks)+, (simp (no_asm) add: S; fail)+)
    apply (rule know_conv2DPaddings[OF _ _ pad(1) fmt(3)], assumption, (rule fact_looks)+)
    apply (simp (no_asm_simp) only: E case_prod_beta nth_Cons_0 nth_Cons_Suc One_nat_def)
    apply (rule know_bind[OF _ FromDimsV2_gives[OF _ _ _ w1], unfolded append.simps], assumption+, (rule fact_looks)+,
       simp (no_asm) add: S, assumption, (rule ws)+)
    apply (rule know_bind[OF _ FromDimsV2_gives[OF _ _ _ w2], unfolded append.simps], assumption+, (rule fact_looks)+,
       simp (no_asm) add: S, assumption, (rule ws)+)
    apply (rule know_ShapeFromDimensions[OF _ _ _ _ _ fmt(3)], assumption, (rule fact_looks)+)
    apply (rule know_set_output, assumption, (rule fact_look)+, (simp (no_asm) add: S; fail)+)
    done
qed

interpretation conv2d: inference_fn "Conv2DShapeImpl explicit" "conv2d_spec explicit" for explicit
  by unfold_locales (rule Conv2DShapeImpl_infers)

text \<open>
  C8: The shape function of Conv2D describes every convolution in which the dilated filter fits into the
  padded input, in each of the four planar formats with filters in HWIO, with either way of giving explicit
  paddings, with dilations and with grouped channels: inference succeeds, its output has the sizes of the kernel's output
  in the order of the data format, and all of them are known when the inputs are.
\<close>

theorem Conv2DShape_describes:
  assumes "called W xss (length yss)"
    and "conv2d_spec explicit (attrs (ctx_of W)) (input_tensors (ctx_of W)) xss yss"
  shows "describes (Conv2DShapeImpl explicit) yss W"
  using assms by (rule conv2d.Run_describes)

text \<open>A batch of two 5x5 images with 4 channels in two groups, a 3x3 filter, stride 2, \<open>VALID\<close>.\<close>

definition sample_conv_attrs :: attrs where
  "sample_conv_attrs =
     [(''data_format'', A_s ''NCHW''), (''padding'', A_s ''VALID''),
      (''strides'', ints [1, 1, 2, 2]), (''dilations'', ints [1, 1, 1, 1])]"

lemma sample_conv_spec:
  "conv2d_spec True sample_conv_attrs ts [[2, 4, 5, 5], [3, 3, 2, 6]] [[2, 6, 2, 2]]"
proof -
  have "GetWindowedOutputSizeVerbose 5 3 1 2 VALID 0 0 = Inr (2, 0, 0)" by code_simp
  then have w: "window_out 5 3 1 2 VALID (0, 0) 2" by (simp add: window_out_def windowFits_def)
  show ?thesis
    unfolding conv2d_spec_def
    by (rule exI[of _ "''NCHW''"], rule exI[of _ FORMAT_NCHW], rule exI[of _ 2], rule exI[of _ 5], rule exI[of _ 5],
      rule exI[of _ 4], rule exI[of _ 3], rule exI[of _ 3], rule exI[of _ 2], rule exI[of _ 6],
      rule exI[of _ 1], rule exI[of _ 2], rule exI[of _ 2], rule exI[of _ 1],
      rule exI[of _ 1], rule exI[of _ 1], rule exI[of _ 1], rule exI[of _ 1],
      rule exI[of _ VALID], rule exI[of _ "(0, 0)"], rule exI[of _ "(0, 0)"], rule exI[of _ 2], rule exI[of _ 2])
      (simp add: w sample_conv_attrs_def attr_or_def FormatFromString_def planar_def in_int32_def conv_padding_def)
qed

lemma Conv2DShape_describes_witness:
  "describes (Conv2DShapeImpl True) [[2, 6, 2, 2]]
     (sample_call [[- 1, 4, 5, - 1], [3, 3, 2, - 1]] [[2, 4, 5, 5], [3, 3, 2, 6]] [] 1 sample_conv_attrs)"
  by (rule Conv2DShape_describes[OF called_sample_call])
    (simp_all add: seen_as_def is_size_def sample_conv_spec)

end
