(* ===== verification/SubExact.thy ===== *)
theory SubExact
  imports SubRules Samples
begin

text \<open>
  What \<open>Subshape\<close> does on a shape of known rank, on every branch: the code's clamping and
  bounds checks, the loop, and the one argument for which the loop does not end.
\<close>

section \<open>All branches\<close>

lemma mapOp_Dim:
  assumes "shape_of c s = Some ds" "\<And>i. i \<in> set idxs \<Longrightarrow> 0 \<le> i \<and> i < int (length ds)"
  shows "mapOp (Dim s) idxs c = (Inr (map (\<lambda>i. ds ! nat i) idxs), c)"
proof (rule mapOp_pure)
  fix i
  assume "i \<in> set idxs"
  then have "0 \<le> i \<and> i < int (length ds)" by (rule assms(2))
  then show "Dim s i c = (Inr (ds ! nat i), c)" by (simp add: Dim_known[OF assms(1)] vecAt_def)
qed

lemma SubshapeStride_ranked:
  assumes s: "shape_of c s = Some ds"
  defines "n \<equiv> int (length ds)"
  shows "SubshapeStride s a b stride c =
    (if a = 0 \<and> stride = 1 \<and> (b \<ge> n \<or> b = int64_max) then (Inr s, c)
     else if normStart n stride a < 0 then (Inl (Status InvalidArgument), c)
     else if normBound n b < 0 then (Inl (Status InvalidArgument), c)
     else if stride > 0 \<and> normStart n stride a > normBound n b then (Inl (Status InvalidArgument), c)
     else if stride < 0 \<and> normStart n stride a < normBound n b then (Inl (Status InvalidArgument), c)
     else (case subshapeLoop (normBound n b) stride (normStart n stride a) of
         None \<Rightarrow> faultWith Diverges
       | Some idxs \<Rightarrow> andThen (mapOp (Dim s) idxs) MakeShape) c)"
proof -
  have rank: "Rank c s = n" "RankKnown c s" using s by (simp_all add: Rank_def RankKnown_iff n_def)
  let ?i = "normStart n stride a" and ?j = "normBound n b"
  let ?s0 = "if a > n then n else a"
  let ?s1 = "if stride < 0 \<and> ?s0 = n then ?s0 - 1 else ?s0"
  let ?e0 = "if b > n then n else b"
  have mn: "(if k > n then n else k) = min k n" for k by (simp add: min_def)
  have ni: "(if ?s1 < 0 then n + ?s1 else ?s1) = ?i"
    unfolding normStart_def Let_def mn by (rule refl)
  have nj: "(if ?e0 < 0 then n + ?e0 else ?e0) = ?j"
    unfolding normBound_def Let_def mn by (rule refl)
  have neg: "(?s1 < 0 \<and> ?i < 0) = (?i < 0)" "(?e0 < 0 \<and> ?j < 0) = (?j < 0)"
    unfolding ni[symmetric] nj[symmetric] by (simp_all split: if_split)
  show ?thesis
    unfolding SubshapeStride_def andThen_gets rank(1) split_conv Let_def ni nj neg
    by (simp only: rank simp_thms if_distrib[of "\<lambda>m. m c"] ret_run failWith_run if_False)
qed

lemma subshapeLoop_same:
  assumes "0 < a \<longleftrightarrow> 0 < b" "\<And>i. to_int32 (i + a) = to_int32 (i + b)"
  shows "subshapeLoop stop a i = Some idxs \<Longrightarrow> subshapeLoop stop b i = Some idxs"
proof (induction idxs arbitrary: i)
  case Nil
  then show ?case using subshapeLoop_result[of stop a i "[]"] assms(1) by (subst subshapeLoop.simps) auto
next
  case (Cons j idxs)
  then have "j = i" "if 0 < b then i < stop else stop < i" "subshapeLoop stop b (to_int32 (i + b)) = Some idxs"
    using subshapeLoop_result[of stop a i "j # idxs"] assms by auto
  then show ?case by (subst subshapeLoop.simps) simp
qed

text \<open>Only the lower 32 bits of the stride and its sign matter.\<close>

lemma subshapeLoop_narrow:
  assumes "t = to_int32 stride" "0 < t \<longleftrightarrow> 0 < stride"
  shows "subshapeLoop stop stride i = subshapeLoop stop t i"
proof -
  have "to_int32 (i + t) = to_int32 (i + stride)" for i
    unfolding assms(1) to_int32_def by (simp add: mod_simps algebra_simps)
  then show ?thesis
    using subshapeLoop_same[of t stride stop i] subshapeLoop_same[of stride t stop i] assms(2)
    by (cases "subshapeLoop stop t i"; cases "subshapeLoop stop stride i") auto
qed

lemma SubshapeStride_narrow:
  assumes s: "shape_of c s = Some ds" and n: "small_rank ds"
    and t: "t = to_int32 stride" "0 < t \<longleftrightarrow> 0 < stride" and st: "t \<noteq> 0" "\<bar>t\<bar> \<le> 1073741823"
  shows "SubshapeStride s a b stride c =
    (let n = int (length ds); i = normStart n stride a; j = normBound n b in
     if a = 0 \<and> stride = 1 \<and> (b \<ge> n \<or> b = int64_max) then (Inr s, c)
     else if i < 0 \<or> j < 0 \<or> (stride > 0 \<and> i > j) \<or> (stride < 0 \<and> i < j) then (Inl (Status InvalidArgument), c)
     else (Inr (Some (length (all_shapes c))),
           c\<lparr>all_shapes := all_shapes c @ [Some (pySlice ds i j t)]\<rparr>))"
proof -
  let ?n = "int (length ds)"
  let ?i = "normStart ?n stride a" and ?j = "normBound ?n b"
  have le: "?i \<le> ?n" "?j \<le> ?n" "stride < 0 \<Longrightarrow> ?i < ?n \<or> ?i < 0"
    unfolding normStart_def normBound_def Let_def min_def by (simp_all split: if_split)
  have neg: "t < 0 \<Longrightarrow> stride < 0" using t st(1) by (cases "stride = 0") (auto simp: to_int32_def)
  have slice: "(case subshapeLoop ?j stride ?i of
         None \<Rightarrow> faultWith Diverges
       | Some idxs \<Rightarrow> andThen (mapOp (Dim s) idxs) MakeShape) c =
     (Inr (Some (length (all_shapes c))), c\<lparr>all_shapes := all_shapes c @ [Some (pySlice ds ?i ?j t)]\<rparr>)"
    if ij: "0 \<le> ?i" "0 \<le> ?j" "\<not> (stride > 0 \<and> ?i > ?j)" "\<not> (stride < 0 \<and> ?i < ?j)"
  proof -
    let ?idxs = "strideIdx ?i t (strideCount ?i ?j t)"
    have loop: "subshapeLoop ?j stride ?i = Some ?idxs"
      unfolding subshapeLoop_narrow[OF t]
      using ij le n st neg t(2) by (intro subshapeLoop_norm[where n = ?n]) (auto simp: small_rank_def)
    have "0 \<le> x \<and> x < ?n" if "x \<in> set ?idxs" for x
      using strideIdx_bounds[OF that] ij le st neg by (cases "0 < t") auto
    from mapOp_Dim[OF s this] show ?thesis
      by (simp add: loop andThen_def MakeShape_run pySlice_def)
  qed
  note K = SubshapeStride_ranked[OF s, of a b stride]
  show ?thesis
  proof (cases "0 \<le> ?i \<and> 0 \<le> ?j \<and> \<not> (stride > 0 \<and> ?i > ?j) \<and> \<not> (stride < 0 \<and> ?i < ?j)")
    case True
    then have "\<not> ?i < 0" "\<not> ?j < 0" "\<not> (stride > 0 \<and> ?i > ?j)" "\<not> (stride < 0 \<and> ?i < ?j)" by auto
    then show ?thesis using slice True unfolding K Let_def by (simp only: if_False simp_thms cong: if_cong)
  next
    case False
    then have "?i < 0 \<or> ?j < 0 \<or> stride > 0 \<and> ?i > ?j \<or> stride < 0 \<and> ?i < ?j" by auto
    then show ?thesis unfolding K Let_def by (simp only: if_True if_False simp_thms split: if_split) blast
  qed
qed

lemma SubshapeStride_run:
  assumes s: "shape_of c s = Some ds" and n: "small_rank ds" and st: "stride \<noteq> 0" "\<bar>stride\<bar> \<le> 1073741823"
  shows "SubshapeStride s a b stride c =
    (let n = int (length ds); i = normStart n stride a; j = normBound n b in
     if a = 0 \<and> stride = 1 \<and> (b \<ge> n \<or> b = int64_max) then (Inr s, c)
     else if i < 0 \<or> j < 0 \<or> (stride > 0 \<and> i > j) \<or> (stride < 0 \<and> i < j) then (Inl (Status InvalidArgument), c)
     else (Inr (Some (length (all_shapes c))),
           c\<lparr>all_shapes := all_shapes c @ [Some (pySlice ds i j stride)]\<rparr>))"
proof -
  have "stride = to_int32 stride" using to_int32_id[of stride] st(2) by (simp add: in_int32_def abs_le_iff)
  from SubshapeStride_narrow[OF s n this refl st] show ?thesis .
qed

section \<open>Properties\<close>

text \<open>
  C9: On a shape of known rank Subshape is slicing as in Python: negative bounds count from the end, bounds beyond
  the rank stand for the rank, and the result holds the dimensions at the multiples of the stride from start up to,
  or for a negative stride from start or the last dimension down to, but excluding, end. Bounds before the first
  dimension, or in the wrong order, are InvalidArgument and change nothing. The whole shape is returned as it is. Because
  the end is excluded and an end of -1 is the last dimension, no negative stride reaches dimension 0, so that a shape cannot be
  reversed, as the header says. The stride acts with its lower 32 bits, which here have the sign of the stride and
  are below \<open>2^30\<close>.
\<close>

theorem Subshape_is_slice:
  assumes "shape_of c s = Some ds" and "small_rank ds"
    and "t = to_int32 stride" "0 < t \<longleftrightarrow> 0 < stride" "t \<noteq> 0" "\<bar>t\<bar> \<le> 1073741823"
  shows "SubshapeStride s a b stride c =
    (let n = int (length ds); i = fromBack n a; j = fromBack n b in
     if a = 0 \<and> stride = 1 \<and> n \<le> b then (Inr s, c)
     else if i < 0 \<or> j < 0 \<or> (stride > 0 \<and> min i n > min j n) \<or> (stride < 0 \<and> min i (n - 1) < min j n) then (Inl (Status InvalidArgument), c)
     else (Inr (Some (length (all_shapes c))),
           c\<lparr>all_shapes := all_shapes c @ [Some (map (\<lambda>k. ds ! nat k) (slicePositions n i j t))]\<rparr>))"
proof -
  let ?n = "int (length ds)" and ?i = "fromBack (int (length ds)) a" and ?j = "fromBack (int (length ds)) b"
  let ?i' = "normStart ?n stride a" and ?j' = "normBound ?n b"
  have neg: "t < 0 \<longleftrightarrow> stride < 0" using assms(3-5) by (cases "stride = 0") (auto simp: to_int32_def)
  have n: "?n < int64_max" using assms(2) by (simp add: small_rank_def)
  have j: "?j' = min ?j ?n" by (auto simp: normBound_def fromBack_def Let_def min_def)
  have i: "?i' = (if stride < 0 then min ?i (?n - 1) else min ?i ?n)"
    by (auto simp: normStart_def fromBack_def Let_def min_def)
  have top: "b \<ge> ?n \<or> b = int64_max \<longleftrightarrow> ?n \<le> b" using n by auto
  have pos: "pySlice ds ?i' ?j' t = map (\<lambda>k. ds ! nat k) (slicePositions ?n ?i ?j t)"
    if "0 \<le> ?i'" "0 \<le> ?j'"
  proof -
    have "strideIdx ?i' t (strideCount ?i' ?j' t) = slicePositions ?n ?i ?j t"
    proof (cases "0 < t")
      case True
      have "clamp 0 ?n ?i = ?i'" "clamp 0 ?n ?j = ?j'" using that True neg unfolding i j by (auto simp: clamp_def)
      then show ?thesis using positions_up[OF True, of ?n ?i ?j] by simp
    next
      case False
      then have t: "t < 0" "stride < 0" using assms(5) neg by auto
      have "clamp (- 1) (?n - 1) ?i = ?i'" using that t unfolding i j by (auto simp: clamp_def)
      moreover have "strideCount ?i' (clamp (- 1) (?n - 1) ?j) t = strideCount ?i' ?j' t"
        using that t strideCount_done(2)[OF t(1)] unfolding i j by (auto simp: clamp_def)
      ultimately show ?thesis using positions_down[OF t(1), of ?n ?i ?j] by simp
    qed
    then show ?thesis by (simp add: pySlice_def)
  qed
  have lt: "?i < 0 \<or> ?j < 0 \<or> (stride > 0 \<and> min ?i ?n > min ?j ?n) \<or> (stride < 0 \<and> min ?i (?n - 1) < min ?j ?n) \<longleftrightarrow>
      ?i' < 0 \<or> ?j' < 0 \<or> (stride > 0 \<and> ?i' > ?j') \<or> (stride < 0 \<and> ?i' < ?j')"
    unfolding i j using assms(3,5) by (auto simp: min_def)
  show ?thesis
    using SubshapeStride_narrow[OF assms(1-6), of a b] pos unfolding Let_def top lt by auto
qed

text \<open>Every second dimension of a shape of rank 5, from the last one down.\<close>

lemma Subshape_is_slice_witness:
  "fst (SubshapeStride (Some 0) 5 0 (- 2) (sample_ctx [2, 3, 4, 5, 6] [Some [0, 1, 2, 3, 4]] [] [] 0 [])) = Inr (Some 1) \<and>
   slicePositions 5 5 0 (- 2) = [4, 2]"
proof -
  have "slicePositions 5 5 0 (- 2) = [4, 2]" "to_int32 (- 2) = - 2" by code_simp+
  then show ?thesis
    using Subshape_is_slice[of "sample_ctx [2, 3, 4, 5, 6] [Some [0, 1, 2, 3, 4]] [] [] 0 []" "Some 0" "[0, 1, 2, 3, 4]" "- 2" "- 2" 5 0]
    by (simp add: shape_of_def sample_ctx_def small_rank_def Let_def fromBack_def)
qed

text \<open>
  C10: When the loop of Subshape ends. For a shape of known rank it fails to end exactly when
  the lower 32 bits of the stride are 0, both bounds are in range and end lies beyond start in the direction of the stride,
  or before start for stride 0; neither the checks before the loop nor those on the sign of the stride exclude this. The
  other strides are those below \<open>2^30\<close> in their lower 32 bits, with the same sign.
\<close>

theorem Subshape_diverges_iff:
  assumes "shape_of c s = Some ds" and "small_rank ds"
    and "t = to_int32 stride" "t = 0 \<or> (0 < t \<longleftrightarrow> 0 < stride)" "\<bar>t\<bar> \<le> 1073741823"
  shows "fst (SubshapeStride s a b stride c) = Inl (Fault Diverges) \<longleftrightarrow>
    (let n = int (length ds); i = min (fromBack n a) (if stride < 0 then n - 1 else n); j = min (fromBack n b) n in
     t = 0 \<and> 0 \<le> i \<and> 0 \<le> j \<and> (if 0 < stride then i < j else j < i))"
proof -
  let ?n = "int (length ds)"
  let ?i = "normStart ?n stride a" and ?j = "normBound ?n b"
  have j: "min (fromBack ?n b) ?n = ?j" by (auto simp: normBound_def fromBack_def Let_def min_def)
  have i: "min (fromBack ?n a) (if stride < 0 then ?n - 1 else ?n) = ?i"
    by (auto simp: normStart_def fromBack_def Let_def min_def)
  have "fst (SubshapeStride s a b stride c) = Inl (Fault Diverges) \<longleftrightarrow> t = 0 \<and> 0 \<le> ?i \<and> 0 \<le> ?j \<and> (if 0 < stride then ?i < ?j else ?j < ?i)"
  proof (cases "t = 0")
    case False
    then show ?thesis using SubshapeStride_narrow[OF assms(1-3) _ False assms(5)] assms(4) by (simp add: Let_def)
  next
    case True
    have le: "?i \<le> ?n" unfolding i[symmetric] by (simp add: min_def)
    have stop: "subshapeLoop ?j stride ?i = (if (if 0 < stride then ?i < ?j else ?j < ?i) then None else Some [])" if "0 \<le> ?i"
    proof (cases "if 0 < stride then ?i < ?j else ?j < ?i")
      case go: True
      have "in_int32 ?i" using that le assms(2) by (simp add: in_int32_def small_rank_def)
      moreover have "to_int32 (?i + stride) = to_int32 (?i + to_int32 stride)"
        unfolding to_int32_def by (simp add: mod_simps algebra_simps)
      ultimately have "to_int32 (?i + stride) = ?i" using True assms(3) by simp
      then show ?thesis using subshapeLoop_stuck[OF _ go] go by simp
    next
      case False
      then show ?thesis by (subst subshapeLoop.simps) simp
    qed
    have one: "stride \<noteq> 1" using True assms(3) by (auto simp: to_int32_def)
    note K = SubshapeStride_ranked[OF assms(1), of a b stride]
    show ?thesis
    proof (cases "?i < 0 \<or> ?j < 0 \<or> 0 < stride \<and> ?j < ?i \<or> stride < 0 \<and> ?i < ?j")
      case bad: True
      then show ?thesis using one by (auto simp: K)
    next
      case False
      then have "SubshapeStride s a b stride c =
          (if (if 0 < stride then ?i < ?j else ?j < ?i) then (Inl (Fault Diverges), c) else MakeShape [] c)"
        using stop one unfolding K by (simp add: faultWith_run op_simps)
      then show ?thesis using False True by (simp add: MakeShape_run)
    qed
  qed
  then show ?thesis unfolding Let_def i j .
qed

lemma Subshape_diverges_iff_witness:
  "fst (SubshapeStride (Some 0) 0 1 4294967296 (sample_ctx [2, 3] [Some [0, 1]] [] [] 0 [])) = Inl (Fault Diverges)"
  using Subshape_diverges_iff[of "sample_ctx [2, 3] [Some [0, 1]] [] [] 0 []" "Some 0" "[0, 1]" 0 4294967296 0 1]
  by (simp add: shape_of_def sample_ctx_def small_rank_def fromBack_def to_int32_def)

end
