(* ===== verification/SafeRules.thy ===== *)
theory SafeRules
  imports CallRules SubExact
begin

text \<open>
  A second calculus, for calls on any well-formed context and not only those that a run of
  the operation fits. \<open>safe m Q c\<close>: \<open>m\<close> does not run into a fault; whether it reports an
  error or not, the context it leaves is well formed and only adds to the arenas and to the
  merge records; and if it succeeds, \<open>Q\<close> holds. A fact here is that a handle is valid, what
  is known of a rank, or what every model of the context satisfies.
\<close>

section \<open>Contexts that only add\<close>

definition adds :: "ctx \<Rightarrow> ctx \<Rightarrow> bool" where
  "adds c c' \<longleftrightarrow> extends c c' \<and> set (merged_dims c) \<subseteq> set (merged_dims c') \<and>
     set (merged_shapes c) \<subseteq> set (merged_shapes c')"

lemma adds_refl [simp]: "adds c c"
  by (simp add: adds_def)

lemma adds_trans: "adds c c' \<Longrightarrow> adds c' c'' \<Longrightarrow> adds c c''"
  using extends_trans by (auto simp: adds_def)

lemma adds_models: "adds c c' \<Longrightarrow> models c' v w \<Longrightarrow> models c v w"
  by (rule grows_models[of c c']) (auto simp: adds_def grows_def extends_def same_statics_def)

lemma adds_valid_dim: "adds c c' \<Longrightarrow> valid_dim c d \<Longrightarrow> valid_dim c' d"
  by (auto simp: adds_def intro: extends_valid_dim)

lemma adds_shape_of: "adds c c' \<Longrightarrow> valid_shape c s \<Longrightarrow> shape_of c' s = shape_of c s"
  by (auto simp: adds_def intro: extends_shape_of)

text \<open>A handle that points to a shape, and its sizes in a model.\<close>

definition vshape :: "ctx \<Rightarrow> shape \<Rightarrow> bool" where
  "vshape c s \<longleftrightarrow> s \<noteq> None \<and> valid_shape c s"

definition sz :: "shape_env \<Rightarrow> shape \<Rightarrow> int list" where
  "sz w s = (case s of None \<Rightarrow> [] | Some a \<Rightarrow> w a)"

lemma adds_vshape: "adds c c' \<Longrightarrow> vshape c s \<Longrightarrow> vshape c' s"
  by (auto simp: adds_def vshape_def intro: extends_valid_shape)

lemma sz_Some [simp]: "sz w (Some a) = w a"
  by (simp add: sz_def)

section \<open>Facts and safe operations\<close>

datatype vfact = VDim dim | VShape shape int int | VRanked shape | VFrom ctx
  | Sem "dim_env \<Rightarrow> shape_env \<Rightarrow> bool"

primrec vholds :: "ctx \<Rightarrow> vfact \<Rightarrow> bool" where
  "vholds c (VDim d) = valid_dim c d"
| "vholds c (VShape s lo hi) =
     (vshape c s \<and> (\<forall>ds. shape_of c s = Some ds \<longrightarrow> lo \<le> int (length ds) \<and> int (length ds) \<le> hi))"
| "vholds c (VRanked s) = (vshape c s \<and> shape_of c s \<noteq> None)"
| "vholds c (VFrom c0) = adds c0 c"
| "vholds c (Sem P) = (\<forall>v w. models c v w \<longrightarrow> P v w)"

definition has :: "vfact list \<Rightarrow> ctx \<Rightarrow> bool" where
  "has \<Gamma> c \<longleftrightarrow> wf_ctx c \<and> list_all (vholds c) \<Gamma>"

definition safe :: "'a cop \<Rightarrow> ('a \<Rightarrow> ctx \<Rightarrow> bool) \<Rightarrow> ctx \<Rightarrow> bool" where
  "safe m Q c \<longleftrightarrow> (case m c of (r, c') \<Rightarrow> wf_ctx c' \<and> adds c c' \<and>
     (case r of Inl (Status _) \<Rightarrow> True | Inl (Fault _) \<Rightarrow> False | Inr x \<Rightarrow> Q x c'))"

abbreviation yields :: "'a cop \<Rightarrow> ('a \<Rightarrow> vfact list) \<Rightarrow> ctx \<Rightarrow> bool" where
  "yields m \<Delta> c \<equiv> safe m (\<lambda>x c'. list_all (vholds c') (\<Delta> x)) c"

lemma vholds_adds:
  assumes "adds c c'" "vholds c f"
  shows "vholds c' f"
proof (cases f)
  case (VShape s lo hi)
  have "valid_shape c s" using assms(2) VShape by (simp add: vshape_def)
  then show ?thesis using assms VShape adds_shape_of[of c c' s] adds_vshape[of c c' s] by simp
next
  case (VRanked s)
  have "valid_shape c s" using assms(2) VRanked by (simp add: vshape_def)
  then show ?thesis using assms VRanked adds_shape_of[of c c' s] adds_vshape[of c c' s] by simp
qed (use assms adds_valid_dim adds_trans adds_models in auto)

lemma has_adds: "has \<Gamma> c \<Longrightarrow> adds c c' \<Longrightarrow> wf_ctx c' \<Longrightarrow> has \<Gamma> c'"
  by (auto simp: has_def list_all_iff intro: vholds_adds)

lemma has_fact: "has \<Gamma> c \<Longrightarrow> f \<in> set \<Gamma> \<Longrightarrow> vholds c f"
  by (auto simp: has_def list_all_iff)

lemma has_wf: "has \<Gamma> c \<Longrightarrow> wf_ctx c"
  by (simp add: has_def)

lemma has_Cons: "has (f # \<Gamma>) c \<longleftrightarrow> vholds c f \<and> has \<Gamma> c"
  by (auto simp: has_def)

lemma safe_andThen:
  assumes "safe m P c" "\<And>x c'. wf_ctx c' \<Longrightarrow> adds c c' \<Longrightarrow> P x c' \<Longrightarrow> safe (f x) Q c'"
  shows "safe (andThen m f) Q c"
proof -
  obtain r c' where m: "m c = (r, c')" by (cases "m c")
  show ?thesis
  proof (cases r)
    case (Inl e)
    then show ?thesis using assms(1) m by (auto simp: safe_def andThen_def split: fail.splits)
  next
    case (Inr x)
    then have "safe (f x) Q c'" and a: "adds c c'" using assms m by (auto simp: safe_def)
    then show ?thesis
      using m Inr adds_trans[OF a] unfolding safe_def
      by (auto simp: andThen_def split: prod.splits sum.splits fail.splits)
  qed
qed

lemma safe_bind:
  assumes "has \<Gamma> c" "yields m \<Delta> c"
    and "\<And>x c'. has (\<Delta> x @ \<Gamma>) c' \<Longrightarrow> safe (f x) Q c'"
  shows "safe (andThen m f) Q c"
  by (rule safe_andThen[OF assms(2)], rule assms(3))
    (use has_adds[OF assms(1)] in \<open>auto simp: has_def\<close>)

lemma safe_weaken: "safe m P c \<Longrightarrow> (\<And>x c'. wf_ctx c' \<Longrightarrow> adds c c' \<Longrightarrow> P x c' \<Longrightarrow> Q x c') \<Longrightarrow> safe m Q c"
  by (auto simp: safe_def split: prod.splits sum.splits fail.splits)

lemma safe_eq: "m c = m' c \<Longrightarrow> safe m Q c = safe m' Q c"
  by (simp add: safe_def)

lemma safe_ret: "wf_ctx c \<Longrightarrow> Q x c \<Longrightarrow> safe (ret x) Q c"
  by (simp add: safe_def op_simps)

lemma safe_failWith: "wf_ctx c \<Longrightarrow> safe (failWith e) Q c"
  by (simp add: safe_def op_simps)

lemma safe_gets: "safe (f (g c)) Q c \<Longrightarrow> safe (andThen (gets g) f) Q c"
  by (simp add: safe_def andThen_def gets_def)

lemma safe_failUnless: "wf_ctx c \<Longrightarrow> (b \<Longrightarrow> safe (f ()) Q c) \<Longrightarrow> safe (andThen (failUnless b e) f) Q c"
  by (simp add: safe_def op_simps andThen_def failUnless_def)

lemma safe_tryStatus:
  assumes "has \<Gamma> c" "yields m \<Delta> c"
    and "\<And>e c'. has \<Gamma> c' \<Longrightarrow> safe (f (Inl e)) Q c'"
    and "\<And>x c'. has (\<Delta> x @ \<Gamma>) c' \<Longrightarrow> safe (f (Inr x)) Q c'"
  shows "safe (andThen (tryStatus m) f) Q c"
proof (rule safe_andThen)
  show "safe (tryStatus m) (\<lambda>r c'. case r of Inl _ \<Rightarrow> True | Inr x \<Rightarrow> list_all (vholds c') (\<Delta> x)) c"
    using assms(2) by (auto simp: safe_def tryStatus_def split: prod.splits sum.splits fail.splits)
next
  fix r :: "status_code + 'a" and c'
  assume "wf_ctx c'" "adds c c'" and r: "case r of Inl _ \<Rightarrow> True | Inr x \<Rightarrow> list_all (vholds c') (\<Delta> x)"
  then have h: "has \<Gamma> c'" using has_adds[OF assms(1)] by simp
  show "safe (f r) Q c'"
  proof (cases r)
    case (Inl e)
    then show ?thesis using assms(3) h by simp
  next
    case (Inr x)
    then show ?thesis using assms(4)[of x c'] h r by (simp add: has_def)
  qed
qed

lemma safe_checkOk: "safe m Q c \<Longrightarrow> (\<And>e c'. m c \<noteq> (Inl (Status e), c')) \<Longrightarrow> safe (checkOk m) Q c"
  by (auto simp: safe_def checkOk_def split: prod.splits sum.splits fail.splits)

text \<open>A loop whose body keeps what is known and yields facts about each result.\<close>

lemma safe_mapOp:
  assumes "has \<Gamma> c"
    and "\<And>x c'. x \<in> set xs \<Longrightarrow> has \<Gamma> c' \<Longrightarrow> yields (f x) (\<lambda>y. [P y]) c'"
  shows "safe (mapOp f xs) (\<lambda>ys c'. length ys = length xs \<and> (\<forall>y \<in> set ys. vholds c' (P y))) c"
  using assms
proof (induction xs arbitrary: c)
  case Nil
  then show ?case by (simp add: safe_ret has_def)
next
  case (Cons x xs)
  show ?case
    unfolding mapOp.simps
  proof (rule safe_bind[OF Cons.prems(1) Cons.prems(2)[OF _ Cons.prems(1)]])
    fix y c'
    assume h: "has ([P y] @ \<Gamma>) c'"
    show "safe (andThen (mapOp f xs) (\<lambda>ys. ret (y # ys)))
        (\<lambda>ys c'. length ys = length (x # xs) \<and> (\<forall>y \<in> set ys. vholds c' (P y))) c'"
    proof (rule safe_andThen[OF Cons.IH])
      show "has \<Gamma> c'" using h by (simp add: has_def)
      show "x' \<in> set xs \<Longrightarrow> has \<Gamma> c1 \<Longrightarrow> yields (f x') (\<lambda>y. [P y]) c1" for x' c1
        using Cons.prems(2) by simp
    next
      fix ys c2
      assume "wf_ctx c2" "adds c' c2" "length ys = length xs \<and> (\<forall>y\<in>set ys. vholds c2 (P y))"
      moreover have "vholds c' (P y)" using h by (simp add: has_def)
      ultimately show "safe (ret (y # ys)) (\<lambda>ys c'. length ys = length (x # xs) \<and> (\<forall>y \<in> set ys. vholds c' (P y))) c2"
        using vholds_adds by (auto intro!: safe_ret)
    qed
  qed simp
qed

section \<open>Growing the arenas and the merge records\<close>

lemma push_dim_adds:
  assumes "wf_ctx c" "- 1 \<le> k" "k \<le> int64_max"
  defines "c' \<equiv> c\<lparr>all_dims := all_dims c @ [k]\<rparr>"
  shows "wf_ctx c' \<and> adds c c' \<and> valid_dim c' (length (all_dims c)) \<and> DValue c' (length (all_dims c)) = k"
proof -
  have e: "extends c c'" by (simp add: extends_def same_statics_def c'_def)
  have f: "valid_shape c' = valid_shape c" by (auto simp: valid_shape_def c'_def fun_eq_iff split: option.splits)
  have v: "valid_dim c d \<Longrightarrow> valid_dim c' d" for d using extends_valid_dim[OF e] .
  have "wf_ctx c'"
    using assms(1-3) unfolding wf_ctx_def valid_handles_def f
    by (auto simp: c'_def list_all_iff split: option.splits intro: v[unfolded c'_def])
  then show ?thesis using e by (simp add: adds_def c'_def valid_dim_def Value_def)
qed

lemma push_shape_adds:
  assumes "wf_ctx c" "case sh of None \<Rightarrow> True | Some ds \<Rightarrow> list_all (valid_dim c) ds"
  defines "c' \<equiv> c\<lparr>all_shapes := all_shapes c @ [sh]\<rparr>"
  shows "wf_ctx c' \<and> adds c c' \<and> vshape c' (Some (length (all_shapes c))) \<and>
    shape_of c' (Some (length (all_shapes c))) = sh"
proof -
  have e: "extends c c'" by (simp add: extends_def same_statics_def c'_def)
  have f: "valid_dim c' = valid_dim c" by (simp add: valid_dim_def c'_def fun_eq_iff)
  have v: "valid_shape c s \<Longrightarrow> valid_shape c' s" for s using extends_valid_shape[OF e] .
  have l: "list_all (valid_shape c) ss \<Longrightarrow> list_all (valid_shape c') ss"
      "list_all (\<lambda>(a, b). valid_shape c a \<and> valid_shape c b) ps \<Longrightarrow>
       list_all (\<lambda>(a, b). valid_shape c' a \<and> valid_shape c' b) ps"
      "valid_handles c hs \<Longrightarrow> valid_handles c' hs" for ss ps hs
    using v by (auto simp: valid_handles_def list_all_iff split: option.splits)
  have c': "all_dims c' = all_dims c" "all_shapes c' = all_shapes c @ [sh]" "merged_dims c' = merged_dims c"
      "merged_shapes c' = merged_shapes c" "inputs c' = inputs c" "outputs c' = outputs c"
      "input_tensors_as_shapes c' = input_tensors_as_shapes c"
      "input_handle_shapes_and_types c' = input_handle_shapes_and_types c"
      "output_handle_shapes_and_types c' = output_handle_shapes_and_types c"
    by (simp_all add: c'_def)
  have "wf_ctx c'"
    using assms(1,2) l unfolding wf_ctx_def f c' by simp
  then show ?thesis using e by (simp add: adds_def c'_def vshape_def valid_shape_def shape_of_def)
qed

lemma merge_adds:
  assumes "wf_ctx c" "list_all (\<lambda>(a, b). valid_dim c a \<and> valid_dim c b) ds"
    and "list_all (\<lambda>(a, b). valid_shape c a \<and> valid_shape c b) ss"
  defines "c' \<equiv> c\<lparr>merged_dims := merged_dims c @ ds, merged_shapes := merged_shapes c @ ss\<rparr>"
  shows "wf_ctx c' \<and> adds c c'"
proof -
  have f: "valid_dim c' = valid_dim c" "valid_shape c' = valid_shape c"
    by (auto simp: valid_dim_def valid_shape_def c'_def fun_eq_iff split: option.splits)
  have "wf_ctx c'"
    using assms(1-3) unfolding wf_ctx_def valid_handles_def f by (auto simp: c'_def list_all_iff)
  then show ?thesis by (simp add: adds_def extends_def same_statics_def c'_def)
qed

section \<open>The basic operations\<close>

named_theorems yields_intros \<open>what the operations yield\<close>

lemma UnknownDim_yields: "has \<Gamma> c \<Longrightarrow> yields UnknownDim (\<lambda>d. [VDim d]) c"
  using push_dim_adds[of c "- 1"] by (simp add: safe_def op_simps has_def)

lemma MakeDim_Const_yields:
  assumes "has \<Gamma> c" "- 1 \<le> k \<and> k \<le> int64_max"
  shows "yields (MakeDim (Const k)) (\<lambda>d. [VDim d, Sem (\<lambda>v w. k = - 1 \<or> v d = k)]) c"
proof -
  let ?c = "c\<lparr>all_dims := all_dims c @ [k]\<rparr>" and ?d = "length (all_dims c)"
  have p: "wf_ctx ?c \<and> adds c ?c \<and> valid_dim ?c ?d \<and> DValue ?c ?d = k"
    using assms push_dim_adds[of c k] by (simp add: has_def)
  have "k = - 1 \<or> v ?d = k" if "models ?c v w" for v w
    using that p by (auto simp: models_def agrees_dim_def valid_dim_def Value_def)
  then show ?thesis using p assms(2) by (auto simp: safe_def op_simps)
qed

definition docv :: "vfact list \<Rightarrow> dim_or_const \<Rightarrow> bool" where
  "docv \<Gamma> e \<longleftrightarrow> (case e of Handle a \<Rightarrow> VDim a \<in> set \<Gamma> | Const k \<Rightarrow> - 1 \<le> k \<and> k \<le> int64_max)"

lemma docv_handle: "VDim a \<in> set \<Gamma> \<Longrightarrow> docv \<Gamma> (Handle a)"
  by (simp add: docv_def)

lemma MakeDim_yields: "has \<Gamma> c \<Longrightarrow> docv \<Gamma> e \<Longrightarrow> yields (MakeDim e) (\<lambda>d. [VDim d]) c"
proof (cases e)
  case (Const k)
  assume "has \<Gamma> c" "docv \<Gamma> e"
  then show ?thesis
    using Const by (intro safe_weaken[OF MakeDim_Const_yields[of \<Gamma> c k, folded Const]]) (auto simp: docv_def Const)
next
  case (Handle a)
  assume "has \<Gamma> c" "docv \<Gamma> e"
  then show ?thesis
    using Handle has_fact[of \<Gamma> c "VDim a"] by (auto simp: docv_def safe_def op_simps has_wf)
qed

lemma docv_value: "has \<Gamma> c \<Longrightarrow> docv \<Gamma> e \<Longrightarrow> - 1 \<le> Value c e \<and> Value c e \<le> int64_max"
  using has_fact[of \<Gamma> c "VDim a" for a]
  by (auto simp: docv_def Value_def has_def wf_ctx_def list_all_iff valid_dim_def split: dim_or_const.splits)

lemma dimOrConst_safe: "has \<Gamma> c \<Longrightarrow> docv \<Gamma> e \<Longrightarrow> safe (f ()) Q c \<Longrightarrow> safe (andThen (dimOrConst e) f) Q c"
  by (auto simp: safe_def andThen_def op_simps docv_def split: dim_or_const.splits)

text \<open>The sizes of a new shape, in every model.\<close>

lemma MakeShape_yields:
  assumes "has \<Gamma> c" "list_all (valid_dim c) ds"
  shows "yields (MakeShape ds) (\<lambda>s. [VShape s (int (length ds)) (int (length ds)), VRanked s, Sem (\<lambda>v w. sz w s = map v ds)]) c"
proof -
  let ?c = "c\<lparr>all_shapes := all_shapes c @ [Some ds]\<rparr>" and ?a = "length (all_shapes c)"
  have p: "wf_ctx ?c \<and> adds c ?c \<and> vshape ?c (Some ?a) \<and> shape_of ?c (Some ?a) = Some ds"
    using assms push_shape_adds[of c "Some ds"] by (simp add: has_def)
  have "w ?a = map v ds" if "models ?c v w" for v w
    using that p by (auto simp: models_def agrees_shape_def vshape_def valid_shape_def shape_of_def)
  then show ?thesis using p by (auto simp: safe_def op_simps)
qed

lemma UnknownShape_yields: "has \<Gamma> c \<Longrightarrow> lo \<le> hi \<Longrightarrow> yields UnknownShape (\<lambda>s. [VShape s lo hi]) c"
  using push_shape_adds[of c None] by (simp add: safe_def op_simps has_def)

lemma models_shape:
  assumes "models c v w" "vshape c s" "shape_of c s = Some ds"
  shows "sz w s = map v ds"
  using assms by (auto simp: models_def agrees_shape_def vshape_def valid_shape_def shape_of_def sz_def split: option.splits)

lemma wf_shape_dims: "wf_ctx c \<Longrightarrow> vshape c s \<Longrightarrow> shape_of c s = Some ds \<Longrightarrow> list_all (valid_dim c) ds"
  by (auto simp: wf_ctx_def vshape_def valid_shape_def shape_of_def list_all_length split: option.splits)

lemma Dim_yields:
  assumes h: "has \<Gamma> c" and s: "VShape s lo hi \<in> set \<Gamma>" and i: "- lo \<le> i \<and> i < lo"
  shows "yields (Dim s i) (\<lambda>d. [VDim d, Sem (\<lambda>v w. shape_of c s \<noteq> None \<longrightarrow> v d = sz w s ! pyIndex i (length (sz w s)))]) c"
proof (cases "shape_of c s")
  case None
  then show ?thesis
    using safe_weaken[OF UnknownDim_yields[OF h]] by (simp add: safe_def Dim_unknown)
next
  case (Some ds)
  have v: "vshape c s" and l: "lo \<le> int (length ds)" using has_fact[OF h s] Some by auto
  let ?i = "if i < 0 then int (length ds) + i else i"
  have r: "0 \<le> ?i \<and> ?i < int (length ds)" using i l by auto
  have "valid_dim c (ds ! nat ?i)"
    using wf_shape_dims[OF has_wf[OF h] v Some] r by (auto simp: list_all_length)
  moreover have "v' (ds ! nat ?i) = sz w s ! pyIndex i (length (sz w s))" if "models c v' w" for v' w
    using models_shape[OF that v Some] r by (auto simp: pyIndex_def)
  ultimately show ?thesis
    using r h Some by (auto simp: safe_def Dim_known[OF Some] vecAt_def has_wf)
qed

lemma addMergedDims_safe:
  "wf_ctx c \<Longrightarrow> valid_dim c a \<Longrightarrow> valid_dim c b \<Longrightarrow>
   safe (addMergedDims a b) (\<lambda>_ c'. \<forall>v w. models c' v w \<longrightarrow> v a = v b) c"
  using merge_adds[of c "[(a, b)]" "[]"] by (auto simp: safe_def addMergedDims_def op_simps models_def)

lemma addMergedShapes_safe:
  "wf_ctx c \<Longrightarrow> vshape c a \<Longrightarrow> vshape c b \<Longrightarrow>
   safe (addMergedShapes a b) (\<lambda>_ c'. all_dims c' = all_dims c \<and> (\<forall>v w. models c' v w \<longrightarrow> sz w a = sz w b)) c"
  using merge_adds[of c "[]" "[(a, b)]"]
  by (auto simp: safe_def addMergedShapes_def op_simps models_def same_shape_def vshape_def sz_def split: option.splits)

lemma models_dim:
  "models c v w \<Longrightarrow> valid_dim c d \<Longrightarrow> is_size (v d) \<and> (DValue c d = - 1 \<or> v d = DValue c d)"
  by (auto simp: models_def valid_dim_def agrees_dim_def)

lemma MergeDim_yields:
  assumes h: "has \<Gamma> c" and a: "VDim a \<in> set \<Gamma>" and b: "VDim b \<in> set \<Gamma>"
  shows "yields (MergeDim a b) (\<lambda>d. [VDim d, Sem (\<lambda>v w. v a = v b \<and> v d = v a)]) c"
proof -
  have v: "valid_dim c a" "valid_dim c b" using has_fact[OF h a] has_fact[OF h b] by auto
  have p: "wf_ctx (c\<lparr>merged_dims := merged_dims c @ [(a, b)]\<rparr>) \<and> adds c (c\<lparr>merged_dims := merged_dims c @ [(a, b)]\<rparr>)"
    using merge_adds[of c "[(a, b)]" "[]"] v has_wf[OF h] by simp
  have m: "v' a = v' b" if "models (c\<lparr>merged_dims := merged_dims c @ [(a, b)]\<rparr>) v' w" for v' w
    using that by (simp add: models_def)
  have e: "v' a = v' b" if "DValue c a = DValue c b" "DValue c a \<noteq> - 1" "models c v' w" for v' w
    using models_dim[OF that(3) v(1)] models_dim[OF that(3) v(2)] that by auto
  have d: "valid_dim (c\<lparr>merged_dims := ms\<rparr>) x = valid_dim c x" for x ms by (simp add: valid_dim_def)
  show ?thesis
    using p m m[symmetric] e v has_wf[OF h] by (auto simp: safe_def MergeDim_run d)
qed

section \<open>Shapes\<close>

lemma VDim_all: "has \<Gamma> c \<Longrightarrow> set (map VDim ds) \<subseteq> set \<Gamma> \<Longrightarrow> list_all (valid_dim c) ds"
  using has_fact[of \<Gamma> c] by (fastforce simp: list_all_iff)

lemma Matrix_yields:
  assumes "has \<Gamma> c" "VDim a \<in> set \<Gamma>" "VDim b \<in> set \<Gamma>"
  shows "yields (Matrix (Handle a) (Handle b)) (\<lambda>s. [VShape s 2 2, VRanked s, Sem (\<lambda>v w. sz w s = [v a, v b])]) c"
  using MakeShape_yields[OF assms(1) VDim_all[OF assms(1), of "[a, b]"]] assms MakeShapeOf_Handles[of "[a, b]"]
  by (simp add: Matrix_def)

lemma Vector_yields:
  assumes "has \<Gamma> c" "VDim a \<in> set \<Gamma>"
  shows "yields (Vector (Handle a)) (\<lambda>s. [VShape s 1 1, VRanked s, Sem (\<lambda>v w. sz w s = [v a])]) c"
  using MakeShape_yields[OF assms(1) VDim_all[OF assms(1), of "[a]"]] assms MakeShapeOf_Handles[of "[a]"]
  by (simp add: Vector_def)

lemma Scalar_yields:
  assumes "has \<Gamma> c"
  shows "yields Scalar (\<lambda>s. [VShape s 0 0, VRanked s, Sem (\<lambda>v w. sz w s = [])]) c"
  using MakeShape_yields[OF assms, of "[]"] MakeShapeOf_Handles[of "[]"] by (simp add: Scalar_def)

lemma mergeScan_keeps:
  "mergeScan c ps r0 r1 = Some (q0, q1) \<Longrightarrow> list_all (compatible (all_dims c)) ps"
  using mergeScan_compatible[of c ps r0 r1] by simp

lemma mapOp_MergeDim_safe:
  assumes "list_all (compatible (all_dims c)) ps" "wf_ctx c" "list_all (\<lambda>(a, b). valid_dim c a \<and> valid_dim c b) ps"
  shows "safe (mapOp (\<lambda>(a, b). checkOk (MergeDim a b)) ps)
    (\<lambda>ds c'. length ds = length ps \<and> list_all (valid_dim c') ds) c"
  using assms
proof (induction ps arbitrary: c)
  case Nil
  then show ?case by (simp add: safe_ret)
next
  case (Cons p ps)
  obtain a b where p: "p = (a, b)" by (cases p)
  have v: "valid_dim c a" "valid_dim c b" using Cons.prems p by auto
  have st: "MergeDim a b c \<noteq> (Inl (Status e), c')" for e c'
    using Cons.prems(1) by (auto simp: p compatible_def MergeDim_run Value_def split: if_splits)
  have "has [VDim a, VDim b] c" using Cons.prems(2) v by (simp add: has_def)
  from safe_checkOk[OF MergeDim_yields[OF this] st]
  have "safe (checkOk (MergeDim a b)) (\<lambda>d c'. valid_dim c' d) c" by (auto elim: safe_weaken)
  moreover have "all_dims (snd (checkOk (MergeDim a b) c)) = all_dims c"
    by (auto simp: checkOk_def MergeDim_run)
  ultimately have m: "safe (checkOk (MergeDim a b)) (\<lambda>d c'. valid_dim c' d \<and> all_dims c' = all_dims c) c"
    by (auto simp: safe_def split: prod.splits sum.splits)
  show ?case
    unfolding mapOp.simps p split_conv
  proof (rule safe_andThen[OF m])
    fix d c'
    assume 1: "wf_ctx c'" "adds c c'" "valid_dim c' d \<and> all_dims c' = all_dims c"
    have vd: "valid_dim c' = valid_dim c" using 1(3) by (simp add: valid_dim_def fun_eq_iff)
    show "safe (andThen (mapOp (\<lambda>(a, b). checkOk (MergeDim a b)) ps) (\<lambda>ys. ret (d # ys)))
        (\<lambda>ds c'. length ds = length ((a, b) # ps) \<and> list_all (valid_dim c') ds) c'"
      by (rule safe_andThen[OF Cons.IH])
        (use 1 Cons.prems adds_valid_dim in \<open>auto simp: vd intro!: safe_ret\<close>)
  qed
qed

text \<open>The semantic part is \<open>MergeShape_enforces\<close>; what is left is that nothing faults.\<close>

lemma safe_models:
  assumes "safe m P c" "\<And>x c' v w. m c = (Inr x, c') \<Longrightarrow> models c' v w \<Longrightarrow> R x v w"
  shows "safe m (\<lambda>x c'. P x c' \<and> (\<forall>v w. models c' v w \<longrightarrow> R x v w)) c"
  using assms by (auto simp: safe_def split: prod.splits sum.splits)

lemma MergeShape_safe:
  assumes w: "wf_ctx c" and s: "vshape c s0" "vshape c s1"
  shows "safe (MergeShape s0 s1) (\<lambda>s c'. vshape c' s \<and>
    (shape_of c' s = None \<longleftrightarrow> shape_of c s0 = None \<and> shape_of c s1 = None) \<and>
    (\<forall>ds. shape_of c' s = Some ds \<longrightarrow> (\<forall>ds0. shape_of c s0 = Some ds0 \<longrightarrow> length ds = length ds0) \<and>
       (\<forall>ds1. shape_of c s1 = Some ds1 \<longrightarrow> length ds = length ds1))) c"
    (is "safe _ ?Q c")
proof -
  have vs: "valid_shape c s0" "valid_shape c s1" using s by (auto simp: vshape_def)
  have m: "safe (andThen (addMergedShapes s0 s1) (\<lambda>_. ret s)) ?Q c"
    if "s = s0 \<and> (shape_of c s0 = None \<longrightarrow> shape_of c s1 = None) \<or> s = s1 \<and> (shape_of c s1 = None \<longrightarrow> shape_of c s0 = None)"
      "\<And>ds0 ds1. shape_of c s0 = Some ds0 \<Longrightarrow> shape_of c s1 = Some ds1 \<Longrightarrow> length ds0 = length ds1" for s
    by (rule safe_andThen[OF addMergedShapes_safe[OF w s]])
      (use that s vs adds_vshape adds_shape_of in \<open>auto intro!: safe_ret\<close>)
  consider (same) "s0 = s1" | (unknown) "s0 \<noteq> s1" "shape_of c s0 = None \<or> shape_of c s1 = None"
    | (known) ds0 ds1 where "s0 \<noteq> s1" "shape_of c s0 = Some ds0" "shape_of c s1 = Some ds1" by fastforce
  then show ?thesis
  proof cases
    case same
    then show ?thesis using s w by (auto simp: MergeShape_def SameHandle_def intro!: safe_ret)
  next
    case unknown
    then show ?thesis
      using m[of s0] m[of s1] by (auto simp: MergeShape_def SameHandle_def RankKnown_iff intro!: safe_gets)
  next
    case (known ds0 ds1)
    note d = wf_shape_dims[OF w s(1) known(2)] wf_shape_dims[OF w s(2) known(3)]
    have "safe (mergeKnown s0 s1 ds0 ds1) ?Q c"
    proof (cases "length ds0 = length ds1 \<and> mergeScan c (zip ds0 ds1) True True \<noteq> None")
      case False
      then show ?thesis
        using w by (cases "length ds0 = length ds1"; cases "mergeScan c (zip ds0 ds1) True True")
          (auto simp: mergeKnown_def intro!: safe_failWith safe_gets)
    next
      case True
      then obtain r0 r1 where scan: "mergeScan c (zip ds0 ds1) True True = Some (r0, r1)" by auto
      have "safe (andThen (mapOp (\<lambda>(d0, d1). checkOk (MergeDim d0 d1)) (zip ds0 ds1)) (\<lambda>dims.
          andThen (MakeShape dims) (\<lambda>out. andThen (addMergedShapes s0 out) (\<lambda>_. ret out)))) ?Q c'"
        if c': "wf_ctx c'" "adds c c'" "all_dims c' = all_dims c" for c'
      proof (rule safe_andThen[OF mapOp_MergeDim_safe])
        show "list_all (compatible (all_dims c')) (zip ds0 ds1)" using mergeScan_keeps[OF scan] c' by simp
        show "list_all (\<lambda>(a, b). valid_dim c' a \<and> valid_dim c' b) (zip ds0 ds1)"
          using d c' True by (auto simp: list_all_length valid_dim_def)
        show "wf_ctx c'" by (rule c')
      next
        fix dims c2
        assume 2: "wf_ctx c2" "adds c' c2" "length dims = length (zip ds0 ds1) \<and> list_all (valid_dim c2) dims"
        show "safe (andThen (MakeShape dims) (\<lambda>out. andThen (addMergedShapes s0 out) (\<lambda>_. ret out))) ?Q c2"
        proof (rule safe_andThen[OF MakeShape_yields[of "[]"]])
          show "has [] c2" "list_all (valid_dim c2) dims" using 2 by (simp_all add: has_def)
        next
          fix out c3
          assume 3: "wf_ctx c3" "adds c2 c3" "list_all (vholds c3) [VShape out (int (length dims)) (int (length dims)),
            VRanked out, Sem (\<lambda>v w. sz w out = map v dims)]"
          have "vshape c3 s0" using s(1) c'(2) 2(2) 3(2) adds_vshape adds_trans by blast
          then show "safe (andThen (addMergedShapes s0 out) (\<lambda>_. ret out)) ?Q c3"
            by (rule safe_andThen[OF addMergedShapes_safe[OF 3(1)]])
              (use 2 3 True known adds_vshape adds_shape_of in \<open>auto simp: vshape_def intro!: safe_ret\<close>)
        qed
      qed
      then have build: "safe (andThen (addMergedShapes s0 s1) (\<lambda>_. andThen (mapOp (\<lambda>(d0, d1). checkOk (MergeDim d0 d1)) (zip ds0 ds1)) (\<lambda>dims.
          andThen (MakeShape dims) (\<lambda>out. andThen (addMergedShapes s0 out) (\<lambda>_. ret out))))) ?Q c"
        by (intro safe_andThen[OF addMergedShapes_safe[OF w s]]) auto
      have "safe (andThen (addMergedShapes s0 s1) (\<lambda>_. ret s)) ?Q c" if "s = s0 \<or> s = s1" for s
        using that True known by (intro m) auto
      then show ?thesis
        using True scan build
        by (auto simp: mergeKnown_def intro!: safe_gets)
    qed
    then show ?thesis
      using known by (auto simp: MergeShape_def SameHandle_def RankKnown_iff safe_def andThen_def gets_def dimsOf_def
          split: prod.splits)
  qed
qed

lemma MergeShape_yields:
  assumes "has \<Gamma> c" "VShape s0 lo hi \<in> set \<Gamma>" "VShape s1 lo' hi' \<in> set \<Gamma>"
  shows "yields (MergeShape s0 s1) (\<lambda>s. [VShape s (min lo lo') (max hi hi'), Sem (\<lambda>v w. sz w s0 = sz w s1 \<and> sz w s = sz w s0)]) c"
proof -
  have f: "vholds c (VShape s0 lo hi)" "vholds c (VShape s1 lo' hi')" by (rule has_fact[OF assms(1,2)], rule has_fact[OF assms(1,3)])
  then obtain a b where ab: "s0 = Some a" "s1 = Some b" by (auto simp: vshape_def)
  have "safe (MergeShape s0 s1) (\<lambda>s c'. (vshape c' s \<and>
    (shape_of c' s = None \<longleftrightarrow> shape_of c s0 = None \<and> shape_of c s1 = None) \<and>
    (\<forall>ds. shape_of c' s = Some ds \<longrightarrow> (\<forall>ds0. shape_of c s0 = Some ds0 \<longrightarrow> length ds = length ds0) \<and>
       (\<forall>ds1. shape_of c s1 = Some ds1 \<longrightarrow> length ds = length ds1))) \<and>
    (\<forall>v w. models c' v w \<longrightarrow> sz w s0 = sz w s1 \<and> sz w s = sz w s0)) c"
  proof (rule safe_models[OF MergeShape_safe[OF has_wf[OF assms(1)]]])
    show "vshape c s0" "vshape c s1" using f by auto
    show "MergeShape s0 s1 c = (Inr s, c') \<Longrightarrow> models c' v w \<Longrightarrow> sz w s0 = sz w s1 \<and> sz w s = sz w s0" for s c' v w
      using MergeShape_enforces[of a b c s c' v w] ab by (auto simp: denotes_def sz_def split: option.splits)
  qed
  then show ?thesis
  proof (rule safe_weaken)
    fix s c'
    assume P: "(vshape c' s \<and> (shape_of c' s = None \<longleftrightarrow> shape_of c s0 = None \<and> shape_of c s1 = None) \<and>
      (\<forall>ds. shape_of c' s = Some ds \<longrightarrow> (\<forall>ds0. shape_of c s0 = Some ds0 \<longrightarrow> length ds = length ds0) \<and>
         (\<forall>ds1. shape_of c s1 = Some ds1 \<longrightarrow> length ds = length ds1))) \<and>
      (\<forall>v w. models c' v w \<longrightarrow> sz w s0 = sz w s1 \<and> sz w s = sz w s0)" and "adds c c'" "wf_ctx c'"
    have "min lo lo' \<le> int (length ds) \<and> int (length ds) \<le> max hi hi'" if d: "shape_of c' s = Some ds" for ds
    proof (cases "shape_of c s0 = None \<and> shape_of c s1 = None")
      case True
      then show ?thesis using P d by simp
    next
      case False
      then show ?thesis using P d f by fastforce
    qed
    then show "list_all (vholds c') [VShape s (min lo lo') (max hi hi'), Sem (\<lambda>v w. sz w s0 = sz w s1 \<and> sz w s = sz w s0)]"
      using P by simp
  qed
qed

section \<open>Ranks\<close>

lemma mapOp_UnknownDim_yields:
  assumes "has \<Gamma> c"
  shows "safe (mapOp (\<lambda>_. UnknownDim) xs) (\<lambda>ds c'. length ds = length xs \<and> list_all (valid_dim c') ds) c"
  by (rule safe_weaken[OF safe_mapOp[OF assms, where P = VDim]])
    (use UnknownDim_yields in \<open>auto simp: list_all_iff\<close>)

lemma WithRank_yields:
  assumes h: "has \<Gamma> c" and s: "VShape s lo hi \<in> set \<Gamma>" and r: "0 \<le> r"
  shows "yields (WithRank s r) (\<lambda>s'. [VShape s' r r, Sem (\<lambda>v w. int (length (sz w s)) = r \<and> sz w s' = sz w s)]) c"
proof -
  note w = has_wf[OF h]
  have v: "vshape c s" using has_fact[OF h s] by simp
  show ?thesis
  proof (cases "shape_of c s")
    case (Some ds)
    have "int (length (sz w' s)) = r" if "models c v' w'" "r = int (length ds)" for v' w'
      using models_shape[OF that(1) v Some] that(2) by simp
    then show ?thesis
      using Some v w by (auto simp: WithRank_def Rank_def safe_def op_simps andThen_def)
  next
    case None
    have "safe (andThen (mapOp (\<lambda>_. UnknownDim) [0..<nat r]) (\<lambda>dims. andThen (MakeShape dims) (MergeShape s)))
        (\<lambda>s' c'. list_all (vholds c') [VShape s' r r, Sem (\<lambda>v w. int (length (sz w s)) = r \<and> sz w s' = sz w s)]) c"
    proof (rule safe_andThen[OF mapOp_UnknownDim_yields[OF h]])
      fix dims c1
      assume 1: "wf_ctx c1" "adds c c1" "length dims = length [0..<nat r] \<and> list_all (valid_dim c1) dims"
      have l: "int (length dims) = r" using 1 r by simp
      have h1: "has [VShape s r r] c1"
        using None v adds_vshape[OF 1(2)] adds_shape_of[OF 1(2)] 1(1) by (simp add: has_def vshape_def)
      show "safe (andThen (MakeShape dims) (MergeShape s))
          (\<lambda>s' c'. list_all (vholds c') [VShape s' r r, Sem (\<lambda>v w. int (length (sz w s)) = r \<and> sz w s' = sz w s)]) c1"
      proof (rule safe_bind[OF h1 MakeShape_yields[OF h1]])
        show "list_all (valid_dim c1) dims" using 1 by simp
      next
        fix s2 c2
        assume "has ([VShape s2 (int (length dims)) (int (length dims)), VRanked s2, Sem (\<lambda>v w. sz w s2 = map v dims)] @
            [VShape s r r]) c2"
        then have h2: "has [VShape s2 r r, VRanked s2, Sem (\<lambda>v w. sz w s2 = map v dims), VShape s r r] c2"
          by (simp add: l)
        show "safe (MergeShape s s2)
            (\<lambda>s' c'. list_all (vholds c') [VShape s' r r, Sem (\<lambda>v w. int (length (sz w s)) = r \<and> sz w s' = sz w s)]) c2"
          by (rule safe_weaken[OF MergeShape_yields[OF h2, of s r r s2 r r]])
            (use l has_fact[OF h2, of "Sem (\<lambda>v w. sz w s2 = map v dims)"] adds_models in \<open>fastforce+\<close>)
      qed
    qed
    then show ?thesis
      using None r w by (auto simp: WithRank_def Rank_def safe_def op_simps andThen_def)
  qed
qed

lemma WithRankAtLeast_yields:
  assumes h: "has \<Gamma> c" and s: "VShape s lo hi \<in> set \<Gamma>"
  shows "yields (WithRankAtLeast s r) (\<lambda>s'. [VShape s' (max lo r) hi, Sem (\<lambda>v w. sz w s' = sz w s)]) c"
  using has_fact[OF h s] has_wf[OF h]
  by (auto simp: WithRankAtLeast_def safe_def op_simps andThen_def Rank_def split: option.splits)

lemma WithRankAtMost_yields:
  assumes h: "has \<Gamma> c" and s: "VShape s lo hi \<in> set \<Gamma>"
  shows "yields (WithRankAtMost s r) (\<lambda>s'. [VShape s' lo (min hi r), Sem (\<lambda>v w. sz w s' = sz w s)]) c"
  using has_fact[OF h s] has_wf[OF h]
  by (auto simp: WithRankAtMost_def safe_def op_simps andThen_def Rank_def split: option.splits)

section \<open>Sub-shapes and concatenation\<close>

lemma length_pySlice: "0 \<le> i \<Longrightarrow> j \<le> int n \<Longrightarrow> length xs = n \<Longrightarrow> length (pySlice xs i j 1) \<le> n"
  by (simp add: pySlice_def strideIdx_def strideCount_def)

lemma pySlice_valid:
  assumes "list_all P ds" "0 \<le> i" "j \<le> int (length ds)"
  shows "list_all P (pySlice ds i j 1)"
proof -
  have "P (ds ! nat x)" if "x \<in> set (strideIdx i 1 (strideCount i j 1))" for x
    using strideIdx_bounds(1)[OF that] assms by (auto simp: list_all_length)
  then show ?thesis by (auto simp: pySlice_def list_all_iff)
qed

lemma SubshapeRange_yields:
  assumes h: "has \<Gamma> c" and s: "VShape s lo hi \<in> set \<Gamma>" and n: "0 \<le> hi \<and> hi \<le> 1073741823"
  shows "yields (SubshapeRange s a b) (\<lambda>s'. [VShape s' 0 hi]) c"
proof (cases "shape_of c s")
  case None
  have v: "vshape c s" using has_fact[OF h s] by simp
  have u: "yields UnknownShape (\<lambda>s'. [VShape s' 0 hi]) c" by (rule UnknownShape_yields[OF h]) (use n in simp)
  have "\<not> RankKnown c s" using None by (simp add: RankKnown_iff)
  then show ?thesis
    using None v u has_wf[OF h]
    by (auto simp: SubshapeRange_def SubshapeStride_def safe_def op_simps andThen_def)
next
  case (Some ds)
  have v: "vshape c s" and l: "int (length ds) \<le> hi" using has_fact[OF h s] Some by auto
  have sm: "small_rank ds" using l n by (simp add: small_rank_def)
  let ?i = "normStart (int (length ds)) 1 a" and ?j = "normBound (int (length ds)) b"
  have le: "?j \<le> int (length ds)" unfolding normBound_def Let_def min_def by (simp split: if_split)
  note run = SubshapeStride_run[OF Some sm, of 1 a b, simplified, folded SubshapeRange_def]
  show ?thesis
  proof (cases "0 \<le> ?i \<and> \<not> (a = 0 \<and> (int (length ds) \<le> b \<or> b = int64_max))")
    case True
    have "yields (MakeShape (pySlice ds ?i ?j 1)) (\<lambda>s'. [VShape s' 0 hi]) c"
      by (rule safe_weaken[OF MakeShape_yields[OF h pySlice_valid[OF wf_shape_dims[OF has_wf[OF h] v Some]]]])
        (use True le length_pySlice[of ?i ?j "length ds" ds] l in auto)
    then show ?thesis
      using run has_wf[OF h] True by (auto simp: safe_def Let_def MakeShape_run)
  next
    case False
    then show ?thesis using run has_wf[OF h] v l Some by (auto simp: safe_def Let_def)
  qed
qed

lemma SubshapeFrom_yields:
  assumes "has \<Gamma> c" "VShape s lo hi \<in> set \<Gamma>" "0 \<le> hi \<and> hi \<le> 1073741823"
  shows "yields (SubshapeFrom s a) (\<lambda>s'. [VShape s' 0 hi]) c"
  unfolding SubshapeFrom_def by (rule SubshapeRange_yields[OF assms])

lemma Concatenate_yields:
  assumes h: "has \<Gamma> c" and s: "VShape s lo hi \<in> set \<Gamma>" and t: "VShape t lo' hi' \<in> set \<Gamma>" and le: "lo \<le> hi \<and> lo' \<le> hi'"
  shows "yields (Concatenate s t) (\<lambda>s'. [VShape s' (lo + lo') (hi + hi')]) c"
proof (cases "shape_of c s = None \<or> shape_of c t = None")
  case True
  then have "Concatenate s t c = UnknownShape c"
    by (auto simp: Concatenate_def op_simps RankKnown_iff andThen_def)
  then show ?thesis using UnknownShape_yields[OF h, of "lo + lo'" "hi + hi'"] le by (simp add: safe_def)
next
  case False
  then obtain ds es where d: "shape_of c s = Some ds" "shape_of c t = Some es" by auto
  have f: "vholds c (VShape s lo hi)" "vholds c (VShape t lo' hi')" using has_fact[OF h s] has_fact[OF h t] .
  have eq: "Concatenate s t c = MakeShape (ds @ es) c"
    using d by (auto simp: Concatenate_def op_simps RankKnown_iff andThen_def dimsOf_def)
  have v: "list_all (valid_dim c) (ds @ es)"
    using wf_shape_dims[OF has_wf[OF h] _ d(1)] wf_shape_dims[OF has_wf[OF h] _ d(2)] f by simp
  have "yields (MakeShape (ds @ es)) (\<lambda>s'. [VShape s' (lo + lo') (hi + hi')]) c"
    by (rule safe_weaken[OF MakeShape_yields[OF h v]]) (use f d in \<open>fastforce\<close>)
  then show ?thesis by (simp only: safe_eq[of "Concatenate s t" c "MakeShape (ds @ es)", OF eq])
qed

section \<open>Arithmetic on dimensions\<close>

lemma safe_if: "(b \<Longrightarrow> safe m Q c) \<Longrightarrow> (\<not> b \<Longrightarrow> safe m' Q c) \<Longrightarrow> safe (if b then m else m') Q c"
  by simp

lemma ret_dim_safe: "has \<Gamma> c \<Longrightarrow> VDim d \<in> set \<Gamma> \<Longrightarrow> yields (ret d) (\<lambda>d. [VDim d]) c"
  using has_fact[of \<Gamma> c "VDim d"] by (auto simp: has_wf intro!: safe_ret)

lemma MakeDim_value_safe: "has \<Gamma> c \<Longrightarrow> - 1 \<le> k \<and> k \<le> int64_max \<Longrightarrow> yields (MakeDim (Const k)) (\<lambda>d. [VDim d]) c"
  by (rule safe_weaken[OF MakeDim_Const_yields]) auto

lemma Add_yields:
  assumes h: "has \<Gamma> c" and d: "VDim d \<in> set \<Gamma>" and e: "docv \<Gamma> e"
  shows "yields (Add d e) (\<lambda>r. [VDim r]) c"
proof -
  have b: "- 1 \<le> DValue c d \<and> DValue c d \<le> int64_max" "- 1 \<le> Value c e \<and> Value c e \<le> int64_max"
    using docv_value[OF h docv_handle[OF d]] docv_value[OF h e] by auto
  have s: "to_int64 x \<le> int64_max" for x using in_int64_to_int64[of x] by (simp add: in_int64_def)
  show ?thesis
    unfolding Add_def
    by (rule dimOrConst_safe[OF h e], rule safe_gets, unfold split_conv Let_def)
      (intro safe_if ret_dim_safe[OF h d] UnknownDim_yields[OF h] MakeDim_yields[OF h e]
        safe_failWith[OF has_wf[OF h]] MakeDim_value_safe[OF h], use b s in auto)
qed

lemma Subtract_yields:
  assumes h: "has \<Gamma> c" and d: "VDim d \<in> set \<Gamma>" and e: "docv \<Gamma> e"
  shows "yields (Subtract d e) (\<lambda>r. [VDim r]) c"
proof -
  have b: "- 1 \<le> DValue c d \<and> DValue c d \<le> int64_max" "- 1 \<le> Value c e \<and> Value c e \<le> int64_max"
    using docv_value[OF h docv_handle[OF d]] docv_value[OF h e] by auto
  show ?thesis
    unfolding Subtract_def
    by (rule dimOrConst_safe[OF h e], rule safe_gets, unfold split_conv)
      (intro safe_if ret_dim_safe[OF h d] UnknownDim_yields[OF h] MakeDim_yields[OF h e]
        safe_failWith[OF has_wf[OF h]] MakeDim_value_safe[OF h], use b in auto)
qed

lemma Multiply_yields:
  assumes h: "has \<Gamma> c" and d: "VDim d \<in> set \<Gamma>" and e: "docv \<Gamma> e"
  shows "yields (Multiply d e) (\<lambda>r. [VDim r]) c"
proof -
  have b: "- 1 \<le> DValue c d \<and> DValue c d \<le> int64_max" "- 1 \<le> Value c e \<and> Value c e \<le> int64_max"
    using docv_value[OF h docv_handle[OF d]] docv_value[OF h e] by auto
  have m: "MultiplyWithoutOverflow x y \<le> int64_max"
    if "0 \<le> x" "0 \<le> y" "x \<le> int64_max" "y \<le> int64_max" for x y
    using mwo.mul_nonneg_iff[OF that] mwo.mul_exact[OF that] by linarith
  have k: "DValue c d \<noteq> - 1 \<Longrightarrow> Value c e \<noteq> - 1 \<Longrightarrow>
      MultiplyWithoutOverflow (DValue c d) (Value c e) \<le> int64_max"
    using b by (intro m) auto
  show ?thesis
    unfolding Multiply_def
    by (rule dimOrConst_safe[OF h e], rule safe_gets, unfold split_conv Let_def)
      (intro safe_if ret_dim_safe[OF h d] UnknownDim_yields[OF h] MakeDim_yields[OF h e]
        safe_failWith[OF has_wf[OF h]] MakeDim_value_safe[OF h], use k in auto)
qed

lemma Divide_yields:
  assumes h: "has \<Gamma> c" and d: "VDim d \<in> set \<Gamma>" and e: "docv \<Gamma> e"
  shows "yields (Divide d e ev) (\<lambda>r. [VDim r]) c"
proof -
  have b: "- 1 \<le> DValue c d \<and> DValue c d \<le> int64_max" using docv_value[OF h docv_handle[OF d]] .
  have k: "- 1 \<le> cdiv v k \<and> cdiv v k \<le> int64_max" if "0 \<le> v" "v \<le> int64_max" "0 < k" for v k
  proof -
    have "v div k \<le> v" using zdiv_mono2[of v 1 k] that by simp
    moreover have "0 \<le> v div k" using that by (simp add: pos_imp_zdiv_nonneg_iff)
    ultimately show ?thesis using that by (simp add: cdiv_nonneg)
  qed
  show ?thesis
    unfolding Divide_def
    by (rule dimOrConst_safe[OF h e], rule safe_gets, rule safe_gets)
      (intro safe_if ret_dim_safe[OF h d] UnknownDim_yields[OF h] MakeDim_yields[OF h e]
        safe_failWith[OF has_wf[OF h]] MakeDim_value_safe[OF h], use b k in auto)
qed

end
