(* ===== verification/SafeCalls.thy ===== *)
theory SafeCalls
  imports SafeRules
begin

text \<open>
  Calls on arbitrary contexts. The interface \<open>safe_fn\<close> asks of a shape function that it is
  safe on every well-formed context with its number of inputs; its client is \<open>Run\<close>: no
  call, legal or not, stops the program or leaves the context ill-formed.
\<close>

section \<open>Inputs, attributes and outputs\<close>

lemma adds_statics:
  "adds c0 c \<Longrightarrow> inputs c = inputs c0 \<and> attrs c = attrs c0 \<and> input_tensors c = input_tensors c0 \<and>
   length (outputs c) = length (outputs c0) \<and> graph_def_version c = graph_def_version c0"
  by (simp add: adds_def extends_def same_statics_def)

lemma safe_input:
  assumes "has \<Gamma> c" "VFrom c0 \<in> set \<Gamma>" "vecAt (inputs c0) i = Inr s" "safe (f s) Q c"
  shows "safe (andThen (input i) f) Q c"
  using assms(3,4) adds_statics[of c0 c] has_fact[OF assms(1,2)]
  by (simp add: safe_def input_def andThen_def)

definition nofault :: "'a res \<Rightarrow> bool" where
  "nofault r \<longleftrightarrow> (case r of Inl (Fault _) \<Rightarrow> False | _ \<Rightarrow> True)"

lemma nofault_iff: "nofault r \<longleftrightarrow> (\<forall>e. r \<noteq> Inl (Fault e))"
  by (cases r) (auto simp: nofault_def split: fail.splits)

lemma safe_liftR:
  assumes "has \<Gamma> c" "nofault r" "\<And>x. r = Inr x \<Longrightarrow> safe (f x) Q c"
  shows "safe (andThen (liftR r) f) Q c"
  using assms has_wf[OF assms(1)]
  by (cases r) (auto simp: safe_def andThen_def liftR_def nofault_def split: fail.splits)

lemma safe_GetAttr:
  assumes "has \<Gamma> c" "VFrom c0 \<in> set \<Gamma>" "nofault (get (attrs c0) name)"
    and "\<And>v. get (attrs c0) name = Inr v \<Longrightarrow> safe (f v) Q c"
  shows "safe (andThen (GetAttr get name) f) Q c"
  using assms(3,4) adds_statics[of c0 c] has_fact[OF assms(1,2)] has_wf[OF assms(1)]
  by (cases "get (attrs c0) name")
    (auto simp: safe_def andThen_def GetAttr_def gets_def liftR_def nofault_def split: fail.splits)

lemma safe_tryGetAttr:
  assumes "has \<Gamma> c" "VFrom c0 \<in> set \<Gamma>" "nofault (get (attrs c0) name)"
    and "\<And>r. safe (f r) Q c"
  shows "safe (andThen (tryStatus (GetAttr get name)) f) Q c"
  using assms(3,4) adds_statics[of c0 c] has_fact[OF assms(1,2)]
  by (cases "get (attrs c0) name")
    (auto simp: safe_def andThen_def GetAttr_def gets_def liftR_def nofault_def tryStatus_def split: fail.splits)

named_theorems nofault_simps \<open>readers of attributes that report errors as a status\<close>

lemma nofault_simps' [nofault_simps]: "nofault (Inr x)" "nofault (Inl (Status e))"
  by (simp_all add: nofault_def)

lemma AttrValueHasType_nofault: "nofault (AttrValueHasType v ty)"
  by (simp add: AttrValueHasType_def nofault_def split: attr_value.splits)

lemma GetNodeAttr_nofault:
  assumes "\<And>x. nofault (conv x)"
  shows "nofault (GetNodeAttr k get conv as name)"
proof (cases "map_of as name")
  case None
  then show ?thesis by (simp add: GetNodeAttr_def Find_def nofault_def)
next
  case (Some v)
  then show ?thesis
    using AttrValueHasType_nofault[of v "(False, k)"] assms
    by (cases "AttrValueHasType v (False, k)") (auto simp: GetNodeAttr_def Find_def nofault_def)
qed

lemma convAll_nofault: "(\<And>x. nofault (conv x)) \<Longrightarrow> nofault (convAll conv xs)"
  unfolding nofault_iff by (induction xs) (auto split: sum.splits)

lemma GetNodeAttrList_nofault:
  assumes "\<And>x. nofault (conv x)"
  shows "nofault (GetNodeAttrList k get conv as name)"
proof (cases "map_of as name")
  case None
  then show ?thesis by (simp add: GetNodeAttrList_def Find_def nofault_def)
next
  case (Some v)
  then show ?thesis
    using AttrValueHasType_nofault[of v "(True, k)"] convAll_nofault[OF assms]
    by (cases "AttrValueHasType v (True, k)") (auto simp: GetNodeAttrList_def Find_def nofault_def)
qed

lemma int32_of_attr_nofault: "nofault (int32_of_attr x)"
  by (simp add: int32_of_attr_def nofault_simps')

lemma getters_nofault [nofault_simps]:
  "nofault (GetAttrString as name)" "nofault (GetAttrInt64 as name)" "nofault (GetAttrInt32 as name)"
  "nofault (GetAttrFloat as name)" "nofault (GetAttrBool as name)" "nofault (GetAttrType as name)"
  "nofault (GetAttrInt64List as name)" "nofault (GetAttrInt32List as name)" "nofault (GetAttrStringList as name)"
  unfolding GetAttrString_def GetAttrInt64_def GetAttrInt32_def GetAttrFloat_def GetAttrBool_def GetAttrType_def
    GetAttrInt64List_def GetAttrInt32List_def GetAttrStringList_def
  by (intro GetNodeAttr_nofault GetNodeAttrList_nofault nofault_simps' int32_of_attr_nofault)+

lemma set_output_safe:
  assumes h: "has \<Gamma> c" and f: "VFrom c0 \<in> set \<Gamma>" and s: "VShape s lo hi \<in> set \<Gamma>"
    and i: "0 \<le> i \<and> i < int (length (outputs c0))"
    and Q: "\<And>c'. outputs c' = (outputs c)[nat i := s] \<Longrightarrow> has \<Gamma> c' \<Longrightarrow> Q () c'"
  shows "safe (set_output i s) Q c"
proof -
  let ?c = "c\<lparr>outputs := (outputs c)[nat i := s]\<rparr>"
  have st: "length (outputs c) = length (outputs c0)" using adds_statics[of c0 c] has_fact[OF h f] by simp
  have v: "valid_shape c s" using has_fact[OF h s] by (simp add: vshape_def)
  have e: "valid_dim ?c = valid_dim c" "valid_shape ?c = valid_shape c"
    by (auto simp: valid_dim_def valid_shape_def fun_eq_iff split: option.splits)
  have o: "list_all (valid_shape c) (outputs c)" using has_wf[OF h] by (simp add: wf_ctx_def)
  then have "list_all (valid_shape c) ((outputs c)[nat i := s])"
    using v set_update_subset_insert[of "outputs c" "nat i" s] by (auto simp: list_all_iff)
  then have w: "wf_ctx ?c" using has_wf[OF h] unfolding wf_ctx_def valid_handles_def e by simp
  have a: "adds c ?c" by (simp add: adds_def extends_def same_statics_def)
  have "set_output i s c = (Inr (), ?c)" using i st by (simp add: set_output_def op_simps num_outputs_def)
  then show ?thesis using w a Q[of ?c] has_adds[OF h a w] by (simp add: safe_def)
qed

section \<open>The interface\<close>

text \<open>Inputs are set, and of a rank the index arithmetic of \<open>Subshape\<close> can handle.\<close>

definition max_rank :: int where "max_rank = 268435456"

definition ready :: "nat \<Rightarrow> ctx \<Rightarrow> bool" where
  "ready n c \<longleftrightarrow> wf_ctx c \<and> length (inputs c) = n \<and> length (outputs c) = 1 \<and>
     list_all (\<lambda>s. s \<noteq> None \<and> Rank c s \<le> max_rank) (inputs c)"

definition well_behaved :: "unit cop \<Rightarrow> ctx \<Rightarrow> bool" where
  "well_behaved fn c \<longleftrightarrow> (case Run fn c of (r, c') \<Rightarrow> wf_ctx c' \<and> extends c c' \<and>
     (\<forall>e. r \<noteq> Inl (Fault e)) \<and> (r = Inr () \<longrightarrow> list_all (\<lambda>s. s \<noteq> None) (outputs c')))"

locale safe_fn =
  fixes fn :: "unit cop" and n :: nat
  assumes fn_safe: "ready n c \<Longrightarrow> safe fn (\<lambda>_ c'. list_all (\<lambda>s. s \<noteq> None) (outputs c')) c"
begin

lemma Run_well_behaved:
  assumes "ready n c"
  shows "well_behaved fn c"
proof -
  let ?c = "c\<lparr>merged_shapes := [], merged_dims := []\<rparr>"
  have e: "valid_dim ?c = valid_dim c" "valid_shape ?c = valid_shape c"
    by (auto simp: valid_dim_def valid_shape_def fun_eq_iff split: option.splits)
  have r: "Rank ?c s = Rank c s" for s by (simp add: Rank_def shape_of_def split: option.splits)
  have "wf_ctx ?c" using assms unfolding ready_def wf_ctx_def valid_handles_def e by simp
  then have "ready n ?c" using assms by (simp add: ready_def r)
  then have s: "safe fn (\<lambda>_ c'. list_all (\<lambda>s. s \<noteq> None) (outputs c')) ?c" by (rule fn_safe)
  have x: "extends c ?c" by (simp add: extends_def same_statics_def)
  obtain q c' where q: "fn ?c = (q, c')" by (cases "fn ?c")
  have c': "wf_ctx c'" "extends c c'" "\<forall>e. q \<noteq> Inl (Fault e)" "q = Inr () \<longrightarrow> list_all (\<lambda>s. s \<noteq> None) (outputs c')"
    using s q extends_trans[OF x] by (auto simp: safe_def adds_def split: sum.splits fail.splits)
  let ?c2 = "c'\<lparr>merged_shapes := [], merged_dims := []\<rparr>"
  have e2: "valid_dim ?c2 = valid_dim c'" "valid_shape ?c2 = valid_shape c'"
    by (auto simp: valid_dim_def valid_shape_def fun_eq_iff split: option.splits)
  have w2: "wf_ctx ?c2" using c'(1) unfolding wf_ctx_def valid_handles_def e2 by simp
  have "extends c ?c2" using c'(2) by (simp add: extends_def same_statics_def)
  then show ?thesis
    using q c' w2 by (cases q) (auto simp: well_behaved_def Run_def ForgetMerges_def op_simps andThen_def tryStatus_def
        split: fail.splits sum.splits)
qed

end

lemma ready1:
  assumes "ready 1 c"
  obtains s0 where "inputs c = [s0]" "has [VShape s0 0 max_rank, VFrom c] c"
proof -
  obtain s0 where i: "inputs c = [s0]" using assms by (auto simp: ready_def length_Suc_conv)
  show ?thesis
    by (rule that[OF i])
      (use assms i in \<open>auto simp: ready_def has_def vshape_def wf_ctx_def Rank_def split: option.splits\<close>)
qed

lemma ready2:
  assumes "ready 2 c"
  obtains s0 s1 where "inputs c = [s0, s1]" "has [VShape s0 0 max_rank, VShape s1 0 max_rank, VFrom c] c"
proof -
  obtain s0 s1 where i: "inputs c = [s0, s1]" using assms by (auto simp: ready_def numeral_2_eq_2 length_Suc_conv)
  show ?thesis
    by (rule that[OF i])
      (use assms i in \<open>auto simp: ready_def has_def vshape_def wf_ctx_def Rank_def split: option.splits\<close>)
qed

text \<open>Contexts as in the sample calls.\<close>

lemma ready_sample_call:
  assumes "list_all2 (list_all2 seen_as) seen sizes" "length ts \<le> length seen"
    "list_all (\<lambda>xs. int (length xs) \<le> max_rank) seen" "n = length seen"
  shows "ready n (ctx_of (sample_call seen sizes ts 1 as))"
proof -
  let ?c = "sample_ctx (concat seen) (spans 0 seen) (map Some [0..<length seen]) ts 1 as"
  have w: "wf_ctx ?c" using fits_sample_call[OF assms(1)] by (simp add: fits_def)
  have "Rank ?c (Some i) \<le> max_rank" if i: "i < length seen" for i
  proof -
    obtain ds where d: "spans 0 seen ! i = Some ds" "sizes ! i = map ((!) (concat sizes)) ds"
      using spans_agree[OF assms(1) i, of 0 "[]"] by auto
    have "length ds = length (seen ! i)"
      using d(2) list_all2_lengthD[OF list_all2_nthD[OF assms(1) i]] by (metis length_map)
    then show ?thesis using d(1) assms(3) i by (simp add: Rank_def shape_of_def sample_ctx_def list_all_length)
  qed
  then show ?thesis using w assms(2,4)
    by (auto simp: ready_def sample_call_def list_all_iff sample_ctx_def)
qed

end
