(* ===== verification/BasicSound.thy ===== *)
theory BasicSound
  imports CallRules
begin

text \<open>
  The shape functions of matrix products, broadcasting and bias addition satisfy
  \<open>inference_fn\<close>: for each, the operation is stated on sizes and the function is proved
  to describe its runs.
\<close>

section \<open>Matrix product\<close>

definition matmul_spec :: op_spec where
  "matmul_spec as ts xss yss \<longleftrightarrow>
     (\<exists>ta tb m k n. map_of as ''transpose_a'' = Some (A_b ta) \<and> map_of as ''transpose_b'' = Some (A_b tb) \<and>
        xss = [if ta then [k, m] else [m, k], if tb then [n, k] else [k, n]] \<and> yss = [[m, n]])"

lemma MatMulShape_infers:
  assumes "called W xss (length yss)" "matmul_spec (attrs (ctx_of W)) (input_tensors (ctx_of W)) xss yss"
  shows "wp MatMulShape (\<lambda>_ W'. infers W yss W') W"
proof -
  obtain ta tb m k n where as: "map_of (attrs (ctx_of W)) ''transpose_a'' = Some (A_b ta)"
      "map_of (attrs (ctx_of W)) ''transpose_b'' = Some (A_b tb)"
    and xss: "xss = [if ta then [k, m] else [m, k], if tb then [n, k] else [k, n]]" and yss: "yss = [[m, n]]"
    using assms(2) unfolding matmul_spec_def by blast
  obtain s0 s1 where ins: "inputs (ctx_of W) = [s0, s1]" and out: "length (outputs (ctx_of W)) = length yss"
    and know: "know [ShapeIs s0 (if ta then [k, m] else [m, k]) (all_known W), ShapeIs s1 (if tb then [n, k] else [k, n]) (all_known W), From W] W"
    using call2[OF assms(1)[unfolded xss]] by metis
  note S = ins out yss as GetAttrBool_eq pyIndex_def vecAt_def
  show ?thesis
    unfolding MatMulShape_def
    using know
    by (cases ta; cases tb; simp only: if_True if_False)
      (((rule infer_do, assumption+, (rule fact_look)+, ((simp add: S; fail)+)?) |
        (rule infer_if, (simp; fail)))+, rule know_set_output, assumption, (rule fact_look)+, (simp add: S; fail)+)+
qed

section \<open>Broadcasting\<close>

text \<open>One dimension of a broadcast, and the broadcast of two shapes aligned at their ends.\<close>

definition bcast1 :: "int \<Rightarrow> int \<Rightarrow> int option" where
  "bcast1 x y = (if x = 1 then Some y else if y = 1 then Some x else if x = y then Some x else None)"

definition padTo :: "nat \<Rightarrow> int list \<Rightarrow> int list" where
  "padTo n xs = replicate (n - length xs) 1 @ xs"

definition bcast :: "int list \<Rightarrow> int list \<Rightarrow> int list option" where
  "bcast xs ys = (let n = max (length xs) (length ys) in
     those (map2 bcast1 (padTo n xs) (padTo n ys)))"

lemma bcastDim_wp:
  assumes g: "good W" and x: "has_dim W dx x" and y: "has_dim W dy y" and z: "bcast1 x y = Some z"
    and one: "one \<longrightarrow> y = 1 \<and> known_dim W dy"
  shows "wp (bcastDim True dx dy one) (\<lambda>r W'. quiet W W' \<and> (\<exists>d. r = Inl d \<and> has_dim W' d z \<and>
    (known_dim W dx \<and> known_dim W dy \<longrightarrow> known_dim W' d))) W"
proof -
  let ?Q = "\<lambda>r W'. quiet W W' \<and> (\<exists>d. r = Inl d \<and> has_dim W' d z \<and>
    (known_dim W dx \<and> known_dim W dy \<longrightarrow> known_dim W' d))"
  have v: "DValue (ctx_of W) dx = - 1 \<or> DValue (ctx_of W) dx = x"
      "DValue (ctx_of W) dy = - 1 \<or> DValue (ctx_of W) dy = y"
    using has_dim_value[OF g x] has_dim_value[OF g y] by auto
  have sz: "is_size x" "is_size y" using has_dim_size[OF g x] has_dim_size[OF g y] by auto
  then have nn: "0 \<le> x" "0 \<le> y" by (auto simp: is_size_def)
  have zs: "is_size z" using z sz by (auto simp: bcast1_def split: if_splits)
  have r: "wp (ret (Inl d)) ?Q W" if "has_dim W d z" "known_dim W dx \<and> known_dim W dy \<longrightarrow> known_dim W d" for d
    using that g by (auto intro!: wp_ret quiet_refl)
  have rx: "wp (ret (Inl dx)) ?Q W" if "x = z" using x that r by auto
  have ry: "wp (ret (Inl dy)) ?Q W" if "y = z" using y that r by auto
  have u: "wp (andThen UnknownDim (\<lambda>d. ret (Inl d))) ?Q W" if "\<not> (known_dim W dx \<and> known_dim W dy)"
    by (rule wp_seq[OF UnknownDim_wp[OF g zs]], rule wp_ret) (use that in \<open>auto dest: good_quiet\<close>)
  have m: "wp (andThen (tryStatus (MergeDim dx dy)) (\<lambda>s. case s of Inl e \<Rightarrow> failWith e | Inr d \<Rightarrow> ret (Inl d))) ?Q W"
    if "x = z" "y = z"
  proof -
    have "wp (MergeDim dx dy) (\<lambda>d W'. (quiet W W' \<and> has_dim W' d z) \<and>
        (known_dim W dx \<and> known_dim W dy \<longrightarrow> DKnown (ctx_of W') d)) W"
      by (rule wp_run[OF MergeDim_wp[OF g, of dx z dy]])
        (use that x y in \<open>auto simp: known_dim_def dest: MergeDim_known\<close>)
    then show ?thesis
      unfolding wp_def
      by (auto simp: andThen_def tryStatus_Inr ret_run known_dim_def) 
  qed
  have known: "known_dim W dx = (DValue (ctx_of W) dx \<noteq> - 1)" "known_dim W dy = (DValue (ctx_of W) dy \<noteq> - 1)"
    by (simp_all add: known_dim_iff)
  show ?thesis
    using v nn z one rx ry u m
    by (auto simp: bcastDim_def known SameHandle_def bcast1_def split: if_splits)
qed

definition bpair :: "world \<Rightarrow> bool \<Rightarrow> dim \<times> dim \<times> bool \<Rightarrow> int \<Rightarrow> bool" where
  "bpair W k = (\<lambda>(dx, dy, one) z. \<exists>x y. has_dim W dx x \<and> has_dim W dy y \<and> bcast1 x y = Some z \<and>
     (one \<longrightarrow> y = 1 \<and> known_dim W dy) \<and> (k \<longrightarrow> known_dim W dx \<and> known_dim W dy))"

lemma bpair_quiet: "quiet W W' \<Longrightarrow> bpair W k p z \<Longrightarrow> bpair W' k p z"
  by (cases p) (auto simp: bpair_def dest: quiet_step intro: step_has_dim step_known_dim)

lemma bcastLoop_wp:
  "list_all2 (bpair W k) ps zs \<Longrightarrow> good W \<Longrightarrow> has_dims W acc ws \<Longrightarrow> (k \<longrightarrow> list_all (known_dim W) acc) \<Longrightarrow>
   wp (bcastLoop True ps acc) (\<lambda>s W'. quiet W W' \<and> list_all (holds W') [ShapeIs s (ws @ zs) k, Ranked s]) W"
proof (induction ps arbitrary: zs acc ws W)
  case Nil
  then show ?case using MakeShape_gives[of "[]" W acc ws k] by (simp add: know_def)
next
  case (Cons p ps)
  obtain dx dy one where p: "p = (dx, dy, one)" by (cases p)
  from Cons.prems(1) obtain z zs' where z: "zs = z # zs'" "bpair W k p z" "list_all2 (bpair W k) ps zs'"
    by (auto simp: list_all2_Cons1)
  from z(2) p obtain x y where xy: "has_dim W dx x" "has_dim W dy y" "bcast1 x y = Some z"
      "one \<longrightarrow> y = 1 \<and> known_dim W dy" "k \<longrightarrow> known_dim W dx \<and> known_dim W dy"
    by (auto simp: bpair_def)
  show ?case
    unfolding p bcastLoop.simps fst_conv snd_conv
  proof (rule wp_seq[OF bcastDim_wp[OF Cons.prems(2) xy(1-4)]])
    fix r :: "dim + shape" and W1
    assume "quiet W W1 \<and> (\<exists>d. r = Inl d \<and> has_dim W1 d z \<and>
      (known_dim W dx \<and> known_dim W dy \<longrightarrow> known_dim W1 d))"
    then obtain d where q: "quiet W W1" and d: "r = Inl d" "has_dim W1 d z" "k \<longrightarrow> known_dim W1 d"
      using xy(5) by auto
    have acc: "has_dims W1 (acc @ [d]) (ws @ [z])"
      using quiet_has_dims[OF q Cons.prems(3)] d(2) by (intro has_dims_append) auto
    have "list_all (known_dim W1) acc" if k
      using Cons.prems(3,4) that step_known_dim[OF quiet_step[OF q]]
      by (auto simp: has_dims_def list_all2_conv_all_nth list_all_length)
    then have "wp (bcastLoop True ps (acc @ [d])) (\<lambda>s W'. quiet W1 W' \<and>
        list_all (holds W') [ShapeIs s ((ws @ [z]) @ zs') k, Ranked s]) W1"
      using q d acc z(3)
      by (intro Cons.IH) (auto dest: good_quiet intro: bpair_quiet elim!: list_all2_mono)
    then show "wp (case r of Inl d \<Rightarrow> bcastLoop True ps (acc @ [d]) | Inr s \<Rightarrow> ret s)
        (\<lambda>s W'. quiet W W' \<and> list_all (holds W') [ShapeIs s (ws @ zs) k, Ranked s]) W1"
      unfolding d(1) z(1) by (auto elim!: wp_mono intro: quiet_trans[OF q])
  qed
qed

lemma those_Some: "those xs = Some ys \<longleftrightarrow> xs = map Some ys"
proof (induction xs arbitrary: ys)
  case Nil
  then show ?case by auto
next
  case (Cons x xs)
  then show ?case by (cases x; cases ys) auto
qed

lemma bcast_sizes:
  assumes "bcast xs ys = Some zs"
  shows "length zs = max (length xs) (length ys)"
    and "i < length zs \<Longrightarrow> bcast1 (padTo (length zs) xs ! i) (padTo (length zs) ys ! i) = Some (zs ! i)"
proof -
  let ?n = "max (length xs) (length ys)"
  have m: "map2 bcast1 (padTo ?n xs) (padTo ?n ys) = map Some zs"
    using assms by (simp add: bcast_def Let_def those_Some)
  from arg_cong[OF m, of length] show l: "length zs = ?n" by (simp add: padTo_def)
  assume "i < length zs"
  then have "map2 bcast1 (padTo ?n xs) (padTo ?n ys) ! i = Some (zs ! i)" using m by simp
  then show "bcast1 (padTo (length zs) xs ! i) (padTo (length zs) ys ! i) = Some (zs ! i)"
    using \<open>i < length zs\<close> l by (simp add: padTo_def)
qed

lemma bcast_valid:
  assumes "bcast xs ys = Some zs" "list_all is_size xs" "list_all is_size ys"
  shows "list_all is_size zs"
proof -
  have p: "is_size (padTo n us ! i)" if "list_all is_size us" "i < n" "length us \<le> n" for us n i
    using that by (auto simp: padTo_def nth_append list_all_length is_size_def)
  have "is_size (zs ! i)" if i: "i < length zs" for i
  proof -
    have "length xs \<le> length zs" "length ys \<le> length zs" using bcast_sizes(1)[OF assms(1)] by auto
    then have "is_size (padTo (length zs) xs ! i)" "is_size (padTo (length zs) ys ! i)"
      using p[OF assms(2) i] p[OF assms(3) i] by auto
    then show ?thesis using bcast_sizes(2)[OF assms(1) i] by (auto simp: bcast1_def split: if_splits)
  qed
  then show ?thesis by (simp add: list_all_length)
qed

lemma padded_dims:
  assumes "has_dims W ds xs" "has_dim W one 1" "length ds \<le> n" "i < n"
  shows "has_dim W ((replicate (n - length ds) one @ ds) ! i) (padTo n xs ! i)"
  using assms has_dims_length[OF assms(1)] has_dims_nth[OF assms(1)]
  by (auto simp: padTo_def nth_append)

lemma bcast_pairs:
  assumes b: "bcast xs ys = Some zs" and d: "has_dims W ds xs" "has_dims W es ys"
    and pad: "length xs \<noteq> length ys \<longrightarrow> has_dim W one 1 \<and> known_dim W one"
    and k: "k \<longrightarrow> list_all (known_dim W) ds \<and> list_all (known_dim W) es"
  shows "list_all2 (bpair W k)
    (zip (replicate (length zs - length ds) one @ ds)
       (zip (replicate (length zs - length es) one @ es)
          (map (\<lambda>i. i < length zs - length es) [0..<length zs]))) zs"
proof -
  have l: "length ds = length xs" "length es = length ys" "length zs = max (length xs) (length ys)"
    using has_dims_length[OF d(1)] has_dims_length[OF d(2)] bcast_sizes(1)[OF b] by auto
  have el: "has_dim W ((replicate (length zs - length us) one @ us) ! i) (padTo (length zs) vs ! i) \<and>
      (k \<longrightarrow> known_dim W ((replicate (length zs - length us) one @ us) ! i)) \<and>
      (i < length zs - length us \<longrightarrow> padTo (length zs) vs ! i = 1 \<and>
        known_dim W ((replicate (length zs - length us) one @ us) ! i))"
    if "has_dims W us vs" "length us \<le> length zs" "i < length zs" "k \<longrightarrow> list_all (known_dim W) us"
      "length us \<noteq> length zs \<longrightarrow> has_dim W one 1 \<and> known_dim W one" for us vs i
    using that has_dims_length[OF that(1)] has_dims_nth[OF that(1)]
    by (auto simp: padTo_def nth_append list_all_length)
  have body: "bpair W k ((replicate (length zs - length ds) one @ ds) ! i,
      (replicate (length zs - length es) one @ es) ! i, i < length zs - length es) (zs ! i)"
    if i: "i < length zs" for i
  proof -
    have ne: "length ds \<noteq> length zs \<or> length es \<noteq> length zs \<longrightarrow> length xs \<noteq> length ys" using l by auto
    show ?thesis
      unfolding bpair_def split_conv
      using el[OF d(1) _ i] el[OF d(2) _ i] bcast_sizes(2)[OF b i] l pad k ne
      by (intro exI[of _ "padTo (length zs) xs ! i"] exI[of _ "padTo (length zs) ys ! i"]) (simp; blast)
  qed
  show ?thesis
    unfolding list_all2_conv_all_nth using body l by (auto simp: max_def)
qed

lemma Broadcast_gives:
  assumes "know \<Gamma> W" "ShapeIs s0 xs k0 \<in> set \<Gamma>" "ShapeIs s1 ys k1 \<in> set \<Gamma>" "bcast xs ys = Some zs"
  shows "gives (BroadcastBinaryOpOutputShapeFnHelper s0 s1 True) (\<lambda>s. [ShapeIs s zs (k0 \<and> k1)]) W"
proof (cases "rank_known W s0 \<and> rank_known W s1")
  case False
  have g: "good W" using assms(1) by (rule know_good)
  have sh: "has_shape W s0 xs" "has_shape W s1 ys" using know_shape[OF assms(1)] assms(2,3) by auto
  have nk: "\<not> (k0 \<and> k1)"
    using False know_shape[OF assms(1,2)] know_shape[OF assms(1,3)] known_shape_rank by blast
  have "list_all is_size zs" using bcast_valid[OF assms(4)] has_shape_sizes[OF g] sh by blast
  then have "gives UnknownShape (\<lambda>s. [ShapeIs s zs (k0 \<and> k1)]) W"
    using nk by (intro wp_mono[OF UnknownShape_gives[OF assms(1), of zs]]) auto
  then show ?thesis
    using False by (simp add: BroadcastBinaryOpOutputShapeFnHelper_def rank_known_def)
next
  case True
  have g: "good W" using assms(1) by (rule know_good)
  have sh: "has_shape W s0 xs" "has_shape W s1 ys" using know_shape[OF assms(1)] assms(2,3) by auto
  obtain ds es where de: "shape_of (ctx_of W) s0 = Some ds" "shape_of (ctx_of W) s1 = Some es"
    using True by (auto simp: rank_known_shape_of)
  have d: "has_dims W ds xs" "has_dims W es ys"
    using has_shape_known[OF g sh(1) de(1)] has_shape_known[OF g sh(2) de(2)] by auto
  have k: "(k0 \<and> k1) \<longrightarrow> list_all (known_dim W) ds \<and> list_all (known_dim W) es"
    using know_shape[OF assms(1,2)] know_shape[OF assms(1,3)] de by (auto simp: known_shape_iff)
  have l: "length ds = length xs" "length es = length ys" "length zs = max (length ds) (length es)"
    using has_dims_length d bcast_sizes(1)[OF assms(4)] by auto
  let ?loop = "\<lambda>one. bcastLoop True
    (zip (replicate (length zs - length ds) one @ ds)
       (zip (replicate (length zs - length es) one @ es)
          (map (\<lambda>i. i < length zs - length es) [0..<length zs]))) []"
  let ?Q = "\<lambda>s W'. quiet W W' \<and> list_all (holds W') [ShapeIs s zs (k0 \<and> k1)]"
  have loop: "wp (?loop one) ?Q W1"
    if q: "quiet W W1" and one: "length xs \<noteq> length ys \<longrightarrow> has_dim W1 one 1 \<and> known_dim W1 one" for one W1
  proof -
    have k1: "(k0 \<and> k1) \<longrightarrow> list_all (known_dim W1) ds \<and> list_all (known_dim W1) es"
      using k step_known_dim[OF quiet_step[OF q]] d
      by (auto simp: has_dims_def list_all2_conv_all_nth list_all_length)
    have "wp (?loop one) (\<lambda>s W'. quiet W1 W' \<and> list_all (holds W') [ShapeIs s ([] @ zs) (k0 \<and> k1), Ranked s]) W1"
      by (rule bcastLoop_wp[OF bcast_pairs[OF assms(4) quiet_has_dims[OF q d(1)] quiet_has_dims[OF q d(2)] one k1]])
        (use q in \<open>auto dest: good_quiet\<close>)
    then show ?thesis by (rule wp_mono) (auto intro: quiet_trans[OF q])
  qed
  have "wp (andThen (if length ds \<noteq> length es then andThen (MakeDim (Const 1)) (\<lambda>d. ret (Some d)) else ret None)
      (\<lambda>dim_one. let pad = (case dim_one of None \<Rightarrow> 0 | Some d \<Rightarrow> d) in ?loop pad)) ?Q W"
  proof (cases "length ds = length es")
    case True
    then show ?thesis using loop[of W 0] l quiet_refl[OF g] by simp
  next
    case False
    show ?thesis
      using False
      by (auto simp: andThen_assoc is_size_def intro!: know_bind[OF know_start[OF g] MakeDim_Const_gives[OF assms(1)]])
        (rule loop[simplified], auto simp: know_Cons)
  qed
  then show ?thesis
    using True
    by (simp add: BroadcastBinaryOpOutputShapeFnHelper_def rank_known_def wp_dimsOf[OF de(1)]
        wp_dimsOf[OF de(2)] Let_def l(3)[symmetric])
qed

definition broadcast_spec :: op_spec where
  "broadcast_spec as ts xss yss \<longleftrightarrow>
     (\<exists>xs ys zs. xss = [xs, ys] \<and> bcast xs ys = Some zs \<and> yss = [zs])"

lemmas [infer_do] = know_bind[OF _ Broadcast_gives, unfolded append.simps]

lemma BroadcastBinaryOpShapeFn_infers:
  assumes "called W xss (length yss)" "broadcast_spec (attrs (ctx_of W)) (input_tensors (ctx_of W)) xss yss"
  shows "wp BroadcastBinaryOpShapeFn (\<lambda>_ W'. infers W yss W') W"
proof -
  obtain xs ys zs where xss: "xss = [xs, ys]" and b: "bcast xs ys = Some zs" and yss: "yss = [zs]"
    using assms(2) unfolding broadcast_spec_def by blast
  obtain s0 s1 where ins: "inputs (ctx_of W) = [s0, s1]" and out: "length (outputs (ctx_of W)) = length yss"
    and know: "know [ShapeIs s0 xs (all_known W), ShapeIs s1 ys (all_known W), From W] W"
    using call2[OF assms(1)[unfolded xss]] by metis
  note S = ins out yss b index_simps
  show ?thesis
    unfolding BroadcastBinaryOpShapeFn_def BroadcastBinaryOpOutputShapeFn_def
    using know
    by (-) (((rule infer_do, assumption+, (rule fact_looks)+, ((simp add: S; fail)+)?) |
        (rule infer_if, (simp; fail)))+, rule know_set_output, assumption, (rule fact_look)+, (simp add: S; fail)+)
qed

section \<open>Batch matrix product\<close>

definition batch_matmul_spec :: op_spec where
  "batch_matmul_spec as ts xss yss \<longleftrightarrow>
     (\<exists>ax ay ba bb bz m k n. map_of as ''adj_x'' = Some (A_b ax) \<and> map_of as ''adj_y'' = Some (A_b ay) \<and>
        xss = [ba @ (if ax then [k, m] else [m, k]), bb @ (if ay then [n, k] else [k, n])] \<and>
        small_rank (0 # 0 # ba) \<and> small_rank (0 # 0 # bb) \<and> bcast ba bb = Some bz \<and> yss = [bz @ [m, n]])"

lemma BatchMatMulV2Shape_infers:
  assumes "called W xss (length yss)" "batch_matmul_spec (attrs (ctx_of W)) (input_tensors (ctx_of W)) xss yss"
  shows "wp BatchMatMulV2Shape (\<lambda>_ W'. infers W yss W') W"
proof -
  obtain ax ay ba bb bz m k n where as: "map_of (attrs (ctx_of W)) ''adj_x'' = Some (A_b ax)"
      "map_of (attrs (ctx_of W)) ''adj_y'' = Some (A_b ay)"
    and xss: "xss = [ba @ (if ax then [k, m] else [m, k]), bb @ (if ay then [n, k] else [k, n])]"
    and r: "small_rank (0 # 0 # ba)" "small_rank (0 # 0 # bb)"
    and b: "bcast ba bb = Some bz" and yss: "yss = [bz @ [m, n]]"
    using assms(2) unfolding batch_matmul_spec_def by blast
  obtain s0 s1 where ins: "inputs (ctx_of W) = [s0, s1]" and out: "length (outputs (ctx_of W)) = length yss"
    and know: "know [ShapeIs s0 (ba @ (if ax then [k, m] else [m, k])) (all_known W), ShapeIs s1 (bb @ (if ay then [n, k] else [k, n])) (all_known W), From W] W"
    using call2[OF assms(1)[unfolded xss]] by metis
  have sm: "length ba \<le> 1073741821" "length bb \<le> 1073741821" using r by (simp_all add: small_rank_def)
  note S = ins out yss b as sm small_rank_def index_simps
  show ?thesis
    unfolding BatchMatMulV2Shape_def
    using know
    by (cases ax; cases ay; simp only: if_True if_False)
      (((rule infer_do, assumption+, (rule fact_looks)+, ((simp add: S; fail)+)?) |
        (rule infer_if, (simp; fail)))+, rule know_set_output, assumption, (rule fact_look)+, (simp add: S; fail)+)+
qed

text \<open>The first version asks for equal batch dimensions.\<close>

definition batch_matmul_v1_spec :: op_spec where
  "batch_matmul_v1_spec as ts xss yss \<longleftrightarrow>
     (\<exists>ax ay bs m k n. map_of as ''adj_x'' = Some (A_b ax) \<and> map_of as ''adj_y'' = Some (A_b ay) \<and>
        xss = [bs @ (if ax then [k, m] else [m, k]), bs @ (if ay then [n, k] else [k, n])] \<and>
        small_rank (0 # 0 # bs) \<and> yss = [bs @ [m, n]])"

lemma BatchMatMulShape_infers:
  assumes "called W xss (length yss)" "batch_matmul_v1_spec (attrs (ctx_of W)) (input_tensors (ctx_of W)) xss yss"
  shows "wp BatchMatMulShape (\<lambda>_ W'. infers W yss W') W"
proof -
  obtain ax ay bs m k n where as: "map_of (attrs (ctx_of W)) ''adj_x'' = Some (A_b ax)"
      "map_of (attrs (ctx_of W)) ''adj_y'' = Some (A_b ay)"
    and xss: "xss = [bs @ (if ax then [k, m] else [m, k]), bs @ (if ay then [n, k] else [k, n])]"
    and r: "small_rank (0 # 0 # bs)" and yss: "yss = [bs @ [m, n]]"
    using assms(2) unfolding batch_matmul_v1_spec_def by blast
  obtain s0 s1 where ins: "inputs (ctx_of W) = [s0, s1]" and out: "length (outputs (ctx_of W)) = length yss"
    and know: "know [ShapeIs s0 (bs @ (if ax then [k, m] else [m, k])) (all_known W),
      ShapeIs s1 (bs @ (if ay then [n, k] else [k, n])) (all_known W), From W] W"
    using call2[OF assms(1)[unfolded xss]] by metis
  have sm: "length bs \<le> 1073741821" using r by (simp add: small_rank_def)
  note S = ins out yss as sm small_rank_def index_simps
  show ?thesis
    unfolding BatchMatMulShape_def
    using know
    by (cases ax; cases ay; simp only: if_True if_False)
      (((rule infer_do, assumption+, (rule fact_looks)+, ((simp add: S; fail)+)?) |
        (rule infer_if, (simp; fail)))+, rule know_set_output, assumption, (rule fact_look)+, (simp add: S; fail)+)+
qed

section \<open>Bias\<close>

text \<open>The channels: the second dimension for \<open>NCHW\<close>, else the last one, also without the attribute.\<close>

definition bias_axis :: "attrs \<Rightarrow> int list \<Rightarrow> nat option" where
  "bias_axis as xs =
     (if GetAttrString as ''data_format'' = Inr ''NCHW'' then (if 3 \<le> length xs then Some 1 else None)
      else (if 2 \<le> length xs then Some (length xs - 1) else None))"


definition bias_add_grad_spec :: op_spec where
  "bias_add_grad_spec as ts xss yss \<longleftrightarrow>
     (\<exists>xs a. xss = [xs] \<and> bias_axis as xs = Some a \<and> yss = [[xs ! a]])"

lemma AttrValueHasType_status: "AttrValueHasType v ty \<noteq> Inl (Fault e)"
  unfolding AttrValueHasType_def by (simp split: attr_value.splits)

lemma GetAttrString_status: "GetAttrString as n \<noteq> Inl (Fault e)"
  using AttrValueHasType_status unfolding GetAttrString_def GetNodeAttr_def Find_def by (auto split: option.splits sum.splits)

lemma bias_axis_cases:
  assumes "bias_axis as xs = Some a"
  obtains (NCHW) "GetAttrString as ''data_format'' = Inr ''NCHW''" "a = 1" "3 \<le> length xs"
  | (NHWC) fmt where "GetAttrString as ''data_format'' = Inr fmt" "fmt \<noteq> ''NCHW''" "a = length xs - 1" "2 \<le> length xs"
  | (Missing) e where "GetAttrString as ''data_format'' = Inl (Status e)" "a = length xs - 1" "2 \<le> length xs"
proof (cases "GetAttrString as ''data_format''")
  case (Inl f)
  then show ?thesis using assms Missing GetAttrString_status[of as] by (cases f) (auto simp: bias_axis_def split: if_splits)
next
  case (Inr fmt)
  then show ?thesis using assms NCHW NHWC by (auto simp: bias_axis_def split: if_splits)
qed



lemma BiasAddGradShape_infers:
  assumes "called W xss (length yss)" "bias_add_grad_spec (attrs (ctx_of W)) (input_tensors (ctx_of W)) xss yss"
  shows "wp BiasAddGradShape (\<lambda>_ W'. infers W yss W') W"
proof -
  obtain xs a where xss: "xss = [xs]" and ax: "bias_axis (attrs (ctx_of W)) xs = Some a" and yss: "yss = [[xs ! a]]"
    using assms(2) unfolding bias_add_grad_spec_def by blast
  obtain s0 where ins: "inputs (ctx_of W) = [s0]" and out: "length (outputs (ctx_of W)) = length yss"
    and know: "know [ShapeIs s0 xs (all_known W), From W] W"
    using call1[OF assms(1)[unfolded xss]] by metis
  have len: "1 < int (length xs)" "pyIndex (- 1) (length xs) = length xs - 1" "pyIndex 1 (length xs) = 1"
    using ax by (auto simp: pyIndex_def elim: bias_axis_cases)
  from ax show ?thesis
  proof (cases rule: bias_axis_cases)
    case NCHW
    note S = ins out yss NCHW index_simps
    show ?thesis
      unfolding BiasAddGradShape_def
      using know
      by - ((rule infer_do, assumption+, (rule fact_looks)+, ((use len in \<open>simp add: S; fail\<close>)+)?) |
        (rule infer_end, assumption, (rule fact_look)+, (use len in \<open>simp add: S; fail\<close>)+) |
        (simp only: if_True simp_thms))+
  next
    case (NHWC fmt)
    note S = ins out yss NHWC index_simps
    show ?thesis
      unfolding BiasAddGradShape_def
      using know
      by - ((rule infer_do, assumption+, (rule fact_looks)+, ((use len in \<open>simp add: S; fail\<close>)+)?) |
        (rule infer_end, assumption, (rule fact_look)+, (use len in \<open>simp add: S; fail\<close>)+) |
        (simp only: if_False simp_thms sum.inject NHWC))+
  next
    case (Missing e)
    note S = ins out yss Missing index_simps
    show ?thesis
      unfolding BiasAddGradShape_def
      using know
      by - ((rule know_tryGetAttr_missing, assumption, (rule fact_looks)+, simp add: S, simp only: sum.distinct if_False) | (rule infer_do, assumption+, (rule fact_looks)+, ((use len in \<open>simp add: S; fail\<close>)+)?) |
        (rule infer_end, assumption, (rule fact_look)+, (use len in \<open>simp add: S; fail\<close>)+) |
        (simp only: if_False simp_thms sum.distinct Missing))+
  qed
qed

section \<open>The interface holds\<close>

interpretation matmul: inference_fn MatMulShape matmul_spec
  by unfold_locales (rule MatMulShape_infers)

interpretation broadcast: inference_fn BroadcastBinaryOpShapeFn broadcast_spec
  by unfold_locales (rule BroadcastBinaryOpShapeFn_infers)

interpretation batch_matmul: inference_fn BatchMatMulV2Shape batch_matmul_spec
  by unfold_locales (rule BatchMatMulV2Shape_infers)

interpretation batch_matmul_v1: inference_fn BatchMatMulShape batch_matmul_v1_spec
  by unfold_locales (rule BatchMatMulShape_infers)


interpretation bias_add_grad: inference_fn BiasAddGradShape bias_add_grad_spec
  by unfold_locales (rule BiasAddGradShape_infers)

section \<open>What the operations promise\<close>

text \<open>
  C4: MatMulShape describes every run of a matrix product. For two matrices whose inner
  dimensions agree, transposed or not, the shape function succeeds whatever part of the
  sizes is known; the sizes of the product are among those its output stands for, and they
  are reported exactly when all inputs are known.
\<close>

theorem MatMulShape_describes:
  assumes "called W xss (length yss)" "matmul_spec (attrs (ctx_of W)) (input_tensors (ctx_of W)) xss yss"
  shows "describes MatMulShape yss W"
  using assms by (rule matmul.Run_describes)

lemma MatMulShape_describes_witness:
  "describes MatMulShape [[2, 3]]
     (sample_call [[2, - 1], [- 1, 3]] [[2, 5], [5, 3]] [] 1
       [(''transpose_a'', A_b False), (''transpose_b'', A_b False)])"
  by (rule MatMulShape_describes[OF called_sample_call])
    (simp_all add: seen_as_def is_size_def matmul_spec_def ex_bool_eq)

text \<open>
  C5: BroadcastBinaryOpShapeFn describes every run of an element-wise operation with
  broadcasting: for two shapes that can be broadcast the shape function succeeds and its
  output stands for the broadcast shape, whatever is known of the ranks and dimensions.
\<close>

theorem BroadcastBinaryOpShapeFn_describes:
  assumes "called W xss (length yss)" "broadcast_spec (attrs (ctx_of W)) (input_tensors (ctx_of W)) xss yss"
  shows "describes BroadcastBinaryOpShapeFn yss W"
  using assms by (rule broadcast.Run_describes)

lemma BroadcastBinaryOpShapeFn_describes_witness:
  "describes BroadcastBinaryOpShapeFn [[4, 5, 3]]
     (sample_call [[- 1, 1, 3], [5, - 1]] [[4, 1, 3], [5, 3]] [] 1 [])"
  by (rule BroadcastBinaryOpShapeFn_describes[OF called_sample_call])
    (simp_all add: seen_as_def is_size_def broadcast_spec_def bcast_def padTo_def bcast1_def)

text \<open>
  C6: BatchMatMulV2Shape describes every batched matrix product: the batch dimensions are
  broadcast, the last two are those of the product of the (adjoint) matrices.
\<close>

theorem BatchMatMulV2Shape_describes:
  assumes "called W xss (length yss)"
    and "batch_matmul_spec (attrs (ctx_of W)) (input_tensors (ctx_of W)) xss yss"
  shows "describes BatchMatMulV2Shape yss W"
  using assms by (rule batch_matmul.Run_describes)

lemma BatchMatMulV2Shape_describes_witness:
  "describes BatchMatMulV2Shape [[7, 2, 3]]
     (sample_call [[- 1, 2, 5], [1, 3, - 1]] [[7, 2, 5], [1, 3, 5]] [] 1
       [(''adj_x'', A_b False), (''adj_y'', A_b True)])"
proof (rule BatchMatMulV2Shape_describes[OF called_sample_call])
  have "\<exists>ba bb bz m k n. [[7, 2, 5], [1, 3, 5]] = [ba @ [m, k], bb @ [n, k]] \<and> small_rank (0 # 0 # ba) \<and>
      small_rank (0 # 0 # bb) \<and> bcast ba bb = Some bz \<and> [[7, 2, 3]] = [bz @ [m, n]]"
    by (rule exI[of _ "[7]"], rule exI[of _ "[1]"], rule exI[of _ "[7]"])
      (simp add: small_rank_def bcast_def padTo_def bcast1_def)
  then show "batch_matmul_spec (attrs (ctx_of (sample_call [[- 1, 2, 5], [1, 3, - 1]] [[7, 2, 5], [1, 3, 5]] [] 1
       [(''adj_x'', A_b False), (''adj_y'', A_b True)])))
     (input_tensors (ctx_of (sample_call [[- 1, 2, 5], [1, 3, - 1]] [[7, 2, 5], [1, 3, 5]] [] 1
       [(''adj_x'', A_b False), (''adj_y'', A_b True)]))) [[7, 2, 5], [1, 3, 5]] [[7, 2, 3]]"
    by (simp add: batch_matmul_spec_def ex_bool_eq)
qed (simp_all add: seen_as_def is_size_def)



end
