(* ===== verification/SafeFns.thy ===== *)
theory SafeFns
  imports SafeCalls BasicSound
begin

text \<open>
  Shape functions that are safe on every well-formed context: matrix products, broadcasting
  and bias. The rules keep of each result that its handle is valid and the bounds of its rank.
\<close>

section \<open>Composition rules\<close>

lemma Dim_ok:
  assumes "has \<Gamma> c" "VShape s lo hi \<in> set \<Gamma>" "- lo \<le> i \<and> i < lo"
  shows "yields (Dim s i) (\<lambda>d. [VDim d]) c"
  by (rule safe_weaken[OF Dim_yields[OF assms]]) auto

lemma MergeDim_ok:
  assumes "has \<Gamma> c" "VDim a \<in> set \<Gamma>" "VDim b \<in> set \<Gamma>"
  shows "yields (MergeDim a b) (\<lambda>d. [VDim d]) c"
  by (rule safe_weaken[OF MergeDim_yields[OF assms]]) auto

lemma Matrix_ok:
  assumes "has \<Gamma> c" "VDim a \<in> set \<Gamma>" "VDim b \<in> set \<Gamma>"
  shows "yields (Matrix (Handle a) (Handle b)) (\<lambda>s. [VShape s 2 2]) c"
  by (rule safe_weaken[OF Matrix_yields[OF assms]]) auto

lemma Vector_ok:
  assumes "has \<Gamma> c" "VDim a \<in> set \<Gamma>"
  shows "yields (Vector (Handle a)) (\<lambda>s. [VShape s 1 1]) c"
  by (rule safe_weaken[OF Vector_yields[OF assms]]) auto

lemma MergeShape_ok:
  assumes "has \<Gamma> c" "VShape s0 lo hi \<in> set \<Gamma>" "VShape s1 lo' hi' \<in> set \<Gamma>"
  shows "yields (MergeShape s0 s1) (\<lambda>s. [VShape s (min lo lo') (max hi hi')]) c"
  by (rule safe_weaken[OF MergeShape_yields[OF assms]]) auto

lemma WithRank_ok:
  assumes "has \<Gamma> c" "VShape s lo hi \<in> set \<Gamma>" "0 \<le> r"
  shows "yields (WithRank s r) (\<lambda>s'. [VShape s' r r]) c"
  by (rule safe_weaken[OF WithRank_yields[OF assms]]) auto

lemma WithRankAtLeast_ok:
  assumes "has \<Gamma> c" "VShape s lo hi \<in> set \<Gamma>"
  shows "yields (WithRankAtLeast s r) (\<lambda>s'. [VShape s' (max lo r) hi]) c"
  by (rule safe_weaken[OF WithRankAtLeast_yields[OF assms]]) auto

lemma yields_if: "yields m \<Delta> c \<Longrightarrow> yields m' \<Delta> c \<Longrightarrow> yields (if b then m else m') \<Delta> c"
  by simp

lemma Dim_if_ok:
  assumes "has \<Gamma> c" "VShape s lo hi \<in> set \<Gamma>" "- lo \<le> i \<and> i < lo \<and> - lo \<le> j \<and> j < lo"
  shows "yields (if b then Dim s i else Dim s j) (\<lambda>d. [VDim d]) c"
  using assms by (intro yields_if Dim_ok) auto

text \<open>Each rule leaves at most one condition on the numbers involved.\<close>

lemmas safe_side =
  safe_bind[OF _ Dim_ok, unfolded append.simps] safe_bind[OF _ Dim_if_ok, unfolded append.simps]
  safe_bind[OF _ WithRank_ok, unfolded append.simps]
  safe_bind[OF _ SubshapeRange_yields, unfolded append.simps]
  safe_bind[OF _ SubshapeFrom_yields, unfolded append.simps]
  safe_bind[OF _ Concatenate_yields, unfolded append.simps]
  safe_input safe_GetAttr

lemmas safe_pure =
  safe_bind[OF _ MergeDim_ok, unfolded append.simps]
  safe_bind[OF _ Matrix_ok, unfolded append.simps] safe_bind[OF _ Vector_ok, unfolded append.simps]
  safe_bind[OF _ MergeShape_ok, unfolded append.simps]
  safe_bind[OF _ WithRankAtLeast_ok, unfolded append.simps]

lemma safe_end:
  assumes "has \<Gamma> c" "VFrom c0 \<in> set \<Gamma>" "VShape s lo hi \<in> set \<Gamma>" "length (outputs c0) = 1"
  shows "safe (set_output 0 s) (\<lambda>_ c'. list_all (\<lambda>s. s \<noteq> None) (outputs c')) c"
proof (rule set_output_safe[OF assms(1-3)])
  show "0 \<le> (0::int) \<and> 0 < int (length (outputs c0))" using assms(4) by simp
  have "length (outputs c) = 1" using adds_statics[of c0 c] has_fact[OF assms(1,2)] assms(4) by simp
  then obtain z where "outputs c = [z]" by (cases "outputs c") auto
  moreover have "s \<noteq> None" using has_fact[OF assms(1,3)] by (simp add: vshape_def)
  ultimately show "outputs c' = (outputs c)[nat 0 := s] \<Longrightarrow> list_all (\<lambda>s. s \<noteq> None) (outputs c')" for c' by simp
qed

section \<open>Broadcasting\<close>

lemma adds_DValue: "adds c c' \<Longrightarrow> valid_dim c d \<Longrightarrow> DValue c' d = DValue c d"
  using extends_nth(1)[of c c' d] by (simp add: adds_def valid_dim_def Value_def)

lemma MergeDim_status_safe:
  assumes "wf_ctx c" "valid_dim c a" "valid_dim c b"
  shows "safe (MergeDim a b) (\<lambda>d c'. valid_dim c' d) c"
  using MergeDim_ok[of "[VDim a, VDim b]" c a b] assms by (simp add: has_def)

lemma safe_tryStatus_fail:
  assumes "safe m P c" "\<And>x c'. wf_ctx c' \<Longrightarrow> adds c c' \<Longrightarrow> P x c' \<Longrightarrow> safe (g x) Q c'"
  shows "safe (andThen (tryStatus m) (\<lambda>s. case s of Inl e \<Rightarrow> failWith e | Inr x \<Rightarrow> g x)) Q c"
proof (rule safe_andThen)
  show "safe (tryStatus m) (\<lambda>r c'. case r of Inl _ \<Rightarrow> True | Inr x \<Rightarrow> P x c') c"
    using assms(1) by (auto simp: safe_def tryStatus_def split: prod.splits sum.splits fail.splits)
qed (use assms(2) in \<open>auto intro: safe_failWith split: sum.splits\<close>)

lemma bcastDim_safe:
  assumes w: "wf_ctx c" and v: "valid_dim c dx" "valid_dim c dy" and one: "one \<longrightarrow> DValue c dy = 1"
  shows "safe (bcastDim True dx dy one) (\<lambda>r c'. \<exists>d. r = Inl d \<and> valid_dim c' d) c"
proof -
  let ?Q = "\<lambda>r c'. \<exists>d. r = Inl d \<and> valid_dim c' d"
  have r: "safe (ret (Inl d)) ?Q c" if "valid_dim c d" for d using that w by (auto intro: safe_ret)
  have h: "has [] c" using w by (simp add: has_def)
  have u: "safe (andThen UnknownDim (\<lambda>d. ret (Inl d))) ?Q c"
    by (rule safe_bind[OF h UnknownDim_yields[OF h]]) (auto simp: has_def intro: safe_ret)
  have m: "safe (andThen (tryStatus (MergeDim dx dy)) (\<lambda>s. case s of Inl e \<Rightarrow> failWith e | Inr d \<Rightarrow> ret (Inl d))) ?Q c"
    by (rule safe_tryStatus_fail[OF MergeDim_status_safe[OF w v]]) (auto intro: safe_ret)
  have ck: "safe (andThen (checkThat b e) (\<lambda>_. ret (Inl dx))) ?Q c" if b for b e
    using that r[OF v(1)] by (simp add: checkThat_def ret_bind)
  show ?thesis
    unfolding bcastDim_def
    by (rule safe_gets, unfold split_conv simp_thms if_False if_True)
      (intro safe_if r u v m ck, use one in auto)
qed

lemma bcastLoop_safe:
  "list_all (\<lambda>p. valid_dim c (fst p) \<and> valid_dim c (fst (snd p)) \<and> (snd (snd p) \<longrightarrow> DValue c (fst (snd p)) = 1)) ps \<Longrightarrow>
   wf_ctx c \<Longrightarrow> list_all (valid_dim c) acc \<Longrightarrow>
   yields (bcastLoop True ps acc) (\<lambda>s. [VShape s (int (length acc + length ps)) (int (length acc + length ps))]) c"
proof (induction ps arbitrary: c acc)
  case Nil
  have "has [] c" using Nil by (simp add: has_def)
  from MakeShape_yields[OF this Nil(3)] show ?case by (auto elim: safe_weaken)
next
  case (Cons p ps)
  have p: "valid_dim c (fst p)" "valid_dim c (fst (snd p))" "snd (snd p) \<longrightarrow> DValue c (fst (snd p)) = 1"
    using Cons.prems(1) by auto
  show ?case
    unfolding bcastLoop.simps
  proof (rule safe_andThen[OF bcastDim_safe[OF Cons.prems(2) p]])
    fix r :: "dim + shape" and c'
    assume 1: "wf_ctx c'" "adds c c'" "\<exists>d. r = Inl d \<and> valid_dim c' d"
    then obtain d where d: "r = Inl d" "valid_dim c' d" by blast
    have "list_all (valid_dim c') (acc @ [d])"
      using Cons.prems(3) adds_valid_dim[OF 1(2)] d(2) by (auto simp: list_all_iff)
    moreover have "list_all (\<lambda>p. valid_dim c' (fst p) \<and> valid_dim c' (fst (snd p)) \<and>
        (snd (snd p) \<longrightarrow> DValue c' (fst (snd p)) = 1)) ps"
      using Cons.prems(1) adds_valid_dim[OF 1(2)] adds_DValue[OF 1(2)] by (auto simp: list_all_iff)
    ultimately show "safe (case r of Inl d \<Rightarrow> bcastLoop True ps (acc @ [d]) | Inr s \<Rightarrow> ret s)
        (\<lambda>s c'. list_all (vholds c') [VShape s (int (length acc + length (p # ps))) (int (length acc + length (p # ps)))]) c'"
      using Cons.IH[of c' "acc @ [d]"] 1(1) d(1) by simp
  qed
qed

lemma Broadcast_ok:
  assumes h: "has \<Gamma> c" and s: "VShape s lo hi \<in> set \<Gamma>" and t: "VShape t lo' hi' \<in> set \<Gamma>" and le: "0 \<le> max hi hi'"
  shows "yields (BroadcastBinaryOpOutputShapeFnHelper s t True) (\<lambda>u. [VShape u 0 (max hi hi')]) c"
proof (cases "shape_of c s = None \<or> shape_of c t = None")
  case True
  have "BroadcastBinaryOpOutputShapeFnHelper s t True c = UnknownShape c"
    using True by (auto simp: BroadcastBinaryOpOutputShapeFnHelper_def op_simps RankKnown_iff)
  from safe_eq[of "BroadcastBinaryOpOutputShapeFnHelper s t True" c UnknownShape, OF this] show ?thesis
    using UnknownShape_yields[OF h, of 0 "max hi hi'"] le by simp
next
  case False
  then obtain xs ys where d: "shape_of c s = Some xs" "shape_of c t = Some ys" by auto
  have f: "vholds c (VShape s lo hi)" "vholds c (VShape t lo' hi')" using has_fact[OF h s] has_fact[OF h t] .
  note w = has_wf[OF h]
  have v: "list_all (valid_dim c) xs" "list_all (valid_dim c) ys" using wf_shape_dims[OF w] f d by auto
  let ?n = "max (length xs) (length ys)"
  let ?m = "if length xs \<noteq> length ys then andThen (MakeDim (Const 1)) (\<lambda>d. ret (Some d)) else ret None"
  let ?k = "\<lambda>dim_one. let pad = (case dim_one of None \<Rightarrow> 0 | Some d \<Rightarrow> d) in
    bcastLoop True (zip (replicate (?n - length xs) pad @ xs)
       (zip (replicate (?n - length ys) pad @ ys) (map (\<lambda>i. i < ?n - length ys) [0..<?n]))) []"
  let ?Q = "\<lambda>u c'. list_all (vholds c') [VShape u 0 (max hi hi')]"
  have loop: "safe (?k o1) ?Q c'"
    if a: "wf_ctx c'" "adds c c'" and o1: "length xs \<noteq> length ys \<longrightarrow> (\<exists>d. o1 = Some d \<and> valid_dim c' d \<and> DValue c' d = 1)"
    for o1 c'
  proof -
    let ?pad = "case o1 of None \<Rightarrow> 0 | Some d \<Rightarrow> d"
    let ?ps = "zip (replicate (?n - length xs) ?pad @ xs)
       (zip (replicate (?n - length ys) ?pad @ ys) (map (\<lambda>i. i < ?n - length ys) [0..<?n]))"
    have v': "list_all (valid_dim c') xs" "list_all (valid_dim c') ys"
      using v adds_valid_dim[OF a(2)] by (auto simp: list_all_iff)
    have pad: "valid_dim c' ?pad \<and> DValue c' ?pad = 1" if "length xs \<noteq> length ys" using o1 that by auto
    have el: "valid_dim c' ((replicate (?n - length zs) ?pad @ zs) ! i) \<and>
        (i < ?n - length zs \<longrightarrow> DValue c' ((replicate (?n - length zs) ?pad @ zs) ! i) = 1)"
      if "zs = xs \<or> zs = ys" "i < ?n" for zs i
      using that v' pad by (auto simp: nth_append list_all_length)
    have l: "length ?ps = ?n" by (auto simp: max_def)
    have "list_all (\<lambda>p. valid_dim c' (fst p) \<and> valid_dim c' (fst (snd p)) \<and>
        (snd (snd p) \<longrightarrow> DValue c' (fst (snd p)) = 1)) ?ps"
      unfolding list_all_length l using el[of xs] el[of ys] l by auto
    from bcastLoop_safe[OF this a(1), of "[]"] show ?thesis
      unfolding Let_def l using f d by (auto elim!: safe_weaken)
  qed
  have "safe (andThen ?m ?k) ?Q c"
  proof (cases "length xs = length ys")
    case True
    then show ?thesis using loop[of c None] w by (simp add: ret_bind)
  next
    case False
    have p: "wf_ctx (c\<lparr>all_dims := all_dims c @ [1]\<rparr>) \<and> adds c (c\<lparr>all_dims := all_dims c @ [1]\<rparr>) \<and>
        valid_dim (c\<lparr>all_dims := all_dims c @ [1]\<rparr>) (length (all_dims c)) \<and>
        DValue (c\<lparr>all_dims := all_dims c @ [1]\<rparr>) (length (all_dims c)) = 1"
      using push_dim_adds[OF w, of 1] by simp
    then have m: "safe ?m (\<lambda>o1 c'. \<exists>d. o1 = Some d \<and> valid_dim c' d \<and> DValue c' d = 1) c"
      using False by (simp add: safe_def op_simps andThen_def)
    show ?thesis by (rule safe_andThen[OF m]) (use loop in auto)
  qed
  then have "safe (andThen (dimsOf s) (\<lambda>xs. andThen (dimsOf t) (\<lambda>ys.
       let nx = length xs; ny = length ys; n = max nx ny in
       andThen (if nx \<noteq> ny then andThen (MakeDim (Const 1)) (\<lambda>d. ret (Some d)) else ret None) (\<lambda>dim_one.
       let pad = (case dim_one of None \<Rightarrow> 0 | Some d \<Rightarrow> d) in
       bcastLoop True (zip (replicate (n - nx) pad @ xs)
              (zip (replicate (n - ny) pad @ ys) (map (\<lambda>i. i < n - ny) [0..<n]))) [])))) ?Q c"
    using d by (simp add: safe_def andThen_def dimsOf_def Let_def)
  then show ?thesis
    unfolding BroadcastBinaryOpOutputShapeFnHelper_def using d
    by (intro safe_gets) (simp add: RankKnown_iff)
qed

lemmas safe_side' = safe_side safe_bind[OF _ Broadcast_ok, unfolded append.simps]

section \<open>The functions\<close>

lemma MatMulShape_safe:
  assumes r: "ready 2 c"
  shows "safe MatMulShape (\<lambda>_ c'. list_all (\<lambda>s. s \<noteq> None) (outputs c')) c"
proof -
  obtain s0 s1 where i: "inputs c = [s0, s1]" and h: "has [VShape s0 0 max_rank, VShape s1 0 max_rank, VFrom c] c"
    using ready2[OF r] by metis
  have o: "length (outputs c) = 1" using r by (simp add: ready_def)
  note S = i o nofault_simps max_rank_def vecAt_def
  show ?thesis
    using h unfolding MatMulShape_def
    by - ((rule safe_side, assumption+, (rule fact_look)+, (simp (no_asm) add: S; fail)) |
       (rule safe_pure, assumption+, (rule fact_look)+) |
       (rule safe_end, assumption, (rule fact_look)+, (simp (no_asm) add: S; fail)))+
qed

lemma BroadcastBinaryOpShapeFn_safe:
  assumes r: "ready 2 c"
  shows "safe BroadcastBinaryOpShapeFn (\<lambda>_ c'. list_all (\<lambda>s. s \<noteq> None) (outputs c')) c"
proof -
  obtain s0 s1 where i: "inputs c = [s0, s1]" and h: "has [VShape s0 0 max_rank, VShape s1 0 max_rank, VFrom c] c"
    using ready2[OF r] by metis
  have o: "length (outputs c) = 1" using r by (simp add: ready_def)
  note S = i o nofault_simps max_rank_def vecAt_def
  show ?thesis
    using h unfolding BroadcastBinaryOpShapeFn_def BroadcastBinaryOpOutputShapeFn_def
    by - ((rule safe_side', assumption+, (rule fact_look)+, (simp (no_asm) add: S; fail)) |
       (rule safe_pure, assumption+, (rule fact_look)+) |
       (rule safe_end, assumption, (rule fact_look)+, (simp (no_asm) add: S; fail)))+
qed

lemma BatchMatMulV2Shape_safe:
  assumes r: "ready 2 c"
  shows "safe BatchMatMulV2Shape (\<lambda>_ c'. list_all (\<lambda>s. s \<noteq> None) (outputs c')) c"
proof -
  obtain s0 s1 where i: "inputs c = [s0, s1]" and h: "has [VShape s0 0 max_rank, VShape s1 0 max_rank, VFrom c] c"
    using ready2[OF r] by metis
  have o: "length (outputs c) = 1" using r by (simp add: ready_def)
  note S = i o nofault_simps max_rank_def vecAt_def
  show ?thesis
    using h unfolding BatchMatMulV2Shape_def
    by - ((rule safe_side', assumption+, (rule fact_look)+, (simp (no_asm) add: S; fail)) |
       (rule safe_pure, assumption+, (rule fact_look)+) |
       (rule safe_end, assumption, (rule fact_look)+, (simp (no_asm) add: S; fail)))+
qed

lemma BatchMatMulShape_safe:
  assumes r: "ready 2 c"
  shows "safe BatchMatMulShape (\<lambda>_ c'. list_all (\<lambda>s. s \<noteq> None) (outputs c')) c"
proof -
  obtain s0 s1 where i: "inputs c = [s0, s1]" and h: "has [VShape s0 0 max_rank, VShape s1 0 max_rank, VFrom c] c"
    using ready2[OF r] by metis
  have o: "length (outputs c) = 1" using r by (simp add: ready_def)
  note S = i o nofault_simps max_rank_def vecAt_def
  show ?thesis
    using h unfolding BatchMatMulShape_def
    by - ((rule safe_side', assumption+, (rule fact_look)+, (simp (no_asm) add: S; fail)) |
       (rule safe_pure, assumption+, (rule fact_look)+) |
       (rule safe_end, assumption, (rule fact_look)+, (simp (no_asm) add: S; fail)))+
qed


section \<open>Bias\<close>

text \<open>The test on the format is decided before the body is composed.\<close>

lemma BiasAddShape_safe:
  assumes r: "ready 2 c"
  shows "safe BiasAddShape (\<lambda>_ c'. list_all (\<lambda>s. s \<noteq> None) (outputs c')) c"
proof -
  obtain s0 s1 where i: "inputs c = [s0, s1]" and h: "has [VShape s0 0 max_rank, VShape s1 0 max_rank, VFrom c] c"
    using ready2[OF r] by metis
  have o: "length (outputs c) = 1" using r by (simp add: ready_def)
  note S = i o nofault_simps max_rank_def vecAt_def
  have u: "safe (andThen UnknownShape (set_output 0)) (\<lambda>_ c'. list_all (\<lambda>s. s \<noteq> None) (outputs c')) c'"
    if "has \<Gamma> c'" "VFrom c \<in> set \<Gamma>" for \<Gamma> c'
    by (rule safe_bind[OF that(1) UnknownShape_yields[OF that(1), of 0 0]], simp,
        rule safe_end, assumption, use that(2) o in \<open>auto\<close>)
  have b: "safe (
       andThen (input 0) (\<lambda>i0.
       andThen (if nchw then WithRankAtLeast i0 3 else WithRankAtLeast i0 2) (\<lambda>input_shape.
       andThen (input 1) (\<lambda>i1.
       andThen (WithRank i1 1) (\<lambda>bias_shape.
       andThen (Dim bias_shape 0) (\<lambda>bias_dim.
       andThen (gets (\<lambda>c. RankKnown c input_shape)) (\<lambda>known.
       if \<not> known then andThen UnknownShape (set_output 0)
       else if nchw then
         andThen (SubshapeRange input_shape 0 1) (\<lambda>first.
         andThen (SubshapeFrom input_shape 2) (\<lambda>last.
         andThen (Dim input_shape 1) (\<lambda>input_bias_dim.
         andThen (MergeDim input_bias_dim bias_dim) (\<lambda>merged_bias_dim.
         andThen (Vector (Handle merged_bias_dim)) (\<lambda>merged_bias.
         andThen (Concatenate first merged_bias) (\<lambda>temp.
         andThen (Concatenate temp last) (set_output 0)))))))
       else
         andThen (SubshapeRange input_shape 0 (- 1)) (\<lambda>all_but_bias.
         andThen (Dim input_shape (- 1)) (\<lambda>input_bias_dim.
         andThen (MergeDim input_bias_dim bias_dim) (\<lambda>merged_bias_dim.
         andThen (Vector (Handle merged_bias_dim)) (\<lambda>merged_bias.
         andThen (Concatenate all_but_bias merged_bias) (set_output 0))))))))))))
       (\<lambda>_ c'. list_all (\<lambda>s. s \<noteq> None) (outputs c')) c" (is "safe (?body nchw) ?Q c") for nchw
  proof (cases nchw)
    case True
    then have n: "nchw = True" by simp
    show ?thesis
      using h unfolding n if_True
      by - ((rule safe_side, assumption+, (rule fact_look)+, (simp (no_asm) add: S; fail)) |
         (rule safe_pure, assumption+, (rule fact_look)+) |
         (rule safe_gets, rule safe_if, (rule u, assumption, simp; fail)) |
         (rule safe_end, assumption, (rule fact_look)+, (simp (no_asm) add: S; fail)))+
  next
    case False
    then have n: "nchw = False" by simp
    show ?thesis
      using h unfolding n if_False
      by - ((rule safe_side, assumption+, (rule fact_look)+, (simp (no_asm) add: S; fail)) |
         (rule safe_pure, assumption+, (rule fact_look)+) |
         (rule safe_gets, rule safe_if, (rule u, assumption, simp; fail)) |
         (rule safe_end, assumption, (rule fact_look)+, (simp (no_asm) add: S; fail)))+
  qed
  show ?thesis
    unfolding BiasAddShape_def Let_def
    by (rule safe_tryGetAttr[OF h], simp, simp add: nofault_simps, rule b)
qed

lemma BiasAddGradShape_safe:
  assumes r: "ready 1 c"
  shows "safe BiasAddGradShape (\<lambda>_ c'. list_all (\<lambda>s. s \<noteq> None) (outputs c')) c"
proof -
  obtain s0 where i: "inputs c = [s0]" and h: "has [VShape s0 0 max_rank, VFrom c] c"
    using ready1[OF r] by metis
  have o: "length (outputs c) = 1" using r by (simp add: ready_def)
  note S = i o nofault_simps max_rank_def vecAt_def
  show ?thesis
    unfolding BiasAddGradShape_def
    by (rule safe_tryGetAttr[OF h], simp, simp add: nofault_simps)
      (insert h, ((rule safe_side, assumption+, (rule fact_look)+, (simp (no_asm) add: S; fail)) |
         (rule safe_if) |
         (rule safe_pure, assumption+, (rule fact_look)+) |
         (rule safe_end, assumption, (rule fact_look)+, (simp (no_asm) add: S; fail)))+)
qed

section \<open>The interface on the shape functions of the code\<close>

interpretation safe_matmul: safe_fn MatMulShape 2
  by unfold_locales (rule MatMulShape_safe)

interpretation safe_broadcast: safe_fn BroadcastBinaryOpShapeFn 2
  by unfold_locales (rule BroadcastBinaryOpShapeFn_safe)

interpretation safe_batch_matmul: safe_fn BatchMatMulV2Shape 2
  by unfold_locales (rule BatchMatMulV2Shape_safe)

interpretation safe_batch_matmul_v1: safe_fn BatchMatMulShape 2
  by unfold_locales (rule BatchMatMulShape_safe)

interpretation safe_bias_add: safe_fn BiasAddShape 2
  by unfold_locales (rule BiasAddShape_safe)

interpretation safe_bias_add_grad: safe_fn BiasAddGradShape 1
  by unfold_locales (rule BiasAddGradShape_safe)

section \<open>No call stops the program\<close>

text \<open>
  \<open>MatMulShape\<close> run on any well-formed context with two inputs and one output, whatever
  is known of the inputs and whatever the attributes are, ends with a status or with its output
  set; no check fails and no index leaves its array, and the context after the call is
  well-formed and only adds to the one before.
\<close>

theorem MatMulShape_well_behaved:
  assumes "ready 2 c"
  shows "well_behaved MatMulShape c"
  using assms by (rule safe_matmul.Run_well_behaved)

lemma MatMulShape_well_behaved_witness:
  "well_behaved MatMulShape (ctx_of (sample_call [[2, - 1, 4], [6]] [[2, 6, 4], [6]] [] 1 [(''transpose_a'', A_i 7)]))"
  by (rule MatMulShape_well_behaved[OF ready_sample_call]) (simp_all add: max_rank_def seen_as_def is_size_def)

text \<open>
  \<open>BroadcastBinaryOpShapeFn\<close> never stops the program either, although its loop over the
  padded shapes indexes both of them and creates and merges dimensions as it goes.
\<close>

theorem BroadcastBinaryOpShapeFn_well_behaved:
  assumes "ready 2 c"
  shows "well_behaved BroadcastBinaryOpShapeFn c"
  using assms by (rule safe_broadcast.Run_well_behaved)

lemma BroadcastBinaryOpShapeFn_well_behaved_witness:
  "well_behaved BroadcastBinaryOpShapeFn (ctx_of (sample_call [[2, - 1, 4], [3]] [[2, 6, 4], [3]] [] 1 []))"
  by (rule BroadcastBinaryOpShapeFn_well_behaved[OF ready_sample_call]) (simp_all add: max_rank_def seen_as_def is_size_def)

text \<open>
  \<open>BatchMatMulV2Shape\<close> never stops the program: the slices, the broadcast of the batch
  dimensions and the concatenation stay within their arrays, whatever the ranks.
\<close>

theorem BatchMatMulV2Shape_well_behaved:
  assumes "ready 2 c"
  shows "well_behaved BatchMatMulV2Shape c"
  using assms by (rule safe_batch_matmul.Run_well_behaved)

lemma BatchMatMulV2Shape_well_behaved_witness:
  "well_behaved BatchMatMulV2Shape (ctx_of (sample_call [[2, 2, 3], [5, 3, 4]] [[2, 2, 3], [5, 3, 4]] [] 1
     [(''adj_x'', A_b False), (''adj_y'', A_b False)]))"
  by (rule BatchMatMulV2Shape_well_behaved[OF ready_sample_call]) (simp_all add: max_rank_def seen_as_def is_size_def)

text \<open>
  \<open>BiasAddShape\<close> never stops the program: the positions it computes for the channel
  dimension exist once the rank has been checked, in both layouts and when the layout is
  missing or of the wrong type.
\<close>

theorem BiasAddShape_well_behaved:
  assumes "ready 2 c"
  shows "well_behaved BiasAddShape c"
  using assms by (rule safe_bias_add.Run_well_behaved)

lemma BiasAddShape_well_behaved_witness:
  "well_behaved BiasAddShape (ctx_of (sample_call [[2, 7, 4], [6]] [[2, 7, 4], [6]] [] 1 [(''data_format'', A_i 3)]))"
  by (rule BiasAddShape_well_behaved[OF ready_sample_call]) (simp_all add: max_rank_def seen_as_def is_size_def)

end
