(* ===== verification/HandleData.thy ===== *)
theory HandleData
  imports SafeCalls
begin

text \<open>
  Refining the inputs of a context, and the shapes and types behind its resource handles, from
  several producers (\<open>MergeInput\<close>, \<open>RelaxInput\<close> of \<open>framework/shape_inference.h\<close>, the
  functions on handle data of \<open>framework/shape_inference.cc\<close>). Merging adds what another
  producer knows; relaxing keeps what all producers agree on.
\<close>

section \<open>Inputs\<close>

definition MergeInput :: "int \<Rightarrow> shape \<Rightarrow> bool cop" where
  "MergeInput idx s =
     andThen (input idx) (\<lambda>old.
     andThen (tryStatus (MergeShape old s)) (\<lambda>r.
     case r of
       Inl _ \<Rightarrow> ret False
     | Inr new_shape \<Rightarrow> andThen (SetInput idx new_shape) (\<lambda>_. ret True)))"

definition RelaxInput :: "int \<Rightarrow> shape \<Rightarrow> bool cop" where
  "RelaxInput idx s =
     andThen (input idx) (\<lambda>old.
     andThen (RelaxShape old s) (\<lambda>new_shape.
     if SameHandle old new_shape then ret False
     else andThen (SetInput idx new_shape) (\<lambda>_. ret True)))"

section \<open>Shapes and types of resource handles\<close>

text \<open>
  The loops over the pairs of a new and an existing entry; \<open>None\<close> is the early
  \<open>return false\<close>, which drops the entries but not the merges made so far.
\<close>

primrec mergeHandleLoop ::
    "(shape_and_type \<times> shape_and_type) list \<Rightarrow> shape_and_type list \<Rightarrow> bool \<Rightarrow>
     (shape_and_type list \<times> bool) option cop" where
  "mergeHandleLoop [] new_values refined = ret (Some (new_values, refined))"
| "mergeHandleLoop (p # ps) new_values refined =
    (let (st, existing) = p in
     if st_dtype st \<noteq> st_dtype existing \<and> st_dtype existing \<noteq> DT_INVALID then ret None
     else
       andThen (tryStatus (MergeShape (st_shape existing) (st_shape st))) (\<lambda>r.
       let s = (case r of Inl _ \<Rightarrow> st_shape existing | Inr s \<Rightarrow> s)
       in mergeHandleLoop ps (new_values @ [\<lparr>st_shape = s, st_dtype = st_dtype st\<rparr>])
            (refined \<or> st_dtype st \<noteq> st_dtype existing \<or> \<not> SameHandle (st_shape existing) s)))"

text \<open>The returned flag, and what \<open>to_update\<close> points to afterwards.\<close>

definition MergeHandleShapesAndTypes ::
    "shape_and_type list \<Rightarrow> shape_and_type list \<Rightarrow> (bool \<times> shape_and_type list) cop" where
  "MergeHandleShapesAndTypes sts to_update =
    (if length sts \<noteq> length to_update then ret (False, to_update)
     else andThen (mergeHandleLoop (zip sts to_update) [] False) (\<lambda>r.
       case r of
         None \<Rightarrow> ret (False, to_update)
       | Some (new_values, refined) \<Rightarrow>
           ret (if refined then (True, new_values) else (False, to_update))))"

primrec relaxHandleLoop ::
    "(shape_and_type \<times> shape_and_type) list \<Rightarrow> shape_and_type list \<Rightarrow> shape_and_type list option cop" where
  "relaxHandleLoop [] new_values = ret (Some new_values)"
| "relaxHandleLoop (p # ps) new_values =
    (let (st, existing) = p in
     if st_dtype st \<noteq> st_dtype existing \<and> st_dtype existing \<noteq> DT_INVALID then ret None
     else
       andThen (RelaxShape (st_shape existing) (st_shape st)) (\<lambda>s.
       relaxHandleLoop ps (new_values @ [\<lparr>st_shape = s, st_dtype = st_dtype st\<rparr>])))"

definition RelaxHandleShapesAndMergeTypes ::
    "shape_and_type list \<Rightarrow> shape_and_type list \<Rightarrow> (bool \<times> shape_and_type list) cop" where
  "RelaxHandleShapesAndMergeTypes sts to_update =
    (if length sts \<noteq> length to_update then ret (False, to_update)
     else andThen (relaxHandleLoop (zip sts to_update) []) (\<lambda>r.
       case r of
         None \<Rightarrow> ret (False, to_update)
       | Some new_values \<Rightarrow> ret (True, new_values)))"

text \<open>The four entry points: the first two index the vector unchecked, the others check.\<close>

definition MergeInputHandleShapesAndTypes :: "int \<Rightarrow> shape_and_type list \<Rightarrow> bool cop" where
  "MergeInputHandleShapesAndTypes idx sts =
     andThen (gets input_handle_shapes_and_types) (\<lambda>hs.
     andThen (liftR (vecAt hs idx)) (\<lambda>h.
     case h of
       None \<Rightarrow> andThen (modify (\<lambda>c. c\<lparr>input_handle_shapes_and_types := hs[nat idx := Some sts]\<rparr>)) (\<lambda>_. ret True)
     | Some to_update \<Rightarrow>
         andThen (MergeHandleShapesAndTypes sts to_update) (\<lambda>(b, updated).
         andThen (modify (\<lambda>c. c\<lparr>input_handle_shapes_and_types := hs[nat idx := Some updated]\<rparr>)) (\<lambda>_. ret b))))"

definition MergeOutputHandleShapesAndTypes :: "int \<Rightarrow> shape_and_type list \<Rightarrow> bool cop" where
  "MergeOutputHandleShapesAndTypes idx sts =
     andThen (gets output_handle_shapes_and_types) (\<lambda>hs.
     andThen (liftR (vecAt hs idx)) (\<lambda>h.
     case h of
       None \<Rightarrow> andThen (modify (\<lambda>c. c\<lparr>output_handle_shapes_and_types := hs[nat idx := Some sts]\<rparr>)) (\<lambda>_. ret True)
     | Some to_update \<Rightarrow>
         andThen (MergeHandleShapesAndTypes sts to_update) (\<lambda>(b, updated).
         andThen (modify (\<lambda>c. c\<lparr>output_handle_shapes_and_types := hs[nat idx := Some updated]\<rparr>)) (\<lambda>_. ret b))))"

definition RelaxInputHandleShapesAndMergeTypes :: "int \<Rightarrow> shape_and_type list \<Rightarrow> bool cop" where
  "RelaxInputHandleShapesAndMergeTypes idx sts =
     andThen (gets input_handle_shapes_and_types) (\<lambda>hs.
     andThen (checkThat (0 \<le> idx \<and> idx < int (length hs)) CheckFailed) (\<lambda>_.
     case hs ! nat idx of
       None \<Rightarrow> andThen (modify (\<lambda>c. c\<lparr>input_handle_shapes_and_types := hs[nat idx := Some sts]\<rparr>)) (\<lambda>_. ret True)
     | Some to_update \<Rightarrow>
         andThen (RelaxHandleShapesAndMergeTypes sts to_update) (\<lambda>(b, updated).
         andThen (modify (\<lambda>c. c\<lparr>input_handle_shapes_and_types := hs[nat idx := Some updated]\<rparr>)) (\<lambda>_. ret b))))"

definition RelaxOutputHandleShapesAndMergeTypes :: "int \<Rightarrow> shape_and_type list \<Rightarrow> bool cop" where
  "RelaxOutputHandleShapesAndMergeTypes idx sts =
     andThen (gets output_handle_shapes_and_types) (\<lambda>hs.
     andThen (checkThat (0 \<le> idx \<and> idx < int (length hs)) CheckFailed) (\<lambda>_.
     case hs ! nat idx of
       None \<Rightarrow> andThen (modify (\<lambda>c. c\<lparr>output_handle_shapes_and_types := hs[nat idx := Some sts]\<rparr>)) (\<lambda>_. ret True)
     | Some to_update \<Rightarrow>
         andThen (RelaxHandleShapesAndMergeTypes sts to_update) (\<lambda>(b, updated).
         andThen (modify (\<lambda>c. c\<lparr>output_handle_shapes_and_types := hs[nat idx := Some updated]\<rparr>)) (\<lambda>_. ret b))))"

end
