(* ===== verification/HandleSound.thy ===== *)
theory HandleSound
  imports HandleData
begin

text \<open>
  What merging and relaxing do to the description of an input and of the data behind a
  resource handle. The view of a shape forgets the handles; relaxing computes the join of two
  views, the most precise description that covers both.
\<close>

section \<open>Views of shapes and their join\<close>

definition view :: "ctx \<Rightarrow> shape \<Rightarrow> int list option" where
  "view c s = map_option (map (DValue c)) (shape_of c s)"

definition joinVal :: "int \<Rightarrow> int \<Rightarrow> int" where
  "joinVal x y = (if x = y then x else - 1)"

fun joinView :: "int list option \<Rightarrow> int list option \<Rightarrow> int list option" where
  "joinView (Some xs) (Some ys) = (if length xs = length ys then Some (map2 joinVal xs ys) else None)"
| "joinView _ _ = None"

text \<open>The lists of sizes a view describes.\<close>

definition covers :: "int list option \<Rightarrow> int list \<Rightarrow> bool" where
  "covers V xs \<longleftrightarrow> (case V of None \<Rightarrow> True | Some ks \<Rightarrow> list_all2 (\<lambda>k x. k = - 1 \<or> x = k) ks xs)"

lemma covers_simps [simp]:
  "covers None xs" "covers (Some ks) xs \<longleftrightarrow> list_all2 (\<lambda>k x. k = - 1 \<or> x = k) ks xs"
  by (simp_all add: covers_def)

lemma joinView_upper: "covers A xs \<or> covers B xs \<Longrightarrow> covers (joinView A B) xs"
  by (cases A; cases B) (auto simp: joinVal_def list_all2_conv_all_nth)

text \<open>A view has a member of any value in the place of its unknown sizes.\<close>

lemma covers_sample: "covers (Some ks) (map (\<lambda>k. if k = - 1 then m else k) ks)"
  by (simp add: list_all2_conv_all_nth)

lemma joinView_least:
  assumes "\<And>xs. covers A xs \<or> covers B xs \<Longrightarrow> covers V xs" and x: "covers (joinView A B) xs"
  shows "covers V xs"
proof (cases V)
  case (Some zs)
  have rank: "C \<noteq> None" if "\<And>xs. covers C xs \<Longrightarrow> covers V xs" for C
    using that[of "replicate (Suc (length zs)) 0"] Some by (cases C) (auto dest: list_all2_lengthD)
  obtain as bs where A: "A = Some as" and B: "B = Some bs" using rank[of A] rank[of B] assms(1) by auto
  have fit: "list_all2 (\<lambda>k x. k = - 1 \<or> x = k) zs (map (\<lambda>k. if k = - 1 then m else k) ks)"
    if "ks = as \<or> ks = bs" for ks m
    using assms(1)[of "map (\<lambda>k. if k = - 1 then m else k) ks"] covers_sample[of ks m] that A B Some by auto
  have la: "length as = length zs" "length bs = length zs"
    using fit[of as 0] fit[of bs 0] by (auto dest: list_all2_lengthD)
  have z: "as ! i = zs ! i \<and> bs ! i = zs ! i" if "i < length zs" "zs ! i \<noteq> - 1" for i
  proof -
    have "ks ! i = zs ! i" if k: "ks = as \<or> ks = bs" for ks
      using list_all2_nthD[OF fit[OF k, of "zs ! i + 1"], of i] la k \<open>i < length zs\<close> \<open>zs ! i \<noteq> - 1\<close>
      by (auto split: if_splits)
    then show ?thesis by simp
  qed
  have "list_all2 (\<lambda>k x. k = - 1 \<or> x = k) (map2 joinVal as bs) xs" using x A B la by simp
  then have l: "length xs = length zs" and n: "\<And>i. i < length zs \<Longrightarrow> joinVal (as ! i) (bs ! i) = - 1 \<or> xs ! i = joinVal (as ! i) (bs ! i)"
    using la by (auto simp: list_all2_conv_all_nth)
  have "zs ! i = - 1 \<or> xs ! i = zs ! i" if "i < length zs" for i
    using n[OF that] z[OF that] by (cases "zs ! i = - 1") (auto simp: joinVal_def)
  then show ?thesis using l Some by (simp add: list_all2_conv_all_nth)
qed simp

section \<open>Relaxing succeeds\<close>

definition succeeds :: "'a cop \<Rightarrow> ('a \<Rightarrow> ctx \<Rightarrow> bool) \<Rightarrow> ctx \<Rightarrow> bool" where
  "succeeds m P c \<longleftrightarrow> (\<exists>x c'. m c = (Inr x, c') \<and> wf_ctx c' \<and> extends c c' \<and> P x c')"

lemma succeeds_andThen:
  assumes "succeeds m P c" "\<And>x c'. wf_ctx c' \<Longrightarrow> extends c c' \<Longrightarrow> P x c' \<Longrightarrow> succeeds (f x) Q c'"
  shows "succeeds (andThen m f) Q c"
proof -
  obtain x c' where m: "m c = (Inr x, c')" "wf_ctx c'" "extends c c'" "P x c'"
    using assms(1) by (auto simp: succeeds_def)
  obtain y c'' where f: "f x c' = (Inr y, c'')" "wf_ctx c''" "extends c' c''" "Q y c''"
    using assms(2)[OF m(2-4)] by (auto simp: succeeds_def)
  show ?thesis
    unfolding succeeds_def using andThen_Inr[of m c x c' f] m(1) f extends_trans[OF m(3) f(3)] by auto
qed

lemma succeeds_ret: "wf_ctx c \<Longrightarrow> P x c \<Longrightarrow> succeeds (ret x) P c"
  by (simp add: succeeds_def op_simps)

lemma succeeds_mono: "succeeds m P c \<Longrightarrow> (\<And>x c'. extends c c' \<Longrightarrow> wf_ctx c' \<Longrightarrow> P x c' \<Longrightarrow> Q x c') \<Longrightarrow> succeeds m Q c"
  unfolding succeeds_def by blast

lemma ForgetMerges_succeeds:
  assumes "wf_ctx c"
  shows "succeeds ForgetMerges (\<lambda>_ c'. valid_dim c' = valid_dim c \<and> valid_shape c' = valid_shape c \<and>
     (\<forall>d. DValue c' d = DValue c d) \<and> shape_of c' = shape_of c) c"
proof -
  let ?c = "c\<lparr>merged_shapes := [], merged_dims := []\<rparr>"
  have e: "valid_dim ?c = valid_dim c" "valid_shape ?c = valid_shape c" "DValue ?c d = DValue c d" "shape_of ?c = shape_of c" for d
    by (auto simp: valid_dim_def valid_shape_def Value_def shape_of_def fun_eq_iff split: option.splits)
  have "wf_ctx ?c" using assms unfolding wf_ctx_def valid_handles_def e by simp
  then show ?thesis using e by (simp add: succeeds_def ForgetMerges_def op_simps extends_def same_statics_def)
qed

lemma extends_values: "extends c c' \<Longrightarrow> valid_dim c d \<Longrightarrow> DValue c' d = DValue c d"
  using extends_nth(1)[of c c' d] by (simp add: valid_dim_def Value_def)

lemma RelaxDim_succeeds:
  assumes w: "wf_ctx c" and v: "valid_dim c d0" "valid_dim c d1"
  shows "succeeds (RelaxDim d0 d1) (\<lambda>d c'. valid_dim c' d \<and> DValue c' d = joinVal (DValue c d0) (DValue c d1)) c"
    (is "succeeds _ ?Q c")
proof -
  have f: "succeeds (andThen ForgetMerges (\<lambda>_. ret d)) ?Q c"
    if "valid_dim c d" "DValue c d = joinVal (DValue c d0) (DValue c d1)" for d
    by (rule succeeds_andThen[OF ForgetMerges_succeeds[OF w]]) (use that in \<open>auto intro: succeeds_ret\<close>)
  have u: "succeeds (andThen ForgetMerges (\<lambda>_. UnknownDim)) ?Q c"
    if "joinVal (DValue c d0) (DValue c d1) = - 1"
    by (rule succeeds_andThen[OF ForgetMerges_succeeds[OF w]])
      (use that push_dim_adds[of _ "- 1"] in \<open>auto simp: succeeds_def op_simps adds_def\<close>)
  show ?thesis
  proof (cases "d0 = d1")
    case True
    then show ?thesis using w v by (auto simp: RelaxDim_def SameHandle_def joinVal_def intro: succeeds_ret)
  next
    case False
    have "RelaxDim d0 d1 c =
       (if DValue c d1 = - 1 then andThen ForgetMerges (\<lambda>_. ret d1) c
        else if DValue c d0 = DValue c d1 then (Inr d0, c)
        else andThen ForgetMerges (\<lambda>_. UnknownDim) c)"
      using False by (auto simp: RelaxDim_def SameHandle_def op_simps)
    then show ?thesis
      using f[OF v(2)] u w v by (auto simp: succeeds_def joinVal_def split: if_splits)
  qed
qed

lemma mapOp_RelaxDim_succeeds:
  assumes "wf_ctx c" "list_all (\<lambda>(d0, d1). valid_dim c d0 \<and> valid_dim c d1) ps"
  shows "succeeds (mapOp (\<lambda>(d0, d1). RelaxDim d0 d1) ps)
    (\<lambda>ds c'. list_all (valid_dim c') ds \<and> map (DValue c') ds = map (\<lambda>(d0, d1). joinVal (DValue c d0) (DValue c d1)) ps) c"
  using assms
proof (induction ps arbitrary: c)
  case Nil
  then show ?case by (simp add: succeeds_ret)
next
  case (Cons p ps)
  obtain d0 d1 where p: "p = (d0, d1)" by (cases p)
  have v: "valid_dim c d0" "valid_dim c d1" using Cons.prems p by auto
  have ps: "list_all (\<lambda>(d0, d1). valid_dim c d0 \<and> valid_dim c d1) ps" using Cons.prems by simp
  show ?case
    unfolding p mapOp.simps split_conv
  proof (rule succeeds_andThen[OF RelaxDim_succeeds[OF Cons.prems(1) v]])
    fix d c'
    assume 1: "wf_ctx c'" "extends c c'" "valid_dim c' d \<and> DValue c' d = joinVal (DValue c d0) (DValue c d1)"
    have ps': "list_all (\<lambda>(d0, d1). valid_dim c' d0 \<and> valid_dim c' d1) ps"
      using ps extends_valid_dim[OF 1(2)] by (auto simp: list_all_iff)
    have eq: "map (\<lambda>(d0, d1). joinVal (DValue c' d0) (DValue c' d1)) ps = map (\<lambda>(d0, d1). joinVal (DValue c d0) (DValue c d1)) ps"
      using ps extends_values[OF 1(2)] by (auto simp: list_all_iff)
    show "succeeds (andThen (mapOp (\<lambda>(d0, d1). RelaxDim d0 d1) ps) (\<lambda>ys. ret (d # ys)))
        (\<lambda>ds c'. list_all (valid_dim c') ds \<and>
           map (DValue c') ds = map (\<lambda>(d0, d1). joinVal (DValue c d0) (DValue c d1)) ((d0, d1) # ps)) c'"
      by (rule succeeds_andThen[OF Cons.IH[OF 1(1) ps']])
        (use 1 eq extends_valid_dim extends_values in \<open>auto intro!: succeeds_ret\<close>)
  qed
qed

lemma view_simps: "shape_of c s = None \<Longrightarrow> view c s = None" "shape_of c s = Some ds \<Longrightarrow> view c s = Some (map (DValue c) ds)"
  by (simp_all add: view_def)

lemma RelaxShape_succeeds:
  assumes w: "wf_ctx c" and v: "vshape c s0" "vshape c s1"
  shows "succeeds (RelaxShape s0 s1) (\<lambda>s c'. vshape c' s \<and> view c' s = joinView (view c s0) (view c s1)) c"
    (is "succeeds _ ?Q c")
proof (cases "s0 = s1")
  case True
  have "joinView V V = V" for V by (cases V) (auto simp: joinVal_def list_eq_iff_nth_eq)
  then show ?thesis using True w v by (simp add: RelaxShape_def SameHandle_def succeeds_ret)
next
  case neq: False
  have set: "s0 \<noteq> None" using v by (simp add: vshape_def)
  have vs: "valid_shape c s0" "valid_shape c s1" using v by (auto simp: vshape_def)
  have fr: "vshape c'' (Some (length (all_shapes c'))) \<and> shape_of c'' (Some (length (all_shapes c'))) = sh \<and> wf_ctx c'' \<and> extends c' c''"
    if "wf_ctx c'" "case sh of None \<Rightarrow> True | Some ds \<Rightarrow> list_all (valid_dim c') ds" "c'' = c'\<lparr>all_shapes := all_shapes c' @ [sh]\<rparr>" for c' c'' sh
    using push_shape_adds[OF that(1,2)] that(3) by (simp add: adds_def)
  show ?thesis
  proof (cases "shape_of c s1")
    case None
    have "RelaxShape s0 s1 c = andThen ForgetMerges (\<lambda>_. ret s1) c"
      using None neq by (simp add: RelaxShape_def SameHandle_def op_simps RankKnown_iff)
    moreover have "succeeds (andThen ForgetMerges (\<lambda>_. ret s1)) ?Q c"
      by (rule succeeds_andThen[OF ForgetMerges_succeeds[OF w]])
        (use None v in \<open>auto simp: view_def vshape_def intro!: succeeds_ret\<close>)
    ultimately show ?thesis by (simp add: succeeds_def)
  next
    case (Some ds1)
    show ?thesis
    proof (cases "Rank c s0 = Rank c s1")
      case False
      have "RelaxShape s0 s1 c = andThen ForgetMerges (\<lambda>_. UnknownShape) c"
        using Some neq False set by (cases s0) (auto simp: RelaxShape_def SameHandle_def op_simps RankKnown_iff)
      moreover have "joinView (view c s0) (view c s1) = None"
        using False Some by (cases "shape_of c s0") (auto simp: view_def Rank_def)
      moreover have "succeeds (andThen ForgetMerges (\<lambda>_. UnknownShape)) (\<lambda>s c'. vshape c' s \<and> view c' s = None) c"
        by (rule succeeds_andThen[OF ForgetMerges_succeeds[OF w]])
          (use fr[of _ None] in \<open>auto simp: succeeds_def op_simps view_def\<close>)
      ultimately show ?thesis by (simp add: succeeds_def)
    next
      case True
      then obtain ds0 where d0: "shape_of c s0 = Some ds0" and l: "length ds0 = length ds1"
        using Some by (cases "shape_of c s0") (auto simp: Rank_def)
      have vd: "list_all (valid_dim c) ds0" "list_all (valid_dim c) ds1"
        using wf_shape_dims[OF w v(1) d0] wf_shape_dims[OF w v(2) Some] .
      have ps: "list_all (\<lambda>(d0, d1). valid_dim c d0 \<and> valid_dim c d1) (zip ds0 ds1)"
        using vd by (auto simp: list_all_iff dest: set_zip_leftD set_zip_rightD)
      have J: "joinView (view c s0) (view c s1) = Some (map (\<lambda>(d0, d1). joinVal (DValue c d0) (DValue c d1)) (zip ds0 ds1))"
        using d0 Some l by (simp add: view_def zip_map_map split_def)
      let ?rest = "andThen (mapOp (\<lambda>(d0, d1). RelaxDim d0 d1) (zip ds0 ds1)) (\<lambda>dims. andThen ForgetMerges (\<lambda>_. MakeShape dims))"
      have run: "RelaxShape s0 s1 c = (if list_all (relaxKeeps c) (zip ds0 ds1) then (Inr s0, c) else ?rest c)"
        using Some d0 True neq set by (cases s0) (auto simp: RelaxShape_def SameHandle_def op_simps RankKnown_iff dimsOf_def)
      have keep: "map (\<lambda>(d0, d1). joinVal (DValue c d0) (DValue c d1)) (zip ds0 ds1) = map (DValue c) ds0"
        if "list_all (relaxKeeps c) (zip ds0 ds1)"
      proof (rule nth_equalityI)
        fix i assume "i < length (map (\<lambda>(d0, d1). joinVal (DValue c d0) (DValue c d1)) (zip ds0 ds1))"
        then have i: "i < length ds0" "i < length ds1" using l by auto
        then have "relaxKeeps c (ds0 ! i, ds1 ! i)" using that l by (simp add: list_all_length)
        then show "map (\<lambda>(d0, d1). joinVal (DValue c d0) (DValue c d1)) (zip ds0 ds1) ! i = map (DValue c) ds0 ! i"
          using i by (auto simp: relaxKeeps_def SameHandle_def joinVal_def)
      qed (use l in simp)
      have "succeeds ?rest ?Q c"
      proof (rule succeeds_andThen[OF mapOp_RelaxDim_succeeds[OF w ps]])
        fix dims c1
        assume 1: "wf_ctx c1" "extends c c1" "list_all (valid_dim c1) dims \<and>
           map (DValue c1) dims = map (\<lambda>(d0, d1). joinVal (DValue c d0) (DValue c d1)) (zip ds0 ds1)"
        show "succeeds (andThen ForgetMerges (\<lambda>_. MakeShape dims)) ?Q c1"
        proof (rule succeeds_andThen[OF ForgetMerges_succeeds[OF 1(1)]])
          fix u c2
          assume 2: "wf_ctx c2" "valid_dim c2 = valid_dim c1 \<and> valid_shape c2 = valid_shape c1 \<and>
             (\<forall>d. DValue c2 d = DValue c1 d) \<and> shape_of c2 = shape_of c1"
          let ?c3 = "c2\<lparr>all_shapes := all_shapes c2 @ [Some dims]\<rparr>"
          have "DValue ?c3 d = DValue c2 d" for d by (simp add: Value_def)
          then show "succeeds (MakeShape dims) ?Q c2"
            using fr[of c2 "Some dims" ?c3] 1 2 J by (simp add: succeeds_def op_simps view_def)
        qed
      qed
      then show ?thesis
        using run keep J w v d0 by (auto simp: succeeds_def view_def)
    qed
  qed
qed

section \<open>Operations that only touch the arenas and the merge records\<close>

definition heap_only :: "'a cop \<Rightarrow> bool" where
  "heap_only m \<longleftrightarrow> (\<forall>c. \<exists>ds ss md ms. snd (m c) =
     c\<lparr>all_dims := ds, all_shapes := ss, merged_dims := md, merged_shapes := ms\<rparr>)"

named_theorems heap_intros \<open>operations that only touch the arenas and the merge records\<close>

lemma heap_refl: "\<exists>ds ss md ms. c = c\<lparr>all_dims := ds, all_shapes := ss, merged_dims := md, merged_shapes := ms\<rparr>" for c :: ctx
  by (intro exI[of _ "all_dims c"] exI[of _ "all_shapes c"] exI[of _ "merged_dims c"] exI[of _ "merged_shapes c"]) simp

lemma heap_read [heap_intros]:
  "heap_only (ret x)" "heap_only (failWith e)" "heap_only (faultWith x')" "heap_only (gets f)" "heap_only (liftR r)"
  "heap_only (checkThat b x')" "heap_only (failUnless b e)" "heap_only (dimsOf s)"
  using heap_refl by (simp_all add: heap_only_def op_simps dimsOf_def)

lemma heap_andThen [heap_intros]:
  assumes "heap_only m" "\<And>x. heap_only (f x)"
  shows "heap_only (andThen m f)"
  unfolding heap_only_def
proof
  fix c
  obtain r c1 where m: "m c = (r, c1)" by (cases "m c")
  obtain ds ss md ms where 1: "c1 = c\<lparr>all_dims := ds, all_shapes := ss, merged_dims := md, merged_shapes := ms\<rparr>"
    using assms(1) m unfolding heap_only_def by (metis snd_conv)
  show "\<exists>ds ss md ms. snd (andThen m f c) = c\<lparr>all_dims := ds, all_shapes := ss, merged_dims := md, merged_shapes := ms\<rparr>"
  proof (cases r)
    case (Inl e)
    then show ?thesis using m 1 by (auto simp: andThen_def)
  next
    case (Inr x)
    obtain ds' ss' md' ms' where "snd (f x c1) = c1\<lparr>all_dims := ds', all_shapes := ss', merged_dims := md', merged_shapes := ms'\<rparr>"
      using assms(2)[of x] unfolding heap_only_def by blast
    then show ?thesis using m Inr 1 by (auto simp: andThen_def)
  qed
qed

lemma heap_checkOk [heap_intros]: "heap_only m \<Longrightarrow> heap_only (checkOk m)"
  unfolding heap_only_def checkOk_def by (auto split: prod.splits sum.splits fail.splits; metis snd_conv)

lemma heap_mapOp [heap_intros]: "(\<And>x. heap_only (f x)) \<Longrightarrow> heap_only (mapOp f xs)"
  by (induction xs) (auto intro!: heap_intros)

lemma heap_if [heap_intros]: "heap_only m \<Longrightarrow> heap_only m' \<Longrightarrow> heap_only (if b then m else m')"
  by simp

lemma heap_option [heap_intros]: "heap_only m \<Longrightarrow> (\<And>x. heap_only (f x)) \<Longrightarrow> heap_only (case z of None \<Rightarrow> m | Some x \<Rightarrow> f x)"
  by (simp split: option.splits)

lemma heap_prod [heap_intros]: "(\<And>x y. heap_only (f x y)) \<Longrightarrow> heap_only (case z of (x, y) \<Rightarrow> f x y)"
  by (simp split: prod.splits)

lemma heap_run:
  assumes "\<And>c. snd (m c) = c\<lparr>all_dims := f c, all_shapes := g c, merged_dims := h c, merged_shapes := k c\<rparr>"
  shows "heap_only m"
  unfolding heap_only_def using assms by blast

lemma heap_modify [heap_intros]:
  "heap_only ForgetMerges" "heap_only (addMergedDims d0 d1)" "heap_only (addMergedShapes s0 s1)"
  "heap_only (newShape sh)" "heap_only UnknownDim"
  by (rule heap_run[where f = all_dims and g = all_shapes and h = "\<lambda>_. []" and k = "\<lambda>_. []"],
      simp add: ForgetMerges_def op_simps)
    (rule heap_run[where f = all_dims and g = all_shapes and h = "\<lambda>c. merged_dims c @ [(d0, d1)]" and k = merged_shapes],
      simp add: addMergedDims_def op_simps,
     rule heap_run[where f = all_dims and g = all_shapes and h = merged_dims and k = "\<lambda>c. merged_shapes c @ [(s0, s1)]"],
      simp add: addMergedShapes_def op_simps,
     rule heap_run[where f = all_dims and g = "\<lambda>c. all_shapes c @ [sh]" and h = merged_dims and k = merged_shapes],
      simp add: op_simps,
     rule heap_run[where f = "\<lambda>c. all_dims c @ [- 1]" and g = all_shapes and h = merged_dims and k = merged_shapes],
      simp add: op_simps)

lemma heap_MergeDim [heap_intros]: "heap_only (MergeDim d0 d1)"
  unfolding MergeDim_def by (intro heap_intros)

lemma heap_MergeShape: "heap_only (MergeShape s0 s1)"
  unfolding MergeShape_def mergeKnown_def MakeShape_def by (intro heap_intros)

lemma heap_RelaxDim [heap_intros]: "heap_only (RelaxDim d0 d1)"
  unfolding RelaxDim_def by (intro heap_intros)

lemma heap_RelaxShape: "heap_only (RelaxShape s0 s1)"
  unfolding RelaxShape_def MakeShape_def UnknownShape_def by (intro heap_intros)

section \<open>Merging the data of a handle\<close>

lemma MergeShape_valid:
  assumes w: "wf_ctx c" and v: "valid_shape c s0" "valid_shape c s1"
  shows "safe (MergeShape s0 s1) (\<lambda>s c'. valid_shape c' s) c"
proof (cases "s0 = None \<or> s1 = None")
  case True
  have a: "safe (addMergedShapes s0 s1) (\<lambda>_ _. True) c"
    using merge_adds[of c "[]" "[(s0, s1)]"] w v by (simp add: safe_def addMergedShapes_def op_simps)
  have m: "safe (andThen (addMergedShapes s0 s1) (\<lambda>_. ret s)) (\<lambda>s c'. valid_shape c' s) c" if "valid_shape c s" for s
    by (rule safe_andThen[OF a])
      (use that in \<open>auto simp: adds_def intro!: safe_ret dest: extends_valid_shape\<close>)
  have "MergeShape s0 s1 c = (if s0 = s1 then (Inr s0, c)
     else if \<not> RankKnown c s1 then andThen (addMergedShapes s0 s1) (\<lambda>_. ret s0) c
     else andThen (addMergedShapes s0 s1) (\<lambda>_. ret s1) c)"
    using True by (auto simp: MergeShape_def SameHandle_def op_simps RankKnown_def)
  then show ?thesis using m[OF v(1)] m[OF v(2)] w v by (simp add: safe_def split: if_splits)
next
  case False
  then have "vshape c s0" "vshape c s1" using v by (auto simp: vshape_def)
  from safe_weaken[OF MergeShape_safe[OF w this]] show ?thesis by (simp add: vshape_def)
qed

text \<open>An entry after a merge or a relaxation of its types.\<close>

definition typed_from :: "shape_and_type \<times> shape_and_type \<Rightarrow> shape_and_type \<Rightarrow> bool" where
  "typed_from = (\<lambda>(st, old) n. st_dtype n = st_dtype st \<and> (st_dtype old \<noteq> DT_INVALID \<longrightarrow> st_dtype n = st_dtype old))"

abbreviation valid_entry :: "ctx \<Rightarrow> shape_and_type \<Rightarrow> bool" where
  "valid_entry c st \<equiv> valid_shape c (st_shape st)"

lemma mergeHandleLoop_safe:
  assumes "wf_ctx c" "list_all (\<lambda>(st, old). valid_entry c st \<and> valid_entry c old) ps" "list_all (valid_entry c) acc"
  shows "safe (mergeHandleLoop ps acc refined) (\<lambda>r c'. \<forall>vals fl. r = Some (vals, fl) \<longrightarrow>
     (\<exists>new. vals = acc @ new \<and> list_all (valid_entry c') vals \<and> list_all2 typed_from ps new \<and>
        (fl \<longleftrightarrow> refined \<or> new \<noteq> map snd ps))) c"
  using assms
proof (induction ps arbitrary: c acc refined)
  case Nil
  then show ?case by (auto intro!: safe_ret)
next
  case (Cons p ps)
  obtain st old where p: "p = (st, old)" by (cases p)
  have v: "valid_entry c st" "valid_entry c old" using Cons.prems(2) p by auto
  show ?case
  proof (cases "st_dtype st \<noteq> st_dtype old \<and> st_dtype old \<noteq> DT_INVALID")
    case True
    then show ?thesis using Cons.prems(1) by (simp add: p safe_ret)
  next
    case False
    let ?P = "\<lambda>r c'. valid_shape c' (case r of Inl _ \<Rightarrow> st_shape old | Inr s \<Rightarrow> s)"
    have m: "safe (tryStatus (MergeShape (st_shape old) (st_shape st))) ?P c"
      using MergeShape_valid[OF Cons.prems(1) v(2,1)] v(2)
      by (auto simp: safe_def tryStatus_def adds_def extends_valid_shape split: prod.splits sum.splits fail.splits)
    show ?thesis
      unfolding p mergeHandleLoop.simps Let_def split_conv if_not_P[OF False]
    proof (rule safe_andThen[OF m])
      fix r c'
      assume 1: "wf_ctx c'" "adds c c'" "?P r c'"
      let ?s = "case r of Inl _ \<Rightarrow> st_shape old | Inr s \<Rightarrow> s"
      let ?n = "\<lparr>st_shape = ?s, st_dtype = st_dtype st\<rparr>"
      have up: "valid_entry c x \<Longrightarrow> valid_entry c' x" for x using 1(2) by (auto simp: adds_def intro: extends_valid_shape)
      have n: "typed_from (st, old) ?n" using False by (auto simp: typed_from_def)
      have same: "?n = old \<longleftrightarrow> st_dtype st = st_dtype old \<and> SameHandle (st_shape old) ?s"
        by (cases old) (auto simp: SameHandle_def)
      show "safe (mergeHandleLoop ps (acc @ [?n]) (refined \<or> st_dtype st \<noteq> st_dtype old \<or> \<not> SameHandle (st_shape old) ?s))
         (\<lambda>r c'. \<forall>vals fl. r = Some (vals, fl) \<longrightarrow>
           (\<exists>new. vals = acc @ new \<and> list_all (valid_entry c') vals \<and> list_all2 typed_from ((st, old) # ps) new \<and>
             (fl \<longleftrightarrow> refined \<or> new \<noteq> map snd ((st, old) # ps)))) c'"
      proof (rule safe_weaken[OF Cons.IH])
        show "wf_ctx c'" by (rule 1)
        show "list_all (\<lambda>(st, old). valid_entry c' st \<and> valid_entry c' old) ps"
          using Cons.prems(2) up by (auto simp: list_all_iff)
        show "list_all (valid_entry c') (acc @ [?n])" using Cons.prems(3) up 1(3) by (auto simp: list_all_iff)
      next
        fix q c2
        assume q: "\<forall>vals fl. q = Some (vals, fl) \<longrightarrow> (\<exists>new. vals = (acc @ [?n]) @ new \<and> list_all (valid_entry c2) vals \<and>
            list_all2 typed_from ps new \<and>
            (fl \<longleftrightarrow> (refined \<or> st_dtype st \<noteq> st_dtype old \<or> \<not> SameHandle (st_shape old) ?s) \<or> new \<noteq> map snd ps))"
        show "\<forall>vals fl. q = Some (vals, fl) \<longrightarrow> (\<exists>new. vals = acc @ new \<and> list_all (valid_entry c2) vals \<and>
            list_all2 typed_from ((st, old) # ps) new \<and> (fl \<longleftrightarrow> refined \<or> new \<noteq> map snd ((st, old) # ps)))"
        proof (intro allI impI)
          fix vals fl assume "q = Some (vals, fl)"
          then obtain new where w: "vals = (acc @ [?n]) @ new" "list_all (valid_entry c2) vals" "list_all2 typed_from ps new"
            "fl \<longleftrightarrow> (refined \<or> st_dtype st \<noteq> st_dtype old \<or> \<not> SameHandle (st_shape old) ?s) \<or> new \<noteq> map snd ps"
            using q by blast
          show "\<exists>new. vals = acc @ new \<and> list_all (valid_entry c2) vals \<and>
            list_all2 typed_from ((st, old) # ps) new \<and> (fl \<longleftrightarrow> refined \<or> new \<noteq> map snd ((st, old) # ps))"
            by (rule exI[of _ "?n # new"]) (use w n same in auto)
        qed
      qed
    qed
  qed
qed

lemma heap_tryStatus [heap_intros]: "heap_only m \<Longrightarrow> heap_only (tryStatus m)"
  unfolding heap_only_def tryStatus_def by (auto split: prod.splits sum.splits fail.splits; metis snd_conv)

lemma heap_mergeHandleLoop: "heap_only (mergeHandleLoop ps acc refined)"
  by (induction ps arbitrary: acc refined) (auto simp: Let_def intro!: heap_intros heap_MergeShape)

lemma heap_MergeHandle: "heap_only (MergeHandleShapesAndTypes sts to_update)"
  unfolding MergeHandleShapesAndTypes_def by (intro heap_intros heap_mergeHandleLoop)

text \<open>The types of a list of entries are only ever filled in.\<close>

definition types_kept :: "shape_and_type list \<Rightarrow> shape_and_type list \<Rightarrow> bool" where
  "types_kept olds news \<longleftrightarrow>
     list_all2 (\<lambda>old n. st_dtype old \<noteq> DT_INVALID \<longrightarrow> st_dtype n = st_dtype old) olds news"

lemma types_kept_refl [simp]: "types_kept xs xs"
  by (simp add: types_kept_def list_all2_same)

lemma typed_from_kept:
  "length sts = length olds \<Longrightarrow> list_all2 typed_from (zip sts olds) news \<Longrightarrow> types_kept olds news"
  by (auto simp: types_kept_def typed_from_def list_all2_conv_all_nth)

lemma MergeHandle_safe:
  assumes "wf_ctx c" "list_all (valid_entry c) sts" "list_all (valid_entry c) olds"
  shows "safe (MergeHandleShapesAndTypes sts olds) (\<lambda>(b, news) c'. (b \<longleftrightarrow> news \<noteq> olds) \<and>
     list_all (valid_entry c') news \<and> types_kept olds news) c"
    (is "safe _ ?Q c")
proof (cases "length sts = length olds")
  case False
  then show ?thesis using assms by (simp add: MergeHandleShapesAndTypes_def safe_ret)
next
  case True
  have ps: "list_all (\<lambda>(st, old). valid_entry c st \<and> valid_entry c old) (zip sts olds)"
    using assms(2,3) by (auto simp: list_all_iff dest: set_zip_leftD set_zip_rightD)
  have k: "list_all (valid_entry c') olds" if "adds c c'" for c'
    using that assms(3) by (auto simp: list_all_iff adds_def intro: extends_valid_shape)
  have "safe (andThen (mergeHandleLoop (zip sts olds) [] False) (\<lambda>r. case r of None \<Rightarrow> ret (False, olds)
      | Some (new_values, refined) \<Rightarrow> ret (if refined then (True, new_values) else (False, olds)))) ?Q c"
    by (rule safe_andThen[OF mergeHandleLoop_safe[OF assms(1) ps]])
      (use k True typed_from_kept[OF True] in \<open>auto split: option.splits intro!: safe_ret\<close>)
  then show ?thesis using True by (simp add: MergeHandleShapesAndTypes_def)
qed

text \<open>Storing valid data behind an input keeps a context well-formed.\<close>

lemma wf_set_handles:
  assumes "wf_ctx c" "list_all (valid_entry c) new"
  shows "wf_ctx (c\<lparr>input_handle_shapes_and_types := (input_handle_shapes_and_types c)[i := Some new]\<rparr>)"
proof -
  let ?c = "c\<lparr>input_handle_shapes_and_types := (input_handle_shapes_and_types c)[i := Some new]\<rparr>"
  have e: "valid_dim ?c = valid_dim c" "valid_shape ?c = valid_shape c"
    by (auto simp: valid_dim_def valid_shape_def fun_eq_iff split: option.splits)
  have "valid_handles c ((input_handle_shapes_and_types c)[i := Some new])"
    using assms set_update_subset_insert[of "input_handle_shapes_and_types c" i "Some new"]
    unfolding valid_handles_def wf_ctx_def list_all_iff by fastforce
  moreover have "valid_handles ?c = valid_handles c" unfolding valid_handles_def e ..
  ultimately show ?thesis using assms(1) unfolding wf_ctx_def e by simp
qed

lemma mergeHandleLoop_no_status: "mergeHandleLoop ps acc refined c \<noteq> (Inl (Status e), c')"
proof (induction ps arbitrary: acc refined c)
  case (Cons p ps)
  show ?case
    by (cases p, cases "MergeShape (st_shape (snd p)) (st_shape (fst p)) c")
      (use Cons in \<open>auto simp: Let_def andThen_def tryStatus_def op_simps split: sum.splits fail.splits\<close>)
qed (simp add: op_simps)

lemma MergeHandle_returns:
  assumes "wf_ctx c" "list_all (valid_entry c) sts" "list_all (valid_entry c) olds"
  obtains b news c1 where "MergeHandleShapesAndTypes sts olds c = (Inr (b, news), c1)" "wf_ctx c1"
    "b \<longleftrightarrow> news \<noteq> olds" "list_all (valid_entry c1) news" "types_kept olds news"
proof -
  obtain r c1 where r: "MergeHandleShapesAndTypes sts olds c = (r, c1)" by (cases "MergeHandleShapesAndTypes sts olds c")
  have "r \<noteq> Inl (Status e)" for e
    using r mergeHandleLoop_no_status[of "zip sts olds" "[]" False c]
    by (auto simp: MergeHandleShapesAndTypes_def andThen_def op_simps split: if_splits prod.splits sum.splits option.splits)
  then show ?thesis
    using MergeHandle_safe[OF assms] r that by (auto simp: safe_def split: sum.splits fail.splits)
qed

section \<open>Properties\<close>

text \<open>
  C15: Relaxing never fails, and it computes the least upper bound: the new description covers
  every list of sizes that the old or the new shape describes, and any description that covers
  both covers all that it describes. The handles that existed keep their meaning.
\<close>

theorem RelaxShape_is_join:
  assumes "wf_ctx c" and "vshape c s_old" and "vshape c s_new"
  shows "\<exists>s c'. RelaxShape s_old s_new c = (Inr s, c') \<and> wf_ctx c' \<and> extends c c' \<and> vshape c' s \<and>
    view c' s = joinView (view c s_old) (view c s_new) \<and>
    (\<forall>V. (\<forall>xs. covers (view c s_old) xs \<or> covers (view c s_new) xs \<longrightarrow> covers V xs) \<longleftrightarrow>
         (\<forall>xs. covers (view c' s) xs \<longrightarrow> covers V xs))"
proof -
  obtain s c' where *: "RelaxShape s_old s_new c = (Inr s, c')" "wf_ctx c'" "extends c c'" "vshape c' s"
      "view c' s = joinView (view c s_old) (view c s_new)"
    using RelaxShape_succeeds[OF assms] by (auto simp: succeeds_def)
  have "(\<forall>xs. covers (view c s_old) xs \<or> covers (view c s_new) xs \<longrightarrow> covers V xs) \<longleftrightarrow>
         (\<forall>xs. covers (view c' s) xs \<longrightarrow> covers V xs)" for V
    unfolding *(5)
  proof (intro iffI allI impI)
    fix xs assume a: "\<forall>xs. covers (view c s_old) xs \<or> covers (view c s_new) xs \<longrightarrow> covers V xs"
      and x: "covers (joinView (view c s_old) (view c s_new)) xs"
    show "covers V xs" by (rule joinView_least[OF _ x]) (use a in blast)
  qed (use joinView_upper in simp)
  then show ?thesis by (intro exI[of _ s] exI[of _ c']) (simp only: * simp_thms)
qed

text \<open>Relaxing \<open>[2,3]\<close> with \<open>[2,4]\<close>.\<close>

lemma RelaxShape_is_join_witness:
  "\<exists>s c'. RelaxShape (Some 0) (Some 1) (sample_ctx [2, 3, 2, 4] [Some [0, 1], Some [2, 3]] [] [] 0 []) = (Inr s, c') \<and>
     view c' s = Some [2, - 1]"
proof -
  let ?c = "sample_ctx [2, 3, 2, 4] [Some [0, 1], Some [2, 3]] [] [] 0 []"
  have "wf_ctx ?c" "vshape ?c (Some 0)" "vshape ?c (Some 1)"
    "joinView (view ?c (Some 0)) (view ?c (Some 1)) = Some [2, - 1]"
    by (simp_all add: sample_ctx_def wf_ctx_def valid_handles_def valid_dim_def vshape_def valid_shape_def view_def
        shape_of_def Value_def joinVal_def)
  then obtain s c' where "RelaxShape (Some 0) (Some 1) ?c = (Inr s, c')" "view c' s = Some [2, - 1]"
    using RelaxShape_is_join[of ?c "Some 0" "Some 1"] by auto
  then show ?thesis by blast
qed

text \<open>
  C16: Merging into the data of a handle. The call always returns; it returns true exactly when
  the stored data has changed, it touches nothing but the arenas, the merge records and the data
  of this input, and a type that was known keeps its value: only \<open>DT_INVALID\<close> is filled in.
\<close>

theorem MergeInputHandle_refines:
  assumes w: "wf_ctx c" and v: "list_all (valid_entry c) sts"
    and i: "0 \<le> idx" "idx < int (length (input_handle_shapes_and_types c))"
  shows "\<exists>b c' ds ss md ms. MergeInputHandleShapesAndTypes idx sts c = (Inr b, c') \<and> wf_ctx c' \<and>
    (b \<longleftrightarrow> input_handle_shapes_and_types c' \<noteq> input_handle_shapes_and_types c) \<and>
    c' = c\<lparr>all_dims := ds, all_shapes := ss, merged_dims := md, merged_shapes := ms,
      input_handle_shapes_and_types := (input_handle_shapes_and_types c)[nat idx := input_handle_shapes_and_types c' ! nat idx]\<rparr> \<and>
    (case input_handle_shapes_and_types c ! nat idx of
       None \<Rightarrow> input_handle_shapes_and_types c' ! nat idx = Some sts
     | Some olds \<Rightarrow> \<exists>news. input_handle_shapes_and_types c' ! nat idx = Some news \<and> types_kept olds news)"
proof -
  let ?hs = "input_handle_shapes_and_types c"
  have n: "nat idx < length ?hs" using i by simp
  show ?thesis
  proof (cases "?hs ! nat idx")
    case None
    then show ?thesis
      using wf_set_handles[OF w v, of "nat idx"] i n
      by (intro exI[of _ True] exI[of _ "c\<lparr>input_handle_shapes_and_types := ?hs[nat idx := Some sts]\<rparr>"]
          exI[of _ "all_dims c"] exI[of _ "all_shapes c"] exI[of _ "merged_dims c"] exI[of _ "merged_shapes c"])
        (auto simp: MergeInputHandleShapesAndTypes_def op_simps vecAt_def list_eq_iff_nth_eq)
  next
    case (Some olds)
    have olds: "list_all (valid_entry c) olds"
      using w n Some by (auto simp: wf_ctx_def valid_handles_def list_all_length split: option.splits)
    obtain b news c1 where run: "MergeHandleShapesAndTypes sts olds c = (Inr (b, news), c1)" "wf_ctx c1"
        "b \<longleftrightarrow> news \<noteq> olds" "list_all (valid_entry c1) news" "types_kept olds news"
      by (rule MergeHandle_returns[OF w v olds])
    obtain ds ss md ms where c1: "c1 = c\<lparr>all_dims := ds, all_shapes := ss, merged_dims := md, merged_shapes := ms\<rparr>"
      using heap_MergeHandle[of sts olds] run(1) unfolding heap_only_def by (metis snd_conv)
    let ?c = "c1\<lparr>input_handle_shapes_and_types := ?hs[nat idx := Some news]\<rparr>"
    have "MergeInputHandleShapesAndTypes idx sts c = (Inr b, ?c)"
      using Some run(1) i by (simp add: MergeInputHandleShapesAndTypes_def op_simps vecAt_def)
    moreover have "wf_ctx ?c" using wf_set_handles[OF run(2,4), of "nat idx"] c1 by simp
    moreover have "b \<longleftrightarrow> ?hs[nat idx := Some news] \<noteq> ?hs"
      using run(3) Some n by (metis list_update_id nth_list_update_eq option.inject)
    ultimately show ?thesis
      using c1 n Some run(5)
      by (intro exI[of _ b] exI[of _ ?c] exI[of _ ds] exI[of _ ss] exI[of _ md] exI[of _ ms]) simp
  qed
qed

lemma MergeInputHandle_refines_witness:
  "\<exists>b c'. MergeInputHandleShapesAndTypes 0 [\<lparr>st_shape = Some 1, st_dtype = DT_FLOAT\<rparr>]
     ((sample_ctx [2, - 1] [Some [0], Some [1]] [Some 0] [] 0 [])
        \<lparr>input_handle_shapes_and_types := [Some [\<lparr>st_shape = Some 0, st_dtype = DT_INVALID\<rparr>]]\<rparr>) = (Inr b, c') \<and>
     wf_ctx c' \<and> (b \<longleftrightarrow> input_handle_shapes_and_types c' \<noteq> [Some [\<lparr>st_shape = Some 0, st_dtype = DT_INVALID\<rparr>]])"
proof -
  let ?c = "(sample_ctx [2, - 1] [Some [0], Some [1]] [Some 0] [] 0 [])
        \<lparr>input_handle_shapes_and_types := [Some [\<lparr>st_shape = Some 0, st_dtype = DT_INVALID\<rparr>]]\<rparr>"
  let ?sts = "[\<lparr>st_shape = Some 1, st_dtype = DT_FLOAT\<rparr>]"
  have c: "wf_ctx ?c" "list_all (valid_entry ?c) ?sts" "0 < int (length (input_handle_shapes_and_types ?c))"
    and h: "input_handle_shapes_and_types ?c = [Some [\<lparr>st_shape = Some 0, st_dtype = DT_INVALID\<rparr>]]"
    by (simp_all add: sample_ctx_def wf_ctx_def valid_handles_def valid_dim_def valid_shape_def)
  show ?thesis using MergeInputHandle_refines[OF c(1,2) order_refl c(3)] unfolding h by blast
qed

end
