(* ===== verification/MergeView.thy ===== *)
theory MergeView
  imports HandleSound
begin

text \<open>
  Merging on views (the known sizes of a shape): the counterpart of the join. \<open>MergeShape\<close> succeeds
  exactly when some list of sizes fits the views of both shapes, and the view of its result describes
  exactly the lists that do. Which of the unknown dimensions are the same is not part of a view.
\<close>

section \<open>The meet of two views\<close>

definition meetVal :: "int \<Rightarrow> int \<Rightarrow> int" where
  "meetVal x y = (if x = - 1 then y else x)"

fun meetView :: "int list option \<Rightarrow> int list option \<Rightarrow> int list option" where
  "meetView (Some xs) (Some ys) = Some (map2 meetVal xs ys)"
| "meetView None B = B"
| "meetView A None = A"

fun agreeView :: "int list option \<Rightarrow> int list option \<Rightarrow> bool" where
  "agreeView (Some xs) (Some ys) = list_all2 (\<lambda>x y. x = - 1 \<or> y = - 1 \<or> x = y) xs ys"
| "agreeView _ _ = True"

lemma covers_meet: "agreeView A B \<Longrightarrow> covers (meetView A B) xs \<longleftrightarrow> covers A xs \<and> covers B xs"
proof (cases "\<exists>as bs. A = Some as \<and> B = Some bs")
  case True
  then obtain as bs where AB: "A = Some as" "B = Some bs" by blast
  assume "agreeView A B"
  then have a: "length as = length bs" "\<And>i. i < length as \<Longrightarrow> as ! i = - 1 \<or> bs ! i = - 1 \<or> as ! i = bs ! i"
    using AB by (auto simp: list_all2_conv_all_nth)
  have "meetVal (as ! i) (bs ! i) = - 1 \<or> xs ! i = meetVal (as ! i) (bs ! i) \<longleftrightarrow>
      (as ! i = - 1 \<or> xs ! i = as ! i) \<and> (bs ! i = - 1 \<or> xs ! i = bs ! i)" if "i < length as" for i
    using a(2)[OF that] by (auto simp: meetVal_def)
  then show ?thesis using AB a(1) by (auto simp: list_all2_conv_all_nth)
next
  case False
  then show ?thesis by (cases A; cases B) auto
qed

lemma agreeView_iff: "agreeView A B \<longleftrightarrow> (\<exists>xs. covers A xs \<and> covers B xs)"
proof
  have "covers A [] \<or> covers A (map (\<lambda>k. if k = - 1 then 0 else k) (the A))" for A
    by (cases A) (use covers_sample[of _ 0] in auto)
  then have ex: "\<exists>xs. covers A xs" for A by blast
  assume "agreeView A B"
  then show "\<exists>xs. covers A xs \<and> covers B xs" using covers_meet[of A B] ex[of "meetView A B"] by blast
next
  assume "\<exists>xs. covers A xs \<and> covers B xs"
  then show "agreeView A B"
    by (cases "(A, B)" rule: agreeView.cases) (auto simp: list_all2_conv_all_nth, metis)
qed

section \<open>Merging computes it\<close>

lemma compatible_DValue:
  "compatible (all_dims c) (d0, d1) \<longleftrightarrow> DValue c d0 = - 1 \<or> DValue c d1 = - 1 \<or> DValue c d0 = DValue c d1"
  by (auto simp: compatible_def Value_def)

lemma DValue_dims: "all_dims c' = all_dims c \<Longrightarrow> DValue c' d = DValue c d"
  by (simp add: Value_def)

lemma mapOp_MergeDim_values:
  assumes "list_all (compatible (all_dims c)) ps"
    and "mapOp (\<lambda>(d0, d1). checkOk (MergeDim d0 d1)) ps c = (Inr ds, c')"
  shows "all_dims c' = all_dims c \<and> map (DValue c) ds = map (\<lambda>(d0, d1). meetVal (DValue c d0) (DValue c d1)) ps"
  using assms
proof (induction ps arbitrary: c ds)
  case Nil
  then show ?case by (simp add: op_simps)
next
  case (Cons p ps)
  obtain d0 d1 where p: "p = (d0, d1)" by (cases p)
  have ok: "DValue c d0 = - 1 \<or> DValue c d1 = - 1 \<or> DValue c d0 = DValue c d1"
    using Cons.prems(1) by (simp add: p compatible_DValue)
  have "\<exists>d c1. MergeDim d0 d1 c = (Inr d, c1) \<and> all_dims c1 = all_dims c \<and>
      DValue c d = meetVal (DValue c d0) (DValue c d1)"
    using ok by (auto simp: MergeDim_run meetVal_def)
  then obtain d c1 where d: "MergeDim d0 d1 c = (Inr d, c1)" "all_dims c1 = all_dims c"
      "DValue c d = meetVal (DValue c d0) (DValue c d1)" by blast
  have chk: "checkOk (MergeDim d0 d1) c = (Inr d, c1)" using d(1) by (simp add: checkOk_def)
  obtain ds' where ds: "ds = d # ds'" "mapOp (\<lambda>(d0, d1). checkOk (MergeDim d0 d1)) ps c1 = (Inr ds', c')"
    using Cons.prems(2) chk by (auto simp: p op_simps andThen_eq_Inr)
  have "all_dims c' = all_dims c1 \<and> map (DValue c1) ds' = map (\<lambda>(d0, d1). meetVal (DValue c1 d0) (DValue c1 d1)) ps"
    by (rule Cons.IH[OF _ ds(2)]) (use Cons.prems(1) d(2) in simp)
  then show ?case using d ds(1) DValue_dims[OF d(2)] by (simp add: p)
qed

lemma view_status:
  assumes "MergeShape s0 s1 c = (r, c')" "\<not> agreeView (view c s0) (view c s1)"
  shows "r = Inl (Status InvalidArgument) \<and> c' = c"
proof -
  obtain ds0 ds1 where d: "shape_of c s0 = Some ds0" "shape_of c s1 = Some ds1"
    using assms(2) by (cases "shape_of c s0"; cases "shape_of c s1") (auto simp: view_def)
  have n: "\<not> (length ds0 = length ds1 \<and> list_all (compatible (all_dims c)) (zip ds0 ds1))"
    using assms(2) d by (auto simp: view_def list_all2_conv_all_nth list_all_length compatible_DValue)
  have "s0 \<noteq> s1" using n by (auto simp: d[symmetric] list_all_length compatible_DValue) (use d in \<open>auto\<close>)
  then have "MergeShape s0 s1 c = mergeKnown s0 s1 ds0 ds1 c"
    using d by (simp add: MergeShape_def SameHandle_def op_simps RankKnown_iff dimsOf_def)
  moreover have "mergeKnown s0 s1 ds0 ds1 c = (Inl (Status InvalidArgument), c)"
    using n mergeScan_compatible[of c "zip ds0 ds1" True True] by (auto simp: mergeKnown_def op_simps)
  ultimately show ?thesis using assms(1) by simp
qed

lemma view_cong: "all_dims c' = all_dims c \<Longrightarrow> all_shapes c' = all_shapes c \<Longrightarrow> view c' s = view c s"
  by (cases s) (auto simp: view_def shape_of_def Value_def)

lemma mergeKnown_view:
  assumes d: "shape_of c s0 = Some ds0" "shape_of c s1 = Some ds1" and "agreeView (view c s0) (view c s1)"
  shows "\<exists>s c'. mergeKnown s0 s1 ds0 ds1 c = (Inr s, c') \<and> view c' s = meetView (view c s0) (view c s1)"
proof -
  let ?ps = "zip ds0 ds1" and ?c = "c\<lparr>merged_shapes := merged_shapes c @ [(s0, s1)]\<rparr>"
  have l: "length ds0 = length ds1" and compat: "list_all (compatible (all_dims c)) ?ps"
    using assms(3) d by (auto simp: view_def list_all2_conv_all_nth list_all_length compatible_DValue)
  have M: "meetView (view c s0) (view c s1) = Some (map (\<lambda>(d0, d1). meetVal (DValue c d0) (DValue c d1)) ?ps)"
    using d by (simp add: view_def zip_map_map split_def)
  obtain r0 r1 where scan: "mergeScan c ?ps True True = Some (r0, r1)"
    using compat mergeScan_compatible[of c ?ps True True] by fastforce
  have lr: "r0 = list_all (keeps_left c) ?ps" "r1 = list_all (keeps_right c) ?ps"
    using mergeScan_Some[OF scan] by simp_all
  have c: "DValue c (ds0 ! i) = - 1 \<or> DValue c (ds1 ! i) = - 1 \<or> DValue c (ds0 ! i) = DValue c (ds1 ! i)"
    if "i < length ds1" for i
    using compat that l by (simp add: list_all_length compatible_DValue)
  have left: "map (\<lambda>(d0, d1). meetVal (DValue c d0) (DValue c d1)) ?ps = map (DValue c) ds0" if r0
  proof (rule nth_equalityI)
    fix i assume "i < length (map (\<lambda>(d0, d1). meetVal (DValue c d0) (DValue c d1)) ?ps)"
    then have i: "i < length ds1" by simp
    then have "keeps_left c (ds0 ! i, ds1 ! i)" using that l lr by (simp add: list_all_length)
    then show "map (\<lambda>(d0, d1). meetVal (DValue c d0) (DValue c d1)) ?ps ! i = map (DValue c) ds0 ! i"
      using i l c[OF i] by (auto simp: keeps_left_def meetVal_def ValueKnown_def)
  qed (use l in simp)
  have right: "map (\<lambda>(d0, d1). meetVal (DValue c d0) (DValue c d1)) ?ps = map (DValue c) ds1" if r1
  proof (rule nth_equalityI)
    fix i assume "i < length (map (\<lambda>(d0, d1). meetVal (DValue c d0) (DValue c d1)) ?ps)"
    then have i: "i < length ds1" by simp
    then have "keeps_right c (ds0 ! i, ds1 ! i)" using that l lr by (simp add: list_all_length)
    then show "map (\<lambda>(d0, d1). meetVal (DValue c d0) (DValue c d1)) ?ps ! i = map (DValue c) ds1 ! i"
      using i l c[OF i] by (auto simp: keeps_right_def meetVal_def ValueKnown_def)
  qed (use l in simp)
  have vc: "view ?c s = view c s" for s by (rule view_cong) simp_all
  show ?thesis
  proof (cases "r0 \<or> r1")
    case True
    then have "mergeKnown s0 s1 ds0 ds1 c = (Inr (if r0 then s0 else s1), ?c)"
      using scan l by (simp add: mergeKnown_def op_simps addMergedShapes_def)
    moreover have "view c (if r0 then s0 else s1) = meetView (view c s0) (view c s1)"
      using M left right d True by (cases r0) (simp_all add: view_def)
    ultimately show ?thesis using vc by simp
  next
    case False
    have compat': "list_all (compatible (all_dims ?c)) ?ps" using compat by simp
    obtain ds c1 where m: "mapOp (\<lambda>(d0, d1). checkOk (MergeDim d0 d1)) ?ps ?c = (Inr ds, c1)"
      using mapOp_MergeDim_compatible[OF compat'] by blast
    let ?c2 = "c1\<lparr>all_shapes := all_shapes c1 @ [Some ds]\<rparr>" and ?out = "Some (length (all_shapes c1))"
    let ?c3 = "?c2\<lparr>merged_shapes := merged_shapes ?c2 @ [(s0, ?out)]\<rparr>"
    have "mergeKnown s0 s1 ds0 ds1 c = (Inr ?out, ?c3)"
      using scan l False m by (simp add: mergeKnown_def op_simps addMergedShapes_def andThen_def)
    moreover have "view ?c3 ?out = Some (map (DValue c) ds)"
      using mapOp_MergeDim_values[OF compat' m] by (simp add: view_def shape_of_def Value_def)
    moreover have "map (DValue c) ds = map (\<lambda>(d0, d1). meetVal (DValue c d0) (DValue c d1)) ?ps"
      using mapOp_MergeDim_values[OF compat' m] by (simp add: Value_def)
    ultimately show ?thesis using M by auto
  qed
qed

lemma MergeShape_view:
  assumes a: "agreeView (view c s0) (view c s1)"
  shows "\<exists>s c'. MergeShape s0 s1 c = (Inr s, c') \<and> view c' s = meetView (view c s0) (view c s1)"
proof -
  let ?c = "c\<lparr>merged_shapes := merged_shapes c @ [(s0, s1)]\<rparr>"
  have vc: "view ?c s = view c s" for s by (rule view_cong) simp_all
  have idem: "meetView V V = V" for V by (cases V) (auto simp: meetVal_def list_eq_iff_nth_eq)
  have n: "meetView A None = A" for A by (cases A) auto
  consider (same) "s0 = s1" | (new) "s0 \<noteq> s1" "shape_of c s1 = None"
    | (old) "s0 \<noteq> s1" "shape_of c s1 \<noteq> None" "shape_of c s0 = None"
    | (both) ds0 ds1 where "s0 \<noteq> s1" "shape_of c s0 = Some ds0" "shape_of c s1 = Some ds1" by blast
  then show ?thesis
  proof cases
    case same
    then show ?thesis using idem by (simp add: MergeShape_def SameHandle_def op_simps)
  next
    case new
    then have "MergeShape s0 s1 c = (Inr s0, ?c)"
      by (simp add: MergeShape_def SameHandle_def op_simps RankKnown_iff addMergedShapes_def)
    then show ?thesis using new vc n by (auto simp: view_def)
  next
    case old
    then have "MergeShape s0 s1 c = (Inr s1, ?c)"
      by (auto simp: MergeShape_def SameHandle_def op_simps RankKnown_iff addMergedShapes_def)
    then show ?thesis using old vc by (auto simp: view_def)
  next
    case both
    then have "MergeShape s0 s1 c = mergeKnown s0 s1 ds0 ds1 c"
      by (simp add: MergeShape_def SameHandle_def op_simps RankKnown_iff dimsOf_def)
    then show ?thesis using mergeKnown_view[OF both(2,3) a] by simp
  qed
qed

section \<open>Merging shapes\<close>

text \<open>
  C1: Merging two shapes is the meet of what is known about them. It succeeds exactly when what is known does not
  conflict: the ranks agree where both are known, and no dimension has two different known sizes. Then the result knows what
  either of them knows, every model of the new context is a model of the old one in which both shapes have the sizes
  of the result, and every run in which the two shapes agree is still described. Otherwise the error is
  InvalidArgument, nothing changes and no run makes the shapes equal. A conflict that needs more than one
  dimension, as in a merge of \<open>[?x, ?x]\<close> with \<open>[2, 3]\<close>, is not detected: it is recorded and the context has no model left.
\<close>

theorem MergeShape_is_meet:
  assumes "wf_ctx c" "a < length (all_shapes c)" "b < length (all_shapes c)"
  shows "case MergeShape (Some a) (Some b) c of
      (Inr s, c') \<Rightarrow>
         agreeView (view c (Some a)) (view c (Some b)) \<and> view c' s = meetView (view c (Some a)) (view c (Some b)) \<and>
        (\<forall>v w. models c' v w \<longrightarrow> models c v w \<and> w a = w b \<and> denotes v w s (w a)) \<and>
        (\<forall>v w. models c v w \<and> w a = w b \<longrightarrow>
          (\<exists>v' w'. step (World c v w) (World c' v' w') \<and> denotes v' w' s (w a)))
    | (Inl e, c') \<Rightarrow>
        \<not> agreeView (view c (Some a)) (view c (Some b)) \<and> e = Status InvalidArgument \<and> c' = c \<and> (\<forall>v w. models c v w \<longrightarrow> w a \<noteq> w b)"
proof -
  have sound: "wp (MergeShape (Some a) (Some b)) (\<lambda>s W'. has_shape W' s (w a)) (World c v w)"
    if "models c v w" "w a = w b" for v w
    by (rule wp_conseq[OF MergeShape_wp[of _ _ "w a"]])
      (use that assms in \<open>auto simp: good_def has_shape_def\<close>)
  show ?thesis
  proof (cases "MergeShape (Some a) (Some b) c")
    case (Pair r c')
    show ?thesis
    proof (cases r)
      case (Inl e)
      have "\<not> wp (MergeShape (Some a) (Some b)) Q (World c v w)" for Q v w
        using Pair Inl by (simp add: wp_def)
      moreover have "\<not> agreeView (view c (Some a)) (view c (Some b))"
        using MergeShape_view[of c "Some a" "Some b"] Pair Inl by auto
      ultimately show ?thesis using Pair Inl MergeShape_status[of "Some a" "Some b" c] sound by auto
    next
      case (Inr s)
      have "\<exists>v' w'. step (World c v w) (World c' v' w') \<and> denotes v' w' s (w a)"
        if vw: "models c v w" "w a = w b" for v w
      proof -
        obtain W' where W': "ctx_of W' = c'" "step (World c v w) W'" "has_shape W' s (w a)"
          using sound[OF vw] Pair Inr by (auto simp: wp_def)
        then show ?thesis
          by (cases W') (auto simp: denotes_def has_shape_def split: option.splits)
      qed
      moreover have "agreeView (view c (Some a)) (view c (Some b))"
        using view_status[of "Some a" "Some b" c r c'] Pair Inr by auto
      moreover from this have "view c' s = meetView (view c (Some a)) (view c (Some b))"
        using MergeShape_view[of c "Some a" "Some b"] Pair Inr by auto
      ultimately show ?thesis using Pair Inr MergeShape_enforces[of a b c s c'] by auto
    qed
  qed
qed

text \<open>Merging \<open>[2,?]\<close> with \<open>[?,?]\<close>.\<close>

lemma MergeShape_is_meet_witness:
  "\<exists>s c'. MergeShape (Some 0) (Some 1) (sample_ctx [2, - 1, - 1, - 1] [Some [0, 1], Some [2, 3]] [] [] 0 []) = (Inr s, c') \<and>
     (\<forall>v w. models c' v w \<longrightarrow> w 0 = w 1 \<and> denotes v w s (w 0))"
proof -
  let ?c = "sample_ctx [2, - 1, - 1, - 1] [Some [0, 1], Some [2, 3]] [] [] 0 []"
  have run: "\<exists>c'. MergeShape (Some 0) (Some 1) ?c = (Inr (Some 0), c')"
    by (simp add: sample_ctx_def MergeShape_def SameHandle_def op_simps RankKnown_def Rank_def
        shape_of_def dimsOf_def mergeKnown_def Value_def addMergedShapes_def)
  have "wf_ctx ?c" "0 < length (all_shapes ?c)" "1 < length (all_shapes ?c)"
    by (simp_all add: sample_ctx_def wf_ctx_def valid_dim_def valid_handles_def)
  from MergeShape_is_meet[OF this] run show ?thesis by auto
qed

section \<open>Property\<close>

text \<open>
  \<open>MergeInput\<close> returns true exactly when some list of sizes fits both the stored and
  the new shape. Then the stored shape describes exactly the lists that fit both; if not, the
  context is as before.
\<close>

theorem MergeInput_is_meet:
  assumes w: "wf_ctx c" and i: "0 \<le> idx" "idx < num_inputs c" and v: "valid_shape c s"
  defines "old \<equiv> view c (inputs c ! nat idx)"
  shows "\<exists>b c'. MergeInput idx s c = (Inr b, c') \<and> wf_ctx c' \<and>
    (b \<longleftrightarrow> (\<exists>xs. covers old xs \<and> covers (view c s) xs)) \<and>
    (if b then \<exists>merged. inputs c' = (inputs c)[nat idx := merged] \<and>
                 (\<forall>xs. covers (view c' merged) xs \<longleftrightarrow> covers old xs \<and> covers (view c s) xs)
     else c' = c)"
proof -
  let ?old = "inputs c ! nat idx"
  have n: "nat idx < length (inputs c)" using i by (simp add: num_inputs_def)
  have vo: "valid_shape c ?old" using w n by (auto simp: wf_ctx_def list_all_length)
  have inp: "input idx c = (Inr ?old, c)" using i n by (simp add: input_def vecAt_def)
  show ?thesis
  proof (cases "agreeView old (view c s)")
    case False
    obtain r c1 where r: "MergeShape ?old s c = (r, c1)" by (cases "MergeShape ?old s c")
    then have "MergeInput idx s c = (Inr False, c)"
      using view_status[OF r] False by (simp add: MergeInput_def op_simps inp old_def)
    then show ?thesis using False agreeView_iff w by auto
  next
    case True
    obtain m c1 where m: "MergeShape ?old s c = (Inr m, c1)" "view c1 m = meetView old (view c s)"
      using MergeShape_view[of c ?old s] True by (auto simp: old_def)
    have 1: "wf_ctx c1" "adds c c1" "valid_shape c1 m" using MergeShape_valid[OF w vo v] m(1) by (auto simp: safe_def)
    let ?c = "c1\<lparr>inputs := (inputs c1)[nat idx := m]\<rparr>"
    have ins: "inputs c1 = inputs c" using 1(2) by (simp add: adds_def extends_def same_statics_def)
    have run: "MergeInput idx s c = (Inr True, ?c)"
      using inp m(1) i n ins by (simp add: MergeInput_def op_simps SetInput_def num_inputs_def)
    have e: "valid_dim ?c = valid_dim c1" "valid_shape ?c = valid_shape c1"
      by (auto simp: valid_dim_def valid_shape_def fun_eq_iff split: option.splits)
    have "list_all (valid_shape c1) ((inputs c1)[nat idx := m])"
      using 1 set_update_subset_insert[of "inputs c1" "nat idx" m] by (auto simp: wf_ctx_def list_all_iff)
    then have "wf_ctx ?c" using 1(1) unfolding wf_ctx_def valid_handles_def e by simp
    moreover have "view ?c m = view c1 m" by (rule view_cong) simp_all
    ultimately show ?thesis
      using run True agreeView_iff[of old "view c s"] covers_meet[OF True] m(2) ins
      by (intro exI[of _ True] exI[of _ ?c]) auto
  qed
qed

text \<open>An input \<open>[2,?]\<close> merged with \<open>[?,3]\<close>, and one that cannot be.\<close>

lemma MergeInput_is_meet_witness:
  "(\<exists>c'. MergeInput 0 (Some 1) ((sample_ctx [2, - 1, - 1, 3] [Some [0, 1], Some [2, 3]] [Some 0] [] 0 [])) = (Inr True, c') \<and>
     covers (view c' (inputs c' ! 0)) [2, 3])"
proof -
  let ?c = "sample_ctx [2, - 1, - 1, 3] [Some [0, 1], Some [2, 3]] [Some 0] [] 0 []"
  have c: "wf_ctx ?c" "0 < num_inputs ?c" "valid_shape ?c (Some 1)"
    and v: "view ?c (Some 0) = Some [2, - 1]" "view ?c (Some 1) = Some [- 1, 3]"
    and ins: "inputs ?c = [Some 0]" "inputs ?c ! nat 0 = Some 0"
    by (simp_all add: sample_ctx_def wf_ctx_def valid_handles_def valid_dim_def valid_shape_def view_def
        shape_of_def Value_def num_inputs_def)
  have fit: "covers (Some [2, - 1]) [2, 3] \<and> covers (Some [- 1, 3]) [2, 3]" by simp
  obtain b c' where r: "MergeInput 0 (Some 1) ?c = (Inr b, c')"
      "b \<longleftrightarrow> (\<exists>xs. covers (Some [2, - 1]) xs \<and> covers (Some [- 1, 3]) xs)"
      "if b then \<exists>merged. inputs c' = (inputs ?c)[nat 0 := merged] \<and>
         (\<forall>xs. covers (view c' merged) xs \<longleftrightarrow> covers (Some [2, - 1]) xs \<and> covers (Some [- 1, 3]) xs)
       else c' = ?c"
    using MergeInput_is_meet[OF c(1) order_refl c(2,3), unfolded ins(2) v] by blast
  have b: b using r(2) fit by blast
  then obtain merged where "inputs c' = (inputs ?c)[nat 0 := merged]" "covers (view c' merged) [2, 3]"
    using r(3) fit by auto
  then show ?thesis using r(1) b ins(1) by auto
qed

end
