(* ===== verification/EinsumFns.thy ===== *)
theory EinsumFns
  imports BasicFns "HOL-Library.Sublist"
begin

text \<open>
  Einsum: the equation (\<open>util/einsum_op_util.cc\<close>) and the shape function
  (\<open>EinsumShape\<close> in \<open>framework/common_shape_fns.cc\<close>). \<open>absl::StrSplit\<close> is an argument:
  \<open>split d s\<close> are the parts of \<open>s\<close> between the occurrences of \<open>d\<close>. The labels of an equation
  are few enough for their number to be an \<open>int\<close>.
\<close>

section \<open>Equations\<close>

type_synonym splitter = "string \<Rightarrow> string \<Rightarrow> string list"

definition ValidateEinsumEquation :: "splitter \<Rightarrow> string \<Rightarrow> (string list \<times> string) res" where
  "ValidateEinsumEquation split equation =
    (let inputs_and_output_subscripts = split ''->'' equation in
     if length inputs_and_output_subscripts \<noteq> 2 then Inl (Status InvalidArgument)
     else
       let output_subscript = inputs_and_output_subscripts ! 1;
           input_subscripts = split '','' (inputs_and_output_subscripts ! 0)
       in if length input_subscripts \<noteq> 1 \<and> length input_subscripts \<noteq> 2 then Inl (Status InvalidArgument)
          else Inr (input_subscripts, output_subscript))"

datatype einsum_dimension_type = kBroadcasting | kBatch | kFree | kContract | kReduce

definition GetDimensionType :: "bool \<Rightarrow> bool \<Rightarrow> einsum_dimension_type" where
  "GetDimensionType is_removed is_unique =
    (if \<not> is_removed \<and> \<not> is_unique then kBatch
     else if \<not> is_removed \<and> is_unique then kFree
     else if is_removed \<and> \<not> is_unique then kContract
     else kReduce)"

abbreviation kEllipsisLabel :: int where "kEllipsisLabel \<equiv> - 1"

text \<open>The map from characters to labels is a list of the characters in the order of their
  labels: the next label is the size of the map.\<close>

definition labelOf :: "string \<Rightarrow> char \<Rightarrow> int" where
  "labelOf m ch = int (length (takeWhile (\<lambda>x. x \<noteq> ch) m))"

fun MapToLabels :: "string \<Rightarrow> int list \<Rightarrow> string \<Rightarrow> int list \<times> string" where
  "MapToLabels [] labels m = (labels, m)"
| "MapToLabels (ch # s) labels m =
    (if ch = CHR ''.'' then MapToLabels (drop 2 s) (labels @ [kEllipsisLabel]) m
     else
       let m' = (if ch \<in> set m then m else m @ [ch])
       in MapToLabels s (labels @ [labelOf m' ch]) m')"

record einsum_equation =
  input_labels :: "int list list"
  output_labels :: "int list"
  label_types :: "einsum_dimension_type list"
  input_label_counts :: "int list list"
  output_label_counts :: "int list"
  input_has_ellipsis :: "bool list"
  output_has_ellipsis :: bool

text \<open>The occurrences of each label, and whether there is an ellipsis.\<close>

definition countLabels :: "nat \<Rightarrow> int list \<Rightarrow> int list" where
  "countLabels num_labels labels =
     fold (\<lambda>l counts. if l \<noteq> kEllipsisLabel then counts[nat l := counts ! nat l + 1] else counts)
       labels (replicate num_labels 0)"

definition labelType :: "int list list \<Rightarrow> int list \<Rightarrow> nat \<Rightarrow> einsum_dimension_type" where
  "labelType ins out l =
     GetDimensionType (out ! l = 0) (length ins = 1 \<or> ins ! 0 ! l = 0 \<or> ins ! 1 ! l = 0)"

definition ParseEinsumEquation :: "splitter \<Rightarrow> string \<Rightarrow> einsum_equation res" where
  "ParseEinsumEquation split equation =
     bindR (ValidateEinsumEquation split equation) (\<lambda>(input_str, output_str).
     let (ins, m) = fold (\<lambda>s (ls, m). case MapToLabels s [] m of (l, m') \<Rightarrow> (ls @ [l], m')) input_str ([], []);
         (out, m') = MapToLabels output_str [] m;
         num_labels = length m';
         ins_counts = map (countLabels num_labels) ins;
         out_counts = countLabels num_labels out
     in Inr \<lparr>input_labels = ins, output_labels = out,
              label_types = map (labelType ins_counts out_counts) [0..<num_labels],
              input_label_counts = ins_counts, output_label_counts = out_counts,
              input_has_ellipsis = map (\<lambda>ls. kEllipsisLabel \<in> set ls) ins,
              output_has_ellipsis = (kEllipsisLabel \<in> set out)\<rparr>)"

section \<open>The shape function\<close>

definition ValidateEinsumEllipsis :: "string \<Rightarrow> bool res" where
  "ValidateEinsumEllipsis subscript =
    (let num_periods = length (filter (\<lambda>ch. ch = CHR ''.'') subscript) in
     if num_periods \<noteq> 0 \<and> num_periods \<noteq> 3 then Inl (Status InvalidArgument)
     else if num_periods = 3 \<and> \<not> sublist ''...'' subscript then Inl (Status InvalidArgument)
     else Inr (num_periods > 0))"

text \<open>One pass over the labels of an input: the shape under the ellipsis and the dimension of
  each label. \<open>n\<close> is the number of characters of the subscript and \<open>idx\<close> the index of the next.\<close>

fun einsumLabels ::
    "shape \<Rightarrow> nat \<Rightarrow> string \<Rightarrow> nat \<Rightarrow> bool \<Rightarrow> shape \<Rightarrow> (char \<Rightarrow> dim option) \<Rightarrow> (shape \<times> (char \<Rightarrow> dim option)) cop" where
  "einsumLabels s n [] idx seen_ellipsis bcast m = ret (bcast, m)"
| "einsumLabels s n (label # ls) idx seen_ellipsis bcast m =
     andThen (gets (\<lambda>c. (RankKnown c s, Rank c s))) (\<lambda>(known, rank).
     let axis_before = int idx;
         axis_after = (if known then to_int64 (int idx + rank - int n) else - 1)
     in if label = CHR ''.'' then
          andThen (if \<not> known then UnknownShape else SubshapeRange s axis_before (axis_after + 3)) (\<lambda>b.
          einsumLabels s n (drop 2 ls) (idx + 3) True b m)
        else
          andThen (if known then Dim s (if seen_ellipsis then axis_after else axis_before) else UnknownDim) (\<lambda>new_dim.
          case m label of
            Some d \<Rightarrow> andThen (MergeDim d new_dim) (\<lambda>merged.
              einsumLabels s n ls (idx + 1) seen_ellipsis bcast (m(label \<mapsto> merged)))
          | None \<Rightarrow> einsumLabels s n ls (idx + 1) seen_ellipsis bcast (m(label \<mapsto> new_dim))))"

definition einsumInput ::
    "nat \<times> string \<Rightarrow> shape list \<times> (char \<Rightarrow> dim option) \<Rightarrow> (shape list \<times> (char \<Rightarrow> dim option)) cop" where
  "einsumInput = (\<lambda>(i, labels) (bcasts, m).
     andThen (liftR (ValidateEinsumEllipsis labels)) (\<lambda>has_ellipsis.
     andThen (input (int i)) (\<lambda>input_shape.
     andThen (gets (\<lambda>c. RankKnown c input_shape)) (\<lambda>known.
     andThen
       (if \<not> known then ret input_shape
        else if has_ellipsis then WithRankAtLeast input_shape (int (length labels) - 3)
        else WithRank input_shape (int (length labels))) (\<lambda>s.
     andThen Scalar (\<lambda>scalar.
     andThen (einsumLabels s (length labels) labels 0 False scalar m) (\<lambda>(b, m').
     ret (bcasts @ [b], m'))))))))"

fun einsumOutput :: "shape \<Rightarrow> (char \<Rightarrow> dim option) \<Rightarrow> string \<Rightarrow> dim list \<Rightarrow> dim list cop" where
  "einsumOutput bcast m [] dims = ret dims"
| "einsumOutput bcast m (label # ls) dims =
    (if label = CHR ''.'' then
       andThen (gets (\<lambda>c. Rank c bcast)) (\<lambda>rank.
       andThen (mapOp (\<lambda>k. Dim bcast (int k)) [0..<nat rank]) (\<lambda>ds.
       einsumOutput bcast m (drop 2 ls) (dims @ ds)))
     else
       case m label of
         None \<Rightarrow> failWith InvalidArgument
       | Some d \<Rightarrow> einsumOutput bcast m ls (dims @ [d]))"

definition EinsumShape :: "splitter \<Rightarrow> unit cop" where
  "EinsumShape split =
     andThen (GetAttr GetAttrString ''equation'') (\<lambda>equation.
     andThen (liftR (ValidateEinsumEquation split equation)) (\<lambda>(input_labels, output_labels).
     andThen (gets num_inputs) (\<lambda>n.
     andThen (failUnless (\<not> (n = 0 \<or> n > 2)) InvalidArgument) (\<lambda>_.
     andThen (failUnless (n = int (length input_labels)) InvalidArgument) (\<lambda>_.
     andThen (foldOp einsumInput (enumerate 0 input_labels) ([], \<lambda>_. None)) (\<lambda>(bcasts, m).
     andThen
       (case bcasts of
          [b] \<Rightarrow> ret b
        | [b0, b1] \<Rightarrow> BroadcastBinaryOpOutputShapeFnHelper b0 b1 True
        | _ \<Rightarrow> ret None) (\<lambda>bcast.
     andThen (liftR (ValidateEinsumEllipsis output_labels)) (\<lambda>output_has_ellipsis.
     andThen (gets (\<lambda>c. RankKnown c bcast)) (\<lambda>known.
     if output_has_ellipsis \<and> \<not> known then andThen UnknownShape (set_output 0)
     else
       andThen (if output_has_ellipsis then ret bcast
                else andThen (WithRankAtMost bcast 0) (\<lambda>_. Scalar)) (\<lambda>bcast'.
       andThen (einsumOutput bcast' m output_labels []) (\<lambda>dims.
       andThen (MakeShape dims) (set_output 0))))))))))))"

end
