(* ===== verification/EinsumSound.thy ===== *)
theory EinsumSound
  imports EinsumFns
begin

text \<open>
  What parsing an einsum equation produces: labels that decode to the subscripts they come
  from, and for each label the role its character plays in the equation.
\<close>

section \<open>Labels\<close>

text \<open>Periods only occur in groups of three.\<close>

fun ellipses_whole :: "string \<Rightarrow> bool" where
  "ellipses_whole [] = True"
| "ellipses_whole (ch # s) =
     (if ch = CHR ''.'' then take 2 s = ''..'' \<and> ellipses_whole (drop 2 s) else ellipses_whole s)"

definition decodeLabels :: "string \<Rightarrow> int list \<Rightarrow> string" where
  "decodeLabels m ls = concat (map (\<lambda>l. if l = kEllipsisLabel then ''...'' else [m ! nat l]) ls)"

definition labels_in :: "string \<Rightarrow> int list \<Rightarrow> bool" where
  "labels_in m ls \<longleftrightarrow> (\<forall>l \<in> set ls. l = kEllipsisLabel \<or> (0 \<le> l \<and> l < int (length m)))"

lemma labelOf_nth:
  assumes "ch \<in> set m"
  shows "0 \<le> labelOf m ch \<and> labelOf m ch < int (length m) \<and> m ! nat (labelOf m ch) = ch"
proof -
  have "length (takeWhile (\<lambda>x. x \<noteq> ch) m) < length m \<and> m ! length (takeWhile (\<lambda>x. x \<noteq> ch) m) = ch"
    using assms by (induction m) auto
  then show ?thesis by (simp add: labelOf_def)
qed

lemma decodeLabels_prefix:
  assumes "prefix m m'" "labels_in m ls"
  shows "decodeLabels m' ls = decodeLabels m ls" "labels_in m' ls"
proof -
  obtain k where m': "m' = m @ k" using assms(1) by (auto simp: prefix_def)
  show "labels_in m' ls" using assms(2) m' by (auto simp: labels_in_def)
  have "map (\<lambda>l. if l = - 1 then ''...'' else [m' ! nat l]) ls = map (\<lambda>l. if l = - 1 then ''...'' else [m ! nat l]) ls"
    using assms(2) m' by (auto simp: labels_in_def nth_append)
  then show "decodeLabels m' ls = decodeLabels m ls" by (simp only: decodeLabels_def)
qed

lemma MapToLabels_decode:
  "ellipses_whole s \<Longrightarrow> distinct m \<Longrightarrow> CHR ''.'' \<notin> set m \<Longrightarrow> MapToLabels s acc m = (ls, m') \<Longrightarrow>
   \<exists>new. ls = acc @ new \<and> decodeLabels m' new = s \<and> labels_in m' new \<and> distinct m' \<and> CHR ''.'' \<notin> set m' \<and> prefix m m'"
proof (induction s acc m arbitrary: ls m' rule: MapToLabels.induct)
  case (1 labels m)
  then show ?case by (simp add: decodeLabels_def labels_in_def)
next
  case (2 ch s labels m)
  show ?case
  proof (cases "ch = CHR ''.''")
    case True
    have s: "s = ''..'' @ drop 2 s" using 2(3) True append_take_drop_id[of 2 s] by (metis ellipses_whole.simps(2))
    obtain new where n: "ls = (labels @ [- 1]) @ new" "decodeLabels m' new = drop 2 s" "labels_in m' new"
        "distinct m'" "CHR ''.'' \<notin> set m'" "prefix m m'"
      using 2(1)[OF True _ 2(4,5), of ls m'] 2(3,6) True by auto
    have "decodeLabels m' (- 1 # new) = ch # s" using n(2) s True by (simp add: decodeLabels_def)
    then show ?thesis using n by (intro exI[of _ "- 1 # new"]) (auto simp: labels_in_def)
  next
    case False
    let ?m = "if ch \<in> set m then m else m @ [ch]"
    have m: "distinct ?m" "CHR ''.'' \<notin> set ?m" "ch \<in> set ?m" "prefix m ?m" using 2(4,5) False by auto
    obtain new where n: "ls = (labels @ [labelOf ?m ch]) @ new" "decodeLabels m' new = s" "labels_in m' new"
        "distinct m'" "CHR ''.'' \<notin> set m'" "prefix ?m m'"
      using 2(2)[OF False refl _ m(1,2), of ls m'] 2(3,6) False by (auto simp: Let_def)
    have l: "labels_in ?m [labelOf ?m ch]" "decodeLabels ?m [labelOf ?m ch] = [ch]"
      using labelOf_nth[OF m(3)] by (auto simp: labels_in_def decodeLabels_def)
    have "decodeLabels m' [labelOf ?m ch] = [ch]" "labels_in m' [labelOf ?m ch]"
      using decodeLabels_prefix[OF n(6) l(1)] l(2) by simp_all
    then have "decodeLabels m' (labelOf ?m ch # new) = ch # s" "labels_in m' (labelOf ?m ch # new)"
      using n(2,3) by (simp_all add: decodeLabels_def labels_in_def)
    then show ?thesis
      using n prefix_order.trans[OF m(4) n(6)] by (intro exI[of _ "labelOf ?m ch # new"]) simp
  qed
qed

lemma MapToLabels_fold:
  assumes "\<forall>s \<in> set ss. ellipses_whole s" "distinct m" "CHR ''.'' \<notin> set m"
  shows "\<exists>ls m'. fold (\<lambda>s (ls, m). case MapToLabels s [] m of (l, m') \<Rightarrow> (ls @ [l], m')) ss (acc, m) = (acc @ ls, m') \<and>
    map (decodeLabels m') ls = ss \<and> list_all (labels_in m') ls \<and> distinct m' \<and> CHR ''.'' \<notin> set m' \<and> prefix m m'"
  using assms
proof (induction ss arbitrary: m acc)
  case (Cons s ss)
  obtain l m1 where l: "MapToLabels s [] m = (l, m1)" by (cases "MapToLabels s [] m")
  have 1: "decodeLabels m1 l = s" "labels_in m1 l" "distinct m1" "CHR ''.'' \<notin> set m1" "prefix m m1"
    using MapToLabels_decode[OF _ Cons.prems(2,3) l] Cons.prems(1) by auto
  obtain ls m' where ih: "fold (\<lambda>s (ls, m). case MapToLabels s [] m of (l, m') \<Rightarrow> (ls @ [l], m')) ss (acc @ [l], m1) =
      ((acc @ [l]) @ ls, m')" "map (decodeLabels m') ls = ss" "list_all (labels_in m') ls" "distinct m'"
      "CHR ''.'' \<notin> set m'" "prefix m1 m'"
    using Cons.IH[OF _ 1(3,4), of "acc @ [l]"] Cons.prems(1) by auto
  have "map (decodeLabels m') (l # ls) = s # ss" "list_all (labels_in m') (l # ls)"
    using ih decodeLabels_prefix[OF ih(6) 1(2)] 1(1) by simp_all
  then show ?case
    using ih l prefix_order.trans[OF 1(5) ih(6)] by (intro exI[of _ "l # ls"] exI[of _ m']) simp
qed auto

section \<open>Counts\<close>

lemma countLabels_fold:
  assumes "labels_in m ls" "length cs = length m" "i < length m"
  shows "length (fold (\<lambda>l counts. if l \<noteq> kEllipsisLabel then counts[nat l := counts ! nat l + 1] else counts) ls cs) = length m \<and>
    fold (\<lambda>l counts. if l \<noteq> kEllipsisLabel then counts[nat l := counts ! nat l + (1::int)] else counts) ls cs ! i =
      cs ! i + int (length (filter (\<lambda>l. l = int i) ls))"
  using assms(1,2)
proof (induction ls arbitrary: cs)
  case (Cons l ls)
  have l: "l = - 1 \<or> 0 \<le> l \<and> l < int (length m)" using Cons.prems by (simp add: labels_in_def)
  let ?cs = "if l \<noteq> - 1 then cs[nat l := cs ! nat l + 1] else cs"
  have "length ?cs = length m" "?cs ! i = cs ! i + (if l = int i then 1 else 0)"
    using l Cons.prems(2) assms(3) by (auto simp: nth_list_update)
  moreover have "labels_in m ls" using Cons.prems(1) by (simp add: labels_in_def)
  ultimately show ?case using Cons.IH[of ?cs] by simp
qed simp

lemma countLabels_zero:
  assumes "labels_in m ls" "i < length m"
  shows "countLabels (length m) ls ! i = 0 \<longleftrightarrow> int i \<notin> set ls"
  using countLabels_fold[OF assms(1) _ assms(2), of "replicate (length m) 0"] assms(2)
  by (auto simp: countLabels_def filter_empty_conv)

lemma label_char:
  assumes "labels_in m ls" "distinct m" "CHR ''.'' \<notin> set m" "i < length m"
  shows "int i \<in> set ls \<longleftrightarrow> m ! i \<in> set (decodeLabels m ls)"
proof
  assume "int i \<in> set ls"
  then show "m ! i \<in> set (decodeLabels m ls)" by (force simp: decodeLabels_def)
next
  assume "m ! i \<in> set (decodeLabels m ls)"
  then obtain l where l: "l \<in> set ls" "m ! i \<in> set (if l = - 1 then ''...'' else [m ! nat l])"
    unfolding decodeLabels_def set_concat set_map by blast
  have "m ! i \<noteq> CHR ''.''" using assms(3,4) nth_mem by metis
  then have "l \<noteq> - 1" "m ! i = m ! nat l" using l(2) by (auto split: if_splits)
  moreover have "0 \<le> l" "nat l < length m" using assms(1) l(1) calculation(1) by (auto simp: labels_in_def)
  ultimately show "int i \<in> set ls" using l(1) assms(2,4) nth_eq_iff_index_eq by fastforce
qed

section \<open>Properties\<close>

lemma Parse_run:
  assumes "split ''->'' equation = [lhs, out]" "split '','' lhs = ins" "length ins = 1 \<or> length ins = 2"
    and "\<forall>s \<in> set (out # ins). ellipses_whole s"
  obtains ls l m where
    "ParseEinsumEquation split equation = Inr \<lparr>input_labels = ls, output_labels = l,
       label_types = map (labelType (map (countLabels (length m)) ls) (countLabels (length m) l)) [0..<length m],
       input_label_counts = map (countLabels (length m)) ls, output_label_counts = countLabels (length m) l,
       input_has_ellipsis = map (\<lambda>ls. kEllipsisLabel \<in> set ls) ls,
       output_has_ellipsis = (kEllipsisLabel \<in> set l)\<rparr>"
    "map (decodeLabels m) ls = ins" "decodeLabels m l = out" "list_all (labels_in m) (l # ls)"
    "distinct m" "CHR ''.'' \<notin> set m"
proof -
  obtain ls m1 where f: "fold (\<lambda>s (ls, m). case MapToLabels s [] m of (l, m') \<Rightarrow> (ls @ [l], m')) ins ([], []) = (ls, m1)"
      "map (decodeLabels m1) ls = ins" "list_all (labels_in m1) ls" "distinct m1" "CHR ''.'' \<notin> set m1"
    using MapToLabels_fold[of ins "[]" "[]"] assms(4) by auto
  obtain l m where l: "MapToLabels out [] m1 = (l, m)" by (cases "MapToLabels out [] m1")
  have o: "decodeLabels m l = out" "labels_in m l" "distinct m" "CHR ''.'' \<notin> set m" "prefix m1 m"
    using MapToLabels_decode[OF _ f(4,5) l] assms(4) by auto
  have "map (decodeLabels m) ls = ins" "list_all (labels_in m) ls"
    using f(2,3) decodeLabels_prefix[OF o(5)] by (auto simp: list_all_iff)
  moreover have "ValidateEinsumEquation split equation = Inr (ins, out)"
    using assms(1-3) by (auto simp: ValidateEinsumEquation_def Let_def)
  ultimately show ?thesis using that[of ls l m] f(1) l o by (simp add: ParseEinsumEquation_def Let_def)
qed

text \<open>
  C18: Parsing loses nothing. An equation with one arrow and one or two input subscripts whose
  periods come in groups of three is accepted, the characters get different labels, and reading
  the labels of every subscript back gives the subscript.
\<close>

theorem ParseEinsumEquation_roundtrip:
  assumes "split ''->'' equation = [lhs, out]" and "split '','' lhs = ins" and "length ins = 1 \<or> length ins = 2"
    and "\<forall>s \<in> set (out # ins). ellipses_whole s"
  shows "\<exists>e m. ParseEinsumEquation split equation = Inr e \<and> distinct m \<and> CHR ''.'' \<notin> set m \<and>
    map (decodeLabels m) (input_labels e) = ins \<and> decodeLabels m (output_labels e) = out \<and>
    list_all (labels_in m) (output_labels e # input_labels e)"
  using Parse_run[OF assms] by (metis einsum_equation.select_convs(1,2))

text \<open>A splitter for one equation.\<close>

definition sample_split :: splitter where
  "sample_split d s =
    (if d = ''->'' then [''...ij,...jk'', ''...ik''] else [''...ij'', ''...jk''])"

lemma ParseEinsumEquation_roundtrip_witness:
  "\<exists>e m. ParseEinsumEquation sample_split ''...ij,...jk->...ik'' = Inr e \<and> distinct m \<and>
     map (decodeLabels m) (input_labels e) = [''...ij'', ''...jk''] \<and> decodeLabels m (output_labels e) = ''...ik''"
  using ParseEinsumEquation_roundtrip[of sample_split "''...ij,...jk->...ik''" "''...ij,...jk''" "''...ik''"
      "[''...ij'', ''...jk'']"]
  by (auto simp: sample_split_def)

text \<open>
  The roles of the labels. A label is a batch label when its character occurs in the output
  and in two inputs, a free label when it occurs in the output and at most one input, a contracted
  label when it occurs in two inputs only, and a reduced label otherwise; in an equation with one
  input there are only free and reduced labels.
\<close>

theorem ParseEinsumEquation_types:
  assumes "split ''->'' equation = [lhs, out]" and "split '','' lhs = ins" and "length ins = 1 \<or> length ins = 2"
    and "\<forall>s \<in> set (out # ins). ellipses_whole s"
  shows "\<exists>e m. ParseEinsumEquation split equation = Inr e \<and> distinct m \<and>
    map (decodeLabels m) (input_labels e) = ins \<and> length (label_types e) = length m \<and>
    (\<forall>i < length m.
       let in_output = m ! i \<in> set out; shared = length ins = 2 \<and> m ! i \<in> set (ins ! 0) \<and> m ! i \<in> set (ins ! 1)
       in label_types e ! i =
         (if in_output then (if shared then kBatch else kFree) else (if shared then kContract else kReduce)))"
proof (rule Parse_run[OF assms])
  fix ls :: "int list list" and l :: "int list" and m :: string
  let ?e = "\<lparr>input_labels = ls, output_labels = l,
       label_types = map (labelType (map (countLabels (length m)) ls) (countLabels (length m) l)) [0..<length m],
       input_label_counts = map (countLabels (length m)) ls, output_label_counts = countLabels (length m) l,
       input_has_ellipsis = map (\<lambda>ls. kEllipsisLabel \<in> set ls) ls,
       output_has_ellipsis = (kEllipsisLabel \<in> set l)\<rparr>"
  assume p: "ParseEinsumEquation split equation = Inr ?e" "map (decodeLabels m) ls = ins" "decodeLabels m l = out"
    "list_all (labels_in m) (l # ls)" "distinct m" "CHR ''.'' \<notin> set m"
  have n: "length ls = length ins" using arg_cong[OF p(2), of length] by simp
  have z: "countLabels (length m) xs ! i = 0 \<longleftrightarrow> m ! i \<notin> set (decodeLabels m xs)"
    if "xs \<in> set (l # ls)" "i < length m" for xs i
    using countLabels_zero[of m xs i] label_char[OF _ p(5,6) that(2), of xs] that p(4) by (auto simp: list_all_iff)
  have zi: "map (countLabels (length m)) ls ! k ! i = 0 \<longleftrightarrow> m ! i \<notin> set (ins ! k)"
    if "k < length ins" "i < length m" for k i
    using z[of "ls ! k" i] that n arg_cong[OF p(2), of "\<lambda>x. x ! k"] by simp
  have zo: "countLabels (length m) l ! i = 0 \<longleftrightarrow> m ! i \<notin> set out" if "i < length m" for i
    using z[of l i] that p(3) by simp
  have "labelType (map (countLabels (length m)) ls) (countLabels (length m) l) i =
      (let in_output = m ! i \<in> set out; shared = length ins = 2 \<and> m ! i \<in> set (ins ! 0) \<and> m ! i \<in> set (ins ! 1)
       in if in_output then (if shared then kBatch else kFree) else (if shared then kContract else kReduce))"
    if "i < length m" for i
  proof -
    have i0: "0 < length ins" using assms(3) by auto
    have nm: "length (map (countLabels (length m)) ls) = length ins" using n by simp
    show ?thesis
    proof (cases "length ins = 1")
      case True
      then show ?thesis unfolding labelType_def GetDimensionType_def Let_def nm zo[OF that] by simp
    next
      case False
      then have "1 < length ins" "length ins = 2" using assms(3) by auto
      then show ?thesis
        unfolding labelType_def GetDimensionType_def Let_def nm zo[OF that] zi[OF i0 that] zi[OF \<open>1 < length ins\<close> that]
        by simp
    qed
  qed
  then show ?thesis using p by (intro exI[of _ ?e] exI[of _ m]) (simp add: Let_def)
qed

lemma ParseEinsumEquation_types_witness:
  "\<exists>e m. ParseEinsumEquation sample_split ''...ij,...jk->...ik'' = Inr e \<and> length (label_types e) = length m \<and>
     (\<forall>i < length m. m ! i = CHR ''j'' \<longrightarrow> label_types e ! i = kContract)"
proof -
  have "\<exists>e m. ParseEinsumEquation sample_split ''...ij,...jk->...ik'' = Inr e \<and> distinct m \<and>
    map (decodeLabels m) (input_labels e) = [''...ij'', ''...jk''] \<and> length (label_types e) = length m \<and>
    (\<forall>i < length m.
       let in_output = m ! i \<in> set ''...ik''; shared = length [''...ij'', ''...jk''] = 2 \<and>
         m ! i \<in> set ([''...ij'', ''...jk''] ! 0) \<and> m ! i \<in> set ([''...ij'', ''...jk''] ! 1)
       in label_types e ! i =
         (if in_output then (if shared then kBatch else kFree) else (if shared then kContract else kReduce)))"
    by (rule ParseEinsumEquation_types[of sample_split "''...ij,...jk->...ik''" "''...ij,...jk''" "''...ik''"
        "[''...ij'', ''...jk'']"]) (simp_all add: sample_split_def)
  then obtain e m where "ParseEinsumEquation sample_split ''...ij,...jk->...ik'' = Inr e" "length (label_types e) = length m"
    "\<forall>i < length m. m ! i = CHR ''j'' \<longrightarrow> label_types e ! i = kContract"
    by (auto simp: Let_def)
  then show ?thesis by blast
qed

end
