(* ===== verification/EinsumSafe.thy ===== *)
theory EinsumSafe
  imports EinsumSound SafeFns
begin

text \<open>
  The shape function of einsum never stops the program: with the rank checked against the
  number of named labels, every axis it computes before and after an ellipsis exists.
\<close>

section \<open>Subscripts that passed the check\<close>

lemma periods_whole:
  assumes "length (filter (\<lambda>ch. ch = CHR ''.'') s) = 0"
  shows "CHR ''.'' \<notin> set s"
  using assms by (auto simp: filter_empty_conv)

lemma ellipsis_split:
  assumes "ValidateEinsumEllipsis s = Inr True"
  obtains p q where "s = p @ ''...'' @ q" "CHR ''.'' \<notin> set p" "CHR ''.'' \<notin> set q"
proof -
  have n: "length (filter (\<lambda>ch. ch = CHR ''.'') s) = 3" "sublist ''...'' s"
    using assms by (auto simp: ValidateEinsumEllipsis_def Let_def split: if_splits)
  then obtain p q where s: "s = p @ ''...'' @ q" by (auto simp: sublist_def)
  then have "length (filter (\<lambda>ch. ch = CHR ''.'') p) + length (filter (\<lambda>ch. ch = CHR ''.'') q) = 0"
    using n(1) by simp
  then show ?thesis using that[OF s] periods_whole by simp
qed

lemma ellipsis_none: "ValidateEinsumEllipsis s = Inr False \<Longrightarrow> CHR ''.'' \<notin> set s"
  using periods_whole[of s] by (auto simp: ValidateEinsumEllipsis_def Let_def split: if_splits)

lemma ValidateEinsumEllipsis_nofault: "nofault (ValidateEinsumEllipsis s)"
  by (simp add: ValidateEinsumEllipsis_def Let_def nofault_def)

section \<open>The labels of an input\<close>

definition mapped :: "ctx \<Rightarrow> (char \<Rightarrow> dim option) \<Rightarrow> bool" where
  "mapped c m \<longleftrightarrow> (\<forall>ch d. m ch = Some d \<longrightarrow> valid_dim c d)"

lemma mapped_adds: "mapped c m \<Longrightarrow> adds c c' \<Longrightarrow> mapped c' m"
  by (auto simp: mapped_def intro: adds_valid_dim)

text \<open>What the rest of a subscript needs: the shape has unknown rank, or the number of labels
  fits its rank, with the ellipsis still to come or already passed.\<close>

definition subscript_fits :: "ctx \<Rightarrow> shape \<Rightarrow> nat \<Rightarrow> string \<Rightarrow> nat \<Rightarrow> bool \<Rightarrow> bool" where
  "subscript_fits c s n ls idx seen \<longleftrightarrow> idx + length ls = n \<and>
     (CHR ''.'' \<in> set ls \<longrightarrow> \<not> seen \<and>
        (\<exists>p q. ls = p @ ''...'' @ q \<and> CHR ''.'' \<notin> set p \<and> CHR ''.'' \<notin> set q)) \<and>
     (case shape_of c s of None \<Rightarrow> True | Some ds \<Rightarrow> n \<le> length ds + 3 \<and>
        (CHR ''.'' \<notin> set ls \<longrightarrow> (if seen then n \<le> length ds + idx else length ds = n)))"

lemma valid_axis:
  assumes "wf_ctx c" "vshape c s" "shape_of c s = Some ds" "0 \<le> i" "i < int (length ds)"
  shows "safe (Dim s i) (\<lambda>d c'. valid_dim c' d) c"
proof -
  have "ds ! nat i \<in> set ds" using assms(4,5) by simp
  then have "valid_dim c (ds ! nat i)" using wf_shape_dims[OF assms(1-3)] by (auto simp: list_all_iff)
  then show ?thesis using assms by (simp add: safe_def Dim_known vecAt_def)
qed

lemma UnknownDim_safe: "wf_ctx c \<Longrightarrow> safe UnknownDim (\<lambda>d c'. valid_dim c' d) c"
  using UnknownDim_yields[of "[]" c] by (auto simp: has_def elim: safe_weaken)

lemma axis_bounds:
  assumes "subscript_fits c s n (l # ls) idx seen" "shape_of c s = Some ds" "int (length ds) \<le> max_rank" "l \<noteq> CHR ''.''"
  shows "0 \<le> (if seen then to_int64 (int idx + int (length ds) - int n) else int idx) \<and>
    (if seen then to_int64 (int idx + int (length ds) - int n) else int idx) < int (length ds)"
proof -
  have e: "to_int64 (int idx + int (length ds) - int n) = int idx + int (length ds) - int n"
    using assms(1-3) by (intro to_int64_id) (simp add: in_int64_def max_rank_def subscript_fits_def)
  have n: "idx + Suc (length ls) = n" using assms(1) by (simp add: subscript_fits_def)
  show ?thesis
  proof (cases "CHR ''.'' \<in> set ls")
    case True
    then obtain p q where p: "l # ls = p @ ''...'' @ q" "\<not> seen" "n \<le> length ds + 3"
      using assms(1,2) by (auto simp: subscript_fits_def)
    have "p \<noteq> []" using p(1) assms(4) by (cases p) auto
    then have "length ls \<ge> 3" using arg_cong[OF p(1), of length] by (cases p) auto
    then show ?thesis using p n by simp
  next
    case False
    then show ?thesis using assms(1,2,4) n e by (auto simp: subscript_fits_def)
  qed
qed

text \<open>The pass over the labels; \<open>hi\<close> bounds the rank of the shape under the ellipsis.\<close>

lemma einsumLabels_safe:
  "wf_ctx c \<Longrightarrow> vshape c s \<Longrightarrow> Rank c s \<le> max_rank \<Longrightarrow> subscript_fits c s n ls idx seen \<Longrightarrow>
   mapped c m \<Longrightarrow> vholds c (VShape b 0 max_rank) \<Longrightarrow>
   safe (einsumLabels s n ls idx seen b m) (\<lambda>(b', m') c'. vholds c' (VShape b' 0 max_rank) \<and> mapped c' m') c"
proof (induction "length ls" arbitrary: c ls idx seen b m rule: less_induct)
  case less
  let ?Q = "\<lambda>(b', m') c'. vholds c' (VShape b' 0 max_rank) \<and> mapped c' m'"
  note w = less.prems(1) and vs = less.prems(2) and rk = less.prems(3) and fits = less.prems(4)
    and mp = less.prems(5) and bs = less.prems(6)
  have keep: "vshape c' s \<and> Rank c' s \<le> max_rank \<and> shape_of c' s = shape_of c s \<and> mapped c' m" if "adds c c'" for c'
    using that vs rk mp mapped_adds adds_vshape adds_shape_of[of c c' s] by (auto simp: vshape_def Rank_def)
  show ?case
  proof (cases ls)
    case Nil
    then show ?thesis using w mp bs by (simp add: safe_ret)
  next
    case (Cons l ls')
    let ?after = "if RankKnown c s then to_int64 (int idx + Rank c s - int n) else - 1"
    show ?thesis
    proof (cases "l = CHR ''.''")
      case True
      let ?sub = "if \<not> RankKnown c s then UnknownShape else SubshapeRange s (int idx) (?after + 3)"
      have h: "has [VShape s 0 max_rank] c" using w vs rk by (auto simp: has_def Rank_def)
      have sub: "yields ?sub (\<lambda>s'. [VShape s' 0 max_rank]) c"
        by (rule yields_if[OF UnknownShape_yields[OF h] SubshapeRange_yields[OF h]]) (simp_all add: max_rank_def)
      have go: "safe (einsumLabels s n (drop 2 ls') (idx + 3) True b' m) ?Q c'"
        if 1: "wf_ctx c'" "adds c c'" "vholds c' (VShape b' 0 max_rank)" for b' c'
      proof (rule less.hyps)
        show "length (drop 2 ls') < length ls" using Cons by simp
        show "subscript_fits c' s n (drop 2 ls') (idx + 3) True"
        proof -
          obtain p q where "ls = p @ ''...'' @ q" "CHR ''.'' \<notin> set p" "CHR ''.'' \<notin> set q"
            using fits Cons True by (auto simp: subscript_fits_def)
          then have "drop 2 ls' = q" "length ls = 3 + length q" "CHR ''.'' \<notin> set q"
            using Cons True by (cases p; auto)+
          then show ?thesis using fits keep[OF 1(2)] by (auto simp: subscript_fits_def split: option.splits)
        qed
      qed (use 1 keep in auto)
      show ?thesis
        unfolding Cons einsumLabels.simps
        by (rule safe_gets, unfold split_conv Let_def if_P[OF True], rule safe_andThen[OF sub])
          (use go in auto)
    next
      case False
      let ?axis = "if seen then ?after else int idx"
      have dim: "safe (if RankKnown c s then Dim s ?axis else UnknownDim) (\<lambda>d c'. valid_dim c' d) c"
      proof (cases "shape_of c s")
        case None
        then show ?thesis using UnknownDim_safe[OF w] by (simp add: RankKnown_iff)
      next
        case (Some ds)
        have r: "Rank c s = int (length ds)" using Some by (simp add: Rank_def)
        show ?thesis
          using axis_bounds[OF fits[unfolded Cons] Some _ False] rk Some r
          by (simp add: RankKnown_iff) (auto intro!: valid_axis[OF w vs Some])
      qed
      have go: "safe (einsumLabels s n ls' (idx + 1) seen b (m(l \<mapsto> d))) ?Q c'"
        if 1: "wf_ctx c'" "adds c c'" "valid_dim c' d" for d c'
      proof (rule less.hyps)
        show "length ls' < length ls" using Cons by simp
        show "subscript_fits c' s n ls' (idx + 1) seen"
        proof -
          have "\<exists>p' q'. ls' = p' @ ''...'' @ q' \<and> CHR ''.'' \<notin> set p' \<and> CHR ''.'' \<notin> set q'"
            if "ls = p @ ''...'' @ q" "CHR ''.'' \<notin> set p" "CHR ''.'' \<notin> set q" for p q
            using that Cons False by (intro exI[of _ "tl p"] exI[of _ q]) (cases p, auto)
          then have "CHR ''.'' \<in> set ls' \<longrightarrow> (\<exists>p q. ls' = p @ ''...'' @ q \<and> CHR ''.'' \<notin> set p \<and> CHR ''.'' \<notin> set q)"
            using fits Cons by (auto simp: subscript_fits_def)
          then show ?thesis using fits Cons False keep[OF 1(2)] by (auto simp: subscript_fits_def split: option.splits)
        qed
        show "mapped c' (m(l \<mapsto> d))" using keep[OF 1(2)] 1(3) by (auto simp: mapped_def)
        show "vholds c' (VShape b 0 max_rank)" by (rule vholds_adds[OF 1(2) bs])
      qed (use 1 keep in auto)
      show ?thesis
        unfolding Cons einsumLabels.simps
      proof (rule safe_gets, unfold split_conv Let_def if_not_P[OF False], rule safe_andThen[OF dim])
        fix d c'
        assume 1: "wf_ctx c'" "adds c c'" "valid_dim c' d"
        show "safe (case m l of
            None \<Rightarrow> einsumLabels s n ls' (idx + 1) seen b (m(l \<mapsto> d))
          | Some d0 \<Rightarrow> andThen (MergeDim d0 d) (\<lambda>merged. einsumLabels s n ls' (idx + 1) seen b (m(l \<mapsto> merged)))) ?Q c'"
        proof (cases "m l")
          case None
          then show ?thesis using go[OF 1] by simp
        next
          case (Some d0)
          have "valid_dim c' d0" using keep[OF 1(2)] Some by (auto simp: mapped_def)
          from MergeDim_status_safe[OF 1(1) this 1(3)] show ?thesis
            unfolding Some option.case
            by (rule safe_andThen) (use go adds_trans[OF 1(2)] in auto)
        qed
      qed
    qed
  qed
qed

section \<open>Inputs and outputs\<close>

abbreviation collected :: "shape list \<times> (char \<Rightarrow> dim option) \<Rightarrow> ctx \<Rightarrow> nat \<Rightarrow> bool" where
  "collected bm c k \<equiv> length (fst bm) = k \<and> list_all (\<lambda>b. vholds c (VShape b 0 max_rank)) (fst bm) \<and> mapped c (snd bm)"

lemma collected_adds: "collected bm c k \<Longrightarrow> adds c c' \<Longrightarrow> collected bm c' k"
  using vholds_adds[of c c'] mapped_adds by (auto simp: list_all_iff simp del: vholds.simps)

lemma einsumInput_safe:
  assumes w: "wf_ctx c" and f: "adds c0 c" and i: "i < length (inputs c0)"
    and s: "vholds c0 (VShape (inputs c0 ! i) 0 max_rank)" and bm: "collected bm c k"
  shows "safe (einsumInput (i, ls) bm) (\<lambda>bm' c'. collected bm' c' (Suc k)) c"
proof -
  obtain bs m where b: "bm = (bs, m)" by (cases bm)
  let ?s = "inputs c0 ! i"
  have ins: "inputs c = inputs c0" using adds_statics[OF f] by simp
  have h: "has [VShape ?s 0 max_rank, VFrom c0] c" using w vholds_adds[OF f s] f by (simp add: has_def)
  have inp: "vecAt (inputs c0) (int i) = Inr ?s" using i by simp
  let ?P = "\<lambda>e s' c'. vshape c' s' \<and> Rank c' s' \<le> max_rank \<and> (\<forall>ds. shape_of c' s' = Some ds \<longrightarrow>
     (if e then length ls \<le> length ds + 3 else length ds = length ls))"
  have rank: "safe (if \<not> RankKnown c ?s then ret ?s else if e then WithRankAtLeast ?s (int (length ls) - 3)
      else WithRank ?s (int (length ls))) (?P e) c" for e
  proof (cases "shape_of c ?s")
    case None
    then show ?thesis using w vholds_adds[OF f s] by (auto simp: RankKnown_iff Rank_def max_rank_def intro!: safe_ret)
  next
    case (Some ds)
    have hi: "int (length ds) \<le> max_rank" using vholds_adds[OF f s] Some by simp
    have "safe (WithRank ?s (int (length ls))) (\<lambda>s' c'. s' = ?s \<and> length ds = length ls) c"
      "safe (WithRankAtLeast ?s (int (length ls) - 3)) (\<lambda>s' c'. s' = ?s \<and> length ls \<le> length ds + 3) c"
      using w Some by (auto simp: WithRank_def WithRankAtLeast_def op_simps safe_def Rank_def)
    then have "safe (if e then WithRankAtLeast ?s (int (length ls) - 3) else WithRank ?s (int (length ls)))
        (\<lambda>s' c'. s' = ?s \<and> (if e then length ls \<le> length ds + 3 else length ds = length ls)) c" by simp
    from safe_weaken[OF this] show ?thesis
      using Some hi vholds_adds[OF f s] adds_shape_of[of c _ ?s] adds_vshape[of c _ ?s]
      by (simp add: RankKnown_iff vshape_def Rank_def)
  qed
  show ?thesis
    unfolding einsumInput_def b split_conv
  proof (rule safe_liftR[OF h ValidateEinsumEllipsis_nofault], rule safe_input[OF h _ inp], simp, rule safe_gets,
      rule safe_andThen[OF rank])
    fix e s' c1
    assume e: "ValidateEinsumEllipsis ls = Inr e" and 1: "wf_ctx c1" "adds c c1" "?P e s' c1"
    have h1: "has [] c1" using 1(1) by (simp add: has_def)
    show "safe (andThen Scalar (\<lambda>scalar. andThen (einsumLabels s' (length ls) ls 0 False scalar m)
        (\<lambda>(b, m'). ret (bs @ [b], m')))) (\<lambda>bm' c'. collected bm' c' (Suc k)) c1"
    proof (rule safe_andThen[OF Scalar_yields[OF h1]])
      fix sc c2
      assume 2: "wf_ctx c2" "adds c1 c2" "list_all (vholds c2) [VShape sc 0 0, VRanked sc, Sem (\<lambda>v w. sz w sc = [])]"
      have sh: "shape_of c2 s' = shape_of c1 s'" "vshape c2 s'" "Rank c2 s' \<le> max_rank"
        using 1(3) adds_shape_of[OF 2(2), of s'] adds_vshape[OF 2(2)] by (auto simp: vshape_def Rank_def)
      have fits: "subscript_fits c2 s' (length ls) ls 0 False"
      proof (cases e)
        case True
        then show ?thesis
          by (rule_tac ellipsis_split[of ls]) (use e 1(3) sh in \<open>auto simp: subscript_fits_def split: option.splits\<close>)
      next
        case False
        then show ?thesis using ellipsis_none[of ls] e 1(3) sh by (auto simp: subscript_fits_def split: option.splits)
      qed
      have cb: "collected (bs, m) c2 k" using collected_adds[OF collected_adds[OF bm 1(2)] 2(2)] b by simp
      show "safe (andThen (einsumLabels s' (length ls) ls 0 False sc m) (\<lambda>(b, m'). ret (bs @ [b], m')))
          (\<lambda>bm' c'. collected bm' c' (Suc k)) c2"
      proof (rule safe_andThen[OF einsumLabels_safe[OF 2(1) sh(2,3) fits]])
        show "mapped c2 m" using cb by simp
        show "vholds c2 (VShape sc 0 max_rank)" using 2(3) by (auto simp: max_rank_def)
        fix r c3
        assume 3: "wf_ctx c3" "adds c2 c3" "(\<lambda>(b', m') c'. vholds c' (VShape b' 0 max_rank) \<and> mapped c' m') r c3"
        show "safe (case r of (b, m') \<Rightarrow> ret (bs @ [b], m')) (\<lambda>bm' c'. collected bm' c' (Suc k)) c3"
          using collected_adds[OF cb 3(2)] 3 by (auto split: prod.splits intro!: safe_ret simp del: vholds.simps)
      qed
    qed
  qed
qed

lemma einsumInputs_safe:
  "wf_ctx c \<Longrightarrow> adds c0 c \<Longrightarrow> collected bm c k \<Longrightarrow> k + length lss \<le> length (inputs c0) \<Longrightarrow>
   (\<And>i. i < length (inputs c0) \<Longrightarrow> vholds c0 (VShape (inputs c0 ! i) 0 max_rank)) \<Longrightarrow>
   safe (foldOp einsumInput (enumerate k lss) bm) (\<lambda>bm' c'. collected bm' c' (k + length lss)) c"
proof (induction lss arbitrary: k c bm)
  case Nil
  then show ?case by (simp add: safe_ret)
next
  case (Cons ls lss)
  have i: "k < length (inputs c0)" using Cons.prems(4) by simp
  have "safe (andThen (einsumInput (k, ls) bm) (foldOp einsumInput (enumerate (Suc k) lss)))
      (\<lambda>bm' c'. collected bm' c' (Suc k + length lss)) c"
  proof (rule safe_andThen[OF einsumInput_safe[OF Cons.prems(1,2) i Cons.prems(5)[OF i] Cons.prems(3)]])
    fix bm' c' assume 1: "wf_ctx c'" "adds c c'" "collected bm' c' (Suc k)"
    show "safe (foldOp einsumInput (enumerate (Suc k) lss) bm') (\<lambda>bm' c'. collected bm' c' (Suc k + length lss)) c'"
      by (rule Cons.IH[OF 1(1) adds_trans[OF Cons.prems(2) 1(2)] 1(3)]) (use Cons.prems in auto)
  qed
  then show ?case by simp
qed

lemma einsumOutput_safe:
  "wf_ctx c \<Longrightarrow> vshape c b \<Longrightarrow> mapped c m \<Longrightarrow> list_all (valid_dim c) ds \<Longrightarrow>
   safe (einsumOutput b m ls ds) (\<lambda>ds c'. list_all (valid_dim c') ds) c"
proof (induction "length ls" arbitrary: c ls ds rule: less_induct)
  case less
  let ?Q = "\<lambda>ds c'. list_all (valid_dim c') ds"
  note w = less.prems(1) and vs = less.prems(2) and mp = less.prems(3) and ds = less.prems(4)
  show ?case
  proof (cases ls)
    case Nil
    then show ?thesis using w ds by (simp add: safe_ret)
  next
    case (Cons l ls')
    show ?thesis
    proof (cases "l = CHR ''.''")
      case True
      have h: "has [VShape b (Rank c b) (Rank c b)] c" using w vs by (auto simp: has_def Rank_def)
      have dims: "safe (mapOp (\<lambda>k. Dim b (int k)) [0..<nat (Rank c b)]) (\<lambda>es c'. list_all (valid_dim c') es) c"
        by (rule safe_weaken[OF safe_mapOp[OF h, where P = VDim]])
          (rule Dim_ok, assumption, auto simp: list_all_iff)
      show ?thesis
        unfolding Cons einsumOutput.simps if_P[OF True]
      proof (rule safe_gets, rule safe_andThen[OF dims])
        fix es c' assume 1: "wf_ctx c'" "adds c c'" "list_all (valid_dim c') es"
        show "safe (einsumOutput b m (drop 2 ls') (ds @ es)) ?Q c'"
          by (rule less.hyps) (use 1 Cons ds vs mp adds_vshape mapped_adds adds_valid_dim in \<open>auto simp: list_all_iff\<close>)
      qed
    next
      case False
      show ?thesis
      proof (cases "m l")
        case None
        then show ?thesis using w False by (simp add: Cons safe_failWith)
      next
        case (Some d)
        then have "valid_dim c d" using mp by (auto simp: mapped_def)
        then show ?thesis using less.hyps[of ls' c "ds @ [d]"] less.prems Cons False Some by simp
      qed
    qed
  qed
qed

section \<open>The interface and its property\<close>

lemma set_output_end:
  assumes w: "wf_ctx c" and a: "adds c0 c" "length (outputs c0) = 1" and s: "vshape c s"
  shows "safe (set_output 0 s) (\<lambda>_ c'. list_all (\<lambda>s. s \<noteq> None) (outputs c')) c"
  by (rule safe_end[of "[VShape s (- 1) (Rank c s), VFrom c0]"]) (use assms in \<open>auto simp: has_def Rank_def\<close>)

text \<open>The parts of the function after the labels: the shape under the ellipsis, the output.\<close>

abbreviation all_set :: "unit \<Rightarrow> ctx \<Rightarrow> bool" where
  "all_set \<equiv> \<lambda>_ c'. list_all (\<lambda>s. s \<noteq> None) (outputs c')"

abbreviation einsumEnd :: "string \<Rightarrow> (char \<Rightarrow> dim option) \<Rightarrow> shape \<Rightarrow> unit cop" where
  "einsumEnd out m b \<equiv> andThen (einsumOutput b m out []) (\<lambda>dims. andThen (MakeShape dims) (set_output 0))"

abbreviation einsumRest :: "string \<Rightarrow> (char \<Rightarrow> dim option) \<Rightarrow> shape \<Rightarrow> unit cop" where
  "einsumRest out m b \<equiv>
     andThen (liftR (ValidateEinsumEllipsis out)) (\<lambda>e.
     andThen (gets (\<lambda>c. RankKnown c b)) (\<lambda>known.
     if e \<and> \<not> known then andThen UnknownShape (set_output 0)
     else andThen (if e then ret b else andThen (WithRankAtMost b 0) (\<lambda>_. Scalar)) (einsumEnd out m)))"

abbreviation einsumBroadcast :: "shape list \<Rightarrow> shape cop" where
  "einsumBroadcast bs \<equiv> (case bs of [b] \<Rightarrow> ret b
     | [b0, b1] \<Rightarrow> BroadcastBinaryOpOutputShapeFnHelper b0 b1 True | _ \<Rightarrow> ret None)"

lemma MakeShape_vshape: "wf_ctx c \<Longrightarrow> list_all (valid_dim c) ds \<Longrightarrow> safe (MakeShape ds) (\<lambda>s c'. vshape c' s) c"
  using push_shape_adds[of c "Some ds"] by (simp add: safe_def op_simps)

lemma UnknownShape_vshape: "wf_ctx c \<Longrightarrow> safe UnknownShape (\<lambda>s c'. vshape c' s) c"
  using push_shape_adds[of c None] by (simp add: safe_def op_simps)

lemma Scalar_vshape: "wf_ctx c \<Longrightarrow> safe Scalar (\<lambda>s c'. vshape c' s) c"
  using Scalar_yields[of "[]" c] by (auto simp: has_def elim: safe_weaken)

lemma einsumEnd_safe:
  assumes w: "wf_ctx c" and a: "adds c0 c" "length (outputs c0) = 1" and b: "vshape c b" "mapped c m"
  shows "safe (einsumEnd out m b) all_set c"
proof (rule safe_andThen[OF einsumOutput_safe[OF w b]])
  fix dims c1 assume 1: "wf_ctx c1" "adds c c1" "list_all (valid_dim c1) dims"
  show "safe (andThen (MakeShape dims) (set_output 0)) all_set c1"
    by (rule safe_andThen[OF MakeShape_vshape[OF 1(1,3)]],
        rule set_output_end[OF _ adds_trans[OF adds_trans[OF a(1) 1(2)]] a(2)])
qed simp

lemma einsumRest_safe:
  assumes w: "wf_ctx c" and a: "adds c0 c" "length (outputs c0) = 1" and b: "vshape c b" "mapped c m"
  shows "safe (einsumRest out m b) all_set c"
proof -
  have h: "has [] c" using w by (simp add: has_def)
  show ?thesis
  proof (rule safe_liftR[OF h ValidateEinsumEllipsis_nofault], rule safe_gets, rule safe_if)
    show "safe (andThen UnknownShape (set_output 0)) all_set c"
      by (rule safe_andThen[OF UnknownShape_vshape[OF w]], rule set_output_end[OF _ adds_trans[OF a(1)] a(2)])
  next
    fix e
    have "safe (WithRankAtMost b 0) (\<lambda>_ _. True) c" using w by (simp add: WithRankAtMost_def op_simps safe_def)
    then have "safe (andThen (WithRankAtMost b 0) (\<lambda>_. Scalar)) (\<lambda>s c'. vshape c' s) c"
      by (rule safe_andThen) (rule Scalar_vshape)
    then have "safe (if e then ret b else andThen (WithRankAtMost b 0) (\<lambda>_. Scalar)) (\<lambda>s c'. vshape c' s) c"
      using w b by (simp add: safe_ret)
    then show "safe (andThen (if e then ret b else andThen (WithRankAtMost b 0) (\<lambda>_. Scalar)) (einsumEnd out m)) all_set c"
      by (rule safe_andThen, intro einsumEnd_safe[OF _ adds_trans[OF a(1)] a(2)] mapped_adds[OF b(2)])
  qed
qed

lemma einsumBroadcast_safe:
  assumes w: "wf_ctx c" and b: "list_all (\<lambda>b. vholds c (VShape b 0 max_rank)) bs" "length bs = 1 \<or> length bs = 2"
  shows "safe (einsumBroadcast bs) (\<lambda>b c'. vshape c' b) c"
proof (cases "length bs = 1")
  case True
  then obtain b where "bs = [b]" by (auto simp: length_Suc_conv)
  then show ?thesis using w b(1) by (auto intro!: safe_ret)
next
  case False
  then obtain b0 b1 where q: "bs = [b0, b1]" using b(2) by (auto simp: numeral_2_eq_2 length_Suc_conv)
  then have "has [VShape b0 0 max_rank, VShape b1 0 max_rank] c" using w b(1) by (simp add: has_def)
  then have "yields (BroadcastBinaryOpOutputShapeFnHelper b0 b1 True) (\<lambda>u. [VShape u 0 (max max_rank max_rank)]) c"
    by (rule Broadcast_ok[where lo = 0 and lo' = 0]) (simp_all add: max_rank_def)
  from safe_weaken[OF this] show ?thesis by (simp add: q)
qed

lemma ready_inputs:
  assumes "ready n c" "i < length (inputs c)"
  shows "vholds c (VShape (inputs c ! i) 0 max_rank)"
  using assms by (auto simp: ready_def vshape_def wf_ctx_def list_all_length Rank_def)

lemma ValidateEinsumEquation_nofault: "nofault (ValidateEinsumEquation split eq)"
  by (simp add: ValidateEinsumEquation_def Let_def nofault_def)

lemma EinsumShape_safe:
  assumes r: "ready n c"
  shows "safe (EinsumShape split) all_set c"
proof -
  have w: "wf_ctx c" and o: "length (outputs c) = 1" using r by (auto simp: ready_def)
  have h: "has [VFrom c] c" using w by (simp add: has_def)
  have body: "safe (andThen (foldOp einsumInput (enumerate 0 ins) ([], \<lambda>_. None)) (\<lambda>(bs, m).
      andThen (einsumBroadcast bs) (einsumRest out m))) all_set c"
    if "length (inputs c) = length ins" "length ins = 1 \<or> length ins = 2" for ins out
  proof (rule safe_andThen)
    have "collected ([], \<lambda>_. None) c 0" by (simp add: mapped_def)
    then show "safe (foldOp einsumInput (enumerate 0 ins) ([], \<lambda>_. None)) (\<lambda>bm' c'. collected bm' c' (length ins)) c"
      using einsumInputs_safe[OF w adds_refl _ _ ready_inputs[OF r], of "([], \<lambda>_. None)" 0 ins] that by simp
  next
    fix q c1 assume 1: "wf_ctx c1" "adds c c1" "collected q c1 (length ins)"
    obtain bs m where q: "q = (bs, m)" by (cases q)
    have bs: "list_all (\<lambda>b. vholds c1 (VShape b 0 max_rank)) bs" "length bs = 1 \<or> length bs = 2" "mapped c1 m"
      using 1(3) q that(2) by auto
    have "safe (andThen (einsumBroadcast bs) (einsumRest out m)) all_set c1"
    proof (rule safe_andThen[OF einsumBroadcast_safe[OF 1(1) bs(1,2)]])
      fix b c2 assume 2: "wf_ctx c2" "adds c1 c2" "vshape c2 b"
      show "safe (einsumRest out m b) all_set c2"
        by (rule einsumRest_safe[OF 2(1) adds_trans[OF 1(2) 2(2)] o 2(3) mapped_adds[OF bs(3) 2(2)]])
    qed
    then show "safe (case q of (bs, m) \<Rightarrow> andThen (einsumBroadcast bs) (einsumRest out m)) all_set c1"
      by (simp add: q)
  qed
  show ?thesis
    unfolding EinsumShape_def
  proof (rule safe_GetAttr[OF h], simp, simp add: nofault_simps, rule safe_liftR[OF h ValidateEinsumEquation_nofault])
    fix equation p
    show "safe (case p of (ins, out) \<Rightarrow> andThen (gets num_inputs) (\<lambda>n.
       andThen (failUnless (\<not> (n = 0 \<or> n > 2)) InvalidArgument) (\<lambda>_.
       andThen (failUnless (n = int (length ins)) InvalidArgument) (\<lambda>_.
       andThen (foldOp einsumInput (enumerate 0 ins) ([], \<lambda>_. None)) (\<lambda>(bs, m).
       andThen (einsumBroadcast bs) (einsumRest out m)))))) all_set c"
      by (cases p, simp only: split_conv, rule safe_gets, rule safe_failUnless[OF w], rule safe_failUnless[OF w], rule body)
        (unfold num_inputs_def, presburger+)
  qed
qed

interpretation safe_einsum: safe_fn "EinsumShape split" n for split n
  by unfold_locales (rule EinsumShape_safe)

text \<open>
  C20: \<open>EinsumShape\<close> never stops the program, whatever the equation is and however it is split, on any well-formed context
  with any number of inputs of at most \<open>2^28\<close> dimensions and with one output: labels are only looked up at axes that
  exist, before and after the ellipsis, and the call ends with an error or with its output set.
\<close>

theorem EinsumShape_well_behaved:
  assumes "ready n c"
  shows "well_behaved (EinsumShape split) c"
  using assms by (rule safe_einsum.Run_well_behaved)

lemma EinsumShape_well_behaved_witness:
  "well_behaved (EinsumShape sample_split)
     (ctx_of (sample_call [[7, 2, - 1], [3]] [[7, 2, 3], [3]] [] 1 [(''equation'', A_s ''...ij,...jk->...ik'')])) \<and>
   well_behaved (EinsumShape sample_split)
     (ctx_of (sample_call [[7, - 1]] [[7, 2]] [] 1 [(''equation'', A_s ''ij->ji'')]))"
  by (intro conjI; rule EinsumShape_well_behaved[OF ready_sample_call]) (simp_all add: max_rank_def seen_as_def is_size_def)

end
