(* ===== verification/ConvMore.thy ===== *)
theory ConvMore
  imports ConvFns
begin

text \<open>
  The general convolution, the 3-D convolution, the gradients of \<open>Conv2D\<close> and the
  depthwise convolution (\<open>framework/common_shape_fns.cc\<close>).
\<close>

section \<open>The general convolution\<close>

definition spatialChars :: "char list" where
  "spatialChars = [CHR ''0'', CHR ''1'', CHR ''2'']"

definition ConvShape :: "unit cop" where
  "ConvShape =
     andThen (input 0) (\<lambda>input_shape. andThen (input 1) (\<lambda>filter_shape.
     andThen (gets (\<lambda>c. (Rank c input_shape, Rank c filter_shape))) (\<lambda>(input_rank, filter_rank).
     if input_rank = kUnknownRank \<or> filter_rank = kUnknownRank then andThen UnknownShape (set_output 0)
     else
     andThen (GetAttr GetAttrInt32 ''batch_dims'') (\<lambda>batch_dims.
     andThen (failUnless (0 \<le> batch_dims) InvalidArgument) (\<lambda>_.
     let standard_input_rank = input_rank - (batch_dims - 1) in
     andThen (failUnless (standard_input_rank = 4 \<or> standard_input_rank = 5) InvalidArgument) (\<lambda>_.
     andThen (failUnless (filter_rank = 4 \<or> filter_rank = 5) InvalidArgument) (\<lambda>_.
     andThen (failUnless (filter_rank = standard_input_rank) InvalidArgument) (\<lambda>_.
     andThen (GetAttr GetAttrString ''data_format'') (\<lambda>data_format_str.
     andThen (failUnless (data_format_str = ''CHANNELS_LAST'' \<or> data_format_str = ''CHANNELS_FIRST'')
       InvalidArgument) (\<lambda>_.
     let channels_last_format = (data_format_str = ''CHANNELS_LAST'');
         data_format = (if channels_last_format then FORMAT_NHWC else FORMAT_NCHW);
         filter_format = FORMAT_HWIO;
         spatial_dims = standard_input_rank - 2;
         letters = take (nat spatial_dims) spatialChars;
         dim_index = GetTensorDimIndexN (if spatial_dims = 2 then 2 else 3) data_format;
         filter_dim_index = GetFilterDimIndexN (if spatial_dims = 2 then 2 else 3) filter_format
     in
     andThen (GetAttr GetAttrInt32List ''dilations'') (\<lambda>dilations_attr.
     let dilations = (if dilations_attr = [] then replicate (nat standard_input_rank) 1 else dilations_attr) in
     andThen (failUnless (int (length dilations) = standard_input_rank) InvalidArgument) (\<lambda>_.
     andThen (GetAttr GetAttrInt32List ''strides'') (\<lambda>strides.
     andThen (failUnless (int (length strides) = standard_input_rank) InvalidArgument) (\<lambda>_.
     andThen (liftR (mapR (\<lambda>d. bindR (dim_index d) (vecAt strides)) letters)) (\<lambda>stride_dims.
     andThen (liftR (mapR (\<lambda>d. bindR (dim_index d) (vecAt dilations)) letters)) (\<lambda>dilation_dims.
     andThen (mapOp (\<lambda>i. Dim input_shape (int i)) [0..<nat batch_dims]) (\<lambda>batch_size_dim.
     andThen (mapOp (\<lambda>d. andThen (liftR (dim_index d)) (\<lambda>k. Dim input_shape (batch_dims - 1 + k))) letters)
       (\<lambda>in_spatial_dims.
     andThen (andThen (liftR (dim_index CHR ''C'')) (\<lambda>k. Dim input_shape (batch_dims - 1 + k))) (\<lambda>input_depth_dim.
     andThen (mapOp (\<lambda>d. andThen (liftR (filter_dim_index d)) (Dim filter_shape)) letters) (\<lambda>filter_spatial_dims.
     andThen (andThen (liftR (filter_dim_index CHR ''O'')) (Dim filter_shape)) (\<lambda>output_depth_dim.
     andThen (andThen (liftR (filter_dim_index CHR ''I'')) (Dim filter_shape)) (\<lambda>filter_input_depth_dim.
     andThen (GetAttr GetAttrInt32 ''groups'') (\<lambda>groups.
     andThen (gets (\<lambda>c. (DValue c input_depth_dim, DValue c filter_input_depth_dim, DValue c output_depth_dim)))
       (\<lambda>(i, f, out).
     andThen (failUnless (1 \<le> groups) InvalidArgument) (\<lambda>_.
     andThen (failUnless (i = kUnknownDim \<or> cmod i groups = 0) InvalidArgument) (\<lambda>_.
     andThen (failUnless (out = kUnknownDim \<or> cmod out groups = 0) InvalidArgument) (\<lambda>_.
     andThen
       (if i \<noteq> kUnknownDim \<and> f \<noteq> kUnknownDim then
          (if f = 0 then failWith InvalidArgument
           else if cmod i f \<noteq> 0 then failWith InvalidArgument
           else if cdiv i f \<noteq> groups then failWith InvalidArgument
           else ret ())
        else ret ()) (\<lambda>_.
     andThen (GetAttr GetAttrPadding ''padding'') (\<lambda>padding.
     andThen (failUnless (\<not> (spatial_dims = 3 \<and> padding = EXPLICIT)) InvalidArgument) (\<lambda>_.
     andThen (GetAttrListOrEmpty ''explicit_paddings'') (\<lambda>explicit_paddings.
     andThen (liftR (CheckValidPadding padding explicit_paddings 4 data_format)) (\<lambda>_.
     andThen (liftR (explicitPad padding explicit_paddings data_format CHR ''H'')) (\<lambda>pad0.
     andThen (liftR (explicitPad padding explicit_paddings data_format CHR ''W'')) (\<lambda>pad1.
     andThen (mapOp (\<lambda>(d, f, dil, s, before, after).
                GetWindowedOutputSizeFromDimsV2 d (Handle f) dil s padding before after)
              (zip in_spatial_dims (zip filter_spatial_dims (zip dilation_dims (zip stride_dims
                [pad0, pad1, (- 1, - 1)]))))) (\<lambda>output_spatial_dims.
     andThen (MakeShape (if channels_last_format
                then batch_size_dim @ output_spatial_dims @ [output_depth_dim]
                else batch_size_dim @ [output_depth_dim] @ output_spatial_dims))
       (set_output 0))))))))))))))))))))))))))))))))))))"

section \<open>Conv3D\<close>

text \<open>Dimensions of an NCDHW shape in the order of NDHWC.\<close>

definition toNDHWC :: "shape \<Rightarrow> shape cop" where
  "toNDHWC s =
     andThen (mapOp (\<lambda>d. andThen (liftR (GetTensorDimIndexN 3 FORMAT_NCHW d)) (Dim s))
       [CHR ''N'', CHR ''0'', CHR ''1'', CHR ''2'', CHR ''C'']) (\<lambda>ds.
     MakeShapeOf (map Handle ds))"

text \<open>The dilations of rows and columns are read in the order the code reads them.\<close>

definition Conv3DShape :: "unit cop" where
  "Conv3DShape =
     andThen (input 0) (\<lambda>i0. andThen (WithRank i0 5) (\<lambda>input_shape.
     andThen (input 1) (\<lambda>i1. andThen (WithRank i1 5) (\<lambda>filter_shape.
     andThen (tryStatus (GetAttr GetAttrString ''data_format'')) (\<lambda>data_format.
     andThen (GetAttr GetAttrInt32List ''dilations'') (\<lambda>dilations.
     andThen (failUnless (length dilations = 5) InvalidArgument) (\<lambda>_.
     andThen (GetAttr GetAttrInt32List ''strides'') (\<lambda>strides.
     andThen (failUnless (length strides = 5) InvalidArgument) (\<lambda>_.
     let ncdhw = (data_format = Inr ''NCDHW''); k = (if ncdhw then 2 else 1);
         stride_planes = strides ! k; stride_rows = strides ! (k + 1); stride_cols = strides ! (k + 2);
         dilation_planes = dilations ! k; dilation_cols = dilations ! (k + 1);
         dilation_rows = dilations ! (k + 2)
     in
     andThen (if ncdhw then toNDHWC input_shape else ret input_shape) (\<lambda>input_shape.
     andThen (Dim input_shape 0) (\<lambda>batch_size_dim.
     andThen (Dim input_shape 1) (\<lambda>in_planes_dim.
     andThen (Dim input_shape 2) (\<lambda>in_rows_dim.
     andThen (Dim input_shape 3) (\<lambda>in_cols_dim.
     andThen (Dim input_shape 4) (\<lambda>input_depth_dim.
     andThen (Dim filter_shape 0) (\<lambda>filter_planes_dim.
     andThen (Dim filter_shape 1) (\<lambda>filter_rows_dim.
     andThen (Dim filter_shape 2) (\<lambda>filter_cols_dim.
     andThen (Dim filter_shape 3) (\<lambda>filter_input_depth_dim.
     andThen (Dim filter_shape 4) (\<lambda>output_depth_dim.
     andThen (checkDepths input_depth_dim filter_input_depth_dim output_depth_dim) (\<lambda>_.
     andThen (GetAttr GetAttrPadding ''padding'') (\<lambda>padding.
     andThen (GetWindowedOutputSizeFromDimsV2 in_planes_dim (Handle filter_planes_dim)
       dilation_planes stride_planes padding (- 1) (- 1)) (\<lambda>output_planes.
     andThen (GetWindowedOutputSizeFromDimsV2 in_rows_dim (Handle filter_rows_dim)
       dilation_rows stride_rows padding (- 1) (- 1)) (\<lambda>output_rows.
     andThen (GetWindowedOutputSizeFromDimsV2 in_cols_dim (Handle filter_cols_dim)
       dilation_cols stride_cols padding (- 1) (- 1)) (\<lambda>output_cols.
     andThen (MakeShapeOf (map Handle
         (if ncdhw then [batch_size_dim, output_depth_dim, output_planes, output_rows, output_cols]
          else [batch_size_dim, output_planes, output_rows, output_cols, output_depth_dim])))
       (set_output 0))))))))))))))))))))))))))"

section \<open>Gradients of Conv2D\<close>

definition Conv2DBackpropInputShape :: "unit cop" where
  "Conv2DBackpropInputShape =
     andThen (GetAttrOr GetAttrString ''data_format'' ''NHWC'') (\<lambda>data_format_str.
     case FormatFromString data_format_str of None \<Rightarrow> failWith InvalidArgument | Some data_format \<Rightarrow>
     andThen (input 2) (\<lambda>i2. andThen (WithRank i2 4) (\<lambda>output_grad_shape.
     andThen (input 1) (\<lambda>i1. andThen (WithRank i1 4) (\<lambda>filter_shape.
     andThen (DimensionsFromShape output_grad_shape data_format 2)
       (\<lambda>(batch_size_dim, output_grad_spatial_dims, output_grad_depth_dim).
     andThen (Dim filter_shape 3) (\<lambda>f3.
     andThen (MergeDim output_grad_depth_dim f3) (\<lambda>_.
     andThen (MakeShapeFromShapeTensor 0) (\<lambda>specified.
     andThen (gets (\<lambda>c. Rank c specified)) (\<lambda>r.
     andThen (if r = kUnknownRank then WithRank specified 4 else ret specified) (\<lambda>specified.
     andThen (gets (\<lambda>c. Rank c specified)) (\<lambda>specified_rank.
     andThen
       (if specified_rank = 4 then
          andThen (DimensionsFromShape specified data_format 2) (\<lambda>(specified_batch, spatial, depth).
          andThen (MergeDim specified_batch batch_size_dim) (\<lambda>_. ret (spatial, depth)))
        else if specified_rank = 2 then
          andThen (Dim specified 0) (\<lambda>d0. andThen (Dim specified 1) (\<lambda>d1.
          andThen (Dim filter_shape 2) (\<lambda>depth. ret ([d0, d1], depth))))
        else failWith InvalidArgument) (\<lambda>(spatial, input_grad_depth_dim).
     andThen (ShapeFromDimensions batch_size_dim spatial input_grad_depth_dim data_format None)
       (set_output 0))))))))))))))"

definition Conv2DBackpropFilterWithBiasShape :: "unit cop" where
  "Conv2DBackpropFilterWithBiasShape =
     andThen (tryStatus (GetAttr GetAttrString ''data_format'')) (\<lambda>data_format.
     andThen (input 0) (\<lambda>i0. andThen (WithRank i0 4) (\<lambda>input_shape.
     andThen (Dim input_shape (if data_format = Inr ''NCHW'' then - 3 else - 1)) (\<lambda>d.
     andThen (Vector (Handle d)) (\<lambda>v.
     andThen (set_output 1 v) (\<lambda>_.
     andThen (MakeShapeFromShapeTensor 1) (\<lambda>sh.
     andThen (WithRank sh 4) (set_output 0))))))))"

section \<open>Depthwise convolution\<close>

text \<open>
  \<open>if (!c->GetAttr("dilations", &dilations).ok()) dilations.resize(4, 1);\<close>: an attribute with a
  value that does not fit into \<open>int32_t\<close> leaves the values read before it in the vector.
\<close>

definition partialInt32List :: "attrs \<Rightarrow> string \<Rightarrow> int list" where
  "partialInt32List as name =
    (case Find as name of
       Inl _ \<Rightarrow> []
     | Inr v \<Rightarrow> (case AttrValueHasType v (True, K_int) of
         Inl _ \<Rightarrow> []
       | Inr _ \<Rightarrow> takeWhile (\<lambda>x. to_int32 x = x) (l_i (attr_list_of v))))"

definition dilationsOrOnes :: "int list cop" where
  "dilationsOrOnes =
     andThen (tryStatus (GetAttr GetAttrInt32List ''dilations'')) (\<lambda>r.
     case r of
       Inr v \<Rightarrow> ret v
     | Inl _ \<Rightarrow> gets (\<lambda>c. resizeWith 4 1 (partialInt32List (attrs c) ''dilations'')))"

definition poolPaddings :: "bool \<Rightarrow> tensor_format \<Rightarrow> (padding \<times> int list) cop" where
  "poolPaddings supports_explicit_padding data_format =
     andThen (GetAttr GetAttrPadding ''padding'') (\<lambda>padding.
     if supports_explicit_padding then
       andThen (GetAttrListOrEmpty ''explicit_paddings'') (\<lambda>explicit_paddings.
       andThen (liftR (CheckValidPadding padding explicit_paddings 4 data_format)) (\<lambda>_.
       ret (padding, explicit_paddings)))
     else andThen (checkThat (padding \<noteq> EXPLICIT) DCheckFailed) (\<lambda>_. ret (padding, [])))"

definition DepthwiseConv2DNativeShapeImpl :: "bool \<Rightarrow> unit cop" where
  "DepthwiseConv2DNativeShapeImpl supports_explicit_padding =
     andThen (input 0) (\<lambda>i0. andThen (WithRank i0 4) (\<lambda>input_shape.
     andThen (input 1) (\<lambda>i1. andThen (WithRank i1 4) (\<lambda>filter_shape.
     andThen (GetAttr GetAttrInt32List ''strides'') (\<lambda>strides.
     andThen (failUnless (length strides = 4) InvalidArgument) (\<lambda>_.
     andThen dilationsOrOnes (\<lambda>dilations.
     andThen (failUnless (length dilations = 4) InvalidArgument) (\<lambda>_.
     andThen (tryStatus (GetAttr GetAttrString ''data_format'')) (\<lambda>s.
     let data_format = (case s of Inl _ \<Rightarrow> FORMAT_NHWC
           | Inr str \<Rightarrow> (case FormatFromString str of None \<Rightarrow> FORMAT_NHWC | Some f \<Rightarrow> f));
         nchw = (data_format = FORMAT_NCHW);
         k = (if nchw then 2 else 1)
     in
     andThen
       (if nchw then
          andThen (mapOp (Dim input_shape) [0, 2, 3, 1]) (\<lambda>ds. MakeShapeOf (map Handle ds))
        else ret input_shape) (\<lambda>input_shape.
     andThen (Dim input_shape 0) (\<lambda>batch_size_dim.
     andThen (Dim input_shape 1) (\<lambda>in_rows_dim.
     andThen (Dim input_shape 2) (\<lambda>in_cols_dim.
     andThen (Dim filter_shape 0) (\<lambda>filter_rows_dim.
     andThen (Dim filter_shape 1) (\<lambda>filter_cols_dim.
     andThen (Dim filter_shape 2) (\<lambda>input_depth.
     andThen (Dim filter_shape 3) (\<lambda>depth_multiplier.
     andThen (Dim input_shape 3) (\<lambda>in3.
     andThen (MergeDim in3 input_depth) (\<lambda>input_depth.
     andThen (Multiply input_depth (Handle depth_multiplier)) (\<lambda>output_depth.
     andThen (poolPaddings supports_explicit_padding data_format) (\<lambda>(padding, explicit_paddings).
     andThen (liftR (explicitPad padding explicit_paddings data_format CHR ''H'')) (\<lambda>(rows_before, rows_after).
     andThen (liftR (explicitPad padding explicit_paddings data_format CHR ''W'')) (\<lambda>(cols_before, cols_after).
     andThen (GetWindowedOutputSizeFromDimsV2 in_rows_dim (Handle filter_rows_dim)
       (dilations ! k) (strides ! k) padding rows_before rows_after) (\<lambda>output_rows.
     andThen (GetWindowedOutputSizeFromDimsV2 in_cols_dim (Handle filter_cols_dim)
       (dilations ! (k + 1)) (strides ! (k + 1)) padding cols_before cols_after) (\<lambda>output_cols.
     andThen (MakeShapeOf (map Handle
         (if nchw then [batch_size_dim, output_depth, output_rows, output_cols]
          else [batch_size_dim, output_rows, output_cols, output_depth])))
       (set_output 0))))))))))))))))))))))))))"

definition DepthwiseConv2DNativeShape :: "unit cop" where
  "DepthwiseConv2DNativeShape = DepthwiseConv2DNativeShapeImpl False"

definition DepthwiseConv2DNativeShapeWithExplicitPadding :: "unit cop" where
  "DepthwiseConv2DNativeShapeWithExplicitPadding = DepthwiseConv2DNativeShapeImpl True"

end
