(* ===== verification/PoolFns.thy ===== *)
theory PoolFns
  imports ConvMore
begin

text \<open>
  Shape functions of pooling and of fused batch normalisation
  (\<open>framework/common_shape_fns.cc\<close>).
\<close>

section \<open>Pooling\<close>

text \<open>
  \<open>AvgPoolShape\<close>, \<open>MaxPoolShapeImpl\<close> and \<open>MaxPoolV2Shape\<close> ignore the result of
  \<open>FormatFromString\<close>: with an unknown format the variable they go on with was never set.
\<close>

definition poolFormat :: "tensor_format cop" where
  "poolFormat =
     andThen (tryStatus (GetAttr GetAttrString ''data_format'')) (\<lambda>s.
     case s of
       Inl _ \<Rightarrow> ret FORMAT_NHWC
     | Inr str \<Rightarrow> (case FormatFromString str of None \<Rightarrow> faultWith Uninitialized | Some f \<Rightarrow> ret f))"

definition poolRank :: "tensor_format \<Rightarrow> int" where
  "poolRank f = (if f = FORMAT_NCHW_VECT_C then 5 else 4)"

definition formatDim :: "shape \<Rightarrow> tensor_format \<Rightarrow> char \<Rightarrow> dim cop" where
  "formatDim s f d = andThen (liftR (GetTensorDimIndexN 2 f d)) (Dim s)"

definition AvgPoolShape :: "unit cop" where
  "AvgPoolShape =
     andThen poolFormat (\<lambda>data_format.
     andThen (input 0) (\<lambda>i0. andThen (WithRank i0 (poolRank data_format)) (\<lambda>input_shape.
     andThen (CheckFormatConstraintsOnShape data_format input_shape) (\<lambda>_.
     andThen (GetAttr GetAttrInt32List ''strides'') (\<lambda>strides.
     andThen (failUnless (length strides = 4) InvalidArgument) (\<lambda>_.
     andThen (GetAttr GetAttrInt32List ''ksize'') (\<lambda>kernel_sizes.
     andThen (failUnless (length kernel_sizes = 4) InvalidArgument) (\<lambda>_.
     andThen (liftR (GetTensorDim strides data_format CHR ''H'')) (\<lambda>stride_rows.
     andThen (liftR (GetTensorDim strides data_format CHR ''W'')) (\<lambda>stride_cols.
     andThen (liftR (GetTensorDim kernel_sizes data_format CHR ''H'')) (\<lambda>kernel_rows.
     andThen (liftR (GetTensorDim kernel_sizes data_format CHR ''W'')) (\<lambda>kernel_cols.
     andThen (formatDim input_shape data_format CHR ''N'') (\<lambda>batch_size_dim.
     andThen (formatDim input_shape data_format CHR ''H'') (\<lambda>in_rows_dim.
     andThen (formatDim input_shape data_format CHR ''W'') (\<lambda>in_cols_dim.
     andThen (formatDim input_shape data_format CHR ''C'') (\<lambda>depth_dim.
     andThen (GetAttr GetAttrPadding ''padding'') (\<lambda>padding.
     andThen (dimOrConst (Const kernel_rows)) (\<lambda>_.
     andThen (GetWindowedOutputSizeFromDims in_rows_dim (Const kernel_rows) stride_rows padding) (\<lambda>output_rows.
     andThen (dimOrConst (Const kernel_cols)) (\<lambda>_.
     andThen (GetWindowedOutputSizeFromDims in_cols_dim (Const kernel_cols) stride_cols padding) (\<lambda>output_cols.
     andThen (MakeShapeFromFormat data_format (Handle batch_size_dim)
       [Handle output_rows, Handle output_cols] (Handle depth_dim))
       (set_output 0))))))))))))))))))))))"

definition AvgPoolGradShape :: "unit cop" where
  "AvgPoolGradShape = andThen (MakeShapeFromShapeTensor 0) (\<lambda>s. andThen (WithRank s 4) (set_output 0))"

text \<open>The strides, kernel sizes, input dimensions and paddings that give the output of a
  max pool; the depth is pooled too.\<close>

definition maxPoolOutput ::
    "shape \<Rightarrow> tensor_format \<Rightarrow> int list \<Rightarrow> int list \<Rightarrow> (padding \<times> int list) cop \<Rightarrow>
     (dim \<Rightarrow> dim_or_const \<Rightarrow> int \<Rightarrow> padding \<Rightarrow> int list \<Rightarrow> char \<Rightarrow> dim cop) \<Rightarrow> unit cop" where
  "maxPoolOutput input_shape data_format strides kernel_sizes paddings window =
     andThen (liftR (GetTensorDim strides data_format CHR ''C'')) (\<lambda>stride_depth.
     andThen (liftR (GetTensorDim strides data_format CHR ''H'')) (\<lambda>stride_rows.
     andThen (liftR (GetTensorDim strides data_format CHR ''W'')) (\<lambda>stride_cols.
     andThen (liftR (GetTensorDim kernel_sizes data_format CHR ''C'')) (\<lambda>kernel_depth.
     andThen (liftR (GetTensorDim kernel_sizes data_format CHR ''H'')) (\<lambda>kernel_rows.
     andThen (liftR (GetTensorDim kernel_sizes data_format CHR ''W'')) (\<lambda>kernel_cols.
     andThen (formatDim input_shape data_format CHR ''N'') (\<lambda>batch_size_dim.
     andThen (formatDim input_shape data_format CHR ''H'') (\<lambda>in_rows_dim.
     andThen (formatDim input_shape data_format CHR ''W'') (\<lambda>in_cols_dim.
     andThen (formatDim input_shape data_format CHR ''C'') (\<lambda>in_depth_dim.
     andThen paddings (\<lambda>(padding, explicit_paddings).
     andThen (window in_rows_dim (Const kernel_rows) stride_rows padding explicit_paddings CHR ''H'') (\<lambda>output_rows.
     andThen (window in_cols_dim (Const kernel_cols) stride_cols padding explicit_paddings CHR ''W'') (\<lambda>output_cols.
     andThen (window in_depth_dim (Const kernel_depth) stride_depth padding explicit_paddings CHR ''C'') (\<lambda>output_depth.
     andThen (MakeShapeFromFormat data_format (Handle batch_size_dim)
       [Handle output_rows, Handle output_cols] (Handle output_depth))
       (set_output 0)))))))))))))))"

text \<open>With explicit padding the depth is padded by 0.\<close>

definition maxPoolWindow ::
    "tensor_format \<Rightarrow> dim \<Rightarrow> dim_or_const \<Rightarrow> int \<Rightarrow> padding \<Rightarrow> int list \<Rightarrow> char \<Rightarrow> dim cop" where
  "maxPoolWindow data_format d k stride padding explicit_paddings letter =
     andThen (dimOrConst k) (\<lambda>_.
     andThen (liftR (if letter = CHR ''C'' then Inr (0, 0)
        else explicitPad padding explicit_paddings data_format letter)) (\<lambda>(before, after).
     GetWindowedOutputSizeFromDimsV2 d k 1 stride padding before after))"

definition MaxPoolShapeImpl :: "bool \<Rightarrow> unit cop" where
  "MaxPoolShapeImpl supports_explicit_padding =
     andThen poolFormat (\<lambda>data_format.
     andThen (input 0) (\<lambda>i0. andThen (WithRank i0 (poolRank data_format)) (\<lambda>input_shape.
     andThen (CheckFormatConstraintsOnShape data_format input_shape) (\<lambda>_.
     andThen (GetAttr GetAttrInt32List ''strides'') (\<lambda>strides.
     andThen (failUnless (length strides = 4) InvalidArgument) (\<lambda>_.
     andThen (GetAttr GetAttrInt32List ''ksize'') (\<lambda>kernel_sizes.
     andThen (failUnless (length kernel_sizes = 4) InvalidArgument) (\<lambda>_.
     maxPoolOutput input_shape data_format strides kernel_sizes
       (poolPaddings supports_explicit_padding data_format) (maxPoolWindow data_format)))))))))"

definition MaxPoolShape :: "unit cop" where
  "MaxPoolShape = MaxPoolShapeImpl False"

definition MaxPoolShapeWithExplicitPadding :: "unit cop" where
  "MaxPoolShapeWithExplicitPadding = MaxPoolShapeImpl True"

definition MaxPoolGradShape :: "unit cop" where
  "MaxPoolGradShape = UnchangedShapeWithRank 4"

text \<open>A vector attribute that comes as a constant tensor: \<open>flat<int32_t>()\<close> checks the type.\<close>

definition flatInt32 :: "tensor \<Rightarrow> int list res" where
  "flatInt32 t = (if t_dtype t = DT_INT32 then Inr (t_vals t) else Inl (Fault CheckFailed))"

definition MaxPoolV2Shape :: "int \<Rightarrow> unit cop" where
  "MaxPoolV2Shape n =
     andThen poolFormat (\<lambda>data_format.
     andThen (input 0) (\<lambda>i0. andThen (WithRank i0 (poolRank data_format)) (\<lambda>input_shape.
     andThen (CheckFormatConstraintsOnShape data_format input_shape) (\<lambda>_.
     andThen (gets num_inputs) (\<lambda>m.
     andThen
       (if m + 2 = n then
          andThen (GetAttr GetAttrInt32List ''ksize'') (\<lambda>k.
          andThen (GetAttr GetAttrInt32List ''strides'') (\<lambda>s. ret (Some (k, s))))
        else
          andThen (input (m - 2)) (\<lambda>i. andThen (WithRank i 1) (\<lambda>sz.
          andThen (Dim sz 0) (\<lambda>d. andThen (WithValue d 4) (\<lambda>_.
          andThen (input (m - 1)) (\<lambda>i. andThen (WithRank i 1) (\<lambda>sz.
          andThen (Dim sz 0) (\<lambda>d. andThen (WithValue d 4) (\<lambda>_.
          andThen (input_tensor (m - 2)) (\<lambda>kt.
          case kt of None \<Rightarrow> ret None | Some kt \<Rightarrow>
          andThen (liftR (flatInt32 kt)) (\<lambda>k.
          andThen (input_tensor (m - 1)) (\<lambda>st.
          case st of None \<Rightarrow> ret None | Some st \<Rightarrow>
          andThen (liftR (flatInt32 st)) (\<lambda>s. ret (Some (k, s))))))))))))))) (\<lambda>sizes.
     case sizes of
       None \<Rightarrow> andThen UnknownShape (set_output 0)
     | Some (kernel_sizes, strides) \<Rightarrow>
         andThen (failUnless (length strides = 4) InvalidArgument) (\<lambda>_.
         andThen (failUnless (length kernel_sizes = 4) InvalidArgument) (\<lambda>_.
         maxPoolOutput input_shape data_format strides kernel_sizes
           (andThen (GetAttr GetAttrPadding ''padding'') (\<lambda>p. ret (p, [])))
           (\<lambda>d k stride padding _ _. andThen (dimOrConst k) (\<lambda>_.
              GetWindowedOutputSizeFromDims d k stride padding))))))))))"

definition Pool3DShape :: "unit cop" where
  "Pool3DShape =
     andThen (input 0) (\<lambda>i0. andThen (WithRank i0 5) (\<lambda>input_shape.
     andThen (tryStatus (GetAttr GetAttrString ''data_format'')) (\<lambda>data_format.
     andThen (GetAttr GetAttrInt32List ''strides'') (\<lambda>strides.
     andThen (failUnless (length strides = 5) InvalidArgument) (\<lambda>_.
     andThen (GetAttr GetAttrInt32List ''ksize'') (\<lambda>kernel_sizes.
     andThen (failUnless (length kernel_sizes = 5) InvalidArgument) (\<lambda>_.
     let ncdhw = (data_format = Inr ''NCDHW''); k = (if ncdhw then 2 else 1) in
     andThen (if ncdhw then toNDHWC input_shape else ret input_shape) (\<lambda>input_shape.
     andThen (Dim input_shape 0) (\<lambda>batch_size_dim.
     andThen (Dim input_shape 1) (\<lambda>in_planes_dim.
     andThen (Dim input_shape 2) (\<lambda>in_rows_dim.
     andThen (Dim input_shape 3) (\<lambda>in_cols_dim.
     andThen (Dim input_shape 4) (\<lambda>output_depth_dim.
     andThen (GetAttr GetAttrPadding ''padding'') (\<lambda>padding.
     andThen (mapOp (\<lambda>(d, ks, s).
                andThen (dimOrConst (Const ks)) (\<lambda>_. GetWindowedOutputSizeFromDims d (Const ks) s padding))
              [(in_planes_dim, kernel_sizes ! k, strides ! k),
               (in_rows_dim, kernel_sizes ! (k + 1), strides ! (k + 1)),
               (in_cols_dim, kernel_sizes ! (k + 2), strides ! (k + 2))]) (\<lambda>output_dims.
     andThen (MakeShapeOf (map Handle
         (if ncdhw then [batch_size_dim, output_depth_dim] @ output_dims
          else [batch_size_dim] @ output_dims @ [output_depth_dim])))
       (set_output 0))))))))))))))))"

definition MaxPool3DGradShape :: "unit cop" where
  "MaxPool3DGradShape = UnchangedShapeWithRank 5"

definition AvgPool3DGradShape :: "unit cop" where
  "AvgPool3DGradShape = andThen (MakeShapeFromShapeTensor 0) (\<lambda>s. andThen (WithRank s 5) (set_output 0))"

section \<open>Fused batch normalisation\<close>

text \<open>The bit pattern of \<open>1.0f\<close>; no other pattern is equal to it as a float.\<close>

definition one_f :: nat where "one_f = 1065353216"

definition batchNormFormat :: "(tensor_format \<times> int) cop" where
  "batchNormFormat =
     andThen (GetAttr GetAttrString ''data_format'') (\<lambda>data_format_str.
     case FormatFromString data_format_str of None \<Rightarrow> failWith InvalidArgument | Some data_format \<Rightarrow>
     ret (data_format, if data_format_str = ''NDHWC'' \<or> data_format_str = ''NCDHW'' then 5 else 4))"

text \<open>The loop that merges the channel dimension with the inputs \<open>is\<close>, all vectors.\<close>

definition mergeChannels :: "int list \<Rightarrow> dim \<Rightarrow> dim cop" where
  "mergeChannels =
     foldOp (\<lambda>i channel_dim.
       andThen (input i) (\<lambda>s. andThen (WithRank s 1) (\<lambda>vec.
       andThen (Dim vec 0) (MergeDim channel_dim))))"

definition FusedBatchNormShape :: "unit cop" where
  "FusedBatchNormShape =
     andThen batchNormFormat (\<lambda>(data_format, rank).
     andThen (input 0) (\<lambda>i0. andThen (WithRank i0 rank) (\<lambda>x.
     andThen (GetAttr GetAttrBool ''is_training'') (\<lambda>is_training.
     andThen (GetAttrOr GetAttrFloat ''exponential_avg_factor'' one_f) (\<lambda>exponential_avg_factor.
     let number_inputs = (if is_training \<and> exponential_avg_factor = one_f then 3 else 5);
         channel_dim_index = GetTensorFeatureDimIndex rank data_format
     in
     andThen (Dim x channel_dim_index) (\<lambda>channel_dim.
     andThen (mergeChannels [1..number_inputs - 1] channel_dim) (\<lambda>channel_dim.
     andThen (ReplaceDim x channel_dim_index channel_dim) (\<lambda>y.
     andThen (set_output 0 y) (\<lambda>_.
     andThen (Vector (Handle channel_dim)) (\<lambda>v.
     iterOp (\<lambda>i. set_output i v) [1, 2, 3, 4]))))))))))"

definition FusedBatchNormV3Shape :: "unit cop" where
  "FusedBatchNormV3Shape =
     andThen FusedBatchNormShape (\<lambda>_. andThen UnknownShape (set_output 5))"

definition FusedBatchNormExShape :: "unit cop" where
  "FusedBatchNormExShape =
     andThen FusedBatchNormV3Shape (\<lambda>_.
     andThen batchNormFormat (\<lambda>(data_format, _).
     andThen (input 0) (\<lambda>i0. andThen (WithRank i0 4) (\<lambda>x.
     andThen (Dim x (GetTensorFeatureDimIndex 4 data_format)) (\<lambda>channel_dim.
     andThen (gets (\<lambda>c. DValue c channel_dim)) (\<lambda>v.
     failUnless (v = kUnknownDim \<or> cmod v 4 = 0) InvalidArgument))))))"

definition FusedBatchNormGradShape :: "unit cop" where
  "FusedBatchNormGradShape =
     andThen batchNormFormat (\<lambda>(data_format, rank).
     andThen (input 0) (\<lambda>i0. andThen (WithRank i0 rank) (\<lambda>y_backprop.
     andThen (input 1) (\<lambda>i1. andThen (WithRank i1 rank) (\<lambda>x.
     andThen (GetAttr GetAttrBool ''is_training'') (\<lambda>is_training.
     let channel_dim_index = GetTensorFeatureDimIndex rank data_format in
     andThen (Dim y_backprop channel_dim_index) (\<lambda>yd.
     andThen (Dim x channel_dim_index) (\<lambda>xd.
     andThen (MergeDim yd xd) (\<lambda>channel_dim.
     andThen (mergeChannels [2, 3, 4] channel_dim) (\<lambda>channel_dim.
     andThen (ReplaceDim y_backprop channel_dim_index channel_dim) (\<lambda>x_backprop.
     andThen (set_output 0 x_backprop) (\<lambda>_.
     andThen (andThen (Vector (Handle channel_dim)) (set_output 1)) (\<lambda>_.
     andThen (andThen (Vector (Handle channel_dim)) (set_output 2)) (\<lambda>_.
     andThen (andThen (Vector (Const 0)) (set_output 3)) (\<lambda>_.
     andThen (Vector (Const 0)) (set_output 4))))))))))))))))"

definition FusedBatchNormGradExShape :: "unit cop" where
  "FusedBatchNormGradExShape =
     andThen FusedBatchNormGradShape (\<lambda>_.
     andThen (GetAttr GetAttrInt32 ''num_side_inputs'') (\<lambda>num_side_inputs.
     if num_side_inputs = 0 then ret ()
     else
       andThen batchNormFormat (\<lambda>(data_format, rank).
       andThen (input 0) (\<lambda>i0. andThen (WithRank i0 rank) (\<lambda>y_backprop.
       andThen (input 1) (\<lambda>i1. andThen (WithRank i1 rank) (\<lambda>x.
       let channel_dim_index = GetTensorFeatureDimIndex rank data_format in
       andThen (Dim y_backprop channel_dim_index) (\<lambda>yd.
       andThen (Dim x channel_dim_index) (\<lambda>xd.
       andThen (MergeDim yd xd) (\<lambda>channel_dim.
       andThen (ReplaceDim y_backprop channel_dim_index channel_dim) (set_output 5)))))))))))"

end
