(* ===== verification/DiagFns.thy ===== *)
theory DiagFns
  imports BasicFns
begin

text \<open>
  The shape functions of the batched diagonal operations
  (\<open>framework/common_shape_fns.cc\<close>): \<open>MatrixDiagPartV2Shape\<close>, \<open>MatrixDiagV2Shape\<close> and
  \<open>MatrixSetDiagV2Shape\<close>. Sizes are narrowed to \<open>int32_t\<close> where the code does it.
\<close>

definition add32 :: "int \<Rightarrow> int \<Rightarrow> int res" where "add32 a b = signed32 (a + b)"
definition sub32 :: "int \<Rightarrow> int \<Rightarrow> int res" where "sub32 a b = signed32 (a - b)"

definition scalarInt32 :: "tensor \<Rightarrow> int res" where
  "scalarInt32 t = (if t_dtype t = DT_INT32 then scalarOf t else Inl (Fault CheckFailed))"

definition vecInt32 :: "tensor \<Rightarrow> int list res" where
  "vecInt32 t = (if t_dtype t = DT_INT32 \<and> tensor_rank t = 1 then Inr (t_vals t) else Inl (Fault CheckFailed))"

definition ReadDiagIndex :: "tensor \<Rightarrow> (int \<times> int) res" where
  "ReadDiagIndex t =
    (if tensor_rank t = 0 then bindR (scalarInt32 t) (\<lambda>v. Inr (v, v))
     else
       let num_elements = to_int32 (t_dims t ! 0) in
       if num_elements = 1 then
         bindR (vecInt32 t) (\<lambda>vs. bindR (vecAt vs 0) (\<lambda>v. Inr (v, v)))
       else if num_elements = 2 then
         bindR (vecInt32 t) (\<lambda>vs. bindR (vecAt vs 0) (\<lambda>v. bindR (vecAt vs 1) (\<lambda>u. Inr (v, u))))
       else Inl (Status InvalidArgument))"

text \<open>\<open>index != 0 && (-num_rows >= index || index >= num_cols)\<close>\<close>

definition diagIndexOutOfBound :: "int \<Rightarrow> int \<Rightarrow> int \<Rightarrow> bool res" where
  "diagIndexOutOfBound index num_rows num_cols =
    (if index = 0 then Inr False
     else bindR (signed32 (- num_rows)) (\<lambda>m. Inr (m \<ge> index \<or> index \<ge> num_cols)))"

definition checkDiagIndex :: "int \<Rightarrow> int \<Rightarrow> int \<Rightarrow> int \<Rightarrow> unit res" where
  "checkDiagIndex lower upper num_rows num_cols =
     bindR (diagIndexOutOfBound lower num_rows num_cols) (\<lambda>b1.
     if b1 then Inl (Status InvalidArgument) else
     bindR (diagIndexOutOfBound upper num_rows num_cols) (\<lambda>b2.
     if b2 then Inl (Status InvalidArgument) else Inr ()))"

definition MatrixDiagPartV2Shape :: "unit cop" where
  "MatrixDiagPartV2Shape =
     andThen (input 0) (\<lambda>i0. andThen (WithRankAtLeast i0 2) (\<lambda>input_shape.
     andThen (input 1) (\<lambda>i1. andThen (WithRankAtMost i1 1) (\<lambda>diag_index_shape.
     andThen (input 2) (\<lambda>i2. andThen (WithRank i2 0) (\<lambda>_.
     andThen (input_tensor 1) (\<lambda>diag_index_tensor.
     andThen (gets (\<lambda>c. RankKnown c input_shape \<and> FullyDefined c diag_index_shape)) (\<lambda>known.
     if \<not> known \<or> diag_index_tensor = None then andThen UnknownShape (set_output 0)
     else
     andThen (liftR (ReadDiagIndex (the diag_index_tensor))) (\<lambda>(lower, upper).
     andThen (failUnless (\<not> lower > upper) InvalidArgument) (\<lambda>_.
     andThen (gets (\<lambda>c. Rank c input_shape)) (\<lambda>input_rank.
     andThen (Dim input_shape (input_rank - 2)) (\<lambda>dr.
     andThen (Dim input_shape (input_rank - 1)) (\<lambda>dc.
     andThen (gets (\<lambda>c. (to_int32 (DValue c dr), to_int32 (DValue c dc)))) (\<lambda>(num_rows, num_cols).
     andThen
       (if num_rows \<noteq> kUnknownDim \<and> num_cols \<noteq> kUnknownDim then
          liftR (bindR (checkDiagIndex lower upper num_rows num_cols) (\<lambda>_.
            bindR (add32 num_rows (min upper 0)) (\<lambda>a.
            bindR (sub32 num_cols (max lower 0)) (\<lambda>b. Inr (min a b)))))
        else ret kUnknownDim) (\<lambda>max_diag_len.
     andThen (mapOp (\<lambda>i. Dim input_shape (int i)) [0..<nat (input_rank - 2)]) (\<lambda>dims.
     andThen
       (if lower < upper then
          andThen (liftR (bindR (sub32 upper lower) (\<lambda>d. add32 d 1))) (\<lambda>n.
          andThen (MakeDim (Const n)) (\<lambda>d. ret (dims @ [d])))
        else ret dims) (\<lambda>dims.
     andThen (MakeDim (Const max_diag_len)) (\<lambda>d.
     andThen (MakeShape (dims @ [d])) (set_output 0)))))))))))))))))))"

text \<open>The numbers of rows and columns \<open>MatrixDiagV2Shape\<close> settles on.\<close>

definition inferRowsCols :: "int \<Rightarrow> int \<Rightarrow> int \<Rightarrow> int \<Rightarrow> int \<Rightarrow> (int \<times> int) res" where
  "inferRowsCols max_diag_len lower upper num_rows0 num_cols0 =
     bindR (sub32 max_diag_len (min upper 0)) (\<lambda>min_num_rows.
     bindR (add32 max_diag_len (max lower 0)) (\<lambda>min_num_cols.
     let both = (num_rows0 = - 1 \<and> num_cols0 = - 1);
         num_rows1 = (if both then max min_num_rows min_num_cols else num_rows0);
         num_cols1 = (if both then num_rows1 else num_cols0)
     in
     if num_rows1 \<noteq> - 1 \<and> num_rows1 < min_num_rows then Inl (Status InvalidArgument)
     else
       let num_rows = (if num_rows1 = - 1 then min_num_rows else num_rows1) in
       if num_cols1 \<noteq> - 1 \<and> num_cols1 < min_num_cols then Inl (Status InvalidArgument)
       else
         let num_cols = (if num_cols1 = - 1 then min_num_cols else num_cols1) in
         if num_rows \<noteq> min_num_rows \<and> num_cols \<noteq> min_num_cols then Inl (Status InvalidArgument)
         else Inr (num_rows, num_cols)))"

definition scalarOrMissing :: "tensor option \<Rightarrow> int res" where
  "scalarOrMissing t = (case t of None \<Rightarrow> Inr (- 1) | Some t \<Rightarrow> GetScalarFromTensor t)"

definition MatrixDiagV2Shape :: "unit cop" where
  "MatrixDiagV2Shape =
     andThen (input 0) (\<lambda>i0. andThen (WithRankAtLeast i0 1) (\<lambda>input_shape.
     andThen (input 1) (\<lambda>i1. andThen (WithRankAtMost i1 1) (\<lambda>diag_index_shape.
     andThen (input 2) (\<lambda>i2. andThen (WithRank i2 0) (\<lambda>_.
     andThen (input 3) (\<lambda>i3. andThen (WithRank i3 0) (\<lambda>_.
     andThen (input 4) (\<lambda>i4. andThen (WithRank i4 0) (\<lambda>_.
     andThen (input_tensor 1) (\<lambda>diag_index_tensor.
     andThen (gets (\<lambda>c. RankKnown c input_shape \<and> FullyDefined c diag_index_shape)) (\<lambda>known.
     if \<not> known \<or> diag_index_tensor = None then andThen UnknownShape (set_output 0)
     else
     andThen (liftR (ReadDiagIndex (the diag_index_tensor))) (\<lambda>(lower, upper).
     andThen (failUnless (\<not> lower > upper) InvalidArgument) (\<lambda>_.
     andThen (gets (\<lambda>c. Rank c input_shape)) (\<lambda>input_rank.
     andThen
       (if lower < upper then
          andThen (Dim input_shape (input_rank - 2)) (\<lambda>d2.
          andThen (Dim input_shape (input_rank - 1)) (\<lambda>d1.
          andThen (gets (\<lambda>c. to_int32 (DValue c d2))) (\<lambda>num_diags.
          andThen (liftR (bindR (sub32 upper lower) (\<lambda>d. add32 d 1))) (\<lambda>n.
          failUnless (num_diags = n) InvalidArgument))))
        else ret ()) (\<lambda>_.
     andThen (input_tensor 2) (\<lambda>num_rows_tensor.
     andThen (input_tensor 3) (\<lambda>num_cols_tensor.
     andThen (liftR (scalarOrMissing num_rows_tensor)) (\<lambda>num_rows.
     andThen (liftR (scalarOrMissing num_cols_tensor)) (\<lambda>num_cols.
     andThen (Dim input_shape (input_rank - 1)) (\<lambda>dl.
     andThen (gets (\<lambda>c. to_int32 (DValue c dl))) (\<lambda>max_diag_len.
     andThen (liftR (inferRowsCols max_diag_len lower upper num_rows num_cols)) (\<lambda>(num_rows, num_cols).
     andThen (MakeDim (Const num_rows)) (\<lambda>output_row_dim.
     andThen (MakeDim (Const num_cols)) (\<lambda>output_col_dim.
     andThen
       (if lower = upper then
          andThen (ReplaceDim input_shape (input_rank - 1) output_row_dim) (\<lambda>s.
          andThen (Vector (Handle output_col_dim)) (\<lambda>v. Concatenate s v))
        else
          andThen (ReplaceDim input_shape (input_rank - 2) output_row_dim) (\<lambda>s.
          ReplaceDim s (input_rank - 1) output_col_dim)) (set_output 0))))))))))))))))))))))))))"

definition MatrixSetDiagV2Shape :: "unit cop" where
  "MatrixSetDiagV2Shape =
     andThen (input 0) (\<lambda>i0. andThen (WithRankAtLeast i0 2) (\<lambda>input_shape.
     andThen (input 1) (\<lambda>i1. andThen (WithRankAtLeast i1 1) (\<lambda>diag_shape.
     andThen (input 2) (\<lambda>i2. andThen (WithRankAtMost i2 1) (\<lambda>diag_index_shape.
     andThen (input_tensor 2) (\<lambda>diag_index_tensor.
     andThen (gets (\<lambda>c. diag_index_tensor \<noteq> None \<and> FullyDefined c diag_index_shape)) (\<lambda>diag_index_known.
     andThen
       (if diag_index_known then
          andThen (liftR (ReadDiagIndex (the diag_index_tensor))) (\<lambda>(lower, upper).
          andThen (failUnless (\<not> lower > upper) InvalidArgument) (\<lambda>_. ret (lower, upper)))
        else ret (0, 0)) (\<lambda>(lower, upper).
     andThen (gets (\<lambda>c. (RankKnown c input_shape, Rank c input_shape))) (\<lambda>(known, input_rank).
     andThen
       (if known then
          andThen
            (if diag_index_known then
               WithRank i1 (if lower = upper then input_rank - 1 else input_rank)
             else andThen (WithRankAtLeast i1 (input_rank - 1)) (\<lambda>_. WithRankAtMost i1 input_rank))
            (\<lambda>diag_shape.
          andThen (Dim input_shape (input_rank - 2)) (\<lambda>dr.
          andThen (Dim input_shape (input_rank - 1)) (\<lambda>dc.
          andThen (gets (\<lambda>c. (to_int32 (DValue c dr), to_int32 (DValue c dc)))) (\<lambda>(num_rows, num_cols).
          andThen
            (if num_rows \<noteq> kUnknownDim \<and> num_cols \<noteq> kUnknownDim
             then liftR (checkDiagIndex lower upper num_rows num_cols) else ret ()) (\<lambda>_.
          ret diag_shape)))))
        else ret diag_shape) (\<lambda>diag_shape.
     andThen (gets (\<lambda>c. RankKnown c diag_shape \<and> \<not> FullyDefined c input_shape)) (\<lambda>infer.
     andThen
       (if infer then
          andThen (SubshapeRange diag_shape 0 (if lower = upper then - 1 else - 2)) (\<lambda>diag_prefix.
          andThen (UnknownShapeOfRank 2) (\<lambda>u.
          andThen (Concatenate diag_prefix u) (\<lambda>diag_shape. MergeShape input_shape diag_shape)))
        else ret input_shape) (set_output 0)))))))))))))"

end
