(* ===== verification/ArrayFns.thy ===== *)
theory ArrayFns
  imports BasicFns
begin

text \<open>
  Shape functions of reductions, concatenation, slices, segments, gathers, scatters and
  sparse tensors (\<open>framework/common_shape_fns.cc\<close>).
\<close>

section \<open>Reductions\<close>

text \<open>
  \<open>ReductionShapeHelper\<close>: the indices as a list without duplicates (a \<open>std::set\<close>), with
  the element type's arithmetic, \<open>wrapped_index += input_rank\<close>, in range.
\<close>

fun ReductionShapeHelper :: "int list \<Rightarrow> int \<Rightarrow> int list \<Rightarrow> int list res" where
  "ReductionShapeHelper [] input_rank true_indices = Inr true_indices"
| "ReductionShapeHelper (i # is) input_rank true_indices =
    (if i < - input_rank \<or> i \<ge> input_rank then Inl (Status InvalidArgument)
     else ReductionShapeHelper is input_rank
            (List.insert (if i < 0 then i + input_rank else i) true_indices))"

definition ReductionShape :: "unit cop" where
  "ReductionShape =
     andThen (input 0) (\<lambda>inp.
     andThen (gets graph_def_version) (\<lambda>version.
     andThen (if version < 21 then input 1
              else andThen (input 1) (\<lambda>i1. WithRankAtMost i1 1)) (\<lambda>indices.
     andThen (GetAttr GetAttrBool ''keep_dims'') (\<lambda>keep_dims.
     andThen (input_tensor 1) (\<lambda>reduction_indices_t.
     andThen (gets (\<lambda>c. (RankKnown c inp, Rank c inp))) (\<lambda>(known, input_rank).
     case reduction_indices_t of
       None \<Rightarrow>
         if keep_dims \<and> known then andThen (UnknownShapeOfRank input_rank) (set_output 0)
         else UnknownShapeFn
     | Some t \<Rightarrow>
         if \<not> known then UnknownShapeFn
         else
         andThen
           (if t_dtype t \<in> {DT_INT32, DT_INT64} then liftR (ReductionShapeHelper (t_vals t) input_rank [])
            else failWith InvalidArgument) (\<lambda>true_indices.
         andThen
           (mapOp (\<lambda>i. if int i \<in> set true_indices
                        then (if keep_dims then andThen (MakeDim (Const 1)) (\<lambda>d. ret [d]) else ret [])
                        else andThen (Dim inp (int i)) (\<lambda>d. ret [d]))
              [0..<nat input_rank]) (\<lambda>dims.
         andThen (MakeShape (concat dims)) (set_output 0)))))))))"

section \<open>Concatenation\<close>

text \<open>The first known rank of the inputs, \<open>-1\<close> when there is none.\<close>

primrec findRank :: "int list \<Rightarrow> int cop" where
  "findRank [] = ret kUnknownRank"
| "findRank (i # is) =
     andThen (input i) (\<lambda>s.
     andThen (gets (\<lambda>c. Rank c s)) (\<lambda>r.
     if r \<noteq> kUnknownRank then ret r else findRank is))"

definition splitAtAxis :: "shape \<Rightarrow> int \<Rightarrow> int \<Rightarrow> (shape \<times> dim \<times> shape) cop" where
  "splitAtAxis s min_rank concat_dim =
     andThen (WithRankAtLeast s min_rank) (\<lambda>s.
     andThen (SubshapeRange s 0 concat_dim) (\<lambda>before.
     andThen (Dim s concat_dim) (\<lambda>middle.
     andThen (if concat_dim = - 1 then Scalar else SubshapeFrom s (concat_dim + 1)) (\<lambda>after.
     ret (before, middle, after)))))"

definition concatStep :: "int \<Rightarrow> int \<Rightarrow> int \<Rightarrow> shape \<times> dim \<times> shape \<Rightarrow> (shape \<times> dim \<times> shape) cop" where
  "concatStep min_rank concat_dim i = (\<lambda>(output_before, output_middle, output_after).
     andThen (input i) (\<lambda>s.
     andThen (splitAtAxis s min_rank concat_dim) (\<lambda>(before, middle, after).
     andThen (MergeShape before output_before) (\<lambda>output_before.
     andThen (Add output_middle (Handle middle)) (\<lambda>output_middle.
     andThen (MergeShape after output_after) (\<lambda>output_after.
     ret (output_before, output_middle, output_after)))))))"

definition flatAt0 :: "tensor \<Rightarrow> int res" where
  "flatAt0 t = (if t_dtype t \<in> {DT_INT32, DT_INT64} then vecAt (t_vals t) 0 else Inl (Fault CheckFailed))"

definition concatUnknownAxis :: "int \<Rightarrow> int \<Rightarrow> unit cop" where
  "concatUnknownAxis start_value_index end_value_index =
     (let idxs = [start_value_index..end_value_index - 1] in
     andThen (findRank idxs) (\<lambda>rank.
     if rank = kUnknownRank then andThen UnknownShape (set_output 0)
     else if rank = 0 then failWith InvalidArgument
     else
       andThen (iterOp (\<lambda>i. andThen (input i) (\<lambda>s. andThen (WithRank s rank) (\<lambda>_. ret ()))) idxs) (\<lambda>_.
       andThen (mapOp (\<lambda>_. UnknownDim) [0..<nat rank]) (\<lambda>dims.
       andThen (MakeShape dims) (set_output 0)))))"

definition ConcatShapeHelper :: "int \<Rightarrow> int \<Rightarrow> int \<Rightarrow> unit cop" where
  "ConcatShapeHelper start_value_index end_value_index dim_index =
     andThen (input dim_index) (\<lambda>sd. andThen (WithRank sd 0) (\<lambda>_.
     andThen (input_tensor dim_index) (\<lambda>concat_dim_t.
     case concat_dim_t of
       None \<Rightarrow> concatUnknownAxis start_value_index end_value_index
     | Some t \<Rightarrow>
         andThen (liftR (flatAt0 t)) (\<lambda>concat_dim.
         andThen (liftR (if concat_dim < 0 then signed64 (- concat_dim) else signed64 (concat_dim + 1))) (\<lambda>min_rank.
         andThen (input (end_value_index - 1)) (\<lambda>s.
         andThen (splitAtAxis s min_rank concat_dim) (\<lambda>p.
         andThen (foldOp (concatStep min_rank concat_dim)
                    (rev [start_value_index..end_value_index - 2]) p)
           (\<lambda>(output_before, output_middle, output_after).
         andThen (Vector (Handle output_middle)) (\<lambda>v.
         andThen (Concatenate output_before v) (\<lambda>s.
         andThen (Concatenate s output_after) (set_output 0)))))))))))"

definition ConcatShape :: "int \<Rightarrow> unit cop" where
  "ConcatShape num_inputs_to_concat = ConcatShapeHelper 1 (1 + num_inputs_to_concat) 0"

definition ConcatV2Shape :: "unit cop" where
  "ConcatV2Shape = andThen (gets num_inputs) (\<lambda>n. ConcatShapeHelper 0 (n - 1) (n - 1))"

definition QuantizedConcatV2Shape :: "int \<Rightarrow> unit cop" where
  "QuantizedConcatV2Shape n = ConcatShapeHelper 0 n n"

section \<open>Random shapes and segments\<close>

definition RandomShape :: "unit cop" where
  "RandomShape = andThen (MakeShapeFromShapeTensor 0) (set_output 0)"

definition SegmentReductionWithNumSegmentsShapeFn :: "unit cop" where
  "SegmentReductionWithNumSegmentsShapeFn =
     andThen (input 0) (\<lambda>s_data. andThen (input 1) (\<lambda>s_segment_ids. andThen (input 2) (\<lambda>s2.
     andThen (WithRank s2 0) (\<lambda>_.
     andThen (gets (\<lambda>c. RankKnown c s_segment_ids)) (\<lambda>known.
     andThen
       (if known then
          andThen (MergePrefix s_data s_segment_ids) (\<lambda>(s_data, s_segment_ids).
          andThen (MakeDimForScalarInput 2) (\<lambda>num_segments_dim.
          andThen (gets (\<lambda>c. Rank c s_segment_ids)) (\<lambda>r.
          andThen (SubshapeFrom s_data r) (\<lambda>s_data_suffix.
          andThen (Vector (Handle num_segments_dim)) (\<lambda>v. Concatenate v s_data_suffix)))))
        else UnknownShape) (set_output 0))))))"

section \<open>Slices\<close>

text \<open>\<open>SliceHelper<T>\<close>: \<open>sizes_value->vec<T>()\<close> checks rank and type.\<close>

definition sliceHelperDim :: "shape \<Rightarrow> nat \<times> int \<Rightarrow> dim cop" where
  "sliceHelperDim begin_value = (\<lambda>(i, sz).
     andThen (input 0) (\<lambda>s. andThen (Dim s (int i)) (\<lambda>d.
     if sz \<noteq> - 1 then (if sz < 0 then failWith InvalidArgument else MakeDim (Const sz))
     else andThen (Dim begin_value (int i)) (\<lambda>b. Subtract d (Handle b)))))"

definition SliceHelper :: "shape \<Rightarrow> tensor \<Rightarrow> dim list cop" where
  "SliceHelper begin_value sizes_value =
     andThen (checkThat (tensor_rank sizes_value = 1 \<and> t_dtype sizes_value \<in> {DT_INT32, DT_INT64}) CheckFailed)
       (\<lambda>_. mapOp (sliceHelperDim begin_value) (enumerate 0 (t_vals sizes_value)))"

definition SliceShape :: "unit cop" where
  "SliceShape =
     andThen (input 0) (\<lambda>inp.
     andThen (input 1) (\<lambda>i1. andThen (WithRank i1 1) (\<lambda>begin_shape.
     andThen (input 2) (\<lambda>i2. andThen (WithRank i2 1) (\<lambda>sizes_shape.
     andThen (MergeShape begin_shape sizes_shape) (\<lambda>begin_shape.
     andThen (Dim begin_shape 0) (\<lambda>ndims.
     andThen (gets (\<lambda>c. DValue c ndims)) (\<lambda>n.
     andThen (if n \<noteq> kUnknownDim then WithRank inp n else ret inp) (\<lambda>inp.
     andThen (MakeShapeFromShapeTensor 1) (\<lambda>begin_value.
     andThen (input_tensor 2) (\<lambda>sizes_value.
     case sizes_value of
       Some sizes \<Rightarrow>
         andThen (WithRank begin_value (NumElementsOf sizes)) (\<lambda>begin_value.
         andThen (SliceHelper begin_value sizes) (\<lambda>dims.
         andThen (MakeShape dims) (set_output 0)))
     | None \<Rightarrow>
         andThen (MakeShapeFromShapeTensor 2) (\<lambda>sizes_value.
         andThen (gets (\<lambda>c. (RankKnown c sizes_value, Rank c sizes_value, RankKnown c inp, Rank c inp)))
           (\<lambda>(sizes_known, sizes_rank, input_known, input_rank).
         if sizes_known then
           andThen (WithRank begin_value sizes_rank) (\<lambda>_.
           andThen (dimsOf sizes_value) (\<lambda>dims.
           andThen (MakeShape dims) (set_output 0)))
         else if input_known then andThen (UnknownShapeOfRank input_rank) (set_output 0)
         else UnknownShapeFn)))))))))))))"

end
