(* ===== verification/SparseFns.thy ===== *)
theory SparseFns
  imports ArrayFns PoolFns
begin

text \<open>
  Shape functions of sparse tensors, gathers, scatters, quantized operations and
  reduce-scatter (\<open>framework/common_shape_fns.cc\<close>).
\<close>

section \<open>Sparse tensors and resources\<close>

definition ValidateSparseTensor :: "shape \<Rightarrow> shape \<Rightarrow> shape \<Rightarrow> unit cop" where
  "ValidateSparseTensor indices_shape values_shape shape_shape =
     andThen (WithRank indices_shape 2) (\<lambda>_.
     andThen (WithRank values_shape 1) (\<lambda>_.
     andThen (WithRank shape_shape 1) (\<lambda>_.
     andThen (Dim indices_shape 0) (\<lambda>di.
     andThen (gets (\<lambda>c. DValue c di)) (\<lambda>num_index_elements.
     andThen
       (if num_index_elements \<noteq> kUnknownDim then
          andThen (Dim values_shape 0) (\<lambda>dv.
          andThen (gets (\<lambda>c. DValue c dv)) (\<lambda>num_values_elements.
          failUnless (num_values_elements = kUnknownDim \<or> num_index_elements = num_values_elements)
            InvalidArgument))
        else ret ()) (\<lambda>_.
     andThen (Dim indices_shape 1) (\<lambda>dr.
     andThen (gets (\<lambda>c. DValue c dr)) (\<lambda>index_rank.
     if index_rank \<noteq> kUnknownDim then
       andThen (Dim shape_shape 0) (\<lambda>ds.
       andThen (gets (\<lambda>c. DValue c ds)) (\<lambda>shape_rank.
       failUnless (shape_rank = kUnknownDim \<or> index_rank = to_int32 shape_rank) InvalidArgument))
     else ret ()))))))))"

definition ValidateVariableResourceHandle :: "shape_and_type list cop" where
  "ValidateVariableResourceHandle =
     andThen (input_handle_shapes_and_types_at 0) (\<lambda>handle_data.
     case handle_data of
       None \<Rightarrow> andThen UnknownShape (\<lambda>s. ret [\<lparr>st_shape = s, st_dtype = DT_INVALID\<rparr>])
     | Some [] \<Rightarrow> andThen UnknownShape (\<lambda>s. ret [\<lparr>st_shape = s, st_dtype = DT_INVALID\<rparr>])
     | Some (st # sts) \<Rightarrow>
         andThen (GetAttr GetAttrType ''dtype'') (\<lambda>value_dtype.
         andThen (failUnless (st_dtype st = value_dtype) InvalidArgument) (\<lambda>_.
         ret (st # sts))))"

section \<open>Gather and scatter\<close>

definition GatherNdShape :: "unit cop" where
  "GatherNdShape =
     andThen (input_handle_shapes_and_types_at 0) (\<lambda>h.
     andThen
       (if h \<noteq> None then andThen ValidateVariableResourceHandle (\<lambda>sts. liftR (bindR (vecAt sts 0) (\<lambda>st. Inr (st_shape st))))
        else input 0) (\<lambda>params.
     andThen (input 1) (\<lambda>i1. andThen (WithRankAtLeast i1 1) (\<lambda>indices.
     andThen (Dim indices (- 1)) (\<lambda>r_dim.
     andThen (gets (\<lambda>c. (RankKnown c params, Rank c params, DValue c r_dim))) (\<lambda>(known, params_rank, r).
     if \<not> known \<or> r = kUnknownDim then andThen UnknownShape (set_output 0)
     else if r > params_rank then failWith InvalidArgument
     else
       andThen (SubshapeRange indices 0 (- 1)) (\<lambda>indices_slice.
       andThen (SubshapeFrom params r) (\<lambda>params_slice.
       andThen (Concatenate indices_slice params_slice) (set_output 0)))))))))"

text \<open>\<open>a && (b || c)\<close> over values of \<open>NumElements\<close>, evaluated from the left.\<close>

definition emptyInputWithUpdates :: "shape \<Rightarrow> shape \<Rightarrow> shape \<Rightarrow> bool cop" where
  "emptyInputWithUpdates indices_shape updates_shape input_shape =
     andThen (NumElements input_shape) (\<lambda>n.
     andThen (gets (\<lambda>c. DValue c n)) (\<lambda>n.
     if n \<noteq> 0 then ret False
     else
       andThen (NumElements indices_shape) (\<lambda>i.
       andThen (gets (\<lambda>c. DValue c i)) (\<lambda>i.
       if i > 0 then ret True
       else
         andThen (NumElements updates_shape) (\<lambda>u.
         gets (\<lambda>c. DValue c u > 0))))))"

definition ScatterNdShapeHelper :: "shape \<Rightarrow> shape \<Rightarrow> shape \<Rightarrow> unit cop" where
  "ScatterNdShapeHelper indices_shape updates_shape input_shape =
     andThen (emptyInputWithUpdates indices_shape updates_shape input_shape) (\<lambda>bad.
     if bad then failWith InvalidArgument
     else
     andThen (gets (\<lambda>c. RankKnown c indices_shape \<and> RankKnown c updates_shape \<and> Rank c updates_shape \<noteq> 0))
       (\<lambda>check.
     andThen
       (if check then
          andThen (gets (\<lambda>c. Rank c indices_shape - 1)) (\<lambda>outer_dims.
          andThen (Dim indices_shape (- 1)) (\<lambda>ixdim.
          andThen (gets (\<lambda>c. DValue c ixdim)) (\<lambda>ix.
          if ix \<noteq> kUnknownDim then
            andThen (SubshapeRange indices_shape 0 outer_dims) (\<lambda>prefix_indices.
            andThen (SubshapeRange updates_shape 0 outer_dims) (\<lambda>prefix_updates.
            andThen (tryStatus (MergeShape prefix_indices prefix_updates)) (\<lambda>s.
            case s of
              Inl _ \<Rightarrow> failWith InvalidArgument
            | Inr _ \<Rightarrow>
                andThen (SubshapeFrom input_shape ix) (\<lambda>suffix_output.
                andThen (SubshapeFrom updates_shape outer_dims) (\<lambda>suffix_updates.
                andThen (tryStatus (MergeShape suffix_output suffix_updates)) (\<lambda>s.
                case s of Inl _ \<Rightarrow> failWith InvalidArgument | Inr _ \<Rightarrow> ret ()))))))
          else ret ())))
        else ret ()) (\<lambda>_.
     andThen (input_handle_shapes_and_types_at 0) (\<lambda>h.
     andThen (gets num_outputs) (\<lambda>n.
     if h = None \<and> n > 0 then set_output 0 input_shape else ret ())))))"

section \<open>Sparse reductions\<close>

text \<open>\<open>(axes_vec(i) + ndims) % ndims\<close> keeps the sign of its left operand.\<close>

definition sparseAxes :: "int list \<Rightarrow> int \<Rightarrow> int list" where
  "sparseAxes axes_vec ndims = map (\<lambda>a. cmod (a + ndims) ndims) axes_vec"

definition flatOf :: "data_type \<Rightarrow> tensor \<Rightarrow> int list res" where
  "flatOf ty t = (if t_dtype t = ty then Inr (t_vals t) else Inl (Fault CheckFailed))"

definition SparseReduceShapeFn :: "unit cop" where
  "SparseReduceShapeFn =
     andThen (GetAttr GetAttrBool ''keep_dims'') (\<lambda>keep_dims.
     andThen (input_tensor 2) (\<lambda>shape_tensor.
     andThen (input_tensor 3) (\<lambda>axes_tensor.
     case (shape_tensor, axes_tensor) of
       (Some st, Some at) \<Rightarrow>
         andThen (liftR (flatOf DT_INT64 st)) (\<lambda>shape_vec.
         andThen (liftR (flatOf DT_INT32 at)) (\<lambda>axes_vec.
         let ndims = int (length shape_vec) in
         andThen (failUnless (ndims \<noteq> 0) InvalidArgument) (\<lambda>_.
         let axes = sparseAxes axes_vec ndims in
         andThen
           (mapOp (\<lambda>(d, n). if int d \<notin> set axes then andThen (MakeDim (Const n)) (\<lambda>x. ret [x])
                         else if keep_dims then andThen (MakeDim (Const 1)) (\<lambda>x. ret [x])
                         else ret [])
              (enumerate 0 shape_vec)) (\<lambda>dims.
         andThen (MakeShape (concat dims)) (set_output 0)))))
     | _ \<Rightarrow> UnknownShapeFn)))"

section \<open>Quantized operations\<close>

text \<open>Inputs that must be scalars.\<close>

definition scalarInputs :: "int list \<Rightarrow> unit cop" where
  "scalarInputs = iterOp (\<lambda>i. andThen (input i) (\<lambda>s. andThen (WithRank s 0) (\<lambda>_. ret ())))"

definition setScalarOutputs :: "int list \<Rightarrow> unit cop" where
  "setScalarOutputs = iterOp (\<lambda>i. andThen Scalar (set_output i))"

definition QuantizedConv2DShape :: "unit cop" where
  "QuantizedConv2DShape =
     andThen Conv2DShape (\<lambda>_.
     andThen (scalarInputs [2, 3, 4, 5]) (\<lambda>_. setScalarOutputs [1, 2]))"

definition inputWithRank :: "int \<Rightarrow> int \<Rightarrow> unit cop" where
  "inputWithRank i rank = andThen (input i) (\<lambda>s. andThen (WithRank s rank) (\<lambda>_. ret ()))"

definition FusedQuantizedConvShape :: "int \<Rightarrow> unit cop" where
  "FusedQuantizedConvShape num_dims =
     andThen (GetAttr GetAttrStringList ''fused_ops'') (\<lambda>fused_ops.
     let fused_sum = ''Sum'' \<in> set fused_ops;
         fused_bias = ''BiasAdd'' \<in> set fused_ops;
         fused_requantize = ''Requantize'' \<in> set fused_ops
     in
     andThen
       (if fused_bias \<and> \<not> fused_sum then andThen (inputWithRank 2 1) (\<lambda>_. ret 1)
        else if fused_sum \<and> \<not> fused_bias then andThen (inputWithRank 2 num_dims) (\<lambda>_. ret 1)
        else if fused_bias \<and> fused_sum then
          andThen (inputWithRank 2 1) (\<lambda>_. andThen (inputWithRank 3 num_dims) (\<lambda>_. ret 2))
        else ret 0) (\<lambda>off.
     andThen (inputWithRank (2 + off) 0) (\<lambda>_.
     andThen (inputWithRank (2 + off + 1) 0) (\<lambda>_.
     andThen (input (4 + off)) (\<lambda>s. andThen (WithRankAtMost s 1) (\<lambda>_.
     andThen (input (4 + off + 1)) (\<lambda>s. andThen (WithRankAtMost s 1) (\<lambda>channel.
     if fused_requantize then setScalarOutputs [1, 2]
     else andThen (set_output 1 channel) (\<lambda>_. set_output 2 channel)))))))))"

definition FusedQuantizedConv2DShape :: "unit cop" where
  "FusedQuantizedConv2DShape = andThen (Conv2DShapeImpl True) (\<lambda>_. FusedQuantizedConvShape 4)"

definition FusedQuantizedDepthwiseConv2D :: "unit cop" where
  "FusedQuantizedDepthwiseConv2D =
     andThen (DepthwiseConv2DNativeShapeImpl True) (\<lambda>_. FusedQuantizedConvShape 4)"

definition QuantizedAvgPoolShape :: "unit cop" where
  "QuantizedAvgPoolShape =
     andThen AvgPoolShape (\<lambda>_.
     andThen (scalarInputs [1, 2]) (\<lambda>_. setScalarOutputs [1, 2]))"

definition QuantizeV2Shape :: "unit cop" where
  "QuantizeV2Shape =
     andThen (tryStatus (GetAttr GetAttrInt32 ''axis'')) (\<lambda>s.
     andThen (case s of Inr a \<Rightarrow> ret a | Inl e \<Rightarrow> if e \<noteq> NotFound then failWith e else ret (- 1)) (\<lambda>axis.
     andThen (failUnless (- 1 \<le> axis) InvalidArgument) (\<lambda>_.
     let minmax_rank = (if axis = - 1 then 0 else 1) in
     andThen UnchangedShape (\<lambda>_.
     andThen (input 1) (\<lambda>i1. andThen (WithRank i1 minmax_rank) (\<lambda>_.
     andThen (input 2) (\<lambda>i2. andThen (WithRank i2 minmax_rank) (\<lambda>minmax.
     andThen
       (if axis \<noteq> - 1 then
          andThen (input 0) (\<lambda>i0.
          andThen (liftR (if axis = int32_max then Inl (Fault SignedOverflow) else Inr (axis + 1))) (\<lambda>r.
          andThen (WithRankAtLeast i0 r) (\<lambda>inp.
          andThen (Dim minmax 0) (\<lambda>d0. andThen (Dim inp axis) (\<lambda>d1.
          andThen (MergeDim d0 d1) (\<lambda>_. ret ()))))))
        else ret ()) (\<lambda>_.
     andThen (set_output 1 minmax) (\<lambda>_. set_output 2 minmax))))))))))"

definition ReduceScatterShape :: "unit cop" where
  "ReduceScatterShape =
     andThen (input 0) (\<lambda>inp.
     andThen (gets (\<lambda>c. (RankKnown c inp, Rank c inp))) (\<lambda>(known, rank).
     if \<not> known then set_output 0 inp
     else
     andThen (input 1) (\<lambda>group_assignment_shape.
     andThen (gets (\<lambda>c. Rank c group_assignment_shape)) (\<lambda>r.
     andThen (failUnless (r = 2) InvalidArgument) (\<lambda>_.
     andThen (input_tensor 2) (\<lambda>scatter_dimension.
     case scatter_dimension of
       None \<Rightarrow> andThen UnknownShape (set_output 0)
     | Some t \<Rightarrow>
         andThen (liftR (GetScalarFromTensor t)) (\<lambda>scatter_dim.
         andThen
           (mapOp (\<lambda>i. andThen (Dim inp (int i)) (\<lambda>d.
                      if int i = scatter_dim then
                        andThen (Dim group_assignment_shape 1) (\<lambda>g. Divide d (Handle g) True)
                      else ret d)) [0..<nat rank]) (\<lambda>out_dims.
         andThen (MakeShape out_dims) (set_output 0)))))))))"

end
