(* ===== verification/TensorShapes.thy ===== *)
theory TensorShapes
  imports Attrs Overflow
begin

text \<open>
  \<open>TensorShape\<close> and \<open>PartialTensorShape\<close> (\<open>framework/tensor_shape.h\<close>,
  \<open>framework/tensor_shape.cc\<close>): a shape packed into 16 bytes. Up to six sizes are kept in 16
  bits each, up to three in 32 bits, anything else in a vector out of line; a mutation that does
  not fit moves the shape to another representation. Both classes share the representation;
  the template parameter is the argument \<open>partial\<close> (\<open>kIsPartial\<close>). Copying a shape copies its
  value: the ownership of the out-of-line vector is not modelled.
\<close>

section \<open>The representation\<close>

text \<open>The array of each representation, up to the number of dimensions: the entries after them
  are never read, except by \<open>dim_size(0)\<close> of a shape without dimensions.\<close>

datatype shape_rep = Rep16 "16 word list" | Rep32 "32 word list" | RepOutOfLine "int list"

record tensor_shape =
  ts_rep :: shape_rep
  ndims_byte :: "8 word"
  num_elements :: int
  ts_data_type :: data_type

type_synonym 'a tsop = "(tensor_shape, 'a) op"

abbreviation MaxDimensions :: int where "MaxDimensions \<equiv> 254"
abbreviation kMaxRep16 :: int where "kMaxRep16 \<equiv> 65534"
abbreviation kMaxRep32 :: int where "kMaxRep32 \<equiv> 4294967294"
abbreviation kUnknownRep16 :: "16 word" where "kUnknownRep16 \<equiv> 65535"
abbreviation kUnknownRep32 :: "32 word" where "kUnknownRep32 \<equiv> 4294967295"
abbreviation kUnknownRankByte :: "8 word" where "kUnknownRankByte \<equiv> 255"

section \<open>Reading\<close>

definition unknown_rank_of :: "bool \<Rightarrow> tensor_shape \<Rightarrow> bool" where
  "unknown_rank_of partial t \<longleftrightarrow> partial \<and> ndims_byte t = kUnknownRankByte"

definition ndims :: "bool \<Rightarrow> tensor_shape \<Rightarrow> int" where
  "ndims partial t = (if partial \<and> ndims_byte t = kUnknownRankByte then - 1 else uint (ndims_byte t))"

definition read16 :: "bool \<Rightarrow> 16 word \<Rightarrow> int" where
  "read16 partial w = (if partial \<and> w = kUnknownRep16 then - 1 else uint w)"

definition read32 :: "bool \<Rightarrow> 32 word \<Rightarrow> int" where
  "read32 partial w = (if partial \<and> w = kUnknownRep32 then - 1 else uint w)"

text \<open>The bound is only checked for a positive index.\<close>

definition dim_size :: "bool \<Rightarrow> tensor_shape \<Rightarrow> int \<Rightarrow> int res" where
  "dim_size partial t d =
    (if unknown_rank_of partial t then Inr (- 1)
     else if d < 0 then Inl (Fault CheckFailed)
     else if d > 0 \<and> \<not> d < ndims partial t then Inl (Fault CheckFailed)
     else case ts_rep t of
       Rep16 ws \<Rightarrow> if nat d < length ws then Inr (read16 partial (ws ! nat d)) else Inl (Fault Uninitialized)
     | Rep32 ws \<Rightarrow> if nat d < length ws then Inr (read32 partial (ws ! nat d)) else Inl (Fault Uninitialized)
     | RepOutOfLine xs \<Rightarrow> vecAt xs d)"

text \<open>A loop over the dimensions, \<open>for (auto dim : shape)\<close>, runs from 0 to \<open>dims()\<close>; for an
  unknown rank the end is \<open>- 1\<close> and the index overflows before it gets there.\<close>

definition dim_sizes_of :: "bool \<Rightarrow> tensor_shape \<Rightarrow> int list res" where
  "dim_sizes_of partial t =
    (if unknown_rank_of partial t then Inl (Fault SignedOverflow)
     else mapR (dim_size partial t) [0..ndims partial t - 1])"

definition IsFullyDefined :: "bool \<Rightarrow> tensor_shape \<Rightarrow> bool" where
  "IsFullyDefined partial t \<longleftrightarrow> \<not> partial \<or> num_elements t \<noteq> - 1"

section \<open>Adding a dimension\<close>

definition pack16 :: "bool \<Rightarrow> int \<Rightarrow> 16 word" where
  "pack16 partial sz = (if partial \<and> sz < 0 then kUnknownRep16 else word_of_int sz)"

definition pack32 :: "bool \<Rightarrow> int \<Rightarrow> 32 word" where
  "pack32 partial sz = (if partial \<and> sz < 0 then kUnknownRep32 else word_of_int sz)"

definition repack :: "bool \<Rightarrow> int list \<Rightarrow> shape_rep" where
  "repack partial vals =
    (if length vals \<le> 3 \<and> list_all (\<lambda>v. v < kMaxRep32) vals then Rep32 (map (pack32 partial) vals)
     else RepOutOfLine vals)"

definition UnsafeAddDim :: "bool \<Rightarrow> int \<Rightarrow> int \<Rightarrow> unit tsop" where
  "UnsafeAddDim partial sz new_num_elements =
     andThen (gets (\<lambda>t. (uint (ndims_byte t), ts_rep t))) (\<lambda>(nd, r).
     andThen
       (case r of
          Rep16 ws \<Rightarrow>
            if nd < 6 \<and> sz < kMaxRep16 then ret (Rep16 (ws @ [pack16 partial sz]))
            else andThen (gets (dim_sizes_of partial)) (\<lambda>v. andThen (liftR v) (\<lambda>vals. ret (repack partial (vals @ [sz]))))
        | Rep32 ws \<Rightarrow>
            if nd < 3 \<and> sz < kMaxRep32 then ret (Rep32 (ws @ [pack32 partial sz]))
            else andThen (gets (dim_sizes_of partial)) (\<lambda>v. andThen (liftR v) (\<lambda>vals. ret (repack partial (vals @ [sz]))))
        | RepOutOfLine xs \<Rightarrow> ret (RepOutOfLine (xs @ [sz]))) (\<lambda>r'.
     modify (\<lambda>t. t\<lparr>ts_rep := r', ndims_byte := word_of_int (nd + 1), num_elements := new_num_elements\<rparr>)))"

definition AddDim :: "bool \<Rightarrow> int \<Rightarrow> unit tsop" where
  "AddDim partial sz =
     andThen (checkThat (partial \<or> 0 \<le> sz) CheckFailed) (\<lambda>_.
     andThen (gets (unknown_rank_of partial)) (\<lambda>unknown.
     if unknown then ret ()
     else
       andThen (gets (\<lambda>t. (uint (ndims_byte t), num_elements t))) (\<lambda>(nd, n).
       andThen (checkThat (nd < MaxDimensions) CheckFailed) (\<lambda>_.
       if partial \<and> (n < 0 \<or> sz < 0) then UnsafeAddDim partial sz (- 1)
       else
         let new_num_elements = MultiplyWithoutOverflow n sz in
         andThen (checkThat (0 \<le> new_num_elements) CheckFailed) (\<lambda>_.
         UnsafeAddDim partial sz new_num_elements)))))"

definition AddDimWithStatus :: "bool \<Rightarrow> int \<Rightarrow> unit tsop" where
  "AddDimWithStatus partial sz =
     andThen (failUnless (partial \<or> 0 \<le> sz) InvalidArgument) (\<lambda>_.
     andThen (gets (unknown_rank_of partial)) (\<lambda>unknown.
     if unknown then ret ()
     else
       andThen (gets (\<lambda>t. (uint (ndims_byte t), num_elements t))) (\<lambda>(nd, n).
       andThen (failUnless (nd < MaxDimensions) InvalidArgument) (\<lambda>_.
       if partial \<and> (n < 0 \<or> sz < 0) then UnsafeAddDim partial sz (- 1)
       else
         let new_num_elements = MultiplyWithoutOverflow n sz in
         andThen (failUnless (0 \<le> new_num_elements) InvalidArgument) (\<lambda>_.
         UnsafeAddDim partial sz new_num_elements)))))"

section \<open>Clearing and counting\<close>

definition ClearAllButDataType :: "unit tsop" where
  "ClearAllButDataType = modify (\<lambda>t. t\<lparr>ts_rep := Rep16 [], ndims_byte := 0, num_elements := 1\<rparr>)"

definition Clear :: "unit tsop" where
  "Clear = andThen ClearAllButDataType (\<lambda>_. modify (\<lambda>t. t\<lparr>ts_data_type := DT_INVALID\<rparr>))"

text \<open>The loop stops at the first unknown size.\<close>

primrec recompute :: "bool \<Rightarrow> int list \<Rightarrow> int \<Rightarrow> int res" where
  "recompute partial [] n = Inr n"
| "recompute partial (d # ds) n =
    (if partial \<and> d < 0 then Inr (- 1)
     else
       let n' = MultiplyWithoutOverflow n d
       in if n' < 0 then Inl (Status InvalidArgument) else recompute partial ds n')"

definition RecomputeNumElements :: "bool \<Rightarrow> unit tsop" where
  "RecomputeNumElements partial =
     andThen (gets (unknown_rank_of partial)) (\<lambda>unknown.
     if unknown then modify (\<lambda>t. t\<lparr>num_elements := - 1\<rparr>)
     else
       andThen (gets (dim_sizes_of partial)) (\<lambda>v. andThen (liftR v) (\<lambda>sizes.
       andThen (liftR (recompute partial sizes 1)) (\<lambda>n.
       modify (\<lambda>t. t\<lparr>num_elements := n\<rparr>)))))"

section \<open>Inserting, setting and removing dimensions\<close>

text \<open>\<open>AppendTo\<close> on a temporary vector.\<close>

definition sizesNow :: "bool \<Rightarrow> int list tsop" where
  "sizesNow partial = andThen (gets (dim_sizes_of partial)) liftR"

definition InsertDim :: "bool \<Rightarrow> int \<Rightarrow> int \<Rightarrow> unit tsop" where
  "InsertDim partial d sz =
     andThen (gets (ndims partial)) (\<lambda>n.
     andThen (checkThat (0 \<le> d \<and> d \<le> n \<and> (partial \<or> 0 \<le> sz) \<and> n < MaxDimensions) CheckFailed) (\<lambda>_.
     andThen (sizesNow partial) (\<lambda>vals.
     andThen ClearAllButDataType (\<lambda>_.
     iterOp (AddDim partial) (take (nat d) vals @ sz # drop (nat d) vals)))))"

definition InsertDimWithStatus :: "bool \<Rightarrow> int \<Rightarrow> int \<Rightarrow> unit tsop" where
  "InsertDimWithStatus partial d sz =
     andThen (failUnless (partial \<or> 0 \<le> sz) InvalidArgument) (\<lambda>_.
     andThen (failUnless (0 \<le> d) Internal) (\<lambda>_.
     andThen (gets (ndims partial)) (\<lambda>n.
     andThen (failUnless (d \<le> n) Internal) (\<lambda>_.
     andThen (failUnless (n < MaxDimensions) Internal) (\<lambda>_.
     andThen (sizesNow partial) (\<lambda>vals.
     andThen ClearAllButDataType (\<lambda>_.
     iterOp (AddDimWithStatus partial) (take (nat d) vals @ sz # drop (nat d) vals))))))))"

text \<open>Writing one entry in place where the representation allows it, else rebuilding.\<close>

definition writeDim :: "bool \<Rightarrow> (int \<Rightarrow> unit tsop) \<Rightarrow> int \<Rightarrow> int \<Rightarrow> unit tsop" where
  "writeDim partial add d sz =
     (let rebuild = andThen (sizesNow partial) (\<lambda>vals.
            andThen ClearAllButDataType (\<lambda>_. iterOp add (vals[nat d := sz])))
      in andThen (gets ts_rep) (\<lambda>r.
         case r of
           Rep16 ws \<Rightarrow>
             if sz < kMaxRep16 then modify (\<lambda>t. t\<lparr>ts_rep := Rep16 (ws[nat d := pack16 partial sz])\<rparr>)
             else rebuild
         | Rep32 ws \<Rightarrow>
             if sz < kMaxRep32 then modify (\<lambda>t. t\<lparr>ts_rep := Rep32 (ws[nat d := pack32 partial sz])\<rparr>)
             else rebuild
         | RepOutOfLine xs \<Rightarrow> modify (\<lambda>t. t\<lparr>ts_rep := RepOutOfLine (xs[nat d := sz])\<rparr>)))"

definition set_dim :: "bool \<Rightarrow> int \<Rightarrow> int \<Rightarrow> unit tsop" where
  "set_dim partial d sz =
     andThen (gets (ndims partial)) (\<lambda>n.
     andThen (checkThat (0 \<le> d \<and> d < n \<and> (partial \<or> 0 \<le> sz)) CheckFailed) (\<lambda>_.
     andThen (writeDim partial (AddDim partial) d sz) (\<lambda>_.
     checkOk (RecomputeNumElements partial))))"

definition SetDimWithStatus :: "bool \<Rightarrow> int \<Rightarrow> int \<Rightarrow> unit tsop" where
  "SetDimWithStatus partial d sz =
     andThen (failUnless (0 \<le> d) InvalidArgument) (\<lambda>_.
     andThen (gets (ndims partial)) (\<lambda>n.
     andThen (failUnless (d < n) InvalidArgument) (\<lambda>_.
     andThen (failUnless (partial \<or> 0 \<le> sz) InvalidArgument) (\<lambda>_.
     andThen (writeDim partial (AddDimWithStatus partial) d sz) (\<lambda>_.
     RecomputeNumElements partial)))))"

definition fromEnd :: "int \<Rightarrow> int \<Rightarrow> int" where
  "fromEnd n i = (if i < 0 then n + i + 1 else i)"

definition RemoveDimRange :: "bool \<Rightarrow> int \<Rightarrow> int \<Rightarrow> unit tsop" where
  "RemoveDimRange partial begin_in end_in =
     andThen (gets (\<lambda>t. (unknown_rank_of partial t, ndims partial t))) (\<lambda>(unknown, n).
     if unknown then ret ()
     else
       let start = fromEnd n begin_in; stop = fromEnd n end_in in
       andThen (checkThat (0 \<le> start \<and> start \<le> n \<and> 0 \<le> stop \<and> stop \<le> n) CheckFailed) (\<lambda>_.
       if start \<ge> stop then ret ()
       else
         andThen (sizesNow partial) (\<lambda>vals.
         andThen ClearAllButDataType (\<lambda>_.
         andThen (iterOp (AddDim partial) (take (nat start) vals @ drop (nat stop) vals)) (\<lambda>_.
         checkOk (RecomputeNumElements partial))))))"

definition RemoveDimRangeWithStatus :: "bool \<Rightarrow> int \<Rightarrow> int \<Rightarrow> unit tsop" where
  "RemoveDimRangeWithStatus partial begin_in end_in =
     andThen (gets (\<lambda>t. (unknown_rank_of partial t, ndims partial t))) (\<lambda>(unknown, n).
     if unknown then ret ()
     else
       let start = fromEnd n begin_in; stop = fromEnd n end_in in
       andThen (failUnless (0 \<le> start \<and> start \<le> n \<and> 0 \<le> stop \<and> stop \<le> n) Internal) (\<lambda>_.
       if start \<ge> stop then ret ()
       else
         andThen (sizesNow partial) (\<lambda>vals.
         andThen ClearAllButDataType (\<lambda>_.
         andThen (iterOp (AddDimWithStatus partial) (take (nat start) vals @ drop (nat stop) vals)) (\<lambda>_.
         RecomputeNumElements partial)))))"

definition RemoveDim :: "bool \<Rightarrow> int \<Rightarrow> unit tsop" where
  "RemoveDim partial d =
     andThen (checkThat (0 \<le> d) CheckFailed) (\<lambda>_.
     andThen (liftR (signed32 (d + 1))) (RemoveDimRange partial d))"

text \<open>The \<open>int64_t\<close> arguments of the next and the one after are narrowed to \<open>int\<close>.\<close>

definition RemoveDimWithStatus :: "bool \<Rightarrow> int \<Rightarrow> unit tsop" where
  "RemoveDimWithStatus partial d =
     andThen (failUnless (0 \<le> d) Internal) (\<lambda>_.
     andThen (liftR (signed64 (d + 1))) (\<lambda>e.
     RemoveDimRangeWithStatus partial (to_int32 d) (to_int32 e)))"

definition RemoveLastDims :: "bool \<Rightarrow> int \<Rightarrow> unit tsop" where
  "RemoveLastDims partial n =
     andThen (gets (ndims partial)) (\<lambda>k.
     andThen (checkThat (n \<le> k) CheckFailed) (\<lambda>_.
     andThen (liftR (signed32 (k - n))) (\<lambda>b. RemoveDimRange partial b k)))"

definition RemoveLastDimsWithStatus :: "bool \<Rightarrow> int \<Rightarrow> unit tsop" where
  "RemoveLastDimsWithStatus partial n =
     andThen (gets (ndims partial)) (\<lambda>k.
     andThen (failUnless (n \<le> k) Internal) (\<lambda>_.
     andThen (liftR (signed64 (k - n))) (\<lambda>b.
     RemoveDimRangeWithStatus partial (to_int32 b) k)))"

end
