(* ===== verification/TensorShapeOps.thy ===== *)
theory TensorShapeOps
  imports TensorShapes
begin

text \<open>
  Constructors, validation, comparison, conversion and concatenation of tensor shapes
  (\<open>framework/tensor_shape.cc\<close>). Error messages and the conversions to Eigen types are not
  modelled.
\<close>

section \<open>Construction\<close>

text \<open>A shape before its constructor runs: what the constructor does not set is arbitrary, and
  every constructor sets the representation, the type byte and the two counts.\<close>

definition blankShape :: tensor_shape where
  "blankShape = \<lparr>ts_rep = Rep16 [], ndims_byte = 0, num_elements = 1, ts_data_type = DT_INVALID\<rparr>"

definition defaultShape :: "bool \<Rightarrow> tensor_shape" where
  "defaultShape partial =
     (if partial then blankShape\<lparr>ndims_byte := kUnknownRankByte, num_elements := - 1\<rparr> else blankShape)"

definition kMaxSmall :: int where "kMaxSmall = 55108"

text \<open>The fast path for one to four small sizes writes the array directly.\<close>

definition InitDims :: "bool \<Rightarrow> int list \<Rightarrow> unit tsop" where
  "InitDims partial sizes =
    (let large_size = list_ex (\<lambda>s. s > kMaxSmall) sizes;
         slow = andThen (modify (\<lambda>t. t\<lparr>ndims_byte := 0, num_elements := 1\<rparr>)) (\<lambda>_.
           iterOp (AddDimWithStatus partial) sizes)
     in if \<not> partial \<and> \<not> large_size \<and> list_ex (\<lambda>s. s < 0) sizes then failWith InvalidArgument
        else if \<not> large_size \<and> 1 \<le> length sizes \<and> length sizes \<le> 4 then
          modify (\<lambda>t. t\<lparr>ts_rep := Rep16 (map (pack16 partial) sizes),
            ndims_byte := word_of_nat (length sizes),
            num_elements := (if partial \<and> list_ex (\<lambda>s. s < 0) sizes then - 1 else prod_list sizes)\<rparr>)
        else slow)"

definition BuildTensorShapeBase :: "bool \<Rightarrow> int list \<Rightarrow> unit tsop" where
  "BuildTensorShapeBase partial sizes =
     andThen (modify (\<lambda>t. t\<lparr>ts_rep := Rep16 [], ts_data_type := DT_INVALID\<rparr>)) (\<lambda>_. InitDims partial sizes)"

definition TensorShapeOfSizes :: "bool \<Rightarrow> int list \<Rightarrow> unit tsop" where
  "TensorShapeOfSizes partial sizes = checkOk (BuildTensorShapeBase partial sizes)"

definition TensorShapeOfProto :: "bool \<Rightarrow> shape_proto \<Rightarrow> unit tsop" where
  "TensorShapeOfProto partial proto =
     andThen (modify (\<lambda>t. t\<lparr>ts_rep := Rep16 [], ts_data_type := DT_INVALID\<rparr>)) (\<lambda>_.
     if partial \<and> unknown_rank proto then
       modify (\<lambda>t. t\<lparr>ndims_byte := kUnknownRankByte, num_elements := - 1\<rparr>)
     else
       andThen (modify (\<lambda>t. t\<lparr>ndims_byte := 0, num_elements := 1\<rparr>)) (\<lambda>_.
       iterOp (AddDim partial) (dim_sizes proto)))"

text \<open>The second product skips the zeros: no order of multiplication may overflow.\<close>

primrec addProtoDims :: "bool \<Rightarrow> int list \<Rightarrow> int \<Rightarrow> unit tsop" where
  "addProtoDims partial [] n = ret ()"
| "addProtoDims partial (d # ds) n =
     andThen (AddDimWithStatus partial d) (\<lambda>_.
     if d > 0 then
       let n' = MultiplyWithoutOverflow n d
       in andThen (failUnless (0 \<le> n') InvalidArgument) (\<lambda>_. addProtoDims partial ds n')
     else addProtoDims partial ds n)"

definition BuildTensorShapeFromProto :: "bool \<Rightarrow> shape_proto \<Rightarrow> unit tsop" where
  "BuildTensorShapeFromProto partial proto =
     andThen (modify (\<lambda>t. t\<lparr>ts_rep := Rep16 [], ts_data_type := DT_INVALID\<rparr>)) (\<lambda>_.
     if partial \<and> unknown_rank proto then
       modify (\<lambda>t. t\<lparr>ndims_byte := kUnknownRankByte, num_elements := - 1\<rparr>)
     else
       andThen (modify (\<lambda>t. t\<lparr>ndims_byte := 0, num_elements := 1\<rparr>)) (\<lambda>_.
       addProtoDims partial (dim_sizes proto) 1))"

section \<open>Validation\<close>

text \<open>The common loop of the three checks, over the sizes of a shape or of a proto.\<close>

primrec validSizes :: "bool \<Rightarrow> int list \<Rightarrow> int \<Rightarrow> bool" where
  "validSizes partial [] n \<longleftrightarrow> True"
| "validSizes partial (d # ds) n \<longleftrightarrow>
    (if d < (if partial then - 1 else 0) then False
     else if d = - 1 then validSizes partial ds (- 1)
     else if \<not> partial \<or> 0 \<le> n then
       let n' = MultiplyWithoutOverflow n d in 0 \<le> n' \<and> validSizes partial ds n'
     else validSizes partial ds n)"

definition IsValid :: "bool \<Rightarrow> tensor_shape \<Rightarrow> bool res" where
  "IsValid partial t =
    (if partial \<and> unknown_rank_of partial t then Inr (ndims partial t = 0)
     else if ndims partial t > MaxDimensions then Inr False
     else bindR (dim_sizes_of partial t) (\<lambda>sizes. Inr (validSizes partial sizes 1)))"

definition IsValidProto :: "bool \<Rightarrow> shape_proto \<Rightarrow> bool" where
  "IsValidProto partial proto \<longleftrightarrow>
    (if partial \<and> unknown_rank proto then dim_sizes proto = []
     else if int (length (dim_sizes proto)) > MaxDimensions then False
     else validSizes partial (dim_sizes proto) 1)"

definition IsValidShape :: "bool \<Rightarrow> shape_proto \<Rightarrow> unit res" where
  "IsValidShape partial proto =
    (if partial \<and> unknown_rank proto then
       if dim_sizes proto \<noteq> [] then Inl (Status InvalidArgument) else Inr ()
     else if int (length (dim_sizes proto)) > MaxDimensions then Inl (Status InvalidArgument)
     else if validSizes partial (dim_sizes proto) 1 then Inr () else Inl (Status InvalidArgument))"

text \<open>\<open>MakeShapeHelper\<close>, the body of the overloads of \<open>TensorShapeUtils::MakeShape\<close>.\<close>

definition addChecked :: "bool \<Rightarrow> int \<Rightarrow> unit tsop" where
  "addChecked partial dim =
    (if dim < 0 then
       andThen (failUnless partial InvalidArgument) (\<lambda>_.
       andThen (failUnless (- 1 \<le> dim) InvalidArgument) (\<lambda>_.
       UnsafeAddDim partial (- 1) (- 1)))
     else
       andThen (gets num_elements) (\<lambda>n.
       if n < 0 then UnsafeAddDim partial dim (- 1)
       else
         let new_num_elements = MultiplyWithoutOverflow n dim in
         andThen (failUnless (0 \<le> new_num_elements) InvalidArgument) (\<lambda>_.
         UnsafeAddDim partial dim new_num_elements)))"

definition MakeShapeHelper :: "bool \<Rightarrow> int list \<Rightarrow> unit tsop" where
  "MakeShapeHelper partial sizes =
     andThen Clear (\<lambda>_.
     andThen (failUnless (int (length sizes) \<le> MaxDimensions) InvalidArgument) (\<lambda>_.
     iterOp (addChecked partial) sizes))"

definition NumElementsOfSizes :: "int list \<Rightarrow> int res" where
  "NumElementsOfSizes sizes =
     (case mulAll MultiplyWithoutOverflow 1 sizes of None \<Rightarrow> Inl (Status InvalidArgument) | Some n \<Rightarrow> Inr n)"

section \<open>Conversion to a proto\<close>

definition AsProto :: "bool \<Rightarrow> tensor_shape \<Rightarrow> shape_proto res" where
  "AsProto partial t =
    (if unknown_rank_of partial t then Inr \<lparr>unknown_rank = True, dim_sizes = []\<rparr>
     else bindR (mapR (dim_size partial t) [0..ndims partial t - 1]) (\<lambda>sizes.
       Inr \<lparr>unknown_rank = False, dim_sizes = sizes\<rparr>))"

section \<open>Comparison\<close>

text \<open>A loop over indices that stops at the first one where the test fails.\<close>

primrec allR :: "('x \<Rightarrow> bool res) \<Rightarrow> 'x list \<Rightarrow> bool res" where
  "allR f [] = Inr True"
| "allR f (x # xs) = bindR (f x) (\<lambda>b. if b then allR f xs else Inr False)"

definition compareAt ::
    "(int \<Rightarrow> int \<Rightarrow> bool) \<Rightarrow> bool \<Rightarrow> tensor_shape \<Rightarrow> int \<Rightarrow> tensor_shape \<Rightarrow> int \<Rightarrow> bool res" where
  "compareAt eq partial a i b j =
     bindR (dim_size partial a i) (\<lambda>x. bindR (dim_size partial b j) (\<lambda>y. Inr (eq x y)))"

definition IsSameSize :: "tensor_shape \<Rightarrow> tensor_shape \<Rightarrow> bool res" where
  "IsSameSize a b =
    (if ndims False b \<noteq> ndims False a then Inr False
     else allR (\<lambda>d. compareAt (=) False a d b d) [0..ndims False a - 1])"

definition StartsWith :: "tensor_shape \<Rightarrow> tensor_shape \<Rightarrow> bool res" where
  "StartsWith shape prefix =
    (if ndims False shape < ndims False prefix then Inr False
     else allR (\<lambda>i. compareAt (=) False shape i prefix i) [0..ndims False prefix - 1])"

definition EndsWith :: "tensor_shape \<Rightarrow> tensor_shape \<Rightarrow> bool res" where
  "EndsWith shape suffix =
    (let n = ndims False shape; k = ndims False suffix in
     if n < k then Inr False
     else allR (\<lambda>i. compareAt (=) False shape (n - k + i) suffix i) [0..k - 1])"

definition IsIdenticalTo :: "tensor_shape \<Rightarrow> tensor_shape \<Rightarrow> bool res" where
  "IsIdenticalTo a b =
    (if unknown_rank_of True a \<or> unknown_rank_of True b then
       Inr (unknown_rank_of True a = unknown_rank_of True b)
     else if ndims True a \<noteq> ndims True b then Inr False
     else allR (\<lambda>d. compareAt (=) True a d b d) [0..ndims True a - 1])"

definition compatibleSizes :: "int \<Rightarrow> int \<Rightarrow> bool" where
  "compatibleSizes x y \<longleftrightarrow> \<not> (x \<ge> 0 \<and> y \<ge> 0 \<and> x \<noteq> y)"

definition IsCompatibleWith :: "tensor_shape \<Rightarrow> tensor_shape \<Rightarrow> bool res" where
  "IsCompatibleWith a b =
    (if unknown_rank_of True a \<or> unknown_rank_of True b then Inr True
     else if ndims True a \<noteq> ndims True b then Inr False
     else allR (\<lambda>d. compareAt compatibleSizes True a d b d) [0..ndims True a - 1])"

definition AreCompatible :: "tensor_shape list \<Rightarrow> tensor_shape list \<Rightarrow> bool res" where
  "AreCompatible as bs =
    (if length as = length bs then allR (\<lambda>(a, b). IsCompatibleWith a b) (zip as bs) else Inr False)"

definition AreIdentical :: "tensor_shape list \<Rightarrow> tensor_shape list \<Rightarrow> bool res" where
  "AreIdentical as bs =
    (if length as = length bs then allR (\<lambda>(a, b). IsIdenticalTo a b) (zip as bs) else Inr False)"

section \<open>Appending, concatenating, merging\<close>

text \<open>The loop over a shape of unknown rank runs its body on \<open>- 1\<close> until the index overflows.\<close>

primrec endlessDims :: "nat \<Rightarrow> (int \<Rightarrow> unit tsop) \<Rightarrow> unit tsop" where
  "endlessDims 0 f = faultWith SignedOverflow"
| "endlessDims (Suc n) f = andThen (f (- 1)) (\<lambda>_. endlessDims n f)"

definition forDims :: "bool \<Rightarrow> tensor_shape \<Rightarrow> (int \<Rightarrow> unit tsop) \<Rightarrow> unit tsop" where
  "forDims partial shape f =
    (if unknown_rank_of partial shape then endlessDims 2147483648 f
     else andThen (liftR (dim_sizes_of partial shape)) (iterOp f))"

definition AppendShape :: "bool \<Rightarrow> tensor_shape \<Rightarrow> unit tsop" where
  "AppendShape partial shape = forDims partial shape (AddDim partial)"

definition AppendShapeWithStatus :: "bool \<Rightarrow> tensor_shape \<Rightarrow> unit tsop" where
  "AppendShapeWithStatus partial shape = forDims partial shape (AddDimWithStatus partial)"

text \<open>The functions on partial shapes that return a new shape run on a copy.\<close>

definition ConcatenateSize :: "tensor_shape \<Rightarrow> int \<Rightarrow> tensor_shape res" where
  "ConcatenateSize t sz = (case AddDim True sz t of (Inl e, _) \<Rightarrow> Inl e | (Inr _, t') \<Rightarrow> Inr t')"

definition ConcatenateSizeWithStatus :: "tensor_shape \<Rightarrow> int \<Rightarrow> unit tsop" where
  "ConcatenateSizeWithStatus t sz = andThen (modify (\<lambda>_. t)) (\<lambda>_. AddDimWithStatus True sz)"

definition ConcatenateShapes :: "tensor_shape \<Rightarrow> tensor_shape \<Rightarrow> tensor_shape res" where
  "ConcatenateShapes t shape =
    (if unknown_rank_of True t \<or> unknown_rank_of True shape then Inr (defaultShape True)
     else case forDims True shape (AddDim True) t of (Inl e, _) \<Rightarrow> Inl e | (Inr _, t') \<Rightarrow> Inr t')"

definition ConcatenateShapesWithStatus :: "tensor_shape \<Rightarrow> tensor_shape \<Rightarrow> unit tsop" where
  "ConcatenateShapesWithStatus t shape =
    (if unknown_rank_of True t \<or> unknown_rank_of True shape then modify (\<lambda>_. defaultShape True)
     else andThen (modify (\<lambda>_. t)) (\<lambda>_. forDims True shape (AddDimWithStatus True)))"

text \<open>The result of \<open>MergeWith\<close> is another shape, the shape itself, or the argument. The state
  of the operation is the shape behind the result pointer.\<close>

datatype merge_result = SeparateResult | ResultIsThis | ResultIsArg

text \<open>A result that is the argument has been cleared when the sizes of the argument are read:
  they come from the sizes added so far, except the first one, which is read without a check
  from what \<open>Clear\<close> left in the array. Of the other two representations the array read as 16-bit
  entries holds halves of sizes or of a pointer.\<close>

definition mergeArgSize :: "merge_result \<Rightarrow> tensor_shape \<Rightarrow> int \<Rightarrow> int tsop" where
  "mergeArgSize target shape i =
    (if target \<noteq> ResultIsArg then liftR (dim_size True shape i)
     else if i = 0 then
       liftR (case ts_rep shape of Rep16 (w # _) \<Rightarrow> Inr (read16 True w) | _ \<Rightarrow> Inl (Fault Uninitialized))
     else andThen (gets (\<lambda>result. dim_size True result i)) liftR)"

definition MergeWith :: "merge_result \<Rightarrow> tensor_shape \<Rightarrow> tensor_shape \<Rightarrow> unit tsop" where
  "MergeWith target t shape =
    (if unknown_rank_of True t then modify (\<lambda>_. shape)
     else if unknown_rank_of True shape then modify (\<lambda>_. t)
     else if ndims True t \<noteq> ndims True shape then failWith InvalidArgument
     else if target = ResultIsThis then failWith Internal
     else
       andThen Clear (\<lambda>_.
       iterOp (\<lambda>i.
         andThen (liftR (dim_size True t i)) (\<lambda>dim0.
         andThen (mergeArgSize target shape i) (\<lambda>dim1.
         andThen (failUnless (compatibleSizes dim0 dim1) InvalidArgument) (\<lambda>_.
         AddDimWithStatus True (if dim0 \<ge> 0 then dim0 else dim1)))))
         [0..ndims True t - 1]))"

definition AsTensorShape :: "tensor_shape \<Rightarrow> tensor_shape option" where
  "AsTensorShape t = (if IsFullyDefined True t then Some t else None)"

section \<open>Tests of the rank\<close>

definition TSIsScalar :: "tensor_shape \<Rightarrow> bool" where "TSIsScalar t \<longleftrightarrow> ndims False t = 0"
definition TSIsVector :: "tensor_shape \<Rightarrow> bool" where "TSIsVector t \<longleftrightarrow> ndims False t = 1"
definition TSIsVectorOrHigher :: "tensor_shape \<Rightarrow> bool" where "TSIsVectorOrHigher t \<longleftrightarrow> ndims False t \<ge> 1"
definition TSIsMatrix :: "tensor_shape \<Rightarrow> bool" where "TSIsMatrix t \<longleftrightarrow> ndims False t = 2"
definition TSIsMatrixOrHigher :: "tensor_shape \<Rightarrow> bool" where "TSIsMatrixOrHigher t \<longleftrightarrow> ndims False t \<ge> 2"

definition TSIsSquareMatrix :: "tensor_shape \<Rightarrow> bool res" where
  "TSIsSquareMatrix t = (if ndims False t = 2 then compareAt (=) False t 0 t 1 else Inr False)"

end
