(* ===== verification/TensorShapeRep.thy ===== *)
theory TensorShapeRep
  imports TensorShapeOps
begin

text \<open>
  The packed representation implements lists of sizes. The abstraction of a shape forgets in
  which of the three arrays the sizes are; the invariant says what fits where and that the
  stored number of elements is the product, or \<open>- 1\<close> when a size is unknown.
\<close>

section \<open>Abstraction and invariant\<close>

definition sizes_of :: "bool \<Rightarrow> shape_rep \<Rightarrow> int list" where
  "sizes_of partial r = (case r of Rep16 ws \<Rightarrow> map (read16 partial) ws
     | Rep32 ws \<Rightarrow> map (read32 partial) ws | RepOutOfLine xs \<Rightarrow> xs)"

definition dim_ok :: "bool \<Rightarrow> int \<Rightarrow> bool" where
  "dim_ok partial x \<longleftrightarrow> (if partial then - 1 else 0) \<le> x \<and> x \<le> int64_max"

definition rep_ok :: "bool \<Rightarrow> shape_rep \<Rightarrow> bool" where
  "rep_ok partial r \<longleftrightarrow> (case r of
     Rep16 ws \<Rightarrow> length ws \<le> 6 \<and> list_all (\<lambda>w. uint w < kMaxRep16 \<or> partial \<and> w = kUnknownRep16) ws
   | Rep32 ws \<Rightarrow> length ws \<le> 3 \<and> list_all (\<lambda>w. uint w < kMaxRep32 \<or> partial \<and> w = kUnknownRep32) ws
   | RepOutOfLine xs \<Rightarrow> list_all (dim_ok partial) xs)"

definition count_of :: "int list \<Rightarrow> int" where
  "count_of xs = (if list_all (\<lambda>x. 0 \<le> x) xs then prod_list xs else - 1)"

text \<open>The products that are computed, up to the first unknown size, fit.\<close>

definition fits_count :: "int list \<Rightarrow> bool" where
  "fits_count xs \<longleftrightarrow> prefixes_fit 1 (takeWhile (\<lambda>x. 0 \<le> x) xs)"

text \<open>A shape of known rank that has the sizes \<open>xs\<close> in its array; with the right count it is
  packed.\<close>

definition stores :: "bool \<Rightarrow> tensor_shape \<Rightarrow> int list \<Rightarrow> bool" where
  "stores partial t xs \<longleftrightarrow> rep_ok partial (ts_rep t) \<and> sizes_of partial (ts_rep t) = xs \<and>
     ndims_byte t = word_of_nat (length xs) \<and> length xs \<le> 254"

definition packed :: "bool \<Rightarrow> tensor_shape \<Rightarrow> int list \<Rightarrow> bool" where
  "packed partial t xs \<longleftrightarrow> stores partial t xs \<and> fits_count xs \<and> num_elements t = count_of xs"

definition wf_ts :: "bool \<Rightarrow> tensor_shape \<Rightarrow> bool" where
  "wf_ts partial t \<longleftrightarrow>
    (if unknown_rank_of partial t then num_elements t = - 1 else packed partial t (sizes_of partial (ts_rep t)))"

definition abs_ts :: "bool \<Rightarrow> tensor_shape \<Rightarrow> int list option" where
  "abs_ts partial t = (if unknown_rank_of partial t then None else Some (sizes_of partial (ts_rep t)))"

section \<open>Reading what was packed\<close>

lemma uint_small16: "0 \<le> x \<Longrightarrow> x < 65536 \<Longrightarrow> uint (word_of_int x :: 16 word) = x"
  by (simp add: uint_word_of_int)

lemma uint_small32: "0 \<le> x \<Longrightarrow> x < 4294967296 \<Longrightarrow> uint (word_of_int x :: 32 word) = x"
  by (simp add: uint_word_of_int)

lemma read_pack16:
  assumes "dim_ok partial x" "x < kMaxRep16"
  shows "read16 partial (pack16 partial x) = x \<and>
    (uint (pack16 partial x) < kMaxRep16 \<or> partial \<and> pack16 partial x = kUnknownRep16)"
proof (cases "x < 0")
  case True
  then show ?thesis using assms by (auto simp: dim_ok_def read16_def pack16_def split: if_splits)
next
  case False
  then have u: "uint (word_of_int x :: 16 word) = x" using assms by (intro uint_small16) auto
  have "uint kUnknownRep16 = 65535" by simp
  then have "(word_of_int x :: 16 word) \<noteq> kUnknownRep16" using u assms(2) by fastforce
  then show ?thesis using u assms False by (simp add: read16_def pack16_def)
qed

lemma read_pack32:
  assumes "dim_ok partial x" "x < kMaxRep32"
  shows "read32 partial (pack32 partial x) = x \<and>
    (uint (pack32 partial x) < kMaxRep32 \<or> partial \<and> pack32 partial x = kUnknownRep32)"
proof (cases "x < 0")
  case True
  then show ?thesis using assms by (auto simp: dim_ok_def read32_def pack32_def split: if_splits)
next
  case False
  then have u: "uint (word_of_int x :: 32 word) = x" using assms by (intro uint_small32) auto
  have "uint kUnknownRep32 = 4294967295" by simp
  then have "(word_of_int x :: 32 word) \<noteq> kUnknownRep32" using u assms(2) by fastforce
  then show ?thesis using u assms False by (simp add: read32_def pack32_def)
qed

lemma read_dim_ok:
  "uint w < kMaxRep16 \<or> partial \<and> w = kUnknownRep16 \<Longrightarrow> dim_ok partial (read16 partial w)"
  "uint v < kMaxRep32 \<or> partial \<and> v = kUnknownRep32 \<Longrightarrow> dim_ok partial (read32 partial v)"
  by (auto simp: dim_ok_def read16_def read32_def intro: order_trans[of "- 1 :: int" 0])

lemma rep_ok_sizes: "rep_ok partial r \<Longrightarrow> list_all (dim_ok partial) (sizes_of partial r)"
  by (cases r) (auto simp: rep_ok_def sizes_of_def list_all_iff intro: read_dim_ok)

lemma repack_sizes:
  assumes "list_all (dim_ok partial) vals"
  shows "rep_ok partial (repack partial vals) \<and> sizes_of partial (repack partial vals) = vals"
proof (cases "length vals \<le> 3 \<and> list_all (\<lambda>v. v < kMaxRep32) vals")
  case True
  have p: "read32 partial (pack32 partial x) = x \<and>
    (uint (pack32 partial x) < kMaxRep32 \<or> partial \<and> pack32 partial x = kUnknownRep32)" if "x \<in> set vals" for x
    using read_pack32[of partial x] assms True that by (auto simp: list_all_iff)
  have "map (\<lambda>x. read32 partial (pack32 partial x)) vals = vals" using p by (simp add: map_idI)
  then show ?thesis using True p by (auto simp: repack_def rep_ok_def sizes_of_def list_all_iff o_def)
next
  case False
  then have "repack partial vals = RepOutOfLine vals" by (auto simp: repack_def)
  then show ?thesis using assms by (simp add: rep_ok_def sizes_of_def)
qed

text \<open>The sizes as the loops of the code read them.\<close>

lemma word8_length: "n \<le> 254 \<Longrightarrow> uint (word_of_nat n :: 8 word) = int n"
  by (simp add: uint_nat unat_of_nat)

lemma word8_unknown: "n \<le> 254 \<Longrightarrow> (word_of_nat n :: 8 word) \<noteq> kUnknownRankByte"
  using word8_length[of n] by auto

lemma dim_size_eq:
  assumes "\<not> unknown_rank_of partial t" "ndims partial t = int (length (sizes_of partial (ts_rep t)))"
    and "0 \<le> d" "d < ndims partial t"
  shows "dim_size partial t d = Inr (sizes_of partial (ts_rep t) ! nat d)"
  using assms by (cases "ts_rep t") (auto simp: dim_size_def sizes_of_def vecAt_def)

lemma mapR_Inr: "(\<And>x. x \<in> set xs \<Longrightarrow> f x = Inr (g x)) \<Longrightarrow> mapR f xs = Inr (map g xs)"
  by (induction xs) auto

lemma upto_nth: "map (\<lambda>d. xs ! nat d) [0..int (length xs) - 1] = xs"
  by (rule nth_equalityI) auto

lemma stores_known:
  assumes "stores partial t xs"
  shows "\<not> unknown_rank_of partial t" "uint (ndims_byte t) = int (length xs)" "ndims partial t = int (length xs)"
    "list_all (dim_ok partial) xs"
  using assms word8_unknown word8_length rep_ok_sizes[of partial "ts_rep t"]
  by (auto simp: stores_def ndims_def unknown_rank_of_def)

lemma stores_read:
  assumes "stores partial t xs"
  shows "mapR (dim_size partial t) [0..ndims partial t - 1] = Inr xs"
proof -
  note k = stores_known[OF assms]
  have x: "sizes_of partial (ts_rep t) = xs" using assms by (simp add: stores_def)
  have "mapR (dim_size partial t) [0..ndims partial t - 1] =
      Inr (map (\<lambda>d. sizes_of partial (ts_rep t) ! nat d) [0..ndims partial t - 1])"
    by (rule mapR_Inr) (rule dim_size_eq[OF k(1)], use k(3) x in auto)
  then show ?thesis by (simp add: k(3) x upto_nth)
qed

lemma stores_sizes: "stores partial t xs \<Longrightarrow> dim_sizes_of partial t = Inr xs"
  using stores_read[of partial t xs] stores_known[of partial t xs] by (simp add: dim_sizes_of_def)

section \<open>Adding a dimension\<close>

definition addRep :: "bool \<Rightarrow> int \<Rightarrow> int list \<Rightarrow> int \<Rightarrow> shape_rep \<Rightarrow> shape_rep" where
  "addRep partial nd vals x r = (case r of
     Rep16 ws \<Rightarrow> if nd < 6 \<and> x < kMaxRep16 then Rep16 (ws @ [pack16 partial x]) else repack partial (vals @ [x])
   | Rep32 ws \<Rightarrow> if nd < 3 \<and> x < kMaxRep32 then Rep32 (ws @ [pack32 partial x]) else repack partial (vals @ [x])
   | RepOutOfLine xs \<Rightarrow> RepOutOfLine (xs @ [x]))"

lemma sizes_then:
  "dim_sizes_of partial t = Inr vals \<Longrightarrow>
   andThen (andThen (gets (dim_sizes_of partial)) (\<lambda>v. andThen (liftR v) (\<lambda>vals. ret (F vals)))) K t = K (F vals) t"
  by (simp add: op_simps)

lemma UnsafeAddDim_eq:
  assumes "dim_sizes_of partial t = Inr vals"
  shows "UnsafeAddDim partial x k t = (Inr (), t\<lparr>ts_rep := addRep partial (uint (ndims_byte t)) vals x (ts_rep t),
    ndims_byte := word_of_int (uint (ndims_byte t) + 1), num_elements := k\<rparr>)"
proof -
  note run = andThen_gets andThen_ret modify_run split_conv shape_rep.case sizes_then[OF assms]
    if_True if_False simp_thms UnsafeAddDim_def addRep_def
  show ?thesis
  proof (cases "ts_rep t")
    case (Rep16 ws)
    then show ?thesis by (cases "uint (ndims_byte t) < 6 \<and> x < kMaxRep16") (simp_all only: run)
  next
    case (Rep32 ws)
    then show ?thesis by (cases "uint (ndims_byte t) < 3 \<and> x < kMaxRep32") (simp_all only: run)
  next
    case (RepOutOfLine xs)
    then show ?thesis by (simp only: run)
  qed
qed

lemma addRep_ok:
  assumes r: "rep_ok partial r" and x: "dim_ok partial x" and nd: "nd = int (length (sizes_of partial r))"
  shows "rep_ok partial (addRep partial nd (sizes_of partial r) x r) \<and>
    sizes_of partial (addRep partial nd (sizes_of partial r) x r) = sizes_of partial r @ [x]"
proof -
  have pk: "rep_ok partial (repack partial (sizes_of partial r @ [x])) \<and>
      sizes_of partial (repack partial (sizes_of partial r @ [x])) = sizes_of partial r @ [x]"
    by (rule repack_sizes) (use rep_ok_sizes[OF r] x in simp)
  show ?thesis
  proof (cases r)
    case (Rep16 ws)
    show ?thesis
    proof (cases "nd < 6 \<and> x < kMaxRep16")
      case True
      then have e: "addRep partial nd (sizes_of partial r) x r = Rep16 (ws @ [pack16 partial x])"
        by (simp only: Rep16 addRep_def shape_rep.case if_True simp_thms)
      have "length ws < 6" using True nd by (simp add: Rep16 sizes_of_def)
      then show ?thesis unfolding e using r Rep16 read_pack16[OF x] True by (simp add: rep_ok_def sizes_of_def)
    next
      case False
      then have "addRep partial nd (sizes_of partial r) x r = repack partial (sizes_of partial r @ [x])"
        by (simp only: Rep16 addRep_def shape_rep.case if_False simp_thms)
      then show ?thesis using pk by simp
    qed
  next
    case (Rep32 ws)
    show ?thesis
    proof (cases "nd < 3 \<and> x < kMaxRep32")
      case True
      then have e: "addRep partial nd (sizes_of partial r) x r = Rep32 (ws @ [pack32 partial x])"
        by (simp only: Rep32 addRep_def shape_rep.case if_True simp_thms)
      have "length ws < 3" using True nd by (simp add: Rep32 sizes_of_def)
      then show ?thesis unfolding e using r Rep32 read_pack32[OF x] True by (simp add: rep_ok_def sizes_of_def)
    next
      case False
      then have "addRep partial nd (sizes_of partial r) x r = repack partial (sizes_of partial r @ [x])"
        by (simp only: Rep32 addRep_def shape_rep.case if_False simp_thms)
      then show ?thesis using pk by simp
    qed
  next
    case (RepOutOfLine xs)
    then show ?thesis using r x by (simp add: addRep_def rep_ok_def sizes_of_def)
  qed
qed

lemma UnsafeAddDim_run:
  assumes s: "stores partial t xs" and x: "dim_ok partial x" and n: "length xs < 254"
  shows "\<exists>t'. UnsafeAddDim partial x k t = (Inr (), t') \<and> stores partial t' (xs @ [x]) \<and> num_elements t' = k \<and>
    ts_data_type t' = ts_data_type t"
proof -
  let ?r = "addRep partial (int (length xs)) xs x (ts_rep t)"
  have r: "rep_ok partial (ts_rep t)" "sizes_of partial (ts_rep t) = xs" using s by (auto simp: stores_def)
  have "int (length xs) + 1 = int (Suc (length xs))" by simp
  then have w: "(word_of_int (int (length xs) + 1) :: 8 word) = word_of_nat (Suc (length xs))"
    by (simp only: of_int_of_nat_eq)
  have "rep_ok partial ?r \<and> sizes_of partial ?r = xs @ [x]" using addRep_ok[OF r(1) x] r(2) by simp
  then show ?thesis
    unfolding UnsafeAddDim_eq[OF stores_sizes[OF s]] stores_known(2)[OF s] w using n
    by (intro exI[of _ "t\<lparr>ts_rep := ?r, ndims_byte := word_of_nat (Suc (length xs)), num_elements := k\<rparr>"])
      (simp add: stores_def del: of_nat_Suc)
qed

section \<open>Counting\<close>

lemma prefixes_fit_prod:
  "prefixes_fit n xs \<Longrightarrow> n \<le> int64_max \<Longrightarrow> n * prod_list xs \<le> int64_max"
  by (induction xs arbitrary: n) (auto simp: mult.assoc[symmetric])

lemma count_of_simps:
  "list_all (\<lambda>x. 0 \<le> x) xs \<Longrightarrow> count_of xs = prod_list xs" "\<not> list_all (\<lambda>x. 0 \<le> x) xs \<Longrightarrow> count_of xs = - 1"
  by (auto simp: count_of_def)

lemma prod_list_nonneg: "list_all (\<lambda>x. 0 \<le> x) xs \<Longrightarrow> 0 \<le> prod_list (xs :: int list)"
  by (induction xs) auto

lemma takeWhile_all: "list_all P xs \<Longrightarrow> takeWhile P xs = xs"
  by (induction xs) auto

lemma takeWhile_stop: "\<not> list_all P xs \<Longrightarrow> takeWhile P (xs @ ys) = takeWhile P xs"
  by (induction xs) auto

lemma fits_count_known: "list_all (\<lambda>x. 0 \<le> x) xs \<Longrightarrow> fits_count xs \<longleftrightarrow> prefixes_fit 1 xs"
  by (simp add: fits_count_def takeWhile_all)

lemma count_bounds: "fits_count xs \<Longrightarrow> - 1 \<le> count_of xs \<and> count_of xs \<le> int64_max"
  using prefixes_fit_prod[of 1 xs] prod_list_nonneg[of xs]
  by (cases "list_all (\<lambda>x. 0 \<le> x) xs") (auto simp: count_of_simps fits_count_known)

lemma count_append:
  assumes "fits_count xs"
  shows "x < 0 \<or> count_of xs < 0 \<Longrightarrow> fits_count (xs @ [x]) \<and> count_of (xs @ [x]) = - 1"
    and "0 \<le> x \<Longrightarrow> 0 \<le> count_of xs \<Longrightarrow> (fits_count (xs @ [x]) \<longleftrightarrow> count_of xs * x \<le> int64_max) \<and>
      count_of (xs @ [x]) = count_of xs * x"
proof -
  show "fits_count (xs @ [x]) \<and> count_of (xs @ [x]) = - 1" if "x < 0 \<or> count_of xs < 0"
  proof (cases "list_all (\<lambda>x. 0 \<le> x) xs")
    case True
    then have "x < 0" using that prod_list_nonneg[OF True] by (simp add: count_of_simps)
    then show ?thesis using assms True by (auto simp: fits_count_def count_of_def takeWhile_all takeWhile_tail)
  next
    case False
    then show ?thesis using assms by (auto simp: fits_count_def count_of_def takeWhile_stop)
  qed
  show "(fits_count (xs @ [x]) \<longleftrightarrow> count_of xs * x \<le> int64_max) \<and> count_of (xs @ [x]) = count_of xs * x"
    if "0 \<le> x" "0 \<le> count_of xs"
  proof -
    have k: "list_all (\<lambda>x. 0 \<le> x) xs" using that(2) by (auto simp: count_of_def split: if_splits)
    then show ?thesis using assms that(1) by (simp add: fits_count_known count_of_simps prefixes_fit_append)
  qed
qed

text \<open>Adding a dimension, with an error or with a check.\<close>

lemma AddDimWithStatus_run:
  assumes p: "packed partial t xs" and x: "dim_ok partial x"
  shows "if length xs < 254 \<and> fits_count (xs @ [x])
    then \<exists>t'. AddDimWithStatus partial x t = (Inr (), t') \<and> packed partial t' (xs @ [x]) \<and> ts_data_type t' = ts_data_type t
    else AddDimWithStatus partial x t = (Inl (Status InvalidArgument), t)"
proof -
  have s: "stores partial t xs" and f: "fits_count xs" and n: "num_elements t = count_of xs" using p by (auto simp: packed_def)
  note k = stores_known[OF s]
  have px: "partial \<or> 0 \<le> x" using x by (auto simp: dim_ok_def split: if_splits)
  have run: "AddDimWithStatus partial x t =
     (if length xs < 254 then
        if partial \<and> (count_of xs < 0 \<or> x < 0) then UnsafeAddDim partial x (- 1) t
        else if 0 \<le> MultiplyWithoutOverflow (count_of xs) x then UnsafeAddDim partial x (MultiplyWithoutOverflow (count_of xs) x) t
        else (Inl (Status InvalidArgument), t)
      else (Inl (Status InvalidArgument), t))"
    using px by (auto simp: AddDimWithStatus_def op_simps k(1,2) n Let_def)
  show ?thesis
  proof (cases "length xs < 254")
    case l: True
    show ?thesis
    proof (cases "partial \<and> (count_of xs < 0 \<or> x < 0)")
      case True
      then show ?thesis using run l count_append(1)[OF f, of x] UnsafeAddDim_run[OF s x l, of "- 1"]
        by (auto simp: packed_def)
    next
      case False
      have nn: "0 \<le> count_of xs" "0 \<le> x"
      proof -
        have "list_all (\<lambda>x. 0 \<le> x) xs \<or> partial" using k(4) by (auto simp: list_all_iff dim_ok_def split: if_splits)
        then show "0 \<le> count_of xs" using False prod_list_nonneg[of xs] by (auto simp: count_of_def split: if_splits)
        show "0 \<le> x" using False px by auto
      qed
      have b: "count_of xs \<le> int64_max" "x \<le> int64_max" using count_bounds[OF f] x by (auto simp: dim_ok_def)
      note m = mwo.mul_exact[OF nn(1,2) b] mwo.mul_overflow[OF nn(1,2) b] mwo.mul_nonneg_iff[OF nn(1,2) b]
      show ?thesis
        using run l False count_append(2)[OF f nn(2,1)] m UnsafeAddDim_run[OF s x l, of "count_of xs * x"]
        by (cases "count_of xs * x \<le> int64_max") (auto simp: packed_def)
    qed
  next
    case False
    then show ?thesis using run by simp
  qed
qed

lemma AddDim_AddDimWithStatus:
  assumes "dim_sizes_of partial t = Inr vals \<or> unknown_rank_of partial t"
  shows "AddDim partial x t =
    (case AddDimWithStatus partial x t of (Inl (Status _), t') \<Rightarrow> (Inl (Fault CheckFailed), t') | r \<Rightarrow> r)"
proof (cases "unknown_rank_of partial t")
  case True
  then show ?thesis by (auto simp: AddDim_def AddDimWithStatus_def op_simps)
next
  case False
  then have "\<forall>k. \<exists>t'. UnsafeAddDim partial x k t = (Inr (), t')"
    using assms UnsafeAddDim_eq[of partial t vals x] by blast
  then obtain g where "\<And>k. UnsafeAddDim partial x k t = (Inr (), g k)" by metis
  then show ?thesis using False by (auto simp: AddDim_def AddDimWithStatus_def op_simps Let_def)
qed

end
