(* ===== verification/TensorShapeSound.thy ===== *)
theory TensorShapeSound
  imports TensorShapeRep
begin

text \<open>
  The operations on packed shapes are the operations on lists of sizes: what each of them
  computes, when it fails, and that the invariant is kept.
\<close>

section \<open>Loops that add dimensions\<close>

lemma prefixes_fit_take: "prefixes_fit n (xs @ ys) \<Longrightarrow> prefixes_fit n xs"
  by (simp add: prefixes_fit_append)

lemma fits_count_take: "fits_count (xs @ ys) \<Longrightarrow> fits_count xs"
  by (cases "list_all (\<lambda>x. 0 \<le> x) xs")
    (auto simp: fits_count_def takeWhile_stop takeWhile_all list_all_iff takeWhile_append2 dest: prefixes_fit_take)

definition room_for :: "int list \<Rightarrow> bool" where
  "room_for xs \<longleftrightarrow> length xs \<le> 254 \<and> fits_count xs"

lemma room_for_take: "room_for (xs @ ys) \<Longrightarrow> room_for xs"
  by (auto simp: room_for_def dest: fits_count_take)

lemma packed_room: "packed partial t xs \<Longrightarrow> room_for xs"
  by (simp add: packed_def stores_def room_for_def)

lemma AddDims_run:
  "packed partial t xs \<Longrightarrow> list_all (dim_ok partial) ys \<Longrightarrow>
   if room_for (xs @ ys)
   then \<exists>t'. iterOp (AddDimWithStatus partial) ys t = (Inr (), t') \<and> packed partial t' (xs @ ys) \<and> ts_data_type t' = ts_data_type t
   else \<exists>t' zs. iterOp (AddDimWithStatus partial) ys t = (Inl (Status InvalidArgument), t') \<and> packed partial t' zs"
proof (induction ys arbitrary: t xs)
  case Nil
  then show ?case using packed_room[OF Nil(1)] by (auto simp: op_simps)
next
  case (Cons y ys)
  have y: "dim_ok partial y" "list_all (dim_ok partial) ys" using Cons.prems by auto
  have l: "length xs \<le> 254" using packed_room[OF Cons.prems(1)] by (simp add: room_for_def)
  show ?case
  proof (cases "length xs < 254 \<and> fits_count (xs @ [y])")
    case True
    then obtain t1 where 1: "AddDimWithStatus partial y t = (Inr (), t1)" "packed partial t1 (xs @ [y])" "ts_data_type t1 = ts_data_type t"
      using AddDimWithStatus_run[OF Cons.prems(1) y(1)] by auto
    show ?thesis using Cons.IH[OF 1(2) y(2)] 1(1,3) by (auto simp: op_simps)
  next
    case False
    then have e: "AddDimWithStatus partial y t = (Inl (Status InvalidArgument), t)"
      using AddDimWithStatus_run[OF Cons.prems(1) y(1)] by auto
    have "\<not> room_for (xs @ y # ys)"
      using False room_for_take[of "xs @ [y]" ys] l by (auto simp: room_for_def)
    then show ?thesis using e Cons.prems(1) by (auto simp: op_simps)
  qed
qed

text \<open>What a failed loop leaves: the longest part of the list that has room.\<close>

lemma AddDims_stop:
  "packed partial t xs \<Longrightarrow> list_all (dim_ok partial) ys \<Longrightarrow> \<not> room_for (xs @ ys) \<Longrightarrow>
   \<exists>t' k. iterOp (AddDimWithStatus partial) ys t = (Inl (Status InvalidArgument), t') \<and> k < length ys \<and>
     packed partial t' (xs @ take k ys) \<and> \<not> room_for (xs @ take (Suc k) ys)"
proof (induction ys arbitrary: t xs)
  case Nil
  then show ?case using packed_room by auto
next
  case (Cons y ys)
  have y: "dim_ok partial y" "list_all (dim_ok partial) ys" using Cons.prems by auto
  show ?case
  proof (cases "length xs < 254 \<and> fits_count (xs @ [y])")
    case True
    then obtain t1 where 1: "AddDimWithStatus partial y t = (Inr (), t1)" "packed partial t1 (xs @ [y])"
      using AddDimWithStatus_run[OF Cons.prems(1) y(1)] by auto
    obtain t' k where "iterOp (AddDimWithStatus partial) ys t1 = (Inl (Status InvalidArgument), t')" "k < length ys"
        "packed partial t' ((xs @ [y]) @ take k ys)" "\<not> room_for ((xs @ [y]) @ take (Suc k) ys)"
      using Cons.IH[OF 1(2) y(2)] Cons.prems(3) by auto
    then show ?thesis using 1(1) by (intro exI[of _ t'] exI[of _ "Suc k"]) (simp add: op_simps)
  next
    case False
    then have "AddDimWithStatus partial y t = (Inl (Status InvalidArgument), t)"
      using AddDimWithStatus_run[OF Cons.prems(1) y(1)] by auto
    moreover have "\<not> room_for (xs @ [y])" using False by (auto simp: room_for_def)
    ultimately show ?thesis using Cons.prems(1) by (intro exI[of _ t] exI[of _ 0]) (simp add: op_simps)
  qed
qed

text \<open>With the checked version the same lists go through; the others are fatal.\<close>

lemma AddDims_check:
  "packed partial t xs \<Longrightarrow> list_all (dim_ok partial) ys \<Longrightarrow> room_for (xs @ ys) \<Longrightarrow>
   \<exists>t'. iterOp (AddDim partial) ys t = (Inr (), t') \<and> packed partial t' (xs @ ys) \<and> ts_data_type t' = ts_data_type t"
proof (induction ys arbitrary: t xs)
  case Nil
  then show ?case by (auto simp: op_simps)
next
  case (Cons y ys)
  have y: "dim_ok partial y" "list_all (dim_ok partial) ys" using Cons.prems by auto
  have "room_for (xs @ [y])" using room_for_take[of "xs @ [y]" ys] Cons.prems(3) by simp
  then obtain t1 where 1: "AddDimWithStatus partial y t = (Inr (), t1)" "packed partial t1 (xs @ [y])" "ts_data_type t1 = ts_data_type t"
    using AddDimWithStatus_run[OF Cons.prems(1) y(1)] by (auto simp: room_for_def)
  have "stores partial t xs" using Cons.prems(1) by (simp add: packed_def)
  then have "AddDim partial y t = (Inr (), t1)"
    using AddDim_AddDimWithStatus[of partial t xs y] stores_sizes 1(1) by auto
  then show ?case using Cons.IH[OF 1(2) y(2)] Cons.prems(3) 1(3) by (auto simp: op_simps)
qed

lemma packed_clear: "packed partial (t\<lparr>ts_rep := Rep16 [], ndims_byte := 0, num_elements := 1\<rparr>) []"
  by (simp add: packed_def stores_def rep_ok_def sizes_of_def fits_count_def count_of_def)

lemma ClearAllButDataType_run:
  "ClearAllButDataType t = (Inr (), t\<lparr>ts_rep := Rep16 [], ndims_byte := 0, num_elements := 1\<rparr>)"
  by (simp add: ClearAllButDataType_def op_simps)

lemma rebuild_run:
  assumes "list_all (dim_ok partial) ys"
  shows "if room_for ys
   then \<exists>t'. andThen ClearAllButDataType (\<lambda>_. iterOp (AddDimWithStatus partial) ys) t = (Inr (), t') \<and>
      packed partial t' ys \<and> ts_data_type t' = ts_data_type t
   else \<exists>t'. andThen ClearAllButDataType (\<lambda>_. iterOp (AddDimWithStatus partial) ys) t = (Inl (Status InvalidArgument), t')"
  using AddDims_run[OF packed_clear assms, of t] by (auto simp: andThen_Inr[OF ClearAllButDataType_run])

section \<open>Recounting\<close>

lemma recompute_eq:
  assumes "0 \<le> n" "n \<le> int64_max" "list_all (dim_ok partial) xs"
  shows "recompute partial xs n =
    (if prefixes_fit n (takeWhile (\<lambda>x. 0 \<le> x) xs)
     then Inr (if list_all (\<lambda>x. 0 \<le> x) xs then n * prod_list xs else - 1) else Inl (Status InvalidArgument))"
  using assms
proof (induction xs arbitrary: n)
  case (Cons x xs)
  show ?case
  proof (cases "x < 0")
    case True
    then show ?thesis using Cons.prems(3) by (auto simp: dim_ok_def split: if_splits)
  next
    case False
    have b: "0 \<le> x" "x \<le> int64_max" using False Cons.prems(3) by (auto simp: dim_ok_def)
    note m = mwo.mul_exact[OF Cons.prems(1) b(1) Cons.prems(2) b(2)]
      mwo.mul_overflow[OF Cons.prems(1) b(1) Cons.prems(2) b(2)]
    show ?thesis
    proof (cases "n * x \<le> int64_max")
      case True
      have "0 \<le> n * x" using Cons.prems(1) b(1) by simp
      then show ?thesis using True False m Cons.IH[of "n * x"] Cons.prems(3) by (simp add: Let_def mult.assoc)
    next
      case nf: False
      then show ?thesis using False m by (simp add: Let_def)
    qed
  qed
qed simp

lemma RecomputeNumElements_run:
  assumes "stores partial t xs"
  shows "RecomputeNumElements partial t =
    (if fits_count xs then (Inr (), t\<lparr>num_elements := count_of xs\<rparr>) else (Inl (Status InvalidArgument), t))"
  using stores_known[OF assms] stores_sizes[OF assms] recompute_eq[of 1 partial xs]
  by (auto simp: RecomputeNumElements_def op_simps fits_count_def count_of_def)

lemma packed_recount: "stores partial t xs \<Longrightarrow> fits_count xs \<Longrightarrow> packed partial (t\<lparr>num_elements := count_of xs\<rparr>) xs"
  by (simp add: packed_def stores_def)

lemma recount_packed: "packed partial t xs \<Longrightarrow> RecomputeNumElements partial t = (Inr (), t)"
  using RecomputeNumElements_run[of partial t xs] by (simp add: packed_def)

section \<open>Operations on a shape of known rank\<close>

lemma sizesNow_run: "stores partial t xs \<Longrightarrow> sizesNow partial t = (Inr xs, t)"
  by (simp add: sizesNow_def op_simps stores_sizes)

text \<open>The outcome of an operation that computes a list of sizes or fails.\<close>

definition computes :: "bool \<Rightarrow> tensor_shape \<Rightarrow> unit tsop \<Rightarrow> int list \<Rightarrow> bool" where
  "computes partial t m ys \<longleftrightarrow>
    (if room_for ys
     then \<exists>t'. m t = (Inr (), t') \<and> packed partial t' ys \<and> ts_data_type t' = ts_data_type t
     else \<exists>t'. m t = (Inl (Status InvalidArgument), t'))"

lemma rebuild_computes:
  assumes "stores partial t xs" "list_all (dim_ok partial) (f xs)"
  shows "computes partial t (andThen (sizesNow partial) (\<lambda>vals.
     andThen ClearAllButDataType (\<lambda>_. iterOp (AddDimWithStatus partial) (f vals)))) (f xs)"
proof -
  have "andThen (sizesNow partial) K t = K xs t" for K :: "int list \<Rightarrow> unit tsop"
    using sizesNow_run[OF assms(1)] by (simp add: andThen_def)
  then show ?thesis using rebuild_run[OF assms(2), of t] by (simp add: computes_def)
qed

lemma computes_recount:
  assumes "computes partial t m ys"
  shows "computes partial t (andThen m (\<lambda>_. RecomputeNumElements partial)) ys"
  using assms recount_packed by (auto simp: computes_def op_simps split: if_splits)

lemma InsertDimWithStatus_computes:
  assumes p: "packed partial t xs" and d: "0 \<le> d" "d \<le> int (length xs)" and x: "dim_ok partial x" and l: "length xs < 254"
  shows "computes partial t (InsertDimWithStatus partial d x) (take (nat d) xs @ x # drop (nat d) xs)"
proof -
  have s: "stores partial t xs" using p by (simp add: packed_def)
  have ok: "list_all (dim_ok partial) (take (nat d) xs @ x # drop (nat d) xs)"
    using stores_known(4)[OF s] x by (auto simp: list_all_iff dest: in_set_takeD in_set_dropD)
  have "partial \<or> 0 \<le> x" using x by (auto simp: dim_ok_def split: if_splits)
  then have "InsertDimWithStatus partial d x t = andThen (sizesNow partial) (\<lambda>vals. andThen ClearAllButDataType (\<lambda>_.
      iterOp (AddDimWithStatus partial) (take (nat d) vals @ x # drop (nat d) vals))) t"
    using d l stores_known(3)[OF s] by (simp add: InsertDimWithStatus_def op_simps)
  then show ?thesis
    using rebuild_computes[OF s, of "\<lambda>vals. take (nat d) vals @ x # drop (nat d) vals"] ok by (simp add: computes_def)
qed

lemma RemoveDimRangeWithStatus_run:
  fixes a b :: int
  assumes p: "packed partial t xs"
  defines "i \<equiv> fromEnd (int (length xs)) a" and "j \<equiv> fromEnd (int (length xs)) b"
  shows "if \<not> (0 \<le> i \<and> i \<le> int (length xs) \<and> 0 \<le> j \<and> j \<le> int (length xs))
    then RemoveDimRangeWithStatus partial a b t = (Inl (Status Internal), t)
    else computes partial t (RemoveDimRangeWithStatus partial a b) (if j \<le> i then xs else take (nat i) xs @ drop (nat j) xs)"
proof -
  have s: "stores partial t xs" using p by (simp add: packed_def)
  note k = stores_known[OF s]
  let ?ys = "take (nat i) xs @ drop (nat j) xs"
  have ok: "list_all (dim_ok partial) ?ys" using k(4) by (auto simp: list_all_iff dest: in_set_takeD in_set_dropD)
  let ?m = "andThen (sizesNow partial) (\<lambda>vals. andThen ClearAllButDataType (\<lambda>_.
      iterOp (AddDimWithStatus partial) (take (nat i) vals @ drop (nat j) vals)))"
  have c: "computes partial t (andThen ?m (\<lambda>_. RecomputeNumElements partial)) ?ys"
    by (rule computes_recount, rule rebuild_computes[where f = "\<lambda>vals. take (nat i) vals @ drop (nat j) vals", OF s ok])
  have run: "RemoveDimRangeWithStatus partial a b t =
     (if \<not> (0 \<le> i \<and> i \<le> int (length xs) \<and> 0 \<le> j \<and> j \<le> int (length xs)) then (Inl (Status Internal), t)
      else if j \<le> i then (Inr (), t) else andThen ?m (\<lambda>_. RecomputeNumElements partial) t)"
    using k(1,3) by (simp add: RemoveDimRangeWithStatus_def op_simps Let_def i_def j_def andThen_assoc)
  have "computes partial t (RemoveDimRangeWithStatus partial a b) xs" if "j \<le> i" "0 \<le> i" "i \<le> int (length xs)" "0 \<le> j" "j \<le> int (length xs)"
    using run that p packed_room[OF p] by (simp add: computes_def)
  then show ?thesis using run c by (auto simp: computes_def)
qed

lemma list_update_ok: "list_all P xs \<Longrightarrow> P x \<Longrightarrow> list_all P (xs[i := x])"
  using set_update_subset_insert[of xs i x] by (auto simp: list_all_iff)

text \<open>Whether a size is written into the array that holds the shape, or the shape is cleared and
  its sizes are added again.\<close>

definition in_place :: "tensor_shape \<Rightarrow> int \<Rightarrow> bool" where
  "in_place t x \<longleftrightarrow>
    (case ts_rep t of Rep16 _ \<Rightarrow> x < kMaxRep16 | Rep32 _ \<Rightarrow> x < kMaxRep32 | RepOutOfLine _ \<Rightarrow> True)"

text \<open>Writing in place keeps the array valid; the count is recomputed after it.\<close>

lemma writeDim_run:
  assumes s: "stores partial t xs" and d: "0 \<le> d" "d < int (length xs)" and x: "dim_ok partial x"
  shows "if in_place t x
    then \<exists>t'. writeDim partial add d x t = (Inr (), t') \<and> stores partial t' (xs[nat d := x]) \<and>
      ts_data_type t' = ts_data_type t \<and> num_elements t' = num_elements t
    else writeDim partial add d x t =
      andThen (sizesNow partial) (\<lambda>vals. andThen ClearAllButDataType (\<lambda>_. iterOp add (vals[nat d := x]))) t"
proof -
  have r: "rep_ok partial (ts_rep t)" "sizes_of partial (ts_rep t) = xs" "ndims_byte t = word_of_nat (length xs)" "length xs \<le> 254"
    using s by (auto simp: stores_def)
  show ?thesis
  proof (cases "ts_rep t")
    case (Rep16 ws)
    show ?thesis
    proof (cases "x < kMaxRep16")
      case True
      have "list_all (\<lambda>w. uint w < kMaxRep16 \<or> partial \<and> w = kUnknownRep16) (ws[nat d := pack16 partial x])"
        using r(1) Rep16 read_pack16[OF x True] by (intro list_update_ok) (auto simp: rep_ok_def)
      moreover have "map (read16 partial) (ws[nat d := pack16 partial x]) = xs[nat d := x]"
        using r(2) Rep16 read_pack16[OF x True] by (auto simp: sizes_of_def map_update)
      ultimately show ?thesis using True Rep16 r by (simp add: in_place_def writeDim_def op_simps Let_def stores_def rep_ok_def sizes_of_def)
    qed (simp add: in_place_def writeDim_def op_simps Let_def Rep16)
  next
    case (Rep32 ws)
    show ?thesis
    proof (cases "x < kMaxRep32")
      case True
      have "list_all (\<lambda>w. uint w < kMaxRep32 \<or> partial \<and> w = kUnknownRep32) (ws[nat d := pack32 partial x])"
        using r(1) Rep32 read_pack32[OF x True] by (intro list_update_ok) (auto simp: rep_ok_def)
      moreover have "map (read32 partial) (ws[nat d := pack32 partial x]) = xs[nat d := x]"
        using r(2) Rep32 read_pack32[OF x True] by (auto simp: sizes_of_def map_update)
      ultimately show ?thesis using True Rep32 r by (simp add: in_place_def writeDim_def op_simps Let_def stores_def rep_ok_def sizes_of_def)
    qed (simp add: in_place_def writeDim_def op_simps Let_def Rep32)
  next
    case (RepOutOfLine ys)
    have "list_all (dim_ok partial) (ys[nat d := x])" using r(1) RepOutOfLine x by (intro list_update_ok) (auto simp: rep_ok_def)
    then show ?thesis using RepOutOfLine r by (simp add: in_place_def writeDim_def op_simps Let_def stores_def rep_ok_def sizes_of_def)
  qed
qed

lemma SetDimWithStatus_computes:
  assumes p: "packed partial t xs" and d: "0 \<le> d" "d < int (length xs)" and x: "dim_ok partial x"
  shows "computes partial t (SetDimWithStatus partial d x) (xs[nat d := x])"
proof -
  have s: "stores partial t xs" using p by (simp add: packed_def)
  have l: "length xs \<le> 254" using s by (simp add: stores_def)
  have ok: "list_all (dim_ok partial) (xs[nat d := x])" by (rule list_update_ok[OF stores_known(4)[OF s] x])
  have "partial \<or> 0 \<le> x" using x by (auto simp: dim_ok_def split: if_splits)
  then have run: "SetDimWithStatus partial d x t =
      andThen (writeDim partial (AddDimWithStatus partial) d x) (\<lambda>_. RecomputeNumElements partial) t"
    using d stores_known(3)[OF s] by (simp add: SetDimWithStatus_def op_simps)
  consider (place) t' where "writeDim partial (AddDimWithStatus partial) d x t = (Inr (), t')"
      "stores partial t' (xs[nat d := x])" "ts_data_type t' = ts_data_type t"
    | (rebuilt) "writeDim partial (AddDimWithStatus partial) d x t =
        andThen (sizesNow partial) (\<lambda>vals. andThen ClearAllButDataType (\<lambda>_. iterOp (AddDimWithStatus partial) (vals[nat d := x]))) t"
    using writeDim_run[OF s d x, of "AddDimWithStatus partial"] by (cases "in_place t x") auto
  then show ?thesis
  proof cases
    case place
    then show ?thesis
      using run RecomputeNumElements_run[OF place(2)] packed_recount[OF place(2)] l by (auto simp: computes_def room_for_def andThen_Inr)
  next
    case rebuilt
    then have "SetDimWithStatus partial d x t = andThen (andThen (sizesNow partial) (\<lambda>vals. andThen ClearAllButDataType
        (\<lambda>_. iterOp (AddDimWithStatus partial) (vals[nat d := x])))) (\<lambda>_. RecomputeNumElements partial) t"
      using run by (simp add: andThen_def)
    then show ?thesis
      using computes_recount[OF rebuild_computes[where f = "\<lambda>vals. vals[nat d := x]", OF s ok]] by (simp add: computes_def)
  qed
qed

end
