(* ===== verification/TensorShapeRefine.thy ===== *)
theory TensorShapeRefine
  imports TensorShapeSound
begin

text \<open>
  The operations on packed shapes refine operations on lists of sizes. The abstract shape is
  \<open>None\<close> (unknown rank) or the list of sizes; an abstract operation returns the new shape or
  the error the code reports. Which of the three representations holds the sizes, and when a
  mutation moves them to another one, does not show.
\<close>

section \<open>Abstract operations\<close>

type_synonym sizes = "int list option"

definition checked :: "int list \<Rightarrow> sizes res" where
  "checked ys = (if room_for ys then Inr (Some ys) else Inl (Status InvalidArgument))"

fun addSizes :: "bool \<Rightarrow> int \<Rightarrow> sizes \<Rightarrow> sizes res" where
  "addSizes partial x A = (if \<not> partial \<and> x < 0 then Inl (Status InvalidArgument)
     else case A of None \<Rightarrow> Inr None | Some xs \<Rightarrow> checked (xs @ [x]))"

fun insertSizes :: "bool \<Rightarrow> int \<Rightarrow> int \<Rightarrow> sizes \<Rightarrow> sizes res" where
  "insertSizes partial d x A = (if \<not> partial \<and> x < 0 then Inl (Status InvalidArgument)
     else case A of None \<Rightarrow> Inl (Status Internal)
     | Some xs \<Rightarrow> if 0 \<le> d \<and> d \<le> int (length xs) \<and> length xs < 254
         then checked (take (nat d) xs @ x # drop (nat d) xs) else Inl (Status Internal))"

fun setSizes :: "bool \<Rightarrow> int \<Rightarrow> int \<Rightarrow> sizes \<Rightarrow> sizes res" where
  "setSizes partial d x None = Inl (Status InvalidArgument)"
| "setSizes partial d x (Some xs) =
    (if 0 \<le> d \<and> d < int (length xs) \<and> (partial \<or> 0 \<le> x) then checked (xs[nat d := x])
     else Inl (Status InvalidArgument))"

fun removeSizes :: "int \<Rightarrow> int \<Rightarrow> sizes \<Rightarrow> sizes res" where
  "removeSizes a b None = Inr None"
| "removeSizes a b (Some xs) =
    (let i = fromEnd (int (length xs)) a; j = fromEnd (int (length xs)) b in
     if \<not> (0 \<le> i \<and> i \<le> int (length xs) \<and> 0 \<le> j \<and> j \<le> int (length xs)) then Inl (Status Internal)
     else if j \<le> i then Inr (Some xs) else checked (take (nat i) xs @ drop (nat j) xs))"

text \<open>\<open>m\<close> run on the shape \<open>t\<close> does what the abstract operation does on its sizes.\<close>

definition refines_on :: "bool \<Rightarrow> tensor_shape \<Rightarrow> unit tsop \<Rightarrow> (sizes \<Rightarrow> sizes res) \<Rightarrow> bool" where
  "refines_on partial t m spec \<longleftrightarrow>
    (case spec (abs_ts partial t) of
       Inl e \<Rightarrow> fst (m t) = Inl e
     | Inr A \<Rightarrow> fst (m t) = Inr () \<and> wf_ts partial (snd (m t)) \<and> abs_ts partial (snd (m t)) = A \<and>
         ts_data_type (snd (m t)) = ts_data_type t)"

section \<open>Refinement\<close>

text \<open>A well-formed shape has an unknown rank or is packed.\<close>

lemma packed_wf: "packed partial t xs \<Longrightarrow> wf_ts partial t \<and> abs_ts partial t = Some xs"
  using stores_known(1)[of partial t xs] by (auto simp: packed_def wf_ts_def abs_ts_def stores_def)

lemma wf_ts_cases [consumes 1, case_names unknown known]:
  assumes "wf_ts partial t"
  obtains "unknown_rank_of partial t" "ndims partial t = - 1" "abs_ts partial t = None" "partial"
  | xs where "packed partial t xs" "abs_ts partial t = Some xs" "\<not> unknown_rank_of partial t"
      "ndims partial t = int (length xs)"
  using assms stores_known[of partial t "sizes_of partial (ts_rep t)"]
  by (cases "unknown_rank_of partial t")
    (auto simp: wf_ts_def abs_ts_def ndims_def unknown_rank_of_def packed_def)

lemma refines_error: "spec (abs_ts partial t) = Inl e \<Longrightarrow> m t = (Inl e, t') \<Longrightarrow> refines_on partial t m spec"
  by (simp add: refines_on_def)

lemma refines_keep: "spec (abs_ts partial t) = Inr (abs_ts partial t) \<Longrightarrow> wf_ts partial t \<Longrightarrow> m t = (Inr (), t) \<Longrightarrow>
    refines_on partial t m spec"
  by (simp add: refines_on_def)

lemma refines_computes:
  assumes "computes partial t m ys" "spec (abs_ts partial t) = checked ys"
  shows "refines_on partial t m spec"
  using assms packed_wf by (auto simp: refines_on_def checked_def computes_def split: if_splits)

text \<open>The float matrix of sizes 2 and 3.\<close>

definition sample_shape :: tensor_shape where
  "sample_shape = \<lparr>ts_rep = Rep16 [2, 3], ndims_byte = 2, num_elements = 6, ts_data_type = DT_FLOAT\<rparr>"

lemma sample_packed: "packed True sample_shape [2, 3]" "packed False sample_shape [2, 3]"
  by (auto simp: sample_shape_def packed_def stores_def rep_ok_def sizes_of_def read16_def fits_count_def count_of_def)

lemma sample_wf: "wf_ts True sample_shape" "wf_ts False sample_shape"
  "abs_ts True sample_shape = Some [2, 3]" "abs_ts False sample_shape = Some [2, 3]"
  using packed_wf[OF sample_packed(1)] packed_wf[OF sample_packed(2)] by auto

lemma packed_254: "packed partial t xs \<Longrightarrow> length xs \<le> 254"
  by (simp add: packed_def stores_def)

lemma AddDimWithStatus_computes:
  assumes "packed partial t xs" "dim_ok partial x"
  shows "computes partial t (AddDimWithStatus partial x) (xs @ [x])"
  using AddDimWithStatus_run[OF assms] packed_254[OF assms(1)]
  by (auto simp: computes_def room_for_def)

lemma dim_ok_sign: "- 1 \<le> x \<Longrightarrow> x \<le> int64_max \<Longrightarrow> dim_ok partial x \<longleftrightarrow> partial \<or> 0 \<le> x"
  by (auto simp: dim_ok_def)

text \<open>C21: adding a dimension appends a size; a negative size of a full shape, a 255th dimension
  and a number of elements beyond 64 bits are InvalidArgument, and a shape of unknown rank stays
  as it is.\<close>

theorem AddDimWithStatus_refines:
  assumes "wf_ts partial t" "- 1 \<le> x" "x \<le> int64_max"
  shows "refines_on partial t (AddDimWithStatus partial x) (addSizes partial x)"
proof (cases "partial \<or> 0 \<le> x")
  case False
  then show ?thesis by (intro refines_error[of _ _ _ _ _ t]) (auto simp: AddDimWithStatus_def op_simps)
next
  case x: True
  show ?thesis using assms(1)
  proof (cases rule: wf_ts_cases)
    case unknown
    then show ?thesis by (intro refines_keep assms(1)) (auto simp: AddDimWithStatus_def op_simps)
  next
    case (known xs)
    show ?thesis
      by (rule refines_computes[OF AddDimWithStatus_computes[OF known(1)]])
        (use x assms dim_ok_sign known in auto)
  qed
qed

lemma AddDimWithStatus_refines_witness:
  "refines_on True sample_shape (AddDimWithStatus True 70000) (addSizes True 70000)"
  by (rule AddDimWithStatus_refines[OF sample_wf(1)]) auto

text \<open>C26: inserting a dimension inserts a size at that index, in every representation. An index
  outside the shape, an unknown rank and a 255th dimension are Internal errors, a negative size
  of a full shape and a number of elements beyond 64 bits are InvalidArgument.\<close>

theorem InsertDimWithStatus_refines:
  assumes "wf_ts partial t" "- 1 \<le> x" "x \<le> int64_max"
  shows "refines_on partial t (InsertDimWithStatus partial d x) (insertSizes partial d x)"
proof (cases "partial \<or> 0 \<le> x")
  case False
  then show ?thesis by (intro refines_error[of _ _ _ _ _ t]) (auto simp: InsertDimWithStatus_def op_simps)
next
  case x: True
  show ?thesis using assms(1)
  proof (cases rule: wf_ts_cases)
    case unknown
    then show ?thesis using x by (intro refines_error[of _ _ _ _ _ t]) (auto simp: InsertDimWithStatus_def op_simps)
  next
    case (known xs)
    show ?thesis
    proof (cases "0 \<le> d \<and> d \<le> int (length xs) \<and> length xs < 254")
      case True
      then show ?thesis
        by (intro refines_computes[OF InsertDimWithStatus_computes[OF known(1)]])
          (use x assms dim_ok_sign known in auto)
    next
      case False
      then show ?thesis using x known
        by (intro refines_error[of _ _ _ _ _ t]) (auto simp: InsertDimWithStatus_def op_simps)
    qed
  qed
qed

lemma InsertDimWithStatus_refines_witness:
  "refines_on False sample_shape (InsertDimWithStatus False 1 70000) (insertSizes False 1 70000)"
  by (rule InsertDimWithStatus_refines[OF sample_wf(2)]) auto

text \<open>Setting a dimension replaces the size at that index, also where the new size moves the
  shape to another representation; everything the operation rejects is InvalidArgument.\<close>

theorem SetDimWithStatus_refines:
  assumes "wf_ts partial t" "- 1 \<le> x" "x \<le> int64_max"
  shows "refines_on partial t (SetDimWithStatus partial d x) (setSizes partial d x)"
  using assms(1)
proof (cases rule: wf_ts_cases)
  case unknown
  then show ?thesis by (intro refines_error[of _ _ _ _ _ t]) (auto simp: SetDimWithStatus_def op_simps)
next
  case (known xs)
  show ?thesis
  proof (cases "0 \<le> d \<and> d < int (length xs) \<and> (partial \<or> 0 \<le> x)")
    case True
    then show ?thesis
      by (intro refines_computes[OF SetDimWithStatus_computes[OF known(1)]])
        (use assms dim_ok_sign known in auto)
  next
    case False
    then show ?thesis using known
      by (intro refines_error[of _ _ _ _ _ t]) (auto simp: SetDimWithStatus_def op_simps)
  qed
qed

lemma SetDimWithStatus_refines_witness:
  "refines_on False sample_shape (SetDimWithStatus False 1 5000000000) (setSizes False 1 5000000000)"
  by (rule SetDimWithStatus_refines[OF sample_wf(2)]) auto

text \<open>Removing a range of dimensions, with ends counted from the back when negative, removes
  the sizes in that range; ends outside the shape are an Internal error, and a shape whose
  remaining sizes no longer fit (a removed zero made the product small) is InvalidArgument.\<close>

theorem RemoveDimRangeWithStatus_refines:
  assumes "wf_ts partial t"
  shows "refines_on partial t (RemoveDimRangeWithStatus partial a b) (removeSizes a b)"
  using assms
proof (cases rule: wf_ts_cases)
  case unknown
  then show ?thesis by (intro refines_keep assms) (auto simp: RemoveDimRangeWithStatus_def op_simps)
next
  case (known xs)
  show ?thesis
    using RemoveDimRangeWithStatus_run[OF known(1), of a b] known(2) packed_room[OF known(1)]
    by (auto simp: Let_def checked_def refines_on_def computes_def dest: packed_wf split: if_splits)
qed

lemma RemoveDimRangeWithStatus_refines_witness:
  "refines_on False sample_shape (RemoveDimRangeWithStatus False 0 (- 2)) (removeSizes 0 (- 2))"
  by (rule RemoveDimRangeWithStatus_refines[OF sample_wf(2)])

end
