(* ===== verification/TensorShapeBuild.thy ===== *)
theory TensorShapeBuild
  imports TensorShapeRefine
begin

text \<open>
  Constructors and validation. Every way to build a shape from sizes or from a proto gives the
  same list of sizes and rejects the same lists, except \<open>BuildTensorShape\<close> on a proto, which
  also rejects sizes whose product overflows in some other order.
\<close>

section \<open>The constructor from sizes\<close>

abbreviation int64_sizes :: "int list \<Rightarrow> bool" where
  "int64_sizes xs \<equiv> list_all (\<lambda>x. - 1 \<le> x \<and> x \<le> int64_max) xs"

lemma AddDims_bad:
  "packed partial t xs \<Longrightarrow> int64_sizes ys \<Longrightarrow> \<not> list_all (dim_ok partial) ys \<Longrightarrow>
   \<exists>t'. iterOp (AddDimWithStatus partial) ys t = (Inl (Status InvalidArgument), t')"
proof (induction ys arbitrary: t xs)
  case (Cons y ys)
  show ?case
  proof (cases "dim_ok partial y")
    case True
    then show ?thesis
      using AddDimWithStatus_run[OF Cons.prems(1) True] Cons.IH Cons.prems(2,3)
      by (auto simp: op_simps split: if_splits)
  next
    case False
    then show ?thesis using Cons.prems(2) by (auto simp: dim_ok_def AddDimWithStatus_def op_simps split: if_splits)
  qed
qed simp

lemma small_fit:
  "list_all (\<lambda>y. 0 \<le> y \<and> y \<le> 55108) ys \<Longrightarrow> 0 \<le> n \<Longrightarrow> n * 55108 ^ length ys \<le> int64_max \<Longrightarrow> prefixes_fit n ys"
proof (induction ys arbitrary: n)
  case (Cons y ys)
  have y: "0 \<le> y" "y \<le> 55108" using Cons.prems(1) by auto
  have "n * y * 55108 ^ length ys \<le> n * 55108 * 55108 ^ length ys"
    by (intro mult_right_mono mult_left_mono) (use y Cons.prems(2) in auto)
  then have le: "n * y * 55108 ^ length ys \<le> int64_max" using Cons.prems(3) by simp
  have "n * y * 1 \<le> n * y * 55108 ^ length ys"
    by (rule mult_left_mono) (use y Cons.prems(2) in auto)
  then show ?case using le Cons y by simp
qed simp

lemma four_small_fit:
  assumes "list_all (\<lambda>y. y \<le> 55108) xs" "length xs \<le> 4"
  shows "fits_count xs"
proof -
  let ?ys = "takeWhile (\<lambda>x. 0 \<le> x) xs"
  have "list_all (\<lambda>y. 0 \<le> y \<and> y \<le> 55108) ?ys"
    using assms(1) by (auto simp: list_all_iff dest: set_takeWhileD)
  moreover have "(55108 :: int) ^ length ?ys \<le> 55108 ^ 4"
    using le_trans[OF length_takeWhile_le assms(2)] by (intro power_increasing) auto
  then have "1 * (55108 :: int) ^ length ?ys \<le> int64_max" by simp
  ultimately show ?thesis unfolding fits_count_def by (intro small_fit) auto
qed

lemma blank_packed: "ts_rep t = Rep16 [] \<Longrightarrow> packed partial (t\<lparr>ndims_byte := 0, num_elements := 1\<rparr>) []"
  by (simp add: packed_def stores_def rep_ok_def sizes_of_def fits_count_def count_of_def)

lemma fast_packed:
  assumes ok: "list_all (dim_ok partial) xs" and small: "list_all (\<lambda>y. y \<le> 55108) xs" and l: "length xs \<le> 4"
  shows "packed partial (t\<lparr>ts_rep := Rep16 (map (pack16 partial) xs), ndims_byte := word_of_nat (length xs),
      num_elements := (if partial \<and> list_ex (\<lambda>s. s < 0) xs then - 1 else prod_list xs)\<rparr>) xs"
proof -
  have p: "read16 partial (pack16 partial x) = x \<and>
      (uint (pack16 partial x) < kMaxRep16 \<or> partial \<and> pack16 partial x = kUnknownRep16)" if "x \<in> set xs" for x
    using read_pack16[of partial x] ok small that by (fastforce simp: list_all_iff)
  have "map (\<lambda>x. read16 partial (pack16 partial x)) xs = xs" using p by (simp add: map_idI)
  moreover have "(if partial \<and> list_ex (\<lambda>s. s < 0) xs then - 1 else prod_list xs) = count_of xs"
    using ok by (auto simp: count_of_def list_all_iff list_ex_iff dim_ok_def not_le split: if_splits)
  ultimately show ?thesis
    using l p four_small_fit[OF small l] by (auto simp: packed_def stores_def rep_ok_def sizes_of_def list_all_iff o_def)
qed

lemma InitDims_run:
  assumes b: "int64_sizes xs" and r: "ts_rep t = Rep16 []"
  shows "if list_all (dim_ok partial) xs \<and> room_for xs
    then \<exists>t'. InitDims partial xs t = (Inr (), t') \<and> packed partial t' xs \<and> ts_data_type t' = ts_data_type t
    else \<exists>t'. InitDims partial xs t = (Inl (Status InvalidArgument), t')"
proof -
  let ?large = "list_ex (\<lambda>s. s > 55108) xs"
  let ?t0 = "t\<lparr>ndims_byte := 0, num_elements := 1\<rparr>"
  consider (neg) "\<not> partial" "\<not> ?large" "list_ex (\<lambda>s. s < 0) xs"
    | (fast) "\<not> ?large" "1 \<le> length xs" "length xs \<le> 4" "list_all (dim_ok partial) xs"
    | (slow) "InitDims partial xs t = iterOp (AddDimWithStatus partial) xs ?t0"
  proof -
    have "list_all (dim_ok partial) xs" if "\<not> (\<not> partial \<and> list_ex (\<lambda>s. s < 0) xs)"
      using that b by (auto simp: list_all_iff list_ex_iff dim_ok_def not_less)
    moreover have "InitDims partial xs t = iterOp (AddDimWithStatus partial) xs ?t0"
      if "\<not> (\<not> partial \<and> \<not> ?large \<and> list_ex (\<lambda>s. s < 0) xs)" "\<not> (\<not> ?large \<and> 1 \<le> length xs \<and> length xs \<le> 4)"
      by (simp only: InitDims_def kMaxSmall_def Let_def that if_False andThen_modify)
    ultimately show ?thesis using neg fast slow by metis
  qed
  then show ?thesis
  proof cases
    case neg
    then have "\<not> list_all (dim_ok partial) xs" by (fastforce simp: list_all_iff list_ex_iff dim_ok_def)
    then show ?thesis using neg by (simp add: InitDims_def kMaxSmall_def op_simps Let_def)
  next
    case fast
    have small: "list_all (\<lambda>y. y \<le> 55108) xs" using fast(1) by (auto simp: list_all_iff list_ex_iff not_less)
    have "\<not> (\<not> partial \<and> \<not> ?large \<and> list_ex (\<lambda>s. s < 0) xs)"
      using fast(4) by (auto simp: list_all_iff list_ex_iff dim_ok_def split: if_splits)
    then have run: "InitDims partial xs t = (Inr (), t\<lparr>ts_rep := Rep16 (map (pack16 partial) xs),
        ndims_byte := word_of_nat (length xs),
        num_elements := (if partial \<and> list_ex (\<lambda>s. s < 0) xs then - 1 else prod_list xs)\<rparr>)"
      using fast(1-3) by (auto simp: InitDims_def kMaxSmall_def Let_def modify_run)
    have pk: "packed partial (t\<lparr>ts_rep := Rep16 (map (pack16 partial) xs), ndims_byte := word_of_nat (length xs),
        num_elements := (if partial \<and> list_ex (\<lambda>s. s < 0) xs then - 1 else prod_list xs)\<rparr>) xs"
      by (rule fast_packed[OF fast(4) small fast(3)])
    show ?thesis unfolding run using pk packed_room[OF pk] fast(4) by simp
  next
    case slow
    note p = blank_packed[OF r, of partial]
    show ?thesis
    proof (cases "list_all (dim_ok partial) xs")
      case True
      then show ?thesis using AddDims_run[OF p True] by (auto simp: slow)
    next
      case False
      then show ?thesis using AddDims_bad[OF p b False] by (auto simp: slow)
    qed
  qed
qed

text \<open>Building a shape from a list of sizes succeeds exactly for at most 254 sizes of the right
  sign whose number of elements fits 64 bits, and then gives those sizes, whether the fast path
  for one to four small sizes or the general loop was taken. Everything else is InvalidArgument.\<close>

theorem BuildTensorShapeBase_builds:
  assumes "int64_sizes xs"
  shows "if list_all (dim_ok partial) xs \<and> room_for xs
    then \<exists>t'. BuildTensorShapeBase partial xs t = (Inr (), t') \<and> wf_ts partial t' \<and> abs_ts partial t' = Some xs \<and>
      num_elements t' = count_of xs
    else fst (BuildTensorShapeBase partial xs t) = Inl (Status InvalidArgument)"
  using InitDims_run[OF assms, of "t\<lparr>ts_rep := Rep16 [], ts_data_type := DT_INVALID\<rparr>" partial] packed_wf
  by (auto simp: BuildTensorShapeBase_def op_simps packed_def split: if_splits)

lemma BuildTensorShapeBase_builds_witness:
  "if list_all (dim_ok False) [2, 70000, 5] \<and> room_for [2, 70000, 5]
    then \<exists>t'. BuildTensorShapeBase False [2, 70000, 5] blankShape = (Inr (), t') \<and> wf_ts False t' \<and>
      abs_ts False t' = Some [2, 70000, 5] \<and> num_elements t' = count_of [2, 70000, 5]
    else fst (BuildTensorShapeBase False [2, 70000, 5] blankShape) = Inl (Status InvalidArgument)"
  by (rule BuildTensorShapeBase_builds) simp

text \<open>\<open>MakeShapeHelper\<close> adds the sizes one by one without counting dimensions again.\<close>

lemma addChecked_AddDim:
  assumes "packed partial t xs" "length xs < 254" "x \<le> int64_max"
  shows "if dim_ok partial x then addChecked partial x t = AddDimWithStatus partial x t
    else addChecked partial x t = (Inl (Status InvalidArgument), t)"
proof -
  note k = stores_known[of partial t xs]
  have s: "stores partial t xs" "num_elements t = count_of xs" using assms(1) by (auto simp: packed_def)
  have "count_of xs < 0 \<Longrightarrow> partial"
    using k(4)[OF s(1)] prod_list_nonneg[of xs] by (auto simp: count_of_def list_all_iff dim_ok_def split: if_splits)
  moreover have "x < - 1 \<or> x = - 1 \<or> 0 \<le> x" by auto
  ultimately show ?thesis
    using s k(1,2)[OF s(1)] assms(2,3)
    by (elim disjE) (auto simp: addChecked_def AddDimWithStatus_def op_simps Let_def dim_ok_def)
qed

lemma addChecked_run:
  "packed partial t xs \<Longrightarrow> length (xs @ ys) \<le> 254 \<Longrightarrow> list_all (\<lambda>y. y \<le> int64_max) ys \<Longrightarrow>
   if list_all (dim_ok partial) ys \<and> room_for (xs @ ys)
   then \<exists>t'. iterOp (addChecked partial) ys t = (Inr (), t') \<and> packed partial t' (xs @ ys) \<and> ts_data_type t' = ts_data_type t
   else \<exists>t'. iterOp (addChecked partial) ys t = (Inl (Status InvalidArgument), t')"
proof (induction ys arbitrary: t xs)
  case Nil
  then show ?case using packed_room[OF Nil(1)] by (auto simp: op_simps)
next
  case (Cons y ys)
  have l: "length xs < 254" "y \<le> int64_max" using Cons.prems by auto
  note step = addChecked_AddDim[OF Cons.prems(1) l]
  show ?case
  proof (cases "dim_ok partial y \<and> fits_count (xs @ [y])")
    case True
    then obtain t1 where 1: "addChecked partial y t = (Inr (), t1)" "packed partial t1 (xs @ [y])" "ts_data_type t1 = ts_data_type t"
      using AddDimWithStatus_run[OF Cons.prems(1), of y] step l by auto
    show ?thesis using Cons.IH[OF 1(2)] Cons.prems(2,3) 1(1,3) True by (auto simp: op_simps)
  next
    case False
    then have e: "addChecked partial y t = (Inl (Status InvalidArgument), t)"
      using AddDimWithStatus_run[OF Cons.prems(1), of y] step by (auto split: if_splits)
    have "\<not> (list_all (dim_ok partial) (y # ys) \<and> room_for (xs @ y # ys))"
      using False room_for_take[of "xs @ [y]" ys] by (auto simp: room_for_def)
    then show ?thesis using e by (auto simp: op_simps)
  qed
qed

text \<open>\<open>MakeShape\<close> and the constructor accept the same lists of sizes and give shapes with the
  same sizes, number of elements and type.\<close>

theorem MakeShapeHelper_agrees:
  assumes "int64_sizes xs"
  shows "case MakeShapeHelper partial xs t of
      (Inl e, _) \<Rightarrow> fst (BuildTensorShapeBase partial xs u) = Inl e
    | (Inr _, t') \<Rightarrow> wf_ts partial t' \<and> (\<exists>u'. BuildTensorShapeBase partial xs u = (Inr (), u') \<and>
        abs_ts partial t' = abs_ts partial u' \<and> num_elements t' = num_elements u' \<and> ts_data_type t' = ts_data_type u')"
proof -
  let ?u = "u\<lparr>ts_rep := Rep16 [], ts_data_type := DT_INVALID\<rparr>"
  let ?t = "t\<lparr>ts_rep := Rep16 [], ndims_byte := 0, num_elements := 1, ts_data_type := DT_INVALID\<rparr>"
  have m: "MakeShapeHelper partial xs t =
      (if length xs \<le> 254 then iterOp (addChecked partial) xs ?t else (Inl (Status InvalidArgument), ?t))"
    by (simp add: MakeShapeHelper_def Clear_def ClearAllButDataType_def op_simps)
  have b: "BuildTensorShapeBase partial xs u = InitDims partial xs ?u"
    by (simp add: BuildTensorShapeBase_def op_simps)
  have le: "list_all (\<lambda>y. y \<le> int64_max) xs" using assms by (auto simp: list_all_iff)
  have p: "packed partial ?t []"
    by (simp add: packed_def stores_def rep_ok_def sizes_of_def fits_count_def count_of_def)
  have i: "if list_all (dim_ok partial) xs \<and> room_for xs
    then \<exists>u'. InitDims partial xs ?u = (Inr (), u') \<and> packed partial u' xs \<and> ts_data_type u' = DT_INVALID
    else \<exists>u'. InitDims partial xs ?u = (Inl (Status InvalidArgument), u')"
    using InitDims_run[OF assms, of ?u partial] by (auto split: if_splits)
  show ?thesis
  proof (cases "list_all (dim_ok partial) xs \<and> room_for xs")
    case True
    then have "length xs \<le> 254" by (simp add: room_for_def)
    then obtain t' u' where "MakeShapeHelper partial xs t = (Inr (), t')" "packed partial t' xs" "ts_data_type t' = DT_INVALID"
        "BuildTensorShapeBase partial xs u = (Inr (), u')" "packed partial u' xs" "ts_data_type u' = DT_INVALID"
      using True i addChecked_run[OF p _ le] by (auto simp: m b)
    then show ?thesis using packed_wf by (auto simp: packed_def)
  next
    case False
    then show ?thesis using i addChecked_run[OF p _ le] by (auto simp: m b)
  qed
qed

lemma MakeShapeHelper_agrees_witness:
  "case MakeShapeHelper True [7, - 1, 70000] blankShape of
      (Inl e, _) \<Rightarrow> fst (BuildTensorShapeBase True [7, - 1, 70000] sample_shape) = Inl e
    | (Inr _, t') \<Rightarrow> wf_ts True t' \<and> (\<exists>u'. BuildTensorShapeBase True [7, - 1, 70000] sample_shape = (Inr (), u') \<and>
        abs_ts True t' = abs_ts True u' \<and> num_elements t' = num_elements u' \<and> ts_data_type t' = ts_data_type u')"
  by (rule MakeShapeHelper_agrees) simp

end
