(* ===== verification/TensorShapeProtos.thy ===== *)
theory TensorShapeProtos
  imports TensorShapeBuild
begin

text \<open>
  Shapes and protos: the conversion there and back, what the validity checks accept, and the
  order of multiplication that \<open>BuildTensorShape\<close> adds to them.
\<close>

section \<open>The validity checks\<close>

lemma validSizes_unknown: "validSizes True xs (- 1) \<longleftrightarrow> list_all (\<lambda>x. - 1 \<le> x) xs"
  by (induction xs) auto

lemma validSizes_known:
  "list_all (\<lambda>x. x \<le> int64_max) xs \<Longrightarrow> 0 \<le> n \<Longrightarrow> n \<le> int64_max \<Longrightarrow>
   validSizes partial xs n \<longleftrightarrow> list_all (dim_ok partial) xs \<and> prefixes_fit n (takeWhile (\<lambda>x. 0 \<le> x) xs)"
proof (induction xs arbitrary: n)
  case (Cons x xs)
  consider (bad) "\<not> dim_ok partial x" | (unknown) "partial" "x = - 1" | (known) "0 \<le> x" "dim_ok partial x"
    using Cons.prems(1) by (cases partial; cases "0 \<le> x"; cases "x = - 1") (auto simp: dim_ok_def)
  then show ?case
  proof cases
    case bad
    then show ?thesis using Cons.prems(1) by (auto simp: dim_ok_def)
  next
    case unknown
    have "list_all (\<lambda>x. - 1 \<le> x) xs \<longleftrightarrow> list_all (dim_ok True) xs" using Cons.prems(1) by (auto simp: list_all_iff dim_ok_def)
    moreover have "dim_ok True (- 1)" by (simp add: dim_ok_def)
    ultimately show ?thesis using unknown by (simp add: validSizes_unknown)
  next
    case known
    have b: "x \<le> int64_max" using known(2) by (simp add: dim_ok_def)
    note m = mwo.mul_exact[OF Cons.prems(2) known(1) Cons.prems(3) b] mwo.mul_overflow[OF Cons.prems(2) known(1) Cons.prems(3) b]
    have px: "\<not> x < (if partial then - 1 else 0)" "x \<noteq> - 1" using known(1) by auto
    have v: "validSizes partial (x # xs) n \<longleftrightarrow>
        0 \<le> MultiplyWithoutOverflow n x \<and> validSizes partial xs (MultiplyWithoutOverflow n x)"
      using px Cons.prems(2) by (simp add: Let_def)
    show ?thesis
    proof (cases "n * x \<le> int64_max")
      case True
      then show ?thesis using m known Cons Cons.IH[of "n * x"] v by auto
    next
      case False
      then show ?thesis using m known v by auto
    qed
  qed
qed simp

lemma validSizes_eq:
  assumes "list_all (\<lambda>x. x \<le> int64_max) xs"
  shows "length xs \<le> 254 \<and> validSizes partial xs 1 \<longleftrightarrow> list_all (dim_ok partial) xs \<and> room_for xs"
  using validSizes_known[OF assms, of 1 partial] by (auto simp: room_for_def fits_count_def)

definition protoSizes :: "bool \<Rightarrow> shape_proto \<Rightarrow> int list option" where
  "protoSizes partial p = (if partial \<and> unknown_rank p then None else Some (dim_sizes p))"

lemma TensorShapeOfProto_run:
  assumes "partial \<and> unknown_rank p \<or> list_all (dim_ok partial) (dim_sizes p) \<and> room_for (dim_sizes p)"
  shows "\<exists>t'. TensorShapeOfProto partial p t = (Inr (), t') \<and> wf_ts partial t' \<and> abs_ts partial t' = protoSizes partial p"
proof (cases "partial \<and> unknown_rank p")
  case True
  then show ?thesis
    by (auto simp: TensorShapeOfProto_def op_simps wf_ts_def abs_ts_def unknown_rank_of_def protoSizes_def)
next
  case False
  let ?t = "t\<lparr>ts_rep := Rep16 [], ts_data_type := DT_INVALID, ndims_byte := 0, num_elements := 1\<rparr>"
  have "packed partial ?t []" by (rule blank_packed) simp
  then obtain t' where "iterOp (AddDim partial) (dim_sizes p) ?t = (Inr (), t')" "packed partial t' (dim_sizes p)"
    using AddDims_check[of partial ?t "[]" "dim_sizes p"] assms False by auto
  then show ?thesis using False packed_wf[of partial t'] by (auto simp: TensorShapeOfProto_def op_simps protoSizes_def)
qed

text \<open>C27: a proto that \<open>IsValid\<close> accepts is accepted by \<open>IsValidShape\<close>, and the constructor builds
  the shape with its sizes from it: no check fails. A proto that \<open>IsValid\<close> rejects is
  InvalidArgument for \<open>IsValidShape\<close>.\<close>

theorem IsValidProto_guards:
  assumes "list_all (\<lambda>x. x \<le> int64_max) (dim_sizes p)"
  shows "if IsValidProto partial p
    then IsValidShape partial p = Inr () \<and>
      (\<exists>t'. TensorShapeOfProto partial p t = (Inr (), t') \<and> wf_ts partial t' \<and> abs_ts partial t' = protoSizes partial p)
    else IsValidShape partial p = Inl (Status InvalidArgument)"
  using validSizes_eq[OF assms, of partial] TensorShapeOfProto_run[of partial p t]
  by (auto simp: IsValidProto_def IsValidShape_def)

lemma IsValidProto_guards_witness:
  "if IsValidProto True \<lparr>unknown_rank = False, dim_sizes = [- 1, 9223372036854775807]\<rparr>
    then IsValidShape True \<lparr>unknown_rank = False, dim_sizes = [- 1, 9223372036854775807]\<rparr> = Inr () \<and>
      (\<exists>t'. TensorShapeOfProto True \<lparr>unknown_rank = False, dim_sizes = [- 1, 9223372036854775807]\<rparr> blankShape = (Inr (), t') \<and>
        wf_ts True t' \<and> abs_ts True t' = protoSizes True \<lparr>unknown_rank = False, dim_sizes = [- 1, 9223372036854775807]\<rparr>)
    else IsValidShape True \<lparr>unknown_rank = False, dim_sizes = [- 1, 9223372036854775807]\<rparr> = Inl (Status InvalidArgument)"
  by (rule IsValidProto_guards) simp

section \<open>The round trip\<close>

lemma AsProto_packed: "packed partial t xs \<Longrightarrow> AsProto partial t = Inr \<lparr>unknown_rank = False, dim_sizes = xs\<rparr>"
  using stores_read[of partial t xs] stores_known(1)[of partial t xs] by (simp add: packed_def AsProto_def)

text \<open>C28: the proto of a well-formed shape is valid, and the shape built from it has the same rank
  and sizes.\<close>

theorem AsProto_roundtrip:
  assumes "wf_ts partial t"
  shows "\<exists>p t'. AsProto partial t = Inr p \<and> IsValidProto partial p \<and>
    TensorShapeOfProto partial p s = (Inr (), t') \<and> wf_ts partial t' \<and> abs_ts partial t' = abs_ts partial t"
  using assms
proof (cases rule: wf_ts_cases)
  case unknown
  then show ?thesis
    using TensorShapeOfProto_run[of partial "\<lparr>unknown_rank = True, dim_sizes = []\<rparr>" s]
    by (auto simp: AsProto_def IsValidProto_def protoSizes_def)
next
  case (known xs)
  have ok: "list_all (dim_ok partial) xs" using known(1) stores_known(4) by (auto simp: packed_def)
  then have le: "list_all (\<lambda>x. x \<le> int64_max) xs" by (auto simp: list_all_iff dim_ok_def)
  show ?thesis
    using TensorShapeOfProto_run[of partial "\<lparr>unknown_rank = False, dim_sizes = xs\<rparr>" s]
      AsProto_packed[OF known(1)] validSizes_eq[OF le, of partial] ok packed_room[OF known(1)] known(2)
    by (auto simp: IsValidProto_def protoSizes_def)
qed

lemma AsProto_roundtrip_witness:
  "\<exists>p t'. AsProto False sample_shape = Inr p \<and> IsValidProto False p \<and>
    TensorShapeOfProto False p blankShape = (Inr (), t') \<and> wf_ts False t' \<and> abs_ts False t' = abs_ts False sample_shape"
  by (rule AsProto_roundtrip[OF sample_wf(2)])

section \<open>No order of multiplication overflows\<close>

definition posProd :: "int list \<Rightarrow> int" where
  "posProd xs = prod_list (filter (\<lambda>x. 0 < x) xs)"

lemma posProd_simps [simp]:
  "posProd [] = 1" "posProd (xs @ ys) = posProd xs * posProd ys"
  "posProd (x # xs) = (if 0 < x then x * posProd xs else posProd xs)"
  by (auto simp: posProd_def)

lemma posProd_pos: "1 \<le> posProd xs"
proof (induction xs)
  case (Cons x xs)
  show ?case
  proof (cases "0 < x")
    case True
    then have "1 * 1 \<le> x * posProd xs" using Cons by (intro mult_mono) auto
    then show ?thesis using True by simp
  qed (use Cons in simp)
qed simp

lemma posProd_count:
  assumes "list_all (\<lambda>x. 0 \<le> x) xs"
  shows "count_of xs \<le> posProd xs"
  using assms
proof (induction xs)
  case (Cons x xs)
  then have le: "prod_list xs \<le> posProd xs" by (simp add: count_of_simps)
  show ?case
  proof (cases "0 < x")
    case True
    then show ?thesis using le Cons.prems by (simp add: count_of_simps mult_left_mono)
  next
    case False
    then show ?thesis using Cons.prems posProd_pos[of xs] by (simp add: count_of_simps)
  qed
qed (simp add: count_of_def)

lemma addProtoDims_run:
  "packed partial t xs \<Longrightarrow> list_all (\<lambda>x. 0 \<le> x \<and> x \<le> int64_max) ys \<Longrightarrow> list_all (\<lambda>x. 0 \<le> x) xs \<Longrightarrow> posProd xs \<le> int64_max \<Longrightarrow>
   if length (xs @ ys) \<le> 254 \<and> posProd (xs @ ys) \<le> int64_max
   then \<exists>t'. addProtoDims partial ys (posProd xs) t = (Inr (), t') \<and> packed partial t' (xs @ ys)
   else \<exists>t'. addProtoDims partial ys (posProd xs) t = (Inl (Status InvalidArgument), t')"
proof (induction ys arbitrary: t xs)
  case Nil
  then show ?case using packed_254[OF Nil(1)] by (auto simp: op_simps)
next
  case (Cons y ys)
  have y: "0 \<le> y" "y \<le> int64_max" "dim_ok partial y" using Cons.prems(2) by (auto simp: dim_ok_def)
  have fc: "fits_count xs" using Cons.prems(1) by (simp add: packed_def)
  note m = mwo.mul_exact[OF _ y(1) Cons.prems(4) y(2)] mwo.mul_overflow[OF _ y(1) Cons.prems(4) y(2)]
  have pp: "0 \<le> posProd xs" using posProd_pos[of xs] by simp
  let ?fits = "posProd (xs @ [y]) \<le> int64_max"
  have c0: "0 \<le> count_of xs" using Cons.prems(3) prod_list_nonneg[of xs] by (simp add: count_of_simps)
  have "count_of xs * y \<le> posProd xs * y" by (rule mult_right_mono[OF posProd_count[OF Cons.prems(3)] y(1)])
  then have "count_of xs * y \<le> int64_max" if "0 < y" ?fits by (rule order_trans) (use that in simp)
  then have fit: "?fits \<Longrightarrow> fits_count (xs @ [y])"
    using count_append(2)[OF fc y(1) c0] y(1) by (cases "y = 0") auto
  show ?case
  proof (cases "length xs < 254 \<and> fits_count (xs @ [y])")
    case True
    then obtain t1 where 1: "AddDimWithStatus partial y t = (Inr (), t1)" "packed partial t1 (xs @ [y])"
      using AddDimWithStatus_run[OF Cons.prems(1) y(3)] by auto
    show ?thesis
    proof (cases ?fits)
      case f: True
      then have "addProtoDims partial (y # ys) (posProd xs) t = addProtoDims partial ys (posProd (xs @ [y])) t1"
        using 1(1) m pp y(1) by (auto simp: op_simps Let_def)
      then show ?thesis using Cons.IH[OF 1(2)] Cons.prems(2,3) y(1) f by auto
    next
      case nf: False
      then have "0 < y" "\<not> posProd xs * y \<le> int64_max" using Cons.prems(4) by (auto split: if_splits)
      then have e: "addProtoDims partial (y # ys) (posProd xs) t = (Inl (Status InvalidArgument), t1)"
        using 1(1) m pp by (auto simp: op_simps Let_def)
      have "posProd xs * y * 1 \<le> posProd xs * y * posProd ys"
        by (rule mult_left_mono[OF posProd_pos]) (use pp y(1) in simp)
      then show ?thesis using e nf \<open>0 < y\<close> by auto
    qed
  next
    case False
    then have e: "addProtoDims partial (y # ys) (posProd xs) t = (Inl (Status InvalidArgument), t)"
      using AddDimWithStatus_run[OF Cons.prems(1) y(3)] by (auto simp: op_simps)
    have "posProd (xs @ [y]) * 1 \<le> posProd (xs @ [y]) * posProd ys"
      by (rule mult_left_mono[OF posProd_pos]) (use posProd_pos[of "xs @ [y]"] in simp)
    also have "posProd (xs @ [y]) * posProd ys = posProd (xs @ y # ys)" by (simp add: mult.assoc)
    finally have "\<not> (length (xs @ y # ys) \<le> 254 \<and> posProd (xs @ y # ys) \<le> int64_max)"
      using False fit by (auto simp del: posProd_simps)
    then show ?thesis using e by auto
  qed
qed

text \<open>C29: \<open>BuildTensorShape\<close> accepts a proto of known sizes exactly when there are at most 254 of
  them and the product of those that are not zero fits 64 bits, a condition that no reordering
  of the sizes changes; then the shape has the sizes of the proto.\<close>

theorem BuildTensorShapeFromProto_bounds:
  assumes "list_all (\<lambda>x. 0 \<le> x \<and> x \<le> int64_max) (dim_sizes p)" "\<not> (partial \<and> unknown_rank p)"
  shows "if length (dim_sizes p) \<le> 254 \<and> prod_list (filter (\<lambda>x. 0 < x) (dim_sizes p)) \<le> int64_max
    then \<exists>t'. BuildTensorShapeFromProto partial p t = (Inr (), t') \<and> wf_ts partial t' \<and> abs_ts partial t' = Some (dim_sizes p)
    else fst (BuildTensorShapeFromProto partial p t) = Inl (Status InvalidArgument)"
proof -
  let ?t = "t\<lparr>ts_rep := Rep16 [], ts_data_type := DT_INVALID, ndims_byte := 0, num_elements := 1\<rparr>"
  have p: "packed partial ?t []" by (rule blank_packed) simp
  have "BuildTensorShapeFromProto partial p t = addProtoDims partial (dim_sizes p) 1 ?t"
    using assms(2) by (auto simp: BuildTensorShapeFromProto_def op_simps)
  then show ?thesis
    using addProtoDims_run[OF p assms(1)] packed_wf by (auto simp: posProd_def split: if_splits)
qed

lemma BuildTensorShapeFromProto_bounds_witness:
  "if length [4294967296, 0, 4294967296 :: int] \<le> 254 \<and> prod_list (filter (\<lambda>x. 0 < x) [4294967296, 0, 4294967296]) \<le> int64_max
    then \<exists>t'. BuildTensorShapeFromProto False \<lparr>unknown_rank = False, dim_sizes = [4294967296, 0, 4294967296]\<rparr> blankShape = (Inr (), t') \<and>
      wf_ts False t' \<and> abs_ts False t' = Some [4294967296, 0, 4294967296]
    else fst (BuildTensorShapeFromProto False \<lparr>unknown_rank = False, dim_sizes = [4294967296, 0, 4294967296]\<rparr> blankShape) =
      Inl (Status InvalidArgument)"
  using BuildTensorShapeFromProto_bounds[of "\<lparr>unknown_rank = False, dim_sizes = [4294967296, 0, 4294967296]\<rparr>" False blankShape]
  by simp

end
