(* ===== verification/TensorShapeCompare.thy ===== *)
theory TensorShapeCompare
  imports TensorShapeProtos MergeView "HOL-Library.Sublist"
begin

text \<open>
  Comparison and merging of packed shapes, on their lists of sizes: compatibility and merging of
  partial shapes are the agreement and the meet of \<open>MergeView\<close>, the operations that the shapes
  of an inference context refine as well.
\<close>

section \<open>Comparing index by index\<close>

lemma allR_Inr: "(\<And>x. x \<in> set xs \<Longrightarrow> f x = Inr (g x)) \<Longrightarrow> allR f xs = Inr (list_all g xs)"
  by (induction xs) (auto simp: bindR_def)

lemma packed_dim_size: "packed partial t xs \<Longrightarrow> 0 \<le> d \<Longrightarrow> d < int (length xs) \<Longrightarrow> dim_size partial t d = Inr (xs ! nat d)"
  using dim_size_eq[of partial t d] stores_known[of partial t xs] by (auto simp: packed_def stores_def)

lemma list_all_upto: "list_all (\<lambda>d. P (nat d)) [0..int n - 1] \<longleftrightarrow> (\<forall>i<n. P i)"
proof
  assume a: "list_all (\<lambda>d. P (nat d)) [0..int n - 1]"
  show "\<forall>i<n. P i"
  proof (intro allI impI)
    fix i assume "i < n"
    then have "int i \<in> set [0..int n - 1]" by auto
    then show "P i" using a by (auto simp: list_all_iff dest!: bspec[where x = "int i"])
  qed
qed (auto simp: list_all_iff)

lemma compare_packed:
  assumes a: "packed partial a xs" and b: "packed partial b ys" and n: "k + n \<le> length xs" "n \<le> length ys"
  shows "allR (\<lambda>d. compareAt eq partial a (int k + d) b d) [0..int n - 1] = Inr (\<forall>i<n. eq (xs ! (k + i)) (ys ! i))"
proof -
  have "compareAt eq partial a (int k + d) b d = Inr (eq (xs ! (k + nat d)) (ys ! nat d))"
    if "d \<in> set [0..int n - 1]" for d
  proof -
    have "0 \<le> d" "d < int n" using that by auto
    moreover have "nat (int k + d) = k + nat d" using \<open>0 \<le> d\<close> by simp
    ultimately show ?thesis using packed_dim_size[OF a, of "int k + d"] packed_dim_size[OF b, of d] n
      by (simp add: compareAt_def bindR_def)
  qed
  then have "allR (\<lambda>d. compareAt eq partial a (int k + d) b d) [0..int n - 1] =
      Inr (list_all (\<lambda>d. eq (xs ! (k + nat d)) (ys ! nat d)) [0..int n - 1])" by (rule allR_Inr)
  then show ?thesis using list_all_upto[of "\<lambda>i. eq (xs ! (k + i)) (ys ! i)" n] by simp
qed

lemmas compare_same = compare_packed[where k = 0, simplified]

lemma nth_all_eq: "length xs = length ys \<Longrightarrow> (\<forall>i<length xs. xs ! i = ys ! i) \<longleftrightarrow> xs = ys"
  by (auto simp: list_eq_iff_nth_eq)

lemma prefix_nth:
  assumes "length ys \<le> length xs"
  shows "prefix ys xs \<longleftrightarrow> (\<forall>i<length ys. xs ! i = ys ! i)"
proof -
  have "prefix ys xs \<longleftrightarrow> take (length ys) xs = ys"
    unfolding prefix_def by (metis append_eq_conv_conj append_take_drop_id)
  then show ?thesis using nth_all_eq[of ys "take (length ys) xs"] assms by auto
qed

lemma suffix_nth:
  assumes "length ys \<le> length xs"
  shows "suffix ys xs \<longleftrightarrow> (\<forall>i<length ys. xs ! (length xs - length ys + i) = ys ! i)"
proof -
  have "suffix ys xs \<longleftrightarrow> drop (length xs - length ys) xs = ys"
    unfolding suffix_def by (metis append_eq_conv_conj append_take_drop_id length_append add_diff_cancel_right')
  then show ?thesis using nth_all_eq[of ys "drop (length xs - length ys) xs"] assms by auto
qed

lemma wf_total: "wf_ts partial t \<Longrightarrow> abs_ts partial t = Some xs \<Longrightarrow> packed partial t xs \<and> ndims partial t = int (length xs)"
  by (erule wf_ts_cases) auto

text \<open>On shapes of known sizes, \<open>IsSameSize\<close> is equality of the lists of sizes,
  \<open>StartsWith\<close> the prefix relation and \<open>EndsWith\<close> the suffix relation; no index is out of
  range.\<close>

theorem comparisons_of_sizes:
  assumes "wf_ts False a" "wf_ts False b" "abs_ts False a = Some xs" "abs_ts False b = Some ys"
  shows "IsSameSize a b = Inr (xs = ys) \<and> StartsWith a b = Inr (prefix ys xs) \<and> EndsWith a b = Inr (suffix ys xs)"
proof -
  have p: "packed False a xs" "packed False b ys" "ndims False a = int (length xs)" "ndims False b = int (length ys)"
    using wf_total[OF assms(1,3)] wf_total[OF assms(2,4)] by blast+
  have "IsSameSize a b = Inr (xs = ys)"
  proof (cases "length xs = length ys")
    case True
    have "IsSameSize a b = Inr (\<forall>i<length xs. xs ! i = ys ! i)"
      using compare_same[OF p(1,2), of "length xs" "(=)"] True by (simp add: IsSameSize_def p(3,4))
    also have "(\<forall>i<length xs. xs ! i = ys ! i) = (xs = ys)" by (rule nth_all_eq[OF True])
    finally show ?thesis .
  next
    case False
    then have "xs \<noteq> ys" by blast
    then show ?thesis using False by (simp add: IsSameSize_def p(3,4))
  qed
  moreover have "StartsWith a b = Inr (prefix ys xs)"
  proof (cases "length ys \<le> length xs")
    case True
    then show ?thesis using compare_same[OF p(1,2), of "length ys" "(=)"] prefix_nth[OF True]
      by (simp add: StartsWith_def p(3,4))
  next
    case False
    then show ?thesis using prefix_length_le[of ys xs] by (auto simp: StartsWith_def p(3,4))
  qed
  moreover have "EndsWith a b = Inr (suffix ys xs)"
  proof (cases "length ys \<le> length xs")
    case True
    then have k: "int (length xs) - int (length ys) = int (length xs - length ys)" by simp
    show ?thesis
      using compare_packed[OF p(1,2), of "length xs - length ys" "length ys" "(=)"] True suffix_nth[OF True]
      by (simp add: EndsWith_def p(3,4) Let_def k del: of_nat_diff)
  next
    case False
    then show ?thesis using suffix_length_le[of ys xs] by (auto simp: EndsWith_def p(3,4) Let_def)
  qed
  ultimately show ?thesis by simp
qed

lemma comparisons_of_sizes_witness:
  "IsSameSize sample_shape sample_shape = Inr ([2, 3] = [2, 3 :: int]) \<and>
   StartsWith sample_shape sample_shape = Inr (prefix [2, 3] [2, 3 :: int]) \<and>
   EndsWith sample_shape sample_shape = Inr (suffix [2, 3] [2, 3 :: int])"
  by (rule comparisons_of_sizes) (simp_all only: sample_wf)

section \<open>Partial shapes\<close>

lemma compatible_sizes: "- 1 \<le> x \<Longrightarrow> - 1 \<le> y \<Longrightarrow> compatibleSizes x y \<longleftrightarrow> x = - 1 \<or> y = - 1 \<or> x = y"
  by (auto simp: compatibleSizes_def)

lemma packed_ge: "packed True t xs \<Longrightarrow> i < length xs \<Longrightarrow> - 1 \<le> xs ! i"
  using stores_known(4)[of True t xs] by (auto simp: packed_def dim_ok_def list_all_length)

text \<open>Two partial shapes are compatible exactly when some list of sizes fits both, and
  identical exactly when they have the same rank and the same sizes, known or not.\<close>

theorem partial_comparisons:
  assumes "wf_ts True a" "wf_ts True b"
  shows "IsCompatibleWith a b = Inr (agreeView (abs_ts True a) (abs_ts True b)) \<and>
    IsIdenticalTo a b = Inr (abs_ts True a = abs_ts True b)"
  using assms(1)
proof (cases rule: wf_ts_cases)
  case unknown
  then show ?thesis by (auto simp: IsCompatibleWith_def IsIdenticalTo_def abs_ts_def)
next
  case a: (known xs)
  show ?thesis using assms(2)
  proof (cases rule: wf_ts_cases)
    case unknown
    then show ?thesis using a by (auto simp: IsCompatibleWith_def IsIdenticalTo_def abs_ts_def)
  next
    case b: (known ys)
    have c: "compatibleSizes (xs ! i) (ys ! i) \<longleftrightarrow> xs ! i = - 1 \<or> ys ! i = - 1 \<or> xs ! i = ys ! i"
      if "i < length xs" "length xs = length ys" for i
      by (rule compatible_sizes[OF packed_ge[OF a(1)] packed_ge[OF b(1)]]) (use that in auto)
    have "IsCompatibleWith a b = Inr (agreeView (Some xs) (Some ys))"
    proof (cases "length xs = length ys")
      case True
      then have "(\<forall>i<length xs. compatibleSizes (xs ! i) (ys ! i)) \<longleftrightarrow> agreeView (Some xs) (Some ys)"
        using c by (simp add: list_all2_conv_all_nth)
      then show ?thesis
        using a(3,4) b(3,4) True compare_same[OF a(1) b(1), of "length xs" compatibleSizes] by (simp add: IsCompatibleWith_def)
    next
      case False
      then show ?thesis using a(3,4) b(3,4) by (auto simp: IsCompatibleWith_def dest: list_all2_lengthD)
    qed
    moreover have "IsIdenticalTo a b = Inr (Some xs = Some ys)"
      using a(3,4) b(3,4) compare_same[OF a(1) b(1), of "length xs" "(=)"] nth_all_eq[of xs ys]
      by (cases "length xs = length ys") (auto simp: IsIdenticalTo_def)
    ultimately show ?thesis by (simp add: a(2) b(2))
  qed
qed

lemma partial_comparisons_witness:
  "IsCompatibleWith sample_shape (defaultShape True) =
     Inr (agreeView (abs_ts True sample_shape) (abs_ts True (defaultShape True))) \<and>
   IsIdenticalTo sample_shape (defaultShape True) = Inr (abs_ts True sample_shape = abs_ts True (defaultShape True))"
  by (rule partial_comparisons[OF sample_wf(1)]) (simp add: wf_ts_def defaultShape_def unknown_rank_of_def)

text \<open>The loop of \<open>MergeWith\<close>.\<close>

definition mergeStep :: "tensor_shape \<Rightarrow> tensor_shape \<Rightarrow> int \<Rightarrow> unit tsop" where
  "mergeStep t u i =
     andThen (liftR (dim_size True t i)) (\<lambda>dim0.
     andThen (liftR (dim_size True u i)) (\<lambda>dim1.
     andThen (failUnless (compatibleSizes dim0 dim1) InvalidArgument) (\<lambda>_.
     AddDimWithStatus True (if dim0 \<ge> 0 then dim0 else dim1))))"

lemma mergeStep_run:
  assumes "packed True t xs" "packed True u ys" "i < length xs" "i < length ys"
  shows "mergeStep t u (int i) s =
    (if xs ! i = - 1 \<or> ys ! i = - 1 \<or> xs ! i = ys ! i then AddDimWithStatus True (meetVal (xs ! i) (ys ! i)) s
     else (Inl (Status InvalidArgument), s))"
  using packed_dim_size[OF assms(1), of "int i"] packed_dim_size[OF assms(2), of "int i"] assms(3,4)
    packed_ge[OF assms(1,3)] packed_ge[OF assms(2,4)] compatible_sizes[of "xs ! i" "ys ! i"]
  by (auto simp: mergeStep_def op_simps meetVal_def)

lemma upto_map: "[int k..int n - 1] = map int [k..<n]"
proof (induction "n - k" arbitrary: k)
  case (Suc m)
  then have "k < n" "m = n - Suc k" by auto
  then show ?case using Suc(1)[of "Suc k"] by (simp add: upto_rec1 upt_conv_Cons add.commute)
qed simp

lemma mergeSteps_run:
  assumes t: "packed True t xs" and u: "packed True u ys" and n: "length xs = length ys"
  shows "k \<le> length xs \<Longrightarrow> packed True s zs \<Longrightarrow> zs = map2 meetVal (take k xs) (take k ys) \<Longrightarrow>
    list_all2 (\<lambda>x y. x = - 1 \<or> y = - 1 \<or> x = y) (take k xs) (take k ys) \<Longrightarrow>
    if agreeView (Some xs) (Some ys) \<and> room_for (map2 meetVal xs ys)
    then \<exists>s'. iterOp (mergeStep t u) (map int [k..<length xs]) s = (Inr (), s') \<and> packed True s' (map2 meetVal xs ys) \<and>
      ts_data_type s' = ts_data_type s
    else fst (iterOp (mergeStep t u) (map int [k..<length xs]) s) = Inl (Status InvalidArgument)"
proof (induction "length xs - k" arbitrary: k s zs)
  case 0
  then have "k = length xs" by simp
  then show ?case using 0 n packed_room by (auto simp: op_simps)
next
  case (Suc m)
  then have k: "k < length xs" "m = length xs - Suc k" by auto
  have upt: "map int [k..<length xs] = int k # map int [Suc k..<length xs]" using k(1) by (simp add: upt_conv_Cons)
  have tk: "take (Suc k) xs = take k xs @ [xs ! k]" "take (Suc k) ys = take k ys @ [ys ! k]"
    using k(1) n by (auto simp: take_Suc_conv_app_nth)
  note step = mergeStep_run[OF t u k(1), of s]
  let ?z = "meetVal (xs ! k) (ys ! k)"
  have z: "dim_ok True ?z"
    using stores_known(4)[of True t xs] stores_known(4)[of True u ys] t u k(1) n
    by (auto simp: packed_def meetVal_def list_all_length)
  have l: "length zs = k" using Suc.prems(3) k(1) n by simp
  have zs': "zs @ [?z] = map2 meetVal (take (Suc k) xs) (take (Suc k) ys)"
    using Suc.prems(3) k(1) n by (simp add: tk)
  then have pre: "map2 meetVal xs ys = (zs @ [?z]) @ drop (Suc k) (map2 meetVal xs ys)"
    by (metis append_take_drop_id take_map take_zip)
  show ?case
  proof (cases "(xs ! k = - 1 \<or> ys ! k = - 1 \<or> xs ! k = ys ! k) \<and> length zs < 254 \<and> fits_count (zs @ [?z])")
    case True
    then obtain s1 where 1: "mergeStep t u (int k) s = (Inr (), s1)" "packed True s1 (zs @ [?z])" "ts_data_type s1 = ts_data_type s"
      using AddDimWithStatus_run[OF Suc.prems(2) z] step k(1) n by auto
    have all: "list_all2 (\<lambda>x y. x = - 1 \<or> y = - 1 \<or> x = y) (take (Suc k) xs) (take (Suc k) ys)"
      using Suc.prems(4) True k(1) n by (simp add: tk list_all2_append)
    show ?thesis
      using Suc.hyps(1)[OF k(2) _ 1(2) zs' all] k(1) 1(1,3) by (auto simp: upt op_simps split: if_splits)
  next
    case False
    then have "fst (mergeStep t u (int k) s) = Inl (Status InvalidArgument)"
      using AddDimWithStatus_run[OF Suc.prems(2) z] step k(1) n by auto
    then have e: "fst (iterOp (mergeStep t u) (map int [k..<length xs]) s) = Inl (Status InvalidArgument)"
      by (cases "mergeStep t u (int k) s") (auto simp: upt op_simps andThen_def)
    have "\<not> (agreeView (Some xs) (Some ys) \<and> room_for (map2 meetVal xs ys))"
    proof
      assume a: "agreeView (Some xs) (Some ys) \<and> room_for (map2 meetVal xs ys)"
      then have "room_for (zs @ [?z])" using pre room_for_take by metis
      moreover have "xs ! k = - 1 \<or> ys ! k = - 1 \<or> xs ! k = ys ! k"
        using a k(1) by (auto simp: list_all2_conv_all_nth)
      ultimately show False using False by (auto simp: room_for_def)
    qed
    then show ?thesis using e by auto
  qed
qed

text \<open>C32: merging two partial shapes into a third succeeds exactly when they agree and the merged
  sizes fit a shape (at most 254 of them, with a number of elements of 64 bits): \<open>[2^40, -1]\<close> and
  \<open>[-1, 2^40]\<close> agree, but the merge is InvalidArgument, as it is for shapes that do not agree. The
  result describes exactly the lists of sizes that both describe.\<close>

theorem MergeWith_is_meet:
  assumes "wf_ts True t" "wf_ts True u"
  shows "if agreeView (abs_ts True t) (abs_ts True u) \<and> pred_option room_for (meetView (abs_ts True t) (abs_ts True u))
    then \<exists>r. MergeWith SeparateResult t u s = (Inr (), r) \<and> wf_ts True r \<and> abs_ts True r = meetView (abs_ts True t) (abs_ts True u) \<and>
      (\<forall>xs. covers (abs_ts True r) xs \<longleftrightarrow> covers (abs_ts True t) xs \<and> covers (abs_ts True u) xs)
    else fst (MergeWith SeparateResult t u s) = Inl (Status InvalidArgument)"
proof -
  let ?A = "abs_ts True t" and ?B = "abs_ts True u"
  have "if agreeView ?A ?B \<and> pred_option room_for (meetView ?A ?B)
    then \<exists>r. MergeWith SeparateResult t u s = (Inr (), r) \<and> wf_ts True r \<and> abs_ts True r = meetView ?A ?B
    else fst (MergeWith SeparateResult t u s) = Inl (Status InvalidArgument)"
    using assms(1)
  proof (cases rule: wf_ts_cases)
    case unknown
    have "pred_option room_for ?B" using assms(2) by (auto elim!: wf_ts_cases dest: packed_room)
    then show ?thesis using unknown assms(2) by (simp add: MergeWith_def op_simps)
  next
    case a: (known xs)
    show ?thesis using assms(2)
    proof (cases rule: wf_ts_cases)
      case unknown
      then show ?thesis using a assms(1) packed_room[OF a(1)] by (simp add: MergeWith_def op_simps)
    next
      case b: (known ys)
      show ?thesis
      proof (cases "length xs = length ys")
        case True
        let ?s = "s\<lparr>ts_rep := Rep16 [], ndims_byte := 0, num_elements := 1, ts_data_type := DT_INVALID\<rparr>"
        have m: "MergeWith SeparateResult t u s = iterOp (mergeStep t u) (map int [0..<length xs]) ?s"
          using a(3,4) b(3,4) True upto_map[of 0 "length xs"]
          by (simp add: MergeWith_def mergeStep_def[abs_def] mergeArgSize_def op_simps Clear_def ClearAllButDataType_def)
        have e: "packed True ?s []"
          by (simp add: packed_def stores_def rep_ok_def sizes_of_def fits_count_def count_of_def)
        show ?thesis
          using mergeSteps_run[OF a(1) b(1) True, of 0 ?s "[]"] e a(2) b(2) m packed_wf by (auto split: if_splits)
      next
        case False
        then have "\<not> agreeView ?A ?B" using a(2) b(2) by (auto dest: list_all2_lengthD)
        moreover have "fst (MergeWith SeparateResult t u s) = Inl (Status InvalidArgument)"
          using False a(3,4) b(3,4) by (simp add: MergeWith_def op_simps)
        ultimately show ?thesis by auto
      qed
    qed
  qed
  then show ?thesis using covers_meet[of ?A ?B] by (auto split: if_splits)
qed

lemma MergeWith_is_meet_witness:
  "if agreeView (abs_ts True sample_shape) (abs_ts True sample_shape) \<and>
      pred_option room_for (meetView (abs_ts True sample_shape) (abs_ts True sample_shape))
    then \<exists>r. MergeWith SeparateResult sample_shape sample_shape blankShape = (Inr (), r) \<and> wf_ts True r \<and>
      abs_ts True r = meetView (abs_ts True sample_shape) (abs_ts True sample_shape) \<and>
      (\<forall>xs. covers (abs_ts True r) xs \<longleftrightarrow> covers (abs_ts True sample_shape) xs \<and> covers (abs_ts True sample_shape) xs)
    else fst (MergeWith SeparateResult sample_shape sample_shape blankShape) = Inl (Status InvalidArgument)"
  by (rule MergeWith_is_meet[OF sample_wf(1) sample_wf(1)])

section \<open>A result that is the argument\<close>

text \<open>\<open>MergeWith\<close> refuses a result that is the shape itself. A result that is the argument is
  cleared before the argument is read: with two dimensions or more the merge never succeeds.\<close>

definition mergeIntoStep :: "tensor_shape \<Rightarrow> tensor_shape \<Rightarrow> int \<Rightarrow> unit tsop" where
  "mergeIntoStep t u i =
     andThen (liftR (dim_size True t i)) (\<lambda>dim0.
     andThen (mergeArgSize ResultIsArg u i) (\<lambda>dim1.
     andThen (failUnless (compatibleSizes dim0 dim1) InvalidArgument) (\<lambda>_.
     AddDimWithStatus True (if dim0 \<ge> 0 then dim0 else dim1))))"

lemma mergeArgSize_first:
  assumes "packed True u ys" "ys \<noteq> []"
  shows "mergeArgSize ResultIsArg u 0 s = (Inr (ys ! 0), s) \<or> mergeArgSize ResultIsArg u 0 s = (Inl (Fault Uninitialized), s)"
proof (cases "ts_rep u")
  case (Rep16 ws)
  then have "map (read16 True) ws = ys" using assms(1) by (simp add: packed_def stores_def sizes_of_def)
  then show ?thesis using assms(2) Rep16 by (cases ws) (auto simp: mergeArgSize_def op_simps)
qed (auto simp: mergeArgSize_def op_simps)

lemma mergeIntoStep_first:
  assumes t: "packed True t xs" and u: "packed True u ys" and l: "xs \<noteq> []" "ys \<noteq> []" and s: "packed True s []"
  shows "(\<exists>e s'. mergeIntoStep t u 0 s = (Inl e, s')) \<or> (\<exists>s' z. mergeIntoStep t u 0 s = (Inr (), s') \<and> packed True s' [z])"
proof -
  have z: "dim_ok True (xs ! 0)" "dim_ok True (ys ! 0)"
    using stores_known(4)[of True t xs] stores_known(4)[of True u ys] t u l by (auto simp: packed_def list_all_length)
  have d: "dim_size True t 0 = Inr (xs ! 0)" using packed_dim_size[OF t, of 0] l by simp
  have "(\<exists>e s'. AddDimWithStatus True z s = (Inl e, s')) \<or> (\<exists>s'. AddDimWithStatus True z s = (Inr (), s') \<and> packed True s' [z])"
    if "dim_ok True z" for z
    using AddDimWithStatus_run[OF s that] by (cases "fits_count [z]") auto
  note add = this[OF z(1)] this[OF z(2)]
  show ?thesis
    using mergeArgSize_first[OF u l(2), of s] add
    by (cases "0 \<le> xs ! 0") (auto simp: mergeIntoStep_def op_simps d)
qed

lemma mergeIntoStep_second:
  assumes t: "packed True t xs" and l: "2 \<le> length xs" and s: "packed True s [z]"
  shows "mergeIntoStep t u 1 s = (Inl (Fault CheckFailed), s)"
proof -
  have "dim_size True t 1 = Inr (xs ! 1)" using packed_dim_size[OF t, of 1] l by simp
  moreover have "dim_size True s 1 = Inl (Fault CheckFailed)"
    using stores_known[of True s "[z]"] s by (auto simp: packed_def dim_size_def)
  ultimately show ?thesis by (simp add: mergeIntoStep_def mergeArgSize_def op_simps)
qed

lemma MergeWith_into_argument:
  assumes t: "packed True t xs" and u: "packed True u ys" and l: "length xs = length ys" "2 \<le> length xs"
  shows "\<exists>e. fst (MergeWith ResultIsArg t u u) = Inl e"
proof -
  let ?s = "u\<lparr>ts_rep := Rep16 [], ndims_byte := 0, num_elements := 1, ts_data_type := DT_INVALID\<rparr>"
  have n: "ndims True t = int (length xs)" "ndims True u = int (length xs)" "\<not> unknown_rank_of True t" "\<not> unknown_rank_of True u"
    using stores_known[of True t xs] stores_known[of True u ys] t u l by (auto simp: packed_def)
  have r: "[0..int (length xs) - 1] = 0 # 1 # [2..int (length xs) - 1]"
    using l(2) upto_rec1[of 0 "int (length xs) - 1"] upto_rec1[of 1 "int (length xs) - 1"] by (cases xs) auto
  have m: "MergeWith ResultIsArg t u u = iterOp (mergeIntoStep t u) (0 # 1 # [2..int (length xs) - 1]) ?s"
    using n by (simp add: MergeWith_def mergeIntoStep_def[abs_def] op_simps Clear_def ClearAllButDataType_def r del: iterOp.simps)
  have e: "packed True ?s []" by (simp add: packed_def stores_def rep_ok_def sizes_of_def fits_count_def count_of_def)
  have ne: "xs \<noteq> []" "ys \<noteq> []" using l by auto
  show ?thesis
    using mergeIntoStep_first[OF t u ne e]
  proof (elim disjE exE conjE)
    fix e s' assume "mergeIntoStep t u 0 ?s = (Inl e, s')"
    then show ?thesis by (simp add: m op_simps)
  next
    fix s' z assume 1: "mergeIntoStep t u 0 ?s = (Inr (), s')" "packed True s' [z]"
    then show ?thesis using mergeIntoStep_second[OF t l(2) 1(2), of u] by (simp add: m op_simps)
  qed
qed

lemma MergeWith_into_argument_run:
  "fst (MergeWith ResultIsArg sample_shape sample_shape sample_shape) = Inl (Fault CheckFailed)"
  by code_simp

end
