(* ===== verification/TensorShapeErrors.thy ===== *)
theory TensorShapeErrors
  imports TensorShapeCompare
begin

text \<open>
  What is left behind when an operation on a packed shape fails, and what the versions with a
  check do where the versions with a status report an error.
\<close>

section \<open>A failed update\<close>

text \<open>After a rejected number of elements: the two ways of writing.\<close>

lemma SetDim_stuck:
  assumes p: "packed partial t xs" and d: "0 \<le> d" "d < int (length xs)" and x: "dim_ok partial x"
    and e: "fst (SetDimWithStatus partial d x t) = Inl e"
  shows "let ys = xs[nat d := x]; t' = snd (SetDimWithStatus partial d x t) in
    if in_place t x then abs_ts partial t' = Some ys \<and> num_elements t' = num_elements t \<and> \<not> wf_ts partial t'
    else wf_ts partial t' \<and> (\<exists>k < length xs. abs_ts partial t' = Some (take k ys) \<and> \<not> room_for (take (Suc k) ys))"
proof -
  let ?ys = "xs[nat d := x]" and ?m = "SetDimWithStatus partial d x"
  have s: "stores partial t xs" using p by (simp add: packed_def)
  have ok: "list_all (dim_ok partial) ?ys" by (rule list_update_ok[OF stores_known(4)[OF s] x])
  have "partial \<or> 0 \<le> x" using x by (auto simp: dim_ok_def split: if_splits)
  then have run: "?m t = andThen (writeDim partial (AddDimWithStatus partial) d x) (\<lambda>_. RecomputeNumElements partial) t"
    using d stores_known(3)[OF s] by (simp add: SetDimWithStatus_def op_simps)
  have room: "\<not> room_for ?ys" using SetDimWithStatus_computes[OF p d x] e by (auto simp: computes_def)
  note w = writeDim_run[OF s d x, of "AddDimWithStatus partial"]
  show ?thesis
  proof (cases "in_place t x")
    case True
    then obtain t' where t': "writeDim partial (AddDimWithStatus partial) d x t = (Inr (), t')" "stores partial t' ?ys"
        "num_elements t' = num_elements t" using w by auto
    have f: "\<not> fits_count ?ys" using room packed_254[OF p] by (simp add: room_for_def)
    have m: "?m t = (Inl (Status InvalidArgument), t')"
      using run t'(1) RecomputeNumElements_run[OF t'(2)] f by (simp add: andThen_Inr)
    have "\<not> unknown_rank_of partial t'" "sizes_of partial (ts_rep t') = ?ys" using stores_known(1)[OF t'(2)] t'(2)
      by (auto simp: stores_def)
    then show ?thesis using True m t'(3) f by (simp add: abs_ts_def wf_ts_def packed_def)
  next
    case False
    let ?t = "t\<lparr>ts_rep := Rep16 [], ndims_byte := 0, num_elements := 1\<rparr>"
    obtain t' k where k: "iterOp (AddDimWithStatus partial) ?ys ?t = (Inl (Status InvalidArgument), t')" "k < length ?ys"
        "packed partial t' (take k ?ys)" "\<not> room_for (take (Suc k) ?ys)"
      using AddDims_stop[OF packed_clear ok, of t] room by auto
    have "writeDim partial (AddDimWithStatus partial) d x t = (Inl (Status InvalidArgument), t')"
      using w False sizesNow_run[OF s] ClearAllButDataType_run[of t] k(1) by (simp add: andThen_Inr)
    then have "?m t = (Inl (Status InvalidArgument), t')" using run by (simp add: andThen_Inl)
    then show ?thesis using False packed_wf[OF k(3)] k(2,4) by (auto simp: Let_def)
  qed
qed

text \<open>A matrix whose second size is large, and a first size that does not fit beside it.\<close>

definition big_shape :: tensor_shape where
  "big_shape = \<lparr>ts_rep = Rep32 [1, 4294967293], ndims_byte = 2, num_elements = 4294967293, ts_data_type = DT_FLOAT\<rparr>"

lemma big_shape_wf: "wf_ts False big_shape"
  by (rule packed_wf[THEN conjunct1, of _ _ "[1, 4294967293]"])
    (auto simp: big_shape_def packed_def stores_def rep_ok_def sizes_of_def read32_def fits_count_def count_of_def)

lemma big_shape_fails: "fst (SetDimWithStatus False 0 4611686018427387904 big_shape) = Inl (Status InvalidArgument)"
  by code_simp

text \<open>C33: what \<open>SetDimWithStatus\<close> leaves behind when it fails. A shape of unknown rank, a bad
  index and a negative size of a full shape leave the shape as it is. When the number of elements
  no longer fits, a size that was written in place stays, beside the old count, and the shape is
  no longer well-formed; a shape that had to move to a larger representation has lost the
  sizes from the first one on that had no room.\<close>

theorem SetDimWithStatus_after_failure:
  assumes "wf_ts partial t" "- 1 \<le> x" "x \<le> int64_max" "fst (SetDimWithStatus partial d x t) = Inl e"
  shows "case abs_ts partial t of
      None \<Rightarrow> snd (SetDimWithStatus partial d x t) = t
    | Some xs \<Rightarrow>
        (if \<not> (0 \<le> d \<and> d < int (length xs) \<and> (partial \<or> 0 \<le> x)) then snd (SetDimWithStatus partial d x t) = t
         else if in_place t x then
           abs_ts partial (snd (SetDimWithStatus partial d x t)) = Some (xs[nat d := x]) \<and>
           num_elements (snd (SetDimWithStatus partial d x t)) = num_elements t \<and>
           \<not> wf_ts partial (snd (SetDimWithStatus partial d x t))
         else wf_ts partial (snd (SetDimWithStatus partial d x t)) \<and>
           (\<exists>k < length xs. abs_ts partial (snd (SetDimWithStatus partial d x t)) = Some (take k (xs[nat d := x])) \<and>
              \<not> room_for (take (Suc k) (xs[nat d := x]))))"
  using assms(1)
proof (cases rule: wf_ts_cases)
  case unknown
  then show ?thesis by (simp add: SetDimWithStatus_def op_simps)
next
  case (known xs)
  show ?thesis
  proof (cases "0 \<le> d \<and> d < int (length xs) \<and> (partial \<or> 0 \<le> x)")
    case False
    then show ?thesis using known by (auto simp: SetDimWithStatus_def op_simps)
  next
    case True
    then have d: "0 \<le> d" "d < int (length xs)" and x: "dim_ok partial x" using assms(2,3) dim_ok_sign by auto
    show ?thesis
      using SetDim_stuck[OF known(1) d x assms(4)] known(2) True by (simp add: Let_def)
  qed
qed

lemma SetDimWithStatus_after_failure_witness:
  "case abs_ts False big_shape of
      None \<Rightarrow> snd (SetDimWithStatus False 0 4611686018427387904 big_shape) = big_shape
    | Some xs \<Rightarrow>
        (if \<not> (0 \<le> (0 :: int) \<and> 0 < int (length xs) \<and> (False \<or> 0 \<le> (4611686018427387904 :: int)))
         then snd (SetDimWithStatus False 0 4611686018427387904 big_shape) = big_shape
         else if in_place big_shape 4611686018427387904 then
           abs_ts False (snd (SetDimWithStatus False 0 4611686018427387904 big_shape)) =
             Some (xs[nat 0 := 4611686018427387904]) \<and>
           num_elements (snd (SetDimWithStatus False 0 4611686018427387904 big_shape)) = num_elements big_shape \<and>
           \<not> wf_ts False (snd (SetDimWithStatus False 0 4611686018427387904 big_shape))
         else wf_ts False (snd (SetDimWithStatus False 0 4611686018427387904 big_shape)) \<and>
           (\<exists>k < length xs. abs_ts False (snd (SetDimWithStatus False 0 4611686018427387904 big_shape)) =
               Some (take k (xs[nat 0 := 4611686018427387904])) \<and>
              \<not> room_for (take (Suc k) (xs[nat 0 := 4611686018427387904]))))"
  by (rule SetDimWithStatus_after_failure[OF big_shape_wf _ _ big_shape_fails]) simp_all

section \<open>Checks and statuses\<close>

text \<open>On every well-formed shape \<open>AddDim\<close> does what \<open>AddDimWithStatus\<close> does, and stops the
  program exactly where the other reports an error.\<close>

theorem AddDim_checks_what_status_reports:
  assumes "wf_ts partial t"
  shows "AddDim partial x t = (case AddDimWithStatus partial x t of
      (Inl (Status _), t') \<Rightarrow> (Inl (Fault CheckFailed), t') | r \<Rightarrow> r)"
  using assms
proof (cases rule: wf_ts_cases)
  case unknown
  then show ?thesis by (intro AddDim_AddDimWithStatus) simp
next
  case (known xs)
  then show ?thesis using stores_sizes[of partial t xs] by (intro AddDim_AddDimWithStatus) (auto simp: packed_def)
qed

lemma AddDim_checks_what_status_reports_witness:
  "AddDim False (- 1) sample_shape = (case AddDimWithStatus False (- 1) sample_shape of
      (Inl (Status _), t') \<Rightarrow> (Inl (Fault CheckFailed), t') | r \<Rightarrow> r)"
  by (rule AddDim_checks_what_status_reports[OF sample_wf(2)])

section \<open>Appending a shape of unknown rank\<close>

lemma endlessDims_fill:
  "packed True t xs \<Longrightarrow> 254 - length xs < n \<Longrightarrow>
   \<exists>t'. endlessDims n (AddDimWithStatus True) t = (Inl (Status InvalidArgument), t') \<and>
     packed True t' (xs @ replicate (254 - length xs) (- 1))"
proof (induction n arbitrary: t xs)
  case (Suc n)
  have ok: "dim_ok True (- 1)" by (simp add: dim_ok_def)
  have f: "fits_count (xs @ [- 1])" using count_append(1)[of xs "- 1"] Suc.prems(1) by (simp add: packed_def)
  show ?case
  proof (cases "length xs < 254")
    case True
    then obtain t1 where 1: "AddDimWithStatus True (- 1) t = (Inr (), t1)" "packed True t1 (xs @ [- 1])"
      using AddDimWithStatus_run[OF Suc.prems(1) ok] f by auto
    have "254 - length xs = Suc (254 - length (xs @ [- 1 :: int]))" using True by simp
    then show ?thesis using Suc.IH[OF 1(2)] Suc.prems(2) 1(1) by (auto simp: op_simps andThen_Inr)
  next
    case False
    then show ?thesis using AddDimWithStatus_run[OF Suc.prems(1) ok] Suc.prems(1) by (auto simp: andThen_def)
  qed
qed simp

text \<open>Appending a shape of unknown rank to a shape of known rank does not give an unknown
  rank: the loop over the appended shape never meets its end, fills the shape with unknown sizes
  up to 254 and fails.\<close>

theorem AppendShape_unknown_rank:
  assumes "wf_ts True t" "abs_ts True t = Some xs" "abs_ts True u = None"
  shows "\<exists>t'. AppendShapeWithStatus True u t = (Inl (Status InvalidArgument), t') \<and>
    abs_ts True t' = Some (xs @ replicate (254 - length xs) (- 1))"
proof -
  have p: "packed True t xs" using wf_total[OF assms(1,2)] by simp
  have "254 - length xs < (2147483648 :: nat)" by simp
  then obtain t' where t': "endlessDims 2147483648 (AddDimWithStatus True) t = (Inl (Status InvalidArgument), t')"
      "packed True t' (xs @ replicate (254 - length xs) (- 1))"
    using endlessDims_fill[OF p] by blast
  have "unknown_rank_of True u" using assms(3) by (auto simp: abs_ts_def split: if_splits)
  then show ?thesis using t'(1) packed_wf[OF t'(2)] by (auto simp: AppendShapeWithStatus_def forDims_def)
qed

lemma AppendShape_unknown_rank_witness:
  "\<exists>t'. AppendShapeWithStatus True (defaultShape True) sample_shape = (Inl (Status InvalidArgument), t') \<and>
    abs_ts True t' = Some ([2, 3] @ replicate (254 - length [2, 3 :: int]) (- 1))"
  by (rule AppendShape_unknown_rank[OF sample_wf(1,3)]) (simp add: abs_ts_def defaultShape_def unknown_rank_of_def)

end
