(* ===== verification/FormatShapes.thy ===== *)
theory FormatShapes
  imports TensorFormat TensorShapeErrors Windowed
begin

text \<open>
  Shapes by data format (\<open>util/tensor_format.h\<close>): \<open>ShapeFromFormat\<close> places the batch, spatial
  and channel sizes where the format has them, and its overload converts a shape between
  formats. The interface \<open>layout\<close> says that the positions of the dimensions are a permutation
  of the indices; it is interpreted on the position tables of every format.
\<close>

section \<open>Placing sizes\<close>

text \<open>The loop over the spatial sizes. The last one of \<open>NHWC_VECT_W\<close> is split into two dimensions.\<close>

fun placeSpatial :: "tensor_format \<Rightarrow> int \<Rightarrow> int \<Rightarrow> int \<Rightarrow> int list \<Rightarrow> int list \<Rightarrow> int list res" where
  "placeSpatial f dims n d [] ds = Inr ds"
| "placeSpatial f dims n d (s # rest) ds =
    (if f = FORMAT_NHWC_VECT_W \<and> d = n - 1 then
       if s mod 4 \<noteq> 0 then Inl (Fault CheckFailed)
       else
         bindR (GetTensorInnerWidthDimIndex dims f) (\<lambda>i.
         bindR (writeAt ds i 4) (\<lambda>ds1.
         bindR (GetTensorSpatialDimIndex dims f d) (\<lambda>j.
         bindR (writeAt ds1 j (s div 4)) (placeSpatial f dims n (d + 1) rest))))
     else
       bindR (GetTensorSpatialDimIndex dims f d) (\<lambda>j.
       bindR (writeAt ds j s) (placeSpatial f dims n (d + 1) rest)))"

definition formatSizes :: "tensor_format \<Rightarrow> int \<Rightarrow> int list \<Rightarrow> int \<Rightarrow> int list res" where
  "formatSizes f N spatial C =
    (let n = int (length spatial); dims = GetTensorDimsFromSpatialDims n f in
     bindR (writeAt (replicate (nat dims) 0) (GetTensorBatchDimIndex dims f) N) (\<lambda>ds.
     bindR (placeSpatial f dims n 0 spatial ds) (\<lambda>ds.
     let feature_index = GetTensorFeatureDimIndex dims f in
     if f = FORMAT_NCHW_VECT_C then
       if C mod 4 \<noteq> 0 then Inl (Fault CheckFailed)
       else
         bindR (GetTensorInnerFeatureDimIndex dims f) (\<lambda>i.
         bindR (writeAt ds i 4) (\<lambda>ds. writeAt ds feature_index (C div 4)))
     else writeAt ds feature_index C)))"

definition ShapeFromFormatWithStatus :: "tensor_format \<Rightarrow> int \<Rightarrow> int list \<Rightarrow> int \<Rightarrow> unit tsop" where
  "ShapeFromFormatWithStatus f N spatial C = andThen (liftR (formatSizes f N spatial C)) (MakeShapeHelper False)"

definition ShapeFromFormat :: "tensor_format \<Rightarrow> int \<Rightarrow> int list \<Rightarrow> int \<Rightarrow> unit tsop" where
  "ShapeFromFormat f N spatial C = checkOk (ShapeFromFormatWithStatus f N spatial C)"

primrec placeFilterSpatial :: "filter_format \<Rightarrow> int \<Rightarrow> int \<Rightarrow> int list \<Rightarrow> int list \<Rightarrow> int list res" where
  "placeFilterSpatial f dims d [] ds = Inr ds"
| "placeFilterSpatial f dims d (x # rest) ds =
     bindR (GetFilterTensorSpatialDimIndex dims f d) (\<lambda>j.
     bindR (writeAt ds j x) (placeFilterSpatial f dims (d + 1) rest))"

definition filterSizes :: "filter_format \<Rightarrow> int list \<Rightarrow> int \<Rightarrow> int \<Rightarrow> int list res" where
  "filterSizes f spatial I O' =
    (let dims = GetFilterTensorDimsFromSpatialDims (int (length spatial)) f in
     bindR (GetFilterTensorOutputChannelsDimIndex dims f) (\<lambda>oi.
     bindR (writeAt (replicate (nat dims) 0) oi O') (\<lambda>ds.
     bindR (placeFilterSpatial f dims 0 spatial ds) (\<lambda>ds.
     if f = FORMAT_OIHW_VECT_I \<and> I mod 4 \<noteq> 0 then Inl (Fault CheckFailed)
     else
       bindR (if f = FORMAT_OIHW_VECT_I
              then bindR (GetFilterTensorInnerInputChannelsDimIndex dims f) (\<lambda>i. writeAt ds i 4) else Inr ds) (\<lambda>ds.
       bindR (GetFilterTensorInputChannelsDimIndex dims f) (\<lambda>i.
       writeAt ds i (if f = FORMAT_OIHW_VECT_I then I div 4 else I)))))))"

definition ShapeFromFilterTensorFormat :: "filter_format \<Rightarrow> int list \<Rightarrow> int \<Rightarrow> int \<Rightarrow> unit tsop" where
  "ShapeFromFilterTensorFormat f spatial I O' = andThen (liftR (filterSizes f spatial I O')) (TensorShapeOfSizes False)"

section \<open>Converting a shape between formats\<close>

definition convertSizes :: "tensor_format \<Rightarrow> tensor_format \<Rightarrow> int list \<Rightarrow> int list res" where
  "convertSizes dst src sizes =
     bindR (GetTensorDim sizes src CHR ''N'') (\<lambda>batch.
     bindR (GetTensorDim sizes src CHR ''C'') (\<lambda>c.
     bindR (mul64 c (if src = FORMAT_NCHW_VECT_C then 4 else 1)) (\<lambda>channels.
     let dims = int (length sizes); n = GetTensorSpatialDims dims src in
     if n < 0 then Inl (Fault LengthError)
     else
       bindR (mapR (\<lambda>d. bindR (GetTensorSpatialDimIndex dims src d) (vecAt sizes)) [0..n - 1]) (\<lambda>spatial.
       bindR (if src = FORMAT_NHWC_VECT_W
              then bindR (vecAt spatial (n - 1)) (\<lambda>w. bindR (mul64 w 4) (writeAt spatial (n - 1)))
              else Inr spatial) (\<lambda>spatial.
       formatSizes dst batch spatial channels)))))"

definition ShapeFromFormatConvert :: "tensor_format \<Rightarrow> tensor_shape \<Rightarrow> tensor_format \<Rightarrow> unit tsop" where
  "ShapeFromFormatConvert dst src_shape src =
    (if src = dst then modify (\<lambda>_. src_shape)
     else andThen (liftR (bindR (dim_sizes_of False src_shape) (convertSizes dst src))) (MakeShapeHelper False))"

definition convertFilterSizes :: "filter_format \<Rightarrow> filter_format \<Rightarrow> int list \<Rightarrow> int list res" where
  "convertFilterSizes dst src sizes =
     bindR (GetFilterDim sizes src CHR ''O'') (\<lambda>output_channels.
     bindR (GetFilterDim sizes src CHR ''I'') (\<lambda>i.
     bindR (mul64 i (if src = FORMAT_OIHW_VECT_I then 4 else 1)) (\<lambda>input_channels.
     bindR (mapR (GetFilterDim sizes src)
       (if GetFilterTensorSpatialDims (int (length sizes)) src = 3 then ''012'' else ''HW'')) (\<lambda>spatial.
     filterSizes dst spatial input_channels output_channels))))"

definition ShapeFromFilterFormat :: "filter_format \<Rightarrow> tensor_shape \<Rightarrow> filter_format \<Rightarrow> unit tsop" where
  "ShapeFromFilterFormat dst src_shape src =
    (if src = dst then modify (\<lambda>_. src_shape)
     else andThen (liftR (bindR (dim_sizes_of False src_shape) (convertFilterSizes dst src))) (TensorShapeOfSizes False))"

section \<open>Layouts\<close>

locale layout =
  fixes dims :: int and letters :: "char list" and pos :: "char \<Rightarrow> int res"
  assumes distinct_letters: "distinct letters" and as_many: "int (length letters) = dims"
    and placed: "c \<in> set letters \<Longrightarrow> \<exists>i. pos c = Inr i \<and> 0 \<le> i \<and> i < dims"
    and one_place: "c \<in> set letters \<Longrightarrow> d \<in> set letters \<Longrightarrow> pos c = pos d \<Longrightarrow> c = d"
begin

text \<open>As many letters as places, in different places: every place has its letter.\<close>

lemma every_place:
  assumes "0 \<le> i" "i < dims"
  shows "\<exists>!c. c \<in> set letters \<and> pos c = Inr i"
proof -
  let ?at = "\<lambda>c. projr (pos c)"
  have p: "pos c = Inr (?at c)" "?at c \<in> {0..<dims}" if "c \<in> set letters" for c
    using placed[OF that] by auto
  have "inj_on ?at (set letters)" by (rule inj_onI) (metis p(1) one_place)
  then have "card (?at ` set letters) = card {0..<dims}"
    using distinct_card[OF distinct_letters] as_many by (simp add: card_image)
  then have "?at ` set letters = {0..<dims}" using p(2) by (intro card_subset_eq) auto
  then obtain c where "c \<in> set letters" "?at c = i" using assms by (metis atLeastLessThan_iff imageE)
  then have "c \<in> set letters \<and> pos c = Inr i" using p(1) by fastforce
  then show ?thesis by (metis one_place)
qed

end

lemma char_list_ball: "(\<forall>c \<in> set (x # xs). P c) \<longleftrightarrow> P x \<and> (\<forall>c \<in> set xs. P c)"
  by simp

interpretation image2: layout 4 "''NC01''" "GetTensorDimIndexN 2 f" for f
  by unfold_locales (cases f; auto simp: GetTensorDimIndexN_def lookupDim_def)+

interpretation image3: layout 5 "''NC012''" "GetTensorDimIndexN 3 f" for f
  by unfold_locales (cases f; auto simp: GetTensorDimIndexN_def lookupDim_def)+

interpretation hwio2: layout 4 "''OI01''" "GetFilterDimIndexN 2 FORMAT_HWIO"
  by unfold_locales (auto simp: GetFilterDimIndexN_def lookupDim_def)

interpretation oihw2: layout 4 "''OI01''" "GetFilterDimIndexN 2 FORMAT_OIHW"
  by unfold_locales (auto simp: GetFilterDimIndexN_def lookupDim_def)

end
