(* ===== verification/FormatSound.thy ===== *)
theory FormatSound
  imports FormatShapes
begin

text \<open>
  The two ways to find a dimension, by letter and by role, agree in every format, and the
  letters name every dimension once; a shape converted between formats is the shape that the
  same sizes have in the other format.
\<close>

section \<open>Letters and roles\<close>

definition spatialLetter :: "int \<Rightarrow> char" where
  "spatialLetter i = (if i = 0 then CHR ''0'' else if i = 1 then CHR ''1'' else CHR ''2'')"

lemma GetTensorDimIndex_outer:
  assumes "k = 2 \<or> k = 3" "GetTensorDimIndexN k f c = Inr i" "0 \<le> i" "i < k + 2"
  shows "GetTensorDimIndex f c (GetTensorDimsFromSpatialDims k f) = Inr i"
  using assms by (cases f) (auto simp: GetTensorDimIndex_def)

lemma GetTensorDimIndex_N:
  assumes "k = 2 \<or> k = 3" "GetTensorDimIndex f c (GetTensorDimsFromSpatialDims k f) = Inr i"
  shows "GetTensorDimIndexN k f c = Inr i"
  using assms by (cases f) (auto simp: GetTensorDimIndex_def bindR_eq_Inr split: if_splits)

lemma letters_HW:
  assumes "k = 2 \<or> k = 3" "c \<in> set (''NCHW'' @ map spatialLetter [0..k - 1])"
  shows "c \<in> set (if k = 2 then ''NCHW01'' else ''NCHW012'')"
proof -
  have "[0..1] = [0, 1 :: int]" "[0..2] = [0, 1, 2 :: int]" by (simp_all add: upto_rec1)
  then show ?thesis using assms by (elim disjE) (auto simp: spatialLetter_def)
qed

lemma inner_unnamed_2: "list_all (\<lambda>c. GetTensorDimIndexN 2 f c \<noteq> Inr 4) ''NCHW01''"
  by (cases f) (simp_all add: GetTensorDimIndexN_def lookupDim_def)

lemma inner_unnamed_3: "list_all (\<lambda>c. GetTensorDimIndexN 3 f c \<noteq> Inr 5) ''NCHW012''"
  by (cases f) (simp_all add: GetTensorDimIndexN_def lookupDim_def)

text \<open>C36: with two or three spatial dimensions (for other numbers the lookup by letter uses the
  positions of two) and in every format, the position found by letter is the position found by
  role, for the batch, the features, each spatial dimension under its number, and H and W as
  second names of the last two of them. Among N, C and the numbers exactly one names each of the
  first k + 2 dimensions; the inner dimension that the two vectorised formats have after them is
  named by none of these letters.\<close>

theorem letters_name_dimensions:
  assumes "k = 2 \<or> k = 3"
  shows "GetTensorDimIndex f CHR ''N'' (GetTensorDimsFromSpatialDims k f) = Inr (GetTensorBatchDimIndex (GetTensorDimsFromSpatialDims k f) f) \<and>
    GetTensorDimIndex f CHR ''C'' (GetTensorDimsFromSpatialDims k f) = Inr (GetTensorFeatureDimIndex (GetTensorDimsFromSpatialDims k f) f) \<and>
    list_all (\<lambda>i. GetTensorDimIndex f (spatialLetter i) (GetTensorDimsFromSpatialDims k f) =
      GetTensorSpatialDimIndex (GetTensorDimsFromSpatialDims k f) f i) [0..k - 1] \<and>
    GetTensorDimIndex f CHR ''H'' (GetTensorDimsFromSpatialDims k f) =
      GetTensorSpatialDimIndex (GetTensorDimsFromSpatialDims k f) f (k - 2) \<and>
    GetTensorDimIndex f CHR ''W'' (GetTensorDimsFromSpatialDims k f) =
      GetTensorSpatialDimIndex (GetTensorDimsFromSpatialDims k f) f (k - 1) \<and>
    list_all (\<lambda>i. \<exists>!c. c \<in> set (''NC'' @ map spatialLetter [0..k - 1]) \<and>
      GetTensorDimIndex f c (GetTensorDimsFromSpatialDims k f) = Inr i) [0..k + 1] \<and>
    list_all (\<lambda>c. GetTensorDimIndex f c (GetTensorDimsFromSpatialDims k f) \<noteq> Inr (k + 2)) (''NCHW'' @ map spatialLetter [0..k - 1])"
proof -
  let ?d = "GetTensorDimsFromSpatialDims k f"
  have roles: "GetTensorDimIndex f CHR ''N'' ?d = Inr (GetTensorBatchDimIndex ?d f)"
      "GetTensorDimIndex f CHR ''C'' ?d = Inr (GetTensorFeatureDimIndex ?d f)"
      "GetTensorDimIndex f CHR ''H'' ?d = GetTensorSpatialDimIndex ?d f (k - 2)"
      "GetTensorDimIndex f CHR ''W'' ?d = GetTensorSpatialDimIndex ?d f (k - 1)"
    using assms by (cases f; auto simp: GetTensorDimIndex_def GetTensorDimIndexN_def lookupDim_def GetTensorSpatialDimIndex_def)+
  have "GetTensorDimIndex f (spatialLetter i) ?d = GetTensorSpatialDimIndex ?d f i" if "0 \<le> i" "i < k" for i
  proof -
    have "i = 0 \<or> i = 1 \<or> i = 2 \<and> k = 3" using that assms by auto
    then show ?thesis
      using that assms by (cases f) (auto simp: GetTensorDimIndex_def GetTensorDimIndexN_def lookupDim_def
        GetTensorSpatialDimIndex_def spatialLetter_def)
  qed
  then have spatial: "list_all (\<lambda>i. GetTensorDimIndex f (spatialLetter i) ?d = GetTensorSpatialDimIndex ?d f i) [0..k - 1]"
    by (simp add: list_all_iff)
  have letters: "set (''NC'' @ map spatialLetter [0..k - 1]) = set (if k = 2 then ''NC01'' else ''NC012'')"
  proof -
    have "[0..1] = [0, 1 :: int]" "[0..2] = [0, 1, 2 :: int]" by (simp_all add: upto_rec1)
    then show ?thesis using assms by (elim disjE) (simp_all add: spatialLetter_def)
  qed
  have one: "\<exists>!c. c \<in> set (''NC'' @ map spatialLetter [0..k - 1]) \<and> GetTensorDimIndex f c ?d = Inr i"
    if "0 \<le> i" "i < k + 2" for i
  proof -
    have "GetTensorDimIndex f c ?d = Inr i \<longleftrightarrow> GetTensorDimIndexN k f c = Inr i" for c
      using GetTensorDimIndex_outer[OF assms _ that] GetTensorDimIndex_N[OF assms] by blast
    then show ?thesis unfolding letters using assms image2.every_place[of i f] image3.every_place[of i f] that
      by (elim disjE) simp_all
  qed
  have inner: "GetTensorDimIndex f c ?d \<noteq> Inr (k + 2)" if "c \<in> set (''NCHW'' @ map spatialLetter [0..k - 1])" for c
  proof -
    have "c \<in> set (if k = 2 then ''NCHW01'' else ''NCHW012'')" by (rule letters_HW[OF assms that])
    then have "GetTensorDimIndexN k f c \<noteq> Inr (k + 2)"
      using assms inner_unnamed_2[of f] inner_unnamed_3[of f] unfolding list_all_iff by (elim disjE) force+
    then show ?thesis using GetTensorDimIndex_N[OF assms] by blast
  qed
  have one': "list_all (\<lambda>i. \<exists>!c. c \<in> set (''NC'' @ map spatialLetter [0..k - 1]) \<and> GetTensorDimIndex f c ?d = Inr i) [0..k + 1]"
    using one by (simp add: list_all_iff)
  have inner': "list_all (\<lambda>c. GetTensorDimIndex f c ?d \<noteq> Inr (k + 2)) (''NCHW'' @ map spatialLetter [0..k - 1])"
    unfolding list_all_iff by (intro ballI inner)
  show ?thesis by (intro conjI roles spatial one' inner')
qed

lemma letters_name_dimensions_witness:
  "GetTensorDimIndex FORMAT_NCHW_VECT_C CHR ''W'' (GetTensorDimsFromSpatialDims 3 FORMAT_NCHW_VECT_C) =
     GetTensorSpatialDimIndex (GetTensorDimsFromSpatialDims 3 FORMAT_NCHW_VECT_C) FORMAT_NCHW_VECT_C (3 - 1)"
  using letters_name_dimensions[of 3 FORMAT_NCHW_VECT_C] by blast

section \<open>Conversion\<close>

lemmas position_defs = GetTensorDim_def GetTensorDimIndex_def GetTensorDimIndexN_def lookupDim_def
  GetTensorSpatialDimIndex_def GetTensorInnerWidthDimIndex_def GetTensorInnerFeatureDimIndex_def writeAt_def vecAt_def

text \<open>The sizes of an image of two or three spatial dimensions.\<close>

lemma formatSizes_2:
  "formatSizes FORMAT_NHWC N [h, w] C = Inr [N, h, w, C]"
  "formatSizes FORMAT_NCHW N [h, w] C = Inr [N, C, h, w]"
  "formatSizes FORMAT_HWNC N [h, w] C = Inr [h, w, N, C]"
  "formatSizes FORMAT_HWCN N [h, w] C = Inr [h, w, C, N]"
  "formatSizes FORMAT_NCHW_VECT_C N [h, w] C = (if C mod 4 = 0 then Inr [N, C div 4, h, w, 4] else Inl (Fault CheckFailed))"
  "formatSizes FORMAT_NHWC_VECT_W N [h, w] C = (if w mod 4 = 0 then Inr [N, h, w div 4, C, 4] else Inl (Fault CheckFailed))"
  by (simp_all add: formatSizes_def position_defs numeral_nat)

lemma formatSizes_3:
  "formatSizes FORMAT_NHWC N [d, h, w] C = Inr [N, d, h, w, C]"
  "formatSizes FORMAT_NCHW N [d, h, w] C = Inr [N, C, d, h, w]"
  "formatSizes FORMAT_HWNC N [d, h, w] C = Inr [d, h, w, N, C]"
  "formatSizes FORMAT_HWCN N [d, h, w] C = Inr [d, h, w, C, N]"
  "formatSizes FORMAT_NCHW_VECT_C N [d, h, w] C = (if C mod 4 = 0 then Inr [N, C div 4, d, h, w, 4] else Inl (Fault CheckFailed))"
  "formatSizes FORMAT_NHWC_VECT_W N [d, h, w] C = (if w mod 4 = 0 then Inr [N, d, h, w div 4, C, 4] else Inl (Fault CheckFailed))"
  by (simp_all add: formatSizes_def position_defs numeral_nat)

definition readsBack :: "tensor_format \<Rightarrow> int \<Rightarrow> int list \<Rightarrow> int \<Rightarrow> int list \<Rightarrow> bool" where
  "readsBack src N spatial C xs \<longleftrightarrow> (\<forall>dst. convertSizes dst src xs = formatSizes dst N spatial C)"

lemma times4: "x mod 4 = 0 \<Longrightarrow> in_int64 x \<Longrightarrow> mul64 (x div 4) 4 = Inr (x :: int)"
  using div_mult_mod_eq[of x 4] by (simp add: mul64_def signed64_def)

lemma upto_23: "[0..1] = [0, 1 :: int]" "[0..2] = [0, 1, 2 :: int]"
  by (simp_all add: upto_rec1)

lemma mul64_1: "in_int64 x \<Longrightarrow> mul64 x 1 = Inr x"
  by (simp add: mul64_def signed64_def)

lemma readsBack_2:
  assumes "formatSizes src N [h, w] C = Inr xs" "in_int64 w" "in_int64 C"
  shows "readsBack src N [h, w] C xs"
  using assms
  by (cases src) (auto simp: formatSizes_2 readsBack_def convertSizes_def position_defs upto_23 mul64_1 times4
    numeral_nat split: if_splits)

lemma readsBack_3:
  assumes "formatSizes src N [d, h, w] C = Inr xs" "in_int64 w" "in_int64 C"
  shows "readsBack src N [d, h, w] C xs"
  using assms
  by (cases src) (auto simp: formatSizes_3 readsBack_def convertSizes_def position_defs upto_23 mul64_1 times4
    numeral_nat split: if_splits)

lemma readsBack_formatSizes:
  assumes "length spatial = 2 \<or> length spatial = 3" "formatSizes src N spatial C = Inr xs" "in_int64 (last spatial)" "in_int64 C"
  shows "readsBack src N spatial C xs"
proof -
  consider h w where "spatial = [h, w]" | d h w where "spatial = [d, h, w]"
    using assms(1) by (auto simp: length_Suc_conv numeral_2_eq_2 numeral_3_eq_3)
  then show ?thesis using assms readsBack_2 readsBack_3 by cases auto
qed

text \<open>C37: converting the shape of an image to another format gives the shape that its batch,
  spatial and channel sizes have in that format, the splitting into vectors of four included,
  and converting the sizes back gives the original ones.\<close>

theorem ShapeFromFormatConvert_roundtrip:
  assumes "length spatial = 2 \<or> length spatial = 3" "in_int64 (last spatial)" "in_int64 C"
    and "formatSizes src N spatial C = Inr xs" "wf_ts False u" "abs_ts False u = Some xs" "src \<noteq> dst"
  shows "ShapeFromFormatConvert dst u src t = ShapeFromFormatWithStatus dst N spatial C t \<and>
    (case convertSizes dst src xs of Inr ys \<Rightarrow> convertSizes src dst ys = Inr xs
      | Inl e \<Rightarrow> formatSizes dst N spatial C = Inl e)"
proof -
  have c: "convertSizes dst src xs = formatSizes dst N spatial C"
    using readsBack_formatSizes[OF assms(1,4,2,3)] by (simp add: readsBack_def)
  have "packed False u xs" using wf_total[OF assms(5,6)] by simp
  then have "dim_sizes_of False u = Inr xs" using stores_sizes by (simp add: packed_def)
  then have "ShapeFromFormatConvert dst u src t = ShapeFromFormatWithStatus dst N spatial C t"
    using assms(7) c by (simp add: ShapeFromFormatConvert_def ShapeFromFormatWithStatus_def)
  moreover have "convertSizes src dst ys = Inr xs" if "convertSizes dst src xs = Inr ys" for ys
    using readsBack_formatSizes[OF assms(1) _ assms(2,3), of dst N ys] that c assms(4) by (simp add: readsBack_def)
  ultimately show ?thesis by (auto simp: c split: sum.splits)
qed

definition sample_image :: tensor_shape where
  "sample_image = \<lparr>ts_rep = Rep16 [1, 8, 12, 16], ndims_byte = 4, num_elements = 1536, ts_data_type = DT_FLOAT\<rparr>"

lemma ShapeFromFormatConvert_roundtrip_witness:
  "ShapeFromFormatConvert FORMAT_NCHW_VECT_C sample_image FORMAT_NHWC blankShape =
      ShapeFromFormatWithStatus FORMAT_NCHW_VECT_C 1 [8, 12] 16 blankShape \<and>
    (case convertSizes FORMAT_NCHW_VECT_C FORMAT_NHWC [1, 8, 12, 16] of
        Inr ys \<Rightarrow> convertSizes FORMAT_NHWC FORMAT_NCHW_VECT_C ys = Inr [1, 8, 12, 16]
      | Inl e \<Rightarrow> formatSizes FORMAT_NCHW_VECT_C 1 [8, 12] 16 = Inl e)"
  by (rule ShapeFromFormatConvert_roundtrip)
    (auto simp: formatSizes_2 in_int64_def sample_image_def wf_ts_def abs_ts_def unknown_rank_of_def packed_def stores_def
      rep_ok_def sizes_of_def read16_def fits_count_def count_of_def)

end
