(* ===== verification/MemoryArena.thy ===== *)
theory MemoryArena
  imports Prelude "HOL-Library.Word"
begin

text \<open>
  The memory arena of TensorFlow Lite (\<open>lite/simple_memory_arena.h\<close>,
  \<open>lite/simple_memory_arena.cc\<close>): tensors of a graph share one buffer, and two tensors that are
  not used at the same time may share bytes. \<open>size_t\<close> is \<open>64 word\<close>. The allocator of the C++
  library is a parameter; the profiler hooks and the debug dump are not modelled.
\<close>

section \<open>Checked arithmetic\<close>

definition CheckedAdd :: "64 word \<Rightarrow> 64 word \<Rightarrow> 64 word option" where
  "CheckedAdd lhs rhs = (if lhs > (- 1) - rhs then None else Some (lhs + rhs))"

definition CheckedAlignTo :: "64 word \<Rightarrow> 64 word \<Rightarrow> 64 word option" where
  "CheckedAlignTo alignment offset =
    (if alignment = 0 then None
     else
       let remainder = offset mod alignment
       in if remainder = 0 then Some offset else CheckedAdd offset (alignment - remainder))"

section \<open>The resizable buffer\<close>

text \<open>\<open>malloc_bytes alignment n\<close> is \<open>aligned_alloc\<close>: a block of \<open>n\<close> bytes at some address, with
  arbitrary contents, or the null pointer.\<close>

type_synonym allocator = "64 word \<Rightarrow> 64 word \<Rightarrow> (64 word \<times> 8 word list) option"

record buffer =
  aligned_pointer :: "64 word"
  buf_bytes :: "8 word list"
  data_size :: "64 word"
  buf_alignment :: "64 word"

definition AlignedAlloc :: "allocator \<Rightarrow> 64 word \<Rightarrow> 64 word \<Rightarrow> (64 word \<times> 8 word list) option" where
  "AlignedAlloc malloc_bytes n alignment =
    (if alignment = 0 then None
     else case CheckedAdd n (alignment - 1) of None \<Rightarrow> None
       | Some padded_size \<Rightarrow> case CheckedAlignTo alignment padded_size of None \<Rightarrow> None
         | Some allocation_size \<Rightarrow> malloc_bytes alignment allocation_size)"

text \<open>The old contents are copied; the old block is freed.\<close>

definition AlignedRealloc ::
    "allocator \<Rightarrow> 8 word list \<Rightarrow> 64 word \<Rightarrow> 64 word \<Rightarrow> 64 word \<Rightarrow> (64 word \<times> 8 word list) option" where
  "AlignedRealloc malloc_bytes old old_size new_size alignment =
    (case AlignedAlloc malloc_bytes new_size alignment of
       None \<Rightarrow> None
     | Some (p, bytes) \<Rightarrow>
         let n = unat (min new_size old_size) in Some (p, take n old @ drop n bytes))"

text \<open>The flag is \<open>buffer_reallocated\<close>. The result for size 0 is never used: the buffer only grows.\<close>

definition Resize :: "allocator \<Rightarrow> 64 word \<Rightarrow> (buffer, bool) op" where
  "Resize malloc_bytes new_size =
     andThen (gets id) (\<lambda>b.
     andThen (failUnless (buf_alignment b \<noteq> 0) TfLiteError) (\<lambda>_.
     if new_size \<le> data_size b then ret False
     else case AlignedRealloc malloc_bytes (buf_bytes b) (data_size b) new_size (buf_alignment b) of
         None \<Rightarrow> failWith TfLiteError
       | Some (p, bytes) \<Rightarrow>
           andThen (modify (\<lambda>b. b\<lparr>aligned_pointer := p, buf_bytes := bytes, data_size := new_size\<rparr>)) (\<lambda>_.
           ret (p \<noteq> aligned_pointer b))))"

definition Release :: "(buffer, unit) op" where
  "Release = andThen (gets aligned_pointer) (\<lambda>p.
     if p = 0 then ret () else modify (\<lambda>b. b\<lparr>aligned_pointer := 0, buf_bytes := [], data_size := 0\<rparr>))"

section \<open>The arena\<close>

record arena_alloc =
  a_offset :: "64 word"
  a_size :: "64 word"
  a_tensor :: int
  a_first_node :: int
  a_last_node :: int

record arena =
  committed :: bool
  high_water_mark :: "64 word"
  underlying_buffer :: buffer
  active_allocs :: "arena_alloc list"

definition newArena :: "64 word \<Rightarrow> arena" where
  "newArena arena_alignment = \<lparr>committed = False, high_water_mark = 0,
     underlying_buffer = \<lparr>aligned_pointer = 0, buf_bytes = [], data_size = 0, buf_alignment = arena_alignment\<rparr>,
     active_allocs = []\<rparr>"

definition ResetAllocs :: "(arena, unit) op" where
  "ResetAllocs = modify (\<lambda>a. a\<lparr>active_allocs := []\<rparr>)"

text \<open>An allocation is marked with tensor -1, then every marked one is removed.\<close>

definition markAndErase :: "(arena_alloc \<Rightarrow> bool) \<Rightarrow> arena_alloc list \<Rightarrow> arena_alloc list" where
  "markAndErase p allocs =
     filter (\<lambda>x. a_tensor x \<noteq> - 1) (map (\<lambda>x. if p x then x\<lparr>a_tensor := - 1\<rparr> else x) allocs)"

definition PurgeAfter :: "int \<Rightarrow> (arena, unit) op" where
  "PurgeAfter node = modify (\<lambda>a. a\<lparr>active_allocs := markAndErase (\<lambda>x. a_first_node x > node) (active_allocs a)\<rparr>)"

definition PurgeActiveAllocs :: "int \<Rightarrow> (arena, unit) op" where
  "PurgeActiveAllocs node = modify (\<lambda>a. a\<lparr>active_allocs := markAndErase (\<lambda>x. a_last_node x < node) (active_allocs a)\<rparr>)"

definition CalculateActiveAllocs :: "arena_alloc list \<Rightarrow> int \<Rightarrow> (arena, unit) op" where
  "CalculateActiveAllocs allocs node = modify (\<lambda>a. a\<lparr>active_allocs :=
     sort_key a_offset (filter (\<lambda>x. a_first_node x \<le> node \<and> a_last_node x \<ge> node) allocs)\<rparr>)"

abbreviation kOffsetNotAssigned :: "64 word" where "kOffsetNotAssigned \<equiv> - 1"

definition ensureSome :: "'a option \<Rightarrow> 'a res" where
  "ensureSome r = (case r of None \<Rightarrow> Inl (Status TfLiteError) | Some x \<Rightarrow> Inr x)"

text \<open>The search for the best gap between the allocations that are used at the same time. The
  result is where the search ended and the best offset found.\<close>

fun gapLoop ::
    "64 word \<Rightarrow> 64 word \<Rightarrow> int \<Rightarrow> int \<Rightarrow> arena_alloc list \<Rightarrow> 64 word \<Rightarrow> 64 word \<Rightarrow> 64 word \<Rightarrow> (64 word \<times> 64 word) res" where
  "gapLoop alignment n first_node last_node [] current_offset best_offset best_offset_fit =
     Inr (current_offset, best_offset)"
| "gapLoop alignment n first_node last_node (alloc # allocs) current_offset best_offset best_offset_fit =
    (if a_last_node alloc < first_node \<or> a_first_node alloc > last_node then
       gapLoop alignment n first_node last_node allocs current_offset best_offset best_offset_fit
     else
       bindR (ensureSome (CheckedAlignTo alignment current_offset)) (\<lambda>aligned_current_offset.
       bindR (ensureSome (CheckedAdd aligned_current_offset n)) (\<lambda>aligned_current_end.
       let found = aligned_current_end \<le> a_offset alloc \<and> a_offset alloc - aligned_current_offset < best_offset_fit;
           best = (if found then aligned_current_offset else best_offset);
           fit = (if found then a_offset alloc - current_offset else best_offset_fit)
       in bindR (ensureSome (CheckedAdd (a_offset alloc) (a_size alloc))) (\<lambda>alloc_end.
          let current = max current_offset alloc_end
          in if fit = 0 then Inr (current, best)
             else gapLoop alignment n first_node last_node allocs current best fit))))"

text \<open>\<open>std::upper_bound\<close> on the allocations, which are sorted by offset, and \<open>insert\<close>.\<close>

definition insertAlloc :: "arena_alloc \<Rightarrow> arena_alloc list \<Rightarrow> arena_alloc list" where
  "insertAlloc x xs = takeWhile (\<lambda>y. \<not> a_offset x < a_offset y) xs @ x # dropWhile (\<lambda>y. \<not> a_offset x < a_offset y) xs"

definition Allocate :: "64 word \<Rightarrow> 64 word \<Rightarrow> int \<Rightarrow> int \<Rightarrow> int \<Rightarrow> (arena, arena_alloc) op" where
  "Allocate alignment n tensor first_node last_node =
     andThen (gets id) (\<lambda>a.
     andThen (failUnless (alignment \<noteq> 0) TfLiteError) (\<lambda>_.
     andThen (failUnless (alignment \<le> buf_alignment (underlying_buffer a)) TfLiteError) (\<lambda>_.
     let new_alloc = \<lparr>a_offset = 0, a_size = n, a_tensor = tensor, a_first_node = first_node, a_last_node = last_node\<rparr> in
     if n = 0 then ret new_alloc
     else
       andThen (liftR (gapLoop alignment n first_node last_node (active_allocs a) 0 kOffsetNotAssigned kOffsetNotAssigned))
         (\<lambda>(current_offset, best).
       andThen (if best = kOffsetNotAssigned then liftR (ensureSome (CheckedAlignTo alignment current_offset)) else ret best)
         (\<lambda>best_offset.
       andThen (liftR (ensureSome (CheckedAdd best_offset n))) (\<lambda>required_buffer_size.
       let new_alloc = new_alloc\<lparr>a_offset := best_offset\<rparr> in
       andThen (modify (\<lambda>a. a\<lparr>high_water_mark := max (high_water_mark a) required_buffer_size,
         active_allocs := insertAlloc new_alloc (active_allocs a)\<rparr>)) (\<lambda>_.
       ret new_alloc)))))))"

text \<open>An operation on the buffer inside the arena.\<close>

definition onBuffer :: "(buffer, 'a) op \<Rightarrow> (arena, 'a) op" where
  "onBuffer m = (\<lambda>a. case m (underlying_buffer a) of (r, b) \<Rightarrow> (r, a\<lparr>underlying_buffer := b\<rparr>))"

definition Commit :: "allocator \<Rightarrow> (arena, bool) op" where
  "Commit malloc_bytes =
     andThen (modify (\<lambda>a. a\<lparr>committed := False\<rparr>)) (\<lambda>_.
     andThen (gets high_water_mark) (\<lambda>n.
     andThen (onBuffer (Resize malloc_bytes n)) (\<lambda>arena_reallocated.
     andThen (modify (\<lambda>a. a\<lparr>committed := True\<rparr>)) (\<lambda>_.
     ret arena_reallocated))))"

text \<open>The null pointer is 0.\<close>

definition ResolveAlloc :: "arena_alloc \<Rightarrow> (arena, 64 word) op" where
  "ResolveAlloc alloc =
     andThen (gets id) (\<lambda>a.
     andThen (failUnless (committed a) TfLiteError) (\<lambda>_.
     andThen (liftR (ensureSome (CheckedAdd (a_offset alloc) (a_size alloc)))) (\<lambda>alloc_end.
     andThen (failUnless (data_size (underlying_buffer a) \<ge> alloc_end) TfLiteError) (\<lambda>_.
     ret (if a_size alloc = 0 then 0 else aligned_pointer (underlying_buffer a) + a_offset alloc)))))"

definition ClearPlan :: "(arena, unit) op" where
  "ClearPlan = modify (\<lambda>a. a\<lparr>committed := False, high_water_mark := 0, active_allocs := []\<rparr>)"

definition ReleaseBuffer :: "(arena, unit) op" where
  "ReleaseBuffer = andThen (modify (\<lambda>a. a\<lparr>committed := False\<rparr>)) (\<lambda>_. onBuffer Release)"

end
