(* ===== verification/ArenaSound.thy ===== *)
theory ArenaSound
  imports MemoryArena
begin

text \<open>
  Two tensors that are used at the same time never share bytes of the arena: an invariant of
  every sequence of allocations, purges and resets, over the allocations handed out and not
  only over those the arena still tracks.
\<close>

section \<open>Checked arithmetic on numbers\<close>

lemma unat_less64: "unat (x :: 64 word) < 2 ^ 64"
  by (rule order_less_le_trans[OF unsigned_less]) simp

lemma unat_minus_1: "unat (- 1 :: 64 word) = 2 ^ 64 - 1"
  by (simp add: unsigned_minus_1_eq_mask mask_eq_exp_minus_1)

lemma unat_max: "unat (- 1 - (r :: 64 word)) = 2 ^ 64 - 1 - unat r"
proof -
  have "r \<le> - 1" by simp
  then have "unat (- 1 - r) = unat (- 1 :: 64 word) - unat r" by (rule unat_sub)
  then show ?thesis by (simp only: unat_minus_1)
qed

lemma CheckedAdd_eq:
  "CheckedAdd x y = (if unat x + unat y < 2 ^ 64 then Some (x + y) else None)"
proof -
  have "unat y \<le> 2 ^ 64 - 1" using unat_less64[of y] by simp
  then have "x > (- 1) - y \<longleftrightarrow> \<not> unat x + unat y < 2 ^ 64"
    by (auto simp: word_less_nat_alt unat_max)
  then show ?thesis by (simp add: CheckedAdd_def)
qed

lemma CheckedAdd_unat: "CheckedAdd x y = Some z \<Longrightarrow> unat z = unat x + unat y"
  by (auto simp: CheckedAdd_eq unat_word_ariths split: if_splits)

lemma round_up:
  fixes a n :: nat
  assumes "0 < n"
  shows "(a + (n - a mod n)) mod n = 0" "a mod n < n"
proof -
  show l: "a mod n < n" using assms by simp
  have "a + (n - a mod n) = n * (a div n) + n" using mult_div_mod_eq[of n a] l by linarith
  then show "(a + (n - a mod n)) mod n = 0" by (simp only: mod_mult_self2_is_0 mod_mult_self4 mod_self)
qed

lemma unat_remainder:
  assumes "(al :: 64 word) \<noteq> 0"
  shows "0 < unat al" "unat (x mod al) = unat x mod unat al" "unat (al - x mod al) = unat al - unat x mod unat al"
proof -
  show pos: "0 < unat al" using assms by (simp add: unat_gt_0)
  show r: "unat (x mod al) = unat x mod unat al" by (rule unat_mod)
  have "x mod al \<le> al" using round_up(2)[OF pos, of "unat x"] by (simp only: word_le_nat_alt r order_less_imp_le)
  then show "unat (al - x mod al) = unat al - unat x mod unat al" by (simp only: unat_sub r)
qed

text \<open>The smallest multiple of the alignment from the offset on.\<close>

lemma CheckedAlignTo_unat:
  assumes "CheckedAlignTo al x = Some z"
  shows "al \<noteq> 0 \<and> unat z mod unat al = 0 \<and> unat x \<le> unat z \<and> unat z < unat x + unat al"
proof -
  have al: "al \<noteq> 0" using assms by (auto simp: CheckedAlignTo_def)
  note u = unat_remainder(1)[OF al] unat_remainder(2,3)[OF al, of x]
  show ?thesis
  proof (cases "x mod al = 0")
    case True
    then have "z = x" using assms al by (simp add: CheckedAlignTo_def)
    moreover have "unat x mod unat al = 0" using True u(2) by (metis unat_0)
    ultimately show ?thesis using al u(1) by simp
  next
    case False
    then have "CheckedAdd x (al - x mod al) = Some z" using assms al by (simp add: CheckedAlignTo_def)
    then have z: "unat z = unat x + (unat al - unat x mod unat al)" using CheckedAdd_unat u(3) by metis
    have "0 < unat x mod unat al" using False u(2) by (metis unat_gt_0)
    then have "unat x \<le> unat z" "unat z < unat x + unat al" using z u(1) by linarith+
    moreover have "unat z mod unat al = 0" unfolding z by (rule round_up(1)[OF u(1)])
    ultimately show ?thesis using al by blast
  qed
qed

lemma CheckedAlignTo_some:
  assumes "al \<noteq> 0" "unat x + unat al \<le> 2 ^ 64"
  shows "\<exists>z. CheckedAlignTo al x = Some z"
proof (cases "x mod al = 0")
  case False
  note u = unat_remainder(1)[OF assms(1)] unat_remainder(2,3)[OF assms(1), of x]
  have "0 < unat x mod unat al" using False u(2) by (metis unat_gt_0)
  then have "unat x + unat (al - x mod al) < 2 ^ 64" using assms(2) u(1,3) by linarith
  then show ?thesis using False assms(1) by (simp add: CheckedAlignTo_def CheckedAdd_eq)
qed (use assms in \<open>simp add: CheckedAlignTo_def\<close>)

section \<open>Bytes of an allocation\<close>

definition lo :: "arena_alloc \<Rightarrow> nat" where "lo x = unat (a_offset x)"
definition hi :: "arena_alloc \<Rightarrow> nat" where "hi x = unat (a_offset x) + unat (a_size x)"

definition together :: "arena_alloc \<Rightarrow> arena_alloc \<Rightarrow> bool" where
  "together x y \<longleftrightarrow> \<not> (a_last_node x < a_first_node y \<or> a_last_node y < a_first_node x)"

definition apart :: "arena_alloc \<Rightarrow> arena_alloc \<Rightarrow> bool" where
  "apart x y \<longleftrightarrow> hi x \<le> lo y \<or> hi y \<le> lo x"

definition disjoint_plan :: "arena_alloc list \<Rightarrow> bool" where
  "disjoint_plan = sorted_wrt (\<lambda>x y. together x y \<longrightarrow> apart x y)"

abbreviation by_offset :: "arena_alloc list \<Rightarrow> bool" where
  "by_offset xs \<equiv> sorted_wrt (\<lambda>x y. a_offset x \<le> a_offset y) xs"

text \<open>The bytes from \<open>p\<close> on, \<open>n\<close> of them, are free of the allocations in use.\<close>

definition free_at :: "nat \<Rightarrow> nat \<Rightarrow> arena_alloc list \<Rightarrow> bool" where
  "free_at p n xs \<longleftrightarrow> list_all (\<lambda>x. p + n \<le> lo x \<or> hi x \<le> p) xs"

definition used_in :: "int \<Rightarrow> int \<Rightarrow> arena_alloc \<Rightarrow> bool" where
  "used_in p q x \<longleftrightarrow> \<not> (a_last_node x < p \<or> a_first_node x > q)"

section \<open>The search for a gap\<close>

lemma gapLoop_finds:
  assumes "gapLoop al n p q xs cur best fit = Inr (cur', best')"
    and "n \<noteq> 0" "by_offset xs" "best = kOffsetNotAssigned \<Longrightarrow> fit \<noteq> 0"
    and "list_all (\<lambda>x. hi x \<le> unat cur) vs"
    and "best \<noteq> kOffsetNotAssigned \<Longrightarrow> unat best mod unat al = 0 \<and> free_at (unat best) (unat n) (vs @ filter (used_in p q) xs)"
  shows "if best' = kOffsetNotAssigned then list_all (\<lambda>x. hi x \<le> unat cur') (vs @ filter (used_in p q) xs)
    else unat best' mod unat al = 0 \<and> free_at (unat best') (unat n) (vs @ filter (used_in p q) xs)"
  using assms
proof (induction xs arbitrary: cur best fit vs)
  case Nil
  then show ?case by auto
next
  case (Cons x xs)
  note s = Cons.prems(3)
  show ?case
  proof (cases "used_in p q x")
    case False
    then have g: "gapLoop al n p q xs cur best fit = Inr (cur', best')" using Cons.prems(1) by (simp add: used_in_def)
    have eq: "filter (used_in p q) (x # xs) = filter (used_in p q) xs" using False by simp
    show ?thesis unfolding eq
      by (rule Cons.IH[OF g Cons.prems(2) _ _ Cons.prems(5)]) (use s Cons.prems(4,6) eq in auto)
  next
    case u: True
    then have skip: "\<not> (a_last_node x < p \<or> a_first_node x > q)" by (simp add: used_in_def)
    from Cons.prems(1) skip obtain aligned e z where
      al: "CheckedAlignTo al cur = Some aligned" and e: "CheckedAdd aligned n = Some e" and z: "CheckedAdd (a_offset x) (a_size x) = Some z"
      by (auto simp: bindR_eq_Inr ensureSome_def Let_def split: option.splits if_splits)
    note A = CheckedAlignTo_unat[OF al] note E = CheckedAdd_unat[OF e] note Z = CheckedAdd_unat[OF z]
    define found where "found \<longleftrightarrow> e \<le> a_offset x \<and> a_offset x - aligned < fit"
    define b where "b = (if found then aligned else best)"
    define f where "f = (if found then a_offset x - cur else fit)"
    have run: "(if f = 0 then Inr (max cur z, b) else gapLoop al n p q xs (max cur z) b f) = Inr (cur', best')"
      using Cons.prems(1) unfolding gapLoop.simps al e z ensureSome_def option.case bindR_simps Let_def b_def f_def found_def
      by (simp only: skip if_False)
    have later: "lo x \<le> lo y" if "y \<in> set xs" for y using s that by (auto simp: lo_def word_le_nat_alt)
    have free: "unat b mod unat al = 0 \<and> free_at (unat b) (unat n) (vs @ filter (used_in p q) (x # xs))"
      if "b \<noteq> kOffsetNotAssigned"
    proof (cases found)
      case True
      then have "unat aligned + unat n \<le> lo x" using E by (simp add: found_def word_le_nat_alt lo_def)
      then have "\<forall>y \<in> set (x # xs). unat aligned + unat n \<le> lo y" using later by fastforce
      moreover have "\<forall>y \<in> set vs. hi y \<le> unat aligned" using Cons.prems(5) A by (fastforce simp: list_all_iff)
      ultimately show ?thesis using True A by (auto simp: b_def free_at_def list_all_iff)
    next
      case False
      then show ?thesis using Cons.prems(6) that by (simp add: b_def)
    qed
    have passed: "list_all (\<lambda>y. hi y \<le> unat (max cur z)) (vs @ [x])"
      using Cons.prems(5) Z by (auto simp: list_all_iff hi_def max_def word_le_nat_alt)
    show ?thesis
    proof (cases "f = 0")
      case True
      then have r: "best' = b" using run by simp
      have "b \<noteq> kOffsetNotAssigned"
      proof (cases found)
        case f: True
        have "a_offset x - cur = 0" using True f by (simp add: f_def)
        then have "a_offset x = cur" by simp
        then have "unat e \<le> unat cur" using f by (simp add: found_def word_le_nat_alt)
        then have "unat n = 0" using A E by auto
        then show ?thesis using Cons.prems(2) by (simp add: unat_eq_0)
      next
        case nf: False
        then show ?thesis using True Cons.prems(4) by (auto simp: b_def f_def)
      qed
      then show ?thesis using free r by simp
    next
      case False
      then have g: "gapLoop al n p q xs (max cur z) b f = Inr (cur', best')" using run by simp
      have eq: "vs @ filter (used_in p q) (x # xs) = (vs @ [x]) @ filter (used_in p q) xs" using u by simp
      show ?thesis unfolding eq
        by (rule Cons.IH[OF g Cons.prems(2) _ _ passed]) (use s False free eq in auto)
    qed
  qed
qed

section \<open>One allocation\<close>

lemma insertAlloc_set: "set (insertAlloc x xs) = insert x (set xs)"
  unfolding insertAlloc_def by (metis Un_insert_right set_append list.set(2) takeWhile_dropWhile_id)

lemma insertAlloc_sorted:
  assumes "by_offset xs"
  shows "by_offset (insertAlloc x xs)"
proof -
  let ?P = "\<lambda>y. \<not> a_offset x < a_offset y"
  have d: "a_offset x \<le> a_offset y" if "y \<in> set (dropWhile ?P xs)" for y
    using assms that
  proof (induction xs)
    case (Cons z zs)
    show ?case
    proof (cases "?P z")
      case False
      then have "a_offset x < a_offset z" by simp
      moreover have "a_offset z \<le> a_offset y" using Cons.prems False by auto
      ultimately show ?thesis by (meson order.strict_trans1 order_less_imp_le order.strict_trans2)
    qed (use Cons in auto)
  qed simp
  have t: "a_offset y \<le> a_offset x" if "y \<in> set (takeWhile ?P xs)" for y
    using set_takeWhileD[OF that] by (simp add: not_less)
  have "by_offset (takeWhile ?P xs @ dropWhile ?P xs)" using assms by simp
  then show ?thesis unfolding insertAlloc_def sorted_wrt_append using d t by (auto intro: order_trans)
qed

text \<open>What \<open>Allocate\<close> hands out, and what it does to the arena.\<close>

lemma Allocate_run:
  assumes "Allocate al n t p q a = (Inr x, a')" "by_offset (active_allocs a)"
  shows "a_size x = n \<and> a_tensor x = t \<and> a_first_node x = p \<and> a_last_node x = q \<and> al \<noteq> 0 \<and>
    (if n = 0 then a' = a \<and> a_offset x = 0
     else unat (a_offset x) mod unat al = 0 \<and> free_at (lo x) (unat n) (filter (used_in p q) (active_allocs a)) \<and>
       hi x < 2 ^ 64 \<and> a' = a\<lparr>high_water_mark := max (high_water_mark a) (a_offset x + n),
         active_allocs := insertAlloc x (active_allocs a)\<rparr> \<and> unat (a_offset x + n) = hi x)"
proof (cases "n = 0")
  case True
  then show ?thesis using assms(1) by (auto simp: Allocate_def op_simps Let_def split: if_splits)
next
  case False
  let ?new = "\<lambda>o'. \<lparr>a_offset = o', a_size = n, a_tensor = t, a_first_node = p, a_last_node = q\<rparr>"
  obtain cur best off req where g: "gapLoop al n p q (active_allocs a) 0 kOffsetNotAssigned kOffsetNotAssigned = Inr (cur, best)"
    and off: "if best = kOffsetNotAssigned then CheckedAlignTo al cur = Some off else off = best"
    and req: "CheckedAdd off n = Some req" and al: "al \<noteq> 0" and x: "x = ?new off"
    and a': "a' = a\<lparr>high_water_mark := max (high_water_mark a) req, active_allocs := insertAlloc x (active_allocs a)\<rparr>"
    using assms(1) False
    by (auto simp: Allocate_def op_simps Let_def andThen_eq_Inr ensureSome_def split: if_splits option.splits)
  note r = gapLoop_finds[OF g False assms(2), of "[]"]
  have "unat off mod unat al = 0 \<and> free_at (unat off) (unat n) (filter (used_in p q) (active_allocs a))"
  proof (cases "best = kOffsetNotAssigned")
    case True
    then have "list_all (\<lambda>x. hi x \<le> unat cur) (filter (used_in p q) (active_allocs a))" using r by simp
    moreover have "CheckedAlignTo al cur = Some off" using off True by simp
    ultimately show ?thesis using CheckedAlignTo_unat[of al cur off] by (fastforce simp: free_at_def list_all_iff)
  next
    case nb: False
    then show ?thesis using r off by simp
  qed
  moreover have "hi x = unat req" "req = off + n" "unat req < 2 ^ 64"
    using req unat_less64[of req] CheckedAdd_unat[OF req] by (auto simp: x hi_def CheckedAdd_eq split: if_splits)
  ultimately show ?thesis using False a' al by (simp add: x lo_def)
qed

lemma Allocate_fails: "Allocate al n t p q a = (Inl e, a') \<Longrightarrow> a' = a"
  by (auto simp: Allocate_def op_simps Let_def andThen_def ensureSome_def split: if_splits option.splits prod.splits sum.splits)

section \<open>Every sequence of operations\<close>

text \<open>A state of the arena with the plan (the allocations handed out and still in force) and the
  node from which on further allocations are first used. The steps are the operations as the
  planner calls them: it drops what it resets, and allocates in the order of the nodes.\<close>

type_synonym planned = "arena \<times> arena_alloc list \<times> int"

inductive arena_step :: "allocator \<Rightarrow> planned \<Rightarrow> planned \<Rightarrow> bool" for m where
  allocate: "Allocate al n t p q a = (Inr x, a') \<Longrightarrow> now \<le> p \<Longrightarrow> t \<noteq> - 1 \<Longrightarrow> arena_step m (a, plan, now) (a', x # plan, now)"
| allocate_fails: "Allocate al n t p q a = (Inl e, a') \<Longrightarrow> arena_step m (a, plan, now) (a', plan, now)"
| purge: "PurgeActiveAllocs node a = (Inr (), a') \<Longrightarrow> now \<le> node \<Longrightarrow> arena_step m (a, plan, now) (a', plan, node)"
| purge_after: "PurgeAfter node a = (Inr (), a') \<Longrightarrow>
    arena_step m (a, plan, now) (a', filter (\<lambda>x. a_first_node x \<le> node) plan, now)"
| recalculate: "CalculateActiveAllocs (filter (\<lambda>x. a_first_node x \<le> node) plan) node a = (Inr (), a') \<Longrightarrow>
    arena_step m (a, plan, now) (a', filter (\<lambda>x. a_first_node x \<le> node) plan, node)"
| reset: "ResetAllocs a = (Inr (), a') \<Longrightarrow> arena_step m (a, plan, now) (a', [], now')"
| clear: "ClearPlan a = (Inr (), a') \<Longrightarrow> arena_step m (a, plan, now) (a', [], now')"
| commit: "Commit m a = (r, a') \<Longrightarrow> arena_step m (a, plan, now) (a', plan, now)"
| release: "ReleaseBuffer a = (Inr (), a') \<Longrightarrow> arena_step m (a, plan, now) (a', plan, now)"

definition buf_ok :: "buffer \<Rightarrow> bool" where
  "buf_ok b \<longleftrightarrow> unat (aligned_pointer b) + unat (data_size b) \<le> 2 ^ 64 \<and> unat (data_size b) \<le> length (buf_bytes b)"

definition plan_inv :: "planned \<Rightarrow> bool" where
  "plan_inv = (\<lambda>(a, plan, now). by_offset (active_allocs a) \<and> set (active_allocs a) \<subseteq> set plan \<and>
    (\<forall>x \<in> set plan. a_size x \<noteq> 0 \<and> now \<le> a_last_node x \<longrightarrow> x \<in> set (active_allocs a)) \<and>
    (\<forall>x \<in> set plan. hi x \<le> unat (high_water_mark a) \<and> a_tensor x \<noteq> - 1 \<and> (a_size x = 0 \<longrightarrow> a_offset x = 0)) \<and>
    disjoint_plan plan)"

lemma markAndErase_filter:
  "\<forall>x \<in> set xs. a_tensor x \<noteq> - 1 \<Longrightarrow> markAndErase P xs = filter (\<lambda>x. \<not> P x) xs"
  by (induction xs) (auto simp: markAndErase_def)

lemma sorted_wrt_filter_keep: "sorted_wrt R xs \<Longrightarrow> sorted_wrt R (filter P xs)"
  by (induction xs) auto

lemma Commit_keeps: "Commit m a = (r, a') \<Longrightarrow> active_allocs a' = active_allocs a \<and> high_water_mark a' = high_water_mark a"
  by (auto simp: Commit_def onBuffer_def op_simps andThen_def modify_def gets_def ret_def split: prod.splits sum.splits)

lemma ReleaseBuffer_keeps:
  "ReleaseBuffer a = (r, a') \<Longrightarrow> active_allocs a' = active_allocs a \<and> high_water_mark a' = high_water_mark a"
  by (auto simp: ReleaseBuffer_def onBuffer_def op_simps andThen_def modify_def split: prod.splits sum.splits)

lemma allocate_inv:
  assumes "Allocate al n t p q a = (Inr x, a')" "now \<le> p" "t \<noteq> - 1" "plan_inv (a, plan, now)"
  shows "plan_inv (a', x # plan, now)"
proof -
  have I: "by_offset (active_allocs a)" "set (active_allocs a) \<subseteq> set plan"
      "\<forall>x \<in> set plan. a_size x \<noteq> 0 \<and> now \<le> a_last_node x \<longrightarrow> x \<in> set (active_allocs a)"
      "\<forall>x \<in> set plan. hi x \<le> unat (high_water_mark a) \<and> a_tensor x \<noteq> - 1 \<and> (a_size x = 0 \<longrightarrow> a_offset x = 0)"
      "disjoint_plan plan"
    using assms(4) by (auto simp: plan_inv_def)
  note run = Allocate_run[OF assms(1) I(1)]
  show ?thesis
  proof (cases "n = 0")
    case True
    then have "hi x = 0" "lo x = 0" using run by (auto simp: hi_def lo_def)
    then show ?thesis using I run True assms(3) by (auto simp: plan_inv_def disjoint_plan_def apart_def)
  next
    case False
    then have a': "active_allocs a' = insertAlloc x (active_allocs a)" "unat (high_water_mark a') = max (unat (high_water_mark a)) (hi x)"
      using run by (auto simp: max_def word_le_nat_alt)
    have "apart x y" if y: "y \<in> set plan" "together x y" for y
    proof (cases "a_size y = 0")
      case True
      then have "hi y = 0" using I(4) y(1) by (simp add: hi_def)
      then show ?thesis by (simp add: apart_def)
    next
      case ny: False
      have "used_in p q y" using y(2) run by (auto simp: together_def used_in_def)
      moreover from this have "y \<in> set (active_allocs a)" using I(3) y(1) ny assms(2) by (auto simp: used_in_def)
      ultimately have "lo x + unat n \<le> lo y \<or> hi y \<le> lo x" using run False by (simp add: free_at_def list_all_iff)
      then show ?thesis using run by (auto simp: apart_def hi_def lo_def)
    qed
    then have "disjoint_plan (x # plan)" using I(5) by (simp add: disjoint_plan_def)
    then show ?thesis using I run False assms(3) insertAlloc_sorted[OF I(1), of x] insertAlloc_set[of x "active_allocs a"] a'
      by (auto simp: plan_inv_def)
  qed
qed

lemma purge_inv:
  assumes "plan_inv (a, plan, now)" "now \<le> node"
  shows "plan_inv (a\<lparr>active_allocs := markAndErase (\<lambda>x. a_last_node x < node) (active_allocs a)\<rparr>, plan, node)"
proof -
  have "\<forall>x \<in> set (active_allocs a). a_tensor x \<noteq> - 1" using assms(1) by (auto simp: plan_inv_def)
  then show ?thesis using assms by (auto simp: plan_inv_def markAndErase_filter sorted_wrt_filter_keep)
qed

lemma purge_after_inv:
  assumes "plan_inv (a, plan, now)"
  shows "plan_inv (a\<lparr>active_allocs := markAndErase (\<lambda>x. a_first_node x > node) (active_allocs a)\<rparr>,
    filter (\<lambda>x. a_first_node x \<le> node) plan, now)"
proof -
  have "\<forall>x \<in> set (active_allocs a). a_tensor x \<noteq> - 1" using assms(1) by (auto simp: plan_inv_def)
  then show ?thesis using assms
    by (auto simp: plan_inv_def markAndErase_filter sorted_wrt_filter_keep disjoint_plan_def not_less)
qed

lemma recalculate_inv:
  assumes "plan_inv (a, plan, now)"
  shows "plan_inv (a\<lparr>active_allocs := sort_key a_offset (filter (\<lambda>x. a_first_node x \<le> node \<and> a_last_node x \<ge> node)
      (filter (\<lambda>x. a_first_node x \<le> node) plan))\<rparr>, filter (\<lambda>x. a_first_node x \<le> node) plan, node)"
proof -
  have "by_offset (sort_key a_offset xs)" for xs using sorted_sort_key[of a_offset xs] by (simp add: sorted_map)
  then show ?thesis using assms by (auto simp: plan_inv_def sorted_wrt_filter_keep disjoint_plan_def)
qed

lemma arena_step_inv: "arena_step m s s' \<Longrightarrow> plan_inv s \<Longrightarrow> plan_inv s'"
proof (induction rule: arena_step.induct)
  case (allocate al n t p q a x a' now plan)
  then show ?case by (rule allocate_inv)
next
  case (allocate_fails al n t p q a e a' plan now)
  then show ?case using Allocate_fails by blast
next
  case (purge node a a' now plan)
  then show ?case using purge_inv by (auto simp: PurgeActiveAllocs_def modify_def)
next
  case (purge_after node a a' plan now)
  then show ?case using purge_after_inv by (auto simp: PurgeAfter_def modify_def)
next
  case (recalculate node plan a a' now)
  then show ?case using recalculate_inv by (auto simp: CalculateActiveAllocs_def modify_def)
next
  case (reset a a' plan now now')
  then show ?case by (auto simp: ResetAllocs_def modify_def plan_inv_def disjoint_plan_def)
next
  case (clear a a' plan now now')
  then show ?case by (auto simp: ClearPlan_def modify_def plan_inv_def disjoint_plan_def)
next
  case (commit a r a' plan now)
  then show ?case using Commit_keeps[of m a r a'] by (auto simp: plan_inv_def)
next
  case (release a a' plan now)
  then show ?case using ReleaseBuffer_keeps[of a _ a'] by (auto simp: plan_inv_def)
qed

lemma reachable_inv: "(arena_step m)\<^sup>*\<^sup>* (newArena al, [], now0) s \<Longrightarrow> plan_inv s"
proof (induction rule: rtranclp_induct)
  case base
  show ?case by (simp add: newArena_def plan_inv_def disjoint_plan_def)
next
  case (step s s')
  then show ?case using arena_step_inv by blast
qed

text \<open>C38: after any sequence of operations in the order of use two allocations of the plan whose
  tensors are used at the same time have no byte in common, and all of them lie below the high
  water mark. The order of use: an allocation is first used at or after the node of the last purge
  or recalculation, a purge does not go back, and the active allocations are recalculated from
  the plan without the allocations that are first used later.\<close>

theorem arena_plan_disjoint:
  assumes "(arena_step m)\<^sup>*\<^sup>* (newArena al, [], now0) (a, plan, now)"
  shows "disjoint_plan plan \<and> list_all (\<lambda>x. hi x \<le> unat (high_water_mark a)) plan"
  using reachable_inv[OF assms] by (simp add: plan_inv_def list_all_iff)

text \<open>Without the order of use it does not hold: a purge up to node 4 forgets the tensor used from
  node 0 to node 2, and an allocation for the same nodes gets the same bytes.\<close>

definition early_allocation :: "(arena, arena_alloc \<times> arena_alloc) op" where
  "early_allocation =
     andThen (Allocate 32 2047 0 0 2) (\<lambda>x.
     andThen (PurgeActiveAllocs 4) (\<lambda>_.
     andThen (Allocate 32 2047 1 0 2) (\<lambda>y. ret (x, y))))"

lemma early_allocation_overlaps:
  "\<exists>x y. fst (early_allocation (newArena 64)) = Inr (x, y) \<and> together x y \<and> \<not> apart x y"
  by (auto simp: early_allocation_def Allocate_def newArena_def op_simps ensureSome_def CheckedAlignTo_def CheckedAdd_def
    Let_def insertAlloc_def PurgeActiveAllocs_def markAndErase_def together_def apart_def lo_def hi_def)

definition sample_arena :: arena where
  "sample_arena = snd (Allocate 64 100 2 1 3 (snd (Allocate 64 50 1 0 2 (newArena 64))))"

lemma sample_allocate:
  "Allocate 64 50 1 0 2 (newArena 64) = (Inr \<lparr>a_offset = 0, a_size = 50, a_tensor = 1, a_first_node = 0, a_last_node = 2\<rparr>,
     snd (Allocate 64 50 1 0 2 (newArena 64)))"
  "Allocate 64 100 2 1 3 (snd (Allocate 64 50 1 0 2 (newArena 64))) =
     (Inr \<lparr>a_offset = 64, a_size = 100, a_tensor = 2, a_first_node = 1, a_last_node = 3\<rparr>, sample_arena)"
  by (simp_all add: sample_arena_def Allocate_def newArena_def op_simps ensureSome_def CheckedAlignTo_def CheckedAdd_def
    Let_def insertAlloc_def)

lemma sample_reachable:
  "(arena_step m)\<^sup>*\<^sup>* (newArena 64, [], 0) (sample_arena,
     [\<lparr>a_offset = 64, a_size = 100, a_tensor = 2, a_first_node = 1, a_last_node = 3\<rparr>,
      \<lparr>a_offset = 0, a_size = 50, a_tensor = 1, a_first_node = 0, a_last_node = 2\<rparr>], 0)"
proof -
  have "arena_step m (newArena 64, [], 0) (snd (Allocate 64 50 1 0 2 (newArena 64)),
     [\<lparr>a_offset = 0, a_size = 50, a_tensor = 1, a_first_node = 0, a_last_node = 2\<rparr>], 0)"
    by (rule arena_step.allocate[OF sample_allocate(1)]) auto
  moreover have "arena_step m (snd (Allocate 64 50 1 0 2 (newArena 64)),
     [\<lparr>a_offset = 0, a_size = 50, a_tensor = 1, a_first_node = 0, a_last_node = 2\<rparr>], 0) (sample_arena,
     [\<lparr>a_offset = 64, a_size = 100, a_tensor = 2, a_first_node = 1, a_last_node = 3\<rparr>,
      \<lparr>a_offset = 0, a_size = 50, a_tensor = 1, a_first_node = 0, a_last_node = 2\<rparr>], 0)"
    by (rule arena_step.allocate[OF sample_allocate(2)]) auto
  ultimately show ?thesis by (meson rtranclp.rtrancl_into_rtrancl rtranclp.rtrancl_refl)
qed

lemma arena_plan_disjoint_witness:
  "disjoint_plan [\<lparr>a_offset = 64, a_size = 100, a_tensor = 2, a_first_node = 1, a_last_node = 3\<rparr>,
      \<lparr>a_offset = 0, a_size = 50, a_tensor = 1, a_first_node = 0, a_last_node = 2\<rparr>] \<and>
   list_all (\<lambda>x. hi x \<le> unat (high_water_mark sample_arena))
     [\<lparr>a_offset = 64, a_size = 100, a_tensor = 2, a_first_node = 1, a_last_node = 3\<rparr>,
      \<lparr>a_offset = 0, a_size = 50, a_tensor = 1, a_first_node = 0, a_last_node = 2\<rparr>]"
  by (rule arena_plan_disjoint[OF sample_reachable])

section \<open>Resolved pointers\<close>

text \<open>What the C library promises of \<open>aligned_alloc\<close>: a block of the size asked for, at an aligned
  address that is not null, inside the address space.\<close>

definition malloc_ok :: "allocator \<Rightarrow> bool" where
  "malloc_ok m \<longleftrightarrow> (\<forall>al n p bytes. m al n = Some (p, bytes) \<longrightarrow>
     p \<noteq> 0 \<and> unat p mod unat al = 0 \<and> unat p + unat n \<le> 2 ^ 64 \<and> length bytes = unat n)"

lemma AlignedAlloc_ok:
  assumes "malloc_ok m" "AlignedAlloc m n al = Some (p, bytes)"
  shows "unat p + unat n \<le> 2 ^ 64 \<and> unat n \<le> length bytes"
proof -
  obtain padded sz where 1: "CheckedAdd n (al - 1) = Some padded" "CheckedAlignTo al padded = Some sz" "m al sz = Some (p, bytes)"
    using assms(2) by (auto simp: AlignedAlloc_def split: if_splits option.splits)
  then have "unat n \<le> unat sz" using CheckedAdd_unat[OF 1(1)] CheckedAlignTo_unat[OF 1(2)] by linarith
  moreover have "unat p + unat sz \<le> 2 ^ 64" "length bytes = unat sz"
    using assms(1) 1(3) unfolding malloc_ok_def by blast+
  ultimately show ?thesis by simp
qed

lemma Resize_run:
  assumes "malloc_ok m" "Resize m n b = (Inr r, b')" "buf_ok b"
  shows "buf_ok b' \<and> n \<le> data_size b' \<and> take (unat (data_size b)) (buf_bytes b') = take (unat (data_size b)) (buf_bytes b)"
proof (cases "n \<le> data_size b")
  case True
  then show ?thesis using assms by (auto simp: Resize_def op_simps split: if_splits)
next
  case False
  then obtain p bytes where al: "AlignedAlloc m n (buf_alignment b) = Some (p, bytes)"
    and b': "b' = b\<lparr>aligned_pointer := p,
      buf_bytes := take (unat (min n (data_size b))) (buf_bytes b) @ drop (unat (min n (data_size b))) bytes, data_size := n\<rparr>"
    using assms(2) by (auto simp: Resize_def AlignedRealloc_def op_simps Let_def split: if_splits option.splits)
  have mn: "min n (data_size b) = data_size b" using False by (simp add: min_def)
  have "unat (data_size b) \<le> unat n" using False by (simp add: word_le_nat_alt)
  then show ?thesis using AlignedAlloc_ok[OF assms(1) al] assms(3) unfolding b' mn by (auto simp: buf_ok_def)
qed

lemma Commit_run:
  assumes "malloc_ok m" "Commit m a = (Inr r, a')" "buf_ok (underlying_buffer a)"
  shows "committed a' \<and> buf_ok (underlying_buffer a') \<and> high_water_mark a \<le> data_size (underlying_buffer a') \<and>
    take (unat (data_size (underlying_buffer a))) (buf_bytes (underlying_buffer a')) =
    take (unat (data_size (underlying_buffer a))) (buf_bytes (underlying_buffer a))"
proof -
  obtain b where r: "Resize m (high_water_mark a) (underlying_buffer a) = (Inr r, b)"
    and a': "a' = a\<lparr>underlying_buffer := b, committed := True\<rparr>"
    using assms(2) by (auto simp: Commit_def onBuffer_def op_simps andThen_eq_Inr split: prod.splits)
  show ?thesis using Resize_run[OF assms(1) r assms(3)] by (simp add: a')
qed

lemma Commit_buf_ok:
  assumes "malloc_ok m" "Commit m a = (r, a')" "buf_ok (underlying_buffer a)"
  shows "buf_ok (underlying_buffer a')"
proof (cases "Resize m (high_water_mark a) (underlying_buffer a)")
  case (Pair q b)
  have "b = underlying_buffer a" if "q = Inl e" for e
    using Pair that by (auto simp: Resize_def op_simps andThen_def modify_def ret_def failWith_def split: if_splits option.splits prod.splits)
  then have "buf_ok b" using Pair Resize_run[OF assms(1) _ assms(3), of "high_water_mark a"] assms(3) by (cases q) auto
  moreover have "underlying_buffer a' = b"
    using assms(2) Pair by (cases q) (auto simp: Commit_def onBuffer_def op_simps andThen_def modify_def ret_def gets_def)
  ultimately show ?thesis by simp
qed

lemma arena_step_buf: "arena_step m s s' \<Longrightarrow> malloc_ok m \<Longrightarrow> buf_ok (underlying_buffer (fst s)) \<Longrightarrow> buf_ok (underlying_buffer (fst s'))"
proof (induction rule: arena_step.induct)
  case (allocate al n t p q a x a' now plan)
  then have "underlying_buffer a' = underlying_buffer a"
    by (auto simp: Allocate_def op_simps Let_def andThen_eq_Inr split: if_splits prod.splits)
  then show ?case using allocate by simp
next
  case (allocate_fails al n t p q a e a' plan now)
  then show ?case using Allocate_fails[of al n t p q a e a'] by simp
next
  case (commit a r a' plan now)
  then show ?case using Commit_buf_ok[of m a r a'] by simp
next
  case (release a a' plan now)
  then show ?case by (auto simp: ReleaseBuffer_def Release_def onBuffer_def op_simps buf_ok_def split: if_splits)
qed (auto simp: PurgeActiveAllocs_def PurgeAfter_def CalculateActiveAllocs_def ResetAllocs_def ClearPlan_def modify_def)

lemma reachable_buf:
  assumes "(arena_step m)\<^sup>*\<^sup>* (newArena al, [], now0) s" "malloc_ok m"
  shows "buf_ok (underlying_buffer (fst s))"
  using assms(1)
proof (induction rule: rtranclp_induct)
  case base
  show ?case by (simp add: newArena_def buf_ok_def)
next
  case (step s s')
  then show ?case using arena_step_buf[OF step(2) assms(2)] by simp
qed

lemma ResolveAlloc_run:
  assumes "committed a" "buf_ok (underlying_buffer a)" "hi x \<le> unat (data_size (underlying_buffer a))"
  shows "\<exists>p. ResolveAlloc x a = (Inr p, a) \<and> (a_size x \<noteq> 0 \<longrightarrow> unat p = unat (aligned_pointer (underlying_buffer a)) + lo x)"
proof -
  let ?b = "underlying_buffer a"
  have h: "hi x < 2 ^ 64" using assms(3) unat_less64[of "data_size ?b"] by simp
  then obtain e where e: "CheckedAdd (a_offset x) (a_size x) = Some e" by (simp add: CheckedAdd_eq hi_def)
  then have "e \<le> data_size ?b" using assms(3) CheckedAdd_unat[OF e] by (simp add: word_le_nat_alt hi_def)
  then have r: "ResolveAlloc x a = (Inr (if a_size x = 0 then 0 else aligned_pointer ?b + a_offset x), a)"
    using assms(1) e by (simp add: ResolveAlloc_def op_simps ensureSome_def)
  have "unat (aligned_pointer ?b + a_offset x) = unat (aligned_pointer ?b) + lo x" if "a_size x \<noteq> 0"
  proof -
    have "0 < unat (a_size x)" using that by (simp add: unat_gt_0)
    then have "unat (aligned_pointer ?b) + unat (a_offset x) < 2 ^ 64" using assms(2,3) by (simp add: buf_ok_def hi_def)
    then show ?thesis by (simp add: unat_word_ariths lo_def)
  qed
  then show ?thesis using r by auto
qed

text \<open>The bytes of a pointer are inside the buffer.\<close>

definition inside :: "buffer \<Rightarrow> 64 word \<Rightarrow> 64 word \<Rightarrow> bool" where
  "inside b p n \<longleftrightarrow> unat (aligned_pointer b) \<le> unat p \<and> unat p + unat n \<le> unat (aligned_pointer b) + unat (data_size b)"

text \<open>C39: once an arena whose operations followed the order of use (as for the plan above) is
  committed, two allocations of the plan that are not empty and whose tensors are used at the same time resolve to pointers whose bytes lie in the buffer and do not overlap; growing the
  buffer kept the bytes it held. The allocator returns aligned blocks of the size asked for or nothing.\<close>

theorem resolved_pointers_disjoint:
  assumes "malloc_ok m" "(arena_step m)\<^sup>*\<^sup>* (newArena al, [], now0) (a, plan, now)" "Commit m a = (Inr r, a')"
    and "i < j" "j < length plan" "together (plan ! i) (plan ! j)" "a_size (plan ! i) \<noteq> 0" "a_size (plan ! j) \<noteq> 0"
  shows "\<exists>p q. ResolveAlloc (plan ! i) a' = (Inr p, a') \<and> ResolveAlloc (plan ! j) a' = (Inr q, a') \<and>
    inside (underlying_buffer a') p (a_size (plan ! i)) \<and> inside (underlying_buffer a') q (a_size (plan ! j)) \<and>
    (unat p + unat (a_size (plan ! i)) \<le> unat q \<or> unat q + unat (a_size (plan ! j)) \<le> unat p) \<and>
    take (unat (data_size (underlying_buffer a))) (buf_bytes (underlying_buffer a')) =
      take (unat (data_size (underlying_buffer a))) (buf_bytes (underlying_buffer a))"
proof -
  let ?x = "plan ! i" and ?y = "plan ! j"
  have inv: "plan_inv (a, plan, now)" and buf: "buf_ok (underlying_buffer a)"
    using reachable_inv[OF assms(2)] reachable_buf[OF assms(2,1)] by simp_all
  have "apart ?x ?y"
    using inv sorted_wrt_nth_less[OF _ assms(4,5)] assms(6) by (auto simp: plan_inv_def disjoint_plan_def)
  note c = Commit_run[OF assms(1,3) buf]
  have "unat (high_water_mark a) \<le> unat (data_size (underlying_buffer a'))" using c by (simp add: word_le_nat_alt)
  moreover have "?x \<in> set plan" "?y \<in> set plan" using assms(4,5) by auto
  ultimately have h: "hi ?x \<le> unat (data_size (underlying_buffer a'))" "hi ?y \<le> unat (data_size (underlying_buffer a'))"
    using inv by (auto simp: plan_inv_def intro: order_trans)
  obtain p q where "ResolveAlloc ?x a' = (Inr p, a')" "ResolveAlloc ?y a' = (Inr q, a')"
      "unat p = unat (aligned_pointer (underlying_buffer a')) + lo ?x" "unat q = unat (aligned_pointer (underlying_buffer a')) + lo ?y"
    using ResolveAlloc_run[of a' ?x] ResolveAlloc_run[of a' ?y] c h assms(7,8) by auto
  then show ?thesis
    using c h \<open>apart ?x ?y\<close> by (intro exI[of _ p] exI[of _ q]) (auto simp: inside_def apart_def hi_def lo_def)
qed

text \<open>An allocator that always returns the same block of a megabyte, and fails for more.\<close>

definition sample_malloc :: allocator where
  "sample_malloc al n = (if n \<le> 1048576 \<and> al = 64 then Some (4096, replicate (unat n) 0) else None)"

lemma sample_malloc_ok: "malloc_ok sample_malloc"
  by (auto simp: malloc_ok_def sample_malloc_def word_le_nat_alt)

definition sample_committed :: arena where
  "sample_committed = snd (Commit sample_malloc sample_arena)"

lemma sample_Commit: "Commit sample_malloc sample_arena = (Inr True, sample_committed)"
  unfolding sample_committed_def sample_arena_def
  by (simp add: Allocate_def newArena_def op_simps ensureSome_def CheckedAlignTo_def CheckedAdd_def
    Let_def insertAlloc_def Commit_def onBuffer_def Resize_def AlignedRealloc_def AlignedAlloc_def sample_malloc_def)

lemma resolved_pointers_disjoint_witness:
  "\<exists>p q. ResolveAlloc \<lparr>a_offset = 64, a_size = 100, a_tensor = 2, a_first_node = 1, a_last_node = 3\<rparr> sample_committed = (Inr p, sample_committed) \<and>
    ResolveAlloc \<lparr>a_offset = 0, a_size = 50, a_tensor = 1, a_first_node = 0, a_last_node = 2\<rparr> sample_committed = (Inr q, sample_committed) \<and>
    (unat p + 100 \<le> unat q \<or> unat q + 50 \<le> unat p)"
  using resolved_pointers_disjoint[OF sample_malloc_ok sample_reachable sample_Commit, of 0 1]
  by (auto simp: together_def)

section \<open>Allocation succeeds\<close>

lemma gapLoop_some:
  assumes "al \<noteq> 0" "\<forall>x \<in> set xs. hi x + unat al + unat n \<le> 2 ^ 64" "unat cur + unat al + unat n \<le> 2 ^ 64"
    "best = kOffsetNotAssigned \<or> unat best + unat n < 2 ^ 64"
  shows "\<exists>cur' best'. gapLoop al n p q xs cur best fit = Inr (cur', best') \<and> unat cur' + unat al + unat n \<le> 2 ^ 64 \<and>
    (best' = kOffsetNotAssigned \<or> unat best' + unat n < 2 ^ 64)"
  using assms
proof (induction xs arbitrary: cur best fit)
  case (Cons x xs)
  show ?case
  proof (cases "a_last_node x < p \<or> a_first_node x > q")
    case True
    then show ?thesis using Cons.IH[of cur best fit] Cons.prems by simp
  next
    case False
    obtain aligned where al: "CheckedAlignTo al cur = Some aligned"
      using CheckedAlignTo_some[of al cur] Cons.prems(1,3) by auto
    have b: "unat aligned + unat n < 2 ^ 64" using CheckedAlignTo_unat[OF al] Cons.prems(3) by linarith
    then obtain e where e: "CheckedAdd aligned n = Some e" by (simp add: CheckedAdd_eq)
    have pos: "0 < unat al" using Cons.prems(1) by (simp add: unat_gt_0)
    have h: "hi x + unat al + unat n \<le> 2 ^ 64" using Cons.prems(2) by simp
    then obtain z where z: "CheckedAdd (a_offset x) (a_size x) = Some z" using pos by (simp add: CheckedAdd_eq hi_def)
    let ?found = "e \<le> a_offset x \<and> a_offset x - aligned < fit"
    let ?b = "if ?found then aligned else best" and ?f = "if ?found then a_offset x - cur else fit"
    have run: "gapLoop al n p q (x # xs) cur best fit =
        (if ?f = 0 then Inr (max cur z, ?b) else gapLoop al n p q xs (max cur z) ?b ?f)"
      unfolding gapLoop.simps al e z ensureSome_def option.case bindR_simps Let_def by (simp only: False if_False)
    have m: "unat (max cur z) + unat al + unat n \<le> 2 ^ 64"
      using Cons.prems(3) h CheckedAdd_unat[OF z] by (auto simp: max_def hi_def)
    have "?b = kOffsetNotAssigned \<or> unat ?b + unat n < 2 ^ 64" using b Cons.prems(4) by auto
    then show ?thesis using Cons.IH[of "max cur z" ?b ?f] Cons.prems(1,2) m unfolding run by (cases "?f = 0") auto
  qed
qed simp

lemma Allocate_some:
  assumes "al \<noteq> 0" "al \<le> buf_alignment (underlying_buffer a)"
    and "list_all (\<lambda>x. hi x + unat al + unat n \<le> 2 ^ 64) (active_allocs a)" "unat al + unat n \<le> 2 ^ 64"
  shows "\<exists>x a'. Allocate al n t p q a = (Inr x, a')"
proof (cases "n = 0")
  case True
  then show ?thesis using assms(1,2) by (simp add: Allocate_def op_simps Let_def)
next
  case False
  obtain cur best where g: "gapLoop al n p q (active_allocs a) 0 kOffsetNotAssigned kOffsetNotAssigned = Inr (cur, best)"
      "unat cur + unat al + unat n \<le> 2 ^ 64" "best = kOffsetNotAssigned \<or> unat best + unat n < 2 ^ 64"
    using gapLoop_some[OF assms(1), of "active_allocs a" n 0 kOffsetNotAssigned p q kOffsetNotAssigned] assms(3,4)
    by (auto simp: list_all_iff)
  obtain aligned where al: "CheckedAlignTo al cur = Some aligned"
    using CheckedAlignTo_some[of al cur] assms(1) g(2) by auto
  have "unat aligned + unat n < 2 ^ 64" using CheckedAlignTo_unat[OF al] g(2) by linarith
  then show ?thesis using assms(1,2) False g al by (auto simp: Allocate_def op_simps Let_def ensureSome_def CheckedAdd_eq)
qed

text \<open>C40: when the arena is ordered by offset, and the end of every allocation in it as well as the
  offset zero leave room for the alignment and the size within 64 bits, an allocation succeeds
  exactly when its alignment is not zero and not above the alignment of the buffer. It is then
  aligned and free of the allocations used between the same nodes; otherwise it is an error that
  leaves the arena as it is (so for the alignment 128 in an arena aligned to 64).\<close>

theorem Allocate_succeeds:
  assumes "by_offset (active_allocs a)"
    and "list_all (\<lambda>x. hi x + unat al + unat n \<le> 2 ^ 64) (active_allocs a)" "unat al + unat n \<le> 2 ^ 64"
  shows "if al \<noteq> 0 \<and> al \<le> buf_alignment (underlying_buffer a)
    then \<exists>x a'. Allocate al n t p q a = (Inr x, a') \<and> a_size x = n \<and> unat (a_offset x) mod unat al = 0 \<and>
      free_at (lo x) (unat n) (filter (used_in p q) (active_allocs a))
    else Allocate al n t p q a = (Inl (Status TfLiteError), a)"
proof (cases "al \<noteq> 0 \<and> al \<le> buf_alignment (underlying_buffer a)")
  case True
  then obtain x a' where x: "Allocate al n t p q a = (Inr x, a')" using Allocate_some assms(2,3) by blast
  note run = Allocate_run[OF x assms(1)]
  have "unat (a_offset x) mod unat al = 0 \<and> free_at (lo x) (unat n) (filter (used_in p q) (active_allocs a))"
    using run by (cases "n = 0") (auto simp: free_at_def lo_def list_all_iff)
  then show ?thesis using True x run by auto
qed (auto simp: Allocate_def op_simps)

lemma Allocate_succeeds_witness:
  "if (32 :: 64 word) \<noteq> 0 \<and> 32 \<le> buf_alignment (underlying_buffer sample_arena)
    then \<exists>x a'. Allocate 32 1000 3 2 5 sample_arena = (Inr x, a') \<and> a_size x = 1000 \<and> unat (a_offset x) mod unat (32 :: 64 word) = 0 \<and>
      free_at (lo x) (unat (1000 :: 64 word)) (filter (used_in 2 5) (active_allocs sample_arena))
    else Allocate 32 1000 3 2 5 sample_arena = (Inl (Status TfLiteError), sample_arena)"
  by (rule Allocate_succeeds)
    (auto simp: sample_arena_def Allocate_def newArena_def op_simps ensureSome_def CheckedAlignTo_def CheckedAdd_def
      Let_def insertAlloc_def hi_def)

end
