(* ===== verification/Broadcast.thy ===== *)
theory Broadcast
  imports Windowed
begin

text \<open>
  Broadcasting at run time (\<open>util/bcast.h\<close>): from the shapes of N inputs \<open>BCastList\<close> computes
  whether they broadcast, the output shape, the shapes to which the inputs are reshaped and
  replicated with as few dimensions as possible, the dimensions the gradient of each input is
  summed over, and for every element of the output the element of each input it is computed
  from. Arrays of N vectors are lists of lists.
\<close>

section \<open>Batch indices\<close>

primrec copyLoop :: "int \<Rightarrow> int \<Rightarrow> int list \<Rightarrow> int list \<Rightarrow> int list res" where
  "copyLoop num_output incr [] out = Inr out"
| "copyLoop num_output incr (k # ks) out =
     bindR (vecAt out k) (\<lambda>x.
     bindR (add64 x incr) (\<lambda>y.
     bindR (writeAt out (num_output + k) y) (copyLoop num_output incr ks)))"

fun batchLoop :: "(int \<times> int) list \<Rightarrow> int list \<Rightarrow> int \<Rightarrow> int \<Rightarrow> int list res" where
  "batchLoop [] out num_output num_input = Inr out"
| "batchLoop ((r, b) # rest) out num_output num_input =
     (let d = max r b; incr = (if b > 1 then 0 else num_input) in
      bindR (mul64 (d - 1) num_output) (\<lambda>m.
      bindR (copyLoop num_output incr [0..m - 1] out) (\<lambda>out.
      bindR (mul64 num_output d) (\<lambda>num_output.
      bindR (mul64 num_input r) (batchLoop rest out num_output)))))"

definition ComputeBatchIndices :: "int \<Rightarrow> int list \<Rightarrow> int list \<Rightarrow> int list res" where
  "ComputeBatchIndices output_batch_size reshape bcasts =
     batchLoop (rev (zip reshape bcasts)) (replicate (nat output_batch_size) 0) 1 1"

section \<open>The constructor\<close>

record bcast_list =
  bc_valid :: bool
  bc_required :: bool
  bc_reshape :: "int list list"
  bc_bcast :: "int list list"
  bc_result :: "int list"
  bc_output :: "int list"
  bc_grad_reduce_idx :: "int list list"
  bc_output_batch_size :: int
  bc_batch_indices :: "int list list"

definition mul_dims :: "int \<Rightarrow> int \<Rightarrow> int res" where
  "mul_dims dim1 dim2 = (if dim1 \<noteq> 0 \<and> dim2 \<noteq> 0 \<and> (dim1 < 0 \<or> dim2 < 0) then Inr (- 1) else mul64 dim1 dim2)"

primrec mulDimsAll :: "int \<Rightarrow> int list \<Rightarrow> int res" where
  "mulDimsAll n [] = Inr n"
| "mulDimsAll n (d # ds) = bindR (mul_dims n d) (\<lambda>n. mulDimsAll n ds)"

text \<open>One dimension of all inputs: which of them are 1, and the size of the others, when they have
  one; \<open>None\<close> when they differ.\<close>

fun scanColumn :: "int list \<Rightarrow> bool \<Rightarrow> int \<Rightarrow> (bool list \<times> bool \<times> int) option" where
  "scanColumn [] output_dim_set output_dim = Some ([], output_dim_set, output_dim)"
| "scanColumn (c # cs) output_dim_set output_dim =
    (if c = 1 then map_option (\<lambda>(ones, s). (True # ones, s)) (scanColumn cs output_dim_set output_dim)
     else if \<not> output_dim_set \<or> c = output_dim then
       map_option (\<lambda>(ones, s). (False # ones, s)) (scanColumn cs True c)
     else None)"

definition pushAll :: "int list list \<Rightarrow> int list \<Rightarrow> int list list" where
  "pushAll vs xs = map2 (\<lambda>v x. v @ [x]) vs xs"

text \<open>\<open>v.back() = mul_dims(v.back(), x)\<close>\<close>

definition mulBack :: "int list \<Rightarrow> int \<Rightarrow> int list res" where
  "mulBack v x = bindR (mul_dims (last v) x) (\<lambda>y. Inr (butlast v @ [y]))"

definition mulBackAll :: "int list list \<Rightarrow> int list \<Rightarrow> int list list res" where
  "mulBackAll vs xs = mapR (\<lambda>(v, x). mulBack v x) (zip vs xs)"

text \<open>The body of the loop over the dimensions, from the innermost; \<open>prev_is_one\<close> and \<open>set_one\<close> carry
  what the last dimension that was not 1 everywhere looked like.\<close>

definition stepColumn ::
    "bool \<Rightarrow> int \<Rightarrow> int list \<Rightarrow> bool list \<Rightarrow> bool \<Rightarrow> int \<Rightarrow> bcast_list \<times> bool list \<times> bool \<Rightarrow>
     (bcast_list \<times> bool list \<times> bool) res" where
  "stepColumn fewer_dims reduce_idx column current_is_one output_dim_set output_dim = (\<lambda>(st, prev_is_one, set_one).
     let out = (if output_dim_set then output_dim else 1); none_is_one = (True \<notin> set current_is_one) in
     bindR (mul_dims (bc_output_batch_size st) out) (\<lambda>n.
     let st = st\<lparr>bc_output := bc_output st @ [out], bc_output_batch_size := n\<rparr> in
     if \<not> output_dim_set then
       let ones = map (\<lambda>_. 1) column;
           st = (if \<not> fewer_dims then st\<lparr>bc_bcast := pushAll (bc_bcast st) ones,
               bc_reshape := pushAll (bc_reshape st) ones, bc_result := bc_result st @ [1]\<rparr> else st)
       in Inr (st\<lparr>bc_grad_reduce_idx := map (\<lambda>g. g @ [reduce_idx]) (bc_grad_reduce_idx st)\<rparr>, prev_is_one, set_one)
     else
       let copies = map (\<lambda>one. if one then output_dim else 1) current_is_one;
           grads = map2 (\<lambda>g one. if one \<and> \<not> none_is_one then g @ [reduce_idx] else g) (bc_grad_reduce_idx st) current_is_one
       in if fewer_dims \<and> current_is_one = prev_is_one \<and> set_one then
            bindR (mulBack (bc_result st) output_dim) (\<lambda>result.
            bindR (mulBackAll (bc_reshape st) column) (\<lambda>reshapes.
            bindR (mulBackAll (bc_bcast st) copies) (\<lambda>bcasts.
            Inr (st\<lparr>bc_result := result, bc_reshape := reshapes, bc_bcast := bcasts, bc_grad_reduce_idx := grads\<rparr>,
              current_is_one, True))))
          else
            Inr (st\<lparr>bc_result := bc_result st @ [output_dim], bc_reshape := pushAll (bc_reshape st) column,
              bc_bcast := pushAll (bc_bcast st) copies, bc_grad_reduce_idx := grads\<rparr>, current_is_one, True)))"

fun columnLoop ::
    "bool \<Rightarrow> int \<Rightarrow> int list list \<Rightarrow> bcast_list \<times> bool list \<times> bool \<Rightarrow> bcast_list res" where
  "columnLoop fewer_dims reduce_idx [] (st, _) = Inr st"
| "columnLoop fewer_dims reduce_idx (column # columns) (st, prev) =
    (case scanColumn column False (- 1) of
       None \<Rightarrow> Inr (st\<lparr>bc_valid := False\<rparr>)
     | Some (ones, output_dim_set, output_dim) \<Rightarrow>
         bindR (stepColumn fewer_dims reduce_idx column ones output_dim_set output_dim (st, prev))
           (columnLoop fewer_dims (reduce_idx - 1) columns))"

definition finishBCast :: "bool \<Rightarrow> bcast_list \<Rightarrow> bcast_list res" where
  "finishBCast return_flattened_batch_indices st =
    (let ones = map (\<lambda>_. 1) (bc_reshape st);
         st = (if bc_result st = [] then st\<lparr>bc_result := [1], bc_reshape := pushAll (bc_reshape st) ones,
             bc_bcast := pushAll (bc_bcast st) ones\<rparr> else st);
         st = st\<lparr>bc_reshape := map rev (bc_reshape st), bc_bcast := map rev (bc_bcast st),
           bc_grad_reduce_idx := map rev (bc_grad_reduce_idx st), bc_result := rev (bc_result st),
           bc_output := rev (bc_output st)\<rparr>
     in if return_flattened_batch_indices \<and> bc_required st \<and> bc_output_batch_size st > 0 then
          bindR (mapR (\<lambda>(r, b). ComputeBatchIndices (bc_output_batch_size st) r b) (zip (bc_reshape st) (bc_bcast st)))
            (\<lambda>indices. Inr (st\<lparr>bc_batch_indices := indices\<rparr>))
        else Inr st)"

definition newBCastList :: "int list list \<Rightarrow> bool \<Rightarrow> bcast_list" where
  "newBCastList xs required = \<lparr>bc_valid = True, bc_required = required, bc_reshape = map (\<lambda>_. []) xs,
     bc_bcast = map (\<lambda>_. []) xs, bc_result = [], bc_output = [], bc_grad_reduce_idx = map (\<lambda>_. []) xs,
     bc_output_batch_size = 1, bc_batch_indices = map (\<lambda>_. []) xs\<rparr>"

definition BCastList :: "int list list \<Rightarrow> bool \<Rightarrow> bool \<Rightarrow> bcast_list res" where
  "BCastList xs fewer_dims return_flattened_batch_indices =
    (let all_equal = list_all (\<lambda>x. x = hd xs) xs;
         largest_rank = fold max (map length xs) 0;
         st = newBCastList xs (\<not> all_equal)
     in if all_equal \<and> fewer_dims then
          bindR (mulDimsAll 1 (hd xs)) (\<lambda>elements.
          Inr (st\<lparr>bc_output := hd xs, bc_result := [elements], bc_output_batch_size := elements,
            bc_reshape := map (\<lambda>_. [elements]) xs, bc_bcast := map (\<lambda>_. [1]) xs\<rparr>))
        else
          let copies = map (\<lambda>x. rev x @ replicate (largest_rank - length x) 1) xs;
              columns = map (\<lambda>j. map (\<lambda>c. c ! j) copies) [0..<largest_rank]
          in bindR (columnLoop fewer_dims (int largest_rank - 1) columns (st, map (\<lambda>_. False) xs, False)) (\<lambda>st.
             if bc_valid st then finishBCast return_flattened_batch_indices st else Inr st))"

definition BCast :: "int list \<Rightarrow> int list \<Rightarrow> bool \<Rightarrow> bool \<Rightarrow> bcast_list res" where
  "BCast x y = BCastList [x, y]"

end
