(* ===== verification/BroadcastSound.thy ===== *)
theory BroadcastSound
  imports Broadcast BasicSound TensorShapeRep
begin

text \<open>
  Broadcasting at run time follows the rule that shape inference uses, and joining neighbouring
  dimensions does not change which element of an input an element of the output is computed
  from. Lists of dimensions are innermost first here, as in the loop of the code.
\<close>

section \<open>Positions of elements\<close>

text \<open>Element \<open>n\<close> of the output as the element of an input, over the pairs of a size of the input and
  a size of the output: the index in each dimension times the number of elements below it. In a
  dimension of size 1 the index is 0.\<close>

fun bidx :: "(int \<times> int) list \<Rightarrow> int \<Rightarrow> int \<Rightarrow> int" where
  "bidx [] s n = 0"
| "bidx ((x, z) # r) s n = (n mod x) * s + bidx r (s * x) (n div z)"

lemma bidx_append:
  assumes "list_all (\<lambda>(x, z). 0 \<le> z) xs"
  shows "bidx (xs @ ys) s n = bidx xs s n + bidx ys (s * prod_list (map fst xs)) (n div prod_list (map snd xs))"
  using assms
proof (induction xs arbitrary: s n)
  case (Cons p xs)
  have "0 \<le> prod_list (map snd xs)" using Cons.prems by (intro prod_list_nonneg) (auto simp: list_all_iff)
  then have "n div snd p div prod_list (map snd xs) = n div (snd p * prod_list (map snd xs))"
    by (simp add: zdiv_zmult2_eq)
  then show ?case using Cons by (cases p) (simp add: mult.assoc)
qed simp

text \<open>The same with multi-indices.\<close>

fun unravel :: "int list \<Rightarrow> int \<Rightarrow> int list" where
  "unravel [] n = []"
| "unravel (d # ds) n = (n mod d) # unravel ds (n div d)"

fun ravel :: "int list \<Rightarrow> int list \<Rightarrow> int" where
  "ravel (d # ds) (i # is) = i + d * ravel ds is"
| "ravel _ _ = 0"

lemma bidx_ravel:
  "length xs = length zs \<Longrightarrow> list_all2 (\<lambda>x z. x = 1 \<or> x = z) xs zs \<Longrightarrow>
   bidx (zip xs zs) s n = s * ravel xs (map2 (\<lambda>x i. if x = 1 then 0 else i) xs (unravel zs n))"
proof (induction xs zs arbitrary: s n rule: list_induct2)
  case (Cons x xs z zs)
  then show ?case by (auto simp: algebra_simps)
qed simp

section \<open>Joining dimensions\<close>

definition grouped :: "(int \<times> int) list \<Rightarrow> int list \<Rightarrow> int list \<Rightarrow> bool" where
  "grouped cols R B \<longleftrightarrow> length R = length B \<and> list_all (\<lambda>(x, z). 0 \<le> x \<and> 0 \<le> z) cols \<and>
    (\<forall>s n. bidx (zip R (map2 (*) R B)) s n = bidx cols s n) \<and>
    prod_list R = prod_list (map fst cols) \<and> prod_list (map2 (*) R B) = prod_list (map snd cols) \<and>
    list_all (\<lambda>(r, b). 0 \<le> r \<and> 0 \<le> b \<and> (r = 1 \<or> b = 1)) (zip R B)"

lemma grouped_Nil: "grouped [] [] []"
  by (simp add: grouped_def)

lemma zip_sizes_nonneg:
  "length R = length B \<Longrightarrow> list_all (\<lambda>(r, b). 0 \<le> r \<and> 0 \<le> b \<and> (r = 1 \<or> b = 1)) (zip R B) \<Longrightarrow>
   list_all (\<lambda>(x, z). 0 \<le> (z :: int)) (zip R (map2 (*) R B))"
  by (induction R B rule: list_induct2) auto

lemma grouped_push:
  assumes g: "grouped cols R B" and x: "0 \<le> x" "0 \<le> b" "x = 1 \<or> b = 1"
  shows "grouped (cols @ [(x, x * b)]) (R @ [x]) (B @ [b])"
proof -
  have l: "length R = length B" using g by (simp add: grouped_def)
  let ?Z = "zip R (map2 (*) R B)"
  have z: "zip (R @ [x]) (map2 (*) (R @ [x]) (B @ [b])) = ?Z @ [(x, x * b)]" using l by simp
  have n: "list_all (\<lambda>(x, z). 0 \<le> z) ?Z" "list_all (\<lambda>(x, z). 0 \<le> z) cols"
    using g zip_sizes_nonneg[OF l] by (auto simp: grouped_def list_all_iff)
  have f: "map fst ?Z = R" "map snd ?Z = map2 (*) R B" using l by simp_all
  have "bidx (?Z @ [(x, x * b)]) s k = bidx (cols @ [(x, x * b)]) s k" for s k
    unfolding bidx_append[OF n(1)] bidx_append[OF n(2)] f using g by (simp add: grouped_def)
  then show ?thesis using g x l unfolding grouped_def z by auto
qed

lemma grouped_ones:
  assumes "grouped cols R B"
  shows "grouped (cols @ [(1, 1)]) R B"
proof -
  have "list_all (\<lambda>(x, z). 0 \<le> z) cols" using assms by (auto simp: grouped_def list_all_iff)
  then have "bidx (cols @ [(1, 1)]) s k = bidx cols s k" for s k by (simp add: bidx_append)
  then show ?thesis using assms by (simp add: grouped_def)
qed

lemma bidx_join:
  assumes "r = 1 \<and> x = 1 \<or> b = 1 \<and> y = 1" "0 \<le> (x :: int)"
  shows "bidx [(r * x, r * x * (b * y))] s n = bidx [(r, r * b), (x, x * y)] s n"
proof -
  have "n mod (r * x) = n mod r + r * (n div r mod x)" using assms(2) by (simp add: zmod_zmult2_eq)
  then show ?thesis using assms(1) by (auto simp: algebra_simps)
qed

lemma grouped_merge:
  assumes g: "grouped cols (R @ [r]) (B @ [b])" and x: "0 \<le> x" "0 \<le> y" "r = 1 \<and> x = 1 \<or> b = 1 \<and> y = 1"
  shows "grouped (cols @ [(x, x * y)]) (R @ [r * x]) (B @ [b * y])"
proof -
  have l: "length R = length B" using g by (simp add: grouped_def)
  let ?Z = "zip R (map2 (*) R B)"
  have z: "zip (R @ [q]) (map2 (*) (R @ [q]) (B @ [c])) = ?Z @ [(q, q * c)]" for q c using l by simp
  have n: "list_all (\<lambda>(x, z). 0 \<le> z) (?Z @ [(r, r * b)])" "list_all (\<lambda>(x, z). 0 \<le> z) cols"
    using g zip_sizes_nonneg[of "R @ [r]" "B @ [b]"] unfolding z by (auto simp: grouped_def list_all_iff)
  have nZ: "list_all (\<lambda>(x, z). 0 \<le> z) ?Z" using n(1) by simp
  have p: "prod_list (map fst (?Z @ [(r, r * b)])) = prod_list (map fst cols)"
      "prod_list (map snd (?Z @ [(r, r * b)])) = prod_list (map snd cols)"
    using g l by (simp_all add: grouped_def)
  have "bidx (?Z @ [(r * x, r * x * (b * y))]) s k = bidx (cols @ [(x, x * y)]) s k" for s k
  proof -
    have "bidx (?Z @ [(r * x, r * x * (b * y))]) s k = bidx (?Z @ [(r, r * b), (x, x * y)]) s k"
      unfolding bidx_append[OF nZ] bidx_join[OF x(3,1)] ..
    also have "\<dots> = bidx ((?Z @ [(r, r * b)]) @ [(x, x * y)]) s k" by simp
    also have "\<dots> = bidx (cols @ [(x, x * y)]) s k"
      unfolding bidx_append[OF n(1)] bidx_append[OF n(2)] p using g by (simp add: grouped_def z)
    finally show ?thesis .
  qed
  then have i: "\<forall>s k. bidx (?Z @ [(r * x, r * x * (b * y))]) s k = bidx (cols @ [(x, x * y)]) s k" by blast
  have e: "prod_list R * (r * x) = prod_list (map fst cols) * x"
      "prod_list (map2 (*) R B) * (r * x * (b * y)) = prod_list (map snd cols) * (x * y)"
    using p l by (simp_all add: ac_simps)
  show ?thesis using g x l i e unfolding grouped_def z by auto
qed

section \<open>One dimension of the inputs\<close>

definition outDim :: "int list \<Rightarrow> int" where
  "outDim col = (case filter (\<lambda>c. c \<noteq> 1) col of [] \<Rightarrow> 1 | d # _ \<Rightarrow> d)"

definition okCol :: "int list \<Rightarrow> bool" where
  "okCol col \<longleftrightarrow> list_all (\<lambda>c. c = 1 \<or> c = outDim col) col"

lemma scanColumn_set:
  "scanColumn cs True d = (if list_all (\<lambda>c. c = 1 \<or> c = d) cs then Some (map (\<lambda>c. c = 1) cs, True, d) else None)"
  by (induction cs) auto

lemma scanColumn_eq:
  "scanColumn col False e = (if okCol col
     then Some (map (\<lambda>c. c = 1) col, filter (\<lambda>c. c \<noteq> 1) col \<noteq> [], if filter (\<lambda>c. c \<noteq> 1) col = [] then e else outDim col)
     else None)"
proof (induction col)
  case (Cons c cs)
  show ?case
  proof (cases "c = 1")
    case True
    then have "outDim (c # cs) = outDim cs" "okCol (c # cs) = okCol cs" by (simp_all add: outDim_def okCol_def)
    then show ?thesis using Cons True by simp
  next
    case False
    then have "outDim (c # cs) = c" by (simp add: outDim_def)
    then show ?thesis using False by (simp add: scanColumn_set okCol_def)
  qed
qed (simp add: okCol_def)

section \<open>Products that do not overflow\<close>

text \<open>Sizes multiplied with 0 counted as 1: a bound of the product of any part of the list.\<close>

definition sizeBound :: "int list \<Rightarrow> int" where
  "sizeBound ds = prod_list (map (max 1) ds)"

lemma sizeBound_simps [simp]:
  "sizeBound [] = 1" "sizeBound (d # ds) = max 1 d * sizeBound ds" "sizeBound (ds @ es) = sizeBound ds * sizeBound es"
  by (simp_all add: sizeBound_def)

lemma sizeBound_pos: "1 \<le> sizeBound ds"
proof (induction ds)
  case (Cons d ds)
  then show ?case using mult_mono[of 1 "max 1 d" 1 "sizeBound ds"] by simp
qed simp

lemma mult_le_sizeBound:
  assumes "0 \<le> (r :: int)" "0 \<le> (x :: int)" "x \<le> max 1 d"
  shows "r * x \<le> sizeBound (R @ [r]) * max 1 d"
proof -
  have "r \<le> sizeBound R * max 1 r" using mult_mono[of 1 "sizeBound R" r "max 1 r"] sizeBound_pos[of R] assms(1) by simp
  then show ?thesis using mult_mono[of r "sizeBound R * max 1 r" x "max 1 d"] assms by simp
qed

lemma prod_le_sizeBound:
  "list_all (\<lambda>d. 0 \<le> d) ds \<Longrightarrow> 0 \<le> prod_list ds \<and> prod_list ds \<le> sizeBound ds"
proof (induction ds)
  case (Cons d ds)
  then show ?case using mult_mono[of d "max 1 d" "prod_list ds" "sizeBound ds"] by auto
qed simp

lemma mul_dims_eq: "0 \<le> a \<Longrightarrow> 0 \<le> b \<Longrightarrow> a * b \<le> int64_max \<Longrightarrow> mul_dims a b = Inr (a * b)"
proof -
  assume "0 \<le> a" "0 \<le> b" "a * b \<le> int64_max"
  moreover from this have "- 9223372036854775808 \<le> a * b" by (intro order_trans[OF _ mult_nonneg_nonneg]) simp_all
  ultimately show ?thesis by (auto simp: mul_dims_def mul64_def signed64_def in_int64_def)
qed

lemma sizeBound_pair:
  "length R = length B \<Longrightarrow> list_all (\<lambda>(r, b). 0 \<le> r \<and> 0 \<le> b \<and> (r = 1 \<or> b = 1)) (zip R B) \<Longrightarrow>
   sizeBound R \<le> sizeBound (map2 (*) R B) \<and> sizeBound B \<le> sizeBound (map2 (*) R B)"
proof (induction R B rule: list_induct2)
  case (Cons r R b B)
  have "max 1 r \<le> max 1 (r * b)" "max 1 b \<le> max 1 (r * b)" using Cons.prems by auto
  then show ?case
    using Cons mult_mono[of "max 1 r" "max 1 (r * b)" "sizeBound R" "sizeBound (map2 (*) R B)"]
      mult_mono[of "max 1 b" "max 1 (r * b)" "sizeBound B" "sizeBound (map2 (*) R B)"]
      sizeBound_pos[of R] sizeBound_pos[of B] by simp
qed simp

section \<open>The state between two dimensions\<close>

definition inputDims :: "int list list \<Rightarrow> nat \<Rightarrow> (int \<times> int) list" where
  "inputDims C i = map (\<lambda>col. (col ! i, outDim col)) C"

text \<open>What the loop has established of one input after the dimensions \<open>C\<close>.\<close>

definition inputInv :: "bool \<Rightarrow> int list list \<Rightarrow> nat \<Rightarrow> int list \<Rightarrow> int list \<Rightarrow> int list \<Rightarrow> bool \<Rightarrow> bool \<Rightarrow> bool" where
  "inputInv fewer C i R B result prev_one set_one \<longleftrightarrow> grouped (inputDims C i) R B \<and> result = map2 (*) R B \<and>
    (set_one \<longrightarrow> R \<noteq> [] \<and> (if prev_one then List.last R = 1 else List.last B = 1)) \<and>
    (fewer \<or> R = map fst (inputDims C i) \<and> result = map outDim C)"

definition loopInv :: "bool \<Rightarrow> nat \<Rightarrow> int list list \<Rightarrow> bcast_list \<times> bool list \<times> bool \<Rightarrow> bool" where
  "loopInv fewer N C = (\<lambda>(st, prev_is_one, set_one). bc_valid st \<and> bc_output st = map outDim C \<and>
    bc_output_batch_size st = prod_list (map outDim C) \<and> sizeBound (bc_result st) \<le> sizeBound (map outDim C) \<and>
    length (bc_result st) \<le> length C \<and> length (bc_reshape st) = N \<and> length (bc_bcast st) = N \<and> length (bc_grad_reduce_idx st) = N \<and> length prev_is_one = N \<and>
    (\<forall>i<N. inputInv fewer C i (bc_reshape st ! i) (bc_bcast st ! i) (bc_result st) (prev_is_one ! i) set_one))"

text \<open>A dimension in which every input is 1 is skipped, or kept as a dimension of size 1.\<close>

lemma outDim_ones: "filter (\<lambda>c. c \<noteq> 1) col = [] \<Longrightarrow> outDim col = 1"
  by (simp add: outDim_def)

lemma filter_ones_nth: "filter (\<lambda>c. c \<noteq> (1 :: int)) col = [] \<Longrightarrow> i < length col \<Longrightarrow> col ! i = 1"
  by (auto simp: filter_empty_conv)

lemma inputDims_snoc [simp]: "inputDims (C @ [col]) i = inputDims C i @ [(col ! i, outDim col)]"
  by (simp add: inputDims_def)

lemma okCol_nth: "okCol col \<Longrightarrow> i < length col \<Longrightarrow> col ! i = 1 \<or> col ! i = outDim col"
  by (auto simp: okCol_def list_all_length)

lemma outDim_nonneg: "list_all (\<lambda>c. 0 \<le> c) col \<Longrightarrow> 0 \<le> outDim col"
  by (induction col) (auto simp: outDim_def)

lemma inputInv_push:
  assumes i: "inputInv fewer C i R B result p q" and c: "okCol col" "list_all (\<lambda>c. 0 \<le> c) col" "i < length col"
  shows "inputInv fewer (C @ [col]) i (R @ [col ! i]) (B @ [if col ! i = 1 then outDim col else 1])
    (result @ [outDim col]) (col ! i = 1) True"
proof -
  let ?b = "if col ! i = 1 then outDim col else 1"
  have e: "outDim col = col ! i * ?b" using okCol_nth[OF c(1,3)] by auto
  have n: "0 \<le> col ! i" using c(2,3) by (auto simp: list_all_length)
  have "grouped (inputDims C i @ [(col ! i, col ! i * ?b)]) (R @ [col ! i]) (B @ [?b])"
    using i n outDim_nonneg[OF c(2)] by (intro grouped_push) (auto simp: inputInv_def)
  moreover have "length R = length B" using i by (simp add: inputInv_def grouped_def)
  ultimately show ?thesis using i e unfolding inputInv_def inputDims_snoc by auto
qed

lemma inputInv_join:
  assumes i: "inputInv fewer C i R B result (col ! i = 1) True" and c: "okCol col" "list_all (\<lambda>c. 0 \<le> c) col" "i < length col"
    and f: "fewer"
  shows "inputInv fewer (C @ [col]) i (butlast R @ [List.last R * col ! i])
    (butlast B @ [List.last B * (if col ! i = 1 then outDim col else 1)])
    (butlast result @ [List.last result * outDim col]) (col ! i = 1) True"
proof -
  let ?b = "if col ! i = 1 then outDim col else 1"
  have e: "outDim col = col ! i * ?b" using okCol_nth[OF c(1,3)] by auto
  have n: "0 \<le> col ! i" "0 \<le> ?b" using c outDim_nonneg[OF c(2)] by (auto simp: list_all_length)
  have g: "grouped (inputDims C i) R B" and R: "R \<noteq> []" and l: "length R = length B"
    using i by (auto simp: inputInv_def grouped_def)
  obtain R' r where R: "R = R' @ [r]" using R by (cases R rule: rev_cases) auto
  obtain B' b where B: "B = B' @ [b]" using R l by (cases B rule: rev_cases) auto
  have l': "length R' = length B'" using l R B by simp
  have one: "r = 1 \<and> col ! i = 1 \<or> b = 1 \<and> ?b = 1" using i R B by (auto simp: inputInv_def split: if_splits)
  have "grouped (inputDims C i @ [(col ! i, col ! i * ?b)]) (R' @ [r * col ! i]) (B' @ [b * ?b])"
    using grouped_merge[OF g[unfolded R B] n one] .
  moreover have "result = map2 (*) R' B' @ [r * b]" using i R B l' by (simp add: inputInv_def)
  ultimately show ?thesis using i f one e R B l' unfolding inputInv_def inputDims_snoc by auto
qed

lemma inputInv_ones:
  assumes i: "inputInv True C i R B result p q" and c: "filter (\<lambda>c. c \<noteq> 1) col = []" "i < length col"
  shows "inputInv True (C @ [col]) i R B result p q"
  using i grouped_ones[of "inputDims C i" R B] filter_ones_nth[OF c] outDim_ones[OF c(1)] by (auto simp: inputInv_def)

lemma inputInv_keep_one:
  assumes i: "inputInv fewer C i R B result p q" and c: "filter (\<lambda>c. c \<noteq> 1) col = []" "i < length col"
  shows "inputInv fewer (C @ [col]) i (R @ [1]) (B @ [1]) (result @ [1]) p q"
proof -
  have "grouped (inputDims C i @ [(1, 1 * 1)]) (R @ [1]) (B @ [1])"
    using i by (intro grouped_push) (auto simp: inputInv_def)
  moreover have "length R = length B" using i by (simp add: inputInv_def grouped_def)
  ultimately show ?thesis using i filter_ones_nth[OF c] outDim_ones[OF c(1)] by (auto simp: inputInv_def)
qed

section \<open>One dimension\<close>

lemma nth_pushAll [simp]: "i < length vs \<Longrightarrow> length xs = length vs \<Longrightarrow> pushAll vs xs ! i = vs ! i @ [xs ! i]"
  "length xs = length vs \<Longrightarrow> length (pushAll vs xs) = length vs"
  by (simp_all add: pushAll_def)

lemma mulBack_eq:
  "0 \<le> List.last v \<Longrightarrow> 0 \<le> x \<Longrightarrow> List.last v * x \<le> int64_max \<Longrightarrow> mulBack v x = Inr (butlast v @ [List.last v * x])"
  by (simp add: mulBack_def mul_dims_eq)

lemma mulBackAll_eq:
  assumes "length xs = length vs"
    and "\<And>i. i < length vs \<Longrightarrow> 0 \<le> List.last (vs ! i) \<and> 0 \<le> xs ! i \<and> List.last (vs ! i) * xs ! i \<le> int64_max"
  shows "mulBackAll vs xs = Inr (map (\<lambda>(v, x). butlast v @ [List.last v * x]) (zip vs xs))"
  unfolding mulBackAll_def using assms by (intro mapR_Inr) (auto simp: set_zip mulBack_eq)

text \<open>The factors of a joined dimension stay in range, because they divide sizes of the output.\<close>

lemma inputInv_last:
  assumes i: "inputInv fewer C i R B result p True" and c: "okCol col" "list_all (\<lambda>c. 0 \<le> c) col" "i < length col"
    and b: "sizeBound result \<le> P" "P * max 1 (outDim col) \<le> int64_max"
  shows "0 \<le> List.last R \<and> List.last R * col ! i \<le> int64_max \<and> 0 \<le> List.last B \<and>
    List.last B * (if col ! i = 1 then outDim col else 1) \<le> int64_max \<and> 0 \<le> List.last result \<and>
    List.last result * outDim col \<le> int64_max \<and> result \<noteq> []"
proof -
  have g: "grouped (inputDims C i) R B" and R: "R \<noteq> []" and l: "length R = length B" and res: "result = map2 (*) R B"
    using i by (auto simp: inputInv_def grouped_def)
  obtain R' r where R: "R = R' @ [r]" using R by (cases R rule: rev_cases) auto
  obtain B' b where B: "B = B' @ [b]" using R l by (cases B rule: rev_cases) auto
  have l': "length R' = length B'" using l R B by simp
  have z: "result = map2 (*) R' B' @ [r * b]" using res R B l' by simp
  have nn: "0 \<le> r" "0 \<le> b" using g R B l' by (auto simp: grouped_def)
  have s: "sizeBound R \<le> sizeBound result" "sizeBound B \<le> sizeBound result"
    using sizeBound_pair[OF l] g by (auto simp: grouped_def res)
  have lim: "x * y \<le> int64_max" if "x * y \<le> sizeBound v * max 1 (outDim col)" "sizeBound v \<le> sizeBound result" for x y v
  proof -
    have "sizeBound v * max 1 (outDim col) \<le> P * max 1 (outDim col)"
      using that(2) b(1) by (intro mult_right_mono) auto
    then show ?thesis using that(1) b(2) by linarith
  qed
  have o: "0 \<le> outDim col" "0 \<le> col ! i" "col ! i \<le> max 1 (outDim col)" "(if col ! i = 1 then outDim col else 1) \<le> max 1 (outDim col)"
    using c okCol_nth[OF c(1,3)] outDim_nonneg[OF c(2)] by (auto simp: list_all_length)
  have "r * col ! i \<le> int64_max"
    by (rule lim[OF _ s(1)], unfold R, rule mult_le_sizeBound) (use nn o in auto)
  moreover have "b * (if col ! i = 1 then outDim col else 1) \<le> int64_max"
    by (rule lim[OF _ s(2)], unfold B, rule mult_le_sizeBound) (use nn o in auto)
  moreover have "r * b * outDim col \<le> int64_max"
    by (rule lim[OF _ order_refl], unfold z, rule mult_le_sizeBound) (use nn o in auto)
  ultimately show ?thesis using R B z nn by simp
qed

lemma sizeBound_join:
  assumes "v \<noteq> []" "0 \<le> List.last v" "0 \<le> d" "sizeBound v \<le> P"
  shows "sizeBound (butlast v @ [List.last v * d]) \<le> P * max 1 d"
proof -
  obtain u x where v: "v = u @ [x]" using assms(1) by (cases v rule: rev_cases) auto
  have "max 1 (x * d) \<le> max 1 x * max 1 d"
    using assms(2,3) mult_mono[of x "max 1 x" d "max 1 d"] mult_mono[of 1 "max 1 x" 1 "max 1 d"] by auto
  then have "sizeBound (butlast v @ [List.last v * d]) \<le> sizeBound v * max 1 d"
    using mult_left_mono[of "max 1 (x * d)" "max 1 x * max 1 d" "sizeBound u"] sizeBound_pos[of u] by (simp add: v mult.assoc)
  also have "\<dots> \<le> P * max 1 d" using assms(4) by (intro mult_right_mono) auto
  finally show ?thesis .
qed

text \<open>The dimensions, counted from the outermost, that are summed over for the gradient of an input.\<close>

definition gradients :: "int \<Rightarrow> int list list \<Rightarrow> nat \<Rightarrow> int list" where
  "gradients m C i = map (\<lambda>j. m - int j) (filter (\<lambda>j. C ! j ! i = 1) [0..<length C])"

lemma gradients_snoc:
  "gradients m (C @ [col]) i = gradients m C i @ (if col ! i = 1 then [m - int (length C)] else [])"
proof -
  have "filter (\<lambda>j. (C @ [col]) ! j ! i = 1) [0..<length C] = filter (\<lambda>j. C ! j ! i = 1) [0..<length C]"
    by (rule filter_cong) (auto simp: nth_append)
  then show ?thesis by (simp add: gradients_def)
qed

definition gradInv :: "nat \<Rightarrow> int \<Rightarrow> int list list \<Rightarrow> bcast_list \<Rightarrow> bool" where
  "gradInv N m C st \<longleftrightarrow> (\<forall>i<N. bc_grad_reduce_idx st ! i = gradients m C i)"

text \<open>The state before a dimension that the inputs accept, and the state after one that is not 1 in
  every input.\<close>

definition stepReady ::
    "bool \<Rightarrow> nat \<Rightarrow> int \<Rightarrow> int list list \<Rightarrow> int list \<Rightarrow> bcast_list \<times> bool list \<times> bool \<Rightarrow> bool" where
  "stepReady fewer N m C col s \<longleftrightarrow> loopInv fewer N C s \<and> gradInv N m C (fst s) \<and> 0 < N \<and>
    okCol col \<and> list_all (\<lambda>c. 0 \<le> c) col \<and> length col = N \<and>
    sizeBound (map outDim (C @ [col])) \<le> int64_max \<and> list_all (\<lambda>c. 0 \<le> c) (map outDim C)"

abbreviation onesOf :: "int list \<Rightarrow> bool list" where "onesOf col \<equiv> map (\<lambda>c. c = 1) col"

abbreviation copiesOf :: "int list \<Rightarrow> int list" where
  "copiesOf col \<equiv> map (\<lambda>one. if one then outDim col else 1) (onesOf col)"

definition nextState ::
    "int \<Rightarrow> int list list \<Rightarrow> int list \<Rightarrow> bcast_list \<Rightarrow> int list \<Rightarrow> int list list \<Rightarrow> int list list \<Rightarrow> bcast_list" where
  "nextState m C col st result reshapes bcasts =
    st\<lparr>bc_output := map outDim (C @ [col]), bc_output_batch_size := prod_list (map outDim (C @ [col])),
      bc_result := result, bc_reshape := reshapes, bc_bcast := bcasts,
      bc_grad_reduce_idx := map2 (\<lambda>g one. if one \<and> True \<in> set (onesOf col) then g @ [m - int (length C)] else g)
        (bc_grad_reduce_idx st) (onesOf col)\<rparr>"

lemma stepReady_facts:
  assumes "stepReady fewer N m C col (st, prev, q)"
  shows "mul_dims (bc_output_batch_size st) (outDim col) = Inr (prod_list (map outDim (C @ [col])))"
    and "sizeBound (map outDim C) * max 1 (outDim col) \<le> int64_max" "0 \<le> outDim col"
proof -
  show lim: "sizeBound (map outDim C) * max 1 (outDim col) \<le> int64_max" and out: "0 \<le> outDim col"
    using assms outDim_nonneg[of col] by (auto simp: stepReady_def)
  have nn: "list_all (\<lambda>c. 0 \<le> c) (map outDim C)" using assms by (simp add: stepReady_def)
  have "prod_list (map outDim C) * outDim col \<le> sizeBound (map outDim C) * max 1 (outDim col)"
    using prod_le_sizeBound[OF nn] out by (intro mult_mono) auto
  then have "prod_list (map outDim C) * outDim col \<le> int64_max" using lim by linarith
  then show "mul_dims (bc_output_batch_size st) (outDim col) = Inr (prod_list (map outDim (C @ [col])))"
    using mul_dims_eq[OF _ out] prod_le_sizeBound[OF nn] assms by (simp add: stepReady_def loopInv_def)
qed

lemma nextState_sound:
  assumes r: "stepReady fewer N m C col (st, prev, q)" and l: "length reshapes = N" "length bcasts = N"
    and i: "\<And>k. k < N \<Longrightarrow> inputInv fewer (C @ [col]) k (reshapes ! k) (bcasts ! k) result (col ! k = 1) True"
    and b: "sizeBound result \<le> sizeBound (map outDim (C @ [col]))" "length result \<le> length (C @ [col])"
  defines "t \<equiv> nextState m C col st result reshapes bcasts"
  shows "loopInv fewer N (C @ [col]) (t, onesOf col, True) \<and> gradInv N m (C @ [col]) t \<and>
    bc_required t = bc_required st \<and> bc_batch_indices t = bc_batch_indices st"
proof -
  have L: "length col = N" "length (bc_grad_reduce_idx st) = N" "bc_valid st" "gradInv N m C st"
    using r by (auto simp: stepReady_def loopInv_def)
  have "bc_grad_reduce_idx t ! k = gradients m (C @ [col]) k" if "k < N" for k
  proof -
    have "col ! k = 1 \<longrightarrow> 1 \<in> set col" using that L(1) nth_mem[of k col] by metis
    then show ?thesis using that L by (auto simp: t_def nextState_def gradInv_def gradients_snoc)
  qed
  then have "gradInv N m (C @ [col]) t" by (simp add: gradInv_def)
  moreover have "loopInv fewer N (C @ [col]) (t, onesOf col, True)"
    using i l b L(1-3) by (simp add: t_def nextState_def loopInv_def)
  ultimately show ?thesis by (simp add: t_def nextState_def)
qed

lemma step_skips:
  assumes r: "stepReady fewer N m C col (st, prev, q)" and one: "filter (\<lambda>c. c \<noteq> 1) col = []"
  shows "\<exists>st'. stepColumn fewer (m - int (length C)) col (onesOf col) False e (st, prev, q) = Inr (st', prev, q) \<and>
    loopInv fewer N (C @ [col]) (st', prev, q) \<and> gradInv N m (C @ [col]) st' \<and>
    bc_required st' = bc_required st \<and> bc_batch_indices st' = bc_batch_indices st"
proof -
  have k1: "k < N \<Longrightarrow> col ! k = 1" for k using filter_ones_nth[OF one] r by (simp add: stepReady_def)
  have l: "length col = N" using r by (simp add: stepReady_def)
  show ?thesis
    using stepReady_facts(1)[OF r] r outDim_ones[OF one] inputInv_ones[OF _ one] inputInv_keep_one[OF _ one] k1 l
    by (cases fewer) (auto simp: stepReady_def stepColumn_def Let_def loopInv_def gradInv_def gradients_snoc)
qed

lemma step_joins:
  assumes r: "stepReady True N m C col (st, onesOf col, True)"
  defines "t \<equiv> nextState m C col st (butlast (bc_result st) @ [List.last (bc_result st) * outDim col])
    (map (\<lambda>(v, x). butlast v @ [List.last v * x]) (zip (bc_reshape st) col))
    (map (\<lambda>(v, x). butlast v @ [List.last v * x]) (zip (bc_bcast st) (copiesOf col)))"
  shows "stepColumn True (m - int (length C)) col (onesOf col) True (outDim col) (st, onesOf col, True) =
      Inr (t, onesOf col, True) \<and>
    loopInv True N (C @ [col]) (t, onesOf col, True) \<and> gradInv N m (C @ [col]) t \<and>
    bc_required t = bc_required st \<and> bc_batch_indices t = bc_batch_indices st"
proof -
  note R = stepReady_facts[OF r]
  have c: "okCol col" "list_all (\<lambda>c. 0 \<le> c) col" "length col = N" "0 < N"
    and L: "bc_output st = map outDim C" "sizeBound (bc_result st) \<le> sizeBound (map outDim C)"
      "length (bc_reshape st) = N" "length (bc_bcast st) = N"
    and inv: "\<And>k. k < N \<Longrightarrow> inputInv True C k (bc_reshape st ! k) (bc_bcast st ! k) (bc_result st) (col ! k = 1) True"
    using r by (auto simp: stepReady_def loopInv_def)
  have cp: "copiesOf col ! k = (if col ! k = 1 then outDim col else 1)" if "k < N" for k using that c(3) by simp
  note lasts = inputInv_last[OF inv c(1,2) _ L(2) R(2)]
  have "mulBack (bc_result st) (outDim col) = Inr (butlast (bc_result st) @ [List.last (bc_result st) * outDim col])"
    using lasts[of 0] c(3,4) R(3) by (intro mulBack_eq) auto
  moreover have "mulBackAll (bc_reshape st) col =
      Inr (map (\<lambda>(v, x). butlast v @ [List.last v * x]) (zip (bc_reshape st) col))"
    using lasts L(3) c by (intro mulBackAll_eq) (auto simp: list_all_length)
  moreover have "mulBackAll (bc_bcast st) (copiesOf col) =
      Inr (map (\<lambda>(v, x). butlast v @ [List.last v * x]) (zip (bc_bcast st) (copiesOf col)))"
    using lasts L(4) c R(3) by (intro mulBackAll_eq) (auto simp: cp)
  ultimately have step: "stepColumn True (m - int (length C)) col (onesOf col) True (outDim col) (st, onesOf col, True) =
      Inr (t, onesOf col, True)"
    using R(1) L(1) unfolding stepColumn_def t_def nextState_def by (simp add: Let_def)
  have "loopInv True N (C @ [col]) (t, onesOf col, True) \<and> gradInv N m (C @ [col]) t \<and>
      bc_required t = bc_required st \<and> bc_batch_indices t = bc_batch_indices st"
    unfolding t_def
  proof (rule nextState_sound[OF r])
    fix k assume k: "k < N"
    have "map (\<lambda>(v, x). butlast v @ [List.last v * x]) (zip vs xs) ! k = butlast (vs ! k) @ [List.last (vs ! k) * xs ! k]"
      if "length vs = N" "length xs = N" for vs xs using that k by simp
    then show "inputInv True (C @ [col]) k (map (\<lambda>(v, x). butlast v @ [List.last v * x]) (zip (bc_reshape st) col) ! k)
        (map (\<lambda>(v, x). butlast v @ [List.last v * x]) (zip (bc_bcast st) (copiesOf col)) ! k)
        (butlast (bc_result st) @ [List.last (bc_result st) * outDim col]) (col ! k = 1) True"
      using inputInv_join[OF inv[OF k] c(1,2)] k c(3) L(3,4) unfolding cp[OF k, symmetric] by simp
  next
    have "bc_result st \<noteq> []" "0 \<le> List.last (bc_result st)" using lasts[of 0] c(3,4) by simp_all
    then show "sizeBound (butlast (bc_result st) @ [List.last (bc_result st) * outDim col]) \<le> sizeBound (map outDim (C @ [col]))"
      using sizeBound_join[OF _ _ R(3) L(2)] by simp
    have "length (bc_result st) \<le> length C" using r by (simp add: stepReady_def loopInv_def)
    then show "length (butlast (bc_result st) @ [List.last (bc_result st) * outDim col]) \<le> length (C @ [col])" by simp
  qed (use c(3) L(3,4) in simp_all)
  with step show ?thesis by blast
qed

lemma step_pushes:
  assumes r: "stepReady fewer N m C col (st, prev, q)" and no_join: "\<not> (fewer \<and> onesOf col = prev \<and> q)"
  defines "t \<equiv> nextState m C col st (bc_result st @ [outDim col]) (pushAll (bc_reshape st) col)
    (pushAll (bc_bcast st) (copiesOf col))"
  shows "stepColumn fewer (m - int (length C)) col (onesOf col) True (outDim col) (st, prev, q) = Inr (t, onesOf col, True) \<and>
    loopInv fewer N (C @ [col]) (t, onesOf col, True) \<and> gradInv N m (C @ [col]) t \<and>
    bc_required t = bc_required st \<and> bc_batch_indices t = bc_batch_indices st"
proof -
  have c: "okCol col" "list_all (\<lambda>c. 0 \<le> c) col" "length col = N" "0 < N"
    and L: "bc_output st = map outDim C" "sizeBound (bc_result st) \<le> sizeBound (map outDim C)"
      "length (bc_reshape st) = N" "length (bc_bcast st) = N"
    and inv: "\<And>k. k < N \<Longrightarrow> inputInv fewer C k (bc_reshape st ! k) (bc_bcast st ! k) (bc_result st) (prev ! k) q"
    using r by (auto simp: stepReady_def loopInv_def)
  have step: "stepColumn fewer (m - int (length C)) col (onesOf col) True (outDim col) (st, prev, q) = Inr (t, onesOf col, True)"
    using stepReady_facts(1)[OF r] no_join L(1) unfolding stepColumn_def t_def nextState_def by (simp add: Let_def, blast)
  have "loopInv fewer N (C @ [col]) (t, onesOf col, True) \<and> gradInv N m (C @ [col]) t \<and>
      bc_required t = bc_required st \<and> bc_batch_indices t = bc_batch_indices st"
    unfolding t_def
  proof (rule nextState_sound[OF r])
    show "sizeBound (bc_result st @ [outDim col]) \<le> sizeBound (map outDim (C @ [col]))"
      using mult_right_mono[OF L(2), of "max 1 (outDim col)"] by simp
    show "length (bc_result st @ [outDim col]) \<le> length (C @ [col])"
      using r by (simp add: stepReady_def loopInv_def)
  qed (use inputInv_push[OF inv c(1,2)] c(3) L(3,4) in simp_all)
  with step show ?thesis by blast
qed

lemma stepColumn_sound:
  assumes r: "stepReady fewer N m C col (st, prev, q)"
  shows "\<exists>st' prev' q'. stepColumn fewer (m - int (length C)) col (onesOf col) (filter (\<lambda>c. c \<noteq> 1) col \<noteq> [])
      (if filter (\<lambda>c. c \<noteq> 1) col = [] then e else outDim col) (st, prev, q) = Inr (st', prev', q') \<and>
    loopInv fewer N (C @ [col]) (st', prev', q') \<and> gradInv N m (C @ [col]) st' \<and>
    bc_required st' = bc_required st \<and> bc_batch_indices st' = bc_batch_indices st"
proof (cases "filter (\<lambda>c. c \<noteq> 1) col = []")
  case True
  then show ?thesis using step_skips[OF r True, of e] by auto
next
  case ne: False
  show ?thesis
  proof (cases "fewer \<and> onesOf col = prev \<and> q")
    case True
    then have "stepReady True N m C col (st, onesOf col, True)" using r by simp
    then show ?thesis using step_joins[of N m C col st] True ne by auto
  next
    case False
    then show ?thesis using step_pushes[OF r False] ne by auto
  qed
qed

end
