(* ===== verification/BroadcastIndices.thy ===== *)
theory BroadcastIndices
  imports BroadcastSound
begin

text \<open>
  The loop of \<open>BCastList\<close> over all dimensions, the element of each input that every element of the
  output is computed from, and the properties of \<open>BCast\<close> over two shapes.
\<close>

section \<open>All dimensions\<close>

definition largest :: "int list \<Rightarrow> int" where
  "largest col = foldr max col 1"

lemma outDim_le_largest: "outDim col \<le> largest col"
proof -
  have "1 \<le> foldr max cs (1 :: int) \<and> (\<forall>c \<in> set cs. c \<le> foldr max cs 1)" for cs by (induction cs) auto
  moreover have "outDim col = 1 \<or> outDim col \<in> set col"
    by (cases "filter (\<lambda>c. c \<noteq> 1) col") (auto simp: outDim_def dest: filter_eq_ConsD)
  ultimately show ?thesis unfolding largest_def by metis
qed

lemma sizeBound_mono: "list_all2 (\<le>) xs ys \<Longrightarrow> sizeBound xs \<le> sizeBound ys"
proof (induction xs ys rule: list_all2_induct)
  case (Cons x xs y ys)
  then have "max 1 x * sizeBound xs \<le> max 1 y * sizeBound ys" using sizeBound_pos[of xs] by (intro mult_mono) auto
  then show ?case by simp
qed simp

lemma sizeBound_outDim:
  "sizeBound (map outDim C) * k \<le> sizeBound (map largest C) * k" if "0 \<le> k"
  using that by (intro mult_right_mono sizeBound_mono) (auto simp: list_all2_map1 list_all2_map2 outDim_le_largest intro!: list_all2_refl)

lemma columnLoop_sound:
  assumes "loopInv fewer N C (st, prev, q)" "gradInv N m C st"
    and "list_all (\<lambda>col. list_all (\<lambda>c. 0 \<le> c) col \<and> length col = N) (C @ columns)" "0 < N"
    and "sizeBound (map largest (C @ columns)) \<le> int64_max"
  shows "\<exists>st'. columnLoop fewer (m - int (length C)) columns (st, prev, q) = Inr st' \<and>
    bc_required st' = bc_required st \<and> bc_batch_indices st' = bc_batch_indices st \<and>
    (bc_valid st' \<longleftrightarrow> list_all okCol columns) \<and>
    (bc_valid st' \<longrightarrow> (\<exists>prev q. loopInv fewer N (C @ columns) (st', prev, q)) \<and> gradInv N m (C @ columns) st')"
  using assms
proof (induction columns arbitrary: C st prev q)
  case Nil
  then show ?case by (auto simp: loopInv_def)
next
  case (Cons col columns)
  have c: "list_all (\<lambda>c. 0 \<le> c) col" "length col = N" using Cons.prems(3) by auto
  show ?case
  proof (cases "okCol col")
    case False
    then show ?thesis by (simp add: scanColumn_eq)
  next
    case True
    have "sizeBound (map outDim (C @ [col])) * sizeBound (map largest columns)
        \<le> sizeBound (map largest (C @ [col])) * sizeBound (map largest columns)"
      using sizeBound_pos[of "map largest columns"] by (intro sizeBound_outDim) simp
    moreover have "sizeBound (map outDim (C @ [col])) * 1 \<le> sizeBound (map outDim (C @ [col])) * sizeBound (map largest columns)"
      using sizeBound_pos[of "map largest columns"] sizeBound_pos[of "map outDim (C @ [col])"] by (intro mult_left_mono) simp_all
    ultimately have b: "sizeBound (map outDim (C @ [col])) \<le> int64_max" using Cons.prems(5) by (simp add: mult.assoc)
    have nn: "list_all (\<lambda>c. 0 \<le> c) (map outDim C)" using Cons.prems(3) by (auto simp: list_all_iff intro!: outDim_nonneg)
    obtain st1 prev1 q1 where s: "stepColumn fewer (m - int (length C)) col (map (\<lambda>c. c = 1) col)
          (filter (\<lambda>c. c \<noteq> 1) col \<noteq> []) (if filter (\<lambda>c. c \<noteq> 1) col = [] then - 1 else outDim col) (st, prev, q) = Inr (st1, prev1, q1)"
        and i: "loopInv fewer N (C @ [col]) (st1, prev1, q1)" "gradInv N m (C @ [col]) st1"
        and r: "bc_required st1 = bc_required st" "bc_batch_indices st1 = bc_batch_indices st"
      using stepColumn_sound[of fewer N m C col st prev q "- 1"] Cons.prems(1,2,4) True c b nn
      unfolding stepReady_def fst_conv by blast
    have e: "m - int (length C) - 1 = m - int (length (C @ [col]))" by simp
    show ?thesis using Cons.IH[OF i] Cons.prems(3-5) True r by (simp add: scanColumn_eq s e del: length_append)
  qed
qed

section \<open>Batch indices\<close>

lemma bidx_bounds:
  "list_all (\<lambda>(x, z). 1 \<le> x) Q \<Longrightarrow> 0 \<le> s \<Longrightarrow> 0 \<le> bidx Q s n \<and> bidx Q s n \<le> s * (prod_list (map fst Q) - 1)"
proof (induction Q s n rule: bidx.induct)
  case (2 x z r s n)
  then have x: "1 \<le> x" by simp
  have m: "0 \<le> n mod x" "n mod x \<le> x - 1" using x by auto
  have "(n mod x) * s \<le> (x - 1) * s" by (rule mult_right_mono[OF m(2) 2(3)])
  moreover have "0 \<le> bidx r (s * x) (n div z) \<and> bidx r (s * x) (n div z) \<le> s * x * (prod_list (map fst r) - 1)"
    using 2 x by simp
  ultimately show ?case using m(1) 2(3) by (simp add: algebra_simps)
qed simp

lemma bidx_mod:
  "list_all (\<lambda>(x, z). 1 \<le> z \<and> x dvd z) Q \<Longrightarrow> bidx Q s (n mod prod_list (map snd Q)) = bidx Q s n"
proof (induction Q s n rule: bidx.induct)
  case (2 x z r s n)
  let ?P = "prod_list (map snd r)"
  have "1 \<le> z" "x dvd z" using 2(2) by auto
  have P: "0 \<le> ?P" using 2(2) by (intro prod_list_nonneg) (auto simp: list_all_iff)
  have e: "n mod (z * ?P) = z * (n div z mod ?P) + n mod z" by (rule zmod_zmult2_eq[OF P])
  have "(n mod (z * ?P)) mod x = n mod x" using \<open>x dvd z\<close> by (intro mod_mod_cancel) simp
  moreover have "(n mod (z * ?P)) div z = n div z mod ?P"
    unfolding e using \<open>1 \<le> z\<close> by (simp add: div_add1_eq)
  ultimately show ?case using 2 by simp
qed simp

lemma copyLoop_fills:
  assumes "0 \<le> k" "k \<le> e" "1 \<le> no" "no + e \<le> int (length out)"
    and "\<And>n. 0 \<le> n \<Longrightarrow> n < no + e \<Longrightarrow> in_int64 (g n)"
    and "\<And>n. 0 \<le> n \<Longrightarrow> n < e \<Longrightarrow> g (no + n) = g n + incr"
    and "\<And>n. 0 \<le> n \<Longrightarrow> n < no + k \<Longrightarrow> out ! nat n = g n"
  shows "\<exists>out'. copyLoop no incr [k..e - 1] out = Inr out' \<and> length out' = length out \<and>
    (\<forall>n. 0 \<le> n \<longrightarrow> n < no + e \<longrightarrow> out' ! nat n = g n)"
  using assms
proof (induction "nat (e - k)" arbitrary: k out)
  case 0
  then show ?case by (intro exI[of _ out]) auto
next
  case (Suc t)
  then have k: "k < e" by simp
  let ?out = "out[nat (no + k) := g (no + k)]"
  have u: "[k..e - 1] = k # [k + 1..e - 1]" using k by (simp add: upto_rec1)
  have a: "vecAt out k = Inr (g k)" "g k + incr = g (no + k)"
    using Suc.prems k by (simp_all add: vecAt_def)
  have b: "add64 (g k) incr = Inr (g (no + k))"
    using Suc.prems(1,3) Suc.prems(5)[of "no + k"] k a(2) by (simp add: add64_def signed64_def)
  have w: "writeAt out (no + k) (g (no + k)) = Inr ?out" using Suc.prems k by (simp add: writeAt_def)
  have "\<exists>out'. copyLoop no incr [k + 1..e - 1] ?out = Inr out' \<and> length out' = length ?out \<and>
      (\<forall>n. 0 \<le> n \<longrightarrow> n < no + e \<longrightarrow> out' ! nat n = g n)"
  proof (rule Suc.hyps(1))
    fix n assume n: "0 \<le> n" "n < no + (k + 1)"
    then show "?out ! nat n = g n" using Suc.prems(1-4) Suc.prems(7)[of n] k by (cases "n = no + k") auto
  qed (use Suc k in auto)
  then show ?case by (simp add: u a(1) b w)
qed

abbreviation pairSize :: "int \<times> int \<Rightarrow> int" where "pairSize \<equiv> \<lambda>(r, b). r * b"
abbreviation viewOf :: "(int \<times> int) list \<Rightarrow> (int \<times> int) list" where "viewOf \<equiv> map (\<lambda>(r, b). (r, r * b))"

lemma viewOf_sizes [simp]:
  "map fst (viewOf Q) = map fst Q" "map snd (viewOf Q) = map pairSize Q"
  by auto

lemma mul64_nonneg: "0 \<le> a \<Longrightarrow> 0 \<le> b \<Longrightarrow> a * b \<le> int64_max \<Longrightarrow> mul64 a b = Inr (a * b)"
  using mul_dims_eq[of a b] by (auto simp: mul_dims_def)

lemma prod_pos: "list_all (\<lambda>d. 1 \<le> d) ds \<Longrightarrow> 1 \<le> prod_list (ds :: int list)"
proof (induction ds)
  case (Cons d ds)
  then show ?case using mult_mono[of 1 d 1 "prod_list ds"] by simp
qed simp

definition pairsOk :: "(int \<times> int) list \<Rightarrow> bool" where
  "pairsOk Q \<longleftrightarrow> list_all (\<lambda>(r, b). 1 \<le> r \<and> 1 \<le> b \<and> (r = 1 \<or> b = 1)) Q"

lemma pairsOk_view:
  assumes "pairsOk Q"
  shows "list_all (\<lambda>(x, z). 1 \<le> x) (viewOf Q)" "list_all (\<lambda>(x, z). 1 \<le> z \<and> x dvd z) (viewOf Q)"
    "list_all (\<lambda>(x, z). 0 \<le> z) (viewOf Q)" "1 \<le> prod_list (map pairSize Q)" "1 \<le> prod_list (map fst Q)"
    "prod_list (map fst Q) \<le> prod_list (map pairSize Q)"
  using assms
proof -
  show "prod_list (map fst Q) \<le> prod_list (map pairSize Q)"
    using assms
  proof (induction Q)
    case (Cons p Q)
    obtain r b where p: "p = (r, b)" by (cases p)
    have "1 \<le> prod_list (map fst Q)" using Cons.prems by (intro prod_pos) (auto simp: pairsOk_def list_all_iff)
    then have "r * prod_list (map fst Q) \<le> r * b * prod_list (map pairSize Q)"
      using Cons p by (intro mult_mono) (auto simp: pairsOk_def)
    then show ?case by (simp add: p)
  qed simp
  have "1 \<le> r * b" "1 \<le> r" if "(r, b) \<in> set Q" for r b
    using assms that by (auto simp: pairsOk_def list_all_iff)
  then show "1 \<le> prod_list (map pairSize Q)" "1 \<le> prod_list (map fst Q)"
    by (intro prod_pos; auto simp: list_all_iff)+
qed (use assms in \<open>auto simp: pairsOk_def list_all_iff\<close>)

lemma batchLoop_sound:
  assumes "pairsOk (Q @ rest)" "length out = nat (prod_list (map pairSize (Q @ rest)))"
    and "prod_list (map pairSize (Q @ rest)) \<le> int64_max"
    and "\<And>n. 0 \<le> n \<Longrightarrow> n < prod_list (map pairSize Q) \<Longrightarrow> out ! nat n = bidx (viewOf Q) 1 n"
  shows "\<exists>out'. batchLoop rest out (prod_list (map pairSize Q)) (prod_list (map fst Q)) = Inr out' \<and>
    length out' = length out \<and>
    (\<forall>n. 0 \<le> n \<longrightarrow> n < prod_list (map pairSize (Q @ rest)) \<longrightarrow> out' ! nat n = bidx (viewOf (Q @ rest)) 1 n)"
  using assms
proof (induction rest arbitrary: Q out)
  case Nil
  then show ?case by simp
next
  case (Cons p rest)
  obtain r b where p: "p = (r, b)" by (cases p)
  let ?no = "prod_list (map pairSize Q)" and ?ni = "prod_list (map fst Q)" and ?d = "max r b"
  let ?g = "bidx (viewOf (Q @ [(r, b)])) 1"
  have Q: "pairsOk Q" "pairsOk (Q @ [(r, b)])" "pairsOk rest" and rb: "1 \<le> r" "1 \<le> b" "r = 1 \<or> b = 1"
    using Cons.prems(1) by (auto simp: pairsOk_def p)
  note V = pairsOk_view[OF Q(1)] and V' = pairsOk_view[OF Q(2)] and VR = pairsOk_view[OF Q(3)]
  have d: "?d = r * b" "1 \<le> ?d" using rb by auto
  have total: "prod_list (map pairSize (Q @ p # rest)) = ?no * ?d * prod_list (map pairSize rest)"
    by (simp add: p d mult.assoc)
  have len: "int (length out) = prod_list (map pairSize (Q @ p # rest))"
    using Cons.prems(2) pairsOk_view(4)[OF Cons.prems(1)] by (simp del: map_append prod_list.append)
  have lim: "?no * ?d \<le> prod_list (map pairSize (Q @ p # rest))"
    unfolding total using V(4) VR(4) d(2) mult_left_mono[of 1 "prod_list (map pairSize rest)" "?no * ?d"] by simp
  have g: "?g n = bidx (viewOf Q) 1 n + (n div ?no mod r) * ?ni" for n
    using bidx_append[OF V(3), of "[(r, r * b)]" 1 n] by (simp add: viewOf_sizes del: map_map)
  have bound: "in_int64 (?g n)" for n
  proof -
    have "0 \<le> ?g n \<and> ?g n \<le> prod_list (map fst (Q @ [(r, b)])) - 1"
      using bidx_bounds[OF V'(1), of 1 n] by (simp del: map_map)
    moreover have "prod_list (map fst (Q @ [(r, b)])) \<le> int64_max"
      using V'(6) lim Cons.prems(3) by (simp add: d(1))
    ultimately show ?thesis by (simp add: in_int64_def)
  qed
  have "\<exists>out'. copyLoop ?no (if b > 1 then 0 else ?ni) [0..(?d - 1) * ?no - 1] out = Inr out' \<and> length out' = length out \<and>
      (\<forall>n. 0 \<le> n \<longrightarrow> n < ?no + (?d - 1) * ?no \<longrightarrow> out' ! nat n = ?g n)"
  proof (rule copyLoop_fills)
    show "?no + (?d - 1) * ?no \<le> int (length out)"
      unfolding len using lim by (simp add: algebra_simps)
  next
    fix n assume n: "0 \<le> n" "n < (?d - 1) * ?no"
    show "?g (?no + n) = ?g n + (if b > 1 then 0 else ?ni)"
    proof -
      have "bidx (viewOf Q) 1 (?no + n) = bidx (viewOf Q) 1 ((?no + n) mod ?no)"
        using bidx_mod[OF V(2), of 1 "?no + n"] by (simp del: map_map)
      also have "\<dots> = bidx (viewOf Q) 1 n" using bidx_mod[OF V(2), of 1 n] by (simp del: map_map)
      finally have a: "bidx (viewOf Q) 1 (?no + n) = bidx (viewOf Q) 1 n" .
      have q: "(?no + n) div ?no = n div ?no + 1" using V(4) by (simp add: div_add1_eq)
      show ?thesis
      proof (cases "b > 1")
        case True
        then show ?thesis using rb unfolding g a q by auto
      next
        case False
        then have "r = ?d" using rb by auto
        moreover have "n div ?no * ?no \<le> n" "0 \<le> n div ?no"
          using div_mult_mod_eq[of n ?no] pos_mod_sign[of ?no n] V(4) n(1) by (linarith, simp add: pos_imp_zdiv_nonneg_iff)
        moreover have "n div ?no < ?d - 1"
        proof (rule ccontr)
          assume "\<not> n div ?no < ?d - 1"
          then have "(?d - 1) * ?no \<le> n div ?no * ?no" using V(4) by (intro mult_right_mono) auto
          then show False using calculation(2) n(2) by linarith
        qed
        ultimately have "n div ?no mod r = n div ?no" "(n div ?no + 1) mod r = n div ?no + 1" by simp_all
        then show ?thesis using False unfolding g a q by (simp add: algebra_simps)
      qed
    qed
  next
    fix n assume n: "0 \<le> n" "n < ?no + 0"
    then show "out ! nat n = ?g n" using Cons.prems(4)[of n] unfolding g by simp
  qed (use V(4) d(2) bound in auto)
  then obtain out' where o: "copyLoop ?no (if b > 1 then 0 else ?ni) [0..(?d - 1) * ?no - 1] out = Inr out'"
      "length out' = length out" "\<And>n. 0 \<le> n \<Longrightarrow> n < ?no * ?d \<Longrightarrow> out' ! nat n = ?g n"
    by (auto simp: algebra_simps)
  have top: "?no * ?d \<le> int64_max" using lim Cons.prems(3) by linarith
  have up: "(?d - 1) * ?no \<le> ?no * ?d" "?ni * r \<le> ?no * ?d"
    using V'(6) V(4) by (simp_all add: algebra_simps d(1))
  have m: "mul64 (?d - 1) ?no = Inr ((?d - 1) * ?no)" "mul64 ?no ?d = Inr (?no * ?d)" "mul64 ?ni r = Inr (?ni * r)"
    using order_trans[OF up(1) top] order_trans[OF up(2) top] top V(4,5) rb d(2)
    by (simp_all add: mul64_nonneg del: max.bounded_iff)
  have s: "prod_list (map pairSize (Q @ [p])) = ?no * ?d" "prod_list (map fst (Q @ [p])) = ?ni * r"
    by (simp_all add: p d)
  have "\<exists>out''. batchLoop rest out' (prod_list (map pairSize (Q @ [p]))) (prod_list (map fst (Q @ [p]))) = Inr out'' \<and>
      length out'' = length out' \<and> (\<forall>n. 0 \<le> n \<longrightarrow> n < prod_list (map pairSize ((Q @ [p]) @ rest)) \<longrightarrow>
        out'' ! nat n = bidx (viewOf ((Q @ [p]) @ rest)) 1 n)"
  proof (rule Cons.IH)
    fix n assume "0 \<le> n" "n < prod_list (map pairSize (Q @ [p]))"
    then show "out' ! nat n = bidx (viewOf (Q @ [p])) 1 n" using o(3)[of n] unfolding s by (simp add: p)
  qed (use Cons.prems o(2) in simp_all)
  then show ?case using m o(1,2) unfolding s by (simp add: p Let_def)
qed

lemma ComputeBatchIndices_sound:
  assumes g: "grouped D R B" and M: "M = prod_list (map snd D)" "0 < M" "M \<le> int64_max"
  shows "ComputeBatchIndices M (rev R) (rev B) = Inr (map (\<lambda>n. bidx D 1 (int n)) [0..<nat M])"
proof -
  have l: "length R = length B" using g by (simp add: grouped_def)
  have z: "rev (zip (rev R) (rev B)) = zip R B" using l by (simp add: zip_rev)
  have v: "viewOf (zip R B) = zip R (map2 (*) R B)" using l
    by (induction R B rule: list_induct2) simp_all
  have s: "map pairSize (zip R B) = map2 (*) R B" by simp
  have p: "prod_list (map pairSize (zip R B)) = M" using g M(1) by (simp add: grouped_def)
  have sizes: "list_all (\<lambda>(r, b). 0 \<le> r \<and> 0 \<le> b \<and> (r = 1 \<or> b = 1)) (zip R B)"
    and same: "bidx (zip R (map2 (*) R B)) 1 n = bidx D 1 n" for n
    using g by (simp_all add: grouped_def)
  have ok: "pairsOk (zip R B)"
    unfolding pairsOk_def list_all_iff
  proof safe
    fix r b assume rb: "(r, b) \<in> set (zip R B)"
    then have "r * b \<in> set (map pairSize (zip R B))" by (force simp del: map_map)
    moreover have "prod_list (map pairSize (zip R B)) \<noteq> 0" unfolding p using M(2) by simp
    ultimately have "r * b \<noteq> 0" using prod_list_zero_iff by metis
    moreover have n: "0 \<le> r \<and> 0 \<le> b \<and> (r = 1 \<or> b = 1)" using sizes rb by (auto simp: list_all_iff)
    ultimately show "1 \<le> r" "1 \<le> b" by auto
    show "b \<noteq> 1 \<Longrightarrow> r = 1" using n by simp
  qed
  have "\<exists>out'. batchLoop (zip R B) (replicate (nat M) 0) 1 1 = Inr out' \<and> length out' = nat M \<and>
      (\<forall>n. 0 \<le> n \<longrightarrow> n < M \<longrightarrow> out' ! nat n = bidx (viewOf (zip R B)) 1 n)"
    using batchLoop_sound[of "[]" "zip R B" "replicate (nat M) 0"] ok p M by (simp del: map_map)
  then obtain out' where o: "batchLoop (zip R B) (replicate (nat M) 0) 1 1 = Inr out'" "length out' = nat M"
      "\<forall>n. 0 \<le> n \<longrightarrow> n < M \<longrightarrow> out' ! nat n = bidx D 1 n"
    unfolding v same by auto
  have "out' = map (\<lambda>n. bidx D 1 (int n)) [0..<nat M]"
    using o(2) o(3)[rule_format, of "int _"] by (intro nth_equalityI) auto
  then show ?thesis using o(1) by (simp add: ComputeBatchIndices_def z)
qed

section \<open>The constructor\<close>

lemma sizeBound_rev: "sizeBound (rev ds) = sizeBound ds"
  by (induction ds) (simp_all add: mult.commute)

lemma mapR_map_list: "mapR f (map g xs) = mapR (f \<circ> g) xs"
  by (induction xs) simp_all

definition columnsOf :: "int list list \<Rightarrow> int list list" where
  "columnsOf xs = (let rank = fold max (map length xs) 0 in
     map (\<lambda>j. map (\<lambda>x. rev (padTo rank x) ! j) xs) [0..<rank])"

text \<open>What the constructor establishes of one input when the shapes broadcast.\<close>

definition inputPost :: "bool \<Rightarrow> bool \<Rightarrow> bool \<Rightarrow> int list list \<Rightarrow> nat \<Rightarrow> bcast_list \<Rightarrow> bool" where
  "inputPost fewer flat equal C i st \<longleftrightarrow>
    grouped (inputDims C i) (rev (bc_reshape st ! i)) (rev (bc_bcast st ! i)) \<and>
    bc_result st = map2 (*) (bc_reshape st ! i) (bc_bcast st ! i) \<and>
    (fewer \<or> C = [] \<or> bc_reshape st ! i = rev (map fst (inputDims C i)) \<and> bc_result st = bc_output st) \<and>
    bc_grad_reduce_idx st ! i = (if fewer \<and> equal then [] else rev (gradients (int (length C) - 1) C i)) \<and>
    (flat \<and> \<not> equal \<and> 0 < prod_list (map outDim C) \<longrightarrow>
      bc_batch_indices st ! i = map (\<lambda>n. bidx (inputDims C i) 1 (int n)) [0..<nat (prod_list (map outDim C))])"

definition bcastPost :: "bool \<Rightarrow> bool \<Rightarrow> bool \<Rightarrow> nat \<Rightarrow> int list list \<Rightarrow> bcast_list \<Rightarrow> bool" where
  "bcastPost fewer flat equal N C st \<longleftrightarrow> bc_valid st \<and> bc_required st = (\<not> equal) \<and> bc_output st = rev (map outDim C) \<and>
    bc_output_batch_size st = prod_list (map outDim C) \<and> length (bc_reshape st) = N \<and> length (bc_bcast st) = N \<and>
    sizeBound (bc_result st) \<le> sizeBound (map outDim C) \<and> length (bc_result st) \<le> max 1 (length C) \<and>
    (\<forall>i<N. inputPost fewer flat equal C i st)"

lemma rev_map2: "length xs = length ys \<Longrightarrow> rev (map2 f xs ys) = map2 f (rev xs) (rev ys)"
  by (simp add: zip_rev rev_map)

lemma inputDims_snd: "map snd (inputDims C i) = map outDim C"
  by (simp add: inputDims_def)

definition fillResult :: "bcast_list \<Rightarrow> bcast_list" where
  "fillResult st = (if bc_result st = [] then st\<lparr>bc_result := [1],
     bc_reshape := pushAll (bc_reshape st) (map (\<lambda>_. 1) (bc_reshape st)),
     bc_bcast := pushAll (bc_bcast st) (map (\<lambda>_. 1) (bc_reshape st))\<rparr> else st)"

lemma fillResult_sound:
  assumes i: "inputInv fewer C i (bc_reshape st ! i) (bc_bcast st ! i) (bc_result st) p q"
    and k: "i < length (bc_reshape st)" "length (bc_bcast st) = length (bc_reshape st)"
  shows "grouped (inputDims C i) (bc_reshape (fillResult st) ! i) (bc_bcast (fillResult st) ! i) \<and>
    bc_result (fillResult st) = map2 (*) (bc_reshape (fillResult st) ! i) (bc_bcast (fillResult st) ! i) \<and>
    (fewer \<or> C = [] \<or> bc_reshape (fillResult st) ! i = map fst (inputDims C i) \<and> bc_result (fillResult st) = map outDim C)"
proof (cases "bc_result st = []")
  case True
  then have e: "bc_reshape st ! i = []" "bc_bcast st ! i = []"
    using i by (auto simp: inputInv_def grouped_def)
  have "grouped (inputDims C i) [] [] \<Longrightarrow> grouped (inputDims C i) [1] [1]" by (simp add: grouped_def)
  moreover have "fewer \<or> C = []" using i True by (auto simp: inputInv_def)
  ultimately show ?thesis using True i e k by (auto simp: fillResult_def inputInv_def)
next
  case False
  then show ?thesis using i by (auto simp: fillResult_def inputInv_def)
qed

lemma finishBCast_sound:
  assumes i: "loopInv fewer N C (st, prev, q)" "gradInv N (int (length C) - 1) C st"
    and b: "prod_list (map outDim C) \<le> int64_max"
    and fast: "\<not> (fewer \<and> equal)" "bc_required st = (\<not> equal)"
  shows "\<exists>st'. finishBCast flat st = Inr st' \<and> bcastPost fewer flat equal N C st'"
proof -
  let ?M = "prod_list (map outDim C)"
  let ?s = "fillResult st"
  let ?t = "?s\<lparr>bc_reshape := map rev (bc_reshape ?s), bc_bcast := map rev (bc_bcast ?s),
     bc_grad_reduce_idx := map rev (bc_grad_reduce_idx ?s), bc_result := rev (bc_result ?s), bc_output := rev (bc_output ?s)\<rparr>"
  have L: "bc_valid st" "bc_output st = map outDim C" "bc_output_batch_size st = ?M"
      "length (bc_reshape st) = N" "length (bc_bcast st) = N" "length (bc_grad_reduce_idx st) = N"
    and inv: "\<And>k. k < N \<Longrightarrow> inputInv fewer C k (bc_reshape st ! k) (bc_bcast st ! k) (bc_result st) (prev ! k) q"
    using i(1) by (auto simp: loopInv_def)
  have F: "bc_valid ?s = bc_valid st" "bc_output ?s = bc_output st" "bc_output_batch_size ?s = bc_output_batch_size st"
      "bc_grad_reduce_idx ?s = bc_grad_reduce_idx st" "bc_required ?s = bc_required st"
      "length (bc_reshape ?s) = N" "length (bc_bcast ?s) = N"
    using L by (simp_all add: fillResult_def)
  have fin: "finishBCast flat st = (if flat \<and> bc_required ?t \<and> bc_output_batch_size ?t > 0 then
      bindR (mapR (\<lambda>(r, b). ComputeBatchIndices (bc_output_batch_size ?t) r b) (zip (bc_reshape ?t) (bc_bcast ?t)))
        (\<lambda>indices. Inr (?t\<lparr>bc_batch_indices := indices\<rparr>)) else Inr ?t)"
    by (simp add: finishBCast_def Let_def fillResult_def)
  have P: "grouped (inputDims C k) (bc_reshape ?s ! k) (bc_bcast ?s ! k)"
      "bc_result ?s = map2 (*) (bc_reshape ?s ! k) (bc_bcast ?s ! k)"
      "fewer \<or> C = [] \<or> bc_reshape ?s ! k = map fst (inputDims C k) \<and> bc_result ?s = map outDim C" if "k < N" for k
    using fillResult_sound[OF inv[OF that]] that L by auto
  have t: "inputPost fewer False equal C k ?t" if "k < N" for k
  proof -
    have "length (bc_reshape ?s ! k) = length (bc_bcast ?s ! k)" using P(1)[OF that] by (simp add: grouped_def)
    then have "rev (bc_result ?s) = map2 (*) (rev (bc_reshape ?s ! k)) (rev (bc_bcast ?s ! k))"
      using P(2)[OF that] by (simp add: rev_map2)
    then show ?thesis using P[OF that] that F L i(2) fast(1) by (auto simp: inputPost_def gradInv_def)
  qed
  have "sizeBound (bc_result ?s) \<le> sizeBound (map outDim C)" "length (bc_result ?s) \<le> max 1 (length C)"
    using i(1) sizeBound_pos[of "map outDim C"] by (auto simp: loopInv_def fillResult_def)
  then have post: "bcastPost fewer False equal N C ?t"
    using t F L fast by (simp add: bcastPost_def sizeBound_rev del: max.bounded_iff)
  show ?thesis
  proof (cases "flat \<and> bc_required ?t \<and> bc_output_batch_size ?t > 0")
    case False
    then show ?thesis using post F L fast unfolding fin by (auto simp: bcastPost_def inputPost_def)
  next
    case True
    let ?indices = "map (\<lambda>k. map (\<lambda>n. bidx (inputDims C k) 1 (int n)) [0..<nat ?M]) [0..<N]"
    have M: "0 < ?M" using True F L by simp
    have idx: "ComputeBatchIndices ?M (rev (bc_reshape ?s ! k)) (rev (bc_bcast ?s ! k)) =
        Inr (map (\<lambda>n. bidx (inputDims C k) 1 (int n)) [0..<nat ?M])" if "k < N" for k
      by (rule ComputeBatchIndices_sound[OF P(1)[OF that] _ M b]) (simp add: inputDims_snd)
    have z: "zip (bc_reshape ?t) (bc_bcast ?t) = map (\<lambda>k. (rev (bc_reshape ?s ! k), rev (bc_bcast ?s ! k))) [0..<N]"
      using F by (intro nth_equalityI) auto
    have "mapR (\<lambda>(r, b). ComputeBatchIndices ?M r b) (zip (bc_reshape ?t) (bc_bcast ?t)) = Inr ?indices"
      unfolding z using idx by (subst mapR_map_list) (auto intro!: mapR_Inr)
    then have "finishBCast flat st = Inr (?t\<lparr>bc_batch_indices := ?indices\<rparr>)" using True F L unfolding fin by simp
    moreover have "bcastPost fewer flat equal N C (?t\<lparr>bc_batch_indices := ?indices\<rparr>)"
      using post by (auto simp: bcastPost_def inputPost_def)
    ultimately show ?thesis by blast
  qed
qed

lemma le_fold_max: "n \<le> fold max ls n \<and> (\<forall>l \<in> set ls. l \<le> fold max ls (n :: nat))"
proof (induction ls arbitrary: n)
  case (Cons l ls)
  then have "max l n \<le> fold max ls (max l n) \<and> (\<forall>k \<in> set ls. k \<le> fold max ls (max l n))" by blast
  then show ?case by auto
qed simp

lemma fold_max_const: "xs \<noteq> [] \<Longrightarrow> list_all (\<lambda>x. x = (m :: nat)) xs \<Longrightarrow> fold max xs 0 = m"
proof (induction xs)
  case (Cons x xs)
  have "list_all (\<lambda>x. x = m) xs \<Longrightarrow> fold max xs m = m" for xs by (induction xs) auto
  then show ?case using Cons.prems by simp
qed simp

lemma columns_nth:
  assumes "i < length xs"
  shows "map (\<lambda>col. col ! i) (columnsOf xs) = rev (padTo (fold max (map length xs) 0) (xs ! i))"
proof -
  have "length (xs ! i) \<le> fold max (map length xs) 0" using le_fold_max[of 0 "map length xs"] assms by simp
  then show ?thesis using assms by (intro nth_equalityI) (auto simp: columnsOf_def Let_def padTo_def)
qed

lemma inputDims_fst: "map fst (inputDims C i) = map (\<lambda>col. col ! i) C"
  by (simp add: inputDims_def)

subsection \<open>Equal shapes\<close>

lemma bidx_same: "list_all (\<lambda>d. 0 \<le> d) ds \<Longrightarrow> bidx (zip ds ds) s n = (n mod prod_list ds) * s"
proof (induction ds arbitrary: s n)
  case (Cons d ds)
  have "0 \<le> prod_list ds" using Cons.prems by (intro prod_list_nonneg) simp
  then have "n mod (d * prod_list ds) = d * (n div d mod prod_list ds) + n mod d" by (rule zmod_zmult2_eq)
  then show ?case using Cons by (simp add: algebra_simps)
qed simp

lemma running_product:
  assumes "0 \<le> n" "0 \<le> d" "max 1 n * sizeBound (d # ds) \<le> int64_max"
  shows "max 1 (n * d) * sizeBound ds \<le> int64_max" "n * d \<le> int64_max"
proof -
  have m: "max 1 (n * d) \<le> max 1 n * max 1 d"
    using assms(1,2) mult_mono[of n "max 1 n" d "max 1 d"] mult_mono[of 1 "max 1 n" 1 "max 1 d"] by auto
  show b: "max 1 (n * d) * sizeBound ds \<le> int64_max"
  proof -
    have "max 1 (n * d) * sizeBound ds \<le> max 1 n * max 1 d * sizeBound ds"
      using sizeBound_pos[of ds] by (intro mult_right_mono[OF m]) simp
    then show ?thesis using assms(3) by (simp add: mult.assoc del: max.bounded_iff)
  qed
  have "max 1 (n * d) * 1 \<le> max 1 (n * d) * sizeBound ds" using sizeBound_pos[of ds] by (intro mult_left_mono) auto
  then show "n * d \<le> int64_max" using b by simp
qed

lemma mulDimsAll_eq:
  "0 \<le> n \<Longrightarrow> list_all (\<lambda>d. 0 \<le> d) ds \<Longrightarrow> max 1 n * sizeBound ds \<le> int64_max \<Longrightarrow>
   mulDimsAll n ds = Inr (n * prod_list ds)"
proof (induction ds arbitrary: n)
  case (Cons d ds)
  then have d: "0 \<le> d" by simp
  note p = running_product[OF Cons.prems(1) d Cons.prems(3)]
  show ?case using Cons.IH[OF _ _ p(1)] mul_dims_eq[OF Cons.prems(1) d p(2)] Cons.prems(1,2) d by (simp add: mult.assoc)
qed simp

lemma outDim_const: "xs \<noteq> [] \<Longrightarrow> outDim (map (\<lambda>_. c) xs) = c \<and> okCol (map (\<lambda>_. c) xs)"
proof (induction xs)
  case (Cons x xs)
  then show ?case by (cases "xs = []") (auto simp: outDim_def okCol_def)
qed simp

lemma columns_equal:
  assumes "xs \<noteq> []" "list_all (\<lambda>x. x = y) xs"
  shows "columnsOf xs = map (\<lambda>c. map (\<lambda>_. c) xs) (rev y)"
proof -
  have r: "fold max (map length xs) 0 = length y" using assms by (intro fold_max_const) (auto simp: list_all_iff)
  have "map (\<lambda>x. rev (padTo (length y) x) ! j) xs = map (\<lambda>_. rev y ! j) xs" if "j < length y" for j
    using assms(2) that by (auto simp: list_all_iff padTo_def)
  then show ?thesis unfolding columnsOf_def Let_def r by (intro nth_equalityI) simp_all
qed

lemma equal_sound:
  assumes "xs \<noteq> []" "list_all (\<lambda>x. x = hd xs) xs" "list_all (\<lambda>d. 0 \<le> d) (hd xs)"
    and "sizeBound (map largest (columnsOf xs)) \<le> int64_max"
  shows "\<exists>st. BCastList xs True flat = Inr st \<and> list_all okCol (columnsOf xs) \<and>
    bcastPost True flat True (length xs) (columnsOf xs) st"
proof -
  let ?y = "hd xs" and ?C = "columnsOf xs"
  note C = columns_equal[OF assms(1,2)]
  have o: "map outDim ?C = rev ?y" using outDim_const[OF assms(1)] unfolding C by (simp add: o_def)
  have i: "inputDims ?C k = zip (rev ?y) (rev ?y)" if "k < length xs" for k
    using that outDim_const[OF assms(1)] unfolding C inputDims_def by (simp add: o_def zip_same_conv_map)
  have p: "prod_list (rev ds) = prod_list ds" for ds :: "int list" by (induction ds) simp_all
  have "sizeBound ?y \<le> int64_max" using sizeBound_outDim[of 1 ?C] assms(4) by (simp add: o sizeBound_rev)
  then have m: "mulDimsAll 1 ?y = Inr (prod_list ?y)" using mulDimsAll_eq[of 1 ?y] assms(3) by simp
  have nn: "0 \<le> prod_list ?y" "max 1 (prod_list ?y) \<le> sizeBound ?y"
    using prod_le_sizeBound[OF assms(3)] sizeBound_pos[of ?y] by simp_all
  have "grouped (zip (rev ?y) (rev ?y)) [prod_list ?y] [1]"
    using assms(3) nn bidx_same[of "rev ?y"] by (auto simp: grouped_def p list_all_iff zip_same)
  then show ?thesis
    using assms(1,2) m o p i outDim_const[OF assms(1)] nn(2) sizeBound_rev[of ?y]
    by (auto simp: BCastList_def Let_def newBCastList_def bcastPost_def inputPost_def C list_all_iff)
qed

lemma BCastList_sound:
  assumes "xs \<noteq> []" "list_all (list_all (\<lambda>d. 0 \<le> d)) xs" "sizeBound (map largest (columnsOf xs)) \<le> int64_max"
  defines "equal \<equiv> list_all (\<lambda>x. x = hd xs) xs"
  shows "\<exists>st. BCastList xs fewer flat = Inr st \<and> bc_valid st = list_all okCol (columnsOf xs) \<and> bc_required st = (\<not> equal) \<and>
    (bc_valid st \<longrightarrow> bcastPost fewer flat equal (length xs) (columnsOf xs) st)"
proof (cases "fewer \<and> equal")
  case True
  have "list_all (\<lambda>d. 0 \<le> d) (hd xs)" using assms(1,2) by (cases xs) auto
  then show ?thesis using equal_sound[of xs flat] assms True by (auto simp: bcastPost_def)
next
  case False
  let ?C = "columnsOf xs" and ?st = "newBCastList xs (\<not> equal)"
  have i: "loopInv fewer (length xs) [] (?st, map (\<lambda>_. False) xs, False)"
    by (simp add: loopInv_def newBCastList_def inputInv_def grouped_Nil inputDims_def)
  have g: "gradInv (length xs) m [] ?st" for m by (simp add: gradInv_def newBCastList_def gradients_def)
  have c: "list_all (\<lambda>col. list_all (\<lambda>c. 0 \<le> c) col \<and> length col = length xs) ?C"
    unfolding list_all_iff
  proof (intro ballI conjI)
    fix col c assume col: "col \<in> set ?C" and "c \<in> set col"
    then obtain i where i: "i < length xs" "c = col ! i" by (auto simp: in_set_conv_nth columnsOf_def Let_def)
    then have "c \<in> set (map (\<lambda>col. col ! i) ?C)" using col by auto
    then show "0 \<le> c" using assms(2) i(1) unfolding columns_nth[OF i(1)]
      by (auto simp: padTo_def list_all_iff split: if_splits)
  qed (auto simp: columnsOf_def Let_def)
  obtain st where st: "columnLoop fewer (int (length ?C) - 1) ?C (?st, map (\<lambda>_. False) xs, False) = Inr st"
      "bc_required st = (\<not> equal)" "bc_valid st = list_all okCol ?C"
      "bc_valid st \<longrightarrow> (\<exists>prev q. loopInv fewer (length xs) ?C (st, prev, q)) \<and> gradInv (length xs) (int (length ?C) - 1) ?C st"
    using columnLoop_sound[OF i g, of ?C "int (length ?C) - 1"] c assms(1,3) by (auto simp: newBCastList_def)
  let ?rank = "fold max (map length xs) 0"
  have l: "length ?C = ?rank" by (simp add: columnsOf_def Let_def)
  have C: "?C = map (\<lambda>j. map (\<lambda>c. c ! j) (map (\<lambda>x. rev x @ replicate (?rank - length x) 1) xs)) [0..<?rank]"
    by (simp add: columnsOf_def Let_def padTo_def)
  have e: "BCastList xs fewer flat = (if bc_valid st then finishBCast flat st else Inr st)"
    using False st(1) unfolding BCastList_def Let_def equal_def[symmetric] C[symmetric] l by auto
  show ?thesis
  proof (cases "bc_valid st")
    case False
    then show ?thesis using st e by auto
  next
    case True
    then obtain prev q where i: "loopInv fewer (length xs) ?C (st, prev, q)" "gradInv (length xs) (int (length ?C) - 1) ?C st"
      using st(4) by blast
    have nn: "list_all (\<lambda>c. 0 \<le> c) (map outDim ?C)" using c by (auto simp: list_all_iff intro!: outDim_nonneg)
    have b: "prod_list (map outDim ?C) \<le> int64_max"
      using prod_le_sizeBound[OF nn] sizeBound_outDim[of 1 ?C] assms(3) by simp
    obtain st' where "finishBCast flat st = Inr st'" "bcastPost fewer flat equal (length xs) ?C st'"
      using finishBCast_sound[OF i b False st(2)] by blast
    then show ?thesis using True st e by (auto simp: bcastPost_def)
  qed
qed

end
