(* ===== verification/BroadcastPair.thy ===== *)
theory BroadcastPair
  imports BroadcastIndices
begin

text \<open>
  \<open>BCast\<close>, the broadcast of two shapes: it accepts what shape inference accepts and gives the same
  output shape; the batch indices, the joined shapes and the dimensions of the gradients are what
  the plain definition of broadcasting says.
\<close>

section \<open>Two shapes\<close>

abbreviation rankOf :: "int list \<Rightarrow> int list \<Rightarrow> nat" where
  "rankOf x y \<equiv> max (length x) (length y)"

lemma columns_pair:
  "columnsOf [x, y] = rev (map2 (\<lambda>a b. [a, b]) (padTo (rankOf x y) x) (padTo (rankOf x y) y))"
proof -
  have l: "length (padTo (rankOf x y) x) = rankOf x y" "length (padTo (rankOf x y) y) = rankOf x y"
    by (simp_all add: padTo_def)
  show ?thesis
    by (intro nth_equalityI) (simp_all add: columnsOf_def Let_def l rev_nth max.commute)
qed

lemma bcast1_column:
  "(bcast1 a b \<noteq> None) = okCol [a, b] \<and> (okCol [a, b] \<longrightarrow> bcast1 a b = Some (outDim [a, b]))"
  by (auto simp: bcast1_def okCol_def outDim_def)

lemma those_map: "those (map f xs) = (if list_all (\<lambda>x. f x \<noteq> None) xs then Some (map (the \<circ> f) xs) else None)"
  by (induction xs) (auto split: option.splits)

lemma bcast_columns:
  "bcast x y = (if list_all okCol (columnsOf [x, y]) then Some (rev (map outDim (columnsOf [x, y]))) else None)"
proof -
  let ?Z = "zip (padTo (rankOf x y) x) (padTo (rankOf x y) y)"
  have "bcast x y = (if list_all (\<lambda>(a, b). okCol [a, b]) ?Z then Some (map (the \<circ> (\<lambda>(a, b). bcast1 a b)) ?Z) else None)"
    unfolding bcast_def Let_def those_map using bcast1_column by (simp add: case_prod_unfold)
  moreover have "map (the \<circ> (\<lambda>(a, b). bcast1 a b)) ?Z = map (\<lambda>(a, b). outDim [a, b]) ?Z"
    if "list_all (\<lambda>(a, b). okCol [a, b]) ?Z"
    using that bcast1_column by (auto simp: list_all_iff)
  ultimately show ?thesis
    unfolding columns_pair by (simp add: rev_map list_all_iff o_def case_prod_unfold)
qed

text \<open>The number of elements of the output, with sizes 0 counted as 1, has to be an \<open>int64_t\<close>: the
  kernels that call \<open>BCast\<close> have tensors of these shapes.\<close>

definition bcastFits :: "int list \<Rightarrow> int list \<Rightarrow> bool" where
  "bcastFits x y \<longleftrightarrow> list_all (\<lambda>d. 0 \<le> d) x \<and> list_all (\<lambda>d. 0 \<le> d) y \<and>
    prod_list (map2 (\<lambda>a b. max 1 (max a b)) (padTo (rankOf x y) x) (padTo (rankOf x y) y)) \<le> int64_max"

lemma pair_largest:
  "sizeBound (map largest (columnsOf [x, y])) =
     prod_list (map2 (\<lambda>a b. max 1 (max a b)) (padTo (rankOf x y) x) (padTo (rankOf x y) y))"
  unfolding columns_pair rev_map[symmetric] sizeBound_rev
  by (simp add: sizeBound_def largest_def o_def case_prod_unfold max.left_commute max.commute)

lemma pair_bound: "bcastFits x y \<Longrightarrow> sizeBound (map outDim (columnsOf [x, y])) \<le> int64_max"
  using sizeBound_outDim[of 1 "columnsOf [x, y]"] by (simp add: bcastFits_def pair_largest)

lemma BCast_sound:
  assumes "bcastFits x y"
  shows "\<exists>st. BCast x y fewer flat = Inr st \<and> bc_valid st = (bcast x y \<noteq> None) \<and> bc_required st = (x \<noteq> y) \<and>
    (bc_valid st \<longrightarrow> bcastPost fewer flat (x = y) 2 (columnsOf [x, y]) st)"
proof -
  have "sizeBound (map largest (columnsOf [x, y])) \<le> int64_max"
    using assms by (simp add: bcastFits_def pair_largest)
  then show ?thesis
    using BCastList_sound[of "[x, y]" fewer flat] assms
    by (auto simp: BCast_def bcastFits_def bcast_columns numeral_2_eq_2)
qed

section \<open>Elements\<close>

text \<open>Element \<open>n\<close> of an array of shape \<open>zs\<close>, in row-major order, read from an array of shape \<open>xs\<close> that
  is broadcast to it: the multi-index of \<open>n\<close>, with 0 in the dimensions where \<open>xs\<close> has size 1, as
  a position in \<open>xs\<close>.\<close>

definition sourceElement :: "int list \<Rightarrow> int list \<Rightarrow> int \<Rightarrow> int" where
  "sourceElement xs zs n = ravel (rev xs) (map2 (\<lambda>x k. if x = 1 then 0 else k) (rev xs) (unravel (rev zs) n))"

lemma sourceElement_bidx:
  assumes "length xs = length zs" "list_all2 (\<lambda>x z. x = 1 \<or> x = z) xs zs"
  shows "bidx (zip (rev xs) (rev zs)) 1 n = sourceElement xs zs n"
  using assms bidx_ravel[of "rev xs" "rev zs" 1 n] by (simp add: sourceElement_def)

lemma prod_list_rev: "prod_list (rev xs) = prod_list (xs :: int list)"
  by (induction xs) (simp_all add: mult.commute)

lemma grouped_source:
  assumes "grouped D (rev R) (rev B)"
  shows "bidx D 1 n = sourceElement R (map2 (*) R B) n" "prod_list R = prod_list (map fst D)"
    "prod_list (map2 (*) R B) = prod_list (map snd D)"
proof -
  have l: "length R = length B" using assms by (simp add: grouped_def)
  have z: "map2 (*) (rev R) (rev B) = rev (map2 (*) R B)" using l by (simp add: rev_map2)
  have a: "list_all2 (\<lambda>x z. x = 1 \<or> x = z) R (map2 (*) R B)"
  proof (rule list_all2_all_nthI)
    fix k assume k: "k < length R"
    then have "(R ! k, B ! k) \<in> set (zip R B)" using l by (auto simp: set_zip)
    then show "R ! k = 1 \<or> R ! k = map2 (*) R B ! k"
      using assms l k by (auto simp: grouped_def list_all_iff zip_rev)
  qed (simp add: l)
  show "bidx D 1 n = sourceElement R (map2 (*) R B) n"
    using sourceElement_bidx[OF _ a, of n] l assms unfolding grouped_def z by simp
  show "prod_list R = prod_list (map fst D)" "prod_list (map2 (*) R B) = prod_list (map snd D)"
    using assms unfolding grouped_def z by (simp_all add: prod_list_rev)
qed

lemma pair_dims:
  assumes "bcast x y = Some zs" "i < 2"
  shows "inputDims (columnsOf [x, y]) i = zip (rev (padTo (length zs) ([x, y] ! i))) (rev zs)"
    and "list_all2 (\<lambda>x z. x = 1 \<or> x = z) (padTo (length zs) ([x, y] ! i)) zs"
    and "length (columnsOf [x, y]) = length zs"
proof -
  let ?C = "columnsOf [x, y]" and ?v = "padTo (length zs) ([x, y] ! i)"
  have ok: "list_all okCol ?C" and zs: "rev (map outDim ?C) = zs"
    using assms(1) by (auto simp: bcast_columns split: if_splits)
  show l: "length ?C = length zs" using zs by (metis length_map length_rev)
  have len: "fold max (map length [x, y]) 0 = length zs"
    unfolding l[symmetric] by (simp add: columnsOf_def Let_def)
  have c: "map (\<lambda>col. col ! i) ?C = rev ?v" using columns_nth[of i "[x, y]"] assms(2) unfolding len by simp
  show d: "inputDims ?C i = zip (rev ?v) (rev zs)"
    using zip_map_fst_snd[of "inputDims ?C i"] unfolding inputDims_fst inputDims_snd c zs[symmetric] by simp
  have w: "\<forall>col \<in> set ?C. length col = 2" by (auto simp: columnsOf_def Let_def)
  have "list_all2 (\<lambda>x z. x = 1 \<or> x = z) (rev (map (\<lambda>col. col ! i) ?C)) (rev (map outDim ?C))"
    using ok w okCol_nth[of _ i] assms(2)
    by (simp add: list_all2_map1 list_all2_map2 list.rel_refl_strong list_all2_same list_all_iff)
  then show "list_all2 (\<lambda>x z. x = 1 \<or> x = z) ?v zs" unfolding c zs by simp
qed

lemma pair_source:
  assumes "bcast x y = Some zs" "i < 2"
  shows "bidx (inputDims (columnsOf [x, y]) i) 1 n = sourceElement (padTo (length zs) ([x, y] ! i)) zs n"
  using pair_dims[OF assms] sourceElement_bidx[OF list_all2_lengthD[OF pair_dims(2)[OF assms]]] by simp

lemma prod_list_pad: "prod_list (padTo n x) = prod_list x"
  by (simp add: padTo_def)

section \<open>Properties\<close>

lemma all_below_two: "(\<forall>i<2. P (i :: nat)) \<longleftrightarrow> P 0 \<and> P 1"
  by (auto simp: less_2_cases_iff)

lemma pair_sample: "bcastFits [4, 1, 3] [2, 1]" "bcast [4, 1, 3] [2, 1] = Some [4, 2, 3]"
  by code_simp+

text \<open>
  Products are taken from the last dimension on, so that an empty shape, whose number of elements fits, can
  overflow before its size 0 is reached.
\<close>

lemma empty_shape_overflows:
  "BCast [0, 1099511627776, 1099511627776] [1] True False = Inl (Fault SignedOverflow)"
  by code_simp



text \<open>C13: the batch indices. For shapes that broadcast and are not equal, \<open>batch_indices(i)\<close> maps
  every element of the flattened output to the element of input \<open>i\<close> it is computed from: the
  multi-index of the output element with 0 in the dimensions where the input has size 1. Joining
  dimensions does not change it.\<close>

theorem BCast_batch_indices_are_sources:
  assumes "bcastFits x y" "bcast x y = Some zs" "x \<noteq> y" "0 < prod_list zs"
  shows "\<exists>st. BCast x y fewer True = Inr st \<and> bc_valid st \<and>
    (\<forall>i<2. bc_batch_indices st ! i =
      map (\<lambda>n. sourceElement (padTo (length zs) ([x, y] ! i)) zs (int n)) [0..<nat (prod_list zs)])"
proof -
  have "prod_list (map outDim (columnsOf [x, y])) = prod_list zs"
    using assms(2) by (auto simp: bcast_columns prod_list_rev split: if_splits)
  then show ?thesis
    using BCast_sound[OF assms(1), of fewer True] assms pair_source[OF assms(2)]
    by (auto simp: bcastPost_def inputPost_def)
qed

theorem BCast_batch_indices_are_sources_witness:
  "\<exists>st. BCast [4, 1, 3] [2, 1] True True = Inr st \<and>
    bc_batch_indices st ! 0 = map (\<lambda>n. sourceElement [4, 1, 3] [4, 2, 3] (int n)) [0..<24] \<and>
    bc_batch_indices st ! 1 = map (\<lambda>n. sourceElement [1, 2, 1] [4, 2, 3] (int n)) [0..<24]"
proof -
  have "padTo (length [4, 2, 3 :: int]) [2, 1] = [1, 2, 1] \<and> padTo (length [4, 2, 3 :: int]) [4, 1, 3] = [4, 1, 3]"
    by code_simp
  then show ?thesis
    using BCast_batch_indices_are_sources[OF pair_sample, of True]
    by (auto simp: all_below_two)
qed

text \<open>C14: the shapes for the kernels. \<open>result_shape()\<close> is \<open>reshape(i)\<close> multiplied by \<open>bcast(i)\<close> for
  each input, \<open>reshape(i)\<close> has as many elements as the input and \<open>result_shape()\<close> as many as the
  output, and reading the reshaped input at the joined dimensions gives for every element of the
  output the same element of the input as the original dimensions. Without joining, the shapes
  are those of the inputs and the output themselves.\<close>

theorem BCast_joined_dims_keep_elements:
  assumes "bcastFits x y" "bcast x y = Some zs"
  shows "\<exists>st. BCast x y fewer flat = Inr st \<and>
    (\<forall>i<2. let v = [x, y] ! i; r = bc_reshape st ! i; b = bc_bcast st ! i in
      bc_result st = map2 (*) r b \<and> prod_list r = prod_list v \<and> prod_list (bc_result st) = prod_list zs \<and>
      (\<forall>n. sourceElement r (bc_result st) n = sourceElement (padTo (length zs) v) zs n) \<and>
      (\<not> fewer \<and> zs \<noteq> [] \<longrightarrow> r = padTo (length zs) v \<and> bc_result st = zs))"
proof -
  obtain st where st: "BCast x y fewer flat = Inr st" "bcastPost fewer flat (x = y) 2 (columnsOf [x, y]) st"
    using BCast_sound[OF assms(1), of fewer flat] assms(2) by auto
  have out: "rev (map outDim (columnsOf [x, y])) = zs" using assms(2) by (auto simp: bcast_columns split: if_splits)
  show ?thesis
  proof (intro exI conjI allI impI, rule st(1))
    fix i :: nat assume i: "i < 2"
    let ?v = "padTo (length zs) ([x, y] ! i)"
    note D = pair_dims[OF assms(2) i]
    have len: "length ?v = length zs" using D(2) by (rule list_all2_lengthD)
    have post: "inputPost fewer flat (x = y) (columnsOf [x, y]) i st" using st(2) i by (simp add: bcastPost_def)
    then have g: "grouped (inputDims (columnsOf [x, y]) i) (rev (bc_reshape st ! i)) (rev (bc_bcast st ! i))"
      and r: "bc_result st = map2 (*) (bc_reshape st ! i) (bc_bcast st ! i)"
      and exact: "fewer \<or> columnsOf [x, y] = [] \<or>
        bc_reshape st ! i = rev (map fst (inputDims (columnsOf [x, y]) i)) \<and> bc_result st = bc_output st"
      unfolding inputPost_def by blast+
    have m: "map fst (inputDims (columnsOf [x, y]) i) = rev ?v" "map snd (inputDims (columnsOf [x, y]) i) = rev zs"
      using D(1) len by simp_all
    have o: "bc_output st = zs" using st(2) out by (simp add: bcastPost_def)
    note G = grouped_source[OF g, folded r, unfolded m prod_list_rev prod_list_pad]
    show "let v = [x, y] ! i; r = bc_reshape st ! i; b = bc_bcast st ! i in
        bc_result st = map2 (*) r b \<and> prod_list r = prod_list v \<and> prod_list (bc_result st) = prod_list zs \<and>
        (\<forall>n. sourceElement r (bc_result st) n = sourceElement (padTo (length zs) v) zs n) \<and>
        (\<not> fewer \<and> zs \<noteq> [] \<longrightarrow> r = padTo (length zs) v \<and> bc_result st = zs)"
      unfolding Let_def
    proof (intro conjI allI impI)
      show "sourceElement (bc_reshape st ! i) (bc_result st) n = sourceElement ?v zs n" for n
        using G(1)[of n] pair_source[OF assms(2) i, of n] by (rule trans[OF sym])
      assume "\<not> fewer \<and> zs \<noteq> []"
      then have e: "bc_reshape st ! i = rev (rev ?v) \<and> bc_result st = bc_output st"
        using exact D(3) unfolding m by auto
      show "bc_reshape st ! i = ?v" "bc_result st = zs" using e o by simp_all
    qed (fact r G(2,3))+
  qed
qed

theorem BCast_joined_dims_keep_elements_witness:
  "\<exists>st. BCast [4, 1, 3] [2, 1] False True = Inr st \<and> bc_reshape st ! 0 = [4, 1, 3] \<and> bc_result st = [4, 2, 3] \<and>
    bc_result st = map2 (*) (bc_reshape st ! 0) (bc_bcast st ! 0)"
proof -
  have "padTo (length [4, 2, 3 :: int]) [4, 1, 3] = [4, 1, 3]" by code_simp
  then show ?thesis
    using BCast_joined_dims_keep_elements[OF pair_sample, of False True]
    by (auto simp: all_below_two Let_def)
qed

lemma rev_filter_upt:
  "rev (map (\<lambda>j. int L - 1 - int j) (filter P [0..<L])) = map int (filter (\<lambda>j. P (L - 1 - j)) [0..<L])"
proof -
  have r: "rev [0..<L] = map (\<lambda>j. L - 1 - j) [0..<L]" by (rule nth_equalityI) (auto simp: rev_nth)
  have "rev (map (\<lambda>j. int L - 1 - int j) (filter P [0..<L])) = map (\<lambda>j. int L - 1 - int j) (filter P (rev [0..<L]))"
    by (simp add: rev_map rev_filter)
  also have "\<dots> = map int (filter (\<lambda>j. P (L - 1 - j)) [0..<L])"
    unfolding r filter_map by (auto simp: o_def)
  finally show ?thesis .
qed

text \<open>C11: the gradients. For shapes that broadcast and whose output fits, \<open>grad_reduce_idx(i)\<close> lists in order the
  dimensions in which input \<open>i\<close>, extended with leading dimensions of size 1 to the rank of the output, has size 1. For equal
  shapes with dimensions joined nothing has to be summed, and both lists are empty.\<close>

theorem BCast_reduces_gradients_over_broadcast_dims:
  assumes "bcastFits x y" "bcast x y = Some zs"
  shows "\<exists>st. BCast x y fewer flat = Inr st \<and>
    (\<forall>i<2. bc_grad_reduce_idx st ! i = (if fewer \<and> x = y then []
       else map int (filter (\<lambda>j. padTo (length zs) ([x, y] ! i) ! j = 1) [0..<length zs])))"
proof -
  let ?C = "columnsOf [x, y]"
  obtain st where st: "BCast x y fewer flat = Inr st" "bcastPost fewer flat (x = y) 2 ?C st"
    using BCast_sound[OF assms(1), of fewer flat] assms(2) by auto
  have "rev (gradients (int (length ?C) - 1) ?C i) =
      map int (filter (\<lambda>j. padTo (length zs) ([x, y] ! i) ! j = 1) [0..<length zs])" if i: "i < 2" for i
  proof -
    let ?v = "padTo (length zs) ([x, y] ! i)"
    note D = pair_dims[OF assms(2) i]
    have len: "length ?v = length zs" using D(2) by (rule list_all2_lengthD)
    have c: "map (\<lambda>col. col ! i) ?C = rev ?v" using D(1) len inputDims_fst[of ?C i] by simp
    have "?C ! (length zs - 1 - j) ! i = ?v ! j" if "j < length zs" for j
      using arg_cong[OF c, of "\<lambda>l. l ! (length zs - 1 - j)"] that D(3) len by (simp add: rev_nth)
    then show ?thesis unfolding gradients_def D(3) rev_filter_upt by (auto intro!: filter_cong)
  qed
  then show ?thesis using st by (auto simp: bcastPost_def inputPost_def)
qed

theorem BCast_reduces_gradients_over_broadcast_dims_witness:
  "\<exists>st. BCast [4, 1, 3] [2, 1] True False = Inr st \<and>
    bc_grad_reduce_idx st ! 0 = [1] \<and> bc_grad_reduce_idx st ! 1 = [0, 2]"
proof -
  obtain st where st: "BCast [4, 1, 3] [2, 1] True False = Inr st"
    and g: "\<forall>i<2. bc_grad_reduce_idx st ! i = map int (filter (\<lambda>j. padTo (length [4, 2, 3 :: int]) ([[4, 1, 3], [2, 1]] ! i) ! j = 1)
      [0..<length [4, 2, 3 :: int]])"
    using BCast_reduces_gradients_over_broadcast_dims[OF pair_sample, of True False] by auto
  have "map int (filter (\<lambda>j. padTo (length [4, 2, 3 :: int]) ([[4, 1, 3], [2, 1]] ! 0) ! j = 1) [0..<length [4, 2, 3 :: int]]) = [1]"
      "map int (filter (\<lambda>j. padTo (length [4, 2, 3 :: int]) ([[4, 1, 3], [2, 1]] ! 1) ! j = 1) [0..<length [4, 2, 3 :: int]]) = [0, 2]"
    by code_simp+
  then show ?thesis using st g[unfolded all_below_two] by metis
qed

end
