(* ===== verification/MatMulBCast.thy ===== *)
theory MatMulBCast
  imports BroadcastPair TensorShapeBuild
begin

text \<open>
  Broadcasting of the batch dimensions of a matrix product at run time
  (\<open>util/matmul_bcast.h\<close>, and the conversions of \<open>util/bcast.cc\<close>): for every matrix of the result the
  matrices of the inputs it is the product of. It composes \<open>BCast\<close>, \<open>ComputeBatchIndices\<close> and the
  packed \<open>TensorShape\<close>.
\<close>

section \<open>The class\<close>

definition FromShape :: "tensor_shape \<Rightarrow> int list res" where
  "FromShape shape = mapR (dim_size False shape) [0..ndims False shape - 1]"

text \<open>\<open>TensorShape(vec)\<close>: a failed check when the sizes are not those of a shape.\<close>

definition ToShape :: "int list \<Rightarrow> tensor_shape res" where
  "ToShape vec = (case TensorShapeOfSizes False vec blankShape of (Inl e, _) \<Rightarrow> Inl e | (Inr _, shape) \<Rightarrow> Inr shape)"

record matmul_bcast =
  mb_batch_bcast :: "bcast_list option"
  mb_required :: bool
  mb_x_batch_size :: int
  mb_y_batch_size :: int
  mb_output_batch_shape :: tensor_shape
  mb_output_batch_size :: int
  mb_x_batch_indices :: "int list"
  mb_y_batch_indices :: "int list"

definition newMatMulBCast :: matmul_bcast where
  "newMatMulBCast = \<lparr>mb_batch_bcast = None, mb_required = False, mb_x_batch_size = 1, mb_y_batch_size = 1,
     mb_output_batch_shape = defaultShape False, mb_output_batch_size = 1, mb_x_batch_indices = [], mb_y_batch_indices = []\<rparr>"

definition MatMulBCast :: "int list \<Rightarrow> int list \<Rightarrow> matmul_bcast res" where
  "MatMulBCast x y =
    (if max (length x) (length y) = 2 then Inr newMatMulBCast
     else if length x < 2 \<or> length y < 2 then Inl (Fault OutOfBounds)
     else bindR (BCast (take (length x - 2) x) (take (length y - 2) y) True False) (\<lambda>b.
       let st = newMatMulBCast\<lparr>mb_batch_bcast := Some b\<rparr> in
       if \<not> bc_valid b then Inr (st\<lparr>mb_required := True\<rparr>)
       else bindR (ToShape (bc_reshape b ! 0)) (\<lambda>x_shape.
         bindR (ToShape (bc_reshape b ! 1)) (\<lambda>y_shape.
         bindR (ToShape (bc_output b)) (\<lambda>output_shape.
         let x_size = num_elements x_shape; y_size = num_elements y_shape; output_size = num_elements output_shape;
             st = st\<lparr>mb_x_batch_size := x_size, mb_y_batch_size := y_size, mb_output_batch_shape := output_shape,
               mb_output_batch_size := output_size, mb_required := (min x_size y_size \<noteq> output_size)\<rparr>
         in if mb_required st then
              bindR (ComputeBatchIndices output_size (bc_reshape b ! 0) (bc_bcast b ! 0)) (\<lambda>x_indices.
              bindR (ComputeBatchIndices output_size (bc_reshape b ! 1) (bc_bcast b ! 1)) (\<lambda>y_indices.
              Inr (st\<lparr>mb_x_batch_indices := x_indices, mb_y_batch_indices := y_indices\<rparr>)))
            else Inr st)))))"

definition MatMulBCast_IsValid :: "matmul_bcast \<Rightarrow> bool" where
  "MatMulBCast_IsValid b \<longleftrightarrow> \<not> mb_required b \<or> (case mb_batch_bcast b of None \<Rightarrow> False | Some bc \<Rightarrow> bc_valid bc)"

section \<open>Specification\<close>

text \<open>The index of the matrix that a kernel reads for matrix \<open>n\<close> of the result: through the indices
  when broadcasting is required, else \<open>n\<close> itself.\<close>

definition batchIndex :: "matmul_bcast \<Rightarrow> nat \<Rightarrow> int \<Rightarrow> int res" where
  "batchIndex b i n = (if mb_required b then vecAt (if i = 0 then mb_x_batch_indices b else mb_y_batch_indices b) n else Inr n)"

section \<open>Shapes from sizes\<close>

lemma prefixes_fit_sizeBound:
  "list_all (\<lambda>d. 0 \<le> d) ds \<Longrightarrow> 0 \<le> n \<Longrightarrow> max 1 n * sizeBound ds \<le> int64_max \<Longrightarrow> prefixes_fit n ds"
proof (induction ds arbitrary: n)
  case (Cons d ds)
  then have d: "0 \<le> d" by simp
  show ?case using Cons.IH[OF _ _ running_product(1)[OF Cons.prems(2) d Cons.prems(3)]]
      running_product(2)[OF Cons.prems(2) d Cons.prems(3)] Cons.prems(1,2) d by simp
qed simp

lemma le_sizeBound: "d \<in> set ds \<Longrightarrow> d \<le> sizeBound ds"
proof (induction ds)
  case (Cons x ds)
  have "max 1 x * 1 \<le> max 1 x * sizeBound ds" "1 * sizeBound ds \<le> max 1 x * sizeBound ds"
    using sizeBound_pos[of ds] by (auto intro: mult_left_mono mult_right_mono simp del: max.bounded_iff mult_1_right mult_1_left)
  then show ?case using Cons by (auto simp del: mult_1_left)
qed simp

lemma ToShape_packed:
  assumes "list_all (\<lambda>d. 0 \<le> d) ds" "sizeBound ds \<le> int64_max" "length ds \<le> 254"
  shows "\<exists>t. ToShape ds = Inr t \<and> packed False t ds"
proof -
  have "d \<le> int64_max" if "d \<in> set ds" for d using le_sizeBound[OF that] assms(2) by linarith
  then have "int64_sizes ds" "list_all (dim_ok False) ds" using assms(1) by (auto simp: list_all_iff dim_ok_def)
  moreover have "room_for ds"
    using prefixes_fit_sizeBound[of ds 1] assms by (simp add: room_for_def fits_count_known)
  ultimately show ?thesis
    using InitDims_run[of ds "blankShape\<lparr>ts_rep := Rep16 [], ts_data_type := DT_INVALID\<rparr>" False]
    by (auto simp: ToShape_def TensorShapeOfSizes_def BuildTensorShapeBase_def op_simps checkOk_def)
qed

lemma ToShape_FromShape:
  assumes "list_all (\<lambda>d. 0 \<le> d) ds" "sizeBound ds \<le> int64_max" "length ds \<le> 254"
  shows "bindR (ToShape ds) FromShape = Inr ds"
  using ToShape_packed[OF assms] stores_read by (auto simp: FromShape_def packed_def)

section \<open>The matrices of a product\<close>

text \<open>When the products of the sizes agree, nothing is broadcast.\<close>

lemma no_broadcast:
  "list_all2 (\<lambda>x z. x = 1 \<or> x = z) xs zs \<Longrightarrow> list_all (\<lambda>z. 1 \<le> z) zs \<Longrightarrow>
   prod_list xs \<le> prod_list zs \<and> (prod_list xs = prod_list zs \<longrightarrow> xs = (zs :: int list))"
proof (induction xs zs rule: list_all2_induct)
  case (Cons x xs z zs)
  then have z: "1 \<le> z" and p: "1 \<le> prod_list zs" by (auto intro: prod_pos)
  show ?case
  proof (cases "x = z")
    case True
    then show ?thesis using Cons z by (auto simp: mult_left_mono)
  next
    case False
    then have "x = 1" "2 \<le> z" using Cons.hyps(1) z by auto
    moreover have "prod_list zs < z * prod_list zs" using mult_strict_right_mono[of 1 z "prod_list zs"] p \<open>2 \<le> z\<close> by simp
    ultimately show ?thesis using Cons by auto
  qed
qed simp

lemma sourceElement_same:
  assumes "list_all (\<lambda>z. 0 \<le> z) zs" "0 \<le> n" "n < prod_list zs"
  shows "sourceElement zs zs n = n"
  using sourceElement_bidx[of zs zs n] bidx_same[of "rev zs" 1 n] assms
  by (simp add: list.rel_refl prod_list_rev list_all2_same)

text \<open>What \<open>BCast\<close> gives for one input: sizes that fit a tensor shape, and pairs that
  \<open>ComputeBatchIndices\<close> turns into the elements of the input.\<close>

lemma grouped_nonneg: "grouped D R B \<Longrightarrow> list_all (\<lambda>r. 0 \<le> r) R"
  by (auto simp: grouped_def list_all_length)

lemma BCast_input:
  assumes f: "bcastFits x y" and z: "bcast x y = Some zs" and i: "i < 2"
    and b: "BCast x y fewer flat = Inr st"
  shows "list_all (\<lambda>d. 0 \<le> d) (bc_reshape st ! i)" "sizeBound (bc_reshape st ! i) \<le> int64_max"
    "length (bc_reshape st ! i) \<le> max 1 (length zs)" "prod_list (bc_reshape st ! i) = prod_list ([x, y] ! i)"
    "0 < prod_list zs \<Longrightarrow> prod_list zs \<le> int64_max \<Longrightarrow>
      ComputeBatchIndices (prod_list zs) (bc_reshape st ! i) (bc_bcast st ! i) =
      Inr (map (\<lambda>n. sourceElement (padTo (length zs) ([x, y] ! i)) zs (int n)) [0..<nat (prod_list zs)])"
proof -
  let ?D = "inputDims (columnsOf [x, y]) i"
  note D = pair_dims[OF z i]
  have len: "length (padTo (length zs) ([x, y] ! i)) = length zs" using D(2) by (rule list_all2_lengthD)
  have post: "bcastPost fewer flat (x = y) 2 (columnsOf [x, y]) st"
    using BCast_sound[OF f, of fewer flat] z b by auto
  then have g: "grouped ?D (rev (bc_reshape st ! i)) (rev (bc_bcast st ! i))"
    using i by (simp add: bcastPost_def inputPost_def)
  then show "list_all (\<lambda>d. 0 \<le> d) (bc_reshape st ! i)"
    using grouped_nonneg[OF g] by (simp add: list_all_iff)
  have l: "length (bc_reshape st ! i) = length (bc_bcast st ! i)" using g by (simp add: grouped_def)
  have "list_all (\<lambda>(r, b). 0 \<le> r \<and> 0 \<le> b \<and> (r = 1 \<or> b = 1)) (zip (bc_reshape st ! i) (bc_bcast st ! i))"
    using g l by (auto simp: grouped_def list_all_iff zip_rev)
  then have "sizeBound (bc_reshape st ! i) \<le> sizeBound (bc_result st)"
    using sizeBound_pair[OF l] post i by (simp add: bcastPost_def inputPost_def)
  also have "\<dots> \<le> sizeBound (map outDim (columnsOf [x, y]))" using post by (simp add: bcastPost_def)
  also have "\<dots> \<le> int64_max" by (rule pair_bound[OF f])
  finally show "sizeBound (bc_reshape st ! i) \<le> int64_max" .
  have "length (bc_result st) = length (bc_reshape st ! i)" using post i l by (simp add: bcastPost_def inputPost_def)
  then show "length (bc_reshape st ! i) \<le> max 1 (length zs)" using post D(3) by (simp add: bcastPost_def)
  show "prod_list (bc_reshape st ! i) = prod_list ([x, y] ! i)"
    using grouped_source(2)[OF g] D(1) len by (simp add: prod_list_rev prod_list_pad)
  have m: "prod_list zs = prod_list (map snd ?D)" using D(1) len by (simp add: prod_list_rev)
  show "ComputeBatchIndices (prod_list zs) (bc_reshape st ! i) (bc_bcast st ! i) =
      Inr (map (\<lambda>n. sourceElement (padTo (length zs) ([x, y] ! i)) zs (int n)) [0..<nat (prod_list zs)])"
    if "0 < prod_list zs" "prod_list zs \<le> int64_max"
    using ComputeBatchIndices_sound[OF g m that] pair_source[OF z i] by simp
qed

lemma pair_output:
  assumes f: "bcastFits x y" and z: "bcast x y = Some zs"
  shows "list_all (\<lambda>d. 0 \<le> d) zs" "sizeBound zs \<le> int64_max" "0 \<le> prod_list zs" "prod_list zs \<le> int64_max"
    "length zs = rankOf x y"
proof -
  have out: "zs = rev (map outDim (columnsOf [x, y]))" using z by (auto simp: bcast_columns split: if_splits)
  show b: "sizeBound zs \<le> int64_max" using pair_bound[OF f] by (simp add: out sizeBound_rev)
  obtain st where "bcastPost True False (x = y) 2 (columnsOf [x, y]) st"
    using BCast_sound[OF f, of True False] z by auto
  then have "grouped (inputDims (columnsOf [x, y]) 0) (rev (bc_reshape st ! 0)) (rev (bc_bcast st ! 0))"
    by (simp add: bcastPost_def inputPost_def)
  then have "list_all (\<lambda>(x, z). 0 \<le> x \<and> 0 \<le> z) (inputDims (columnsOf [x, y]) 0)" by (simp add: grouped_def)
  then show nn: "list_all (\<lambda>d. 0 \<le> d) zs" unfolding out inputDims_def by (simp add: list_all_iff)
  show "0 \<le> prod_list zs" "prod_list zs \<le> int64_max" using prod_le_sizeBound[OF nn] b by simp_all
  show "length zs = rankOf x y" by (simp add: out columnsOf_def Let_def max.commute)
qed

lemma ToShape_count:
  assumes "list_all (\<lambda>d. 0 \<le> d) ds" "sizeBound ds \<le> int64_max" "length ds \<le> 254"
  shows "\<exists>t. ToShape ds = Inr t \<and> abs_ts False t = Some ds \<and> num_elements t = prod_list ds"
  using ToShape_packed[OF assms] packed_wf assms(1) by (fastforce simp: packed_def count_of_simps)

lemma zero_output:
  assumes "bcast x y = Some zs" "0 \<in> set zs"
  shows "0 \<in> set x \<or> 0 \<in> set y"
proof -
  obtain i where i: "i < length zs" "zs ! i = 0" using assms(2) by (auto simp: in_set_conv_nth)
  have len: "length zs = max (length x) (length y)" by (rule bcast_sizes(1)[OF assms(1)])
  have "bcast1 (padTo (length zs) x ! i) (padTo (length zs) y ! i) = Some 0"
    using bcast_sizes(2)[OF assms(1) i(1)] i(2) by simp
  then have "padTo (length zs) x ! i = 0 \<or> padTo (length zs) y ! i = 0" by (auto simp: bcast1_def split: if_splits)
  moreover have "0 \<in> set v" if "padTo (length zs) v ! i = 0" "length v \<le> length zs" for v
  proof -
    have "padTo (length zs) v ! i \<in> set (padTo (length zs) v)" using i(1) that(2) by (intro nth_mem) (simp add: padTo_def)
    then show ?thesis using that(1) by (auto simp: padTo_def split: if_splits)
  qed
  ultimately show ?thesis using len by auto
qed

text \<open>The indices are needed exactly when some input is repeated.\<close>

lemma batch_not_required:
  assumes f: "bcastFits x y" and z: "bcast x y = Some zs"
    and m: "min (prod_list x) (prod_list y) = prod_list zs" "0 \<le> n" "n < prod_list zs" and i: "i < 2"
  shows "sourceElement (padTo (length zs) ([x, y] ! i)) zs n = n"
proof -
  have nn: "list_all (\<lambda>d. 0 \<le> d) zs" by (rule pair_output(1)[OF f z])
  have "prod_list zs \<noteq> 0" using m by simp
  then have pos: "list_all (\<lambda>d. 1 \<le> d) zs" using nn by (auto simp: prod_list_zero_iff list_all_iff int_one_le_iff_zero_less order_less_le)
  have b: "k < 2 \<Longrightarrow> prod_list ([x, y] ! k) \<le> prod_list zs \<and>
      (prod_list ([x, y] ! k) = prod_list zs \<longrightarrow> padTo (length zs) ([x, y] ! k) = zs)" for k
    using no_broadcast[OF pair_dims(2)[OF z] pos, of k] by (simp add: prod_list_pad)
  have "prod_list ([x, y] ! i) = prod_list zs"
    using b[of 0] b[of 1] m(1) i by (auto simp: less_2_cases_iff)
  then have "padTo (length zs) ([x, y] ! i) = zs" using b[OF i] by blast
  then show ?thesis using sourceElement_same[OF nn m(2,3)] by simp
qed

lemma MatMulBCast_batch:
  assumes f: "bcastFits bx by" and z: "bcast bx by = Some zs" and l: "length zs \<le> 254"
    and b: "BCast bx by True False = Inr b" "bc_valid b" "bc_output b = zs" and ne: "bx \<noteq> [] \<or> by \<noteq> []"
  shows "\<exists>st. MatMulBCast (bx @ [m, k]) (by @ [k', n']) = Inr st \<and> mb_batch_bcast st = Some b \<and>
    abs_ts False (mb_output_batch_shape st) = Some zs \<and> mb_output_batch_size st = prod_list zs \<and>
    mb_required st = (min (prod_list bx) (prod_list by) \<noteq> prod_list zs) \<and>
    (\<forall>i<2. \<forall>n. 0 \<le> n \<and> n < prod_list zs \<longrightarrow> batchIndex st i n = Inr (sourceElement (padTo (length zs) ([bx, by] ! i)) zs n))"
proof -
  note O = pair_output[OF f z]
  note I = BCast_input[OF f z _ b(1)]
  have l': "length (bc_reshape b ! i) \<le> 254" if "i < 2" for i using I(3)[OF that] l by simp
  obtain t where t: "ToShape zs = Inr t" "abs_ts False t = Some zs" "num_elements t = prod_list zs"
    using ToShape_count[OF O(1,2) l] by blast
  obtain tx where tx: "ToShape (bc_reshape b ! 0) = Inr tx" "num_elements tx = prod_list bx"
    using ToShape_count[OF I(1,2) l', of 0] I(4)[of 0] by auto
  obtain ty where ty: "ToShape (bc_reshape b ! 1) = Inr ty" "num_elements ty = prod_list by"
    using ToShape_count[OF I(1,2) l', of 1] I(4)[of 1] by auto
  have long: "max (length (bx @ [m, k])) (length (by @ [k', n'])) \<noteq> 2" using ne by (auto simp: max_def)
  show ?thesis
  proof (cases "min (prod_list bx) (prod_list by) = prod_list zs")
    case True
    then show ?thesis
      using long b t tx ty batch_not_required[OF f z True]
      by (auto simp: MatMulBCast_def Let_def newMatMulBCast_def batchIndex_def)
  next
    case False
    have "0 \<le> prod_list bx" "0 \<le> prod_list by" using f by (auto simp: bcastFits_def intro: prod_list_nonneg)
    then have "prod_list zs = 0 \<Longrightarrow> min (prod_list bx) (prod_list by) = prod_list zs"
      using zero_output[OF z] prod_list_zero_iff[of zs] prod_list_zero_iff[of bx] prod_list_zero_iff[of "by"] by auto
    then have pos: "0 < prod_list zs" using False O(3) by fastforce
    note C = I(5)[OF _ pos O(4)]
    show ?thesis
      using long b t tx ty False C[of 0] C[of 1] O(3)
      by (auto simp: MatMulBCast_def Let_def newMatMulBCast_def batchIndex_def vecAt_def less_2_cases_iff)
  qed
qed

text \<open>Inputs of rank below 2 are not handled, although the comment of the class includes them: the
  iterators of the batch dimensions leave the vector.\<close>

lemma MatMulBCast_low_rank: "length x < 2 \<Longrightarrow> length y < 2 \<Longrightarrow> MatMulBCast x y = Inl (Fault OutOfBounds)"
  by (simp add: MatMulBCast_def)

text \<open>C34: the batches of a matrix product at run time. For inputs whose batch dimensions fit,
  \<open>MatMulBCast\<close> ends without a failed check or an overflow and is valid exactly when the batch
  dimensions broadcast by the rule that \<open>BatchMatMulV2Shape\<close> uses (C6); then
  \<open>output_batch_shape()\<close> is the broadcast shape, and for every matrix of the result the kernel
  reads from each input the matrix at the same position of the broadcast input: through the
  batch indices when \<open>IsBroadcastingRequired()\<close>, directly when not.\<close>

theorem MatMulBCast_reads_the_right_matrices:
  assumes "bcastFits bx by" "length bx \<le> 254" "length by \<le> 254"
  shows "\<exists>st. MatMulBCast (bx @ [m, k]) (by @ [k', n']) = Inr st \<and>
    (case bcast bx by of None \<Rightarrow> \<not> MatMulBCast_IsValid st
     | Some zs \<Rightarrow> MatMulBCast_IsValid st \<and> abs_ts False (mb_output_batch_shape st) = Some zs \<and>
         mb_output_batch_size st = prod_list zs \<and>
         (\<forall>i<2. \<forall>n. 0 \<le> n \<and> n < prod_list zs \<longrightarrow>
           batchIndex st i n = Inr (sourceElement (padTo (length zs) ([bx, by] ! i)) zs n)))"
proof (cases "bx = [] \<and> by = []")
  case True
  have "bcast [] [] = Some []" "padTo 0 [] = []" "sourceElement [] [] n = 0" for n
    by (simp_all add: bcast_def padTo_def sourceElement_def)
  moreover have "abs_ts False (defaultShape False) = Some []" by code_simp
  ultimately show ?thesis
    using True by (auto simp: MatMulBCast_def newMatMulBCast_def MatMulBCast_IsValid_def batchIndex_def all_below_two)
next
  case False
  obtain b where b: "BCast bx by True False = Inr b" "bc_valid b = (bcast bx by \<noteq> None)"
      "bc_valid b \<longrightarrow> bcastPost True False (bx = by) 2 (columnsOf [bx, by]) b"
    using BCast_sound[OF assms(1), of True False] by blast
  have long: "max (length (bx @ [m, k])) (length (by @ [k', n'])) \<noteq> 2" using False by (auto simp: max_def)
  show ?thesis
  proof (cases "bcast bx by")
    case None
    then show ?thesis using long b by (auto simp: MatMulBCast_def Let_def MatMulBCast_IsValid_def)
  next
    case (Some zs)
    have v: "bc_valid b" "bc_output b = zs" using b Some by (auto simp: bcastPost_def bcast_columns split: if_splits)
    have "length zs \<le> 254" using pair_output(5)[OF assms(1) Some] assms(2,3) by simp
    then show ?thesis
      using MatMulBCast_batch[OF assms(1) Some _ b(1) v, of m k k' n'] False Some v(1)
      by (auto simp: MatMulBCast_IsValid_def)
  qed
qed

theorem MatMulBCast_reads_the_right_matrices_witness:
  "\<exists>st. MatMulBCast [4, 1, 5, 6] [3, 6, 7] = Inr st \<and> MatMulBCast_IsValid st \<and>
    mb_output_batch_size st = 12 \<and> batchIndex st 0 7 = Inr 2 \<and> batchIndex st 1 7 = Inr 1"
proof -
  have "bcastFits [4, 1] [3]" "bcast [4, 1] [3] = Some [4, 3]"
      "sourceElement (padTo (length [4, 3 :: int]) ([[4, 1], [3]] ! 0)) [4, 3] 7 = 2"
      "sourceElement (padTo (length [4, 3 :: int]) ([[4, 1], [3]] ! 1)) [4, 3] 7 = 1"
    by code_simp+
  then show ?thesis
    using MatMulBCast_reads_the_right_matrices[of "[4, 1]" "[3]" 5 6 6 7] by (auto simp: all_below_two)
qed

end
