(* ===== verification/ArenaPlanner.thy ===== *)
theory ArenaPlanner
  imports MemoryArena
begin

text \<open>
  The planner of TensorFlow Lite (\<open>lite/arena_planner.h\<close>, \<open>lite/arena_planner.cc\<close>): it decides
  from a graph when each tensor has to be allocated and can be deallocated
  (\<open>PlanAllocations\<close>), lets an output share the memory of an input where the operator allows it,
  and lays the tensors out in two arenas (\<open>ExecuteAllocations\<close>). \<open>std::unordered_set\<close> is a list
  without duplicates whose order of iteration is a parameter.
\<close>

section \<open>The graph\<close>

datatype allocation_type =
    kTfLiteMemNone | kTfLiteMmapRo | kTfLiteArenaRw | kTfLiteArenaRwPersistent | kTfLiteDynamic
  | kTfLitePersistentRo | kTfLiteCustom | kTfLiteVariantObject | kTfLiteNonCpu

record tfl_tensor =
  t_bytes :: "64 word"
  t_allocation_type :: allocation_type
  t_data :: "64 word"

record tfl_node =
  n_inputs :: "int list"
  n_outputs :: "int list"
  n_temporaries :: "int list"
  inplace_operator :: "64 word"

record graph_info =
  g_tensors :: "tfl_tensor list"
  g_nodes :: "tfl_node list"
  g_inputs :: "int list"
  g_outputs :: "int list"
  g_variables :: "int list"

abbreviation kTfLiteOptionalTensor :: int where "kTfLiteOptionalTensor \<equiv> - 1"
abbreviation kNodeNotAssigned :: int where "kNodeNotAssigned \<equiv> int32_max"
abbreviation kLastActiveNodeUndefined :: int where "kLastActiveNodeUndefined \<equiv> int32_max"
abbreviation kScalarTensorBytes :: "64 word" where "kScalarTensorBytes \<equiv> 4"
abbreviation kTfLiteInplaceOpDataUnmodified :: "64 word" where "kTfLiteInplaceOpDataUnmodified \<equiv> 1"
abbreviation kTfLiteInplaceOpInput0Shared :: "64 word" where "kTfLiteInplaceOpInput0Shared \<equiv> 4"
abbreviation kTfLiteMaxSharableOpInputs :: nat where "kTfLiteMaxSharableOpInputs \<equiv> 3"

section \<open>The planner\<close>

record planner =
  pl_graph :: graph_info
  pl_allocs :: "arena_alloc list"
  nodes_to_tensors :: "int list list"
  alloc_node :: "int list"
  dealloc_node :: "int list"
  rw_arena :: arena
  has_nonpersistent_memory :: bool
  persistent_arena :: arena
  preserve_all_tensors :: bool
  tensor_alignment :: "64 word"
  last_active_node :: int
  actual_tensor_id :: "int \<Rightarrow> int option"
  refcounts :: "int list"

definition newAlloc :: arena_alloc where
  "newAlloc = \<lparr>a_offset = 0, a_size = 0, a_tensor = - 1, a_first_node = - 1, a_last_node = - 1\<rparr>"

definition newPlanner :: "graph_info \<Rightarrow> bool \<Rightarrow> 64 word \<Rightarrow> planner" where
  "newPlanner g preserve alignment = \<lparr>pl_graph = g, pl_allocs = [], nodes_to_tensors = [], alloc_node = [],
     dealloc_node = [], rw_arena = newArena 64, has_nonpersistent_memory = False, persistent_arena = newArena 64,
     preserve_all_tensors = preserve, tensor_alignment = alignment, last_active_node = kLastActiveNodeUndefined,
     actual_tensor_id = (\<lambda>_. None), refcounts = []\<rparr>"

abbreviation num_tensors :: "planner \<Rightarrow> nat" where "num_tensors p \<equiv> length (g_tensors (pl_graph p))"
abbreviation execution_nodes :: "planner \<Rightarrow> tfl_node list" where "execution_nodes p \<equiv> g_nodes (pl_graph p)"

text \<open>Operations on the arenas, and access to the vectors and the tensors by index.\<close>

definition onArena :: "(arena, 'a) op \<Rightarrow> (planner, 'a) op" where
  "onArena m = (\<lambda>p. case m (rw_arena p) of (r, a) \<Rightarrow> (r, p\<lparr>rw_arena := a\<rparr>))"

definition onPersistent :: "(arena, 'a) op \<Rightarrow> (planner, 'a) op" where
  "onPersistent m = (\<lambda>p. case m (persistent_arena p) of (r, a) \<Rightarrow> (r, p\<lparr>persistent_arena := a\<rparr>))"

definition readAt :: "(planner \<Rightarrow> 'a list) \<Rightarrow> int \<Rightarrow> (planner, 'a) op" where
  "readAt field i = andThen (gets field) (\<lambda>v. liftR (vecAt v i))"

definition tensorAt :: "int \<Rightarrow> (planner, tfl_tensor) op" where
  "tensorAt t = readAt (\<lambda>p. g_tensors (pl_graph p)) t"

definition setAllocNode :: "int \<Rightarrow> int \<Rightarrow> (planner, unit) op" where
  "setAllocNode t node = andThen (gets alloc_node) (\<lambda>v. andThen (liftR (writeAt v t node)) (\<lambda>v.
     modify (\<lambda>p. p\<lparr>alloc_node := v\<rparr>)))"

definition setDeallocNode :: "int \<Rightarrow> int \<Rightarrow> (planner, unit) op" where
  "setDeallocNode t node = andThen (gets dealloc_node) (\<lambda>v. andThen (liftR (writeAt v t node)) (\<lambda>v.
     modify (\<lambda>p. p\<lparr>dealloc_node := v\<rparr>)))"

definition setAllocOf :: "int \<Rightarrow> arena_alloc \<Rightarrow> (planner, unit) op" where
  "setAllocOf t a = andThen (gets pl_allocs) (\<lambda>v. andThen (liftR (writeAt v t a)) (\<lambda>v.
     modify (\<lambda>p. p\<lparr>pl_allocs := v\<rparr>)))"

definition addRef :: "int \<Rightarrow> (planner, unit) op" where
  "addRef t = andThen (readAt refcounts t) (\<lambda>n. andThen (gets refcounts) (\<lambda>v. andThen (liftR (writeAt v t (n + 1))) (\<lambda>v.
     modify (\<lambda>p. p\<lparr>refcounts := v\<rparr>))))"

text \<open>\<open>nodes_to_tensors_[node].insert(t)\<close>\<close>

definition insertTensor :: "int \<Rightarrow> int \<Rightarrow> (planner, unit) op" where
  "insertTensor node t = andThen (readAt nodes_to_tensors node) (\<lambda>ts. andThen (gets nodes_to_tensors) (\<lambda>v.
     andThen (liftR (writeAt v node (if t \<in> set ts then ts else ts @ [t]))) (\<lambda>v.
     modify (\<lambda>p. p\<lparr>nodes_to_tensors := v\<rparr>))))"

definition setData :: "int \<Rightarrow> 64 word \<Rightarrow> (planner, unit) op" where
  "setData t ptr = andThen (tensorAt t) (\<lambda>tensor. andThen (gets (\<lambda>p. g_tensors (pl_graph p))) (\<lambda>v.
     andThen (liftR (writeAt v t (tensor\<lparr>t_data := ptr\<rparr>))) (\<lambda>v.
     modify (\<lambda>p. p\<lparr>pl_graph := (pl_graph p)\<lparr>g_tensors := v\<rparr>\<rparr>))))"

text \<open>A loop over indices that skips \<open>kTfLiteOptionalTensor\<close>.\<close>

definition skipOptional :: "(int \<Rightarrow> (planner, unit) op) \<Rightarrow> int \<Rightarrow> (planner, unit) op" where
  "skipOptional f t = (if t \<noteq> kTfLiteOptionalTensor then f t else ret ())"

section \<open>Planning\<close>

definition ResetAllocations :: "(planner, unit) op" where
  "ResetAllocations =
     andThen (onArena ClearPlan) (\<lambda>_.
     andThen (onPersistent ClearPlan) (\<lambda>_.
     modify (\<lambda>p. p\<lparr>pl_allocs := replicate (num_tensors p) newAlloc, last_active_node := kLastActiveNodeUndefined\<rparr>)))"

definition FindSharedTensor :: "int \<Rightarrow> (planner, int) op" where
  "FindSharedTensor tensor_index =
     gets (\<lambda>p. case actual_tensor_id p tensor_index of None \<Rightarrow> tensor_index | Some t \<Rightarrow> t)"

definition InputTensorCanBeShared :: "int \<Rightarrow> int \<Rightarrow> bool \<Rightarrow> (planner, bool) op" where
  "InputTensorCanBeShared input_id output_id tensor_changed =
     andThen (tensorAt input_id) (\<lambda>input_tensor.
     andThen (tensorAt output_id) (\<lambda>output_tensor.
     andThen (if tensor_changed then readAt refcounts input_id else ret 0) (\<lambda>refs.
     andThen (gets id) (\<lambda>p.
     ret (\<not> (tensor_changed \<and> (t_bytes input_tensor \<noteq> t_bytes output_tensor \<or> t_bytes input_tensor \<le> kScalarTensorBytes)) \<and>
       \<not> (tensor_changed \<and> refs > 1) \<and>
       input_id \<notin> set (g_inputs (pl_graph p)) \<and> output_id \<notin> set (g_outputs (pl_graph p)) \<and>
       \<not> (t_allocation_type input_tensor \<noteq> t_allocation_type output_tensor \<and> t_allocation_type input_tensor \<noteq> kTfLiteArenaRw) \<and>
       \<not> preserve_all_tensors p)))))"

text \<open>The first input, among the first three, that the operator and the planner let the output
  share; \<open>kTfLiteInplaceOpInput0Shared << i\<close> is the flag of input \<open>i\<close>.\<close>

fun firstShareable :: "64 word \<Rightarrow> int \<Rightarrow> bool \<Rightarrow> nat \<Rightarrow> int list \<Rightarrow> (planner, int) op" where
  "firstShareable flags output_id tensor_changed i [] = ret (- 1)"
| "firstShareable flags output_id tensor_changed i (input_id # inputs) =
    (if input_id = kTfLiteOptionalTensor \<or> and flags (push_bit i kTfLiteInplaceOpInput0Shared) = 0 then
       firstShareable flags output_id tensor_changed (Suc i) inputs
     else
       andThen (InputTensorCanBeShared input_id output_id tensor_changed) (\<lambda>can.
       if can then ret input_id else firstShareable flags output_id tensor_changed (Suc i) inputs))"

definition shareNode :: "tfl_node \<Rightarrow> (planner, unit) op" where
  "shareNode node =
    (if n_outputs node = [] \<or> inplace_operator node = 0 then ret ()
     else
       let output_id = hd (n_outputs node);
           tensor_changed = (and (inplace_operator node) kTfLiteInplaceOpDataUnmodified = 0)
       in
       andThen (firstShareable (inplace_operator node) output_id tensor_changed 0
         (take kTfLiteMaxSharableOpInputs (n_inputs node))) (\<lambda>input_id.
       if input_id = - 1 then ret ()
       else
         andThen (FindSharedTensor input_id) (\<lambda>actual_output_tensor_id.
         andThen (if tensor_changed then readAt refcounts actual_output_tensor_id else ret 0) (\<lambda>refs.
         if tensor_changed \<and> refs > 1 then ret ()
         else modify (\<lambda>p. p\<lparr>actual_tensor_id := (actual_tensor_id p)(output_id \<mapsto> actual_output_tensor_id)\<rparr>)))))"

definition IdentifyInPlaceTensors :: "(planner, unit) op" where
  "IdentifyInPlaceTensors =
     andThen (modify (\<lambda>p. p\<lparr>actual_tensor_id := (\<lambda>_. None)\<rparr>)) (\<lambda>_.
     andThen (gets execution_nodes) (iterOp shareNode))"

text \<open>The two local functions of \<open>PlanAllocations\<close>.\<close>

definition allocateAt :: "int \<Rightarrow> int \<Rightarrow> (planner, unit) op" where
  "allocateAt node tensor =
     andThen (readAt alloc_node tensor) (\<lambda>a.
     if a \<noteq> kNodeNotAssigned then ret ()
     else
       andThen (readAt dealloc_node tensor) (\<lambda>d.
       andThen (failUnless (d = kNodeNotAssigned) TfLiteError) (\<lambda>_.
       setAllocNode tensor node)))"

definition deallocateAt :: "int \<Rightarrow> int \<Rightarrow> (planner, unit) op" where
  "deallocateAt node tensor =
     andThen (readAt alloc_node tensor) (\<lambda>a.
     if a = kNodeNotAssigned then ret ()
     else
       andThen (readAt dealloc_node tensor) (\<lambda>d.
       andThen (failUnless (d = kNodeNotAssigned) TfLiteError) (\<lambda>_.
       setDeallocNode tensor node)))"

definition planVariable :: "int \<Rightarrow> (planner, unit) op" where
  "planVariable t =
     andThen (addRef t) (\<lambda>_.
     andThen (failUnless (t \<noteq> kTfLiteOptionalTensor) TfLiteError) (\<lambda>_.
     andThen (allocateAt 0 t) (\<lambda>_. insertTensor 0 t)))"

definition planInput :: "int \<Rightarrow> (planner, unit) op" where
  "planInput t = andThen (addRef t) (\<lambda>_. andThen (allocateAt 0 t) (\<lambda>_. insertTensor 0 t))"

text \<open>The reference counts with sharing are local: they are passed from loop to loop.\<close>

fun countShared :: "int list \<Rightarrow> int list \<Rightarrow> (planner, int list) op" where
  "countShared [] rc = ret rc"
| "countShared (t # ts) rc =
    (if t = kTfLiteOptionalTensor then countShared ts rc
     else
       andThen (FindSharedTensor t) (\<lambda>r.
       andThen (liftR (vecAt rc r)) (\<lambda>n.
       andThen (liftR (writeAt rc r (n + 1))) (countShared ts))))"

fun releaseInputs :: "int \<Rightarrow> int list \<Rightarrow> int list \<Rightarrow> (planner, int list) op" where
  "releaseInputs node [] rc = ret rc"
| "releaseInputs node (t # ts) rc =
    (if t = kTfLiteOptionalTensor then releaseInputs node ts rc
     else
       andThen (FindSharedTensor t) (\<lambda>r.
       andThen (liftR (vecAt rc r)) (\<lambda>n.
       andThen (liftR (writeAt rc r (n - 1))) (\<lambda>rc.
       andThen (if n - 1 = 0 then deallocateAt node r else ret ()) (\<lambda>_.
       releaseInputs node ts rc)))))"

definition planOutput :: "int \<Rightarrow> int \<Rightarrow> (planner, unit) op" where
  "planOutput node t = andThen (insertTensor node t) (\<lambda>_. allocateAt node t)"

fun planNodes :: "int \<Rightarrow> tfl_node list \<Rightarrow> int list \<Rightarrow> (planner, unit) op" where
  "planNodes i [] rc = ret ()"
| "planNodes i (node # nodes) rc =
     andThen (iterOp (skipOptional (planOutput i)) (n_outputs node)) (\<lambda>_.
     andThen (gets preserve_all_tensors) (\<lambda>preserve.
     andThen (if preserve then ret rc else releaseInputs i (n_inputs node) rc) (planNodes (i + 1) nodes)))"

definition startPlan :: "planner \<Rightarrow> planner" where
  "startPlan p = p\<lparr>alloc_node := replicate (num_tensors p) kNodeNotAssigned,
     dealloc_node := replicate (num_tensors p) kNodeNotAssigned,
     nodes_to_tensors := replicate (max (length (execution_nodes p)) 1) [],
     refcounts := replicate (num_tensors p) 0\<rparr>"

definition PlanAllocations :: "(planner, unit) op" where
  "PlanAllocations =
     andThen ResetAllocations (\<lambda>_.
     andThen (modify startPlan) (\<lambda>_.
     andThen (gets pl_graph) (\<lambda>g.
     andThen (iterOp (skipOptional addRef) (g_outputs g)) (\<lambda>_.
     andThen (iterOp planVariable (g_variables g)) (\<lambda>_.
     andThen (iterOp (skipOptional planInput) (g_inputs g)) (\<lambda>_.
     andThen (gets refcounts) (\<lambda>rc.
     andThen (iterOp (\<lambda>node. iterOp (skipOptional addRef) (n_inputs node)) (g_nodes g)) (\<lambda>_.
     andThen IdentifyInPlaceTensors (\<lambda>_.
     andThen (foldOp (\<lambda>node. countShared (n_inputs node)) (g_nodes g) rc) (\<lambda>rc.
     planNodes 0 (g_nodes g) rc))))))))))"

section \<open>Executing a plan\<close>

text \<open>Temporaries of the nodes from \<open>first_node\<close> to \<open>last_node\<close>; the counter is a \<open>size_t\<close>.\<close>

definition planTemporary :: "int \<Rightarrow> int \<Rightarrow> (planner, unit) op" where
  "planTemporary i t =
     andThen (setAllocNode t i) (\<lambda>_.
     andThen (insertTensor i t) (\<lambda>_.
     andThen (gets preserve_all_tensors) (\<lambda>preserve.
     if preserve then ret () else setDeallocNode t i)))"

definition nodeRange :: "int \<Rightarrow> int \<Rightarrow> planner \<Rightarrow> int list" where
  "nodeRange first_node last_node p =
     filter (\<lambda>i. to_uint64 first_node \<le> i \<and> i \<le> to_uint64 last_node) [0..int (length (execution_nodes p)) - 1]"

definition planTemporaries :: "int \<Rightarrow> (planner, unit) op" where
  "planTemporaries i = andThen (readAt execution_nodes i) (\<lambda>node. iterOp (planTemporary i) (n_temporaries node))"

text \<open>\<open>std::sort\<close> with \<open>tensor_compare\<close>; the order of elements that compare equal, which the
  library leaves open, is the one in which they come.\<close>

primrec insertBy :: "('x \<Rightarrow> 'x \<Rightarrow> bool) \<Rightarrow> 'x \<Rightarrow> 'x list \<Rightarrow> 'x list" where
  "insertBy lt x [] = [x]"
| "insertBy lt x (y # ys) = (if lt y x then y # insertBy lt x ys else x # y # ys)"

definition sortBy :: "('x \<Rightarrow> 'x \<Rightarrow> bool) \<Rightarrow> 'x list \<Rightarrow> 'x list" where
  "sortBy lt xs = foldr (insertBy lt) xs []"

definition tensor_compare :: "planner \<Rightarrow> int \<Rightarrow> int \<Rightarrow> bool" where
  "tensor_compare p idx1 idx2 =
    (let whole = (\<lambda>idx. alloc_node p ! nat idx = 0 \<and> dealloc_node p ! nat idx = kNodeNotAssigned);
         size1 = t_bytes (g_tensors (pl_graph p) ! nat idx1); size2 = t_bytes (g_tensors (pl_graph p) ! nat idx2)
     in if whole idx1 then (if whole idx2 then idx1 < idx2 else True)
        else if whole idx2 then False
        else if size1 \<noteq> size2 then size1 > size2
        else alloc_node p ! nat idx1 < alloc_node p ! nat idx2)"

definition CreateTensorAllocationVector :: "int list \<Rightarrow> (planner, int list) op" where
  "CreateTensorAllocationVector ts = gets (\<lambda>p. sortBy (tensor_compare p) ts)"

definition GetTensorsToAllocate :: "(int list \<Rightarrow> int list) \<Rightarrow> int \<Rightarrow> int \<Rightarrow> (planner, int list) op" where
  "GetTensorsToAllocate hash_order first_node last_node =
     andThen (mapOp (readAt nodes_to_tensors) [first_node..last_node]) (\<lambda>tss. ret (concat (map hash_order tss)))"

text \<open>Which tensors get memory in an arena now.\<close>

definition needsArena :: "int \<Rightarrow> (planner, int list) op" where
  "needsArena t =
     andThen (tensorAt t) (\<lambda>tensor.
     if t_allocation_type tensor = kTfLiteArenaRw then
       andThen (readAt pl_allocs t) (\<lambda>a. ret (if a_size a < t_bytes tensor then [t] else []))
     else ret (if t_allocation_type tensor = kTfLiteArenaRwPersistent then [t] else []))"

text \<open>A shared tensor that can no longer be shared gets memory of its own.\<close>

definition staysShared :: "int \<Rightarrow> (planner, bool) op" where
  "staysShared t =
     andThen (gets actual_tensor_id) (\<lambda>shared.
     case shared t of None \<Rightarrow> ret False
     | Some r \<Rightarrow>
         andThen (tensorAt r) (\<lambda>root.
         andThen (tensorAt t) (\<lambda>tensor.
         if t_allocation_type root \<noteq> kTfLiteArenaRw \<or> t_bytes root \<noteq> t_bytes tensor then
           andThen (modify (\<lambda>p. p\<lparr>actual_tensor_id := (actual_tensor_id p)(t := None)\<rparr>)) (\<lambda>_. ret False)
         else ret True)))"

definition allocateTensor :: "int \<Rightarrow> (planner, unit) op" where
  "allocateTensor t =
     andThen (tensorAt t) (\<lambda>tensor.
     andThen (staysShared t) (\<lambda>shared.
     if shared then ret ()
     else
       andThen (gets tensor_alignment) (\<lambda>alignment.
       andThen (readAt alloc_node t) (\<lambda>first_node.
       andThen (readAt dealloc_node t) (\<lambda>last_node.
       if t_allocation_type tensor = kTfLiteArenaRw then
         andThen (onArena (Allocate alignment (t_bytes tensor) t first_node last_node)) (setAllocOf t)
       else if t_allocation_type tensor = kTfLiteArenaRwPersistent then
         andThen (readAt pl_allocs t) (\<lambda>a.
         if a_size a = 0 \<and> a_size a < t_bytes tensor then
           andThen (onPersistent (Allocate alignment (t_bytes tensor) t first_node int32_max)) (setAllocOf t)
         else ret ())
       else ret ())))))"

definition CalculateAllocations :: "(int list \<Rightarrow> int list) \<Rightarrow> int \<Rightarrow> int \<Rightarrow> (planner, int list) op" where
  "CalculateAllocations hash_order first_node last_node =
     andThen (GetTensorsToAllocate hash_order first_node last_node) (\<lambda>tensors_to_allocate.
     andThen (mapOp needsArena tensors_to_allocate) (\<lambda>needed.
     let tensors_allocated = concat needed in
     if tensors_allocated = [] then
       andThen (modify (\<lambda>p. p\<lparr>last_active_node := last_node\<rparr>)) (\<lambda>_. ret tensors_allocated)
     else
       andThen (gets last_active_node) (\<lambda>last_active.
       andThen (if first_node < last_active then
           andThen (onArena ResetAllocs) (\<lambda>_. modify (\<lambda>p. p\<lparr>last_active_node := first_node\<rparr>))
         else onArena (PurgeActiveAllocs first_node)) (\<lambda>_.
       andThen (CreateTensorAllocationVector tensors_allocated) (\<lambda>tensors_allocated.
       andThen (iterOp allocateTensor tensors_allocated) (\<lambda>_.
       andThen (modify (\<lambda>p. p\<lparr>last_active_node := last_node\<rparr>)) (\<lambda>_. ret tensors_allocated)))))))"

definition CommitArenas :: "allocator \<Rightarrow> (planner, bool) op" where
  "CommitArenas malloc_bytes =
     andThen (onArena (Commit malloc_bytes)) (\<lambda>arena_reallocated.
     andThen (modify (\<lambda>p. p\<lparr>has_nonpersistent_memory := True\<rparr>)) (\<lambda>_.
     andThen (onPersistent (Commit malloc_bytes)) (\<lambda>persistent_arena_reallocated.
     ret (arena_reallocated \<or> persistent_arena_reallocated))))"

definition AreTensorsAllocatedInSameArena :: "int \<Rightarrow> int \<Rightarrow> (planner, bool) op" where
  "AreTensorsAllocatedInSameArena root_tensor_index tensor_index =
     andThen (tensorAt root_tensor_index) (\<lambda>root.
     andThen (tensorAt tensor_index) (\<lambda>tensor.
     ret (t_allocation_type root = kTfLiteArenaRw \<and> t_allocation_type tensor = kTfLiteArenaRw \<or>
       t_allocation_type root = kTfLiteArenaRwPersistent \<and> t_allocation_type tensor = kTfLiteArenaRwPersistent)))"

text \<open>A tensor that owns its memory.\<close>

definition resolveOwn :: "int \<Rightarrow> (planner, unit) op" where
  "resolveOwn t =
     andThen (tensorAt t) (\<lambda>tensor.
     if t_allocation_type tensor = kTfLiteArenaRw then
       andThen (readAt pl_allocs t) (\<lambda>a. if a_size a \<noteq> 0 then andThen (onArena (ResolveAlloc a)) (setData t) else ret ())
     else if t_allocation_type tensor = kTfLiteArenaRwPersistent then
       andThen (readAt pl_allocs t) (\<lambda>a. andThen (onPersistent (ResolveAlloc a)) (setData t))
     else ret ())"

text \<open>A tensor that shares memory resolves the owner first and ignores its status. The recursion
  follows \<open>actual_tensor_id_\<close>; longer than the number of tensors it would not end.\<close>

fun resolveTensor :: "nat \<Rightarrow> int \<Rightarrow> (planner, unit) op" where
  "resolveTensor 0 t = faultWith Diverges"
| "resolveTensor (Suc fuel) t =
     andThen (FindSharedTensor t) (\<lambda>root.
     andThen (if root \<noteq> t then AreTensorsAllocatedInSameArena root t else ret False) (\<lambda>same_arena.
     if same_arena then
       andThen (tryStatus (resolveTensor fuel root)) (\<lambda>_.
       andThen (tensorAt root) (\<lambda>root_tensor. setData t (t_data root_tensor)))
     else resolveOwn t))"

definition ResolveTensorAllocation :: "int \<Rightarrow> (planner, unit) op" where
  "ResolveTensorAllocation t = andThen (gets num_tensors) (\<lambda>n. resolveTensor (Suc n) t)"

definition ExecuteAllocations :: "allocator \<Rightarrow> (int list \<Rightarrow> int list) \<Rightarrow> int \<Rightarrow> int \<Rightarrow> (planner, unit) op" where
  "ExecuteAllocations malloc_bytes hash_order first_node last_node =
     andThen (gets id) (\<lambda>p.
     andThen (failUnless (num_tensors p \<ge> length (pl_allocs p)) TfLiteError) (\<lambda>_.
     andThen (modify (\<lambda>p. p\<lparr>alloc_node := resizeWith (num_tensors p) kNodeNotAssigned (alloc_node p),
       dealloc_node := resizeWith (num_tensors p) kNodeNotAssigned (dealloc_node p),
       pl_allocs := resizeWith (num_tensors p) newAlloc (pl_allocs p)\<rparr>)) (\<lambda>_.
     andThen (iterOp planTemporaries (nodeRange first_node last_node p)) (\<lambda>_.
     andThen (CalculateAllocations hash_order first_node last_node) (\<lambda>tensors_allocated.
     andThen (CommitArenas malloc_bytes) (\<lambda>arena_reallocated.
     iterOp ResolveTensorAllocation
       (if arena_reallocated then [0..int (num_tensors p) - 1] else tensors_allocated)))))))"

section \<open>Releasing and restarting\<close>

text \<open>The tensors of the arena from index \<open>i\<close> on are passed to \<open>f\<close>.\<close>

definition forArenaTensors :: "(int \<Rightarrow> (planner, unit) op) \<Rightarrow> (planner, unit) op" where
  "forArenaTensors f = andThen (gets num_tensors) (\<lambda>n. iterOp (\<lambda>i.
     andThen (tensorAt i) (\<lambda>tensor. if t_allocation_type tensor = kTfLiteArenaRw then f i else ret ())) [0..int n - 1])"

definition ReleaseNonPersistentMemory :: "(planner, unit) op" where
  "ReleaseNonPersistentMemory =
     andThen (onArena ReleaseBuffer) (\<lambda>_.
     andThen (modify (\<lambda>p. p\<lparr>has_nonpersistent_memory := False\<rparr>)) (\<lambda>_.
     forArenaTensors (\<lambda>i. setData i 0)))"

definition AcquireNonPersistentMemory :: "allocator \<Rightarrow> (planner, unit) op" where
  "AcquireNonPersistentMemory malloc_bytes =
     andThen (onArena (Commit malloc_bytes)) (\<lambda>reallocated.
     andThen (modify (\<lambda>p. p\<lparr>has_nonpersistent_memory := True\<rparr>)) (\<lambda>_.
     forArenaTensors ResolveTensorAllocation))"

definition resetAfter :: "int \<Rightarrow> int \<Rightarrow> (planner, unit) op" where
  "resetAfter node i =
     andThen (readAt pl_allocs i) (\<lambda>a.
     if a_first_node a > node \<and> a_size a > 0 then
       andThen (tensorAt i) (\<lambda>tensor.
       if t_allocation_type tensor = kTfLiteArenaRw then
         andThen (setAllocOf i newAlloc) (\<lambda>_. setData i 0)
       else ret ())
     else ret ())"

definition ResetAllocationsAfter :: "int \<Rightarrow> (planner, unit) op" where
  "ResetAllocationsAfter node =
     andThen (gets (length \<circ> pl_allocs)) (\<lambda>n.
     andThen (iterOp (resetAfter node) [0..int n - 1]) (\<lambda>_.
     andThen (gets id) (\<lambda>p.
     andThen (onArena (if last_active_node p > node then CalculateActiveAllocs (pl_allocs p) node else PurgeAfter node)) (\<lambda>_.
     modify (\<lambda>p. p\<lparr>last_active_node := node\<rparr>)))))"

definition HasNonPersistentMemory :: "planner \<Rightarrow> bool" where
  "HasNonPersistentMemory p = has_nonpersistent_memory p"

definition BasePointer :: "planner \<Rightarrow> allocation_type \<Rightarrow> 64 word" where
  "BasePointer p type =
    (if type = kTfLiteArenaRwPersistent then aligned_pointer (underlying_buffer (persistent_arena p))
     else if type = kTfLiteArenaRw then aligned_pointer (underlying_buffer (rw_arena p)) else 0)"

definition GetAllocInfo :: "planner \<Rightarrow> 64 word \<times> 64 word" where
  "GetAllocInfo p = (data_size (underlying_buffer (rw_arena p)), data_size (underlying_buffer (persistent_arena p)))"

end
