(* ===== verification/PlannerLifetimes.thy ===== *)
theory PlannerLifetimes
  imports ArenaPlanner
begin

text \<open>
  What \<open>PlanAllocations\<close> computes: it succeeds on every graph whose nodes are in order, and the
  interval of nodes it gives to the owner of a piece of memory contains every node that uses a
  tensor in it.
\<close>

section \<open>Vectors as functions\<close>

definition reads :: "'a list \<Rightarrow> nat \<Rightarrow> (int \<Rightarrow> 'a) \<Rightarrow> bool" where
  "reads v n f \<longleftrightarrow> length v = n \<and> (\<forall>t. 0 \<le> t \<and> t < int n \<longrightarrow> v ! nat t = f t)"

abbreviation within :: "nat \<Rightarrow> int \<Rightarrow> bool" where "within n t \<equiv> 0 \<le> t \<and> t < int n"

lemma reads_vecAt: "reads v n f \<Longrightarrow> within n t \<Longrightarrow> vecAt v t = Inr (f t)"
  by (simp add: reads_def vecAt_def)

lemma reads_writeAt:
  "reads v n f \<Longrightarrow> within n t \<Longrightarrow> \<exists>v'. writeAt v t x = Inr v' \<and> reads v' n (f(t := x))"
  by (auto simp: reads_def writeAt_def nth_list_update nat_eq_iff2)

lemma reads_replicate: "reads (replicate n x) n (\<lambda>_. x)"
  by (auto simp: reads_def)

lemma reads_cong: "reads v n f \<Longrightarrow> (\<And>t. within n t \<Longrightarrow> f t = g t) \<Longrightarrow> reads v n g"
  by (simp add: reads_def)

section \<open>The state of the plan\<close>

text \<open>The parts of the planner that planning leaves alone, and the vectors it fills: first nodes,
  last nodes, reference counts, tensors of each node and shared tensors.\<close>

definition rest_of :: "planner \<Rightarrow> planner" where
  "rest_of p = p\<lparr>alloc_node := [], dealloc_node := [], refcounts := [], nodes_to_tensors := [], actual_tensor_id := (\<lambda>_. None)\<rparr>"

definition plan_is ::
    "planner \<Rightarrow> (int \<Rightarrow> int) \<Rightarrow> (int \<Rightarrow> int) \<Rightarrow> (int \<Rightarrow> int) \<Rightarrow> (int \<Rightarrow> int set) \<Rightarrow> (int \<Rightarrow> int option) \<Rightarrow> planner \<Rightarrow> bool" where
  "plan_is K A D F S M p \<longleftrightarrow> rest_of p = K \<and> reads (alloc_node p) (num_tensors K) A \<and>
     reads (dealloc_node p) (num_tensors K) D \<and> reads (refcounts p) (num_tensors K) F \<and>
     reads (map set (nodes_to_tensors p)) (max (length (execution_nodes K)) 1) S \<and> actual_tensor_id p = M"

lemma rest_of_simps [simp]:
  "rest_of (p\<lparr>alloc_node := v\<rparr>) = rest_of p" "rest_of (p\<lparr>dealloc_node := v\<rparr>) = rest_of p"
  "rest_of (p\<lparr>refcounts := v\<rparr>) = rest_of p" "rest_of (p\<lparr>nodes_to_tensors := ts\<rparr>) = rest_of p"
  "rest_of (p\<lparr>actual_tensor_id := M\<rparr>) = rest_of p"
  by (simp_all add: rest_of_def)

lemma rest_of_graph:
  assumes "rest_of p = K"
  shows "pl_graph p = pl_graph K" "preserve_all_tensors p = preserve_all_tensors K"
  using assms by (auto simp: rest_of_def)

lemma plan_is_facts:
  assumes "plan_is K A D F S M p"
  shows "actual_tensor_id p = M" "reads (alloc_node p) (num_tensors K) A" "reads (dealloc_node p) (num_tensors K) D"
    "reads (map set (nodes_to_tensors p)) (max (length (execution_nodes K)) 1) S" "pl_graph p = pl_graph K"
  using assms rest_of_graph(1)[of p K] by (simp_all add: plan_is_def)

lemma addRef_run:
  assumes "plan_is K A D F S M p" "within (num_tensors K) t"
  shows "\<exists>p'. addRef t p = (Inr (), p') \<and> plan_is K A D (F(t := F t + 1)) S M p'"
proof -
  have r: "reads (refcounts p) (num_tensors K) F" using assms(1) by (simp add: plan_is_def)
  obtain v where v: "writeAt (refcounts p) t (F t + 1) = Inr v" "reads v (num_tensors K) (F(t := F t + 1))"
    using reads_writeAt[OF r assms(2)] by blast
  have "addRef t p = (Inr (), p\<lparr>refcounts := v\<rparr>)"
    using reads_vecAt[OF r assms(2)] v(1) by (simp add: addRef_def readAt_def op_simps andThen_def)
  then show ?thesis using assms(1) v(2) by (simp add: plan_is_def)
qed

lemma allocateAt_run:
  assumes "plan_is K A D F S M p" "within (num_tensors K) t" "A t = kNodeNotAssigned \<Longrightarrow> D t = kNodeNotAssigned"
  shows "\<exists>p'. allocateAt i t p = (Inr (), p') \<and>
    plan_is K (if A t = kNodeNotAssigned then A(t := i) else A) D F S M p'"
proof -
  have r: "reads (alloc_node p) (num_tensors K) A" "reads (dealloc_node p) (num_tensors K) D"
    using assms(1) by (simp_all add: plan_is_def)
  obtain v where v: "writeAt (alloc_node p) t i = Inr v" "reads v (num_tensors K) (A(t := i))"
    using reads_writeAt[OF r(1) assms(2)] by blast
  show ?thesis
    using assms reads_vecAt[OF r(1) assms(2)] reads_vecAt[OF r(2) assms(2)] v
    by (auto simp: allocateAt_def setAllocNode_def readAt_def op_simps andThen_def plan_is_def)
qed

lemma deallocateAt_run:
  assumes "plan_is K A D F S M p" "within (num_tensors K) t" "D t = kNodeNotAssigned"
  shows "\<exists>p'. deallocateAt i t p = (Inr (), p') \<and>
    plan_is K A (if A t = kNodeNotAssigned then D else D(t := i)) F S M p'"
proof -
  have r: "reads (alloc_node p) (num_tensors K) A" "reads (dealloc_node p) (num_tensors K) D"
    using assms(1) by (simp_all add: plan_is_def)
  obtain v where v: "writeAt (dealloc_node p) t i = Inr v" "reads v (num_tensors K) (D(t := i))"
    using reads_writeAt[OF r(2) assms(2)] by blast
  show ?thesis
    using assms reads_vecAt[OF r(1) assms(2)] reads_vecAt[OF r(2) assms(2)] v
    by (auto simp: deallocateAt_def setDeallocNode_def readAt_def op_simps andThen_def plan_is_def)
qed

lemma insertTensor_run:
  assumes "plan_is K A D F S M p" "within (max (length (execution_nodes K)) 1) i"
  shows "\<exists>p'. insertTensor i t p = (Inr (), p') \<and> plan_is K A D F (S(i := insert t (S i))) M p'"
proof -
  let ?v = "nodes_to_tensors p" and ?n = "max (length (execution_nodes K)) 1"
  have r: "reads (map set ?v) ?n S" using assms(1) by (simp add: plan_is_def)
  have l: "nat i < length ?v" using r assms(2) by (auto simp: reads_def)
  let ?ts = "if t \<in> set (?v ! nat i) then ?v ! nat i else ?v ! nat i @ [t]"
  have "insertTensor i t p = (Inr (), p\<lparr>nodes_to_tensors := ?v[nat i := ?ts]\<rparr>)"
    using assms(2) l by (simp add: insertTensor_def readAt_def op_simps andThen_def vecAt_def writeAt_def)
  moreover have "set (?v ! nat i) = S i" using r assms(2) l by (auto simp: reads_def)
  then have "set ?ts = insert t (S i)" by auto
  then have "reads (map set (?v[nat i := ?ts])) ?n (S(i := insert t (S i)))"
    using r assms(2) l by (auto simp: reads_def nth_list_update nat_eq_iff2 map_update)
  ultimately show ?thesis using assms(1) by (simp add: plan_is_def)
qed

section \<open>Graphs in order\<close>

abbreviation present :: "int list \<Rightarrow> int list" where "present ts \<equiv> filter (\<lambda>t. t \<noteq> kTfLiteOptionalTensor) ts"
abbreviation inputsOf :: "tfl_node \<Rightarrow> int list" where "inputsOf node \<equiv> present (n_inputs node)"
abbreviation outputsOf :: "tfl_node \<Rightarrow> int list" where "outputsOf node \<equiv> present (n_outputs node)"
abbreviation sources :: "graph_info \<Rightarrow> int set" where "sources g \<equiv> set (g_variables g) \<union> set (present (g_inputs g))"

text \<open>Indices are in range, a tensor is computed by one node before any node reads it, and no node
  computes an input of the graph or a variable.\<close>

definition in_order :: "graph_info \<Rightarrow> bool" where
  "in_order g \<longleftrightarrow>
    (let n = length (g_tensors g); nodes = g_nodes g; valid = list_all (within n) in
      int (length nodes) < kNodeNotAssigned \<and>
      valid (present (g_inputs g)) \<and> valid (present (g_outputs g)) \<and> valid (g_variables g) \<and>
      list_all (\<lambda>node. valid (inputsOf node) \<and> valid (outputsOf node) \<and> valid (n_temporaries node) \<and>
        (inplace_operator node \<noteq> 0 \<and> n_outputs node \<noteq> [] \<longrightarrow> hd (n_outputs node) \<noteq> kTfLiteOptionalTensor) \<and>
        list_all (\<lambda>t. t \<notin> sources g) (outputsOf node)) nodes \<and>
      list_all (\<lambda>i. list_all (\<lambda>j.
        (j \<noteq> i \<longrightarrow> list_all (\<lambda>t. t \<notin> set (outputsOf (nodes ! j))) (outputsOf (nodes ! i))) \<and>
        (i \<le> j \<longrightarrow> list_all (\<lambda>t. t \<notin> set (outputsOf (nodes ! j))) (inputsOf (nodes ! i))))
        [0..<length nodes]) [0..<length nodes])"

lemma in_order_facts:
  assumes "in_order g"
  shows "int (length (g_nodes g)) < kNodeNotAssigned"
    "t \<in> set (present (g_inputs g)) \<union> set (present (g_outputs g)) \<union> set (g_variables g) \<Longrightarrow> within (length (g_tensors g)) t"
    "i < length (g_nodes g) \<Longrightarrow> t \<in> set (inputsOf (g_nodes g ! i)) \<union> set (outputsOf (g_nodes g ! i)) \<union> set (n_temporaries (g_nodes g ! i)) \<Longrightarrow>
      within (length (g_tensors g)) t"
    "i < length (g_nodes g) \<Longrightarrow> inplace_operator (g_nodes g ! i) \<noteq> 0 \<Longrightarrow> n_outputs (g_nodes g ! i) \<noteq> [] \<Longrightarrow>
      hd (n_outputs (g_nodes g ! i)) \<noteq> kTfLiteOptionalTensor"
    "i < length (g_nodes g) \<Longrightarrow> t \<in> set (outputsOf (g_nodes g ! i)) \<Longrightarrow> t \<notin> sources g"
    "i < length (g_nodes g) \<Longrightarrow> j < length (g_nodes g) \<Longrightarrow> t \<in> set (outputsOf (g_nodes g ! i)) \<Longrightarrow>
      t \<in> set (outputsOf (g_nodes g ! j)) \<Longrightarrow> i = j"
    "i < length (g_nodes g) \<Longrightarrow> j < length (g_nodes g) \<Longrightarrow> t \<in> set (inputsOf (g_nodes g ! i)) \<Longrightarrow>
      t \<in> set (outputsOf (g_nodes g ! j)) \<Longrightarrow> j < i"
proof -
  note U = assms[unfolded in_order_def Let_def list_all_iff]
  show "int (length (g_nodes g)) < kNodeNotAssigned" using U by blast
  show "t \<in> set (present (g_inputs g)) \<union> set (present (g_outputs g)) \<union> set (g_variables g) \<Longrightarrow> within (length (g_tensors g)) t"
    using U by blast
  assume i: "i < length (g_nodes g)"
  then have m: "g_nodes g ! i \<in> set (g_nodes g)" "i \<in> set [0..<length (g_nodes g)]" by simp_all
  show "t \<in> set (inputsOf (g_nodes g ! i)) \<union> set (outputsOf (g_nodes g ! i)) \<union> set (n_temporaries (g_nodes g ! i)) \<Longrightarrow>
      within (length (g_tensors g)) t" using U m by blast
  show "inplace_operator (g_nodes g ! i) \<noteq> 0 \<Longrightarrow> n_outputs (g_nodes g ! i) \<noteq> [] \<Longrightarrow>
      hd (n_outputs (g_nodes g ! i)) \<noteq> kTfLiteOptionalTensor" using U m by blast
  show "t \<in> set (outputsOf (g_nodes g ! i)) \<Longrightarrow> t \<notin> sources g" using U m by blast
  assume "j < length (g_nodes g)"
  then have j: "j \<in> set [0..<length (g_nodes g)]" by simp
  show "t \<in> set (outputsOf (g_nodes g ! i)) \<Longrightarrow> t \<in> set (outputsOf (g_nodes g ! j)) \<Longrightarrow> i = j"
    using U m(2) j by blast
  show "t \<in> set (inputsOf (g_nodes g ! i)) \<Longrightarrow> t \<in> set (outputsOf (g_nodes g ! j)) \<Longrightarrow> j < i"
    using U m(2) j by (meson not_le)
qed

section \<open>Sources\<close>

lemma iterOp_skip: "iterOp (skipOptional f) ts = iterOp f (present ts)"
proof (induction ts)
  case (Cons t ts)
  have "andThen (ret ()) (\<lambda>_. m) = m" for m :: "(planner, unit) op" by (simp add: andThen_ret fun_eq_iff)
  then show ?case using Cons by (simp add: skipOptional_def)
qed simp

abbreviation times :: "int list \<Rightarrow> int \<Rightarrow> int" where "times ts t \<equiv> int (count_list ts t)"

lemma count_list_snoc: "count_list (xs @ ys) t = count_list xs t + count_list ys t"
  by (induction xs) auto

lemma addRefs_run:
  assumes "plan_is K A D F S M p" "list_all (within (num_tensors K)) ts"
  shows "\<exists>p'. iterOp addRef ts p = (Inr (), p') \<and> plan_is K A D (\<lambda>t. F t + times ts t) S M p'"
proof (rule iterOp_rule[where I = "\<lambda>ys. plan_is K A D (\<lambda>t. F t + times ys t) S M"])
  fix ys x zs s
  assume "ts = ys @ x # zs" and s: "plan_is K A D (\<lambda>t. F t + times ys t) S M s"
  then have x: "within (num_tensors K) x" using assms(2) by simp
  have "(\<lambda>t. F t + times ys t)(x := F x + times ys x + 1) = (\<lambda>t. F t + times (ys @ [x]) t)"
    by (auto simp: count_list_snoc)
  then show "\<exists>s'. addRef x s = (Inr (), s') \<and> plan_is K A D (\<lambda>t. F t + times (ys @ [x]) t) S M s'"
    using addRef_run[OF s x] by simp
qed (use assms(1) in simp)

text \<open>The nodes that allocate each tensor, when the first \<open>k\<close> nodes have been planned.\<close>

definition startNode :: "int set \<Rightarrow> int \<Rightarrow> int" where
  "startNode T t = (if t \<in> T then 0 else kNodeNotAssigned)"

lemma planInputs_run:
  assumes "plan_is K (startNode T) (\<lambda>_. kNodeNotAssigned) F S M p" "list_all (within (num_tensors K)) ts"
    and f: "f = planInput \<or> f = planVariable"
  shows "\<exists>p'. iterOp f ts p = (Inr (), p') \<and> plan_is K (startNode (T \<union> set ts)) (\<lambda>_. kNodeNotAssigned)
    (\<lambda>t. F t + times ts t) (S(0 := S 0 \<union> set ts)) M p'"
proof (rule iterOp_rule[where I = "\<lambda>ys. plan_is K (startNode (T \<union> set ys)) (\<lambda>_. kNodeNotAssigned)
    (\<lambda>t. F t + times ys t) (S(0 := S 0 \<union> set ys)) M"])
  fix ys x zs s
  let ?F = "\<lambda>ys t. F t + times ys t" and ?T = "T \<union> set ys" and ?S = "S(0 := S 0 \<union> set ys)"
  assume "ts = ys @ x # zs" and s: "plan_is K (startNode ?T) (\<lambda>_. kNodeNotAssigned) (?F ys) ?S M s"
  then have x: "within (num_tensors K) x" using assms(2) by simp
  have e: "(?F ys)(x := ?F ys x + 1) = ?F (ys @ [x])" by (auto simp: count_list_snoc)
  obtain s1 where s1: "addRef x s = (Inr (), s1)"
      "plan_is K (startNode ?T) (\<lambda>_. kNodeNotAssigned) (?F (ys @ [x])) ?S M s1"
    using addRef_run[OF s x] unfolding e by blast
  have a: "(if startNode ?T x = kNodeNotAssigned then (startNode ?T)(x := 0) else startNode ?T) = startNode (T \<union> set (ys @ [x]))"
    by (auto simp: startNode_def)
  obtain s2 where s2: "allocateAt 0 x s1 = (Inr (), s2)"
      "plan_is K (startNode (T \<union> set (ys @ [x]))) (\<lambda>_. kNodeNotAssigned) (?F (ys @ [x])) ?S M s2"
    using allocateAt_run[OF s1(2) x refl, of 0] unfolding a by blast
  have i: "?S(0 := insert x (?S 0)) = S(0 := S 0 \<union> set (ys @ [x]))" by auto
  obtain s3 where s3: "insertTensor 0 x s2 = (Inr (), s3)"
      "plan_is K (startNode (T \<union> set (ys @ [x]))) (\<lambda>_. kNodeNotAssigned) (?F (ys @ [x])) (S(0 := S 0 \<union> set (ys @ [x]))) M s3"
    using insertTensor_run[OF s2(2), of 0 x] unfolding i by (auto simp: less_max_iff_disj)
  show "\<exists>s'. f x s = (Inr (), s') \<and> plan_is K (startNode (T \<union> set (ys @ [x]))) (\<lambda>_. kNodeNotAssigned)
      (\<lambda>t. F t + times (ys @ [x]) t) (S(0 := S 0 \<union> set (ys @ [x]))) M s'"
    using f s1(1) s2(1) s3 x by (auto simp: planInput_def planVariable_def op_simps andThen_def)
qed (use assms(1) in simp)

section \<open>Sharing\<close>

definition owner :: "(int \<Rightarrow> int option) \<Rightarrow> int \<Rightarrow> int" where
  "owner M t = (case M t of None \<Rightarrow> t | Some r \<Rightarrow> r)"

lemma FindSharedTensor_run: "FindSharedTensor t p = (Inr (owner (actual_tensor_id p) t), p)"
  by (simp add: FindSharedTensor_def owner_def op_simps)

lemma tensorAt_run: "within (num_tensors p) t \<Longrightarrow> tensorAt t p = (Inr (g_tensors (pl_graph p) ! nat t), p)"
  by (simp add: tensorAt_def readAt_def op_simps vecAt_def)

lemma readAt_run: "reads (field p) n f \<Longrightarrow> within n t \<Longrightarrow> readAt field t p = (Inr (f t), p)"
  by (simp add: readAt_def op_simps reads_vecAt)

lemma firstShareable_run:
  assumes "reads (refcounts p) (num_tensors p) F" "list_all (within (num_tensors p)) (present xs)" "within (num_tensors p) out"
  shows "\<exists>x. firstShareable flags out changed i xs p = (Inr x, p) \<and>
    (x = - 1 \<or> x \<in> set (present xs) \<and> out \<notin> set (g_outputs (pl_graph p)))"
  using assms(2)
proof (induction xs arbitrary: i)
  case Nil
  then show ?case by (simp add: ret_run)
next
  case (Cons x xs)
  then obtain y where y: "firstShareable flags out changed (Suc i) xs p = (Inr y, p)"
      "y = - 1 \<or> y \<in> set (present xs) \<and> out \<notin> set (g_outputs (pl_graph p))"
    by (fastforce split: if_splits)
  show ?case
  proof (cases "x = kTfLiteOptionalTensor \<or> and flags (push_bit i kTfLiteInplaceOpInput0Shared) = 0")
    case True
    then show ?thesis using y by auto
  next
    case False
    then have x: "within (num_tensors p) x" using Cons.prems by simp
    obtain can where c: "InputTensorCanBeShared x out changed p = (Inr can, p)" "can \<longrightarrow> out \<notin> set (g_outputs (pl_graph p))"
      using tensorAt_run[OF x] tensorAt_run[OF assms(3)] readAt_run[where field = refcounts, OF assms(1) x]
      by (cases changed) (auto simp: InputTensorCanBeShared_def op_simps andThen_def)
    show ?thesis using False c y by (cases can) (auto simp: andThen_def ret_run)
  qed
qed

lemma shareNode_run:
  assumes p: "plan_is K A D F S M p" and n: "list_all (within (num_tensors K)) (inputsOf node)"
    and o: "n_outputs node \<noteq> [] \<Longrightarrow> inplace_operator node \<noteq> 0 \<Longrightarrow> within (num_tensors K) (hd (n_outputs node))"
    and r: "\<And>x. x \<in> set (inputsOf node) \<Longrightarrow> within (num_tensors K) (owner M x)"
  shows "\<exists>p' M'. shareNode node p = (Inr (), p') \<and> plan_is K A D F S M' p' \<and>
    (M' = M \<or> (\<exists>x \<in> set (inputsOf node). n_outputs node \<noteq> [] \<and> inplace_operator node \<noteq> 0 \<and>
      hd (n_outputs node) \<notin> set (g_outputs (pl_graph K)) \<and> M' = M(hd (n_outputs node) \<mapsto> owner M x)))"
proof (cases "n_outputs node = [] \<or> inplace_operator node = 0")
  case True
  then show ?thesis using p by (auto simp: shareNode_def ret_run)
next
  case False
  have k: "rest_of p = K" "reads (refcounts p) (num_tensors K) F" "actual_tensor_id p = M"
    using p by (auto simp: plan_is_def)
  have g: "pl_graph p = pl_graph K" by (rule rest_of_graph(1)[OF k(1)])
  let ?changed = "and (inplace_operator node) kTfLiteInplaceOpDataUnmodified = 0"
  let ?xs = "take kTfLiteMaxSharableOpInputs (n_inputs node)"
  have sub: "set (present ?xs) \<subseteq> set (inputsOf node)" using set_take_subset by fastforce
  obtain x where x: "firstShareable (inplace_operator node) (hd (n_outputs node)) ?changed 0 ?xs p = (Inr x, p)"
      "x = - 1 \<or> x \<in> set (present ?xs) \<and> hd (n_outputs node) \<notin> set (g_outputs (pl_graph K))"
    using firstShareable_run[of p F ?xs "hd (n_outputs node)" "inplace_operator node" ?changed 0] k(2) n sub o False
    unfolding g by (auto simp: list_all_iff subset_iff)
  show ?thesis
  proof (cases "x = - 1")
    case True
    then show ?thesis using False x(1) p by (auto simp: shareNode_def Let_def andThen_def ret_run)
  next
    case ne: False
    then have xi: "x \<in> set (inputsOf node)" "hd (n_outputs node) \<notin> set (g_outputs (pl_graph K))" using x(2) sub by auto
    have rd: "readAt refcounts (owner M x) p = (Inr (F (owner M x)), p)" by (rule readAt_run[where field = refcounts, OF k(2) r[OF xi(1)]])
    have "shareNode node p = (if ?changed \<and> F (owner M x) > 1 then (Inr (), p)
        else (Inr (), p\<lparr>actual_tensor_id := M(hd (n_outputs node) \<mapsto> owner M x)\<rparr>))"
      using False x(1) ne rd k(3)
      by (auto simp: shareNode_def Let_def op_simps andThen_def FindSharedTensor_run)
    then show ?thesis using p xi False by (auto simp: plan_is_def)
  qed
qed

text \<open>Of the first \<open>k\<close> nodes, those that share: the owner is an input, no owner shares, and no
  output of the graph shares.\<close>

definition sharedInv :: "graph_info \<Rightarrow> nat \<Rightarrow> (int \<Rightarrow> int option) \<Rightarrow> bool" where
  "sharedInv g k M \<longleftrightarrow> (\<forall>t r. M t = Some r \<longrightarrow> M r = None \<and> t \<notin> set (g_outputs g) \<and>
    (\<exists>j<k. t \<in> set (outputsOf (g_nodes g ! j)) \<and> (\<exists>x \<in> set (inputsOf (g_nodes g ! j)). owner M x = r) \<and>
      (\<exists>i\<le>j. r \<in> set (inputsOf (g_nodes g ! i)))))"

lemma sharedInv_owner:
  assumes "sharedInv g k M" "in_order g" "k < length (g_nodes g)" "x \<in> set (inputsOf (g_nodes g ! k))"
  shows "M (owner M x) = None \<and> (\<exists>i\<le>k. owner M x \<in> set (inputsOf (g_nodes g ! i)))"
proof (cases "M x")
  case None
  then show ?thesis using assms(4) by (auto simp: owner_def)
next
  case (Some r)
  then obtain j i where "M r = None" "j < k" "i \<le> j" "r \<in> set (inputsOf (g_nodes g ! i))"
    using assms(1) unfolding sharedInv_def by blast
  then show ?thesis using Some by (intro conjI exI[of _ i]) (auto simp: owner_def)
qed

lemma sharedInv_step:
  assumes M: "sharedInv g k M" and g: "in_order g" and k: "k < length (g_nodes g)"
    and x: "x \<in> set (inputsOf (g_nodes g ! k))" and t: "t \<in> set (outputsOf (g_nodes g ! k))" "t \<notin> set (g_outputs g)"
  shows "sharedInv g (Suc k) (M(t \<mapsto> owner M x))"
proof -
  have before: "y \<noteq> t" if "i \<le> k" "y \<in> set (inputsOf (g_nodes g ! i))" for i y
    using in_order_facts(7)[OF g, of i k y] that t(1) k by auto
  let ?M = "M(t \<mapsto> owner M x)"
  have same: "owner ?M y = owner M y" if "i \<le> k" "y \<in> set (inputsOf (g_nodes g ! i))" for i y
    using before[OF that] by (simp add: owner_def)
  obtain i where i: "i \<le> k" "owner M x \<in> set (inputsOf (g_nodes g ! i))" "M (owner M x) = None"
    using sharedInv_owner[OF M g k x] by blast
  show ?thesis
    unfolding sharedInv_def
  proof (intro allI impI)
    fix t' r assume a: "?M t' = Some r"
    show "?M r = None \<and> t' \<notin> set (g_outputs g) \<and> (\<exists>j<Suc k. t' \<in> set (outputsOf (g_nodes g ! j)) \<and>
        (\<exists>x \<in> set (inputsOf (g_nodes g ! j)). owner ?M x = r) \<and> (\<exists>i\<le>j. r \<in> set (inputsOf (g_nodes g ! i))))"
    proof (cases "t' = t")
      case True
      then have r: "r = owner M x" using a by simp
      show ?thesis using before[OF i(1,2)] i t x same[OF order_refl x] unfolding r True by auto
    next
      case False
      then have "M t' = Some r" using a by simp
      then obtain j y i' where j: "M r = None" "t' \<notin> set (g_outputs g)" "j < k" "t' \<in> set (outputsOf (g_nodes g ! j))"
          "y \<in> set (inputsOf (g_nodes g ! j))" "owner M y = r" "i' \<le> j" "r \<in> set (inputsOf (g_nodes g ! i'))"
        using M unfolding sharedInv_def by blast
      then have "r \<noteq> t" "owner ?M y = r" using before[of i' r] same[of j y] by auto
      then have "?M r = None" "\<exists>x \<in> set (inputsOf (g_nodes g ! j)). owner ?M x = r" using j(1,5) by auto
      moreover have "j < Suc k" using j(3) by simp
      ultimately show ?thesis using j(2,4,7,8) by blast
    qed
  qed
qed

lemma sharedInv_Suc: "sharedInv g k M \<Longrightarrow> sharedInv g (Suc k) M"
  unfolding sharedInv_def by (meson less_SucI)

lemma nth_prefix: "xs = ys @ x # zs \<Longrightarrow> x = xs ! length ys \<and> length ys < length xs"
  by simp

lemma IdentifyInPlaceTensors_run:
  assumes p: "plan_is K A D F S M0 p" and g: "in_order (pl_graph K)"
  shows "\<exists>p' M. IdentifyInPlaceTensors p = (Inr (), p') \<and> plan_is K A D F S M p' \<and>
    sharedInv (pl_graph K) (length (execution_nodes K)) M"
proof -
  let ?g = "pl_graph K"
  let ?q = "p\<lparr>actual_tensor_id := (\<lambda>_. None)\<rparr>"
  have q: "plan_is K A D F S (\<lambda>_. None) ?q" using p by (simp add: plan_is_def)
  have nodes: "execution_nodes ?q = g_nodes ?g" using rest_of_graph(1)[of p K] p by (simp add: plan_is_def)
  have "\<exists>p'. iterOp shareNode (g_nodes ?g) ?q = (Inr (), p') \<and>
      (\<exists>M. plan_is K A D F S M p' \<and> sharedInv ?g (length (g_nodes ?g)) M)"
  proof (rule iterOp_rule[where I = "\<lambda>ys s. \<exists>M. plan_is K A D F S M s \<and> sharedInv ?g (length ys) M"])
    fix ys x zs s
    assume xs: "g_nodes ?g = ys @ x # zs" and "\<exists>M. plan_is K A D F S M s \<and> sharedInv ?g (length ys) M"
    then obtain M where s: "plan_is K A D F S M s" and M: "sharedInv ?g (length ys) M" by blast
    let ?k = "length ys"
    have k: "x = g_nodes ?g ! ?k" "?k < length (g_nodes ?g)" using nth_prefix[OF xs] by auto
    have r: "within (num_tensors K) (owner M y)" if y: "y \<in> set (inputsOf x)" for y
    proof -
      obtain i where "i \<le> ?k" "owner M y \<in> set (inputsOf (g_nodes ?g ! i))"
        using sharedInv_owner[OF M g k(2)] y k(1) by blast
      then show ?thesis using in_order_facts(3)[OF g, of i "owner M y"] k(2) by auto
    qed
    have n: "list_all (within (num_tensors K)) (inputsOf x)"
      using in_order_facts(3)[OF g k(2)] k(1) by (auto simp: list_all_iff)
    have hd_out: "hd (n_outputs x) \<in> set (outputsOf x)" if "n_outputs x \<noteq> []" "inplace_operator x \<noteq> 0"
      using in_order_facts(4)[OF g k(2)] that k(1) by simp
    have o: "within (num_tensors K) (hd (n_outputs x))" if "n_outputs x \<noteq> []" "inplace_operator x \<noteq> 0"
      using in_order_facts(3)[OF g k(2), of "hd (n_outputs x)"] hd_out[OF that] k(1) by auto
    obtain s' M' where s': "shareNode x s = (Inr (), s')" "plan_is K A D F S M' s'"
      and M': "M' = M \<or> (\<exists>y \<in> set (inputsOf x). n_outputs x \<noteq> [] \<and> inplace_operator x \<noteq> 0 \<and>
        hd (n_outputs x) \<notin> set (g_outputs ?g) \<and> M' = M(hd (n_outputs x) \<mapsto> owner M y))"
      using shareNode_run[OF s n o r] by blast
    have "sharedInv ?g (Suc ?k) M'"
      using M' sharedInv_Suc[OF M] sharedInv_step[OF M g k(2)] hd_out unfolding k(1)[symmetric] by auto
    then show "\<exists>s'. shareNode x s = (Inr (), s') \<and> (\<exists>M. plan_is K A D F S M s' \<and> sharedInv ?g (length (ys @ [x])) M)"
      using s' by auto
  qed (use q in \<open>auto simp: sharedInv_def\<close>)
  then show ?thesis unfolding IdentifyInPlaceTensors_def andThen_modify andThen_gets nodes by blast
qed

section \<open>Counting and releasing\<close>

abbreviation usesOf :: "(int \<Rightarrow> int option) \<Rightarrow> int list \<Rightarrow> int list" where
  "usesOf M ts \<equiv> map (owner M) (present ts)"

lemma countShared_run:
  assumes "actual_tensor_id p = M" "reads rc n f" "list_all (within n) (usesOf M ts)"
  shows "\<exists>rc'. countShared ts rc p = (Inr rc', p) \<and> reads rc' n (\<lambda>r. f r + times (usesOf M ts) r)"
  using assms(2,3)
proof (induction ts arbitrary: rc f)
  case Nil
  then show ?case by (simp add: ret_run)
next
  case (Cons t ts)
  show ?case
  proof (cases "t = kTfLiteOptionalTensor")
    case True
    then show ?thesis using Cons by simp
  next
    case False
    let ?r = "owner M t"
    have r: "within n ?r" using Cons.prems(2) False by simp
    obtain rc1 where rc1: "writeAt rc ?r (f ?r + 1) = Inr rc1" "reads rc1 n (f(?r := f ?r + 1))"
      using reads_writeAt[OF Cons.prems(1) r] by blast
    obtain rc' where rc': "countShared ts rc1 p = (Inr rc', p)"
        "reads rc' n (\<lambda>x. (f(?r := f ?r + 1)) x + times (usesOf M ts) x)"
      using Cons.IH[OF rc1(2)] Cons.prems(2) False by auto
    have "(\<lambda>x. (f(?r := f ?r + 1)) x + times (usesOf M ts) x) = (\<lambda>x. f x + times (usesOf M (t # ts)) x)"
      using False by (auto simp: fun_eq_iff)
    then show ?thesis
      using rc' rc1(1) reads_vecAt[OF Cons.prems(1) r] False assms(1)
      by (auto simp: andThen_def FindSharedTensor_run liftR_run)
  qed
qed

text \<open>The last nodes assigned so far: only tensors without a use to come are released, at their
  last use; every use so far is in the interval.\<close>

definition releaseInv :: "(int \<Rightarrow> int) \<Rightarrow> (int \<Rightarrow> int) \<Rightarrow> (int \<Rightarrow> int) \<Rightarrow> int list \<Rightarrow> (int \<times> int) set \<Rightarrow> bool" where
  "releaseInv base A D rest used \<longleftrightarrow>
    (\<forall>r. D r \<noteq> kNodeNotAssigned \<longrightarrow> r \<notin> set rest \<and> A r \<noteq> kNodeNotAssigned \<and> base r = 0 \<and> (D r, r) \<in> used) \<and>
    (\<forall>(j, r) \<in> used. j \<le> D r)"

lemma releaseInv_use:
  assumes "releaseInv base A D (r # rest) used" "\<forall>(j, r) \<in> used. j \<le> i" "i < kNodeNotAssigned"
    and "D' = D \<or> base r = 0 \<and> r \<notin> set rest \<and> A r \<noteq> kNodeNotAssigned \<and> D' = D(r := i)"
  shows "releaseInv base A D' rest (insert (i, r) used)"
proof -
  have Dr: "D r = kNodeNotAssigned" using assms(1) by (auto simp: releaseInv_def)
  have one: "x \<notin> set rest \<and> A x \<noteq> kNodeNotAssigned \<and> base x = 0 \<and> (D' x, x) \<in> insert (i, r) used"
    if "D' x \<noteq> kNodeNotAssigned" for x
    using that assms(1,4) Dr by (cases "x = r") (auto simp: releaseInv_def)
  have two: "j \<le> D' x" if "(j, x) \<in> insert (i, r) used" for j x
    using that assms Dr by (cases "x = r") (auto simp: releaseInv_def)
  show ?thesis using one two unfolding releaseInv_def by blast
qed

lemma releaseInv_keep:
  assumes "releaseInv base A D (us @ rest) used" "i < kNodeNotAssigned"
  shows "releaseInv base A D rest (used \<union> Pair i ` set us)"
proof -
  have "D u = kNodeNotAssigned" if "u \<in> set us" for u using that assms(1) by (auto simp: releaseInv_def)
  then have "i \<le> D u" if "u \<in> set us" for u using that assms(2) by simp
  then show ?thesis using assms(1) unfolding releaseInv_def by auto
qed

lemma releaseInputs_run:
  assumes "plan_is K A D F S M p" "releaseInv base A D (usesOf M ts @ rest) used"
    and "reads rc (num_tensors K) (\<lambda>r. base r + times (usesOf M ts @ rest) r)"
    and "\<forall>(j, r) \<in> used. j \<le> i" "i < kNodeNotAssigned" "\<And>r. 0 \<le> base r"
    and "list_all (within (num_tensors K)) (usesOf M ts)"
  shows "\<exists>rc' p' D'. releaseInputs i ts rc p = (Inr rc', p') \<and> plan_is K A D' F S M p' \<and>
    reads rc' (num_tensors K) (\<lambda>r. base r + times rest r) \<and>
    releaseInv base A D' rest (used \<union> Pair i ` set (usesOf M ts))"
  using assms(1-4,7)
proof (induction ts arbitrary: D p rc used)
  case Nil
  then show ?case by (auto simp: ret_run)
next
  case (Cons t ts)
  show ?case
  proof (cases "t = kTfLiteOptionalTensor")
    case True
    then show ?thesis using Cons by simp
  next
    case False
    let ?r = "owner M t" and ?n = "num_tensors K"
    let ?rest = "usesOf M ts @ rest"
    have inv: "releaseInv base A D (?r # ?rest) used" using Cons.prems(2) False by simp
    have rd: "reads rc ?n (\<lambda>r. base r + times (?r # ?rest) r)" using Cons.prems(3) False by simp
    have r: "within ?n ?r" using Cons.prems(5) False by simp
    let ?c = "base ?r + times ?rest ?r"
    obtain rc1 where rc1: "writeAt rc ?r ?c = Inr rc1" "reads rc1 ?n ((\<lambda>r. base r + times (?r # ?rest) r)(?r := ?c))"
      using reads_writeAt[OF rd r] by blast
    have f: "(\<lambda>r. base r + times (?r # ?rest) r)(?r := ?c) = (\<lambda>r. base r + times ?rest r)" by (auto simp: fun_eq_iff)
    have v: "vecAt rc ?r = Inr (?c + 1)" using reads_vecAt[OF rd r] by simp
    have D: "D ?r = kNodeNotAssigned" using inv by (auto simp: releaseInv_def)
    obtain p1 D1 where p1: "(if ?c = 0 then deallocateAt i ?r else ret ()) p = (Inr (), p1)" "plan_is K A D1 F S M p1"
      and D1: "D1 = D \<or> ?c = 0 \<and> A ?r \<noteq> kNodeNotAssigned \<and> D1 = D(?r := i)"
    proof (cases "?c = 0")
      case True
      then show ?thesis using that deallocateAt_run[OF Cons.prems(1) r D, of i] by (auto split: if_splits)
    next
      case False
      then show ?thesis using that Cons.prems(1) by (simp add: ret_run)
    qed
    have "base ?r = 0 \<and> ?r \<notin> set ?rest" if "?c = 0"
    proof -
      have "base ?r = 0 \<and> count_list ?rest ?r = 0" using that assms(6)[of ?r] by linarith
      then show ?thesis using count_list_0_iff by metis
    qed
    then have inv1: "releaseInv base A D1 ?rest (insert (i, ?r) used)"
      using releaseInv_use[OF inv Cons.prems(4) assms(5)] D1 by blast
    obtain rc' p' D' where o: "releaseInputs i ts rc1 p1 = (Inr rc', p')" "plan_is K A D' F S M p'"
        "reads rc' ?n (\<lambda>r. base r + times rest r)"
        "releaseInv base A D' rest (insert (i, ?r) used \<union> Pair i ` set (usesOf M ts))"
      using Cons.IH[OF p1(2) inv1 rc1(2)[unfolded f]] Cons.prems(4,5) False by auto
    have M: "actual_tensor_id p = M" using Cons.prems(1) by (simp add: plan_is_def)
    have r0: "releaseInputs i (t # ts) rc p = (Inr rc', p')"
      using False v rc1(1) p1(1) o(1) M
      by (cases "?c = 0") (simp_all add: andThen_def FindSharedTensor_run liftR_run ret_run)
    have "insert (i, ?r) used \<union> Pair i ` set (usesOf M ts) = used \<union> Pair i ` set (usesOf M (t # ts))"
      using False by auto
    then have u: "releaseInv base A D' rest (used \<union> Pair i ` set (usesOf M (t # ts)))" using o(4) by simp
    show ?thesis by (rule exI[of _ rc'], rule exI[of _ p'], rule exI[of _ D']) (intro conjI r0 o(2,3) u)
  qed
qed

section \<open>All nodes\<close>

definition producer :: "graph_info \<Rightarrow> nat \<Rightarrow> int \<Rightarrow> int" where
  "producer g k t = (case List.find (\<lambda>j. t \<in> set (outputsOf (g_nodes g ! j))) [0..<k] of
     None \<Rightarrow> kNodeNotAssigned | Some j \<Rightarrow> int j)"

definition startsAt :: "graph_info \<Rightarrow> nat \<Rightarrow> int \<Rightarrow> int" where
  "startsAt g k t = (if t \<in> sources g then 0 else producer g k t)"

definition tensorsAt :: "graph_info \<Rightarrow> nat \<Rightarrow> int \<Rightarrow> int set" where
  "tensorsAt g k i = (if i = 0 then sources g else {}) \<union>
     (if 0 \<le> i \<and> i < int k then set (outputsOf (g_nodes g ! nat i)) else {})"

lemma find_snoc: "List.find P (xs @ [x]) = (case List.find P xs of None \<Rightarrow> if P x then Some x else None | Some y \<Rightarrow> Some y)"
  by (induction xs) auto

lemma startsAt_Suc:
  assumes "int k < kNodeNotAssigned"
  shows "startsAt g (Suc k) = (\<lambda>t. if startsAt g k t = kNodeNotAssigned \<and> t \<in> set (outputsOf (g_nodes g ! k)) then int k else startsAt g k t)"
proof
  fix t
  have "j < k" if "List.find P [0..<k] = Some j" for j P using that by (auto simp: find_Some_iff)
  then show "startsAt g (Suc k) t =
      (if startsAt g k t = kNodeNotAssigned \<and> t \<in> set (outputsOf (g_nodes g ! k)) then int k else startsAt g k t)"
    using assms by (fastforce simp: startsAt_def producer_def find_snoc split: option.splits)
qed

lemma startsAt_cases:
  "startsAt g k t = kNodeNotAssigned \<or> t \<in> sources g \<and> startsAt g k t = 0 \<or>
   (\<exists>j<k. t \<in> set (outputsOf (g_nodes g ! j)) \<and> startsAt g k t = int j)"
  by (auto simp: startsAt_def producer_def find_Some_iff split: option.splits)

lemma startsAt_output:
  assumes "in_order g" "i < length (g_nodes g)" "t \<in> set (outputsOf (g_nodes g ! i))"
  shows "startsAt g (length (g_nodes g)) t = int i"
proof -
  have t: "t \<notin> sources g" by (rule in_order_facts(5)[OF assms])
  have "List.find (\<lambda>j. t \<in> set (outputsOf (g_nodes g ! j))) [0..<length (g_nodes g)] \<noteq> None"
    using assms(2,3) by (auto simp: find_None_iff)
  then obtain j where j: "List.find (\<lambda>j. t \<in> set (outputsOf (g_nodes g ! j))) [0..<length (g_nodes g)] = Some j" by blast
  then have "j < length (g_nodes g)" "t \<in> set (outputsOf (g_nodes g ! j))" by (auto simp: find_Some_iff)
  then have "j = i" using in_order_facts(6)[OF assms(1) _ assms(2), of j t] assms(3) by blast
  then show ?thesis using t j unfolding startsAt_def producer_def by (simp only: if_False option.case)
qed

lemma startsAt_input:
  assumes "in_order g" "i < length (g_nodes g)" "t \<in> set (inputsOf (g_nodes g ! i))"
  shows "startsAt g (length (g_nodes g)) t = kNodeNotAssigned \<or> startsAt g (length (g_nodes g)) t \<le> int i"
proof -
  have "j < i" if "j < length (g_nodes g)" "t \<in> set (outputsOf (g_nodes g ! j))" for j
    by (rule in_order_facts(7)[OF assms(1,2) that(1) assms(3) that(2)])
  then show ?thesis using startsAt_cases[of g "length (g_nodes g)" t] by (metis of_nat_0_le_iff of_nat_le_iff order.strict_implies_order)
qed

lemma planOutputs_run:
  assumes p: "plan_is K A D F S M p" and ts: "list_all (within (num_tensors K)) ts"
    and i: "within (max (length (execution_nodes K)) 1) i" "i < kNodeNotAssigned"
    and D: "\<And>r. D r \<noteq> kNodeNotAssigned \<Longrightarrow> A r \<noteq> kNodeNotAssigned"
  shows "\<exists>p'. iterOp (planOutput i) ts p = (Inr (), p') \<and>
    plan_is K (\<lambda>t. if A t = kNodeNotAssigned \<and> t \<in> set ts then i else A t) D F (S(i := S i \<union> set ts)) M p'"
proof -
  define B where "B = (\<lambda>ys t. if A t = kNodeNotAssigned \<and> t \<in> set ys then i else A t)"
  define T where "T = (\<lambda>ys :: int list. S(i := S i \<union> set ys))"
  have "\<exists>p'. iterOp (planOutput i) ts p = (Inr (), p') \<and> plan_is K (B ts) D F (T ts) M p'"
  proof (rule iterOp_rule[where I = "\<lambda>ys. plan_is K (B ys) D F (T ys) M"])
    fix ys x zs s
    assume "ts = ys @ x # zs" and s: "plan_is K (B ys) D F (T ys) M s"
    then have x: "within (num_tensors K) x" using ts by simp
    have e: "(T ys)(i := insert x (T ys i)) = T (ys @ [x])" by (intro ext) (simp add: T_def)
    obtain s1 where s1: "insertTensor i x s = (Inr (), s1)" "plan_is K (B ys) D F (T (ys @ [x])) M s1"
      using insertTensor_run[OF s i(1), of x] unfolding e by blast
    have a: "(if B ys x = kNodeNotAssigned then (B ys)(x := i) else B ys) = B (ys @ [x])"
      using i(2) by (intro ext) (auto simp: B_def)
    have d: "B ys x = kNodeNotAssigned \<Longrightarrow> D x = kNodeNotAssigned"
      using D[of x] i(2) by (auto simp: B_def split: if_splits)
    obtain s2 where s2: "allocateAt i x s1 = (Inr (), s2)" "plan_is K (B (ys @ [x])) D F (T (ys @ [x])) M s2"
      using allocateAt_run[OF s1(2) x d, of i] unfolding a by blast
    have "planOutput i x s = (Inr (), s2)" using s1(1) s2(1) by (simp add: planOutput_def andThen_def)
    then show "\<exists>s'. planOutput i x s = (Inr (), s') \<and> plan_is K (B (ys @ [x])) D F (T (ys @ [x])) M s'"
      using s2(2) by blast
  qed (use p in \<open>simp add: B_def T_def\<close>)
  then show ?thesis by (simp add: B_def T_def)
qed

abbreviation allUses :: "(int \<Rightarrow> int option) \<Rightarrow> tfl_node list \<Rightarrow> int list" where
  "allUses M nodes \<equiv> concat (map (\<lambda>node. usesOf M (n_inputs node)) nodes)"

abbreviation usedSoFar :: "(int \<Rightarrow> int option) \<Rightarrow> graph_info \<Rightarrow> nat \<Rightarrow> (int \<times> int) set" where
  "usedSoFar M g k \<equiv> {(int j, owner M t) |j t. j < k \<and> t \<in> set (inputsOf (g_nodes g ! j))}"

lemma usedSoFar_Suc: "usedSoFar M g (Suc k) = usedSoFar M g k \<union> Pair (int k) ` set (usesOf M (n_inputs (g_nodes g ! k)))"
  by (auto simp: less_Suc_eq)

lemma planNodes_run:
  assumes "g_nodes (pl_graph K) = pre @ nodes" and g: "in_order (pl_graph K)"
    and "plan_is K (startsAt (pl_graph K) (length pre)) D F (tensorsAt (pl_graph K) (length pre)) M p"
    and "releaseInv base (startsAt (pl_graph K) (length pre)) D (allUses M nodes) (usedSoFar M (pl_graph K) (length pre))"
    and "preserve_all_tensors K \<or> reads rc (num_tensors K) (\<lambda>r. base r + times (allUses M nodes) r)"
    and base: "\<And>r. 0 \<le> base r"
    and w: "\<And>node. node \<in> set (g_nodes (pl_graph K)) \<Longrightarrow> list_all (within (num_tensors K)) (usesOf M (n_inputs node))"
  shows "\<exists>p' D'. planNodes (int (length pre)) nodes rc p = (Inr (), p') \<and>
    plan_is K (startsAt (pl_graph K) (length (execution_nodes K))) D' F (tensorsAt (pl_graph K) (length (execution_nodes K))) M p' \<and>
    releaseInv base (startsAt (pl_graph K) (length (execution_nodes K))) D' [] (usedSoFar M (pl_graph K) (length (execution_nodes K)))"
  using assms(1,3-5)
proof (induction nodes arbitrary: pre D rc p)
  case Nil
  then show ?case by (auto simp: ret_run)
next
  case (Cons node nodes)
  let ?g = "pl_graph K"
  let ?k = "length pre"
  let ?A = "startsAt ?g ?k" and ?A' = "startsAt ?g (Suc ?k)"
  have k: "node = g_nodes ?g ! ?k" "?k < length (g_nodes ?g)" using nth_prefix[OF Cons.prems(1)] by auto
  have i: "within (max (length (execution_nodes K)) 1) (int ?k)" "int ?k < kNodeNotAssigned"
    using k(2) in_order_facts(1)[OF g] by auto
  have outs: "list_all (within (num_tensors K)) (outputsOf node)"
    using in_order_facts(3)[OF g k(2)] k(1) by (auto simp: list_all_iff)
  have S: "(tensorsAt ?g ?k)(int ?k := tensorsAt ?g ?k (int ?k) \<union> set (outputsOf node)) = tensorsAt ?g (Suc ?k)"
    using k(1) by (auto simp: tensorsAt_def fun_eq_iff)
  have A: "(\<lambda>t. if ?A t = kNodeNotAssigned \<and> t \<in> set (outputsOf node) then int ?k else ?A t) = ?A'"
    unfolding startsAt_Suc[OF i(2)] k(1) ..
  have D: "D r \<noteq> kNodeNotAssigned \<Longrightarrow> ?A r \<noteq> kNodeNotAssigned" for r using Cons.prems(3) by (auto simp: releaseInv_def)
  obtain p1 where p1: "iterOp (planOutput (int ?k)) (outputsOf node) p = (Inr (), p1)"
      "plan_is K ?A' D F (tensorsAt ?g (Suc ?k)) M p1"
    using planOutputs_run[OF Cons.prems(2) outs i D] unfolding S A by blast
  have inv: "releaseInv base ?A' D (usesOf M (n_inputs node) @ allUses M nodes) (usedSoFar M ?g ?k)"
    using Cons.prems(3) i(2) unfolding releaseInv_def startsAt_Suc[OF i(2)] by auto
  have used: "\<forall>(j, r) \<in> usedSoFar M ?g ?k. j \<le> int ?k" by auto
  have pre: "preserve_all_tensors p1 = preserve_all_tensors K"
    using rest_of_graph(2)[of p1 K] p1(2) by (simp add: plan_is_def)
  have next_used: "usedSoFar M ?g ?k \<union> Pair (int ?k) ` set (usesOf M (n_inputs node)) = usedSoFar M ?g (Suc ?k)"
    unfolding usedSoFar_Suc k(1) ..
  obtain rc' p2 D2 where p2: "(if preserve_all_tensors p1 then ret rc else releaseInputs (int ?k) (n_inputs node) rc) p1 = (Inr rc', p2)"
      "plan_is K ?A' D2 F (tensorsAt ?g (Suc ?k)) M p2"
      "preserve_all_tensors K \<or> reads rc' (num_tensors K) (\<lambda>r. base r + times (allUses M nodes) r)"
      "releaseInv base ?A' D2 (allUses M nodes) (usedSoFar M ?g (Suc ?k))"
  proof (cases "preserve_all_tensors K")
    case True
    have "releaseInv base ?A' D (allUses M nodes) (usedSoFar M ?g (Suc ?k))"
      using releaseInv_keep[OF inv i(2)] unfolding next_used .
    then show ?thesis using that True p1(2) pre by (simp add: ret_run)
  next
    case False
    have rd: "reads rc (num_tensors K) (\<lambda>r. base r + times (usesOf M (n_inputs node) @ allUses M nodes) r)"
      using Cons.prems(4) False by simp
    have "list_all (within (num_tensors K)) (usesOf M (n_inputs node))" by (rule w) (simp add: Cons.prems(1))
    then obtain rc' p2 D2 where r: "releaseInputs (int ?k) (n_inputs node) rc p1 = (Inr rc', p2)"
        "plan_is K ?A' D2 F (tensorsAt ?g (Suc ?k)) M p2" "reads rc' (num_tensors K) (\<lambda>r. base r + times (allUses M nodes) r)"
        "releaseInv base ?A' D2 (allUses M nodes) (usedSoFar M ?g (Suc ?k))"
      using releaseInputs_run[OF p1(2) inv rd used i(2) base] unfolding next_used by blast
    have "(if preserve_all_tensors p1 then ret rc else releaseInputs (int ?k) (n_inputs node) rc) p1 = (Inr rc', p2)"
      using r(1) False pre by simp
    then show ?thesis using that r(2-4) by blast
  qed
  obtain p' D' where p': "planNodes (int (length (pre @ [node]))) nodes rc' p2 = (Inr (), p')"
      "plan_is K (startsAt ?g (length (execution_nodes K))) D' F (tensorsAt ?g (length (execution_nodes K))) M p'"
      "releaseInv base (startsAt ?g (length (execution_nodes K))) D' [] (usedSoFar M ?g (length (execution_nodes K)))"
    using Cons.IH[of "pre @ [node]" D2 p2 rc'] Cons.prems(1) p2(2-4) by auto
  have "planNodes (int ?k) (node # nodes) rc p = (Inr (), p')"
    using p1(1) p2(1) p'(1) by (simp add: andThen_def iterOp_skip gets_run add.commute)
  then show ?case using p'(2,3) by blast
qed

section \<open>The plan\<close>

abbreviation clearedArena :: "arena \<Rightarrow> arena" where
  "clearedArena a \<equiv> a\<lparr>committed := False, high_water_mark := 0, active_allocs := []\<rparr>"

definition cleared :: "planner \<Rightarrow> planner" where
  "cleared p = p\<lparr>rw_arena := clearedArena (rw_arena p), persistent_arena := clearedArena (persistent_arena p),
     pl_allocs := replicate (num_tensors p) newAlloc, last_active_node := kLastActiveNodeUndefined\<rparr>"

lemma ResetAllocations_run: "ResetAllocations p = (Inr (), cleared p)"
  by (simp add: ResetAllocations_def onArena_def onPersistent_def ClearPlan_def cleared_def op_simps andThen_def)

lemma cleared_simps [simp]:
  "pl_graph (cleared p) = pl_graph p" "preserve_all_tensors (cleared p) = preserve_all_tensors p"
  "actual_tensor_id (cleared p) = actual_tensor_id p"
  by (simp_all add: cleared_def)

lemma rest_of_rest [simp]:
  "pl_graph (rest_of p) = pl_graph p" "preserve_all_tensors (rest_of p) = preserve_all_tensors p"
  by (simp_all add: rest_of_def)

text \<open>References that are never released: the outputs, variables and inputs of the graph.\<close>

definition heldRefs :: "graph_info \<Rightarrow> int \<Rightarrow> int" where
  "heldRefs g t = times (present (g_outputs g)) t + times (g_variables g) t + times (present (g_inputs g)) t"

lemma startPlan_run:
  "plan_is (rest_of p) (startNode {}) (\<lambda>_. kNodeNotAssigned) (\<lambda>_. 0) (\<lambda>_. {}) (actual_tensor_id p) (startPlan p)"
proof -
  have "startNode {} = (\<lambda>_. kNodeNotAssigned)" by (simp add: fun_eq_iff startNode_def)
  then show ?thesis by (simp add: plan_is_def startPlan_def rest_of_def reads_replicate)
qed

lemma planSources_run:
  assumes g: "in_order (pl_graph p)" and K: "K = rest_of p"
  shows "\<exists>s. andThen (iterOp (skipOptional addRef) (g_outputs (pl_graph p))) (\<lambda>_.
      andThen (iterOp planVariable (g_variables (pl_graph p))) (\<lambda>_.
      iterOp (skipOptional planInput) (g_inputs (pl_graph p)))) (startPlan p) = (Inr (), s) \<and>
    plan_is K (startsAt (pl_graph p) 0) (\<lambda>_. kNodeNotAssigned) (heldRefs (pl_graph p)) (tensorsAt (pl_graph p) 0) (actual_tensor_id p) s"
proof -
  let ?g = "pl_graph p" and ?D = "\<lambda>_ :: int. kNodeNotAssigned" and ?M = "actual_tensor_id p"
  have v: "list_all (within (num_tensors K)) (present (g_outputs ?g))" "list_all (within (num_tensors K)) (g_variables ?g)"
      "list_all (within (num_tensors K)) (present (g_inputs ?g))"
    using in_order_facts(2)[OF g] by (auto simp: K list_all_iff)
  have s0: "plan_is K (startNode {}) ?D (\<lambda>_. 0) (\<lambda>_. {}) ?M (startPlan p)" using startPlan_run[of p] by (simp add: K)
  obtain s1 where s1: "iterOp addRef (present (g_outputs ?g)) (startPlan p) = (Inr (), s1)"
      "plan_is K (startNode {}) ?D (\<lambda>t. 0 + times (present (g_outputs ?g)) t) (\<lambda>_. {}) ?M s1"
    using addRefs_run[OF s0 v(1)] by blast
  obtain s2 where s2: "iterOp planVariable (g_variables ?g) s1 = (Inr (), s2)"
      "plan_is K (startNode ({} \<union> set (g_variables ?g))) ?D
        (\<lambda>t. 0 + times (present (g_outputs ?g)) t + times (g_variables ?g) t) ((\<lambda>_. {})(0 := {} \<union> set (g_variables ?g))) ?M s2"
    using planInputs_run[OF s1(2) v(2) disjI2[OF refl]] by (elim exE conjE) (rule that)
  obtain s3 where s3: "iterOp planInput (present (g_inputs ?g)) s2 = (Inr (), s3)"
      "plan_is K (startNode ({} \<union> set (g_variables ?g) \<union> set (present (g_inputs ?g)))) ?D
        (\<lambda>t. 0 + times (present (g_outputs ?g)) t + times (g_variables ?g) t + times (present (g_inputs ?g)) t)
        (((\<lambda>_. {})(0 := {} \<union> set (g_variables ?g)))
          (0 := ((\<lambda>_. {})(0 := {} \<union> set (g_variables ?g))) (0 :: int) \<union> set (present (g_inputs ?g)))) ?M s3"
    using planInputs_run[OF s2(2) v(3) disjI1[OF refl]] by (elim exE conjE) (rule that)
  have "startNode ({} \<union> set (g_variables ?g) \<union> set (present (g_inputs ?g))) = startsAt ?g 0"
    by (simp add: fun_eq_iff startNode_def startsAt_def producer_def)
  moreover have "(\<lambda>t. 0 + times (present (g_outputs ?g)) t + times (g_variables ?g) t + times (present (g_inputs ?g)) t) = heldRefs ?g"
    by (simp add: fun_eq_iff heldRefs_def)
  moreover have "((\<lambda>_. {})(0 := {} \<union> set (g_variables ?g)))
      (0 := ((\<lambda>_. {})(0 := {} \<union> set (g_variables ?g))) (0 :: int) \<union> set (present (g_inputs ?g))) = tensorsAt ?g 0"
    by (simp add: fun_eq_iff tensorsAt_def)
  ultimately have "plan_is K (startsAt ?g 0) ?D (heldRefs ?g) (tensorsAt ?g 0) ?M s3" using s3(2) by simp
  then show ?thesis using s1(1) s2(1) s3(1) by (simp add: iterOp_skip andThen_def)
qed

lemma countNodes_run:
  assumes "plan_is K A D F S M p" "\<And>node. node \<in> set nodes \<Longrightarrow> list_all (within (num_tensors K)) (inputsOf node)"
  shows "\<exists>p' F'. iterOp (\<lambda>node. iterOp (skipOptional addRef) (n_inputs node)) nodes p = (Inr (), p') \<and> plan_is K A D F' S M p'"
proof -
  have "\<exists>p'. iterOp (\<lambda>node. iterOp (skipOptional addRef) (n_inputs node)) nodes p = (Inr (), p') \<and> (\<exists>F'. plan_is K A D F' S M p')"
  proof (rule iterOp_rule[where I = "\<lambda>_ s. \<exists>F'. plan_is K A D F' S M s"])
    fix ys x zs s
    assume x: "nodes = ys @ x # zs" and "\<exists>F'. plan_is K A D F' S M s"
    then obtain F' where s: "plan_is K A D F' S M s" by blast
    have "list_all (within (num_tensors K)) (inputsOf x)" using assms(2)[of x] x by simp
    then show "\<exists>s'. iterOp (skipOptional addRef) (n_inputs x) s = (Inr (), s') \<and> (\<exists>F'. plan_is K A D F' S M s')"
      using addRefs_run[OF s] unfolding iterOp_skip by blast
  qed (use assms(1) in blast)
  then show ?thesis by blast
qed

lemma countAllShared_run:
  assumes "actual_tensor_id p = M" "reads rc n f" "\<And>node. node \<in> set nodes \<Longrightarrow> list_all (within n) (usesOf M (n_inputs node))"
  shows "\<exists>rc'. foldOp (\<lambda>node. countShared (n_inputs node)) nodes rc p = (Inr rc', p) \<and>
    reads rc' n (\<lambda>r. f r + times (allUses M nodes) r)"
proof -
  have "\<exists>rc' p'. foldOp (\<lambda>node. countShared (n_inputs node)) nodes rc p = (Inr rc', p') \<and>
      (p' = p \<and> reads rc' n (\<lambda>r. f r + times (allUses M nodes) r))"
  proof (rule foldOp_rule[where I = "\<lambda>ys rc s. s = p \<and> reads rc n (\<lambda>r. f r + times (allUses M ys) r)"])
    fix ys x zs b s
    assume x: "nodes = ys @ x # zs" and s: "s = p \<and> reads b n (\<lambda>r. f r + times (allUses M ys) r)"
    have "list_all (within n) (usesOf M (n_inputs x))" using assms(3)[of x] x by simp
    then obtain rc' where "countShared (n_inputs x) b p = (Inr rc', p)"
        "reads rc' n (\<lambda>r. f r + times (allUses M ys) r + times (usesOf M (n_inputs x)) r)"
      using countShared_run[OF assms(1), of b n "\<lambda>r. f r + times (allUses M ys) r"] s by blast
    then show "\<exists>b' s'. countShared (n_inputs x) b s = (Inr b', s') \<and> s' = p \<and> reads b' n (\<lambda>r. f r + times (allUses M (ys @ [x])) r)"
      using s by (auto simp: add.assoc)
  qed (use assms(2) in simp)
  then show ?thesis by blast
qed

lemma owner_within:
  assumes "in_order g" "sharedInv g (length (g_nodes g)) M" "node \<in> set (g_nodes g)"
  shows "list_all (within (length (g_tensors g))) (usesOf M (n_inputs node))"
proof -
  have w: "within (length (g_tensors g)) t" if "i < length (g_nodes g)" "t \<in> set (inputsOf (g_nodes g ! i))" for t i
    using in_order_facts(3)[OF assms(1) that(1)] that(2) by blast
  have "within (length (g_tensors g)) (owner M t)" if t: "t \<in> set (inputsOf node)" for t
  proof (cases "M t")
    case None
    then show ?thesis using t assms(3) w[of _ t] by (auto simp: owner_def in_set_conv_nth)
  next
    case (Some r)
    then obtain i j where "j < length (g_nodes g)" "i \<le> j" "r \<in> set (inputsOf (g_nodes g ! i))"
      using assms(2) unfolding sharedInv_def by blast
    then show ?thesis using Some w[of i r] by (simp add: owner_def)
  qed
  then show ?thesis by (auto simp: list_all_iff)
qed

lemma PlanAllocations_run:
  assumes g: "in_order (pl_graph p)"
  defines "N \<equiv> length (execution_nodes p)" and "K \<equiv> rest_of (cleared p)"
  shows "\<exists>p' M D F. PlanAllocations p = (Inr (), p') \<and>
    plan_is K (startsAt (pl_graph p) N) D F (tensorsAt (pl_graph p) N) M p' \<and> sharedInv (pl_graph p) N M \<and>
    releaseInv (heldRefs (pl_graph p)) (startsAt (pl_graph p) N) D [] (usedSoFar M (pl_graph p) N)"
proof -
  let ?g = "pl_graph p" and ?D = "\<lambda>_ :: int. kNodeNotAssigned"
  have K: "pl_graph K = ?g" by (simp add: K_def)
  obtain s1 where s1: "andThen (iterOp (skipOptional addRef) (g_outputs ?g)) (\<lambda>_.
      andThen (iterOp planVariable (g_variables ?g)) (\<lambda>_.
      iterOp (skipOptional planInput) (g_inputs ?g))) (startPlan (cleared p)) = (Inr (), s1)"
      "plan_is K (startsAt ?g 0) ?D (heldRefs ?g) (tensorsAt ?g 0) (actual_tensor_id p) s1"
    using planSources_run[of "cleared p" K] g by (auto simp: K_def)
  have nodes_in: "list_all (within (num_tensors K)) (inputsOf node)" if "node \<in> set (g_nodes ?g)" for node
  proof -
    from that obtain i where i: "i < length (g_nodes ?g)" "g_nodes ?g ! i = node" unfolding in_set_conv_nth by blast
    show ?thesis using in_order_facts(3)[OF g i(1)] unfolding i(2) K list_all_iff by blast
  qed
  obtain s2 F2 where s2: "iterOp (\<lambda>node. iterOp (skipOptional addRef) (n_inputs node)) (g_nodes ?g) s1 = (Inr (), s2)"
      "plan_is K (startsAt ?g 0) ?D F2 (tensorsAt ?g 0) (actual_tensor_id p) s2"
    using countNodes_run[OF s1(2) nodes_in] by blast
  obtain s3 M where s3: "IdentifyInPlaceTensors s2 = (Inr (), s3)" "plan_is K (startsAt ?g 0) ?D F2 (tensorsAt ?g 0) M s3"
      "sharedInv ?g N M"
    using IdentifyInPlaceTensors_run[OF s2(2)] g unfolding K N_def by blast
  have w: "list_all (within (num_tensors K)) (usesOf M (n_inputs node))" if "node \<in> set (g_nodes ?g)" for node
    using owner_within[OF g s3(3)[unfolded N_def] that] unfolding K .
  have M: "actual_tensor_id s3 = M" and rc: "reads (refcounts s1) (num_tensors K) (heldRefs ?g)"
    using s3(2) s1(2) by (simp_all add: plan_is_def)
  obtain rc' where rc': "foldOp (\<lambda>node. countShared (n_inputs node)) (g_nodes ?g) (refcounts s1) s3 = (Inr rc', s3)"
      "reads rc' (num_tensors K) (\<lambda>r. heldRefs ?g r + times (allUses M (g_nodes ?g)) r)"
    using countAllShared_run[OF M rc w] by blast
  have inv: "releaseInv (heldRefs ?g) (startsAt ?g 0) ?D (allUses M (g_nodes ?g)) (usedSoFar M ?g 0)"
    by (simp add: releaseInv_def)
  obtain s4 D4 where s4: "planNodes 0 (g_nodes ?g) rc' s3 = (Inr (), s4)"
      "plan_is K (startsAt ?g N) D4 F2 (tensorsAt ?g N) M s4"
      "releaseInv (heldRefs ?g) (startsAt ?g N) D4 [] (usedSoFar M ?g N)"
    using planNodes_run[of K "[]" "g_nodes ?g" ?D F2 M s3 "heldRefs ?g" rc'] g s3(2) inv rc'(2) w
    by (auto simp: K N_def heldRefs_def)
  have "PlanAllocations p = (Inr (), s4)"
  proof -
    obtain u1 u2 where "iterOp (skipOptional addRef) (g_outputs ?g) (startPlan (cleared p)) = (Inr (), u1)"
        "iterOp planVariable (g_variables ?g) u1 = (Inr (), u2)" "iterOp (skipOptional planInput) (g_inputs ?g) u2 = (Inr (), s1)"
      using s1(1) by (auto simp: andThen_eq_Inr)
    moreover have "pl_graph (startPlan (cleared p)) = ?g" by (simp add: startPlan_def)
    ultimately show ?thesis
      using s2(1) s3(1) rc'(1) s4(1) ResetAllocations_run[of p]
      by (simp add: PlanAllocations_def andThen_def gets_run modify_run)
  qed
  then show ?thesis using s3(3) s4(2,3) by blast
qed

section \<open>Lifetimes\<close>

definition planned_tensor :: "graph_info \<Rightarrow> int \<Rightarrow> bool" where
  "planned_tensor g t \<longleftrightarrow> t \<in> sources g \<or> list_ex (\<lambda>node. t \<in> set (outputsOf node)) (g_nodes g)"

text \<open>What the plan means: \<open>A\<close> and \<open>D\<close> are the first and last node of each tensor.\<close>

definition planGood :: "graph_info \<Rightarrow> (int \<Rightarrow> int) \<Rightarrow> (int \<Rightarrow> int) \<Rightarrow> (int \<Rightarrow> int option) \<Rightarrow> bool" where
  "planGood g A D M \<longleftrightarrow> A = startsAt g (length (g_nodes g)) \<and> sharedInv g (length (g_nodes g)) M \<and>
     releaseInv (heldRefs g) A D [] (usedSoFar M g (length (g_nodes g)))"

lemma planGood_input:
  assumes g: "in_order g" and P: "planGood g A D M" and i: "i < length (g_nodes g)" and t: "t \<in> set (inputsOf (g_nodes g ! i))"
  shows "A (owner M t) = kNodeNotAssigned \<or> A (owner M t) \<le> int i" "int i \<le> D (owner M t)"
proof -
  have "(int i, owner M t) \<in> usedSoFar M g (length (g_nodes g))" using i t by auto
  then show "int i \<le> D (owner M t)" using P unfolding planGood_def releaseInv_def by blast
  have A: "A = startsAt g (length (g_nodes g))" using P by (simp add: planGood_def)
  show "A (owner M t) = kNodeNotAssigned \<or> A (owner M t) \<le> int i"
  proof (cases "M t")
    case None
    then show ?thesis using startsAt_input[OF g i t] by (simp add: owner_def A)
  next
    case (Some r)
    then obtain j k where j: "j < length (g_nodes g)" "t \<in> set (outputsOf (g_nodes g ! j))" "k \<le> j" "r \<in> set (inputsOf (g_nodes g ! k))"
      using P unfolding planGood_def sharedInv_def by blast
    have "j < i" by (rule in_order_facts(7)[OF g i j(1) t j(2)])
    then show ?thesis using startsAt_input[OF g _ j(4)] j(1,3) Some by (auto simp: owner_def A)
  qed
qed

lemma planGood_output:
  assumes g: "in_order g" and P: "planGood g A D M" and i: "i < length (g_nodes g)" and t: "t \<in> set (outputsOf (g_nodes g ! i))"
  shows "A t = int i" "A (owner M t) = kNodeNotAssigned \<or> A (owner M t) \<le> int i" "int i \<le> D (owner M t)"
proof -
  have A: "A = startsAt g (length (g_nodes g))" using P by (simp add: planGood_def)
  show At: "A t = int i" unfolding A by (rule startsAt_output[OF g i t])
  have "(A (owner M t) = kNodeNotAssigned \<or> A (owner M t) \<le> int i) \<and> int i \<le> D (owner M t)"
  proof (cases "M t")
    case None
    have "int i \<le> D t"
    proof (cases "D t = kNodeNotAssigned")
      case True
      then show ?thesis using in_order_facts(1)[OF g] i by simp
    next
      case False
      then have "(D t, t) \<in> usedSoFar M g (length (g_nodes g))"
        using P unfolding planGood_def releaseInv_def by blast
      then obtain j s where j: "D t = int j" "owner M s = t" "j < length (g_nodes g)" "s \<in> set (inputsOf (g_nodes g ! j))"
        by blast
      have "i < j"
      proof (cases "M s")
        case None
        then show ?thesis using in_order_facts(7)[OF g j(3) i, of t] t j(2,4) by (simp add: owner_def)
      next
        case (Some r)
        then have "M s = Some t" using j(2) by (simp add: owner_def)
        then obtain k l where k: "k < length (g_nodes g)" "s \<in> set (outputsOf (g_nodes g ! k))" "l \<le> k" "t \<in> set (inputsOf (g_nodes g ! l))"
          using P unfolding planGood_def sharedInv_def by blast
        have "k < j" by (rule in_order_facts(7)[OF g j(3) k(1) j(4) k(2)])
        moreover have "i < l" by (rule in_order_facts(7)[OF g _ i k(4) t]) (use k in simp)
        ultimately show ?thesis using k(3) by simp
      qed
      then show ?thesis using j(1) by simp
    qed
    then show ?thesis using None At by (simp add: owner_def)
  next
    case (Some r)
    then obtain j x where j: "j < length (g_nodes g)" "t \<in> set (outputsOf (g_nodes g ! j))"
        "x \<in> set (inputsOf (g_nodes g ! j))" "owner M x = r"
      using P unfolding planGood_def sharedInv_def by blast
    have "j = i" by (rule in_order_facts(6)[OF g j(1) i j(2) t])
    then show ?thesis using planGood_input[OF g P i, of x] j(3,4) Some by (simp add: owner_def)
  qed
  then show "A (owner M t) = kNodeNotAssigned \<or> A (owner M t) \<le> int i" "int i \<le> D (owner M t)" by simp_all
qed

lemma planGood_kept:
  assumes g: "in_order g" and P: "planGood g A D M" and t: "t \<in> set (present (g_outputs g)) \<union> sources g"
  shows "owner M t = t" "D t = kNodeNotAssigned"
proof -
  have "M t = None"
  proof (rule ccontr)
    assume "M t \<noteq> None"
    then obtain r where "M t = Some r" by blast
    then obtain j where "t \<notin> set (g_outputs g)" "j < length (g_nodes g)" "t \<in> set (outputsOf (g_nodes g ! j))"
      using P unfolding planGood_def sharedInv_def by blast
    then show False using in_order_facts(5)[OF g, of j t] t by auto
  qed
  then show "owner M t = t" by (simp add: owner_def)
  have "heldRefs g t \<noteq> 0"
    using t count_list_0_iff[of "present (g_outputs g)" t] count_list_0_iff[of "g_variables g" t]
      count_list_0_iff[of "present (g_inputs g)" t] by (auto simp: heldRefs_def)
  then show "D t = kNodeNotAssigned" using P unfolding planGood_def releaseInv_def by blast
qed

lemma planGood_planned:
  assumes "in_order g" "planGood g A D M" "planned_tensor g t"
  shows "A t \<noteq> kNodeNotAssigned"
proof -
  have A: "A = startsAt g (length (g_nodes g))" using assms(2) by (simp add: planGood_def)
  show ?thesis
  proof (cases "t \<in> sources g")
    case True
    then show ?thesis by (simp add: A startsAt_def)
  next
    case False
    then obtain i where i: "i < length (g_nodes g)" "t \<in> set (outputsOf (g_nodes g ! i))"
      using assms(3) unfolding planned_tensor_def list_ex_iff by (metis in_set_conv_nth)
    then show ?thesis using planGood_output(1)[OF assms(1,2) i] in_order_facts(1)[OF assms(1)] by simp
  qed
qed

lemma planGood_within:
  assumes g: "in_order g" and P: "planGood g A D M" and i: "i < length (g_nodes g)"
    and t: "t \<in> set (inputsOf (g_nodes g ! i)) \<union> set (outputsOf (g_nodes g ! i))"
  shows "within (length (g_tensors g)) (owner M t)"
proof (cases "M t")
  case None
  have "within (length (g_tensors g)) t" by (rule in_order_facts(3)[OF g i]) (use t in blast)
  then show ?thesis using None by (simp add: owner_def)
next
  case (Some r)
  then obtain j k where "j < length (g_nodes g)" "k \<le> j" "r \<in> set (inputsOf (g_nodes g ! k))"
    using P unfolding planGood_def sharedInv_def by blast
  then show ?thesis using in_order_facts(3)[OF g, of k r] Some by (simp add: owner_def)
qed

lemma PlanAllocations_good:
  assumes "in_order (pl_graph p)"
  shows "\<exists>p' A D F M. PlanAllocations p = (Inr (), p') \<and> planGood (pl_graph p) A D M \<and>
    plan_is (rest_of (cleared p)) A D F (tensorsAt (pl_graph p) (length (execution_nodes p))) M p'"
proof -
  obtain p' M D F where "PlanAllocations p = (Inr (), p')"
    "plan_is (rest_of (cleared p)) (startsAt (pl_graph p) (length (execution_nodes p))) D F
      (tensorsAt (pl_graph p) (length (execution_nodes p))) M p'"
    "sharedInv (pl_graph p) (length (execution_nodes p)) M"
    "releaseInv (heldRefs (pl_graph p)) (startsAt (pl_graph p) (length (execution_nodes p))) D [] (usedSoFar M (pl_graph p) (length (execution_nodes p)))"
    using PlanAllocations_run[OF assms] by blast
  then show ?thesis unfolding planGood_def by blast
qed

lemma reads_nth: "reads v n f \<Longrightarrow> within n t \<Longrightarrow> v ! nat t = f t"
  by (simp add: reads_def)

text \<open>C35: lifetimes. \<open>PlanAllocations\<close> succeeds on every graph in order. The interval of nodes it
  gives to the owner of a tensor's memory contains every node that reads or writes the tensor,
  also when the tensor shares the memory of another one; inputs, outputs and variables of the
  graph own their memory and are never released, and the outputs of a node are allocated at it.\<close>

theorem PlanAllocations_covers_uses:
  assumes "in_order (pl_graph p)"
  shows "\<exists>p'. PlanAllocations p = (Inr (), p') \<and> pl_graph p' = pl_graph p \<and>
    (\<forall>i < length (execution_nodes p). \<forall>t \<in> set (inputsOf (execution_nodes p ! i)) \<union> set (outputsOf (execution_nodes p ! i)).
      let r = owner (actual_tensor_id p') t in planned_tensor (pl_graph p) r \<longrightarrow>
        alloc_node p' ! nat r \<le> int i \<and> int i \<le> dealloc_node p' ! nat r) \<and>
    (\<forall>i < length (execution_nodes p). \<forall>t \<in> set (outputsOf (execution_nodes p ! i)). alloc_node p' ! nat t = int i) \<and>
    (\<forall>t \<in> set (present (g_outputs (pl_graph p))) \<union> sources (pl_graph p).
      owner (actual_tensor_id p') t = t \<and> dealloc_node p' ! nat t = kNodeNotAssigned)"
proof -
  let ?g = "pl_graph p" and ?n = "num_tensors p"
  obtain p' A D F M where run: "PlanAllocations p = (Inr (), p')" and P: "planGood ?g A D M"
    and p': "plan_is (rest_of (cleared p)) A D F (tensorsAt ?g (length (g_nodes ?g))) M p'"
    using PlanAllocations_good[OF assms] by blast
  have M: "actual_tensor_id p' = M" and r: "reads (alloc_node p') ?n A" "reads (dealloc_node p') ?n D"
    and g: "pl_graph p' = ?g"
    using plan_is_facts[OF p'] by simp_all
  have uses: "A (owner M t) \<le> int i \<and> int i \<le> D (owner M t)"
    if "i < length (g_nodes ?g)" "t \<in> set (inputsOf (g_nodes ?g ! i)) \<union> set (outputsOf (g_nodes ?g ! i))"
      "planned_tensor ?g (owner M t)" for i t
    using that(2)
  proof
    assume t: "t \<in> set (inputsOf (g_nodes ?g ! i))"
    show ?thesis using planGood_input[OF assms P that(1) t] planGood_planned[OF assms P that(3)] by blast
  next
    assume t: "t \<in> set (outputsOf (g_nodes ?g ! i))"
    show ?thesis using planGood_output[OF assms P that(1) t] planGood_planned[OF assms P that(3)] by blast
  qed
  show ?thesis
  proof (rule exI[of _ p'], intro conjI allI ballI impI)
    fix i t assume i: "i < length (g_nodes ?g)" "t \<in> set (inputsOf (g_nodes ?g ! i)) \<union> set (outputsOf (g_nodes ?g ! i))"
    show "let r = owner (actual_tensor_id p') t in planned_tensor ?g r \<longrightarrow>
        alloc_node p' ! nat r \<le> int i \<and> int i \<le> dealloc_node p' ! nat r"
      unfolding Let_def M reads_nth[OF r(1) planGood_within[OF assms P i]] reads_nth[OF r(2) planGood_within[OF assms P i]]
      using uses[OF i] by blast
  next
    fix i t assume i: "i < length (g_nodes ?g)" "t \<in> set (outputsOf (g_nodes ?g ! i))"
    have "within ?n t" using in_order_facts(3)[OF assms i(1)] i(2) by blast
    then show "alloc_node p' ! nat t = int i" using reads_nth[OF r(1)] planGood_output(1)[OF assms P i] by simp
  next
    fix t assume t: "t \<in> set (present (g_outputs ?g)) \<union> sources ?g"
    have "within ?n t" using in_order_facts(2)[OF assms, of t] t by blast
    then show "dealloc_node p' ! nat t = kNodeNotAssigned" using reads_nth[OF r(2)] planGood_kept(2)[OF assms P t] by simp
    show "owner (actual_tensor_id p') t = t" unfolding M by (rule planGood_kept(1)[OF assms P t])
  qed (use run g in simp_all)
qed

text \<open>Three nodes: an addition, a reshape that shares its input, and a multiplication.\<close>

definition sample_tensor :: tfl_tensor where
  "sample_tensor = \<lparr>t_bytes = 64, t_allocation_type = kTfLiteArenaRw, t_data = 0\<rparr>"

definition sample_graph :: graph_info where
  "sample_graph = \<lparr>g_tensors = replicate 4 sample_tensor,
     g_nodes = [\<lparr>n_inputs = [0], n_outputs = [1], n_temporaries = [], inplace_operator = 0\<rparr>,
       \<lparr>n_inputs = [1, - 1], n_outputs = [2], n_temporaries = [], inplace_operator = 5\<rparr>,
       \<lparr>n_inputs = [2], n_outputs = [3], n_temporaries = [], inplace_operator = 0\<rparr>],
     g_inputs = [0], g_outputs = [3], g_variables = []\<rparr>"

lemma sample_graph_in_order: "in_order sample_graph"
  by code_simp

definition sample_planner :: planner where
  "sample_planner = newPlanner sample_graph False 64"

lemma sample_planner_graph: "pl_graph sample_planner = sample_graph"
  by (simp add: sample_planner_def newPlanner_def)

theorem PlanAllocations_covers_uses_witness:
  "\<exists>p'. PlanAllocations sample_planner = (Inr (), p') \<and> alloc_node p' ! 3 = 2 \<and>
    owner (actual_tensor_id p') 3 = 3 \<and> dealloc_node p' ! 3 = kNodeNotAssigned"
proof -
  have s: "2 < length (g_nodes sample_graph)" "3 \<in> set (outputsOf (g_nodes sample_graph ! 2))"
      "3 \<in> set (present (g_outputs sample_graph)) \<union> sources sample_graph"
    by code_simp+
  obtain p' where p': "PlanAllocations sample_planner = (Inr (), p')"
    and a: "\<forall>i < length (g_nodes sample_graph). \<forall>t \<in> set (outputsOf (g_nodes sample_graph ! i)). alloc_node p' ! nat t = int i"
    and k: "\<forall>t \<in> set (present (g_outputs sample_graph)) \<union> sources sample_graph.
      owner (actual_tensor_id p') t = t \<and> dealloc_node p' ! nat t = kNodeNotAssigned"
    using PlanAllocations_covers_uses[of sample_planner, unfolded sample_planner_graph, OF sample_graph_in_order]
    by (elim exE conjE) (rule that)
  show ?thesis using p' a[rule_format, OF s(1,2)] bspec[OF k s(3)] by simp
qed

section \<open>An alias that the sharing test does not see\<close>

text \<open>Two reshapes make tensors 2 and 3 share the memory of tensor 1; node 3 modifies tensor 3 in
  place (as \<open>ADD\<close> does) and node 4 reads tensor 2.\<close>

definition alias_graph :: graph_info where
  "alias_graph = \<lparr>g_tensors = replicate 6 sample_tensor,
     g_nodes = [\<lparr>n_inputs = [0], n_outputs = [1], n_temporaries = [], inplace_operator = 0\<rparr>,
       \<lparr>n_inputs = [1], n_outputs = [2], n_temporaries = [], inplace_operator = 5\<rparr>,
       \<lparr>n_inputs = [2], n_outputs = [3], n_temporaries = [], inplace_operator = 5\<rparr>,
       \<lparr>n_inputs = [3, 0], n_outputs = [4], n_temporaries = [], inplace_operator = 12\<rparr>,
       \<lparr>n_inputs = [2, 4], n_outputs = [5], n_temporaries = [], inplace_operator = 0\<rparr>],
     g_inputs = [0], g_outputs = [5], g_variables = []\<rparr>"

text \<open>\<open>IdentifyInPlaceTensors\<close> counts the references to the input and to the owner of its
  memory, not those to other tensors that share the memory. On a graph in order it lets node 3,
  whose operator modifies its data, write its output 4 to the memory of tensor 2, which node 4
  still has to read.\<close>

lemma IdentifyInPlaceTensors_misses_an_alias:
  "in_order alias_graph \<and>
   (case PlanAllocations (newPlanner alias_graph False 64) of (r, p) \<Rightarrow>
     r = Inr () \<and> owner (actual_tensor_id p) 4 = owner (actual_tensor_id p) 2 \<and>
     4 \<in> set (n_outputs (execution_nodes p ! 3)) \<and>
     and (inplace_operator (execution_nodes p ! 3)) kTfLiteInplaceOpDataUnmodified = 0 \<and>
     2 \<notin> set (n_inputs (execution_nodes p ! 3)) \<and> 2 \<in> set (n_inputs (execution_nodes p ! 4)))"
  by code_simp

end
