(* ===== verification/PlannerReady.thy ===== *)
theory PlannerReady
  imports PlannerLifetimes ArenaSound
begin

text \<open>
  What the execution of a plan starts from: rules for operations that may fail, the graphs that are
  ready to run, the temporaries that \<open>ExecuteAllocations\<close> adds to the plan, and the lifetimes that
  result.
\<close>

section \<open>Outcomes\<close>

text \<open>An operation succeeds with the postcondition or fails with \<open>kTfLiteError\<close>; it never faults.\<close>

definition outcome :: "('s, 'a) op \<Rightarrow> 's \<Rightarrow> ('a \<Rightarrow> 's \<Rightarrow> bool) \<Rightarrow> bool" where
  "outcome m s Q \<longleftrightarrow> (case m s of (Inr x, s') \<Rightarrow> Q x s' | (Inl e, _) \<Rightarrow> e = Status TfLiteError)"

lemma outcome_run: "m s = (Inr x, s') \<Longrightarrow> Q x s' \<Longrightarrow> outcome m s Q"
  by (simp add: outcome_def)

lemma outcome_mono: "outcome m s Q \<Longrightarrow> (\<And>x s'. Q x s' \<Longrightarrow> Q' x s') \<Longrightarrow> outcome m s Q'"
  by (auto simp: outcome_def split: prod.splits sum.splits)

lemma outcome_bind: "outcome m s (\<lambda>x s'. outcome (f x) s' Q) \<Longrightarrow> outcome (andThen m f) s Q"
  by (auto simp: outcome_def andThen_def split: prod.splits sum.splits)

lemma outcome_ret: "Q x s \<Longrightarrow> outcome (ret x) s Q"
  by (simp add: outcome_def ret_run)

lemma outcome_gets: "outcome (f (g s)) s Q \<Longrightarrow> outcome (andThen (gets g) f) s Q"
  by (simp add: outcome_def andThen_gets)

lemma outcome_modify: "outcome (f ()) (g s) Q \<Longrightarrow> outcome (andThen (modify g) f) s Q"
  by (simp add: outcome_def andThen_modify)

lemma outcome_iterOp:
  assumes "\<And>ys x zs s. xs = ys @ x # zs \<Longrightarrow> I ys s \<Longrightarrow> outcome (f x) s (\<lambda>_. I (ys @ [x]))"
    and "I [] s"
  shows "outcome (iterOp f xs) s (\<lambda>_. I xs)"
proof -
  have "outcome (iterOp f zs) s (\<lambda>_. I xs)" if "xs = ys @ zs" "I ys s" for ys zs s
    using that
  proof (induction zs arbitrary: ys s)
    case (Cons z zs)
    have "outcome (f z) s (\<lambda>_. I (ys @ [z]))" by (rule assms(1)[OF Cons.prems])
    then show ?case unfolding iterOp.simps
      by (intro outcome_bind) (rule outcome_mono, assumption, rule Cons.IH, simp_all add: Cons.prems(1))
  qed (simp add: outcome_ret)
  from this[of "[]" xs s] show ?thesis using assms(2) by simp
qed

lemma outcome_onArena:
  assumes "\<And>r a. m (rw_arena p) = (r, a) \<Longrightarrow>
    (case r of Inr x \<Rightarrow> Q x (p\<lparr>rw_arena := a\<rparr>) | Inl e \<Rightarrow> e = Status TfLiteError)"
  shows "outcome (onArena m) p Q"
  using assms by (cases "m (rw_arena p)") (auto simp: outcome_def onArena_def split: sum.splits)

lemma outcome_onPersistent:
  assumes "\<And>r a. m (persistent_arena p) = (r, a) \<Longrightarrow>
    (case r of Inr x \<Rightarrow> Q x (p\<lparr>persistent_arena := a\<rparr>) | Inl e \<Rightarrow> e = Status TfLiteError)"
  shows "outcome (onPersistent m) p Q"
  using assms by (cases "m (persistent_arena p)") (auto simp: outcome_def onPersistent_def split: sum.splits)

section \<open>The arena never faults\<close>

lemma gapLoop_error: "gapLoop al n p q xs cur best fit = Inl e \<Longrightarrow> e = Status TfLiteError"
  by (induction xs arbitrary: cur best fit)
    (auto simp: ensureSome_def bindR_def Let_def split: if_splits option.splits sum.splits)

lemma ensureSome_error: "ensureSome x = Inl e \<Longrightarrow> e = Status TfLiteError"
  by (auto simp: ensureSome_def split: option.splits)

lemma Allocate_error: "Allocate al n t p q a = (Inl e, a') \<Longrightarrow> e = Status TfLiteError"
  by (auto simp: Allocate_def op_simps Let_def andThen_def split: if_splits prod.splits sum.splits
    dest: gapLoop_error ensureSome_error)

lemma Commit_error: "Commit m a = (Inl e, a') \<Longrightarrow> e = Status TfLiteError"
  by (auto simp: Commit_def Resize_def onBuffer_def op_simps andThen_def split: if_splits prod.splits sum.splits option.splits)

lemma ResolveAlloc_error: "ResolveAlloc x a = (Inl e, a') \<Longrightarrow> e = Status TfLiteError"
  by (auto simp: ResolveAlloc_def op_simps andThen_def split: if_splits sum.splits dest: ensureSome_error)

lemma ResolveAlloc_same: "ResolveAlloc x a = (r, a') \<Longrightarrow> a' = a"
  by (auto simp: ResolveAlloc_def op_simps andThen_def split: if_splits sum.splits)

section \<open>Graphs that are ready to run\<close>

abbreviation temporaryOf :: "graph_info \<Rightarrow> int \<Rightarrow> int set" where
  "temporaryOf g i \<equiv> {t. within (length (g_nodes g)) i \<and> t \<in> set (n_temporaries (g_nodes g ! nat i))}"

text \<open>The graph has a node, a temporary belongs to one node only and is used for nothing else, and
  an input of a node that lives in the arena is an input or a variable of the graph or the output
  of a node.\<close>

definition ready_graph :: "graph_info \<Rightarrow> bool" where
  "ready_graph g \<longleftrightarrow> in_order g \<and> g_nodes g \<noteq> [] \<and>
    (let nodes = g_nodes g in
      list_all (\<lambda>i. list_all (\<lambda>t. \<not> planned_tensor g t \<and>
          list_all (\<lambda>j. t \<notin> set (inputsOf (nodes ! j)) \<and> (j \<noteq> i \<longrightarrow> t \<notin> set (n_temporaries (nodes ! j)))) [0..<length nodes])
        (n_temporaries (nodes ! i))) [0..<length nodes] \<and>
      list_all (\<lambda>node. list_all (\<lambda>t. t_allocation_type (g_tensors g ! nat t) = kTfLiteArenaRw \<longrightarrow> planned_tensor g t)
        (inputsOf node)) nodes)"

lemma ready_facts:
  assumes "ready_graph g"
  shows "in_order g" "0 < length (g_nodes g)"
    "i < length (g_nodes g) \<Longrightarrow> t \<in> set (n_temporaries (g_nodes g ! i)) \<Longrightarrow> \<not> planned_tensor g t"
    "i < length (g_nodes g) \<Longrightarrow> t \<in> set (n_temporaries (g_nodes g ! i)) \<Longrightarrow> j < length (g_nodes g) \<Longrightarrow> t \<notin> set (inputsOf (g_nodes g ! j))"
    "i < length (g_nodes g) \<Longrightarrow> t \<in> set (n_temporaries (g_nodes g ! i)) \<Longrightarrow> j < length (g_nodes g) \<Longrightarrow>
      t \<in> set (n_temporaries (g_nodes g ! j)) \<Longrightarrow> i = j"
    "j < length (g_nodes g) \<Longrightarrow> t \<in> set (inputsOf (g_nodes g ! j)) \<Longrightarrow>
      t_allocation_type (g_tensors g ! nat t) = kTfLiteArenaRw \<Longrightarrow> planned_tensor g t"
proof -
  note U = assms[unfolded ready_graph_def Let_def list_all_iff]
  show "in_order g" "0 < length (g_nodes g)" using U by blast+
  show "j < length (g_nodes g) \<Longrightarrow> t \<in> set (inputsOf (g_nodes g ! j)) \<Longrightarrow>
      t_allocation_type (g_tensors g ! nat t) = kTfLiteArenaRw \<Longrightarrow> planned_tensor g t" using U nth_mem by blast
  assume i: "i < length (g_nodes g)" and t: "t \<in> set (n_temporaries (g_nodes g ! i))"
  have m: "k \<in> set [0..<length (g_nodes g)]" if "k < length (g_nodes g)" for k using that by simp
  show "\<not> planned_tensor g t" using U m[OF i] t by blast
  assume j: "j < length (g_nodes g)"
  show "t \<notin> set (inputsOf (g_nodes g ! j))" using U m[OF i] t m[OF j] by blast
  show "t \<in> set (n_temporaries (g_nodes g ! j)) \<Longrightarrow> i = j" using U m[OF i] t m[OF j] by blast
qed

section \<open>Temporaries\<close>

text \<open>The plan when the temporaries \<open>P\<close>, pairs of a node and a tensor, have been added to it.\<close>

definition temps_planned ::
    "planner \<Rightarrow> (int \<Rightarrow> int) \<Rightarrow> (int \<Rightarrow> int) \<Rightarrow> (int \<Rightarrow> int set) \<Rightarrow> (int \<Rightarrow> int option) \<Rightarrow> (int \<times> int) set \<Rightarrow> planner \<Rightarrow> bool" where
  "temps_planned K A D S M P p \<longleftrightarrow> (\<exists>A2 D2 F. plan_is K A2 D2 F (\<lambda>i. S i \<union> {t. (i, t) \<in> P}) M p \<and>
     (\<forall>t. t \<notin> snd ` P \<longrightarrow> A2 t = A t \<and> D2 t = D t) \<and> (\<forall>(i, t) \<in> P. A2 t = i \<and> (D2 t = i \<or> D2 t = D t)))"

lemma planTemporary_run:
  assumes p: "temps_planned K A D S M P p" and t: "within (num_tensors K) t" "within (length (execution_nodes K)) i"
    and u: "\<And>j. (j, t) \<in> P \<Longrightarrow> j = i"
  shows "\<exists>p'. planTemporary i t p = (Inr (), p') \<and> temps_planned K A D S M (insert (i, t) P) p'"
proof -
  let ?SP = "\<lambda>P j. S j \<union> {x. (j, x) \<in> P}" and ?P = "insert (i, t) P"
  obtain A2 D2 F where s: "plan_is K A2 D2 F (?SP P) M p"
    and out: "\<forall>x. x \<notin> snd ` P \<longrightarrow> A2 x = A x \<and> D2 x = D x"
    and mem: "\<forall>(j, x) \<in> P. A2 x = j \<and> (D2 x = j \<or> D2 x = D x)"
    using p unfolding temps_planned_def by (elim exE conjE) (rule that)
  have r: "reads (alloc_node p) (num_tensors K) A2" using s by (simp add: plan_is_def)
  obtain v where v: "writeAt (alloc_node p) t i = Inr v" "reads v (num_tensors K) (A2(t := i))"
    using reads_writeAt[OF r t(1)] by blast
  let ?p1 = "p\<lparr>alloc_node := v\<rparr>"
  have s1: "setAllocNode t i p = (Inr (), ?p1)" "plan_is K (A2(t := i)) D2 F (?SP P) M ?p1"
    using v s by (simp_all add: setAllocNode_def op_simps plan_is_def)
  have e: "(?SP P)(i := insert t (?SP P i)) = ?SP ?P" by (auto simp: fun_eq_iff)
  have i: "within (max (length (execution_nodes K)) 1) i" using t(2) by simp
  obtain p2 where s2: "insertTensor i t ?p1 = (Inr (), p2)" "plan_is K (A2(t := i)) D2 F (?SP ?P) M p2"
    using insertTensor_run[OF s1(2) i, of t] unfolding e by (elim exE conjE) (rule that)
  have rd: "reads (dealloc_node p2) (num_tensors K) D2" using s2(2) by (simp add: plan_is_def)
  obtain w where w: "writeAt (dealloc_node p2) t i = Inr w" "reads w (num_tensors K) (D2(t := i))"
    using reads_writeAt[OF rd t(1)] by blast
  let ?D = "if preserve_all_tensors p2 then D2 else D2(t := i)"
  let ?p3 = "if preserve_all_tensors p2 then p2 else p2\<lparr>dealloc_node := w\<rparr>"
  have "planTemporary i t p = (Inr (), ?p3)"
    using s1(1) s2(1) w(1) by (simp add: planTemporary_def setDeallocNode_def op_simps andThen_def)
  moreover have "plan_is K (A2(t := i)) ?D F (?SP ?P) M ?p3" using s2(2) w(2) by (simp add: plan_is_def)
  moreover have "\<forall>x. x \<notin> snd ` ?P \<longrightarrow> (A2(t := i)) x = A x \<and> ?D x = D x" using out by auto
  moreover have "(A2(t := i)) x = j \<and> (?D x = j \<or> ?D x = D x)" if "(j, x) \<in> ?P" for j x
  proof (cases "x = t")
    case True
    then have "j = i" using that u by auto
    moreover have "D2 t = i \<or> D2 t = D t"
    proof (cases "t \<in> snd ` P")
      case True
      then have "(i, t) \<in> P" using u by auto
      then show ?thesis using mem by auto
    qed (use out in simp)
    ultimately show ?thesis using True by simp
  next
    case False
    then show ?thesis using that mem by auto
  qed
  then have "\<forall>(j, x) \<in> ?P. (A2(t := i)) x = j \<and> (?D x = j \<or> ?D x = D x)" by blast
  ultimately show ?thesis unfolding temps_planned_def
    by (intro exI[of _ ?p3] conjI exI[of _ "A2(t := i)"] exI[of _ ?D] exI[of _ F])
qed

abbreviation allTemporaries :: "graph_info \<Rightarrow> (int \<times> int) set" where
  "allTemporaries g \<equiv> {(i, t). t \<in> temporaryOf g i}"

lemma nodeRange_all:
  assumes "0 < length (execution_nodes p)" "int (length (execution_nodes p)) < kNodeNotAssigned"
  shows "nodeRange 0 (int (length (execution_nodes p)) - 1) p = [0..int (length (execution_nodes p)) - 1]"
  using assms by (auto simp: nodeRange_def to_uint64_def intro!: filter_True)

lemma planAllTemporaries_run:
  assumes g: "ready_graph (pl_graph K)" and p: "temps_planned K A D S M {} p"
  shows "\<exists>p'. iterOp planTemporaries [0..int (length (execution_nodes K)) - 1] p = (Inr (), p') \<and>
    temps_planned K A D S M (allTemporaries (pl_graph K)) p'"
proof -
  let ?g = "pl_graph K" and ?n = "length (execution_nodes K)"
  let ?P = "\<lambda>ys. {(i, t). i \<in> set ys \<and> t \<in> temporaryOf ?g i}"
  have one: "\<exists>p'. planTemporaries x s = (Inr (), p') \<and> temps_planned K A D S M (?P (ys @ [x])) p'"
    if x: "within ?n x" and s: "temps_planned K A D S M (?P ys) s" for ys x s
  proof -
    let ?ts = "n_temporaries (g_nodes ?g ! nat x)"
    let ?Q = "\<lambda>us. ?P ys \<union> Pair x ` set us"
    have "\<exists>p'. iterOp (planTemporary x) ?ts s = (Inr (), p') \<and> temps_planned K A D S M (?Q ?ts) p'"
    proof (rule iterOp_rule[where I = "\<lambda>us. temps_planned K A D S M (?Q us)"])
      fix us t zs s' assume us: "?ts = us @ t # zs" and s': "temps_planned K A D S M (?Q us) s'"
      have t: "t \<in> set ?ts" using us by simp
      have w: "within (num_tensors K) t" using in_order_facts(3)[OF ready_facts(1)[OF g], of "nat x" t] x t by auto
      have u: "j = x" if "(j, t) \<in> ?Q us" for j
      proof -
        have "within ?n j \<and> t \<in> set (n_temporaries (g_nodes ?g ! nat j))" using that x us by (auto split: if_splits)
        then have "nat x = nat j" using ready_facts(5)[OF g _ t, of "nat j"] x by auto
        then show ?thesis using x \<open>within ?n j \<and> _\<close> by (simp add: eq_nat_nat_iff)
      qed
      have e: "?Q (us @ [t]) = insert (x, t) (?Q us)" by auto
      show "\<exists>s''. planTemporary x t s' = (Inr (), s'') \<and> temps_planned K A D S M (?Q (us @ [t])) s''"
        unfolding e by (rule planTemporary_run[OF s' w x u])
    qed (use s in simp)
    moreover have "?Q ?ts = ?P (ys @ [x])" using x by auto
    moreover have "planTemporaries x s = iterOp (planTemporary x) ?ts s"
    proof -
      have "execution_nodes s = g_nodes ?g" using s plan_is_facts(5) by (auto simp: temps_planned_def)
      then show ?thesis using x by (simp add: planTemporaries_def readAt_def op_simps andThen_def vecAt_def)
    qed
    ultimately show ?thesis by simp
  qed
  have "\<exists>p'. iterOp planTemporaries [0..int ?n - 1] p = (Inr (), p') \<and> temps_planned K A D S M (?P [0..int ?n - 1]) p'"
  proof (rule iterOp_rule[where I = "\<lambda>ys. temps_planned K A D S M (?P ys)"])
    fix ys x zs s assume xs: "[0..int ?n - 1] = ys @ x # zs" and s: "temps_planned K A D S M (?P ys) s"
    have "x \<in> set [0..int ?n - 1]" unfolding xs by simp
    then have x: "within ?n x" by simp
    show "\<exists>s'. planTemporaries x s = (Inr (), s') \<and> temps_planned K A D S M (?P (ys @ [x])) s'" by (rule one[OF x s])
  qed (use p in simp)
  moreover have "?P [0..int ?n - 1] = allTemporaries ?g" by (auto split: if_splits)
  ultimately show ?thesis by simp
qed

section \<open>Lifetimes with temporaries\<close>

definition used_at :: "graph_info \<Rightarrow> nat \<Rightarrow> int set" where
  "used_at g i = set (inputsOf (g_nodes g ! i)) \<union> set (outputsOf (g_nodes g ! i)) \<union> set (n_temporaries (g_nodes g ! i))"

definition in_rw_arena :: "graph_info \<Rightarrow> int \<Rightarrow> bool" where
  "in_rw_arena g t \<longleftrightarrow> t_allocation_type (g_tensors g ! nat t) = kTfLiteArenaRw \<and> t_bytes (g_tensors g ! nat t) \<noteq> 0"

abbreviation placed :: "graph_info \<Rightarrow> (int \<Rightarrow> int set) \<Rightarrow> int \<Rightarrow> bool" where
  "placed g S t \<equiv> \<exists>k. within (length (g_nodes g)) k \<and> t \<in> S k"

text \<open>What the layout needs of a plan: \<open>S\<close> holds the tensors to allocate at each node, a tensor that
  owns its memory, or would if it stopped sharing, lives from \<open>A\<close> to \<open>D\<close>.\<close>

definition lives :: "graph_info \<Rightarrow> (int \<Rightarrow> int) \<Rightarrow> (int \<Rightarrow> int) \<Rightarrow> (int \<Rightarrow> int set) \<Rightarrow> (int \<Rightarrow> int option) \<Rightarrow> bool" where
  "lives g A D S M \<longleftrightarrow> int (length (g_nodes g)) < kNodeNotAssigned \<and> (\<forall>t. 0 \<le> A t) \<and> (\<forall>t. placed g S t \<longrightarrow> within (length (g_tensors g)) t) \<and>
     (\<forall>t r. M t = Some r \<longrightarrow> M r = None \<and> placed g S t \<and> within (length (g_tensors g)) r \<and> (in_rw_arena g r \<longrightarrow> placed g S r)) \<and>
     (\<forall>i t. i < length (g_nodes g) \<and> t \<in> used_at g i \<and> in_rw_arena g t \<longrightarrow> placed g S t \<and> A t \<le> int i \<and>
        (M t = None \<longrightarrow> int i \<le> D t) \<and>
        (M t \<noteq> None \<longrightarrow> D t = kNodeNotAssigned \<and> int i \<le> D (owner M t) \<and> (in_rw_arena g (owner M t) \<longrightarrow> A (owner M t) \<le> int i)))"

lemma planned_placed:
  assumes "planned_tensor g t" "0 < length (g_nodes g)"
  shows "placed g (tensorsAt g (length (g_nodes g))) t"
proof (cases "t \<in> sources g")
  case True
  then show ?thesis using assms(2) by (intro exI[of _ 0]) (simp add: tensorsAt_def)
next
  case False
  then obtain j where "j < length (g_nodes g)" "t \<in> set (outputsOf (g_nodes g ! j))"
    using assms(1) unfolding planned_tensor_def list_ex_iff by (metis in_set_conv_nth)
  then show ?thesis by (intro exI[of _ "int j"]) (auto simp: tensorsAt_def)
qed

lemma planGood_root:
  assumes "planGood g A D M" "M t = Some r"
  shows "M r = None" "\<exists>j < length (g_nodes g). t \<in> set (outputsOf (g_nodes g ! j)) \<and> (\<exists>k \<le> j. r \<in> set (inputsOf (g_nodes g ! k)))"
  using assms unfolding planGood_def sharedInv_def by blast+

text \<open>A tensor that shares is never released itself.\<close>

lemma planGood_shared:
  assumes "planGood g A D M" "M t \<noteq> None"
  shows "D t = kNodeNotAssigned"
proof (rule ccontr)
  assume "D t \<noteq> kNodeNotAssigned"
  then have "(D t, t) \<in> usedSoFar M g (length (g_nodes g))" using assms(1) unfolding planGood_def releaseInv_def by blast
  then obtain s where "owner M s = t" by blast
  then show False using planGood_root(1)[OF assms(1), of s t] assms(2) by (auto simp: owner_def split: option.splits)
qed

lemma not_temporary:
  assumes "ready_graph g"
  shows "j < length (g_nodes g) \<Longrightarrow> t \<in> set (inputsOf (g_nodes g ! j)) \<Longrightarrow> t \<notin> snd ` allTemporaries g"
    "planned_tensor g t \<Longrightarrow> t \<notin> snd ` allTemporaries g"
    "j < length (g_nodes g) \<Longrightarrow> t \<in> set (outputsOf (g_nodes g ! j)) \<Longrightarrow> planned_tensor g t"
proof -
  have in_temps: "\<exists>i < length (g_nodes g). t \<in> set (n_temporaries (g_nodes g ! i))" if m: "t \<in> snd ` allTemporaries g"
  proof -
    obtain i where "t \<in> temporaryOf g i" using m by auto
    then have "nat i < length (g_nodes g) \<and> t \<in> set (n_temporaries (g_nodes g ! nat i))" by (auto split: if_splits)
    then show ?thesis by blast
  qed
  show "j < length (g_nodes g) \<Longrightarrow> t \<in> set (inputsOf (g_nodes g ! j)) \<Longrightarrow> t \<notin> snd ` allTemporaries g"
    using in_temps ready_facts(4)[OF assms] by blast
  show "planned_tensor g t \<Longrightarrow> t \<notin> snd ` allTemporaries g" using in_temps ready_facts(3)[OF assms] by blast
  show "j < length (g_nodes g) \<Longrightarrow> t \<in> set (outputsOf (g_nodes g ! j)) \<Longrightarrow> planned_tensor g t"
    unfolding planned_tensor_def list_ex_iff using nth_mem by blast
qed

lemma planGood_temporary:
  assumes g: "ready_graph g" and P: "planGood g A D M" and i: "i < length (g_nodes g)" and t: "t \<in> set (n_temporaries (g_nodes g ! i))"
  shows "M t = None" "D t = kNodeNotAssigned"
proof -
  have no: "\<not> planned_tensor g t" by (rule ready_facts(3)[OF g i t])
  show "M t = None"
  proof (cases "M t")
    case (Some r)
    then show ?thesis using planGood_root(2)[OF P Some] not_temporary(3)[OF g] no by blast
  qed simp
  show "D t = kNodeNotAssigned"
  proof (rule ccontr)
    assume "D t \<noteq> kNodeNotAssigned"
    then have "(D t, t) \<in> usedSoFar M g (length (g_nodes g))" using P unfolding planGood_def releaseInv_def by blast
    then obtain j s where s: "owner M s = t" "j < length (g_nodes g)" "s \<in> set (inputsOf (g_nodes g ! j))" by blast
    obtain k where "k < length (g_nodes g)" "t \<in> set (inputsOf (g_nodes g ! k))"
    proof (cases "M s")
      case None
      then show ?thesis using that s by (simp add: owner_def)
    next
      case (Some r)
      then have "r = t" using s(1) by (simp add: owner_def)
      moreover obtain j' k where "j' < length (g_nodes g)" "k \<le> j'" "r \<in> set (inputsOf (g_nodes g ! k))"
        using planGood_root(2)[OF P Some] by blast
      ultimately show ?thesis using that[of k] by simp
    qed
    then show False using ready_facts(4)[OF g i t] by blast
  qed
qed

lemma planGood_lives:
  assumes g: "ready_graph g" and P: "planGood g A D M"
    and out: "\<And>t. t \<notin> snd ` allTemporaries g \<Longrightarrow> A2 t = A t \<and> D2 t = D t"
    and temp: "\<And>i t. i < length (g_nodes g) \<Longrightarrow> t \<in> set (n_temporaries (g_nodes g ! i)) \<Longrightarrow> A2 t = int i \<and> (D2 t = int i \<or> D2 t = D t)"
  shows "lives g A2 D2 (\<lambda>i. tensorsAt g (length (g_nodes g)) i \<union> {t. (i, t) \<in> allTemporaries g}) M"
proof -
  let ?n = "length (g_nodes g)" and ?S = "\<lambda>i. tensorsAt g (length (g_nodes g)) i \<union> {t. (i, t) \<in> allTemporaries g}"
  note o = ready_facts(1)[OF g] and r = planGood_root[OF P]
  have A: "A = startsAt g ?n" using P by (simp add: planGood_def)
  have pos: "0 \<le> A t" for t using startsAt_cases[of g ?n t] A by auto
  have a2: "0 \<le> A2 t" for t
  proof (cases "t \<in> snd ` allTemporaries g")
    case True
    then obtain i where i: "t \<in> temporaryOf g i" by auto
    then have "nat i < ?n" "t \<in> set (n_temporaries (g_nodes g ! nat i))" by (auto split: if_splits)
    then show ?thesis using temp by simp
  qed (use out pos in simp)
  have pl: "placed g ?S t" if "planned_tensor g t" for t using planned_placed[OF that ready_facts(2)[OF g]] by blast
  have range: "within (length (g_tensors g)) t" if t: "placed g ?S t" for t
  proof -
    obtain k where k: "within ?n k" "t \<in> ?S k" using t by blast
    then have "t \<in> sources g \<or> t \<in> set (outputsOf (g_nodes g ! nat k)) \<union> set (n_temporaries (g_nodes g ! nat k))"
      by (auto simp: tensorsAt_def split: if_splits)
    then show ?thesis using in_order_facts(2)[OF o, of t] in_order_facts(3)[OF o, of "nat k" t] k(1) by auto
  qed
  have root: "M r = None \<and> planned_tensor g t \<and> within (length (g_tensors g)) r \<and> (in_rw_arena g r \<longrightarrow> planned_tensor g r) \<and> r \<notin> snd ` allTemporaries g"
    if m: "M t = Some r" for t r
  proof -
    obtain j k where j: "j < ?n" "t \<in> set (outputsOf (g_nodes g ! j))" "k \<le> j" "r \<in> set (inputsOf (g_nodes g ! k))" using r(2)[OF m] by blast
    then have k: "k < ?n" by simp
    show ?thesis
      using r(1)[OF m] not_temporary(3)[OF g j(1,2)] in_order_facts(3)[OF o k, of r] ready_facts(6)[OF g k j(4)] j(4)
        not_temporary(1)[OF g k j(4)] by (auto simp: in_rw_arena_def)
  qed
  have use: "placed g ?S t \<and> A2 t \<le> int i \<and> (M t = None \<longrightarrow> int i \<le> D2 t) \<and>
      (M t \<noteq> None \<longrightarrow> D2 t = kNodeNotAssigned \<and> int i \<le> D2 (owner M t) \<and> (in_rw_arena g (owner M t) \<longrightarrow> A2 (owner M t) \<le> int i))"
    if i: "i < ?n" and t: "t \<in> used_at g i" and rw: "in_rw_arena g t" for i t
  proof (cases "t \<in> set (n_temporaries (g_nodes g ! i))")
    case True
    then have "placed g ?S t" using i by (intro exI[of _ "int i"]) auto
    moreover have "int i \<le> kNodeNotAssigned" using in_order_facts(1)[OF o] i by simp
    ultimately show ?thesis using temp[OF i True] planGood_temporary[OF g P i True] by auto
  next
    case False
    then have t': "t \<in> set (inputsOf (g_nodes g ! i)) \<or> t \<in> set (outputsOf (g_nodes g ! i))" using t by (auto simp: used_at_def)
    then have p: "planned_tensor g t"
      using ready_facts(6)[OF g i, of t] not_temporary(3)[OF g i, of t] rw unfolding in_rw_arena_def by blast
    have same: "A2 t = A t" "D2 t = D t" using out[OF not_temporary(2)[OF g p]] by simp_all
    have some: "A t \<noteq> kNodeNotAssigned" by (rule planGood_planned[OF o P p])
    have At: "A t \<le> int i" using t' startsAt_input[OF o i, of t] planGood_output(1)[OF o P i, of t] some unfolding A by auto
    have own: "A (owner M t) = kNodeNotAssigned \<or> A (owner M t) \<le> int i" "int i \<le> D (owner M t)"
      using t' planGood_input[OF o P i, of t] planGood_output(2,3)[OF o P i, of t] by blast+
    show ?thesis
    proof (cases "M t")
      case None
      then show ?thesis using pl[OF p] same At own by (simp add: owner_def)
    next
      case (Some x)
      then have x: "owner M t = x" by (simp add: owner_def)
      have "A2 x = A x" "D2 x = D x" using out root[OF Some] by simp_all
      moreover have "A x \<noteq> kNodeNotAssigned" if "in_rw_arena g x" using planGood_planned[OF o P, of x] root[OF Some] that by blast
      ultimately show ?thesis using pl[OF p] same At own planGood_shared[OF P, of t] Some unfolding x by auto
    qed
  qed
  have roots: "\<forall>t r. M t = Some r \<longrightarrow> M r = None \<and> placed g ?S t \<and> within (length (g_tensors g)) r \<and> (in_rw_arena g r \<longrightarrow> placed g ?S r)"
  proof (intro allI impI)
    fix t x assume "M t = Some x"
    note x = root[OF this]
    show "M x = None \<and> placed g ?S t \<and> within (length (g_tensors g)) x \<and> (in_rw_arena g x \<longrightarrow> placed g ?S x)"
      by (intro conjI impI pl) (use x in simp_all)
  qed
  have ranges: "\<forall>t. placed g ?S t \<longrightarrow> within (length (g_tensors g)) t" by (intro allI impI range)
  show ?thesis unfolding lives_def
    by (intro conjI[OF in_order_facts(1)[OF o]] conjI[OF allI[OF a2]] conjI[OF ranges] conjI[OF roots] allI impI, elim conjE) (rule use)
qed

end
