(* ===== verification/PlannerLayout.thy ===== *)
theory PlannerLayout
  imports PlannerReady
begin

text \<open>
  \<open>CalculateAllocations\<close>: every tensor of the arena that is due gets an allocation of the plan over
  its lifetime, or keeps sharing the memory of a tensor of its size.
\<close>

section \<open>Laying out\<close>

abbreviation tensor_of :: "graph_info \<Rightarrow> int \<Rightarrow> tfl_tensor" where "tensor_of g t \<equiv> g_tensors g ! nat t"

text \<open>A tensor has an allocation of its own in the plan, over its lifetime, or shares the memory of a
  tensor of the same size.\<close>

definition settled ::
    "graph_info \<Rightarrow> (int \<Rightarrow> int) \<Rightarrow> (int \<Rightarrow> int) \<Rightarrow> arena_alloc list \<Rightarrow> planner \<Rightarrow> int \<Rightarrow> bool" where
  "settled g A D plan s t \<longleftrightarrow>
    (case actual_tensor_id s t of
       None \<Rightarrow> let x = pl_allocs s ! nat t in x \<in> set plan \<and> a_tensor x = t \<and> a_size x = t_bytes (tensor_of g t) \<and>
         a_first_node x = A t \<and> a_last_node x = D t
     | Some r \<Rightarrow> in_rw_arena g r \<and> t_bytes (tensor_of g r) = t_bytes (tensor_of g t))"

definition laid_out ::
    "graph_info \<Rightarrow> (int \<Rightarrow> int) \<Rightarrow> (int \<Rightarrow> int) \<Rightarrow> (int \<Rightarrow> int option) \<Rightarrow> int set \<Rightarrow> arena_alloc list \<Rightarrow> planner \<Rightarrow> bool" where
  "laid_out g A D M T plan s \<longleftrightarrow> pl_graph s = g \<and> reads (alloc_node s) (length (g_tensors g)) A \<and>
     reads (dealloc_node s) (length (g_tensors g)) D \<and> length (pl_allocs s) = length (g_tensors g) \<and>
     buf_ok (underlying_buffer (rw_arena s)) \<and> plan_inv (rw_arena s, plan, 0) \<and>
     (\<forall>t. actual_tensor_id s t = None \<or> actual_tensor_id s t = M t) \<and>
     (\<forall>t \<in> T. within (length (g_tensors g)) t \<and> (in_rw_arena g t \<longrightarrow> settled g A D plan s t))"

lemma laid_out_next:
  assumes L: "laid_out g A D M T plan s" and t: "within (length (g_tensors g)) t"
    and same: "pl_graph s' = g" "alloc_node s' = alloc_node s" "dealloc_node s' = dealloc_node s"
      "length (pl_allocs s') = length (g_tensors g)" "buf_ok (underlying_buffer (rw_arena s'))"
    and plan: "set plan \<subseteq> set plan'" "plan_inv (rw_arena s', plan', 0)"
    and other: "\<And>u. u \<noteq> t \<Longrightarrow> actual_tensor_id s' u = actual_tensor_id s u"
      "\<And>u. within (length (g_tensors g)) u \<Longrightarrow> u \<noteq> t \<Longrightarrow> pl_allocs s' ! nat u = pl_allocs s ! nat u"
    and new: "actual_tensor_id s' t = None \<or> actual_tensor_id s' t = M t" "in_rw_arena g t \<Longrightarrow> settled g A D plan' s' t"
  shows "laid_out g A D M (insert t T) plan' s'"
proof -
  have "settled g A D plan' s' u" if "u \<in> T" "u \<noteq> t" "in_rw_arena g u" for u
  proof -
    have "within (length (g_tensors g)) u" "settled g A D plan s u" using L that by (auto simp: laid_out_def)
    then show ?thesis using other that(2) plan(1) by (auto simp: settled_def Let_def split: option.splits)
  qed
  then have "\<forall>u \<in> insert t T. within (length (g_tensors g)) u \<and> (in_rw_arena g u \<longrightarrow> settled g A D plan' s' u)"
    using L t new(2) by (auto simp: laid_out_def)
  moreover have "actual_tensor_id s' u = None \<or> actual_tensor_id s' u = M u" for u
    using L new(1) other(1)[of u] by (cases "u = t") (auto simp: laid_out_def)
  ultimately show ?thesis using L same plan(2) by (simp add: laid_out_def)
qed

lemma staysShared_run:
  assumes "within (num_tensors s) t" "\<And>r. actual_tensor_id s t = Some r \<Longrightarrow> within (num_tensors s) r"
  shows "staysShared t s = (Inr True, s) \<and>
      (\<exists>r. actual_tensor_id s t = Some r \<and> t_allocation_type (tensor_of (pl_graph s) r) = kTfLiteArenaRw \<and>
        t_bytes (tensor_of (pl_graph s) r) = t_bytes (tensor_of (pl_graph s) t)) \<or>
    staysShared t s = (Inr False, s\<lparr>actual_tensor_id := (actual_tensor_id s)(t := None)\<rparr>)"
proof (cases "actual_tensor_id s t")
  case None
  then have "(actual_tensor_id s)(t := None) = actual_tensor_id s" by auto
  then show ?thesis using None by (simp add: staysShared_def op_simps)
next
  case (Some r)
  then show ?thesis using tensorAt_run[OF assms(1)] tensorAt_run[OF assms(2)[OF Some]]
    by (simp add: staysShared_def op_simps andThen_def)
qed

lemma Allocate_buffer: "Allocate al n t p q a = (Inr x, a') \<Longrightarrow> underlying_buffer a' = underlying_buffer a"
  by (auto simp: Allocate_def op_simps Let_def andThen_eq_Inr split: if_splits prod.splits)

lemma setAllocOf_run:
  "within (length (pl_allocs s)) t \<Longrightarrow> setAllocOf t x s = (Inr (), s\<lparr>pl_allocs := (pl_allocs s)[nat t := x]\<rparr>)"
  by (simp add: setAllocOf_def op_simps writeAt_def)

text \<open>What \<open>allocateTensor\<close> does with a tensor that does not stay shared.\<close>

lemma allocateTensor_own:
  assumes "within (num_tensors s) t" "length (pl_allocs s) = num_tensors s"
    and "reads (alloc_node s) (num_tensors s) A" "reads (dealloc_node s) (num_tensors s) D"
    and "staysShared t s = (Inr False, s')" "s' = s\<lparr>actual_tensor_id := M\<rparr>" "tensor = tensor_of (pl_graph s) t"
  shows "allocateTensor t s =
    (if t_allocation_type tensor = kTfLiteArenaRw then
       andThen (onArena (Allocate (tensor_alignment s) (t_bytes tensor) t (A t) (D t))) (setAllocOf t) s'
     else if t_allocation_type tensor = kTfLiteArenaRwPersistent \<and> a_size (pl_allocs s ! nat t) = 0 \<and>
         a_size (pl_allocs s ! nat t) < t_bytes tensor then
       andThen (onPersistent (Allocate (tensor_alignment s) (t_bytes tensor) t (A t) int32_max)) (setAllocOf t) s'
     else (Inr (), s'))"
proof -
  have "readAt alloc_node t s' = (Inr (A t), s')" "readAt dealloc_node t s' = (Inr (D t), s')"
    "readAt pl_allocs t s' = (Inr (pl_allocs s ! nat t), s')"
    using readAt_run[where field = alloc_node and p = s' and t = t and f = A]
      readAt_run[where field = dealloc_node and p = s' and t = t and f = D] assms
    by (simp_all add: readAt_def op_simps vecAt_def)
  then show ?thesis using tensorAt_run[OF assms(1)] assms(5-7) by (auto simp: allocateTensor_def op_simps andThen_def)
qed

lemma allocateTensor_outcome:
  assumes L: "laid_out g A D M T plan s" and t: "within (length (g_tensors g)) t" and A: "0 \<le> A t"
    and M: "\<And>r. M t = Some r \<Longrightarrow> within (length (g_tensors g)) r"
  shows "outcome (allocateTensor t) s (\<lambda>_ s'. \<exists>plan'. laid_out g A D M (insert t T) plan' s')"
proof -
  have g: "pl_graph s = g" and act: "actual_tensor_id s t = None \<or> actual_tensor_id s t = M t"
    and ln: "length (pl_allocs s) = length (g_tensors g)" and buf: "buf_ok (underlying_buffer (rw_arena s))"
    and inv: "plan_inv (rw_arena s, plan, 0)"
    and rd: "reads (alloc_node s) (length (g_tensors g)) A" "reads (dealloc_node s) (length (g_tensors g)) D"
    using L by (auto simp: laid_out_def)
  have T: "tensorAt t s = (Inr (tensor_of g t), s)" using tensorAt_run[of t s] t g by simp
  let ?s = "s\<lparr>actual_tensor_id := (actual_tensor_id s)(t := None)\<rparr>"
  from staysShared_run[of t s] t g M act
  consider r where "staysShared t s = (Inr True, s)" "actual_tensor_id s t = Some r"
      "t_allocation_type (tensor_of g r) = kTfLiteArenaRw" "t_bytes (tensor_of g r) = t_bytes (tensor_of g t)"
    | "staysShared t s = (Inr False, ?s)" by fastforce
  then show ?thesis
  proof cases
    case 1
    then have "settled g A D plan s t" if "in_rw_arena g t" using that by (simp add: settled_def in_rw_arena_def)
    then have "laid_out g A D M (insert t T) plan s"
      by (intro laid_out_next[OF L t]) (use g ln buf inv act in auto)
    moreover have "allocateTensor t s = (Inr (), s)" using T 1(1) by (simp add: allocateTensor_def andThen_def ret_run)
    ultimately show ?thesis by (auto intro: outcome_run)
  next
    case 2
    let ?n = "t_bytes (tensor_of g t)" and ?al = "tensor_alignment s" and ?type = "t_allocation_type (tensor_of g t)"
    have run: "allocateTensor t s =
        (if ?type = kTfLiteArenaRw then andThen (onArena (Allocate ?al ?n t (A t) (D t))) (setAllocOf t) ?s
         else if ?type = kTfLiteArenaRwPersistent \<and> a_size (pl_allocs s ! nat t) = 0 \<and> a_size (pl_allocs s ! nat t) < ?n then
           andThen (onPersistent (Allocate ?al ?n t (A t) int32_max)) (setAllocOf t) ?s
         else (Inr (), ?s))"
      by (rule allocateTensor_own[OF _ _ _ _ 2 refl]) (use t g ln rd in simp_all)
    have idle: "laid_out g A D M (insert t T) plan ?s" if "?type \<noteq> kTfLiteArenaRw"
      by (rule laid_out_next[OF L t]) (use that g ln buf inv in \<open>auto simp: in_rw_arena_def\<close>)
    consider (rw) "?type = kTfLiteArenaRw"
      | (persistent) "?type = kTfLiteArenaRwPersistent" "a_size (pl_allocs s ! nat t) = 0 \<and> a_size (pl_allocs s ! nat t) < ?n"
      | (other) "?type \<noteq> kTfLiteArenaRw" "\<not> (?type = kTfLiteArenaRwPersistent \<and> a_size (pl_allocs s ! nat t) = 0 \<and> a_size (pl_allocs s ! nat t) < ?n)"
      by blast
    then show ?thesis
    proof cases
      case rw
      show ?thesis
      proof (cases "Allocate ?al ?n t (A t) (D t) (rw_arena s)")
        case (Pair r a)
        show ?thesis
        proof (cases r)
          case (Inl e)
          then show ?thesis using Pair Allocate_error run rw by (simp add: outcome_def onArena_def andThen_def)
        next
          case (Inr x)
          let ?s' = "?s\<lparr>rw_arena := a, pl_allocs := (pl_allocs s)[nat t := x]\<rparr>"
          have al: "Allocate ?al ?n t (A t) (D t) (rw_arena s) = (Inr x, a)" using Pair Inr by simp
          have "by_offset (active_allocs (rw_arena s))" using inv by (simp add: plan_inv_def)
          note x = Allocate_run[OF al this]
          have "plan_inv (a, x # plan, 0)" by (rule allocate_inv[OF al A _ inv]) (use t in simp)
          moreover have "buf_ok (underlying_buffer a)" using buf Allocate_buffer[OF al] by simp
          ultimately have "laid_out g A D M (insert t T) (x # plan) ?s'"
            by (intro laid_out_next[OF L t]) (use t g ln x in \<open>auto simp: settled_def Let_def nth_list_update nat_eq_iff2\<close>)
          moreover have "allocateTensor t s = (Inr (), ?s')"
            using al run rw t ln by (simp add: onArena_def andThen_def setAllocOf_run)
          ultimately show ?thesis by (auto intro: outcome_run)
        qed
      qed
    next
      case persistent
      have run': "allocateTensor t s = andThen (onPersistent (Allocate ?al ?n t (A t) int32_max)) (setAllocOf t) ?s"
        using run persistent by auto
      show ?thesis
      proof (cases "Allocate ?al ?n t (A t) int32_max (persistent_arena s)")
        case (Pair r a)
        show ?thesis
        proof (cases r)
          case (Inl e)
          then show ?thesis using Pair Allocate_error run' by (simp add: outcome_def onPersistent_def andThen_def)
        next
          case (Inr x)
          let ?s' = "?s\<lparr>persistent_arena := a, pl_allocs := (pl_allocs s)[nat t := x]\<rparr>"
          have "laid_out g A D M (insert t T) plan ?s'"
            by (rule laid_out_next[OF L t]) (use t g ln buf inv persistent(1) in \<open>auto simp: in_rw_arena_def nth_list_update nat_eq_iff2\<close>)
          moreover have "allocateTensor t s = (Inr (), ?s')"
            using Pair Inr run' t ln by (simp add: onPersistent_def andThen_def setAllocOf_run)
          ultimately show ?thesis by (auto intro: outcome_run)
        qed
      qed
    next
      case other
      then have "allocateTensor t s = (Inr (), ?s)" using run by (simp only: if_False)
      then show ?thesis using idle[OF other(1)] by (blast intro: outcome_run)
    qed
  qed
qed

section \<open>Calculating the allocations\<close>

lemma set_sortBy: "set (sortBy lt xs) = set xs"
proof -
  have "set (insertBy lt x ys) = insert x (set ys)" for x ys by (induction ys) auto
  then show ?thesis unfolding sortBy_def by (induction xs) simp_all
qed

lemma GetTensorsToAllocate_run:
  assumes "plan_is K A D F S M s" "0 < length (execution_nodes K)" "\<And>ts. set (hash ts) = set ts"
  shows "\<exists>ts. GetTensorsToAllocate hash 0 (int (length (execution_nodes K)) - 1) s = (Inr ts, s) \<and>
    (\<forall>t. t \<in> set ts \<longleftrightarrow> placed (pl_graph K) S t)"
proof -
  let ?n = "length (execution_nodes K)" and ?v = "nodes_to_tensors s"
  have "max ?n 1 = ?n" using assms(2) by (simp add: max_absorb1 Suc_le_eq)
  then have r: "reads (map set ?v) ?n S" using plan_is_facts(4)[OF assms(1)] by simp
  have one: "readAt nodes_to_tensors i s = (Inr (?v ! nat i), s)" "set (?v ! nat i) = S i" if "within ?n i" for i
    using r that by (auto simp: reads_def readAt_def op_simps vecAt_def)
  let ?ts = "concat (map hash (map (\<lambda>i. ?v ! nat i) [0..int ?n - 1]))"
  have "mapOp (readAt nodes_to_tensors) [0..int ?n - 1] s = (Inr (map (\<lambda>i. ?v ! nat i) [0..int ?n - 1]), s)"
    by (rule mapOp_pure) (use one in auto)
  then have "GetTensorsToAllocate hash 0 (int ?n - 1) s = (Inr ?ts, s)"
    by (simp add: GetTensorsToAllocate_def op_simps andThen_def)
  moreover have "t \<in> set ?ts \<longleftrightarrow> placed (pl_graph K) S t" for t using one(2) assms(3) by auto
  ultimately show ?thesis by blast
qed

definition wanted :: "graph_info \<Rightarrow> int \<Rightarrow> bool" where
  "wanted g t \<longleftrightarrow> in_rw_arena g t \<or> t_allocation_type (tensor_of g t) = kTfLiteArenaRwPersistent"

lemma needsArena_run:
  assumes "within (num_tensors s) t" "pl_allocs s = replicate (num_tensors s) newAlloc"
  shows "needsArena t s = (Inr (if wanted (pl_graph s) t then [t] else []), s)"
proof -
  have "readAt pl_allocs t s = (Inr newAlloc, s)"
    using assms by (simp add: readAt_def op_simps vecAt_def nat_less_iff)
  moreover have "a_size newAlloc < x \<longleftrightarrow> x \<noteq> 0" for x by (simp add: newAlloc_def word_gt_0)
  ultimately show ?thesis using tensorAt_run[OF assms(1)]
    by (auto simp: needsArena_def wanted_def in_rw_arena_def op_simps andThen_def)
qed

lemma laid_out_start:
  assumes p: "plan_is K A D F S M s" "length (pl_allocs s) = num_tensors K" and buf: "buf_ok (underlying_buffer (rw_arena s))"
  shows "active_allocs (rw_arena s) = [] \<Longrightarrow> laid_out (pl_graph K) A D M {} [] s"
proof -
  assume "active_allocs (rw_arena s) = []"
  then have "plan_inv (rw_arena s, [], 0)" by (simp add: plan_inv_def disjoint_plan_def)
  then show "laid_out (pl_graph K) A D M {} [] s" using plan_is_facts[OF p(1)] p(2) buf by (simp add: laid_out_def)
qed

lemma laid_out_fields:
  "laid_out g A D M T plan s \<Longrightarrow> laid_out g A D M T plan (s\<lparr>last_active_node := n\<rparr>)"
  "laid_out g A D M T plan s \<Longrightarrow> laid_out g A D M T plan (s\<lparr>has_nonpersistent_memory := b\<rparr>)"
  "laid_out g A D M T plan s \<Longrightarrow> laid_out g A D M T plan (s\<lparr>persistent_arena := a\<rparr>)"
  by (simp_all add: laid_out_def settled_def cong: option.case_cong)

lemma allocateTensors_outcome:
  assumes L: "laid_out g A D M {} [] s" and ts: "\<forall>t \<in> set ts. within (length (g_tensors g)) t"
    and A: "\<And>t. 0 \<le> A t" and M: "\<And>t r. M t = Some r \<Longrightarrow> within (length (g_tensors g)) r"
  shows "outcome (iterOp allocateTensor ts) s (\<lambda>_ s'. \<exists>plan. laid_out g A D M (set ts) plan s')"
proof (rule outcome_iterOp[where I = "\<lambda>ys s'. \<exists>plan. laid_out g A D M (set ys) plan s'"])
  fix ys x zs s'
  assume xs: "ts = ys @ x # zs" and "\<exists>plan. laid_out g A D M (set ys) plan s'"
  then obtain plan where "laid_out g A D M (set ys) plan s'" by blast
  then have "outcome (allocateTensor x) s' (\<lambda>_ s'. \<exists>plan'. laid_out g A D M (insert x (set ys)) plan' s')"
    by (rule allocateTensor_outcome) (use xs ts A M in auto)
  then show "outcome (allocateTensor x) s' (\<lambda>_ s'. \<exists>plan. laid_out g A D M (set (ys @ [x])) plan s')" by simp
qed (use L in auto)

lemma CalculateAllocations_outcome:
  assumes p: "plan_is K A D F S M s" and fresh: "pl_allocs s = replicate (num_tensors K) newAlloc"
      "last_active_node s = kLastActiveNodeUndefined" "active_allocs (rw_arena s) = []"
    and buf: "buf_ok (underlying_buffer (rw_arena s))" and hash: "\<And>ts. set (hash ts) = set ts"
    and n: "0 < length (execution_nodes K)" and lives: "lives (pl_graph K) A D S M"
  shows "outcome (CalculateAllocations hash 0 (int (length (execution_nodes K)) - 1)) s (\<lambda>ts s'.
    (\<forall>t. t \<in> set ts \<longleftrightarrow> placed (pl_graph K) S t \<and> wanted (pl_graph K) t) \<and>
    (\<exists>plan. laid_out (pl_graph K) A D M (set ts) plan s'))"
proof -
  let ?g = "pl_graph K" and ?n = "int (length (execution_nodes K)) - 1"
  have g: "pl_graph s = ?g" by (rule plan_is_facts(5)[OF p])
  obtain ts where ts: "GetTensorsToAllocate hash 0 ?n s = (Inr ts, s)" "\<And>t. t \<in> set ts \<longleftrightarrow> placed ?g S t"
    using GetTensorsToAllocate_run[OF p n hash] by blast
  have range: "within (num_tensors s) t" if "t \<in> set ts" for t using lives ts(2) that g by (auto simp: lives_def)
  let ?f = "\<lambda>t. if wanted ?g t then [t] else []"
  define xss where "xss = map ?f ts"
  have need: "mapOp needsArena ts s = (Inr xss, s)"
    unfolding xss_def by (rule mapOp_pure) (use needsArena_run range fresh(1) g in auto)
  define us where "us = concat xss"
  have mem: "t \<in> set us \<longleftrightarrow> placed ?g S t \<and> wanted ?g t" for t using ts(2) by (auto simp: us_def xss_def)
  have M: "within (num_tensors K) r" if "M t = Some r" for t r using lives that by (auto simp: lives_def)
  have A: "0 \<le> A t" for t using lives by (simp add: lives_def)
  have ln: "length (pl_allocs s) = num_tensors K" using fresh(1) by simp
  have L0: "laid_out ?g A D M {} [] s" by (rule laid_out_start[OF p ln buf fresh(3)])
  show ?thesis
  proof (cases "us = []")
    case True
    have "CalculateAllocations hash 0 ?n s = (Inr us, s\<lparr>last_active_node := ?n\<rparr>)"
      using ts(1) need True by (simp del: concat_eq_Nil_conv add: CalculateAllocations_def us_def[symmetric] op_simps andThen_def Let_def)
    then show ?thesis by (rule outcome_run) (use mem True laid_out_fields(1)[OF L0] in auto)
  next
    case False
    let ?s = "s\<lparr>rw_arena := (rw_arena s)\<lparr>active_allocs := []\<rparr>, last_active_node := 0\<rparr>"
    have s: "?s = s\<lparr>last_active_node := 0\<rparr>" using fresh(3) by simp
    let ?vs = "sortBy (tensor_compare ?s) us"
    have "CalculateAllocations hash 0 ?n s =
        andThen (iterOp allocateTensor ?vs) (\<lambda>_. andThen (modify (\<lambda>p. p\<lparr>last_active_node := ?n\<rparr>)) (\<lambda>_. ret ?vs)) ?s"
      using ts(1) need False fresh(2)
      by (simp del: concat_eq_Nil_conv add: CalculateAllocations_def us_def[symmetric] CreateTensorAllocationVector_def onArena_def ResetAllocs_def op_simps andThen_def Let_def)
    moreover have "outcome (iterOp allocateTensor ?vs) ?s (\<lambda>_ s'. \<exists>plan. laid_out ?g A D M (set ?vs) plan s')"
      by (rule allocateTensors_outcome) (use laid_out_fields(1)[OF L0, of 0] s A M range mem ts(2) g in \<open>auto simp: set_sortBy\<close>)
    then have "outcome (andThen (iterOp allocateTensor ?vs) (\<lambda>_. andThen (modify (\<lambda>p. p\<lparr>last_active_node := ?n\<rparr>)) (\<lambda>_. ret ?vs))) ?s
      (\<lambda>ts s'. (\<forall>t. t \<in> set ts \<longleftrightarrow> placed ?g S t \<and> wanted ?g t) \<and> (\<exists>plan. laid_out ?g A D M (set ts) plan s'))"
    proof (rule outcome_bind[OF outcome_mono])
      fix u s' assume "\<exists>plan. laid_out ?g A D M (set ?vs) plan s'"
      then obtain plan where "laid_out ?g A D M (set us) plan s'" by (auto simp: set_sortBy)
      from laid_out_fields(1)[OF this, of ?n]
      show "outcome (andThen (modify (\<lambda>p. p\<lparr>last_active_node := ?n\<rparr>)) (\<lambda>_. ret ?vs)) s'
        (\<lambda>ts s'. (\<forall>t. t \<in> set ts \<longleftrightarrow> placed ?g S t \<and> wanted ?g t) \<and> (\<exists>plan. laid_out ?g A D M (set ts) plan s'))"
        by (intro outcome_modify outcome_ret) (use mem in \<open>auto simp: set_sortBy\<close>)
    qed
    ultimately show ?thesis by (simp add: outcome_def)
  qed
qed

end
