(* ===== verification/PlannerResolve.thy ===== *)
theory PlannerResolve
  imports PlannerLayout
begin

text \<open>
  The two phases of the planner together: after the arenas are committed every tensor is resolved
  to a pointer, and tensors that are used by the same node never overlap, unless they share memory
  on purpose.
\<close>

section \<open>Committing\<close>

lemma laid_out_arena:
  assumes "laid_out g A D M T plan s" "active_allocs a = active_allocs (rw_arena s)"
    "high_water_mark a = high_water_mark (rw_arena s)" "buf_ok (underlying_buffer a)"
  shows "laid_out g A D M T plan (s\<lparr>rw_arena := a\<rparr>)"
  using assms by (simp add: laid_out_def settled_def plan_inv_def cong: option.case_cong)

abbreviation committed_for :: "planner \<Rightarrow> bool" where
  "committed_for s \<equiv> committed (rw_arena s) \<and> high_water_mark (rw_arena s) \<le> data_size (underlying_buffer (rw_arena s))"

lemma CommitArenas_outcome:
  assumes m: "malloc_ok m" and L: "laid_out g A D M T plan s"
  shows "outcome (CommitArenas m) s (\<lambda>_ s'. laid_out g A D M T plan s' \<and> committed_for s')"
proof -
  have second: "outcome (andThen (onPersistent (Commit m)) (\<lambda>q. ret (r \<or> q))) s' (\<lambda>_ s'. laid_out g A D M T plan s' \<and> committed_for s')"
    if "laid_out g A D M T plan s' \<and> committed_for s'" for r s'
  proof (intro outcome_bind outcome_onPersistent)
    fix q a assume "Commit m (persistent_arena s') = (q, a)"
    then show "case q of Inl e \<Rightarrow> e = Status TfLiteError
      | Inr x \<Rightarrow> outcome (ret (r \<or> x)) (s'\<lparr>persistent_arena := a\<rparr>) (\<lambda>_ s'. laid_out g A D M T plan s' \<and> committed_for s')"
      using that laid_out_fields(3) Commit_error by (cases q) (auto intro: outcome_ret)
  qed
  show ?thesis unfolding CommitArenas_def
  proof (intro outcome_bind outcome_onArena)
    fix q a assume q: "Commit m (rw_arena s) = (q, a)"
    show "case q of Inl e \<Rightarrow> e = Status TfLiteError
      | Inr r \<Rightarrow> outcome (andThen (modify (\<lambda>p. p\<lparr>has_nonpersistent_memory := True\<rparr>)) (\<lambda>_.
          andThen (onPersistent (Commit m)) (\<lambda>q. ret (r \<or> q)))) (s\<lparr>rw_arena := a\<rparr>)
          (\<lambda>_ s'. laid_out g A D M T plan s' \<and> committed_for s')"
    proof (cases q)
      case (Inl e)
      then show ?thesis using q Commit_error by simp
    next
      case (Inr r)
      have "buf_ok (underlying_buffer (rw_arena s))" using L by (simp add: laid_out_def)
      note c = Commit_run[OF m q[unfolded Inr] this] and k = Commit_keeps[OF q]
      have "laid_out g A D M T plan (s\<lparr>rw_arena := a\<rparr>)" by (rule laid_out_arena[OF L]) (use c k in simp_all)
      then have "laid_out g A D M T plan (s\<lparr>rw_arena := a, has_nonpersistent_memory := True\<rparr>)" by (rule laid_out_fields(2))
      then show ?thesis using second c k Inr by (auto intro!: outcome_modify)
    qed
  qed
qed

section \<open>Resolving\<close>

text \<open>A planner with other data pointers.\<close>

definition with_data :: "planner \<Rightarrow> (int \<Rightarrow> 64 word) \<Rightarrow> planner" where
  "with_data s ptr = s\<lparr>pl_graph := (pl_graph s)\<lparr>g_tensors :=
     map (\<lambda>i. (g_tensors (pl_graph s) ! i)\<lparr>t_data := ptr (int i)\<rparr>) [0..<num_tensors s]\<rparr>\<rparr>"

lemma with_data_simps [simp]:
  "actual_tensor_id (with_data s ptr) = actual_tensor_id s" "pl_allocs (with_data s ptr) = pl_allocs s"
  "rw_arena (with_data s ptr) = rw_arena s" "persistent_arena (with_data s ptr) = persistent_arena s"
  "num_tensors (with_data s ptr) = num_tensors s"
  by (simp_all add: with_data_def)

lemma with_data_same: "with_data s (\<lambda>t. t_data (tensor_of (pl_graph s) t)) = s"
  by (cases s) (auto simp: with_data_def map_nth)

lemma tensorAt_with_data:
  "within (num_tensors s) t \<Longrightarrow> tensorAt t (with_data s ptr) = (Inr ((tensor_of (pl_graph s) t)\<lparr>t_data := ptr t\<rparr>), with_data s ptr)"
  by (simp add: tensorAt_def readAt_def op_simps vecAt_def with_data_def nat_less_iff)

lemma setData_with_data:
  assumes "within (num_tensors s) t"
  shows "setData t p (with_data s ptr) = (Inr (), with_data s (ptr(t := p)))"
proof -
  let ?v = "\<lambda>f. map (\<lambda>i. (g_tensors (pl_graph s) ! i)\<lparr>t_data := f (int i)\<rparr>) [0..<num_tensors s]"
  have "(?v ptr)[nat t := (tensor_of (pl_graph s) t)\<lparr>t_data := p\<rparr>] = ?v (ptr(t := p))"
    by (rule nth_equalityI) (use assms in \<open>auto simp: nth_list_update nat_eq_iff2\<close>)
  moreover have "g_tensors (pl_graph (with_data s ptr)) = ?v ptr" by (simp add: with_data_def)
  ultimately show ?thesis using assms tensorAt_with_data[OF assms, of ptr]
    by (simp add: setData_def op_simps andThen_def writeAt_def) (simp add: with_data_def)
qed

lemma ResolveAlloc_pointer:
  "ResolveAlloc x a = (Inr p, a') \<Longrightarrow> a_size x \<noteq> 0 \<Longrightarrow> p = aligned_pointer (underlying_buffer a) + a_offset x"
  by (auto simp: ResolveAlloc_def op_simps andThen_eq_Inr split: if_splits)

abbreviation address :: "planner \<Rightarrow> int \<Rightarrow> 64 word" where
  "address s t \<equiv> aligned_pointer (underlying_buffer (rw_arena s)) + a_offset (pl_allocs s ! nat t)"

text \<open>A tensor that owns its memory is resolved, skipped, or fails without an effect.\<close>

lemma resolveOwn_cases:
  assumes t: "within (num_tensors s) t" "length (pl_allocs s) = num_tensors s" and x: "x = pl_allocs s ! nat t"
    and k: "k \<longleftrightarrow> t_allocation_type (tensor_of (pl_graph s) t) = kTfLiteArenaRw \<and> a_size x \<noteq> 0"
  shows "(\<exists>p. resolveOwn t (with_data s ptr) = (Inr (), with_data s (ptr(t := p))) \<and> (k \<longrightarrow> p = address s t)) \<or>
    resolveOwn t (with_data s ptr) = (Inr (), with_data s ptr) \<and> \<not> k \<or>
    resolveOwn t (with_data s ptr) = (Inl (Status TfLiteError), with_data s ptr) \<and>
      (k \<longrightarrow> (\<exists>e. ResolveAlloc x (rw_arena s) = (Inl e, rw_arena s)))"
proof -
  let ?s = "with_data s ptr" and ?type = "t_allocation_type (tensor_of (pl_graph s) t)"
  have rd: "readAt pl_allocs t ?s = (Inr x, ?s)" using t x by (simp add: readAt_def op_simps vecAt_def)
  have same: "?s\<lparr>rw_arena := rw_arena s\<rparr> = ?s" "?s\<lparr>persistent_arena := persistent_arena s\<rparr> = ?s" by (simp_all add: with_data_def)
  have on: "andThen (onArena (ResolveAlloc x)) (setData t) ?s =
      (case fst (ResolveAlloc x (rw_arena s)) of Inl e \<Rightarrow> (Inl e, ?s) | Inr p \<Rightarrow> (Inr (), with_data s (ptr(t := p))))"
    "andThen (onPersistent (ResolveAlloc x)) (setData t) ?s =
      (case fst (ResolveAlloc x (persistent_arena s)) of Inl e \<Rightarrow> (Inl e, ?s) | Inr p \<Rightarrow> (Inr (), with_data s (ptr(t := p))))"
    using ResolveAlloc_same[of x "rw_arena s"] ResolveAlloc_same[of x "persistent_arena s"]
    by (auto simp: same setData_with_data[OF t(1)] andThen_def onArena_def onPersistent_def split: prod.splits sum.splits)
  have run: "resolveOwn t ?s = (if ?type = kTfLiteArenaRw then if a_size x \<noteq> 0 then andThen (onArena (ResolveAlloc x)) (setData t) ?s else (Inr (), ?s)
      else if ?type = kTfLiteArenaRwPersistent then andThen (onPersistent (ResolveAlloc x)) (setData t) ?s else (Inr (), ?s))"
    using tensorAt_with_data[OF t(1), of ptr] rd by (auto simp: resolveOwn_def op_simps andThen_def)
  consider "k" | "?type = kTfLiteArenaRwPersistent" | "\<not> k" "resolveOwn t ?s = (Inr (), ?s)" using run k by (auto split: if_splits)
  then show ?thesis
  proof cases
    case 1
    then have r: "resolveOwn t ?s = andThen (onArena (ResolveAlloc x)) (setData t) ?s" using run k by simp
    show ?thesis
    proof (cases "ResolveAlloc x (rw_arena s)")
      case (Pair q a)
      then have a: "a = rw_arena s" by (rule ResolveAlloc_same)
      show ?thesis using Pair 1 k x ResolveAlloc_error[of x "rw_arena s"] ResolveAlloc_pointer[of x "rw_arena s"]
        unfolding r on a by (cases q) auto
    qed
  next
    case 2
    then have r: "resolveOwn t ?s = andThen (onPersistent (ResolveAlloc x)) (setData t) ?s" "\<not> k" using run k by simp_all
    show ?thesis
    proof (cases "ResolveAlloc x (persistent_arena s)")
      case (Pair q a)
      then show ?thesis using r(2) ResolveAlloc_error[of x "persistent_arena s"] unfolding r(1) on by (cases q) auto
    qed
  qed auto
qed

text \<open>What resolving a tensor does to the pointers: \<open>R\<close> are the tensors laid out in the arena.\<close>

definition pointer_step :: "planner \<Rightarrow> int set \<Rightarrow> (int \<Rightarrow> 64 word) \<Rightarrow> int \<Rightarrow> (int \<Rightarrow> 64 word) \<Rightarrow> bool" where
  "pointer_step s R ptr t ptr' \<longleftrightarrow>
     (\<forall>u \<in> R. ptr' u = ptr u \<or> ptr' u = address s (owner (actual_tensor_id s) u)) \<and>
     (t \<in> R \<longrightarrow> ptr' t = address s (owner (actual_tensor_id s) t))"

text \<open>The tensors laid out resolve: an owner has an allocation inside the buffer, and with a tensor
  that shares its owner is laid out.\<close>

definition resolvable :: "planner \<Rightarrow> int set \<Rightarrow> bool" where
  "resolvable s R \<longleftrightarrow> length (pl_allocs s) = num_tensors s \<and>
     (\<forall>t r. actual_tensor_id s t = Some r \<longrightarrow> actual_tensor_id s r = None \<and> within (num_tensors s) r) \<and>
     (\<forall>t \<in> R. within (num_tensors s) t \<and> t_allocation_type (tensor_of (pl_graph s) t) = kTfLiteArenaRw \<and>
       (case actual_tensor_id s t of Some r \<Rightarrow> r \<in> R
        | None \<Rightarrow> a_size (pl_allocs s ! nat t) \<noteq> 0 \<and> (\<exists>p. ResolveAlloc (pl_allocs s ! nat t) (rw_arena s) = (Inr p, rw_arena s))))"

lemma resolveOwn_outcome:
  assumes R: "resolvable s R" and t: "within (num_tensors s) t"
    and alone: "t \<in> R \<Longrightarrow> actual_tensor_id s t = None"
  shows "\<exists>ptr'. snd (resolveOwn t (with_data s ptr)) = with_data s ptr' \<and> pointer_step s R ptr t ptr' \<and>
    fst (resolveOwn t (with_data s ptr)) \<in> {Inr (), Inl (Status TfLiteError)}"
proof -
  let ?x = "pl_allocs s ! nat t"
  let ?k = "t_allocation_type (tensor_of (pl_graph s) t) = kTfLiteArenaRw \<and> a_size ?x \<noteq> 0"
  have ln: "length (pl_allocs s) = num_tensors s" using R by (simp add: resolvable_def)
  have k: "?k \<and> (\<exists>p. ResolveAlloc ?x (rw_arena s) = (Inr p, rw_arena s)) \<and> owner (actual_tensor_id s) t = t" if "t \<in> R"
    using R alone[OF that] that by (auto simp: resolvable_def owner_def)
  let ?run = "resolveOwn t (with_data s ptr)"
  have stay: "\<exists>ptr'. snd ?run = with_data s ptr' \<and> pointer_step s R ptr t ptr' \<and> fst ?run \<in> {Inr (), Inl (Status TfLiteError)}"
    if "?run = (r, with_data s ptr)" "t \<notin> R" "r \<in> {Inr (), Inl (Status TfLiteError)}" for r
    using that by (intro exI[of _ ptr]) (simp add: pointer_step_def)
  show ?thesis using resolveOwn_cases[OF t ln refl refl, of ptr]
  proof (elim disjE exE conjE)
    fix p assume p: "?run = (Inr (), with_data s (ptr(t := p)))" "?k \<longrightarrow> p = address s t"
    then have "pointer_step s R ptr t (ptr(t := p))" using k by (auto simp: pointer_step_def)
    then show ?thesis using p(1) by (intro exI[of _ "ptr(t := p)"]) simp
  next
    assume "?run = (Inr (), with_data s ptr)" "\<not> ?k"
    then show ?thesis using stay k by blast
  next
    assume f: "?run = (Inl (Status TfLiteError), with_data s ptr)" "?k \<longrightarrow> (\<exists>e. ResolveAlloc ?x (rw_arena s) = (Inl e, rw_arena s))"
    have "t \<notin> R" using k f(2) by (metis Pair_inject sum.distinct(1))
    then show ?thesis using stay[OF f(1)] by simp
  qed
qed

lemma outcome_own:
  assumes "resolvable s R" "within (num_tensors s) t" "t \<in> R \<Longrightarrow> actual_tensor_id s t = None"
    and "run (with_data s ptr) = resolveOwn t (with_data s ptr)"
  shows "outcome run (with_data s ptr) (\<lambda>_ s'. \<exists>ptr'. s' = with_data s ptr' \<and> pointer_step s R ptr t ptr')"
  using resolveOwn_outcome[OF assms(1-3), of ptr] assms(4)
  by (cases "resolveOwn t (with_data s ptr)") (auto simp: outcome_def)

lemma resolveTensor_outcome:
  assumes R: "resolvable s R" and t: "within (num_tensors s) t"
  shows "outcome (resolveTensor (Suc (Suc fuel)) t) (with_data s ptr)
    (\<lambda>_ s'. \<exists>ptr'. s' = with_data s ptr' \<and> pointer_step s R ptr t ptr')"
proof (cases "actual_tensor_id s t")
  case None
  then show ?thesis by (intro outcome_own[OF R t]) (simp_all add: FindSharedTensor_run owner_def op_simps andThen_def)
next
  case (Some r)
  let ?s = "with_data s ptr" and ?type = "\<lambda>t. t_allocation_type (tensor_of (pl_graph s) t)"
  have r: "actual_tensor_id s r = None" "within (num_tensors s) r" using R Some unfolding resolvable_def by blast+
  then have ne: "r \<noteq> t" using Some by auto
  have in_R: "r \<in> R \<and> ?type t = kTfLiteArenaRw" if "t \<in> R" using R Some that by (force simp: resolvable_def)
  then have both: "?type r = kTfLiteArenaRw" if "t \<in> R" using R that by (auto simp: resolvable_def)
  let ?same = "?type r = kTfLiteArenaRw \<and> ?type t = kTfLiteArenaRw \<or> ?type r = kTfLiteArenaRwPersistent \<and> ?type t = kTfLiteArenaRwPersistent"
  have arenas: "AreTensorsAllocatedInSameArena r t ?s = (Inr ?same, ?s)"
    using tensorAt_with_data[OF t, of ptr] tensorAt_with_data[OF r(2), of ptr]
    by (simp add: AreTensorsAllocatedInSameArena_def op_simps andThen_def)
  show ?thesis
  proof (cases ?same)
    case False
    then have "t \<notin> R" using in_R both by blast
    then show ?thesis
      by (intro outcome_own[OF R t]) (use False Some ne arenas in \<open>auto simp: FindSharedTensor_run owner_def op_simps andThen_def\<close>)
  next
    case True
    obtain ptr1 q where q: "resolveOwn r ?s = (q, with_data s ptr1)" "q \<in> {Inr (), Inl (Status TfLiteError)}" "pointer_step s R ptr r ptr1"
      using resolveOwn_outcome[OF R r(2), of ptr] r(1) by (metis prod.collapse)
    have "resolveTensor (Suc fuel) r ?s = resolveOwn r ?s" using r by (simp add: FindSharedTensor_run owner_def op_simps andThen_def)
    then have "snd (tryStatus (resolveTensor (Suc fuel) r) ?s) = with_data s ptr1" "\<exists>x. fst (tryStatus (resolveTensor (Suc fuel) r) ?s) = Inr x"
      using q(1,2) by (auto simp: tryStatus_def)
    then obtain x where "tryStatus (resolveTensor (Suc fuel) r) ?s = (Inr x, with_data s ptr1)" by (metis prod.collapse)
    then have "resolveTensor (Suc (Suc fuel)) t ?s = (Inr (), with_data s (ptr1(t := ptr1 r)))"
      using True Some ne arenas tensorAt_with_data[OF r(2), of ptr1] setData_with_data[OF t, of "ptr1 r" ptr1]
      by (auto simp: FindSharedTensor_run owner_def andThen_def simp del: resolveTensor.simps(2)) (simp_all add: FindSharedTensor_run owner_def andThen_def)
    moreover have "pointer_step s R ptr t (ptr1(t := ptr1 r))"
      using q(3) in_R r(1) Some by (auto simp: pointer_step_def owner_def)
    ultimately show ?thesis by (auto intro: outcome_run)
  qed
qed

lemma resolveAll_outcome:
  assumes R: "resolvable s R" and ts: "\<forall>t \<in> set ts. within (num_tensors s) t"
  shows "outcome (iterOp ResolveTensorAllocation ts) s (\<lambda>_ s'. \<exists>ptr. s' = with_data s ptr \<and>
    (\<forall>u \<in> R. u \<in> set ts \<longrightarrow> ptr u = address s (owner (actual_tensor_id s) u)))"
proof (rule outcome_iterOp[where I = "\<lambda>ys s'. \<exists>ptr. s' = with_data s ptr \<and>
    (\<forall>u \<in> R. u \<in> set ys \<longrightarrow> ptr u = address s (owner (actual_tensor_id s) u))"])
  fix ys x zs s'
  assume xs: "ts = ys @ x # zs"
    and "\<exists>ptr. s' = with_data s ptr \<and> (\<forall>u \<in> R. u \<in> set ys \<longrightarrow> ptr u = address s (owner (actual_tensor_id s) u))"
  then obtain ptr where s': "s' = with_data s ptr"
    and p: "\<And>u. u \<in> R \<Longrightarrow> u \<in> set ys \<Longrightarrow> ptr u = address s (owner (actual_tensor_id s) u)" by blast
  have x: "within (num_tensors s) x" using ts xs by simp
  then obtain k where k: "num_tensors s = Suc k" by (cases "num_tensors s") auto
  have "outcome (resolveTensor (Suc (Suc k)) x) s' (\<lambda>_ s'. \<exists>ptr'. s' = with_data s ptr' \<and> pointer_step s R ptr x ptr')"
    unfolding s' by (rule resolveTensor_outcome[OF R x])
  then have o: "outcome (ResolveTensorAllocation x) s' (\<lambda>_ s'. \<exists>ptr'. s' = with_data s ptr' \<and> pointer_step s R ptr x ptr')"
    unfolding ResolveTensorAllocation_def by (intro outcome_gets) (simp only: s' with_data_simps k)
  show "outcome (ResolveTensorAllocation x) s' (\<lambda>_ s'. \<exists>ptr. s' = with_data s ptr \<and>
      (\<forall>u \<in> R. u \<in> set (ys @ [x]) \<longrightarrow> ptr u = address s (owner (actual_tensor_id s) u)))"
  proof (rule outcome_mono[OF o])
    fix y s'' assume "\<exists>ptr'. s'' = with_data s ptr' \<and> pointer_step s R ptr x ptr'"
    then obtain ptr' where "s'' = with_data s ptr'" "pointer_step s R ptr x ptr'" by blast
    then show "\<exists>ptr. s'' = with_data s ptr \<and> (\<forall>u \<in> R. u \<in> set (ys @ [x]) \<longrightarrow> ptr u = address s (owner (actual_tensor_id s) u))"
      using p by (intro exI[of _ ptr']) (force simp: pointer_step_def)
  qed
qed (auto intro: exI[of _ "\<lambda>t. t_data (tensor_of (pl_graph s) t)"] simp: with_data_same)

section \<open>The layout\<close>

lemma laid_out_shared:
  assumes L: "laid_out g A D M T plan s" and l: "lives g A D S M" and a: "actual_tensor_id s t = Some r"
  shows "M t = Some r" "actual_tensor_id s r = None" "within (length (g_tensors g)) r" "in_rw_arena g r \<Longrightarrow> placed g S r"
proof -
  have "actual_tensor_id s t = None \<or> actual_tensor_id s t = M t" using L unfolding laid_out_def by blast
  then show m: "M t = Some r" using a by auto
  then have r: "M r = None \<and> within (length (g_tensors g)) r \<and> (in_rw_arena g r \<longrightarrow> placed g S r)" using l unfolding lives_def by blast
  have "actual_tensor_id s r = None \<or> actual_tensor_id s r = M r" using L unfolding laid_out_def by blast
  then show "actual_tensor_id s r = None" using r by auto
  show "within (length (g_tensors g)) r" "in_rw_arena g r \<Longrightarrow> placed g S r" using r by blast+
qed

text \<open>The allocation behind a tensor that is laid out.\<close>

lemma laid_out_alloc:
  assumes L: "laid_out g A D M T plan s" and c: "committed_for s" and l: "lives g A D S M"
    and T: "\<And>t. placed g S t \<Longrightarrow> in_rw_arena g t \<Longrightarrow> t \<in> T" and t: "t \<in> T" "in_rw_arena g t"
    and o: "o' = owner (actual_tensor_id s) t" and x: "x = pl_allocs s ! nat o'"
  shows "x \<in> set plan" "a_tensor x = o'" "a_size x = t_bytes (tensor_of g t)" "a_first_node x = A o'" "a_last_node x = D o'"
    "hi x \<le> unat (data_size (underlying_buffer (rw_arena s)))" "in_rw_arena g o'" "o' \<in> T"
proof -
  have S: "settled g A D plan s u" if "u \<in> T" "in_rw_arena g u" for u using L that by (simp add: laid_out_def)
  have own: "o' \<in> T \<and> in_rw_arena g o' \<and> actual_tensor_id s o' = None \<and> t_bytes (tensor_of g o') = t_bytes (tensor_of g t)"
  proof (cases "actual_tensor_id s t")
    case None
    then show ?thesis using t o by (simp add: owner_def)
  next
    case (Some r)
    then have "o' = r" using o by (simp add: owner_def)
    moreover have "in_rw_arena g r \<and> t_bytes (tensor_of g r) = t_bytes (tensor_of g t)" using S[OF t] Some by (simp add: settled_def)
    ultimately show ?thesis using laid_out_shared[OF L l Some] T by blast
  qed
  then show "in_rw_arena g o'" "o' \<in> T" by simp_all
  have s: "x \<in> set plan \<and> a_tensor x = o' \<and> a_size x = t_bytes (tensor_of g o') \<and> a_first_node x = A o' \<and> a_last_node x = D o'"
    using S[of o'] own unfolding x by (simp add: settled_def Let_def)
  then show "x \<in> set plan" "a_tensor x = o'" "a_size x = t_bytes (tensor_of g t)" "a_first_node x = A o'" "a_last_node x = D o'"
    using own by simp_all
  have "hi x \<le> unat (high_water_mark (rw_arena s))" using L s by (auto simp: laid_out_def plan_inv_def)
  then show "hi x \<le> unat (data_size (underlying_buffer (rw_arena s)))" using c by (simp add: word_le_nat_alt)
qed

lemma laid_out_resolvable:
  assumes L: "laid_out g A D M T plan s" and c: "committed_for s" and l: "lives g A D S M"
    and T: "\<And>t. placed g S t \<Longrightarrow> in_rw_arena g t \<Longrightarrow> t \<in> T"
  shows "resolvable s {t \<in> T. in_rw_arena g t}"
proof -
  have g: "pl_graph s = g" "length (pl_allocs s) = num_tensors s" and buf: "buf_ok (underlying_buffer (rw_arena s))"
    using L by (auto simp: laid_out_def)
  have "case actual_tensor_id s t of Some r \<Rightarrow> r \<in> {t \<in> T. in_rw_arena g t}
      | None \<Rightarrow> a_size (pl_allocs s ! nat t) \<noteq> 0 \<and> (\<exists>p. ResolveAlloc (pl_allocs s ! nat t) (rw_arena s) = (Inr p, rw_arena s))"
    if t: "t \<in> T" "in_rw_arena g t" for t
  proof (cases "actual_tensor_id s t")
    case None
    then have o: "owner (actual_tensor_id s) t = t" by (simp add: owner_def)
    note x = laid_out_alloc[OF L c l T t refl refl, unfolded o]
    have "a_size (pl_allocs s ! nat t) \<noteq> 0" using x(3) t(2) by (simp add: in_rw_arena_def)
    then show ?thesis using None ResolveAlloc_run[OF _ buf x(6)] c by auto
  next
    case (Some r)
    then have o: "owner (actual_tensor_id s) t = r" by (simp add: owner_def)
    show ?thesis using laid_out_alloc(7,8)[OF L c l T t refl refl, unfolded o] Some by simp
  qed
  moreover have "within (num_tensors s) t" if "t \<in> T" for t using L that g by (auto simp: laid_out_def)
  moreover have "\<forall>t r. actual_tensor_id s t = Some r \<longrightarrow> actual_tensor_id s r = None \<and> within (num_tensors s) r"
    using laid_out_shared(2,3)[OF L l] g by blast
  moreover have "t_allocation_type (tensor_of (pl_graph s) t) = kTfLiteArenaRw" if "in_rw_arena g t" for t
    using that g by (simp add: in_rw_arena_def)
  ultimately show ?thesis unfolding resolvable_def using g(2) by blast
qed

section \<open>Executing a whole plan\<close>

lemma resizeWith_same: "length xs = n \<Longrightarrow> resizeWith n x xs = xs"
  by (simp add: resizeWith_def)

lemma ExecuteAllocations_run:
  assumes "length (alloc_node q) = num_tensors q" "length (dealloc_node q) = num_tensors q" "length (pl_allocs q) = num_tensors q"
    and "iterOp planTemporaries (nodeRange first_node last_node q) q = (Inr (), s)"
    and "outcome (CalculateAllocations hash first_node last_node) s (\<lambda>ts s1.
      outcome (CommitArenas m) s1 (\<lambda>r s2.
      outcome (iterOp ResolveTensorAllocation (if r then [0..int (num_tensors q) - 1] else ts)) s2 Q))"
  shows "outcome (ExecuteAllocations m hash first_node last_node) q Q"
proof -
  have "q\<lparr>alloc_node := alloc_node q, dealloc_node := dealloc_node q, pl_allocs := pl_allocs q\<rparr> = q" by simp
  then have "ExecuteAllocations m hash first_node last_node q =
      andThen (CalculateAllocations hash first_node last_node) (\<lambda>ts. andThen (CommitArenas m) (\<lambda>r.
        iterOp ResolveTensorAllocation (if r then [0..int (num_tensors q) - 1] else ts))) s"
    using assms(1-4) by (simp add: ExecuteAllocations_def op_simps andThen_def resizeWith_same)
  moreover have "outcome (andThen (CalculateAllocations hash first_node last_node) (\<lambda>ts. andThen (CommitArenas m) (\<lambda>r.
      iterOp ResolveTensorAllocation (if r then [0..int (num_tensors q) - 1] else ts)))) s Q"
    by (rule outcome_bind[OF outcome_mono[OF assms(5) outcome_bind]])
  ultimately show ?thesis by (simp add: outcome_def)
qed

text \<open>The state is laid out and every tensor of the arena points to its allocation or to that of the
  tensor it shares with.\<close>

definition layout_done :: "graph_info \<Rightarrow> planner \<Rightarrow> bool" where
  "layout_done g s' \<longleftrightarrow> (\<exists>A D S M T plan s ptr. s' = with_data s ptr \<and> lives g A D S M \<and> laid_out g A D M T plan s \<and> committed_for s \<and>
     (\<forall>t. placed g S t \<and> in_rw_arena g t \<longrightarrow> t \<in> T) \<and>
     (\<forall>t \<in> T. in_rw_arena g t \<longrightarrow> ptr t = address s (owner (actual_tensor_id s) t)))"

lemma resolve_layout:
  assumes L: "laid_out g A D M (set ts) plan s" and c: "committed_for s" and l: "lives g A D S M"
    and ts: "\<And>t. t \<in> set ts \<longleftrightarrow> placed g S t \<and> wanted g t"
  shows "outcome (iterOp ResolveTensorAllocation (if r then [0..int (length (g_tensors g)) - 1] else ts)) s (\<lambda>_. layout_done g)"
proof -
  let ?us = "if r then [0..int (length (g_tensors g)) - 1] else ts" and ?R = "{t \<in> set ts. in_rw_arena g t}"
  have T: "t \<in> set ts" if "placed g S t" "in_rw_arena g t" for t using ts that by (simp add: wanted_def)
  have R: "resolvable s ?R" by (rule laid_out_resolvable[OF L c l T])
  have w: "within (num_tensors s) t" if "t \<in> set ts" for t using L that by (auto simp: laid_out_def)
  have n: "num_tensors s = length (g_tensors g)" using L by (simp add: laid_out_def)
  have "\<forall>t \<in> set ?us. within (num_tensors s) t" using w n by auto
  note o = resolveAll_outcome[OF R this]
  have "set ts \<subseteq> set ?us" using w n by auto
  then show ?thesis
    by (intro outcome_mono[OF o]) (use L c l T in \<open>unfold layout_done_def, blast\<close>)
qed

lemma execute_from:
  assumes p: "plan_is K A D F S M s" and fresh: "pl_allocs s = replicate (num_tensors K) newAlloc"
      "last_active_node s = kLastActiveNodeUndefined" "active_allocs (rw_arena s) = []"
    and buf: "buf_ok (underlying_buffer (rw_arena s))" and hash: "\<And>ts. set (hash ts) = set ts" and m: "malloc_ok m"
    and n: "0 < length (execution_nodes K)" and l: "lives (pl_graph K) A D S M"
  shows "outcome (CalculateAllocations hash 0 (int (length (execution_nodes K)) - 1)) s (\<lambda>ts s1.
      outcome (CommitArenas m) s1 (\<lambda>r s2.
      outcome (iterOp ResolveTensorAllocation (if r then [0..int (num_tensors K) - 1] else ts)) s2 (\<lambda>_. layout_done (pl_graph K))))"
proof (rule outcome_mono[OF CalculateAllocations_outcome[OF p fresh buf hash n l]], elim conjE exE)
  fix ts s1 plan
  assume ts: "\<forall>t. t \<in> set ts \<longleftrightarrow> placed (pl_graph K) S t \<and> wanted (pl_graph K) t"
    and L: "laid_out (pl_graph K) A D M (set ts) plan s1"
  show "outcome (CommitArenas m) s1 (\<lambda>r s2.
      outcome (iterOp ResolveTensorAllocation (if r then [0..int (num_tensors K) - 1] else ts)) s2 (\<lambda>_. layout_done (pl_graph K)))"
    by (rule outcome_mono[OF CommitArenas_outcome[OF m L]]) (use resolve_layout[OF _ _ l] ts in blast)
qed

lemma fresh_rest:
  assumes "rest_of s = rest_of (cleared p)"
  shows "pl_allocs s = replicate (num_tensors p) newAlloc" "last_active_node s = kLastActiveNodeUndefined"
    "rw_arena s = clearedArena (rw_arena p)"
proof -
  have "pl_allocs (rest_of s) = pl_allocs (rest_of (cleared p))" "last_active_node (rest_of s) = last_active_node (rest_of (cleared p))"
    "rw_arena (rest_of s) = rw_arena (rest_of (cleared p))" using assms by simp_all
  then show "pl_allocs s = replicate (num_tensors p) newAlloc" "last_active_node s = kLastActiveNodeUndefined"
    "rw_arena s = clearedArena (rw_arena p)" by (simp_all add: rest_of_def cleared_def)
qed

lemma execute_plan:
  assumes g: "ready_graph (pl_graph p)" and m: "malloc_ok m" and buf: "buf_ok (underlying_buffer (rw_arena p))"
    and hash: "\<And>ts. set (hash ts) = set ts"
  shows "\<exists>q. PlanAllocations p = (Inr (), q) \<and>
    outcome (ExecuteAllocations m hash 0 (int (length (execution_nodes p)) - 1)) q (\<lambda>_. layout_done (pl_graph p))"
proof -
  let ?g = "pl_graph p" and ?n = "int (length (execution_nodes p)) - 1" and ?K = "rest_of (cleared p)"
  let ?S0 = "tensorsAt ?g (length (execution_nodes p))"
  obtain q A D F M where q: "PlanAllocations p = (Inr (), q)" and P: "planGood ?g A D M" and pl: "plan_is ?K A D F ?S0 M q"
    using PlanAllocations_good[OF ready_facts(1)[OF g]] by blast
  have K: "rest_of q = ?K" "pl_graph ?K = ?g" using pl by (simp_all add: plan_is_def)
  have t0: "temps_planned ?K A D ?S0 M {} q" unfolding temps_planned_def using pl by auto
  obtain s where s: "iterOp planTemporaries [0..?n] q = (Inr (), s)" "temps_planned ?K A D ?S0 M (allTemporaries ?g) s"
    using planAllTemporaries_run[of ?K A D ?S0 M q] t0 g by (auto simp: K(2))
  let ?S = "\<lambda>i. ?S0 i \<union> {t. (i, t) \<in> allTemporaries ?g}"
  obtain A2 D2 F2 where p2: "plan_is ?K A2 D2 F2 ?S M s"
    and out: "\<forall>t. t \<notin> snd ` allTemporaries ?g \<longrightarrow> A2 t = A t \<and> D2 t = D t"
    and temp: "\<forall>(i, t) \<in> allTemporaries ?g. A2 t = i \<and> (D2 t = i \<or> D2 t = D t)"
    using s(2) unfolding temps_planned_def by (elim exE conjE) (rule that)
  have l: "lives ?g A2 D2 ?S M"
  proof (rule planGood_lives[OF g P])
    show "A2 t = A t \<and> D2 t = D t" if "t \<notin> snd ` allTemporaries ?g" for t using out that by blast
    show "A2 t = int i \<and> (D2 t = int i \<or> D2 t = D t)"
      if "i < length (g_nodes ?g)" "t \<in> set (n_temporaries (g_nodes ?g ! i))" for i t
      using bspec[OF temp, of "(int i, t)"] that by simp
  qed
  have gq: "pl_graph q = ?g" using plan_is_facts(5)[OF pl] K(2) by simp
  have "length (alloc_node q) = num_tensors q" "length (dealloc_node q) = num_tensors q"
    using plan_is_facts(2,3)[OF pl] gq K(2) by (simp_all add: reads_def)
  moreover have "length (pl_allocs q) = num_tensors q" using fresh_rest(1)[OF K(1)] gq by simp
  moreover have "iterOp planTemporaries (nodeRange 0 ?n q) q = (Inr (), s)"
    using s(1) nodeRange_all[of q] ready_facts(2)[OF g] in_order_facts(1)[OF ready_facts(1)[OF g]] gq by simp
  moreover have "rest_of s = ?K" using p2 by (simp add: plan_is_def)
  note f = fresh_rest[OF this]
  ultimately have "outcome (ExecuteAllocations m hash 0 ?n) q (\<lambda>_. layout_done ?g)"
    using execute_from[OF p2, unfolded K(2), OF f(1,2) _ _ hash m] l buf ready_facts(2)[OF g] f(3) gq
    by (intro ExecuteAllocations_run) (simp_all cong: if_cong)
  then show ?thesis using q by blast
qed

definition disjoint_bytes :: "64 word \<Rightarrow> 64 word \<Rightarrow> 64 word \<Rightarrow> 64 word \<Rightarrow> bool" where
  "disjoint_bytes p m q n \<longleftrightarrow> unat p + unat m \<le> unat q \<or> unat q + unat n \<le> unat p"

lemma disjoint_plan_apart:
  assumes "disjoint_plan plan" "x \<in> set plan" "y \<in> set plan" "x \<noteq> y" "together x y"
  shows "apart x y"
  using assms
proof (induction plan)
  case (Cons z plan)
  have "together y x" "apart u v \<longleftrightarrow> apart v u" for u v using assms(5) by (auto simp: together_def apart_def)
  then show ?case using Cons by (auto simp: disjoint_plan_def)
qed (simp add: disjoint_plan_def)

text \<open>A tensor that a node uses, and where it lies.\<close>

lemma laid_out_at:
  assumes L: "laid_out g A D M T plan s" and c: "committed_for s" and l: "lives g A D S M"
    and T: "\<And>t. placed g S t \<Longrightarrow> in_rw_arena g t \<Longrightarrow> t \<in> T"
    and i: "i < length (g_nodes g)" and v: "v \<in> used_at g i" "in_rw_arena g v"
    and o: "o' = owner (actual_tensor_id s) v" and x: "x = pl_allocs s ! nat o'"
  shows "v \<in> T" "x \<in> set plan" "a_tensor x = o'" "a_size x = t_bytes (tensor_of g v)"
    "hi x \<le> unat (data_size (underlying_buffer (rw_arena s)))" "unat (address s o') = unat (aligned_pointer (underlying_buffer (rw_arena s))) + lo x"
    "a_first_node x \<le> int i" "int i \<le> a_last_node x"
proof -
  have pl: "placed g S v" using l i v unfolding lives_def by blast
  show vT: "v \<in> T" by (rule T[OF pl v(2)])
  note a = laid_out_alloc[OF L c l T vT v(2) o x]
  show "x \<in> set plan" "a_tensor x = o'" "a_size x = t_bytes (tensor_of g v)"
    "hi x \<le> unat (data_size (underlying_buffer (rw_arena s)))" using a by simp_all
  have buf: "buf_ok (underlying_buffer (rw_arena s))" using L by (simp add: laid_out_def)
  have "a_size x \<noteq> 0" using a(3) v(2) by (simp add: in_rw_arena_def)
  then show "unat (address s o') = unat (aligned_pointer (underlying_buffer (rw_arena s))) + lo x"
    using ResolveAlloc_run[OF _ buf a(6)] ResolveAlloc_pointer[of x "rw_arena s"] c unfolding x by fastforce
  have "A o' \<le> int i \<and> int i \<le> D o'"
  proof (cases "actual_tensor_id s v")
    case None
    then have o': "o' = v" by (simp add: o owner_def)
    have "A v \<le> int i" "M v = None \<longrightarrow> int i \<le> D v" "M v \<noteq> None \<longrightarrow> D v = kNodeNotAssigned" using l i v unfolding lives_def by blast+
    moreover have "int i \<le> kNodeNotAssigned" using l i by (simp add: lives_def)
    ultimately show ?thesis unfolding o' by auto
  next
    case (Some r)
    note m = laid_out_shared(1)[OF L l Some]
    have o': "o' = owner M v" using Some m by (simp add: o owner_def)
    have "M v \<noteq> None" using m by simp
    then show ?thesis using l i v a(7) unfolding o' lives_def by blast
  qed
  then show "a_first_node x \<le> int i" "int i \<le> a_last_node x" using a(4,5) by simp_all
qed

text \<open>Tensor \<open>t\<close> lies in the buffer, and tensor \<open>u\<close> is elsewhere or, if they share, at the same place.\<close>

definition separate :: "graph_info \<Rightarrow> planner \<Rightarrow> int \<Rightarrow> int \<Rightarrow> bool" where
  "separate g s t u \<longleftrightarrow>
    (let ptr = (\<lambda>t. t_data (tensor_of (pl_graph s) t)); n = (\<lambda>t. t_bytes (tensor_of g t)) in
      inside (underlying_buffer (rw_arena s)) (ptr t) (n t) \<and>
      (if owner (actual_tensor_id s) t = owner (actual_tensor_id s) u then ptr t = ptr u \<and> n t = n u
       else disjoint_bytes (ptr t) (n t) (ptr u) (n u)))"

text \<open>The tensors that a node uses do not overlap.\<close>

lemma layout_at:
  assumes d: "layout_done g s'" and i: "i < length (g_nodes g)" and t: "t \<in> used_at g i" "in_rw_arena g t"
    and u: "u \<in> used_at g i" "in_rw_arena g u"
  shows "separate g s' t u"
proof -
  obtain A D S M T plan s ptr where s': "s' = with_data s ptr" and l: "lives g A D S M" and L: "laid_out g A D M T plan s"
    and c: "committed_for s" and T: "\<And>t. placed g S t \<Longrightarrow> in_rw_arena g t \<Longrightarrow> t \<in> T"
    and ptr: "\<And>t. t \<in> T \<Longrightarrow> in_rw_arena g t \<Longrightarrow> ptr t = address s (owner (actual_tensor_id s) t)"
    using d unfolding layout_done_def by blast
  have gs: "pl_graph s = g" and dis: "disjoint_plan plan" using L by (auto simp: laid_out_def plan_inv_def)
  let ?o = "owner (actual_tensor_id s)" and ?x = "\<lambda>v. pl_allocs s ! nat (owner (actual_tensor_id s) v)"
  let ?p = "\<lambda>t. t_data (tensor_of (pl_graph s') t)"
  have p_eq: "?p v = address s (?o v)" if v: "v \<in> T" "in_rw_arena g v" for v
  proof -
    have "within (num_tensors s) v" using L v gs by (auto simp: laid_out_def)
    then show ?thesis using ptr[OF v] by (simp add: s' with_data_def nat_less_iff)
  qed
  note at = laid_out_at[OF L c l T i t refl refl] laid_out_at[OF L c l T i u refl refl]
  note pt = p_eq[OF at(1) t(2)] p_eq[OF at(9) u(2)]
  have "inside (underlying_buffer (rw_arena s)) (?p t) (t_bytes (tensor_of g t))"
    using at(4-6) pt by (simp add: inside_def hi_def lo_def)
  moreover have "disjoint_bytes (?p t) (t_bytes (tensor_of g t)) (?p u) (t_bytes (tensor_of g u))" if "?o t \<noteq> ?o u"
  proof -
    have "?x t \<noteq> ?x u" using at(3,11) that by auto
    moreover have "together (?x t) (?x u)" using at by (auto simp: together_def)
    ultimately have "apart (?x t) (?x u)" using disjoint_plan_apart[OF dis at(2,10)] by blast
    then show ?thesis using at(4,6,12,14) pt by (auto simp: disjoint_bytes_def apart_def hi_def lo_def)
  qed
  moreover have "?p t = ?p u \<and> t_bytes (tensor_of g t) = t_bytes (tensor_of g u)" if "?o t = ?o u"
    using that pt at(4,12) by simp
  moreover have "actual_tensor_id s' = actual_tensor_id s" "rw_arena s' = rw_arena s" by (simp_all add: s')
  ultimately show ?thesis by (simp add: separate_def Let_def)
qed

text \<open>C19: the two phases of the planner together. For a graph in order whose temporaries belong to
  one node, planning succeeds, and executing the plan for all nodes either fails with an error or
  gives every tensor of the arena that is not empty memory inside the buffer such that two tensors
  used by the same node have the same memory and size, if one shares with the other, and else no
  byte in common; for every order of iteration of the hash sets. The arena is the one of type
  kTfLiteArenaRw: nothing is said of the persistent arena, which is never reused.\<close>

theorem ExecuteAllocations_layout:
  assumes "ready_graph (pl_graph p)" "malloc_ok m" "buf_ok (underlying_buffer (rw_arena p))" "\<forall>ts. set (hash ts) = set ts"
  shows "\<exists>q. PlanAllocations p = (Inr (), q) \<and>
    (case ExecuteAllocations m hash 0 (int (length (execution_nodes p)) - 1) q of
       (Inl e, _) \<Rightarrow> e = Status TfLiteError
     | (Inr _, s) \<Rightarrow> \<forall>i < length (execution_nodes p). \<forall>t \<in> used_at (pl_graph p) i. \<forall>u \<in> used_at (pl_graph p) i.
         in_rw_arena (pl_graph p) t \<and> in_rw_arena (pl_graph p) u \<longrightarrow> separate (pl_graph p) s t u)"
proof -
  have hash: "set (hash ts) = set ts" for ts using assms(4) by blast
  obtain q where q: "PlanAllocations p = (Inr (), q)"
    and o: "outcome (ExecuteAllocations m hash 0 (int (length (execution_nodes p)) - 1)) q (\<lambda>_. layout_done (pl_graph p))"
    using execute_plan[where hash = hash, OF assms(1-3) hash] by blast
  show ?thesis
  proof (cases "ExecuteAllocations m hash 0 (int (length (execution_nodes p)) - 1) q")
    case (Pair r s)
    show ?thesis
    proof (cases r)
      case (Inl e)
      then show ?thesis using q o Pair by (simp add: outcome_def)
    next
      case (Inr z)
      have d: "layout_done (pl_graph p) s" using o Pair Inr by (simp add: outcome_def)
      then show ?thesis using q Pair Inr layout_at[OF d] by simp
    qed
  qed
qed

text \<open>The sample graph with a temporary tensor at its first node.\<close>

definition layout_graph :: graph_info where
  "layout_graph = sample_graph\<lparr>g_tensors := replicate 5 sample_tensor,
     g_nodes := \<lparr>n_inputs = [0], n_outputs = [1], n_temporaries = [4], inplace_operator = 0\<rparr> # tl (g_nodes sample_graph)\<rparr>"

definition layout_planner :: planner where
  "layout_planner = newPlanner layout_graph False 64"

lemma layout_planner_graph: "pl_graph layout_planner = layout_graph"
  by (simp add: layout_planner_def newPlanner_def)

lemma layout_planner_buffer: "buf_ok (underlying_buffer (rw_arena layout_planner))"
  by (simp add: layout_planner_def newPlanner_def newArena_def buf_ok_def)

lemma layout_graph_ready: "ready_graph layout_graph"
  by code_simp

lemma layout_planner_runs:
  "case PlanAllocations layout_planner of (_, q) \<Rightarrow> (case ExecuteAllocations sample_malloc id 0 2 q of (r, s) \<Rightarrow>
     r = Inr () \<and> distinct (map (owner (actual_tensor_id s)) [0, 1, 4]))"
  by code_simp

theorem ExecuteAllocations_layout_witness:
  "\<exists>q s. PlanAllocations layout_planner = (Inr (), q) \<and> ExecuteAllocations sample_malloc id 0 2 q = (Inr (), s) \<and>
    separate layout_graph s 0 1 \<and> separate layout_graph s 1 4"
proof -
  have n: "length (g_nodes layout_graph) = 3" by code_simp
  have e: "int 3 - 1 = 2" by simp
  have h: "\<forall>ts. set (id ts) = set (ts :: int list)" by simp
  note x = ExecuteAllocations_layout[of layout_planner sample_malloc id, unfolded layout_planner_graph n e,
      OF layout_graph_ready sample_malloc_ok layout_planner_buffer h]
  obtain q where q: "PlanAllocations layout_planner = (Inr (), q)"
    and c: "case ExecuteAllocations sample_malloc id 0 2 q of (Inl e, _) \<Rightarrow> e = Status TfLiteError
      | (Inr _, s) \<Rightarrow> \<forall>i < 3. \<forall>t \<in> used_at layout_graph i. \<forall>u \<in> used_at layout_graph i.
         in_rw_arena layout_graph t \<and> in_rw_arena layout_graph u \<longrightarrow> separate layout_graph s t u"
    using x by (elim exE conjE) (rule that)
  obtain s where s: "ExecuteAllocations sample_malloc id 0 2 q = (Inr (), s)"
    using layout_planner_runs q by (auto split: prod.splits)
  have u: "{0, 1, 4} \<subseteq> used_at layout_graph 0" "in_rw_arena layout_graph 0" "in_rw_arena layout_graph 1" "in_rw_arena layout_graph 4"
    by code_simp+
  have "separate layout_graph s 0 1" "separate layout_graph s 1 4"
    using c s u by (auto dest!: spec[of _ 0])
  then show ?thesis using q s by blast
qed

section \<open>Sharing across arenas\<close>

text \<open>\<open>InputTensorCanBeShared\<close> lets an output of the persistent arena share an input of the other
  arena. The output is then not allocated, does not resolve to its owner either, and is left with
  a null pointer by an execution that succeeds.\<close>

definition mixed_graph :: graph_info where
  "mixed_graph = sample_graph\<lparr>g_tensors := (g_tensors sample_graph)[2 := sample_tensor\<lparr>t_allocation_type := kTfLiteArenaRwPersistent\<rparr>]\<rparr>"

theorem persistent_output_is_null:
  "in_order mixed_graph \<and>
   (case PlanAllocations (newPlanner mixed_graph False 64) of (r, q) \<Rightarrow> r = Inr () \<and>
     (case ExecuteAllocations sample_malloc id 0 2 q of (r, s) \<Rightarrow>
       r = Inr () \<and> t_bytes (tensor_of (pl_graph s) 2) = 64 \<and> t_data (tensor_of (pl_graph s) 2) = 0))"
  by code_simp

end
