(* ===== verification/StridedSlice.thy ===== *)
theory StridedSlice
  imports TensorShapeOps "HOL-Library.Word"
begin

text \<open>
  Strided slices (\<open>util/strided_slice_op.h\<close>, \<open>util/strided_slice_op.cc\<close>): the canonical form of a
  slice such as \<open>foo[3:5, ..., newaxis, -3]\<close>, which is given as three tensors and five bit masks,
  and the shapes that it produces; and the class that broadcasts a value to a slice it is assigned
  to. Shape inference calls it with partial shapes and perhaps without begin and end, the kernels
  with the whole information.
\<close>

section \<open>Masks\<close>

type_synonym mask = "32 word"

text \<open>\<open>1 << i\<close>, and the test of a bit, \<open>(1 << i) & mask\<close>.\<close>

definition shiftBit :: "int \<Rightarrow> mask res" where
  "shiftBit i = (if 0 \<le> i \<and> i < 32 then Inr (push_bit (nat i) 1) else Inl (Fault ShiftRange))"

definition testBit :: "int \<Rightarrow> mask \<Rightarrow> bool res" where
  "testBit i m = bindR (shiftBit i) (\<lambda>b. Inr (and b m \<noteq> 0))"

section \<open>The specifications\<close>

record sparse_spec =
  sp_dims :: int
  num_add_axis_after_ellipsis :: int
  sp_begin :: "tensor option"
  sp_end :: "tensor option"
  sp_strides :: tensor
  sp_begin_mask :: mask
  sp_end_mask :: mask
  sp_ellipsis_mask :: mask
  sp_new_axis_mask :: mask
  sp_shrink_axis_mask :: mask

text \<open>\<open>ds_begin\<close>, \<open>ds_end\<close> and \<open>ds_strides\<close> are references to the vectors of the caller.\<close>

record dense_spec =
  ds_dims :: int
  ds_begin_mask :: mask
  ds_end_mask :: mask
  begin_valid :: bool
  end_valid :: bool
  ds_begin :: "int list"
  ds_end :: "int list"
  ds_strides :: "int list"
  final_shape_gather_indices :: "int list"
  final_shape_gather_indices_sparse :: "int list"
  input_shape_gather_indices_sparse :: "int list"
  ds_shrink_axis_mask :: mask

abbreviation kShrinkAxis :: int where "kShrinkAxis \<equiv> - 1"
abbreviation kNewAxis :: int where "kNewAxis \<equiv> - 2"

type_synonym 'a dsop = "(dense_spec, 'a) op"

text \<open>\<open>tensor.vec<T>()\<close> checks the type and the rank.\<close>

definition vecOf :: "data_type \<Rightarrow> tensor \<Rightarrow> int list res" where
  "vecOf T t = (if t_dtype t = T \<and> length (t_dims t) = 1 then Inr (t_vals t) else Inl (Fault CheckFailed))"

definition vecOfPtr :: "data_type \<Rightarrow> tensor option \<Rightarrow> int list option res" where
  "vecOfPtr T t = (case t of None \<Rightarrow> Inr None | Some t \<Rightarrow> bindR (vecOf T t) (\<lambda>v. Inr (Some v)))"

text \<open>Writes to the vectors.\<close>

definition setBegin :: "int \<Rightarrow> int \<Rightarrow> unit dsop" where
  "setBegin k x = andThen (gets ds_begin) (\<lambda>v. andThen (liftR (writeAt v k x)) (\<lambda>v. modify (\<lambda>d. d\<lparr>ds_begin := v\<rparr>)))"

definition setEnd :: "int \<Rightarrow> int \<Rightarrow> unit dsop" where
  "setEnd k x = andThen (gets ds_end) (\<lambda>v. andThen (liftR (writeAt v k x)) (\<lambda>v. modify (\<lambda>d. d\<lparr>ds_end := v\<rparr>)))"

definition setStride :: "int \<Rightarrow> int \<Rightarrow> unit dsop" where
  "setStride k x = andThen (gets ds_strides) (\<lambda>v. andThen (liftR (writeAt v k x)) (\<lambda>v. modify (\<lambda>d. d\<lparr>ds_strides := v\<rparr>)))"

definition setSource :: "int \<Rightarrow> int \<Rightarrow> unit dsop" where
  "setSource k i = andThen (gets input_shape_gather_indices_sparse) (\<lambda>v. andThen (liftR (writeAt v k i)) (\<lambda>v.
     modify (\<lambda>d. d\<lparr>input_shape_gather_indices_sparse := v\<rparr>)))"

definition gatherFrom :: "int \<Rightarrow> int \<Rightarrow> unit dsop" where
  "gatherFrom g i = modify (\<lambda>d. d\<lparr>final_shape_gather_indices := final_shape_gather_indices d @ [g],
     final_shape_gather_indices_sparse := final_shape_gather_indices_sparse d @ [i]\<rparr>)"

definition maskBegin :: "int \<Rightarrow> unit dsop" where
  "maskBegin k = andThen (liftR (shiftBit k)) (\<lambda>b. modify (\<lambda>d. d\<lparr>ds_begin_mask := or (ds_begin_mask d) b\<rparr>))"

definition maskEnd :: "int \<Rightarrow> unit dsop" where
  "maskEnd k = andThen (liftR (shiftBit k)) (\<lambda>b. modify (\<lambda>d. d\<lparr>ds_end_mask := or (ds_end_mask d) b\<rparr>))"

definition maskShrink :: "int \<Rightarrow> unit dsop" where
  "maskShrink k = andThen (liftR (shiftBit k)) (\<lambda>b. modify (\<lambda>d. d\<lparr>ds_shrink_axis_mask := or (ds_shrink_axis_mask d) b\<rparr>))"

section \<open>From the sparse to the dense specification\<close>

text \<open>One dimension of the ellipsis \<open>i\<close>.\<close>

definition ellipsisDim :: "int \<Rightarrow> int \<Rightarrow> unit dsop" where
  "ellipsisDim i k =
     andThen (setEnd k 0) (\<lambda>_.
     andThen (setBegin k 0) (\<lambda>_.
     andThen (setStride k 1) (\<lambda>_.
     andThen (maskBegin k) (\<lambda>_.
     andThen (maskEnd k) (\<lambda>_.
     andThen (gatherFrom k (- 1)) (\<lambda>_.
     setSource k i))))))"

definition whenSet :: "int \<Rightarrow> mask \<Rightarrow> unit dsop \<Rightarrow> unit dsop" where
  "whenSet i m act = andThen (liftR (testBit i m)) (\<lambda>b. if b then act else ret ())"

text \<open>Entry \<open>i\<close> of the sparse specification is dimension \<open>k\<close>.\<close>

definition indexDim ::
    "sparse_spec \<Rightarrow> int list option \<Rightarrow> int list option \<Rightarrow> int list \<Rightarrow> int \<Rightarrow> int \<Rightarrow> unit dsop" where
  "indexDim sparse begin_flat end_flat strides_flat i k =
     andThen (case begin_flat of None \<Rightarrow> ret () | Some v \<Rightarrow> andThen (liftR (vecAt v i)) (setBegin k)) (\<lambda>_.
     andThen (case end_flat of None \<Rightarrow> ret () | Some v \<Rightarrow> andThen (liftR (vecAt v i)) (setEnd k)) (\<lambda>_.
     andThen (andThen (liftR (vecAt strides_flat i)) (setStride k)) (\<lambda>_.
     andThen (whenSet i (sp_begin_mask sparse) (maskBegin k)) (\<lambda>_.
     andThen (whenSet i (sp_end_mask sparse) (maskEnd k)) (\<lambda>_.
     andThen (liftR (testBit i (sp_shrink_axis_mask sparse))) (\<lambda>shrink.
     andThen (if shrink then andThen (gatherFrom kShrinkAxis (- 1)) (\<lambda>_. maskShrink k) else gatherFrom k i) (\<lambda>_.
     setSource k i)))))))"

text \<open>The body of the loop, from one \<open>full_index\<close> to the next.\<close>

definition sparseStep ::
    "sparse_spec \<Rightarrow> int list option \<Rightarrow> int list option \<Rightarrow> int list \<Rightarrow> int \<Rightarrow> int \<Rightarrow> int dsop" where
  "sparseStep sparse begin_flat end_flat strides_flat i full_index =
     andThen (gets id) (\<lambda>dense.
     andThen (liftR (testBit i (sp_ellipsis_mask sparse))) (\<lambda>ellipsis.
     if ellipsis then
       let next_index = to_int32 (min (ds_dims dense - (sp_dims sparse - i) + 1 + num_add_axis_after_ellipsis sparse) (ds_dims dense)) in
       andThen (iterOp (ellipsisDim i) [full_index..next_index - 1]) (\<lambda>_. ret (max full_index next_index))
     else
       andThen (liftR (testBit i (sp_new_axis_mask sparse))) (\<lambda>new_axis.
       if new_axis then andThen (gatherFrom kNewAxis (- 1)) (\<lambda>_. ret full_index)
       else
         andThen (failUnless (full_index \<noteq> int (length (ds_begin dense))) InvalidArgument) (\<lambda>_.
         andThen (indexDim sparse begin_flat end_flat strides_flat i full_index) (\<lambda>_.
         ret (full_index + 1))))))"

definition BuildDenseSpec :: "data_type \<Rightarrow> sparse_spec \<Rightarrow> unit dsop" where
  "BuildDenseSpec T sparse =
     andThen (gets ds_dims) (\<lambda>n.
     andThen (failUnless (0 \<le> n) InvalidArgument) (\<lambda>_.
     andThen (failUnless (n < 1024) InvalidArgument) (\<lambda>_.
     andThen (modify (\<lambda>d. d\<lparr>ds_begin := resizeWith (nat n) 0 (ds_begin d), ds_end := resizeWith (nat n) 0 (ds_end d),
       ds_strides := resizeWith (nat n) 0 (ds_strides d),
       input_shape_gather_indices_sparse := resizeWith (nat n) 0 (input_shape_gather_indices_sparse d),
       ds_begin_mask := 0, ds_end_mask := 0, ds_shrink_axis_mask := 0\<rparr>)) (\<lambda>_.
     andThen (liftR (vecOf T (sp_strides sparse))) (\<lambda>strides_flat.
     andThen (modify (\<lambda>d. d\<lparr>begin_valid := sp_begin sparse \<noteq> None, end_valid := sp_end sparse \<noteq> None\<rparr>)) (\<lambda>_.
     andThen (liftR (vecOfPtr T (sp_begin sparse))) (\<lambda>begin_flat.
     andThen (liftR (vecOfPtr T (sp_end sparse))) (\<lambda>end_flat.
     andThen (foldOp (sparseStep sparse begin_flat end_flat strides_flat) [0..sp_dims sparse - 1] 0) (\<lambda>_.
     ret ())))))))))"

section \<open>The outputs\<close>

record slice_shape_spec =
  begin_dense_mask :: mask
  end_dense_mask :: mask
  shrink_axis_dense_mask :: mask
  output_to_sparse_mapping :: "int list"
  output_to_processing_mapping :: "int list"
  processing_to_sparse_mapping :: "int list"

text \<open>What the pointers of \<open>ValidateStridedSliceOp\<close> point to; \<open>shape_spec\<close> may be null.\<close>

record slice_out =
  so_processing_shape :: tensor_shape
  so_final_shape :: tensor_shape
  so_is_identity :: bool
  so_is_simple_slice :: bool
  so_slice_dim0 :: bool
  so_begin :: "int list"
  so_end :: "int list"
  so_strides :: "int list"
  so_shape_spec :: "slice_shape_spec option"

type_synonym 'a soop = "(slice_out, 'a) op"

definition onProcessing :: "unit tsop \<Rightarrow> unit soop" where
  "onProcessing m = (\<lambda>s. case m (so_processing_shape s) of (r, t) \<Rightarrow> (r, s\<lparr>so_processing_shape := t\<rparr>))"

definition onFinal :: "unit tsop \<Rightarrow> unit soop" where
  "onFinal m = (\<lambda>s. case m (so_final_shape s) of (r, t) \<Rightarrow> (r, s\<lparr>so_final_shape := t\<rparr>))"

text \<open>\<open>dense_spec\<close> refers to the vectors of the outputs.\<close>

definition onDense :: "unit dsop \<Rightarrow> dense_spec \<Rightarrow> dense_spec soop" where
  "onDense m dense = (\<lambda>s.
     case m (dense\<lparr>ds_begin := so_begin s, ds_end := so_end s, ds_strides := so_strides s\<rparr>) of (r, d) \<Rightarrow>
       (case r of Inl e \<Rightarrow> Inl e | Inr _ \<Rightarrow> Inr d,
        s\<lparr>so_begin := ds_begin d, so_end := ds_end d, so_strides := ds_strides d\<rparr>))"

definition newDenseSpec :: "int \<Rightarrow> dense_spec" where
  "newDenseSpec n = \<lparr>ds_dims = n, ds_begin_mask = 0, ds_end_mask = 0, begin_valid = False, end_valid = False,
     ds_begin = [], ds_end = [], ds_strides = [], final_shape_gather_indices = [],
     final_shape_gather_indices_sparse = [], input_shape_gather_indices_sparse = [], ds_shrink_axis_mask = 0\<rparr>"

section \<open>Validating the specification\<close>

definition IsVectorTensor :: "tensor \<Rightarrow> bool" where
  "IsVectorTensor t \<longleftrightarrow> length (t_dims t) = 1"

definition NumElementsTensor :: "tensor \<Rightarrow> int" where
  "NumElementsTensor t = prod_list (t_dims t)"

definition begin_is_wrong :: "tensor option \<Rightarrow> tensor \<Rightarrow> bool" where
  "begin_is_wrong begin_tensor strides_tensor = (case begin_tensor of None \<Rightarrow> False
     | Some t \<Rightarrow> \<not> (IsVectorTensor t \<and> NumElementsTensor t = NumElementsTensor strides_tensor \<and> NumElementsTensor t < 32))"

definition end_is_wrong :: "tensor option \<Rightarrow> tensor \<Rightarrow> bool" where
  "end_is_wrong end_tensor strides_tensor = (case end_tensor of None \<Rightarrow> False
     | Some t \<Rightarrow> \<not> (IsVectorTensor t \<and> NumElementsTensor t = NumElementsTensor strides_tensor))"

text \<open>\<open>ellipsis_mask - 1\<close> is signed arithmetic.\<close>

definition multipleEllipses :: "mask \<Rightarrow> bool res" where
  "multipleEllipses m = (if m = 0 then Inr False else bindR (signed32 (sint m - 1)) (\<lambda>x. Inr (and m (word_of_int x) \<noteq> 0)))"

text \<open>The first loop: whether the ellipsis has been seen, and the new axes after it.\<close>

fun countNewAxes :: "mask \<Rightarrow> mask \<Rightarrow> int list \<Rightarrow> bool \<Rightarrow> int \<Rightarrow> (bool \<times> int) res" where
  "countNewAxes ellipsis_mask new_axis_mask [] seen n = Inr (seen, n)"
| "countNewAxes ellipsis_mask new_axis_mask (i # is) seen n =
     bindR (if seen then testBit i new_axis_mask else Inr False) (\<lambda>new_axis.
     bindR (testBit i ellipsis_mask) (\<lambda>ellipsis.
     countNewAxes ellipsis_mask new_axis_mask is (seen \<or> ellipsis) (if new_axis then n + 1 else n)))"

definition sparseSpec ::
    "tensor option \<Rightarrow> tensor option \<Rightarrow> tensor \<Rightarrow> mask \<Rightarrow> mask \<Rightarrow> mask \<Rightarrow> mask \<Rightarrow> mask \<Rightarrow> sparse_spec res" where
  "sparseSpec begin_tensor end_tensor strides_tensor begin_mask end_mask ellipsis_mask new_axis_mask shrink_axis_mask =
     (let n = NumElementsTensor strides_tensor;
          spec = (\<lambda>dims axes m. \<lparr>sp_dims = dims, num_add_axis_after_ellipsis = axes, sp_begin = begin_tensor, sp_end = end_tensor,
            sp_strides = strides_tensor, sp_begin_mask = begin_mask, sp_end_mask = end_mask, sp_ellipsis_mask = m,
            sp_new_axis_mask = new_axis_mask, sp_shrink_axis_mask = shrink_axis_mask\<rparr>)
      in bindR (countNewAxes ellipsis_mask new_axis_mask [0..n - 1] False 0) (\<lambda>(ellipsis_seen, axes).
         if ellipsis_seen then Inr (spec n axes ellipsis_mask)
         else bindR (shiftBit n) (\<lambda>b. Inr (spec (n + 1) axes (or ellipsis_mask b)))))"

text \<open>The canonical form of a bound: \<open>c\<close> is 0 for begin and 1 for end.\<close>

definition canonical :: "int \<Rightarrow> int \<Rightarrow> bool \<Rightarrow> int \<Rightarrow> nat \<Rightarrow> int" where
  "canonical stride_i dim_i masked x c =
    (let valid_range = [if stride_i > 0 then 0 else - 1, if stride_i > 0 then dim_i else dim_i - 1] in
      if masked then (if stride_i > 0 then valid_range ! c else valid_range ! ((c + 1) mod 2))
      else
        let x_fwd = (if x < 0 then dim_i + x else x) in
        if x_fwd < valid_range ! 0 then valid_range ! 0
        else if x_fwd > valid_range ! 1 then valid_range ! 1 else x_fwd)"

definition putBegin :: "int \<Rightarrow> int \<Rightarrow> unit soop" where
  "putBegin i x = andThen (gets so_begin) (\<lambda>v. andThen (liftR (writeAt v i x)) (\<lambda>v. modify (\<lambda>s. s\<lparr>so_begin := v\<rparr>)))"

definition putEnd :: "int \<Rightarrow> int \<Rightarrow> unit soop" where
  "putEnd i x = andThen (gets so_end) (\<lambda>v. andThen (liftR (writeAt v i x)) (\<lambda>v. modify (\<lambda>s. s\<lparr>so_end := v\<rparr>)))"

text \<open>Begin and end of dimension \<open>i\<close> are known: they are replaced by their canonical form.\<close>

definition canonicalBounds :: "int \<Rightarrow> bool \<Rightarrow> int \<Rightarrow> int \<Rightarrow> bool \<Rightarrow> bool \<Rightarrow> int \<Rightarrow> int \<Rightarrow> unit soop" where
  "canonicalBounds i shrink_i stride_i dim_i begin_masked end_masked begin_i end_i =
    (if shrink_i then
       let x_fwd = (if begin_i < 0 then dim_i + begin_i else begin_i) in
       andThen (putBegin i x_fwd) (\<lambda>_.
       andThen (liftR (signed64 (x_fwd + 1))) (\<lambda>e.
       andThen (putEnd i e) (\<lambda>_.
       failUnless (\<not> (x_fwd < 0 \<or> x_fwd \<ge> dim_i)) InvalidArgument)))
     else
       andThen (putBegin i (canonical stride_i dim_i begin_masked begin_i 0)) (\<lambda>_.
       putEnd i (canonical stride_i dim_i end_masked end_i 1)))"

text \<open>The size of a dimension from the length of its interval.\<close>

definition sliceSize :: "int \<Rightarrow> int \<Rightarrow> int" where
  "sliceSize interval_length stride_i =
    (if interval_length = 0 \<or> (interval_length < 0) \<noteq> (stride_i < 0) then 0
     else cdiv interval_length stride_i + (if cmod interval_length stride_i \<noteq> 0 then 1 else 0))"

definition andIdentity :: "bool \<Rightarrow> unit soop" where
  "andIdentity b = modify (\<lambda>s. s\<lparr>so_is_identity := so_is_identity s \<and> b\<rparr>)"

definition andDim0 :: "bool \<Rightarrow> unit soop" where
  "andDim0 b = modify (\<lambda>s. s\<lparr>so_slice_dim0 := so_slice_dim0 s \<and> b\<rparr>)"

text \<open>The interval is known from begin and end, from a single index, or from both masks.\<close>

definition intervalLength :: "dense_spec \<Rightarrow> int \<Rightarrow> bool \<Rightarrow> bool \<Rightarrow> int \<Rightarrow> int \<Rightarrow> (int option) soop" where
  "intervalLength dense i shrink_i both_masked stride_i dim_i =
    (if begin_valid dense \<and> end_valid dense then
       andThen (gets (\<lambda>s. (so_begin s, so_end s))) (\<lambda>(b, e).
       andThen (liftR (vecAt e i)) (\<lambda>end_i. andThen (liftR (vecAt b i)) (\<lambda>begin_i.
       andThen (liftR (signed64 (end_i - begin_i))) (\<lambda>n. ret (Some n)))))
     else if shrink_i then ret (Some 1)
     else if both_masked then ret (if 0 \<le> dim_i then Some (if stride_i < 0 then - dim_i else dim_i) else None)
     else ret None)"

text \<open>The body of the loop over the dimensions of the input.\<close>

definition sliceDim :: "dense_spec \<Rightarrow> tensor_shape \<Rightarrow> int \<Rightarrow> unit soop" where
  "sliceDim dense input_shape i =
     andThen (gets id) (\<lambda>s.
     andThen (liftR (vecAt (so_begin s) i)) (\<lambda>begin_i.
     andThen (liftR (vecAt (so_end s) i)) (\<lambda>end_i.
     andThen (liftR (vecAt (so_strides s) i)) (\<lambda>stride_i.
     andThen (liftR (dim_size True input_shape i)) (\<lambda>dim_i.
     andThen (failUnless (stride_i \<noteq> 0) InvalidArgument) (\<lambda>_.
     andThen (liftR (testBit i (ds_shrink_axis_mask dense))) (\<lambda>shrink_i.
     if dim_i = - 1 then onProcessing (AddDim True (if shrink_i then 1 else - 1))
     else
       andThen (liftR (testBit i (ds_begin_mask dense))) (\<lambda>begin_masked.
       andThen (liftR (testBit i (ds_end_mask dense))) (\<lambda>end_masked.
       andThen (failUnless (\<not> (shrink_i \<and> stride_i \<le> 0)) InvalidArgument) (\<lambda>_.
       andThen (modify (\<lambda>s. s\<lparr>so_is_simple_slice := so_is_simple_slice s \<and> stride_i = 1\<rparr>)) (\<lambda>_.
       let both_masked = (begin_masked \<and> end_masked) in
       andThen
         (if begin_valid dense \<and> end_valid dense then
            andThen (canonicalBounds i shrink_i stride_i dim_i begin_masked end_masked begin_i end_i) (\<lambda>_.
            andThen (gets (\<lambda>s. (so_begin s, so_end s))) (\<lambda>(b, e).
            andThen (liftR (vecAt b i)) (\<lambda>begin_i. andThen (liftR (vecAt e i)) (\<lambda>end_i.
            let take_all_in_dimension = (stride_i = 1 \<and> begin_i = 0 \<and> end_i = dim_i) in
            andThen (andIdentity take_all_in_dimension) (\<lambda>_.
            andDim0 ((i = 0 \<and> stride_i = 1) \<or> take_all_in_dimension))))))
          else
            andThen (andIdentity (stride_i = 1 \<and> both_masked)) (\<lambda>_.
            andDim0 ((i = 0 \<and> stride_i = 1) \<or> both_masked))) (\<lambda>_.
       andThen (intervalLength dense i shrink_i both_masked stride_i dim_i) (\<lambda>interval_length.
       onProcessing (AddDim True (case interval_length of None \<Rightarrow> - 1 | Some n \<Rightarrow> sliceSize n stride_i)))))))))))))))"

section \<open>The shapes\<close>

definition resetSpec :: "dense_spec \<Rightarrow> slice_shape_spec \<Rightarrow> slice_shape_spec" where
  "resetSpec dense spec = spec\<lparr>output_to_sparse_mapping := [], output_to_processing_mapping := [],
     processing_to_sparse_mapping := input_shape_gather_indices_sparse dense, begin_dense_mask := ds_begin_mask dense,
     end_dense_mask := ds_end_mask dense, shrink_axis_dense_mask := ds_shrink_axis_mask dense\<rparr>"

definition mapOutput :: "int \<Rightarrow> int \<Rightarrow> unit soop" where
  "mapOutput sparse_index gather_index = modify (\<lambda>s. s\<lparr>so_shape_spec := map_option (\<lambda>spec.
     spec\<lparr>output_to_sparse_mapping := output_to_sparse_mapping spec @ [sparse_index],
       output_to_processing_mapping := output_to_processing_mapping spec @ [gather_index]\<rparr>) (so_shape_spec s)\<rparr>)"

definition gatherDim :: "int \<times> int \<Rightarrow> unit soop" where
  "gatherDim = (\<lambda>(gather_index, sparse_index).
     if gather_index \<ge> 0 then
       andThen (gets so_processing_shape) (\<lambda>t.
       andThen (liftR (dim_size True t gather_index)) (\<lambda>d.
       andThen (onFinal (AddDim True d)) (\<lambda>_. mapOutput sparse_index gather_index)))
     else if gather_index = kNewAxis then andThen (onFinal (AddDim True 1)) (\<lambda>_. mapOutput (- 1) (- 1))
     else ret ())"

definition ValidateStridedSliceOp ::
    "tensor option \<Rightarrow> tensor option \<Rightarrow> tensor \<Rightarrow> tensor_shape \<Rightarrow> mask \<Rightarrow> mask \<Rightarrow> mask \<Rightarrow> mask \<Rightarrow> mask \<Rightarrow> unit soop" where
  "ValidateStridedSliceOp begin_tensor end_tensor strides_tensor input_shape begin_mask_spec end_mask_spec ellipsis_mask
     new_axis_mask shrink_axis_mask =
     andThen (failUnless (\<not> unknown_rank_of True input_shape) InvalidArgument) (\<lambda>_.
     andThen (failUnless (\<not> (begin_is_wrong begin_tensor strides_tensor \<or> end_is_wrong end_tensor strides_tensor \<or>
       \<not> IsVectorTensor strides_tensor)) InvalidArgument) (\<lambda>_.
     andThen (liftR (multipleEllipses ellipsis_mask)) (\<lambda>multiple.
     andThen (failUnless (\<not> multiple) InvalidArgument) (\<lambda>_.
     andThen (liftR (sparseSpec begin_tensor end_tensor strides_tensor begin_mask_spec end_mask_spec ellipsis_mask
       new_axis_mask shrink_axis_mask)) (\<lambda>sparse.
     let dense = newDenseSpec (ndims True input_shape) in
     andThen (if t_dtype strides_tensor = DT_INT32 then onDense (BuildDenseSpec DT_INT32 sparse) dense
        else if t_dtype strides_tensor = DT_INT64 then onDense (BuildDenseSpec DT_INT64 sparse) dense
        else if t_dtype strides_tensor = DT_INT16 then onDense (BuildDenseSpec DT_INT16 sparse) dense
        else faultWith CheckFailed) (\<lambda>dense.
     andThen (modify (\<lambda>s. s\<lparr>so_is_identity := True, so_slice_dim0 := True, so_is_simple_slice := True\<rparr>)) (\<lambda>_.
     andThen (onProcessing Clear) (\<lambda>_.
     andThen (iterOp (sliceDim dense input_shape) [0..ndims True input_shape - 1]) (\<lambda>_.
     andThen (onFinal Clear) (\<lambda>_.
     andThen (modify (\<lambda>s. s\<lparr>so_shape_spec := map_option (resetSpec dense) (so_shape_spec s)\<rparr>)) (\<lambda>_.
     iterOp gatherDim (zip (final_shape_gather_indices dense) (final_shape_gather_indices_sparse dense)))))))))))))"

text \<open>The overload for shapes of known sizes, which runs the other one on partial shapes of its own.\<close>

definition ValidateStridedSliceOpFull ::
    "tensor option \<Rightarrow> tensor option \<Rightarrow> tensor \<Rightarrow> tensor_shape \<Rightarrow> mask \<Rightarrow> mask \<Rightarrow> mask \<Rightarrow> mask \<Rightarrow> mask \<Rightarrow> unit soop" where
  "ValidateStridedSliceOpFull begin_tensor end_tensor strides_tensor input_shape begin_mask_spec end_mask_spec ellipsis_mask
     new_axis_mask shrink_axis_mask = (\<lambda>s.
     let full = (so_processing_shape s, so_final_shape s) in
     case ValidateStridedSliceOp begin_tensor end_tensor strides_tensor input_shape begin_mask_spec end_mask_spec ellipsis_mask
       new_axis_mask shrink_axis_mask (s\<lparr>so_processing_shape := defaultShape True, so_final_shape := defaultShape True\<rparr>) of
       (Inl e, s') \<Rightarrow> (Inl e, s'\<lparr>so_processing_shape := fst full, so_final_shape := snd full\<rparr>)
     | (Inr _, s') \<Rightarrow>
         (case AsTensorShape (so_processing_shape s') of
            None \<Rightarrow> (Inl (Status Internal), s'\<lparr>so_processing_shape := fst full, so_final_shape := snd full\<rparr>)
          | Some p \<Rightarrow>
              (case AsTensorShape (so_final_shape s') of
                 None \<Rightarrow> (Inl (Status Internal), s'\<lparr>so_processing_shape := p, so_final_shape := snd full\<rparr>)
               | Some f \<Rightarrow> (Inr (), s'\<lparr>so_processing_shape := p, so_final_shape := f\<rparr>))))"

section \<open>Assigning to a slice\<close>

record slice_bcast =
  sb_valid :: bool
  sb_broadcasting_required :: bool
  sb_reshape :: "int list"
  sb_bcast :: "int list"
  sb_result_shape :: "int list"

text \<open>The loop over the dimensions of the output; it stops at the first that does not broadcast.\<close>

fun bcastDims :: "nat \<Rightarrow> int list \<Rightarrow> slice_bcast \<Rightarrow> slice_bcast" where
  "bcastDims i [] b = b"
| "bcastDims i (d # ds) b =
    (if sb_reshape b ! i = d then bcastDims (Suc i) ds (b\<lparr>sb_bcast := (sb_bcast b)[i := 1]\<rparr>)
     else if sb_reshape b ! i = 1 then
       bcastDims (Suc i) ds (b\<lparr>sb_bcast := (sb_bcast b)[i := d], sb_broadcasting_required := True\<rparr>)
     else b\<lparr>sb_valid := False\<rparr>)"

definition StridedSliceAssignBCast :: "int list \<Rightarrow> int list \<Rightarrow> slice_bcast" where
  "StridedSliceAssignBCast input_shape output_shape =
    (let n = length output_shape;
         b = \<lparr>sb_valid = True, sb_broadcasting_required = False, sb_reshape = replicate n 0, sb_bcast = replicate n 0,
           sb_result_shape = output_shape\<rparr>;
         input_start = length input_shape - n; prepend_size = n - length input_shape
     in if n < length input_shape \<and> list_ex (\<lambda>d. d \<noteq> 1) (take input_start input_shape) then b\<lparr>sb_valid := False\<rparr>
        else bcastDims 0 output_shape (b\<lparr>sb_reshape := replicate prepend_size 1 @ drop input_start input_shape\<rparr>))"

text \<open>The loop that moves every dimension to its place.\<close>

fun remapDims :: "int list \<Rightarrow> slice_bcast \<Rightarrow> nat \<Rightarrow> slice_bcast \<Rightarrow> slice_bcast res" where
  "remapDims [] old i b = Inr b"
| "remapDims (dim # dims) old i b =
    (if dim \<ge> 0 then
       bindR (vecAt (sb_reshape old) (int i)) (\<lambda>r. bindR (vecAt (sb_bcast old) (int i)) (\<lambda>c.
       bindR (vecAt (sb_result_shape old) (int i)) (\<lambda>d.
       remapDims dims old (Suc i) (b\<lparr>sb_reshape := (sb_reshape b)[nat dim := r], sb_bcast := (sb_bcast b)[nat dim := c],
         sb_result_shape := (sb_result_shape b)[nat dim := d]\<rparr>))))
     else remapDims dims old (Suc i) b)"

definition RemapDimensions :: "int \<Rightarrow> int list \<Rightarrow> (slice_bcast, bool) op" where
  "RemapDimensions num_dims dimension_map =
     andThen (gets id) (\<lambda>b.
     if length dimension_map \<noteq> length (sb_result_shape b) then ret False
     else if list_ex (\<lambda>dim. dim \<ge> num_dims) dimension_map then ret False
     else if num_dims < 0 then faultWith LengthError
     else
       let ones = replicate (nat num_dims) 1 in
       andThen (liftR (remapDims dimension_map b 0 (b\<lparr>sb_reshape := ones, sb_bcast := ones, sb_result_shape := ones\<rparr>))) (\<lambda>b'.
       andThen (modify (\<lambda>_. b')) (\<lambda>_. ret True)))"

end
