(* ===== verification/SliceDense.thy ===== *)
theory SliceDense
  imports StridedSlice TensorShapeCompare
begin

text \<open>
  The dense specification of a slice is the expansion that numpy describes: the ellipsis stands
  for as many whole dimensions as the indices leave over, a new axis stands for none, and every
  other entry for one dimension.
\<close>

section \<open>Masks\<close>

lemma shiftBit_eq: "0 \<le> i \<Longrightarrow> i < 32 \<Longrightarrow> shiftBit i = Inr (push_bit (nat i) 1)"
  by (simp add: shiftBit_def)

lemma testBit_eq: "0 \<le> i \<Longrightarrow> i < 32 \<Longrightarrow> testBit i m = Inr (bit m (nat i))"
  by (simp add: testBit_def shiftBit_eq bit_iff_and_push_bit_not_eq_0 and.commute)

lemma testBit_Inr: "testBit i m = Inr b \<longleftrightarrow> 0 \<le> i \<and> i < 32 \<and> b = bit m (nat i)"
  by (cases "0 \<le> i \<and> i < 32") (auto simp: testBit_eq, auto simp: testBit_def shiftBit_def)

lemma bit_or_shift: "k < 32 \<Longrightarrow> bit (or m (push_bit k 1) :: mask) j \<longleftrightarrow> bit m j \<or> j = k"
  by (auto simp: bit_or_iff bit_exp_iff)

lemma mask_bit_bound: "bit (m :: mask) i \<Longrightarrow> i < 32"
  using bit_imp_le_length[of m i] by simp

lemma pred_keeps_bit:
  assumes i: "bit (a :: int) i" and j: "bit a j" and l: "i < j"
  shows "bit (a - 1) j"
proof -
  have "a mod 2 ^ j \<noteq> 0"
  proof
    assume "a mod 2 ^ j = 0"
    then obtain c where "a = 2 ^ j * c" by (auto simp: mod_eq_0_iff_dvd)
    moreover have "(2 :: int) ^ j = 2 ^ i * (2 * 2 ^ (j - Suc i))"
      using l power_add[of "2 :: int" i "Suc (j - Suc i)"] by simp
    ultimately have "a div 2 ^ i = 2 * (2 ^ (j - Suc i) * c)" by (simp add: mult.assoc)
    then show False using i by (simp add: bit_iff_odd)
  qed
  moreover have "0 \<le> a mod 2 ^ j" "a mod 2 ^ j < 2 ^ j" by simp_all
  ultimately have r: "0 \<le> a mod 2 ^ j - 1" "a mod 2 ^ j - 1 < 2 ^ j" by linarith+
  have "a - 1 = 2 ^ j * (a div 2 ^ j) + (a mod 2 ^ j - 1)" using mult_div_mod_eq[of "2 ^ j" a] by linarith
  then have "(a - 1) div 2 ^ j = a div 2 ^ j" using r by (rule int_div_pos_eq)
  then show ?thesis using j by (simp add: bit_iff_odd)
qed

lemma minus_one_keeps_bit:
  assumes i: "bit (m :: mask) i" and j: "bit m j" and l: "i < j"
  shows "bit (m - 1) j"
proof -
  have "bit (uint m) i" "bit (uint m) j" using i j by (simp_all add: bit_uint_iff mask_bit_bound)
  then have "bit (uint m - 1) j" using l by (rule pred_keeps_bit)
  then have "bit (word_of_int (uint m - 1) :: mask) j" using mask_bit_bound[OF j]
    by (intro bit_word_of_int_iff[THEN iffD2]) simp
  moreover have "word_of_int (uint m - 1) = m - 1" by (simp add: wi_hom_sub[symmetric])
  ultimately show ?thesis by (simp only:)
qed

lemma one_bit:
  assumes "and m (m - 1) = (0 :: mask)" "bit m i" "bit m j"
  shows "i = j"
proof (rule ccontr)
  assume "i \<noteq> j"
  then obtain a b where "a < b" "bit m a" "bit m b" using assms(2,3) by (metis linorder_neqE_nat)
  then have "bit (and m (m - 1)) b" using minus_one_keeps_bit by (simp add: bit_and_iff)
  then show False using assms(1) by simp
qed

lemma multipleEllipses_Inr:
  assumes "multipleEllipses m = Inr b"
  shows "b \<longleftrightarrow> and m (m - 1) \<noteq> 0"
proof (cases "m = 0")
  case False
  have "word_of_int (sint m - 1) = m - 1" by (simp add: wi_hom_sub[symmetric])
  then show ?thesis using assms False by (auto simp: multipleEllipses_def bindR_eq_Inr signed32_def split: if_splits)
qed (use assms in \<open>auto simp: multipleEllipses_def\<close>)

lemma multipleEllipses_none:
  assumes "\<And>i j. bit m i \<Longrightarrow> bit m j \<Longrightarrow> i = j" and "\<not> bit m 31"
  shows "multipleEllipses m = Inr False"
proof (cases "m = 0")
  case False
  then obtain k where k: "bit m k" by (auto simp: bit_eq_iff)
  then have m: "m = push_bit k 1" using assms(1) mask_bit_bound[OF k] by (auto intro!: bit_eqI simp: bit_exp_iff)
  have "and m (m - 1) = 0"
    unfolding m by (auto intro!: bit_eqI simp: bit_and_iff bit_exp_iff bit_mask_iff simp flip: mask_eq_exp_minus_1)
  moreover have "word_of_int (sint m - 1) = m - 1" by (simp add: wi_hom_sub[symmetric])
  moreover have "in_int32 (sint m - 1)"
  proof -
    have "0 \<le> sint m" using assms(2) by (simp add: not_less[symmetric] bit_last_iff[of m, simplified])
    moreover have "sint m < 2 ^ 31" using sint_lt[of m] by simp
    ultimately show ?thesis by (simp add: in_int32_def)
  qed
  ultimately show ?thesis using False by (simp add: multipleEllipses_def signed32_def)
qed (simp add: multipleEllipses_def)

section \<open>Entries\<close>

datatype entry =
    Whole int    \<comment> \<open>a dimension of the ellipsis, which is entry \<open>i\<close> of the specification\<close>
  | NewAxis
  | Single int   \<comment> \<open>entry \<open>i\<close> is an index: the dimension is dropped from the result\<close>
  | Slice int    \<comment> \<open>entry \<open>i\<close> is a range\<close>

definition isEllipsis :: "sparse_spec \<Rightarrow> int \<Rightarrow> bool" where
  "isEllipsis sp i \<longleftrightarrow> bit (sp_ellipsis_mask sp) (nat i)"

definition isNewAxis :: "sparse_spec \<Rightarrow> int \<Rightarrow> bool" where
  "isNewAxis sp i \<longleftrightarrow> \<not> isEllipsis sp i \<and> bit (sp_new_axis_mask sp) (nat i)"

definition isIndex :: "sparse_spec \<Rightarrow> int \<Rightarrow> bool" where
  "isIndex sp i \<longleftrightarrow> \<not> isEllipsis sp i \<and> \<not> isNewAxis sp i"

definition indices :: "sparse_spec \<Rightarrow> int list \<Rightarrow> nat" where
  "indices sp is = length (filter (isIndex sp) is)"

text \<open>With an ellipsis of \<open>w\<close> dimensions.\<close>

definition entryOf :: "nat \<Rightarrow> sparse_spec \<Rightarrow> int \<Rightarrow> entry list" where
  "entryOf w sp i =
    (if isEllipsis sp i then replicate w (Whole i) else if isNewAxis sp i then [NewAxis]
     else if bit (sp_shrink_axis_mask sp) (nat i) then [Single i] else [Slice i])"

definition entries :: "nat \<Rightarrow> sparse_spec \<Rightarrow> int list \<Rightarrow> entry list" where
  "entries w sp is = concat (map (entryOf w sp) is)"

definition axes :: "entry list \<Rightarrow> entry list" where
  "axes es = filter (\<lambda>e. e \<noteq> NewAxis) es"

text \<open>What the specification says of one dimension.\<close>

definition axis_value :: "int list option \<Rightarrow> entry \<Rightarrow> int option" where
  "axis_value v e = (case e of Whole _ \<Rightarrow> Some 0 | NewAxis \<Rightarrow> None
     | Single i \<Rightarrow> map_option (\<lambda>v. v ! nat i) v | Slice i \<Rightarrow> map_option (\<lambda>v. v ! nat i) v)"

definition axis_stride :: "int list \<Rightarrow> entry \<Rightarrow> int" where
  "axis_stride v e = (case e of Single i \<Rightarrow> v ! nat i | Slice i \<Rightarrow> v ! nat i | _ \<Rightarrow> 1)"

definition axis_masked :: "mask \<Rightarrow> entry \<Rightarrow> bool" where
  "axis_masked m e = (case e of Whole _ \<Rightarrow> True | NewAxis \<Rightarrow> False | Single i \<Rightarrow> bit m (nat i) | Slice i \<Rightarrow> bit m (nat i))"

definition axis_shrunk :: "entry \<Rightarrow> bool" where
  "axis_shrunk e = (case e of Single _ \<Rightarrow> True | _ \<Rightarrow> False)"

definition axis_source :: "entry \<Rightarrow> int" where
  "axis_source e = (case e of Whole i \<Rightarrow> i | NewAxis \<Rightarrow> - 1 | Single i \<Rightarrow> i | Slice i \<Rightarrow> i)"

definition output_source :: "entry \<Rightarrow> int" where
  "output_source e = (case e of Slice i \<Rightarrow> i | _ \<Rightarrow> - 1)"

text \<open>Where the sizes of the result come from, when the next dimension is \<open>k\<close>.\<close>

fun gathers :: "int \<Rightarrow> entry list \<Rightarrow> int list" where
  "gathers k [] = []"
| "gathers k (Whole _ # es) = k # gathers (k + 1) es"
| "gathers k (NewAxis # es) = kNewAxis # gathers k es"
| "gathers k (Single _ # es) = kShrinkAxis # gathers (k + 1) es"
| "gathers k (Slice _ # es) = k # gathers (k + 1) es"

lemma gathers_snoc:
  "gathers k (es @ [e]) = gathers k es @ [case e of NewAxis \<Rightarrow> kNewAxis | Single _ \<Rightarrow> kShrinkAxis | _ \<Rightarrow> k + int (length (axes es))]"
  by (induction k es rule: gathers.induct) (auto simp: axes_def split: entry.splits)

lemma axes_snoc [simp]: "axes (es @ es') = axes es @ axes es'" "axes [] = []" "axes (e # es) = (if e = NewAxis then axes es else e # axes es)"
  by (auto simp: axes_def)

section \<open>The dense specification of a list of entries\<close>

definition axis_at ::
    "sparse_spec \<Rightarrow> int list option \<Rightarrow> int list option \<Rightarrow> int list \<Rightarrow> dense_spec \<Rightarrow> nat \<Rightarrow> entry \<Rightarrow> bool" where
  "axis_at sp bf ef sf d k e \<longleftrightarrow>
     (\<forall>x. axis_value bf e = Some x \<longrightarrow> ds_begin d ! k = x) \<and> (\<forall>x. axis_value ef e = Some x \<longrightarrow> ds_end d ! k = x) \<and>
     ds_strides d ! k = axis_stride sf e \<and> input_shape_gather_indices_sparse d ! k = axis_source e"

definition masks_of :: "sparse_spec \<Rightarrow> dense_spec \<Rightarrow> entry list \<Rightarrow> bool" where
  "masks_of sp d as \<longleftrightarrow>
     (\<forall>k. bit (ds_begin_mask d) k \<longleftrightarrow> k < length as \<and> axis_masked (sp_begin_mask sp) (as ! k)) \<and>
     (\<forall>k. bit (ds_end_mask d) k \<longleftrightarrow> k < length as \<and> axis_masked (sp_end_mask sp) (as ! k)) \<and>
     (\<forall>k. bit (ds_shrink_axis_mask d) k \<longleftrightarrow> k < length as \<and> axis_shrunk (as ! k))"

definition dense_of ::
    "sparse_spec \<Rightarrow> int list option \<Rightarrow> int list option \<Rightarrow> int list \<Rightarrow> nat \<Rightarrow> entry list \<Rightarrow> dense_spec \<Rightarrow> bool" where
  "dense_of sp bf ef sf rank es d \<longleftrightarrow>
     ds_dims d = int rank \<and> begin_valid d = (bf \<noteq> None) \<and> end_valid d = (ef \<noteq> None) \<and> length (ds_begin d) = rank \<and> length (ds_end d) = rank \<and> length (ds_strides d) = rank \<and>
     length (input_shape_gather_indices_sparse d) = rank \<and> length (axes es) \<le> rank \<and>
     (\<forall>k<length (axes es). axis_at sp bf ef sf d k (axes es ! k)) \<and> masks_of sp d (axes es) \<and>
     final_shape_gather_indices d = gathers 0 es \<and> final_shape_gather_indices_sparse d = map output_source es"

text \<open>What the code does for one dimension.\<close>

definition addAxis ::
    "sparse_spec \<Rightarrow> int list option \<Rightarrow> int list option \<Rightarrow> int list \<Rightarrow> nat \<Rightarrow> entry \<Rightarrow> dense_spec \<Rightarrow> dense_spec" where
  "addAxis sp bf ef sf k e d =
     (let mark = (\<lambda>b m. if b then or m (push_bit k 1) else m);
          put = (\<lambda>x v. case x of None \<Rightarrow> v | Some x \<Rightarrow> v[k := x])
      in d\<lparr>ds_begin := put (axis_value bf e) (ds_begin d), ds_end := put (axis_value ef e) (ds_end d),
        ds_strides := (ds_strides d)[k := axis_stride sf e],
        input_shape_gather_indices_sparse := (input_shape_gather_indices_sparse d)[k := axis_source e],
        ds_begin_mask := mark (axis_masked (sp_begin_mask sp) e) (ds_begin_mask d),
        ds_end_mask := mark (axis_masked (sp_end_mask sp) e) (ds_end_mask d),
        ds_shrink_axis_mask := mark (axis_shrunk e) (ds_shrink_axis_mask d),
        final_shape_gather_indices := final_shape_gather_indices d @ [if axis_shrunk e then kShrinkAxis else int k],
        final_shape_gather_indices_sparse := final_shape_gather_indices_sparse d @ [output_source e]\<rparr>)"

lemma marked:
  assumes "\<forall>k. bit m k \<longleftrightarrow> k < length as \<and> P (as ! k)" "length as < 32"
  shows "\<forall>k. bit (if P e then or m (push_bit (length as) 1) else m :: mask) k \<longleftrightarrow> k < length (as @ [e]) \<and> P ((as @ [e]) ! k)"
proof
  fix k
  consider "k < length as" | "k = length as" | "length as < k" by linarith
  then show "bit (if P e then or m (push_bit (length as) 1) else m) k \<longleftrightarrow> k < length (as @ [e]) \<and> P ((as @ [e]) ! k)"
    using assms bit_or_shift[OF assms(2), of m k] by cases (auto simp: nth_append)
qed

lemma addAxis_simps:
  "ds_dims (addAxis sp bf ef sf k e d) = ds_dims d" "begin_valid (addAxis sp bf ef sf k e d) = begin_valid d"
  "end_valid (addAxis sp bf ef sf k e d) = end_valid d"
  "ds_begin (addAxis sp bf ef sf k e d) = (case axis_value bf e of None \<Rightarrow> ds_begin d | Some x \<Rightarrow> (ds_begin d)[k := x])"
  "ds_end (addAxis sp bf ef sf k e d) = (case axis_value ef e of None \<Rightarrow> ds_end d | Some x \<Rightarrow> (ds_end d)[k := x])"
  "ds_strides (addAxis sp bf ef sf k e d) = (ds_strides d)[k := axis_stride sf e]"
  "input_shape_gather_indices_sparse (addAxis sp bf ef sf k e d) = (input_shape_gather_indices_sparse d)[k := axis_source e]"
  "ds_begin_mask (addAxis sp bf ef sf k e d) =
     (if axis_masked (sp_begin_mask sp) e then or (ds_begin_mask d) (push_bit k 1) else ds_begin_mask d)"
  "ds_end_mask (addAxis sp bf ef sf k e d) =
     (if axis_masked (sp_end_mask sp) e then or (ds_end_mask d) (push_bit k 1) else ds_end_mask d)"
  "ds_shrink_axis_mask (addAxis sp bf ef sf k e d) =
     (if axis_shrunk e then or (ds_shrink_axis_mask d) (push_bit k 1) else ds_shrink_axis_mask d)"
  "final_shape_gather_indices (addAxis sp bf ef sf k e d) =
     final_shape_gather_indices d @ [if axis_shrunk e then kShrinkAxis else int k]"
  "final_shape_gather_indices_sparse (addAxis sp bf ef sf k e d) = final_shape_gather_indices_sparse d @ [output_source e]"
  by (simp_all add: addAxis_def Let_def)

lemma masks_addAxis:
  assumes "masks_of sp d as" "length as < 32"
  shows "masks_of sp (addAxis sp bf ef sf (length as) e d) (as @ [e])"
proof -
  note m = assms(1)[unfolded masks_of_def]
  note m1 = m[THEN conjunct1] and m2 = m[THEN conjunct2, THEN conjunct1] and m3 = m[THEN conjunct2, THEN conjunct2]
  show ?thesis unfolding masks_of_def addAxis_simps
    by (intro conjI marked[OF m1 assms(2)] marked[OF m2 assms(2)] marked[OF m3 assms(2)])
qed

lemma put_nth:
  "j \<noteq> k \<Longrightarrow> (case x of None \<Rightarrow> v | Some x \<Rightarrow> v[k := x]) ! j = v ! j"
  "k < length v \<Longrightarrow> x = Some y \<Longrightarrow> (case x of None \<Rightarrow> v | Some x \<Rightarrow> v[k := x]) ! k = y"
  "length (case x of None \<Rightarrow> v | Some x \<Rightarrow> v[k := x]) = length v"
  by (auto split: option.splits)

lemma dense_addAxis:
  assumes d: "dense_of sp bf ef sf rank es d" and k: "k = length (axes es)" "k < rank" "rank \<le> 32" and e: "e \<noteq> NewAxis"
  shows "dense_of sp bf ef sf rank (es @ [e]) (addAxis sp bf ef sf k e d)"
proof -
  note D = d[unfolded dense_of_def]
  have "masks_of sp (addAxis sp bf ef sf k e d) (axes es @ [e])"
    using masks_addAxis[of sp d "axes es"] D k by simp
  moreover have "axis_at sp bf ef sf (addAxis sp bf ef sf k e d) j ((axes es @ [e]) ! j)" if "j < Suc k" for j
  proof (cases "j = k")
    case True
    then show ?thesis using D k by (simp add: axis_at_def addAxis_simps put_nth)
  next
    case False
    then have "j < k" using that by simp
    then show ?thesis using D k(1) by (simp add: axis_at_def addAxis_simps put_nth nth_append)
  qed
  moreover have "(case e of NewAxis \<Rightarrow> kNewAxis | Single _ \<Rightarrow> kShrinkAxis | _ \<Rightarrow> 0 + int (length (axes es))) =
      (if axis_shrunk e then kShrinkAxis else int (length (axes es)))"
    using e by (cases e) (simp_all add: axis_shrunk_def)
  ultimately show ?thesis using D k e
    by (simp add: dense_of_def gathers_snoc addAxis_simps put_nth del: if_split)
qed

section \<open>Running the code\<close>

lemma set_runs:
  "k < length (ds_begin d) \<Longrightarrow> setBegin (int k) x d = (Inr (), d\<lparr>ds_begin := (ds_begin d)[k := x]\<rparr>)"
  "k < length (ds_end d) \<Longrightarrow> setEnd (int k) x d = (Inr (), d\<lparr>ds_end := (ds_end d)[k := x]\<rparr>)"
  "k < length (ds_strides d) \<Longrightarrow> setStride (int k) x d = (Inr (), d\<lparr>ds_strides := (ds_strides d)[k := x]\<rparr>)"
  "k < length (input_shape_gather_indices_sparse d) \<Longrightarrow> setSource (int k) x d =
     (Inr (), d\<lparr>input_shape_gather_indices_sparse := (input_shape_gather_indices_sparse d)[k := x]\<rparr>)"
  by (simp_all add: setBegin_def setEnd_def setStride_def setSource_def op_simps writeAt_def andThen_def)

lemma mask_runs:
  "k < 32 \<Longrightarrow> maskBegin (int k) d = (Inr (), d\<lparr>ds_begin_mask := or (ds_begin_mask d) (push_bit k 1)\<rparr>)"
  "k < 32 \<Longrightarrow> maskEnd (int k) d = (Inr (), d\<lparr>ds_end_mask := or (ds_end_mask d) (push_bit k 1)\<rparr>)"
  "k < 32 \<Longrightarrow> maskShrink (int k) d = (Inr (), d\<lparr>ds_shrink_axis_mask := or (ds_shrink_axis_mask d) (push_bit k 1)\<rparr>)"
  by (simp_all add: maskBegin_def maskEnd_def maskShrink_def op_simps andThen_def shiftBit_eq)

lemma whenSet_run: "0 \<le> i \<Longrightarrow> i < 32 \<Longrightarrow> whenSet i m act d = (if bit m (nat i) then act d else (Inr (), d))"
  by (simp add: whenSet_def op_simps andThen_def testBit_eq)

lemma gatherFrom_run: "gatherFrom g i d = (Inr (), d\<lparr>final_shape_gather_indices := final_shape_gather_indices d @ [g],
    final_shape_gather_indices_sparse := final_shape_gather_indices_sparse d @ [i]\<rparr>)"
  by (simp add: gatherFrom_def op_simps)

lemmas dense_runs = set_runs mask_runs whenSet_run gatherFrom_run

lemma dense_room:
  assumes "dense_of sp bf ef sf rank es d" "k < rank"
  shows "k < length (ds_begin d)" "k < length (ds_end d)" "k < length (ds_strides d)" "k < length (input_shape_gather_indices_sparse d)"
  using assms by (auto simp: dense_of_def)

lemma ellipsisDim_run:
  assumes "dense_of sp bf ef sf rank es d" "k < rank" "rank \<le> 32"
  shows "ellipsisDim i (int k) d = (Inr (), addAxis sp bf ef sf k (Whole i) d)"
  using dense_room[OF assms(1,2)] assms(2,3)
  by (simp add: ellipsisDim_def andThen_def dense_runs addAxis_def Let_def axis_value_def axis_stride_def axis_masked_def
      axis_shrunk_def axis_source_def output_source_def)

definition indexEntry :: "sparse_spec \<Rightarrow> int \<Rightarrow> entry" where
  "indexEntry sp i = (if bit (sp_shrink_axis_mask sp) (nat i) then Single i else Slice i)"

text \<open>The data of the entry is there.\<close>

definition has_entry :: "int list option \<Rightarrow> int list option \<Rightarrow> int list \<Rightarrow> int \<Rightarrow> bool" where
  "has_entry bf ef sf i \<longleftrightarrow> 0 \<le> i \<and> i < 32 \<and> i < int (length sf) \<and>
     (case bf of None \<Rightarrow> True | Some v \<Rightarrow> i < int (length v)) \<and> (case ef of None \<Rightarrow> True | Some v \<Rightarrow> i < int (length v))"

lemma indexDim_run:
  assumes d: "dense_of sp bf ef sf rank es d" and k: "k < rank" "rank \<le> 32" and i: "has_entry bf ef sf i"
  shows "indexDim sp bf ef sf i (int k) d = (Inr (), addAxis sp bf ef sf k (indexEntry sp i) d)"
proof -
  note r = dense_room[OF d k(1)]
  define B where "B = (case bf of None \<Rightarrow> ret () | Some v \<Rightarrow> andThen (liftR (vecAt v i)) (setBegin (int k)))"
  define E where "E = (case ef of None \<Rightarrow> ret () | Some v \<Rightarrow> andThen (liftR (vecAt v i)) (setEnd (int k)))"
  define S where "S = andThen (liftR (vecAt sf i)) (setStride (int k))"
  have b: "B d =
      (Inr (), d\<lparr>ds_begin := case axis_value bf (Slice i) of None \<Rightarrow> ds_begin d | Some x \<Rightarrow> (ds_begin d)[k := x]\<rparr>)"
    using i r by (cases bf) (simp_all add: has_entry_def vecAt_def andThen_def op_simps set_runs axis_value_def B_def)
  have e: "E d =
      (Inr (), d\<lparr>ds_end := case axis_value ef (Slice i) of None \<Rightarrow> ds_end d | Some x \<Rightarrow> (ds_end d)[k := x]\<rparr>)"
    if "k < length (ds_end d)" for d
    using i that by (cases ef) (simp_all add: has_entry_def vecAt_def andThen_def op_simps set_runs axis_value_def E_def)
  have s: "S d = (Inr (), d\<lparr>ds_strides := (ds_strides d)[k := sf ! nat i]\<rparr>)"
    if "k < length (ds_strides d)" for d
    using i that by (simp add: has_entry_def vecAt_def andThen_def op_simps set_runs S_def)
  have i32: "0 \<le> i" "i < 32" using i by (auto simp: has_entry_def)
  have k32: "k < 32" using k by simp
  show ?thesis
    unfolding indexDim_def B_def[symmetric] E_def[symmetric] S_def[symmetric]
    using r i32 k32 by (auto intro!: dense_spec.equality simp: andThen_def b e s op_simps dense_runs testBit_eq addAxis_def Let_def
        indexEntry_def axis_value_def axis_stride_def axis_masked_def axis_shrunk_def axis_source_def output_source_def split: option.split)
qed

lemma axes_replicate [simp]: "axes (replicate n (Whole i)) = replicate n (Whole i)"
  by (induction n) (simp_all add: axes_def)

lemma ellipsis_loop:
  "dense_of sp bf ef sf rank es d \<Longrightarrow> k = length (axes es) \<Longrightarrow> k + n \<le> rank \<Longrightarrow> rank \<le> 32 \<Longrightarrow>
   \<exists>d'. iterOp (ellipsisDim i) (map int [k..<k + n]) d = (Inr (), d') \<and> dense_of sp bf ef sf rank (es @ replicate n (Whole i)) d'"
proof (induction n arbitrary: k es d)
  case 0
  then show ?case by (simp add: op_simps)
next
  case (Suc n)
  have k: "k < rank" using Suc.prems by simp
  note r = ellipsisDim_run[OF Suc.prems(1) k Suc.prems(4), of i]
  have u: "[k..<k + Suc n] = k # [Suc k..<Suc k + n]" by (simp add: upt_conv_Cons del: upt_Suc)
  have "dense_of sp bf ef sf rank (es @ [Whole i]) (addAxis sp bf ef sf k (Whole i) d)"
    using dense_addAxis[OF Suc.prems(1,2) k Suc.prems(4)] by simp
  from Suc.IH[OF this, of "Suc k"] Suc.prems obtain d' where
    "iterOp (ellipsisDim i) (map int [Suc k..<Suc k + n]) (addAxis sp bf ef sf k (Whole i) d) = (Inr (), d')"
    "dense_of sp bf ef sf rank (es @ Whole i # replicate n (Whole i)) d'" by auto
  then show ?case unfolding u using r by (auto simp: andThen_def simp del: upt_Suc)
qed

lemma sparseStep_ellipsis:
  assumes d: "dense_of sp bf ef sf rank es d" and k: "k = length (axes es)" and r: "rank \<le> 32"
    and i: "0 \<le> i" "i < 32" "isEllipsis sp i" and a: "sp_dims sp - i - 1 - num_add_axis_after_ellipsis sp = int a" "a \<le> 32"
  shows "\<exists>d'. sparseStep sp bf ef sf i (int k) d = (Inr (int (k + (rank - (k + a)))), d') \<and>
    dense_of sp bf ef sf rank (es @ replicate (rank - (k + a)) (Whole i)) d'"
proof -
  define n where "n = rank - (k + a)"
  have dims: "ds_dims d = int rank" using d by (simp add: dense_of_def)
  have kr: "k \<le> rank" using d k by (simp add: dense_of_def)
  have e: "int rank - (sp_dims sp - i) + 1 + num_add_axis_after_ellipsis sp = int rank - int a" using a(1) by linarith
  have "in_int32 (int rank - int a)" using r a(2) by (auto simp: in_int32_def)
  then have nx: "to_int32 (min (int rank - (sp_dims sp - i) + 1 + num_add_axis_after_ellipsis sp) (int rank)) = int rank - int a"
    unfolding e by (simp add: min_def)
  have l: "[int k..int rank - int a - 1] = map int [k..<k + n]"
  proof (cases "k + a \<le> rank")
    case True
    then have "int rank - int a - 1 = int (k + n) - 1" by (simp add: n_def)
    then show ?thesis using upto_map[of k "k + n"] by simp
  qed (simp add: n_def)
  have m: "max (int k) (int rank - int a) = int (k + n)" by (simp add: n_def)
  have "k + n \<le> rank" using kr by (auto simp: n_def)
  from ellipsis_loop[OF d k this r, of i] obtain d' where
    "iterOp (ellipsisDim i) (map int [k..<k + n]) d = (Inr (), d')" "dense_of sp bf ef sf rank (es @ replicate n (Whole i)) d'" by auto
  moreover have "testBit i (sp_ellipsis_mask sp) = Inr True" using i by (simp add: testBit_eq isEllipsis_def)
  ultimately have "sparseStep sp bf ef sf i (int k) d = (Inr (int (k + n)), d')"
    by (simp add: sparseStep_def op_simps andThen_def dims nx l m Let_def)
  then show ?thesis using \<open>dense_of sp bf ef sf rank (es @ replicate n (Whole i)) d'\<close> by (auto simp: n_def)
qed

lemma sparseStep_newaxis:
  assumes d: "dense_of sp bf ef sf rank es d" and i: "0 \<le> i" "i < 32" "isNewAxis sp i"
  shows "\<exists>d'. sparseStep sp bf ef sf i k d = (Inr k, d') \<and> dense_of sp bf ef sf rank (es @ [NewAxis]) d'"
proof -
  have "testBit i (sp_ellipsis_mask sp) = Inr False" "testBit i (sp_new_axis_mask sp) = Inr True"
    using i by (simp_all add: testBit_eq isNewAxis_def isEllipsis_def)
  moreover have "dense_of sp bf ef sf rank (es @ [NewAxis]) (d\<lparr>final_shape_gather_indices := final_shape_gather_indices d @ [kNewAxis],
      final_shape_gather_indices_sparse := final_shape_gather_indices_sparse d @ [- 1]\<rparr>)"
    using d by (simp add: dense_of_def axis_at_def masks_of_def gathers_snoc output_source_def)
  ultimately show ?thesis by (simp add: sparseStep_def op_simps andThen_def gatherFrom_run)
qed

lemma sparseStep_index:
  assumes d: "dense_of sp bf ef sf rank es d" and k: "k = length (axes es)" "rank \<le> 32"
    and i: "has_entry bf ef sf i" "isIndex sp i"
  shows "if k < rank
    then \<exists>d'. sparseStep sp bf ef sf i (int k) d = (Inr (int (Suc k)), d') \<and> dense_of sp bf ef sf rank (es @ [indexEntry sp i]) d'
    else \<exists>d'. sparseStep sp bf ef sf i (int k) d = (Inl (Status InvalidArgument), d')"
proof -
  have "0 \<le> i" "i < 32" using i(1) by (auto simp: has_entry_def)
  then have t: "testBit i (sp_ellipsis_mask sp) = Inr False" "testBit i (sp_new_axis_mask sp) = Inr False"
    using i(2) by (auto simp: testBit_eq isIndex_def isNewAxis_def isEllipsis_def)
  have l: "length (ds_begin d) = rank" "k \<le> rank" using d k by (simp_all add: dense_of_def)
  have e: "indexEntry sp i \<noteq> NewAxis" by (simp add: indexEntry_def)
  show ?thesis
  proof (cases "k < rank")
    case True
    show ?thesis using t l True indexDim_run[OF d True k(2) i(1)] dense_addAxis[OF d k(1) True k(2) e]
      by (simp add: sparseStep_def op_simps andThen_def)
  next
    case False
    then show ?thesis using t l by (simp add: sparseStep_def op_simps andThen_def)
  qed
qed

section \<open>The whole specification\<close>

lemma length_axes_entries: "length (axes (entries w sp is)) = indices sp is + w * length (filter (isEllipsis sp) is)"
  by (induction "is") (auto simp: entries_def entryOf_def indices_def isIndex_def isNewAxis_def)

lemma entries_snoc: "entries w sp (is @ [i]) = entries w sp is @ entryOf w sp i"
  by (simp add: entries_def)

lemma indices_append: "indices sp (is @ js) = indices sp is + indices sp js"
  by (simp add: indices_def)

text \<open>One ellipsis, and the number of new axes after it.\<close>

definition one_ellipsis :: "sparse_spec \<Rightarrow> int list \<Rightarrow> bool" where
  "one_ellipsis sp all \<longleftrightarrow> length (filter (isEllipsis sp) all) = 1 \<and>
     num_add_axis_after_ellipsis sp = int (length (filter (isNewAxis sp) (tl (dropWhile (\<lambda>i. \<not> isEllipsis sp i) all))))"

lemma one_ellipsis_at:
  assumes "one_ellipsis sp (is @ i # js)" "isEllipsis sp i"
  shows "filter (isEllipsis sp) is = []" "filter (isEllipsis sp) js = []"
    "int (length js) - num_add_axis_after_ellipsis sp = int (indices sp js)"
proof -
  show 0: "filter (isEllipsis sp) is = []" "filter (isEllipsis sp) js = []" using assms by (auto simp: one_ellipsis_def)
  have "dropWhile (\<lambda>i. \<not> isEllipsis sp i) (is @ i # js) = i # js"
    using 0(1) assms(2) by (simp add: filter_empty_conv dropWhile_append2)
  then have n: "num_add_axis_after_ellipsis sp = int (length (filter (isNewAxis sp) js))" using assms(1) by (simp add: one_ellipsis_def)
  have "filter (isIndex sp) js = filter (\<lambda>i. \<not> isNewAxis sp i) js"
    using 0(2) by (auto simp: filter_empty_conv isIndex_def intro!: filter_cong)
  then show "int (length js) - num_add_axis_after_ellipsis sp = int (indices sp js)"
    unfolding n indices_def using sum_length_filter_compl[of "isNewAxis sp" js] by simp
qed

lemma sparse_loop:
  assumes all: "all = [0..sp_dims sp - 1]" and m: "sp_dims sp \<le> 32" and r: "rank \<le> 32" and one: "one_ellipsis sp all"
    and data: "\<And>i. i \<in> set all \<Longrightarrow> isIndex sp i \<Longrightarrow> has_entry bf ef sf i" and w: "w = rank - indices sp all"
  shows "all = is @ js \<Longrightarrow> dense_of sp bf ef sf rank (entries w sp is) d \<Longrightarrow>
    if indices sp all \<le> rank
    then \<exists>k d'. foldOp (sparseStep sp bf ef sf) js (int (length (axes (entries w sp is)))) d = (Inr k, d') \<and>
      dense_of sp bf ef sf rank (entries w sp all) d'
    else \<exists>d'. foldOp (sparseStep sp bf ef sf) js (int (length (axes (entries w sp is)))) d = (Inl (Status InvalidArgument), d')"
proof (induction js arbitrary: "is" d)
  case Nil
  then have "length (axes (entries w sp all)) \<le> rank" by (simp add: dense_of_def)
  then show ?case using Nil by (auto simp: op_simps length_axes_entries)
next
  case (Cons i js)
  let ?k = "length (axes (entries w sp is))" and ?es = "entries w sp is"
  have ii: "i \<in> set all" using Cons.prems(1) by simp
  then have i: "0 \<le> i" "i < 32" using all m by auto
  have len: "length all = nat (sp_dims sp)" using all by simp
  then have lt: "int (length is) < sp_dims sp" "sp_dims sp = int (length is) + 1 + int (length js)" using Cons.prems(1) by auto
  have "all ! length is = i" using Cons.prems(1) by simp
  then have nth: "i = int (length is)" using nth_upto[of 0 "length is" "sp_dims sp - 1"] lt(1) all by simp
  have IH: "if indices sp all \<le> rank
    then \<exists>k d'. foldOp (sparseStep sp bf ef sf) js (int (length (axes (?es @ entryOf w sp i)))) d1 = (Inr k, d') \<and>
      dense_of sp bf ef sf rank (entries w sp all) d'
    else \<exists>d'. foldOp (sparseStep sp bf ef sf) js (int (length (axes (?es @ entryOf w sp i)))) d1 = (Inl (Status InvalidArgument), d')"
    if "dense_of sp bf ef sf rank (?es @ entryOf w sp i) d1" for d1
    using Cons.IH[of "is @ [i]" d1, unfolded entries_snoc, OF _ that] Cons.prems(1) by simp
  have next_step: "if indices sp all \<le> rank
    then \<exists>k d'. foldOp (sparseStep sp bf ef sf) (i # js) (int ?k) d = (Inr k, d') \<and>
      dense_of sp bf ef sf rank (entries w sp all) d'
    else \<exists>d'. foldOp (sparseStep sp bf ef sf) (i # js) (int ?k) d = (Inl (Status InvalidArgument), d')"
    if "sparseStep sp bf ef sf i (int ?k) d = (Inr (int (length (axes (?es @ entryOf w sp i)))), d1)"
      and "dense_of sp bf ef sf rank (?es @ entryOf w sp i) d1" for d1
    using IH[OF that(2)] unfolding foldOp.simps(2) andThen_Inr[of "sparseStep sp bf ef sf i (int ?k)", OF that(1)] .
  consider "isEllipsis sp i" | "isNewAxis sp i" | "isIndex sp i" by (auto simp: isIndex_def)
  then show ?case
  proof cases
    case 1
    note o = one_ellipsis_at[OF one[unfolded Cons.prems(1)] 1]
    have k: "?k = indices sp is" using o(1) by (simp add: length_axes_entries)
    have "indices sp all = indices sp is + indices sp js"
      unfolding Cons.prems(1) using 1 by (simp add: indices_append) (simp add: indices_def isIndex_def)
    then have n: "rank - (?k + indices sp js) = w" using k w by simp
    have a: "sp_dims sp - i - 1 - num_add_axis_after_ellipsis sp = int (indices sp js)" using o(3) nth lt(2) by simp
    have "length js \<le> 32" using lt(2) m by simp
    then have a32: "indices sp js \<le> 32" using length_filter_le[of "isIndex sp" js] unfolding indices_def by linarith
    obtain d1 where d1: "sparseStep sp bf ef sf i (int ?k) d = (Inr (int (?k + w)), d1)"
        "dense_of sp bf ef sf rank (?es @ replicate w (Whole i)) d1"
      using sparseStep_ellipsis[OF Cons.prems(2) refl r i 1 a a32] unfolding n by auto
    have e: "entryOf w sp i = replicate w (Whole i)" using 1 by (simp add: entryOf_def)
    show ?thesis by (rule next_step[of d1]) (use d1 e in simp_all)
  next
    case 2
    then have "entryOf w sp i = [NewAxis]" by (simp add: entryOf_def isNewAxis_def)
    moreover obtain d1 where "sparseStep sp bf ef sf i (int ?k) d = (Inr (int ?k), d1)" "dense_of sp bf ef sf rank (?es @ [NewAxis]) d1"
      using sparseStep_newaxis[OF Cons.prems(2) i 2] by auto
    ultimately show ?thesis by (intro next_step[of d1]) simp_all
  next
    case 3
    then have e: "entryOf w sp i = [indexEntry sp i]" "indexEntry sp i \<noteq> NewAxis"
      by (auto simp: entryOf_def isIndex_def isNewAxis_def indexEntry_def)
    note step = sparseStep_index[OF Cons.prems(2) refl r data[OF ii 3] 3]
    have one_more: "length (filter (isEllipsis sp) is) \<le> 1" using one unfolding one_ellipsis_def Cons.prems(1) by simp
    have tot: "indices sp all = indices sp is + 1 + indices sp js"
      unfolding Cons.prems(1) using 3 by (simp add: indices_append) (simp add: indices_def)
    show ?thesis
    proof (cases "?k < rank")
      case True
      then obtain d1 where d1: "sparseStep sp bf ef sf i (int ?k) d = (Inr (int (Suc ?k)), d1)"
          "dense_of sp bf ef sf rank (?es @ [indexEntry sp i]) d1" using step by auto
      show ?thesis by (rule next_step[of d1]) (use d1 e in simp_all)
    next
      case False
      have "\<not> indices sp all \<le> rank"
      proof
        assume le: "indices sp all \<le> rank"
        have "?k \<le> indices sp is + w" using one_more by (auto simp: length_axes_entries le_Suc_eq)
        then show False using le w tot False by linarith
      qed
      then show ?thesis using step False by (auto simp: andThen_def)
    qed
  qed
qed

lemma BuildDenseSpec_run:
  assumes all: "all = [0..sp_dims sp - 1]" "sp_dims sp \<le> 32" and r: "ds_dims d = int rank" "rank \<le> 32" and one: "one_ellipsis sp all"
    and v: "vecOf T (sp_strides sp) = Inr sf" "vecOfPtr T (sp_begin sp) = Inr bf" "vecOfPtr T (sp_end sp) = Inr ef"
    and data: "\<And>i. i \<in> set all \<Longrightarrow> isIndex sp i \<Longrightarrow> has_entry bf ef sf i"
    and g: "final_shape_gather_indices d = []" "final_shape_gather_indices_sparse d = []"
  shows "if indices sp all \<le> rank
    then \<exists>d'. BuildDenseSpec T sp d = (Inr (), d') \<and> dense_of sp bf ef sf rank (entries (rank - indices sp all) sp all) d'
    else \<exists>d'. BuildDenseSpec T sp d = (Inl (Status InvalidArgument), d')"
proof -
  have n: "(sp_begin sp \<noteq> None) = (bf \<noteq> None)" "(sp_end sp \<noteq> None) = (ef \<noteq> None)"
    using v(2,3) by (auto simp: vecOfPtr_def bindR_eq_Inr split: option.splits)
  define d1 where "d1 = d\<lparr>ds_begin := resizeWith rank 0 (ds_begin d), ds_end := resizeWith rank 0 (ds_end d),
    ds_strides := resizeWith rank 0 (ds_strides d),
    input_shape_gather_indices_sparse := resizeWith rank 0 (input_shape_gather_indices_sparse d),
    ds_begin_mask := 0, ds_end_mask := 0, ds_shrink_axis_mask := 0, begin_valid := sp_begin sp \<noteq> None, end_valid := sp_end sp \<noteq> None\<rparr>"
  have "dense_of sp bf ef sf rank (entries (rank - indices sp all) sp []) d1"
    using r g n by (simp add: d1_def dense_of_def entries_def masks_of_def)
  note L = sparse_loop[OF all(1,2) r(2) one data refl, of "[]" all d1, OF _ _ _ this]
  have "BuildDenseSpec T sp d = andThen (foldOp (sparseStep sp bf ef sf) all 0) (\<lambda>_. ret ()) d1"
    using r by (simp add: BuildDenseSpec_def op_simps andThen_def v all(1) d1_def)
  then show ?thesis using L by (auto simp: andThen_def op_simps entries_def split: if_splits)
qed

end
