(* ===== verification/SliceRun.thy ===== *)
theory SliceRun
  imports SliceDense
begin

text \<open>
  The validation of a strided slice runs as its specification says: one outcome for every
  dimension of the input, from the entry that the dimension belongs to, and the sizes of the result
  gathered from them.
\<close>

section \<open>One dimension\<close>

text \<open>
  What becomes of a dimension of size \<open>dim\<close>: begin, end and size of the slice. The bounds are
  \<open>known\<close> or not; \<open>b\<close>, \<open>e\<close> and \<open>st\<close> are the entries of the dense vectors, \<open>sh\<close>, \<open>bm\<close> and \<open>em\<close> the bits
  of the dense masks.
\<close>

definition axis_out :: "bool \<Rightarrow> int \<Rightarrow> int \<Rightarrow> int \<Rightarrow> int \<Rightarrow> bool \<Rightarrow> bool \<Rightarrow> bool \<Rightarrow> (int \<times> int \<times> int) res" where
  "axis_out known dim b e st sh bm em =
    (if st = 0 then Inl (Status InvalidArgument)
     else if dim = - 1 then Inr (b, e, if sh then 1 else - 1)
     else if sh \<and> st \<le> 0 then Inl (Status InvalidArgument)
     else if known then
       if sh then
         let x = (if b < 0 then dim + b else b) in
         if x = int64_max then Inl (Fault SignedOverflow)
         else if x < 0 \<or> dim \<le> x then Inl (Status InvalidArgument)
         else Inr (x, x + 1, 1)
       else
         let b' = canonical st dim bm b 0; e' = canonical st dim em e 1 in Inr (b', e', sliceSize (e' - b') st)
     else if sh then Inr (b, e, 1)
     else if bm \<and> em then Inr (b, e, sliceSize (if st < 0 then - dim else dim) st)
     else Inr (b, e, - 1))"

text \<open>The whole of a dimension is taken, in order.\<close>

definition axis_full :: "bool \<Rightarrow> int \<Rightarrow> int \<times> int \<times> int \<Rightarrow> int \<Rightarrow> bool \<Rightarrow> bool \<Rightarrow> bool" where
  "axis_full known dim out st bm em =
    (if known then st = 1 \<and> fst out = 0 \<and> fst (snd out) = dim else bm \<and> em)"

definition axis_identity :: "bool \<Rightarrow> int \<Rightarrow> int \<times> int \<times> int \<Rightarrow> int \<Rightarrow> bool \<Rightarrow> bool \<Rightarrow> bool" where
  "axis_identity known dim out st bm em \<longleftrightarrow> dim = - 1 \<or> st = 1 \<and> axis_full known dim out st bm em"

definition axis_dim0 :: "bool \<Rightarrow> nat \<Rightarrow> int \<Rightarrow> int \<times> int \<times> int \<Rightarrow> int \<Rightarrow> bool \<Rightarrow> bool \<Rightarrow> bool" where
  "axis_dim0 known k dim out st bm em \<longleftrightarrow> dim = - 1 \<or> k = 0 \<and> st = 1 \<or> axis_full known dim out st bm em"

lemma sliceSize_one: "0 < st \<Longrightarrow> sliceSize 1 st = 1"
  by (cases "st = 1") (auto simp: sliceSize_def cdiv_def cmod_def div_pos_pos_trivial)

lemma canonical_range:
  assumes "0 \<le> dim" "dim \<le> int64_max" "st \<noteq> 0" "c < 2"
  shows "(if 0 < st then 0 else - 1) \<le> canonical st dim m x c \<and> canonical st dim m x c \<le> (if 0 < st then dim else dim - 1)"
  using assms by (cases "c = 0") (auto simp: canonical_def Let_def less_2_cases_iff)

abbreviation known_bounds :: "dense_spec \<Rightarrow> bool" where
  "known_bounds d \<equiv> begin_valid d \<and> end_valid d"

text \<open>What is known of one dimension when the loop comes to it.\<close>

definition before_axis :: "dense_spec \<Rightarrow> slice_out \<Rightarrow> tensor_shape \<Rightarrow> int list \<Rightarrow> nat \<Rightarrow> bool" where
  "before_axis d s t xs k \<longleftrightarrow> packed True t xs \<and> k < length xs \<and> length xs \<le> 32 \<and> length (so_begin s) = length xs \<and>
     length (so_end s) = length xs \<and> length (so_strides s) = length xs \<and>
     (known_bounds d \<longrightarrow> in_int64 (so_begin s ! k) \<and> in_int64 (so_end s ! k))"

definition axis_of :: "dense_spec \<Rightarrow> int list \<Rightarrow> int list \<Rightarrow> int list \<Rightarrow> int list \<Rightarrow> nat \<Rightarrow> (int \<times> int \<times> int) res" where
  "axis_of d xs bs es ss k = axis_out (known_bounds d) (xs ! k) (bs ! k) (es ! k) (ss ! k)
     (bit (ds_shrink_axis_mask d) k) (bit (ds_begin_mask d) k) (bit (ds_end_mask d) k)"

definition after_axis :: "dense_spec \<Rightarrow> int list \<Rightarrow> nat \<Rightarrow> int \<times> int \<times> int \<Rightarrow> slice_out \<Rightarrow> slice_out" where
  "after_axis d xs k out s =
     (let st = so_strides s ! k; bm = bit (ds_begin_mask d) k; em = bit (ds_end_mask d) k
      in s\<lparr>so_is_simple_slice := so_is_simple_slice s \<and> (xs ! k = - 1 \<or> st = 1),
        so_begin := (so_begin s)[k := fst out], so_end := (so_end s)[k := fst (snd out)],
        so_is_identity := so_is_identity s \<and> axis_identity (known_bounds d) (xs ! k) out st bm em,
        so_slice_dim0 := so_slice_dim0 s \<and> axis_dim0 (known_bounds d) k (xs ! k) out st bm em\<rparr>)"

lemma put_runs:
  "k < length (so_begin s) \<Longrightarrow> putBegin (int k) x s = (Inr (), s\<lparr>so_begin := (so_begin s)[k := x]\<rparr>)"
  "k < length (so_end s) \<Longrightarrow> putEnd (int k) x s = (Inr (), s\<lparr>so_end := (so_end s)[k := x]\<rparr>)"
  by (simp_all add: putBegin_def putEnd_def op_simps writeAt_def andThen_def)

lemma same_updates: "(xs :: 'a list)[k := xs ! k] = xs" "xs[k := x, k := y] = xs[k := y]"
  by simp_all

lemma sliceDim_run:
  assumes s: "before_axis d s t xs k"
  shows "case axis_of d xs (so_begin s) (so_end s) (so_strides s) k of
      Inl err \<Rightarrow> \<exists>s'. sliceDim d t (int k) s = (Inl err, s')
    | Inr out \<Rightarrow> sliceDim d t (int k) s = onProcessing (AddDim True (snd (snd out))) (after_axis d xs k out s)"
proof -
  define b e st dim where v: "b = so_begin s ! k" "e = so_end s ! k" "st = so_strides s ! k" "dim = xs ! k"
  define sh bm em where m: "sh = bit (ds_shrink_axis_mask d) k" "bm = bit (ds_begin_mask d) k" "em = bit (ds_end_mask d) k"
  have k: "k < length xs" "k < 32" "k < length (so_begin s)" "k < length (so_end s)" using s by (auto simp: before_axis_def)
  have p: "packed True t xs" using s by (simp add: before_axis_def)
  have reads: "vecAt (so_begin s) (int k) = Inr b" "vecAt (so_end s) (int k) = Inr e" "vecAt (so_strides s) (int k) = Inr st"
      "dim_size True t (int k) = Inr dim"
    using s packed_dim_size[OF p, of "int k"] by (simp_all add: v before_axis_def)
  have bits: "testBit (int k) (ds_shrink_axis_mask d) = Inr sh" "testBit (int k) (ds_begin_mask d) = Inr bm"
      "testBit (int k) (ds_end_mask d) = Inr em"
    using k(2) by (simp_all add: testBit_eq m)
  have dim: "- 1 \<le> dim" "dim \<le> int64_max"
    using p k(1) stores_known(4)[of True t xs] by (auto simp: packed_def v list_all_iff dim_ok_def)
  have ranges: "in_int64 b" "in_int64 e" if "known_bounds d" using s that by (simp_all add: before_axis_def v)
  have out: "axis_of d xs (so_begin s) (so_end s) (so_strides s) k = axis_out (known_bounds d) dim b e st sh bm em"
    by (simp add: axis_of_def v m)
  consider "st = 0" | "st \<noteq> 0" "dim = - 1" | "st \<noteq> 0" "dim \<noteq> - 1" "sh" "st \<le> 0"
    | "st \<noteq> 0" "dim \<noteq> - 1" "\<not> (sh \<and> st \<le> 0)" "\<not> known_bounds d" | "st \<noteq> 0" "dim \<noteq> - 1" "sh" "0 < st" "known_bounds d"
    | "st \<noteq> 0" "dim \<noteq> - 1" "\<not> sh" "known_bounds d" by fastforce
  then show ?thesis
  proof cases
    case 1
    then show ?thesis unfolding out by (simp add: axis_out_def sliceDim_def op_simps andThen_def reads)
  next
    case 2
    have "after_axis d xs k (b, e, if sh then 1 else - 1) s = s"
      using 2 v by (simp add: after_axis_def Let_def axis_identity_def axis_dim0_def)
    then show ?thesis unfolding out using 2 by (simp add: axis_out_def sliceDim_def op_simps andThen_def reads bits)
  next
    case 3
    then show ?thesis unfolding out by (simp add: axis_out_def sliceDim_def op_simps andThen_def reads bits)
  next
    case 4
    have d0: "0 \<le> dim" using 4(2) dim by simp
    have st: "0 < st" if "sh" using that 4(1,3) by auto
    have same: "(so_begin s)[k := b] = so_begin s" "(so_end s)[k := e] = so_end s" by (simp_all add: v)
    have nk: "(begin_valid d \<and> end_valid d) = False" using 4(4) by simp
    define z where "z = (if sh then 1 else if bm \<and> em then sliceSize (if st < 0 then - dim else dim) st else - 1)"
    have o: "axis_out (known_bounds d) dim b e st sh bm em = Inr (b, e, z)" using 4(1-3) by (auto simp: axis_out_def z_def nk)
    have "sliceDim d t (int k) s = onProcessing (AddDim True z) (after_axis d xs k (b, e, z) s)"
      using 4(1-3) d0 st
      by (auto simp: sliceDim_def op_simps andThen_def reads bits Let_def nk andIdentity_def andDim0_def intervalLength_def
          after_axis_def same axis_identity_def axis_dim0_def axis_full_def z_def sliceSize_one simp flip: v m)
    then show ?thesis unfolding out o by simp
  next
    case 5
    have d0: "0 \<le> dim" using 5(2) dim by simp
    define x where "x = (if b < 0 then dim + b else b)"
    have x: "in_int64 x" using ranges[OF 5(5)] d0 dim by (auto simp: x_def in_int64_def)
    have kk: "begin_valid d" "end_valid d" "(begin_valid d \<and> end_valid d) = True" using 5(5) by auto
    show ?thesis
    proof (cases "x = int64_max \<or> x < 0 \<or> dim \<le> x")
      case True
      have "\<not> in_int64 (x + 1) \<longleftrightarrow> x = int64_max" using x by (auto simp: in_int64_def)
      then show ?thesis unfolding out using 5 k d0 True
        by (auto simp: axis_out_def Let_def kk sliceDim_def op_simps andThen_def reads bits canonicalBounds_def put_runs signed64_def simp flip: x_def)
    next
      case False
      then have o: "axis_out (known_bounds d) dim b e st sh bm em = Inr (x, x + 1, 1)"
        using 5 d0 by (auto simp: axis_out_def Let_def simp flip: x_def)
      have r: "in_int64 (x + 1)" "in_int64 1" using False x by (auto simp: in_int64_def)
      have "sliceDim d t (int k) s = onProcessing (AddDim True 1) (after_axis d xs k (x, x + 1, 1) s)"
        using 5 d0 k False r
        by (simp add: Let_def kk sliceDim_def op_simps andThen_def reads bits canonicalBounds_def put_runs signed64_def
            intervalLength_def sliceSize_one andIdentity_def andDim0_def after_axis_def axis_identity_def axis_dim0_def axis_full_def
            flip: x_def v m)
      then show ?thesis unfolding out o by simp
    qed
  next
    case 6
    have d0: "0 \<le> dim" using 6(2) dim by simp
    have kk: "begin_valid d" "end_valid d" "(begin_valid d \<and> end_valid d) = True" using 6(4) by auto
    define b' e' where be: "b' = canonical st dim bm b 0" "e' = canonical st dim em e 1"
    have be1: "canonical st dim bm b 0 = b'" "canonical st dim em e (Suc 0) = e'" by (simp_all add: be)
    have r: "in_int64 (e' - b')"
      using canonical_range[OF d0 dim(2) 6(1), of 0 bm b] canonical_range[OF d0 dim(2) 6(1), of 1 em e] dim d0
      by (auto simp: in_int64_def be split: if_splits)
    have o: "axis_out (known_bounds d) dim b e st sh bm em = Inr (b', e', sliceSize (e' - b') st)"
      using 6 by (auto simp: axis_out_def Let_def be)
    have "sliceDim d t (int k) s = onProcessing (AddDim True (sliceSize (e' - b') st)) (after_axis d xs k (b', e', sliceSize (e' - b') st) s)"
      using 6 d0 k r
      by (simp add: Let_def kk sliceDim_def op_simps andThen_def reads bits canonicalBounds_def put_runs signed64_def
          intervalLength_def andIdentity_def andDim0_def after_axis_def axis_identity_def axis_dim0_def axis_full_def
          be1 flip: v m)
    then show ?thesis unfolding out o by simp
  qed
qed

section \<open>The loop over the dimensions\<close>

lemma iterOp_snoc: "iterOp f (xs @ [x]) = andThen (iterOp f xs) (\<lambda>_. f x)"
  by (induction xs) (simp_all add: andThen_assoc, simp add: andThen_def ret_def fun_eq_iff split: prod.splits sum.splits)

lemma mapR_snoc: "mapR f (xs @ [x]) = bindR (mapR f xs) (\<lambda>ys. bindR (f x) (\<lambda>y. Inr (ys @ [y])))"
  by (induction xs) (auto simp: bindR_def split: sum.splits)

lemma mapR_length: "mapR f xs = Inr ys \<Longrightarrow> length ys = length xs"
  by (induction xs arbitrary: ys) (auto simp: bindR_eq_Inr)

text \<open>The sizes of a list of outcomes, and the state after as many dimensions.\<close>

definition sizes_out :: "(int \<times> int \<times> int) list \<Rightarrow> int list" where
  "sizes_out outs = map (\<lambda>out. snd (snd out)) outs"

definition after_axes :: "dense_spec \<Rightarrow> int list \<Rightarrow> slice_out \<Rightarrow> (int \<times> int \<times> int) list \<Rightarrow> slice_out \<Rightarrow> bool" where
  "after_axes d xs s outs s' \<longleftrightarrow>
     (let n = length outs; kb = known_bounds d; bm = bit (ds_begin_mask d); em = bit (ds_end_mask d); ss = so_strides s in
      so_begin s' = map fst outs @ drop n (so_begin s) \<and> so_end s' = map (\<lambda>out. fst (snd out)) outs @ drop n (so_end s) \<and>
      so_strides s' = ss \<and> packed True (so_processing_shape s') (sizes_out outs) \<and>
      so_final_shape s' = so_final_shape s \<and> so_shape_spec s' = so_shape_spec s \<and>
      (so_is_simple_slice s' \<longleftrightarrow> so_is_simple_slice s \<and> (\<forall>k<n. xs ! k = - 1 \<or> ss ! k = 1)) \<and>
      (so_is_identity s' \<longleftrightarrow> so_is_identity s \<and> (\<forall>k<n. axis_identity kb (xs ! k) (outs ! k) (ss ! k) (bm k) (em k))) \<and>
      (so_slice_dim0 s' \<longleftrightarrow> so_slice_dim0 s \<and> (\<forall>k<n. axis_dim0 kb k (xs ! k) (outs ! k) (ss ! k) (bm k) (em k))))"

lemma update_drop: "k < length v \<Longrightarrow> (as @ drop k v)[length as := x] = as @ x # drop (Suc k) v"
  by (simp add: list_update_append Cons_nth_drop_Suc[symmetric])

lemma after_axes_snoc:
  assumes a: "after_axes d xs s outs s1" and k: "k = length outs" "k < length (so_begin s)" "k < length (so_end s)"
    and p: "onProcessing (AddDim True (snd (snd out))) (after_axis d xs k out s1) = (Inr (), s2)"
    and z: "packed True (so_processing_shape s2) (sizes_out (outs @ [out]))"
  shows "after_axes d xs s (outs @ [out]) s2"
proof -
  obtain t where t: "s2 = (after_axis d xs k out s1)\<lparr>so_processing_shape := t\<rparr>"
    using p by (auto simp: onProcessing_def split: prod.splits)
  have all: "(\<forall>j<length (outs @ [out]). P j ((outs @ [out]) ! j)) \<longleftrightarrow> (\<forall>j<length outs. P j (outs ! j)) \<and> P (length outs) out" for P
    by (auto simp: less_Suc_eq nth_append)
  note A = a[unfolded after_axes_def Let_def]
  have same: "so_strides s1 = so_strides s" "so_strides s2 = so_strides s" "so_final_shape s2 = so_final_shape s"
      "so_shape_spec s2 = so_shape_spec s"
    using A by (simp_all add: t after_axis_def Let_def)
  have b: "so_begin s2 = map fst (outs @ [out]) @ drop (Suc k) (so_begin s)"
    using a k update_drop[of k "so_begin s" "map fst outs"] by (simp add: t after_axis_def after_axes_def Let_def)
  have e: "so_end s2 = map (\<lambda>out. fst (snd out)) (outs @ [out]) @ drop (Suc k) (so_end s)"
    using a k update_drop[of k "so_end s" "map (\<lambda>out. fst (snd out)) outs"] by (simp add: t after_axis_def after_axes_def Let_def)
  have i1: "so_is_simple_slice s2 \<longleftrightarrow> so_is_simple_slice s1 \<and> (xs ! k = - 1 \<or> so_strides s ! k = 1)"
      "so_is_identity s2 \<longleftrightarrow> so_is_identity s1 \<and> axis_identity (known_bounds d) (xs ! k) out (so_strides s ! k)
        (bit (ds_begin_mask d) k) (bit (ds_end_mask d) k)"
      "so_slice_dim0 s2 \<longleftrightarrow> so_slice_dim0 s1 \<and> axis_dim0 (known_bounds d) k (xs ! k) out (so_strides s ! k)
        (bit (ds_begin_mask d) k) (bit (ds_end_mask d) k)"
    unfolding t same(1)[symmetric] by (simp_all add: after_axis_def Let_def)
  have f1: "so_is_simple_slice s2 \<longleftrightarrow> so_is_simple_slice s \<and> (\<forall>j<length (outs @ [out]). xs ! j = - 1 \<or> so_strides s ! j = 1)"
    unfolding i1(1) all[of "\<lambda>j _. xs ! j = - 1 \<or> so_strides s ! j = 1"] k(1) using A by blast
  have f2: "so_is_identity s2 \<longleftrightarrow> so_is_identity s \<and> (\<forall>j<length (outs @ [out]). axis_identity (known_bounds d) (xs ! j) ((outs @ [out]) ! j)
        (so_strides s ! j) (bit (ds_begin_mask d) j) (bit (ds_end_mask d) j))"
    unfolding i1(2) k(1)
      all[of "\<lambda>j out. axis_identity (known_bounds d) (xs ! j) out (so_strides s ! j) (bit (ds_begin_mask d) j) (bit (ds_end_mask d) j)"]
    using A by blast
  have f3: "so_slice_dim0 s2 \<longleftrightarrow> so_slice_dim0 s \<and> (\<forall>j<length (outs @ [out]). axis_dim0 (known_bounds d) j (xs ! j) ((outs @ [out]) ! j)
        (so_strides s ! j) (bit (ds_begin_mask d) j) (bit (ds_end_mask d) j))"
    unfolding i1(3) k(1)
      all[of "\<lambda>j out. axis_dim0 (known_bounds d) j (xs ! j) out (so_strides s ! j) (bit (ds_begin_mask d) j) (bit (ds_end_mask d) j)"]
    using A by blast
  have l: "length (outs @ [out]) = Suc k" using k(1) by simp
  show ?thesis unfolding after_axes_def Let_def using b e f1 f2 f3 z same(2-4) unfolding l by blast
qed

section \<open>Sizes\<close>

lemma sliceSize_minus: "st \<noteq> 0 \<Longrightarrow> sliceSize (- n) (- st) = sliceSize n st"
  by (auto simp: sliceSize_def cdiv_def cmod_def sgn_minus)

lemma ceiling_iff:
  assumes "0 < (st :: int)" "0 < n" "0 \<le> k"
  shows "k < n div st + (if n mod st \<noteq> 0 then 1 else 0) \<longleftrightarrow> k * st < n"
proof
  assume l: "k < n div st + (if n mod st \<noteq> 0 then 1 else 0)"
  have n: "n = n div st * st + n mod st" by simp
  show "k * st < n"
  proof (cases "k < n div st")
    case True
    then have "(k + 1) * st \<le> n div st * st" using assms(1) by (intro mult_right_mono) auto
    then have "k * st + st \<le> n div st * st" by (simp add: distrib_right)
    then show ?thesis using n assms(1) pos_mod_sign[OF assms(1), of n] by linarith
  next
    case False
    then have "k = n div st" "n mod st \<noteq> 0" using l by (auto split: if_splits)
    moreover from this have "k * st = n div st * st" by simp
    moreover have "0 \<le> n mod st" using assms(1) by simp
    ultimately show ?thesis using n by linarith
  qed
next
  assume "k * st < n"
  then have a: "k * st \<le> n - 1" by simp
  show "k < n div st + (if n mod st \<noteq> 0 then 1 else 0)"
  proof (rule ccontr)
    assume b: "\<not> ?thesis"
    then have "n div st \<le> k" by (auto split: if_splits)
    show False
    proof (cases "n mod st = 0")
      case True
      then have "n = n div st * st" using div_mult_mod_eq[of n st] by linarith
      also have "\<dots> \<le> k * st" using \<open>n div st \<le> k\<close> assms(1) by (intro mult_right_mono) auto
      finally show False using a by simp
    next
      case False
      then have "n div st + 1 \<le> k" using b by simp
      then have "(n div st + 1) * st \<le> k * st" using assms(1) by (intro mult_right_mono) auto
      moreover have "n < (n div st + 1) * st" using pos_mod_bound[OF assms(1), of n] div_mult_mod_eq[of n st] unfolding distrib_right by linarith
      ultimately show False using a by linarith
    qed
  qed
qed

lemma sliceSize_iff:
  assumes "st \<noteq> 0" "0 \<le> k"
  shows "k < sliceSize n st \<longleftrightarrow> (if 0 < st then k * st < n else n < k * st)"
proof -
  have pos: "k < sliceSize n st \<longleftrightarrow> k * st < n" if "0 < st" for n st
  proof (cases "0 < n")
    case True
    then show ?thesis using ceiling_iff[OF that True assms(2)] that by (simp add: sliceSize_def cdiv_nonneg cmod_nonneg)
  next
    case False
    then have "\<not> k * st < n" using assms(2) that mult_nonneg_nonneg[of k st] by linarith
    then show ?thesis using False that assms(2) by (auto simp: sliceSize_def)
  qed
  show ?thesis
  proof (cases "0 < st")
    case False
    then have "k < sliceSize n st \<longleftrightarrow> k * - st < - n" using pos[of "- st" "- n"] assms(1) sliceSize_minus[of st n] by simp
    then show ?thesis using False by simp
  qed (use pos in simp)
qed

lemma sliceSize_nonneg: "st \<noteq> 0 \<Longrightarrow> 0 \<le> sliceSize n st"
proof -
  assume st: "st \<noteq> 0"
  have "0 \<le> sliceSize n st" if "0 < st" for n st
    using that by (auto simp: sliceSize_def cdiv_nonneg cmod_nonneg pos_imp_zdiv_nonneg_iff)
  from this[of st n] this[of "- st" "- n"] show ?thesis using st sliceSize_minus[of st n] by (cases "0 < st") auto
qed

lemma sliceSize_bound:
  assumes "st \<noteq> 0" "0 < st \<longrightarrow> n \<le> m" "st < 0 \<longrightarrow> - n \<le> m" "0 \<le> m"
  shows "sliceSize n st \<le> m"
proof (rule ccontr)
  assume "\<not> ?thesis"
  then have "m < sliceSize n st" by simp
  then have a: "if 0 < st then m * st < n else n < m * st" using sliceSize_iff[OF assms(1,4)] by simp
  show False
  proof (cases "0 < st")
    case True
    then have "m * 1 \<le> m * st" using assms(4) by (intro mult_left_mono) auto
    then show False using a True assms(2) by simp
  next
    case False
    then have "m * 1 \<le> m * - st" using assms(1,4) by (intro mult_left_mono) auto
    then show False using a False assms(1,3) by simp
  qed
qed

text \<open>The size is unknown, or at most that of the dimension; that of an index is one.\<close>

lemma axis_out_size:
  assumes "axis_out known dim b e st sh bm em = Inr (b', e', z)" and dim: "- 1 \<le> dim" "dim \<le> int64_max"
  shows "- 1 \<le> z" "z \<le> int64_max" "sh \<Longrightarrow> z = 1" "0 \<le> dim \<Longrightarrow> known \<Longrightarrow> 0 \<le> z \<and> z \<le> dim"
    "0 \<le> dim \<Longrightarrow> \<not> sh \<Longrightarrow> z \<le> dim"
proof -
  have st: "st \<noteq> 0" using assms(1) by (auto simp: axis_out_def split: if_splits)
  have full: "0 \<le> sliceSize (if st < 0 then - dim else dim) st \<and> sliceSize (if st < 0 then - dim else dim) st \<le> dim" if "0 \<le> dim"
    using sliceSize_nonneg[OF st] sliceSize_bound[OF st, of "if st < 0 then - dim else dim" dim] that by auto
  have part: "0 \<le> sliceSize (canonical st dim em e 1 - canonical st dim bm b 0) st \<and>
      sliceSize (canonical st dim em e 1 - canonical st dim bm b 0) st \<le> dim" if d: "0 \<le> dim"
  proof -
    have "canonical st dim em e 1 - canonical st dim bm b 0 \<le> dim" "canonical st dim bm b 0 - canonical st dim em e 1 \<le> dim"
      using canonical_range[OF d dim(2) st, of 0 bm b] canonical_range[OF d dim(2) st, of 1 em e] by (auto split: if_splits)
    then show ?thesis using sliceSize_nonneg[OF st] sliceSize_bound[OF st] d by simp
  qed
  consider "dim = - 1" "z = (if sh then 1 else - 1)" | "0 \<le> dim" "sh" "z = 1" "known \<Longrightarrow> 1 \<le> dim" | "0 \<le> dim" "\<not> sh" "\<not> known" "z = - 1"
    | "0 \<le> dim" "\<not> sh" "0 \<le> z" "z \<le> dim"
    using assms(1) dim(1) full part by (auto simp: axis_out_def Let_def split: if_splits)
  then show "- 1 \<le> z" "z \<le> int64_max" "sh \<Longrightarrow> z = 1" "0 \<le> dim \<Longrightarrow> known \<Longrightarrow> 0 \<le> z \<and> z \<le> dim"
    "0 \<le> dim \<Longrightarrow> \<not> sh \<Longrightarrow> z \<le> dim"
    using dim by (cases; auto)+
qed

section \<open>All dimensions\<close>

definition ready_for :: "dense_spec \<Rightarrow> slice_out \<Rightarrow> tensor_shape \<Rightarrow> int list \<Rightarrow> bool" where
  "ready_for d s t xs \<longleftrightarrow> packed True t xs \<and> length xs \<le> 32 \<and> length (so_begin s) = length xs \<and> length (so_end s) = length xs \<and>
     length (so_strides s) = length xs \<and> (known_bounds d \<longrightarrow> list_all in_int64 (so_begin s) \<and> list_all in_int64 (so_end s)) \<and>
     packed True (so_processing_shape s) []"

lemma packed_range: "packed True t xs \<Longrightarrow> k < length xs \<Longrightarrow> - 1 \<le> xs ! k \<and> xs ! k \<le> int64_max"
  using stores_known(4)[of True t xs] by (auto simp: packed_def list_all_iff dim_ok_def)

abbreviation axes_of :: "dense_spec \<Rightarrow> int list \<Rightarrow> slice_out \<Rightarrow> nat \<Rightarrow> (int \<times> int \<times> int) res" where
  "axes_of d xs s \<equiv> axis_of d xs (so_begin s) (so_end s) (so_strides s)"

lemma axes_loop:
  assumes s: "ready_for d s t xs"
    and room: "\<And>j outs. j \<le> length xs \<Longrightarrow> mapR (axes_of d xs s) [0..<j] = Inr outs \<Longrightarrow> room_for (sizes_out outs)"
  shows "j \<le> length xs \<Longrightarrow> case mapR (axes_of d xs s) [0..<j] of
      Inl err \<Rightarrow> \<exists>s'. iterOp (sliceDim d t) (map int [0..<j]) s = (Inl err, s')
    | Inr outs \<Rightarrow> \<exists>s'. iterOp (sliceDim d t) (map int [0..<j]) s = (Inr (), s') \<and> after_axes d xs s outs s'"
proof (induction j)
  case 0
  then show ?case using s by (simp add: op_simps after_axes_def sizes_out_def ready_for_def)
next
  case (Suc j)
  have j: "j < length xs" using Suc.prems by simp
  have i: "iterOp (sliceDim d t) (map int [0..<Suc j]) s = andThen (iterOp (sliceDim d t) (map int [0..<j])) (\<lambda>_. sliceDim d t (int j)) s"
    using iterOp_snoc[of "sliceDim d t" "map int [0..<j]" "int j"] by simp
  have m: "mapR (axes_of d xs s) [0..<Suc j] =
      bindR (mapR (axes_of d xs s) [0..<j]) (\<lambda>ys. bindR (axes_of d xs s j) (\<lambda>y. Inr (ys @ [y])))"
    using mapR_snoc[of _ "[0..<j]" j] by simp
  show ?case
  proof (cases "mapR (axes_of d xs s) [0..<j]")
    case (Inl err)
    then show ?thesis using Suc.IH j unfolding i m by (auto simp: andThen_def)
  next
    case outs: (Inr outs)
    have l: "length outs = j" using mapR_length[OF outs] by simp
    obtain s1 where s1: "iterOp (sliceDim d t) (map int [0..<j]) s = (Inr (), s1)" "after_axes d xs s outs s1"
      using Suc.IH j outs by auto
    have at: "so_begin s1 ! j = so_begin s ! j" "so_end s1 ! j = so_end s ! j" "so_strides s1 = so_strides s"
        "length (so_begin s1) = length xs" "length (so_end s1) = length xs"
      using s1(2) l j s by (auto simp: after_axes_def ready_for_def Let_def nth_append)
    have b: "before_axis d s1 t xs j"
      using s j at by (auto simp: before_axis_def ready_for_def list_all_length)
    have same: "axes_of d xs s1 j = axes_of d xs s j" by (simp add: axis_of_def at)
    show ?thesis
    proof (cases "axes_of d xs s j")
      case (Inl err)
      then show ?thesis using sliceDim_run[OF b] s1(1) outs unfolding i m same by (auto simp: andThen_def)
    next
      case (Inr out)
      have "mapR (axes_of d xs s) [0..<Suc j] = Inr (outs @ [out])" unfolding m using outs Inr by simp
      then have r: "room_for (sizes_out outs @ [snd (snd out)])" using room[of "Suc j"] Suc.prems by (simp add: sizes_out_def del: upt_Suc)
      have run: "sliceDim d t (int j) s1 = onProcessing (AddDim True (snd (snd out))) (after_axis d xs j out s1)"
        using sliceDim_run[OF b] Inr unfolding same by simp
      have xj: "- 1 \<le> xs ! j" "xs ! j \<le> int64_max" using packed_range[OF _ j, of t] s by (simp_all add: ready_for_def)
      obtain b1 e1 z1 where o: "out = (b1, e1, z1)" by (cases out)
      have "- 1 \<le> snd (snd out) \<and> snd (snd out) \<le> int64_max"
        using axis_out_size(1,2)[OF Inr[unfolded axis_of_def o] xj] o by simp
      then have z: "list_all (dim_ok True) [snd (snd out)]" by (simp add: dim_ok_def)
      have p1: "packed True (so_processing_shape (after_axis d xs j out s1)) (sizes_out outs)"
        using s1(2) by (simp add: after_axis_def after_axes_def Let_def)
      obtain t' where t': "iterOp (AddDim True) [snd (snd out)] (so_processing_shape (after_axis d xs j out s1)) = (Inr (), t')"
          "packed True t' (sizes_out outs @ [snd (snd out)])"
        using AddDims_check[OF p1 z r] by auto
      then have "AddDim True (snd (snd out)) (so_processing_shape (after_axis d xs j out s1)) = (Inr (), t')"
        by (simp add: andThen_def op_simps split: prod.splits sum.splits)
      then have fin: "onProcessing (AddDim True (snd (snd out))) (after_axis d xs j out s1) =
          (Inr (), (after_axis d xs j out s1)\<lparr>so_processing_shape := t'\<rparr>)" by (simp add: onProcessing_def)
      have "after_axes d xs s (outs @ [out]) ((after_axis d xs j out s1)\<lparr>so_processing_shape := t'\<rparr>)"
        using after_axes_snoc[OF s1(2) l[symmetric] _ _ fin] t'(2) j s by (simp add: sizes_out_def ready_for_def)
      then show ?thesis unfolding i m using outs Inr s1(1) run fin by (auto simp: andThen_def)
    qed
  qed
qed

end
