(* ===== verification/SliceShapes.thy ===== *)
theory SliceShapes
  imports SliceRun
begin

text \<open>
  The shapes of a strided slice: the sizes of the result are those of the slice without the dimensions
  that are indexed, with a one for every new axis; and the validation as a whole.
\<close>

section \<open>The final shape\<close>

text \<open>From the sizes of the slice; the dimension of the slice that each size comes from; and the
  entry of the specification.\<close>

fun out_sizes :: "int list \<Rightarrow> entry list \<Rightarrow> int list" where
  "out_sizes zs [] = []"
| "out_sizes zs (NewAxis # es) = 1 # out_sizes zs es"
| "out_sizes zs (Single _ # es) = out_sizes (tl zs) es"
| "out_sizes zs (Whole _ # es) = hd zs # out_sizes (tl zs) es"
| "out_sizes zs (Slice _ # es) = hd zs # out_sizes (tl zs) es"

fun out_dims :: "nat \<Rightarrow> entry list \<Rightarrow> int list" where
  "out_dims k [] = []"
| "out_dims k (NewAxis # es) = - 1 # out_dims k es"
| "out_dims k (Single _ # es) = out_dims (Suc k) es"
| "out_dims k (_ # es) = int k # out_dims (Suc k) es"

definition out_sources :: "entry list \<Rightarrow> int list" where
  "out_sources es = map output_source (filter (\<lambda>e. \<not> axis_shrunk e) es)"

definition addMaps :: "int list \<Rightarrow> int list \<Rightarrow> slice_out \<Rightarrow> slice_out" where
  "addMaps srcs dims s = s\<lparr>so_shape_spec := map_option (\<lambda>spec.
     spec\<lparr>output_to_sparse_mapping := output_to_sparse_mapping spec @ srcs,
       output_to_processing_mapping := output_to_processing_mapping spec @ dims\<rparr>) (so_shape_spec s)\<rparr>"

lemma addMaps_simps:
  "addMaps [] [] s = s" "addMaps b d (addMaps a c s) = addMaps (a @ b) (c @ d) s"
  "so_processing_shape (addMaps a c s) = so_processing_shape s" "so_final_shape (addMaps a c s) = so_final_shape s"
  "so_begin (addMaps a c s) = so_begin s" "so_end (addMaps a c s) = so_end s" "so_strides (addMaps a c s) = so_strides s"
  "so_is_identity (addMaps a c s) = so_is_identity s" "so_is_simple_slice (addMaps a c s) = so_is_simple_slice s"
  "so_slice_dim0 (addMaps a c s) = so_slice_dim0 s"
  "addMaps a c (s\<lparr>so_final_shape := t\<rparr>) = (addMaps a c s)\<lparr>so_final_shape := t\<rparr>"
  by (simp_all add: addMaps_def option.map_comp o_def option.map_id0[unfolded id_def])

lemma mapOutput_run: "mapOutput i g s = (Inr (), addMaps [i] [g] s)"
  by (simp add: mapOutput_def op_simps addMaps_def)

lemma onFinal_AddDim:
  assumes p: "packed True (so_final_shape s) fs" and z: "dim_ok True z" and r: "room_for (fs @ z # zs)"
  obtains t where "onFinal (AddDim True z) s = (Inr (), s\<lparr>so_final_shape := t\<rparr>)" "packed True t (fs @ [z])"
proof -
  have "room_for (fs @ [z])" using room_for_take[of "fs @ [z]" zs] r by simp
  then obtain t where "iterOp (AddDim True) [z] (so_final_shape s) = (Inr (), t)" "packed True t (fs @ [z])"
    using AddDims_check[OF p, of "[z]"] z by auto
  moreover from this(1) have "AddDim True z (so_final_shape s) = (Inr (), t)"
    by (simp add: andThen_def op_simps split: prod.splits sum.splits)
  ultimately show ?thesis using that by (simp add: onFinal_def)
qed

lemma gather_keep:
  assumes p: "packed True (so_processing_shape s) zs" and k: "k < length zs"
    and f: "packed True (so_final_shape s) fs" and r: "room_for (fs @ zs ! k # rest)"
  obtains t where "gatherDim (int k, i) s = (Inr (), addMaps [i] [int k] (s\<lparr>so_final_shape := t\<rparr>))" "packed True t (fs @ [zs ! k])"
proof -
  have "dim_ok True (zs ! k)" using packed_range[OF p k] by (simp add: dim_ok_def)
  then obtain t where t: "onFinal (AddDim True (zs ! k)) s = (Inr (), s\<lparr>so_final_shape := t\<rparr>)" "packed True t (fs @ [zs ! k])"
    using onFinal_AddDim[OF f _ r] by blast
  have "dim_size True (so_processing_shape s) (int k) = Inr (zs ! k)" using packed_dim_size[OF p, of "int k"] k by simp
  then have "gatherDim (int k, i) s = (Inr (), addMaps [i] [int k] (s\<lparr>so_final_shape := t\<rparr>))"
    using t(1) by (simp add: gatherDim_def op_simps andThen_def mapOutput_run)
  then show ?thesis using t(2) that by blast
qed

lemma gather_new:
  assumes f: "packed True (so_final_shape s) fs" and r: "room_for (fs @ 1 # rest)"
  obtains t where "gatherDim (kNewAxis, i) s = (Inr (), addMaps [- 1] [- 1] (s\<lparr>so_final_shape := t\<rparr>))" "packed True t (fs @ [1])"
proof -
  obtain t where "onFinal (AddDim True 1) s = (Inr (), s\<lparr>so_final_shape := t\<rparr>)" "packed True t (fs @ [1])"
    using onFinal_AddDim[OF f _ r] by (auto simp: dim_ok_def)
  then show ?thesis using that by (simp add: gatherDim_def op_simps andThen_def mapOutput_run)
qed

lemma gather_skip: "gatherDim (kShrinkAxis, i) s = (Inr (), s)"
  by (simp add: gatherDim_def op_simps)

lemma gather_loop:
  "packed True (so_processing_shape s) zs \<Longrightarrow> packed True (so_final_shape s) fs \<Longrightarrow> k + length (axes es) \<le> length zs \<Longrightarrow>
   room_for (fs @ out_sizes (drop k zs) es) \<Longrightarrow>
   \<exists>t. iterOp gatherDim (zip (gathers (int k) es) (map output_source es)) s =
       (Inr (), (addMaps (out_sources es) (out_dims k es) s)\<lparr>so_final_shape := t\<rparr>) \<and>
     packed True t (fs @ out_sizes (drop k zs) es)"
proof (induction es arbitrary: k fs s)
  case Nil
  then show ?case by (intro exI[of _ "so_final_shape s"]) (simp add: op_simps out_sources_def addMaps_simps)
next
  case (Cons e es)
  have dr: "tl (drop k zs) = drop (Suc k) zs" by (simp add: drop_Suc tl_drop)
  have keep: ?case if e: "gathers (int k) (e # es) = int k # gathers (int (Suc k)) es"
      "out_sizes (drop k zs) (e # es) = zs ! k # out_sizes (drop (Suc k) zs) es" "out_dims k (e # es) = int k # out_dims (Suc k) es"
      "\<not> axis_shrunk e" "e \<noteq> NewAxis"
  proof -
    have "room_for (fs @ zs ! k # out_sizes (drop (Suc k) zs) es)" using Cons.prems(4) e(2) by simp
    moreover have kz: "k < length zs" using Cons.prems(3) e(5) by simp
    ultimately obtain t where t: "gatherDim (int k, output_source e) s =
        (Inr (), addMaps [output_source e] [int k] (s\<lparr>so_final_shape := t\<rparr>))" "packed True t (fs @ [zs ! k])"
      using gather_keep[OF Cons.prems(1) _ Cons.prems(2)] by blast
    from Cons.IH[of "addMaps [output_source e] [int k] (s\<lparr>so_final_shape := t\<rparr>)" "fs @ [zs ! k]" "Suc k"] Cons.prems t(2) e
    show ?thesis by (auto simp: addMaps_simps andThen_Inr[of "gatherDim _", OF t(1)] out_sources_def simp del: gathers.simps out_dims.simps out_sizes.simps)
  qed
  show ?case
  proof (cases e)
    case (Whole i)
    then show ?thesis using keep Cons.prems(3) by (simp add: axis_shrunk_def hd_drop_conv_nth dr add.commute)
  next
    case NewAxis
    have "room_for (fs @ 1 # out_sizes (drop k zs) es)" using Cons.prems(4) NewAxis by simp
    then obtain t where t: "gatherDim (kNewAxis, output_source e) s = (Inr (), addMaps [- 1] [- 1] (s\<lparr>so_final_shape := t\<rparr>))"
        "packed True t (fs @ [1])"
      using gather_new[OF Cons.prems(2)] by blast
    from Cons.IH[of "addMaps [- 1] [- 1] (s\<lparr>so_final_shape := t\<rparr>)" "fs @ [1]" k] Cons.prems t NewAxis
    show ?thesis by (auto simp: addMaps_simps andThen_def out_sources_def output_source_def axis_shrunk_def)
  next
    case (Single i)
    from Cons.IH[of s fs "Suc k"] Cons.prems Single
    show ?thesis by (auto simp: andThen_def gather_skip out_sources_def axis_shrunk_def dr add.commute)
  next
    case (Slice i)
    then show ?thesis using keep Cons.prems(3) by (simp add: axis_shrunk_def hd_drop_conv_nth dr add.commute)
  qed
qed

section \<open>Room for the final shape\<close>

text \<open>Every dimension that is dropped has size one.\<close>

fun drops_ones :: "int list \<Rightarrow> entry list \<Rightarrow> bool" where
  "drops_ones zs [] \<longleftrightarrow> True"
| "drops_ones zs (NewAxis # es) \<longleftrightarrow> drops_ones zs es"
| "drops_ones zs (Single _ # es) \<longleftrightarrow> zs \<noteq> [] \<and> hd zs = 1 \<and> drops_ones (tl zs) es"
| "drops_ones zs (Whole _ # es) \<longleftrightarrow> zs \<noteq> [] \<and> drops_ones (tl zs) es"
| "drops_ones zs (Slice _ # es) \<longleftrightarrow> zs \<noteq> [] \<and> drops_ones (tl zs) es"

lemma prefixes_out:
  "drops_ones zs es \<Longrightarrow> prefixes_fit n (takeWhile (\<lambda>x. 0 \<le> x) zs) \<Longrightarrow> n \<le> int64_max \<Longrightarrow>
   prefixes_fit n (takeWhile (\<lambda>x. 0 \<le> x) (out_sizes zs es))"
proof (induction zs es arbitrary: n rule: drops_ones.induct)
  case (3 zs i es)
  then show ?case by (cases zs) auto
next
  case (4 zs i es)
  then show ?case by (cases zs) auto
next
  case (5 zs i es)
  then show ?case by (cases zs) auto
qed auto

lemma length_out_sizes: "length (out_sizes zs es) \<le> length es"
  by (induction zs es rule: out_sizes.induct) auto

lemma room_out: "drops_ones zs es \<Longrightarrow> room_for zs \<Longrightarrow> length es \<le> 254 \<Longrightarrow> room_for (out_sizes zs es)"
  using prefixes_out[of zs es 1] length_out_sizes[of zs es] by (auto simp: room_for_def fits_count_def)

lemma drops_ones_iff:
  "length zs = length (axes es) \<Longrightarrow> (\<forall>k<length zs. axis_shrunk (axes es ! k) \<longrightarrow> zs ! k = 1) \<Longrightarrow> drops_ones zs es"
proof (induction es arbitrary: zs)
  case (Cons e es)
  show ?case
  proof (cases "e = NewAxis")
    case False
    then obtain z zs' where z: "zs = z # zs'" using Cons.prems(1) by (cases zs) auto
    have "axis_shrunk (axes es ! k) \<longrightarrow> zs' ! k = 1" if "k < length zs'" for k
      using Cons.prems(2)[rule_format, of "Suc k"] that z False by simp
    moreover have "axis_shrunk e \<longrightarrow> z = 1" using Cons.prems(2)[rule_format, of 0] z False by simp
    ultimately show ?thesis using Cons.IH[of zs'] Cons.prems(1) z False by (cases e) (auto simp: axis_shrunk_def)
  qed (use Cons in simp)
qed simp

section \<open>The sparse specification\<close>

definition new_axes_after :: "mask \<Rightarrow> mask \<Rightarrow> int list \<Rightarrow> nat" where
  "new_axes_after em nm is = length (filter (\<lambda>i. bit nm (nat i)) (tl (dropWhile (\<lambda>i. \<not> bit em (nat i)) is)))"

lemma countNewAxes_seen:
  "(\<forall>i\<in>set is. 0 \<le> i \<and> i < 32) \<Longrightarrow>
   countNewAxes em nm is True n = Inr (True, n + int (length (filter (\<lambda>i. bit nm (nat i)) is)))"
  by (induction "is" arbitrary: n) (auto simp: testBit_eq)

lemma countNewAxes_run:
  "(\<forall>i\<in>set is. 0 \<le> i \<and> i < 32) \<Longrightarrow>
   countNewAxes em nm is False n = Inr (list_ex (\<lambda>i. bit em (nat i)) is, n + int (new_axes_after em nm is))"
  by (induction "is" arbitrary: n) (auto simp: testBit_eq new_axes_after_def countNewAxes_seen)

text \<open>The specification of \<open>n\<close> entries; without an ellipsis one is added at the end.\<close>

definition sparse_of ::
    "tensor option \<Rightarrow> tensor option \<Rightarrow> tensor \<Rightarrow> nat \<Rightarrow> mask \<Rightarrow> mask \<Rightarrow> mask \<Rightarrow> mask \<Rightarrow> mask \<Rightarrow> sparse_spec" where
  "sparse_of bt et st n bm em elm nm sm =
    (let is = [0..int n - 1]; seen = list_ex (\<lambda>i. bit elm (nat i)) is
     in \<lparr>sp_dims = if seen then int n else int n + 1, num_add_axis_after_ellipsis = int (new_axes_after elm nm is),
         sp_begin = bt, sp_end = et, sp_strides = st, sp_begin_mask = bm, sp_end_mask = em,
         sp_ellipsis_mask = if seen then elm else or elm (push_bit n 1), sp_new_axis_mask = nm, sp_shrink_axis_mask = sm\<rparr>)"

lemma sparseSpec_run:
  assumes "NumElementsTensor st = int n" "n < 32"
  shows "sparseSpec bt et st bm em elm nm sm = Inr (sparse_of bt et st n bm em elm nm sm)"
proof -
  have "\<forall>i\<in>set [0..int n - 1]. 0 \<le> i \<and> i < 32" using assms(2) by auto
  from countNewAxes_run[OF this, of elm nm 0] show ?thesis
    using assms by (simp add: sparseSpec_def sparse_of_def Let_def shiftBit_eq)
qed

definition one_bit_set :: "mask \<Rightarrow> bool" where
  "one_bit_set m \<longleftrightarrow> (\<forall>i<32. \<forall>j<32. bit m i \<longrightarrow> bit m j \<longrightarrow> i = j)"

lemma one_bit_setD: "one_bit_set m \<Longrightarrow> bit m i \<Longrightarrow> bit m j \<Longrightarrow> i = j"
  using mask_bit_bound by (auto simp: one_bit_set_def)

lemma one_bit_push: "one_bit_set (push_bit k 1)" "one_bit_set 0"
  by (auto simp: one_bit_set_def bit_exp_iff)

lemma filter_one:
  assumes "distinct is" "i \<in> set is" "\<And>j. j \<in> set is \<Longrightarrow> P j \<longleftrightarrow> j = i"
  shows "length (filter P is) = 1"
proof -
  have "filter P is = filter (\<lambda>j. j = i) is" using assms(3) by (intro filter_cong) auto
  also have "\<dots> = [i]" using assms(1,2) by (induction "is") (auto simp: filter_empty_conv)
  finally show ?thesis by simp
qed

lemma filter_after:
  assumes "length (filter P is) = 1"
  shows "filter (\<lambda>i. \<not> P i \<and> N i) (tl (dropWhile (\<lambda>i. \<not> P i) is)) = filter N (tl (dropWhile (\<lambda>i. \<not> P i) is))"
proof -
  have "\<exists>x\<in>set is. P x" using assms by (auto simp: filter_empty_conv length_Suc_conv filter_eq_Cons_iff)
  then obtain xs y ys where s: "is = xs @ y # ys" "P y" "\<forall>x\<in>set xs. \<not> P x" using split_list_first_prop by metis
  then have "filter P ys = []" using assms by (simp add: filter_False)
  then show ?thesis using s by (auto simp: dropWhile_append2 filter_empty_conv intro!: filter_cong)
qed

lemma one_ellipsisI:
  assumes "\<And>i. isEllipsis sp i \<longleftrightarrow> P i" "\<And>i. bit (sp_new_axis_mask sp) (nat i) \<longleftrightarrow> N i"
    and "length (filter P all) = 1" "num_add_axis_after_ellipsis sp = int (length (filter N (tl (dropWhile (\<lambda>i. \<not> P i) all))))"
  shows "one_ellipsis sp all"
proof -
  have f: "isEllipsis sp = P" "isNewAxis sp = (\<lambda>i. \<not> P i \<and> N i)" using assms(1,2) by (auto simp: isNewAxis_def fun_eq_iff)
  show ?thesis unfolding one_ellipsis_def f filter_after[OF assms(3)] using assms(3,4) by blast
qed

lemma one_ellipsis_sparse_of:
  assumes o: "one_bit_set elm" and n: "n < 32" and sp: "sp = sparse_of bt et st n bm em elm nm sm"
  shows "one_ellipsis sp [0..sp_dims sp - 1]"
proof (cases "list_ex (\<lambda>i. bit elm (nat i)) [0..int n - 1]")
  case True
  have d: "sp_dims sp = int n" "sp_ellipsis_mask sp = elm" "sp_new_axis_mask sp = nm"
      "num_add_axis_after_ellipsis sp = int (new_axes_after elm nm [0..int n - 1])"
    using True by (simp_all add: sp sparse_of_def Let_def)
  obtain i where i: "i \<in> set [0..int n - 1]" "bit elm (nat i)" using True by (auto simp: list_ex_iff)
  have same: "bit elm (nat j) \<longleftrightarrow> j = i" if "j \<in> set [0..int n - 1]" for j
    using one_bit_setD[OF o i(2), of "nat j"] i that by auto
  have 1: "length (filter (\<lambda>j. bit elm (nat j)) [0..int n - 1]) = 1" by (rule filter_one[OF distinct_upto i(1) same])
  show ?thesis unfolding d(1)
    by (rule one_ellipsisI[where P = "\<lambda>i. bit elm (nat i)" and N = "\<lambda>i. bit nm (nat i)"])
      (use 1 in \<open>simp_all only: isEllipsis_def d new_axes_after_def\<close>)
next
  case False
  have d: "sp_dims sp = int n + 1" "sp_ellipsis_mask sp = or elm (push_bit n 1)" "sp_new_axis_mask sp = nm"
      "num_add_axis_after_ellipsis sp = int (new_axes_after elm nm [0..int n - 1])"
    using False by (simp_all add: sp sparse_of_def Let_def)
  have no: "\<not> bit elm (nat i)" if "i \<in> set [0..int n - 1]" for i using False that by (auto simp: list_ex_iff)
  define P where "P = (\<lambda>i. bit elm (nat i) \<or> nat i = n)"
  have none: "\<forall>i\<in>set [0..int n - 1]. \<not> P i" using no by (auto simp: P_def)
  have u: "[0..sp_dims sp - 1] = [0..int n - 1] @ [int n]" by (simp add: d(1) upto_rec2)
  have "dropWhile (\<lambda>i. \<not> bit elm (nat i)) [0..int n - 1] = []" using no by (simp only: dropWhile_eq_Nil_conv) blast
  then have z: "new_axes_after elm nm [0..int n - 1] = 0" by (simp only: new_axes_after_def) simp
  have e: "filter P [0..int n - 1] = []" using none by (simp only: filter_empty_conv) 
  have n: "P (int n)" by (simp add: P_def)
  have w: "dropWhile (\<lambda>i. \<not> P i) ([0..int n - 1] @ [int n]) = [int n]" using none n by (subst dropWhile_append2) auto
  show ?thesis unfolding u
    by (rule one_ellipsisI[where P = P and N = "\<lambda>i. bit nm (nat i)"])
      (simp_all only: isEllipsis_def d P_def bit_or_shift[OF assms(2)] filter_append e[unfolded P_def] w[unfolded P_def] z, simp_all)
qed

end
