(* ===== verification/SliceValidate.thy ===== *)
theory SliceValidate
  imports SliceShapes
begin

text \<open>
  \<open>ValidateStridedSliceOp\<close> as a whole, for the arguments that the operation has: vectors of fewer than
  32 entries of an index type, and a mask with at most one ellipsis.
\<close>

section \<open>The arguments\<close>

definition slice_vector :: "data_type \<Rightarrow> int list \<Rightarrow> tensor" where
  "slice_vector T v = \<lparr>t_dtype = T, t_dims = [int (length v)], t_vals = v\<rparr>"

definition index_vector :: "int list \<Rightarrow> int list option \<Rightarrow> bool" where
  "index_vector sf vf \<longleftrightarrow> (case vf of None \<Rightarrow> True | Some v \<Rightarrow> length v = length sf \<and> list_all in_int64 v)"

definition slice_args :: "data_type \<Rightarrow> int list option \<Rightarrow> int list option \<Rightarrow> int list \<Rightarrow> mask \<Rightarrow> bool" where
  "slice_args T bf ef sf elm \<longleftrightarrow> T \<in> {DT_INT16, DT_INT32, DT_INT64} \<and> length sf < 32 \<and> index_vector sf bf \<and> index_vector sf ef \<and>
     one_bit_set elm \<and> \<not> bit elm 31"

definition slice_spec ::
    "data_type \<Rightarrow> int list option \<Rightarrow> int list option \<Rightarrow> int list \<Rightarrow> mask \<Rightarrow> mask \<Rightarrow> mask \<Rightarrow> mask \<Rightarrow> mask \<Rightarrow> sparse_spec" where
  "slice_spec T bf ef sf bm em elm nm sm = sparse_of (map_option (slice_vector T) bf) (map_option (slice_vector T) ef)
     (slice_vector T sf) (length sf) bm em elm nm sm"

definition validate_slice ::
    "data_type \<Rightarrow> int list option \<Rightarrow> int list option \<Rightarrow> int list \<Rightarrow> tensor_shape \<Rightarrow> mask \<Rightarrow> mask \<Rightarrow> mask \<Rightarrow> mask \<Rightarrow> mask \<Rightarrow> unit soop" where
  "validate_slice T bf ef sf t bm em elm nm sm = ValidateStridedSliceOp (map_option (slice_vector T) bf)
     (map_option (slice_vector T) ef) (slice_vector T sf) t bm em elm nm sm"

text \<open>The entries for an input of \<open>rank\<close> dimensions; none when there are too many indices.\<close>

definition slice_entries :: "nat \<Rightarrow> sparse_spec \<Rightarrow> entry list option" where
  "slice_entries rank sp = (let is = [0..sp_dims sp - 1] in
     if indices sp is \<le> rank then Some (entries (rank - indices sp is) sp is) else None)"

definition axis_spec :: "sparse_spec \<Rightarrow> int list option \<Rightarrow> int list option \<Rightarrow> int list \<Rightarrow> int \<times> entry \<Rightarrow> (int \<times> int \<times> int) res" where
  "axis_spec sp bf ef sf = (\<lambda>(dim, e). axis_out (bf \<noteq> None \<and> ef \<noteq> None) dim
     (case axis_value bf e of None \<Rightarrow> 0 | Some x \<Rightarrow> x) (case axis_value ef e of None \<Rightarrow> 0 | Some x \<Rightarrow> x)
     (axis_stride sf e) (axis_shrunk e) (axis_masked (sp_begin_mask sp) e) (axis_masked (sp_end_mask sp) e))"

definition slice_axes :: "sparse_spec \<Rightarrow> int list option \<Rightarrow> int list option \<Rightarrow> int list \<Rightarrow> int list \<Rightarrow> entry list \<Rightarrow> (int \<times> int \<times> int) list res" where
  "slice_axes sp bf ef sf xs es = mapR (axis_spec sp bf ef sf) (zip xs (axes es))"

lemma vecOf_slice [simp]: "vecOf T (slice_vector T v) = Inr v"
  by (simp add: vecOf_def slice_vector_def)

lemma vecOfPtr_slice: "vecOfPtr T (map_option (slice_vector T) v) = Inr v"
  by (cases v) (simp_all add: vecOfPtr_def)

lemma slice_spec_simps:
  "sp_strides (slice_spec T bf ef sf bm em elm nm sm) = slice_vector T sf"
  "sp_begin (slice_spec T bf ef sf bm em elm nm sm) = map_option (slice_vector T) bf"
  "sp_end (slice_spec T bf ef sf bm em elm nm sm) = map_option (slice_vector T) ef"
  "sp_begin_mask (slice_spec T bf ef sf bm em elm nm sm) = bm" "sp_end_mask (slice_spec T bf ef sf bm em elm nm sm) = em"
  by (simp_all add: slice_spec_def sparse_of_def Let_def)

lemma slice_spec_dims: "slice_args T bf ef sf elm \<Longrightarrow> sp_dims (slice_spec T bf ef sf bm em elm nm sm) \<le> 32"
  by (simp add: slice_spec_def sparse_of_def Let_def slice_args_def)

lemma slice_spec_one:
  "slice_args T bf ef sf elm \<Longrightarrow> sp = slice_spec T bf ef sf bm em elm nm sm \<Longrightarrow> one_ellipsis sp [0..sp_dims sp - 1]"
  by (rule one_ellipsis_sparse_of) (auto simp: slice_spec_def slice_args_def)

lemma slice_spec_data:
  assumes a: "slice_args T bf ef sf elm" and sp: "sp = slice_spec T bf ef sf bm em elm nm sm"
    and i: "i \<in> set [0..sp_dims sp - 1]" "isIndex sp i"
  shows "has_entry bf ef sf i"
proof -
  have "i < int (length sf)"
  proof (rule ccontr)
    assume "\<not> ?thesis"
    then have n: "i = int (length sf)" "sp_ellipsis_mask sp = or elm (push_bit (length sf) 1)"
      using i(1) by (auto simp: sp slice_spec_def sparse_of_def Let_def split: if_splits)
    have "isEllipsis sp i" using a bit_or_shift[of "length sf" elm] by (simp add: n isEllipsis_def slice_args_def)
    then show False using i(2) by (simp add: isIndex_def)
  qed
  then show ?thesis using a i(1) by (auto simp: has_entry_def slice_args_def index_vector_def split: option.splits)
qed

lemma length_axes_slice:
  assumes "slice_args T bf ef sf elm" "slice_entries rank (slice_spec T bf ef sf bm em elm nm sm) = Some es"
  shows "length (axes es) = rank"
  using slice_spec_one[OF assms(1) refl, of bm em nm sm] assms(2)
  by (auto simp: slice_entries_def Let_def length_axes_entries one_ellipsis_def split: if_splits)

lemma length_entries_slice:
  assumes "slice_args T bf ef sf elm" "slice_entries rank (slice_spec T bf ef sf bm em elm nm sm) = Some es" "rank \<le> 32"
  shows "length es \<le> 64"
proof -
  define sp where "sp = slice_spec T bf ef sf bm em elm nm sm"
  have len: "length es = length (axes es) + length (filter (\<lambda>e. e = NewAxis) es)"
    using sum_length_filter_compl[of "\<lambda>e. e = NewAxis" es] by (simp add: axes_def)
  have "length (filter (\<lambda>e. e = NewAxis) (entries w sp is)) \<le> length is" for w "is"
    by (induction "is") (auto simp: entries_def entryOf_def)
  from this[of "rank - indices sp [0..sp_dims sp - 1]" "[0..sp_dims sp - 1]"]
  have "length (filter (\<lambda>e. e = NewAxis) es) \<le> 32"
    using assms(2) slice_spec_dims[OF assms(1), of bm em nm sm] by (auto simp: slice_entries_def Let_def sp_def[symmetric] split: if_splits)
  then show ?thesis using len length_axes_slice[OF assms(1,2)] assms(3) by simp
qed

section \<open>From the dense specification to the axes\<close>

lemma axis_out_unknown:
  "\<not> known \<Longrightarrow> axis_out known dim b e st sh bm em = bindR (axis_out known dim b' e' st sh bm em) (\<lambda>out. Inr (b, e, snd (snd out)))"
  by (auto simp: axis_out_def)

lemma dense_axis:
  assumes d: "dense_of sp bf ef sf rank es d" and k: "k < length (axes es)"
  shows "if bf \<noteq> None \<and> ef \<noteq> None then axis_of d xs (ds_begin d) (ds_end d) (ds_strides d) k = axis_spec sp bf ef sf (xs ! k, axes es ! k)
    else axis_of d xs (ds_begin d) (ds_end d) (ds_strides d) k =
      bindR (axis_spec sp bf ef sf (xs ! k, axes es ! k)) (\<lambda>out. Inr (ds_begin d ! k, ds_end d ! k, snd (snd out)))"
proof -
  note D = d[unfolded dense_of_def masks_of_def]
  have a: "axis_at sp bf ef sf d k (axes es ! k)" using D k by blast
  have m: "bit (ds_begin_mask d) k = axis_masked (sp_begin_mask sp) (axes es ! k)" "bit (ds_end_mask d) k = axis_masked (sp_end_mask sp) (axes es ! k)"
    "bit (ds_shrink_axis_mask d) k = axis_shrunk (axes es ! k)" using D k by auto
  have kb: "known_bounds d \<longleftrightarrow> bf \<noteq> None \<and> ef \<noteq> None" using D by blast
  have st: "ds_strides d ! k = axis_stride sf (axes es ! k)" using a by (simp add: axis_at_def)
  show ?thesis
  proof (cases "bf \<noteq> None \<and> ef \<noteq> None")
    case True
    have "axes es ! k \<noteq> NewAxis" using nth_mem[OF k] by (auto simp: axes_def)
    then have v: "axis_value bf (axes es ! k) \<noteq> None" "axis_value ef (axes es ! k) \<noteq> None"
      using True by (auto simp: axis_value_def split: entry.splits)
    then have "axis_value bf (axes es ! k) = Some (ds_begin d ! k)" "axis_value ef (axes es ! k) = Some (ds_end d ! k)"
      using a by (auto simp: axis_at_def)
    then show ?thesis using True kb by (simp add: axis_of_def axis_spec_def m st)
  next
    case False
    then have F: "(bf \<noteq> None \<and> ef \<noteq> None) = False" by blast
    show ?thesis unfolding axis_of_def axis_spec_def kb F m st if_False prod.case by (rule axis_out_unknown) simp
  qed
qed

lemma mapR_prefix: "mapR (\<lambda>k. f (xs ! k, ys ! k)) [0..<j] = mapR f (take j (zip xs ys))" if "j \<le> length xs" "j \<le> length ys"
  using that by (induction j) (simp_all add: take_Suc_conv_app_nth mapR_snoc)

lemma mapR_keep:
  assumes "\<And>k. k \<in> set ks \<Longrightarrow> f k = bindR (g k) (\<lambda>out. Inr (h k out))" "\<And>k out. m (h k out) = m out"
  shows "bindR (mapR f ks) (\<lambda>outs. Inr (map m outs)) = bindR (mapR g ks) (\<lambda>outs. Inr (map m outs))"
  using assms(1)
proof (induction ks)
  case (Cons k ks)
  then have "bindR (mapR f ks) (\<lambda>outs. Inr (map m outs)) = bindR (mapR g ks) (\<lambda>outs. Inr (map m outs))" by simp
  then show ?case using Cons.prems[of k] assms(2)
    by (cases "g k"; cases "mapR f ks"; cases "mapR g ks") (auto simp: bindR_def)
qed simp

section \<open>The whole call\<close>

text \<open>What the outputs are when the outcomes of the dimensions are \<open>outs\<close>.\<close>

definition slice_result ::
    "bool \<Rightarrow> sparse_spec \<Rightarrow> int list option \<Rightarrow> int list option \<Rightarrow> int list \<Rightarrow> int list \<Rightarrow> entry list \<Rightarrow> (int \<times> int \<times> int) list \<Rightarrow>
     slice_out \<Rightarrow> slice_out \<Rightarrow> bool" where
  "slice_result partial sp bf ef sf xs es outs s s' \<longleftrightarrow>
     (let n = length xs; known = (bf \<noteq> None \<and> ef \<noteq> None); as = axes es; st = (\<lambda>k. axis_stride sf (as ! k));
          bm = (\<lambda>k. axis_masked (sp_begin_mask sp) (as ! k)); em = (\<lambda>k. axis_masked (sp_end_mask sp) (as ! k)) in
      packed partial (so_processing_shape s') (sizes_out outs) \<and> packed partial (so_final_shape s') (out_sizes (sizes_out outs) es) \<and>
      (known \<longrightarrow> so_begin s' = map fst outs \<and> so_end s' = map (\<lambda>out. fst (snd out)) outs) \<and> so_strides s' = map (axis_stride sf) as \<and>
      (so_is_simple_slice s' \<longleftrightarrow> (\<forall>k<n. xs ! k = - 1 \<or> st k = 1)) \<and>
      (so_is_identity s' \<longleftrightarrow> (\<forall>k<n. axis_identity known (xs ! k) (outs ! k) (st k) (bm k) (em k))) \<and>
      (so_slice_dim0 s' \<longleftrightarrow> (\<forall>k<n. axis_dim0 known k (xs ! k) (outs ! k) (st k) (bm k) (em k))) \<and>
      (case so_shape_spec s of None \<Rightarrow> so_shape_spec s' = None
       | Some _ \<Rightarrow> (\<exists>spec. so_shape_spec s' = Some spec \<and> output_to_sparse_mapping spec = out_sources es \<and>
           output_to_processing_mapping spec = out_dims 0 es \<and> processing_to_sparse_mapping spec = map axis_source as \<and>
           (\<forall>k<n. bit (begin_dense_mask spec) k = bm k \<and> bit (end_dense_mask spec) k = em k \<and>
             bit (shrink_axis_dense_mask spec) k = axis_shrunk (as ! k)))))"

lemma onProcessing_Clear: "\<exists>t. onProcessing Clear s = (Inr (), s\<lparr>so_processing_shape := t\<rparr>) \<and> packed True t []"
  using packed_clear[of True "so_processing_shape s"]
  by (auto simp: onProcessing_def Clear_def ClearAllButDataType_def op_simps packed_def stores_def)

lemma onFinal_Clear: "\<exists>t. onFinal Clear s = (Inr (), s\<lparr>so_final_shape := t\<rparr>) \<and> packed True t []"
  using packed_clear[of True "so_final_shape s"]
  by (auto simp: onFinal_def Clear_def ClearAllButDataType_def op_simps packed_def stores_def)

lemma andThen_liftR: "andThen (liftR (Inr x)) f s = f x s"
  by (simp add: andThen_def liftR_def)

text \<open>The first steps: errors in the arguments are ruled out, and the dense specification is built.\<close>

lemma validate_start:
  assumes a: "slice_args T bf ef sf elm" and p: "packed True t xs" "length xs \<le> 32" and sp: "sp = slice_spec T bf ef sf bm em elm nm sm"
  shows "case slice_entries (length xs) sp of
      None \<Rightarrow> \<exists>s'. validate_slice T bf ef sf t bm em elm nm sm s = (Inl (Status InvalidArgument), s')
    | Some es \<Rightarrow> \<exists>d t1 s1. dense_of sp bf ef sf (length xs) es d \<and> packed True t1 [] \<and>
        s1 = s\<lparr>so_begin := ds_begin d, so_end := ds_end d, so_strides := ds_strides d, so_is_identity := True, so_slice_dim0 := True,
          so_is_simple_slice := True, so_processing_shape := t1\<rparr> \<and>
        validate_slice T bf ef sf t bm em elm nm sm s =
          andThen (iterOp (sliceDim d t) [0..int (length xs) - 1]) (\<lambda>_.
          andThen (onFinal Clear) (\<lambda>_.
          andThen (modify (\<lambda>s. s\<lparr>so_shape_spec := map_option (resetSpec d) (so_shape_spec s)\<rparr>)) (\<lambda>_.
          iterOp gatherDim (zip (final_shape_gather_indices d) (final_shape_gather_indices_sparse d))))) s1"
proof -
  have rank: "unknown_rank_of True t = False" "ndims True t = int (length xs)"
    using stores_known(1,2)[of True t xs] stores_known(3)[of True t xs] p by (simp_all add: packed_def)
  have shapes: "\<not> (begin_is_wrong (map_option (slice_vector T) bf) (slice_vector T sf) \<or>
      end_is_wrong (map_option (slice_vector T) ef) (slice_vector T sf) \<or> \<not> IsVectorTensor (slice_vector T sf))"
    using a by (auto simp: begin_is_wrong_def end_is_wrong_def IsVectorTensor_def NumElementsTensor_def slice_vector_def slice_args_def
        index_vector_def split: option.splits)
  have one: "multipleEllipses elm = Inr False"
    using multipleEllipses_none[of elm] one_bit_setD[of elm] a by (auto simp: slice_args_def)
  have spec: "sparseSpec (map_option (slice_vector T) bf) (map_option (slice_vector T) ef) (slice_vector T sf) bm em elm nm sm = Inr sp"
    using sparseSpec_run[of "slice_vector T sf" "length sf"] a by (simp add: NumElementsTensor_def slice_vector_def slice_args_def sp slice_spec_def)
  define d0 where "d0 = (newDenseSpec (int (length xs)))\<lparr>ds_begin := so_begin s, ds_end := so_end s, ds_strides := so_strides s\<rparr>"
  have T: "(if t_dtype (slice_vector T sf) = DT_INT32 then onDense (BuildDenseSpec DT_INT32 sp) dd
      else if t_dtype (slice_vector T sf) = DT_INT64 then onDense (BuildDenseSpec DT_INT64 sp) dd
      else if t_dtype (slice_vector T sf) = DT_INT16 then onDense (BuildDenseSpec DT_INT16 sp) dd
      else faultWith CheckFailed) = onDense (BuildDenseSpec T sp) dd" for dd
    using a by (auto simp: slice_args_def slice_vector_def)
  have run: "validate_slice T bf ef sf t bm em elm nm sm s =
     andThen (onDense (BuildDenseSpec T sp) (newDenseSpec (int (length xs)))) (\<lambda>dense.
     andThen (modify (\<lambda>s. s\<lparr>so_is_identity := True, so_slice_dim0 := True, so_is_simple_slice := True\<rparr>)) (\<lambda>_.
     andThen (onProcessing Clear) (\<lambda>_.
     andThen (iterOp (sliceDim dense t) [0..int (length xs) - 1]) (\<lambda>_.
     andThen (onFinal Clear) (\<lambda>_.
     andThen (modify (\<lambda>s. s\<lparr>so_shape_spec := map_option (resetSpec dense) (so_shape_spec s)\<rparr>)) (\<lambda>_.
     iterOp gatherDim (zip (final_shape_gather_indices dense) (final_shape_gather_indices_sparse dense)))))))) s"
    unfolding validate_slice_def ValidateStridedSliceOp_def rank Let_def
    by (simp only: andThen_failUnless andThen_liftR shapes one spec if_True simp_thms T)
  have dd: "ds_dims d0 = int (length xs)" "final_shape_gather_indices d0 = []" "final_shape_gather_indices_sparse d0 = []"
    by (simp_all add: d0_def newDenseSpec_def)
  note B = BuildDenseSpec_run[OF refl slice_spec_dims[OF a, of bm em nm sm, folded sp] dd(1) p(2) slice_spec_one[OF a sp] _ _ _
      slice_spec_data[OF a sp] dd(2,3), of T]
  have v: "vecOf T (sp_strides sp) = Inr sf" "vecOfPtr T (sp_begin sp) = Inr bf" "vecOfPtr T (sp_end sp) = Inr ef"
    by (simp_all add: sp slice_spec_simps vecOfPtr_slice)
  show ?thesis
  proof (cases "slice_entries (length xs) sp")
    case None
    then obtain d' where "BuildDenseSpec T sp d0 = (Inl (Status InvalidArgument), d')"
      using B[OF v] by (auto simp: slice_entries_def Let_def split: if_splits)
    then show ?thesis using None unfolding run by (auto simp: andThen_def onDense_def d0_def)
  next
    case (Some es)
    then obtain d where d: "BuildDenseSpec T sp d0 = (Inr (), d)" "dense_of sp bf ef sf (length xs) es d"
      using B[OF v] by (auto simp: slice_entries_def Let_def split: if_splits)
    define s0 where "s0 = s\<lparr>so_begin := ds_begin d, so_end := ds_end d, so_strides := ds_strides d, so_is_identity := True,
      so_slice_dim0 := True, so_is_simple_slice := True\<rparr>"
    have o: "onDense (BuildDenseSpec T sp) (newDenseSpec (int (length xs))) s =
        (Inr d, s\<lparr>so_begin := ds_begin d, so_end := ds_end d, so_strides := ds_strides d\<rparr>)"
      using d(1) by (simp add: onDense_def d0_def)
    obtain t1 where t1: "onProcessing Clear s0 = (Inr (), s0\<lparr>so_processing_shape := t1\<rparr>)" "packed True t1 []"
      using onProcessing_Clear[of s0] by blast
    note t1' = t1(1)[unfolded s0_def]
    show ?thesis unfolding Some option.case run
      by (intro exI conjI, rule d(2), rule t1(2), rule refl)
        (simp only: andThen_Inr[where m = "onDense _ _", OF o] andThen_modify andThen_Inr[where m = "onProcessing Clear", OF t1'])
  qed
qed

lemma dense_ranges:
  assumes d: "dense_of sp bf ef sf rank es d" and l: "length (axes es) = rank" and v: "index_vector sf bf" "index_vector sf ef"
    and known: "bf \<noteq> None" "ef \<noteq> None" and data: "\<And>e. e \<in> set (axes es) \<Longrightarrow> axis_source e < int (length sf) \<or> (\<exists>i. e = Whole i)"
    and pos: "\<And>e. e \<in> set (axes es) \<Longrightarrow> 0 \<le> axis_source e"
  shows "list_all in_int64 (ds_begin d) \<and> list_all in_int64 (ds_end d)"
proof -
  note D = d[unfolded dense_of_def]
  have v64: "in_int64 x" if "axis_value (Some v) e = Some x" "e \<in> set (axes es)" "index_vector sf (Some v)" for v e x
  proof (cases e)
    case (Single i)
    then have "v ! nat i \<in> set v" using data[OF that(2)] pos[OF that(2)] that(3) by (simp add: axis_source_def index_vector_def)
    then show ?thesis using Single that(1,3) by (auto simp: axis_value_def index_vector_def list_all_iff)
  next
    case (Slice i)
    then have "v ! nat i \<in> set v" using data[OF that(2)] pos[OF that(2)] that(3) by (simp add: axis_source_def index_vector_def)
    then show ?thesis using Slice that(1,3) by (auto simp: axis_value_def index_vector_def list_all_iff)
  qed (use that(1) in \<open>auto simp: axis_value_def in_int64_def\<close>)
  obtain bv ev where be: "bf = Some bv" "ef = Some ev" using known by auto
  have "in_int64 (ds_begin d ! k) \<and> in_int64 (ds_end d ! k)" if "k < rank" for k
  proof -
    have at: "axis_at sp bf ef sf d k (axes es ! k)" using D l that by simp
    have e: "axes es ! k \<in> set (axes es)" using l that by simp
    then have "axes es ! k \<noteq> NewAxis" by (auto simp: axes_def)
    then obtain x y where "axis_value bf (axes es ! k) = Some x" "axis_value ef (axes es ! k) = Some y"
      by (cases "axes es ! k") (auto simp: axis_value_def be)
    then show ?thesis using at v64[OF _ e] v by (auto simp: axis_at_def be)
  qed
  then show ?thesis using D by (auto simp: list_all_length)
qed

lemma slice_entries_sources:
  assumes a: "slice_args T bf ef sf elm" and sp: "sp = slice_spec T bf ef sf bm em elm nm sm" and es: "slice_entries rank sp = Some es"
    and e: "e \<in> set (axes es)"
  shows "axis_source e < int (length sf) \<or> (\<exists>i. e = Whole i)" "0 \<le> axis_source e"
proof -
  obtain i where i: "i \<in> set [0..sp_dims sp - 1]" "e \<in> set (entryOf (rank - indices sp [0..sp_dims sp - 1]) sp i)" "e \<noteq> NewAxis"
    using es e by (auto simp: slice_entries_def Let_def entries_def axes_def split: if_splits)
  show "0 \<le> axis_source e" using i by (auto simp: entryOf_def axis_source_def split: if_splits)
  show "axis_source e < int (length sf) \<or> (\<exists>i. e = Whole i)"
  proof (cases "isIndex sp i")
    case True
    then show ?thesis using slice_spec_data[OF a sp i(1)] i(2,3) by (auto simp: entryOf_def axis_source_def has_entry_def split: if_splits)
  next
    case False
    then show ?thesis using i(2,3) by (auto simp: entryOf_def isIndex_def split: if_splits)
  qed
qed

lemma mapR_cong: "(\<And>x. x \<in> set xs \<Longrightarrow> f x = g x) \<Longrightarrow> mapR f xs = mapR g xs"
  by (induction xs) auto

lemma shrunk_ones:
  assumes o: "mapR (axis_spec sp bf ef sf) (zip xs as) = Inr outs" and l: "length xs = length as" and p: "packed True t xs"
    and k: "k < length xs" "axis_shrunk (as ! k)"
  shows "snd (snd (outs ! k)) = 1"
proof -
  have len: "length outs = length xs" using mapR_length[OF o] l by simp
  have "axis_spec sp bf ef sf (xs ! k, as ! k) = Inr (outs ! k)"
  proof -
    have "mapR f ys = Inr zs \<Longrightarrow> j < length ys \<Longrightarrow> f (ys ! j) = Inr (zs ! j)" for f and ys :: "(int \<times> entry) list" and zs :: "(int \<times> int \<times> int) list" and j
      by (induction ys arbitrary: zs j) (auto simp: bindR_eq_Inr nth_Cons split: nat.splits)
    from this[OF o, of k] show ?thesis using k l by simp
  qed
  then show ?thesis using axis_out_size(3)[of _ "xs ! k" _ _ _ _ _ _ "fst (outs ! k)" "fst (snd (outs ! k))" "snd (snd (outs ! k))"]
      packed_range[OF p k(1)] k(2) by (auto simp: axis_spec_def)
qed

lemma axes_of_spec:
  assumes d: "dense_of sp bf ef sf (length xs) es d" and l: "length (axes es) = length xs" and j: "j \<le> length xs"
  shows "bindR (mapR (axis_of d xs (ds_begin d) (ds_end d) (ds_strides d)) [0..<j]) (\<lambda>outs. Inr (sizes_out outs)) =
      bindR (mapR (axis_spec sp bf ef sf) (take j (zip xs (axes es)))) (\<lambda>outs. Inr (sizes_out outs))"
    and "bf \<noteq> None \<Longrightarrow> ef \<noteq> None \<Longrightarrow>
      mapR (axis_of d xs (ds_begin d) (ds_end d) (ds_strides d)) [0..<j] = mapR (axis_spec sp bf ef sf) (take j (zip xs (axes es)))"
proof -
  have g: "mapR (axis_spec sp bf ef sf) (take j (zip xs (axes es))) = mapR (\<lambda>k. axis_spec sp bf ef sf (xs ! k, axes es ! k)) [0..<j]"
    by (rule mapR_prefix[symmetric]) (use j l in simp_all)
  have k: "k < length (axes es)" if "k \<in> set [0..<j]" for k using that j l by simp
  show known: "mapR (axis_of d xs (ds_begin d) (ds_end d) (ds_strides d)) [0..<j] = mapR (axis_spec sp bf ef sf) (take j (zip xs (axes es)))"
    if "bf \<noteq> None" "ef \<noteq> None"
    unfolding g by (rule mapR_cong) (use dense_axis[OF d k, of _ xs] that in simp)
  show "bindR (mapR (axis_of d xs (ds_begin d) (ds_end d) (ds_strides d)) [0..<j]) (\<lambda>outs. Inr (sizes_out outs)) =
      bindR (mapR (axis_spec sp bf ef sf) (take j (zip xs (axes es)))) (\<lambda>outs. Inr (sizes_out outs))"
  proof (cases "bf \<noteq> None \<and> ef \<noteq> None")
    case True
    then show ?thesis using known by simp
  next
    case False
    show ?thesis unfolding g sizes_out_def
      by (rule mapR_keep[where h = "\<lambda>k out. (ds_begin d ! k, ds_end d ! k, snd (snd out))"])
        (use dense_axis[OF d k, of _ xs] False in auto)
  qed
qed

lemma axis_flags_known:
  "\<not> known \<Longrightarrow> axis_identity known dim out st bm em = axis_identity known dim out' st bm em"
  "\<not> known \<Longrightarrow> axis_dim0 known k dim out st bm em = axis_dim0 known k dim out' st bm em"
  by (simp_all add: axis_identity_def axis_dim0_def axis_full_def)

text \<open>The run of the whole function.\<close>

lemma validate_run:
  assumes a: "slice_args T bf ef sf elm" and p: "packed True t xs" "length xs \<le> 32" and sp: "sp = slice_spec T bf ef sf bm em elm nm sm"
    and es: "slice_entries (length xs) sp = Some es"
    and room: "\<And>j outs. j \<le> length xs \<Longrightarrow> mapR (axis_spec sp bf ef sf) (take j (zip xs (axes es))) = Inr outs \<Longrightarrow> room_for (sizes_out outs)"
  shows "case slice_axes sp bf ef sf xs es of
      Inl err \<Rightarrow> \<exists>s'. validate_slice T bf ef sf t bm em elm nm sm s = (Inl err, s')
    | Inr outs \<Rightarrow> \<exists>s'. validate_slice T bf ef sf t bm em elm nm sm s = (Inr (), s') \<and> slice_result True sp bf ef sf xs es outs s s'"
proof -
  define n where "n = length xs"
  have l: "length (axes es) = n" using length_axes_slice[OF a es[unfolded sp]] by (simp add: n_def)
  obtain d t1 s1 where d: "dense_of sp bf ef sf n es d" and t1: "packed True t1 []"
    and s1: "s1 = s\<lparr>so_begin := ds_begin d, so_end := ds_end d, so_strides := ds_strides d, so_is_identity := True, so_slice_dim0 := True,
      so_is_simple_slice := True, so_processing_shape := t1\<rparr>"
    and run: "validate_slice T bf ef sf t bm em elm nm sm s =
          andThen (iterOp (sliceDim d t) [0..int n - 1]) (\<lambda>_.
          andThen (onFinal Clear) (\<lambda>_.
          andThen (modify (\<lambda>s. s\<lparr>so_shape_spec := map_option (resetSpec d) (so_shape_spec s)\<rparr>)) (\<lambda>_.
          iterOp gatherDim (zip (final_shape_gather_indices d) (final_shape_gather_indices_sparse d))))) s1"
    using validate_start[OF a p sp, of s] es unfolding n_def by auto
  note D = d[unfolded dense_of_def]
  have kb: "known_bounds d \<longleftrightarrow> bf \<noteq> None \<and> ef \<noteq> None" using D by blast
  have ready: "ready_for d s1 t xs"
    using dense_ranges[OF d l, OF _ _ _ _ slice_entries_sources[OF a sp es]] a p t1 D kb
    by (auto simp: ready_for_def s1 n_def slice_args_def)
  have same: "axes_of d xs s1 = axis_of d xs (ds_begin d) (ds_end d) (ds_strides d)" by (simp add: s1)
  note A = axes_of_spec[OF d[unfolded n_def] l[unfolded n_def], folded n_def]
  have roomf: "room_for (sizes_out outs)" if j: "j \<le> length xs" and o: "mapR (axes_of d xs s1) [0..<j] = Inr outs" for j outs
  proof -
    obtain outs' where "mapR (axis_spec sp bf ef sf) (take j (zip xs (axes es))) = Inr outs'" "sizes_out outs' = sizes_out outs"
      using A(1)[of j] j o unfolding same n_def by (auto simp: bindR_def split: sum.splits)
    then show ?thesis using room[OF j] by metis
  qed
  have loop: "case mapR (axes_of d xs s1) [0..<n] of
      Inl err \<Rightarrow> \<exists>s'. iterOp (sliceDim d t) [0..int n - 1] s1 = (Inl err, s')
    | Inr outs \<Rightarrow> \<exists>s'. iterOp (sliceDim d t) [0..int n - 1] s1 = (Inr (), s') \<and> after_axes d xs s1 outs s'"
  proof -
    have u: "[0..int n - 1] = map int [0..<n]" using upto_map[of 0 n] by simp
    show ?thesis unfolding u by (rule axes_loop[OF ready], erule (1) roomf) (simp add: n_def)
  qed
  have z: "take n (zip xs (axes es)) = zip xs (axes es)" by (simp add: n_def)
  have sizes: "bindR (mapR (axes_of d xs s1) [0..<n]) (\<lambda>outs. Inr (sizes_out outs)) = bindR (slice_axes sp bf ef sf xs es) (\<lambda>outs. Inr (sizes_out outs))"
    using A(1)[of n] unfolding same slice_axes_def z by simp
  show ?thesis
  proof (cases "slice_axes sp bf ef sf xs es")
    case (Inl err)
    then have "mapR (axes_of d xs s1) [0..<n] = Inl err" using sizes by (auto simp: bindR_def split: sum.splits)
    then show ?thesis using loop Inl unfolding run by (auto simp: andThen_def)
  next
    case (Inr outs)
    then obtain outs' where o: "mapR (axes_of d xs s1) [0..<n] = Inr outs'" "sizes_out outs' = sizes_out outs"
      using sizes by (auto simp: bindR_def split: sum.splits)
    have known: "outs' = outs" if "bf \<noteq> None" "ef \<noteq> None"
      using A(2)[OF order_refl that] Inr o(1) unfolding same slice_axes_def z by simp
    have len: "length outs' = n" "length outs = n"
      using mapR_length[OF o(1)] mapR_length[OF Inr[unfolded slice_axes_def]] l by (simp_all add: n_def)
    obtain s2 where s2: "iterOp (sliceDim d t) [0..int n - 1] s1 = (Inr (), s2)" "after_axes d xs s1 outs' s2" using loop o(1) by auto
    obtain t3 where t3: "onFinal Clear s2 = (Inr (), s2\<lparr>so_final_shape := t3\<rparr>)" "packed True t3 []" using onFinal_Clear[of s2] by blast
    define s4 where "s4 = s2\<lparr>so_final_shape := t3, so_shape_spec := map_option (resetSpec d) (so_shape_spec s2)\<rparr>"
    have p4: "packed True (so_processing_shape s4) (sizes_out outs)" using s2(2) o(2) by (simp add: s4_def after_axes_def Let_def)
    have f4: "packed True (so_final_shape s4) []" using t3(2) by (simp add: s4_def)
    have "drops_ones (sizes_out outs) es"
      using drops_ones_iff[of "sizes_out outs" es] shrunk_ones[OF Inr[unfolded slice_axes_def] _ p(1)] l len
      by (simp add: sizes_out_def n_def)
    moreover have "room_for (sizes_out outs)" using room[of n outs] Inr by (simp add: n_def slice_axes_def)
    ultimately have r: "room_for (out_sizes (sizes_out outs) es)"
      using room_out length_entries_slice[OF a es[unfolded sp] p(2)] by simp
    obtain t5 where t5: "iterOp gatherDim (zip (gathers 0 es) (map output_source es)) s4 =
        (Inr (), (addMaps (out_sources es) (out_dims 0 es) s4)\<lparr>so_final_shape := t5\<rparr>)"
        "packed True t5 (out_sizes (sizes_out outs) es)"
      using gather_loop[OF p4 f4, of 0 es] r l len by (auto simp: sizes_out_def)
    define s5 where "s5 = (addMaps (out_sources es) (out_dims 0 es) s4)\<lparr>so_final_shape := t5\<rparr>"
    have g: "final_shape_gather_indices d = gathers 0 es" "final_shape_gather_indices_sparse d = map output_source es" using D by blast+
    have "validate_slice T bf ef sf t bm em elm nm sm s = (Inr (), s5)"
      unfolding run andThen_Inr[where m = "iterOp _ _", OF s2(1)] andThen_Inr[where m = "onFinal Clear", OF t3(1)] andThen_modify g
      using t5(1) by (simp add: s4_def s5_def)
    moreover have "slice_result True sp bf ef sf xs es outs s s5"
    proof -
      note L = s2(2)[unfolded after_axes_def Let_def len kb]
      have st: "so_strides s1 = map (axis_stride sf) (axes es)"
        using D l by (auto simp: s1 axis_at_def intro!: nth_equalityI)
      have src: "input_shape_gather_indices_sparse d = map axis_source (axes es)"
        using D l by (auto simp: axis_at_def intro!: nth_equalityI)
      have m: "bit (ds_begin_mask d) k = axis_masked (sp_begin_mask sp) (axes es ! k)"
          "bit (ds_end_mask d) k = axis_masked (sp_end_mask sp) (axes es ! k)"
          "bit (ds_shrink_axis_mask d) k = axis_shrunk (axes es ! k)" if "k < n" for k
        using D l that unfolding masks_of_def by auto
      have flags: "axis_identity (bf \<noteq> None \<and> ef \<noteq> None) dim (outs' ! k) st bm em = axis_identity (bf \<noteq> None \<and> ef \<noteq> None) dim (outs ! k) st bm em"
          "axis_dim0 (bf \<noteq> None \<and> ef \<noteq> None) k dim (outs' ! k) st bm em = axis_dim0 (bf \<noteq> None \<and> ef \<noteq> None) k dim (outs ! k) st bm em"
        for dim k st bm em
        using known axis_flags_known[of "bf \<noteq> None \<and> ef \<noteq> None"] by (cases "bf \<noteq> None \<and> ef \<noteq> None"; simp)+
      have lens: "length (so_begin s1) = n" "length (so_end s1) = n" using D by (simp_all add: s1)
      have s5: "so_processing_shape s5 = so_processing_shape s2" "so_final_shape s5 = t5" "so_begin s5 = so_begin s2" "so_end s5 = so_end s2"
          "so_strides s5 = so_strides s2" "so_is_identity s5 = so_is_identity s2" "so_is_simple_slice s5 = so_is_simple_slice s2"
          "so_slice_dim0 s5 = so_slice_dim0 s2" by (simp_all add: s5_def addMaps_simps s4_def)
      have spec: "so_shape_spec s5 = map_option (\<lambda>spec. (resetSpec d spec)\<lparr>output_to_sparse_mapping := out_sources es,
          output_to_processing_mapping := out_dims 0 es\<rparr>) (so_shape_spec s)"
        using L by (simp add: s5_def s4_def addMaps_def s1 resetSpec_def option.map_comp o_def)
      have be: "so_begin s5 = map fst outs \<and> so_end s5 = map (\<lambda>out. fst (snd out)) outs" if "bf \<noteq> None \<and> ef \<noteq> None"
        using L lens known that by (simp add: s5)
      have f1: "so_is_simple_slice s5 \<longleftrightarrow> (\<forall>k<n. xs ! k = - 1 \<or> axis_stride sf (axes es ! k) = 1)"
        using L l by (simp add: s5 st) (simp add: s1)
      have f2: "so_is_identity s5 \<longleftrightarrow> (\<forall>k<n. axis_identity (bf \<noteq> None \<and> ef \<noteq> None) (xs ! k) (outs ! k) (axis_stride sf (axes es ! k))
          (axis_masked (sp_begin_mask sp) (axes es ! k)) (axis_masked (sp_end_mask sp) (axes es ! k)))"
      proof -
        have "so_is_identity s5 \<longleftrightarrow> (\<forall>k<n. axis_identity (bf \<noteq> None \<and> ef \<noteq> None) (xs ! k) (outs' ! k) (so_strides s1 ! k)
            (bit (ds_begin_mask d) k) (bit (ds_end_mask d) k))"
          unfolding s5 using L by (simp add: s1)
        then show ?thesis unfolding flags using m l by (simp add: st)
      qed
      have f3: "so_slice_dim0 s5 \<longleftrightarrow> (\<forall>k<n. axis_dim0 (bf \<noteq> None \<and> ef \<noteq> None) k (xs ! k) (outs ! k) (axis_stride sf (axes es ! k))
          (axis_masked (sp_begin_mask sp) (axes es ! k)) (axis_masked (sp_end_mask sp) (axes es ! k)))"
      proof -
        have "so_slice_dim0 s5 \<longleftrightarrow> (\<forall>k<n. axis_dim0 (bf \<noteq> None \<and> ef \<noteq> None) k (xs ! k) (outs' ! k) (so_strides s1 ! k)
            (bit (ds_begin_mask d) k) (bit (ds_end_mask d) k))"
          unfolding s5 using L by (simp add: s1)
        then show ?thesis unfolding flags using m l by (simp add: st)
      qed
      have sp5: "case so_shape_spec s of None \<Rightarrow> so_shape_spec s5 = None
         | Some _ \<Rightarrow> (\<exists>spec. so_shape_spec s5 = Some spec \<and> output_to_sparse_mapping spec = out_sources es \<and>
             output_to_processing_mapping spec = out_dims 0 es \<and> processing_to_sparse_mapping spec = map axis_source (axes es) \<and>
             (\<forall>k<n. bit (begin_dense_mask spec) k = axis_masked (sp_begin_mask sp) (axes es ! k) \<and>
               bit (end_dense_mask spec) k = axis_masked (sp_end_mask sp) (axes es ! k) \<and>
               bit (shrink_axis_dense_mask spec) k = axis_shrunk (axes es ! k)))"
        using m by (cases "so_shape_spec s") (simp_all add: spec resetSpec_def src)
      have "so_strides s5 = map (axis_stride sf) (axes es)" "packed True (so_processing_shape s5) (sizes_out outs)"
        using L st o(2) by (simp_all add: s5)
      then show ?thesis unfolding slice_result_def Let_def n_def[symmetric] using be f1 f2 f3 sp5 t5(2) s5(2) by simp
    qed
    ultimately show ?thesis using Inr by auto
  qed
qed

end
