(* ===== verification/SliceKnown.thy ===== *)
theory SliceKnown
  imports SliceValidate
begin

text \<open>
  Strided slices of inputs whose sizes are known, with begin and end: the case of the kernels. The run
  of the validation on them, and the room that its sizes have in a shape.
\<close>

section \<open>Room for the slice\<close>

lemma prefixes_fit_mono:
  "list_all2 (\<lambda>z x. 0 \<le> z \<and> z \<le> x) zs xs \<Longrightarrow> 0 \<le> m \<Longrightarrow> m \<le> n \<Longrightarrow> prefixes_fit n xs \<Longrightarrow> prefixes_fit m zs"
proof (induction zs xs arbitrary: m n rule: list_all2_induct)
  case (Cons z zs x xs)
  have "m * z \<le> n * x" using Cons by (intro mult_mono) auto
  moreover have "0 \<le> m * z" using Cons by simp
  ultimately show ?case using Cons by auto
qed simp

lemma mapR_nth: "mapR f xs = Inr ys \<Longrightarrow> k < length xs \<Longrightarrow> f (xs ! k) = Inr (ys ! k)"
  by (induction xs arbitrary: ys k) (auto simp: bindR_eq_Inr nth_Cons split: nat.splits)

lemma room_below:
  assumes "packed True t xs" "list_all (\<lambda>x. 0 \<le> x) xs" "length zs \<le> length xs" "\<And>k. k < length zs \<Longrightarrow> 0 \<le> zs ! k \<and> zs ! k \<le> xs ! k"
  shows "room_for zs"
proof -
  define ys where "ys = take (length zs) xs"
  have a: "list_all2 (\<lambda>z x. 0 \<le> z \<and> z \<le> x) zs ys" using assms(3,4) by (auto simp: list_all2_conv_all_nth ys_def)
  have nn: "list_all (\<lambda>x. 0 \<le> x) ys" "list_all (\<lambda>x. 0 \<le> x) zs"
    using assms(2,4) by (auto simp: ys_def list_all_length)
  have "fits_count ys" using packed_room[OF assms(1)] fits_count_take[of ys "drop (length zs) xs"] by (simp add: room_for_def ys_def)
  then have "prefixes_fit 1 zs" using prefixes_fit_mono[OF a, of 1 1] nn by (simp add: fits_count_known)
  then show ?thesis using packed_room[OF assms(1)] assms(3) nn(2) by (simp add: room_for_def fits_count_known)
qed

lemma axis_spec_known:
  assumes "axis_spec sp bf ef sf (dim, e) = Inr out" "0 \<le> dim" "dim \<le> int64_max" "bf \<noteq> None" "ef \<noteq> None"
  shows "0 \<le> snd (snd out)" "snd (snd out) \<le> dim"
  using axis_out_size(4)[of True dim _ _ _ _ _ _ "fst out" "fst (snd out)" "snd (snd out)"] assms by (auto simp: axis_spec_def)

lemma room_known:
  assumes p: "packed True t xs" "list_all (\<lambda>x. 0 \<le> x) xs" and k: "bf \<noteq> None" "ef \<noteq> None" and l: "length as = length xs"
    and o: "mapR (axis_spec sp bf ef sf) (take j (zip xs as)) = Inr outs"
  shows "room_for (sizes_out outs)"
proof (rule room_below[OF p])
  have len: "length (sizes_out outs) = min (length xs) j" using mapR_length[OF o] l by (simp add: sizes_out_def)
  then show "length (sizes_out outs) \<le> length xs" by simp
  fix i assume i: "i < length (sizes_out outs)"
  then have "axis_spec sp bf ef sf (xs ! i, as ! i) = Inr (outs ! i)" using mapR_nth[OF o, of i] len l by simp
  then have "0 \<le> snd (snd (outs ! i))" "snd (snd (outs ! i)) \<le> xs ! i"
    using axis_spec_known[of sp bf ef sf "xs ! i" "as ! i" "outs ! i"] k packed_range[OF p(1), of i] p(2) i len by (auto simp: list_all_length)
  then show "0 \<le> sizes_out outs ! i \<and> sizes_out outs ! i \<le> xs ! i" using i by (simp add: sizes_out_def)
qed

section \<open>The run\<close>

lemma validate_known:
  assumes a: "slice_args T (Some bv) (Some ev) sf elm" and p: "packed True t xs" "list_all (\<lambda>x. 0 \<le> x) xs" "length xs \<le> 32"
    and sp: "sp = slice_spec T (Some bv) (Some ev) sf bm em elm nm sm"
  shows "case slice_entries (length xs) sp of
      None \<Rightarrow> \<exists>s'. validate_slice T (Some bv) (Some ev) sf t bm em elm nm sm s = (Inl (Status InvalidArgument), s')
    | Some es \<Rightarrow> (case slice_axes sp (Some bv) (Some ev) sf xs es of
        Inl err \<Rightarrow> \<exists>s'. validate_slice T (Some bv) (Some ev) sf t bm em elm nm sm s = (Inl err, s')
      | Inr outs \<Rightarrow> \<exists>s'. validate_slice T (Some bv) (Some ev) sf t bm em elm nm sm s = (Inr (), s') \<and>
          slice_result True sp (Some bv) (Some ev) sf xs es outs s s')"
proof (cases "slice_entries (length xs) sp")
  case None
  then show ?thesis using validate_start[OF a p(1,3) sp, of s] by simp
next
  case (Some es)
  then have l: "length (axes es) = length xs" using length_axes_slice[OF a] sp by blast
  show ?thesis unfolding Some option.case by (rule validate_run[OF a p(1,3) sp Some]) (rule room_known[OF p(1,2) _ _ l], simp_all)
qed

section \<open>One dimension of the result\<close>

lemma canonical_bounds_in:
  assumes d: "0 \<le> dim" "dim \<le> int64_max" and st: "st \<noteq> 0" and j: "0 \<le> j"
    and k: "j < sliceSize (canonical st dim em e 1 - canonical st dim bm b 0) st"
  shows "0 \<le> canonical st dim bm b 0 + j * st \<and> canonical st dim bm b 0 + j * st < dim"
proof -
  note r = canonical_range[OF d st, of 0 bm b] canonical_range[OF d st, of 1 em e]
  have i: "if 0 < st then j * st < canonical st dim em e 1 - canonical st dim bm b 0 else canonical st dim em e 1 - canonical st dim bm b 0 < j * st"
    using k sliceSize_iff[OF st j] by simp
  show ?thesis
  proof (cases "0 < st")
    case True
    then have "0 \<le> j * st" using j by simp
    then show ?thesis using True i r by simp
  next
    case False
    then have "j * st \<le> 0" using j st by (simp add: mult_nonneg_nonpos)
    then show ?thesis using False i r by simp
  qed
qed

text \<open>The elements that a dimension takes are in the dimension, and there is no further one before the end.\<close>

lemma axis_out_known:
  assumes o: "axis_out True dim b e st sh bm em = Inr (b', e', z)" and d: "0 \<le> dim" "dim \<le> int64_max"
  shows "st \<noteq> 0" "\<And>j. 0 \<le> j \<Longrightarrow> j < z \<Longrightarrow> 0 \<le> b' + j * st \<and> b' + j * st < dim"
    "\<And>j. 0 \<le> j \<Longrightarrow> j < z \<longleftrightarrow> (if 0 < st then b' + j * st < e' else e' < b' + j * st)"
proof -
  show st: "st \<noteq> 0" using o by (auto simp: axis_out_def split: if_splits)
  consider "sh" "0 < st" "z = 1" "e' = b' + 1" "0 \<le> b'" "b' < dim"
    | "b' = canonical st dim bm b 0" "e' = canonical st dim em e 1" "z = sliceSize (e' - b') st"
    using o d by (auto simp: axis_out_def Let_def split: if_splits)
  note cases = this
  show "0 \<le> b' + j * st \<and> b' + j * st < dim" if "0 \<le> j" "j < z" for j
    using cases
  proof cases
    case 1
    then have "j = 0" using that by simp
    then show ?thesis using 1 by simp
  next
    case 2
    then show ?thesis using that canonical_bounds_in[OF d st that(1), of em e bm b] by simp
  qed
  show "j < z \<longleftrightarrow> (if 0 < st then b' + j * st < e' else e' < b' + j * st)" if j: "0 \<le> j" for j
    using cases
  proof cases
    case 1
    have "j * st \<le> 0 \<longleftrightarrow> j < 1" using j 1(2) by (auto simp: mult_le_0_iff)
    then show ?thesis using 1 by simp
  next
    case 2
    then show ?thesis using sliceSize_iff[OF st j, of "e' - b'"] by auto
  qed
qed

section \<open>The overload for known shapes\<close>

definition validate_full ::
    "data_type \<Rightarrow> int list \<Rightarrow> int list \<Rightarrow> int list \<Rightarrow> tensor_shape \<Rightarrow> mask \<Rightarrow> mask \<Rightarrow> mask \<Rightarrow> mask \<Rightarrow> mask \<Rightarrow> unit soop" where
  "validate_full T bv ev sf t bm em elm nm sm = ValidateStridedSliceOpFull (Some (slice_vector T bv)) (Some (slice_vector T ev))
     (slice_vector T sf) t bm em elm nm sm"

lemma packed_known:
  assumes "packed True t xs" "list_all (\<lambda>x. 0 \<le> x) xs"
  shows "AsTensorShape t = Some t" "packed False t xs"
proof -
  have s: "sizes_of True (ts_rep t) = xs" "rep_ok True (ts_rep t)" using assms(1) by (simp_all add: packed_def stores_def)
  have "0 \<le> prod_list xs" using prod_list_nonneg assms(2) by blast
  then show "AsTensorShape t = Some t" using assms by (simp add: AsTensorShape_def IsFullyDefined_def packed_def count_of_simps)
  have "sizes_of False (ts_rep t) = xs \<and> rep_ok False (ts_rep t)"
  proof (cases "ts_rep t")
    case (Rep16 ws)
    have "0 \<le> read16 True w" if "w \<in> set ws" for w using s(1) assms(2) that Rep16 by (auto simp: sizes_of_def list_all_iff)
    then have "w \<noteq> kUnknownRep16" if "w \<in> set ws" for w using that by (fastforce simp: read16_def)
    then show ?thesis using s Rep16 by (auto simp: sizes_of_def rep_ok_def list_all_iff read16_def)
  next
    case (Rep32 ws)
    have "0 \<le> read32 True w" if "w \<in> set ws" for w using s(1) assms(2) that Rep32 by (auto simp: sizes_of_def list_all_iff)
    then have "w \<noteq> kUnknownRep32" if "w \<in> set ws" for w using that by (fastforce simp: read32_def)
    then show ?thesis using s Rep32 by (auto simp: sizes_of_def rep_ok_def list_all_iff read32_def)
  next
    case (RepOutOfLine ys)
    then show ?thesis using s assms(2) by (auto simp: sizes_of_def rep_ok_def list_all_iff dim_ok_def)
  qed
  then show "packed False t xs" using assms(1) by (simp add: packed_def stores_def)
qed

lemma out_sizes_nonneg: "list_all (\<lambda>x. 0 \<le> x) zs \<Longrightarrow> length (axes es) = length zs \<Longrightarrow> list_all (\<lambda>x. 0 \<le> x) (out_sizes zs es)"
proof (induction zs es rule: out_sizes.induct)
  case (4 zs i es)
  then show ?case by (cases zs) auto
next
  case (5 zs i es)
  then show ?case by (cases zs) auto
next
  case (3 zs i es)
  then show ?case by (cases zs) auto
qed auto

lemma packed_partial:
  assumes "packed False t xs"
  shows "packed True t xs" "list_all (\<lambda>x. 0 \<le> x) xs"
proof -
  have s: "sizes_of False (ts_rep t) = xs" "rep_ok False (ts_rep t)" using assms by (simp_all add: packed_def stores_def)
  have w: "w \<noteq> kUnknownRep16" if "uint w < kMaxRep16" for w :: "16 word" using that by auto
  have w': "w \<noteq> kUnknownRep32" if "uint w < kMaxRep32" for w :: "32 word" using that by auto
  have "sizes_of True (ts_rep t) = xs \<and> rep_ok True (ts_rep t)"
    using s w w' by (cases "ts_rep t") (auto simp: sizes_of_def rep_ok_def list_all_iff read16_def read32_def dim_ok_def)
  then show "packed True t xs" using assms by (simp add: packed_def stores_def)
  show "list_all (\<lambda>x. 0 \<le> x) xs" using stores_known(4)[of False t xs] assms by (simp add: packed_def dim_ok_def list_all_iff)
qed

lemma slice_result_full:
  assumes r: "slice_result True sp bf ef sf xs es outs s0 s'" and s: "so_shape_spec s0 = so_shape_spec s"
    and nn: "list_all (\<lambda>x. 0 \<le> x) (sizes_out outs)" "list_all (\<lambda>x. 0 \<le> x) (out_sizes (sizes_out outs) es)"
  shows "AsTensorShape (so_processing_shape s') = Some (so_processing_shape s')" "AsTensorShape (so_final_shape s') = Some (so_final_shape s')"
    "slice_result False sp bf ef sf xs es outs s s'"
proof -
  note R = r[unfolded slice_result_def Let_def]
  have p: "packed True (so_processing_shape s') (sizes_out outs)" "packed True (so_final_shape s') (out_sizes (sizes_out outs) es)"
    using R by blast+
  show "AsTensorShape (so_processing_shape s') = Some (so_processing_shape s')" "AsTensorShape (so_final_shape s') = Some (so_final_shape s')"
    using packed_known(1)[OF p(1) nn(1)] packed_known(1)[OF p(2) nn(2)] .
  show "slice_result False sp bf ef sf xs es outs s s'"
    unfolding slice_result_def Let_def using R packed_known(2)[OF p(1) nn(1)] packed_known(2)[OF p(2) nn(2)] s by simp
qed

lemma validate_full_run:
  assumes a: "slice_args T (Some bv) (Some ev) sf elm" and p: "packed False t xs" "length xs \<le> 32"
    and sp: "sp = slice_spec T (Some bv) (Some ev) sf bm em elm nm sm"
  shows "case slice_entries (length xs) sp of
      None \<Rightarrow> \<exists>s'. validate_full T bv ev sf t bm em elm nm sm s = (Inl (Status InvalidArgument), s')
    | Some es \<Rightarrow> (case slice_axes sp (Some bv) (Some ev) sf xs es of
        Inl err \<Rightarrow> \<exists>s'. validate_full T bv ev sf t bm em elm nm sm s = (Inl err, s')
      | Inr outs \<Rightarrow> \<exists>s'. validate_full T bv ev sf t bm em elm nm sm s = (Inr (), s') \<and>
          slice_result False sp (Some bv) (Some ev) sf xs es outs s s')"
proof -
  define s0 where "s0 = s\<lparr>so_processing_shape := defaultShape True, so_final_shape := defaultShape True\<rparr>"
  note V = validate_known[OF a packed_partial[OF p(1)] p(2) sp, of s0]
  have run: "validate_full T bv ev sf t bm em elm nm sm s =
     (case validate_slice T (Some bv) (Some ev) sf t bm em elm nm sm s0 of
       (Inl e, s') \<Rightarrow> (Inl e, s'\<lparr>so_processing_shape := so_processing_shape s, so_final_shape := so_final_shape s\<rparr>)
     | (Inr _, s') \<Rightarrow>
         (case AsTensorShape (so_processing_shape s') of
            None \<Rightarrow> (Inl (Status Internal), s'\<lparr>so_processing_shape := so_processing_shape s, so_final_shape := so_final_shape s\<rparr>)
          | Some p \<Rightarrow>
              (case AsTensorShape (so_final_shape s') of
                 None \<Rightarrow> (Inl (Status Internal), s'\<lparr>so_processing_shape := p, so_final_shape := so_final_shape s\<rparr>)
               | Some f \<Rightarrow> (Inr (), s'\<lparr>so_processing_shape := p, so_final_shape := f\<rparr>))))"
    by (simp only: validate_full_def ValidateStridedSliceOpFull_def validate_slice_def s0_def Let_def fst_conv snd_conv option.map)
  show ?thesis
  proof (cases "slice_entries (length xs) sp")
    case None
    then show ?thesis using V unfolding run by auto
  next
    case (Some es)
    then have l: "length (axes es) = length xs" using length_axes_slice[OF a] sp by blast
    show ?thesis
    proof (cases "slice_axes sp (Some bv) (Some ev) sf xs es")
      case (Inl err)
      then show ?thesis using V Some unfolding run by auto
    next
      case (Inr outs)
      then obtain s' where s': "validate_slice T (Some bv) (Some ev) sf t bm em elm nm sm s0 = (Inr (), s')"
          "slice_result True sp (Some bv) (Some ev) sf xs es outs s0 s'" using V Some by auto
      have len: "length outs = length xs" using mapR_length[OF Inr[unfolded slice_axes_def]] l by simp
      have nn: "list_all (\<lambda>x. 0 \<le> x) (sizes_out outs)"
      proof -
        have "0 \<le> snd (snd (outs ! k))" if "k < length xs" for k
          using axis_spec_known(1)[of sp "Some bv" "Some ev" sf "xs ! k" "axes es ! k" "outs ! k"]
            mapR_nth[OF Inr[unfolded slice_axes_def], of k] that l packed_range[OF packed_partial(1)[OF p(1)] that] packed_partial(2)[OF p(1)]
          by (simp add: list_all_length)
        then show ?thesis using len by (simp add: sizes_out_def list_all_length)
      qed
      have nf: "list_all (\<lambda>x. 0 \<le> x) (out_sizes (sizes_out outs) es)" using out_sizes_nonneg[OF nn] l len by (simp add: sizes_out_def)
      note F = slice_result_full[OF s'(2) _ nn nf, of s]
      have "so_shape_spec s0 = so_shape_spec s" by (simp add: s0_def)
      then show ?thesis using Some Inr s'(1) F unfolding run by simp
    qed
  qed
qed

section \<open>An example\<close>

text \<open>\<open>foo[1:3, ...]\<close> for a matrix \<open>foo\<close> of shape (4, 3).\<close>

definition matrix43 :: tensor_shape where
  "matrix43 = \<lparr>ts_rep = Rep16 [4, 3], ndims_byte = 2, num_elements = 12, ts_data_type = DT_INVALID\<rparr>"

definition no_slice :: slice_out where
  "no_slice = \<lparr>so_processing_shape = blankShape, so_final_shape = blankShape, so_is_identity = False, so_is_simple_slice = False,
     so_slice_dim0 = False, so_begin = [], so_end = [], so_strides = [], so_shape_spec = None\<rparr>"

lemma matrix43_packed: "packed False matrix43 [4, 3]"
  by (simp add: matrix43_def packed_def stores_def rep_ok_def sizes_of_def fits_count_def count_of_def read16_def)

lemma rows_args: "slice_args DT_INT32 (Some [1, 0]) (Some [3, 0]) [1, 1] 2"
  using one_bit_push(1)[of 1] by (simp add: slice_args_def index_vector_def in_int64_def)

end
