(* ===== verification/SliceProps.thy ===== *)
theory SliceProps
  imports SliceKnown
begin

text \<open>
  What a kernel may rely on after a successful validation: the elements it reads are in the input, and
  the flags tell when the slice is the input itself or one block of it.
\<close>

section \<open>Inverting a successful run\<close>

lemma validate_full_Inr:
  assumes a: "slice_args T (Some bv) (Some ev) sf elm" and p: "packed False t xs" "length xs \<le> 32"
    and r: "validate_full T bv ev sf t bm em elm nm sm s = (Inr (), s')"
  obtains es outs where "slice_entries (length xs) (slice_spec T (Some bv) (Some ev) sf bm em elm nm sm) = Some es"
    "slice_axes (slice_spec T (Some bv) (Some ev) sf bm em elm nm sm) (Some bv) (Some ev) sf xs es = Inr outs"
    "slice_result False (slice_spec T (Some bv) (Some ev) sf bm em elm nm sm) (Some bv) (Some ev) sf xs es outs s s'"
    "length (axes es) = length xs" "length outs = length xs"
proof -
  define sp where "sp = slice_spec T (Some bv) (Some ev) sf bm em elm nm sm"
  note R = validate_full_run[OF a p sp_def, of s]
  obtain es where es: "slice_entries (length xs) sp = Some es" using R r by (cases "slice_entries (length xs) sp") auto
  obtain outs where o: "slice_axes sp (Some bv) (Some ev) sf xs es = Inr outs"
    using R r es by (cases "slice_axes sp (Some bv) (Some ev) sf xs es") auto
  have l: "length (axes es) = length xs" using length_axes_slice[OF a] es sp_def by blast
  then have "length outs = length xs" using mapR_length[OF o[unfolded slice_axes_def]] by simp
  then show ?thesis using that es o l R r unfolding sp_def[symmetric] by auto
qed

text \<open>One dimension of a successful run.\<close>

lemma slice_axes_nth:
  assumes o: "slice_axes sp (Some bv) (Some ev) sf xs es = Inr outs" and l: "length (axes es) = length xs" and k: "k < length xs"
  obtains b e where "axis_out True (xs ! k) b e (axis_stride sf (axes es ! k)) (axis_shrunk (axes es ! k))
      (axis_masked (sp_begin_mask sp) (axes es ! k)) (axis_masked (sp_end_mask sp) (axes es ! k)) =
      Inr (fst (outs ! k), fst (snd (outs ! k)), snd (snd (outs ! k)))"
  using mapR_nth[OF o[unfolded slice_axes_def], of k] l k by (auto simp: axis_spec_def)

section \<open>Where the elements come from\<close>

definition in_shape :: "int list \<Rightarrow> int list \<Rightarrow> bool" where
  "in_shape zs is \<longleftrightarrow> list_all2 (\<lambda>i z. 0 \<le> i \<and> i < z) is zs"

text \<open>The element of the input that is element \<open>is\<close> of the slice.\<close>

definition source_index :: "slice_out \<Rightarrow> int list \<Rightarrow> int list" where
  "source_index s is = map (\<lambda>(b, st, i). b + i * st) (zip (so_begin s) (zip (so_strides s) is))"

fun row_major :: "int list \<Rightarrow> int list \<Rightarrow> int" where
  "row_major (d # ds) (i # is) = i * prod_list ds + row_major ds is"
| "row_major _ _ = 0"

lemma in_shape_nth: "in_shape zs is \<longleftrightarrow> length is = length zs \<and> (\<forall>k<length zs. 0 \<le> is ! k \<and> is ! k < zs ! k)"
  by (auto simp: in_shape_def list_all2_conv_all_nth)

lemma source_index_nth:
  "length (so_begin s) = n \<Longrightarrow> length (so_strides s) = n \<Longrightarrow> length is = n \<Longrightarrow>
   length (source_index s is) = n \<and> (\<forall>k<n. source_index s is ! k = so_begin s ! k + is ! k * so_strides s ! k)"
  by (simp add: source_index_def)

lemma slice_lengths:
  assumes "slice_result False sp (Some bv) (Some ev) sf xs es outs s s'" "length (axes es) = length xs" "length outs = length xs"
  shows "packed False (so_processing_shape s') (sizes_out outs)" "length (sizes_out outs) = length xs" "length (so_begin s') = length xs"
    "length (so_end s') = length xs" "length (so_strides s') = length xs"
    "\<And>k. k < length xs \<Longrightarrow> so_begin s' ! k = fst (outs ! k) \<and> so_end s' ! k = fst (snd (outs ! k)) \<and>
      so_strides s' ! k = axis_stride sf (axes es ! k) \<and> sizes_out outs ! k = snd (snd (outs ! k))"
  using assms by (auto simp: slice_result_def Let_def sizes_out_def)

text \<open>
  C30. After a successful validation of a slice of an input of known sizes, begin, end and strides have
  one entry per dimension of the input, and the sizes of the slice count exactly the steps from begin
  that come before end: element by element, the slice reads elements of the input, and it
  stops only at end.
\<close>

theorem strided_slice_reads_input:
  assumes "slice_args T (Some bv) (Some ev) sf elm" and "packed False t xs" and "length xs \<le> 32"
    and "validate_full T bv ev sf t bm em elm nm sm s = (Inr (), s')"
  shows "\<exists>zs. packed False (so_processing_shape s') zs \<and> length zs = length xs \<and> length (so_begin s') = length xs \<and>
      length (so_end s') = length xs \<and> length (so_strides s') = length xs \<and>
      (\<forall>is. in_shape zs is \<longrightarrow> in_shape xs (source_index s' is)) \<and>
      (\<forall>k<length xs. let b = so_begin s' ! k; e = so_end s' ! k; st = so_strides s' ! k in
         st \<noteq> 0 \<and> (\<forall>j\<ge>0. j < zs ! k \<longleftrightarrow> (if 0 < st then b + j * st < e else e < b + j * st)))"
proof -
  obtain es outs where es: "slice_axes (slice_spec T (Some bv) (Some ev) sf bm em elm nm sm) (Some bv) (Some ev) sf xs es = Inr outs"
    and r: "slice_result False (slice_spec T (Some bv) (Some ev) sf bm em elm nm sm) (Some bv) (Some ev) sf xs es outs s s'"
    and l: "length (axes es) = length xs" "length outs = length xs"
    using validate_full_Inr[OF assms] by metis
  note L = slice_lengths[OF r l]
  have one: "so_strides s' ! k \<noteq> 0 \<and> (\<forall>j\<ge>0. (j < sizes_out outs ! k \<longrightarrow> 0 \<le> so_begin s' ! k + j * so_strides s' ! k \<and>
        so_begin s' ! k + j * so_strides s' ! k < xs ! k) \<and>
      (j < sizes_out outs ! k \<longleftrightarrow> (if 0 < so_strides s' ! k then so_begin s' ! k + j * so_strides s' ! k < so_end s' ! k
        else so_end s' ! k < so_begin s' ! k + j * so_strides s' ! k)))" if k: "k < length xs" for k
  proof -
    have d: "0 \<le> xs ! k" "xs ! k \<le> int64_max" using packed_partial[OF assms(2)] packed_range k by (auto simp: list_all_length)
    obtain b e where o: "axis_out True (xs ! k) b e (axis_stride sf (axes es ! k)) (axis_shrunk (axes es ! k))
      (axis_masked (sp_begin_mask (slice_spec T (Some bv) (Some ev) sf bm em elm nm sm)) (axes es ! k))
      (axis_masked (sp_end_mask (slice_spec T (Some bv) (Some ev) sf bm em elm nm sm)) (axes es ! k)) =
      Inr (fst (outs ! k), fst (snd (outs ! k)), snd (snd (outs ! k)))" using slice_axes_nth[OF es l(1) k] by blast
    from axis_out_known[OF o d] L(6)[OF k] show ?thesis by simp
  qed
  have "in_shape xs (source_index s' is)" if i: "in_shape (sizes_out outs) is" for "is"
    using i source_index_nth[OF L(3,5), of "is"] one L(2) unfolding in_shape_nth by auto
  then show ?thesis using L(1-5) one by (intro exI[of _ "sizes_out outs"]) (simp add: Let_def)
qed

section \<open>Identity and contiguous slices\<close>

lemma full_axis_size:
  assumes "axis_out True dim b e st sh bm em = Inr (0, dim, z)" "0 \<le> dim" "dim \<le> int64_max" "st = 1"
  shows "z = dim"
proof -
  have z: "0 \<le> z" using axis_out_size(4)[OF assms(1)] assms(2,3) by simp
  have "j < z \<longleftrightarrow> j < dim" if "0 \<le> j" for j using axis_out_known(3)[OF assms(1-3) that] assms(4) by simp
  from this[of z] this[of dim] show ?thesis using z assms(2) by simp
qed

lemma row_major_block:
  assumes "xs \<noteq> []" "length zs = length xs" "length is = length xs" "tl zs = tl xs" "js = (b + hd is) # tl is"
  shows "row_major xs js = b * prod_list (tl xs) + row_major zs is"
  using assms by (cases xs; cases zs; cases "is") (auto simp: distrib_right)

text \<open>
  C31. What the three flags of a successful validation promise. A simple slice has only strides of one. For
  the identity the slice has the sizes of the input and each of its elements is the one at the same index. With
  \<open>slice_dim0\<close> the slice is one block of the memory of the input: element by element, the
  position is the one in the slice plus begin of dimension 0 times the size of a row.
\<close>

theorem strided_slice_flags:
  assumes "slice_args T (Some bv) (Some ev) sf elm" and "packed False t xs" and "length xs \<le> 32"
    and "validate_full T bv ev sf t bm em elm nm sm s = (Inr (), s')"
  shows "\<exists>zs. packed False (so_processing_shape s') zs \<and>
      (so_is_simple_slice s' \<longleftrightarrow> list_all (\<lambda>st. st = 1) (so_strides s')) \<and>
      (so_is_identity s' \<longrightarrow> zs = xs \<and> (\<forall>is. in_shape xs is \<longrightarrow> source_index s' is = is)) \<and>
      (so_slice_dim0 s' \<and> xs \<noteq> [] \<longrightarrow> (\<forall>is. in_shape zs is \<longrightarrow>
        row_major xs (source_index s' is) = hd (so_begin s') * prod_list (tl xs) + row_major zs is))"
proof -
  define sp where "sp = slice_spec T (Some bv) (Some ev) sf bm em elm nm sm"
  obtain es outs where es: "slice_axes sp (Some bv) (Some ev) sf xs es = Inr outs"
    and r: "slice_result False sp (Some bv) (Some ev) sf xs es outs s s'" and l: "length (axes es) = length xs" "length outs = length xs"
    using validate_full_Inr[OF assms, folded sp_def] by metis
  note L = slice_lengths[OF r l] and R = r[unfolded slice_result_def Let_def]
  have d: "0 \<le> xs ! k \<and> xs ! k \<le> int64_max" if "k < length xs" for k
    using packed_partial[OF assms(2)] packed_range that by (auto simp: list_all_length)
  have full: "so_begin s' ! k = 0 \<and> so_strides s' ! k = 1 \<and> sizes_out outs ! k = xs ! k"
    if k: "k < length xs" and f: "axis_full True (xs ! k) (outs ! k) (axis_stride sf (axes es ! k)) bm' em'" for k bm' em'
  proof -
    obtain b e where o: "axis_out True (xs ! k) b e (axis_stride sf (axes es ! k)) (axis_shrunk (axes es ! k))
        (axis_masked (sp_begin_mask sp) (axes es ! k)) (axis_masked (sp_end_mask sp) (axes es ! k)) =
        Inr (fst (outs ! k), fst (snd (outs ! k)), snd (snd (outs ! k)))" using slice_axes_nth[OF es l(1) k] by blast
    have v: "axis_stride sf (axes es ! k) = 1" "fst (outs ! k) = 0" "fst (snd (outs ! k)) = xs ! k" using f by (auto simp: axis_full_def)
    show ?thesis using full_axis_size[OF o[unfolded v(2,3)]] d[OF k] v L(6)[OF k] by simp
  qed
  have nk: "xs ! k \<noteq> - 1" if "k < length xs" for k using d[OF that] by simp
  have simple: "so_is_simple_slice s' \<longleftrightarrow> list_all (\<lambda>st. st = 1) (so_strides s')"
    using R L(5,6) nk l by (simp add: list_all_length)
  have id_all: "so_begin s' ! k = 0 \<and> so_strides s' ! k = 1 \<and> sizes_out outs ! k = xs ! k" if "so_is_identity s'" "k < length xs" for k
    using R that full[OF that(2)] nk[OF that(2)] unfolding axis_identity_def by auto
  have identity: "sizes_out outs = xs \<and> (\<forall>is. in_shape xs is \<longrightarrow> source_index s' is = is)" if i: "so_is_identity s'"
  proof (intro conjI allI impI)
    show "sizes_out outs = xs" using id_all[OF i] L(2) by (simp add: list_eq_iff_nth_eq)
    fix "is" assume "in_shape xs is"
    then have li: "length is = length xs" by (simp add: in_shape_nth)
    show "source_index s' is = is" using source_index_nth[OF L(3,5) li] id_all[OF i] li by (simp add: list_eq_iff_nth_eq)
  qed
  have block: "row_major xs (source_index s' is) = hd (so_begin s') * prod_list (tl xs) + row_major (sizes_out outs) is"
    if z: "so_slice_dim0 s'" and ne: "xs \<noteq> []" and i: "in_shape (sizes_out outs) is" for "is"
  proof -
    have li: "length is = length xs" using i L(2) by (simp add: in_shape_nth)
    have d0: "axis_dim0 True k (xs ! k) (outs ! k) (axis_stride sf (axes es ! k)) (axis_masked (sp_begin_mask sp) (axes es ! k))
        (axis_masked (sp_end_mask sp) (axes es ! k))" if "k < length xs" for k using R z that by simp
    have rest: "so_begin s' ! Suc k = 0 \<and> so_strides s' ! Suc k = 1 \<and> sizes_out outs ! Suc k = xs ! Suc k" if "Suc k < length xs" for k
      using d0[OF that] full[OF that] nk[OF that] unfolding axis_dim0_def by auto
    have st0: "so_strides s' ! 0 = 1" using d0[of 0] full[of 0] nk[of 0] ne L(6)[of 0] unfolding axis_dim0_def by auto
    have "tl (sizes_out outs) = tl xs" using rest L(2) by (auto simp: nth_tl intro!: nth_equalityI)
    moreover have "source_index s' is = (hd (so_begin s') + hd is) # tl is"
    proof (rule nth_equalityI)
      have ne': "so_begin s' \<noteq> []" "is \<noteq> []" using ne L(3) li by auto
      show "length (source_index s' is) = length ((hd (so_begin s') + hd is) # tl is)"
        using source_index_nth[OF L(3,5) li] ne li by (cases "is") simp_all
      fix k assume "k < length (source_index s' is)"
      then show "source_index s' is ! k = ((hd (so_begin s') + hd is) # tl is) ! k"
        using source_index_nth[OF L(3,5) li] st0 rest li ne' by (cases k) (auto simp: hd_conv_nth nth_tl)
    qed
    ultimately show ?thesis using row_major_block[OF ne L(2) li] by simp
  qed
  show ?thesis using L(1) simple identity block by (intro exI[of _ "sizes_out outs"]) blast
qed

section \<open>The example\<close>

lemma rows_run: "fst (validate_full DT_INT32 [1, 0] [3, 0] [1, 1] matrix43 0 0 2 0 0 no_slice) = Inr ()"
  by code_simp

definition rows_slice :: slice_out where
  "rows_slice = snd (validate_full DT_INT32 [1, 0] [3, 0] [1, 1] matrix43 0 0 2 0 0 no_slice)"

lemma rows_result:
  "validate_full DT_INT32 [1, 0] [3, 0] [1, 1] matrix43 0 0 2 0 0 no_slice = (Inr (), rows_slice)"
  using rows_run by (simp add: rows_slice_def prod_eq_iff)

lemma rows_values:
  "so_begin rows_slice = [1, 0] \<and> so_end rows_slice = [3, 3] \<and> so_strides rows_slice = [1, 1] \<and> so_slice_dim0 rows_slice \<and>
   \<not> so_is_identity rows_slice"
  unfolding rows_slice_def by code_simp

lemma strided_slice_reads_input_witness:
  "\<exists>zs. packed False (so_processing_shape rows_slice) zs \<and> length zs = 2 \<and> (\<forall>is. in_shape zs is \<longrightarrow> in_shape [4, 3] (source_index rows_slice is))"
  using strided_slice_reads_input[OF rows_args matrix43_packed _ rows_result] by auto

lemma strided_slice_flags_witness:
  "\<exists>zs. packed False (so_processing_shape rows_slice) zs \<and>
     (\<forall>is. in_shape zs is \<longrightarrow> row_major [4, 3] (source_index rows_slice is) = 3 + row_major zs is)"
  using strided_slice_flags[OF rows_args matrix43_packed _ rows_result] rows_values by auto

end
