(* ===== verification/SlicePartial.thy ===== *)
theory SlicePartial
  imports SliceProps
begin

text \<open>
  Shape inference calls the same function with what it knows: a partial shape of the input and perhaps no
  begin or no end. Its result describes every result that the kernel can have.
\<close>

section \<open>Partial sizes\<close>

definition describes_sizes :: "int list \<Rightarrow> int list \<Rightarrow> bool" where
  "describes_sizes ps xs \<longleftrightarrow> list_all2 (\<lambda>p x. p = - 1 \<or> p = x) ps xs"

text \<open>An argument may be left out.\<close>

definition maybe_given :: "int list option \<Rightarrow> int list \<Rightarrow> bool" where
  "maybe_given vf v \<longleftrightarrow> vf = None \<or> vf = Some v"

lemma describes_fit:
  "list_all2 (\<lambda>p x. p = - 1 \<or> p = x) ps zs \<Longrightarrow> prefixes_fit n zs \<Longrightarrow> prefixes_fit n (takeWhile (\<lambda>x. 0 \<le> x) ps)"
  by (induction ps zs arbitrary: n rule: list_all2_induct) auto

lemma describes_room:
  assumes "describes_sizes ps zs" "room_for zs" "list_all (\<lambda>x. 0 \<le> x) zs"
  shows "room_for ps"
  using describes_fit[of ps zs 1] assms list_all2_lengthD[of _ ps zs]
  by (auto simp: describes_sizes_def room_for_def fits_count_known fits_count_def takeWhile_all)

lemma describes_out:
  "list_all2 (\<lambda>p x. p = - 1 \<or> p = x) ps zs \<Longrightarrow> length (axes es) = length zs \<Longrightarrow>
   list_all2 (\<lambda>p x. p = - 1 \<or> p = x) (out_sizes ps es) (out_sizes zs es)"
proof (induction es arbitrary: ps zs)
  case (Cons e es)
  show ?case
  proof (cases "e = NewAxis")
    case True
    then show ?thesis using Cons by simp
  next
    case False
    then obtain z zs' where z: "zs = z # zs'" using Cons.prems(2) by (cases zs) auto
    then obtain p ps' where p: "ps = p # ps'" using Cons.prems(1) by (cases ps) auto
    show ?thesis using Cons.IH[of ps' zs'] Cons.prems z p False by (cases e) auto
  qed
qed simp

section \<open>One dimension\<close>

lemma canonical_masked:
  assumes "0 \<le> dim" "st \<noteq> 0"
  shows "canonical st dim True e 1 - canonical st dim True b 0 = (if st < 0 then - dim else dim)"
  using assms by (auto simp: canonical_def Let_def)

text \<open>What is computed from less describes what is computed from all.\<close>

lemma axis_out_describes:
  assumes o: "axis_out True dim b e st sh bm em = Inr out" and d: "0 \<le> dim" "dim \<le> int64_max"
    and p: "p = - 1 \<or> p = dim" and k: "known \<Longrightarrow> b' = b \<and> e' = e"
  shows "\<exists>out'. axis_out known p b' e' st sh bm em = Inr out' \<and> (snd (snd out') = - 1 \<or> snd (snd out') = snd (snd out))"
proof -
  have st: "st \<noteq> 0" "sh \<Longrightarrow> 0 < st" using o d by (auto simp: axis_out_def split: if_splits)
  have z1: "sh \<Longrightarrow> snd (snd out) = 1"
    using axis_out_size(3)[of True dim b e st sh bm em "fst out" "fst (snd out)" "snd (snd out)"] o d by simp
  consider "p = - 1" | "p = dim" "known" | "p = dim" "\<not> known" using p by blast
  then show ?thesis
  proof cases
    case 1
    then show ?thesis using st z1 by (auto simp: axis_out_def)
  next
    case 2
    then show ?thesis using o k by simp
  next
    case 3
    show ?thesis
    proof (cases "\<not> sh \<and> bm \<and> em")
      case True
      then have "snd (snd out) = sliceSize (if st < 0 then - dim else dim) st"
        using o d st canonical_masked[OF d(1) st(1), of e b] by (auto simp: axis_out_def Let_def split: if_splits)
      then show ?thesis using 3 True st d by (auto simp: axis_out_def)
    next
      case False
      then show ?thesis using 3 st z1 d by (auto simp: axis_out_def)
    qed
  qed
qed

lemma slice_spec_parts:
  "slice_entries n (slice_spec T bf ef sf bm em elm nm sm) = slice_entries n (slice_spec T bf' ef' sf bm em elm nm sm)"
proof -
  define sp where "sp = slice_spec T bf ef sf bm em elm nm sm"
  define sp' where "sp' = slice_spec T bf' ef' sf bm em elm nm sm"
  have s: "sp_dims sp = sp_dims sp'" "sp_ellipsis_mask sp = sp_ellipsis_mask sp'" "sp_new_axis_mask sp = sp_new_axis_mask sp'"
    "sp_shrink_axis_mask sp = sp_shrink_axis_mask sp'" by (simp_all add: sp_def sp'_def slice_spec_def sparse_of_def Let_def)
  have f: "isEllipsis sp = isEllipsis sp'" "isNewAxis sp = isNewAxis sp'" "isIndex sp = isIndex sp'"
    by (simp_all add: fun_eq_iff isIndex_def isNewAxis_def isEllipsis_def s)
  have e: "entryOf w sp = entryOf w sp'" for w by (intro ext) (simp only: entryOf_def f s)
  have g: "entries w sp is = entries w sp' is" "indices sp is = indices sp' is" for w "is"
    by (simp_all add: entries_def indices_def f e)
  show ?thesis unfolding sp_def[symmetric] sp'_def[symmetric] slice_entries_def s(1) g Let_def by (rule refl)
qed

section \<open>The whole slice\<close>

lemma axis_spec_describes:
  assumes o: "axis_spec (slice_spec T (Some bv) (Some ev) sf bm em elm nm sm) (Some bv) (Some ev) sf (x, e) = Inr out"
    and x: "0 \<le> x" "x \<le> int64_max" "p = - 1 \<or> p = x" and m: "maybe_given bf bv" "maybe_given ef ev"
  shows "\<exists>out'. axis_spec (slice_spec T bf ef sf bm em elm nm sm) bf ef sf (p, e) = Inr out' \<and>
    (snd (snd out') = - 1 \<or> snd (snd out') = snd (snd out))"
  using axis_out_describes[OF o[unfolded axis_spec_def prod.case, simplified] x, of "bf \<noteq> None \<and> ef \<noteq> None"
      "case axis_value bf e of None \<Rightarrow> 0 | Some x \<Rightarrow> x" "case axis_value ef e of None \<Rightarrow> 0 | Some x \<Rightarrow> x"] m
  by (auto simp: axis_spec_def slice_spec_simps maybe_given_def)

lemma mapR_take: "mapR f xs = Inr ys \<Longrightarrow> mapR f (take j xs) = Inr (take j ys)"
  by (induction xs arbitrary: ys j) (auto simp: bindR_eq_Inr take_Cons split: nat.splits)

lemma mapR_describes:
  assumes "\<And>k. k < length xs \<Longrightarrow> \<exists>out'. f (ys ! k) = Inr out' \<and> R out' (outs ! k)" "length ys = length xs" "length outs = length xs"
  shows "\<exists>outs'. mapR f ys = Inr outs' \<and> list_all2 R outs' outs"
  using assms
proof (induction ys arbitrary: xs outs)
  case (Cons y ys)
  then obtain x xs' out outs' where c: "xs = x # xs'" "outs = out # outs'" by (cases xs; cases outs) auto
  have "\<exists>zs. mapR f ys = Inr zs \<and> list_all2 R zs outs'"
    by (rule Cons.IH[of xs']) (use Cons.prems(1)[of "Suc k" for k] Cons.prems(2,3) c in auto)
  moreover have "\<exists>z. f y = Inr z \<and> R z out" using Cons.prems(1)[of 0] c by simp
  ultimately show ?case unfolding c by auto
qed simp

lemma slice_result_packed:
  "slice_result partial sp bf ef sf xs es outs s s' \<Longrightarrow>
   packed partial (so_processing_shape s') (sizes_out outs) \<and> packed partial (so_final_shape s') (out_sizes (sizes_out outs) es)"
  by (simp add: slice_result_def Let_def)

lemma validate_partial:
  assumes full: "slice_args T (Some bv) (Some ev) sf elm" "packed False t xs" "length xs \<le> 32"
      "validate_full T bv ev sf t bm em elm nm sm s = (Inr (), s')"
    and part: "packed True u ps" "describes_sizes ps xs" "maybe_given bf bv" "maybe_given ef ev"
  obtains (result) es outs outs' r' where "validate_slice T bf ef sf u bm em elm nm sm r = (Inr (), r')"
    "slice_result False (slice_spec T (Some bv) (Some ev) sf bm em elm nm sm) (Some bv) (Some ev) sf xs es outs s s'"
    "slice_result True (slice_spec T bf ef sf bm em elm nm sm) bf ef sf ps es outs' r r'"
    "describes_sizes (sizes_out outs') (sizes_out outs)" "describes_sizes (out_sizes (sizes_out outs') es) (out_sizes (sizes_out outs) es)"
    "ps = xs \<Longrightarrow> bf = Some bv \<Longrightarrow> ef = Some ev \<Longrightarrow> outs' = outs"
proof -
  define sp where "sp = slice_spec T (Some bv) (Some ev) sf bm em elm nm sm"
  define sp' where "sp' = slice_spec T bf ef sf bm em elm nm sm"
  obtain es outs where es: "slice_entries (length xs) sp = Some es" and o: "slice_axes sp (Some bv) (Some ev) sf xs es = Inr outs"
    and r: "slice_result False sp (Some bv) (Some ev) sf xs es outs s s'" and l: "length (axes es) = length xs" "length outs = length xs"
    using validate_full_Inr[OF full, folded sp_def] by metis
  have lp: "length ps = length xs" using part(2) by (auto simp: describes_sizes_def dest: list_all2_lengthD)
  have args: "slice_args T bf ef sf elm" using full(1) part(3,4) by (auto simp: slice_args_def maybe_given_def index_vector_def)
  have es': "slice_entries (length ps) sp' = Some es" unfolding lp es[symmetric] sp_def sp'_def by (rule slice_spec_parts)
  have zs: "packed False (so_processing_shape s') (sizes_out outs)" using slice_result_packed[OF r] by simp
  have each: "\<exists>out'. axis_spec sp' bf ef sf (zip ps (axes es) ! k) = Inr out' \<and> (snd (snd out') = - 1 \<or> snd (snd out') = snd (snd (outs ! k)))"
    if k: "k < length xs" for k
  proof -
    have "axis_spec sp (Some bv) (Some ev) sf (xs ! k, axes es ! k) = Inr (outs ! k)"
      using mapR_nth[OF o[unfolded slice_axes_def], of k] k l by simp
    moreover have "0 \<le> xs ! k" "xs ! k \<le> int64_max" using packed_partial[OF full(2)] packed_range k by (auto simp: list_all_length)
    moreover have "ps ! k = - 1 \<or> ps ! k = xs ! k" using part(2) k lp by (simp add: describes_sizes_def list_all2_conv_all_nth)
    ultimately show ?thesis using axis_spec_describes[of T bv ev sf bm em elm nm sm] part(3,4) k lp l unfolding sp_def sp'_def by simp
  qed
  obtain outs' where o': "mapR (axis_spec sp' bf ef sf) (zip ps (axes es)) = Inr outs'"
      "list_all2 (\<lambda>a b. snd (snd a) = - 1 \<or> snd (snd a) = snd (snd b)) outs' outs"
    using mapR_describes[where f = "axis_spec sp' bf ef sf" and ys = "zip ps (axes es)" and xs = xs and outs = outs
        and R = "\<lambda>a b. snd (snd a) = - 1 \<or> snd (snd a) = snd (snd b)"] each lp l by auto
  have dz: "describes_sizes (sizes_out outs') (sizes_out outs)"
    using o'(2) by (simp add: describes_sizes_def sizes_out_def list_all2_map1 list_all2_map2)
  have room: "room_for (sizes_out outs')" using describes_room[OF dz packed_room[OF zs] packed_partial(2)[OF zs]] .
  have "room_for (sizes_out os)" if a: "j \<le> length ps" "mapR (axis_spec sp' bf ef sf) (take j (zip ps (axes es))) = Inr os" for j os
  proof -
    have "os = take j outs'"
      using a(2) mapR_take[OF o'(1), of j] by simp
    then have "sizes_out outs' = sizes_out os @ sizes_out (drop j outs')" by (simp add: sizes_out_def flip: map_append)
    then show ?thesis using room room_for_take by metis
  qed
  then obtain r' where r': "validate_slice T bf ef sf u bm em elm nm sm r = (Inr (), r')" "slice_result True sp' bf ef sf ps es outs' r r'"
    using validate_run[OF args part(1) _ sp'_def es', of r] o'(1) full(3) lp unfolding slice_axes_def by auto
  have same: "outs' = outs" if "ps = xs" "bf = Some bv" "ef = Some ev"
    using o o'(1) that by (simp add: slice_axes_def sp_def sp'_def)
  show ?thesis by (rule result[OF r'(1)[unfolded sp'_def] r[unfolded sp_def] r'(2)[unfolded sp'_def] dz _ same])
    (use describes_out[OF dz[unfolded describes_sizes_def]] l in \<open>simp add: describes_sizes_def sizes_out_def\<close>)
qed

text \<open>
  C24. Shape inference is sound for strided slices. When the validation succeeds with the sizes of the
  input, begin and end, then so does the one with any partial shape that describes the input and with begin or
  end or both left out; in particular, no size that it adds is fatal. The sizes that it computes, of the slice and of the
  result, are unknown or those of the full call, and they are those of the full call when nothing is left out.
\<close>

theorem strided_slice_inference_sound:
  assumes full: "slice_args T (Some bv) (Some ev) sf elm" "packed False t xs" "length xs \<le> 32"
      "validate_full T bv ev sf t bm em elm nm sm s = (Inr (), s')"
    and part: "packed True u ps" "describes_sizes ps xs" "maybe_given bf bv" "maybe_given ef ev"
  shows "\<exists>r' zs fs pzs pfs. validate_slice T bf ef sf u bm em elm nm sm r = (Inr (), r') \<and>
      packed False (so_processing_shape s') zs \<and> packed False (so_final_shape s') fs \<and>
      packed True (so_processing_shape r') pzs \<and> packed True (so_final_shape r') pfs \<and>
      describes_sizes pzs zs \<and> describes_sizes pfs fs \<and>
      (ps = xs \<and> bf = Some bv \<and> ef = Some ev \<longrightarrow> pzs = zs \<and> pfs = fs)"
proof -
  obtain es outs outs' r' where v: "validate_slice T bf ef sf u bm em elm nm sm r = (Inr (), r')"
      and s: "slice_result False (slice_spec T (Some bv) (Some ev) sf bm em elm nm sm) (Some bv) (Some ev) sf xs es outs s s'"
      and p: "slice_result True (slice_spec T bf ef sf bm em elm nm sm) bf ef sf ps es outs' r r'"
      and d: "describes_sizes (sizes_out outs') (sizes_out outs)" "describes_sizes (out_sizes (sizes_out outs') es) (out_sizes (sizes_out outs) es)"
      and e: "ps = xs \<Longrightarrow> bf = Some bv \<Longrightarrow> ef = Some ev \<Longrightarrow> outs' = outs"
    using validate_partial[OF assms, of r] by metis
  show ?thesis using v d e slice_result_packed[OF s] slice_result_packed[OF p] by blast
qed

definition rows_unknown :: tensor_shape where
  "rows_unknown = \<lparr>ts_rep = Rep16 [kUnknownRep16, 3], ndims_byte = 2, num_elements = - 1, ts_data_type = DT_INVALID\<rparr>"

lemma strided_slice_inference_sound_witness:
  "\<exists>r' zs pzs. validate_slice DT_INT32 None (Some [3, 0]) [1, 1] rows_unknown 0 0 2 0 0 no_slice = (Inr (), r') \<and>
     packed False (so_processing_shape rows_slice) zs \<and> packed True (so_processing_shape r') pzs \<and> describes_sizes pzs zs"
proof -
  have "packed True rows_unknown [- 1, 3]"
    by (simp add: rows_unknown_def packed_def stores_def rep_ok_def sizes_of_def fits_count_def count_of_def read16_def)
  moreover have "describes_sizes [- 1, 3] [4, 3]" by (simp add: describes_sizes_def)
  moreover have "maybe_given None [1 :: int, 0]" "maybe_given (Some [3, 0]) [3 :: int, 0]" by (simp_all add: maybe_given_def)
  ultimately show ?thesis
    using strided_slice_inference_sound[OF rows_args matrix43_packed _ rows_result, of rows_unknown "[- 1, 3]" None "Some [3, 0]" no_slice]
    by auto
qed

text \<open>
  Without a full call that succeeds the sizes can be fatal: for an input of sizes \<open>(-1, 2^40, 2^40)\<close>, which
  is a shape because the first is unknown, with begin unknown and dimension 0 indexed, the slice
  is known to have size one there, and adding the last size fails a check.
\<close>

lemma inference_can_abort:
  "packed True \<lparr>ts_rep = RepOutOfLine [- 1, 1099511627776, 1099511627776], ndims_byte = 3, num_elements = - 1, ts_data_type = DT_INVALID\<rparr>
     [- 1, 1099511627776, 1099511627776]"
  "fst (validate_slice DT_INT32 None None [1] \<lparr>ts_rep = RepOutOfLine [- 1, 1099511627776, 1099511627776], ndims_byte = 3,
     num_elements = - 1, ts_data_type = DT_INVALID\<rparr> 0 0 0 0 1 no_slice) = Inl (Fault CheckFailed)"
  subgoal by (simp add: packed_def stores_def rep_ok_def sizes_of_def fits_count_def count_of_def dim_ok_def)
  subgoal by code_simp
  done

end
