(* ===== verification/StridedSliceFn.thy ===== *)
theory StridedSliceFn
  imports SlicePartial CallRules
begin

text \<open>
  The shape function of \<open>StridedSlice\<close> (\<open>ops/array_ops.cc\<close>) joins the three layers: it reads what the
  context knows of the input into a packed partial shape, runs the validation of the kernel on it and makes
  a handle of the sizes that come out.
\<close>

section \<open>The shape function\<close>

text \<open>A local tensor shape, on which the code runs one operation.\<close>

definition runShape :: "unit tsop \<Rightarrow> tensor_shape \<Rightarrow> tensor_shape res" where
  "runShape f t = (case f t of (Inl e, _) \<Rightarrow> Inl e | (Inr _, t') \<Rightarrow> Inr t')"

definition addInputDim :: "shape \<Rightarrow> int \<Rightarrow> tensor_shape \<Rightarrow> tensor_shape cop" where
  "addInputDim s i t =
     andThen (Dim s i) (\<lambda>d.
     andThen (gets (\<lambda>c. if DKnown c d then DValue c d else - 1)) (\<lambda>v.
     liftR (runShape (AddDim True v) t)))"

definition partialInputShape :: "shape \<Rightarrow> tensor_shape cop" where
  "partialInputShape s =
     andThen (liftR (runShape (TensorShapeOfSizes True []) blankShape)) (\<lambda>t.
     andThen (gets (\<lambda>c. Rank c s)) (\<lambda>n.
     foldOp (addInputDim s) [0..n - 1] t))"

text \<open>The outputs of the validation before it runs; the flags are not initialised.\<close>

definition newSliceOut :: slice_out where
  "newSliceOut = \<lparr>so_processing_shape = defaultShape True, so_final_shape = defaultShape True, so_is_identity = False,
     so_is_simple_slice = False, so_slice_dim0 = False, so_begin = [], so_end = [], so_strides = [], so_shape_spec = None\<rparr>"

definition finalShape :: "unit soop \<Rightarrow> tensor_shape res" where
  "finalShape validate = (case validate newSliceOut of (Inl e, _) \<Rightarrow> Inl e | (Inr _, s) \<Rightarrow> Inr (so_final_shape s))"

text \<open>What \<open>MakeShapeFromPartialTensorShape\<close> reads of a packed shape.\<close>

definition partialSizes :: "tensor_shape \<Rightarrow> partial_shape res" where
  "partialSizes t = (if unknown_rank_of True t then Inr None else bindR (dim_sizes_of True t) (\<lambda>xs. Inr (Some xs)))"

definition GetMask :: "string \<Rightarrow> mask cop" where
  "GetMask name = andThen (GetAttr GetAttrInt32 name) (\<lambda>m. ret (word_of_int m))"

definition sliceOutput :: "shape \<Rightarrow> tensor \<Rightarrow> unit cop" where
  "sliceOutput s strides_value =
     andThen (partialInputShape s) (\<lambda>input_shape.
     andThen (GetMask ''begin_mask'') (\<lambda>begin_mask.
     andThen (GetMask ''end_mask'') (\<lambda>end_mask.
     andThen (GetMask ''ellipsis_mask'') (\<lambda>ellipsis_mask.
     andThen (GetMask ''new_axis_mask'') (\<lambda>new_axis_mask.
     andThen (GetMask ''shrink_axis_mask'') (\<lambda>shrink_axis_mask.
     andThen (input_tensor 1) (\<lambda>begin_value.
     andThen (input_tensor 2) (\<lambda>end_value.
     andThen (liftR (finalShape (ValidateStridedSliceOp begin_value end_value strides_value input_shape begin_mask end_mask
       ellipsis_mask new_axis_mask shrink_axis_mask))) (\<lambda>final_shape.
     andThen (liftR (partialSizes final_shape)) (\<lambda>p.
     andThen (MakeShapeFromPartialTensorShape p) (\<lambda>out.
     andThen (set_output 0 out) (\<lambda>_.
     andThen (input_handle_shapes_and_types_at 0) (\<lambda>shape_and_type.
     case shape_and_type of None \<Rightarrow> ret () | Some h \<Rightarrow> set_output_handle_shapes_and_types 0 h)))))))))))))"

definition StridedSliceShape :: "unit cop" where
  "StridedSliceShape =
     andThen (input 0) (\<lambda>s.
     andThen (input 1) (\<lambda>s1. andThen (WithRank s1 1) (\<lambda>begin_shape.
     andThen (input 2) (\<lambda>s2. andThen (WithRank s2 1) (\<lambda>end_shape.
     andThen (input 3) (\<lambda>s3. andThen (WithRank s3 1) (\<lambda>strides_shape.
     andThen (MergeShape begin_shape end_shape) (\<lambda>begin_shape.
     andThen (MergeShape begin_shape strides_shape) (\<lambda>begin_shape.
     andThen (Dim begin_shape 0) (\<lambda>sparse_dims_dim.
     andThen (input_tensor 3) (\<lambda>strides_value.
     andThen (gets (\<lambda>c. RankKnown c s)) (\<lambda>rank_known.
     andThen (gets (\<lambda>c. DKnown c sparse_dims_dim)) (\<lambda>dim_known.
     case strides_value of
       None \<Rightarrow> andThen UnknownShape (set_output 0)
     | Some v \<Rightarrow> if \<not> rank_known \<or> \<not> dim_known then andThen UnknownShape (set_output 0) else sliceOutput s v)))))))))))))"

text \<open>The gradient has the shape that its first input holds.\<close>

definition StridedSliceGradShape :: "unit cop" where
  "StridedSliceGradShape = andThen (MakeShapeFromShapeTensor 0) (set_output 0)"

section \<open>Reading the input\<close>

lemma partialInputShape_run:
  assumes ds: "shape_of c s = Some ds" and ok: "list_all (dim_ok True) (map (DValue c) ds)" and room: "room_for (map (DValue c) ds)"
  shows "\<exists>t. partialInputShape s c = (Inr t, c) \<and> packed True t (map (DValue c) ds)"
proof -
  let ?vs = "map (DValue c) ds"
  obtain t where t: "TensorShapeOfSizes True [] blankShape = (Inr (), t)" "packed True t []"
    using InitDims_run[of "[]" "blankShape\<lparr>ts_rep := Rep16 [], ts_data_type := DT_INVALID\<rparr>" True]
    by (auto simp: TensorShapeOfSizes_def BuildTensorShapeBase_def op_simps checkOk_def room_for_def fits_count_def)
  have "\<exists>t' c'. foldOp (addInputDim s) [0..int (length ds) - 1] t c = (Inr t', c') \<and> c' = c \<and>
      packed True t' (take (length [0..int (length ds) - 1]) ?vs)"
  proof (rule foldOp_rule[where I = "\<lambda>ys t' c'. c' = c \<and> packed True t' (take (length ys) ?vs)"])
    fix ys i zs t' c'
    assume e: "[0..int (length ds) - 1] = ys @ i # zs" and I: "c' = c \<and> packed True t' (take (length ys) ?vs)"
    have "length ys < length ds" using arg_cong[OF e, of length] by simp
    moreover have "[0..int (length ds) - 1] ! length ys = i" unfolding e by simp
    ultimately have i: "i = int (length ys)" "length ys < length ds" by auto
    have a: "room_for (take (length ys) ?vs @ [?vs ! length ys])"
      using room_for_take[of "take (length ys) ?vs @ [?vs ! length ys]" "drop (Suc (length ys)) ?vs"] room
        id_take_nth_drop[of "length ys" ?vs] i(2) by simp
    obtain t2 where t2: "AddDim True (?vs ! length ys) t' = (Inr (), t2)" "packed True t2 (take (Suc (length ys)) ?vs)"
      using AddDims_check[OF conjunct2[OF I], of "[?vs ! length ys]"] ok i(2) a
      by (auto simp: take_Suc_conv_app_nth op_simps andThen_def list_all_length split: prod.splits sum.splits)
    have "(if DKnown c (ds ! length ys) then DValue c (ds ! length ys) else - 1) = ?vs ! length ys"
      using i(2) by (simp add: ValueKnown_def)
    then show "\<exists>b' s'. addInputDim s i t' c' = (Inr b', s') \<and> s' = c \<and> packed True b' (take (length (ys @ [i])) ?vs)"
      using I i t2 by (simp add: addInputDim_def andThen_def Dim_known[OF ds] vecAt_def gets_def liftR_def runShape_def)
  qed (use t in simp)
  moreover have "Rank c s = int (length ds)" using ds by (simp add: Rank_def)
  ultimately show ?thesis using t by (simp add: partialInputShape_def andThen_def liftR_def gets_def runShape_def)
qed

section \<open>The output\<close>

lemma mapOp_sizes_wp:
  assumes "good W" "describes_sizes ps xs" "list_all is_size xs"
  shows "wp (mapOp (\<lambda>d. MakeDim (Const d)) ps) (\<lambda>rs W'. quiet W W' \<and> list_all2 (\<lambda>r (p, x). has_dim W' r x \<and> (p = x \<longrightarrow> known_dim W' r)) rs (zip ps xs)) W"
proof -
  have "list_all2 (\<lambda>p (q, x). p = q \<and> (p = - 1 \<or> p = x) \<and> is_size x) ps (zip ps xs)"
    using assms(2,3) by (auto simp: describes_sizes_def list_all2_conv_all_nth list_all_length)
  then show ?thesis
  proof (rule wp_mapOp[where P = "\<lambda>W' r (p, x). has_dim W' r x \<and> (p = x \<longrightarrow> known_dim W' r)"])
    fix p y W1
    assume R: "case y of (q, x) \<Rightarrow> p = q \<and> (p = - 1 \<or> p = x) \<and> is_size x" and q: "quiet W W1"
    obtain x where y: "y = (p, x)" and x: "p = - 1 \<or> p = x" "is_size x" using R by (cases y) auto
    have g: "good W1" using q by (rule good_quiet)
    have "has_doc W1 (Const p) x" using x by (auto simp: has_doc_def)
    from MakeDim_wp[OF g this]
    show "wp (MakeDim (Const p)) (\<lambda>r W2. quiet W1 W2 \<and> (case y of (p, x) \<Rightarrow> has_dim W2 r x \<and> (p = x \<longrightarrow> known_dim W2 r))) W1"
    proof (cases "p = x")
      case True
      then show ?thesis
        using MakeDim_Const_gives[OF know_start[OF g] x(2)] y by simp
    next
      case False
      then show ?thesis using \<open>wp (MakeDim (Const p)) _ W1\<close> y by simp
    qed
  next
    fix W1 W2 r y
    assume "quiet W1 W2" "case y of (p, x) \<Rightarrow> has_dim W1 r x \<and> (p = x \<longrightarrow> known_dim W1 r)"
    then show "case y of (p, x) \<Rightarrow> has_dim W2 r x \<and> (p = x \<longrightarrow> known_dim W2 r)"
      by (auto dest: quiet_step intro: quiet_has_dim step_known_dim)
  qed (rule assms(1))
qed

lemma MakeShapeFromPartialTensorShape_gives:
  assumes "know \<Gamma> W" "describes_sizes ps xs" "list_all is_size xs" "k \<longrightarrow> ps = xs"
  shows "gives (MakeShapeFromPartialTensorShape (Some ps)) (\<lambda>s. [ShapeIs s xs k, Ranked s]) W"
  unfolding MakeShapeFromPartialTensorShape_def option.case
proof (rule wp_seq[OF mapOp_sizes_wp[OF know_good[OF assms(1)] assms(2,3)]])
  fix rs W1
  assume q: "quiet W W1 \<and> list_all2 (\<lambda>r (p, x). has_dim W1 r x \<and> (p = x \<longrightarrow> known_dim W1 r)) rs (zip ps xs)"
  have l: "length ps = length xs" using assms(2) by (auto simp: describes_sizes_def dest: list_all2_lengthD)
  have "has_dims W1 rs xs" "k \<longrightarrow> list_all (known_dim W1) rs"
    using q l assms(4) by (auto simp: has_dims_def list_all2_conv_all_nth list_all_length)
  from MakeShape_gives[OF know_quiet[OF conjunct1[OF q] assms(1)] this]
  show "wp (MakeShape rs) (\<lambda>s W'. quiet W W' \<and> list_all (holds W') [ShapeIs s xs k, Ranked s]) W1"
    by (rule wp_mono) (use q quiet_trans in blast)
qed


section \<open>What the function is given\<close>

text \<open>The kernel accepts the slice of an input of sizes \<open>xs\<close>, and its result has sizes \<open>fs\<close>.\<close>

definition slices_to :: "data_type \<Rightarrow> int list \<Rightarrow> int list \<Rightarrow> int list \<Rightarrow> mask \<Rightarrow> mask \<Rightarrow> mask \<Rightarrow> mask \<Rightarrow> mask \<Rightarrow> int list \<Rightarrow> int list \<Rightarrow> bool" where
  "slices_to T bv ev sf bm em elm nm sm xs fs \<longleftrightarrow> slice_args T (Some bv) (Some ev) sf elm \<and> length xs \<le> 32 \<and>
     (\<exists>t s s'. packed False t xs \<and> validate_full T bv ev sf t bm em elm nm sm s = (Inr (), s') \<and> packed False (so_final_shape s') fs)"

definition mask_attrs :: "attrs \<Rightarrow> mask \<Rightarrow> mask \<Rightarrow> mask \<Rightarrow> mask \<Rightarrow> mask \<Rightarrow> bool" where
  "mask_attrs as bm em elm nm sm \<longleftrightarrow>
     GetAttrInt32 as ''begin_mask'' = Inr (sint bm) \<and> GetAttrInt32 as ''end_mask'' = Inr (sint em) \<and>
     GetAttrInt32 as ''ellipsis_mask'' = Inr (sint elm) \<and> GetAttrInt32 as ''new_axis_mask'' = Inr (sint nm) \<and>
     GetAttrInt32 as ''shrink_axis_mask'' = Inr (sint sm)"

definition slice_tensors :: "tensor option list \<Rightarrow> data_type \<Rightarrow> int list option \<Rightarrow> int list option \<Rightarrow> int list option \<Rightarrow> bool" where
  "slice_tensors ts T bf ef vf \<longleftrightarrow> ts ! 1 = map_option (slice_vector T) bf \<and> ts ! 2 = map_option (slice_vector T) ef \<and>
     ts ! 3 = map_option (slice_vector T) vf"

lemma packed_same: "packed partial t xs \<Longrightarrow> packed partial t ys \<Longrightarrow> xs = ys"
  using packed_wf[of partial t xs] packed_wf[of partial t ys] by simp

lemma know_GetMask:
  assumes "know \<Gamma> W" "From W0 \<in> set \<Gamma>" "GetAttrInt32 (attrs (ctx_of W0)) name = Inr (sint m)" "wp (f m) Q W"
  shows "wp (andThen (GetMask name) f) Q W"
  unfolding GetMask_def andThen_assoc ret_bind
  by (rule know_GetAttr, rule assms(1), rule assms(2), rule assms(3)) (use assms(4) in simp)

lemma final_are_sizes: "slices_to T bv ev sf bm em elm nm sm xs fs \<Longrightarrow> list_all is_size fs"
proof -
  assume "slices_to T bv ev sf bm em elm nm sm xs fs"
  then obtain t where "packed False t fs" by (auto simp: slices_to_def)
  from packed_partial[OF this] show ?thesis using packed_range by (auto simp: list_all_length is_size_def)
qed

lemma final_sizes:
  assumes v: "slices_to T bv ev sf bm em elm nm sm xs fs"
    and p: "packed True u ps" "describes_sizes ps xs" "maybe_given bf bv" "maybe_given ef ev"
  obtains r' pfs where "validate_slice T bf ef sf u bm em elm nm sm newSliceOut = (Inr (), r')"
    "partialSizes (so_final_shape r') = Inr (Some pfs)" "describes_sizes pfs fs" "list_all is_size fs"
    "ps = xs \<Longrightarrow> bf = Some bv \<Longrightarrow> ef = Some ev \<Longrightarrow> pfs = fs"
proof -
  obtain t s s' where full: "slice_args T (Some bv) (Some ev) sf elm" "packed False t xs" "length xs \<le> 32"
      "validate_full T bv ev sf t bm em elm nm sm s = (Inr (), s')" and f: "packed False (so_final_shape s') fs"
    using v by (auto simp: slices_to_def)
  obtain es outs outs' r' where r: "validate_slice T bf ef sf u bm em elm nm sm newSliceOut = (Inr (), r')"
      and a: "slice_result False (slice_spec T (Some bv) (Some ev) sf bm em elm nm sm) (Some bv) (Some ev) sf xs es outs s s'"
      and b: "slice_result True (slice_spec T bf ef sf bm em elm nm sm) bf ef sf ps es outs' newSliceOut r'"
      and d: "describes_sizes (out_sizes (sizes_out outs') es) (out_sizes (sizes_out outs) es)"
      and e: "ps = xs \<Longrightarrow> bf = Some bv \<Longrightarrow> ef = Some ev \<Longrightarrow> outs' = outs"
    using validate_partial[OF full p, of newSliceOut] by metis
  have fs: "out_sizes (sizes_out outs) es = fs" using packed_same slice_result_packed[OF a] f by blast
  have "packed True (so_final_shape r') (out_sizes (sizes_out outs') es)" using slice_result_packed[OF b] by simp
  then have "partialSizes (so_final_shape r') = Inr (Some (out_sizes (sizes_out outs') es))"
    using stores_sizes stores_known(1) by (auto simp: partialSizes_def packed_def)
  then show ?thesis using that r d e fs final_are_sizes[OF v] by blast
qed

section \<open>The branches\<close>

lemma sliceOutput_wp:
  assumes k: "know \<Gamma> W" "From W0 \<in> set \<Gamma>" "ShapeIs s xs kx \<in> set \<Gamma>" "RankKnown (ctx_of W) s"
    and l: "length (outputs (ctx_of W0)) = 1" "handle_slots W0" "length (requested_input_tensor (ctx_of W0)) = 4" "length (input_tensors (ctx_of W0)) = 4"
    and as: "mask_attrs (attrs (ctx_of W0)) bm em elm nm sm" and ts: "slice_tensors (input_tensors (ctx_of W0)) T bf ef (Some sf)"
    and v: "slices_to T bv ev sf bm em elm nm sm xs fs" and m: "maybe_given bf bv" "maybe_given ef ev"
  shows "wp (sliceOutput s (slice_vector T sf)) (\<lambda>_ W'. shaped_as W0 (kx \<and> bf = Some bv \<and> ef = Some ev) fs W') W"
proof -
  note g = know_good[OF k(1)]
  obtain ds where ds: "shape_of (ctx_of W) s = Some ds" using k(4) rank_known_shape_of[of W s] by (auto simp: rank_known_def)
  let ?ps = "map (DValue (ctx_of W)) ds"
  have hd: "has_dims W ds xs" using has_shape_known[OF g _ ds] know_shape[OF k(1,3)] by simp
  then have d: "describes_sizes ?ps xs"
    using has_dim_value[OF g] by (auto simp: describes_sizes_def has_dims_def list_all2_conv_all_nth)
  have ok: "list_all (dim_ok True) ?ps"
    using hd has_dim_value[OF g] has_dim_size[OF g]
    by (fastforce simp: list_all_length has_dims_def list_all2_conv_all_nth dim_ok_def is_size_def)
  obtain t0 where t0: "packed False t0 xs" using v by (auto simp: slices_to_def)
  have room: "room_for ?ps" using describes_room[OF d packed_room[OF t0] packed_partial(2)[OF t0]] .
  obtain t where t: "partialInputShape s (ctx_of W) = (Inr t, ctx_of W)" "packed True t ?ps"
    using partialInputShape_run[OF ds ok room] by auto
  have all: "?ps = xs" if kx
  proof -
    have "list_all (known_dim W) ds" using that know_shape[OF k(1,3)] ds by (auto simp: known_shape_iff)
    then show ?thesis using hd known_dim_value[OF g]
      by (auto simp: has_dims_def list_all2_conv_all_nth list_all_length intro!: nth_equalityI)
  qed
  obtain r' pfs where r: "validate_slice T bf ef sf t bm em elm nm sm newSliceOut = (Inr (), r')"
      "partialSizes (so_final_shape r') = Inr (Some pfs)" "describes_sizes pfs fs" "list_all is_size fs"
      "?ps = xs \<Longrightarrow> bf = Some bv \<Longrightarrow> ef = Some ev \<Longrightarrow> pfs = fs"
    using final_sizes[OF v t(2) d m] by metis
  have fin: "finalShape (ValidateStridedSliceOp (map_option (slice_vector T) bf) (map_option (slice_vector T) ef) (slice_vector T sf) t
      bm em elm nm sm) = Inr (so_final_shape r')"
    using r(1) by (simp add: finalShape_def validate_slice_def)
  note S = as[unfolded mask_attrs_def] ts[unfolded slice_tensors_def One_nat_def] l
  let ?k = "kx \<and> bf = Some bv \<and> ef = Some ev"
  show ?thesis
    unfolding sliceOutput_def
    apply (rule know_pure[where m = "partialInputShape s", OF t(1)])
    apply (rule know_GetMask[OF k(1,2)], use S in blast)+
    apply (rule know_input_tensor[OF k(1,2)], use S in simp)
    apply (rule know_input_tensor, assumption, rule k(2), use S in simp)
    apply (simp add: S fin r(2) liftR_Inr ret_bind)
    apply (rule know_bind[OF _ MakeShapeFromPartialTensorShape_gives[where k = ?k, OF _ r(3,4)], unfolded append.simps], assumption, assumption)
    subgoal using all r(5) by blast
    subgoal by (rule know_output_with_handle, assumption) (use k(2) l in auto)
    done
qed

text \<open>After the checks of the ranks and the sizes of begin, end and strides.\<close>

lemma after_checks_wp:
  assumes k: "know \<Gamma> W" "From W0 \<in> set \<Gamma>" "ShapeIs s xs kx \<in> set \<Gamma>" "DimIs d n kd \<in> set \<Gamma>" "k \<longrightarrow> kx \<and> kd \<and> bf = Some bv \<and> ef = Some ev \<and> vf = Some sf"
    and l: "length (outputs (ctx_of W0)) = 1" "handle_slots W0" "length (requested_input_tensor (ctx_of W0)) = 4" "length (input_tensors (ctx_of W0)) = 4"
    and as: "mask_attrs (attrs (ctx_of W0)) bm em elm nm sm" and ts: "slice_tensors (input_tensors (ctx_of W0)) T bf ef vf"
    and v: "slices_to T bv ev sf bm em elm nm sm xs fs" and m: "maybe_given bf bv" "maybe_given ef ev" "maybe_given vf sf"
  shows "wp (andThen (input_tensor 3) (\<lambda>strides_value.
     andThen (gets (\<lambda>c. RankKnown c s)) (\<lambda>rank_known.
     andThen (gets (\<lambda>c. DKnown c d)) (\<lambda>dim_known.
     case strides_value of
       None \<Rightarrow> andThen UnknownShape (set_output 0)
     | Some v \<Rightarrow> if \<not> rank_known \<or> \<not> dim_known then andThen UnknownShape (set_output 0) else sliceOutput s v))))
     (\<lambda>_ W'. shaped_as W0 k fs W') W"
proof (rule know_input_tensor[OF k(1,2)])
  show "0 \<le> (3 :: int) \<and> 3 < int (length (requested_input_tensor (ctx_of W0))) \<and> 3 < int (length (input_tensors (ctx_of W0)))"
    using l by simp
next
  fix W'
  assume k': "know \<Gamma> W'"
  have fs: "list_all is_size fs"
    using final_are_sizes[OF v] .
  let ?U = "andThen UnknownShape (set_output 0)"
  have u: "wp ?U (\<lambda>_ W'. shaped_as W0 k fs W') W'" if "\<not> k" by (rule unknown_output_wp[OF k'(1) k(2) l(1) fs that])
  have t: "input_tensors (ctx_of W0) ! nat 3 = map_option (slice_vector T) vf" using ts by (simp add: slice_tensors_def)
  have "wp (case map_option (slice_vector T) vf of None \<Rightarrow> ?U | Some v \<Rightarrow>
      if \<not> RankKnown (ctx_of W') s \<or> \<not> DKnown (ctx_of W') d then ?U else sliceOutput s v) (\<lambda>_ W'. shaped_as W0 k fs W') W'"
  proof (cases "vf = None \<or> \<not> RankKnown (ctx_of W') s \<or> \<not> DKnown (ctx_of W') d")
    case True
    have "\<not> k" using True k(5) know_unranked[OF k' k(3)] know_dim[OF k' k(4)] by (auto simp: known_dim_def)
    then show ?thesis using u True by (auto split: option.splits)
  next
    case False
    then have vf: "vf = Some sf" using m(3) by (auto simp: maybe_given_def)
    have "wp (sliceOutput s (slice_vector T sf)) (\<lambda>_ W'. shaped_as W0 (kx \<and> bf = Some bv \<and> ef = Some ev) fs W') W'"
      using sliceOutput_wp[OF k' k(2,3) _ l as ts[unfolded vf] v m(1,2)] False by blast
    then have "wp (sliceOutput s (slice_vector T sf)) (\<lambda>_ W'. shaped_as W0 k fs W') W'"
      by (rule wp_mono) (use k(5) in \<open>auto simp: shaped_as_def\<close>)
    then show ?thesis using False vf by simp
  qed
  then show "wp (andThen (gets (\<lambda>c. RankKnown c s)) (\<lambda>rank_known.
     andThen (gets (\<lambda>c. DKnown c d)) (\<lambda>dim_known.
     case input_tensors (ctx_of W0) ! nat 3 of None \<Rightarrow> ?U
     | Some v \<Rightarrow> if \<not> rank_known \<or> \<not> dim_known then ?U else sliceOutput s v))) (\<lambda>_ W'. shaped_as W0 k fs W') W'"
    unfolding t by (simp add: wp_def andThen_def gets_def)
qed

lemma StridedSliceShape_wp:
  assumes c: "called W [xs, [n], [n], [n]] 1" "handle_slots W"
    and as: "mask_attrs (attrs (ctx_of W)) bm em elm nm sm" and ts: "slice_tensors (input_tensors (ctx_of W)) T bf ef vf"
    and v: "slices_to T bv ev sf bm em elm nm sm xs fs" and m: "maybe_given bf bv" "maybe_given ef ev" "maybe_given vf sf"
  shows "wp StridedSliceShape
    (\<lambda>_ W'. shaped_as W (all_known W \<and> bf = Some bv \<and> ef = Some ev \<and> vf = Some sf) fs W') W"
proof -
  obtain s0 s1 s2 s3 where ins: "inputs (ctx_of W) = [s0, s1, s2, s3]"
    and know: "know [ShapeIs s0 xs (all_known W), ShapeIs s1 [n] (all_known W), ShapeIs s2 [n] (all_known W), ShapeIs s3 [n] (all_known W), From W] W"
    using call4[OF c(1)] by metis
  have l: "length (outputs (ctx_of W)) = 1" "length (requested_input_tensor (ctx_of W)) = 4" "length (input_tensors (ctx_of W)) = 4"
    using called_lengths[OF c(1)] c(1) by (simp_all add: called_def)
  note S = ins index_simps
  show ?thesis
    unfolding StridedSliceShape_def
    using know
    apply -
    apply (rule infer_do, assumption+, (rule fact_looks)+, ((simp add: S; fail)+)?)+
    apply (rule after_checks_wp[OF _ _ _ _ _ l(1) c(2) l(2,3) as ts v m], assumption, (rule fact_looks)+)
    apply simp
    done
qed

section \<open>The whole call\<close>

text \<open>
  C23. Shape inference for a strided slice describes what the kernel returns. For sizes of the input, begin, end and strides
  with which the validation of the kernel succeeds, \<open>Run\<close> succeeds on every call whose context knows any part of these
  sizes and any of the three vectors: no check fails, the output handle stands for the sizes of the result, and
  when everything is known it reports exactly these sizes and carries the handle data of the input.
\<close>

theorem StridedSliceShape_describes:
  assumes call: "called W [xs, [n], [n], [n]] 1" "handle_slots W" "mask_attrs (attrs (ctx_of W)) bm em elm nm sm"
    and kernel: "slices_to T bv ev sf bm em elm nm sm xs fs"
    and seen: "slice_tensors (input_tensors (ctx_of W)) T bf ef vf" "maybe_given bf bv" "maybe_given ef ev" "maybe_given vf sf"
  shows "\<exists>W'. Run StridedSliceShape (ctx_of W) = (Inr (), ctx_of W') \<and> step W W' \<and>
    list_all2 (has_shape W') (outputs (ctx_of W')) [fs] \<and>
    (all_known W \<and> bf = Some bv \<and> ef = Some ev \<and> vf = Some sf \<longrightarrow>
      map (ShapeHandleToProto (ctx_of W')) (outputs (ctx_of W')) = [\<lparr>unknown_rank = False, dim_sizes = fs\<rparr>] \<and>
      (\<forall>h. input_handle_shapes_and_types (ctx_of W) ! 0 = Some h \<longrightarrow> output_handle_shapes_and_types (ctx_of W') ! 0 = Some h))"
proof -
  have g: "good W" using call(1) by (simp add: called_def)
  let ?k = "all_known W \<and> bf = Some bv \<and> ef = Some ev \<and> vf = Some sf"
  have f: "input_handle_shapes_and_types (ctx_of (forget W)) = input_handle_shapes_and_types (ctx_of W)"
    using step_statics[OF forget_step[OF g]] by (simp add: same_statics_def)
  have fk: "shaped_as (forget W) ?k fs = shaped_as W ?k fs" by (intro ext) (simp add: shaped_as_def f)
  have "wp StridedSliceShape (\<lambda>_ W'. shaped_as W ?k fs W') (forget W)"
    unfolding fk[symmetric] using StridedSliceShape_wp[OF called_forget[OF call(1)] handles_step[OF forget_step[OF g] call(2)], of bm em elm nm sm T bf ef vf bv ev sf fs]
      call(3) kernel seen by (simp add: all_known_forget)
  then have "wp (Run StridedSliceShape) (\<lambda>_ W'. \<exists>x :: unit. shaped_as W ?k fs W') W"
    by (rule Run_sets[OF g]) (auto simp: shaped_as_def list_all2_Cons2 dest: has_shape_set)
  then obtain W' where r: "Run StridedSliceShape (ctx_of W) = (Inr (), ctx_of W')" "step W W'"
      and s: "shaped_as W ?k fs W'"
    unfolding wp_def by auto
  obtain o' where o: "outputs (ctx_of W') = [o']" "has_shape W' o' fs" using s by (auto simp: shaped_as_def list_all2_Cons2)
  have "ShapeHandleToProto (ctx_of W') o' = \<lparr>unknown_rank = False, dim_sizes = fs\<rparr>" if ?k
    by (rule known_proto[OF good_step[OF r(2)] o(2)]) (use s that o in \<open>simp add: shaped_as_def\<close>)
  then show ?thesis using r s o by (intro exI[of _ W']) (auto simp: shaped_as_def)
qed

text \<open>\<open>foo[?:3, ...]\<close> for a matrix \<open>foo\<close> of shape (4, 3) of which the context knows (?, 3).\<close>

definition no_masks :: attrs where
  "no_masks = [(''begin_mask'', A_i 0), (''end_mask'', A_i 0), (''ellipsis_mask'', A_i 2), (''new_axis_mask'', A_i 0),
     (''shrink_axis_mask'', A_i 0)]"

definition slice_sample :: world where
  "slice_sample = sample_call [[- 1, 3], [2], [2], [2]] [[4, 3], [2], [2], [2]]
     [None, None, Some (slice_vector DT_INT32 [3, 0]), Some (slice_vector DT_INT32 [1, 1])] 1 no_masks"

lemma rows_final: "packed False (so_final_shape rows_slice) [2, 3]"
proof -
  have "so_final_shape rows_slice = \<lparr>ts_rep = Rep16 [2, 3], ndims_byte = 2, num_elements = 6, ts_data_type = DT_INVALID\<rparr>"
    unfolding rows_slice_def by code_simp
  then show ?thesis by (simp add: packed_def stores_def rep_ok_def sizes_of_def fits_count_def count_of_def read16_def)
qed

lemma StridedSliceShape_describes_witness:
  "\<exists>W'. Run StridedSliceShape (ctx_of slice_sample) = (Inr (), ctx_of W') \<and> list_all2 (has_shape W') (outputs (ctx_of W')) [[2, 3]]"
proof -
  have c: "called slice_sample [[4, 3], [2], [2], [2]] 1"
    unfolding slice_sample_def by (rule called_sample_call) (simp_all add: seen_as_def is_size_def)
  have h: "handle_slots slice_sample" by (simp add: handle_slots_def slice_sample_def sample_call_def sample_ctx_def)
  have m: "mask_attrs (attrs (ctx_of slice_sample)) 0 0 2 0 0"
    by (simp add: mask_attrs_def slice_sample_def no_masks_def GetAttrInt32_eq in_int32_def)
  have t: "slice_tensors (input_tensors (ctx_of slice_sample)) DT_INT32 None (Some [3, 0]) (Some [1, 1])"
    by (simp add: slice_tensors_def slice_sample_def)
  have s: "slices_to DT_INT32 [1, 0] [3, 0] [1, 1] 0 0 2 0 0 [4, 3] [2, 3]"
    unfolding slices_to_def using rows_args matrix43_packed rows_result rows_final by auto
  have g: "maybe_given None [1 :: int, 0]" "maybe_given (Some [3, 0]) [3 :: int, 0]" "maybe_given (Some [1, 1]) [1 :: int, 1]"
    by (simp_all add: maybe_given_def)
  show ?thesis using StridedSliceShape_describes[OF c h m s t g] by blast
qed

text \<open>
  The sizes that the context knows need not be those of a tensor that exists: for an input of sizes \<open>(2^40, 2^40)\<close>
  the function does not return an error, it stops the program.
\<close>

lemma inferred_input_can_abort:
  "fst (StridedSliceShape (ctx_of (sample_call [[1099511627776, 1099511627776], [1], [1], [1]]
     [[1099511627776, 1099511627776], [1], [1], [1]] [None, None, None, Some (slice_vector DT_INT32 [1])] 1 no_masks))) =
   Inl (Fault CheckFailed)"
  by code_simp

end
