(* ===== verification/SliceAssign.thy ===== *)
theory SliceAssign
  imports SliceProps
begin

text \<open>
  Assigning to a slice: the value is broadcast to the slice by the rules of numpy, and remapped from the
  dimensions of the result to those of the slice that the kernel writes.
\<close>

section \<open>Broadcasting a value to the slice\<close>

text \<open>Sizes are aligned at the right; missing ones count as one.\<close>

definition from_right :: "int list \<Rightarrow> nat \<Rightarrow> int" where
  "from_right zs i = (if i < length zs then rev zs ! i else 1)"

definition factors :: "int list \<Rightarrow> int list \<Rightarrow> int list" where
  "factors rs ds = map2 (\<lambda>r d. if r = d then 1 else d) rs ds"

lemma list_update_mid: "i < length xs \<Longrightarrow> take (Suc i) (xs[i := x]) = take i xs @ [x]"
  by (simp add: take_Suc_conv_app_nth)

lemma bcastDims_run:
  "length (sb_reshape b) = i + length ds \<Longrightarrow> length (sb_bcast b) = i + length ds \<Longrightarrow>
   sb_reshape (bcastDims i ds b) = sb_reshape b \<and> sb_result_shape (bcastDims i ds b) = sb_result_shape b \<and>
   (if list_all2 (\<lambda>r d. r = d \<or> r = 1) (drop i (sb_reshape b)) ds
    then sb_valid (bcastDims i ds b) = sb_valid b \<and>
      sb_bcast (bcastDims i ds b) = take i (sb_bcast b) @ factors (drop i (sb_reshape b)) ds \<and>
      (sb_broadcasting_required (bcastDims i ds b) \<longleftrightarrow> sb_broadcasting_required b \<or> drop i (sb_reshape b) \<noteq> ds)
    else \<not> sb_valid (bcastDims i ds b))"
proof (induction ds arbitrary: i b)
  case Nil
  then show ?case by (simp add: factors_def)
next
  case (Cons d ds)
  have dr: "drop i (sb_reshape b) = sb_reshape b ! i # drop (Suc i) (sb_reshape b)"
    using Cons.prems(1) by (simp add: Cons_nth_drop_Suc)
  have l: "i < length (sb_bcast b)" using Cons.prems(2) by simp
  show ?case
  proof (cases "sb_reshape b ! i = d")
    case True
    then show ?thesis using Cons.IH[of "b\<lparr>sb_bcast := (sb_bcast b)[i := 1]\<rparr>" "Suc i"] Cons.prems list_update_mid[OF l, of 1]
      by (simp add: dr factors_def)
  next
    case False
    then show ?thesis
      using Cons.IH[of "b\<lparr>sb_bcast := (sb_bcast b)[i := d], sb_broadcasting_required := True\<rparr>" "Suc i"] Cons.prems
        list_update_mid[OF l, of d]
      by (cases "sb_reshape b ! i = 1") (auto simp: dr factors_def)
  qed
qed

lemma ones_prod: "\<not> list_ex (\<lambda>d. d \<noteq> 1) xs \<Longrightarrow> prod_list (xs :: int list) = 1"
  by (induction xs) auto

lemma aligned_iff:
  "(\<forall>i<max (length xs) (length ys). from_right xs i = from_right ys i \<or> from_right xs i = 1) \<longleftrightarrow>
   (let n = length ys; start = length xs - n in
     \<not> list_ex (\<lambda>d. d \<noteq> 1) (take start xs) \<and> list_all2 (\<lambda>r d. r = d \<or> r = 1) (replicate (n - length xs) 1 @ drop start xs) ys)"
proof -
  define n m where "n = length ys" "m = length xs"
  have rx: "from_right xs i = xs ! (m - Suc i)" if "i < m" for i using that by (simp add: from_right_def rev_nth n_m_def)
  have ry: "from_right ys i = ys ! (n - Suc i)" if "i < n" for i using that by (simp add: from_right_def rev_nth n_m_def)
  have one: "from_right xs i = 1" if "m \<le> i" for i using that by (simp add: from_right_def n_m_def)
  have oney: "from_right ys i = 1" if "n \<le> i" for i using that by (simp add: from_right_def n_m_def)
  show ?thesis
  proof (cases "m \<le> n")
    case True
    have "(\<forall>i<n. from_right xs i = from_right ys i \<or> from_right xs i = 1) \<longleftrightarrow>
        (\<forall>k<n. (replicate (n - m) 1 @ xs) ! k = ys ! k \<or> (replicate (n - m) 1 @ xs) ! k = 1)" (is "?L \<longleftrightarrow> ?R")
    proof
      assume L: ?L
      show ?R
      proof (intro allI impI)
        fix k assume k: "k < n"
        show "(replicate (n - m) 1 @ xs) ! k = ys ! k \<or> (replicate (n - m) 1 @ xs) ! k = 1"
        proof (cases "k < n - m")
          case False
          have e: "m - Suc (n - Suc k) = k - (n - m)" "n - Suc (n - Suc k) = k" using k False True by auto
          have "n - Suc k < m" using k False by simp
          then have "xs ! (k - (n - m)) = ys ! k \<or> xs ! (k - (n - m)) = 1"
            using L[rule_format, of "n - Suc k"] k rx[of "n - Suc k"] ry[of "n - Suc k"] unfolding e by simp
          then show ?thesis using False by (simp add: nth_append)
        qed (simp add: nth_append)
      qed
    next
      assume R: ?R
      show ?L
      proof (intro allI impI)
        fix i assume i: "i < n"
        show "from_right xs i = from_right ys i \<or> from_right xs i = 1"
        proof (cases "i < m")
          case im: True
          have "\<not> n - Suc i < n - m" "n - Suc i - (n - m) = m - Suc i" using im True i by auto
          then have "(replicate (n - m) 1 @ xs) ! (n - Suc i) = xs ! (m - Suc i)" by (simp add: nth_append)
          then show ?thesis using R[rule_format, of "n - Suc i"] i rx[OF im] ry[OF i] by simp
        qed (use one in simp)
      qed
    qed
    then show ?thesis using True unfolding Let_def n_m_def[symmetric] by (simp add: list_all2_conv_all_nth n_m_def max_def)
  next
    case False
    then have nm: "n < m" by simp
    have "(\<forall>i<m. from_right xs i = from_right ys i \<or> from_right xs i = 1) \<longleftrightarrow>
        (\<forall>k<m - n. xs ! k = 1) \<and> (\<forall>k<n. xs ! (m - n + k) = ys ! k \<or> xs ! (m - n + k) = 1)" (is "?L \<longleftrightarrow> ?R")
    proof
      assume L: ?L
      have "xs ! k = 1" if "k < m - n" for k
        using L[rule_format, of "m - Suc k"] rx[of "m - Suc k"] oney[of "m - Suc k"] that by auto
      moreover have "xs ! (m - n + k) = ys ! k \<or> xs ! (m - n + k) = 1" if "k < n" for k
      proof -
        have e: "m - Suc (n - Suc k) = m - n + k" "n - Suc (n - Suc k) = k" "n - Suc k < m" using that nm by auto
        show ?thesis using L[rule_format, OF e(3)] rx[OF e(3)] ry[of "n - Suc k"] that unfolding e by simp
      qed
      ultimately show ?R by blast
    next
      assume R: ?R
      show ?L
      proof (intro allI impI)
        fix i assume i: "i < m"
        show "from_right xs i = from_right ys i \<or> from_right xs i = 1"
        proof (cases "i < n")
          case True
          have "m - n + (n - Suc i) = m - Suc i" using True nm by simp
          then show ?thesis using R[THEN conjunct2, rule_format, of "n - Suc i"] rx[OF i] ry[OF True] True by simp
        next
          case False
          then have "m - Suc i < m - n" using i by simp
          then show ?thesis using R rx[OF i] by simp
        qed
      qed
    qed
    moreover have "max m n = m" using nm by simp
    moreover have "\<not> list_ex (\<lambda>d. d \<noteq> 1) (take (m - n) xs) \<longleftrightarrow> (\<forall>k<m - n. xs ! k = 1)"
      by (auto simp: list_ex_length n_m_def)
    moreover have "list_all2 (\<lambda>r d. r = d \<or> r = 1) (replicate (n - m) 1 @ drop (m - n) xs) ys \<longleftrightarrow>
        (\<forall>k<n. xs ! (m - n + k) = ys ! k \<or> xs ! (m - n + k) = 1)"
      using nm by (simp add: list_all2_conv_all_nth n_m_def)
    ultimately show ?thesis unfolding Let_def n_m_def[symmetric] by simp
  qed
qed

lemma StridedSliceAssignBCast_run:
  assumes b: "b = StridedSliceAssignBCast xs ys"
    and c: "c \<longleftrightarrow> (\<forall>i<max (length xs) (length ys). from_right xs i = from_right ys i \<or> from_right xs i = 1)"
  shows "sb_valid b = c \<and> (c \<longrightarrow> sb_result_shape b = ys \<and> length (sb_reshape b) = length ys \<and> prod_list (sb_reshape b) = prod_list xs \<and>
     sb_bcast b = factors (sb_reshape b) ys \<and> list_all2 (\<lambda>r d. r = d \<or> r = 1) (sb_reshape b) ys \<and>
     (sb_broadcasting_required b \<longleftrightarrow> sb_reshape b \<noteq> ys))"
proof -
  define n start where "n = length ys" "start = length xs - n"
  define r where "r = replicate (n - length xs) 1 @ drop start xs"
  define b0 where "b0 = \<lparr>sb_valid = True, sb_broadcasting_required = False, sb_reshape = r, sb_bcast = replicate n 0, sb_result_shape = ys\<rparr>"
  have lr: "length r = n" by (simp add: r_def n_start_def)
  have c': "c \<longleftrightarrow> \<not> list_ex (\<lambda>d. d \<noteq> 1) (take start xs) \<and> list_all2 (\<lambda>r d. r = d \<or> r = 1) r ys"
    unfolding c aligned_iff Let_def by (simp add: r_def n_start_def)
  show ?thesis
  proof (cases "list_ex (\<lambda>d. d \<noteq> 1) (take start xs)")
    case True
    then have "n < length xs" by (auto simp: n_start_def intro: ccontr)
    then have "\<not> sb_valid b" using True by (simp add: b StridedSliceAssignBCast_def Let_def n_start_def)
    then show ?thesis using True c' by simp
  next
    case False
    then have run: "b = bcastDims 0 ys b0" by (simp add: b StridedSliceAssignBCast_def Let_def n_start_def b0_def r_def)
    have "prod_list r = prod_list xs"
      using ones_prod[OF False] prod_list.append[of "take start xs" "drop start xs"] by (simp add: r_def)
    then show ?thesis using bcastDims_run[of b0 0 ys] False c' lr unfolding run by (auto simp: b0_def n_start_def)
  qed
qed

lemma factors_product:
  "list_all2 (\<lambda>r d. r = d \<or> r = 1) rs ds \<Longrightarrow> map2 (*) rs (factors rs ds) = ds"
  by (induction rs ds rule: list_all2_induct) (auto simp: factors_def)

text \<open>
  C25. A value can be assigned to a slice exactly when numpy broadcasts it: aligned at the right, every size of the
  value is one or that of the slice, and what the value has more is one. Then the value is reshaped
  to the rank of the slice without changing its number of elements, its sizes times the broadcast
  factors are those of the slice, and broadcasting is required exactly when the sizes differ.
\<close>

theorem StridedSliceAssignBCast_numpy:
  "let b = StridedSliceAssignBCast xs ys in
   sb_valid b = (\<forall>i<max (length xs) (length ys). from_right xs i = from_right ys i \<or> from_right xs i = 1) \<and>
   (sb_valid b \<longrightarrow> sb_result_shape b = ys \<and> length (sb_reshape b) = length ys \<and> prod_list (sb_reshape b) = prod_list xs \<and>
     map2 (*) (sb_reshape b) (sb_bcast b) = ys \<and> (sb_broadcasting_required b \<longleftrightarrow> sb_reshape b \<noteq> ys))"
  unfolding Let_def using StridedSliceAssignBCast_run[OF refl refl, of xs ys] by (simp add: factors_product)

lemma StridedSliceAssignBCast_numpy_witness:
  "sb_valid (StridedSliceAssignBCast [1, 1, 3] [2, 3]) \<and>
   map2 (*) (sb_reshape (StridedSliceAssignBCast [1, 1, 3] [2, 3])) (sb_bcast (StridedSliceAssignBCast [1, 1, 3] [2, 3])) = [2, 3]"
proof -
  have "sb_valid (StridedSliceAssignBCast [1, 1, 3] [2, 3])" by code_simp
  then show ?thesis using StridedSliceAssignBCast_numpy[of "[1, 1, 3]" "[2, 3]"] unfolding Let_def by blast
qed

section \<open>Remapping to the dimensions of the slice\<close>

text \<open>The values of the result in the places of their dimensions; the dimensions that are
  indexed have one.\<close>

fun spread :: "entry list \<Rightarrow> int list \<Rightarrow> int list" where
  "spread [] vs = []"
| "spread (NewAxis # es) vs = spread es (tl vs)"
| "spread (Single _ # es) vs = 1 # spread es vs"
| "spread (Whole _ # es) vs = hd vs # spread es (tl vs)"
| "spread (Slice _ # es) vs = hd vs # spread es (tl vs)"

lemma length_spread: "length (spread es vs) = length (axes es)"
  by (induction es vs rule: spread.induct) auto

lemma length_out_dims: "length (out_dims k es) = length (out_sizes zs es)"
proof (induction es arbitrary: k zs)
  case (Cons e es)
  then show ?case by (cases e) simp_all
qed simp

lemma spread_sizes: "length zs = length (axes es) \<Longrightarrow> drops_ones zs es \<Longrightarrow> spread es (out_sizes zs es) = zs"
proof (induction es arbitrary: zs)
  case (Cons e es)
  then show ?case by (cases e; cases zs) auto
qed simp

lemma spread_times:
  "length rs = length (out_dims k es) \<Longrightarrow> length cs = length rs \<Longrightarrow>
   spread es (map2 (*) rs cs) = map2 (*) (spread es rs) (spread es cs)"
proof (induction es arbitrary: rs cs k)
  case (Cons e es)
  show ?case
  proof (cases e)
    case (Single i)
    then show ?thesis using Cons by simp
  next
    case NewAxis
    then show ?thesis using Cons.IH[of "tl rs" k "tl cs"] Cons.prems by (cases rs; cases cs) auto
  next
    case (Whole i)
    then show ?thesis using Cons.IH[of "tl rs" "Suc k" "tl cs"] Cons.prems by (cases rs; cases cs) auto
  next
    case (Slice i)
    then show ?thesis using Cons.IH[of "tl rs" "Suc k" "tl cs"] Cons.prems by (cases rs; cases cs) auto
  qed
qed simp

lemma spread_prod:
  "list_all2 (\<lambda>r d. r = d \<or> r = 1) rs (out_sizes zs es) \<Longrightarrow> prod_list (spread es rs) = prod_list rs"
proof (induction es arbitrary: rs zs)
  case (Cons e es)
  show ?case
  proof (cases e)
    case (Single i)
    then show ?thesis using Cons.IH[of rs "tl zs"] Cons.prems by simp
  next
    case NewAxis
    then show ?thesis using Cons.IH[of "tl rs" zs] Cons.prems by (cases rs) auto
  next
    case (Whole i)
    then show ?thesis using Cons.IH[of "tl rs" "tl zs"] Cons.prems by (cases rs) auto
  next
    case (Slice i)
    then show ?thesis using Cons.IH[of "tl rs" "tl zs"] Cons.prems by (cases rs) auto
  qed
qed simp

lemma out_dims_bound: "d \<in> set (out_dims k es) \<Longrightarrow> d < int (k + length (axes es))"
proof (induction es arbitrary: k)
  case (Cons e es)
  then show ?case using Cons.IH[of k] Cons.IH[of "Suc k"] by (cases e) fastforce+
qed simp

lemma update_next: "(pre @ x # ys)[length pre := v] = (pre @ [v]) @ ys"
  by simp

text \<open>The loop of \<open>RemapDimensions\<close>, from index \<open>i\<close> of the result and dimension \<open>k\<close> of the slice.\<close>

lemma remapDims_run:
  assumes "length (sb_reshape old) = i + length (out_dims k es)" "length (sb_bcast old) = i + length (out_dims k es)"
    "length (sb_result_shape old) = i + length (out_dims k es)"
    "sb_reshape b = pr @ replicate (length (axes es)) 1" "sb_bcast b = pc @ replicate (length (axes es)) 1"
    "sb_result_shape b = pd @ replicate (length (axes es)) 1" "length pr = k" "length pc = k" "length pd = k"
  shows "remapDims (out_dims k es) old i b = Inr (b\<lparr>sb_reshape := pr @ spread es (drop i (sb_reshape old)),
    sb_bcast := pc @ spread es (drop i (sb_bcast old)), sb_result_shape := pd @ spread es (drop i (sb_result_shape old))\<rparr>)"
  using assms
proof (induction es arbitrary: i k b pr pc pd)
  case Nil
  then show ?case by simp
next
  case (Cons e es)
  have dr: "tl (drop i v) = drop (Suc i) v" for v :: "int list" by (simp add: drop_Suc tl_drop)
  have keep: ?case if e: "out_dims k (e # es) = int k # out_dims (Suc k) es" "\<And>vs. spread (e # es) vs = hd vs # spread es (tl vs)" "e \<noteq> NewAxis"
  proof -
    have l: "i < length (sb_reshape old)" "i < length (sb_bcast old)" "i < length (sb_result_shape old)"
      using Cons.prems(1-3) e(1) by simp_all
    define b1 where "b1 = b\<lparr>sb_reshape := (pr @ [sb_reshape old ! i]) @ replicate (length (axes es)) 1,
      sb_bcast := (pc @ [sb_bcast old ! i]) @ replicate (length (axes es)) 1,
      sb_result_shape := (pd @ [sb_result_shape old ! i]) @ replicate (length (axes es)) 1\<rparr>"
    have "remapDims (out_dims k (e # es)) old i b = remapDims (out_dims (Suc k) es) old (Suc i) b1"
      using l Cons.prems(4-9) e(3) by (simp add: e(1) b1_def list_update_append)
    also have "\<dots> = Inr (b1\<lparr>sb_reshape := (pr @ [sb_reshape old ! i]) @ spread es (drop (Suc i) (sb_reshape old)),
        sb_bcast := (pc @ [sb_bcast old ! i]) @ spread es (drop (Suc i) (sb_bcast old)),
        sb_result_shape := (pd @ [sb_result_shape old ! i]) @ spread es (drop (Suc i) (sb_result_shape old))\<rparr>)"
      by (rule Cons.IH) (use Cons.prems e(1) in \<open>simp_all add: b1_def\<close>)
    finally show ?thesis using l by (simp add: b1_def e(2) hd_drop_conv_nth dr)
  qed
  show ?case
  proof (cases e)
    case (Whole j)
    then show ?thesis using keep by simp
  next
    case NewAxis
    have "remapDims (out_dims k (e # es)) old i b = remapDims (out_dims k es) old (Suc i) b" using NewAxis by simp
    also have "\<dots> = Inr (b\<lparr>sb_reshape := pr @ spread es (drop (Suc i) (sb_reshape old)),
        sb_bcast := pc @ spread es (drop (Suc i) (sb_bcast old)), sb_result_shape := pd @ spread es (drop (Suc i) (sb_result_shape old))\<rparr>)"
      by (rule Cons.IH) (use Cons.prems NewAxis in simp_all)
    finally show ?thesis using NewAxis by (simp add: dr)
  next
    case (Single j)
    have "remapDims (out_dims k (e # es)) old i b = remapDims (out_dims (Suc k) es) old i b" using Single by simp
    also have "\<dots> = Inr (b\<lparr>sb_reshape := (pr @ [1]) @ spread es (drop i (sb_reshape old)),
        sb_bcast := (pc @ [1]) @ spread es (drop i (sb_bcast old)), sb_result_shape := (pd @ [1]) @ spread es (drop i (sb_result_shape old))\<rparr>)"
      by (rule Cons.IH) (use Cons.prems Single in simp_all)
    finally show ?thesis using Single by simp
  next
    case (Slice j)
    then show ?thesis using keep by simp
  qed
qed

text \<open>
  C17. The value that is assigned fits the slice that the kernel writes. After a successful validation with
  the output mappings and a broadcast that is valid for the result, remapping with the
  mapping of the validation succeeds: the shape to broadcast to is then that of the slice, the reshaped
  value still has its number of elements, and its sizes times the factors are the sizes of the slice.
\<close>

theorem assigned_value_fits_slice:
  assumes "slice_args T (Some bv) (Some ev) sf elm" and "packed False t xs" and "length xs \<le> 32"
    and "validate_full T bv ev sf t bm em elm nm sm s = (Inr (), s')" and "so_shape_spec s = Some spec0"
    and "packed False (so_final_shape s') fs" and "b = StridedSliceAssignBCast vs fs" and "sb_valid b"
  shows "\<exists>zs spec b'. packed False (so_processing_shape s') zs \<and> so_shape_spec s' = Some spec \<and>
      RemapDimensions (int (length xs)) (output_to_processing_mapping spec) b = (Inr True, b') \<and>
      sb_result_shape b' = zs \<and> prod_list (sb_reshape b') = prod_list vs \<and> map2 (*) (sb_reshape b') (sb_bcast b') = zs"
proof -
  define sp where "sp = slice_spec T (Some bv) (Some ev) sf bm em elm nm sm"
  obtain es outs where es: "slice_axes sp (Some bv) (Some ev) sf xs es = Inr outs"
    and r: "slice_result False sp (Some bv) (Some ev) sf xs es outs s s'" and l: "length (axes es) = length xs" "length outs = length xs"
    using validate_full_Inr[OF assms(1-4), folded sp_def] by metis
  define zs where "zs = sizes_out outs"
  have lz: "length zs = length xs" using l by (simp add: zs_def sizes_out_def)
  have p: "packed False (so_processing_shape s') zs" "packed False (so_final_shape s') (out_sizes zs es)"
    using r by (auto simp: slice_result_def Let_def zs_def)
  then have fs: "fs = out_sizes zs es" using assms(6) by (simp add: packed_def stores_def)
  obtain spec where spec: "so_shape_spec s' = Some spec" "output_to_processing_mapping spec = out_dims 0 es"
    using r assms(5) by (auto simp: slice_result_def Let_def)
  have drops: "drops_ones zs es"
    using drops_ones_iff[of zs es] shrunk_ones[OF es[unfolded slice_axes_def] _ packed_partial(1)[OF assms(2)]] l lz
    by (simp add: zs_def sizes_out_def)
  note B = StridedSliceAssignBCast_run[OF assms(7) refl]
  have b: "sb_result_shape b = fs" "length (sb_reshape b) = length fs" "prod_list (sb_reshape b) = prod_list vs"
      "sb_bcast b = factors (sb_reshape b) fs" "list_all2 (\<lambda>r d. r = d \<or> r = 1) (sb_reshape b) fs"
    using B assms(8) by auto
  define n where "n = length xs"
  define b1 where "b1 = b\<lparr>sb_reshape := replicate n 1, sb_bcast := replicate n 1, sb_result_shape := replicate n 1\<rparr>"
  define b' where "b' = b1\<lparr>sb_reshape := spread es (sb_reshape b), sb_bcast := spread es (sb_bcast b), sb_result_shape := spread es (sb_result_shape b)\<rparr>"
  have lens: "length (out_dims 0 es) = length fs" "length (sb_bcast b) = length fs"
    using length_out_dims[of 0 es zs] b(2,4) by (simp_all add: fs factors_def)
  have bound: "\<not> list_ex (\<lambda>dim. dim \<ge> int n) (out_dims 0 es)" using out_dims_bound[of _ 0 es] l by (force simp: list_ex_iff n_def)
  have "remapDims (out_dims 0 es) b 0 b1 = Inr b'"
    using remapDims_run[of b 0 0 es b1 "[]" "[]" "[]"] b lens l by (simp add: b1_def b'_def n_def)
  then have run: "RemapDimensions (int n) (out_dims 0 es) b = (Inr True, b')"
    using lens b(1) bound by (simp add: RemapDimensions_def op_simps andThen_def b1_def Let_def)
  have "sb_result_shape b' = zs" using spread_sizes[OF _ drops] lz l b(1) by (simp add: b'_def fs)
  moreover have "prod_list (sb_reshape b') = prod_list vs" using spread_prod[OF b(5)[unfolded fs]] b(3) by (simp add: b'_def)
  moreover have "map2 (*) (sb_reshape b') (sb_bcast b') = zs"
    using spread_times[of "sb_reshape b" 0 es "sb_bcast b"] lens b(2,4) factors_product[OF b(5)] spread_sizes[OF _ drops] lz l
    by (simp add: b'_def fs)
  ultimately show ?thesis using p(1) spec run unfolding n_def by auto
qed

text \<open>\<open>foo[1, newaxis, ...]\<close> for the matrix of the example, with the mappings.\<close>

definition row_slice :: slice_out where
  "row_slice = snd (validate_full DT_INT32 [1, 0] [0, 0] [1, 1] matrix43 0 0 0 2 1
     (no_slice\<lparr>so_shape_spec := Some \<lparr>begin_dense_mask = 0, end_dense_mask = 0, shrink_axis_dense_mask = 0,
       output_to_sparse_mapping = [], output_to_processing_mapping = [], processing_to_sparse_mapping = []\<rparr>\<rparr>))"

lemma row_args: "slice_args DT_INT32 (Some [1, 0]) (Some [0, 0]) [1, 1] 0"
  using one_bit_push(2) by (simp add: slice_args_def index_vector_def in_int64_def)

lemma row_result:
  "validate_full DT_INT32 [1, 0] [0, 0] [1, 1] matrix43 0 0 0 2 1
     (no_slice\<lparr>so_shape_spec := Some \<lparr>begin_dense_mask = 0, end_dense_mask = 0, shrink_axis_dense_mask = 0,
       output_to_sparse_mapping = [], output_to_processing_mapping = [], processing_to_sparse_mapping = []\<rparr>\<rparr>) = (Inr (), row_slice)"
proof -
  have "fst (validate_full DT_INT32 [1, 0] [0, 0] [1, 1] matrix43 0 0 0 2 1
     (no_slice\<lparr>so_shape_spec := Some \<lparr>begin_dense_mask = 0, end_dense_mask = 0, shrink_axis_dense_mask = 0,
       output_to_sparse_mapping = [], output_to_processing_mapping = [], processing_to_sparse_mapping = []\<rparr>\<rparr>)) = Inr ()" by code_simp
  then show ?thesis by (simp add: row_slice_def prod_eq_iff)
qed

lemma row_values:
  "so_final_shape row_slice = \<lparr>ts_rep = Rep16 [1, 3], ndims_byte = 2, num_elements = 3, ts_data_type = DT_INVALID\<rparr> \<and>
   sb_valid (StridedSliceAssignBCast [3] [1, 3])"
  unfolding row_slice_def by code_simp

lemma assigned_value_fits_slice_witness:
  "\<exists>zs spec b'. packed False (so_processing_shape row_slice) zs \<and> so_shape_spec row_slice = Some spec \<and>
     RemapDimensions 2 (output_to_processing_mapping spec) (StridedSliceAssignBCast [3] [1, 3]) = (Inr True, b') \<and>
     sb_result_shape b' = zs \<and> map2 (*) (sb_reshape b') (sb_bcast b') = zs"
proof -
  have f: "packed False (so_final_shape row_slice) [1, 3]"
    by (simp add: row_values packed_def stores_def rep_ok_def sizes_of_def fits_count_def count_of_def read16_def)
  have l: "length [4, 3 :: int] \<le> 32" "int (length [4, 3 :: int]) = 2" by simp_all
  have v: "sb_valid (StridedSliceAssignBCast [3] [1, 3])" using row_values by blast
  show ?thesis
    using assigned_value_fits_slice[OF row_args matrix43_packed l(1) row_result _ f refl v, unfolded l(2)] by auto
qed

end
