(* ===== verification/SliceNumpy.thy ===== *)
theory SliceNumpy
  imports SliceProps PySlices
begin

text \<open>
  What the validation computes, against numpy: a strided slice of an input of known sizes is given by the list of positions it
  takes in each dimension, and the bounds, the strides and the sizes that the code computes are those of these lists.
\<close>

section \<open>The positions of one dimension\<close>







section \<open>All dimensions\<close>







end
