(* ===== verification/Spec2Isabelle.thy ===== *)
theory Spec2Isabelle
  imports ConvSound SafeFns MergeView EinsumSafe ConvMore PoolFns DiagFns SparseFns ContextLife FormatSound ArenaSound
    MatMulBCast PlannerResolve StridedSliceFn SliceAssign SliceNumpy
begin

text \<open>
  A verification development for the static shape system of TensorFlow, its broadcasting and slicing at
  run time, and the memory planner of TensorFlow Lite. Paths below are relative to \<open>src/tensorflow-master/tensorflow/\<close>.

  \<^bold>\<open>The program.\<close> Before a graph runs, every node's shape function computes what is known of the
  shapes of its outputs. It works on an \<open>InferenceContext\<close> (\<open>core/framework/shape_inference\<close>),
  which owns an arena of dimensions and one of shapes, both possibly unknown, the handles of the
  node's inputs and outputs, its attributes, the constant tensors among its inputs, and a record
  of the dimensions and shapes it has merged. The shape functions
  (\<open>core/framework/common_shape_fns\<close>, \<open>core/util/einsum_op_util\<close>) call its shape algebra; they use
  data formats (\<open>core/util/tensor_format\<close>), paddings (\<open>core/util/padding\<close>) and checked 64-bit
  arithmetic (\<open>core/util/overflow.h\<close>). At run time the kernels hold the shape of a tensor packed
  into 16 bytes (\<open>core/framework/tensor_shape\<close>), compute window sizes themselves
  (\<open>core/framework/kernel_shape_util\<close>) and broadcast by \<open>core/util/bcast.h\<close>,
  matrix products by \<open>core/util/matmul_bcast.h\<close>. Strided slices are brought into a canonical form by
  one function (\<open>core/util/strided_slice_op\<close>), which the shape function of \<open>StridedSlice\<close>
  (\<open>core/ops/array_ops.cc\<close>) calls with partial knowledge. In TensorFlow Lite \<open>lite/arena_planner\<close> decides
  from a graph between which nodes each tensor needs memory and which tensors share it, and places
  them in the buffers of two arenas (\<open>lite/simple_memory_arena\<close>).

  \<^bold>\<open>Conventions\<close> (\<open>Prelude\<close>). A function that can fail returns \<open>'a res\<close>: a value, a status code or a
  fault. A fault is a failed check, an index out of range, a signed overflow, an uninitialised
  read, an endless loop: what stops the program or has no defined behaviour. A method is an \<open>op\<close>:
  a function from the state of its object to a result and the new state. The state on failure is
  kept, so that what a failed operation leaves behind can be stated. Debug checks count as checks.
  \<open>int64_t\<close> values are integers with their bounds written out where the code computes with them,
  \<open>size_t\<close> and packed sizes are machine words.

  \<^bold>\<open>Theories that model code.\<close>
  \<^item> \<open>Overflow\<close>: \<open>MultiplyWithoutOverflow\<close>, \<open>AddWithoutOverflow\<close> on words, interface \<open>checked_mul\<close>.
  \<^item> \<open>Attrs\<close>: data types, tensors, protos, attributes and their readers.
  \<^item> \<open>ShapeCtx\<close>, \<open>ShapeOps\<close>, \<open>DimArith\<close>, \<open>TensorInput\<close>, \<open>HandleData\<close>, \<open>ContextLife\<close>: the state of
    \<open>InferenceContext\<close> (record \<open>ctx\<close>: the arenas are \<open>all_dims\<close> and \<open>all_shapes\<close>, a handle is an
    index) and its methods, by the names of the methods.
  \<^item> \<open>TensorFormat\<close>, \<open>Windowed\<close>: formats, paddings, window sizes. \<open>FormatShapes\<close>: shapes by format,
    interface \<open>layout\<close> (the positions of the letters are a permutation), interpreted on the tables.
  \<^item> \<open>BasicFns\<close>, \<open>ConvFns\<close>, \<open>ConvMore\<close>, \<open>PoolFns\<close>, \<open>DiagFns\<close>, \<open>ArrayFns\<close>, \<open>SparseFns\<close>, \<open>EinsumFns\<close>: the
    shape functions, one definition each.
  \<^item> \<open>TensorShapes\<close>, \<open>TensorShapeOps\<close>: packed shapes (record \<open>tensor_shape\<close>, datatype \<open>shape_rep\<close>);
    the template parameter \<open>kIsPartial\<close> is the argument \<open>partial\<close>.
  \<^item> \<open>Broadcast\<close>: the constructor of \<open>BCastList\<close> for any number of inputs (\<open>columnLoop\<close> walks over
    the dimensions from the last, \<open>stepColumn\<close> is its body and joins dimensions), \<open>BCast\<close> and the
    batch indices. \<open>MatMulBCast\<close>: the matrices behind the batch dimensions, with their property.
  \<^item> \<open>StridedSlice\<close>: the masks (32-bit words), the sparse and the dense specification (records
    \<open>sparse_spec\<close>, \<open>dense_spec\<close>), \<open>BuildDenseSpec\<close> (\<open>sparseStep\<close> is the body of its loop),
    \<open>ValidateStridedSliceOp\<close> on the record \<open>slice_out\<close> of what its pointers point to (\<open>sliceDim\<close> is
    the loop over the input, \<open>gatherDim\<close> the one over the result), and the class \<open>StridedSliceAssignBCast\<close>.
    \<open>StridedSliceFn\<close>: the shape function, which reads the context into a packed shape and calls the
    validation (\<open>sliceOutput\<close>); with its soundness for \<open>Run\<close>, where the three layers meet.
  \<^item> \<open>MemoryArena\<close>: the arena (record \<open>arena\<close>) and the buffer below it. \<open>ArenaPlanner\<close>: the planner
    (record \<open>planner\<close>, whose fields are the members of the class; record \<open>graph_info\<close> for the
    graph it reads through the interface \<open>GraphInfo\<close>) and its operations; the lambdas of
    \<open>PlanAllocations\<close> are \<open>allocateAt\<close> and \<open>deallocateAt\<close>.

  \<^bold>\<open>Theories of proofs.\<close>
  \<^item> \<open>PySlices\<close>: slices as Python has them, for sub-shapes and strided slices.
  \<^item> \<open>ShapeModels\<close>, \<open>ShapeRules\<close>, \<open>MergeRules\<close>, \<open>SubRules\<close>, \<open>ArithRules\<close>: an environment gives the
    dimensions and shapes of a context their actual sizes; \<open>wp m Q\<close> says that \<open>m\<close> succeeds and that
    the environment extends to the new handles such that \<open>Q\<close>. One rule per operation. \<open>Facts\<close>,
    \<open>FactRules\<close>, \<open>CallRules\<close>: the same as lists of facts, so that the proof of a shape function
    follows its text. \<open>Inference\<close>: the interface \<open>inference_fn\<close> of a shape function that describes
    the runs of its operation; \<open>BasicSound\<close> and \<open>ConvSound\<close> interpret it.
  \<^item> \<open>SafeRules\<close>, \<open>SafeCalls\<close>: on any well-formed context, legal call or not; interface \<open>safe_fn\<close>,
    interpreted in \<open>SafeFns\<close> and \<open>EinsumSafe\<close>.
  \<^item> \<open>Exact\<close>, \<open>SubExact\<close>, \<open>WindowSound\<close>, \<open>HandleSound\<close>, \<open>MergeView\<close>, \<open>EinsumSound\<close>: exact results.
    Merging is the meet and relaxing the join of what two shapes describe.
  \<^item> \<open>TensorShapeRep\<close>, \<open>TensorShapeSound\<close>, \<open>TensorShapeRefine\<close>, \<open>TensorShapeBuild\<close>,
    \<open>TensorShapeProtos\<close>, \<open>TensorShapeCompare\<close>, \<open>TensorShapeErrors\<close>: packed shapes refine lists of
    sizes, what is left of them after an error, and the merge of partial shapes, which is the same meet
    (into a third shape; the datatype \<open>merge_result\<close> says where the result points). \<open>FormatSound\<close>: formats.
  \<^item> \<open>BroadcastSound\<close>, \<open>BroadcastIndices\<close>, \<open>BroadcastPair\<close>: the elements that broadcasting by the
    numpy rule reads (\<open>sourceElement\<close>) against the joined dimensions the loop leaves; the invariant
    is \<open>grouped\<close>: every joined dimension stands for a run of original ones that broadcast alike.
  \<^item> \<open>SliceDense\<close>: the dense specification is the numpy expansion of the entries (datatype \<open>entry\<close>,
    relation \<open>dense_of\<close>). \<open>SliceRun\<close>, \<open>SliceShapes\<close>, \<open>SliceValidate\<close>: one outcome per dimension
    (\<open>axis_out\<close>), the sizes of the result, the whole run. \<open>SliceKnown\<close>, \<open>SliceProps\<close>,
    \<open>SliceNumpy\<close>: inputs of known sizes; what a kernel reads, what the flags mean, and the positions
    that numpy takes. \<open>SlicePartial\<close>: partial knowledge describes the full
    result. \<open>SliceAssign\<close>: the value that is assigned fits the slice after its dimensions are remapped.
  \<^item> \<open>ArenaSound\<close>: the arena as a step relation over its operations in the order of use, and the
    invariant of every reachable state.
  \<^item> \<open>PlannerLifetimes\<close>: on graphs in order (\<open>in_order\<close>) planning succeeds and the lifetime of a
    piece of memory contains every use (\<open>releaseInv\<close>, \<open>sharedInv\<close>). \<open>PlannerReady\<close>,
    \<open>PlannerLayout\<close>, \<open>PlannerResolve\<close>: executing the plan, with the arena's invariant; the
    tensors of a node do not overlap. Operations that may run out of memory are treated by
    \<open>outcome\<close>: the postcondition holds or the status is \<open>kTfLiteError\<close>.

  \<^bold>\<open>Bounds and fuel.\<close> Where a call may be illegal, the ranks of its inputs are at most \<open>max_rank\<close>, 2^28;
  the theorems that need room to append two dimensions ask for \<open>small_rank\<close>. A packed shape has at
  most 254 dimensions, and its sizes and the products up to the first unknown size fit 64 bits
  (\<open>room_for\<close>). The loop of \<open>Subshape\<close> that need not end is a \<open>partial_function\<close>; the property
  about it says exactly when it ends. Iteration over a shape of unknown rank (\<open>endlessDims\<close>) runs
  2147483648 times before its index overflows; it always fails after at most 255 of them.
  The slice properties are for inputs of at most 32 dimensions and fewer than 32 entries, as the masks
  have 32 bits, and for an ellipsis mask without bit 31, whose predecessor overflows.
  The broadcasting properties assume that the sizes and the product of the output fit 64 bits
  (\<open>bcastFits\<close>). \<open>resolveTensor\<close> follows owners at most once more than there are tensors; an owner
  never shares, so two steps are enough.

  \<^bold>\<open>Not modelled.\<close> Error messages and debug strings; the full type of an op; conversions to Eigen
  types; ownership of the out-of-line vector of a shape; null output pointers; profiler hooks and
  debug dumps. The order in which a hash set of the planner is iterated is an argument, and its
  reference counts are unbounded.
  \<open>absl::StrSplit\<close>, \<open>full_type::SpecializeType\<close> and \<open>aligned_alloc\<close> are arguments.
  The order in which \<open>std::sort\<close> leaves elements that compare equal is that of a stable sort here;
  no property depends on it. Graph construction, executors, kernels, devices, compilers and
  language bindings are other systems.
\<close>

end
